(* ===== verification/Fux_Prelude.thy ===== *)
theory Fux_Prelude
  imports Main "HOL-Library.Word"
begin

text \<open>
  What every theory of the development shares: the outcome type that stands for the
  return-code-and-error convention of the C API, unsigned 32-bit arithmetic written out
  on \<open>nat\<close>, the linear search that the shared-memory tables use, and generic list
  lemmas. The collection \<open>u32_simps\<close> rewrites wrapped arithmetic that does not
  wrap.
\<close>

unbundle bit_operations_syntax

named_theorems u32_simps

subsection \<open>Outcomes\<close>

text \<open>
  An operation of the C API either returns a value, or records an error number in
  thread-local storage and returns -1 or a null pointer (\<open>Err\<close>), or does something
  the C++ standard leaves undefined, such as reading past the end of the object it was
  given (\<open>Stuck\<close>).
\<close>

datatype 'a outcome = Ret 'a | Err int | Stuck

primrec bind_outcome :: "'a outcome \<Rightarrow> ('a \<Rightarrow> 'b outcome) \<Rightarrow> 'b outcome" where
  "bind_outcome (Ret a) f = f a"
| "bind_outcome (Err e) f = Err e"
| "bind_outcome Stuck f = Stuck"

lemma bind_outcome_eq_Ret:
  "bind_outcome x f = Ret b \<longleftrightarrow> (\<exists>a. x = Ret a \<and> f a = Ret b)"
  by (cases x) auto

subsection \<open>Unsigned 32-bit arithmetic on nat\<close>

definition u32 :: "int \<Rightarrow> nat" where
  "u32 i = nat (i mod 2 ^ 32)"

lemma u32_id [u32_simps]: "0 \<le> i \<Longrightarrow> i < 2 ^ 32 \<Longrightarrow> u32 i = nat i"
  by (simp add: u32_def)

lemma u32_of_nat [u32_simps]: "n < 2 ^ 32 \<Longrightarrow> u32 (int n) = n"
  by (simp add: u32_def)

lemma u32_less: "u32 i < 2 ^ 32"
proof -
  have "i mod 2 ^ 32 < 2 ^ 32" and "0 \<le> i mod 2 ^ 32" by simp_all
  then show ?thesis by (simp add: u32_def nat_less_iff)
qed

lemma u32_add [u32_simps]:
  "0 \<le> int a + d \<Longrightarrow> int a + d < 2 ^ 32 \<Longrightarrow> u32 (int a + d) = nat (int a + d)"
  by (rule u32_id)

subsection \<open>Linear search\<close>

text \<open>
  The position of the first element that satisfies a predicate: the shape of every
  lookup loop over the shared-memory tables (\<open>for (i = 0; i < len; i++) if (...) return
  i;\<close>), with \<open>None\<close> for falling out of the loop.
\<close>

fun search_from :: "nat \<Rightarrow> ('a \<Rightarrow> bool) \<Rightarrow> 'a list \<Rightarrow> nat option" where
  "search_from i P [] = None"
| "search_from i P (x # xs) = (if P x then Some i else search_from (Suc i) P xs)"

abbreviation search :: "('a \<Rightarrow> bool) \<Rightarrow> 'a list \<Rightarrow> nat option" where
  "search \<equiv> search_from 0"

lemma search_from_Some:
  "search_from i P xs = Some j \<longleftrightarrow>
     i \<le> j \<and> j - i < length xs \<and> P (xs ! (j - i)) \<and> (\<forall>k < j - i. \<not> P (xs ! k))"
proof (induction xs arbitrary: i)
  case Nil
  then show ?case by simp
next
  case (Cons x xs)
  show ?case
  proof (cases "P x")
    case True
    then show ?thesis by (auto simp: nth_Cons' split: if_splits)
  next
    case False
    have shift: "(\<forall>k < Suc n. \<not> P ((x # xs) ! k)) \<longleftrightarrow> (\<forall>k < n. \<not> P (xs ! k))" for n
      using False by (auto simp: less_Suc_eq_0_disj)
    show ?thesis
    proof (cases "j \<le> i")
      case True
      then show ?thesis using False Cons.IH [of "Suc i"] by auto
    next
      case nle: False
      then obtain n where n: "j - i = Suc n" and n': "j - Suc i = n" by (metis Suc_diff_Suc not_le)
      show ?thesis using False nle Cons.IH [of "Suc i"] shift [of n] by (simp add: n n')
    qed
  qed
qed

lemma search_Some:
  "search P xs = Some j \<longleftrightarrow> j < length xs \<and> P (xs ! j) \<and> (\<forall>k < j. \<not> P (xs ! k))"
  by (simp add: search_from_Some)

lemma search_from_None: "search_from i P xs = None \<longleftrightarrow> (\<forall>x \<in> set xs. \<not> P x)"
  by (induction xs arbitrary: i) auto

lemma search_from_shift: "search_from (k + i) P xs = map_option (\<lambda>j. k + j) (search_from i P xs)"
  by (induction xs arbitrary: i) (auto simp flip: add_Suc_right)

lemma search_from_append:
  "search_from i P (xs @ ys) =
     (case search_from i P xs of Some j \<Rightarrow> Some j | None \<Rightarrow> search_from (i + length xs) P ys)"
  by (induction xs arbitrary: i) (auto split: option.splits)

lemma search_from_cong:
  "(\<And>x. x \<in> set xs \<Longrightarrow> P x = Q x) \<Longrightarrow> search_from i P xs = search_from i Q xs"
  by (induction xs arbitrary: i) auto

end
