(* ===== verification/Byte_Memory.thy ===== *)
theory Byte_Memory
  imports Fux_Prelude
begin

text \<open>
  Byte-addressed memory as the code of src/fbfr32.h uses it: reads and writes of runs of
  bytes, \<open>memmove\<close>, and the little-endian layout of 32-bit integers. Addresses are
  offsets from the start of an object; the memory is total, so that writing past the end
  of an object is visible as a change at an offset the object does not own.
\<close>

type_synonym byte = "8 word"
type_synonym mem = "nat \<Rightarrow> byte"

definition rd :: "nat \<Rightarrow> nat \<Rightarrow> mem \<Rightarrow> byte list" where
  "rd p n m = map m [p..<p + n]"

definition wr :: "nat \<Rightarrow> byte list \<Rightarrow> mem \<Rightarrow> mem" where
  "wr p xs m = (\<lambda>i. if p \<le> i \<and> i < p + length xs then xs ! (i - p) else m i)"

definition mem_move :: "nat \<Rightarrow> nat \<Rightarrow> nat \<Rightarrow> mem \<Rightarrow> mem" where
  "mem_move dst src n m = (\<lambda>i. if dst \<le> i \<and> i < dst + n then m (src + (i - dst)) else m i)"

lemma length_rd [simp]: "length (rd p n m) = n"
  by (simp add: rd_def)

lemma rd_0 [simp]: "rd p 0 m = []"
  by (simp add: rd_def)

lemma nth_rd [simp]: "i < n \<Longrightarrow> rd p n m ! i = m (p + i)"
  by (simp add: rd_def)

lemma rd_add: "rd p (a + b) m = rd p a m @ rd (p + a) b m"
  by (rule nth_equalityI) (auto simp: nth_append)

lemma rd_cong: "(\<And>i. p \<le> i \<Longrightarrow> i < p + n \<Longrightarrow> m i = m' i) \<Longrightarrow> rd p n m = rd p n m'"
  by (rule nth_equalityI) auto

lemma take_rd: "k \<le> n \<Longrightarrow> take k (rd p n m) = rd p k m"
  by (rule nth_equalityI) auto

lemma drop_rd: "k \<le> n \<Longrightarrow> drop k (rd p n m) = rd (p + k) (n - k) m"
  by (rule nth_equalityI) (auto simp: add.assoc)

lemma rd_sub: "k + j \<le> n \<Longrightarrow> q = p + k \<Longrightarrow> rd q j m = take j (drop k (rd p n m))"
  by (simp add: drop_rd take_rd)

lemma rd_wr_same: "n = length xs \<Longrightarrow> rd p n (wr p xs m) = xs"
  by (rule nth_equalityI) (auto simp: wr_def)

lemma rd_wr_other: "p + n \<le> q \<or> q + length xs \<le> p \<Longrightarrow> rd p n (wr q xs m) = rd p n m"
  by (rule rd_cong) (auto simp: wr_def)

lemma rd_move_other: "p + n \<le> d \<or> d + k \<le> p \<Longrightarrow> rd p n (mem_move d s k m) = rd p n m"
  by (rule rd_cong) (auto simp: mem_move_def)

lemma rd_move_shift: "o' + n \<le> k \<Longrightarrow> rd (d + o') n (mem_move d s k m) = rd (s + o') n m"
  by (rule nth_equalityI) (auto simp: mem_move_def add.assoc)

lemma rd_move_all: "rd d k (mem_move d s k m) = rd s k m"
  using rd_move_shift [of 0 k k d s m] by simp

lemma wr_outside: "i < p \<or> p + length xs \<le> i \<Longrightarrow> wr p xs m i = m i"
  by (auto simp: wr_def)

lemma mem_move_outside: "i < d \<or> d + k \<le> i \<Longrightarrow> mem_move d s k m i = m i"
  by (auto simp: mem_move_def)

lemma rd_wr_prefix: "q = p \<Longrightarrow> n \<le> length xs \<Longrightarrow> rd p n (wr q xs m) = take n xs"
  by (rule nth_equalityI) (auto simp: wr_def)

subsection \<open>Little-endian 32-bit integers\<close>

definition enc32 :: "32 word \<Rightarrow> byte list" where
  "enc32 w = [ucast w, ucast (drop_bit 8 w), ucast (drop_bit 16 w), ucast (drop_bit 24 w)]"

definition dec32 :: "byte list \<Rightarrow> 32 word" where
  "dec32 bs = ucast (bs ! 0) OR push_bit 8 (ucast (bs ! 1))
     OR push_bit 16 (ucast (bs ! 2)) OR push_bit 24 (ucast (bs ! 3))"

lemma length_enc32 [simp]: "length (enc32 w) = 4"
  by (simp add: enc32_def)

lemma dec32_enc32 [simp]: "dec32 (enc32 w) = w"
proof (rule bit_word_eqI)
  fix n :: nat
  assume "n < LENGTH(32)"
  then consider "n < 8" | "8 \<le> n" "n < 16" | "16 \<le> n" "n < 24" | "24 \<le> n" "n < 32"
    by force
  then show "bit (dec32 (enc32 w)) n = bit w n"
    unfolding enc32_def dec32_def by cases (auto simp: bit_simps)
qed

end
