(* ===== verification/Fml_Fields.thy ===== *)
theory Fml_Fields
  imports Byte_Memory
begin

text \<open>
  Field identifiers and field types of FML32 buffers (include/fml32.h,
  src/fbfr32fld.h): a field identifier is a 32-bit word with the field type in its top
  byte and the field number below. The storage class says how a field of that type is
  laid out in a buffer (src/fbfr32.h).
\<close>

type_synonym fldid = "32 word"

abbreviation FLD_SHORT :: int where "FLD_SHORT \<equiv> 0"
abbreviation FLD_LONG :: int where "FLD_LONG \<equiv> 1"
abbreviation FLD_CHAR :: int where "FLD_CHAR \<equiv> 2"
abbreviation FLD_FLOAT :: int where "FLD_FLOAT \<equiv> 3"
abbreviation FLD_DOUBLE :: int where "FLD_DOUBLE \<equiv> 4"
abbreviation FLD_STRING :: int where "FLD_STRING \<equiv> 5"
abbreviation FLD_CARRAY :: int where "FLD_CARRAY \<equiv> 6"
abbreviation FLD_FML32 :: int where "FLD_FML32 \<equiv> 10"

abbreviation BADFLDID :: fldid where "BADFLDID \<equiv> 0"

text \<open>Error numbers of the FML32 API (the values of Ferror32).\<close>

abbreviation FNOTFLD :: int where "FNOTFLD \<equiv> 2"
abbreviation FNOSPACE :: int where "FNOSPACE \<equiv> 3"
abbreviation FNOTPRES :: int where "FNOTPRES \<equiv> 4"
abbreviation FBADFLD :: int where "FBADFLD \<equiv> 5"
abbreviation FTYPERR :: int where "FTYPERR \<equiv> 6"
abbreviation FEUNIX :: int where "FEUNIX \<equiv> 7"
abbreviation FBADNAME :: int where "FBADNAME \<equiv> 8"
abbreviation FEINVAL :: int where "FEINVAL \<equiv> 13"
abbreviation FEBADOP :: int where "FEBADOP \<equiv> 20"

definition valid_fldtype32 :: "int \<Rightarrow> bool" where
  "valid_fldtype32 type \<longleftrightarrow>
     \<not> (type \<noteq> FLD_SHORT \<and> type \<noteq> FLD_LONG \<and> type \<noteq> FLD_CHAR \<and>
        type \<noteq> FLD_FLOAT \<and> type \<noteq> FLD_DOUBLE \<and> type \<noteq> FLD_STRING \<and>
        type \<noteq> FLD_CARRAY \<and> type \<noteq> FLD_FML32)"

definition Fmkfldid32 :: "int \<Rightarrow> fldid \<Rightarrow> fldid outcome" where
  "Fmkfldid32 type num =
     (if \<not> valid_fldtype32 type then Err FTYPERR
      else if num < 1 then Err FBADFLD
      else Ret (push_bit 24 (word_of_int type) OR num))"

definition Fldtype32 :: "fldid \<Rightarrow> int" where
  "Fldtype32 fieldid = uint (drop_bit 24 fieldid)"

definition Fldno32 :: "fldid \<Rightarrow> int" where
  "Fldno32 fieldid = uint (fieldid AND 0xffffff)"

datatype storage_class = FIELD8 | FIELD16 | FIELDN

text \<open>
  The \<open>switch\<close> of \<open>fldclass\<close> ends in \<open>__builtin_unreachable()\<close> for every other type:
  the value here is never relied on, and every entry point rejects such identifiers first
  (\<open>FLDID32_CHECK\<close>).
\<close>

definition fldclass :: "fldid \<Rightarrow> storage_class" where
  "fldclass fieldid =
     (let t = Fldtype32 fieldid
      in if t = FLD_SHORT \<or> t = FLD_CHAR \<or> t = FLD_FLOAT then FIELD8
         else if t = FLD_LONG \<or> t = FLD_DOUBLE then FIELD16
         else FIELDN)"

text \<open>\<open>fieldn::size\<close>: the data length of a variable-size field rounded up to 8 bytes.\<close>

definition fieldn_size :: "nat \<Rightarrow> nat" where
  "fieldn_size ilen = (if ilen mod 8 \<noteq> 0 then u32 (int ilen + (8 - int (ilen mod 8))) else ilen)"

text \<open>\<open>sizeof\<close> of the value of a fixed-size field.\<close>

definition fixed_len :: "int \<Rightarrow> nat" where
  "fixed_len type =
     (if type = FLD_SHORT then 2 else if type = FLD_CHAR then 1 else if type = FLD_FLOAT then 4
      else 8)"

definition valid_id :: "fldid \<Rightarrow> bool" where
  "valid_id fieldid \<longleftrightarrow> valid_fldtype32 (Fldtype32 fieldid)"

lemma Fldtype32_bounds: "0 \<le> Fldtype32 fid" "Fldtype32 fid < 256"
proof -
  show "0 \<le> Fldtype32 fid" by (simp add: Fldtype32_def)
  have "uint (drop_bit 24 fid) = uint fid div 2 ^ 24"
    by (simp add: drop_bit_eq_div uint_div_distrib)
  moreover have "uint fid < 2 ^ 32" using uint_lt2p [of fid] by simp
  ultimately show "Fldtype32 fid < 256" by (simp add: Fldtype32_def)
qed

lemma Fldtype32_div: "Fldtype32 fid = uint fid div 2 ^ 24"
  by (simp add: Fldtype32_def drop_bit_eq_div uint_div_distrib)

lemma Fldtype32_mono: "a \<le> b \<Longrightarrow> Fldtype32 a \<le> Fldtype32 b"
  by (simp add: Fldtype32_div word_le_def zdiv_mono1)

lemma valid_type_cases:
  assumes "valid_fldtype32 t"
  obtains "t = FLD_SHORT" | "t = FLD_LONG" | "t = FLD_CHAR" | "t = FLD_FLOAT" | "t = FLD_DOUBLE"
    | "t = FLD_STRING" | "t = FLD_CARRAY" | "t = FLD_FML32"
  using assms by (auto simp: valid_fldtype32_def)

lemma fieldn_size_bounds:
  assumes "n + 8 < 2 ^ 32"
  shows "n \<le> fieldn_size n" "fieldn_size n < n + 8" "fieldn_size n mod 8 = 0"
proof -
  have *: "fieldn_size n = (if n mod 8 = 0 then n else n + (8 - n mod 8))"
    using assms by (auto simp: fieldn_size_def u32_def nat_add_distrib nat_diff_distrib)
  show "n \<le> fieldn_size n" "fieldn_size n < n + 8" by (auto simp: *)
  show "fieldn_size n mod 8 = 0" unfolding * by (auto; presburger)
qed

end
