(* ===== verification/Fml_Buffer.thy ===== *)
theory Fml_Buffer
  imports Fml_Fields
begin

text \<open>
  The FML32 fielded buffer of src/fbfr32.h at the level of its bytes: the header fields
  \<open>size_\<close> (\<open>bsize\<close>), \<open>len_\<close> (\<open>blen\<close>), \<open>offsets_\<close> (\<open>boffs\<close>), the four bytes of padding
  that align \<open>data_\<close> (\<open>bpad\<close>) and the data area (\<open>bdata\<close>) as a byte memory in which a \<open>fieldhead *\<close> is an offset from \<open>data_\<close> and a null pointer is \<open>None\<close>.
  This theory holds the definitions only.
\<close>

record fbfr =
  bsize :: nat
  blen :: nat
  boffs :: "nat list"
  bpad :: "byte list"
  bdata :: mem

text \<open>\<open>offsetof(Fbfr32, data_)\<close>: two 32-bit lengths, seven 32-bit offsets, padded to 8.\<close>

abbreviation min_size :: nat where "min_size \<equiv> 40"

abbreviation max_offset :: nat where "max_offset \<equiv> 7"

text \<open>
  \<open>F * (sizeof(FLDID32) + sizeof(uint32_t) + V) + sizeof(Fbfr32)\<close> is computed in
  \<open>size_t\<close> and returned as \<open>long\<close>.
\<close>

definition Fbfr32_needed :: "int \<Rightarrow> nat \<Rightarrow> int" where
  "Fbfr32_needed F V =
     (let r = (F * int (4 + 4 + V) + int min_size) mod 2 ^ 64
      in if r < 2 ^ 63 then r else r - 2 ^ 64)"

definition fb_init :: "nat \<Rightarrow> fbfr \<Rightarrow> unit outcome \<times> fbfr" where
  "fb_init buflen b =
     (if buflen < min_size then (Err FNOSPACE, b)
      else (Ret (), b\<lparr>bsize := u32 (int buflen - int min_size), blen := 0,
                      boffs := replicate max_offset 0\<rparr>))"

definition fb_reinit :: "nat \<Rightarrow> fbfr \<Rightarrow> fbfr" where
  "fb_reinit buflen b = b\<lparr>bsize := u32 (int buflen - int min_size)\<rparr>"

definition fb_size :: "fbfr \<Rightarrow> nat" where
  "fb_size b = bsize b + min_size"

definition fb_used :: "fbfr \<Rightarrow> nat" where
  "fb_used b = blen b + min_size"

definition fb_unused :: "fbfr \<Rightarrow> nat" where
  "fb_unused b = u32 (int (bsize b) - int (blen b))"

subsection \<open>The type offsets\<close>

definition offset_for :: "int \<Rightarrow> int" where
  "offset_for type =
     (if type = FLD_SHORT then -1 else if type = FLD_LONG then 0 else if type = FLD_CHAR then 1
      else if type = FLD_FLOAT then 2 else if type = FLD_DOUBLE then 3
      else if type = FLD_STRING then 4 else if type = FLD_CARRAY then 5
      else if type = FLD_FML32 then 6 else int max_offset)"

definition first_byte :: "int \<Rightarrow> fbfr \<Rightarrow> nat" where
  "first_byte type b =
     (let off = offset_for type in if off = -1 then 0 else boffs b ! nat off)"

definition last_byte :: "int \<Rightarrow> fbfr \<Rightarrow> nat" where
  "last_byte type b =
     (let off = offset_for type + 1
      in if off = int max_offset then blen b else boffs b ! nat off)"

definition shift :: "int \<Rightarrow> int \<Rightarrow> fbfr \<Rightarrow> fbfr" where
  "shift type delta b =
     b\<lparr>blen := u32 (int (blen b) + delta),
       boffs := map (\<lambda>off. if offset_for type + 1 \<le> int off
                              then u32 (int (boffs b ! off) + delta)
                              else boffs b ! off) [0..<max_offset]\<rparr>"

subsection \<open>Field access\<close>

definition id_at :: "mem \<Rightarrow> nat \<Rightarrow> fldid" where
  "id_at m p = dec32 (rd p 4 m)"

definition flen_at :: "mem \<Rightarrow> nat \<Rightarrow> nat" where
  "flen_at m p = unat (dec32 (rd (p + 4) 4 m))"

text \<open>The bytes a field occupies: 8, 16, or the 8-byte header and the rounded data.\<close>

definition elem_size :: "storage_class \<Rightarrow> mem \<Rightarrow> nat \<Rightarrow> nat" where
  "elem_size k m p =
     (case k of FIELD8 \<Rightarrow> 8 | FIELD16 \<Rightarrow> 16 | FIELDN \<Rightarrow> 8 + fieldn_size (flen_at m p))"

lemma elem_size_ge: "8 \<le> elem_size k m p"
  by (cases k) (simp_all add: elem_size_def)

definition fb_nextf :: "fbfr \<Rightarrow> nat \<Rightarrow> nat option" where
  "fb_nextf b head =
     (let nxt = head + elem_size (fldclass (id_at (bdata b) head)) (bdata b) head
      in if nxt < blen b then Some nxt else None)"

definition flength :: "mem \<Rightarrow> nat \<Rightarrow> nat" where
  "flength m p =
     (let t = Fldtype32 (id_at m p)
      in if t = FLD_STRING \<or> t = FLD_CARRAY \<or> t = FLD_FML32 then flen_at m p else fixed_len t)"

definition fvalue :: "mem \<Rightarrow> nat \<Rightarrow> nat" where
  "fvalue m p =
     (case fldclass (id_at m p) of FIELD8 \<Rightarrow> p + 4 | FIELD16 \<Rightarrow> p + 8 | FIELDN \<Rightarrow> p + 8)"

subsection \<open>Finding a field\<close>

text \<open>
  \<open>std::lower_bound\<close> on the elements \<open>first\<close>, \<dots>, \<open>first + n - 1\<close>: the usual halving,
  with \<open>lt i\<close> for "element \<open>i\<close> is less than the value sought".
\<close>

function lower_bound :: "(nat \<Rightarrow> bool) \<Rightarrow> nat \<Rightarrow> nat \<Rightarrow> nat" where
  "lower_bound lt first n =
     (if n = 0 then first
      else let half = n div 2; mid = first + half
           in if lt mid then lower_bound lt (Suc mid) (n - half - 1)
              else lower_bound lt first half)"
  by pat_completeness auto
termination
  by (relation "measure (\<lambda>(lt, first, n). n)") auto

declare lower_bound.simps [simp del]

text \<open>The counting loop that \<open>where<T>\<close> and \<open>wheren\<close> share.\<close>

function scan_loop ::
    "storage_class \<Rightarrow> mem \<Rightarrow> fldid \<Rightarrow> int \<Rightarrow> nat \<Rightarrow> int \<Rightarrow> nat \<Rightarrow> nat" where
  "scan_loop k m fieldid oc to count it =
     (if it < to then
        if id_at m it > fieldid then it
        else if id_at m it = fieldid then
          if count = oc then it
          else scan_loop k m fieldid oc to (count + 1) (it + elem_size k m it)
        else scan_loop k m fieldid oc to count (it + elem_size k m it)
      else it)"
  by pat_completeness auto
termination
proof (relation "measure (\<lambda>(k, m, fieldid, oc, to, count, it). to - it)", goal_cases)
  case 1
  then show ?case by simp
next
  case (2 k m fieldid oc to count it)
  then show ?case using elem_size_ge [of k m it] by simp
next
  case (3 k m fieldid oc to count it)
  then show ?case using elem_size_ge [of k m it] by simp
qed

declare scan_loop.simps [simp del]

definition where_fixed ::
    "storage_class \<Rightarrow> nat \<Rightarrow> mem \<Rightarrow> fldid \<Rightarrow> int \<Rightarrow> nat \<Rightarrow> nat \<Rightarrow> nat option" where
  "where_fixed k sz m fieldid oc from to =
     (if from = to then None
      else
        let start = from + sz * lower_bound (\<lambda>i. id_at m (from + sz * i) < fieldid) 0
                                  ((to - from) div sz);
            it = scan_loop k m fieldid oc to 0 start
        in if it = to then None else Some it)"

definition wheren :: "mem \<Rightarrow> fldid \<Rightarrow> int \<Rightarrow> nat \<Rightarrow> nat \<Rightarrow> nat option" where
  "wheren m fieldid oc from to =
     (if from = to then None
      else let it = scan_loop FIELDN m fieldid oc to 0 from
           in if it = to then None else Some it)"

definition fb_where :: "fldid \<Rightarrow> int \<Rightarrow> fbfr \<Rightarrow> nat option" where
  "fb_where fieldid oc b =
     (let type = Fldtype32 fieldid; from = first_byte type b; to = last_byte type b
      in case fldclass fieldid of
           FIELD8 \<Rightarrow> where_fixed FIELD8 8 (bdata b) fieldid oc from to
         | FIELD16 \<Rightarrow> where_fixed FIELD16 16 (bdata b) fieldid oc from to
         | FIELDN \<Rightarrow> wheren (bdata b) fieldid oc from to)"

text \<open>The test \<open>field == nullptr || field->fieldid != fieldid\<close> of every reader, negated.\<close>

definition is_field :: "fbfr \<Rightarrow> fldid \<Rightarrow> nat option \<Rightarrow> bool" where
  "is_field b fieldid r = (case r of None \<Rightarrow> False | Some p \<Rightarrow> id_at (bdata b) p = fieldid)"

function occ_loop :: "fbfr \<Rightarrow> fldid \<Rightarrow> nat option \<Rightarrow> int \<Rightarrow> int" where
  "occ_loop b fieldid None oc = oc"
| "occ_loop b fieldid (Some p) oc =
     (if id_at (bdata b) p = fieldid then occ_loop b fieldid (fb_nextf b p) (oc + 1) else oc)"
  by pat_completeness auto
termination
proof (relation "measure (\<lambda>(b, fieldid, r, oc). case r of None \<Rightarrow> 0 | Some p \<Rightarrow> Suc (blen b - p))",
    goal_cases)
  case 1
  then show ?case by simp
next
  case (2 b fieldid p oc)
  have "0 < elem_size (fldclass (id_at (bdata b) p)) (bdata b) p"
    using elem_size_ge [of "fldclass (id_at (bdata b) p)" "bdata b" p] by simp
  then show ?case by (auto simp: fb_nextf_def Let_def split: option.splits)
qed

definition fb_occur :: "fldid \<Rightarrow> fbfr \<Rightarrow> int" where
  "fb_occur fieldid b = occ_loop b fieldid (fb_where fieldid 0 b) 0"

definition fb_pres :: "fldid \<Rightarrow> int \<Rightarrow> fbfr \<Rightarrow> bool" where
  "fb_pres fieldid oc b = is_field b fieldid (fb_where fieldid oc b)"

text \<open>\<open>find\<close> returns a pointer to the value and stores the length: an offset and a length.\<close>

definition fb_find :: "fldid \<Rightarrow> int \<Rightarrow> fbfr \<Rightarrow> (nat \<times> nat) outcome" where
  "fb_find fieldid oc b =
     (let field = fb_where fieldid oc b
      in if \<not> is_field b fieldid field then Err FNOTPRES
         else Ret (fvalue (bdata b) (the field), flength (bdata b) (the field)))"

definition fb_findlast :: "fldid \<Rightarrow> fbfr \<Rightarrow> (int \<times> nat \<times> nat) outcome" where
  "fb_findlast fieldid b =
     (let lastoc = fb_occur fieldid b
      in if lastoc = 0 then Err FNOTPRES
         else case fb_where fieldid (lastoc - 1) b of
                None \<Rightarrow> Stuck
              | Some field \<Rightarrow>
                  Ret (lastoc - 1, fvalue (bdata b) field, flength (bdata b) field))"

definition fb_len :: "fldid \<Rightarrow> int \<Rightarrow> fbfr \<Rightarrow> nat outcome" where
  "fb_len fieldid oc b =
     (let field = fb_where fieldid oc b
      in if \<not> is_field b fieldid field then Err FNOTPRES else Ret (flength (bdata b) (the field)))"

subsection \<open>Storing a field\<close>

text \<open>
  \<open>value_len\<close>: the number of bytes to take from the value. \<open>v\<close> holds the bytes that
  may be read through the value pointer; \<open>None\<close> means that computing the length already
  reads past them (no terminating zero, or no room for a nested buffer's header). The
  result is assigned to an \<open>FLDLEN32\<close>.
\<close>

definition value_len :: "int \<Rightarrow> byte list \<Rightarrow> nat \<Rightarrow> nat option" where
  "value_len type v flen =
     (if type = FLD_STRING then
        (if 0 \<in> set v then Some (u32 (int (length (takeWhile (\<lambda>c. c \<noteq> 0) v)) + 1)) else None)
      else if type = FLD_CARRAY then Some flen
      else if type = FLD_FML32 then
        (if length v < 8 then None
         else Some (u32 (int (unat (dec32 (take 4 (drop 4 v)))) + int min_size)))
      else Some (fixed_len type))"

text \<open>Writing header and value at \<open>p\<close>, by storage class (src/fbfr32.h, end of \<open>chg\<close>).\<close>

definition store_field :: "fldid \<Rightarrow> nat \<Rightarrow> nat \<Rightarrow> byte list \<Rightarrow> mem \<Rightarrow> mem" where
  "store_field fieldid p flen v m =
     (let m1 = wr p (enc32 fieldid) m
      in case fldclass fieldid of
           FIELD8 \<Rightarrow> wr (p + 4) (take flen v) (wr (p + 4) [0, 0, 0, 0] m1)
         | FIELD16 \<Rightarrow> wr (p + 8) (take flen v) m1
         | FIELDN \<Rightarrow>
             let m2 = wr (p + 8) (take flen v) (wr (p + 4) (enc32 (of_nat flen)) m1)
             in if Fldtype32 fieldid = FLD_FML32 then wr (p + 8) (rd (p + 12) 4 m2) m2 else m2)"

text \<open>
  The part of \<open>chg\<close> after the missing occurrences have been filled in: compute the
  space needed, find the place, make room with \<open>memmove\<close>, write the field, adjust the
  offsets.
\<close>

definition fb_put :: "fldid \<Rightarrow> int \<Rightarrow> byte list \<Rightarrow> nat \<Rightarrow> fbfr \<Rightarrow> unit outcome \<times> fbfr" where
  "fb_put fieldid oc v flen b =
     (let type = Fldtype32 fieldid; klass = fldclass fieldid
      in case value_len type v flen of
           None \<Rightarrow> (Stuck, b)
         | Some n \<Rightarrow>
             let need0 = (case klass of FIELD8 \<Rightarrow> 8 | FIELD16 \<Rightarrow> 16
                                      | FIELDN \<Rightarrow> 8 + int (fieldn_size n));
                 field = fb_where fieldid oc b;
                 p = (case field of None \<Rightarrow> last_byte type b | Some q \<Rightarrow> q);
                 same = is_field b fieldid field;
                 used = (if same \<and> klass = FIELDN
                         then 8 + int (fieldn_size (flen_at (bdata b) p)) else 0);
                 need = (if same \<and> klass \<noteq> FIELDN then 0 else need0 - used)
             in if need \<noteq> 0 \<and> int (blen b) + need > int (bsize b) then (Err FNOSPACE, b)
                else if length v < n then (Stuck, b)
                else
                  let m = (if need < 0
                           then mem_move (nat (int p + need + used)) (p + nat used)
                                  (blen b - (p + nat used)) (bdata b)
                           else if need > 0 then mem_move (p + nat need) p (blen b - p) (bdata b)
                           else bdata b)
                  in (Ret (), shift type need (b\<lparr>bdata := store_field fieldid p n v m\<rparr>)))"

subsection \<open>Deleting fields\<close>

text \<open>
  \<open>erase\<close> closes the gap and only then asks \<open>from->fieldid\<close> for the type whose
  offsets are to be shifted: the identifier is read from the memory after the move.
\<close>

definition erase :: "nat \<Rightarrow> nat option \<Rightarrow> fbfr \<Rightarrow> fbfr" where
  "erase from to b =
     (let t = (case to of None \<Rightarrow> blen b | Some q \<Rightarrow> q);
          diff = int t - int from;
          m = mem_move from t (blen b - t) (bdata b)
      in shift (Fldtype32 (id_at m from)) (- diff) (b\<lparr>bdata := m\<rparr>))"

definition fb_del :: "fldid \<Rightarrow> int \<Rightarrow> fbfr \<Rightarrow> unit outcome \<times> fbfr" where
  "fb_del fieldid oc b =
     (let field = fb_where fieldid oc b
      in if \<not> is_field b fieldid field then (Err FNOTPRES, b)
         else (Ret (), erase (the field) (fb_nextf b (the field)) b))"

function skip_same :: "fbfr \<Rightarrow> fldid \<Rightarrow> nat option \<Rightarrow> nat option" where
  "skip_same b fieldid None = None"
| "skip_same b fieldid (Some p) =
     (if id_at (bdata b) p = fieldid then skip_same b fieldid (fb_nextf b p) else Some p)"
  by pat_completeness auto
termination
proof (relation "measure (\<lambda>(b, fieldid, r). case r of None \<Rightarrow> 0 | Some p \<Rightarrow> Suc (blen b - p))",
    goal_cases)
  case 1
  then show ?case by simp
next
  case (2 b fieldid p)
  have "0 < elem_size (fldclass (id_at (bdata b) p)) (bdata b) p"
    using elem_size_ge [of "fldclass (id_at (bdata b) p)" "bdata b" p] by simp
  then show ?case by (auto simp: fb_nextf_def Let_def split: option.splits)
qed

definition fb_delall :: "fldid \<Rightarrow> fbfr \<Rightarrow> unit outcome \<times> fbfr" where
  "fb_delall fieldid b =
     (let field = fb_where fieldid 0 b
      in if \<not> is_field b fieldid field then (Err FNOTPRES, b)
         else (Ret (), erase (the field) (skip_same b fieldid field) b))"

subsection \<open>Changing a field\<close>

definition zeros :: "byte list" where
  "zeros = replicate 16 0"

lemma occ_loop_ge: "oc \<le> occ_loop b fieldid r oc"
  by (induction b fieldid r oc rule: occ_loop.induct) auto

lemma fb_occur_nonneg: "0 \<le> fb_occur fieldid b"
  using occ_loop_ge [of 0] by (simp add: fb_occur_def)

text \<open>
  \<open>chg\<close> calls itself to fill missing occurrences with \<open>zeros\<close> and ignores what those
  calls return; \<open>fb_fill\<close> is that loop.
\<close>

function fb_chg :: "fldid \<Rightarrow> int \<Rightarrow> byte list option \<Rightarrow> nat \<Rightarrow> fbfr \<Rightarrow> unit outcome \<times> fbfr"
  and fb_fill :: "fldid \<Rightarrow> nat \<Rightarrow> int \<Rightarrow> fbfr \<Rightarrow> unit outcome \<times> fbfr"
where
  "fb_chg fieldid oc value flen b =
     (case value of
        None \<Rightarrow> fb_del fieldid oc b
      | Some v \<Rightarrow>
          let count = fb_occur fieldid b;
              oc' = (if oc = -1 then count else oc)
          in case fb_fill fieldid (nat count) oc' b of
               (Ret u, b1) \<Rightarrow> fb_put fieldid oc' v flen b1
             | (r, b1) \<Rightarrow> (r, b1))"
| "fb_fill fieldid o1 oc b =
     (if int o1 < oc then
        case fb_chg fieldid (int o1) (Some zeros) 0 b of
          (Stuck, b1) \<Rightarrow> (Stuck, b1)
        | (r, b1) \<Rightarrow> fb_fill fieldid (Suc o1) oc b1
      else (Ret (), b))"
  by pat_completeness auto
termination
  by (relation "measures
      [\<lambda>x. case x of Inl (fieldid, oc, value, flen, b) \<Rightarrow> nat oc
                  | Inr (fieldid, o1, oc, b) \<Rightarrow> if int o1 < oc then nat oc else 0,
       \<lambda>x. case x of Inl _ \<Rightarrow> 1 | Inr _ \<Rightarrow> 0,
       \<lambda>x. case x of Inl _ \<Rightarrow> 0 | Inr (fieldid, o1, oc, b) \<Rightarrow> nat oc - o1]")
    (auto simp: fb_occur_nonneg)

declare fb_chg.simps [simp del] fb_fill.simps [simp del]

end
