(* ===== verification/Fml_Ops.thy ===== *)
theory Fml_Ops
  imports Fml_Buffer
begin

text \<open>
  The operations of src/fbfr32.h that are built on the single-field ones: reading values
  out, walking a buffer, the set operations over two buffers (delete, project, update,
  join, concatenate) and the copy, file and checksum operations. Definitions only.
\<close>

subsection \<open>Reading values out\<close>

text \<open>
  \<open>get\<close> with \<open>loc\<close> the caller's memory (\<open>None\<close> for a null pointer) and
  \<open>maxlen\<close> the in/out length (\<open>None\<close> for a null pointer). The result is the outcome
  with the updated memory and length.
\<close>

definition fb_get ::
    "fldid \<Rightarrow> int \<Rightarrow> mem option \<Rightarrow> nat option \<Rightarrow> fbfr \<Rightarrow> unit outcome \<times> mem option \<times> nat option" where
  "fb_get fieldid oc loc maxlen b =
     (let field = fb_where fieldid oc b
      in if \<not> is_field b fieldid field then (Err FNOTPRES, loc, maxlen)
         else
           let p = the field; m = bdata b; len = flength m p
           in if maxlen \<noteq> None \<and> the maxlen < len then (Err FNOSPACE, loc, Some len)
              else
                (Ret (),
                 (case loc of
                    None \<Rightarrow> None
                  | Some l \<Rightarrow>
                      if Fldtype32 fieldid \<noteq> FLD_FML32
                      then Some (wr 0 (rd (fvalue m p) len m) l)
                      else Some (wr 4 (rd (fvalue m p + 4) (len - 4) m) l)),
                 (case maxlen of None \<Rightarrow> None | Some _ \<Rightarrow> Some len)))"

text \<open>
  \<open>getalloc\<close>: the block returned by \<open>malloc\<close> is its size and the bytes copied to its
  start.
\<close>

definition fb_getalloc ::
    "fldid \<Rightarrow> int \<Rightarrow> nat option \<Rightarrow> fbfr \<Rightarrow> (nat \<times> byte list) outcome \<times> nat option" where
  "fb_getalloc fieldid oc extralen b =
     (let field = fb_where fieldid oc b
      in if \<not> is_field b fieldid field then (Err FNOTPRES, extralen)
         else
           let p = the field; len = flength (bdata b) p; bytes = rd (fvalue (bdata b) p) len (bdata b)
           in case extralen of
                None \<Rightarrow> (Ret (len, bytes), None)
              | Some x \<Rightarrow> (Ret (len + x, bytes), Some len))"

text \<open>
  \<open>next\<close>: the in/out parameters \<open>fieldid\<close> and \<open>oc\<close>, the optional length, and the
  bytes copied to \<open>value\<close> (\<open>wantval\<close> says whether \<open>value\<close> is non-null). The result
  code is 1 for a field, 0 for the end, and an error is \<open>FNOSPACE\<close>.
\<close>

record next_result =
  nrc :: "int outcome"
  nfieldid :: fldid
  noc :: int
  nlen :: "nat option"
  nvalue :: "byte list option"

definition fb_next :: "fldid \<Rightarrow> int \<Rightarrow> bool \<Rightarrow> nat option \<Rightarrow> fbfr \<Rightarrow> next_result" where
  "fb_next fieldid oc wantval len b =
     (let m = bdata b;
          it = (if fieldid \<noteq> BADFLDID then
                  case fb_where fieldid oc b of
                    None \<Rightarrow> None
                  | Some p \<Rightarrow> if p < blen b then fb_nextf b p else Some p
                else Some 0)
      in case it of
           Some p \<Rightarrow>
             if p < blen b then
               let (fid', oc') = (if id_at m p = fieldid then (fieldid, oc + 1) else (id_at m p, 0));
                   fl = flength m p
               in case len of
                    None \<Rightarrow> \<lparr>nrc = Ret 1, nfieldid = fid', noc = oc', nlen = None, nvalue = None\<rparr>
                  | Some l \<Rightarrow>
                      if l < fl
                      then \<lparr>nrc = Err FNOSPACE, nfieldid = fid', noc = oc', nlen = Some fl,
                            nvalue = None\<rparr>
                      else \<lparr>nrc = Ret 1, nfieldid = fid', noc = oc', nlen = Some fl,
                            nvalue = (if wantval then Some (rd (fvalue m p) fl m) else None)\<rparr>
             else \<lparr>nrc = Ret 0, nfieldid = fieldid, noc = oc, nlen = len, nvalue = None\<rparr>
         | None \<Rightarrow> \<lparr>nrc = Ret 0, nfieldid = fieldid, noc = oc, nlen = len, nvalue = None\<rparr>)"

subsection \<open>Walking a buffer\<close>

text \<open>
  \<open>iterate\<close> over a state \<open>s\<close> from which the buffer being walked is read (\<open>view\<close>),
  since the callback may change it. The callback returns \<open>Err e\<close> (record error \<open>e\<close>,
  return -1: the walk stops), \<open>Ret 1\<close> (the field at \<open>it\<close> is gone: stay and read the
  end again) or another value (go on). The walk is not known to end, so its result is an
  option: \<open>None\<close> means that it runs forever.
\<close>

partial_function (option) fb_iterate ::
    "('s \<Rightarrow> fbfr) \<Rightarrow> (nat \<Rightarrow> int \<Rightarrow> 's \<Rightarrow> int outcome \<times> 's) \<Rightarrow> nat option \<Rightarrow> nat \<Rightarrow> fldid \<Rightarrow> int \<Rightarrow> 's
      \<Rightarrow> (int outcome \<times> 's) option" where
  "fb_iterate view func it end prev oc s =
     (case it of
        None \<Rightarrow> Some (Ret 0, s)
      | Some p \<Rightarrow>
          if p < end then
            let fid = id_at (bdata (view s)) p;
                oc' = (if fid \<noteq> prev then 0 else oc + 1);
                rs = func p oc' s
            in case fst rs of
                 Err e \<Rightarrow> Some rs
               | Stuck \<Rightarrow> Some rs
               | Ret r \<Rightarrow>
                   if r = 1
                   then fb_iterate view func it (blen (view (snd rs))) fid oc' (snd rs)
                   else fb_iterate view func (fb_nextf (view (snd rs)) p) end fid oc' (snd rs)
          else Some (Ret 0, s))"

declare fb_iterate.simps [code]

definition iterate_all ::
    "('s \<Rightarrow> fbfr) \<Rightarrow> (nat \<Rightarrow> int \<Rightarrow> 's \<Rightarrow> int outcome \<times> 's) \<Rightarrow> 's \<Rightarrow> (int outcome \<times> 's) option" where
  "iterate_all view func s = fb_iterate view func (Some 0) (blen (view s)) BADFLDID 0 s"

text \<open>The value a source buffer offers to \<open>chg\<close>, and the return code 0 of \<open>chg\<close>.\<close>

definition src_value :: "fbfr \<Rightarrow> nat \<Rightarrow> byte list" where
  "src_value src p = rd (fvalue (bdata src) p) (flength (bdata src) p) (bdata src)"

definition as_rc :: "unit outcome \<times> 's \<Rightarrow> int outcome \<times> 's" where
  "as_rc r = (case fst r of Ret u \<Rightarrow> Ret 0 | Err e \<Rightarrow> Err e | Stuck \<Rightarrow> Stuck, snd r)"

definition chg_from :: "fbfr \<Rightarrow> nat \<Rightarrow> int \<Rightarrow> fbfr \<Rightarrow> int outcome \<times> fbfr" where
  "chg_from src p oc dest =
     as_rc (fb_chg (id_at (bdata src) p) oc (Some (src_value src p)) (flength (bdata src) p) dest)"

subsection \<open>Set operations\<close>

definition fb_sort :: "fldid list \<Rightarrow> fldid list" where
  "fb_sort fieldids = sort (takeWhile (\<lambda>f. f \<noteq> BADFLDID) fieldids)"

definition fb_xdelete :: "fldid list \<Rightarrow> fbfr \<Rightarrow> (int outcome \<times> fbfr) option" where
  "fb_xdelete fieldids b =
     (let ids = fb_sort fieldids
      in map_option (\<lambda>rs. (Ret 0, snd rs))
           (iterate_all (\<lambda>s. s)
             (\<lambda>p oc s. let fid = id_at (bdata s) p
                       in if fid \<in> set ids then (Ret 1, snd (fb_delall fid s)) else (Ret 0, s)) b))"

definition fb_proj :: "fldid list \<Rightarrow> fbfr \<Rightarrow> (int outcome \<times> fbfr) option" where
  "fb_proj fieldids b =
     (let ids = fb_sort fieldids
      in iterate_all (\<lambda>s. s)
           (\<lambda>p oc s. let fid = id_at (bdata s) p
                     in if fid \<notin> set ids then (Ret 1, snd (fb_delall fid s)) else (Ret 0, s)) b)"

definition fb_projcpy :: "fbfr \<Rightarrow> fldid list \<Rightarrow> fbfr \<Rightarrow> (int outcome \<times> fbfr) option" where
  "fb_projcpy src fieldids dest =
     (let ids = fb_sort fieldids; dest0 = snd (fb_init (u32 (int (fb_size dest))) dest)
      in iterate_all (\<lambda>_. src)
           (\<lambda>p oc s. let fid = id_at (bdata src) p
                     in if fid \<in> set ids then chg_from src p (fb_occur fid s) s else (Ret 0, s))
           dest0)"

definition fb_update :: "fbfr \<Rightarrow> fbfr \<Rightarrow> (int outcome \<times> fbfr) option" where
  "fb_update src dest = iterate_all (\<lambda>_. src) (\<lambda>p oc s. chg_from src p oc s) dest"

definition fb_ojoin :: "fbfr \<Rightarrow> fbfr \<Rightarrow> (int outcome \<times> fbfr) option" where
  "fb_ojoin src dest =
     iterate_all (\<lambda>_. src)
       (\<lambda>p oc s. if fb_pres (id_at (bdata src) p) oc s then chg_from src p oc s else (Ret 0, s)) dest"

definition fb_join :: "fbfr \<Rightarrow> fbfr \<Rightarrow> (int outcome \<times> fbfr) option" where
  "fb_join src dest =
     (case iterate_all (\<lambda>s. s)
             (\<lambda>p oc s. let fid = id_at (bdata s) p
                       in if fb_pres fid oc src then (Ret 0, s) else (Ret 1, snd (fb_del fid oc s))) dest
      of None \<Rightarrow> None
       | Some rs \<Rightarrow> fb_ojoin src (snd rs))"

definition fb_concat :: "fbfr \<Rightarrow> fbfr \<Rightarrow> (int outcome \<times> fbfr) option" where
  "fb_concat src dest =
     (if fb_unused dest < fb_used src then Some (Err FNOSPACE, dest)
      else iterate_all (\<lambda>_. src)
             (\<lambda>p oc s. chg_from src p (fb_occur (id_at (bdata src) p) s) s) dest)"

subsection \<open>Whole buffers\<close>

definition fb_cpy :: "fbfr \<Rightarrow> fbfr \<Rightarrow> unit outcome \<times> fbfr" where
  "fb_cpy src dest =
     (if fb_size dest < fb_used src then (Err FNOSPACE, dest)
      else (Ret (), dest\<lparr>blen := blen src, boffs := boffs src,
                         bdata := wr 0 (rd 0 (blen src) (bdata src)) (bdata dest)\<rparr>))"

text \<open>
  \<open>write\<close> and \<open>read\<close>: everything from \<open>len_\<close> on, padding included. A stream accepts at most
  \<open>room\<close> bytes (for writing) or holds the given bytes (for reading); a short transfer is
  \<open>FEUNIX\<close>. A short read leaves what it did transfer in the buffer.
\<close>

definition u32_bytes :: "nat \<Rightarrow> byte list" where
  "u32_bytes n = enc32 (of_nat n)"

definition header_bytes :: "nat list \<Rightarrow> byte list" where
  "header_bytes offs = concat (map u32_bytes offs)"

definition header_of :: "byte list \<Rightarrow> nat list" where
  "header_of bs = map (\<lambda>i. unat (dec32 (take 4 (drop (4 * i) bs)))) [0..<max_offset]"

definition fb_write :: "nat \<Rightarrow> fbfr \<Rightarrow> unit outcome \<times> byte list" where
  "fb_write room b =
     (let out = u32_bytes (blen b) @ header_bytes (boffs b) @ bpad b @ rd 0 (blen b) (bdata b);
          n = fb_used b - 4
      in if min room n \<noteq> n then (Err FEUNIX, take room out) else (Ret (), out))"

definition fb_read :: "byte list \<Rightarrow> fbfr \<Rightarrow> unit outcome \<times> fbfr \<times> byte list" where
  "fb_read iop b =
     (if length (take 4 iop) \<noteq> 4 then (Err FEUNIX, b, [])
      else
        let len = unat (dec32 (take 4 iop)); rest = drop 4 iop
        in if len > bsize b then (Err FNOSPACE, b, rest)
           else
             let b1 = b\<lparr>blen := len\<rparr>; n = fb_used b1 - 8; got = take n rest;
                 old = header_bytes (boffs b) @ bpad b;
                 hdr = take 32 got @ drop (length (take 32 got)) old;
                 b2 = b1\<lparr>boffs := header_of hdr, bpad := drop 28 hdr,
                         bdata := wr 0 (drop 32 got) (bdata b)\<rparr>
             in if length got \<noteq> n then (Err FEUNIX, b2, drop n rest)
                else (Ret (), b2, drop n rest))"

definition crc32b_bit :: "32 word \<Rightarrow> 32 word" where
  "crc32b_bit crc = (let mask = - (crc AND 1) in drop_bit 1 crc XOR (0xEDB88320 AND mask))"

definition crc32b_byte :: "32 word \<Rightarrow> byte \<Rightarrow> 32 word" where
  "crc32b_byte crc byte = (crc32b_bit ^^ 8) (crc XOR ucast byte)"

definition crc32b :: "byte list \<Rightarrow> 32 word" where
  "crc32b data = NOT (foldl crc32b_byte 0xFFFFFFFF data)"

definition fb_chksum :: "fbfr \<Rightarrow> 32 word" where
  "fb_chksum b = crc32b (rd 0 (blen b) (bdata b))"

end
