(* ===== verification/Fml_Rep.thy ===== *)
theory Fml_Rep
  imports Fml_Ops
begin

text \<open>
  The representation relation of the FML32 buffer: \<open>rep b cs\<close> says that the bytes of
  \<open>b\<close> are a sequence \<open>cs\<close> of well-formed fields, sorted by field identifier, and
  that the type offsets are the region boundaries of that sequence. What follows relates
  the pointer-level search of \<open>Fml_Buffer\<close> to positions in \<open>cs\<close>.
\<close>

named_theorems rep_simps

subsection \<open>Chunks\<close>

text \<open>A chunk is all the bytes of one field, header and padding included.\<close>

type_synonym chunk = "byte list"

definition cid :: "chunk \<Rightarrow> fldid" where
  "cid c = dec32 (take 4 c)"

definition ctype :: "chunk \<Rightarrow> int" where
  "ctype c = Fldtype32 (cid c)"

definition cflen :: "chunk \<Rightarrow> nat" where
  "cflen c = unat (dec32 (take 4 (drop 4 c)))"

definition coff :: "chunk \<Rightarrow> int" where
  "coff c = offset_for (ctype c)"

definition csize :: "chunk \<Rightarrow> nat" where
  "csize c =
     (case fldclass (cid c) of FIELD8 \<Rightarrow> 8 | FIELD16 \<Rightarrow> 16 | FIELDN \<Rightarrow> 8 + fieldn_size (cflen c))"

definition cvlen :: "chunk \<Rightarrow> nat" where
  "cvlen c = (case fldclass (cid c) of FIELDN \<Rightarrow> cflen c | _ \<Rightarrow> fixed_len (ctype c))"

definition chead :: "chunk \<Rightarrow> nat" where
  "chead c = (case fldclass (cid c) of FIELD8 \<Rightarrow> 4 | _ \<Rightarrow> 8)"

definition cval :: "chunk \<Rightarrow> byte list" where
  "cval c = take (cvlen c) (drop (chead c) c)"

text \<open>
  What a stored value looks like: a string ends in its only zero, a nested buffer is as
  long as its own header says and has no spare room.
\<close>

definition wf_val :: "int \<Rightarrow> byte list \<Rightarrow> bool" where
  "wf_val t v \<longleftrightarrow>
     (if t = FLD_STRING then v \<noteq> [] \<and> last v = 0 \<and> 0 \<notin> set (butlast v)
      else if t = FLD_CARRAY then True
      else if t = FLD_FML32 then
        min_size \<le> length v \<and> take 4 v = take 4 (drop 4 v) \<and>
        length v = unat (dec32 (take 4 v)) + min_size
      else length v = fixed_len t)"

definition wf_chunk :: "chunk \<Rightarrow> bool" where
  "wf_chunk c \<longleftrightarrow>
     valid_id (cid c) \<and> length c = csize c \<and>
     (fldclass (cid c) = FIELDN \<longrightarrow> cflen c + 8 < 2 ^ 32) \<and> wf_val (ctype c) (cval c)"

lemma csize_ge: "8 \<le> csize c"
  by (simp add: csize_def split: storage_class.split)

lemma wf_chunk_length: "wf_chunk c \<Longrightarrow> 8 \<le> length c"
  using csize_ge [of c] by (simp add: wf_chunk_def)

lemma wf_chunk_nonempty: "wf_chunk c \<Longrightarrow> c \<noteq> []"
  using wf_chunk_length by fastforce

subsection \<open>Type order\<close>

lemma offset_for_bounds: "-1 \<le> offset_for t" "valid_fldtype32 t \<Longrightarrow> offset_for t < 7"
  by (auto simp: offset_for_def valid_fldtype32_def)

lemma offset_for_mono:
  "valid_fldtype32 s \<Longrightarrow> valid_fldtype32 t \<Longrightarrow> s \<le> t \<Longrightarrow> offset_for s \<le> offset_for t"
  by (auto simp: offset_for_def valid_fldtype32_def)

lemma offset_for_inj:
  "valid_fldtype32 s \<Longrightarrow> valid_fldtype32 t \<Longrightarrow> offset_for s = offset_for t \<longleftrightarrow> s = t"
  by (auto simp: offset_for_def valid_fldtype32_def)

lemma coff_mono:
  "wf_chunk c \<Longrightarrow> wf_chunk d \<Longrightarrow> cid c \<le> cid d \<Longrightarrow> coff c \<le> coff d"
  by (simp add: coff_def ctype_def wf_chunk_def valid_id_def offset_for_mono Fldtype32_mono)

lemma fldclass_type: "Fldtype32 a = Fldtype32 b \<Longrightarrow> fldclass a = fldclass b"
  by (simp add: fldclass_def)

subsection \<open>Positions\<close>

definition cpos :: "chunk list \<Rightarrow> nat \<Rightarrow> nat" where
  "cpos cs i = length (concat (take i cs))"

lemma cpos_0 [simp]: "cpos cs 0 = 0"
  by (simp add: cpos_def)

lemma cpos_length: "cpos cs (length cs) = length (concat cs)"
  by (simp add: cpos_def)

lemma cpos_Suc: "i < length cs \<Longrightarrow> cpos cs (Suc i) = cpos cs i + length (cs ! i)"
  by (simp add: cpos_def take_Suc_conv_app_nth)

lemma cpos_add_drop: "cpos cs i + length (concat (drop i cs)) = length (concat cs)"
  by (metis append_take_drop_id concat_append cpos_def length_append)

lemma cpos_split: "i \<le> j \<Longrightarrow> cpos cs j = cpos cs i + length (concat (take (j - i) (drop i cs)))"
  by (metis append_take_drop_id concat_append cpos_def length_append min.absorb1 take_add
      le_add_diff_inverse)

lemma cpos_mono: "i \<le> j \<Longrightarrow> cpos cs i \<le> cpos cs j"
  using cpos_split [of i j cs] by simp

lemma cpos_le: "cpos cs i \<le> length (concat cs)"
  using cpos_add_drop [of cs i] by simp

lemma cpos_strict:
  assumes "\<forall>c \<in> set cs. c \<noteq> []" "i < j" "i < length cs"
  shows "cpos cs i < cpos cs j"
proof -
  have "cpos cs i < cpos cs (Suc i)"
    using assms by (simp add: cpos_Suc)
  also have "\<dots> \<le> cpos cs j" using assms by (intro cpos_mono) simp
  finally show ?thesis .
qed

lemma cpos_eq_iff:
  assumes "\<forall>c \<in> set cs. c \<noteq> []" "i \<le> length cs" "j \<le> length cs"
  shows "cpos cs i = cpos cs j \<longleftrightarrow> i = j"
  using cpos_strict [OF assms(1), of i j] cpos_strict [OF assms(1), of j i] assms(2,3)
  by (metis linorder_neqE_nat nat_neq_iff order_less_le_trans)

lemma cpos_less_iff:
  assumes "\<forall>c \<in> set cs. c \<noteq> []" "i \<le> length cs" "j \<le> length cs"
  shows "cpos cs i < cpos cs j \<longleftrightarrow> i < j"
  using cpos_strict [OF assms(1), of i j] cpos_mono [of j i cs] assms
  by (metis leD leI order_less_le_trans)

subsection \<open>The representation relation\<close>

definition off_of :: "chunk list \<Rightarrow> nat \<Rightarrow> nat" where
  "off_of cs k = length (concat (filter (\<lambda>c. coff c < int k) cs))"

definition rep :: "fbfr \<Rightarrow> chunk list \<Rightarrow> bool" where
  "rep b cs \<longleftrightarrow>
     rd 0 (blen b) (bdata b) = concat cs \<and> (\<forall>c \<in> set cs. wf_chunk c) \<and>
     sorted (map cid cs) \<and> boffs b = map (off_of cs) [0..<max_offset] \<and>
     length (bpad b) = 4 \<and> blen b \<le> bsize b \<and> bsize b + min_size < 2 ^ 32"

lemma rep_blen: "rep b cs \<Longrightarrow> blen b = length (concat cs)"
  unfolding rep_def by (metis length_rd)

lemma rep_nonempty: "rep b cs \<Longrightarrow> \<forall>c \<in> set cs. c \<noteq> []"
  by (auto simp: rep_def dest: wf_chunk_nonempty)

lemma rep_wf: "rep b cs \<Longrightarrow> i < length cs \<Longrightarrow> wf_chunk (cs ! i)"
  by (simp add: rep_def)

lemma rep_cpos_le: "rep b cs \<Longrightarrow> cpos cs i \<le> blen b"
  by (simp add: rep_blen cpos_le)

lemma rep_chunk:
  assumes "rep b cs" "i < length cs"
  shows "rd (cpos cs i) (length (cs ! i)) (bdata b) = cs ! i"
proof -
  have "concat cs = concat (take i cs) @ cs ! i @ concat (drop (Suc i) cs)"
    by (metis assms(2) concat.simps(2) concat_append id_take_nth_drop)
  moreover have "blen b = cpos cs i + length (cs ! i) + length (concat (drop (Suc i) cs))"
    using assms cpos_add_drop [of cs "Suc i"] by (simp add: rep_blen cpos_Suc)
  ultimately have "rd 0 (cpos cs i) (bdata b) @ rd (cpos cs i) (length (cs ! i)) (bdata b) @
      rd (cpos cs i + length (cs ! i)) (length (concat (drop (Suc i) cs))) (bdata b) =
      concat (take i cs) @ cs ! i @ concat (drop (Suc i) cs)"
    using assms(1) by (simp add: rep_def rd_add)
  then show ?thesis by (simp add: cpos_def)
qed

lemma rep_at:
  assumes "rep b cs" "i < length cs" "k + n \<le> length (cs ! i)"
  shows "rd (cpos cs i + k) n (bdata b) = take n (drop k (cs ! i))"
proof -
  have "take n (drop k (rd (cpos cs i) (length (cs ! i)) (bdata b))) = rd (cpos cs i + k) n (bdata b)"
    using assms(3) by (simp add: drop_rd take_rd)
  then show ?thesis using rep_chunk [OF assms(1,2)] by simp
qed

lemma rep_id_at [rep_simps]:
  "rep b cs \<Longrightarrow> i < length cs \<Longrightarrow> id_at (bdata b) (cpos cs i) = cid (cs ! i)"
  using rep_at [of b cs i 0 4] wf_chunk_length [OF rep_wf, of b cs i]
  by (simp add: id_at_def cid_def)

lemma rep_flen_at [rep_simps]:
  "rep b cs \<Longrightarrow> i < length cs \<Longrightarrow> flen_at (bdata b) (cpos cs i) = cflen (cs ! i)"
  using rep_at [of b cs i 4 4] wf_chunk_length [OF rep_wf, of b cs i]
  by (simp add: flen_at_def cflen_def)

lemma rep_elem_size [rep_simps]:
  assumes "rep b cs" "i < length cs"
  shows "elem_size (fldclass (cid (cs ! i))) (bdata b) (cpos cs i) = length (cs ! i)"
  using rep_wf [OF assms] rep_flen_at [OF assms]
  by (auto simp: elem_size_def wf_chunk_def csize_def split: storage_class.splits)

lemma rep_next:
  assumes "rep b cs" "i < length cs"
  shows "fb_nextf b (cpos cs i) = (if Suc i < length cs then Some (cpos cs (Suc i)) else None)"
proof -
  have "cpos cs (Suc i) < blen b \<longleftrightarrow> Suc i < length cs"
    using cpos_less_iff [OF rep_nonempty [OF assms(1)], of "Suc i" "length cs"] assms
    by (simp add: rep_blen cpos_length)
  then show ?thesis
    using assms by (simp add: fb_nextf_def rep_simps cpos_Suc Let_def)
qed

lemma rep_flength [rep_simps]:
  assumes "rep b cs" "i < length cs"
  shows "flength (bdata b) (cpos cs i) = cvlen (cs ! i)"
proof -
  have "valid_fldtype32 (Fldtype32 (cid (cs ! i)))"
    using rep_wf [OF assms] by (simp add: wf_chunk_def valid_id_def)
  then show ?thesis
    using assms by (elim valid_type_cases)
      (simp_all add: flength_def rep_simps cvlen_def ctype_def fldclass_def Let_def)
qed

lemma cvlen_le:
  assumes "wf_chunk c"
  shows "chead c + cvlen c \<le> length c"
proof -
  have "valid_fldtype32 (Fldtype32 (cid c))" using assms by (simp add: wf_chunk_def valid_id_def)
  then show ?thesis
    using assms fieldn_size_bounds(1) [of "cflen c"]
    by (elim valid_type_cases)
      (simp_all add: wf_chunk_def csize_def cvlen_def fldclass_def ctype_def fixed_len_def chead_def
        Let_def)
qed

lemma length_cval: "wf_chunk c \<Longrightarrow> length (cval c) = cvlen c"
  using cvlen_le [of c] by (simp add: cval_def)

lemma rep_src_value [rep_simps]:
  assumes "rep b cs" "i < length cs"
  shows "src_value b (cpos cs i) = cval (cs ! i)"
proof -
  let ?h = "chead (cs ! i)"
  have "src_value b (cpos cs i) = rd (cpos cs i + ?h) (cvlen (cs ! i)) (bdata b)"
    using assms by (simp add: src_value_def fvalue_def rep_simps chead_def split: storage_class.split)
  also have "\<dots> = take (cvlen (cs ! i)) (drop ?h (cs ! i))"
    using cvlen_le [OF rep_wf [OF assms]] by (intro rep_at assms) simp
  finally show ?thesis by (simp add: cval_def)
qed

end
