(* ===== verification/Fml_Search.thy ===== *)
theory Fml_Search
  imports Fml_Rep
begin

text \<open>
  The search of src/fbfr32.h (\<open>where\<close>, \<open>occur\<close>) over a represented buffer: the binary
  search and the counting scan, restricted to the region of the field's type, find the
  position that a scan of the whole field sequence would.
\<close>

subsection \<open>Regions of one type\<close>

definition reg_lo :: "int \<Rightarrow> chunk list \<Rightarrow> nat" where
  "reg_lo t cs = length (filter (\<lambda>c. coff c < offset_for t) cs)"

definition reg_hi :: "int \<Rightarrow> chunk list \<Rightarrow> nat" where
  "reg_hi t cs = length (filter (\<lambda>c. coff c < offset_for t + 1) cs)"

lemma filter_less_prefix:
  fixes f :: "'a \<Rightarrow> 'b::linorder"
  assumes "sorted (map f xs)"
  shows "filter (\<lambda>x. f x < a) xs = take (length (filter (\<lambda>x. f x < a) xs)) xs"
  using assms
proof (induction xs)
  case Nil
  then show ?case by simp
next
  case (Cons x xs)
  show ?case
  proof (cases "f x < a")
    case True
    then show ?thesis using Cons by simp
  next
    case False
    then have "filter (\<lambda>x. f x < a) xs = []"
      using Cons.prems by (auto simp: filter_empty_conv)
    with False show ?thesis by simp
  qed
qed

lemma prefix_index:
  fixes f :: "'a \<Rightarrow> 'b::linorder"
  assumes "sorted (map f xs)" "i < length xs"
  shows "i < length (filter (\<lambda>x. f x < a) xs) \<longleftrightarrow> f (xs ! i) < a"
proof -
  let ?n = "length (filter (\<lambda>x. f x < a) xs)"
  have pre: "filter (\<lambda>x. f x < a) xs = take ?n xs" by (rule filter_less_prefix [OF assms(1)])
  have n: "?n \<le> length xs" by simp
  have "f (xs ! i) < a" if "i < ?n"
  proof -
    have "xs ! i \<in> set (take ?n xs)" using that n by (simp add: in_set_conv_nth) (metis nth_take)
    then have "xs ! i \<in> set (filter (\<lambda>x. f x < a) xs)" using pre by simp
    then show ?thesis by simp
  qed
  moreover have "\<not> f (xs ! i) < a" if "\<not> i < ?n"
  proof -
    have "filter (\<lambda>x. f x < a) xs = filter (\<lambda>x. f x < a) (take ?n xs) @ filter (\<lambda>x. f x < a) (drop ?n xs)"
      by (metis append_take_drop_id filter_append)
    then have "?n = length (filter (\<lambda>x. f x < a) (take ?n xs)) +
        length (filter (\<lambda>x. f x < a) (drop ?n xs))" by (metis length_append)
    moreover have "filter (\<lambda>x. f x < a) (take ?n xs) = take ?n xs"
    proof (intro filter_True ballI)
      fix x assume "x \<in> set (take ?n xs)"
      then have "x \<in> set (filter (\<lambda>x. f x < a) xs)" using pre by simp
      then show "f x < a" by simp
    qed
    ultimately have "filter (\<lambda>x. f x < a) (drop ?n xs) = []"
      using n by (metis add_cancel_left_right length_0_conv length_take min.absorb2)
    moreover have "xs ! i \<in> set (drop ?n xs)"
    proof -
      have "xs ! i = drop ?n xs ! (i - ?n)" using that assms(2) by simp
      moreover have "drop ?n xs ! (i - ?n) \<in> set (drop ?n xs)"
        by (rule nth_mem) (use that assms(2) in simp)
      ultimately show ?thesis by (simp only:)
    qed
    ultimately show ?thesis unfolding filter_empty_conv by (rule bspec)
  qed
  ultimately show ?thesis by blast
qed

lemma sorted_coff:
  assumes "\<forall>c \<in> set cs. wf_chunk c" "sorted (map cid cs)"
  shows "sorted (map coff cs)"
proof -
  have "sorted_wrt (\<lambda>c d. cid c \<le> cid d) cs" using assms(2) by (simp add: sorted_wrt_map)
  then have "sorted_wrt (\<lambda>c d. coff c \<le> coff d) cs"
    using assms(1) by (rule_tac sorted_wrt_mono_rel) (auto intro: coff_mono)
  then show ?thesis by (simp add: sorted_wrt_map)
qed

lemma rep_sorted_coff: "rep b cs \<Longrightarrow> sorted (map coff cs)"
  by (simp add: rep_def sorted_coff)

lemma reg_lo_le_hi: "reg_lo t cs \<le> reg_hi t cs" "reg_hi t cs \<le> length cs"
proof -
  show "reg_lo t cs \<le> reg_hi t cs"
    unfolding reg_lo_def reg_hi_def by (induction cs) auto
  show "reg_hi t cs \<le> length cs" by (simp add: reg_hi_def)
qed

lemma reg_lo_iff:
  "rep b cs \<Longrightarrow> i < length cs \<Longrightarrow> i < reg_lo t cs \<longleftrightarrow> coff (cs ! i) < offset_for t"
  unfolding reg_lo_def by (rule prefix_index [OF rep_sorted_coff])

lemma reg_hi_iff:
  "rep b cs \<Longrightarrow> i < length cs \<Longrightarrow> i < reg_hi t cs \<longleftrightarrow> coff (cs ! i) \<le> offset_for t"
  unfolding reg_hi_def using prefix_index [OF rep_sorted_coff, of b cs i "offset_for t + 1"] by simp

lemma off_of_cpos:
  "rep b cs \<Longrightarrow> off_of cs k = cpos cs (length (filter (\<lambda>c. coff c < int k) cs))"
  unfolding off_of_def cpos_def by (metis filter_less_prefix rep_sorted_coff)

lemma rep_first_byte:
  assumes "rep b cs" "valid_fldtype32 t"
  shows "first_byte t b = cpos cs (reg_lo t cs)"
proof (cases "offset_for t = -1")
  case True
  then have "reg_lo t cs = 0" by (simp add: reg_lo_def filter_empty_conv coff_def offset_for_bounds)
      (meson coff_def filter_empty_conv leD offset_for_bounds(1))
  then show ?thesis using True by (simp add: first_byte_def Let_def)
next
  case False
  then have k: "0 \<le> offset_for t" "offset_for t < 7"
    using offset_for_bounds [of t] assms(2) by linarith+
  then have "boffs b ! nat (offset_for t) = off_of cs (nat (offset_for t))"
    using assms(1) by (simp add: rep_def del: upt_rec_numeral)
  then show ?thesis
    using k False by (simp add: first_byte_def Let_def off_of_cpos [OF assms(1)] reg_lo_def)
qed

lemma rep_last_byte:
  assumes "rep b cs" "valid_fldtype32 t"
  shows "last_byte t b = cpos cs (reg_hi t cs)"
proof (cases "offset_for t + 1 = 7")
  case True
  have "coff c < offset_for t + 1" if "c \<in> set cs" for c
    using that assms(1) True offset_for_bounds(2) [of "ctype c"]
    by (auto simp: rep_def coff_def ctype_def wf_chunk_def valid_id_def)
  then have "reg_hi t cs = length cs" by (simp add: reg_hi_def)
  then show ?thesis
    using True by (simp add: last_byte_def Let_def rep_blen [OF assms(1)] cpos_length)
next
  case False
  then have k: "0 \<le> offset_for t + 1" "offset_for t + 1 < 7"
    using offset_for_bounds [of t] assms(2) by linarith+
  then have "boffs b ! nat (offset_for t + 1) = off_of cs (nat (offset_for t + 1))"
    using assms(1) by (simp add: rep_def nat_less_iff del: upt_rec_numeral)
  then show ?thesis
    using k False by (simp add: last_byte_def Let_def off_of_cpos [OF assms(1)] reg_hi_def)
qed

lemma reg_type:
  assumes "rep b cs" "valid_fldtype32 t" "reg_lo t cs \<le> i" "i < reg_hi t cs"
  shows "ctype (cs ! i) = t"
proof -
  have i: "i < length cs" using assms(4) reg_lo_le_hi(2) [of t cs] by linarith
  have "coff (cs ! i) = offset_for t"
    using assms reg_lo_iff [OF assms(1) i, of t] reg_hi_iff [OF assms(1) i, of t] by linarith
  moreover have "valid_fldtype32 (ctype (cs ! i))"
    using rep_wf [OF assms(1) i] by (simp add: wf_chunk_def valid_id_def ctype_def)
  ultimately show ?thesis using assms(2) by (simp add: coff_def offset_for_inj)
qed

subsection \<open>Binary search\<close>

lemma lower_bound_bounds: "first \<le> lower_bound lt first n \<and> lower_bound lt first n \<le> first + n"
proof (induction lt first n rule: lower_bound.induct)
  case (1 lt first n)
  note IH1 = 1(1) [OF _ refl refl] and IH2 = 1(2) [OF _ refl refl]
  consider "n = 0" | "n \<noteq> 0" "lt (first + n div 2)" | "n \<noteq> 0" "\<not> lt (first + n div 2)" by blast
  then show ?case
  proof cases
    case 2
    have "lower_bound lt first n = lower_bound lt (Suc (first + n div 2)) (n - n div 2 - 1)"
      using 2 by (subst lower_bound.simps) (simp add: Let_def)
    then show ?thesis using IH1 [OF 2] 2(1) by linarith
  next
    case 3
    have "lower_bound lt first n = lower_bound lt first (n div 2)"
      using 3 by (subst lower_bound.simps) (simp add: Let_def)
    then show ?thesis using IH2 [OF 3] by linarith
  qed (simp add: lower_bound.simps)
qed

lemma lower_bound_less:
  assumes "\<And>i j. first \<le> i \<Longrightarrow> i \<le> j \<Longrightarrow> j < first + n \<Longrightarrow> lt j \<Longrightarrow> lt i"
    and "first \<le> i" "i < lower_bound lt first n"
  shows "lt i"
  using assms
proof (induction lt first n rule: lower_bound.induct)
  case (1 lt first n)
  let ?mid = "first + n div 2"
  show ?case
  proof (cases "n = 0")
    case True
    then show ?thesis using "1.prems" by (simp add: lower_bound.simps)
  next
    case n: False
    show ?thesis
    proof (cases "lt ?mid")
      case True
      show ?thesis
      proof (cases "i \<le> ?mid")
        case le: True
        show ?thesis by (rule "1.prems"(1) [OF "1.prems"(2) le _ True]) (use n in simp)
      next
        case False
        have "i < lower_bound lt (Suc ?mid) (n - n div 2 - 1)"
          using "1.prems"(3) n True by (simp add: lower_bound.simps [of lt first n] Let_def)
        then show ?thesis
          using False n by (intro "1.IH"(1) [OF n refl refl True]) (auto intro: "1.prems"(1))
      qed
    next
      case False
      have "i < lower_bound lt first (n div 2)"
        using "1.prems"(3) n False by (simp add: lower_bound.simps [of lt first n] Let_def)
      then show ?thesis
        using n "1.prems"(2) by (intro "1.IH"(2) [OF n refl refl False]) (auto intro: "1.prems"(1))
    qed
  qed
qed

subsection \<open>The counting scan\<close>

fun scan_ix :: "chunk list \<Rightarrow> fldid \<Rightarrow> int \<Rightarrow> nat" where
  "scan_ix [] fid oc = 0"
| "scan_ix (c # cs) fid oc =
     (if cid c > fid then 0
      else if cid c = fid then if oc = 0 then 0 else Suc (scan_ix cs fid (oc - 1))
      else Suc (scan_ix cs fid oc))"

lemma scan_loop_ix:
  assumes "rep b cs" "hi \<le> length cs" "i \<le> hi"
    and "\<And>j. i \<le> j \<Longrightarrow> j < hi \<Longrightarrow> fldclass (cid (cs ! j)) = k"
  shows "scan_loop k (bdata b) fid oc (cpos cs hi) count (cpos cs i) =
         cpos cs (i + scan_ix (take (hi - i) (drop i cs)) fid (oc - count))"
  using assms(3,4)
proof (induction "hi - i" arbitrary: i count)
  case 0
  then show ?case by (simp add: scan_loop.simps)
next
  case (Suc n)
  then have i: "i < hi" "i < length cs" using assms(2) by simp_all
  have less: "cpos cs i < cpos cs hi"
    using cpos_less_iff [OF rep_nonempty [OF assms(1)], of i hi] i assms(2) by simp
  have nxt: "cpos cs i + elem_size k (bdata b) (cpos cs i) = cpos cs (Suc i)"
    using rep_elem_size [OF assms(1) i(2)] Suc.prems(2) [of i] i by (simp add: cpos_Suc)
  have lst: "take (hi - i) (drop i cs) = cs ! i # take (hi - Suc i) (drop (Suc i) cs)"
    using i by (simp add: Cons_nth_drop_Suc [symmetric] take_Cons' Suc_diff_Suc)
  have IH: "scan_loop k (bdata b) fid oc (cpos cs hi) c' (cpos cs (Suc i)) =
         cpos cs (Suc i + scan_ix (take (hi - Suc i) (drop (Suc i) cs)) fid (oc - c'))" for c'
    using Suc.hyps(1) [of "Suc i" c'] Suc.hyps(2) Suc.prems i by simp
  show ?case
    unfolding scan_loop.simps [of k "bdata b" fid oc "cpos cs hi" count "cpos cs i"]
    using less i assms(1) by (simp add: rep_simps nxt IH lst diff_diff_eq)
qed

subsection \<open>The position found, over the whole sequence\<close>

definition below :: "fldid \<Rightarrow> chunk list \<Rightarrow> chunk list" where
  "below fid cs = filter (\<lambda>c. cid c < fid) cs"

definition same_id :: "fldid \<Rightarrow> chunk list \<Rightarrow> chunk list" where
  "same_id fid cs = filter (\<lambda>c. cid c = fid) cs"

definition above :: "fldid \<Rightarrow> chunk list \<Rightarrow> chunk list" where
  "above fid cs = filter (\<lambda>c. fid < cid c) cs"

definition occ_ix :: "nat \<Rightarrow> int \<Rightarrow> nat" where
  "occ_ix n oc = (if 0 \<le> oc \<and> oc < int n then nat oc else n)"

definition find_ix :: "chunk list \<Rightarrow> fldid \<Rightarrow> int \<Rightarrow> nat" where
  "find_ix cs fid oc = length (below fid cs) + occ_ix (length (same_id fid cs)) oc"

lemma length_below_same: "length (below fid cs) + length (same_id fid cs) \<le> length cs"
  unfolding below_def same_id_def by (induction cs) auto

lemma occ_ix_le: "occ_ix n oc \<le> n"
  by (auto simp: occ_ix_def)

lemma split_sorted:
  "sorted (map cid cs) \<Longrightarrow> cs = below fid cs @ same_id fid cs @ above fid cs"
proof (induction cs)
  case Nil
  then show ?case by (simp add: below_def same_id_def above_def)
next
  case (Cons c cs)
  then have IH: "cs = below fid cs @ same_id fid cs @ above fid cs"
    and ge: "\<And>d. d \<in> set cs \<Longrightarrow> cid c \<le> cid d" by auto
  consider "cid c < fid" | "cid c = fid" | "fid < cid c" by force
  then show ?case
  proof cases
    case 1
    then have "below fid (c # cs) = c # below fid cs" "same_id fid (c # cs) = same_id fid cs"
      "above fid (c # cs) = above fid cs"
      by (auto simp: below_def same_id_def above_def)
    then show ?thesis using IH by (metis append_Cons)
  next
    case 2
    have "below fid cs = []" using ge 2 by (force simp: below_def filter_empty_conv)
    moreover have "below fid (c # cs) = below fid cs" "same_id fid (c # cs) = c # same_id fid cs"
      "above fid (c # cs) = above fid cs"
      using 2 by (auto simp: below_def same_id_def above_def)
    ultimately show ?thesis using IH by (metis append_Cons append_Nil)
  next
    case 3
    have "below fid cs = []" "same_id fid cs = []"
      using ge 3 by (force simp: below_def same_id_def filter_empty_conv)+
    moreover have "below fid (c # cs) = below fid cs" "same_id fid (c # cs) = same_id fid cs"
      "above fid (c # cs) = c # above fid cs"
      using 3 by (auto simp: below_def same_id_def above_def)
    ultimately show ?thesis using IH by (metis append_Nil)
  qed
qed

lemma scan_ix_find: "sorted (map cid cs) \<Longrightarrow> scan_ix cs fid oc = find_ix cs fid oc"
proof (induction cs fid oc rule: scan_ix.induct)
  case (1 fid oc)
  then show ?case by (simp add: find_ix_def below_def same_id_def occ_ix_def)
next
  case (2 c cs fid oc)
  then have ge: "\<And>d. d \<in> set cs \<Longrightarrow> cid c \<le> cid d" and s: "sorted (map cid cs)" by auto
  consider "fid < cid c" | "cid c = fid" | "cid c < fid" by force
  then show ?case
  proof cases
    case 1
    then have "below fid (c # cs) = []" "same_id fid (c # cs) = []"
      using ge by (force simp: below_def same_id_def filter_empty_conv)+
    then show ?thesis using 1 by (simp add: find_ix_def occ_ix_def)
  next
    case eq: 2
    have "below fid cs = []" using ge eq by (force simp: below_def filter_empty_conv)
    then show ?thesis
      using eq "2.IH"(1) s by (auto simp: find_ix_def occ_ix_def below_def same_id_def)
  next
    case 3
    then show ?thesis
      using "2.IH"(2) s by (auto simp: find_ix_def below_def same_id_def)
  qed
qed

lemma find_ix_window:
  assumes "sorted (map cid cs)" "i \<le> hi" "hi \<le> length cs"
    and "\<And>j. j < i \<Longrightarrow> cid (cs ! j) < fid"
    and "\<And>j. hi \<le> j \<Longrightarrow> j < length cs \<Longrightarrow> fid < cid (cs ! j)"
  shows "i + scan_ix (take (hi - i) (drop i cs)) fid oc = find_ix cs fid oc"
    and "find_ix cs fid oc \<le> hi"
proof -
  let ?M = "take (hi - i) (drop i cs)"
  have split: "cs = take i cs @ ?M @ drop hi cs"
    using assms(2) by (metis append_take_drop_id drop_drop le_add_diff_inverse2)
  have pre: "\<forall>c \<in> set (take i cs). cid c < fid"
    using assms(2-4) by (auto simp: in_set_conv_nth)
  have post: "\<forall>c \<in> set (drop hi cs). fid < cid c"
    using assms(3,5) by (auto simp: in_set_conv_nth)
  have b: "below fid cs = take i cs @ below fid ?M"
    using pre post by (subst split) (auto simp: below_def filter_id_conv filter_empty_conv)
  have s: "same_id fid cs = same_id fid ?M"
  proof -
    have "same_id fid (take i cs) = []" "same_id fid (drop hi cs) = []"
      using pre post by (force simp: same_id_def filter_empty_conv)+
    moreover have "same_id fid cs = same_id fid (take i cs) @ same_id fid ?M @ same_id fid (drop hi cs)"
      by (subst split) (simp add: same_id_def)
    ultimately show ?thesis by simp
  qed
  have "sorted (map cid ?M)"
    using assms(1) by (simp add: take_map [symmetric] drop_map [symmetric] sorted_wrt_take sorted_wrt_drop)
  then have "scan_ix ?M fid oc = find_ix ?M fid oc" by (rule scan_ix_find)
  then show "i + scan_ix ?M fid oc = find_ix cs fid oc"
    using b s assms(2,3) by (simp add: find_ix_def)
  have "length (below fid ?M) + length (same_id fid ?M) \<le> length ?M"
    by (rule length_below_same)
  moreover have "length ?M = hi - i" using assms(2,3) by simp
  ultimately show "find_ix cs fid oc \<le> hi"
    using b s assms(2,3) occ_ix_le [of "length (same_id fid ?M)" oc]
    by (simp add: find_ix_def)
qed

end
