(* ===== verification/Fml_Find.thy ===== *)
theory Fml_Find
  imports Fml_Search
begin

text \<open>
  What the readers of src/fbfr32.h return on a represented buffer: \<open>where\<close> points at
  the field a scan of the whole sequence would find, and \<open>pres\<close>, \<open>occur\<close>, \<open>len\<close>,
  \<open>find\<close>, \<open>findlast\<close>, \<open>get\<close> and \<open>next\<close> are functions of \<open>occs cs\<close>, the occurrence
  lists of the field sequence.
\<close>

subsection \<open>where\<close>

lemma sorted_cid: "rep b cs \<Longrightarrow> sorted (map cid cs)"
  by (simp add: rep_def)

lemma sorted_cid_le:
  "rep b cs \<Longrightarrow> i \<le> j \<Longrightarrow> j < length cs \<Longrightarrow> cid (cs ! i) \<le> cid (cs ! j)"
  using sorted_nth_mono [OF sorted_cid, of b cs i j] by simp

lemma valid_cid: "rep b cs \<Longrightarrow> i < length cs \<Longrightarrow> valid_id (cid (cs ! i))"
  using rep_wf [of b cs i] by (simp add: wf_chunk_def)

lemma below_region:
  assumes "rep b cs" "valid_id fid" "j < reg_lo (Fldtype32 fid) cs"
  shows "cid (cs ! j) < fid"
proof (rule ccontr)
  assume "\<not> cid (cs ! j) < fid"
  then have "Fldtype32 fid \<le> Fldtype32 (cid (cs ! j))" by (simp add: Fldtype32_mono)
  moreover have j: "j < length cs" using assms(3) reg_lo_le_hi [of "Fldtype32 fid" cs] by simp
  ultimately have "offset_for (Fldtype32 fid) \<le> coff (cs ! j)"
    using assms(1,2) valid_cid [OF assms(1) j]
    by (simp add: coff_def ctype_def offset_for_mono valid_id_def)
  then show False using reg_lo_iff [OF assms(1) j, of "Fldtype32 fid"] assms(3) by simp
qed

lemma above_region:
  assumes "rep b cs" "valid_id fid" "reg_hi (Fldtype32 fid) cs \<le> j" "j < length cs"
  shows "fid < cid (cs ! j)"
proof (rule ccontr)
  assume "\<not> fid < cid (cs ! j)"
  then have "Fldtype32 (cid (cs ! j)) \<le> Fldtype32 fid" by (simp add: Fldtype32_mono)
  then have "coff (cs ! j) \<le> offset_for (Fldtype32 fid)"
    using assms(1,2) valid_cid [OF assms(1,4)]
    by (simp add: coff_def ctype_def offset_for_mono valid_id_def)
  then show False using reg_hi_iff [OF assms(1,4), of "Fldtype32 fid"] assms(3) by simp
qed

lemma region_class:
  assumes "rep b cs" "valid_id fid" "reg_lo (Fldtype32 fid) cs \<le> j" "j < reg_hi (Fldtype32 fid) cs"
  shows "fldclass (cid (cs ! j)) = fldclass fid"
  using reg_type [OF assms(1) _ assms(3,4)] assms(2)
  by (intro fldclass_type) (simp add: valid_id_def ctype_def)

lemma scan_region:
  assumes "rep b cs" "valid_id fid" "reg_lo (Fldtype32 fid) cs \<le> i" "i \<le> reg_hi (Fldtype32 fid) cs"
    and "\<And>j. reg_lo (Fldtype32 fid) cs \<le> j \<Longrightarrow> j < i \<Longrightarrow> cid (cs ! j) < fid"
  shows "scan_loop (fldclass fid) (bdata b) fid oc (cpos cs (reg_hi (Fldtype32 fid) cs)) 0 (cpos cs i) =
           cpos cs (find_ix cs fid oc)"
    and "find_ix cs fid oc \<le> reg_hi (Fldtype32 fid) cs"
proof -
  let ?hi = "reg_hi (Fldtype32 fid) cs"
  have small: "cid (cs ! j) < fid" if "j < i" for j
    using below_region [OF assms(1,2), of j] assms(5) [of j] that by (metis not_less)
  have w: "i + scan_ix (take (?hi - i) (drop i cs)) fid oc = find_ix cs fid oc"
    "find_ix cs fid oc \<le> ?hi"
    using find_ix_window [OF sorted_cid [OF assms(1)] assms(4) reg_lo_le_hi(2), of fid oc] small
      above_region [OF assms(1,2)] by auto
  then show "scan_loop (fldclass fid) (bdata b) fid oc (cpos cs ?hi) 0 (cpos cs i) =
      cpos cs (find_ix cs fid oc)"
    using scan_loop_ix [OF assms(1) reg_lo_le_hi(2) assms(4), of "fldclass fid" fid oc 0]
      region_class [OF assms(1,2)] assms(3) by simp
  show "find_ix cs fid oc \<le> ?hi" by (rule w(2))
qed

lemma find_ix_le_hi: "rep b cs \<Longrightarrow> valid_id fid \<Longrightarrow> find_ix cs fid oc \<le> reg_hi (Fldtype32 fid) cs"
  by (rule scan_region(2) [where i = "reg_lo (Fldtype32 fid) cs"]) (auto simp: reg_lo_le_hi)

lemma find_ix_ge_lo:
  assumes "rep b cs" "valid_id fid"
  shows "reg_lo (Fldtype32 fid) cs \<le> find_ix cs fid oc"
proof -
  let ?lo = "reg_lo (Fldtype32 fid) cs"
  have "below fid (take ?lo cs) = take ?lo cs"
    unfolding below_def
  proof (intro filter_True ballI)
    fix c assume "c \<in> set (take ?lo cs)"
    then obtain j where "j < ?lo" "c = cs ! j" by (auto simp: in_set_conv_nth)
    then show "cid c < fid" using below_region [OF assms] by simp
  qed
  moreover have "below fid cs = below fid (take ?lo cs) @ below fid (drop ?lo cs)"
    by (metis append_take_drop_id below_def filter_append)
  ultimately have "length (take ?lo cs) \<le> length (below fid cs)"
    by (metis le_add1 length_append)
  then show ?thesis
    using reg_lo_le_hi [of "Fldtype32 fid" cs] by (simp add: find_ix_def)
qed

lemma find_ix_le: "rep b cs \<Longrightarrow> valid_id fid \<Longrightarrow> find_ix cs fid oc \<le> length cs"
  using find_ix_le_hi [of b cs fid oc] reg_lo_le_hi(2) [of "Fldtype32 fid" cs] by simp

lemma region_cpos:
  assumes "rep b cs" "valid_id fid" "fldclass fid \<noteq> FIELDN"
    and "sz = (if fldclass fid = FIELD8 then 8 else 16)"
    and "reg_lo (Fldtype32 fid) cs + j \<le> reg_hi (Fldtype32 fid) cs"
  shows "cpos cs (reg_lo (Fldtype32 fid) cs + j) = cpos cs (reg_lo (Fldtype32 fid) cs) + sz * j"
  using assms(5)
proof (induction j)
  case 0
  then show ?case by simp
next
  case (Suc j)
  let ?i = "reg_lo (Fldtype32 fid) cs + j"
  have i: "?i < length cs" using Suc.prems reg_lo_le_hi(2) [of "Fldtype32 fid" cs] by linarith
  have "length (cs ! ?i) = sz"
    using region_class [OF assms(1,2), of ?i] rep_wf [OF assms(1) i] Suc.prems assms(3,4)
    by (auto simp: wf_chunk_def csize_def split: storage_class.splits)
  then show ?case using Suc cpos_Suc [OF i] by simp
qed

lemma cpos_find_eq:
  assumes "rep b cs" "valid_id fid"
  shows "cpos cs (find_ix cs fid oc) = cpos cs (reg_hi (Fldtype32 fid) cs) \<longleftrightarrow>
         find_ix cs fid oc = reg_hi (Fldtype32 fid) cs"
  using cpos_eq_iff [OF rep_nonempty [OF assms(1)] find_ix_le [OF assms] reg_lo_le_hi(2)] .

lemma where_fixed_region:
  assumes "rep b cs" "valid_id fid" "fldclass fid \<noteq> FIELDN"
    and "sz = (if fldclass fid = FIELD8 then 8 else 16)"
  shows "where_fixed (fldclass fid) sz (bdata b) fid oc
           (cpos cs (reg_lo (Fldtype32 fid) cs)) (cpos cs (reg_hi (Fldtype32 fid) cs)) =
         (if find_ix cs fid oc < reg_hi (Fldtype32 fid) cs then Some (cpos cs (find_ix cs fid oc))
          else None)"
proof -
  let ?lo = "reg_lo (Fldtype32 fid) cs" and ?hi = "reg_hi (Fldtype32 fid) cs"
  let ?k = "find_ix cs fid oc"
  let ?lt = "\<lambda>i. id_at (bdata b) (cpos cs ?lo + sz * i) < fid"
  let ?lb = "lower_bound ?lt 0 (?hi - ?lo)"
  have lohi: "?lo \<le> ?hi" "?hi \<le> length cs" by (rule reg_lo_le_hi)+
  have k: "?lo \<le> ?k" "?k \<le> ?hi"
    using find_ix_ge_lo [OF assms(1,2)] find_ix_le_hi [OF assms(1,2)] by auto
  have sz: "0 < sz" by (simp add: assms(4))
  have pos: "cpos cs (?lo + j) = cpos cs ?lo + sz * j" if "?lo + j \<le> ?hi" for j
    using region_cpos [OF assms that] .
  have n: "(cpos cs ?hi - cpos cs ?lo) div sz = ?hi - ?lo"
    using pos [of "?hi - ?lo"] lohi sz by simp
  have lt: "?lt j \<longleftrightarrow> cid (cs ! (?lo + j)) < fid" if "?lo + j < ?hi" for j
    using that lohi pos [of j] rep_id_at [OF assms(1), of "?lo + j"] by simp
  have mono: "?lt i" if "i \<le> j" "j < ?hi - ?lo" "?lt j" for i j
  proof -
    have "cid (cs ! (?lo + i)) \<le> cid (cs ! (?lo + j))"
      using sorted_cid_le [OF assms(1), of "?lo + i" "?lo + j"] that lohi by simp
    moreover have "cid (cs ! (?lo + j)) < fid" using lt [of j] that by simp
    ultimately have "cid (cs ! (?lo + i)) < fid" by (rule order_le_less_trans)
    then show ?thesis using lt [of i] that by simp
  qed
  have lb: "?lb \<le> ?hi - ?lo" using lower_bound_bounds [of 0 ?lt "?hi - ?lo"] by simp
  have small: "cid (cs ! j) < fid" if "?lo \<le> j" "j < ?lo + ?lb" for j
  proof -
    have "?lt (j - ?lo)"
      by (rule lower_bound_less [of 0 "?hi - ?lo"]) (use that mono in auto)
    then show ?thesis using lt [of "j - ?lo"] that lb by simp
  qed
  have start: "cpos cs ?lo + sz * ?lb = cpos cs (?lo + ?lb)"
    using pos [of ?lb] lb lohi by simp
  have scan: "scan_loop (fldclass fid) (bdata b) fid oc (cpos cs ?hi) 0 (cpos cs (?lo + ?lb)) =
      cpos cs ?k"
    using scan_region(1) [OF assms(1,2), of "?lo + ?lb" oc] small lb lohi by simp
  have empty: "cpos cs ?lo = cpos cs ?hi \<longleftrightarrow> ?lo = ?hi"
    using cpos_eq_iff [OF rep_nonempty [OF assms(1)] _ lohi(2), of ?lo] lohi by simp
  show ?thesis
    using k empty cpos_find_eq [OF assms(1,2), of oc]
    by (auto simp: where_fixed_def Let_def n start scan)
qed

lemma rep_where:
  assumes "rep b cs" "valid_id fid"
  shows "fb_where fid oc b =
         (if find_ix cs fid oc < reg_hi (Fldtype32 fid) cs then Some (cpos cs (find_ix cs fid oc))
          else None)"
proof -
  let ?lo = "reg_lo (Fldtype32 fid) cs" and ?hi = "reg_hi (Fldtype32 fid) cs"
  have v: "valid_fldtype32 (Fldtype32 fid)" using assms(2) by (simp add: valid_id_def)
  have lohi: "?lo \<le> ?hi" "?hi \<le> length cs" by (rule reg_lo_le_hi)+
  note fixed = where_fixed_region [OF assms]
  show ?thesis
  proof (cases "fldclass fid")
    case FIELD8
    then show ?thesis
      using fixed [of 8 oc]
      by (simp add: fb_where_def Let_def rep_first_byte [OF assms(1) v] rep_last_byte [OF assms(1) v])
  next
    case FIELD16
    then show ?thesis
      using fixed [of 16 oc]
      by (simp add: fb_where_def Let_def rep_first_byte [OF assms(1) v] rep_last_byte [OF assms(1) v])
  next
    case FIELDN
    have "cpos cs ?lo = cpos cs ?hi \<longleftrightarrow> ?lo = ?hi"
      using cpos_eq_iff [OF rep_nonempty [OF assms(1)] _ lohi(2), of ?lo] lohi by simp
    then show ?thesis
      using FIELDN scan_region(1) [OF assms, of ?lo oc] lohi cpos_find_eq [OF assms, of oc]
        find_ix_ge_lo [OF assms, of oc] find_ix_le_hi [OF assms, of oc]
      by (auto simp: fb_where_def Let_def wheren_def rep_first_byte [OF assms(1) v]
          rep_last_byte [OF assms(1) v])
  qed
qed

lemma rep_where_last:
  assumes "rep b cs" "valid_id fid"
  shows "(case fb_where fid oc b of None \<Rightarrow> last_byte (Fldtype32 fid) b | Some p \<Rightarrow> p) =
         cpos cs (find_ix cs fid oc)"
proof -
  have "\<not> find_ix cs fid oc < reg_hi (Fldtype32 fid) cs \<Longrightarrow>
      find_ix cs fid oc = reg_hi (Fldtype32 fid) cs"
    using find_ix_le_hi [OF assms, of oc] by simp
  then show ?thesis
    using rep_where [OF assms, of oc] rep_last_byte [OF assms(1), of "Fldtype32 fid"] assms(2)
    by (auto simp: valid_id_def)
qed

subsection \<open>Occurrences\<close>

text \<open>The values stored under a field identifier, in order: what a buffer means.\<close>

definition occs :: "chunk list \<Rightarrow> fldid \<Rightarrow> byte list list" where
  "occs cs fid = map cval (same_id fid cs)"

lemma length_occs: "length (occs cs fid) = length (same_id fid cs)"
  by (simp add: occs_def)

lemma nth_split_same:
  assumes "rep b cs" "n < length (same_id fid cs)"
  shows "cs ! (length (below fid cs) + n) = same_id fid cs ! n"
    "length (below fid cs) + n < length cs"
proof -
  have "cs = below fid cs @ same_id fid cs @ above fid cs"
    by (rule split_sorted [OF sorted_cid [OF assms(1)]])
  then show "cs ! (length (below fid cs) + n) = same_id fid cs ! n"
    "length (below fid cs) + n < length cs"
    using assms(2) by (metis nth_append nth_append_length_plus, metis add_less_cancel_left
        length_append trans_less_add1)
qed

lemma cid_same: "n < length (same_id fid cs) \<Longrightarrow> cid (same_id fid cs ! n) = fid"
  using nth_mem [of n "same_id fid cs"] by (simp add: same_id_def)

lemma cid_past_same:
  assumes "rep b cs" "length (below fid cs) + length (same_id fid cs) < length cs"
  shows "fid < cid (cs ! (length (below fid cs) + length (same_id fid cs)))"
proof -
  let ?n = "length (below fid cs) + length (same_id fid cs)"
  have s: "cs = below fid cs @ same_id fid cs @ above fid cs"
    by (rule split_sorted [OF sorted_cid [OF assms(1)]])
  then have "length cs = ?n + length (above fid cs)" by (metis add.assoc length_append)
  then have ne: "0 < length (above fid cs)" using assms(2) by simp
  have "cs ! ?n = above fid cs ! 0"
    by (subst (1) s) (simp add: nth_append)
  moreover have "above fid cs ! 0 \<in> set (above fid cs)" using ne by (rule nth_mem)
  ultimately show ?thesis by (simp add: above_def)
qed

lemma find_ix_occ:
  "0 \<le> oc \<Longrightarrow> oc < int (length (same_id fid cs)) \<Longrightarrow>
     find_ix cs fid oc = length (below fid cs) + nat oc"
  "\<not> (0 \<le> oc \<and> oc < int (length (same_id fid cs))) \<Longrightarrow>
     find_ix cs fid oc = length (below fid cs) + length (same_id fid cs)"
  by (auto simp: find_ix_def occ_ix_def)

lemma rep_is_field:
  assumes "rep b cs" "valid_id fid"
  shows "is_field b fid (fb_where fid oc b) \<longleftrightarrow> 0 \<le> oc \<and> oc < int (length (occs cs fid))"
proof (cases "0 \<le> oc \<and> oc < int (length (same_id fid cs))")
  case True
  let ?k = "find_ix cs fid oc"
  have n: "nat oc < length (same_id fid cs)" using True by linarith
  have k: "?k = length (below fid cs) + nat oc" using find_ix_occ(1) True by simp
  have c: "cid (cs ! ?k) = fid" "?k < length cs"
    using nth_split_same [OF assms(1) n] cid_same [OF n] k by simp_all
  have "coff (cs ! ?k) = offset_for (Fldtype32 fid)" using c by (simp add: coff_def ctype_def)
  then have "?k < reg_hi (Fldtype32 fid) cs" using reg_hi_iff [OF assms(1) c(2)] by simp
  then show ?thesis
    using True c assms(1) by (simp add: is_field_def rep_where [OF assms] rep_simps length_occs)
next
  case False
  let ?k = "find_ix cs fid oc"
  have k: "?k = length (below fid cs) + length (same_id fid cs)" using find_ix_occ(2) False by simp
  show ?thesis
  proof (cases "?k < length cs")
    case True
    then have "cid (cs ! ?k) \<noteq> fid" using cid_past_same [OF assms(1), of fid] k by simp
    then show ?thesis
      using False True assms(1)
      by (simp add: is_field_def rep_where [OF assms] rep_simps length_occs)
  next
    case past: False
    then have "\<not> ?k < reg_hi (Fldtype32 fid) cs" using reg_lo_le_hi(2) [of "Fldtype32 fid" cs] by simp
    then show ?thesis
      using False by (simp add: is_field_def rep_where [OF assms] length_occs)
  qed
qed

lemma rep_found:
  assumes "rep b cs" "valid_id fid" "0 \<le> oc" "oc < int (length (occs cs fid))"
  shows "fb_where fid oc b = Some (cpos cs (length (below fid cs) + nat oc))"
    "length (below fid cs) + nat oc < length cs"
    "cs ! (length (below fid cs) + nat oc) = same_id fid cs ! nat oc"
    "cval (cs ! (length (below fid cs) + nat oc)) = occs cs fid ! nat oc"
proof -
  have n: "nat oc < length (same_id fid cs)" using assms(3,4) by (simp add: length_occs)
  show l: "length (below fid cs) + nat oc < length cs"
    and c: "cs ! (length (below fid cs) + nat oc) = same_id fid cs ! nat oc"
    using nth_split_same [OF assms(1) n] by simp_all
  then show "cval (cs ! (length (below fid cs) + nat oc)) = occs cs fid ! nat oc"
    using n by (simp add: occs_def)
  have "is_field b fid (fb_where fid oc b)" using rep_is_field [OF assms(1,2)] assms(3,4) by simp
  then show "fb_where fid oc b = Some (cpos cs (length (below fid cs) + nat oc))"
    using rep_where [OF assms(1,2), of oc] find_ix_occ(1) [of oc fid cs] assms(3,4)
    by (simp add: is_field_def length_occs split: if_splits)
qed

subsection \<open>Walking over equal fields\<close>

definition pos_opt :: "chunk list \<Rightarrow> nat \<Rightarrow> nat option" where
  "pos_opt cs i = (if i < length cs then Some (cpos cs i) else None)"

lemma rep_next_opt: "rep b cs \<Longrightarrow> i < length cs \<Longrightarrow> fb_nextf b (cpos cs i) = pos_opt cs (Suc i)"
  by (simp add: rep_next pos_opt_def)

lemma cid_in_run:
  assumes "rep b cs" "length (below fid cs) \<le> i" "i < length cs"
  shows "cid (cs ! i) = fid \<longleftrightarrow> i < length (below fid cs) + length (same_id fid cs)"
proof (cases "i < length (below fid cs) + length (same_id fid cs)")
  case True
  let ?n = "i - length (below fid cs)"
  have "?n < length (same_id fid cs)" using True assms(2) by linarith
  then show ?thesis
    using nth_split_same(1) [OF assms(1), of ?n fid] cid_same [of ?n fid cs] assms(2) True by simp
next
  case False
  let ?m = "length (below fid cs) + length (same_id fid cs)"
  have "?m < length cs" using False assms(3) by linarith
  then have "fid < cid (cs ! ?m)" by (rule cid_past_same [OF assms(1)])
  also have "cid (cs ! ?m) \<le> cid (cs ! i)"
    using sorted_cid_le [OF assms(1), of ?m i] False assms(3) by simp
  finally show ?thesis using False by simp
qed

lemma rep_occ_loop:
  assumes "rep b cs" "length (below fid cs) \<le> i"
  shows "occ_loop b fid (pos_opt cs i) n =
         n + int (length (below fid cs) + length (same_id fid cs) - i)"
  using assms(2)
proof (induction "length cs - i" arbitrary: i n)
  case 0
  have "length (below fid cs) + length (same_id fid cs) \<le> length cs" by (rule length_below_same)
  then show ?case using 0 by (simp add: pos_opt_def)
next
  case (Suc k)
  have i: "i < length cs" using Suc.hyps(2) by simp
  have IH: "occ_loop b fid (pos_opt cs (Suc i)) (n + 1) =
      n + 1 + int (length (below fid cs) + length (same_id fid cs) - Suc i)"
    using Suc.hyps(1) [of "Suc i" "n + 1"] Suc.hyps(2) Suc.prems by simp
  have "pos_opt cs i = Some (cpos cs i)" using i by (simp add: pos_opt_def)
  then show ?case
    using IH cid_in_run [OF assms(1) Suc.prems i] rep_next_opt [OF assms(1) i] rep_id_at [OF assms(1) i]
    by simp
qed

lemma rep_skip_same:
  assumes "rep b cs" "length (below fid cs) \<le> i"
    "i \<le> length (below fid cs) + length (same_id fid cs)"
  shows "skip_same b fid (pos_opt cs i) =
         pos_opt cs (length (below fid cs) + length (same_id fid cs))"
  using assms(2,3)
proof (induction "length cs - i" arbitrary: i)
  case 0
  have "length (below fid cs) + length (same_id fid cs) \<le> length cs" by (rule length_below_same)
  then show ?case using 0 by (simp add: pos_opt_def)
next
  case (Suc k)
  have i: "i < length cs" using Suc.hyps(2) by simp
  have p: "pos_opt cs i = Some (cpos cs i)" using i by (simp add: pos_opt_def)
  show ?case
  proof (cases "i < length (below fid cs) + length (same_id fid cs)")
    case True
    then show ?thesis
      using Suc.hyps(1) [of "Suc i"] Suc.hyps(2) Suc.prems cid_in_run [OF assms(1) Suc.prems(1) i]
        rep_next_opt [OF assms(1) i] rep_id_at [OF assms(1) i] p
      by simp
  next
    case False
    then show ?thesis
      using Suc.prems cid_in_run [OF assms(1) Suc.prems(1) i] rep_id_at [OF assms(1) i] p
      by (simp add: le_antisym)
  qed
qed

subsection \<open>The readers\<close>

lemma rep_occur:
  assumes "rep b cs" "valid_id fid"
  shows "fb_occur fid b = int (length (occs cs fid))"
proof (cases "occs cs fid = []")
  case True
  then have "\<not> is_field b fid (fb_where fid 0 b)" using rep_is_field [OF assms, of 0] by simp
  then have "fb_occur fid b = 0"
    by (auto simp: fb_occur_def is_field_def split: option.splits)
  then show ?thesis using True by simp
next
  case False
  then have z: "0 < length (occs cs fid)" by simp
  then have "fb_where fid 0 b = pos_opt cs (length (below fid cs))"
    using rep_found(1,2) [OF assms, of 0] by (simp add: pos_opt_def)
  then show ?thesis
    using rep_occ_loop [OF assms(1), of fid "length (below fid cs)" 0]
    by (simp add: fb_occur_def length_occs)
qed

lemma rep_pres:
  "rep b cs \<Longrightarrow> valid_id fid \<Longrightarrow> fb_pres fid oc b \<longleftrightarrow> 0 \<le> oc \<and> oc < int (length (occs cs fid))"
  by (simp add: fb_pres_def rep_is_field)

lemma rep_value_at:
  assumes "rep b cs" "i < length cs"
  shows "rd (fvalue (bdata b) (cpos cs i)) (flength (bdata b) (cpos cs i)) (bdata b) = cval (cs ! i)"
    "flength (bdata b) (cpos cs i) = length (cval (cs ! i))"
  using rep_src_value [OF assms] rep_flength [OF assms] length_cval [OF rep_wf [OF assms]]
  by (simp_all add: src_value_def)

lemma rep_len:
  assumes "rep b cs" "valid_id fid"
  shows "fb_len fid oc b =
         (if 0 \<le> oc \<and> oc < int (length (occs cs fid)) then Ret (length (occs cs fid ! nat oc))
          else Err FNOTPRES)"
proof (cases "0 \<le> oc \<and> oc < int (length (occs cs fid))")
  case True
  then show ?thesis
    using rep_is_field [OF assms, of oc] rep_found [OF assms, of oc] rep_value_at(2) [OF assms(1)]
    by (simp add: fb_len_def)
next
  case False
  then show ?thesis using rep_is_field [OF assms, of oc] by (auto simp: fb_len_def Let_def)
qed

lemma rep_find:
  assumes "rep b cs" "valid_id fid"
  shows "(\<exists>p. fb_find fid oc b = Ret (p, length (occs cs fid ! nat oc)) \<and>
              rd p (length (occs cs fid ! nat oc)) (bdata b) = occs cs fid ! nat oc)
           \<longleftrightarrow> 0 \<le> oc \<and> oc < int (length (occs cs fid))"
    "\<not> (0 \<le> oc \<and> oc < int (length (occs cs fid))) \<Longrightarrow> fb_find fid oc b = Err FNOTPRES"
proof -
  show miss: "\<not> (0 \<le> oc \<and> oc < int (length (occs cs fid))) \<Longrightarrow> fb_find fid oc b = Err FNOTPRES"
    using rep_is_field [OF assms, of oc] by (auto simp: fb_find_def Let_def)
  show "(\<exists>p. fb_find fid oc b = Ret (p, length (occs cs fid ! nat oc)) \<and>
              rd p (length (occs cs fid ! nat oc)) (bdata b) = occs cs fid ! nat oc)
           \<longleftrightarrow> 0 \<le> oc \<and> oc < int (length (occs cs fid))"
  proof (cases "0 \<le> oc \<and> oc < int (length (occs cs fid))")
    case True
    then have "fb_find fid oc b = Ret (fvalue (bdata b) (cpos cs (length (below fid cs) + nat oc)),
        length (occs cs fid ! nat oc))"
      using rep_is_field [OF assms, of oc] rep_found [OF assms, of oc] rep_value_at(2) [OF assms(1)]
      by (simp add: fb_find_def)
    moreover have "rd (fvalue (bdata b) (cpos cs (length (below fid cs) + nat oc)))
        (length (occs cs fid ! nat oc)) (bdata b) = occs cs fid ! nat oc"
      using True rep_found [OF assms, of oc] rep_value_at [OF assms(1)] by metis
    ultimately show ?thesis using True by auto
  next
    case False
    then show ?thesis using miss by simp
  qed
qed

text \<open>\<open>get\<close> into memory \<open>l\<close>: the value, its length, and no byte outside it is touched.\<close>

lemma rep_get:
  assumes "rep b cs" "valid_id fid"
  shows "fb_get fid oc loc maxlen b =
         (if \<not> (0 \<le> oc \<and> oc < int (length (occs cs fid))) then (Err FNOTPRES, loc, maxlen)
          else let v = occs cs fid ! nat oc
               in if maxlen \<noteq> None \<and> the maxlen < length v then (Err FNOSPACE, loc, Some (length v))
                  else (Ret (), map_option (if Fldtype32 fid \<noteq> FLD_FML32 then wr 0 v else wr 4 (drop 4 v)) loc,
                        map_option (\<lambda>_. length v) maxlen))"
proof (cases "0 \<le> oc \<and> oc < int (length (occs cs fid))")
  case True
  let ?p = "cpos cs (length (below fid cs) + nat oc)" and ?v = "occs cs fid ! nat oc"
  have w: "fb_where fid oc b = Some ?p" using rep_found(1) [OF assms] True by simp
  have f: "is_field b fid (Some ?p)" using rep_is_field [OF assms, of oc] True w by simp
  have i: "length (below fid cs) + nat oc < length cs"
    and c: "cval (cs ! (length (below fid cs) + nat oc)) = ?v"
    using rep_found(2,4) [OF assms] True by auto
  have len: "flength (bdata b) ?p = length ?v" using rep_value_at(2) [OF assms(1) i] c by simp
  have val: "rd (fvalue (bdata b) ?p) (length ?v) (bdata b) = ?v"
    using rep_value_at [OF assms(1) i] c by simp
  have val4: "rd (fvalue (bdata b) ?p + 4) (length ?v - 4) (bdata b) = drop 4 ?v"
  proof (cases "4 \<le> length ?v")
    case True
    then show ?thesis using drop_rd [OF True, of "fvalue (bdata b) ?p" "bdata b"] val by simp
  next
    case False
    then show ?thesis by simp
  qed
  show ?thesis
    using True f by (auto simp: fb_get_def Let_def w len val val4 split: option.splits)
next
  case False
  then show ?thesis using rep_is_field [OF assms, of oc] by (auto simp: fb_get_def Let_def)
qed

lemma rep_findlast:
  assumes "rep b cs" "valid_id fid"
  shows "occs cs fid = [] \<Longrightarrow> fb_findlast fid b = Err FNOTPRES"
    "occs cs fid \<noteq> [] \<Longrightarrow>
       \<exists>p. fb_findlast fid b = Ret (int (length (occs cs fid)) - 1, p, length (last (occs cs fid))) \<and>
           rd p (length (last (occs cs fid))) (bdata b) = last (occs cs fid)"
proof -
  show "occs cs fid = [] \<Longrightarrow> fb_findlast fid b = Err FNOTPRES"
    using rep_occur [OF assms] by (simp add: fb_findlast_def Let_def)
  assume ne: "occs cs fid \<noteq> []"
  let ?oc = "int (length (occs cs fid)) - 1"
  have oc: "0 \<le> ?oc" "?oc < int (length (occs cs fid))"
    using ne by (simp_all add: Suc_le_eq flip: length_greater_0_conv)
  have n: "nat ?oc = length (occs cs fid) - 1" by linarith
  note f = rep_found [OF assms oc]
  have c: "cval (cs ! (length (below fid cs) + nat ?oc)) = last (occs cs fid)"
    using f(4) n ne by (simp add: last_conv_nth)
  show "\<exists>p. fb_findlast fid b = Ret (?oc, p, length (last (occs cs fid))) \<and>
           rd p (length (last (occs cs fid))) (bdata b) = last (occs cs fid)"
    using f(1) rep_occur [OF assms] ne rep_value_at [OF assms(1) f(2)] c
    by (auto simp: fb_findlast_def Let_def)
qed

end
