(* ===== verification/Fml_Change.thy ===== *)
theory Fml_Change
  imports Fml_Find
begin

text \<open>
  The writers of src/fbfr32.h on a represented buffer: replacing a run of fields of one
  type keeps the representation (\<open>rep_splice\<close>), the field that \<open>chg\<close> stores reads back
  as the value given, and the bytes moved and written stay inside the buffer.
\<close>

subsection \<open>Splicing the field sequence\<close>

lemma off_of_append: "off_of (xs @ ys) k = off_of xs k + off_of ys k"
  by (simp add: off_of_def)

lemma off_of_same:
  assumes "\<forall>c \<in> set xs. coff c = d"
  shows "off_of xs k = (if d < int k then length (concat xs) else 0)"
proof -
  have "filter (\<lambda>c. coff c < int k) xs = (if d < int k then xs else [])"
    using assms by (induction xs) auto
  then show ?thesis by (simp add: off_of_def)
qed

lemma off_of_le: "off_of xs k \<le> length (concat xs)"
  by (induction xs) (auto simp: off_of_def)

lemma rep_offs: "rep b cs \<Longrightarrow> k < max_offset \<Longrightarrow> boffs b ! k = off_of cs k"
  by (simp add: rep_def del: upt_rec_numeral)

lemma rep_splice:
  assumes rep: "rep b (pre @ mid @ post)"
    and wf: "\<forall>c \<in> set new. wf_chunk c"
    and sorted: "sorted (map cid (pre @ new @ post))"
    and off: "\<forall>c \<in> set mid. coff c = offset_for t" "\<forall>c \<in> set new. coff c = offset_for t"
    and d: "d = int (length (concat new)) - int (length (concat mid))"
    and fits: "int (blen b) + d \<le> int (bsize b)"
    and bytes: "rd 0 (nat (int (blen b) + d)) m = concat (pre @ new @ post)"
  shows "rep (shift t d (b\<lparr>bdata := m\<rparr>)) (pre @ new @ post)"
proof -
  let ?cs = "pre @ mid @ post" and ?cs' = "pre @ new @ post"
  have len: "int (blen b) + d = int (length (concat ?cs'))"
    using rep_blen [OF rep] d by simp
  have small: "bsize b + min_size < 2 ^ 32" "length (concat ?cs') < 2 ^ 32"
    using rep fits len by (simp_all add: rep_def)
  have blen: "u32 (int (blen b) + d) = length (concat ?cs')"
    unfolding len by (rule u32_of_nat [OF small(2)])
  have "map (\<lambda>off. if offset_for t + 1 \<le> int off then u32 (int (boffs b ! off) + d) else boffs b ! off)
      [0..<max_offset] = map (off_of ?cs') [0..<max_offset]"
  proof (rule map_cong [OF refl])
    fix k assume "k \<in> set [0..<max_offset]"
    then have k: "k < max_offset" by simp
    have "off_of ?cs' k < 2 ^ 32" using off_of_le [of ?cs' k] small(2) by linarith
    moreover have "int (off_of ?cs' k) =
        int (off_of ?cs k) + (if offset_for t + 1 \<le> int k then d else 0)"
      using off_of_same [OF off(1), of k] off_of_same [OF off(2), of k] d
      by (auto simp: off_of_append)
    ultimately show "(if offset_for t + 1 \<le> int k then u32 (int (boffs b ! k) + d) else boffs b ! k) =
        off_of ?cs' k"
      using rep_offs [OF rep k] u32_of_nat [of "off_of ?cs' k"] by (auto split: if_splits)
  qed
  then show ?thesis
    using rep wf sorted fits bytes len
    by (auto simp: rep_def shift_def u32_of_nat [OF small(2)]
        simp del: upt_rec_numeral concat_append map_append)
qed

subsection \<open>Storing one field\<close>

definition field_size :: "fldid \<Rightarrow> nat \<Rightarrow> nat" where
  "field_size fid n =
     (case fldclass fid of FIELD8 \<Rightarrow> 8 | FIELD16 \<Rightarrow> 16 | FIELDN \<Rightarrow> 8 + fieldn_size n)"

text \<open>What a field of this type keeps of \<open>n\<close> bytes of the value \<open>v\<close>.\<close>

definition stored :: "int \<Rightarrow> byte list \<Rightarrow> nat \<Rightarrow> byte list" where
  "stored t v n = (if t = FLD_FML32 then take 4 (drop 4 v) @ drop 4 (take n v) else take n v)"

text \<open>
  A value that a caller may pass: the length can be computed from it, that many bytes
  can be read, and nothing wraps around.
\<close>

definition good_value :: "int \<Rightarrow> byte list \<Rightarrow> nat \<Rightarrow> nat \<Rightarrow> bool" where
  "good_value t v flen n \<longleftrightarrow>
     value_len t v flen = Some n \<and> n \<le> length v \<and> length v + 8 < 2 ^ 32 \<and>
     (t = FLD_FML32 \<longrightarrow> unat (dec32 (take 4 (drop 4 v))) + min_size < 2 ^ 32)"

lemma good_value_fixed:
  "good_value t v flen n \<Longrightarrow> t \<noteq> FLD_STRING \<Longrightarrow> t \<noteq> FLD_CARRAY \<Longrightarrow> t \<noteq> FLD_FML32 \<Longrightarrow> n = fixed_len t"
  by (simp add: good_value_def value_len_def)

lemma good_value_string:
  assumes "good_value FLD_STRING v flen n"
  shows "take n v = takeWhile (\<lambda>c. c \<noteq> 0) v @ [0]"
proof -
  let ?w = "takeWhile (\<lambda>c. c \<noteq> (0 :: byte)) v"
  have z: "0 \<in> set v" using assms by (simp add: good_value_def value_len_def split: if_splits)
  have l: "length ?w < length v" "v ! length ?w = 0"
  proof -
    have "length ?w \<noteq> length v"
      using z takeWhile_eq_take [of "\<lambda>c. c \<noteq> 0" v] set_takeWhileD [of 0 "\<lambda>c. c \<noteq> 0" v] by auto
    then show "length ?w < length v" using length_takeWhile_le [of "\<lambda>c. c \<noteq> 0" v] by simp
    then show "v ! length ?w = 0" using nth_length_takeWhile [of "\<lambda>c. c \<noteq> 0" v] by simp
  qed
  have "n = u32 (int (Suc (length ?w)))"
    using assms z by (simp add: good_value_def value_len_def add.commute)
  then have n: "n = Suc (length ?w)"
    using assms l(1) u32_of_nat [of "Suc (length ?w)"] by (simp add: good_value_def)
  have "take (length ?w) v = ?w" by (rule takeWhile_eq_take [symmetric])
  then show ?thesis using l by (simp add: n take_Suc_conv_app_nth)
qed

lemma good_value_fml:
  assumes "good_value FLD_FML32 v flen n"
  shows "n = unat (dec32 (take 4 (drop 4 v))) + min_size" "8 \<le> length v"
proof -
  let ?l = "unat (dec32 (take 4 (drop 4 v)))"
  have l: "?l + min_size < 2 ^ 32" and s: "value_len FLD_FML32 v flen = Some n"
    using assms by (simp_all add: good_value_def)
  show l8: "8 \<le> length v" using s by (simp add: value_len_def split: if_splits)
  then have "n = u32 (int (?l + min_size))" using s by (simp add: value_len_def)
  then show "n = ?l + min_size" using u32_of_nat [OF l] by (simp only:)
qed

lemma wf_val_stored:
  assumes "good_value t v flen n" "valid_fldtype32 t"
  shows "wf_val t (stored t v n)" "length (stored t v n) = n"
proof -
  have n: "n \<le> length v" using assms(1) by (simp add: good_value_def)
  have "wf_val t (stored t v n) \<and> length (stored t v n) = n"
  proof (cases "t = FLD_FML32")
    case True
    note f = good_value_fml [OF assms(1) [unfolded True]]
    have "length (stored t v n) = n" using True f n by (simp add: stored_def)
    moreover have "take 4 (stored t v n) = take 4 (drop 4 v)"
      using True f by (simp add: stored_def)
    moreover have "take 4 (drop 4 (stored t v n)) = take 4 (drop 4 v)"
      using True f n by (simp add: stored_def drop_take)
    ultimately show ?thesis using True f by (simp add: wf_val_def)
  next
    case False
    have "0 < n" if "t = FLD_STRING"
      using that assms(1) good_value_string [of v flen n] by (cases n) auto
    then show ?thesis
      using False assms good_value_string [of v flen n] good_value_fixed [OF assms(1)] n
      by (auto simp: wf_val_def stored_def dest: set_takeWhileD)
  qed
  then show "wf_val t (stored t v n)" "length (stored t v n) = n" by auto
qed

text \<open>The conditions under which \<open>store_field\<close> writes one whole field.\<close>

definition storable :: "fldid \<Rightarrow> byte list \<Rightarrow> nat \<Rightarrow> bool" where
  "storable fid v n \<longleftrightarrow>
     valid_id fid \<and> n \<le> length v \<and> n + 8 < 2 ^ 32 \<and> wf_val (Fldtype32 fid) (stored (Fldtype32 fid) v n) \<and>
     (fldclass fid \<noteq> FIELDN \<longrightarrow> n = fixed_len (Fldtype32 fid)) \<and>
     (Fldtype32 fid = FLD_FML32 \<longrightarrow> min_size \<le> n)"

lemma good_value_storable:
  assumes "good_value (Fldtype32 fid) v flen n" "valid_id fid"
  shows "storable fid v n"
proof -
  have t: "valid_fldtype32 (Fldtype32 fid)" using assms(2) by (simp add: valid_id_def)
  have "n \<le> length v" "n + 8 < 2 ^ 32" using assms(1) by (auto simp: good_value_def)
  moreover have "n = fixed_len (Fldtype32 fid)" if "fldclass fid \<noteq> FIELDN"
    using that assms(1)
    by (intro good_value_fixed) (auto simp: fldclass_def Let_def split: if_splits)
  moreover have "min_size \<le> n" if "Fldtype32 fid = FLD_FML32"
    using that good_value_fml(1) [of v flen n] assms(1) by simp
  ultimately show ?thesis
    using wf_val_stored(1) [OF assms(1) t] assms(2) by (auto simp: storable_def)
qed

lemma field_size_value:
  assumes "storable fid v n"
  shows "(case fldclass fid of FIELD8 \<Rightarrow> 4 | _ \<Rightarrow> 8) + n \<le> field_size fid n"
proof -
  have t: "valid_fldtype32 (Fldtype32 fid)" and n: "n + 8 < 2 ^ 32"
    using assms by (auto simp: storable_def valid_id_def)
  have f: "fldclass fid \<noteq> FIELDN \<Longrightarrow> n = fixed_len (Fldtype32 fid)"
    using assms by (simp add: storable_def)
  show ?thesis
    using t f fieldn_size_bounds(1) [OF n]
    by (elim valid_type_cases) (simp_all add: field_size_def fldclass_def Let_def fixed_len_def)
qed

lemma store_field_outside:
  assumes "storable fid v n" "i < p \<or> p + field_size fid n \<le> i"
  shows "store_field fid p n v m i = m i"
proof (cases "fldclass fid")
  case FIELD8
  then show ?thesis
    using assms field_size_value [OF assms(1)]
    by (auto simp: store_field_def Let_def wr_def field_size_def)
next
  case FIELD16
  then show ?thesis
    using assms field_size_value [OF assms(1)]
    by (auto simp: store_field_def Let_def wr_def field_size_def)
next
  case FIELDN
  have "8 \<le> field_size fid n" using FIELDN by (simp add: field_size_def)
  moreover have "Fldtype32 fid = FLD_FML32 \<Longrightarrow> 48 \<le> field_size fid n"
    using assms(1) field_size_value [OF assms(1)] FIELDN by (simp add: storable_def)
  ultimately show ?thesis
    using FIELDN assms(2) field_size_value [OF assms(1)]
    by (auto simp: store_field_def Let_def wr_def)
qed

lemma store_field_id:
  assumes "storable fid v n"
  shows "rd p 4 (store_field fid p n v m) = enc32 fid"
  by (auto simp: store_field_def Let_def rd_wr_same rd_wr_other split: storage_class.split)

lemma store_field_len:
  assumes "fldclass fid = FIELDN"
  shows "rd (p + 4) 4 (store_field fid p n v m) = enc32 (of_nat n)"
  using assms by (simp add: store_field_def Let_def rd_wr_same rd_wr_other)

lemma store_field_value:
  assumes "storable fid v n"
  shows "rd (p + (case fldclass fid of FIELD8 \<Rightarrow> 4 | _ \<Rightarrow> 8)) n (store_field fid p n v m) =
         stored (Fldtype32 fid) v n"
proof (cases "Fldtype32 fid = FLD_FML32")
  case False
  then show ?thesis
    using assms
    by (auto simp: store_field_def Let_def stored_def storable_def rd_wr_same split: storage_class.split)
next
  case True
  define m2 where "m2 = wr (p + 8) (take n v) (wr (p + 4) (enc32 (of_nat n)) (wr p (enc32 fid) m))"
  define m3 where "m3 = store_field fid p n v m"
  have n: "min_size \<le> n" "n \<le> length v" using assms True by (simp_all add: storable_def)
  have k: "fldclass fid = FIELDN" using True by (simp add: fldclass_def)
  have val: "rd (p + 8) n m2 = take n v" using n by (simp add: m2_def rd_wr_same)
  have "rd (p + 12) 4 m2 = take 4 (drop 4 v)"
    using rd_sub [of 4 4 n "p + 12" "p + 8" m2] n by (simp add: val drop_take)
  then have m3: "m3 = wr (p + 8) (take 4 (drop 4 v)) m2"
    using True k by (simp add: m3_def m2_def store_field_def Let_def)
  have "rd (p + 8) n m3 = rd (p + 8) 4 m3 @ rd (p + 12) (n - 4) m3"
    using rd_add [of "p + 8" 4 "n - 4" m3] n by (simp add: add.commute)
  also have "rd (p + 8) 4 m3 = take 4 (drop 4 v)"
    unfolding m3 using n by (simp add: rd_wr_same)
  also have "rd (p + 12) (n - 4) m3 = rd (p + 12) (n - 4) m2"
    unfolding m3 using n by (intro rd_wr_other) simp
  also have "\<dots> = drop 4 (take n v)"
    using drop_rd [of 4 n "p + 8" m2] n by (simp add: val add.commute)
  finally show ?thesis using True k by (simp add: stored_def m3_def)
qed

lemma store_field_chunk:
  fixes m :: mem and p :: nat
  assumes "storable fid v n"
  defines "c \<equiv> rd p (field_size fid n) (store_field fid p n v m)"
  shows "cid c = fid" "length c = field_size fid n" "cval c = stored (Fldtype32 fid) v n" "wf_chunk c"
proof -
  let ?m = "store_field fid p n v m"
  have S: "8 \<le> field_size fid n" by (simp add: field_size_def split: storage_class.split)
  show cid: "cid c = fid"
    unfolding cid_def c_def using S store_field_id [OF assms(1)] by (simp add: take_rd)
  show len: "length c = field_size fid n" by (simp add: c_def)
  have n: "n + 8 < 2 ^ 32" and v: "valid_id fid"
    and wfv: "wf_val (Fldtype32 fid) (stored (Fldtype32 fid) v n)"
    and fixed: "fldclass fid \<noteq> FIELDN \<Longrightarrow> n = fixed_len (Fldtype32 fid)"
    using assms(1) by (auto simp: storable_def)
  have flen: "cflen c = n" if "fldclass fid = FIELDN"
  proof -
    have "take 4 (drop 4 c) = enc32 (of_nat n)"
      unfolding c_def using S store_field_len [OF that, of p n v m] by (simp add: drop_rd take_rd)
    then show ?thesis using n by (simp add: cflen_def unat_of_nat)
  qed
  have cv: "cvlen c = n"
    using flen fixed by (simp add: cvlen_def cid ctype_def split: storage_class.split)
  have head: "chead c = (case fldclass fid of FIELD8 \<Rightarrow> 4 | _ \<Rightarrow> 8)"
    by (simp add: chead_def cid)
  have "cval c = rd (p + chead c) n ?m"
    unfolding cval_def cv
    using rd_sub [of "chead c" n "field_size fid n" "p + chead c" p ?m] field_size_value [OF assms(1)]
    by (simp add: c_def [symmetric] head)
  then show cval: "cval c = stored (Fldtype32 fid) v n"
    using store_field_value [OF assms(1)] head by simp
  have "csize c = field_size fid n"
    using flen by (simp add: csize_def cid field_size_def split: storage_class.split)
  then show "wf_chunk c"
    using v wfv n flen by (simp add: wf_chunk_def cid cval len ctype_def)
qed

subsection \<open>Making room\<close>

text \<open>
  The two \<open>memmove\<close> calls of \<open>chg\<close>: a run of \<open>used\<close> bytes at \<open>p\<close> becomes a run of
  \<open>sz\<close> bytes, what is before stays and what is after ends up behind it.
\<close>

definition make_room :: "nat \<Rightarrow> nat \<Rightarrow> int \<Rightarrow> nat \<Rightarrow> mem \<Rightarrow> mem" where
  "make_room p used need len m =
     (if need < 0
      then mem_move (nat (int p + need + int used)) (p + used) (len - (p + used)) m
      else if need > 0 then mem_move (p + nat need) p (len - p) m
      else m)"

lemma make_room_bytes:
  assumes "rd 0 len m = pre @ mid @ post" "p = length pre" "used = length mid"
    "need = int sz - int used"
  shows "rd 0 p (make_room p used need len m) = pre"
    "rd (p + sz) (length post) (make_room p used need len m) = post"
    "\<And>i. len \<le> i \<Longrightarrow> int len + need \<le> int i \<Longrightarrow> make_room p used need len m i = m i"
proof -
  have len: "len = p + used + length post"
    using assms(1-3) by (metis add.assoc length_append length_rd)
  have "rd 0 p m @ rd p used m @ rd (p + used) (length post) m = pre @ mid @ post"
    using assms(1) by (simp add: len rd_add)
  then have parts: "rd 0 p m = pre" "rd (p + used) (length post) m = post"
    using assms(2,3) by (simp_all add: append_eq_append_conv)
  consider "need < 0" | "need > 0" | "need = 0" by linarith
  then have "rd 0 p (make_room p used need len m) = pre \<and>
    rd (p + sz) (length post) (make_room p used need len m) = post \<and>
    (\<forall>i. len \<le> i \<longrightarrow> int len + need \<le> int i \<longrightarrow> make_room p used need len m i = m i)"
  proof cases
    case 1
    have dst: "nat (int p + need + int used) = p + sz" using assms(4) by simp
    have "make_room p used need len m = mem_move (p + sz) (p + used) (length post) m"
      using 1 by (simp add: make_room_def dst len)
    then show ?thesis
      using 1 parts assms(4) len
      by (simp add: rd_move_other rd_move_all) (auto simp: mem_move_def)
  next
    case 2
    have sz: "p + sz = p + nat need + used" using 2 assms(4) by simp
    have "make_room p used need len m = mem_move (p + nat need) p (used + length post) m"
      using 2 by (simp add: make_room_def len)
    moreover have "rd (p + (nat need + used)) (length post)
        (mem_move (p + nat need) p (used + length post) m) = rd (p + used) (length post) m"
      using rd_move_shift [of used "length post" "used + length post" "p + nat need" p m]
      by (simp add: add.assoc)
    ultimately show ?thesis
      using 2 parts sz len by (simp add: rd_move_other) (auto simp: mem_move_def)
  next
    case 3
    then show ?thesis using parts assms(4) by (simp add: make_room_def)
  qed
  then show "rd 0 p (make_room p used need len m) = pre"
    "rd (p + sz) (length post) (make_room p used need len m) = post"
    "\<And>i. len \<le> i \<Longrightarrow> int len + need \<le> int i \<Longrightarrow> make_room p used need len m i = m i"
    by auto
qed

lemma store_in_room:
  assumes "rd 0 p m = pre" "rd (p + field_size fid n) (length post) m = post" "p = length pre"
    "storable fid v n"
  shows "rd 0 (p + field_size fid n + length post) (store_field fid p n v m) =
         pre @ rd p (field_size fid n) (store_field fid p n v m) @ post"
proof -
  let ?m = "store_field fid p n v m" and ?s = "field_size fid n"
  have "rd 0 p ?m = rd 0 p m"
    by (rule rd_cong) (auto intro!: store_field_outside [OF assms(4)])
  moreover have "rd (p + ?s) (length post) ?m = rd (p + ?s) (length post) m"
    by (rule rd_cong) (auto intro!: store_field_outside [OF assms(4)])
  ultimately show ?thesis
    using assms(1,2) by (simp add: rd_add)
qed

subsection \<open>put\<close>

definition put_chunks :: "chunk list \<Rightarrow> fldid \<Rightarrow> int \<Rightarrow> chunk \<Rightarrow> chunk list" where
  "put_chunks cs fid oc c =
     below fid cs @
     (if 0 \<le> oc \<and> oc < int (length (same_id fid cs)) then (same_id fid cs)[nat oc := c]
      else same_id fid cs @ [c]) @ above fid cs"

definition old_size :: "chunk list \<Rightarrow> fldid \<Rightarrow> int \<Rightarrow> nat" where
  "old_size cs fid oc =
     (if 0 \<le> oc \<and> oc < int (length (same_id fid cs)) then length (same_id fid cs ! nat oc) else 0)"

lemma sorted_const: "\<forall>d \<in> set xs. cid d = fid \<Longrightarrow> sorted (map cid xs)"
  by (induction xs) auto

lemma sorted_put_chunks:
  assumes "sorted (map cid cs)" "cid c = fid"
  shows "sorted (map cid (put_chunks cs fid oc c))"
proof -
  let ?x = "if 0 \<le> oc \<and> oc < int (length (same_id fid cs)) then (same_id fid cs)[nat oc := c]
      else same_id fid cs @ [c]"
  have same: "\<forall>d \<in> set ?x. cid d = fid"
    using assms(2) set_update_subset_insert [of "same_id fid cs" "nat oc" c]
    by (auto simp: same_id_def split: if_splits)
  then have "sorted (map cid ?x)" by (rule sorted_const)
  moreover have "sorted (map cid (below fid cs))" "sorted (map cid (above fid cs))"
    using assms(1) by (simp_all add: below_def above_def sorted_filter)
  moreover have "\<forall>d \<in> set (below fid cs). cid d < fid" "\<forall>d \<in> set (above fid cs). fid < cid d"
    by (simp_all add: below_def above_def)
  moreover have "put_chunks cs fid oc c = below fid cs @ ?x @ above fid cs"
    by (simp add: put_chunks_def)
  moreover have "sorted (map cid (xs @ ys @ zs))"
    if "sorted (map cid xs)" "sorted (map cid ys)" "sorted (map cid zs)" "\<forall>d \<in> set xs. cid d < fid"
      "\<forall>d \<in> set ys. cid d = fid" "\<forall>d \<in> set zs. fid < cid d" for xs ys zs
    using that by (fastforce simp: sorted_append)
  ultimately show ?thesis using same by simp
qed

lemma put_split:
  fixes fid :: fldid
  assumes "rep b cs"
  defines "found \<equiv> \<lambda>oc. 0 \<le> oc \<and> oc < int (length (same_id fid cs))"
  defines "mid \<equiv> \<lambda>oc. if found oc then [same_id fid cs ! nat oc] else []"
  shows "cs = take (find_ix cs fid oc) cs @ mid oc @ drop (find_ix cs fid oc + length (mid oc)) cs"
    "put_chunks cs fid oc c =
       take (find_ix cs fid oc) cs @ [c] @ drop (find_ix cs fid oc + length (mid oc)) cs"
proof -
  let ?B = "below fid cs" and ?S = "same_id fid cs" and ?A = "above fid cs"
  have split: "cs = ?B @ ?S @ ?A" by (rule split_sorted [OF sorted_cid [OF assms(1)]])
  have "cs = take (find_ix cs fid oc) cs @ mid oc @ drop (find_ix cs fid oc + length (mid oc)) cs \<and>
    put_chunks cs fid oc c =
       take (find_ix cs fid oc) cs @ [c] @ drop (find_ix cs fid oc + length (mid oc)) cs"
  proof (cases "found oc")
    case True
    then have n: "nat oc < length ?S" by (auto simp: found_def)
    have k: "find_ix cs fid oc = length ?B + nat oc" using True find_ix_occ(1) by (simp add: found_def)
    have t: "take (find_ix cs fid oc) cs = ?B @ take (nat oc) ?S"
      unfolding k by (subst (2) split) (use n in simp)
    have d: "drop (find_ix cs fid oc + 1) cs = drop (Suc (nat oc)) ?S @ ?A"
      unfolding k by (subst (2) split) (use n in simp)
    have "put_chunks cs fid oc c = ?B @ ?S[nat oc := c] @ ?A"
      using True by (simp add: put_chunks_def found_def)
    then show ?thesis
      using True n t d split id_take_nth_drop [OF n] upd_conv_take_nth_drop [OF n, of c]
      by (simp add: mid_def) (metis append.assoc append_Cons)
  next
    case False
    then have k: "find_ix cs fid oc = length ?B + length ?S"
      using find_ix_occ(2) by (simp add: found_def)
    have t: "take (find_ix cs fid oc) cs = ?B @ ?S" "drop (find_ix cs fid oc) cs = ?A"
      unfolding k by (subst (3) split, simp)+
    show ?thesis
      using False t split by (auto simp: mid_def put_chunks_def found_def)
  qed
  then show "cs = take (find_ix cs fid oc) cs @ mid oc @ drop (find_ix cs fid oc + length (mid oc)) cs"
    "put_chunks cs fid oc c =
       take (find_ix cs fid oc) cs @ [c] @ drop (find_ix cs fid oc + length (mid oc)) cs"
    by auto
qed

text \<open>\<open>fb_put\<close> on a represented buffer, in terms of the position and the old field.\<close>

lemma fb_put_unfold:
  fixes oc :: int
  assumes "rep b cs" "storable fid v n" "value_len (Fldtype32 fid) v flen = Some n"
  defines "need \<equiv> int (field_size fid n) - int (old_size cs fid oc)"
  defines "p \<equiv> cpos cs (find_ix cs fid oc)"
  shows "fb_put fid oc v flen b =
         (if need > 0 \<and> int (blen b) + need > int (bsize b) then (Err FNOSPACE, b)
          else (Ret (), shift (Fldtype32 fid) need
                  (b\<lparr>bdata := store_field fid p n v
                               (make_room p (old_size cs fid oc) need (blen b) (bdata b))\<rparr>)))"
proof -
  let ?t = "Fldtype32 fid" and ?k = "find_ix cs fid oc"
  have v: "valid_id fid" and n: "n \<le> length v" using assms(2) by (auto simp: storable_def)
  have bl: "blen b \<le> bsize b" using assms(1) by (simp add: rep_def)
  have p: "(case fb_where fid oc b of None \<Rightarrow> last_byte ?t b | Some q \<Rightarrow> q) = p"
    unfolding p_def by (rule rep_where_last [OF assms(1) v])
  let ?found = "0 \<le> oc \<and> oc < int (length (same_id fid cs))"
  have same: "is_field b fid (fb_where fid oc b) \<longleftrightarrow> ?found"
    using rep_is_field [OF assms(1) v] by (simp add: length_occs)
  have old: "old_size cs fid oc = (case fldclass fid of FIELD8 \<Rightarrow> 8 | FIELD16 \<Rightarrow> 16
      | FIELDN \<Rightarrow> 8 + fieldn_size (flen_at (bdata b) p))" if ?found
  proof -
    have oc: "0 \<le> oc" "oc < int (length (occs cs fid))" using that by (auto simp: length_occs)
    note f = rep_found [OF assms(1) v oc]
    have k: "?k = length (below fid cs) + nat oc" using find_ix_occ(1) that by simp
    have "cid (cs ! ?k) = fid" using f(3) k cid_same [of "nat oc" fid cs] that by auto
    then have "length (cs ! ?k) = (case fldclass fid of FIELD8 \<Rightarrow> 8 | FIELD16 \<Rightarrow> 16
      | FIELDN \<Rightarrow> 8 + fieldn_size (flen_at (bdata b) p))"
      unfolding p_def k using rep_elem_size [OF assms(1) f(2)] k by (simp add: elem_size_def)
    moreover have "old_size cs fid oc = length (cs ! ?k)"
      using f(3) k that by (simp add: old_size_def)
    ultimately show ?thesis by simp
  qed
  have old0: "old_size cs fid oc = 0" if "\<not> ?found" using that by (auto simp: old_size_def)
  have size: "int (field_size fid n) =
      (case fldclass fid of FIELD8 \<Rightarrow> 8 | FIELD16 \<Rightarrow> 16 | FIELDN \<Rightarrow> 8 + int (fieldn_size n))"
    by (simp add: field_size_def split: storage_class.split)
  show ?thesis
  proof (cases ?found)
    case True
    show ?thesis
    proof (cases "fldclass fid = FIELDN")
      case False
      then have "need = 0"
        using old [OF True] size by (simp add: need_def split: storage_class.splits)
      then show ?thesis
        using True False n bl
        by (simp add: fb_put_def Let_def assms(3) p same make_room_def)
    next
      case N: True
      have o: "old_size cs fid oc = 8 + fieldn_size (flen_at (bdata b) p)"
        using old [OF True] N by simp
      have "need = 8 + int (fieldn_size n) - (8 + int (fieldn_size (flen_at (bdata b) p)))"
        using o size N by (simp add: need_def)
      then show ?thesis
        using True N n bl o
        by (auto simp: fb_put_def Let_def assms(3) p same make_room_def nat_add_distrib)
    qed
  next
    case False
    then have "need = int (field_size fid n)" "0 < need"
      using old0 by (simp_all add: need_def field_size_def split: storage_class.split)
    then show ?thesis
      using False n size old0
      by (auto simp: fb_put_def Let_def assms(3) p same make_room_def split: storage_class.splits)
  qed
qed

lemma rep_put:
  fixes oc :: int
  assumes "rep b cs" "storable fid v n" "value_len (Fldtype32 fid) v flen = Some n"
  defines "need \<equiv> int (field_size fid n) - int (old_size cs fid oc)"
  shows "need > 0 \<Longrightarrow> int (blen b) + need > int (bsize b) \<Longrightarrow> fb_put fid oc v flen b = (Err FNOSPACE, b)"
    "int (blen b) + need \<le> int (bsize b) \<Longrightarrow>
       \<exists>c b'. fb_put fid oc v flen b = (Ret (), b') \<and> rep b' (put_chunks cs fid oc c) \<and>
         cid c = fid \<and> cval c = stored (Fldtype32 fid) v n \<and> length c = field_size fid n \<and>
         int (blen b') = int (blen b) + need \<and> bsize b' = bsize b \<and>
         (\<forall>i \<ge> bsize b. bdata b' i = bdata b i)"
proof -
  note put = fb_put_unfold [OF assms(1-3), of oc, folded need_def]
  show "need > 0 \<Longrightarrow> int (blen b) + need > int (bsize b) \<Longrightarrow>
      fb_put fid oc v flen b = (Err FNOSPACE, b)"
    using put by simp
  assume fits: "int (blen b) + need \<le> int (bsize b)"
  let ?k = "find_ix cs fid oc" and ?found = "0 \<le> oc \<and> oc < int (length (same_id fid cs))"
  let ?mid = "if ?found then [same_id fid cs ! nat oc] else []"
  let ?pre = "take ?k cs" and ?post = "drop (?k + length ?mid) cs"
  let ?p = "cpos cs ?k" and ?old = "old_size cs fid oc" and ?s = "field_size fid n"
  let ?m1 = "make_room ?p ?old need (blen b) (bdata b)"
  let ?m2 = "store_field fid ?p n v ?m1"
  let ?c = "rd ?p ?s ?m2" and ?b' = "shift (Fldtype32 fid) need (b\<lparr>bdata := ?m2\<rparr>)"
  have cs: "cs = ?pre @ ?mid @ ?post" and new: "put_chunks cs fid oc ?c = ?pre @ [?c] @ ?post"
    using put_split [OF assms(1), of fid oc] by simp_all
  have old: "?old = length (concat ?mid)" by (auto simp: old_size_def)
  have p: "?p = length (concat ?pre)" by (simp add: cpos_def)
  have "rd 0 (blen b) (bdata b) = concat cs" using assms(1) by (simp add: rep_def)
  then have bytes: "rd 0 (blen b) (bdata b) = concat ?pre @ concat ?mid @ concat ?post"
    using cs by (metis concat_append)
  have need: "need = int ?s - int ?old" by (simp add: need_def)
  note room = make_room_bytes [OF bytes p old need]
  note chunk = store_field_chunk [OF assms(2), where p = ?p and m = ?m1]
  have all: "rd 0 (?p + ?s + length (concat ?post)) ?m2 = concat (?pre @ [?c] @ ?post)"
    using store_in_room [OF room(1,2) p assms(2)] by simp
  have total: "nat (int (blen b) + need) = ?p + ?s + length (concat ?post)"
    "int (blen b) + need = int (?p + ?s + length (concat ?post))"
  proof -
    have "blen b = ?p + ?old + length (concat ?post)"
      using arg_cong [OF bytes, of length] old p by simp
    then show "int (blen b) + need = int (?p + ?s + length (concat ?post))" using need by simp
    then show "nat (int (blen b) + need) = ?p + ?s + length (concat ?post)" by linarith
  qed
  have valid: "valid_id fid" using assms(2) by (simp add: storable_def)
  have "rep ?b' (?pre @ [?c] @ ?post)"
  proof (rule rep_splice)
    show "rep b (?pre @ ?mid @ ?post)" using assms(1) cs by simp
    show "\<forall>c \<in> set [?c]. wf_chunk c" using chunk(4) by simp
    show "sorted (map cid (?pre @ [?c] @ ?post))"
      using sorted_put_chunks [OF sorted_cid [OF assms(1)] chunk(1), of oc] new by simp
    show "\<forall>c \<in> set ?mid. coff c = offset_for (Fldtype32 fid)"
      using cid_same [of "nat oc" fid cs] by (auto simp: coff_def ctype_def)
    show "\<forall>c \<in> set [?c]. coff c = offset_for (Fldtype32 fid)"
      using chunk(1) by (simp add: coff_def ctype_def)
    show "need = int (length (concat [?c])) - int (length (concat ?mid))"
      using need old chunk(2) by simp
    show "int (blen b) + need \<le> int (bsize b)" by (rule fits)
    show "rd 0 (nat (int (blen b) + need)) ?m2 = concat (?pre @ [?c] @ ?post)"
      unfolding total(1) by (rule all)
  qed
  then have r: "rep ?b' (put_chunks cs fid oc ?c)" using new by simp
  moreover have "int (blen ?b') = int (blen b) + need"
    using rep_blen [OF r] total(2) arg_cong [OF all, of length] new by simp
  moreover have "?m2 i = bdata b i" if "bsize b \<le> i" for i
  proof -
    have "blen b \<le> bsize b" using assms(1) by (simp add: rep_def)
    then have "?m1 i = bdata b i" using room(3) [of i] that fits by simp
    moreover have "?p + ?s \<le> i" using total(2) that fits by simp
    ultimately show ?thesis using store_field_outside [OF assms(2), of i ?p] by simp
  qed
  moreover have "fb_put fid oc v flen b = (Ret (), ?b')" using put fits by simp
  ultimately show "\<exists>c b'. fb_put fid oc v flen b = (Ret (), b') \<and> rep b' (put_chunks cs fid oc c) \<and>
         cid c = fid \<and> cval c = stored (Fldtype32 fid) v n \<and> length c = field_size fid n \<and>
         int (blen b') = int (blen b) + need \<and> bsize b' = bsize b \<and>
         (\<forall>i \<ge> bsize b. bdata b' i = bdata b i)"
    using chunk by (intro exI [of _ ?c] exI [of _ ?b']) (simp add: shift_def)
qed

end
