(* ===== verification/Fml_Erase.thy ===== *)
theory Fml_Erase
  imports Fml_Change
begin

text \<open>
  What a write does to the occurrence lists, and deletion: \<open>erase\<close> closes the gap
  correctly, and adjusts the type offsets correctly exactly when the field after the gap
  has the type of the deleted ones or there is none.
\<close>

subsection \<open>The bytes determine the fields\<close>

lemma wf_chunk_prefix:
  assumes "wf_chunk c" "wf_chunk d" "c @ xs = d @ ys"
  shows "c = d"
proof -
  have l: "8 \<le> length c" "8 \<le> length d" using assms(1,2) by (simp_all add: wf_chunk_length)
  have "take 4 (c @ xs) = take 4 (d @ ys)" "take 4 (drop 4 (c @ xs)) = take 4 (drop 4 (d @ ys))"
    by (simp_all only: assms(3))
  then have "take 4 c = take 4 d" "take 4 (drop 4 c) = take 4 (drop 4 d)"
    using l by simp_all
  then have "cid c = cid d" "cflen c = cflen d" by (simp_all add: cid_def cflen_def)
  then have "csize c = csize d" by (simp add: csize_def split: storage_class.split)
  then have "length c = length d" using assms(1,2) by (simp add: wf_chunk_def)
  then show ?thesis using assms(3) by simp
qed

lemma concat_wf_inj:
  "concat cs = concat ds \<Longrightarrow> \<forall>c \<in> set cs. wf_chunk c \<Longrightarrow> \<forall>c \<in> set ds. wf_chunk c \<Longrightarrow> cs = ds"
proof (induction cs arbitrary: ds)
  case Nil
  then show ?case by (cases ds) (auto dest: wf_chunk_nonempty)
next
  case (Cons c cs)
  then obtain d ds' where ds: "ds = d # ds'" by (cases ds) (auto dest: wf_chunk_nonempty)
  then have "c = d" using Cons.prems wf_chunk_prefix [of c d "concat cs" "concat ds'"] by simp
  then show ?case using Cons ds by simp
qed

subsection \<open>Occurrences after a put\<close>

lemma same_id_same: "same_id fid (same_id fid cs) = same_id fid cs"
  by (simp add: same_id_def)

lemma same_id_append: "same_id fid (xs @ ys) = same_id fid xs @ same_id fid ys"
  by (simp add: same_id_def)

lemma same_id_all: "\<forall>c \<in> set xs. cid c = fid \<Longrightarrow> same_id g xs = (if g = fid then xs else [])"
  by (auto simp: same_id_def filter_empty_conv)

lemma same_id_three:
  assumes "\<forall>c \<in> set xs. cid c = fid" "sorted (map cid cs)"
  shows "same_id g (below fid cs @ xs @ above fid cs) = (if g = fid then xs else same_id g cs)"
proof -
  have cs: "cs = below fid cs @ same_id fid cs @ above fid cs" by (rule split_sorted [OF assms(2)])
  have "same_id fid (below fid cs) = []" "same_id fid (above fid cs) = []"
    by (auto simp: same_id_def below_def above_def filter_empty_conv)
  moreover have "same_id g cs = same_id g (below fid cs) @ same_id g (above fid cs)" if "g \<noteq> fid"
  proof -
    have "same_id g (same_id fid cs) = []" using that by (auto simp: same_id_def filter_empty_conv)
    then show ?thesis by (subst cs) (simp add: same_id_append)
  qed
  ultimately show ?thesis
    using same_id_all [OF assms(1), of g] by (auto simp: same_id_append)
qed

definition put_list :: "'a list \<Rightarrow> int \<Rightarrow> 'a \<Rightarrow> 'a list" where
  "put_list xs oc x = (if 0 \<le> oc \<and> oc < int (length xs) then xs[nat oc := x] else xs @ [x])"

lemma occs_put:
  assumes "sorted (map cid cs)" "cid c = fid"
  shows "occs (put_chunks cs fid oc c) g =
         (if g = fid then put_list (occs cs fid) oc (cval c) else occs cs g)"
proof -
  let ?x = "put_list (same_id fid cs) oc c"
  have "\<forall>d \<in> set ?x. cid d = fid"
    using assms(2) set_update_subset_insert [of "same_id fid cs" "nat oc" c]
    by (auto simp: put_list_def same_id_def)
  then have "same_id g (put_chunks cs fid oc c) = (if g = fid then ?x else same_id g cs)"
    using same_id_three [OF _ assms(1)] by (simp add: put_chunks_def put_list_def)
  then show ?thesis by (simp add: occs_def put_list_def map_update)
qed

subsection \<open>erase\<close>

lemma erase_bytes:
  assumes "rep b cs" "i < j" "j \<le> length cs"
  defines "m \<equiv> mem_move (cpos cs i) (cpos cs j) (blen b - cpos cs j) (bdata b)"
  shows "rd 0 (blen b - (cpos cs j - cpos cs i)) m = concat (take i cs @ drop j cs)"
    "id_at m (cpos cs i) = (if j < length cs then cid (cs ! j) else cid (cs ! i))"
    "\<And>p. blen b \<le> p \<Longrightarrow> m p = bdata b p"
    "erase (cpos cs i) (pos_opt cs j) b =
       shift (Fldtype32 (id_at m (cpos cs i))) (int (cpos cs i) - int (cpos cs j)) (b\<lparr>bdata := m\<rparr>)"
proof -
  have le: "cpos cs i \<le> cpos cs j" "cpos cs j \<le> blen b"
    using cpos_mono [of i j cs] assms(2) rep_cpos_le [OF assms(1), of j] by auto
  have post: "length (concat (drop j cs)) = blen b - cpos cs j"
    using cpos_add_drop [of cs j] rep_blen [OF assms(1)] by simp
  have bytes: "rd 0 (blen b) (bdata b) = concat cs" using assms(1) by (simp add: rep_def)
  have pre: "rd 0 (cpos cs i) (bdata b) = concat (take i cs)"
  proof -
    have "rd 0 (cpos cs i) (bdata b) = take (cpos cs i) (concat cs)"
      using take_rd [of "cpos cs i" "blen b" 0 "bdata b"] le bytes by simp
    also have "concat cs = concat (take i cs) @ concat (drop i cs)"
      by (metis append_take_drop_id concat_append)
    finally show ?thesis by (simp add: cpos_def)
  qed
  have rest: "rd (cpos cs j) (blen b - cpos cs j) (bdata b) = concat (drop j cs)"
  proof -
    have "rd (cpos cs j) (blen b - cpos cs j) (bdata b) = drop (cpos cs j) (concat cs)"
      using drop_rd [of "cpos cs j" "blen b" 0 "bdata b"] le bytes by simp
    also have "concat cs = concat (take j cs) @ concat (drop j cs)"
      by (metis append_take_drop_id concat_append)
    finally show ?thesis by (simp add: cpos_def)
  qed
  have "blen b - (cpos cs j - cpos cs i) = cpos cs i + (blen b - cpos cs j)" using le by simp
  then show "rd 0 (blen b - (cpos cs j - cpos cs i)) m = concat (take i cs @ drop j cs)"
    by (simp add: m_def rd_add rd_move_other rd_move_all pre rest)
  show "id_at m (cpos cs i) = (if j < length cs then cid (cs ! j) else cid (cs ! i))"
  proof (cases "j < length cs")
    case True
    have "4 \<le> blen b - cpos cs j"
      using wf_chunk_length [OF rep_wf [OF assms(1) True]] cpos_Suc [OF True]
        rep_cpos_le [OF assms(1), of "Suc j"] by simp
    then have "rd (cpos cs i) 4 m = rd (cpos cs j) 4 (bdata b)"
      using rd_move_shift [of 0 4 "blen b - cpos cs j" "cpos cs i" "cpos cs j" "bdata b"]
      by (simp add: m_def)
    then show ?thesis using True rep_id_at [OF assms(1) True] by (simp add: id_at_def)
  next
    case False
    then have "blen b - cpos cs j = 0" using post by simp
    then have "m = bdata b" by (intro ext) (auto simp: m_def mem_move_def)
    then show ?thesis using False rep_id_at [OF assms(1), of i] assms(2,3) by simp
  qed
  show "\<And>p. blen b \<le> p \<Longrightarrow> m p = bdata b p"
    using le by (auto simp: m_def intro!: mem_move_outside)
  show "erase (cpos cs i) (pos_opt cs j) b =
       shift (Fldtype32 (id_at m (cpos cs i))) (int (cpos cs i) - int (cpos cs j)) (b\<lparr>bdata := m\<rparr>)"
  proof -
    have "(case pos_opt cs j of None \<Rightarrow> blen b | Some q \<Rightarrow> q) = cpos cs j"
      using assms(3) post by (auto simp: pos_opt_def cpos_length rep_blen [OF assms(1)])
    then show ?thesis by (simp add: erase_def Let_def m_def)
  qed
qed

text \<open>The field after the gap, if any, has type \<open>t\<close>.\<close>

definition next_has_type :: "chunk list \<Rightarrow> nat \<Rightarrow> int \<Rightarrow> bool" where
  "next_has_type cs j t \<longleftrightarrow> (j < length cs \<longrightarrow> ctype (cs ! j) = t)"

lemma sorted_drop_mid: "sorted (map cid (xs @ ys @ zs)) \<Longrightarrow> sorted (map cid (xs @ [] @ zs))"
  by (auto simp: sorted_append)

lemma rep_erase:
  assumes "rep b cs" "i < j" "j \<le> length cs"
    and run: "\<And>k. i \<le> k \<Longrightarrow> k < j \<Longrightarrow> ctype (cs ! k) = t"
    and nxt: "next_has_type cs j t"
  shows "rep (erase (cpos cs i) (pos_opt cs j) b) (take i cs @ drop j cs)"
    "bsize (erase (cpos cs i) (pos_opt cs j) b) = bsize b"
    "\<And>p. blen b \<le> p \<Longrightarrow> bdata (erase (cpos cs i) (pos_opt cs j) b) p = bdata b p"
proof -
  let ?m = "mem_move (cpos cs i) (cpos cs j) (blen b - cpos cs j) (bdata b)"
  let ?d = "int (cpos cs i) - int (cpos cs j)" and ?mid = "take (j - i) (drop i cs)"
  note e = erase_bytes [OF assms(1-3)]
  have t: "Fldtype32 (id_at ?m (cpos cs i)) = t"
    using e(2) run [of i] assms(2) nxt by (simp add: ctype_def next_has_type_def)
  have cs: "cs = take i cs @ ?mid @ drop j cs"
    using assms(2) by (metis append_take_drop_id drop_drop le_add_diff_inverse2 less_imp_le)
  have le: "cpos cs i \<le> cpos cs j" "cpos cs j \<le> blen b"
    using cpos_mono [of i j cs] assms(2) rep_cpos_le [OF assms(1), of j] by auto
  have mid: "int (length (concat ?mid)) = int (cpos cs j) - int (cpos cs i)"
    using cpos_split [of i j cs] assms(2) by simp
  have "rep (shift t ?d (b\<lparr>bdata := ?m\<rparr>)) (take i cs @ [] @ drop j cs)"
  proof (rule rep_splice)
    show "rep b (take i cs @ ?mid @ drop j cs)" using assms(1) cs by simp
    show "sorted (map cid (take i cs @ [] @ drop j cs))"
      using sorted_drop_mid [of "take i cs" ?mid "drop j cs"] sorted_cid [OF assms(1)] cs by metis
    show "\<forall>c \<in> set ?mid. coff c = offset_for t"
    proof
      fix c assume "c \<in> set ?mid"
      then obtain k where k: "k < j - i" "c = cs ! (i + k)"
        using assms(3) by (auto simp: in_set_conv_nth)
      then show "coff c = offset_for t" using run [of "i + k"] by (simp add: coff_def)
    qed
    show "?d = int (length (concat [])) - int (length (concat ?mid))" using mid by simp
    show "int (blen b) + ?d \<le> int (bsize b)" using le assms(1) by (simp add: rep_def)
    have "nat (int (blen b) + ?d) = blen b - (cpos cs j - cpos cs i)" using le by simp
    then show "rd 0 (nat (int (blen b) + ?d)) ?m = concat (take i cs @ [] @ drop j cs)"
      using e(1) by simp
  qed simp_all
  then show "rep (erase (cpos cs i) (pos_opt cs j) b) (take i cs @ drop j cs)"
    using e(4) t by simp
  show "bsize (erase (cpos cs i) (pos_opt cs j) b) = bsize b" using e(4) by (simp add: shift_def)
  show "\<And>p. blen b \<le> p \<Longrightarrow> bdata (erase (cpos cs i) (pos_opt cs j) b) p = bdata b p"
    using e(3,4) by (simp add: shift_def)
qed

text \<open>
  Otherwise the bytes are right but the offset of the type after the deleted one keeps
  its old value.
\<close>

lemma erase_wrong_offset:
  assumes "rep b cs" "i < j" "j < length cs"
    and run: "\<And>k. i \<le> k \<Longrightarrow> k < j \<Longrightarrow> ctype (cs ! k) = t"
    and nxt: "ctype (cs ! j) \<noteq> t"
  defines "b' \<equiv> erase (cpos cs i) (pos_opt cs j) b"
    and "k \<equiv> nat (offset_for t + 1)"
  shows "k < max_offset" "boffs b' ! k = off_of cs k" "off_of (take i cs @ drop j cs) k < off_of cs k"
    "rd 0 (blen b') (bdata b') = concat (take i cs @ drop j cs)"
proof -
  let ?m = "mem_move (cpos cs i) (cpos cs j) (blen b - cpos cs j) (bdata b)"
  let ?d = "int (cpos cs i) - int (cpos cs j)" and ?mid = "take (j - i) (drop i cs)"
  let ?t' = "ctype (cs ! j)"
  note e = erase_bytes [OF assms(1,2) less_imp_le [OF assms(3)]]
  have id': "Fldtype32 (id_at ?m (cpos cs i)) = ?t'" using e(2) assms(3) by (simp add: ctype_def)
  have i: "i < length cs" using assms(2,3) by simp
  have v: "valid_fldtype32 t" "valid_fldtype32 ?t'"
    using run [of i] assms(2) valid_cid [OF assms(1) i] valid_cid [OF assms(1,3)]
    by (auto simp: ctype_def valid_id_def)
  have "t \<le> ?t'"
    using run [of i] assms(2) Fldtype32_mono [OF sorted_cid_le [OF assms(1), of i j]] assms(3)
    by (simp add: ctype_def)
  then have "offset_for t < offset_for ?t'"
    using offset_for_mono [OF v] offset_for_inj [OF v] nxt by simp
  then have k: "int k \<le> offset_for ?t'" "int k = offset_for t + 1"
    using offset_for_bounds(1) [of t] by (simp_all add: k_def)
  then show kb: "k < max_offset" using offset_for_bounds(2) [OF v(2)] by simp
  have le: "cpos cs i \<le> cpos cs j" "cpos cs j \<le> blen b"
    using cpos_mono [of i j cs] assms(2) rep_cpos_le [OF assms(1), of j] by auto
  have b': "b' = shift ?t' ?d (b\<lparr>bdata := ?m\<rparr>)" using e(4) id' by (simp add: b'_def)
  show "boffs b' ! k = off_of cs k"
    using k kb rep_offs [OF assms(1) kb] unfolding b' by (simp add: shift_def del: upt_rec_numeral)
  have cs: "cs = take i cs @ ?mid @ drop j cs"
    using assms(2) by (metis append_take_drop_id drop_drop le_add_diff_inverse2 less_imp_le)
  have "\<forall>c \<in> set ?mid. coff c = offset_for t"
  proof
    fix c assume "c \<in> set ?mid"
    then obtain n where n: "n < j - i" "c = cs ! (i + n)"
      using assms(3) by (auto simp: in_set_conv_nth)
    then show "coff c = offset_for t" using run [of "i + n"] by (simp add: coff_def)
  qed
  then have "off_of ?mid k = length (concat ?mid)" using off_of_same [of ?mid "offset_for t" k] k(2) by simp
  moreover have "off_of cs k = off_of (take i cs) k + off_of ?mid k + off_of (drop j cs) k"
    by (subst cs) (simp add: off_of_append)
  moreover have pos: "0 < length (concat ?mid)"
    using cpos_split [of i j cs] cpos_strict [OF rep_nonempty [OF assms(1)] assms(2) i] assms(2) by simp
  ultimately show "off_of (take i cs @ drop j cs) k < off_of cs k" by (simp add: off_of_append)
  have "blen b' = blen b - (cpos cs j - cpos cs i)"
  proof -
    have "int (blen b) + ?d = int (blen b - (cpos cs j - cpos cs i))" using le by simp
    moreover have "blen b < 2 ^ 32" using assms(1) by (simp add: rep_def)
    ultimately have "u32 (int (blen b) + ?d) = blen b - (cpos cs j - cpos cs i)"
      using u32_of_nat [of "blen b - (cpos cs j - cpos cs i)"] by (simp only:)
    then show ?thesis unfolding b' by (simp add: shift_def)
  qed
  then show "rd 0 (blen b') (bdata b') = concat (take i cs @ drop j cs)"
    using e(1) unfolding b' by (simp add: shift_def)
qed

subsection \<open>del and delall\<close>

text \<open>The position just after the last occurrence of \<open>fid\<close>, or after occurrence \<open>oc\<close>.\<close>

definition run_end :: "chunk list \<Rightarrow> fldid \<Rightarrow> nat" where
  "run_end cs fid = length (below fid cs) + length (same_id fid cs)"

definition remove_nth :: "nat \<Rightarrow> 'a list \<Rightarrow> 'a list" where
  "remove_nth n xs = take n xs @ drop (Suc n) xs"

lemma take_drop_run:
  assumes "sorted (map cid cs)" "n \<le> m" "m \<le> length (same_id fid cs)"
  shows "take (length (below fid cs) + n) cs @ drop (length (below fid cs) + m) cs =
         below fid cs @ (take n (same_id fid cs) @ drop m (same_id fid cs)) @ above fid cs"
proof -
  let ?B = "below fid cs" and ?S = "same_id fid cs" and ?A = "above fid cs"
  have cs: "cs = ?B @ ?S @ ?A" by (rule split_sorted [OF assms(1)])
  have "take (length ?B + n) cs = ?B @ take n ?S"
    by (subst (2) cs) (use assms(2,3) in simp)
  moreover have "drop (length ?B + m) cs = drop m ?S @ ?A"
    by (subst (2) cs) (use assms(3) in simp)
  ultimately show ?thesis by simp
qed

lemma occs_drop_run:
  assumes "sorted (map cid cs)"
  shows "occs (below fid cs @ (take n (same_id fid cs) @ drop m (same_id fid cs)) @ above fid cs) g =
         (if g = fid then take n (occs cs fid) @ drop m (occs cs fid) else occs cs g)"
proof -
  have "\<forall>c \<in> set (take n (same_id fid cs) @ drop m (same_id fid cs)). cid c = fid"
    by (auto dest!: in_set_takeD in_set_dropD) (auto simp: same_id_def)
  from same_id_three [OF this assms, of g] show ?thesis
    by (simp add: occs_def take_map drop_map)
qed

lemma run_type:
  assumes "rep b cs" "length (below fid cs) \<le> k" "k < run_end cs fid"
  shows "ctype (cs ! k) = Fldtype32 fid"
  using cid_in_run [OF assms(1,2)] length_below_same [of fid cs] assms(3)
  by (simp add: ctype_def run_end_def)

lemma rep_del_some:
  assumes "rep b cs" "valid_id fid" "0 \<le> oc" "oc < int (length (occs cs fid))"
  defines "i \<equiv> length (below fid cs) + nat oc"
  shows "fb_del fid oc b = (Ret (), erase (cpos cs i) (pos_opt cs (Suc i)) b)" "i < run_end cs fid"
    "Suc i \<le> length cs"
proof -
  note f = rep_found [OF assms(1-4), folded i_def]
  have "is_field b fid (fb_where fid oc b)" using rep_is_field [OF assms(1,2)] assms(3,4) by simp
  then show "fb_del fid oc b = (Ret (), erase (cpos cs i) (pos_opt cs (Suc i)) b)"
    using f(1) rep_next_opt [OF assms(1) f(2)] by (simp add: fb_del_def)
  show "i < run_end cs fid" using assms(3,4) by (auto simp: i_def run_end_def length_occs)
  show "Suc i \<le> length cs" using f(2) by simp
qed

lemma rep_del:
  assumes "rep b cs" "valid_id fid" "0 \<le> oc" "oc < int (length (occs cs fid))"
    and nxt: "next_has_type cs (Suc (length (below fid cs) + nat oc)) (Fldtype32 fid)"
  shows "\<exists>b' cs'. fb_del fid oc b = (Ret (), b') \<and> rep b' cs' \<and> bsize b' = bsize b \<and>
           (\<forall>p \<ge> blen b. bdata b' p = bdata b p) \<and>
           occs cs' = (occs cs)(fid := remove_nth (nat oc) (occs cs fid))"
proof -
  let ?i = "length (below fid cs) + nat oc"
  note d = rep_del_some [OF assms(1-4)]
  have run: "ctype (cs ! k) = Fldtype32 fid" if "?i \<le> k" "k < Suc ?i" for k
    using run_type [OF assms(1), of fid k] that d(2) by simp
  note e = rep_erase [OF assms(1) lessI d(3) run nxt]
  let ?cs' = "take ?i cs @ drop (Suc ?i) cs"
  have "nat oc < length (same_id fid cs)" using assms(3,4) by (simp add: length_occs nat_less_iff)
  then have "?cs' = below fid cs @
      (take (nat oc) (same_id fid cs) @ drop (Suc (nat oc)) (same_id fid cs)) @ above fid cs"
    using take_drop_run [OF sorted_cid [OF assms(1)], of "nat oc" "Suc (nat oc)" fid] by simp
  then have "occs ?cs' = (occs cs)(fid := remove_nth (nat oc) (occs cs fid))"
    using occs_drop_run [OF sorted_cid [OF assms(1)]] by (intro ext) (simp add: remove_nth_def)
  then show ?thesis using d(1) e by auto
qed

lemma rep_del_none:
  "rep b cs \<Longrightarrow> valid_id fid \<Longrightarrow> \<not> (0 \<le> oc \<and> oc < int (length (occs cs fid))) \<Longrightarrow>
     fb_del fid oc b = (Err FNOTPRES, b)"
  using rep_is_field [of b cs fid oc] by (auto simp: fb_del_def Let_def)

lemma rep_delall_some:
  assumes "rep b cs" "valid_id fid" "occs cs fid \<noteq> []"
  defines "i \<equiv> length (below fid cs)"
  shows "fb_delall fid b = (Ret (), erase (cpos cs i) (pos_opt cs (run_end cs fid)) b)"
    "i < run_end cs fid" "run_end cs fid \<le> length cs"
proof -
  have n: "0 < int (length (occs cs fid))" using assms(3) by simp
  note f = rep_found [OF assms(1,2) order_refl n]
  have "is_field b fid (fb_where fid 0 b)" using rep_is_field [OF assms(1,2)] n by simp
  moreover have "fb_where fid 0 b = pos_opt cs i" using f(1,2) by (simp add: pos_opt_def i_def)
  moreover have "skip_same b fid (pos_opt cs i) = pos_opt cs (run_end cs fid)"
    using rep_skip_same [OF assms(1), of fid i] by (simp add: i_def run_end_def)
  moreover have "pos_opt cs i = Some (cpos cs i)" using f(2) by (simp add: pos_opt_def i_def)
  ultimately show "fb_delall fid b = (Ret (), erase (cpos cs i) (pos_opt cs (run_end cs fid)) b)"
    by (simp add: fb_delall_def)
  show "i < run_end cs fid" using n by (simp add: i_def run_end_def length_occs)
  show "run_end cs fid \<le> length cs" by (simp add: run_end_def length_below_same)
qed

lemma rep_delall:
  assumes "rep b cs" "valid_id fid" "occs cs fid \<noteq> []"
    and nxt: "next_has_type cs (run_end cs fid) (Fldtype32 fid)"
  shows "\<exists>b' cs'. fb_delall fid b = (Ret (), b') \<and> rep b' cs' \<and> bsize b' = bsize b \<and>
           (\<forall>p \<ge> blen b. bdata b' p = bdata b p) \<and> occs cs' = (occs cs)(fid := [])"
proof -
  let ?i = "length (below fid cs)"
  note d = rep_delall_some [OF assms(1-3)]
  have run: "ctype (cs ! k) = Fldtype32 fid" if "?i \<le> k" "k < run_end cs fid" for k
    using run_type [OF assms(1)] that by simp
  note e = rep_erase [OF assms(1) d(2,3) run nxt]
  let ?cs' = "take ?i cs @ drop (run_end cs fid) cs"
  have "?cs' = below fid cs @ (take 0 (same_id fid cs) @
      drop (length (same_id fid cs)) (same_id fid cs)) @ above fid cs"
    using take_drop_run [OF sorted_cid [OF assms(1)], of 0 "length (same_id fid cs)" fid]
    by (simp add: run_end_def)
  then have "occs ?cs' = (occs cs)(fid := [])"
    using occs_drop_run [OF sorted_cid [OF assms(1)], of fid 0 "length (same_id fid cs)"]
    by (intro ext) (simp add: length_occs)
  then show ?thesis using d(1) e by auto
qed

lemma rep_delall_none:
  "rep b cs \<Longrightarrow> valid_id fid \<Longrightarrow> occs cs fid = [] \<Longrightarrow> fb_delall fid b = (Err FNOTPRES, b)"
  using rep_is_field [of b cs fid 0] by (auto simp: fb_delall_def Let_def)

text \<open>
  Deleting when a field of another type follows: the result represents no buffer that
  has the right fields.
\<close>

lemma rep_del_wrong:
  assumes "rep b cs" "valid_id fid" "0 \<le> oc" "oc < int (length (occs cs fid))"
    and nxt: "\<not> next_has_type cs (Suc (length (below fid cs) + nat oc)) (Fldtype32 fid)"
  shows "\<not> rep (snd (fb_del fid oc b)) cs'"
proof
  let ?i = "length (below fid cs) + nat oc"
  note d = rep_del_some [OF assms(1-4)]
  have run: "ctype (cs ! k) = Fldtype32 fid" if "?i \<le> k" "k < Suc ?i" for k
    using run_type [OF assms(1), of fid k] that d(2) by simp
  have nx: "Suc ?i < length cs" "ctype (cs ! Suc ?i) \<noteq> Fldtype32 fid"
    using nxt by (auto simp: next_has_type_def)
  note w = erase_wrong_offset [OF assms(1) lessI nx(1) run nx(2)]
  let ?k = "nat (offset_for (Fldtype32 fid) + 1)" and ?b' = "erase (cpos cs ?i) (pos_opt cs (Suc ?i)) b"
  let ?cs = "take ?i cs @ drop (Suc ?i) cs"
  assume "rep (snd (fb_del fid oc b)) cs'"
  then have r: "rep ?b' cs'" using d(1) by simp
  have "concat cs' = concat ?cs" using r w(4) by (simp add: rep_def)
  moreover have "\<forall>c \<in> set cs'. wf_chunk c" "\<forall>c \<in> set ?cs. wf_chunk c"
    using r assms(1) by (auto simp: rep_def dest: in_set_takeD in_set_dropD)
  ultimately have "cs' = ?cs" by (rule concat_wf_inj)
  then have "boffs ?b' ! ?k = off_of ?cs ?k" using rep_offs [OF r w(1)] by simp
  then show False using w(2,3) by simp
qed

end
