(* ===== verification/Fml_Chg.thy ===== *)
theory Fml_Chg
  imports Fml_Erase
begin

text \<open>
  \<open>chg\<close> on a represented buffer: replace, append, or fill the missing occurrences with
  zero values and append; out of space, nothing but some filled occurrences is left
  behind; filling occurrences of type FML32 reads past the 16 zero bytes.
\<close>

subsection \<open>The filler value\<close>

definition default_len :: "int \<Rightarrow> nat" where
  "default_len t = (if t = FLD_STRING then 1 else if t = FLD_CARRAY then 0 else fixed_len t)"

definition default_val :: "int \<Rightarrow> byte list" where
  "default_val t = replicate (default_len t) 0"

lemma good_zeros:
  "valid_fldtype32 t \<Longrightarrow> t \<noteq> FLD_FML32 \<Longrightarrow> good_value t zeros 0 (default_len t)"
  by (elim valid_type_cases)
    (simp_all add: good_value_def value_len_def zeros_def default_len_def fixed_len_def u32_def)

lemma stored_zeros:
  assumes "valid_fldtype32 t" "t \<noteq> FLD_FML32"
  shows "stored t zeros (default_len t) = default_val t"
proof -
  have "default_len t \<le> 16" by (simp add: default_len_def fixed_len_def)
  then show ?thesis using assms(2) by (simp add: stored_def zeros_def default_val_def min_def)
qed

lemma default_size_le:
  assumes "good_value (Fldtype32 fid) v flen n" "valid_id fid" "Fldtype32 fid \<noteq> FLD_FML32"
  shows "field_size fid (default_len (Fldtype32 fid)) \<le> field_size fid n"
proof (cases "fldclass fid = FIELDN")
  case False
  then show ?thesis by (simp add: field_size_def split: storage_class.splits)
next
  case True
  have n: "n + 8 < 2 ^ 32" using assms(1) by (auto simp: good_value_def)
  have t: "valid_fldtype32 (Fldtype32 fid)" using assms(2) by (simp add: valid_id_def)
  then consider "Fldtype32 fid = FLD_STRING" | "Fldtype32 fid = FLD_CARRAY"
    using assms(3) True by (elim valid_type_cases) (simp_all add: fldclass_def Let_def)
  then show ?thesis
  proof cases
    case 1
    have "0 < n" using good_value_string [of v flen n] assms(1) 1 by (cases n) auto
    then have "8 \<le> fieldn_size n"
      using fieldn_size_bounds(1,3) [OF n] by (cases "fieldn_size n < 8") auto
    moreover have "fieldn_size 1 = 8" by (simp add: fieldn_size_def u32_def)
    ultimately show ?thesis using 1 True by (simp add: field_size_def default_len_def)
  next
    case 2
    have "fieldn_size 0 = 0" by (simp add: fieldn_size_def)
    then show ?thesis using 2 True by (simp add: field_size_def default_len_def)
  qed
qed

subsection \<open>One put, as an update of the occurrences\<close>

text \<open>\<open>b'\<close> is a buffer of the same size and owner as \<open>b\<close> that holds \<open>f\<close>.\<close>

definition becomes :: "fbfr \<Rightarrow> fbfr \<Rightarrow> (fldid \<Rightarrow> byte list list) \<Rightarrow> bool" where
  "becomes b b' f \<longleftrightarrow>
     (\<exists>cs'. rep b' cs' \<and> occs cs' = f) \<and> bsize b' = bsize b \<and> (\<forall>i \<ge> bsize b. bdata b' i = bdata b i)"

lemma becomes_refl: "rep b cs \<Longrightarrow> becomes b b (occs cs)"
  by (auto simp: becomes_def)

lemma becomes_trans: "becomes a b f \<Longrightarrow> becomes b c g \<Longrightarrow> becomes a c g"
  by (simp add: becomes_def)

lemma put_becomes:
  fixes oc :: int
  assumes "rep b cs" "valid_id fid" "good_value (Fldtype32 fid) v flen n"
  defines "need \<equiv> int (field_size fid n) - int (old_size cs fid oc)"
  shows "int (blen b) + need > int (bsize b) \<Longrightarrow> fb_put fid oc v flen b = (Err FNOSPACE, b)"
    "int (blen b) + need \<le> int (bsize b) \<Longrightarrow>
       \<exists>b'. fb_put fid oc v flen b = (Ret (), b') \<and> int (blen b') = int (blen b) + need \<and>
         becomes b b' ((occs cs)(fid := put_list (occs cs fid) oc (stored (Fldtype32 fid) v n)))"
proof -
  have st: "storable fid v n" by (rule good_value_storable [OF assms(3,2)])
  have vl: "value_len (Fldtype32 fid) v flen = Some n" using assms(3) by (simp add: good_value_def)
  have "blen b \<le> bsize b" using assms(1) by (simp add: rep_def)
  then show "int (blen b) + need > int (bsize b) \<Longrightarrow> fb_put fid oc v flen b = (Err FNOSPACE, b)"
    using rep_put(1) [OF assms(1) st vl, of oc, folded need_def] by simp
  assume "int (blen b) + need \<le> int (bsize b)"
  from rep_put(2) [OF assms(1) st vl, of oc, folded need_def, OF this]
  obtain c b' where p: "fb_put fid oc v flen b = (Ret (), b')" "rep b' (put_chunks cs fid oc c)"
    "cid c = fid" "cval c = stored (Fldtype32 fid) v n" "int (blen b') = int (blen b) + need"
    "bsize b' = bsize b" "\<forall>i \<ge> bsize b. bdata b' i = bdata b i" by blast
  have "occs (put_chunks cs fid oc c) =
      (occs cs)(fid := put_list (occs cs fid) oc (stored (Fldtype32 fid) v n))"
    using occs_put [OF sorted_cid [OF assms(1)] p(3)] p(4) by (intro ext) simp
  then show "\<exists>b'. fb_put fid oc v flen b = (Ret (), b') \<and> int (blen b') = int (blen b) + need \<and>
         becomes b b' ((occs cs)(fid := put_list (occs cs fid) oc (stored (Fldtype32 fid) v n)))"
    using p unfolding becomes_def by blast
qed

subsection \<open>Filling\<close>

lemma fb_chg_value:
  assumes "rep b cs" "valid_id fid"
  shows "fb_chg fid oc (Some v) flen b =
         (let L = length (occs cs fid); oc' = (if oc = -1 then int L else oc)
          in case fb_fill fid L oc' b of
               (Ret u, b1) \<Rightarrow> fb_put fid oc' v flen b1
             | (r, b1) \<Rightarrow> (r, b1))"
  by (simp add: fb_chg.simps rep_occur [OF assms] Let_def)

lemma fb_fill_done: "oc \<le> int o1 \<Longrightarrow> fb_fill fid o1 oc b = (Ret (), b)"
  by (simp add: fb_fill.simps)

lemma fb_chg_present:
  assumes "rep b cs" "valid_id fid" "oc \<le> int (length (occs cs fid))" "oc \<noteq> -1"
  shows "fb_chg fid oc (Some v) flen b = fb_put fid oc v flen b"
  using assms by (simp add: fb_chg_value fb_fill_done)

lemma fill_no_space:
  assumes "rep b cs" "valid_id fid" "Fldtype32 fid \<noteq> FLD_FML32"
    and full: "blen b + field_size fid (default_len (Fldtype32 fid)) > bsize b"
  shows "length (occs cs fid) \<le> o1 \<Longrightarrow> fb_fill fid o1 oc b = (Ret (), b)"
proof -
  let ?L = "length (occs cs fid)"
  have t: "valid_fldtype32 (Fldtype32 fid)" using assms(2) by (simp add: valid_id_def)
  have put: "fb_put fid oc zeros 0 b = (Err FNOSPACE, b)" if "int ?L \<le> oc" for oc
  proof -
    have "old_size cs fid oc = 0" using that by (simp add: old_size_def length_occs)
    then show ?thesis
      using put_becomes(1) [OF assms(1,2) good_zeros [OF t assms(3)], of oc] full by simp
  qed
  show "length (occs cs fid) \<le> o1 \<Longrightarrow> fb_fill fid o1 oc b = (Ret (), b)" for oc
  proof (induction "nat oc" arbitrary: oc o1 rule: less_induct)
    case (less oc)
    have chg: "fb_chg fid (int j) (Some zeros) 0 b = (Err FNOSPACE, b)" if "?L \<le> j" "int j < oc" for j
    proof -
      have "fb_fill fid ?L (int j) b = (Ret (), b)" using less.hyps [of "int j"] that by simp
      then show ?thesis using put [of "int j"] that by (simp add: fb_chg_value [OF assms(1,2)])
    qed
    have "fb_fill fid o1 oc b = (Ret (), b)" if "?L \<le> o1" for o1
      using that
    proof (induction "nat oc - o1" arbitrary: o1)
      case 0
      then show ?case by (intro fb_fill_done) simp
    next
      case (Suc k)
      then have "int o1 < oc" "k = nat oc - Suc o1" by simp_all
      then show ?case
        using Suc.prems Suc.hyps(1) [of "Suc o1"] chg [of o1] by (simp add: fb_fill.simps [of fid o1])
    qed
    then show ?case using less.prems by simp
  qed
qed

text \<open>The fill loop from the first missing occurrence: \<open>j\<close> of them fit.\<close>

lemma fill_becomes:
  assumes "valid_id fid" "Fldtype32 fid \<noteq> FLD_FML32" "rep b cs"
  defines "t \<equiv> Fldtype32 fid"
  shows "\<exists>b' j. fb_fill fid (length (occs cs fid)) oc b = (Ret (), b') \<and>
           j \<le> nat oc - length (occs cs fid) \<and>
           blen b' = blen b + j * field_size fid (default_len t) \<and>
           becomes b b' ((occs cs)(fid := occs cs fid @ replicate j (default_val t))) \<and>
           (j < nat oc - length (occs cs fid) \<longrightarrow> blen b' + field_size fid (default_len t) > bsize b)"
  using assms(3)
proof (induction "nat oc - length (occs cs fid)" arbitrary: b cs)
  case 0
  then show ?case
    by (intro exI [of _ b] exI [of _ 0]) (auto simp: fb_fill_done fun_upd_idem intro: becomes_refl)
next
  case (Suc k)
  let ?L = "length (occs cs fid)" and ?s = "field_size fid (default_len t)"
  have t: "valid_fldtype32 t" using assms(1) by (simp add: valid_id_def t_def)
  have lt: "int ?L < oc" using Suc.hyps(2) by simp
  have old: "old_size cs fid (int ?L) = 0" by (simp add: old_size_def length_occs)
  have gz: "good_value (Fldtype32 fid) zeros 0 (default_len t)"
    using good_zeros [OF t] assms(2) by (simp add: t_def)
  note put = put_becomes [OF Suc.prems assms(1) gz, of "int ?L"]
  have chg: "fb_chg fid (int ?L) (Some zeros) 0 b = fb_put fid (int ?L) zeros 0 b"
    by (rule fb_chg_present [OF Suc.prems assms(1)]) simp_all
  show ?case
  proof (cases "blen b + ?s > bsize b")
    case True
    then have "fb_fill fid ?L oc b = (Ret (), b)"
      using fill_no_space [OF Suc.prems assms(1,2)] by (simp add: t_def)
    then show ?thesis
      using True becomes_refl [OF Suc.prems] by (intro exI [of _ b] exI [of _ 0]) (simp add: fun_upd_idem)
  next
    case False
    then obtain b1 where b1: "fb_put fid (int ?L) zeros 0 b = (Ret (), b1)" "blen b1 = blen b + ?s"
      "becomes b b1 ((occs cs)(fid := put_list (occs cs fid) (int ?L) (stored (Fldtype32 fid) zeros (default_len t))))"
      using put(2) old by fastforce
    then obtain cs1 where cs1: "rep b1 cs1" "occs cs1 = (occs cs)(fid := occs cs fid @ [default_val t])"
      using stored_zeros [OF t] assms(2) by (auto simp: becomes_def put_list_def t_def)
    have L1: "length (occs cs1 fid) = Suc ?L" using cs1(2) by simp
    have k: "k = nat oc - length (occs cs1 fid)" using Suc.hyps(2) L1 by simp
    from Suc.hyps(1) [OF k cs1(1)] obtain b' j where
      j: "fb_fill fid (length (occs cs1 fid)) oc b1 = (Ret (), b')"
      "j \<le> nat oc - length (occs cs1 fid)" "blen b' = blen b1 + j * ?s"
      "becomes b1 b' ((occs cs1)(fid := occs cs1 fid @ replicate j (default_val t)))"
      "j < nat oc - length (occs cs1 fid) \<longrightarrow> blen b' + ?s > bsize b1" by blast
    have "fb_fill fid ?L oc b = (Ret (), b')"
      using lt chg b1(1) j(1) L1 by (simp add: fb_fill.simps [of fid ?L])
    moreover have "becomes b b' ((occs cs)(fid := occs cs fid @ replicate (Suc j) (default_val t)))"
      using becomes_trans [OF b1(3) j(4)] cs1(2) by simp
    moreover have "bsize b1 = bsize b" using b1(3) by (simp add: becomes_def)
    moreover have "Suc j \<le> nat oc - ?L" using j(2) L1 lt by linarith
    ultimately show ?thesis
      using j L1 b1(2) by (intro exI [of _ b'] exI [of _ "Suc j"]) auto
  qed
qed

subsection \<open>chg\<close>

text \<open>The occurrence list after \<open>chg\<close>, and the bytes it needs.\<close>

definition change_list :: "'a list \<Rightarrow> int \<Rightarrow> 'a \<Rightarrow> 'a \<Rightarrow> 'a list" where
  "change_list xs oc x d =
     (if oc < 0 then xs @ [x]
      else if oc < int (length xs) then xs[nat oc := x]
      else xs @ replicate (nat oc - length xs) d @ [x])"

definition chg_need :: "chunk list \<Rightarrow> fldid \<Rightarrow> int \<Rightarrow> nat \<Rightarrow> int" where
  "chg_need cs fid oc n =
     int ((nat oc - length (occs cs fid)) * field_size fid (default_len (Fldtype32 fid))) +
     int (field_size fid n) - int (old_size cs fid oc)"

lemma old_size_occs:
  assumes "occs cs' = (occs cs)(fid := occs cs fid @ ys)" "\<not> (0 \<le> oc \<and> oc < int (length (occs cs' fid)))"
  shows "old_size cs' fid oc = 0"
  using assms(2) by (auto simp: old_size_def length_occs)

lemma chg_put_list:
  assumes "rep b cs" "valid_id fid" "good_value (Fldtype32 fid) v flen n"
    and "oc \<le> int (length (occs cs fid))"
  shows "fb_chg fid oc (Some v) flen b =
         fb_put fid (if oc = -1 then int (length (occs cs fid)) else oc) v flen b"
  using assms by (auto simp: fb_chg_value Let_def fb_fill_done)

lemma rep_chg_near:
  assumes "rep b cs" "valid_id fid" "good_value (Fldtype32 fid) v flen n"
    and near: "oc \<le> int (length (occs cs fid))"
  shows "int (blen b) + chg_need cs fid oc n > int (bsize b) \<Longrightarrow>
           fb_chg fid oc (Some v) flen b = (Err FNOSPACE, b)"
    "int (blen b) + chg_need cs fid oc n \<le> int (bsize b) \<Longrightarrow>
       \<exists>b'. fb_chg fid oc (Some v) flen b = (Ret (), b') \<and>
         int (blen b') = int (blen b) + chg_need cs fid oc n \<and>
         becomes b b' ((occs cs)(fid := change_list (occs cs fid) oc (stored (Fldtype32 fid) v n) d))"
proof -
  let ?oc = "if oc = -1 then int (length (occs cs fid)) else oc"
  have "old_size cs fid ?oc = old_size cs fid oc" by (auto simp: old_size_def length_occs)
  then have need: "chg_need cs fid oc n = int (field_size fid n) - int (old_size cs fid ?oc)"
    using near by (simp add: chg_need_def)
  have pl: "put_list (occs cs fid) ?oc x = change_list (occs cs fid) oc x d" for x
    using near by (auto simp: put_list_def change_list_def)
  note put = put_becomes [OF assms(1-3), of ?oc, folded need, unfolded pl]
  show "int (blen b) + chg_need cs fid oc n > int (bsize b) \<Longrightarrow>
           fb_chg fid oc (Some v) flen b = (Err FNOSPACE, b)"
    using put(1) chg_put_list [OF assms] by simp
  show "int (blen b) + chg_need cs fid oc n \<le> int (bsize b) \<Longrightarrow>
       \<exists>b'. fb_chg fid oc (Some v) flen b = (Ret (), b') \<and>
         int (blen b') = int (blen b) + chg_need cs fid oc n \<and>
         becomes b b' ((occs cs)(fid := change_list (occs cs fid) oc (stored (Fldtype32 fid) v n) d))"
    using put(2) chg_put_list [OF assms] by simp
qed

lemma rep_chg_far:
  assumes "rep b cs" "valid_id fid" "good_value (Fldtype32 fid) v flen n"
    and nest: "Fldtype32 fid \<noteq> FLD_FML32" and far: "int (length (occs cs fid)) < oc"
  defines "d \<equiv> default_val (Fldtype32 fid)"
  shows "int (blen b) + chg_need cs fid oc n > int (bsize b) \<Longrightarrow>
           \<exists>b' j. fb_chg fid oc (Some v) flen b = (Err FNOSPACE, b') \<and>
             becomes b b' ((occs cs)(fid := occs cs fid @ replicate j d))"
    "int (blen b) + chg_need cs fid oc n \<le> int (bsize b) \<Longrightarrow>
       \<exists>b'. fb_chg fid oc (Some v) flen b = (Ret (), b') \<and>
         int (blen b') = int (blen b) + chg_need cs fid oc n \<and>
         becomes b b' ((occs cs)(fid := change_list (occs cs fid) oc (stored (Fldtype32 fid) v n) d))"
proof -
  let ?L = "length (occs cs fid)" and ?s = "field_size fid (default_len (Fldtype32 fid))"
  obtain b1 j where f: "fb_fill fid ?L oc b = (Ret (), b1)" "j \<le> nat oc - ?L"
    "blen b1 = blen b + j * ?s" "becomes b b1 ((occs cs)(fid := occs cs fid @ replicate j d))"
    "j < nat oc - ?L \<longrightarrow> blen b1 + ?s > bsize b"
    using fill_becomes [OF assms(2) nest assms(1), of oc] unfolding d_def by blast
  obtain cs1 where cs1: "rep b1 cs1" "occs cs1 = (occs cs)(fid := occs cs fid @ replicate j d)"
    and sz: "bsize b1 = bsize b" using f(4) by (auto simp: becomes_def)
  have L1: "length (occs cs1 fid) = ?L + j" using cs1(2) by simp
  have old: "old_size cs1 fid oc = 0" "old_size cs fid oc = 0"
    using L1 f(2) far by (auto simp: old_size_def length_occs)
  have chg: "fb_chg fid oc (Some v) flen b = fb_put fid oc v flen b1"
    using f(1) far by (simp add: fb_chg_value [OF assms(1,2)])
  have need: "chg_need cs fid oc n = int ((nat oc - ?L) * ?s) + int (field_size fid n)"
    using old by (simp add: chg_need_def)
  have le: "?s \<le> field_size fid n" by (rule default_size_le [OF assms(3,2) nest])
  note put = put_becomes [OF cs1(1) assms(2,3), of oc]
  show "\<exists>b' j. fb_chg fid oc (Some v) flen b = (Err FNOSPACE, b') \<and>
             becomes b b' ((occs cs)(fid := occs cs fid @ replicate j d))"
    if "int (blen b) + chg_need cs fid oc n > int (bsize b)"
  proof -
    have "int (blen b1) + int (field_size fid n) > int (bsize b1)"
    proof (cases "j < nat oc - ?L")
      case True
      then show ?thesis using f(5) le sz by linarith
    next
      case False
      then have "j = nat oc - ?L" using f(2) by simp
      then show ?thesis using that need f(3) sz by simp
    qed
    then show ?thesis using put(1) old chg f(4) by auto
  qed
  assume fits: "int (blen b) + chg_need cs fid oc n \<le> int (bsize b)"
  have j: "j = nat oc - ?L"
  proof (rule ccontr)
    assume "j \<noteq> nat oc - ?L"
    then have lt: "j < nat oc - ?L" using f(2) by simp
    have "j * ?s + ?s \<le> (nat oc - ?L) * ?s" using mult_le_mono1 [OF Suc_leI [OF lt], of ?s] by simp
    then show False using f(3,5) lt fits need by simp
  qed
  have "int (blen b1) + int (field_size fid n) = int (blen b) + chg_need cs fid oc n"
    using need f(3) j by simp
  moreover have "put_list (occs cs1 fid) oc x = change_list (occs cs fid) oc x d" for x
    using cs1(2) L1 j far by (simp add: put_list_def change_list_def)
  ultimately obtain b' where b': "fb_put fid oc v flen b1 = (Ret (), b')"
    "int (blen b') = int (blen b) + chg_need cs fid oc n"
    "becomes b1 b' ((occs cs1)(fid := change_list (occs cs fid) oc (stored (Fldtype32 fid) v n) d))"
    using put(2) old fits sz by auto
  have "becomes b b' ((occs cs1)(fid := change_list (occs cs fid) oc (stored (Fldtype32 fid) v n) d))"
    by (rule becomes_trans [OF f(4) b'(3)])
  then show "\<exists>b'. fb_chg fid oc (Some v) flen b = (Ret (), b') \<and>
         int (blen b') = int (blen b) + chg_need cs fid oc n \<and>
         becomes b b' ((occs cs)(fid := change_list (occs cs fid) oc (stored (Fldtype32 fid) v n) d))"
    using b' chg cs1(2) by simp
qed

text \<open>Filling occurrences of a nested buffer: the 16 zeros are too short to be one.\<close>

lemma chg_nested_stuck:
  assumes "rep b cs" "valid_id fid" "Fldtype32 fid = FLD_FML32"
    and far: "int (length (occs cs fid)) < oc"
    and room: "blen b + 48 \<le> bsize b"
  shows "fb_chg fid oc (Some v) flen b = (Stuck, b)"
proof -
  let ?L = "length (occs cs fid)"
  have k: "fldclass fid = FIELDN" using assms(3) by (simp add: fldclass_def)
  have vl: "value_len (Fldtype32 fid) zeros 0 = Some 40"
    by (simp add: assms(3) value_len_def zeros_def u32_def dec32_def)
  have lz: "length zeros = 16" by (simp add: zeros_def)
  have "\<not> is_field b fid (fb_where fid (int ?L) b)"
    using rep_is_field [OF assms(1,2)] by simp
  then have "fb_put fid (int ?L) zeros 0 b = (Stuck, b)"
    using room by (auto simp: fb_put_def Let_def vl k fieldn_size_def lz)
  then have "fb_chg fid (int ?L) (Some zeros) 0 b = (Stuck, b)"
    using fb_chg_present [OF assms(1,2)] by simp
  then have "fb_fill fid ?L oc b = (Stuck, b)" using far by (simp add: fb_fill.simps)
  then show ?thesis using far by (simp add: fb_chg_value [OF assms(1,2)])
qed

end
