(* ===== verification/Fml_Walk.thy ===== *)
theory Fml_Walk
  imports Fml_Chg
begin

text \<open>
  The set operations of src/fbfr32.h that walk a source buffer: the walk is a fold over
  the field sequence (so it ends), and update, concatenation, projection copy and outer
  join act on the occurrence lists as their names say.
\<close>

subsection \<open>The walk over a source\<close>

definition occ_no :: "chunk list \<Rightarrow> nat \<Rightarrow> nat" where
  "occ_no ss i = length (same_id (cid (ss ! i)) (take i ss))"

fun walk :: "(nat \<Rightarrow> int \<Rightarrow> 's \<Rightarrow> int outcome \<times> 's) \<Rightarrow> chunk list \<Rightarrow> nat list \<Rightarrow> 's \<Rightarrow> int outcome \<times> 's" where
  "walk f ss [] s = (Ret 0, s)"
| "walk f ss (i # js) s =
     (case f (cpos ss i) (int (occ_no ss i)) s of
        (Ret r, s') \<Rightarrow> walk f ss js s'
      | (e, s') \<Rightarrow> (e, s'))"

lemma occ_no_Suc:
  assumes "sorted (map cid ss)" "Suc i < length ss"
  shows "occ_no ss (Suc i) = (if cid (ss ! Suc i) = cid (ss ! i) then Suc (occ_no ss i) else 0)"
proof (cases "cid (ss ! Suc i) = cid (ss ! i)")
  case True
  then show ?thesis
    using assms(2) by (simp add: occ_no_def take_Suc_conv_app_nth same_id_append) (simp add: same_id_def)
next
  case False
  have lt: "cid c < cid (ss ! Suc i)" if c: "c \<in> set (take (Suc i) ss)" for c
  proof -
    obtain j where j: "j < Suc i" "c = ss ! j" using c assms(2) by (auto simp: in_set_conv_nth)
    have m: "cid (ss ! j') \<le> cid (ss ! k)" if "j' \<le> k" "k < length ss" for j' k
      using sorted_nth_mono [OF assms(1), of j' k] that by simp
    have "cid (ss ! j) \<le> cid (ss ! i)" using m [of j i] j assms(2) by simp
    also have "\<dots> < cid (ss ! Suc i)" using m [of i "Suc i"] False assms(2) by simp
    finally show ?thesis using j by simp
  qed
  then have "same_id (cid (ss ! Suc i)) (take (Suc i) ss) = []"
    by (force simp: same_id_def filter_empty_conv)
  then show ?thesis using False by (simp add: occ_no_def)
qed

lemma iterate_walk_from:
  assumes "rep src ss" "i \<le> length ss"
    and cont: "\<And>p oc s r s'. f p oc s = (Ret r, s') \<Longrightarrow> r \<noteq> 1"
    and oc: "i < length ss \<Longrightarrow> (if cid (ss ! i) \<noteq> prev then 0 else oc + 1) = int (occ_no ss i)"
  shows "fb_iterate (\<lambda>_. src) f (pos_opt ss i) (blen src) prev oc s = Some (walk f ss [i..<length ss] s)"
  using assms(2) oc
proof (induction "length ss - i" arbitrary: i prev oc s)
  case 0
  then show ?case by (simp add: pos_opt_def fb_iterate.simps)
next
  case (Suc k)
  then have i: "i < length ss" by simp
  have p: "pos_opt ss i = Some (cpos ss i)" "cpos ss i < blen src"
    using i cpos_less_iff [OF rep_nonempty [OF assms(1)], of i "length ss"]
    by (simp_all add: pos_opt_def rep_blen [OF assms(1)] cpos_length)
  have ixs: "[i..<length ss] = i # [Suc i..<length ss]" using i by (rule upt_conv_Cons)
  have IH: "fb_iterate (\<lambda>_. src) f (pos_opt ss (Suc i)) (blen src) (cid (ss ! i)) (int (occ_no ss i)) s' =
      Some (walk f ss [Suc i..<length ss] s')" for s'
    using Suc.hyps(1) [of "Suc i" "cid (ss ! i)" "int (occ_no ss i)" s'] Suc.hyps(2) i
      occ_no_Suc [OF sorted_cid [OF assms(1)], of i]
    by simp
  have step: "fb_iterate (\<lambda>_. src) f (Some (cpos ss i)) (blen src) prev oc s =
      (case f (cpos ss i) (int (occ_no ss i)) s of
         (Ret r, s') \<Rightarrow> fb_iterate (\<lambda>_. src) f (pos_opt ss (Suc i)) (blen src) (cid (ss ! i)) (int (occ_no ss i)) s'
       | (e, s') \<Rightarrow> Some (e, s'))"
    using p(2) Suc.prems(2) [OF i] cont rep_id_at [OF assms(1) i] rep_next_opt [OF assms(1) i]
    by (subst fb_iterate.simps)
      (auto simp: Let_def split: prod.splits outcome.splits)
  show ?case
    unfolding p(1) ixs walk.simps step
    by (auto simp: IH split: prod.splits outcome.splits)
qed

lemma iterate_walk:
  assumes "rep src ss" "\<forall>c \<in> set ss. cid c \<noteq> BADFLDID"
    and "\<And>p oc s r s'. f p oc s = (Ret r, s') \<Longrightarrow> r \<noteq> 1"
  shows "iterate_all (\<lambda>_. src) f s = Some (walk f ss [0..<length ss] s)"
proof (cases "ss = []")
  case True
  then have "blen src = 0" using rep_blen [OF assms(1)] by simp
  then show ?thesis using True by (simp add: iterate_all_def fb_iterate.simps)
next
  case False
  then have "pos_opt ss 0 = Some 0" by (simp add: pos_opt_def)
  moreover have "cid (ss ! 0) \<noteq> BADFLDID" using assms(2) False by simp
  ultimately show ?thesis
    using iterate_walk_from [OF assms(1) _ assms(3), where i = 0 and prev = BADFLDID and oc = 0 and s = s]
    by (simp add: iterate_all_def occ_no_def same_id_def)
qed

subsection \<open>The values of a source\<close>

lemma wf_val_nested:
  "wf_val FLD_FML32 v \<longleftrightarrow>
     min_size \<le> length v \<and> take 4 v = take 4 (drop 4 v) \<and>
     length v = unat (dec32 (take 4 v)) + min_size"
  by (simp add: wf_val_def)

lemma wf_val_good:
  assumes "wf_chunk c"
  shows "good_value (ctype c) (cval c) (length (cval c)) (length (cval c))"
    "stored (ctype c) (cval c) (length (cval c)) = cval c"
proof -
  let ?v = "cval c" and ?t = "ctype c"
  have wf: "wf_val ?t ?v" using assms by (simp add: wf_chunk_def)
  have small: "length ?v + 8 < 2 ^ 32"
  proof -
    have v: "valid_fldtype32 ?t" using assms by (simp add: wf_chunk_def valid_id_def ctype_def)
    have N: "fldclass (cid c) = FIELDN \<Longrightarrow> cflen c + 8 < 2 ^ 32" using assms by (simp add: wf_chunk_def)
    show ?thesis
      using length_cval [OF assms] N
      by (auto simp: cvlen_def fixed_len_def split: storage_class.splits)
  qed
  show "stored ?t ?v (length ?v) = ?v"
  proof (cases "?t = FLD_FML32")
    case True
    have "take 4 (drop 4 ?v) = take 4 ?v"
      using wf [unfolded True wf_val_nested] by (elim conjE) (rule sym)
    then show ?thesis by (simp only: stored_def True if_True refl) simp
  qed (simp add: stored_def)
  show "good_value ?t ?v (length ?v) (length ?v)"
  proof -
    consider "?t = FLD_STRING" | "?t = FLD_CARRAY" | "?t = FLD_FML32"
      | "?t \<noteq> FLD_STRING" "?t \<noteq> FLD_CARRAY" "?t \<noteq> FLD_FML32" by blast
    then show ?thesis
    proof cases
      case 1
      then have s: "?v \<noteq> []" "last ?v = 0" "0 \<notin> set (butlast ?v)" using wf by (simp_all add: wf_val_def)
      then have v: "?v = butlast ?v @ [0]" by (metis append_butlast_last_id)
      have "takeWhile (\<lambda>c. c \<noteq> 0) ?v = butlast ?v"
        using s(3) by (subst v) (auto simp: takeWhile_tail intro!: takeWhile_eq_all_conv [THEN iffD2])
      then have "length (takeWhile (\<lambda>c. c \<noteq> 0) ?v) + 1 = length ?v" using s(1) by simp
      moreover have "0 \<in> set ?v" by (subst v) simp
      ultimately have "value_len ?t ?v (length ?v) = Some (u32 (int (length ?v)))"
        using 1 by (simp add: value_len_def) (metis of_nat_Suc add.commute)
      then show ?thesis using 1 small by (simp add: good_value_def u32_of_nat)
    next
      case 2
      then show ?thesis using small by (simp add: good_value_def value_len_def)
    next
      case 3
      let ?l = "unat (dec32 (take 4 (drop 4 ?v)))"
      have s: "min_size \<le> length ?v" "length ?v = ?l + min_size"
        using wf [unfolded 3 wf_val_nested] by (elim conjE, simp only:)+
      have vl: "value_len ?t ?v (length ?v) = Some (u32 (int (?l + min_size)))"
        using 3 s(1) by (simp add: value_len_def)
      have "u32 (int (?l + min_size)) = length ?v"
        unfolding s(2) [symmetric] using u32_of_nat [of "length ?v"] small by simp
      then have len: "value_len ?t ?v (length ?v) = Some (length ?v)" using vl by (simp only:)
      have "?l + min_size < 2 ^ 32" unfolding s(2) [symmetric] using small by simp
      then show ?thesis using 3 small len by (simp add: good_value_def)
    next
      case 4
      then show ?thesis using wf small by (simp add: good_value_def value_len_def wf_val_def)
    qed
  qed
qed

lemma field_size_chunk:
  assumes "wf_chunk c"
  shows "field_size (cid c) (length (cval c)) = length c"
  using assms length_cval [OF assms]
  by (auto simp: field_size_def wf_chunk_def csize_def cvlen_def split: storage_class.splits)

lemma chg_from_chunk:
  assumes "rep src ss" "i < length ss"
  shows "chg_from src (cpos ss i) oc dest =
         as_rc (fb_chg (cid (ss ! i)) oc (Some (cval (ss ! i))) (length (cval (ss ! i))) dest)"
  using assms rep_src_value [OF assms] rep_value_at(2) [OF assms] rep_id_at [OF assms]
  by (simp add: chg_from_def)

lemma chg_from_near:
  assumes "rep src ss" "i < length ss" "rep dest cs"
    and near: "oc \<le> int (length (occs cs (cid (ss ! i))))"
  defines "c \<equiv> ss ! i"
  shows "int (blen dest) + chg_need cs (cid c) oc (length (cval c)) > int (bsize dest) \<Longrightarrow>
           chg_from src (cpos ss i) oc dest = (Err FNOSPACE, dest)"
    "int (blen dest) + chg_need cs (cid c) oc (length (cval c)) \<le> int (bsize dest) \<Longrightarrow>
       \<exists>dest'. chg_from src (cpos ss i) oc dest = (Ret 0, dest') \<and>
         int (blen dest') = int (blen dest) + chg_need cs (cid c) oc (length (cval c)) \<and>
         becomes dest dest' ((occs cs)(cid c := change_list (occs cs (cid c)) oc (cval c) []))"
proof -
  have wf: "wf_chunk c" using rep_wf [OF assms(1,2)] by (simp add: c_def)
  have v: "valid_id (cid c)" using wf by (simp add: wf_chunk_def)
  have g: "good_value (Fldtype32 (cid c)) (cval c) (length (cval c)) (length (cval c))"
    "stored (Fldtype32 (cid c)) (cval c) (length (cval c)) = cval c"
    using wf_val_good [OF wf] by (simp_all add: ctype_def)
  note chg = rep_chg_near [OF assms(3) v g(1), of oc, unfolded g(2)]
  note cf = chg_from_chunk [OF assms(1,2), folded c_def]
  show "int (blen dest) + chg_need cs (cid c) oc (length (cval c)) > int (bsize dest) \<Longrightarrow>
           chg_from src (cpos ss i) oc dest = (Err FNOSPACE, dest)"
    using chg(1) near cf by (simp add: c_def as_rc_def)
  show "int (blen dest) + chg_need cs (cid c) oc (length (cval c)) \<le> int (bsize dest) \<Longrightarrow>
       \<exists>dest'. chg_from src (cpos ss i) oc dest = (Ret 0, dest') \<and>
         int (blen dest') = int (blen dest) + chg_need cs (cid c) oc (length (cval c)) \<and>
         becomes dest dest' ((occs cs)(cid c := change_list (occs cs (cid c)) oc (cval c) []))"
    using chg(2) [of "[]"] near cf by (auto simp: c_def as_rc_def)
qed

subsection \<open>Invariants of a walk\<close>

lemma walk_from:
  assumes step: "\<And>i s. i < n \<Longrightarrow> I i s \<Longrightarrow>
      (\<exists>s'. f (cpos ss i) (int (occ_no ss i)) s = (Ret 0, s') \<and> I (Suc i) s') \<or>
      (\<exists>s'. f (cpos ss i) (int (occ_no ss i)) s = (Err FNOSPACE, s') \<and> I i s')"
    and "I i s" "i \<le> n"
  shows "\<exists>s'. (walk f ss [i..<n] s = (Ret 0, s') \<and> I n s') \<or>
              (walk f ss [i..<n] s = (Err FNOSPACE, s') \<and> (\<exists>j < n. I j s'))"
  using assms(2,3)
proof (induction "n - i" arbitrary: i s)
  case 0
  then show ?case by simp
next
  case (Suc k)
  then have i: "i < n" "[i..<n] = i # [Suc i..<n]" by (simp_all add: upt_conv_Cons)
  from step [OF i(1) Suc.prems(1)] show ?case
  proof (elim disjE exE conjE)
    fix s' assume f: "f (cpos ss i) (int (occ_no ss i)) s = (Ret 0, s')" "I (Suc i) s'"
    have "\<exists>t. (walk f ss [Suc i..<n] s' = (Ret 0, t) \<and> I n t) \<or>
              (walk f ss [Suc i..<n] s' = (Err FNOSPACE, t) \<and> (\<exists>j < n. I j t))"
      by (rule Suc.hyps(1)) (use Suc.hyps(2) i f in simp_all)
    then show ?thesis using f(1) i(2) by simp
  next
    fix s' assume "f (cpos ss i) (int (occ_no ss i)) s = (Err FNOSPACE, s')" "I i s'"
    then show ?thesis using i by auto
  qed
qed

text \<open>A walk either does all of its steps or stops at one with \<open>FNOSPACE\<close>.\<close>

lemmas walk_induct = walk_from [where i = 0, OF _ _ le0]

lemma walk_total:
  assumes step: "\<And>i s. i < n \<Longrightarrow> I i s \<Longrightarrow>
      \<exists>s'. f (cpos ss i) (int (occ_no ss i)) s = (Ret 0, s') \<and> I (Suc i) s'"
    and "I i s" "i \<le> n"
  shows "\<exists>s'. walk f ss [i..<n] s = (Ret 0, s') \<and> I n s'"
  using assms(2,3)
proof (induction "n - i" arbitrary: i s)
  case 0
  then show ?case by simp
next
  case (Suc k)
  then have i: "i < n" "[i..<n] = i # [Suc i..<n]" by (simp_all add: upt_conv_Cons)
  obtain s' where s': "f (cpos ss i) (int (occ_no ss i)) s = (Ret 0, s')" "I (Suc i) s'"
    using step [OF i(1) Suc.prems(1)] by blast
  have "\<exists>t. walk f ss [Suc i..<n] s' = (Ret 0, t) \<and> I n t"
    by (rule Suc.hyps(1)) (use Suc.hyps(2) i s' in simp_all)
  then show ?case using s'(1) i(2) by simp
qed

lemma as_rc_not_1: "as_rc x = (Ret r, s) \<Longrightarrow> r \<noteq> 1"
  by (auto simp: as_rc_def split: outcome.splits)

lemma chg_from_not_1: "chg_from src p oc dest = (Ret r, s) \<Longrightarrow> r \<noteq> 1"
  by (auto simp: chg_from_def dest: as_rc_not_1)

lemma occs_take_Suc:
  assumes "i < length ss"
  shows "occs (take (Suc i) ss) = (occs (take i ss))(cid (ss ! i) := occs (take i ss) (cid (ss ! i)) @ [cval (ss ! i)])"
  using assms by (auto simp: take_Suc_conv_app_nth occs_def same_id_def fun_eq_iff)

lemma occs_Nil [simp]: "occs [] g = []"
  by (simp add: occs_def same_id_def)

lemma occ_no_occs: "occ_no ss i = length (occs (take i ss) (cid (ss ! i)))"
  by (simp add: occ_no_def length_occs)

subsection \<open>update\<close>

text \<open>\<open>new\<close> overwrites \<open>old\<close> from the front.\<close>

definition overlay :: "'a list \<Rightarrow> 'a list \<Rightarrow> 'a list" where
  "overlay new old = new @ drop (length new) old"

lemma overlay_Nil [simp]: "overlay [] xs = xs"
  by (simp add: overlay_def)

lemma overlay_step:
  "change_list (overlay xs old) (int (length xs)) x d = overlay (xs @ [x]) old"
proof (cases "length xs < length old")
  case True
  then have "drop (length xs) old = old ! length xs # drop (Suc (length xs)) old"
    by (simp add: Cons_nth_drop_Suc)
  then show ?thesis using True by (simp add: change_list_def overlay_def)
next
  case False
  then show ?thesis by (simp add: change_list_def overlay_def)
qed

lemma length_overlay: "length xs \<le> length (overlay xs old)"
  by (simp add: overlay_def)

text \<open>One step: \<open>chg\<close> with the next value of the source, on occurrences known so far.\<close>

lemma chg_from_becomes:
  assumes "rep src ss" "i < length ss" "becomes dest0 dest f"
    and "oc \<le> int (length (f (cid (ss ! i))))"
  shows "(\<exists>s'. chg_from src (cpos ss i) oc dest = (Ret 0, s') \<and>
            becomes dest0 s' (f(cid (ss ! i) := change_list (f (cid (ss ! i))) oc (cval (ss ! i)) []))) \<or>
         (\<exists>s'. chg_from src (cpos ss i) oc dest = (Err FNOSPACE, s') \<and> becomes dest0 s' f)"
proof -
  obtain cs where cs: "rep dest cs" "occs cs = f" using assms(3) by (auto simp: becomes_def)
  note c = chg_from_near [OF assms(1,2) cs(1), of oc, unfolded cs(2), OF assms(4)]
  show ?thesis
  proof (cases "int (blen dest) + chg_need cs (cid (ss ! i)) oc (length (cval (ss ! i))) \<le> int (bsize dest)")
    case True
    then show ?thesis using c(2) becomes_trans [OF assms(3)] by blast
  next
    case False
    then show ?thesis using c(1) assms(3) by simp
  qed
qed

definition updated :: "chunk list \<Rightarrow> chunk list \<Rightarrow> fldid \<Rightarrow> byte list list" where
  "updated ss cs = (\<lambda>g. overlay (occs ss g) (occs cs g))"

lemma rep_update:
  assumes "rep src ss" "rep dest cs" "\<forall>c \<in> set ss. cid c \<noteq> BADFLDID"
  shows "\<exists>dest'. (fb_update src dest = Some (Ret 0, dest') \<and> becomes dest dest' (updated ss cs)) \<or>
           (fb_update src dest = Some (Err FNOSPACE, dest') \<and>
              (\<exists>j < length ss. becomes dest dest' (updated (take j ss) cs)))"
proof -
  let ?I = "\<lambda>i s. becomes dest s (updated (take i ss) cs)"
  have step: "(\<exists>s'. chg_from src (cpos ss i) (int (occ_no ss i)) s = (Ret 0, s') \<and> ?I (Suc i) s') \<or>
      (\<exists>s'. chg_from src (cpos ss i) (int (occ_no ss i)) s = (Err FNOSPACE, s') \<and> ?I i s')"
    if "i < length ss" "?I i s" for i s
  proof -
    let ?f = "updated (take i ss) cs" and ?c = "ss ! i"
    have le: "int (occ_no ss i) \<le> int (length (?f (cid ?c)))"
      by (simp add: occ_no_occs updated_def length_overlay)
    have eq: "?f(cid ?c := change_list (?f (cid ?c)) (int (occ_no ss i)) (cval ?c) []) =
        updated (take (Suc i) ss) cs"
      by (intro ext) (simp add: overlay_step occ_no_occs updated_def occs_take_Suc [OF that(1)])
    show ?thesis using chg_from_becomes [OF assms(1) that le] unfolding eq .
  qed
  have "becomes dest dest (updated (take 0 ss) cs)"
    using becomes_refl [OF assms(2)] by (simp add: updated_def)
  from walk_induct [where f = "\<lambda>p oc s. chg_from src p oc s" and I = ?I, OF step this]
  obtain s' where "(walk (\<lambda>p oc s. chg_from src p oc s) ss [0..<length ss] dest = (Ret 0, s') \<and> ?I (length ss) s') \<or>
     (walk (\<lambda>p oc s. chg_from src p oc s) ss [0..<length ss] dest = (Err FNOSPACE, s') \<and>
        (\<exists>j < length ss. ?I j s'))"
    by blast
  moreover have "fb_update src dest = Some (walk (\<lambda>p oc s. chg_from src p oc s) ss [0..<length ss] dest)"
    unfolding fb_update_def by (rule iterate_walk [OF assms(1,3)]) (rule chg_from_not_1)
  ultimately show ?thesis by auto
qed

subsection \<open>ojoin\<close>

lemma rep_pres_becomes:
  "becomes d s f \<Longrightarrow> valid_id fid \<Longrightarrow> fb_pres fid oc s \<longleftrightarrow> 0 \<le> oc \<and> oc < int (length (f fid))"
  by (auto simp: becomes_def rep_pres)

text \<open>The occurrences that exist are overwritten, none is added.\<close>

definition ojoined :: "chunk list \<Rightarrow> chunk list \<Rightarrow> fldid \<Rightarrow> byte list list" where
  "ojoined ss cs = (\<lambda>g. take (length (occs cs g)) (overlay (occs ss g) (occs cs g)))"

lemma ojoin_step:
  fixes xs old :: "'a list"
  defines "cur \<equiv> take (length old) (overlay xs old)"
  shows "length xs < length cur \<Longrightarrow>
           change_list cur (int (length xs)) x d = take (length old) (overlay (xs @ [x]) old)"
    "\<not> length xs < length cur \<Longrightarrow> cur = take (length old) (overlay (xs @ [x]) old)"
proof -
  have l: "length xs < length cur \<longleftrightarrow> length xs < length old"
    by (auto simp: cur_def overlay_def)
  show "change_list cur (int (length xs)) x d = take (length old) (overlay (xs @ [x]) old)"
    if "length xs < length cur"
  proof -
    have o: "length xs < length old" using that l by simp
    then have "cur = overlay xs old" by (simp add: cur_def overlay_def)
    moreover have "take (length old) (overlay (xs @ [x]) old) = overlay (xs @ [x]) old"
      using o by (simp add: overlay_def)
    ultimately show ?thesis by (simp add: overlay_step)
  qed
  show "cur = take (length old) (overlay (xs @ [x]) old)" if "\<not> length xs < length cur"
    using that l by (auto simp: cur_def overlay_def)
qed

lemma rep_ojoin:
  assumes "rep src ss" "rep dest cs" "\<forall>c \<in> set ss. cid c \<noteq> BADFLDID"
  shows "\<exists>dest'. (fb_ojoin src dest = Some (Ret 0, dest') \<and> becomes dest dest' (ojoined ss cs)) \<or>
           (fb_ojoin src dest = Some (Err FNOSPACE, dest') \<and>
              (\<exists>j < length ss. becomes dest dest' (ojoined (take j ss) cs)))"
proof -
  let ?I = "\<lambda>i s. becomes dest s (ojoined (take i ss) cs)"
  let ?f = "\<lambda>p oc s. if fb_pres (id_at (bdata src) p) oc s then chg_from src p oc s else (Ret 0, s)"
  have step: "(\<exists>s'. ?f (cpos ss i) (int (occ_no ss i)) s = (Ret 0, s') \<and> ?I (Suc i) s') \<or>
      (\<exists>s'. ?f (cpos ss i) (int (occ_no ss i)) s = (Err FNOSPACE, s') \<and> ?I i s')"
    if "i < length ss" "?I i s" for i s
  proof -
    let ?g = "ojoined (take i ss) cs" and ?c = "ss ! i"
    let ?oc = "occ_no ss i"
    have id: "id_at (bdata src) (cpos ss i) = cid ?c" by (rule rep_id_at [OF assms(1) that(1)])
    have pres: "fb_pres (cid ?c) (int ?oc) s \<longleftrightarrow> ?oc < length (?g (cid ?c))"
      using rep_pres_becomes [OF that(2) valid_cid [OF assms(1) that(1)]] by simp
    show ?thesis
    proof (cases "?oc < length (?g (cid ?c))")
      case True
      have "?g(cid ?c := change_list (?g (cid ?c)) (int ?oc) (cval ?c) []) = ojoined (take (Suc i) ss) cs"
        using ojoin_step(1) [of "occs (take i ss) (cid ?c)" "occs cs (cid ?c)"] True
        by (intro ext) (simp add: occ_no_occs ojoined_def occs_take_Suc [OF that(1)])
      then show ?thesis
        using chg_from_becomes [OF assms(1) that, of "int ?oc"] True pres by (simp add: id)
    next
      case False
      have "?g = ojoined (take (Suc i) ss) cs"
        using ojoin_step(2) [of "occs (take i ss) (cid ?c)" "occs cs (cid ?c)"] False
        by (intro ext) (simp add: occ_no_occs ojoined_def occs_take_Suc [OF that(1)])
      then show ?thesis using False pres that(2) by (simp add: id)
    qed
  qed
  have "becomes dest dest (ojoined (take 0 ss) cs)"
    using becomes_refl [OF assms(2)] by (simp add: ojoined_def)
  from walk_induct [where f = ?f and I = ?I, OF step this]
  obtain s' where "(walk ?f ss [0..<length ss] dest = (Ret 0, s') \<and> ?I (length ss) s') \<or>
     (walk ?f ss [0..<length ss] dest = (Err FNOSPACE, s') \<and> (\<exists>j < length ss. ?I j s'))"
    by blast
  moreover have "fb_ojoin src dest = Some (walk ?f ss [0..<length ss] dest)"
    unfolding fb_ojoin_def
    by (rule iterate_walk [OF assms(1,3)]) (auto split: if_splits dest: chg_from_not_1)
  ultimately show ?thesis by auto
qed

subsection \<open>concat\<close>

lemma rep_occur_becomes: "becomes d s f \<Longrightarrow> valid_id fid \<Longrightarrow> fb_occur fid s = int (length (f fid))"
  by (auto simp: becomes_def rep_occur)

definition appended :: "chunk list \<Rightarrow> chunk list \<Rightarrow> fldid \<Rightarrow> byte list list" where
  "appended ss cs = (\<lambda>g. occs cs g @ occs ss g)"

lemma append_step: "change_list xs (int (length xs)) x d = xs @ [x]"
  by (simp add: change_list_def)

lemma rep_concat:
  assumes "rep src ss" "rep dest cs" "\<forall>c \<in> set ss. cid c \<noteq> BADFLDID"
    and room: "blen dest + blen src + min_size \<le> bsize dest"
  shows "\<exists>dest'. fb_concat src dest = Some (Ret 0, dest') \<and> becomes dest dest' (appended ss cs) \<and>
           blen dest' = blen dest + blen src"
proof -
  let ?I = "\<lambda>i s. becomes dest s (appended (take i ss) cs) \<and> blen s = blen dest + cpos ss i"
  let ?f = "\<lambda>p oc s. chg_from src p (fb_occur (id_at (bdata src) p) s) s"
  have step: "\<exists>s'. ?f (cpos ss i) (int (occ_no ss i)) s = (Ret 0, s') \<and> ?I (Suc i) s'"
    if "i < length ss" "?I i s" for i s
  proof -
    let ?g = "appended (take i ss) cs" and ?c = "ss ! i"
    note prem = that
    obtain ds where ds: "rep s ds" "occs ds = ?g" and sz: "bsize s = bsize dest"
      using prem(2) by (auto simp: becomes_def)
    have id: "id_at (bdata src) (cpos ss i) = cid ?c" by (rule rep_id_at [OF assms(1) that(1)])
    have oc: "fb_occur (cid ?c) s = int (length (occs ds (cid ?c)))"
      by (rule rep_occur [OF ds(1) valid_cid [OF assms(1) that(1)]])
    have need: "chg_need ds (cid ?c) (int (length (occs ds (cid ?c)))) (length (cval ?c)) = int (length ?c)"
      using field_size_chunk [OF rep_wf [OF assms(1) that(1)]]
      by (simp add: chg_need_def old_size_def length_occs)
    have "cpos ss (Suc i) \<le> blen src" by (rule rep_cpos_le [OF assms(1)])
    then have fit: "int (blen s) + int (length ?c) \<le> int (bsize s)"
      using that(2) room sz cpos_Suc [OF that(1)] by simp
    obtain s' where s': "chg_from src (cpos ss i) (int (length (occs ds (cid ?c)))) s = (Ret 0, s')"
      "int (blen s') = int (blen s) + int (length ?c)"
      "becomes s s' ((occs ds)(cid ?c := change_list (occs ds (cid ?c)) (int (length (occs ds (cid ?c)))) (cval ?c) []))"
      using chg_from_near(2) [OF assms(1) prem(1) ds(1) order_refl] need fit by auto
    have "(occs ds)(cid ?c := change_list (occs ds (cid ?c)) (int (length (occs ds (cid ?c)))) (cval ?c) []) =
        appended (take (Suc i) ss) cs"
      unfolding append_step ds(2)
      by (intro ext) (simp add: appended_def occs_take_Suc [OF that(1)])
    then have "becomes dest s' (appended (take (Suc i) ss) cs)"
      using becomes_trans [OF _ s'(3)] that(2) by auto
    then show ?thesis
      using s'(1,2) that(2) cpos_Suc [OF that(1)] by (intro exI [of _ s']) (simp add: id oc)
  qed
  have "?I 0 dest"
    using becomes_refl [OF assms(2)] by (simp add: appended_def)
  from walk_total [where f = ?f and I = ?I and i = 0 and n = "length ss", OF step this]
  obtain s' where "walk ?f ss [0..<length ss] dest = (Ret 0, s')" "?I (length ss) s'" by auto
  moreover have "iterate_all (\<lambda>_. src) ?f dest = Some (walk ?f ss [0..<length ss] dest)"
    by (rule iterate_walk [OF assms(1,3)]) (rule chg_from_not_1)
  moreover have "\<not> fb_unused dest < fb_used src"
  proof -
    have "blen dest \<le> bsize dest" "bsize dest < 2 ^ 32" using assms(2) by (simp_all add: rep_def)
    then have "fb_unused dest = bsize dest - blen dest"
      using u32_of_nat [of "bsize dest - blen dest"] by (simp add: fb_unused_def of_nat_diff)
    then show ?thesis using room by (simp add: fb_used_def)
  qed
  ultimately show ?thesis
    using rep_blen [OF assms(1)] by (auto simp: fb_concat_def cpos_length)
qed

end
