(* ===== verification/Fml_Whole.thy ===== *)
theory Fml_Whole
  imports Fml_Walk
begin

text \<open>
  Operations on whole buffers: initialisation, projection copy, copying, and writing to
  and reading back from a stream. \<open>mk_buffer\<close> builds a buffer from a field sequence, so
  that the representation relation has concrete instances.
\<close>

subsection \<open>Construction and initialisation\<close>

definition mk_buffer :: "nat \<Rightarrow> chunk list \<Rightarrow> fbfr" where
  "mk_buffer sz cs =
     \<lparr>bsize = sz, blen = length (concat cs), boffs = map (off_of cs) [0..<max_offset],
      bpad = [0, 0, 0, 0],
      bdata = (\<lambda>i. if i < length (concat cs) then concat cs ! i else 0)\<rparr>"

lemma rep_mk_buffer:
  assumes "\<forall>c \<in> set cs. wf_chunk c" "sorted (map cid cs)" "length (concat cs) \<le> sz"
    "sz + min_size < 2 ^ 32"
  shows "rep (mk_buffer sz cs) cs"
proof -
  have "rd 0 (length (concat cs)) (\<lambda>i. if i < length (concat cs) then concat cs ! i else 0) = concat cs"
    by (rule nth_equalityI) simp_all
  then show ?thesis
    using assms by (simp add: rep_def mk_buffer_def del: length_concat upt_rec_numeral)
qed

lemma rep_empty:
  assumes "blen b = 0" "boffs b = replicate max_offset 0" "length (bpad b) = 4"
    "bsize b + min_size < 2 ^ 32"
  shows "rep b []"
proof -
  have "map (off_of []) [0..<max_offset] = replicate max_offset 0"
    by (rule nth_equalityI) (simp_all add: off_of_def del: upt_rec_numeral)
  then show ?thesis using assms by (simp add: rep_def del: upt_rec_numeral)
qed

lemma rep_init:
  assumes "min_size \<le> n" "n < 2 ^ 32" "length (bpad b) = 4"
  shows "fst (fb_init n b) = Ret ()" "rep (snd (fb_init n b)) []" "bsize (snd (fb_init n b)) = n - min_size"
    "bdata (snd (fb_init n b)) = bdata b"
proof -
  have "u32 (int n - int min_size) = n - min_size"
    using assms u32_of_nat [of "n - min_size"] by (simp add: of_nat_diff)
  then show "fst (fb_init n b) = Ret ()" "rep (snd (fb_init n b)) []"
    "bsize (snd (fb_init n b)) = n - min_size" "bdata (snd (fb_init n b)) = bdata b"
    using assms by (auto simp: fb_init_def intro!: rep_empty)
qed

lemma occs_Nil_fun: "occs [] = (\<lambda>g. [])"
  by (rule ext) simp

subsection \<open>projcpy\<close>

definition projected :: "fldid set \<Rightarrow> chunk list \<Rightarrow> fldid \<Rightarrow> byte list list" where
  "projected ids cs = (\<lambda>g. if g \<in> ids then occs cs g else [])"

lemma set_fb_sort: "set (fb_sort fieldids) = set (takeWhile (\<lambda>f. f \<noteq> BADFLDID) fieldids)"
  by (simp add: fb_sort_def)

lemma rep_projcpy:
  fixes fieldids :: "fldid list"
  assumes "rep src ss" "rep dest cs" "\<forall>c \<in> set ss. cid c \<noteq> BADFLDID"
  defines "ids \<equiv> set (takeWhile (\<lambda>f. f \<noteq> BADFLDID) fieldids)"
  shows "\<exists>dest'. (fb_projcpy src fieldids dest = Some (Ret 0, dest') \<and> becomes dest dest' (projected ids ss)) \<or>
           (fb_projcpy src fieldids dest = Some (Err FNOSPACE, dest') \<and>
              (\<exists>j < length ss. becomes dest dest' (projected ids (take j ss))))"
proof -
  let ?d0 = "snd (fb_init (u32 (int (fb_size dest))) dest)"
  let ?I = "\<lambda>i s. becomes dest s (projected ids (take i ss))"
  let ?f = "\<lambda>p oc s. let fid = id_at (bdata src) p
                     in if fid \<in> set (fb_sort fieldids) then chg_from src p (fb_occur fid s) s else (Ret 0, s)"
  have sz: "bsize dest + min_size < 2 ^ 32" and pad: "length (bpad dest) = 4"
    using assms(2) by (simp_all add: rep_def)
  have u: "u32 (int (fb_size dest)) = fb_size dest"
    unfolding fb_size_def by (rule u32_of_nat [OF sz])
  have init: "rep ?d0 []" "bsize ?d0 = bsize dest" "bdata ?d0 = bdata dest"
    using rep_init(2-4) [of "fb_size dest" dest] sz pad unfolding u by (simp_all add: fb_size_def)
  have step: "(\<exists>s'. ?f (cpos ss i) (int (occ_no ss i)) s = (Ret 0, s') \<and> ?I (Suc i) s') \<or>
      (\<exists>s'. ?f (cpos ss i) (int (occ_no ss i)) s = (Err FNOSPACE, s') \<and> ?I i s')"
    if "i < length ss" "?I i s" for i s
  proof -
    let ?g = "projected ids (take i ss)" and ?c = "ss ! i"
    have id: "id_at (bdata src) (cpos ss i) = cid ?c" by (rule rep_id_at [OF assms(1) that(1)])
    show ?thesis
    proof (cases "cid ?c \<in> ids")
      case True
      have oc: "fb_occur (cid ?c) s = int (length (?g (cid ?c)))"
        by (rule rep_occur_becomes [OF that(2) valid_cid [OF assms(1) that(1)]])
      have "?g(cid ?c := change_list (?g (cid ?c)) (int (length (?g (cid ?c)))) (cval ?c) []) =
          projected ids (take (Suc i) ss)"
        unfolding append_step
        using True by (intro ext) (simp add: projected_def occs_take_Suc [OF that(1)])
      then show ?thesis
        using chg_from_becomes [OF assms(1) that order_refl] True
        by (simp add: id oc set_fb_sort ids_def)
    next
      case False
      then have "?g = projected ids (take (Suc i) ss)"
        by (intro ext) (auto simp: projected_def occs_take_Suc [OF that(1)])
      then show ?thesis using False that(2) by (simp add: id set_fb_sort ids_def)
    qed
  qed
  have "?I 0 ?d0"
    using becomes_refl [OF init(1)] init by (simp add: becomes_def projected_def occs_Nil_fun cong: if_cong)
  from walk_induct [where f = ?f and I = ?I and n = "length ss", OF step this]
  obtain s' where "(walk ?f ss [0..<length ss] ?d0 = (Ret 0, s') \<and> ?I (length ss) s') \<or>
     (walk ?f ss [0..<length ss] ?d0 = (Err FNOSPACE, s') \<and> (\<exists>j < length ss. ?I j s'))"
    by blast
  moreover have "fb_projcpy src fieldids dest = Some (walk ?f ss [0..<length ss] ?d0)"
    unfolding fb_projcpy_def Let_def
    by (rule iterate_walk [OF assms(1,3)]) (auto split: if_splits dest: chg_from_not_1)
  ultimately show ?thesis by auto
qed

subsection \<open>cpy\<close>

lemma rep_cpy:
  assumes "rep src ss" "fb_used src \<le> fb_size dest" "bsize dest + min_size < 2 ^ 32"
    "length (bpad dest) = 4"
  shows "fst (fb_cpy src dest) = Ret ()" "rep (snd (fb_cpy src dest)) ss"
    "bsize (snd (fb_cpy src dest)) = bsize dest"
    "\<And>i. bsize dest \<le> i \<Longrightarrow> bdata (snd (fb_cpy src dest)) i = bdata dest i"
proof -
  have cs: "length (concat ss) = blen src" using rep_blen [OF assms(1)] by simp
  then show "fst (fb_cpy src dest) = Ret ()" "rep (snd (fb_cpy src dest)) ss"
    "bsize (snd (fb_cpy src dest)) = bsize dest"
    "\<And>i. bsize dest \<le> i \<Longrightarrow> bdata (snd (fb_cpy src dest)) i = bdata dest i"
    using assms
    by (auto simp: fb_cpy_def rep_def fb_used_def fb_size_def rd_wr_same
        simp del: length_concat upt_rec_numeral intro!: wr_outside)
qed

subsection \<open>Streams\<close>

lemma u32_bytes_dec: "n < 2 ^ 32 \<Longrightarrow> unat (dec32 (u32_bytes n)) = n"
  by (simp add: u32_bytes_def unat_of_nat)

lemma length_u32_bytes [simp]: "length (u32_bytes n) = 4"
  by (simp add: u32_bytes_def)

lemma length_header_bytes: "length (header_bytes offs) = 4 * length offs"
  by (induction offs) (simp_all add: header_bytes_def)

lemma header_nth:
  "k < length offs \<Longrightarrow> take 4 (drop (4 * k) (header_bytes offs @ ys)) = u32_bytes (offs ! k)"
proof (induction offs arbitrary: k)
  case Nil
  then show ?case by simp
next
  case (Cons n offs)
  then show ?case
  proof (cases k)
    case 0
    then show ?thesis by (simp add: header_bytes_def)
  next
    case (Suc j)
    have "drop (4 * Suc j) (header_bytes (n # offs) @ ys) = drop (4 * j) (header_bytes offs @ ys)"
      by (simp add: header_bytes_def)
    then show ?thesis using Cons Suc by simp
  qed
qed

lemma header_roundtrip:
  assumes "length offs = max_offset" "\<forall>n \<in> set offs. n < 2 ^ 32"
  shows "header_of (header_bytes offs) = offs"
proof (rule nth_equalityI)
  show "length (header_of (header_bytes offs)) = length offs"
    using assms(1) by (simp add: header_of_def del: upt_rec_numeral)
  fix k assume "k < length (header_of (header_bytes offs))"
  then have k: "k < max_offset" by (simp add: header_of_def del: upt_rec_numeral)
  then show "header_of (header_bytes offs) ! k = offs ! k"
    using header_nth [of k offs "[]"] assms
    by (simp add: header_of_def u32_bytes_dec del: upt_rec_numeral)
qed

lemma rep_offs_bound:
  assumes "rep b cs"
  shows "length (boffs b) = max_offset" "\<forall>n \<in> set (boffs b). n < 2 ^ 32"
proof -
  show "length (boffs b) = max_offset" using assms by (simp add: rep_def del: upt_rec_numeral)
  have "length (concat cs) < 2 ^ 32" using assms rep_blen [OF assms] by (simp add: rep_def)
  then have "off_of cs k < 2 ^ 32" for k using off_of_le [of cs k] by linarith
  then show "\<forall>n \<in> set (boffs b). n < 2 ^ 32"
    using assms by (auto simp: rep_def simp del: upt_rec_numeral)
qed

text \<open>What is written is the used size less the \<open>size_\<close> field.\<close>

lemma rep_write:
  assumes "rep b cs" "fb_used b - 4 \<le> room"
  shows "fb_write room b = (Ret (), u32_bytes (blen b) @ header_bytes (boffs b) @ bpad b @ concat cs)"
    "length (snd (fb_write room b)) = fb_used b - 4"
proof -
  have rd: "rd 0 (blen b) (bdata b) = concat cs" and pad: "length (bpad b) = 4"
    using assms(1) by (simp_all add: rep_def)
  have "min room (fb_used b - 4) = fb_used b - 4" using assms(2) by simp
  then show w: "fb_write room b = (Ret (), u32_bytes (blen b) @ header_bytes (boffs b) @ bpad b @ concat cs)"
    by (simp add: fb_write_def Let_def rd)
  have "length (concat cs) = blen b" using rep_blen [OF assms(1)] by simp
  then show "length (snd (fb_write room b)) = fb_used b - 4"
    using rep_offs_bound(1) [OF assms(1)] pad
    by (simp add: w length_header_bytes fb_used_def del: length_concat)
qed

lemma rep_read_write:
  assumes "rep b cs" "fb_used b - 4 \<le> room" "blen b \<le> bsize dest" "bsize dest + min_size < 2 ^ 32"
    "length (boffs dest) = max_offset" "length (bpad dest) = 4"
  shows "\<exists>dest'. fb_read (snd (fb_write room b) @ rest) dest = (Ret (), dest', rest) \<and> rep dest' cs \<and>
           bsize dest' = bsize dest \<and> (\<forall>i \<ge> bsize dest. bdata dest' i = bdata dest i)"
proof -
  let ?h = "header_bytes (boffs b)"
  have out: "snd (fb_write room b) = u32_bytes (blen b) @ ?h @ bpad b @ concat cs"
    using rep_write(1) [OF assms(1,2)] by simp
  have pad: "length (bpad b) = 4" using assms(1) by (simp add: rep_def)
  have bl: "blen b < 2 ^ 32" using assms(3,4) by simp
  have h: "length ?h = 28" using rep_offs_bound(1) [OF assms(1)] by (simp add: length_header_bytes)
  have cs: "length (concat cs) = blen b" using rep_blen [OF assms(1)] by simp
  let ?d = "dest\<lparr>blen := blen b, boffs := boffs b, bpad := bpad b, bdata := wr 0 (concat cs) (bdata dest)\<rparr>"
  have hn: "take 4 (drop (4 * k) (?h @ bpad b)) = take 4 (drop (4 * k) ?h)" if "k < max_offset" for k
    using header_nth [of k "boffs b"] rep_offs_bound(1) [OF assms(1)] that by (metis append_Nil2)
  have "header_of (?h @ bpad b) = header_of ?h"
    unfolding header_of_def by (rule map_cong [OF refl]) (simp only: set_upt atLeastLessThan_iff hn)
  then have hd: "header_of (?h @ bpad b) = boffs b"
    using header_roundtrip [OF rep_offs_bound [OF assms(1)]] by simp
  have "fb_read (snd (fb_write room b) @ rest) dest = (Ret (), ?d, rest)"
    using assms(3) bl h cs hd pad length_header_bytes [of "boffs dest"] assms(5,6)
    by (simp add: fb_read_def out Let_def u32_bytes_dec fb_used_def del: length_concat)
  moreover have "rep ?d cs"
    using assms(1,3,4) cs by (simp add: rep_def rd_wr_same del: length_concat upt_rec_numeral)
  ultimately show ?thesis
    using assms(3) cs by (intro exI [of _ ?d]) (auto simp del: length_concat intro!: wr_outside)
qed

lemma read_too_big:
  assumes "rep b cs" "fb_used b - 4 \<le> room" "bsize dest < blen b"
  shows "fst (fb_read (snd (fb_write room b) @ rest) dest) = Err FNOSPACE"
    "fst (snd (fb_read (snd (fb_write room b) @ rest) dest)) = dest"
proof -
  have bl: "blen b < 2 ^ 32" using assms(1) by (simp add: rep_def)
  show "fst (fb_read (snd (fb_write room b) @ rest) dest) = Err FNOSPACE"
    "fst (snd (fb_read (snd (fb_write room b) @ rest) dest)) = dest"
    using rep_write(1) [OF assms(1,2)] assms(3) bl
    by (simp_all add: fb_read_def Let_def u32_bytes_dec)
qed

end
