(* ===== verification/Fml_Prune.thy ===== *)
theory Fml_Prune
  imports Fml_Whole
begin

text \<open>
  The operations that delete while they walk: \<open>xdelete\<close> and \<open>proj\<close> end and keep exactly
  the fields they should when all fields have one type; \<open>join\<close> does not end on a
  destination with two occurrences that the source lacks.
\<close>

subsection \<open>Deleting while walking\<close>

definition prune_step :: "(fldid \<Rightarrow> bool) \<Rightarrow> nat \<Rightarrow> int \<Rightarrow> fbfr \<Rightarrow> int outcome \<times> fbfr" where
  "prune_step P p oc s =
     (let fid = id_at (bdata s) p in if P fid then (Ret 1, snd (fb_delall fid s)) else (Ret 0, s))"

definition one_type :: "chunk list \<Rightarrow> int \<Rightarrow> bool" where
  "one_type cs t \<longleftrightarrow> (\<forall>c \<in> set cs. ctype c = t)"

lemma below_prefix:
  assumes "rep s ds" "i < length ds" "\<forall>j < i. cid (ds ! j) \<noteq> cid (ds ! i)"
  shows "length (below (cid (ds ! i)) ds) = i"
proof -
  let ?fid = "cid (ds ! i)" and ?n = "length (below (cid (ds ! i)) ds)"
  have ds: "ds = below ?fid ds @ same_id ?fid ds @ above ?fid ds"
    by (rule split_sorted [OF sorted_cid [OF assms(1)]])
  have "?n \<le> i"
  proof (rule ccontr)
    assume "\<not> ?n \<le> i"
    then have "ds ! i = below ?fid ds ! i" by (subst ds) (simp add: nth_append)
    moreover have "below ?fid ds ! i \<in> set (below ?fid ds)" using \<open>\<not> ?n \<le> i\<close> by simp
    ultimately show False by (simp add: below_def)
  qed
  moreover have "\<not> ?n < i"
  proof
    assume lt: "?n < i"
    have "cid (ds ! i) = ?fid" by simp
    then have "i < ?n + length (same_id ?fid ds)"
      using cid_in_run [OF assms(1) \<open>?n \<le> i\<close> assms(2)] by simp
    then have "cid (ds ! ?n) = ?fid"
      using cid_in_run [OF assms(1) order_refl, of ?fid] lt assms(2) by auto
    then show False using assms(3) lt by blast
  qed
  ultimately show ?thesis by simp
qed

lemma rep_delall_at:
  assumes "rep s ds" "i < length ds" "\<forall>j < i. cid (ds ! j) \<noteq> cid (ds ! i)" "one_type ds t"
  defines "fid \<equiv> cid (ds ! i)"
  defines "ds' \<equiv> take i ds @ drop (run_end ds fid) ds"
  shows "rep (snd (fb_delall fid s)) ds'" "becomes s (snd (fb_delall fid s)) ((occs ds)(fid := []))"
    "i < run_end ds fid" "run_end ds fid \<le> length ds" "one_type ds' t"
proof -
  have i: "length (below fid ds) = i" unfolding fid_def by (rule below_prefix [OF assms(1-3)])
  have v: "valid_id fid" unfolding fid_def by (rule valid_cid [OF assms(1,2)])
  have "i < length (below fid ds) + length (same_id fid ds)"
    using cid_in_run [OF assms(1) _ assms(2), of fid] i by (simp add: fid_def)
  then have "0 < length (occs ds fid)" using i by (simp add: length_occs)
  then have ne: "occs ds fid \<noteq> []" by auto
  have nt: "next_has_type ds (run_end ds fid) (Fldtype32 fid)"
    using assms(2,4) by (auto simp: next_has_type_def one_type_def fid_def ctype_def)
  note d = rep_delall_some [OF assms(1) v ne, unfolded i]
  have run: "ctype (ds ! k) = Fldtype32 fid" if "i \<le> k" "k < run_end ds fid" for k
    using run_type [OF assms(1)] that i by simp
  note e = rep_erase [OF assms(1) d(2,3) run nt]
  show "rep (snd (fb_delall fid s)) ds'" using d(1) e(1) by (simp add: ds'_def)
  obtain b' cs' where "fb_delall fid s = (Ret (), b')" "rep b' cs'" "bsize b' = bsize s"
    "\<forall>p \<ge> blen s. bdata b' p = bdata s p" "occs cs' = (occs ds)(fid := [])"
    using rep_delall [OF assms(1) v ne nt] by blast
  moreover have "blen s \<le> bsize s" using assms(1) by (simp add: rep_def)
  ultimately show "becomes s (snd (fb_delall fid s)) ((occs ds)(fid := []))"
    by (auto simp: becomes_def)
  show "i < run_end ds fid" "run_end ds fid \<le> length ds" using d(2,3) by auto
  show "one_type ds' t"
    using assms(4) by (auto simp: one_type_def ds'_def dest: in_set_takeD in_set_dropD)
qed

lemma iterate_prune:
  assumes "rep s ds" "one_type ds t" "i \<le> length ds" "\<forall>j < i. \<not> P (cid (ds ! j))"
    "it = Some (cpos ds i) \<or> it = pos_opt ds i"
  shows "\<exists>s'. fb_iterate (\<lambda>s. s) (prune_step P) it (blen s) prev oc s = Some (Ret 0, s') \<and>
           becomes s s' (\<lambda>g. if P g then [] else occs ds g)"
  using assms
proof (induction "length ds - i" arbitrary: i ds s it prev oc rule: less_induct)
  case less
  show ?case
  proof (cases "i < length ds")
    case False
    have "\<not> P (cid c)" if "c \<in> set ds" for c
      using that False less.prems(4) by (auto simp: in_set_conv_nth)
    then have "same_id g ds = []" if "P g" for g
      using that by (auto simp: same_id_def filter_empty_conv)
    then have f: "(\<lambda>g. if P g then [] else occs ds g) = occs ds" by (auto simp: occs_def fun_eq_iff)
    have "cpos ds i = blen s" using False less.prems(3) by (simp add: cpos_length rep_blen [OF less.prems(1)])
    then have "fb_iterate (\<lambda>s. s) (prune_step P) it (blen s) prev oc s = Some (Ret 0, s)"
      using less.prems(5) False by (auto simp: fb_iterate.simps pos_opt_def)
    then show ?thesis unfolding f using becomes_refl [OF less.prems(1)] by blast
  next
    case True
    let ?fid = "cid (ds ! i)"
    have it: "it = Some (cpos ds i)" using less.prems(5) True by (auto simp: pos_opt_def)
    have below_end: "cpos ds i < blen s"
      using cpos_less_iff [OF rep_nonempty [OF less.prems(1)], of i "length ds"] True
      by (simp add: rep_blen [OF less.prems(1)] cpos_length)
    have id: "id_at (bdata s) (cpos ds i) = ?fid" by (rule rep_id_at [OF less.prems(1) True])
    show ?thesis
    proof (cases "P ?fid")
      case False
      have "\<forall>j < Suc i. \<not> P (cid (ds ! j))" using less.prems(4) False by (simp add: less_Suc_eq)
      moreover have "length ds - Suc i < length ds - i" "Suc i \<le> length ds" using True by simp_all
      ultimately have "\<exists>s'. fb_iterate (\<lambda>s. s) (prune_step P) (pos_opt ds (Suc i)) (blen s) ?fid
          (if ?fid \<noteq> prev then 0 else oc + 1) s = Some (Ret 0, s') \<and>
        becomes s s' (\<lambda>g. if P g then [] else occs ds g)"
        using less.hyps [OF _ less.prems(1,2), of "Suc i" "pos_opt ds (Suc i)"] by blast
      then show ?thesis
        using it below_end False
        by (simp add: fb_iterate.simps [of _ _ "Some (cpos ds i)"] Let_def prune_step_def id
            rep_next_opt [OF less.prems(1) True])
    next
      case del: True
      have "\<forall>j < i. cid (ds ! j) \<noteq> ?fid" using less.prems(4) del by metis
      note d = rep_delall_at [OF less.prems(1) True this less.prems(2)]
      let ?s1 = "snd (fb_delall ?fid s)" and ?ds1 = "take i ds @ drop (run_end ds ?fid) ds"
      have "length ?ds1 - i < length ds - i" "i \<le> length ?ds1" using d(3,4) True by simp_all
      moreover have "\<forall>j < i. \<not> P (cid (?ds1 ! j))"
        using less.prems(4) True by (simp add: nth_append)
      moreover have "Some (cpos ds i) = Some (cpos ?ds1 i)" using True by (simp add: cpos_def)
      ultimately have "\<exists>s'. fb_iterate (\<lambda>s. s) (prune_step P) (Some (cpos ds i)) (blen ?s1) ?fid
          (if ?fid \<noteq> prev then 0 else oc + 1) ?s1 = Some (Ret 0, s') \<and>
        becomes ?s1 s' (\<lambda>g. if P g then [] else occs ?ds1 g)"
        using less.hyps [OF _ d(1) d(5), of i "Some (cpos ds i)"] by blast
      then obtain s' where s': "fb_iterate (\<lambda>s. s) (prune_step P) (Some (cpos ds i)) (blen ?s1) ?fid
          (if ?fid \<noteq> prev then 0 else oc + 1) ?s1 = Some (Ret 0, s')"
        "becomes ?s1 s' (\<lambda>g. if P g then [] else occs ?ds1 g)" by blast
      obtain es where es: "rep ?s1 es" "occs es = (occs ds)(?fid := [])"
        using d(2) by (auto simp: becomes_def)
      have "concat es = concat ?ds1" "\<forall>c \<in> set es. wf_chunk c" "\<forall>c \<in> set ?ds1. wf_chunk c"
        using es(1) d(1) unfolding rep_def by auto
      then have "es = ?ds1" by (rule concat_wf_inj)
      then have "(\<lambda>g. if P g then [] else occs ?ds1 g) = (\<lambda>g. if P g then [] else occs ds g)"
        using es(2) del by (auto simp: fun_eq_iff)
      then have "becomes s s' (\<lambda>g. if P g then [] else occs ds g)"
        using becomes_trans [OF d(2) s'(2)] by simp
      then show ?thesis
        using it below_end del s'(1)
        by (simp add: fb_iterate.simps [of _ _ "Some (cpos ds i)"] Let_def prune_step_def id)
    qed
  qed
qed

lemma iterate_all_prune:
  assumes "rep b cs" "one_type cs t"
  shows "\<exists>b'. iterate_all (\<lambda>s. s) (prune_step P) b = Some (Ret 0, b') \<and>
           becomes b b' (\<lambda>g. if P g then [] else occs cs g)"
  using iterate_prune [OF assms, of 0] by (simp add: iterate_all_def)

lemma rep_xdelete:
  fixes fieldids :: "fldid list"
  assumes "rep b cs" "one_type cs t"
  defines "ids \<equiv> set (takeWhile (\<lambda>f. f \<noteq> BADFLDID) fieldids)"
  shows "\<exists>b'. fb_xdelete fieldids b = Some (Ret 0, b') \<and>
           becomes b b' (\<lambda>g. if g \<in> ids then [] else occs cs g)"
proof -
  have "(\<lambda>p oc s. let fid = id_at (bdata s) p
      in if fid \<in> set (fb_sort fieldids) then (Ret 1, snd (fb_delall fid s)) else (Ret 0, s)) =
      prune_step (\<lambda>g. g \<in> ids)"
    by (intro ext) (simp add: prune_step_def set_fb_sort ids_def)
  then show ?thesis
    using iterate_all_prune [OF assms(1,2), of "\<lambda>g. g \<in> ids"] by (auto simp: fb_xdelete_def)
qed

lemma rep_proj:
  fixes fieldids :: "fldid list"
  assumes "rep b cs" "one_type cs t"
  defines "ids \<equiv> set (takeWhile (\<lambda>f. f \<noteq> BADFLDID) fieldids)"
  shows "\<exists>b'. fb_proj fieldids b = Some (Ret 0, b') \<and> becomes b b' (projected ids cs)"
proof -
  have "(\<lambda>p oc s. let fid = id_at (bdata s) p
      in if fid \<notin> set (fb_sort fieldids) then (Ret 1, snd (fb_delall fid s)) else (Ret 0, s)) =
      prune_step (\<lambda>g. g \<notin> ids)"
    by (intro ext) (simp add: prune_step_def set_fb_sort ids_def)
  moreover have "(\<lambda>g. if g \<notin> ids then [] else occs cs g) = projected ids cs"
    by (auto simp: projected_def)
  ultimately show ?thesis
    using iterate_all_prune [OF assms(1,2), of "\<lambda>g. g \<notin> ids"] by (auto simp: fb_proj_def)
qed

subsection \<open>join\<close>

definition join_step :: "fbfr \<Rightarrow> nat \<Rightarrow> int \<Rightarrow> fbfr \<Rightarrow> int outcome \<times> fbfr" where
  "join_step src p oc s =
     (let fid = id_at (bdata s) p
      in if fb_pres fid oc src then (Ret 0, s) else (Ret 1, snd (fb_del fid oc s)))"

text \<open>
  The state in which \<open>join\<close> spins: the field at the start is not in the source and the
  occurrence counter has run past the occurrences that are left, so \<open>del\<close> fails, and its
  failure is ignored.
\<close>

definition spins :: "fbfr \<Rightarrow> nat option \<Rightarrow> nat \<Rightarrow> fldid \<Rightarrow> int \<Rightarrow> fbfr \<Rightarrow> bool" where
  "spins src it end prev oc s \<longleftrightarrow>
     (\<exists>ss ds. rep src ss \<and> rep s ds \<and> ds \<noteq> [] \<and> it = Some 0 \<and> end = blen s \<and> prev = cid (ds ! 0) \<and>
        occs ss prev = [] \<and> 0 \<le> oc \<and> int (length (occs ds prev)) \<le> oc + 1)"

lemma spin_step:
  assumes "spins src it end prev oc s"
  shows "\<exists>p. it = Some p \<and> p < end \<and> id_at (bdata s) p = prev \<and> join_step src p (oc + 1) s = (Ret 1, s)"
    "spins src it (blen s) prev (oc + 1) s"
proof -
  from assms obtain ss ds where r: "rep src ss" "rep s ds" "ds \<noteq> []" "it = Some 0" "end = blen s"
    "prev = cid (ds ! 0)" "occs ss prev = []" "0 \<le> oc" "int (length (occs ds prev)) \<le> oc + 1"
    by (auto simp: spins_def)
  have v: "valid_id prev" using valid_cid [OF r(2), of 0] r(3,6) by simp
  have id: "id_at (bdata s) 0 = prev" using rep_id_at [OF r(2), of 0] r(3,6) by simp
  have lt: "0 < blen s"
    using cpos_less_iff [OF rep_nonempty [OF r(2)], of 0 "length ds"] r(3)
    by (simp add: rep_blen [OF r(2)] cpos_length)
  have "\<not> fb_pres prev (oc + 1) src" using rep_pres [OF r(1) v] r(7) by simp
  moreover have "fb_del prev (oc + 1) s = (Err FNOTPRES, s)"
    using r(9) by (intro rep_del_none [OF r(2) v]) simp
  ultimately show "\<exists>p. it = Some p \<and> p < end \<and> id_at (bdata s) p = prev \<and>
      join_step src p (oc + 1) s = (Ret 1, s)"
    using r(4,5) lt id by (simp add: join_step_def)
  show "spins src it (blen s) prev (oc + 1) s"
    unfolding spins_def using r by (intro exI [of _ ss] exI [of _ ds]) simp
qed

lemma join_spins: "spins src it end prev oc s \<Longrightarrow> fb_iterate (\<lambda>s. s) (join_step src) it end prev oc s = None"
proof (rule ccontr)
  assume sp: "spins src it end prev oc s"
    and "fb_iterate (\<lambda>s. s) (join_step src) it end prev oc s \<noteq> None"
  then obtain y where y: "fb_iterate (\<lambda>s. s) (join_step src) it end prev oc s = Some y" by auto
  let ?P = "\<lambda>view func it e prev oc s y.
      view = (\<lambda>s :: fbfr. s) \<longrightarrow> func = join_step src \<longrightarrow> \<not> spins src it e prev oc s"
  have "?P (\<lambda>s. s) (join_step src) it end prev oc s y"
  proof (rule fb_iterate.raw_induct [where P = ?P, OF _ y], intro impI notI)
    fix iter :: "(fbfr \<Rightarrow> fbfr) \<Rightarrow> (nat \<Rightarrow> int \<Rightarrow> fbfr \<Rightarrow> int outcome \<times> fbfr) \<Rightarrow> nat option \<Rightarrow> nat \<Rightarrow>
        fldid \<Rightarrow> int \<Rightarrow> fbfr \<Rightarrow> (int outcome \<times> fbfr) option"
      and view func it e prev oc s y
    assume IH: "\<And>view func it e prev oc s y. iter view func it e prev oc s = Some y \<Longrightarrow>
        ?P view func it e prev oc s y"
      and eq: "(case it of None \<Rightarrow> Some (Ret 0, s)
        | Some p \<Rightarrow>
            if p < e
            then let fid = id_at (bdata (view s)) p; oc' = if fid \<noteq> prev then 0 else oc + 1;
                     rs = func p oc' s
                 in case fst rs of
                      Ret r \<Rightarrow>
                        if r = 1 then iter view func it (blen (view (snd rs))) fid oc' (snd rs)
                        else iter view func (fb_nextf (view (snd rs)) p) e fid oc' (snd rs)
                    | _ \<Rightarrow> Some rs
            else Some (Ret 0, s)) = Some y"
      and view: "view = (\<lambda>s. s)" and func: "func = join_step src"
      and sp: "spins src it e prev oc s"
    from spin_step(1) [OF sp] obtain p where p: "it = Some p" "p < e" "id_at (bdata s) p = prev"
      "join_step src p (oc + 1) s = (Ret 1, s)" by blast
    then have "iter (\<lambda>s. s) (join_step src) it (blen s) prev (oc + 1) s = Some y"
      using eq view func by (simp add: Let_def)
    then show False using IH spin_step(2) [OF sp] by blast
  qed
  then have "\<not> spins src it end prev oc s" by simp
  then show False using sp by contradiction
qed

lemma rep_join_hangs:
  assumes "rep src ss" "rep dest cs" "cs \<noteq> []" "cid (cs ! 0) \<noteq> BADFLDID"
    and two: "length (occs cs (cid (cs ! 0))) = 2" and absent: "occs ss (cid (cs ! 0)) = []"
  shows "fb_join src dest = None"
proof -
  let ?fid = "cid (cs ! 0)"
  have pos: "0 < length cs" using assms(3) by simp
  have v: "valid_id ?fid" by (rule valid_cid [OF assms(2) pos])
  have below: "length (below ?fid cs) = 0" using below_prefix [OF assms(2) pos] by simp
  have oc: "0 < int (length (occs cs ?fid))" using two by simp
  have run: "run_end cs ?fid = 2" using two below by (simp add: run_end_def length_occs)
  have len: "2 \<le> length cs" using length_below_same [of ?fid cs] two below by (simp add: length_occs)
  have id1: "cid (cs ! 1) = ?fid"
    using cid_in_run [OF assms(2), of ?fid 1] below two len by (simp add: length_occs)
  note d = rep_del_some [OF assms(2) v order_refl oc, unfolded below, simplified]
  have e: "rep (erase (cpos cs 0) (pos_opt cs 1) dest) (take 0 cs @ drop 1 cs)"
    by (rule rep_erase(1) [OF assms(2) _ _ _, where t = "ctype (cs ! 0)"])
      (use len id1 in \<open>auto simp: next_has_type_def ctype_def\<close>)
  let ?s = "erase 0 (pos_opt cs (Suc 0)) dest"
  have rs: "rep ?s (drop 1 cs)" using e by simp
  have ds0: "drop 1 cs ! 0 = cs ! 1" "drop 1 cs \<noteq> []" using len by (simp_all add: nth_via_drop)
  have "occs (drop 1 cs) ?fid = drop 1 (occs cs ?fid)"
    using pos by (cases cs) (simp_all add: occs_def same_id_def)
  then have sp: "spins src (Some 0) (blen ?s) ?fid 0 ?s"
    unfolding spins_def using assms(1) rs ds0 id1 absent two
    by (intro exI [of _ ss] exI [of _ "drop 1 cs"]) simp
  have lt: "0 < blen dest"
    using cpos_less_iff [OF rep_nonempty [OF assms(2)], of 0 "length cs"] pos
    by (simp add: rep_blen [OF assms(2)] cpos_length)
  have id: "id_at (bdata dest) 0 = ?fid" using rep_id_at [OF assms(2) pos] by simp
  have "\<not> fb_pres ?fid 0 src" using rep_pres [OF assms(1) v] absent by simp
  then have "join_step src 0 0 dest = (Ret 1, ?s)" using d(1) id by (simp add: join_step_def)
  then have "iterate_all (\<lambda>s. s) (join_step src) dest = None"
    using lt id assms(4) join_spins [OF sp]
    by (simp add: iterate_all_def fb_iterate.simps [of _ _ "Some 0"] Let_def)
  moreover have "(\<lambda>p oc s. let fid = id_at (bdata s) p
      in if fb_pres fid oc src then (Ret 0, s) else (Ret 1, snd (fb_del fid oc s))) = join_step src"
    by (intro ext) (simp add: join_step_def)
  ultimately show ?thesis by (simp add: fb_join_def)
qed

end
