(* ===== verification/Fml_Enum.thy ===== *)
theory Fml_Enum
  imports Fml_Whole
begin

text \<open>
  \<open>next\<close> enumerates the fields of a represented buffer in order: started with
  \<open>BADFLDID\<close> and called with what it returned before, it visits every field once.
\<close>

lemma below_le:
  assumes "rep b cs" "i < length cs"
  shows "length (below (cid (cs ! i)) cs) \<le> i"
    "i < length (below (cid (cs ! i)) cs) + length (same_id (cid (cs ! i)) cs)"
proof -
  let ?fid = "cid (cs ! i)"
  have cs: "cs = below ?fid cs @ same_id ?fid cs @ above ?fid cs"
    by (rule split_sorted [OF sorted_cid [OF assms(1)]])
  show le: "length (below ?fid cs) \<le> i"
  proof (rule ccontr)
    assume n: "\<not> length (below ?fid cs) \<le> i"
    then have "cs ! i = below ?fid cs ! i" by (subst cs) (simp add: nth_append)
    moreover have "below ?fid cs ! i \<in> set (below ?fid cs)" using n by simp
    ultimately show False by (simp add: below_def)
  qed
  show "i < length (below ?fid cs) + length (same_id ?fid cs)"
    using cid_in_run [OF assms(1) le assms(2)] by simp
qed

lemma index_occ:
  assumes "rep b cs" "i < length cs"
  shows "i = length (below (cid (cs ! i)) cs) + occ_no cs i"
    "occ_no cs i < length (occs cs (cid (cs ! i)))"
proof -
  let ?fid = "cid (cs ! i)"
  let ?n = "i - length (below ?fid cs)"
  note le = below_le [OF assms]
  have cs: "cs = below ?fid cs @ same_id ?fid cs @ above ?fid cs"
    by (rule split_sorted [OF sorted_cid [OF assms(1)]])
  have "take i cs = below ?fid cs @ take ?n (same_id ?fid cs)"
    by (subst cs) (use le in simp)
  moreover have "same_id ?fid (below ?fid cs) = []"
    by (auto simp: same_id_def below_def filter_empty_conv)
  moreover have "same_id ?fid (take ?n (same_id ?fid cs)) = take ?n (same_id ?fid cs)"
    by (rule same_id_all [THEN trans]) (auto dest: in_set_takeD simp: same_id_def)
  ultimately have "occ_no cs i = ?n" using le by (simp add: occ_no_def same_id_append)
  then show "i = length (below ?fid cs) + occ_no cs i" "occ_no cs i < length (occs cs ?fid)"
    using le by (simp_all add: length_occs)
qed

text \<open>What \<open>next\<close> returns when it is at field \<open>c\<close>.\<close>

definition next_at :: "chunk \<Rightarrow> int \<Rightarrow> bool \<Rightarrow> nat option \<Rightarrow> next_result" where
  "next_at c oc wantval len =
     (case len of
        None \<Rightarrow> \<lparr>nrc = Ret 1, nfieldid = cid c, noc = oc, nlen = None, nvalue = None\<rparr>
      | Some l \<Rightarrow>
          if l < length (cval c)
          then \<lparr>nrc = Err FNOSPACE, nfieldid = cid c, noc = oc, nlen = Some (length (cval c)), nvalue = None\<rparr>
          else \<lparr>nrc = Ret 1, nfieldid = cid c, noc = oc, nlen = Some (length (cval c)),
                nvalue = (if wantval then Some (cval c) else None)\<rparr>)"

lemma next_from:
  assumes "rep b cs" "i < length cs"
    and "(if fid \<noteq> BADFLDID then
            case fb_where fid oc b of None \<Rightarrow> None | Some p \<Rightarrow> if p < blen b then fb_nextf b p else Some p
          else Some 0) = Some (cpos cs i)"
  shows "fb_next fid oc wantval len b =
         next_at (cs ! i) (if cid (cs ! i) = fid then oc + 1 else 0) wantval len"
proof -
  have "cpos cs i < blen b"
    using cpos_less_iff [OF rep_nonempty [OF assms(1)], of i "length cs"] assms(2)
    by (simp add: rep_blen [OF assms(1)] cpos_length)
  then show ?thesis
    unfolding fb_next_def Let_def assms(3)
    using rep_id_at [OF assms(1,2)] rep_value_at [OF assms(1,2)]
    by (auto simp: next_at_def split: option.split)
qed

lemma rep_next_first:
  assumes "rep b cs" "\<forall>c \<in> set cs. cid c \<noteq> BADFLDID"
  shows "cs = [] \<Longrightarrow> nrc (fb_next BADFLDID oc wantval len b) = Ret 0"
    "cs \<noteq> [] \<Longrightarrow> fb_next BADFLDID oc wantval len b = next_at (cs ! 0) (int (occ_no cs 0)) wantval len"
proof -
  show "cs = [] \<Longrightarrow> nrc (fb_next BADFLDID oc wantval len b) = Ret 0"
    using rep_blen [OF assms(1)] by (simp add: fb_next_def)
  assume ne: "cs \<noteq> []"
  then have "0 < length cs" "cid (cs ! 0) \<noteq> BADFLDID" using assms(2) by auto
  then show "fb_next BADFLDID oc wantval len b = next_at (cs ! 0) (int (occ_no cs 0)) wantval len"
    using next_from [OF assms(1), of 0 BADFLDID oc] by (simp add: occ_no_def same_id_def)
qed

lemma rep_next_step:
  assumes "rep b cs" "\<forall>c \<in> set cs. cid c \<noteq> BADFLDID" "i < length cs"
  shows "Suc i < length cs \<Longrightarrow>
           fb_next (cid (cs ! i)) (int (occ_no cs i)) wantval len b =
           next_at (cs ! Suc i) (int (occ_no cs (Suc i))) wantval len"
    "Suc i = length cs \<Longrightarrow> nrc (fb_next (cid (cs ! i)) (int (occ_no cs i)) wantval len b) = Ret 0"
proof -
  let ?fid = "cid (cs ! i)" and ?oc = "int (occ_no cs i)"
  have nb: "?fid \<noteq> BADFLDID" using assms(2,3) by simp
  note ix = index_occ [OF assms(1,3)]
  have "fb_where ?fid ?oc b = Some (cpos cs i)"
    using rep_found(1) [OF assms(1) valid_cid [OF assms(1,3)], of ?oc] ix by simp
  moreover have "cpos cs i < blen b"
    using cpos_less_iff [OF rep_nonempty [OF assms(1)], of i "length cs"] assms(3)
    by (simp add: rep_blen [OF assms(1)] cpos_length)
  ultimately have it: "(if ?fid \<noteq> BADFLDID then
            case fb_where ?fid ?oc b of None \<Rightarrow> None | Some p \<Rightarrow> if p < blen b then fb_nextf b p else Some p
          else Some 0) = pos_opt cs (Suc i)"
    using nb rep_next_opt [OF assms(1,3)] by simp
  show "fb_next ?fid ?oc wantval len b = next_at (cs ! Suc i) (int (occ_no cs (Suc i))) wantval len"
    if "Suc i < length cs"
    using next_from [OF assms(1) that, of ?fid ?oc] it that
      occ_no_Suc [OF sorted_cid [OF assms(1)] that]
    by (simp add: pos_opt_def add.commute)
  show "nrc (fb_next ?fid ?oc wantval len b) = Ret 0" if "Suc i = length cs"
    unfolding fb_next_def Let_def it using that by (simp add: pos_opt_def)
qed

lemma rep_getalloc:
  assumes "rep b cs" "valid_id fid"
  shows "fb_getalloc fid oc extralen b =
         (if \<not> (0 \<le> oc \<and> oc < int (length (occs cs fid))) then (Err FNOTPRES, extralen)
          else let v = occs cs fid ! nat oc
               in (Ret (length v + (case extralen of None \<Rightarrow> 0 | Some x \<Rightarrow> x), v),
                   map_option (\<lambda>_. length v) extralen))"
proof (cases "0 \<le> oc \<and> oc < int (length (occs cs fid))")
  case True
  then have oc: "0 \<le> oc" "oc < int (length (occs cs fid))" by auto
  note f = rep_found [OF assms oc]
  have "rd (fvalue (bdata b) (cpos cs (length (below fid cs) + nat oc)))
      (length (occs cs fid ! nat oc)) (bdata b) = occs cs fid ! nat oc"
    using rep_value_at [OF assms(1) f(2)] f(4) by simp
  then show ?thesis
    using True rep_is_field [OF assms, of oc] f rep_value_at(2) [OF assms(1) f(2)]
    by (simp add: fb_getalloc_def Let_def split: option.split)
next
  case False
  then show ?thesis using rep_is_field [OF assms, of oc] by (auto simp: fb_getalloc_def Let_def)
qed

end
