(* ===== verification/Fml_Props.thy ===== *)
theory Fml_Props
  imports Fml_Prune Fml_Enum
begin

text \<open>
  The properties of the FML32 buffer, stated over \<open>rep b cs\<close> (the bytes of \<open>b\<close> are the
  fields \<open>cs\<close>) and \<open>occs cs fid\<close> (the values stored under \<open>fid\<close>, in order), each with
  an instance on a concrete buffer.
\<close>

subsection \<open>A concrete buffer\<close>

text \<open>Two shorts, a long and a string in 256 bytes; a buffer with one carray.\<close>

definition demo_chunks :: "chunk list" where
  "demo_chunks =
     [enc32 10 @ [5, 0, 0, 0], enc32 10 @ [6, 0, 0, 0],
      enc32 0x0100000B @ [0, 0, 0, 0] @ [7, 0, 0, 0, 0, 0, 0, 0],
      enc32 0x0500000C @ enc32 3 @ [104, 105, 0, 0, 0, 0, 0, 0]]"

definition demo :: fbfr where
  "demo = mk_buffer 256 demo_chunks"

definition carray_chunks :: "chunk list" where
  "carray_chunks =
     [enc32 0x0600000D @ enc32 2 @ [1, 2, 0, 0, 0, 0, 0, 0],
      enc32 0x0600000E @ enc32 1 @ [3, 0, 0, 0, 0, 0, 0, 0]]"

definition carrays :: fbfr where
  "carrays = mk_buffer 100 carray_chunks"

lemmas eval_chunk = wf_chunk_def cid_def csize_def cval_def cvlen_def chead_def cflen_def ctype_def
  fldclass_def Fldtype32_def valid_id_def valid_fldtype32_def wf_val_def fixed_len_def Let_def
  fieldn_size_def u32_def

lemma demo_wf: "\<forall>c \<in> set demo_chunks. wf_chunk c" "\<forall>c \<in> set carray_chunks. wf_chunk c"
  by (simp_all add: demo_chunks_def carray_chunks_def eval_chunk)

lemma rep_demo: "rep demo demo_chunks"
  unfolding demo_def
  by (rule rep_mk_buffer [OF demo_wf(1)]) (simp_all add: demo_chunks_def cid_def)

lemma rep_carrays: "rep carrays carray_chunks"
  unfolding carrays_def
  by (rule rep_mk_buffer [OF demo_wf(2)]) (simp_all add: carray_chunks_def cid_def)

lemma occs_demo: "occs demo_chunks 10 = [[5, 0], [6, 0]]" "occs demo_chunks 0x0500000C = [[104, 105, 0]]"
  by (simp_all add: demo_chunks_def occs_def same_id_def eval_chunk)

lemma occs_carrays: "occs carray_chunks 0x0600000D = [[1, 2]]" "occs carray_chunks 10 = []"
  by (simp_all add: carray_chunks_def occs_def same_id_def eval_chunk)

lemma valid_demo: "valid_id 10" "valid_id 0x0500000C" "valid_id 0x0600000D" "valid_id 0x0A00000F"
  by (simp_all add: eval_chunk)

lemma demo_nonzero: "\<forall>c \<in> set demo_chunks. cid c \<noteq> BADFLDID" "\<forall>c \<in> set carray_chunks. cid c \<noteq> BADFLDID"
  by (simp_all add: demo_chunks_def carray_chunks_def cid_def)

subsection \<open>Properties\<close>

text \<open>C1: searching: \<open>find\<close> (binary search and counting scan over the bytes) returns the
  length and the address of the bytes of occurrence \<open>oc\<close> when the buffer holds it, and
  \<open>FNOTPRES\<close> otherwise.\<close>

theorem find_correct:
  assumes "rep b cs" "valid_id fid"
  shows "if 0 \<le> oc \<and> oc < int (length (occs cs fid))
         then \<exists>p. fb_find fid oc b = Ret (p, length (occs cs fid ! nat oc)) \<and>
                  rd p (length (occs cs fid ! nat oc)) (bdata b) = occs cs fid ! nat oc
         else fb_find fid oc b = Err FNOTPRES"
  using rep_find [OF assms] by simp

theorem find_correct_witness:
  "\<exists>p. fb_find 10 1 demo = Ret (p, 2) \<and> rd p 2 (bdata demo) = [6, 0]"
  using find_correct [OF rep_demo valid_demo(1), of 1] by (simp add: occs_demo numeral_2_eq_2)

text \<open>the other readers agree: occurrence count, presence, length, \<open>get\<close> (which copies
  exactly the value, or reports \<open>FNOSPACE\<close> and the length) and \<open>findlast\<close>.\<close>

theorem readers_correct:
  assumes "rep b cs" "valid_id fid"
  shows "fb_occur fid b = int (length (occs cs fid)) \<and>
    (fb_pres fid oc b \<longleftrightarrow> 0 \<le> oc \<and> oc < int (length (occs cs fid))) \<and>
    fb_len fid oc b = (if 0 \<le> oc \<and> oc < int (length (occs cs fid))
                       then Ret (length (occs cs fid ! nat oc)) else Err FNOTPRES) \<and>
    fb_get fid oc loc maxlen b =
         (if \<not> (0 \<le> oc \<and> oc < int (length (occs cs fid))) then (Err FNOTPRES, loc, maxlen)
          else let v = occs cs fid ! nat oc
               in if maxlen \<noteq> None \<and> the maxlen < length v then (Err FNOSPACE, loc, Some (length v))
                  else (Ret (), map_option (if Fldtype32 fid \<noteq> FLD_FML32 then wr 0 v else wr 4 (drop 4 v)) loc,
                        map_option (\<lambda>_. length v) maxlen))"
  using rep_occur [OF assms] rep_pres [OF assms] rep_len [OF assms] rep_get [OF assms] by simp

theorem readers_correct_witness:
  "fb_occur 10 demo = 2 \<and> fb_pres 10 1 demo \<and> \<not> fb_pres 10 2 demo \<and> fb_len 0x0500000C 0 demo = Ret 3 \<and>
   fst (fb_get 10 7 None None demo) = Err FNOTPRES"
  using readers_correct [OF rep_demo valid_demo(1), where oc = 1]
    readers_correct [OF rep_demo valid_demo(1), where oc = 2]
    readers_correct [OF rep_demo valid_demo(1), where oc = 7 and loc = None and maxlen = None]
    readers_correct [OF rep_demo valid_demo(2), where oc = 0]
  by (simp add: occs_demo)

text \<open>C2: \<open>chg\<close> with a value, when nothing has to be filled with nested buffers: with room
  it succeeds and replaces or appends the value (missing occurrences are filled with zero
  values), every other field keeps its values, the buffer stays well formed and no byte
  outside it changes; without room it fails with \<open>FNOSPACE\<close> and at most some filler
  occurrences have been added.\<close>

theorem chg_correct:
  assumes "rep b cs" "valid_id fid" "good_value (Fldtype32 fid) v flen n"
    and "Fldtype32 fid = FLD_FML32 \<Longrightarrow> oc \<le> int (length (occs cs fid))"
  shows "\<exists>r b'. fb_chg fid oc (Some v) flen b = (r, b') \<and>
    (if int (blen b) + chg_need cs fid oc n \<le> int (bsize b)
     then r = Ret () \<and>
          becomes b b' ((occs cs)(fid := change_list (occs cs fid) oc (stored (Fldtype32 fid) v n)
                                           (default_val (Fldtype32 fid))))
     else r = Err FNOSPACE \<and>
          (\<exists>j. becomes b b' ((occs cs)(fid := occs cs fid @ replicate j (default_val (Fldtype32 fid))))))"
proof (cases "oc \<le> int (length (occs cs fid))")
  case True
  have "becomes b b ((occs cs)(fid := occs cs fid @ replicate 0 (default_val (Fldtype32 fid))))"
    using becomes_refl [OF assms(1)] by (simp add: fun_upd_idem)
  then show ?thesis using rep_chg_near [OF assms(1-3) True] by (metis linorder_not_less)
next
  case False
  then show ?thesis using rep_chg_far [OF assms(1-3), of oc] assms(4) by force
qed

theorem chg_correct_witness:
  "\<exists>b'. fb_chg 10 1 (Some [9, 1]) 0 demo = (Ret (), b') \<and>
        becomes demo b' ((occs demo_chunks)(10 := [[5, 0], [9, 1]]))"
proof -
  have g: "good_value (Fldtype32 10) [9, 1] 0 2"
    by (simp add: good_value_def value_len_def eval_chunk)
  have "int (blen demo) + chg_need demo_chunks 10 1 2 \<le> int (bsize demo)"
    by (simp add: demo_def mk_buffer_def chg_need_def occs_demo old_size_def field_size_def
        default_len_def eval_chunk demo_chunks_def same_id_def)
  then show ?thesis
    using chg_correct [OF rep_demo valid_demo(1) g, of 1]
    by (simp add: occs_demo change_list_def stored_def eval_chunk)
qed

text \<open>C9: \<open>del\<close> removes exactly the occurrence asked for, and only it, when the field after
  it (if any) has the same type.\<close>

theorem del_correct:
  assumes "rep b cs" "valid_id fid"
    and "next_has_type cs (Suc (length (below fid cs) + nat oc)) (Fldtype32 fid)"
  shows "if 0 \<le> oc \<and> oc < int (length (occs cs fid))
         then \<exists>b'. fb_del fid oc b = (Ret (), b') \<and>
                   becomes b b' ((occs cs)(fid := remove_nth (nat oc) (occs cs fid)))
         else fb_del fid oc b = (Err FNOTPRES, b)"
proof (cases "0 \<le> oc \<and> oc < int (length (occs cs fid))")
  case True
  have "blen b \<le> bsize b" using assms(1) by (simp add: rep_def)
  then show ?thesis
    using rep_del [OF assms(1,2) _ _ assms(3)] True by (auto simp: becomes_def)
next
  case False
  then show ?thesis using rep_del_none [OF assms(1,2) False] by (simp only: if_False)
qed

theorem del_correct_witness:
  "\<exists>b'. fb_del 10 0 demo = (Ret (), b') \<and> becomes demo b' ((occs demo_chunks)(10 := [[6, 0]]))"
proof -
  have "next_has_type demo_chunks (Suc (length (below 10 demo_chunks) + nat 0)) (Fldtype32 10)"
    by (simp add: next_has_type_def demo_chunks_def below_def eval_chunk)
  then show ?thesis
    using del_correct [OF rep_demo valid_demo(1), of 0] by (simp add: occs_demo remove_nth_def)
qed

text \<open>otherwise \<open>del\<close> corrupts the buffer: \<open>erase\<close> asks the wrong field for its type,
  and what it leaves is a representation of no field sequence at all.\<close>

theorem del_corrupts:
  assumes "rep b cs" "valid_id fid" "0 \<le> oc" "oc < int (length (occs cs fid))"
    and "\<not> next_has_type cs (Suc (length (below fid cs) + nat oc)) (Fldtype32 fid)"
  shows "fst (fb_del fid oc b) = Ret () \<and> (\<nexists>cs'. rep (snd (fb_del fid oc b)) cs')"
  using rep_del_wrong [OF assms] rep_del_some(1) [OF assms(1-4)] by simp

theorem del_corrupts_witness:
  "(\<nexists>cs'. rep (snd (fb_del 10 1 demo)) cs') \<and>
   fb_pres 0x0100000B 0 demo \<and> \<not> fb_pres 0x0100000B 0 (snd (fb_del 10 1 demo))"
proof -
  have "\<not> next_has_type demo_chunks (Suc (length (below 10 demo_chunks) + nat 1)) (Fldtype32 10)"
    by (simp add: next_has_type_def demo_chunks_def below_def eval_chunk)
  then have "\<nexists>cs'. rep (snd (fb_del 10 1 demo)) cs'"
    using del_corrupts [OF rep_demo valid_demo(1), of 1] by (simp add: occs_demo)
  moreover have "fb_pres 0x0100000B 0 demo" by code_simp
  moreover have "\<not> fb_pres 0x0100000B 0 (snd (fb_del 10 1 demo))" by code_simp
  ultimately show ?thesis by blast
qed

text \<open>\<open>update\<close> always returns; it overlays the occurrences of the source on those of the
  destination, or stops with \<open>FNOSPACE\<close> after a prefix of the source.\<close>

theorem update_correct:
  assumes "rep src ss" "rep dest cs" "\<forall>c \<in> set ss. cid c \<noteq> BADFLDID"
  shows "\<exists>dest'. (fb_update src dest = Some (Ret 0, dest') \<and> becomes dest dest' (updated ss cs)) \<or>
           (fb_update src dest = Some (Err FNOSPACE, dest') \<and>
              (\<exists>j < length ss. becomes dest dest' (updated (take j ss) cs)))"
  by (rule rep_update [OF assms])

theorem update_correct_witness:
  "\<exists>r dest'. fb_update carrays demo = Some (r, dest') \<and> r \<in> {Ret 0, Err FNOSPACE}"
  using update_correct [OF rep_carrays rep_demo demo_nonzero(2)] by auto

text \<open>C28: \<open>concat\<close> succeeds whenever its own check of the free space passes, and appends
  the occurrences of the source to those of the destination.\<close>

theorem concat_correct:
  assumes "rep src ss" "rep dest cs" "\<forall>c \<in> set ss. cid c \<noteq> BADFLDID"
    and "fb_used src \<le> fb_unused dest"
  shows "\<exists>dest'. fb_concat src dest = Some (Ret 0, dest') \<and> becomes dest dest' (appended ss cs) \<and>
           blen dest' = blen dest + blen src"
proof (rule rep_concat [OF assms(1-3)])
  have "blen dest \<le> bsize dest" "bsize dest < 2 ^ 32" using assms(2) by (simp_all add: rep_def)
  then have "fb_unused dest = bsize dest - blen dest"
    using u32_of_nat [of "bsize dest - blen dest"] by (simp add: fb_unused_def of_nat_diff)
  then show "blen dest + blen src + min_size \<le> bsize dest"
    using assms(4) by (simp add: fb_used_def)
qed

theorem concat_correct_witness:
  "\<exists>dest'. fb_concat carrays demo = Some (Ret 0, dest') \<and> blen dest' = blen demo + blen carrays"
proof -
  have "fb_used carrays \<le> fb_unused demo"
    by (simp add: fb_used_def fb_unused_def demo_def carrays_def mk_buffer_def demo_chunks_def
        carray_chunks_def u32_def)
  then show ?thesis using concat_correct [OF rep_carrays rep_demo demo_nonzero(2)] by auto
qed

text \<open>\<open>ojoin\<close> overwrites the occurrences that both buffers have and adds none.\<close>

theorem ojoin_correct:
  assumes "rep src ss" "rep dest cs" "\<forall>c \<in> set ss. cid c \<noteq> BADFLDID"
  shows "\<exists>dest'. (fb_ojoin src dest = Some (Ret 0, dest') \<and> becomes dest dest' (ojoined ss cs)) \<or>
           (fb_ojoin src dest = Some (Err FNOSPACE, dest') \<and>
              (\<exists>j < length ss. becomes dest dest' (ojoined (take j ss) cs)))"
  by (rule rep_ojoin [OF assms])

theorem ojoin_correct_witness:
  "\<exists>r dest'. fb_ojoin demo carrays = Some (r, dest') \<and> r \<in> {Ret 0, Err FNOSPACE}"
  using ojoin_correct [OF rep_demo rep_carrays demo_nonzero(1)] by auto

text \<open>C29: on a buffer whose fields all have one type, \<open>Fdelete32\<close> and \<open>Fproj32\<close> return and
  keep exactly the fields that are not, respectively are, in the list up to its
  \<open>BADFLDID\<close>.\<close>

theorem prune_correct:
  fixes fieldids :: "fldid list"
  assumes "rep b cs" "one_type cs t"
  defines "ids \<equiv> set (takeWhile (\<lambda>f. f \<noteq> BADFLDID) fieldids)"
  shows "(\<exists>b'. fb_xdelete fieldids b = Some (Ret 0, b') \<and> becomes b b' (\<lambda>g. if g \<in> ids then [] else occs cs g)) \<and>
         (\<exists>b'. fb_proj fieldids b = Some (Ret 0, b') \<and> becomes b b' (\<lambda>g. if g \<in> ids then occs cs g else []))"
  using rep_xdelete [OF assms(1,2), of fieldids] rep_proj [OF assms(1,2), of fieldids]
  unfolding ids_def projected_def by blast

theorem prune_correct_witness:
  "\<exists>b'. fb_proj [0x0600000D, BADFLDID] carrays = Some (Ret 0, b') \<and>
        becomes carrays b' (\<lambda>g. if g = 0x0600000D then occs carray_chunks g else [])"
proof -
  have "one_type carray_chunks FLD_CARRAY"
    by (simp add: one_type_def carray_chunks_def eval_chunk)
  from prune_correct [OF rep_carrays this, of "[0x0600000D, BADFLDID]"] show ?thesis by simp
qed

text \<open>\<open>join\<close> does not return when the first field of the destination has two
  occurrences and is absent from the source.\<close>

theorem join_hangs:
  assumes "rep src ss" "rep dest cs" "cs \<noteq> []" "cid (cs ! 0) \<noteq> BADFLDID"
    and "length (occs cs (cid (cs ! 0))) = 2" "occs ss (cid (cs ! 0)) = []"
  shows "fb_join src dest = None"
  by (rule rep_join_hangs [OF assms])

theorem join_hangs_witness: "fb_join carrays demo = None"
proof (rule join_hangs [OF rep_carrays rep_demo])
  have "cid (demo_chunks ! 0) = 10" by (simp add: demo_chunks_def cid_def)
  then show "cid (demo_chunks ! 0) \<noteq> BADFLDID"
    "length (occs demo_chunks (cid (demo_chunks ! 0))) = 2" "occs carray_chunks (cid (demo_chunks ! 0)) = []"
    by (simp_all add: occs_demo occs_carrays)
qed (simp add: demo_chunks_def)

text \<open>C30: what \<open>write\<close> puts on a stream, \<open>read\<close> restores into any buffer that is large
  enough, consuming exactly those bytes and touching nothing outside the buffer.\<close>

theorem read_write_roundtrip:
  assumes "rep b cs" "fb_used b - 4 \<le> room" "blen b \<le> bsize dest" "bsize dest + min_size < 2 ^ 32"
    "length (boffs dest) = max_offset" "length (bpad dest) = 4"
  shows "fst (fb_write room b) = Ret () \<and>
         (\<exists>dest'. fb_read (snd (fb_write room b) @ rest) dest = (Ret (), dest', rest) \<and> rep dest' cs \<and>
           bsize dest' = bsize dest \<and> (\<forall>i \<ge> bsize dest. bdata dest' i = bdata dest i))"
  using rep_write(1) [OF assms(1,2)] rep_read_write [OF assms] by simp

theorem read_write_roundtrip_witness:
  "\<exists>dest'. fb_read (snd (fb_write 500 carrays)) demo = (Ret (), dest', []) \<and> rep dest' carray_chunks"
proof -
  have "fb_used carrays - 4 \<le> 500" "blen carrays \<le> bsize demo" "bsize demo + min_size < 2 ^ 32"
    "length (boffs demo) = max_offset" "length (bpad demo) = 4"
    by (simp_all add: fb_used_def demo_def carrays_def mk_buffer_def demo_chunks_def carray_chunks_def)
  from read_write_roundtrip [OF rep_carrays this, of "[]"] show ?thesis by auto
qed

text \<open>\<open>next\<close>, started with \<open>BADFLDID\<close> and fed with its own output, visits the fields
  one after the other and reports the end after the last.\<close>

theorem next_enumerates:
  assumes "rep b cs" "\<forall>c \<in> set cs. cid c \<noteq> BADFLDID"
  shows "(cs = [] \<longrightarrow> nrc (fb_next BADFLDID oc wantval len b) = Ret 0) \<and>
    (cs \<noteq> [] \<longrightarrow> fb_next BADFLDID oc wantval len b = next_at (cs ! 0) (int (occ_no cs 0)) wantval len) \<and>
    (\<forall>i < length cs.
       if Suc i < length cs
       then fb_next (cid (cs ! i)) (int (occ_no cs i)) wantval len b =
            next_at (cs ! Suc i) (int (occ_no cs (Suc i))) wantval len
       else nrc (fb_next (cid (cs ! i)) (int (occ_no cs i)) wantval len b) = Ret 0)"
  using rep_next_first [OF assms] rep_next_step [OF assms]
  by (metis Suc_lessI)

theorem next_enumerates_witness:
  "fb_next BADFLDID 0 True (Some 10) demo =
     \<lparr>nrc = Ret 1, nfieldid = 10, noc = 0, nlen = Some 2, nvalue = Some [5, 0]\<rparr>"
  using next_enumerates [OF rep_demo demo_nonzero(1), of 0 True "Some 10"]
  by (simp add: demo_chunks_def next_at_def occ_no_def same_id_def eval_chunk)

text \<open>filling missing occurrences of a nested-buffer field reads past the 16 zero
  bytes that \<open>chg\<close> uses as filler.\<close>

theorem chg_nested_overread:
  assumes "rep b cs" "valid_id fid" "Fldtype32 fid = FLD_FML32"
    and "int (length (occs cs fid)) < oc" "blen b + 48 \<le> bsize b"
  shows "fb_chg fid oc (Some v) flen b = (Stuck, b)"
  by (rule chg_nested_stuck [OF assms])

theorem chg_nested_overread_witness: "fst (fb_chg 0x0A00000F 1 (Some (replicate 40 0)) 0 demo) = Stuck"
proof -
  have "occs demo_chunks 0x0A00000F = []"
    by (simp add: demo_chunks_def occs_def same_id_def cid_def)
  then show ?thesis
    using chg_nested_overread [OF rep_demo valid_demo(4), of 1 "replicate 40 0" 0]
    by (simp add: demo_def mk_buffer_def demo_chunks_def Fldtype32_def)
qed

end
