(* ===== verification/Fml_Findocc.thy ===== *)
theory Fml_Findocc
  imports Fml_Find
begin

text \<open>
  \<open>findocc\<close> of src/fbfr32.h: the first occurrence whose value matches. POSIX regular
  expressions and the equality of floating-point numbers are parameters: \<open>regcomp\<close> maps a
  pattern to a matcher or fails, \<open>feq\<close> compares the bytes of two floats or doubles.
\<close>

text \<open>The characters before the terminating zero.\<close>

definition cstr :: "byte list \<Rightarrow> byte list" where
  "cstr bs = takeWhile (\<lambda>c. c \<noteq> 0) bs"

text \<open>
  The comparison in the body of the loop. \<open>fv\<close> holds the bytes of the field's value, \<open>v\<close>
  those that can be read at \<open>value\<close>; \<open>re\<close> is the compiled pattern.
\<close>

definition value_matches ::
    "(byte list \<Rightarrow> byte list \<Rightarrow> bool) \<Rightarrow> (byte list \<Rightarrow> bool) \<Rightarrow> int \<Rightarrow> byte list \<Rightarrow> nat \<Rightarrow> byte list \<Rightarrow> bool" where
  "value_matches feq re type v len fv =
     (if type = FLD_SHORT \<or> type = FLD_CHAR \<or> type = FLD_LONG then fv = take (fixed_len type) v
      else if type = FLD_FLOAT \<or> type = FLD_DOUBLE then feq fv (take (fixed_len type) v)
      else if type = FLD_STRING then if len = 0 then cstr fv = cstr v else re (cstr fv)
      else if type = FLD_CARRAY then length fv = len \<and> fv = take len v
      else False)"

function findocc_loop :: "fbfr \<Rightarrow> fldid \<Rightarrow> (byte list \<Rightarrow> bool) \<Rightarrow> nat option \<Rightarrow> int \<Rightarrow> int outcome" where
  "findocc_loop b fieldid match None oc = Err FNOTPRES"
| "findocc_loop b fieldid match (Some p) oc =
     (if id_at (bdata b) p = fieldid then
        if match (src_value b p) then Ret oc
        else findocc_loop b fieldid match (fb_nextf b p) (oc + 1)
      else Err FNOTPRES)"
  by pat_completeness auto
termination
proof (relation "measure (\<lambda>(b, fieldid, match, r, oc). case r of None \<Rightarrow> 0 | Some p \<Rightarrow> Suc (blen b - p))",
    goal_cases)
  case 1
  then show ?case by simp
next
  case (2 b fieldid match p oc)
  have "0 < elem_size (fldclass (id_at (bdata b) p)) (bdata b) p"
    using elem_size_ge [of "fldclass (id_at (bdata b) p)" "bdata b" p] by simp
  then show ?case by (auto simp: fb_nextf_def Let_def split: option.splits)
qed

definition fb_findocc ::
    "(byte list \<Rightarrow> (byte list \<Rightarrow> bool) option) \<Rightarrow> (byte list \<Rightarrow> byte list \<Rightarrow> bool) \<Rightarrow>
     fldid \<Rightarrow> byte list \<Rightarrow> nat \<Rightarrow> fbfr \<Rightarrow> int outcome" where
  "fb_findocc regcomp feq fieldid v len b =
     (let it = fb_where fieldid 0 b; type = Fldtype32 fieldid
      in if type = FLD_STRING \<and> len \<noteq> 0
         then case regcomp (cstr v) of
                None \<Rightarrow> Err FEINVAL
              | Some re \<Rightarrow> findocc_loop b fieldid (value_matches feq re type v len) it 0
         else findocc_loop b fieldid (value_matches feq (\<lambda>_. False) type v len) it 0)"

lemma rep_findocc_loop:
  assumes "rep b cs" "length (below fid cs) \<le> i"
  shows "findocc_loop b fid match (pos_opt cs i) n =
         (case search match (drop (i - length (below fid cs)) (occs cs fid)) of
            None \<Rightarrow> Err FNOTPRES | Some j \<Rightarrow> Ret (n + int j))"
  using assms(2)
proof (induction "length cs - i" arbitrary: i n)
  case 0
  have "length (below fid cs) + length (same_id fid cs) \<le> length cs" by (rule length_below_same)
  then show ?case using 0 by (simp add: pos_opt_def length_occs)
next
  case (Suc k)
  let ?lb = "length (below fid cs)"
  have i: "i < length cs" using Suc.hyps(2) by simp
  have p: "pos_opt cs i = Some (cpos cs i)" using i by (simp add: pos_opt_def)
  have id: "id_at (bdata b) (cpos cs i) = cid (cs ! i)" by (rule rep_id_at [OF assms(1) i])
  show ?case
  proof (cases "i < ?lb + length (same_id fid cs)")
    case False
    then have "cid (cs ! i) \<noteq> fid" using cid_in_run [OF assms(1) Suc.prems i] by simp
    then show ?thesis using False p id by (simp add: length_occs)
  next
    case True
    then have fid: "cid (cs ! i) = fid" using cid_in_run [OF assms(1) Suc.prems i] by simp
    have n: "i - ?lb < length (occs cs fid)" using True Suc.prems by (simp add: length_occs)
    have v: "src_value b (cpos cs i) = occs cs fid ! (i - ?lb)"
      using rep_src_value [OF assms(1) i] nth_split_same(1) [OF assms(1), of "i - ?lb" fid] Suc.prems n
      by (simp add: occs_def length_occs)
    have d: "drop (i - ?lb) (occs cs fid) = occs cs fid ! (i - ?lb) # drop (Suc i - ?lb) (occs cs fid)"
      using n Suc.prems by (simp add: Cons_nth_drop_Suc Suc_diff_le)
    have IH: "findocc_loop b fid match (pos_opt cs (Suc i)) (n + 1) =
         (case search match (drop (Suc i - ?lb) (occs cs fid)) of
            None \<Rightarrow> Err FNOTPRES | Some j \<Rightarrow> Ret (n + 1 + int j))"
      using Suc.hyps(1) [of "Suc i" "n + 1"] Suc.hyps(2) Suc.prems by simp
    show ?thesis
      unfolding p d
      using IH fid id v rep_next_opt [OF assms(1) i] search_from_shift [of 1 0 match]
      by (simp split: option.split)
  qed
qed

text \<open>\<open>findocc\<close> is the linear search through the occurrences.\<close>

lemma rep_findocc:
  assumes "rep b cs" "valid_id fid"
  shows "fb_findocc regcomp feq fid v len b =
    (let find = (\<lambda>m. case search m (occs cs fid) of None \<Rightarrow> Err FNOTPRES | Some j \<Rightarrow> Ret (int j));
         type = Fldtype32 fid
     in if type = FLD_STRING \<and> len \<noteq> 0
        then case regcomp (cstr v) of
               None \<Rightarrow> Err FEINVAL
             | Some re \<Rightarrow> find (value_matches feq re type v len)
        else find (value_matches feq (\<lambda>_. False) type v len))"
proof -
  have loop: "findocc_loop b fid m (fb_where fid 0 b) 0 =
      (case search m (occs cs fid) of None \<Rightarrow> Err FNOTPRES | Some j \<Rightarrow> Ret (int j))" for m
  proof (cases "occs cs fid = []")
    case True
    then have "\<not> is_field b fid (fb_where fid 0 b)" using rep_is_field [OF assms, of 0] by simp
    then have "findocc_loop b fid m (fb_where fid 0 b) 0 = Err FNOTPRES"
      by (cases "fb_where fid 0 b") (simp_all add: is_field_def)
    then show ?thesis using True by simp
  next
    case False
    then have z: "0 < length (occs cs fid)" by simp
    then have "fb_where fid 0 b = pos_opt cs (length (below fid cs))"
      using rep_found(1,2) [OF assms, of 0] by (simp add: pos_opt_def)
    then show ?thesis using rep_findocc_loop [OF assms(1) order_refl] by (simp split: option.split)
  qed
  show ?thesis unfolding fb_findocc_def Let_def loop by (rule refl)
qed

end
