(* ===== verification/Decimal.thy ===== *)
theory Decimal
  imports Byte_Memory
begin

text \<open>
  Decimal numbers and fixed-width integers as bytes, as far as the C library gives them to
  the sources: \<open>std::to_string\<close>, \<open>atol\<close>, and the little-endian two's complement layout
  of \<open>char\<close>, \<open>short\<close> and \<open>long\<close>.
\<close>

subsection \<open>Printing\<close>

definition digit :: "nat \<Rightarrow> byte" where
  "digit d = word_of_nat (48 + d)"

fun show_nat :: "nat \<Rightarrow> byte list" where
  "show_nat n = (if n < 10 then [digit n] else show_nat (n div 10) @ [digit (n mod 10)])"

declare show_nat.simps [simp del]

definition show_int :: "int \<Rightarrow> byte list" where
  "show_int i = (if i < 0 then 45 # show_nat (nat (- i)) else show_nat (nat i))"

subsection \<open>Parsing\<close>

definition is_digit :: "byte \<Rightarrow> bool" where
  "is_digit c \<longleftrightarrow> 48 \<le> c \<and> c \<le> 57"

definition is_space :: "byte \<Rightarrow> bool" where
  "is_space c \<longleftrightarrow> c = 32 \<or> 9 \<le> c \<and> c \<le> 13"

fun digits_val :: "nat \<Rightarrow> byte list \<Rightarrow> nat" where
  "digits_val acc [] = acc"
| "digits_val acc (c # cs) =
     (if is_digit c then digits_val (10 * acc + (unat c - 48)) cs else acc)"

text \<open>\<open>strtol\<close> in base 10, which clamps to the range of \<open>long\<close>.\<close>

definition clamp64 :: "int \<Rightarrow> int" where
  "clamp64 i = max (- (2 ^ 63)) (min i (2 ^ 63 - 1))"

definition atol :: "byte list \<Rightarrow> int" where
  "atol s =
     (case dropWhile is_space s of
        [] \<Rightarrow> 0
      | c # cs \<Rightarrow>
          if c = 45 then clamp64 (- int (digits_val 0 cs))
          else if c = 43 then clamp64 (int (digits_val 0 cs))
          else clamp64 (int (digits_val 0 (c # cs))))"

subsection \<open>Little-endian integers\<close>

fun enc_le :: "nat \<Rightarrow> int \<Rightarrow> byte list" where
  "enc_le 0 i = []"
| "enc_le (Suc k) i = word_of_int i # enc_le k (i div 256)"

fun dec_le :: "byte list \<Rightarrow> int" where
  "dec_le [] = 0"
| "dec_le (b # bs) = uint b + 256 * dec_le bs"

definition sdec_le :: "byte list \<Rightarrow> int" where
  "sdec_le bs =
     (let u = dec_le bs
      in if u < 2 ^ (8 * length bs - 1) then u else u - 2 ^ (8 * length bs))"

subsection \<open>Round trips\<close>

lemma unat_digit: "d < 10 \<Longrightarrow> unat (digit d) = 48 + d"
  using unat_of_nat [of "48 + d", where 'a = 8] unfolding digit_def by simp

lemma is_digit_digit: "d < 10 \<Longrightarrow> is_digit (digit d)"
  using unat_digit [of d] by (simp add: is_digit_def word_le_nat_alt)

lemma digits_val_append:
  "\<forall>c \<in> set xs. is_digit c \<Longrightarrow> digits_val acc (xs @ ys) = digits_val (digits_val acc xs) ys"
  by (induction xs arbitrary: acc) auto

lemma show_nat_digits: "\<forall>c \<in> set (show_nat n). is_digit c"
proof (induction n rule: show_nat.induct)
  case (1 n)
  then show ?case by (subst show_nat.simps) (auto simp: is_digit_digit)
qed

lemma show_nat_nonempty: "show_nat n \<noteq> []"
  by (subst show_nat.simps) auto

lemma digits_val_show: "digits_val 0 (show_nat n) = n"
proof (induction n rule: show_nat.induct)
  case (1 n)
  show ?case
  proof (cases "n < 10")
    case True
    then show ?thesis by (simp add: show_nat.simps [of n] is_digit_digit unat_digit)
  next
    case False
    then have "digits_val 0 (show_nat n) = digits_val (digits_val 0 (show_nat (n div 10))) [digit (n mod 10)]"
      using digits_val_append [OF show_nat_digits, of 0 "n div 10" "[digit (n mod 10)]"]
      by (simp add: show_nat.simps [of n])
    also have "\<dots> = 10 * (n div 10) + n mod 10"
      using False 1 by (simp add: is_digit_digit unat_digit)
    finally show ?thesis by simp
  qed
qed

lemma digit_not_special: "is_digit c \<Longrightarrow> \<not> is_space c \<and> c \<noteq> 45 \<and> c \<noteq> 43 \<and> c \<noteq> 0"
  by (auto simp: is_digit_def is_space_def word_le_nat_alt)

lemma atol_show_int:
  assumes "- (2 ^ 63) \<le> i" "i < 2 ^ 63"
  shows "atol (show_int i) = i"
proof (cases "i < 0")
  case True
  then show ?thesis
    using assms by (simp add: show_int_def atol_def is_space_def digits_val_show clamp64_def)
next
  case False
  obtain c cs where c: "show_nat (nat i) = c # cs" using show_nat_nonempty by (meson neq_Nil_conv)
  then have "is_digit c" using show_nat_digits [of "nat i"] by simp
  then have "\<not> is_space c" "c \<noteq> 45" "c \<noteq> 43" using digit_not_special by auto
  then have "atol (show_int i) = clamp64 (int (digits_val 0 (show_nat (nat i))))"
    using False c by (simp add: show_int_def atol_def)
  then show ?thesis using False assms by (simp add: digits_val_show clamp64_def)
qed

lemma length_enc_le [simp]: "length (enc_le k i) = k"
  by (induction k arbitrary: i) auto

lemma dec_le_bounds: "0 \<le> dec_le bs" "dec_le bs < 2 ^ (8 * length bs)"
proof -
  have "0 \<le> dec_le bs \<and> dec_le bs < 2 ^ (8 * length bs)"
  proof (induction bs)
    case Nil
    then show ?case by simp
  next
    case (Cons b bs)
    have "uint b < 256" "0 \<le> uint b" using uint_lt2p [of b] by simp_all
    moreover have "2 ^ (8 * length (b # bs)) = (256 :: int) * 2 ^ (8 * length bs)"
      by (simp add: power_add)
    ultimately show ?case using Cons by simp
  qed
  then show "0 \<le> dec_le bs" "dec_le bs < 2 ^ (8 * length bs)" by auto
qed

lemma dec_enc_le: "dec_le (enc_le k i) = i mod 2 ^ (8 * k)"
proof (induction k arbitrary: i)
  case 0
  then show ?case by simp
next
  case (Suc k)
  have "i mod (256 * 2 ^ (8 * k)) = 256 * (i div 256 mod 2 ^ (8 * k)) + i mod 256"
    by (rule zmod_zmult2_eq) simp
  then show ?case using Suc by (simp add: uint_word_of_int power_add mult.commute)
qed

lemma sdec_enc_le:
  assumes "0 < k" "- (2 ^ (8 * k - 1)) \<le> i" "i < 2 ^ (8 * k - 1)"
  shows "sdec_le (enc_le k i) = i"
proof -
  have p: "(2 :: int) ^ (8 * k) = 2 * 2 ^ (8 * k - 1)"
    using assms(1) by (cases k) (simp_all add: power_add)
  show ?thesis
  proof (cases "0 \<le> i")
    case True
    then have "i mod 2 ^ (8 * k) = i" using assms(3) p by simp
    then show ?thesis using assms(3) by (simp add: sdec_le_def dec_enc_le)
  next
    case False
    then have "(i + 2 ^ (8 * k)) mod 2 ^ (8 * k) = i + 2 ^ (8 * k)"
      using assms(2) p by (intro mod_pos_pos_trivial) simp_all
    then have "i mod 2 ^ (8 * k) = i + 2 ^ (8 * k)" by simp
    then show ?thesis using False assms(2) p by (simp add: sdec_le_def dec_enc_le Let_def)
  qed
qed

end
