(* ===== verification/Fml_Typcvt.thy ===== *)
theory Fml_Typcvt
  imports Fml_Findocc Decimal
begin

text \<open>
  \<open>Ftypcvt32\<close> of src/fml32.cpp: conversion of a value between field types. Integers are
  modelled exactly; what the compiler and the C library do with floating-point numbers is
  a record of parameters over their bytes.
\<close>

record fp_ops =
  int_to_f32 :: "int \<Rightarrow> byte list"
  int_to_f64 :: "int \<Rightarrow> byte list"
  f32_to_int :: "byte list \<Rightarrow> int"
  f64_to_int :: "byte list \<Rightarrow> int"
  f32_to_f64 :: "byte list \<Rightarrow> byte list"
  f64_to_f32 :: "byte list \<Rightarrow> byte list"
  str_to_f64 :: "byte list \<Rightarrow> byte list"
  show_f32 :: "byte list \<Rightarrow> byte list"
  show_f64 :: "byte list \<Rightarrow> byte list"

text \<open>The variable \<open>from\<close> of the macro \<open>TYPCVT\<close>.\<close>

datatype num = NInt int | NF32 "byte list" | NF64 "byte list"

fun num_int :: "fp_ops \<Rightarrow> num \<Rightarrow> int" where
  "num_int fp (NInt i) = i"
| "num_int fp (NF32 f) = f32_to_int fp f"
| "num_int fp (NF64 d) = f64_to_int fp d"

fun num_f32 :: "fp_ops \<Rightarrow> num \<Rightarrow> byte list" where
  "num_f32 fp (NInt i) = int_to_f32 fp i"
| "num_f32 fp (NF32 f) = f"
| "num_f32 fp (NF64 d) = f64_to_f32 fp d"

fun num_f64 :: "fp_ops \<Rightarrow> num \<Rightarrow> byte list" where
  "num_f64 fp (NInt i) = int_to_f64 fp i"
| "num_f64 fp (NF32 f) = f32_to_f64 fp f"
| "num_f64 fp (NF64 d) = d"

fun num_string :: "fp_ops \<Rightarrow> num \<Rightarrow> byte list" where
  "num_string fp (NInt i) = show_int i"
| "num_string fp (NF32 f) = show_f32 fp f"
| "num_string fp (NF64 d) = show_f64 fp d"

text \<open>
  The result: what can be read at the returned pointer (the string \<open>toval\<close> and its
  terminating zero) and \<open>*tolen\<close>.
\<close>

definition copy_n :: "byte list \<Rightarrow> (byte list \<times> nat) outcome" where
  "copy_n bs = Ret (bs @ [0], length bs)"

definition TYPCVT :: "fp_ops \<Rightarrow> num \<Rightarrow> int \<Rightarrow> (byte list \<times> nat) outcome" where
  "TYPCVT fp from totype =
     (if totype = FLD_SHORT then copy_n (enc_le 2 (num_int fp from))
      else if totype = FLD_CHAR then copy_n (enc_le 1 (num_int fp from))
      else if totype = FLD_FLOAT then copy_n (num_f32 fp from)
      else if totype = FLD_LONG then copy_n (enc_le 8 (num_int fp from))
      else if totype = FLD_DOUBLE then copy_n (num_f64 fp from)
      else if totype = FLD_STRING \<or> totype = FLD_CARRAY then
        Ret (num_string fp from @ [0], u32 (int (length (num_string fp from)) + 1))
      else Err FEBADOP)"

definition TYPCVTS :: "fp_ops \<Rightarrow> byte list \<Rightarrow> int \<Rightarrow> (byte list \<times> nat) outcome" where
  "TYPCVTS fp from totype =
     (if totype = FLD_SHORT then copy_n (enc_le 2 (atol (cstr from)))
      else if totype = FLD_CHAR then copy_n [case from of [] \<Rightarrow> 0 | c # _ \<Rightarrow> c]
      else if totype = FLD_FLOAT then copy_n (f64_to_f32 fp (str_to_f64 fp (cstr from)))
      else if totype = FLD_LONG then copy_n (enc_le 8 (atol (cstr from)))
      else if totype = FLD_DOUBLE then copy_n (str_to_f64 fp (cstr from))
      else if totype = FLD_STRING \<or> totype = FLD_CARRAY then Ret (from @ [0], u32 (int (length from) + 1))
      else Err FEBADOP)"

text \<open>Reading a value of \<open>k\<close> bytes through the pointer \<open>fromval\<close>.\<close>

definition peek :: "nat \<Rightarrow> byte list \<Rightarrow> (byte list \<Rightarrow> 'a outcome) \<Rightarrow> 'a outcome" where
  "peek k v f = (if length v < k then Stuck else f (take k v))"

definition Ftypcvt32 ::
    "fp_ops \<Rightarrow> bool \<Rightarrow> int \<Rightarrow> byte list option \<Rightarrow> int \<Rightarrow> nat \<Rightarrow> (byte list \<times> nat) outcome" where
  "Ftypcvt32 fp tolen totype fromval fromtype fromlen =
     (if \<not> tolen then Err FEINVAL
      else case fromval of
        None \<Rightarrow> Err FEINVAL
      | Some v \<Rightarrow>
          if fromtype = FLD_SHORT then peek 2 v (\<lambda>b. TYPCVT fp (NInt (sdec_le b)) totype)
          else if fromtype = FLD_CHAR then
            (if totype = FLD_STRING \<or> totype = FLD_CARRAY
             then peek 1 v (\<lambda>b. Ret (b @ [0], length b + 1))
             else peek 1 v (\<lambda>b. TYPCVT fp (NInt (sdec_le b)) totype))
          else if fromtype = FLD_FLOAT then peek 4 v (\<lambda>b. TYPCVT fp (NF32 b) totype)
          else if fromtype = FLD_LONG then peek 8 v (\<lambda>b. TYPCVT fp (NInt (sdec_le b)) totype)
          else if fromtype = FLD_DOUBLE then peek 8 v (\<lambda>b. TYPCVT fp (NF64 b) totype)
          else if fromtype = FLD_STRING then
            (if 0 \<in> set v then TYPCVTS fp (cstr v) totype else Stuck)
          else if fromtype = FLD_CARRAY then peek fromlen v (\<lambda>b. TYPCVTS fp b totype)
          else Err FEBADOP)"

subsection \<open>Integers survive the way through strings\<close>

lemma show_nat_no_zero: "0 \<notin> set (show_nat n)"
  using show_nat_digits [of n] by (auto simp: is_digit_def)

lemma cstr_show_int: "cstr (show_int i @ [0]) = show_int i"
proof -
  have "\<forall>c \<in> set (show_int i). c \<noteq> 0"
    using show_nat_no_zero by (auto simp: show_int_def)
  then show ?thesis by (simp add: cstr_def takeWhile_append2)
qed

lemma sdec_le_bounds:
  assumes "length bs = k" "0 < k"
  shows "- (2 ^ (8 * k - 1)) \<le> sdec_le bs" "sdec_le bs < 2 ^ (8 * k - 1)"
proof -
  have "(2 :: int) ^ (8 * k) = 2 * 2 ^ (8 * k - 1)"
    using assms(2) by (cases k) (simp_all add: power_add)
  then show "- (2 ^ (8 * k - 1)) \<le> sdec_le bs" "sdec_le bs < 2 ^ (8 * k - 1)"
    using dec_le_bounds [of bs] assms(1) by (auto simp: sdec_le_def Let_def)
qed

lemma byte_256: "(256 :: byte) = 0"
  by transfer (simp add: take_bit_eq_mod)

lemma enc_dec_le: "enc_le (length bs) (dec_le bs) = bs"
proof (induction bs)
  case Nil
  then show ?case by simp
next
  case (Cons b bs)
  have "uint b < 256" "0 \<le> uint b" using uint_lt2p [of b] by simp_all
  then have "(uint b + 256 * dec_le bs) div 256 = dec_le bs" by simp
  moreover have "(word_of_int (uint b + 256 * dec_le bs) :: byte) = b"
    by (simp add: byte_256)
  ultimately show ?case using Cons by simp
qed

lemma enc_le_add_period: "enc_le k (i + j * 2 ^ (8 * k)) = enc_le k i"
proof (induction k arbitrary: i)
  case 0
  then show ?case by simp
next
  case (Suc k)
  have e: "j * 2 ^ (8 * Suc k) = 256 * (j * 2 ^ (8 * k))" by (simp add: power_add)
  have "(i + j * 2 ^ (8 * Suc k)) div 256 = i div 256 + j * 2 ^ (8 * k)"
    unfolding e by simp
  moreover have "(word_of_int (i + j * 2 ^ (8 * Suc k)) :: byte) = word_of_int i"
    unfolding e by (simp add: byte_256)
  ultimately show ?case using Suc by simp
qed

lemma enc_sdec_le: "enc_le (length bs) (sdec_le bs) = bs"
proof -
  have "enc_le (length bs) (dec_le bs - 2 ^ (8 * length bs)) = enc_le (length bs) (dec_le bs)"
    using enc_le_add_period [of "length bs" "dec_le bs" "-1"] by simp
  then show ?thesis using enc_dec_le [of bs] by (simp add: sdec_le_def Let_def)
qed

lemma typcvt_int_string:
  assumes "\<tau> \<in> {FLD_SHORT, FLD_LONG}" "length v = fixed_len \<tau>" "s \<in> {FLD_STRING, FLD_CARRAY}"
  defines "txt \<equiv> show_int (sdec_le v)"
  shows "Ftypcvt32 fp True s (Some v) \<tau> fl = Ret (txt @ [0], u32 (int (length txt) + 1))"
    "Ftypcvt32 fp True \<tau> (Some (txt @ [0])) FLD_STRING 0 = Ret (v @ [0], fixed_len \<tau>)"
proof -
  have b: "- (2 ^ 63) \<le> sdec_le v" "sdec_le v < 2 ^ 63"
    using sdec_le_bounds [of v "fixed_len \<tau>"] assms(1,2) by (auto simp: fixed_len_def)
  show "Ftypcvt32 fp True s (Some v) \<tau> fl = Ret (txt @ [0], u32 (int (length txt) + 1))"
    using assms by (auto simp: Ftypcvt32_def peek_def TYPCVT_def fixed_len_def)
  have c: "cstr (cstr (txt @ [0])) = txt"
    using cstr_show_int [of "sdec_le v"]
    by (simp add: txt_def) (metis cstr_def takeWhile_idem)
  show "Ftypcvt32 fp True \<tau> (Some (txt @ [0])) FLD_STRING 0 = Ret (v @ [0], fixed_len \<tau>)"
    using assms(1,2) c atol_show_int [OF b] enc_sdec_le [of v]
    by (auto simp: Ftypcvt32_def TYPCVTS_def copy_n_def fixed_len_def txt_def)
qed

end
