(* ===== verification/Fml_Api.thy ===== *)
theory Fml_Api
  imports Fml_Props Fml_Typcvt
begin

text \<open>
  The C functions of src/fml32.cpp: pointer and field-identifier checks around the
  operations of \<open>Fbfr32\<close>. A result \<open>Err e\<close> is the error return (-1 or a null pointer)
  with \<open>Ferror32 = e\<close>; the buffer argument comes back as it was left.
\<close>

datatype fbp = NullPtr | Unaligned fbfr | Buf fbfr

text \<open>The checks at the head of every function.\<close>

definition FBFR32_CHECK :: "fbp \<Rightarrow> (fbfr \<Rightarrow> 'a outcome \<times> fbfr) \<Rightarrow> 'a outcome \<times> fbp" where
  "FBFR32_CHECK p f =
     (case p of
        NullPtr \<Rightarrow> (Err FNOTFLD, p)
      | Unaligned _ \<Rightarrow> (Err FNOTFLD, p)
      | Buf b \<Rightarrow> (case f b of (r, b') \<Rightarrow> (r, Buf b')))"

definition FLDID32_CHECK :: "fldid \<Rightarrow> (fbfr \<Rightarrow> 'a outcome \<times> fbfr) \<Rightarrow> fbfr \<Rightarrow> 'a outcome \<times> fbfr" where
  "FLDID32_CHECK fieldid f b =
     (if \<not> valid_fldtype32 (Fldtype32 fieldid) then (Err FTYPERR, b)
      else if fieldid = BADFLDID then (Err FBADFLD, b)
      else f b)"

text \<open>A function that only reads its buffer.\<close>

definition reading :: "(fbfr \<Rightarrow> 'a outcome) \<Rightarrow> fbfr \<Rightarrow> 'a outcome \<times> fbfr" where
  "reading f b = (f b, b)"

subsection \<open>Buffers\<close>

definition Fneeded32 :: "int \<Rightarrow> nat \<Rightarrow> int" where
  "Fneeded32 F V = Fbfr32_needed F V"

definition Finit32 :: "fbp \<Rightarrow> nat \<Rightarrow> unit outcome \<times> fbp" where
  "Finit32 p buflen =
     FBFR32_CHECK p (\<lambda>b. if int buflen < Fneeded32 0 0 then (Err FNOSPACE, b) else fb_init buflen b)"

text \<open>\<open>malloc\<close> is a parameter: the block it returns for a size, with whatever is in it.\<close>

definition Falloc32 :: "(int \<Rightarrow> fbp) \<Rightarrow> int \<Rightarrow> nat \<Rightarrow> unit outcome \<times> fbp" where
  "Falloc32 malloc F V = (let buflen = Fneeded32 F V in Finit32 (malloc buflen) (u32 buflen))"

definition Fsizeof32 :: "fbp \<Rightarrow> nat outcome \<times> fbp" where
  "Fsizeof32 p = FBFR32_CHECK p (reading (\<lambda>b. Ret (fb_size b)))"

definition Fused32 :: "fbp \<Rightarrow> nat outcome \<times> fbp" where
  "Fused32 p = FBFR32_CHECK p (reading (\<lambda>b. Ret (fb_used b)))"

definition Funused32 :: "fbp \<Rightarrow> nat outcome \<times> fbp" where
  "Funused32 p = FBFR32_CHECK p (reading (\<lambda>b. Ret (fb_unused b)))"

text \<open>\<open>realloc\<close> keeps the contents; \<open>ok\<close> says whether it returns a block at all.\<close>

definition Frealloc32 :: "(int \<Rightarrow> bool) \<Rightarrow> fbp \<Rightarrow> int \<Rightarrow> nat \<Rightarrow> unit outcome \<times> fbp" where
  "Frealloc32 ok p F V =
     FBFR32_CHECK p (\<lambda>b.
       if F = 0 \<or> V = 0 then (Err FEINVAL, b)
       else
         let buflen = Fneeded32 F V
         in if buflen < int (fb_used b) then (Err FNOSPACE, b)
            else if \<not> ok buflen then (Stuck, b)
            else (Ret (), fb_reinit (u32 buflen) b))"

subsection \<open>Fields\<close>

definition Fchg32 :: "fbp \<Rightarrow> fldid \<Rightarrow> int \<Rightarrow> byte list option \<Rightarrow> nat \<Rightarrow> unit outcome \<times> fbp" where
  "Fchg32 p fieldid oc v len = FBFR32_CHECK p (FLDID32_CHECK fieldid (fb_chg fieldid oc v len))"

definition Fadd32 :: "fbp \<Rightarrow> fldid \<Rightarrow> byte list option \<Rightarrow> nat \<Rightarrow> unit outcome \<times> fbp" where
  "Fadd32 p fieldid v len =
     FBFR32_CHECK p (FLDID32_CHECK fieldid (\<lambda>b. fb_chg fieldid (fb_occur fieldid b) v len b))"

definition Ffind32 :: "fbp \<Rightarrow> fldid \<Rightarrow> int \<Rightarrow> (nat \<times> nat) outcome \<times> fbp" where
  "Ffind32 p fieldid oc = FBFR32_CHECK p (FLDID32_CHECK fieldid (reading (fb_find fieldid oc)))"

definition Ffindlast32 :: "fbp \<Rightarrow> fldid \<Rightarrow> (int \<times> nat \<times> nat) outcome \<times> fbp" where
  "Ffindlast32 p fieldid = FBFR32_CHECK p (FLDID32_CHECK fieldid (reading (fb_findlast fieldid)))"

definition Fpres32 :: "fbp \<Rightarrow> fldid \<Rightarrow> int \<Rightarrow> int outcome \<times> fbp" where
  "Fpres32 p fieldid oc =
     FBFR32_CHECK p (FLDID32_CHECK fieldid (reading (\<lambda>b. Ret (if fb_pres fieldid oc b then 1 else 0))))"

definition Foccur32 :: "fbp \<Rightarrow> fldid \<Rightarrow> int outcome \<times> fbp" where
  "Foccur32 p fieldid = FBFR32_CHECK p (FLDID32_CHECK fieldid (reading (\<lambda>b. Ret (fb_occur fieldid b))))"

definition Flen32 :: "fbp \<Rightarrow> fldid \<Rightarrow> int \<Rightarrow> nat outcome \<times> fbp" where
  "Flen32 p fieldid oc = FBFR32_CHECK p (FLDID32_CHECK fieldid (reading (fb_len fieldid oc)))"

definition Fdel32 :: "fbp \<Rightarrow> fldid \<Rightarrow> int \<Rightarrow> unit outcome \<times> fbp" where
  "Fdel32 p fieldid oc = FBFR32_CHECK p (FLDID32_CHECK fieldid (fb_del fieldid oc))"

definition Fdelall32 :: "fbp \<Rightarrow> fldid \<Rightarrow> unit outcome \<times> fbp" where
  "Fdelall32 p fieldid = FBFR32_CHECK p (FLDID32_CHECK fieldid (fb_delall fieldid))"

definition Fget32 ::
    "fbp \<Rightarrow> fldid \<Rightarrow> int \<Rightarrow> mem option \<Rightarrow> nat option \<Rightarrow> (mem option \<times> nat option) outcome \<times> fbp" where
  "Fget32 p fieldid oc loc maxlen =
     FBFR32_CHECK p (FLDID32_CHECK fieldid (reading (\<lambda>b.
       case fb_get fieldid oc loc maxlen b of
         (Ret _, loc', len') \<Rightarrow> Ret (loc', len')
       | (Err e, _) \<Rightarrow> Err e
       | (Stuck, _) \<Rightarrow> Stuck)))"

definition Fgetalloc32 :: "fbp \<Rightarrow> fldid \<Rightarrow> int \<Rightarrow> nat option \<Rightarrow> (nat \<times> byte list) outcome \<times> fbp" where
  "Fgetalloc32 p fieldid oc extralen =
     FBFR32_CHECK p (FLDID32_CHECK fieldid (reading (\<lambda>b. fst (fb_getalloc fieldid oc extralen b))))"

definition Ffindocc32 ::
    "(byte list \<Rightarrow> (byte list \<Rightarrow> bool) option) \<Rightarrow> (byte list \<Rightarrow> byte list \<Rightarrow> bool) \<Rightarrow>
     fbp \<Rightarrow> fldid \<Rightarrow> byte list \<Rightarrow> nat \<Rightarrow> int outcome \<times> fbp" where
  "Ffindocc32 regcomp feq p fieldid v len =
     FBFR32_CHECK p (FLDID32_CHECK fieldid (reading (fb_findocc regcomp feq fieldid v len)))"

definition Fchksum32 :: "fbp \<Rightarrow> 32 word outcome \<times> fbp" where
  "Fchksum32 p = FBFR32_CHECK p (reading (\<lambda>b. Ret (fb_chksum b)))"

text \<open>The functions over two buffers check the destination first.\<close>

definition FBFR32_CHECK2 :: "fbp \<Rightarrow> fbp \<Rightarrow> (fbfr \<Rightarrow> fbfr \<Rightarrow> 'a outcome \<times> fbfr) \<Rightarrow> 'a outcome \<times> fbp" where
  "FBFR32_CHECK2 dest src f =
     FBFR32_CHECK dest (\<lambda>d. case src of Buf s \<Rightarrow> f s d | _ \<Rightarrow> (Err FNOTFLD, d))"

definition Fcpy32 :: "fbp \<Rightarrow> fbp \<Rightarrow> unit outcome \<times> fbp" where
  "Fcpy32 dest src = FBFR32_CHECK2 dest src fb_cpy"

text \<open>A walk that does not end is \<open>None\<close> here as well.\<close>

definition loop_check ::
    "fbp \<Rightarrow> fbp \<Rightarrow> (fbfr \<Rightarrow> fbfr \<Rightarrow> (int outcome \<times> fbfr) option) \<Rightarrow> (int outcome \<times> fbp) option" where
  "loop_check dest src f =
     (case (dest, src) of
        (Buf d, Buf s) \<Rightarrow> map_option (\<lambda>(r, d'). (r, Buf d')) (f s d)
      | _ \<Rightarrow> Some (Err FNOTFLD, dest))"

definition Fupdate32 :: "fbp \<Rightarrow> fbp \<Rightarrow> (int outcome \<times> fbp) option" where
  "Fupdate32 dest src = loop_check dest src fb_update"

definition Fjoin32 :: "fbp \<Rightarrow> fbp \<Rightarrow> (int outcome \<times> fbp) option" where
  "Fjoin32 dest src = loop_check dest src fb_join"

definition Fojoin32 :: "fbp \<Rightarrow> fbp \<Rightarrow> (int outcome \<times> fbp) option" where
  "Fojoin32 dest src = loop_check dest src fb_ojoin"

definition Fconcat32 :: "fbp \<Rightarrow> fbp \<Rightarrow> (int outcome \<times> fbp) option" where
  "Fconcat32 dest src = loop_check dest src fb_concat"

definition Fprojcpy32 :: "fbp \<Rightarrow> fbp \<Rightarrow> fldid list \<Rightarrow> (int outcome \<times> fbp) option" where
  "Fprojcpy32 dest src fieldids = loop_check dest src (\<lambda>s d. fb_projcpy s fieldids d)"

definition Fdelete32 :: "fbp \<Rightarrow> fldid list \<Rightarrow> (int outcome \<times> fbp) option" where
  "Fdelete32 p fieldids = loop_check p p (\<lambda>_ b. fb_xdelete fieldids b)"

definition Fproj32 :: "fbp \<Rightarrow> fldid list \<Rightarrow> (int outcome \<times> fbp) option" where
  "Fproj32 p fieldids = loop_check p p (\<lambda>_ b. fb_proj fieldids b)"

subsection \<open>Conversion on the way in and out\<close>

definition CFadd32 :: "fp_ops \<Rightarrow> fbp \<Rightarrow> fldid \<Rightarrow> byte list option \<Rightarrow> nat \<Rightarrow> int \<Rightarrow> unit outcome \<times> fbp" where
  "CFadd32 fp p fieldid v len type =
     FBFR32_CHECK p (FLDID32_CHECK fieldid (\<lambda>b.
       case Ftypcvt32 fp True (Fldtype32 fieldid) v type len of
         Err e \<Rightarrow> (Err e, b)
       | Stuck \<Rightarrow> (Stuck, b)
       | Ret (cvtvalue, flen) \<Rightarrow> fb_chg fieldid (fb_occur fieldid b) (Some cvtvalue) flen b))"

definition CFchg32 ::
    "fp_ops \<Rightarrow> fbp \<Rightarrow> fldid \<Rightarrow> int \<Rightarrow> byte list option \<Rightarrow> nat \<Rightarrow> int \<Rightarrow> unit outcome \<times> fbp" where
  "CFchg32 fp p fieldid oc v len type =
     FBFR32_CHECK p (FLDID32_CHECK fieldid (\<lambda>b.
       case Ftypcvt32 fp True (Fldtype32 fieldid) v type len of
         Err e \<Rightarrow> (Err e, b)
       | Stuck \<Rightarrow> (Stuck, b)
       | Ret (cvtvalue, flen) \<Rightarrow> fb_chg fieldid oc (Some cvtvalue) flen b))"

definition CFfindocc32 ::
    "fp_ops \<Rightarrow> (byte list \<Rightarrow> (byte list \<Rightarrow> bool) option) \<Rightarrow> (byte list \<Rightarrow> byte list \<Rightarrow> bool) \<Rightarrow>
     fbp \<Rightarrow> fldid \<Rightarrow> byte list option \<Rightarrow> nat \<Rightarrow> int \<Rightarrow> int outcome \<times> fbp" where
  "CFfindocc32 fp regcomp feq p fieldid v len type =
     FBFR32_CHECK p (FLDID32_CHECK fieldid (reading (\<lambda>b.
       case Ftypcvt32 fp True (Fldtype32 fieldid) v type len of
         Err e \<Rightarrow> Err e
       | Stuck \<Rightarrow> Stuck
       | Ret (cvtvalue, flen) \<Rightarrow> fb_findocc regcomp feq fieldid cvtvalue flen b)))"

text \<open>
  \<open>CFfind32\<close> converts in place: what can be read at the value's address is the memory from
  there on, of which \<open>rd\<close> shows the value and the byte after it.
\<close>

definition find_cvt :: "fp_ops \<Rightarrow> fldid \<Rightarrow> int \<Rightarrow> int \<Rightarrow> fbfr \<Rightarrow> (byte list \<times> nat) outcome" where
  "find_cvt fp fieldid oc type b =
     bind_outcome (fb_find fieldid oc b)
       (\<lambda>(q, n). Ftypcvt32 fp True type (Some (rd q n (bdata b))) (Fldtype32 fieldid) n)"

definition CFfind32 :: "fp_ops \<Rightarrow> fbp \<Rightarrow> fldid \<Rightarrow> int \<Rightarrow> int \<Rightarrow> (byte list \<times> nat) outcome \<times> fbp" where
  "CFfind32 fp p fieldid oc type =
     FBFR32_CHECK p (FLDID32_CHECK fieldid (reading (find_cvt fp fieldid oc type)))"

text \<open>\<open>CFget32\<close>: the bytes copied to \<open>buf\<close>, unless a non-zero length was given and is too small.\<close>

definition CFget32 :: "fp_ops \<Rightarrow> fbp \<Rightarrow> fldid \<Rightarrow> int \<Rightarrow> nat option \<Rightarrow> int \<Rightarrow> byte list outcome \<times> fbp" where
  "CFget32 fp p fieldid oc len type =
     FBFR32_CHECK p (FLDID32_CHECK fieldid (reading (\<lambda>b.
       bind_outcome (find_cvt fp fieldid oc type b)
         (\<lambda>(res, n). let rlen = (case len of None \<Rightarrow> 0 | Some l \<Rightarrow> l)
                     in if rlen \<noteq> 0 \<and> rlen < n then Err FNOSPACE else Ret (take n res)))))"

definition Ffinds32 :: "fp_ops \<Rightarrow> fbp \<Rightarrow> fldid \<Rightarrow> int \<Rightarrow> (byte list \<times> nat) outcome \<times> fbp" where
  "Ffinds32 fp p fieldid oc = CFfind32 fp p fieldid oc FLD_STRING"

definition Fgets32 :: "fp_ops \<Rightarrow> fbp \<Rightarrow> fldid \<Rightarrow> int \<Rightarrow> byte list outcome \<times> fbp" where
  "Fgets32 fp p fieldid oc = CFget32 fp p fieldid oc None FLD_STRING"

subsection \<open>Lemmas\<close>

lemma good_cvt_string:
  assumes "0 \<notin> set txt" "length txt < 1000"
  shows "good_value FLD_STRING (txt @ [0]) fl (Suc (length txt))"
    "stored FLD_STRING (txt @ [0]) (Suc (length txt)) = txt @ [0]"
proof -
  have "takeWhile (\<lambda>c. c \<noteq> 0) (txt @ [0]) = txt"
    using assms(1) by (subst takeWhile_append2) auto
  then have "value_len FLD_STRING (txt @ [0]) fl = Some (u32 (int (Suc (length txt))))"
    by (simp add: value_len_def add.commute)
  then show "good_value FLD_STRING (txt @ [0]) fl (Suc (length txt))"
    using assms(2) u32_of_nat [of "Suc (length txt)"] by (simp add: good_value_def)
  show "stored FLD_STRING (txt @ [0]) (Suc (length txt)) = txt @ [0]"
    by (simp add: stored_def)
qed

lemma show_nat_length: "n < 10 ^ k \<Longrightarrow> length (show_nat n) \<le> Suc k"
proof (induction k arbitrary: n)
  case 0
  then show ?case by (simp add: show_nat.simps [of 0])
next
  case (Suc k)
  then have "n div 10 < 10 ^ k" by (simp add: less_mult_imp_div_less mult.commute)
  then have "length (show_nat (n div 10)) \<le> Suc k" by (rule Suc.IH)
  then show ?case by (subst show_nat.simps) simp
qed

lemma show_int_length:
  assumes "- (2 ^ 63) \<le> i" "i < 2 ^ 63"
  shows "length (show_int i) < 1000"
proof -
  have "nat (- i) < 10 ^ 20" "nat i < 10 ^ 20" using assms by (simp_all add: nat_less_iff)
  then have "length (show_nat (nat (- i))) \<le> 21" "length (show_nat (nat i)) \<le> 21"
    using show_nat_length [of _ 20] by fastforce+
  then show ?thesis by (simp add: show_int_def)
qed

text \<open>Storing a \<open>long\<close> in a string field and reading it back.\<close>

lemma cf_long_string:
  assumes "rep b cs" "fid \<noteq> BADFLDID" "Fldtype32 fid = FLD_STRING" "length v = 8"
    and near: "0 \<le> oc" "oc \<le> int (length (occs cs fid))"
    and room: "int (blen b) + chg_need cs fid oc (Suc (length (show_int (sdec_le v)))) \<le> int (bsize b)"
  shows "\<exists>b'. CFchg32 fp (Buf b) fid oc (Some v) len FLD_LONG = (Ret (), Buf b') \<and>
    fst (CFfind32 fp (Buf b') fid oc FLD_LONG) = Ret (v @ [0], 8)"
proof -
  let ?txt = "show_int (sdec_le v)"
  have v: "valid_id fid" using assms(3) by (simp add: valid_id_def valid_fldtype32_def)
  have bd: "- (2 ^ 63) \<le> sdec_le v" "sdec_le v < 2 ^ 63"
    using sdec_le_bounds [of v 8] assms(4) by auto
  have nz: "0 \<notin> set ?txt" using show_nat_no_zero by (auto simp: show_int_def)
  note gs = good_cvt_string [OF nz show_int_length [OF bd]]
  have cvt: "Ftypcvt32 fp True FLD_STRING (Some v) FLD_LONG len = Ret (?txt @ [0], Suc (length ?txt))"
    using typcvt_int_string(1) [of FLD_LONG v FLD_STRING fp len] assms(4) show_int_length [OF bd]
      u32_of_nat [of "Suc (length ?txt)"]
    by (simp add: fixed_len_def add.commute)
  have g: "good_value (Fldtype32 fid) (?txt @ [0]) (Suc (length ?txt)) (Suc (length ?txt))"
    using gs(1) assms(3) by simp
  from rep_chg_near(2) [OF assms(1) v g near(2) room, where d = "[]"]
  obtain b' where b': "fb_chg fid oc (Some (?txt @ [0])) (Suc (length ?txt)) b = (Ret (), b')"
    "becomes b b' ((occs cs)(fid := change_list (occs cs fid) oc
        (stored (Fldtype32 fid) (?txt @ [0]) (Suc (length ?txt))) []))" by blast
  have st: "stored (Fldtype32 fid) (?txt @ [0]) (Suc (length ?txt)) = ?txt @ [0]"
    using gs(2) assms(3) by simp
  obtain ds where ds: "rep b' ds" "occs ds fid = change_list (occs cs fid) oc (?txt @ [0]) []"
    using b'(2) unfolding st by (auto simp: becomes_def)
  have at: "0 \<le> oc" "oc < int (length (occs ds fid))" "occs ds fid ! nat oc = ?txt @ [0]"
    using near ds(2) by (auto simp: change_list_def nth_append split: if_splits)
  obtain q where q: "fb_find fid oc b' = Ret (q, Suc (length ?txt))"
    "rd q (Suc (length ?txt)) (bdata b') = ?txt @ [0]"
    using rep_find(1) [OF ds(1) v, of oc] at by auto
  have "Ftypcvt32 fp True FLD_LONG (Some (?txt @ [0])) FLD_STRING 0 = Ret (v @ [0], 8)"
    using typcvt_int_string(2) [of FLD_LONG v FLD_STRING fp] assms(4) by (simp add: fixed_len_def)
  then have "Ftypcvt32 fp True FLD_LONG (Some (?txt @ [0])) FLD_STRING (Suc (length ?txt)) = Ret (v @ [0], 8)"
    by (simp add: Ftypcvt32_def)
  then have "find_cvt fp fid oc FLD_LONG b' = Ret (v @ [0], 8)"
    using q assms(3) by (simp add: find_cvt_def)
  then show ?thesis
    using assms(2,3) b'(1) cvt v
    by (simp add: CFchg32_def CFfind32_def FBFR32_CHECK_def FLDID32_CHECK_def reading_def valid_id_def)
qed

lemma concat_length_bound: "\<forall>c \<in> set cs. length c \<le> m \<Longrightarrow> length (concat cs) \<le> length cs * m"
  by (induction cs) auto

lemma field_size_bound:
  assumes "n \<le> V" "V mod 8 = 0" "8 \<le> V" "n + 8 < 2 ^ 32"
  shows "field_size fid n \<le> 8 + V"
proof -
  have "fieldn_size n \<le> V"
    using fieldn_size_bounds [OF assms(4)] assms(1,2) by presburger
  then show ?thesis using assms(3) by (simp add: field_size_def split: storage_class.split)
qed

definition blank :: fbfr where
  "blank = \<lparr>bsize = 0, blen = 0, boffs = [0, 0, 0, 0, 0, 0, 0], bpad = [0, 0, 0, 0], bdata = (\<lambda>_. 0)\<rparr>"

lemma blank_init: "40 \<le> n \<Longrightarrow> n < 2 ^ 32 \<Longrightarrow> rep (snd (fb_init n blank)) []"
  "40 \<le> n \<Longrightarrow> n < 2 ^ 32 \<Longrightarrow> bsize (snd (fb_init n blank)) = n - 40"
  using rep_init(2,3) [of n blank] by (simp_all add: blank_def)

subsection \<open>Properties\<close>

text \<open>a \<open>long\<close> stored in a string field with \<open>CFchg32\<close> is what \<open>CFfind32\<close> returns for
  that occurrence, as a \<open>long\<close>, for every 64-bit value.\<close>

theorem cf_long_roundtrip:
  assumes "rep b cs" "fid \<noteq> BADFLDID" "Fldtype32 fid = FLD_STRING" "length v = 8"
    "0 \<le> oc" "oc \<le> int (length (occs cs fid))"
    "int (blen b) + chg_need cs fid oc (Suc (length (show_int (sdec_le v)))) \<le> int (bsize b)"
  shows "\<exists>b'. CFchg32 fp (Buf b) fid oc (Some v) len FLD_LONG = (Ret (), Buf b') \<and>
    fst (CFfind32 fp (Buf b') fid oc FLD_LONG) = Ret (v @ [0], 8)"
  by (rule cf_long_string [OF assms])

theorem cf_long_roundtrip_witness:
  "\<forall>fp. \<exists>b'. CFchg32 fp (Buf (snd (fb_init 2048 blank))) 0x05000001 0 (Some (enc_le 8 (-42))) 8 FLD_LONG =
         (Ret (), Buf b') \<and>
        fst (CFfind32 fp (Buf b') 0x05000001 0 FLD_LONG) = Ret (enc_le 8 (-42) @ [0], 8)"
proof (rule allI, rule cf_long_roundtrip [where cs = "[]"])
  have s: "sdec_le (enc_le 8 (-42)) = -42" by (rule sdec_enc_le) simp_all
  have "length (show_int (-42)) < 1000" by (rule show_int_length) simp_all
  then have "field_size 0x05000001 (Suc (length (show_int (- 42)))) \<le> 8 + 1000"
    by (intro field_size_bound) simp_all
  then show "int (blen (snd (fb_init 2048 blank))) +
      chg_need [] 0x05000001 0 (Suc (length (show_int (sdec_le (enc_le 8 (- 42)))))) \<le>
      int (bsize (snd (fb_init 2048 blank)))"
    using rep_blen [OF blank_init(1) [of 2048]]
    by (simp add: s chg_need_def old_size_def same_id_def blank_init(2))
qed (simp_all add: blank_init Fldtype32_def)

text \<open>a buffer sized by \<open>Fneeded32(F, V)\<close> holds \<open>F\<close> values of up to \<open>V\<close> bytes when \<open>V\<close> is
  a positive multiple of 8: as long as there are fewer than \<open>F\<close> fields, adding one succeeds.\<close>

theorem needed_suffices:
  assumes "rep b cs" "length cs < F" "\<forall>c \<in> set cs. length c \<le> 8 + V"
    "int (fb_size b) = Fneeded32 (int F) V"
    "V mod 8 = 0" "8 \<le> V" "n \<le> V" "F * (8 + V) < 2 ^ 31"
    "valid_id fid" "fid \<noteq> BADFLDID" "good_value (Fldtype32 fid) v flen n"
  shows "fst (Fadd32 (Buf b) fid (Some v) flen) = Ret ()"
proof -
  have need: "chg_need cs fid (int (length (occs cs fid))) n = int (field_size fid n)"
    by (simp add: chg_need_def old_size_def length_occs)
  have "n + 8 < 2 ^ 32" using assms(11) by (auto simp: good_value_def)
  then have fs: "field_size fid n \<le> 8 + V" by (rule field_size_bound [OF assms(7,5,6)])
  have "int (F * (8 + V)) < 2 ^ 31" using assms(8) by (simp only: of_nat_less_numeral_power_cancel_iff)
  then have e: "int (F * (8 + V)) + 40 < 2 ^ 63" by simp
  have "Fneeded32 (int F) V = int (F * (8 + V)) + 40"
    using e by (simp add: Fneeded32_def Fbfr32_needed_def Let_def)
  then have "int (bsize b) = int (F * (8 + V))" using assms(4) by (simp add: fb_size_def)
  then have sz: "bsize b = F * (8 + V)" by (simp only: of_nat_eq_iff)
  have "blen b \<le> length cs * (8 + V)"
    using concat_length_bound [OF assms(3)] rep_blen [OF assms(1)] by simp
  moreover have "Suc (length cs) * (8 + V) \<le> F * (8 + V)" using assms(2) by (intro mult_le_mono1) simp
  ultimately have "blen b + field_size fid n \<le> bsize b" using fs sz by simp
  then have "int (blen b) + chg_need cs fid (int (length (occs cs fid))) n \<le> int (bsize b)"
    using need by simp
  from rep_chg_near(2) [OF assms(1,9,11) order_refl this, where d = "[]"]
  have "fst (fb_chg fid (int (length (occs cs fid))) (Some v) flen b) = Ret ()" by auto
  then show ?thesis
    using assms(9,10) rep_occur [OF assms(1,9)]
    by (auto simp: Fadd32_def FBFR32_CHECK_def FLDID32_CHECK_def valid_id_def split: prod.split)
qed

theorem needed_suffices_witness:
  "fst (Fadd32 (Buf (snd (fb_init (nat (Fneeded32 2 8)) blank))) 0x05000001 (Some [104, 105, 0]) 0) = Ret ()"
proof (rule needed_suffices [where cs = "[]" and F = 2 and V = 8 and n = 3])
  have n: "Fneeded32 2 8 = 72" by (simp add: Fneeded32_def Fbfr32_needed_def)
  show "rep (snd (fb_init (nat (Fneeded32 2 8)) blank)) []" by (simp add: n blank_init)
  show "int (fb_size (snd (fb_init (nat (Fneeded32 2 8)) blank))) = Fneeded32 (int 2) 8"
    by (simp add: n fb_size_def blank_init)
  show "good_value (Fldtype32 0x05000001) [104, 105, 0] 0 3"
    by (simp add: good_value_def value_len_def eval_chunk)
qed (simp_all add: eval_chunk)

text \<open>without that the estimate is too small: \<open>Falloc32(1, 1)\<close> gives a buffer in which
  one string of one byte (the empty string) does not fit.\<close>

theorem needed_too_small:
  "fst (Fadd32 (snd (Falloc32 (\<lambda>_. Buf blank) 1 1)) 0x05000001 (Some [0]) 0) = Err FNOSPACE"
proof -
  have n: "Fneeded32 1 1 = 49" by (simp add: Fneeded32_def Fbfr32_needed_def)
  let ?b = "snd (fb_init 49 blank)"
  have a: "snd (Falloc32 (\<lambda>_. Buf blank) 1 1) = Buf ?b"
    by (simp add: Falloc32_def Finit32_def FBFR32_CHECK_def n Let_def u32_def Fneeded32_def
        Fbfr32_needed_def split: prod.split)
  have r: "rep ?b []" "bsize ?b = 9" using blank_init [of 49] by simp_all
  have v: "valid_id 0x05000001" by (simp add: eval_chunk)
  have g: "good_value (Fldtype32 0x05000001) [0] 0 1"
    by (simp add: good_value_def value_len_def eval_chunk)
  have "fb_chg 0x05000001 0 (Some [0]) 0 ?b = (Err FNOSPACE, ?b)"
    by (rule rep_chg_near(1) [OF r(1) v g])
      (simp_all add: r rep_blen [OF r(1)] chg_need_def old_size_def same_id_def field_size_def eval_chunk)
  then show ?thesis
    using rep_occur [OF r(1) v] v
    by (simp add: a Fadd32_def FBFR32_CHECK_def FLDID32_CHECK_def valid_id_def del: One_nat_def)
qed

end
