(* ===== verification/Fml_Mutate.thy ===== *)
theory Fml_Mutate
  imports Fml_Api
begin

text \<open>
  \<open>fml32ptr::mutate\<close> of src/fux.h: apply an operation, and as long as it fails for lack of
  space double the buffer and try again. The locale \<open>growing\<close> is what the loop needs of
  the operation to return; \<open>Fchg32\<close> and \<open>Fcpy32\<close> provide it.
\<close>

text \<open>
  \<open>tprealloc\<close> to twice the size: at least the default size of the type, and \<open>reinit\<close> with
  the new size.
\<close>

definition grow :: "fbfr \<Rightarrow> fbfr" where
  "grow b = fb_reinit (max 512 (2 * fb_size b)) b"

partial_function (option) mutate ::
    "(fbfr \<Rightarrow> 'r outcome \<times> fbfr) \<Rightarrow> fbfr \<Rightarrow> ('r outcome \<times> fbfr) option" where
  "mutate f b =
     (case f b of
        (Err e, b') \<Rightarrow> if e = FNOSPACE then mutate f (grow b') else Some (Err e, b')
      | (r, b') \<Rightarrow> Some (r, b'))"

declare mutate.simps [code]

locale growing =
  fixes op :: "fbfr \<Rightarrow> 'r outcome \<times> fbfr"
    and inv :: "fbfr \<Rightarrow> bool"
    and room :: nat
  assumes fits: "inv b \<Longrightarrow> room \<le> bsize b \<Longrightarrow> \<exists>r b'. op b = (Ret r, b')"
    and tight: "inv b \<Longrightarrow> \<exists>r b'. op b = (Ret r, b') \<or>
                  (op b = (Err FNOSPACE, b') \<and> inv b' \<and> bsize b' = bsize b)"
    and inv_grow: "inv b \<Longrightarrow> bsize b \<le> n \<Longrightarrow> n + min_size < 2 ^ 32 \<Longrightarrow> inv (b\<lparr>bsize := n\<rparr>)"
begin

lemma grow_bsize:
  assumes "bsize b < room" "room + min_size < 2 ^ 31"
  shows "grow b = b\<lparr>bsize := max 512 (2 * fb_size b) - min_size\<rparr>"
    "bsize b < max 512 (2 * fb_size b) - min_size"
    "max 512 (2 * fb_size b) - min_size + min_size < 2 ^ 32"
proof -
  show "bsize b < max 512 (2 * fb_size b) - min_size" by (auto simp: fb_size_def)
  show "max 512 (2 * fb_size b) - min_size + min_size < 2 ^ 32" using assms by (auto simp: fb_size_def)
  moreover have "int (max 512 (2 * fb_size b)) - int min_size = int (max 512 (2 * fb_size b) - min_size)"
    by (auto simp: fb_size_def)
  ultimately show "grow b = b\<lparr>bsize := max 512 (2 * fb_size b) - min_size\<rparr>"
    using u32_of_nat [of "max 512 (2 * fb_size b) - min_size"] unfolding grow_def fb_reinit_def by simp
qed

text \<open>The loop returns, with the result of the operation on a buffer that satisfies \<open>inv\<close>.\<close>

lemma mutate_returns:
  assumes "room + min_size < 2 ^ 31"
  shows "inv b \<Longrightarrow> \<exists>b1 r b'. inv b1 \<and> op b1 = (Ret r, b') \<and> mutate op b = Some (Ret r, b')"
proof (induction "room - bsize b" arbitrary: b rule: less_induct)
  case less
  from tight [OF less.prems] consider r b' where "op b = (Ret r, b')"
    | b' where "op b = (Err FNOSPACE, b')" "inv b'" "bsize b' = bsize b" by blast
  then show ?case
  proof cases
    case 1
    then show ?thesis using less.prems by (intro exI [of _ b]) (simp add: mutate.simps)
  next
    case 2
    have "bsize b < room" using fits [OF less.prems] 2(1) by (metis Pair_inject linorder_not_less outcome.distinct(1))
    then have lt: "bsize b' < room" using 2(3) by simp
    note g = grow_bsize [OF lt assms]
    have "inv (grow b')" using inv_grow [OF 2(2) less_imp_le [OF g(2)] g(3)] g(1) by simp
    moreover have "room - bsize (grow b') < room - bsize b" using g(1,2) lt 2(3) by simp
    ultimately obtain b1 r c where "inv b1" "op b1 = (Ret r, c)" "mutate op (grow b') = Some (Ret r, c)"
      using less.hyps by blast
    then show ?thesis using 2(1) by (intro exI [of _ b1]) (simp add: mutate.simps)
  qed
qed

end

subsection \<open>Fchg32 and Fcpy32 grow\<close>

lemma rep_grow: "rep b cs \<Longrightarrow> bsize b \<le> n \<Longrightarrow> n + min_size < 2 ^ 32 \<Longrightarrow> rep (b\<lparr>bsize := n\<rparr>) cs"
  by (simp add: rep_def)

text \<open>A represented buffer and a change that needs no filling.\<close>

definition chg_ready :: "chunk list \<Rightarrow> fldid \<Rightarrow> int \<Rightarrow> byte list \<Rightarrow> nat \<Rightarrow> nat \<Rightarrow> fbfr \<Rightarrow> bool" where
  "chg_ready cs fid oc v flen n b \<longleftrightarrow>
     rep b cs \<and> valid_id fid \<and> good_value (Fldtype32 fid) v flen n \<and> oc \<le> int (length (occs cs fid))"

definition chg_room :: "chunk list \<Rightarrow> fldid \<Rightarrow> int \<Rightarrow> nat \<Rightarrow> nat" where
  "chg_room cs fid oc n = nat (int (length (concat cs)) + chg_need cs fid oc n)"

interpretation chg_grows: growing "fb_chg fid oc (Some v) flen" "chg_ready cs fid oc v flen n"
    "chg_room cs fid oc n" for cs fid oc v flen n
proof
  fix b
  assume i: "chg_ready cs fid oc v flen n b"
  then have r: "rep b cs" "valid_id fid" "good_value (Fldtype32 fid) v flen n"
    "oc \<le> int (length (occs cs fid))" by (auto simp: chg_ready_def)
  have bl: "blen b = length (concat cs)" by (rule rep_blen [OF r(1)])
  note chg1 = rep_chg_near(1) [OF r] and chg2 = rep_chg_near(2) [OF r, where d = "[]"]
  show "\<exists>r b'. fb_chg fid oc (Some v) flen b = (Ret r, b')" if "chg_room cs fid oc n \<le> bsize b"
  proof -
    have "int (blen b) + chg_need cs fid oc n \<le> int (bsize b)" using that bl by (simp add: chg_room_def)
    then show ?thesis using chg2 by blast
  qed
  show "\<exists>r b'. fb_chg fid oc (Some v) flen b = (Ret r, b') \<or>
      (fb_chg fid oc (Some v) flen b = (Err FNOSPACE, b') \<and> chg_ready cs fid oc v flen n b' \<and> bsize b' = bsize b)"
  proof (cases "int (blen b) + chg_need cs fid oc n \<le> int (bsize b)")
    case True
    then show ?thesis using chg2 by blast
  next
    case False
    then show ?thesis using chg1 i by auto
  qed
  show "chg_ready cs fid oc v flen n (b\<lparr>bsize := m\<rparr>)" if "bsize b \<le> m" "m + min_size < 2 ^ 32" for m
    using r rep_grow [OF r(1) that] by (simp add: chg_ready_def)
qed

definition cpy_ready :: "fbfr \<Rightarrow> bool" where
  "cpy_ready b \<longleftrightarrow> bsize b + min_size < 2 ^ 32 \<and> length (bpad b) = 4"

interpretation cpy_grows: growing "fb_cpy src" cpy_ready "blen src" for src
  by unfold_locales (auto simp: fb_cpy_def cpy_ready_def fb_size_def fb_used_def)

text \<open>What the loop leaves: the changed values, in a buffer longer by what the change needs.\<close>

lemma mutate_chg:
  assumes "rep b cs" "valid_id fid" "good_value (Fldtype32 fid) v flen n"
    "oc \<le> int (length (occs cs fid))" "chg_room cs fid oc n + min_size < 2 ^ 31"
  shows "\<exists>b' ds. mutate (fb_chg fid oc (Some v) flen) b = Some (Ret (), b') \<and> rep b' ds \<and>
           occs ds = (occs cs)(fid := change_list (occs cs fid) oc (stored (Fldtype32 fid) v n) []) \<and>
           int (blen b') = int (blen b) + chg_need cs fid oc n"
proof -
  have "chg_ready cs fid oc v flen n b" using assms by (simp add: chg_ready_def)
  from chg_grows.mutate_returns [OF assms(5) this] obtain b1 b'
    where m: "chg_ready cs fid oc v flen n b1" "fb_chg fid oc (Some v) flen b1 = (Ret (), b')"
      "mutate (fb_chg fid oc (Some v) flen) b = Some (Ret (), b')" by auto
  then have r: "rep b1 cs" "valid_id fid" "good_value (Fldtype32 fid) v flen n"
    "oc \<le> int (length (occs cs fid))" by (auto simp: chg_ready_def)
  have "int (blen b1) + chg_need cs fid oc n \<le> int (bsize b1)" using rep_chg_near(1) [OF r] m(2) by fastforce
  from rep_chg_near(2) [OF r this, where d = "[]"] m(2)
  have "becomes b1 b' ((occs cs)(fid := change_list (occs cs fid) oc (stored (Fldtype32 fid) v n) []))"
    "int (blen b') = int (blen b1) + chg_need cs fid oc n" by auto
  moreover have "blen b1 = blen b" using rep_blen [OF r(1)] rep_blen [OF assms(1)] by simp
  ultimately show ?thesis using m(3) by (auto simp: becomes_def)
qed

subsection \<open>Properties\<close>

text \<open>C33: \<open>fml32buf::put\<close> through \<open>mutate\<close> returns without an error, however small the buffer
  was, as long as what is needed stays below 2 GB; the result holds the changed values.\<close>

theorem put_grows:
  assumes "rep b cs" "valid_id fid" "good_value (Fldtype32 fid) v flen n"
    "oc \<le> int (length (occs cs fid))" "chg_room cs fid oc n + min_size < 2 ^ 31"
  shows "\<exists>b' ds. mutate (fb_chg fid oc (Some v) flen) b = Some (Ret (), b') \<and> rep b' ds \<and>
           occs ds = (occs cs)(fid := change_list (occs cs fid) oc (stored (Fldtype32 fid) v n) [])"
  using mutate_chg [OF assms] by blast

theorem put_grows_witness:
  "\<exists>b'. mutate (fb_chg 0x0100000B 0 (Some (enc_le 8 7)) 0) (snd (fb_init 40 blank)) = Some (Ret (), b')"
proof -
  let ?b = "snd (fb_init 40 blank)"
  have r: "rep ?b []" by (simp add: blank_init)
  have v: "valid_id 0x0100000B" by (simp add: eval_chunk)
  have g: "good_value (Fldtype32 0x0100000B) (enc_le 8 7) 0 8"
    by (simp add: good_value_def value_len_def eval_chunk)
  have "chg_room [] 0x0100000B 0 8 + min_size < 2 ^ 31"
    by (simp add: chg_room_def chg_need_def old_size_def same_id_def field_size_def eval_chunk)
  from put_grows [OF r v g _ this] show ?thesis by auto
qed

end
