(* ===== verification/Exceptions.thy ===== *)
theory Exceptions
  imports Byte_Memory
begin

text \<open>
  C++ exceptions as values. \<open>cpp_error\<close> names the standard exception classes the program
  throws; an operation that may throw returns \<open>cpp_error + 'a\<close>, and one that also changes
  a state returns the state beside it, because what was written before the throw stays
  written.
\<close>

datatype cpp_error =
  Range_error | Logic_error | Invalid_argument | Out_of_range | Length_error |
  Runtime_error | System_error | Fml32buf_error

type_synonym 'a except = "cpp_error + 'a"

primrec bind_except :: "'a except \<Rightarrow> ('a \<Rightarrow> 'b except) \<Rightarrow> 'b except" where
  "bind_except (Inl e) f = Inl e"
| "bind_except (Inr a) f = f a"

text \<open>Sequencing of operations that change a state and may throw.\<close>

definition seqx :: "('e + 'a) \<times> 's \<Rightarrow> ('a \<Rightarrow> 's \<Rightarrow> ('e + 'b) \<times> 's) \<Rightarrow> ('e + 'b) \<times> 's" where
  "seqx r f = (case r of (Inl e, s) \<Rightarrow> (Inl e, s) | (Inr a, s) \<Rightarrow> f a s)"

lemma seqx_simps [simp]: "seqx (Inl e, s) f = (Inl e, s)" "seqx (Inr a, s) f = f a s"
  by (simp_all add: seqx_def)

subsection \<open>Lookup loops over tables that check their index\<close>

text \<open>
  \<open>for (i = 0; i < len; i++) { auto &x = table.at(i); if (P(x)) return i; }\<close> for an element
  access \<open>f\<close> that may throw: \<open>n\<close> rounds are left, the index is \<open>i\<close>.
\<close>

fun scan_at :: "(nat \<Rightarrow> 'a except) \<Rightarrow> ('a \<Rightarrow> bool) \<Rightarrow> nat \<Rightarrow> nat \<Rightarrow> nat option except" where
  "scan_at f P 0 i = Inr None"
| "scan_at f P (Suc n) i =
     (case f i of
        Inl e \<Rightarrow> Inl e
      | Inr x \<Rightarrow> if P x then Inr (Some i) else scan_at f P n (Suc i))"

lemma nth_update: "j < length xs \<Longrightarrow> xs[i := x] ! j = (if i = j then x else xs ! j)"
  by (cases "i = j") simp_all

lemma scan_at_search:
  assumes "\<forall>j < length xs. f (i + j) = Inr (xs ! j)"
  shows "scan_at f P (length xs) i = Inr (search_from i P xs)"
  using assms
proof (induction xs arbitrary: i)
  case Nil
  then show ?case by simp
next
  case (Cons x xs)
  have "f i = Inr x" using Cons.prems by force
  moreover have "\<forall>j < length xs. f (Suc i + j) = Inr (xs ! j)" using Cons.prems by force
  ultimately show ?case using Cons.IH [of "Suc i"] by simp
qed

lemma scan_at_take:
  assumes "n \<le> length xs" "\<forall>j < n. f j = Inr (xs ! j)"
  shows "scan_at f P n 0 = Inr (search P (take n xs))"
  using scan_at_search [of "take n xs" f 0 P] assms by (simp add: min.absorb2)

text \<open>An index with \<open>badoff\<close>, the largest \<open>size_t\<close>, for an element that is not there.\<close>

definition badoff :: nat where "badoff = 2 ^ 64 - 1"

definition or_badoff :: "nat option \<Rightarrow> nat" where
  "or_badoff r = (case r of Some i \<Rightarrow> i | None \<Rightarrow> badoff)"

text \<open>The characters of a fixed-size char array before the first NUL.\<close>

definition c_string :: "byte list \<Rightarrow> byte list" where
  "c_string bs = takeWhile (\<lambda>b. b \<noteq> 0) bs"

lemma c_string_append_nul [simp]: "0 \<notin> set xs \<Longrightarrow> c_string (xs @ 0 # ys) = xs"
  by (induction xs) (auto simp: c_string_def)

lemma c_string_append: "0 \<notin> set xs \<Longrightarrow> c_string (xs @ ys) = xs @ c_string ys"
  by (induction xs) (auto simp: c_string_def)

lemma c_string_zeros [simp]: "c_string (replicate n 0) = []"
  by (cases n) (auto simp: c_string_def)

lemma c_string_no_nul: "0 \<notin> set (c_string xs)"
  by (auto simp: c_string_def dest: set_takeWhileD)

lemma c_string_idle: "0 \<notin> set xs \<Longrightarrow> c_string xs = xs"
  by (auto simp: c_string_def takeWhile_eq_all_conv)

end
