(* ===== verification/Base64.thy ===== *)
theory Base64
  imports Exceptions
begin

text \<open>
  src/base64.cpp: \<open>base64encode\<close> and \<open>base64decode\<close>, and \<open>base64chars\<close> of src/misc.h. The
  loops over blocks are recursions on the input bytes; the output is the bytes written to
  the output buffer. An exception is a value of \<open>cpp_error\<close>.
\<close>

definition encoding :: "byte list" where
  "encoding =
     [65, 66, 67, 68, 69, 70, 71, 72, 73, 74, 75, 76, 77, 78, 79, 80,
      81, 82, 83, 84, 85, 86, 87, 88, 89, 90, 97, 98, 99, 100, 101, 102,
      103, 104, 105, 106, 107, 108, 109, 110, 111, 112, 113, 114, 115, 116, 117, 118,
      119, 120, 121, 122, 48, 49, 50, 51, 52, 53, 54, 55, 56, 57, 43, 47]"

definition decoding :: "byte list" where
  "decoding =
     [128, 128, 128, 128, 128, 128, 128, 128, 128, 128, 128, 128, 128, 128, 128, 128,
      128, 128, 128, 128, 128, 128, 128, 128, 128, 128, 128, 128, 128, 128, 128, 128,
      128, 128, 128, 128, 128, 128, 128, 128, 128, 128, 128, 62, 128, 128, 128, 63,
      52, 53, 54, 55, 56, 57, 58, 59, 60, 61, 128, 128, 128, 128, 128, 128,
      128, 0, 1, 2, 3, 4, 5, 6, 7, 8, 9, 10, 11, 12, 13, 14,
      15, 16, 17, 18, 19, 20, 21, 22, 23, 24, 25, 128, 128, 128, 128, 128,
      128, 26, 27, 28, 29, 30, 31, 32, 33, 34, 35, 36, 37, 38, 39, 40,
      41, 42, 43, 44, 45, 46, 47, 48, 49, 50, 51, 128, 128, 128, 128, 128,
      128, 128, 128, 128, 128, 128, 128, 128, 128, 128, 128, 128, 128, 128, 128, 128,
      128, 128, 128, 128, 128, 128, 128, 128, 128, 128, 128, 128, 128, 128, 128, 128,
      128, 128, 128, 128, 128, 128, 128, 128, 128, 128, 128, 128, 128, 128, 128, 128,
      128, 128, 128, 128, 128, 128, 128, 128, 128, 128, 128, 128, 128, 128, 128, 128,
      128, 128, 128, 128, 128, 128, 128, 128, 128, 128, 128, 128, 128, 128, 128, 128,
      128, 128, 128, 128, 128, 128, 128, 128, 128, 128, 128, 128, 128, 128, 128, 128,
      128, 128, 128, 128, 128, 128, 128, 128, 128, 128, 128, 128, 128, 128, 128, 128,
      128, 128, 128, 128, 128, 128, 128, 128, 128, 128, 128, 128, 128, 128, 128, 128]"

text \<open>The character \<open>=\<close>.\<close>

abbreviation pad :: byte where "pad \<equiv> 61"

definition enc_char :: "32 word \<Rightarrow> nat \<Rightarrow> byte" where
  "enc_char n k = encoding ! unat (drop_bit k n AND 63)"

definition dec_char :: "byte \<Rightarrow> byte" where
  "dec_char c = decoding ! unat c"

definition block24 :: "byte \<Rightarrow> byte \<Rightarrow> byte \<Rightarrow> 32 word" where
  "block24 a b c = push_bit 16 (ucast a) + push_bit 8 (ucast b) + ucast c"

fun encode_blocks :: "byte list \<Rightarrow> byte list" where
  "encode_blocks (a # b # c # rest) =
     (let n = block24 a b c
      in enc_char n 18 # enc_char n 12 # enc_char n 6 # enc_char n 0 # encode_blocks rest)"
| "encode_blocks [a, b] =
     (let n = block24 a b 0 in [enc_char n 18, enc_char n 12, enc_char n 6, pad])"
| "encode_blocks [a] = (let n = block24 a 0 0 in [enc_char n 18, enc_char n 12, pad, pad])"
| "encode_blocks [] = []"

definition base64encode :: "byte list \<Rightarrow> nat \<Rightarrow> byte list except" where
  "base64encode ibuf olen =
     (let blocks = length ibuf div 3; padded = length ibuf mod 3
      in if olen < blocks * 4 + (if padded > 0 then 4 else 0) then Inl Range_error
         else Inr (encode_blocks ibuf))"

definition join24 :: "byte \<Rightarrow> byte \<Rightarrow> byte \<Rightarrow> byte \<Rightarrow> 32 word" where
  "join24 c0 c1 c2 c3 =
     push_bit 18 (ucast c0) OR push_bit 12 (ucast c1) OR push_bit 6 (ucast c2) OR ucast c3"

definition out_byte :: "32 word \<Rightarrow> nat \<Rightarrow> byte" where
  "out_byte n k = ucast (drop_bit k n AND 255)"

text \<open>
  The blocks before the last are decoded whole; in the last one a \<open>=\<close> in third or fourth
  place ends the data. The second component is the \<open>err\<close> flag.
\<close>

fun decode_blocks :: "byte \<Rightarrow> byte list \<Rightarrow> byte list \<times> byte" where
  "decode_blocks err (i0 # i1 # i2 # i3 # rest) =
     (if rest \<noteq> [] then
        let c0 = dec_char i0; c1 = dec_char i1; c2 = dec_char i2; c3 = dec_char i3;
            n = join24 c0 c1 c2 c3;
            r = decode_blocks (err OR c0 OR c1 OR c2 OR c3) rest
        in (out_byte n 16 # out_byte n 8 # out_byte n 0 # fst r, snd r)
      else
        let c0 = dec_char i0; c1 = dec_char i1; err1 = err OR c0 OR c1
        in if i2 \<noteq> pad then
             let c2 = dec_char i2; err2 = err1 OR c2
             in if i3 \<noteq> pad then
                  let c3 = dec_char i3; n = join24 c0 c1 c2 c3
                  in ([out_byte n 16, out_byte n 8, out_byte n 0], err2 OR c3)
                else let n = join24 c0 c1 c2 0 in ([out_byte n 16, out_byte n 8], err2)
           else let n = join24 c0 c1 0 0 in ([out_byte n 16], err1))"
| "decode_blocks err _ = ([], err)"

definition base64decode :: "byte list \<Rightarrow> nat \<Rightarrow> byte list except" where
  "base64decode ibuf olen =
     (if olen < length ibuf div 4 * 3 then Inl Range_error
      else if length ibuf mod 4 \<noteq> 0 then Inl Logic_error
      else case decode_blocks 0 ibuf of
             (out, err) \<Rightarrow> if err AND 128 \<noteq> 0 then Inl Invalid_argument else Inr out)"

definition base64chars :: "nat \<Rightarrow> nat" where
  "base64chars ilen =
     (let blocks = ilen div 3; needed = blocks * 4
      in if blocks * 3 < ilen then needed + 4 else needed)"

subsection \<open>The tables are inverse to each other\<close>

lemma table_inverse:
  "map (\<lambda>e. decoding ! unat e) encoding = map word_of_nat [0..<64]"
  "pad \<notin> set encoding" "length encoding = 64"
  by (simp_all add: encoding_def decoding_def upt_conv_Cons)

lemma dec_enc_table:
  assumes "k < 64"
  shows "dec_char (encoding ! k) = word_of_nat k" "encoding ! k \<noteq> pad"
proof -
  have "map (\<lambda>e. decoding ! unat e) encoding ! k = map word_of_nat [0..<64] ! k"
    by (simp only: table_inverse(1))
  then show "dec_char (encoding ! k) = word_of_nat k"
    using assms by (simp add: dec_char_def table_inverse(3) del: upt_rec_numeral)
  show "encoding ! k \<noteq> pad" using assms table_inverse(2,3) nth_mem [of k encoding] by metis
qed

lemma six_bits:
  fixes w :: "32 word"
  shows "unat (w AND 63) < 64"
proof -
  have "w AND 63 \<le> 63" by (rule word_and_le1)
  then have "unat (w AND 63) \<le> unat (63 :: 32 word)" by (simp only: word_le_nat_alt)
  then show ?thesis by simp
qed

lemma dec_enc_char: "dec_char (enc_char n k) = ucast (drop_bit k n AND 63)" "enc_char n k \<noteq> pad"
  using dec_enc_table [OF six_bits [of "drop_bit k n"]] by (simp_all add: enc_char_def)

lemma small_err:
  fixes w :: "32 word"
  shows "bit (ucast (w AND 63) :: byte) 7 = False"
proof -
  have "w AND 63 = take_bit 6 w" by (simp add: take_bit_eq_mask mask_eq_exp_minus_1)
  then show ?thesis by (simp add: bit_simps)
qed

subsection \<open>One block\<close>

lemma block24_or: "block24 a b c = push_bit 16 (ucast a) OR push_bit 8 (ucast b) OR ucast c"
proof -
  have "push_bit 16 (ucast a) + push_bit 8 (ucast b) = (push_bit 16 (ucast a) OR push_bit 8 (ucast b) :: 32 word)"
    by (rule disjunctive_add) (auto simp: bit_simps dest: bit_imp_le_length)
  moreover have "(push_bit 16 (ucast a) OR push_bit 8 (ucast b)) + ucast c =
      (push_bit 16 (ucast a) OR push_bit 8 (ucast b) OR ucast c :: 32 word)"
    by (subst disjunctive_add) (auto simp: bit_simps or.assoc dest: bit_imp_le_length)
  ultimately show ?thesis by (simp add: block24_def)
qed

lemma join_split:
  assumes "bit n 24 = False" "\<And>k. 24 \<le> k \<Longrightarrow> \<not> bit n k"
  shows "join24 (ucast (drop_bit 18 n AND 63)) (ucast (drop_bit 12 n AND 63))
           (ucast (drop_bit 6 n AND 63)) (ucast (drop_bit 0 n AND 63)) = n"
proof (rule bit_word_eqI)
  fix k :: nat assume k: "k < LENGTH(32)"
  have m: "(63 :: 32 word) = mask 6" by (simp add: mask_eq_exp_minus_1)
  consider "k < 6" | "6 \<le> k" "k < 12" | "12 \<le> k" "k < 18" | "18 \<le> k" "k < 24" | "24 \<le> k" by linarith
  then show "bit (join24 (ucast (drop_bit 18 n AND 63)) (ucast (drop_bit 12 n AND 63))
           (ucast (drop_bit 6 n AND 63)) (ucast (drop_bit 0 n AND 63))) k = bit n k"
    using k assms(2) unfolding join24_def m by cases (auto simp: bit_simps)
qed

lemma block24_high: "24 \<le> k \<Longrightarrow> \<not> bit (block24 a b c) k"
  by (auto simp: block24_or bit_simps dest: bit_imp_le_length)

lemma join_block:
  "join24 (dec_char (enc_char (block24 a b c) 18)) (dec_char (enc_char (block24 a b c) 12))
     (dec_char (enc_char (block24 a b c) 6)) (dec_char (enc_char (block24 a b c) 0)) = block24 a b c"
  unfolding dec_enc_char(1) by (rule join_split) (auto simp: block24_high)

lemma out_block:
  "out_byte (block24 a b c) 16 = a" "out_byte (block24 a b c) 8 = b" "out_byte (block24 a b c) 0 = c"
proof -
  have m: "(255 :: 32 word) = mask 8" by (simp add: mask_eq_exp_minus_1)
  show "out_byte (block24 a b c) 16 = a" "out_byte (block24 a b c) 8 = b" "out_byte (block24 a b c) 0 = c"
    unfolding out_byte_def block24_or m by (rule bit_word_eqI; auto simp: bit_simps dest: bit_imp_le_length)+
qed

subsection \<open>Round trip\<close>

lemma err_bit: "bit (dec_char (enc_char n k)) 7 = False"
  unfolding dec_enc_char(1) by (rule small_err)

lemma join_zero:
  "join24 (dec_char (enc_char (block24 a b 0) 18)) (dec_char (enc_char (block24 a b 0) 12))
     (dec_char (enc_char (block24 a b 0) 6)) 0 = block24 a b 0"
  "join24 (dec_char (enc_char (block24 a 0 0) 18)) (dec_char (enc_char (block24 a 0 0) 12)) 0 0 =
     block24 a 0 0"
proof -
  have m: "(63 :: 32 word) = mask 6" by (simp add: mask_eq_exp_minus_1)
  have z: "dec_char (enc_char (block24 a b 0) 0) = 0" for b
    unfolding dec_enc_char(1) block24_or m by (rule bit_word_eqI) (auto simp: bit_simps dest: bit_imp_le_length)
  have z6: "dec_char (enc_char (block24 a 0 0) 6) = 0"
    unfolding dec_enc_char(1) block24_or m by (rule bit_word_eqI) (auto simp: bit_simps dest: bit_imp_le_length)
  show "join24 (dec_char (enc_char (block24 a b 0) 18)) (dec_char (enc_char (block24 a b 0) 12))
     (dec_char (enc_char (block24 a b 0) 6)) 0 = block24 a b 0"
    using join_block [of a b 0] by (simp add: z)
  show "join24 (dec_char (enc_char (block24 a 0 0) 18)) (dec_char (enc_char (block24 a 0 0) 12)) 0 0 =
     block24 a 0 0"
    using join_block [of a 0 0] by (simp add: z z6)
qed

lemma encode_blocks_nonempty: "xs \<noteq> [] \<Longrightarrow> encode_blocks xs \<noteq> []"
  by (induction xs rule: encode_blocks.induct) (simp_all add: Let_def)

lemma decode_encode:
  "fst (decode_blocks err (encode_blocks xs)) = xs"
  "bit (snd (decode_blocks err (encode_blocks xs))) 7 = bit err 7"
proof -
  have "fst (decode_blocks err (encode_blocks xs)) = xs \<and>
      bit (snd (decode_blocks err (encode_blocks xs))) 7 = bit err 7"
  proof (induction xs arbitrary: err rule: encode_blocks.induct)
    case (1 a b c rest)
    show ?case
    proof (cases "rest = []")
      case True
      then show ?thesis
        by (simp add: Let_def join_block out_block dec_enc_char(2) bit_or_iff err_bit)
    next
      case False
      then show ?thesis
        using 1 encode_blocks_nonempty [of rest]
        by (simp add: Let_def join_block out_block bit_or_iff err_bit)
    qed
  next
    case (2 a b)
    then show ?case
      using out_block [of a b 0] by (simp add: Let_def join_zero dec_enc_char(2) bit_or_iff err_bit)
  next
    case (3 a)
    then show ?case
      using out_block [of a 0 0] by (simp add: Let_def join_zero bit_or_iff err_bit)
  next
    case 4
    then show ?case by simp
  qed
  then show "fst (decode_blocks err (encode_blocks xs)) = xs"
    "bit (snd (decode_blocks err (encode_blocks xs))) 7 = bit err 7" by auto
qed

lemma and_128: "(w :: byte) AND 128 = 0 \<longleftrightarrow> \<not> bit w 7"
  using and_exp_eq_0_iff_not_bit [of w 7] by simp

lemma length_encode_blocks:
  "length (encode_blocks xs) = length xs div 3 * 4 + (if length xs mod 3 > 0 then 4 else 0)"
proof (induction xs rule: encode_blocks.induct)
  case (1 a b c rest)
  have "length (a # b # c # rest) div 3 = Suc (length rest div 3)"
    "length (a # b # c # rest) mod 3 = length rest mod 3" by simp_all
  then show ?case using 1 by (simp only: encode_blocks.simps Let_def) simp
qed (simp_all add: Let_def)

lemma base64chars_length: "base64chars (length xs) = length (encode_blocks xs)"
proof -
  have "length xs div 3 * 3 < length xs \<longleftrightarrow> length xs mod 3 > 0"
    by (metis div_mult_mod_eq less_add_same_cancel1)
  then show ?thesis by (simp add: base64chars_def Let_def length_encode_blocks)
qed

lemma encode_alphabet: "set (encode_blocks xs) \<subseteq> insert pad (set encoding)"
proof -
  have "enc_char n k \<in> set encoding" for n k
    using six_bits [of "drop_bit k n"] table_inverse(3) by (simp add: enc_char_def)
  then show ?thesis by (induction xs rule: encode_blocks.induct) (auto simp: Let_def)
qed

lemma decode_blocks_err_mono:
  "bit err 7 \<Longrightarrow> bit (snd (decode_blocks err xs)) 7"
proof (induction err xs rule: decode_blocks.induct)
  case (1 err i0 i1 i2 i3 rest)
  then show ?case by (auto simp: Let_def bit_or_iff)
qed auto

lemma decode_blocks_invalid:
  "length xs mod 4 = 0 \<Longrightarrow> c \<in> set xs \<Longrightarrow> c \<noteq> pad \<Longrightarrow> bit (dec_char c) 7 \<Longrightarrow> pad \<notin> set xs \<Longrightarrow>
     bit (snd (decode_blocks err xs)) 7"
proof (induction err xs rule: decode_blocks.induct)
  case (1 err i0 i1 i2 i3 rest)
  show ?case
  proof (cases "rest = []")
    case True
    then show ?thesis using "1.prems" by (auto simp: Let_def bit_or_iff)
  next
    case False
    let ?err = "err OR dec_char i0 OR dec_char i1 OR dec_char i2 OR dec_char i3"
    have "bit (snd (decode_blocks ?err rest)) 7"
    proof (cases "c \<in> set rest")
      case True
      then show ?thesis using 1 False by auto
    next
      case nin: False
      then have "bit ?err 7" using "1.prems" by (auto simp: bit_or_iff)
      then show ?thesis by (rule decode_blocks_err_mono)
    qed
    then show ?thesis using False by (simp add: Let_def)
  qed
qed auto

subsection \<open>Properties\<close>

text \<open>with an output buffer of \<open>base64chars(ilen)\<close> bytes or more, \<open>base64encode\<close>
  succeeds and writes exactly \<open>base64chars(ilen)\<close> characters of the base64 alphabet, and
  decoding them gives the input back.\<close>

theorem base64_roundtrip:
  assumes "base64chars (length xs) \<le> olen" "length (encode_blocks xs) div 4 * 3 \<le> dlen"
  shows "\<exists>out. base64encode xs olen = Inr out \<and> length out = base64chars (length xs) \<and>
           set out \<subseteq> insert pad (set encoding) \<and> base64decode out dlen = Inr xs"
proof -
  have m: "length (encode_blocks xs) mod 4 = 0" by (simp add: length_encode_blocks)
  have "bit (snd (decode_blocks 0 (encode_blocks xs))) 7 = False"
    using decode_encode(2) [of 0 xs] by simp
  then have "base64decode (encode_blocks xs) dlen = Inr xs"
    using assms(2) m decode_encode(1) [of 0 xs]
    by (auto simp: base64decode_def and_128 split: prod.split)
  then show ?thesis
    using assms(1) encode_alphabet [of xs] base64chars_length [of xs]
    by (simp add: base64encode_def length_encode_blocks Let_def)
qed

theorem base64_roundtrip_witness:
  "\<exists>out. base64encode [102, 117, 120, 33] 8 = Inr out \<and> base64decode out 6 = Inr [102, 117, 120, 33]"
  using base64_roundtrip [of "[102, 117, 120, 33]" 8 6]
  by (auto simp: base64chars_def length_encode_blocks Let_def)

text \<open>on text without padding, \<open>base64decode\<close> rejects a length that is no multiple of 4
  and any character outside the alphabet.\<close>

theorem base64_rejects:
  assumes "length s div 4 * 3 \<le> olen" "pad \<notin> set s"
    and "length s mod 4 \<noteq> 0 \<or> (\<exists>c \<in> set s. bit (dec_char c) 7)"
  shows "base64decode s olen = Inl Logic_error \<or> base64decode s olen = Inl Invalid_argument"
proof (cases "length s mod 4 = 0")
  case False
  then show ?thesis using assms(1) by (simp add: base64decode_def)
next
  case True
  then obtain c where "c \<in> set s" "bit (dec_char c) 7" using assms(3) by auto
  then have "bit (snd (decode_blocks 0 s)) 7"
    using decode_blocks_invalid [OF True] assms(2) by metis
  then show ?thesis using assms(1) True by (auto simp: base64decode_def and_128 split: prod.split)
qed

theorem base64_rejects_witness:
  "base64decode [65, 65, 45, 65] 3 = Inl Logic_error \<or> base64decode [65, 65, 45, 65] 3 = Inl Invalid_argument"
  by (rule base64_rejects) (simp_all add: dec_char_def decoding_def bit_iff_odd)

text \<open>a \<open>=\<close> in third place makes \<open>base64decode\<close> ignore the fourth character, so that
  text which no encoder produces (\<open>AA=A\<close>) is accepted.\<close>

theorem base64_accepts_garbage: "base64decode [65, 65, 61, c] 3 = Inr [0]"
proof -
  have "decode_blocks 0 [65, 65, 61, c] = ([0], 0)"
    by (simp add: Let_def dec_char_def decoding_def join24_def out_byte_def)
  then show ?thesis by (simp add: base64decode_def)
qed

end
