(* ===== verification/Misc.thy ===== *)
theory Misc
  imports Exceptions
begin

text \<open>
  src/misc.h: \<open>split\<close>, \<open>join\<close>, the two \<open>checked_copy\<close> templates and the size rounding
  \<open>nearest\<close> and \<open>nearest64\<close>. Strings are byte lists; a fixed-size destination array is
  the list of its bytes.
\<close>

subsection \<open>split and join\<close>

text \<open>The loop of \<open>split\<close>: the token being built, then the characters still to read.\<close>

fun split_loop :: "byte list \<Rightarrow> byte list \<Rightarrow> byte list \<Rightarrow> byte list list" where
  "split_loop delim token [] = [token]"
| "split_loop delim token (c # s) =
     (if c \<notin> set delim then split_loop delim (token @ [c]) s
      else token # split_loop delim [] s)"

definition split :: "byte list \<Rightarrow> byte list \<Rightarrow> byte list list" where
  "split s delim = split_loop delim [] s"

fun join_loop :: "byte list \<Rightarrow> byte list \<Rightarrow> byte list list \<Rightarrow> byte list" where
  "join_loop sep result [] = result"
| "join_loop sep result (s # ss) =
     join_loop sep ((if result \<noteq> [] then result @ sep else result) @ s) ss"

definition join :: "byte list list \<Rightarrow> byte list \<Rightarrow> byte list" where
  "join container sep = join_loop sep [] container"

lemma split_loop_nonempty [simp]: "split_loop d t s \<noteq> []"
  by (induction d t s rule: split_loop.induct) auto

lemma split_loop_plain: "set xs \<inter> set d = {} \<Longrightarrow> split_loop d t (xs @ s) = split_loop d (t @ xs) s"
  by (induction xs arbitrary: t) auto

lemma split_loop_sep:
  "set xs \<inter> set d = {} \<Longrightarrow> c \<in> set d \<Longrightarrow> split_loop d t (xs @ c # s) = (t @ xs) # split_loop d [] s"
  by (simp add: split_loop_plain)

lemma join_loop_nonempty:
  "r \<noteq> [] \<Longrightarrow> join_loop sep r ss = r @ concat (map (\<lambda>s. sep @ s) ss)"
  by (induction ss arbitrary: r) auto

lemma join_Cons: "s \<noteq> [] \<Longrightarrow> join (s # ss) sep = s @ concat (map (\<lambda>s. sep @ s) ss)"
  by (simp add: join_def join_loop_nonempty)

lemma split_concat:
  assumes "\<forall>s \<in> set ss. c \<notin> set s" "c \<notin> set x"
  shows "split_loop [c] t (x @ concat (map (\<lambda>s. [c] @ s) ss)) = (t @ x) # ss"
  using assms
proof (induction ss arbitrary: x t)
  case Nil
  then show ?case using split_loop_plain [of x "[c]" t "[]"] by simp
next
  case (Cons y ss)
  have "split_loop [c] t (x @ c # (y @ concat (map (\<lambda>s. [c] @ s) ss))) =
          (t @ x) # split_loop [c] [] (y @ concat (map (\<lambda>s. [c] @ s) ss))"
    by (rule split_loop_sep) (use Cons.prems in auto)
  then show ?case using Cons by simp
qed

text \<open>\<open>split\<close> undoes \<open>join\<close> for a one-character separator, for any non-empty list of tokens
  that do not contain it and of which the first is not empty; empty tokens after the first
  one are kept.
\<close>

theorem split_join:
  assumes "\<forall>s \<in> set (t # ts). c \<notin> set s" and "t \<noteq> []"
  shows "split (join (t # ts) [c]) [c] = t # ts"
  using assms split_concat [of ts c t "[]"] by (simp add: split_def join_Cons)

theorem split_join_witness:
  "split (join [[97, 98], [], [99]] [46]) [46] = [[97, 98], [], [99 :: byte]]"
  by (rule split_join) simp_all

text \<open>\<open>join\<close> loses leading empty tokens: no separator is written while the result is still
  empty, so \<open>split\<close> cannot bring them back.
\<close>

theorem join_drops_leading_empty:
  "join (replicate n [] @ ts) sep = join ts sep"
  unfolding join_def by (induction n) simp_all

subsection \<open>checked_copy\<close>

text \<open>The variant for a \<open>std::string\<close> source: it copies the characters and no NUL.\<close>

definition checked_copy :: "byte list \<Rightarrow> byte list \<Rightarrow> byte list except" where
  "checked_copy src dst =
     (if length src \<ge> length dst then Inl Length_error
      else Inr (src @ drop (length src) dst))"

text \<open>The variant for a C string, given by its characters: it copies the NUL too.\<close>

definition checked_copy_cstr :: "byte list \<Rightarrow> byte list \<Rightarrow> byte list except" where
  "checked_copy_cstr src dst =
     (let size = length src + 1
      in if size > length dst then Inl Length_error
         else Inr (src @ 0 # drop size dst))"

lemma checked_copy_length: "checked_copy src dst = Inr d \<Longrightarrow> length d = length dst"
  by (auto simp: checked_copy_def split: if_splits)

lemma checked_copy_cstr_length: "checked_copy_cstr src dst = Inr d \<Longrightarrow> length d = length dst"
  by (auto simp: checked_copy_cstr_def Let_def split: if_splits)

lemma checked_copy_zeroed:
  assumes "length src < n" "0 \<notin> set src"
  shows "checked_copy src (replicate n 0) = Inr (src @ replicate (n - length src) 0)"
    and "c_string (src @ replicate (n - length src) 0) = src"
  using assms by (simp_all add: checked_copy_def c_string_append)

lemma checked_copy_cstr_string:
  "0 \<notin> set src \<Longrightarrow> checked_copy_cstr src dst = Inr d \<Longrightarrow> c_string d = src"
  by (auto simp: checked_copy_cstr_def Let_def split: if_splits)

text \<open>\<open>checked_copy\<close> of a \<open>std::string\<close> leaves the destination holding the source followed by
  the rest of the string the destination held before: only a zeroed destination gives the
  source back, while the C-string variant always does.
\<close>

theorem checked_copy_stale:
  assumes "0 \<notin> set src" "checked_copy src dst = Inr d" "checked_copy_cstr src dst = Inr e"
  shows "c_string d = src @ c_string (drop (length src) dst) \<and> c_string e = src"
  using assms by (auto simp: checked_copy_def c_string_append checked_copy_cstr_string split: if_splits)

theorem checked_copy_stale_witness:
  "c_string [66, 76, 68, 0] = [66] @ c_string (drop 1 [79, 76, 68, 0 :: byte]) \<and>
   c_string [66, 0, 68, 0] = [66 :: byte]"
  using checked_copy_stale [of "[66]" "[79, 76, 68, 0]" "[66, 76, 68, 0]" "[66, 0, 68, 0]"]
  by (simp add: checked_copy_def checked_copy_cstr_def)

subsection \<open>nearest\<close>

text \<open>
  The recursion never ends for \<open>what = 0 < n\<close>, and the product wraps, so the result is
  optional and the arithmetic is that of \<open>size_t\<close>.
\<close>

partial_function (option) nearest :: "64 word \<Rightarrow> 64 word \<Rightarrow> 64 word \<Rightarrow> 64 word option" where
  "nearest n what mult = (if n \<le> mult * what then Some (mult * what) else nearest n what (mult + 1))"

definition nearest64 :: "64 word \<Rightarrow> 64 word option" where
  "nearest64 n = nearest n 64 1"

lemma nearest_search:
  assumes "m \<le> j" "n \<le> of_nat j * w" "\<forall>i. m \<le> i \<and> i < j \<longrightarrow> \<not> n \<le> of_nat i * w"
  shows "nearest n w (of_nat m) = Some (of_nat j * w)"
  using assms
proof (induction "j - m" arbitrary: m)
  case 0
  then show ?case by (subst nearest.simps) simp
next
  case (Suc k)
  then have "m < j" by linarith
  then have "nearest n w (of_nat (Suc m)) = Some (of_nat j * w)"
    using Suc by (intro Suc.hyps(1)) auto
  moreover have "\<not> n \<le> of_nat m * w" using Suc.prems(3) \<open>m < j\<close> by blast
  ultimately show ?case by (subst nearest.simps) (simp add: add.commute)
qed

lemma unat_of_nat_mult:
  fixes w :: "64 word"
  assumes "i * unat w < 2 ^ 64"
  shows "unat (of_nat i * w) = i * unat w"
proof -
  have "of_nat i * w = of_nat (i * unat w)" by simp
  then have "unat (of_nat i * w) = (i * unat w) mod 2 ^ 64" by (simp only: unat_of_nat) simp
  then show ?thesis using assms by simp
qed

lemma ceil_bounds:
  fixes n w :: nat
  assumes "0 < w" "0 < n"
  defines "j \<equiv> (n + w - 1) div w"
  shows "n \<le> j * w" "j * w < n + w" "1 \<le> j" "i < j \<Longrightarrow> i * w < n"
proof -
  have eq: "j * w + (n + w - 1) mod w = n + w - 1" unfolding j_def by simp
  have lt: "(n + w - 1) mod w < w" using assms(1) by simp
  show a: "n \<le> j * w" "j * w < n + w" using eq lt assms by linarith+
  show "1 \<le> j" using a(1) assms(2) by (cases j) auto
  assume "i < j"
  then have "(i + 1) * w \<le> j * w" by (intro mult_le_mono1) simp
  then show "i * w < n" using a(2) by (simp add: algebra_simps)
qed

text \<open>\<open>nearest\<close> terminates for a positive unit when the result fits \<open>size_t\<close>, and returns the
  least positive multiple of the unit that is not below \<open>n\<close>.
\<close>

theorem nearest_least:
  assumes "0 < unat what" and "0 < unat n" and "unat n + unat what \<le> 2 ^ 64"
  shows "\<exists>r. nearest n what 1 = Some r \<and> unat what dvd unat r \<and> unat n \<le> unat r \<and>
             unat r < unat n + unat what"
proof -
  let ?j = "(unat n + unat what - 1) div unat what"
  note c = ceil_bounds [OF assms(1,2)]
  have fits: "?j * unat what < 2 ^ 64" using c(2) assms(3) by linarith
  have val: "unat (of_nat ?j * what) = ?j * unat what" by (rule unat_of_nat_mult [OF fits])
  have low: "\<not> n \<le> of_nat i * what" if "i < ?j" for i
  proof -
    have "i * unat what < unat n" by (rule c(4) [OF that])
    moreover have "i * unat what < 2 ^ 64" using calculation assms(3) by linarith
    ultimately show ?thesis by (simp add: word_le_nat_alt unat_of_nat_mult)
  qed
  have "nearest n what (of_nat 1) = Some (of_nat ?j * what)"
    by (rule nearest_search) (use c(1,3) low val in \<open>auto simp: word_le_nat_alt\<close>)
  then show ?thesis using val c(1,2) by (intro exI [of _ "of_nat ?j * what"]) simp
qed

theorem nearest_least_witness:
  "\<exists>r. nearest 65 64 1 = Some r \<and> unat (64 :: 64 word) dvd unat r \<and> unat (65 :: 64 word) \<le> unat r \<and>
       unat r < unat (65 :: 64 word) + unat (64 :: 64 word)"
  by (rule nearest_least) simp_all

end
