(* ===== verification/Strtol.thy ===== *)
theory Strtol
  imports Decimal Exceptions
begin

text \<open>
  \<open>std::stol\<close> and \<open>std::stoi\<close> of the standard library with the bases the sources use: leading
  white space, an optional sign, an optional \<open>0x\<close> in base 16, and as many digits as there are;
  no digit is \<open>Invalid_argument\<close>, a value outside the result type \<open>Out_of_range\<close>. The second
  part of a result is the text left after the number.
\<close>

definition digit_val :: "byte \<Rightarrow> nat" where
  "digit_val c =
     (if 48 \<le> c \<and> c \<le> 57 then unat c - 48
      else if 97 \<le> c \<and> c \<le> 122 then unat c - 87
      else if 65 \<le> c \<and> c \<le> 90 then unat c - 55
      else 36)"

fun scan_digits :: "nat \<Rightarrow> nat \<Rightarrow> byte list \<Rightarrow> nat \<times> byte list" where
  "scan_digits base acc [] = (acc, [])"
| "scan_digits base acc (c # cs) =
     (if digit_val c < base then scan_digits base (acc * base + digit_val c) cs
      else (acc, c # cs))"

definition starts_digit :: "nat \<Rightarrow> byte list \<Rightarrow> bool" where
  "starts_digit base s = (case s of [] \<Rightarrow> False | c # cs \<Rightarrow> digit_val c < base)"

definition skip_prefix :: "nat \<Rightarrow> byte list \<Rightarrow> byte list" where
  "skip_prefix base s =
     (if base = 16 \<and> (take 2 s = [48, 120] \<or> take 2 s = [48, 88]) \<and> starts_digit 16 (drop 2 s)
      then drop 2 s else s)"

definition strtol :: "nat \<Rightarrow> byte list \<Rightarrow> (int \<times> byte list) option" where
  "strtol base s =
     (let s1 = dropWhile is_space s;
          neg = (take 1 s1 = [45]);
          s2 = (if neg \<or> take 1 s1 = [43] then drop 1 s1 else s1);
          s3 = skip_prefix base s2
      in if starts_digit base s3
         then (case scan_digits base 0 s3 of
                 (v, rest) \<Rightarrow> Some (if neg then - int v else int v, rest))
         else None)"

definition sto :: "int \<Rightarrow> nat \<Rightarrow> byte list \<Rightarrow> int except" where
  "sto lim base s =
     (case strtol base s of
        None \<Rightarrow> Inl Invalid_argument
      | Some (v, rest) \<Rightarrow> if v < - lim \<or> lim \<le> v then Inl Out_of_range else Inr v)"

abbreviation stol :: "byte list \<Rightarrow> int except" where "stol \<equiv> sto (2 ^ 63) 10"

abbreviation stoi :: "nat \<Rightarrow> byte list \<Rightarrow> int except" where "stoi \<equiv> sto (2 ^ 31)"

text \<open>One hexadecimal digit and the two of \<open>%02x\<close>.\<close>

definition hex_digit :: "nat \<Rightarrow> byte" where
  "hex_digit d = (if d < 10 then word_of_nat (48 + d) else word_of_nat (87 + d))"

definition hex2 :: "byte \<Rightarrow> byte list" where
  "hex2 b = [hex_digit (unat b div 16), hex_digit (unat b mod 16)]"

subsection \<open>Reading back what was printed\<close>

lemma digit_val_digit: "is_digit c \<Longrightarrow> digit_val c = unat c - 48 \<and> digit_val c < 10"
  by (auto simp: is_digit_def digit_val_def word_le_nat_alt)

lemma scan_digits_decimal:
  assumes "\<forall>c \<in> set s. is_digit c"
  shows "scan_digits 10 acc s = (digits_val acc s, [])"
  using assms
proof (induction s arbitrary: acc)
  case Nil
  then show ?case by simp
next
  case (Cons c s)
  then show ?case using digit_val_digit [of c] by (simp add: mult.commute)
qed

lemma strtol_digits:
  assumes "\<forall>c \<in> set s. is_digit c" "s \<noteq> []"
  shows "strtol 10 s = Some (int (digits_val 0 s), [])"
    and "strtol 10 (45 # s) = Some (- int (digits_val 0 s), [])"
proof -
  obtain c cs where c: "s = c # cs" using assms(2) by (cases s) auto
  have d: "\<not> is_space c" "c \<noteq> 45" "c \<noteq> 43" "digit_val c < 10"
    using assms(1) c digit_not_special [of c] digit_val_digit [of c] by auto
  note scan = scan_digits_decimal [OF assms(1), of 0]
  have s: "starts_digit 10 s" "skip_prefix 10 s = s"
    using c d(4) by (simp_all add: starts_digit_def skip_prefix_def)
  show "strtol 10 s = Some (int (digits_val 0 s), [])"
    using d s scan c by (simp add: strtol_def)
  have m: "\<not> is_space 45" by (simp add: is_space_def)
  show "strtol 10 (45 # s) = Some (- int (digits_val 0 s), [])"
    using m s scan by (simp add: strtol_def)
qed

lemma stol_show_int:
  assumes "- (2 ^ 63) \<le> i" "i < 2 ^ 63"
  shows "stol (show_int i) = Inr i"
proof -
  have "strtol 10 (show_int i) = Some (i, [])"
    using strtol_digits [OF show_nat_digits show_nat_nonempty]
    by (simp add: show_int_def digits_val_show)
  then show ?thesis using assms by (simp add: sto_def)
qed

lemma show_int_chars: "c \<in> set (show_int i) \<Longrightarrow> is_digit c \<or> c = 45"
  using show_nat_digits by (auto simp: show_int_def split: if_splits)

lemma hex_digit_val:
  assumes "d < 16"
  shows "digit_val (hex_digit d) = d \<and> \<not> is_space (hex_digit d) \<and> hex_digit d \<noteq> 45 \<and> hex_digit d \<noteq> 43 \<and>
         hex_digit d \<noteq> 46 \<and> hex_digit d \<noteq> 120 \<and> hex_digit d \<noteq> 88"
proof -
  have "\<forall>d \<in> set [0..<16]. digit_val (hex_digit d) = d \<and> \<not> is_space (hex_digit d) \<and> hex_digit d \<noteq> 45 \<and>
          hex_digit d \<noteq> 43 \<and> hex_digit d \<noteq> 46 \<and> hex_digit d \<noteq> 120 \<and> hex_digit d \<noteq> 88"
    by code_simp
  then show ?thesis using assms by simp
qed

lemma byte_less: "unat (b :: byte) < 256"
proof -
  have "uint b < 256" using uint_bounded [of b] by simp
  moreover have "int (unat b) = uint b" by simp
  ultimately show ?thesis by linarith
qed

lemma hex2_no_dot: "46 \<notin> set (hex2 b)" "length (hex2 b) = 2"
  using hex_digit_val [of "unat b div 16"] hex_digit_val [of "unat b mod 16"] byte_less [of b]
  by (auto simp: hex2_def)

lemma stoi_hex2: "stoi 16 (hex2 b) = Inr (uint b)"
proof -
  have lt: "unat b div 16 < 16" "unat b mod 16 < 16" using byte_less [of b] by auto
  note h = hex_digit_val [OF lt(1)] hex_digit_val [OF lt(2)]
  have "unat b div 16 * 16 + unat b mod 16 = unat b" by simp
  then have "strtol 16 (hex2 b) = Some (int (unat b), [])"
    using h lt by (simp add: strtol_def hex2_def skip_prefix_def starts_digit_def)
  moreover have "uint b < 2 ^ 31" using uint_bounded [of b] by simp
  moreover have "\<not> uint b < - (2 ^ 31)" using uint_ge_0 [of b] by (simp add: not_less order_trans [of _ 0])
  ultimately show ?thesis by (simp add: sto_def)
qed

end
