(* ===== verification/Xid.thy ===== *)
theory Xid
  imports Misc Strtol
begin

text \<open>
  Transaction branch identifiers: \<open>XID\<close> of include/xa.h, \<open>to_string\<close> and \<open>to_xid\<close> of
  src/trx.h, and the comparison \<open>transaction_table::find\<close> makes. The text form travels in
  the \<open>TA_XID\<close> field of the messages to the transaction managers.
\<close>

text \<open>\<open>xdata\<close> gives the bytes from the start of the \<open>data\<close> array on.\<close>

record xid =
  formatID :: int
  gtrid_length :: int
  bqual_length :: int
  xdata :: "nat \<Rightarrow> byte"

definition XIDDATASIZE :: nat where "XIDDATASIZE = 128"

definition xid_to_string :: "xid \<Rightarrow> byte list" where
  "xid_to_string x =
     show_int (formatID x) @ [46] @
     concat (map (\<lambda>i. hex2 (xdata x i)) [0 ..< nat (gtrid_length x)]) @
     (if bqual_length x > 0
      then [46] @ concat (map (\<lambda>i. hex2 (xdata x (nat (gtrid_length x + int i)))) [0 ..< nat (bqual_length x)])
      else [])"

text \<open>
  The two loops of \<open>to_xid\<close>: \<open>n\<close> bytes from the hexadecimal text, to \<open>data[off]\<close> on. Writing
  past the array is \<open>None\<close>.
\<close>

fun hex_loop :: "nat \<Rightarrow> nat \<Rightarrow> byte list \<Rightarrow> (nat \<Rightarrow> byte) \<Rightarrow> (nat \<Rightarrow> byte) except option" where
  "hex_loop 0 off part d = Some (Inr d)"
| "hex_loop (Suc n) off part d =
     (case stoi 16 (take 2 part) of
        Inl e \<Rightarrow> Some (Inl e)
      | Inr v \<Rightarrow> if off \<ge> XIDDATASIZE then None
                else hex_loop n (Suc off) (drop 2 part) (d(off := word_of_int v)))"

text \<open>The \<open>XID\<close> is not initialised: \<open>junk\<close> is what its array holds before.\<close>

definition to_xid :: "byte list \<Rightarrow> (nat \<Rightarrow> byte) \<Rightarrow> xid except option" where
  "to_xid s junk =
     (let parts = split s [46]
      in if length parts \<noteq> 2 \<and> length parts \<noteq> 3 then Some (Inl Logic_error)
         else case stol (parts ! 0) of
           Inl e \<Rightarrow> Some (Inl e)
         | Inr f \<Rightarrow>
             let g = length (parts ! 1) div 2;
                 b = (if length parts = 3 then length (parts ! 2) div 2 else 0)
             in case hex_loop g 0 (parts ! 1) junk of
                  None \<Rightarrow> None
                | Some (Inl e) \<Rightarrow> Some (Inl e)
                | Some (Inr d) \<Rightarrow>
                    (case hex_loop b g (if length parts = 3 then parts ! 2 else []) d of
                       None \<Rightarrow> None
                     | Some (Inl e) \<Rightarrow> Some (Inl e)
                     | Some (Inr d') \<Rightarrow>
                         Some (Inr \<lparr>formatID = f, gtrid_length = int g, bqual_length = int b, xdata = d'\<rparr>)))"

definition xid_eq :: "xid \<Rightarrow> xid \<Rightarrow> bool" where
  "xid_eq x y \<longleftrightarrow>
     formatID x = formatID y \<and> gtrid_length x = gtrid_length y \<and> bqual_length x = bqual_length y \<and>
     (let n = nat (gtrid_length y + bqual_length y) in map (xdata x) [0 ..< n] = map (xdata y) [0 ..< n])"

definition xid_ok :: "xid \<Rightarrow> bool" where
  "xid_ok x \<longleftrightarrow> - (2 ^ 63) \<le> formatID x \<and> formatID x < 2 ^ 63 \<and> 0 \<le> gtrid_length x \<and> 0 \<le> bqual_length x \<and>
     gtrid_length x + bqual_length x \<le> int XIDDATASIZE"

lemma xid_eq_refl [simp]: "xid_eq x x"
  by (simp add: xid_eq_def)

lemma xid_eq_sym: "xid_eq x y \<Longrightarrow> xid_eq y x"
  by (simp add: xid_eq_def Let_def)

lemma xid_eq_trans: "xid_eq x y \<Longrightarrow> xid_eq y z \<Longrightarrow> xid_eq x z"
  by (simp add: xid_eq_def Let_def)

subsection \<open>The round trip\<close>

lemma hex_loop_bytes:
  assumes "off + length bs \<le> XIDDATASIZE"
  shows "hex_loop (length bs) off (concat (map hex2 bs)) d =
           Some (Inr (\<lambda>i. if off \<le> i \<and> i < off + length bs then bs ! (i - off) else d i))"
  using assms
proof (induction bs arbitrary: off d)
  case Nil
  then show ?case by (auto simp: fun_eq_iff)
next
  case (Cons b bs)
  have "hex_loop (length (b # bs)) off (concat (map hex2 (b # bs))) d =
          hex_loop (length bs) (Suc off) (concat (map hex2 bs)) (d(off := b))"
    using Cons.prems stoi_hex2 [of b] by (simp add: hex2_no_dot)
  also have "\<dots> = Some (Inr (\<lambda>i. if Suc off \<le> i \<and> i < Suc off + length bs then bs ! (i - Suc off)
                                else (d(off := b)) i))"
    using Cons by simp
  also have "(\<lambda>i. if Suc off \<le> i \<and> i < Suc off + length bs then bs ! (i - Suc off) else (d(off := b)) i) =
             (\<lambda>i. if off \<le> i \<and> i < off + length (b # bs) then (b # bs) ! (i - off) else d i)"
  proof (rule ext)
    fix i
    show "(if Suc off \<le> i \<and> i < Suc off + length bs then bs ! (i - Suc off) else (d(off := b)) i) =
            (if off \<le> i \<and> i < off + length (b # bs) then (b # bs) ! (i - off) else d i)"
      by (cases "i = off") (auto simp: nth_Cons' Suc_le_eq)
  qed
  finally show ?case .
qed

lemma no_dot_show: "46 \<notin> set (show_int i)"
proof
  assume "46 \<in> set (show_int i)"
  then have "is_digit 46 \<or> (46 :: byte) = 45" by (rule show_int_chars)
  then show False by (simp add: is_digit_def)
qed

lemma no_dot_hex: "46 \<notin> set (concat (map hex2 bs))"
  using hex2_no_dot by auto

lemma length_hex: "length (concat (map hex2 bs)) = 2 * length bs"
  by (induction bs) (simp_all add: hex2_no_dot)

lemma split_xid:
  assumes "46 \<notin> set f"
  shows "split (f @ [46] @ concat (map hex2 g)) [46] = [f, concat (map hex2 g)]"
    and "split (f @ [46] @ concat (map hex2 g) @ [46] @ concat (map hex2 b)) [46] =
           [f, concat (map hex2 g), concat (map hex2 b)]"
proof -
  have a: "\<forall>s \<in> set [concat (map hex2 g)]. 46 \<notin> set s"
    "\<forall>s \<in> set [concat (map hex2 g), concat (map hex2 b)]. 46 \<notin> set s"
    using no_dot_hex by auto
  show "split (f @ [46] @ concat (map hex2 g)) [46] = [f, concat (map hex2 g)]"
    using split_concat [OF a(1) assms, of "[]"] by (simp add: split_def)
  show "split (f @ [46] @ concat (map hex2 g) @ [46] @ concat (map hex2 b)) [46] =
           [f, concat (map hex2 g), concat (map hex2 b)]"
    using split_concat [OF a(2) assms, of "[]"] by (simp add: split_def)
qed

lemma xid_reads_back:
  assumes ok: "xid_ok x"
  shows "\<exists>y. to_xid (xid_to_string x) junk = Some (Inr y) \<and> xid_eq x y"
proof -
  define gs where "gs = map (xdata x) [0 ..< nat (gtrid_length x)]"
  define bs where "bs = map (\<lambda>i. xdata x (nat (gtrid_length x + int i))) [0 ..< nat (bqual_length x)]"
  have len: "int (length gs) = gtrid_length x" "int (length bs) = bqual_length x"
    "0 + length gs \<le> XIDDATASIZE" "length gs + length bs \<le> XIDDATASIZE"
    using ok by (auto simp: xid_ok_def gs_def bs_def)
  have str: "xid_to_string x = show_int (formatID x) @ [46] @ concat (map hex2 gs) @
               (if bs \<noteq> [] then [46] @ concat (map hex2 bs) else [])"
    by (simp add: xid_to_string_def gs_def bs_def comp_def)
  note f = stol_show_int [of "formatID x"]
  note sp = split_xid [OF no_dot_show]
  define d where "d = (\<lambda>i. if length gs \<le> i \<and> i < length gs + length bs then bs ! (i - length gs)
                          else if 0 \<le> i \<and> i < 0 + length gs then gs ! (i - 0) else junk i)"
  have loops: "hex_loop (length bs) (length gs) (concat (map hex2 bs))
                 (\<lambda>i. if 0 \<le> i \<and> i < 0 + length gs then gs ! (i - 0) else junk i) = Some (Inr d)"
    using hex_loop_bytes [OF len(4)] by (simp only: d_def)
  have "to_xid (xid_to_string x) junk =
          Some (Inr \<lparr>formatID = formatID x, gtrid_length = int (length gs), bqual_length = int (length bs), xdata = d\<rparr>)"
  proof (cases "bs = []")
    case True
    then show ?thesis
      using f ok sp(1) [of "formatID x" gs] hex_loop_bytes [OF len(3), of junk] loops
      by (simp add: to_xid_def str xid_ok_def length_hex del: concat.simps)
  next
    case False
    then show ?thesis
      using f ok sp(2) [of "formatID x" gs bs] hex_loop_bytes [OF len(3), of junk] loops
      by (simp add: to_xid_def str xid_ok_def length_hex)
  qed
  moreover have "map (xdata x) [0 ..< nat (gtrid_length x + bqual_length x)] =
                 map d [0 ..< nat (gtrid_length x + bqual_length x)]"
  proof (rule map_cong [OF refl])
    fix i assume "i \<in> set [0 ..< nat (gtrid_length x + bqual_length x)]"
    then have i: "i < length gs + length bs" using len(1,2) by simp
    show "xdata x i = d i"
    proof (cases "i < length gs")
      case True
      then show ?thesis by (simp add: d_def gs_def)
    next
      case False
      have "length gs = nat (gtrid_length x)" using len(1) by simp
      then have "nat (gtrid_length x + int (i - length gs)) = i"
        using False ok len(1) by (simp add: xid_ok_def)
      moreover have "i - length gs < nat (bqual_length x)" using False i len(2) by simp
      ultimately show ?thesis using False i by (simp add: d_def bs_def)
    qed
  qed
  ultimately show ?thesis using len(1,2) by (simp add: xid_eq_def)
qed

text \<open>\<open>to_xid\<close> reads back what \<open>to_string\<close> writes: for every branch identifier whose lengths
  fit the data array the result is equal to it in the sense of the transaction table, whatever
  the new \<open>XID\<close> held before, and no exception is thrown.
\<close>

theorem xid_string_roundtrip:
  assumes "xid_ok x"
  shows "\<exists>y. to_xid (xid_to_string x) junk = Some (Inr y) \<and> xid_eq x y"
  using assms by (rule xid_reads_back)

definition demo_xid :: xid where
  "demo_xid = \<lparr>formatID = 1, gtrid_length = 2, bqual_length = 1, xdata = (\<lambda>_. 0)(0 := 171, 1 := 5)\<rparr>"

theorem xid_string_roundtrip_witness:
  "xid_to_string demo_xid = [49, 46, 97, 98, 48, 53, 46, 48, 48] \<and>
   (\<exists>y. to_xid (xid_to_string demo_xid) (\<lambda>_. 255) = Some (Inr y) \<and> xid_eq demo_xid y)"
proof (rule conjI)
  show "xid_to_string demo_xid = [49, 46, 97, 98, 48, 53, 46, 48, 48]" by code_simp
  show "\<exists>y. to_xid (xid_to_string demo_xid) (\<lambda>_. 255) = Some (Inr y) \<and> xid_eq demo_xid y"
    by (rule xid_string_roundtrip) (simp add: xid_ok_def demo_xid_def XIDDATASIZE_def)
qed

text \<open>\<open>to_xid\<close> does not check the lengths: a text with 129 well-formed bytes makes it write
  past the \<open>data\<close> array of the \<open>XID\<close> on the stack.
\<close>

theorem to_xid_overflows:
  "to_xid ([49, 46] @ concat (replicate 129 [48, 48])) junk = None"
proof -
  have hex: "concat (replicate n [48, 48]) = concat (map hex2 (replicate n (0 :: byte)))" for n
    by (induction n) (simp_all add: hex2_def hex_digit_def)
  have loop: "hex_loop (n + m) off (concat (map hex2 (replicate (n + m) 0))) d = None"
    if "off + n = XIDDATASIZE" "0 < m" for n m off d
    using that
  proof (induction n arbitrary: off d)
    case 0
    then obtain k where "m = Suc k" by (cases m) auto
    with 0 show ?case using stoi_hex2 [of 0] hex2_no_dot(2) [of 0] by simp
  next
    case (Suc n)
    then show ?case using stoi_hex2 [of 0] hex2_no_dot(2) [of 0] by simp
  qed
  have f: "stol [49] = Inr 1" using stol_show_int [of 1] by (simp add: show_int_def show_nat.simps digit_def)
  have "split ([49] @ [46] @ concat (map hex2 (replicate 129 0))) [46] =
          [[49], concat (map hex2 (replicate 129 0))]"
    by (rule split_xid) simp
  moreover have "hex_loop 129 0 (concat (map hex2 (replicate 129 0))) junk = None"
    using loop [of 0 128 1 junk] by (simp add: XIDDATASIZE_def)
  moreover have "length (concat (map hex2 (replicate 129 (0 :: byte)))) div 2 = 129"
    by (subst length_hex) simp
  ultimately show ?thesis using f by (simp add: to_xid_def hex Let_def del: hex_loop.simps)
qed

end
