(* ===== verification/Trx_Table.thy ===== *)
theory Trx_Table
  imports Xid
begin

text \<open>
  \<open>transaction_table\<close> of src/trx.h: the global transactions of the domain, kept in shared
  memory, each with its branch identifier and a flag for every server group that joined it.
  An entry is free when its \<open>formatID\<close> is -1. \<open>entries\<close> holds all \<open>size\<close> slots of memory,
  of which the first \<open>len\<close> have been used.
\<close>

datatype trx_state = active | preparing | do_commit | do_rollback | finished

record transaction =
  trx_xid :: xid
  started :: int
  timeout :: int
  trx_st :: trx_state
  trx_groups :: "nat list"

record transaction_table =
  tlen :: nat
  tsize :: nat
  max_groups :: nat
  entries :: "transaction list"

text \<open>What \<open>memset(..., 0, entry_size)\<close> leaves.\<close>

definition zero_xid :: xid where
  "zero_xid = \<lparr>formatID = 0, gtrid_length = 0, bqual_length = 0, xdata = (\<lambda>_. 0)\<rparr>"

definition zero_trx :: "nat \<Rightarrow> transaction" where
  "zero_trx groups =
     \<lparr>trx_xid = zero_xid, started = 0, timeout = 0, trx_st = active, trx_groups = replicate groups 0\<rparr>"

definition table_init :: "nat \<Rightarrow> nat \<Rightarrow> transaction list \<Rightarrow> transaction_table" where
  "table_init transactions groups memory =
     \<lparr>tlen = 0, tsize = transactions, max_groups = groups, entries = memory\<rparr>"

definition trx_get :: "transaction_table \<Rightarrow> nat \<Rightarrow> transaction except" where
  "trx_get t pos = (if pos \<ge> tsize t then Inl Out_of_range else Inr (entries t ! pos))"

definition trx_put :: "nat \<Rightarrow> transaction \<Rightarrow> transaction_table \<Rightarrow> transaction_table" where
  "trx_put i e t = t\<lparr>entries := (entries t)[i := e]\<rparr>"

definition trx_join :: "transaction_table \<Rightarrow> nat \<Rightarrow> nat \<Rightarrow> transaction except \<times> transaction_table" where
  "trx_join t transaction grp =
     (if grp \<ge> max_groups t then (Inl Out_of_range, t)
      else case trx_get t transaction of
             Inl e \<Rightarrow> (Inl e, t)
           | Inr x \<Rightarrow>
               let x' = x\<lparr>trx_groups := (trx_groups x)[grp := 1]\<rparr>
               in (Inr x', trx_put transaction x' t))"

definition has_joined :: "transaction_table \<Rightarrow> nat \<Rightarrow> nat \<Rightarrow> bool except" where
  "has_joined t transaction grp =
     (if grp \<ge> max_groups t then Inl Out_of_range
      else bind_except (trx_get t transaction) (\<lambda>x. Inr (trx_groups x ! grp > 0)))"

definition trx_init :: "transaction_table \<Rightarrow> nat \<Rightarrow> xid \<Rightarrow> nat \<Rightarrow> nat except \<times> transaction_table" where
  "trx_init t i x grp =
     (case trx_get t i of
        Inl e \<Rightarrow> (Inl e, t)
      | Inr _ \<Rightarrow>
          seqx (trx_join (trx_put i (zero_trx (max_groups t)\<lparr>trx_xid := x\<rparr>) t) i grp)
            (\<lambda>_ t'. (Inr i, t')))"

definition start :: "transaction_table \<Rightarrow> xid \<Rightarrow> nat \<Rightarrow> nat except \<times> transaction_table" where
  "start t x grp =
     (case scan_at (trx_get t) (\<lambda>e. formatID (trx_xid e) = -1) (tlen t) 0 of
        Inl e \<Rightarrow> (Inl e, t)
      | Inr (Some i) \<Rightarrow> trx_init t i x grp
      | Inr None \<Rightarrow>
          if tlen t < tsize t then trx_init (t\<lparr>tlen := tlen t + 1\<rparr>) (tlen t) x grp
          else (Inl Out_of_range, t))"

definition trx_find :: "transaction_table \<Rightarrow> xid \<Rightarrow> nat except" where
  "trx_find t x =
     bind_except (scan_at (trx_get t) (\<lambda>e. xid_eq (trx_xid e) x) (tlen t) 0)
       (\<lambda>r. case r of Some i \<Rightarrow> Inr i | None \<Rightarrow> Inl Out_of_range)"

definition trx_at :: "transaction_table \<Rightarrow> nat \<Rightarrow> transaction except" where
  "trx_at t i = (if i < tlen t then trx_get t i else Inl Out_of_range)"

definition trx_end :: "transaction_table \<Rightarrow> nat \<Rightarrow> unit except \<times> transaction_table" where
  "trx_end t transaction =
     (case trx_get t transaction of
        Inl e \<Rightarrow> (Inl e, t)
      | Inr _ \<Rightarrow>
          (Inr (), trx_put transaction (zero_trx (max_groups t)\<lparr>trx_xid := zero_xid\<lparr>formatID := -1\<rparr>\<rparr>) t))"

subsection \<open>The invariant\<close>

definition table_ok :: "transaction_table \<Rightarrow> bool" where
  "table_ok t \<longleftrightarrow> tlen t \<le> tsize t \<and> length (entries t) = tsize t \<and>
     (\<forall>i < tlen t. length (trx_groups (entries t ! i)) = max_groups t)"

text \<open>The entries in use.\<close>

definition live :: "transaction_table \<Rightarrow> transaction list" where
  "live t = take (tlen t) (entries t)"

definition is_free :: "transaction \<Rightarrow> bool" where
  "is_free e \<longleftrightarrow> formatID (trx_xid e) = -1"

lemma length_live [simp]: "table_ok t \<Longrightarrow> length (live t) = tlen t"
  by (simp add: table_ok_def live_def)

lemma live_nth: "i < tlen t \<Longrightarrow> live t ! i = entries t ! i"
  by (simp add: live_def)

lemma scan_live:
  assumes "table_ok t"
  shows "scan_at (trx_get t) P (tlen t) 0 = Inr (search P (live t))"
  unfolding live_def by (rule scan_at_take) (use assms in \<open>auto simp: table_ok_def trx_get_def\<close>)

lemma table_ok_init: "length memory = n \<Longrightarrow> table_ok (table_init n g memory)"
  by (simp add: table_ok_def table_init_def)

lemma table_ok_put:
  "table_ok t \<Longrightarrow> length (trx_groups e) = max_groups t \<Longrightarrow> table_ok (trx_put i e t)"
  by (auto simp: table_ok_def trx_put_def nth_update)

lemma trx_put_simps [simp]:
  "tlen (trx_put i e t) = tlen t" "tsize (trx_put i e t) = tsize t"
  "max_groups (trx_put i e t) = max_groups t" "entries (trx_put i e t) = (entries t)[i := e]"
  by (simp_all add: trx_put_def)

lemma table_ok_join: "table_ok t \<Longrightarrow> i < tlen t \<Longrightarrow> table_ok (snd (trx_join t i g))"
  by (auto simp: trx_join_def trx_get_def Let_def table_ok_put table_ok_def nth_update)

lemma table_ok_end: "table_ok t \<Longrightarrow> table_ok (snd (trx_end t i))"
  by (auto simp: trx_end_def trx_get_def zero_trx_def table_ok_put)

text \<open>The entry \<open>start\<close> makes: the identifier and the one group that started it.\<close>

definition fresh_trx :: "nat \<Rightarrow> xid \<Rightarrow> nat \<Rightarrow> transaction" where
  "fresh_trx groups x g = zero_trx groups\<lparr>trx_xid := x, trx_groups := (replicate groups 0)[g := 1]\<rparr>"

lemma trx_init_ok:
  assumes "i < tsize t" "length (entries t) = tsize t" "g < max_groups t"
  shows "trx_init t i x g = (Inr i, trx_put i (fresh_trx (max_groups t) x g) t)"
  using assms
  by (simp add: trx_init_def trx_get_def trx_join_def Let_def fresh_trx_def zero_trx_def trx_put_def)

lemma start_cases:
  assumes "table_ok t" "g < max_groups t"
  shows "start t x g =
           (case search is_free (live t) of
              Some i \<Rightarrow> (Inr i, trx_put i (fresh_trx (max_groups t) x g) t)
            | None \<Rightarrow> if tlen t < tsize t
                      then (Inr (tlen t), trx_put (tlen t) (fresh_trx (max_groups t) x g) (t\<lparr>tlen := tlen t + 1\<rparr>))
                      else (Inl Out_of_range, t))"
proof -
  have P: "(\<lambda>e. formatID (trx_xid e) = -1) = is_free" by (simp add: is_free_def fun_eq_iff)
  note sc = scan_live [OF assms(1), of is_free]
  show ?thesis
  proof (cases "search is_free (live t)")
    case None
    then show ?thesis using assms sc trx_init_ok [of "tlen t" "t\<lparr>tlen := tlen t + 1\<rparr>" g x]
      by (simp add: start_def P table_ok_def)
  next
    case (Some i)
    then have "i < tsize t" using assms(1) by (auto simp: search_Some table_ok_def)
    then show ?thesis using assms sc Some trx_init_ok [of i t g x]
      by (simp add: start_def P table_ok_def)
  qed
qed

lemma table_ok_fresh:
  "table_ok t \<Longrightarrow> tlen t < tsize t \<Longrightarrow> length (trx_groups e) = max_groups t \<Longrightarrow>
   table_ok (trx_put (tlen t) e (t\<lparr>tlen := tlen t + 1\<rparr>))"
  by (auto simp: table_ok_def nth_update less_Suc_eq)

lemma length_fresh [simp]: "length (trx_groups (fresh_trx n x g)) = n"
  by (simp add: fresh_trx_def)

lemma trx_xid_fresh [simp]: "trx_xid (fresh_trx n x g) = x"
  by (simp add: fresh_trx_def)

text \<open>starting a transaction succeeds exactly when the table has a free entry or unused room. It
  then takes an entry no live transaction uses, records the identifier there with the starting
  group as the only one joined, leaves every other entry as it was, keeps the table well formed,
  and \<open>find\<close> leads from the identifier to this entry when no other live entry has it.
\<close>

theorem start_correct:
  assumes ok: "table_ok t" and g: "g < max_groups t"
    and fresh: "\<forall>e \<in> set (live t). \<not> xid_eq (trx_xid e) x"
  shows "case start t x g of
           (Inr i, t') \<Rightarrow>
             (i < tlen t \<and> is_free (entries t ! i) \<or> i = tlen t \<and> tlen t < tsize t) \<and>
             table_ok t' \<and> trx_find t' x = Inr i \<and>
             (\<forall>h < max_groups t. has_joined t' i h = Inr (h = g)) \<and>
             (\<forall>j. j \<noteq> i \<longrightarrow> entries t' ! j = entries t ! j)
         | (Inl e, t') \<Rightarrow>
             e = Out_of_range \<and> t' = t \<and> tlen t = tsize t \<and> (\<forall>e \<in> set (live t). \<not> is_free e)"
proof -
  have joined: "has_joined t' i h = Inr (h = g)"
    if "entries t' ! i = fresh_trx (max_groups t) x g" "i < tsize t'" "max_groups t' = max_groups t"
      "h < max_groups t" for t' i h
    using that by (simp add: has_joined_def trx_get_def fresh_trx_def nth_update)
  have found: "trx_find t' x = Inr i"
    if ok': "table_ok t'" and i: "i < tlen t'" "entries t' ! i = fresh_trx (max_groups t) x g"
      and rest: "\<And>j. j < i \<Longrightarrow> j < tlen t \<and> entries t' ! j = entries t ! j" for t' i
  proof -
    have "search (\<lambda>e. xid_eq (trx_xid e) x) (live t') = Some i"
    proof -
      have "\<not> xid_eq (trx_xid (live t' ! k)) x" if "k < i" for k
        using rest [OF that] fresh ok i(1) that nth_mem [of k "live t"]
        by (auto simp: live_nth)
      then show ?thesis using i ok' by (auto simp: search_Some live_nth)
    qed
    then show ?thesis using scan_live [OF ok'] by (simp add: trx_find_def)
  qed
  show ?thesis
  proof (cases "search is_free (live t)")
    case None
    then have nf: "\<forall>e \<in> set (live t). \<not> is_free e" by (simp add: search_from_None)
    show ?thesis
    proof (cases "tlen t < tsize t")
      case True
      let ?t = "trx_put (tlen t) (fresh_trx (max_groups t) x g) (t\<lparr>tlen := tlen t + 1\<rparr>)"
      have okt: "table_ok ?t" by (rule table_ok_fresh) (use ok True in simp_all)
      have len: "tlen t < length (entries t)" using ok True by (simp add: table_ok_def)
      have "trx_find ?t x = Inr (tlen t)" by (rule found [OF okt]) (use len in auto)
      then show ?thesis using True None okt start_cases [OF ok g, of x] len
        by (auto intro!: joined)
    next
      case False
      then have "tlen t = tsize t" using ok by (simp add: table_ok_def)
      then show ?thesis using None nf start_cases [OF ok g, of x] by simp
    qed
  next
    case (Some i)
    let ?t = "trx_put i (fresh_trx (max_groups t) x g) t"
    have i: "i < tlen t" "is_free (entries t ! i)" "i < length (entries t)"
      using Some ok by (auto simp: search_Some live_nth table_ok_def)
    have okt: "table_ok ?t" by (rule table_ok_put) (use ok in simp_all)
    have "trx_find ?t x = Inr i" by (rule found [OF okt]) (use i in auto)
    then show ?thesis using Some i okt start_cases [OF ok g, of x] ok
      by (auto intro!: joined simp: table_ok_def)
  qed
qed

definition demo_table :: transaction_table where
  "demo_table = table_init 2 3 (replicate 2 (zero_trx 3))"

lemma demo_table_ok: "table_ok demo_table" "max_groups demo_table = 3" "live demo_table = []"
  by (simp_all add: demo_table_def table_ok_def table_init_def live_def)

theorem start_correct_witness:
  "case start demo_table demo_xid 1 of
     (Inr i, t') \<Rightarrow>
       (i < tlen demo_table \<and> is_free (entries demo_table ! i) \<or>
        i = tlen demo_table \<and> tlen demo_table < tsize demo_table) \<and>
       table_ok t' \<and> trx_find t' demo_xid = Inr i \<and>
       (\<forall>h < max_groups demo_table. has_joined t' i h = Inr (h = 1)) \<and>
       (\<forall>j. j \<noteq> i \<longrightarrow> entries t' ! j = entries demo_table ! j)
   | (Inl e, t') \<Rightarrow>
       e = Out_of_range \<and> t' = demo_table \<and> tlen demo_table = tsize demo_table \<and>
       (\<forall>e \<in> set (live demo_table). \<not> is_free e)"
  by (rule start_correct) (simp_all add: demo_table_ok)

text \<open>an entry is lost for good when a transaction is started with a group index outside the
  table, the value the client side has when its group is unknown: \<open>start\<close> throws, but the new
  entry stays allocated with the identifier in it and no group joined.
\<close>

theorem start_leaks_entry:
  assumes ok: "table_ok t" and g: "g \<ge> max_groups t" and room: "tlen t < tsize t"
    and full: "\<forall>e \<in> set (live t). \<not> is_free e" and ne: "formatID x \<noteq> -1"
  shows "\<exists>t'. start t x g = (Inl Out_of_range, t') \<and> tlen t' = tlen t + 1 \<and>
              trx_xid (entries t' ! tlen t) = x \<and> (\<forall>e \<in> set (live t'). \<not> is_free e) \<and>
              (\<forall>h < max_groups t. has_joined t' (tlen t) h = Inr False)"
proof -
  let ?e = "zero_trx (max_groups t)\<lparr>trx_xid := x\<rparr>"
  let ?t = "trx_put (tlen t) ?e (t\<lparr>tlen := tlen t + 1\<rparr>)"
  have P: "(\<lambda>e. formatID (trx_xid e) = -1) = is_free" by (simp add: is_free_def fun_eq_iff)
  have "search is_free (live t) = None" using full by (simp add: search_from_None)
  then have "scan_at (trx_get t) is_free (tlen t) 0 = Inr None" using scan_live [OF ok] by simp
  then have st: "start t x g = (Inl Out_of_range, ?t)"
    using room g by (simp add: start_def P trx_init_def trx_get_def trx_join_def)
  have len: "tlen t < length (entries t)" using ok room by (simp add: table_ok_def)
  have "live ?t = live t @ [?e]"
    using len by (simp add: live_def take_Suc_conv_app_nth list_update_append1)
  moreover have "\<not> is_free ?e" using ne by (simp add: is_free_def)
  ultimately have "\<forall>e \<in> set (live ?t). \<not> is_free e" using full by auto
  moreover have "\<forall>h < max_groups t. has_joined ?t (tlen t) h = Inr False"
    using len room by (simp add: has_joined_def trx_get_def zero_trx_def)
  ultimately show ?thesis using st len by (intro exI [of _ ?t]) simp
qed

theorem start_leaks_entry_witness:
  "\<exists>t'. start demo_table demo_xid 3 = (Inl Out_of_range, t') \<and> tlen t' = tlen demo_table + 1 \<and>
        trx_xid (entries t' ! tlen demo_table) = demo_xid \<and> (\<forall>e \<in> set (live t'). \<not> is_free e) \<and>
        (\<forall>h < max_groups demo_table. has_joined t' (tlen demo_table) h = Inr False)"
  by (rule start_leaks_entry)
    (simp_all add: demo_table_ok, simp_all add: demo_table_def table_init_def demo_xid_def)

lemma trx_end_frees:
  assumes "table_ok t" "i < tlen t"
  shows "fst (trx_end t i) = Inr () \<and> is_free (entries (snd (trx_end t i)) ! i)"
  using assms by (auto simp: trx_end_def trx_get_def table_ok_def is_free_def)

end
