(* ===== verification/Mib.thy ===== *)
theory Mib
  imports Trx_Table
begin

text \<open>
  The shared memory of the domain: src/mibtypes.h, \<open>mibarr\<close>, \<open>mibarrptr\<close> and \<open>mibmem\<close> of
  src/mib.h, and the operations of src/mib.cpp. Each table is an array of \<open>arr_size\<close> slots of
  which the first \<open>arr_len\<close> are in use; a char array is the list of its bytes. An operation
  that may throw returns the exception and the memory as it was left.
\<close>

subsection \<open>Arrays in shared memory\<close>

record 'a mibarr =
  arr_len :: nat
  arr_size :: nat
  arr_data :: "'a list"

definition arr_at :: "'a mibarr \<Rightarrow> nat \<Rightarrow> 'a except" where
  "arr_at a pos = (if \<not> pos < arr_size a then Inl Out_of_range else Inr (arr_data a ! pos))"

definition arr_put :: "nat \<Rightarrow> 'a \<Rightarrow> 'a mibarr \<Rightarrow> 'a mibarr" where
  "arr_put i x a = a\<lparr>arr_data := (arr_data a)[i := x]\<rparr>"

definition arr_init :: "nat \<Rightarrow> 'a list \<Rightarrow> 'a mibarr" where
  "arr_init n memory = \<lparr>arr_len = 0, arr_size = n, arr_data = memory\<rparr>"

text \<open>The lookup loop over a table, and filling in the first unused slot.\<close>

definition arr_find :: "('a \<Rightarrow> bool) \<Rightarrow> 'a mibarr \<Rightarrow> nat except" where
  "arr_find P a = bind_except (scan_at (arr_at a) P (arr_len a) 0) (\<lambda>r. Inr (or_badoff r))"

definition emplace :: "('a \<Rightarrow> unit except \<times> 'a) \<Rightarrow> 'a mibarr \<Rightarrow> nat except \<times> 'a mibarr" where
  "emplace fill a =
     (case arr_at a (arr_len a) of
        Inl e \<Rightarrow> (Inl e, a)
      | Inr x \<Rightarrow>
          (case fill x of
             (Inl e, x') \<Rightarrow> (Inl e, arr_put (arr_len a) x' a)
           | (Inr _, x') \<Rightarrow> (Inr (arr_len a), (arr_put (arr_len a) x' a)\<lparr>arr_len := arr_len a + 1\<rparr>)))"

text \<open>\<open>checked_copy\<close> into a field of a slot.\<close>

definition copy_field ::
    "byte list \<Rightarrow> ('r \<Rightarrow> byte list) \<Rightarrow> ((byte list \<Rightarrow> byte list) \<Rightarrow> 'r \<Rightarrow> 'r) \<Rightarrow> 'r \<Rightarrow> unit except \<times> 'r" where
  "copy_field src get upd r =
     (case checked_copy src (get r) of Inl e \<Rightarrow> (Inl e, r) | Inr d \<Rightarrow> (Inr (), upd (\<lambda>_. d) r))"

definition copy_cstr ::
    "byte list \<Rightarrow> ('r \<Rightarrow> byte list) \<Rightarrow> ((byte list \<Rightarrow> byte list) \<Rightarrow> 'r \<Rightarrow> 'r) \<Rightarrow> 'r \<Rightarrow> unit except \<times> 'r" where
  "copy_cstr src get upd r =
     (case checked_copy_cstr src (get r) of Inl e \<Rightarrow> (Inl e, r) | Inr d \<Rightarrow> (Inr (), upd (\<lambda>_. d) r))"

subsection \<open>The tables\<close>

datatype state_t =
  INValid | MIGrating | CLEaning | REStarting | SUSpended | PARtitioned | DEAd | NEW |
  ACTive | INActive | undefined_state

record t_domain =
  dom_ipckey :: nat
  dom_trantime :: nat
  dom_maxservers :: nat
  dom_maxservices :: nat
  dom_maxqueues :: nat
  dom_maxgroups :: nat
  dom_maxaccessers :: nat
  dom_blocktime :: nat
  dom_sanityscan :: nat
  dom_master :: "byte list"
  dom_autotran :: "byte list"
  dom_state :: "byte list"
  dom_domainid :: "byte list"
  dom_ldbal :: "byte list"

record t_machine =
  mach_address :: "byte list"
  mach_lmid :: "byte list"
  mach_tuxconfig :: "byte list"
  mach_tuxdir :: "byte list"
  mach_appdir :: "byte list"
  mach_ulogpfx :: "byte list"
  mach_tlogdevice :: "byte list"
  mach_blocktime :: int

record accesser =
  acc_pid :: int
  acc_rpid :: int
  acc_timeout :: int

record mib_group =
  grp_grpno :: nat
  srvgrp :: "byte list"
  openinfo :: "byte list"
  closeinfo :: "byte list"
  tmsname :: "byte list"

record mib_server =
  srv_group_idx :: nat
  srvid :: nat
  srv_grpno :: nat
  mindispatchthreads :: nat
  maxdispatchthreads :: nat
  curdispatchthreads :: nat
  hwdispatchthreads :: nat
  numdispatchthreads :: nat
  basesrvid :: nat
  srv_min :: nat
  srv_max :: nat
  autostart :: bool
  srv_pid :: int
  last_alive_time :: int
  srv_rqaddr :: nat
  rqaddr_idx :: nat
  srv_state :: state_t
  servername :: "byte list"
  clopt :: "byte list"
  envfile :: "byte list"
  dependson :: "byte list"
  rcmd :: "byte list"
  restart :: bool
  grace :: int
  maxgen :: nat
  threadstacksize :: int
  conv :: bool

record mib_queue =
  rqaddr :: "byte list"
  msqid :: int
  q_mtype :: int
  servercnt :: int
  server_idx :: nat

record mib_service =
  servicename :: "byte list"
  svc_state :: state_t
  autotran :: "byte list"
  svc_load :: int
  svc_prio :: int
  svc_blocktime :: int
  svctimeout :: int
  trantime :: int
  buftype :: "byte list"
  routingname :: "byte list"
  signature_required :: "byte list"
  encryption_required :: "byte list"
  buftypeconv :: "byte list"
  cachingname :: "byte list"
  revision :: "64 word"

record advertisement =
  adv_service :: nat
  adv_queue :: nat
  adv_server :: nat
  adv_state :: state_t

definition acc_valid :: "accesser \<Rightarrow> bool" where
  "acc_valid a \<longleftrightarrow> acc_pid a \<noteq> 0"

definition invalidate :: "accesser \<Rightarrow> accesser" where
  "invalidate a = a\<lparr>acc_pid := 0, acc_rpid := -1\<rparr>"

definition suspend :: "mib_server \<Rightarrow> mib_server" where
  "suspend s = s\<lparr>srv_state := SUSpended\<rparr>"

definition is_inactive :: "mib_server \<Rightarrow> bool" where
  "is_inactive s \<longleftrightarrow> srv_state s = INActive"

definition modified :: "mib_service \<Rightarrow> mib_service" where
  "modified s = s\<lparr>revision := revision s + 1\<rparr>"

record mibmem =
  shmid :: int
  mainsem :: int
  host :: "32 word"
  counter :: "32 word"
  domain_info :: t_domain
  mach :: t_machine
  groups :: "mib_group mibarr"
  servers :: "mib_server mibarr"
  queues :: "mib_queue mibarr"
  services :: "mib_service mibarr"
  advertisements :: "advertisement mibarr"
  accessers :: "accesser mibarr"
  transactions :: transaction_table

text \<open>Writing an element in place.\<close>

definition set_queue :: "nat \<Rightarrow> mib_queue \<Rightarrow> mibmem \<Rightarrow> mibmem" where
  "set_queue i x m = m\<lparr>queues := arr_put i x (queues m)\<rparr>"

definition set_service :: "nat \<Rightarrow> mib_service \<Rightarrow> mibmem \<Rightarrow> mibmem" where
  "set_service i x m = m\<lparr>services := arr_put i x (services m)\<rparr>"

definition set_server :: "nat \<Rightarrow> mib_server \<Rightarrow> mibmem \<Rightarrow> mibmem" where
  "set_server i x m = m\<lparr>servers := arr_put i x (servers m)\<rparr>"

definition set_advertisement :: "nat \<Rightarrow> advertisement \<Rightarrow> mibmem \<Rightarrow> mibmem" where
  "set_advertisement i x m = m\<lparr>advertisements := arr_put i x (advertisements m)\<rparr>"

definition set_accesser :: "nat \<Rightarrow> accesser \<Rightarrow> mibmem \<Rightarrow> mibmem" where
  "set_accesser i x m = m\<lparr>accessers := arr_put i x (accessers m)\<rparr>"

subsection \<open>Queues, groups and servers\<close>

definition find_queue :: "byte list \<Rightarrow> mibmem \<Rightarrow> nat except" where
  "find_queue name m = arr_find (\<lambda>q. name = c_string (rqaddr q)) (queues m)"

definition fill_queue :: "byte list \<Rightarrow> mib_queue \<Rightarrow> unit except \<times> mib_queue" where
  "fill_queue name q =
     seqx (copy_field name rqaddr rqaddr_update q)
       (\<lambda>_ q. (Inr (), q\<lparr>msqid := -1, q_mtype := 2 ^ 63 - 1\<rparr>))"

definition make_queue :: "byte list \<Rightarrow> mibmem \<Rightarrow> nat except \<times> mibmem" where
  "make_queue name m =
     (case find_queue name m of
        Inl e \<Rightarrow> (Inl e, m)
      | Inr i \<Rightarrow>
          if i \<noteq> badoff then (Inl Logic_error, m)
          else (case emplace (fill_queue name) (queues m) of
                  (r, qs) \<Rightarrow> (r, m\<lparr>queues := qs\<rparr>)))"

definition group_index :: "byte list \<Rightarrow> mibmem \<Rightarrow> nat except" where
  "group_index name m = arr_find (\<lambda>g. c_string (srvgrp g) = name) (groups m)"

definition find_group :: "nat \<Rightarrow> mibmem \<Rightarrow> nat except" where
  "find_group grpno m = arr_find (\<lambda>g. grp_grpno g = grpno) (groups m)"

definition fill_group ::
    "nat \<Rightarrow> byte list \<Rightarrow> byte list \<Rightarrow> byte list \<Rightarrow> byte list \<Rightarrow> mib_group \<Rightarrow> unit except \<times> mib_group" where
  "fill_group grpno name oinfo cinfo tms g =
     seqx (copy_field name srvgrp srvgrp_update (g\<lparr>grp_grpno := grpno\<rparr>))
       (\<lambda>_ g. seqx (copy_field oinfo openinfo openinfo_update g)
         (\<lambda>_ g. seqx (copy_field cinfo closeinfo closeinfo_update g)
           (\<lambda>_ g. copy_field tms tmsname tmsname_update g)))"

definition make_group ::
    "nat \<Rightarrow> byte list \<Rightarrow> byte list \<Rightarrow> byte list \<Rightarrow> byte list \<Rightarrow> mibmem \<Rightarrow> nat except \<times> mibmem" where
  "make_group grpno name oinfo cinfo tms m =
     (case find_group grpno m of
        Inl e \<Rightarrow> (Inl e, m)
      | Inr i \<Rightarrow>
          if i \<noteq> badoff then (Inl Logic_error, m)
          else (case emplace (fill_group grpno name oinfo cinfo tms) (groups m) of
                  (r, gs) \<Rightarrow> (r, m\<lparr>groups := gs\<rparr>)))"

definition group_by_id :: "nat \<Rightarrow> mibmem \<Rightarrow> mib_group except" where
  "group_by_id grpno m =
     bind_except (find_group grpno m)
       (\<lambda>i. if i = badoff then Inl Logic_error else arr_at (groups m) i)"

definition server_index :: "nat \<Rightarrow> nat \<Rightarrow> mibmem \<Rightarrow> nat except" where
  "server_index sid gidx m = arr_find (\<lambda>s. srvid s = sid \<and> srv_group_idx s = gidx) (servers m)"

definition find_server :: "nat \<Rightarrow> nat \<Rightarrow> mibmem \<Rightarrow> nat except" where
  "find_server sid grpno m = arr_find (\<lambda>s. srvid s = sid \<and> srv_grpno s = grpno) (servers m)"

definition fill_server ::
    "nat \<Rightarrow> nat \<Rightarrow> byte list \<Rightarrow> byte list \<Rightarrow> mib_server \<Rightarrow> unit except \<times> mib_server" where
  "fill_server sid grpno name opts s =
     seqx (copy_field name servername servername_update (s\<lparr>srvid := sid, srv_grpno := grpno\<rparr>))
       (\<lambda>_ s. copy_field opts clopt clopt_update s)"

text \<open>
  The index of the request queue, which is made when there is none yet; \<open>server.rqaddr\<close> has
  been overwritten with \<open>badoff\<close> by the time \<open>make_queue\<close> may throw.
\<close>

definition queue_of_server :: "byte list \<Rightarrow> nat \<Rightarrow> mibmem \<Rightarrow> nat except \<times> mibmem" where
  "queue_of_server name n m =
     (case find_queue name m of
        Inl e \<Rightarrow> (Inl e, m)
      | Inr q \<Rightarrow>
          let m1 = set_server n ((arr_data (servers m) ! n)\<lparr>srv_rqaddr := q\<rparr>) m
          in if q \<noteq> badoff then (Inr q, m1)
             else seqx (make_queue name m1)
                    (\<lambda>q m2. (Inr q, set_server n ((arr_data (servers m2) ! n)\<lparr>srv_rqaddr := q\<rparr>) m2)))"

definition make_server ::
    "nat \<Rightarrow> nat \<Rightarrow> byte list \<Rightarrow> byte list \<Rightarrow> byte list \<Rightarrow> mibmem \<Rightarrow> nat except \<times> mibmem" where
  "make_server sid grpno name opts rq m =
     (case find_server sid grpno m of
        Inl e \<Rightarrow> (Inl e, m)
      | Inr i \<Rightarrow>
          if i \<noteq> badoff then (Inl Logic_error, m)
          else
            let n = arr_len (servers m) in
            case arr_at (servers m) n of
              Inl e \<Rightarrow> (Inl e, m)
            | Inr s \<Rightarrow>
                (case fill_server sid grpno name opts s of
                   (Inl e, s') \<Rightarrow> (Inl e, set_server n s' m)
                 | (Inr _, s') \<Rightarrow>
                     seqx (queue_of_server rq n (set_server n s' m))
                       (\<lambda>q m.
                          case arr_at (queues m) q of
                            Inl e \<Rightarrow> (Inl e, m)
                          | Inr x \<Rightarrow>
                              (Inr n,
                               (set_queue q (x\<lparr>servercnt := servercnt x + 1, server_idx := n\<rparr>) m)
                                 \<lparr>servers := (servers m)\<lparr>arr_len := n + 1\<rparr>\<rparr>))))"

subsection \<open>Services and advertisements\<close>

definition find_service :: "byte list \<Rightarrow> mibmem \<Rightarrow> nat except" where
  "find_service name m = arr_find (\<lambda>s. c_string name = c_string (servicename s)) (services m)"

definition fill_service :: "byte list \<Rightarrow> mib_service \<Rightarrow> unit except \<times> mib_service" where
  "fill_service name s =
     seqx (copy_field name servicename servicename_update s) (\<lambda>_ s.
     seqx (copy_cstr [78] autotran autotran_update (s\<lparr>svc_state := INActive\<rparr>)) (\<lambda>_ s.
     seqx (copy_cstr [65, 76, 76] buftype buftype_update
            (s\<lparr>svc_load := 50, svc_prio := 50, svc_blocktime := 0, svctimeout := 0, trantime := 30\<rparr>)) (\<lambda>_ s.
     seqx (copy_cstr [] routingname routingname_update s) (\<lambda>_ s.
     seqx (copy_cstr [78] signature_required signature_required_update s) (\<lambda>_ s.
     seqx (copy_cstr [78] encryption_required encryption_required_update s) (\<lambda>_ s.
     seqx (copy_cstr [78, 79, 67, 79, 78, 86, 69, 82, 84] buftypeconv buftypeconv_update s) (\<lambda>_ s.
     copy_cstr [] cachingname cachingname_update s)))))))"

definition make_service :: "byte list \<Rightarrow> mibmem \<Rightarrow> nat except \<times> mibmem" where
  "make_service name m =
     (case find_service name m of
        Inl e \<Rightarrow> (Inl e, m)
      | Inr i \<Rightarrow>
          if i \<noteq> badoff then (Inl Logic_error, m)
          else (case emplace (fill_service name) (services m) of
                  (r, ss) \<Rightarrow> (r, m\<lparr>services := ss\<rparr>)))"

definition find_advertisement :: "nat \<Rightarrow> nat \<Rightarrow> nat \<Rightarrow> mibmem \<Rightarrow> nat except" where
  "find_advertisement service queue server m =
     arr_find (\<lambda>a. adv_service a = service \<and> adv_queue a = queue \<and> adv_server a = server) (advertisements m)"

text \<open>The service index of \<open>advertise\<close>: the service is made when it is not known yet.\<close>

definition intern_service :: "byte list \<Rightarrow> mibmem \<Rightarrow> nat except \<times> mibmem" where
  "intern_service name m =
     (case find_service name m of
        Inl e \<Rightarrow> (Inl e, m)
      | Inr i \<Rightarrow> if i = badoff then make_service name m else (Inr i, m))"

definition touch_service :: "(mib_service \<Rightarrow> mib_service) \<Rightarrow> nat \<Rightarrow> mibmem \<Rightarrow> unit except \<times> mibmem" where
  "touch_service f service m =
     (case arr_at (services m) service of
        Inl e \<Rightarrow> (Inl e, m)
      | Inr s \<Rightarrow> (Inr (), set_service service (modified (f s)) m))"

definition advertise :: "byte list \<Rightarrow> nat \<Rightarrow> nat \<Rightarrow> mibmem \<Rightarrow> unit except \<times> mibmem" where
  "advertise name queue server m =
     seqx (intern_service name m) (\<lambda>service m.
       case find_advertisement service queue server m of
         Inl e \<Rightarrow> (Inl e, m)
       | Inr j \<Rightarrow>
           if j \<noteq> badoff then (Inl Logic_error, m)
           else case find_advertisement badoff badoff badoff m of
             Inl e \<Rightarrow> (Inl e, m)
           | Inr k \<Rightarrow>
               let len = arr_len (advertisements m);
                   i = (if k = badoff then len else k)
               in case arr_at (advertisements m) i of
                    Inl e \<Rightarrow> (Inl e, m)
                  | Inr a \<Rightarrow>
                      let m1 = set_advertisement i
                                 \<lparr>adv_service = service, adv_queue = queue, adv_server = server, adv_state = ACTive\<rparr> m;
                          m2 = (if i = len then m1\<lparr>advertisements := (advertisements m1)\<lparr>arr_len := len + 1\<rparr>\<rparr>
                                else m1)
                      in touch_service (svc_state_update (\<lambda>_. ACTive)) service m2)"

definition unadvertise :: "byte list \<Rightarrow> nat \<Rightarrow> nat \<Rightarrow> mibmem \<Rightarrow> unit except \<times> mibmem" where
  "unadvertise name queue server m =
     (case find_service name m of
        Inl e \<Rightarrow> (Inl e, m)
      | Inr service \<Rightarrow>
          if service = badoff then (Inl Logic_error, m)
          else case find_advertisement service queue server m of
            Inl e \<Rightarrow> (Inl e, m)
          | Inr i \<Rightarrow>
              if i = badoff then (Inl Logic_error, m)
              else case arr_at (advertisements m) i of
                Inl e \<Rightarrow> (Inl e, m)
              | Inr a \<Rightarrow>
                  touch_service (\<lambda>s. s) service
                    (set_advertisement i
                      \<lparr>adv_service = badoff, adv_queue = badoff, adv_server = badoff, adv_state = INValid\<rparr> m))"

subsection \<open>Accessers, queue creation, clean-up\<close>

text \<open>\<open>time_point::max()\<close>.\<close>

definition INVALID_TIME :: int where "INVALID_TIME = 2 ^ 63 - 1"

text \<open>\<open>len\<close> has been incremented before \<open>at\<close> checks the new index.\<close>

definition make_accesser :: "int \<Rightarrow> mibmem \<Rightarrow> nat except \<times> mibmem" where
  "make_accesser pid m =
     (case scan_at (arr_at (accessers m)) (\<lambda>a. acc_pid a = 0) (arr_len (accessers m)) 0 of
        Inl e \<Rightarrow> (Inl e, m)
      | Inr r \<Rightarrow>
          let (i, m1) = (case r of
                Some i \<Rightarrow> (i, m)
              | None \<Rightarrow> (arr_len (accessers m),
                          m\<lparr>accessers := (accessers m)\<lparr>arr_len := arr_len (accessers m) + 1\<rparr>\<rparr>))
          in case arr_at (accessers m1) i of
               Inl e \<Rightarrow> (Inl e, m1)
             | Inr a \<Rightarrow> (Inr i, set_accesser i (a\<lparr>acc_timeout := INVALID_TIME, acc_pid := pid\<rparr>) m1))"

text \<open>\<open>qcreate\<close> stands for the queue identifier the system gives, or the failure to.\<close>

definition make_service_rqaddr :: "int except \<Rightarrow> nat \<Rightarrow> mibmem \<Rightarrow> int except \<times> mibmem" where
  "make_service_rqaddr qcreate server m =
     (case arr_at (servers m) server of
        Inl e \<Rightarrow> (Inl e, m)
      | Inr s \<Rightarrow>
          (case arr_at (queues m) (srv_rqaddr s) of
             Inl e \<Rightarrow> (Inl e, m)
           | Inr q \<Rightarrow>
               if msqid q \<noteq> -1 then (Inr (msqid q), m)
               else (case qcreate of
                       Inl e \<Rightarrow> (Inl e, m)
                     | Inr newq \<Rightarrow>
                         let m1 = set_queue (srv_rqaddr s) (q\<lparr>msqid := newq\<rparr>) m
                         in if newq = -1 then (Inl System_error, m1) else (Inr newq, m1))))"

fun collect_ids :: "(nat \<Rightarrow> 'a except) \<Rightarrow> ('a \<Rightarrow> int) \<Rightarrow> nat \<Rightarrow> nat \<Rightarrow> int list except" where
  "collect_ids f get 0 i = Inr []"
| "collect_ids f get (Suc n) i =
     bind_except (f i) (\<lambda>x.
       bind_except (collect_ids f get n (Suc i)) (\<lambda>ids.
         Inr (if get x \<noteq> -1 then get x # ids else ids)))"

text \<open>The queue, shared memory and semaphore identifiers \<open>collect\<close> gives \<open>remove\<close>.\<close>

definition collect :: "mibmem \<Rightarrow> (int list \<times> int list \<times> int list) except" where
  "collect m =
     bind_except (collect_ids (arr_at (queues m)) msqid (arr_len (queues m)) 0) (\<lambda>qs.
       bind_except (collect_ids (arr_at (accessers m)) acc_rpid (arr_len (accessers m)) 0) (\<lambda>rs.
         Inr (qs @ rs, [shmid m], [mainsem m])))"

definition state_to_string :: "state_t \<Rightarrow> byte list" where
  "state_to_string s =
     (case s of ACTive \<Rightarrow> [65, 67, 84] | INActive \<Rightarrow> [73, 78, 65] | INValid \<Rightarrow> [73, 78, 86] | _ \<Rightarrow> [])"

definition to_state :: "byte list \<Rightarrow> state_t" where
  "to_state s = undefined_state"

definition bool_to_string :: "bool \<Rightarrow> byte list" where
  "bool_to_string b = (if b then [89] else [78])"

definition to_bool :: "byte list \<Rightarrow> bool except" where
  "to_bool s = (if s = [89] then Inr True else if s = [78] then Inr False else Inl Logic_error)"

subsection \<open>Unique identifiers\<close>

text \<open>
  \<open>genuid\<close> for the seconds \<open>sec\<close> of the clock: the counter is taken and incremented until the
  identifier is not 0.
\<close>

definition uid_of :: "32 word \<Rightarrow> 64 word \<Rightarrow> 32 word \<Rightarrow> 64 word" where
  "uid_of h sec c =
     push_bit 54 (ucast (h AND 1023)) + push_bit 24 (sec AND 1073741823) + ucast (c AND 16777215)"

partial_function (option) genuid_loop :: "32 word \<Rightarrow> 64 word \<Rightarrow> 32 word \<Rightarrow> (64 word \<times> 32 word) option" where
  "genuid_loop h sec c =
     (if uid_of h sec c \<noteq> 0 then Some (uid_of h sec c, c + 1) else genuid_loop h sec (c + 1))"

definition genuid :: "64 word \<Rightarrow> mibmem \<Rightarrow> (64 word \<times> mibmem) option" where
  "genuid sec m =
     (case genuid_loop (host m) sec (counter m) of
        Some (uid, c) \<Rightarrow> Some (uid, m\<lparr>counter := c\<rparr>)
      | None \<Rightarrow> None)"

end
