(* ===== verification/Mib_Tables.thy ===== *)
theory Mib_Tables
  imports Mib
begin

text \<open>
  The tables of the shared memory that only grow: queues, groups, servers and services. The
  locale \<open>keyed_table\<close> is the contract their find and make operations share, with the lemmas
  its clients need; it is interpreted on each of the four.
\<close>

subsection \<open>Arrays\<close>

definition arr_ok :: "'a mibarr \<Rightarrow> bool" where
  "arr_ok a \<longleftrightarrow> arr_len a \<le> arr_size a \<and> length (arr_data a) = arr_size a \<and> arr_size a \<le> badoff"

definition used :: "'a mibarr \<Rightarrow> 'a list" where
  "used a = take (arr_len a) (arr_data a)"

text \<open>The unused slots still hold what the zero-filled memory gave them.\<close>

definition slots_ok :: "('a \<Rightarrow> bool) \<Rightarrow> 'a mibarr \<Rightarrow> bool" where
  "slots_ok Z a \<longleftrightarrow> arr_ok a \<and> (\<forall>i < arr_size a. arr_len a \<le> i \<longrightarrow> Z (arr_data a ! i))"

lemma slots_okD: "slots_ok Z a \<Longrightarrow> arr_ok a"
  by (simp add: slots_ok_def)

lemma length_used [simp]: "arr_ok a \<Longrightarrow> length (used a) = arr_len a"
  by (simp add: arr_ok_def used_def)

lemma used_nth: "i < arr_len a \<Longrightarrow> used a ! i = arr_data a ! i"
  by (simp add: used_def)

lemma arr_at_used: "arr_ok a \<Longrightarrow> i < arr_len a \<Longrightarrow> arr_at a i = Inr (used a ! i)"
  by (simp add: arr_at_def arr_ok_def used_nth)

lemma scan_used: "arr_ok a \<Longrightarrow> scan_at (arr_at a) P (arr_len a) 0 = Inr (search P (used a))"
  unfolding used_def by (rule scan_at_take) (auto simp: arr_at_def arr_ok_def)

lemma arr_find_used: "arr_ok a \<Longrightarrow> arr_find P a = Inr (or_badoff (search P (used a)))"
  by (simp add: arr_find_def scan_used)

lemma or_badoff_found: "arr_ok a \<Longrightarrow> or_badoff (search P (used a)) \<noteq> badoff \<longleftrightarrow> (\<exists>x \<in> set (used a). P x)"
proof -
  assume ok: "arr_ok a"
  show ?thesis
  proof (cases "search P (used a)")
    case None
    then have "\<forall>x \<in> set (used a). \<not> P x" by (simp add: search_from_None)
    then show ?thesis using None by (simp add: or_badoff_def)
  next
    case (Some i)
    then have "i < arr_len a" "P (used a ! i)" using ok by (auto simp: search_Some)
    moreover have "used a ! i \<in> set (used a)" using \<open>i < arr_len a\<close> ok by simp
    moreover have "i < badoff" using \<open>i < arr_len a\<close> ok by (simp add: arr_ok_def)
    ultimately show ?thesis using Some by (auto simp add: or_badoff_def)
  qed
qed

lemma arr_find_total:
  assumes "arr_ok a"
  shows "\<exists>i. arr_find P a = Inr i \<and> (i = badoff \<or> i < arr_len a)"
proof (cases "search P (used a)")
  case None
  then show ?thesis by (simp add: arr_find_used [OF assms] or_badoff_def)
next
  case (Some i)
  then have "i < arr_len a" using assms by (simp add: search_Some)
  then show ?thesis using Some by (simp add: arr_find_used [OF assms] or_badoff_def)
qed

lemma arr_find_hit:
  "arr_ok a \<Longrightarrow> arr_find P a = Inr i \<Longrightarrow> i \<noteq> badoff \<Longrightarrow> i < arr_len a \<and> P (used a ! i)"
  by (auto simp: arr_find_used or_badoff_def search_Some split: option.splits)

lemma arr_find_miss: "arr_ok a \<Longrightarrow> arr_find P a = Inr badoff \<longleftrightarrow> (\<forall>x \<in> set (used a). \<not> P x)"
  using or_badoff_found [of a P] by (simp add: arr_find_used) blast

lemma arr_find_snoc:
  assumes "arr_ok a" "arr_ok b" "used b = used a @ [x]"
  shows "arr_find P b = (if arr_find P a = Inr badoff then Inr (if P x then arr_len a else badoff) else arr_find P a)"
proof (cases "search P (used a)")
  case None
  then show ?thesis
    using assms by (simp add: arr_find_used search_from_append or_badoff_def)
next
  case (Some i)
  then have "i < badoff" using assms(1) by (auto simp: search_Some arr_ok_def)
  then show ?thesis using Some assms by (simp add: arr_find_used search_from_append or_badoff_def)
qed

lemma arr_put_simps [simp]:
  "arr_len (arr_put i x a) = arr_len a" "arr_size (arr_put i x a) = arr_size a"
  "arr_data (arr_put i x a) = (arr_data a)[i := x]"
  by (simp_all add: arr_put_def)

lemma slots_ok_put: "slots_ok Z a \<Longrightarrow> i < arr_len a \<Longrightarrow> slots_ok Z (arr_put i x a)"
  by (auto simp: slots_ok_def arr_ok_def)

lemma arr_ok_put: "arr_ok a \<Longrightarrow> arr_ok (arr_put i x a)"
  by (auto simp: arr_ok_def)

lemma used_put: "arr_ok a \<Longrightarrow> used (arr_put i x a) = (used a)[i := x]"
  by (simp add: used_def take_update_swap)

lemma append_slot:
  fixes x :: 'a
  assumes ok: "slots_ok Z a" and room: "arr_len a < arr_size a"
  defines "b \<equiv> (arr_put (arr_len a) x a)\<lparr>arr_len := arr_len a + 1\<rparr>"
  shows "slots_ok Z b" "used b = used a @ [x]" "arr_len b = Suc (arr_len a)" "arr_size b = arr_size a"
  using ok room by (auto simp: b_def slots_ok_def arr_ok_def used_def take_Suc_conv_app_nth nth_update)

lemma emplace_fits:
  assumes "arr_len a < arr_size a" "fill (arr_data a ! arr_len a) = (Inr (), x)"
  shows "emplace fill a = (Inr (arr_len a), (arr_put (arr_len a) x a)\<lparr>arr_len := arr_len a + 1\<rparr>)"
  using assms by (simp add: emplace_def arr_at_def)

lemma emplace_success:
  assumes "emplace fill a = (Inr j, b)"
  shows "arr_len a < arr_size a \<and> (\<exists>x. fill (arr_data a ! arr_len a) = (Inr (), x))"
  using assms by (auto simp: emplace_def arr_at_def split: sum.splits prod.splits if_splits)

text \<open>A search depends only on the part of the elements it looks at.\<close>

lemma search_from_map: "search_from i (\<lambda>x. P (f x)) xs = search_from i P (map f xs)"
  by (induction xs arbitrary: i) auto

subsection \<open>The contract\<close>

fun insert_all ::
    "('k \<Rightarrow> 'v \<Rightarrow> 's \<Rightarrow> nat except \<times> 's) \<Rightarrow> ('k \<times> 'v) list \<Rightarrow> 's \<Rightarrow> nat list except \<times> 's" where
  "insert_all ins [] s = (Inr [], s)"
| "insert_all ins ((k, v) # kvs) s =
     seqx (ins k v s) (\<lambda>i s. seqx (insert_all ins kvs s) (\<lambda>js s. (Inr (i # js), s)))"

locale keyed_table =
  fixes lookup :: "'k \<Rightarrow> 's \<Rightarrow> nat except"
    and ins :: "'k \<Rightarrow> 'v \<Rightarrow> 's \<Rightarrow> nat except \<times> 's"
    and ok :: "'s \<Rightarrow> bool"
    and count :: "'s \<Rightarrow> nat"
    and fits :: "'k \<Rightarrow> 'v \<Rightarrow> 's \<Rightarrow> bool"
    and key :: "'k \<Rightarrow> bool"
  assumes lookup_total: "ok s \<Longrightarrow> \<exists>i. lookup k s = Inr i \<and> (i = badoff \<or> i < count s)"
    and insert_new:
      "ok s \<Longrightarrow> key k \<Longrightarrow> lookup k s = Inr badoff \<Longrightarrow> fits k v s \<Longrightarrow>
       \<exists>s'. ins k v s = (Inr (count s), s') \<and> ok s' \<and> count s' = Suc (count s) \<and> count s < badoff \<and>
            lookup k s' = Inr (count s) \<and> (\<forall>k'. key k' \<longrightarrow> k' \<noteq> k \<longrightarrow> lookup k' s' = lookup k' s)"
    and insert_dup: "ok s \<Longrightarrow> lookup k s = Inr i \<Longrightarrow> i \<noteq> badoff \<Longrightarrow> ins k v s = (Inl Logic_error, s)"
    and insert_fits: "ok s \<Longrightarrow> ins k v s = (Inr j, s') \<Longrightarrow> fits k v s"
begin

lemma insert_success:
  assumes "ok s" "key k" "ins k v s = (Inr j, s')"
  shows "j = count s \<and> lookup k s = Inr badoff \<and> ok s' \<and> count s' = Suc j \<and> j < badoff \<and>
         lookup k s' = Inr j \<and> (\<forall>k'. key k' \<longrightarrow> k' \<noteq> k \<longrightarrow> lookup k' s' = lookup k' s)"
proof -
  obtain i where i: "lookup k s = Inr i" using lookup_total [OF assms(1)] by blast
  have "i = badoff"
  proof (rule ccontr)
    assume "i \<noteq> badoff"
    then show False using insert_dup [OF assms(1) i, of v] assms(3) by simp
  qed
  then show ?thesis
    using insert_new [OF assms(1,2), of v] insert_fits [OF assms(1,3)] i assms(3) by auto
qed

lemma found_stays:
  assumes "ok s" "key k" "key k'" "lookup k s = Inr i" "i \<noteq> badoff" "ins k' v s = (Inr j, s')"
  shows "lookup k s' = Inr i"
proof -
  note new = insert_success [OF assms(1,3,6)]
  then have "k' \<noteq> k" using assms(4,5) by auto
  then show ?thesis using new assms(2,4) by auto
qed

lemma insert_all_success:
  assumes "ok s" "\<forall>k \<in> set (map fst kvs). key k" "insert_all ins kvs s = (Inr js, s')"
  shows "ok s' \<and> js = [count s ..< count s'] \<and> count s' = count s + length kvs \<and> distinct (map fst kvs) \<and>
         (\<forall>k \<in> set (map fst kvs). lookup k s = Inr badoff) \<and>
         list_all2 (\<lambda>k j. lookup k s' = Inr j) (map fst kvs) js \<and>
         (\<forall>k. key k \<longrightarrow> k \<notin> set (map fst kvs) \<longrightarrow> lookup k s' = lookup k s)"
  using assms
proof (induction kvs arbitrary: s js s')
  case Nil
  then show ?case by simp
next
  case (Cons kv kvs)
  obtain k v where kv: "kv = (k, v)" by (cases kv)
  from Cons.prems(3) obtain i s1 js1 where
    one: "ins k v s = (Inr i, s1)" and rest: "insert_all ins kvs s1 = (Inr js1, s')" and js: "js = i # js1"
    by (auto simp: kv seqx_def split: sum.splits prod.splits)
  have kk: "key k" "\<forall>k \<in> set (map fst kvs). key k" using Cons.prems(2) by (simp_all add: kv)
  note new = insert_success [OF Cons.prems(1) kk(1) one]
  then have ok1: "ok s1" by simp
  note IH = Cons.IH [OF ok1 kk(2) rest]
  have "k \<notin> set (map fst kvs)"
  proof
    assume "k \<in> set (map fst kvs)"
    then have "lookup k s1 = Inr badoff" using IH by blast
    then show False using new by auto
  qed
  moreover have "[i ..< count s'] = i # [Suc i ..< count s']"
  proof -
    have "i < count s'" using IH new by simp
    then show ?thesis by (simp add: upt_conv_Cons)
  qed
  moreover have "lookup k' s = Inr badoff" if "k' \<in> set (map fst kvs)" for k'
  proof -
    have "k' \<noteq> k" using that \<open>k \<notin> set (map fst kvs)\<close> by auto
    then have "lookup k' s1 = lookup k' s" using new kk(2) that by blast
    then show ?thesis using IH that by metis
  qed
  moreover have "lookup k s' = Inr i" using IH new kk(1) \<open>k \<notin> set (map fst kvs)\<close> by metis
  ultimately show ?case using IH new kk by (clarsimp simp: kv js simp del: upt_Suc)
qed

end

subsection \<open>The tables of the shared memory satisfy it\<close>

definition queue_zero :: "mib_queue \<Rightarrow> bool" where
  "queue_zero q \<longleftrightarrow> rqaddr q = replicate 32 0"

definition group_zero :: "mib_group \<Rightarrow> bool" where
  "group_zero g \<longleftrightarrow> srvgrp g = replicate 30 0 \<and> openinfo g = replicate 256 0 \<and>
     closeinfo g = replicate 256 0 \<and> tmsname g = replicate 256 0"

definition server_zero :: "mib_server \<Rightarrow> bool" where
  "server_zero s \<longleftrightarrow> servername s = replicate 128 0 \<and> clopt s = replicate 1024 0"

definition service_zero :: "mib_service \<Rightarrow> bool" where
  "service_zero s \<longleftrightarrow> servicename s = replicate 32 0 \<and> length (autotran s) = 2 \<and> length (buftype s) = 256 \<and>
     length (routingname s) = 16 \<and> length (signature_required s) = 2 \<and> length (encryption_required s) = 2 \<and>
     length (buftypeconv s) = 10 \<and> length (cachingname s) = 32"

definition mib_ok :: "mibmem \<Rightarrow> bool" where
  "mib_ok m \<longleftrightarrow> slots_ok group_zero (groups m) \<and> slots_ok server_zero (servers m) \<and>
     slots_ok queue_zero (queues m) \<and> slots_ok service_zero (services m) \<and> arr_ok (advertisements m)"

lemma mib_ok_arrays:
  assumes "mib_ok m"
  shows "slots_ok group_zero (groups m)" "slots_ok server_zero (servers m)" "slots_ok queue_zero (queues m)"
    "slots_ok service_zero (services m)" "arr_ok (advertisements m)"
    "arr_ok (groups m)" "arr_ok (servers m)" "arr_ok (queues m)" "arr_ok (services m)"
  using assms by (auto simp: mib_ok_def intro: slots_okD)

lemma next_slot: "slots_ok Z a \<Longrightarrow> arr_len a < arr_size a \<Longrightarrow> Z (arr_data a ! arr_len a)"
  by (simp add: slots_ok_def)

lemma copy_field_ok:
  assumes "get r = replicate n 0" "length src < n"
  shows "copy_field src get upd r = (Inr (), upd (\<lambda>_. src @ replicate (n - length src) 0) r)"
  using assms by (simp add: copy_field_def checked_copy_def)

lemma copy_field_success: "copy_field src get upd r = (Inr (), x) \<Longrightarrow> length src < length (get r)"
  by (auto simp: copy_field_def checked_copy_def split: if_splits)

lemma copy_cstr_ok:
  "length src < length (get r) \<Longrightarrow>
   copy_cstr src get upd r = (Inr (), upd (\<lambda>_. src @ 0 # drop (length src + 1) (get r)) r)"
  by (simp add: copy_cstr_def checked_copy_cstr_def)

lemma fill_queue_ok:
  assumes "queue_zero q"
  shows "length name < 32 \<Longrightarrow>
           fill_queue name q = (Inr (), q\<lparr>rqaddr := name @ replicate (32 - length name) 0, msqid := -1, q_mtype := 2 ^ 63 - 1\<rparr>)"
    and "fill_queue name q = (Inr (), x) \<Longrightarrow> length name < 32"
  using assms
  by (auto simp: fill_queue_def queue_zero_def copy_field_def checked_copy_def split: if_splits)

lemma name_field: "0 \<notin> set name \<Longrightarrow> c_string (name @ replicate n 0) = name"
  by (simp add: c_string_append)

interpretation queue_table: keyed_table
  find_queue "\<lambda>name (_ :: unit). make_queue name" mib_ok "\<lambda>m. arr_len (queues m)"
  "\<lambda>name _ m. arr_len (queues m) < arr_size (queues m) \<and> length name < 32" "\<lambda>name. 0 \<notin> set name"
proof (unfold_locales, goal_cases)
  case (1 m name)
  then show ?case unfolding find_queue_def by (intro arr_find_total mib_ok_arrays)
next
  case (2 m name v)
  let ?a = "queues m" and ?P = "\<lambda>name q. name = c_string (rqaddr q)"
  let ?x = "(arr_data ?a ! arr_len ?a)\<lparr>rqaddr := name @ replicate (32 - length name) 0, msqid := -1, q_mtype := 2 ^ 63 - 1\<rparr>"
  let ?b = "(arr_put (arr_len ?a) ?x ?a)\<lparr>arr_len := arr_len ?a + 1\<rparr>"
  note ok = mib_ok_arrays [OF 2(1)]
  have room: "arr_len ?a < arr_size ?a" and len: "length name < 32" using 2(4) by auto
  note app = append_slot [OF ok(3) room, of ?x]
  have "make_queue name m = (Inr (arr_len ?a), m\<lparr>queues := ?b\<rparr>)"
    using 2(3) emplace_fits [OF room, of "fill_queue name" ?x] fill_queue_ok(1) [OF next_slot [OF ok(3) room] len]
    by (simp add: make_queue_def)
  moreover have "mib_ok (m\<lparr>queues := ?b\<rparr>)" using 2(1) app(1) by (simp add: mib_ok_def)
  moreover have "find_queue k (m\<lparr>queues := ?b\<rparr>) =
      (if find_queue k m = Inr badoff then Inr (if ?P k ?x then arr_len ?a else badoff) else find_queue k m)" for k
    using arr_find_snoc [OF ok(8) slots_okD [OF app(1)] app(2), of "?P k"] by (simp add: find_queue_def)
  ultimately show ?case using 2(2,3) room ok(8) by (auto simp: name_field arr_ok_def)
next
  case (3 m name i v)
  then show ?case by (simp add: make_queue_def)
next
  case (4 m name v j m')
  then have "emplace (fill_queue name) (queues m) = (Inr j, queues m')"
    by (auto simp: make_queue_def split: sum.splits if_splits prod.splits)
  from emplace_success [OF this] show ?case
    using fill_queue_ok(2) [OF next_slot [OF mib_ok_arrays(3) [OF 4(1)]]] by auto
qed

text \<open>The group table, by group number.\<close>

lemma fill_group_ok:
  assumes "group_zero g"
  shows "length name < 30 \<and> length oi < 256 \<and> length ci < 256 \<and> length tms < 256 \<Longrightarrow>
           \<exists>x. fill_group no name oi ci tms g = (Inr (), x) \<and> grp_grpno x = no"
    and "fill_group no name oi ci tms g = (Inr (), x) \<Longrightarrow>
           length name < 30 \<and> length oi < 256 \<and> length ci < 256 \<and> length tms < 256"
  using assms
  by (auto simp: fill_group_def group_zero_def copy_field_def checked_copy_def split: if_splits)

interpretation group_table: keyed_table
  find_group "\<lambda>no (name, oi, ci, tms). make_group no name oi ci tms" mib_ok "\<lambda>m. arr_len (groups m)"
  "\<lambda>no (name, oi, ci, tms) m. arr_len (groups m) < arr_size (groups m) \<and>
     length name < 30 \<and> length oi < 256 \<and> length ci < 256 \<and> length tms < 256" "\<lambda>_. True"
proof (unfold_locales, goal_cases)
  case (1 m no)
  then show ?case unfolding find_group_def by (intro arr_find_total mib_ok_arrays)
next
  case (2 m no v)
  obtain name oi ci tms where v: "v = (name, oi, ci, tms)" by (cases v)
  let ?a = "groups m" and ?P = "\<lambda>no g. grp_grpno g = no"
  note ok = mib_ok_arrays [OF 2(1)]
  have room: "arr_len ?a < arr_size ?a" and len: "length name < 30 \<and> length oi < 256 \<and> length ci < 256 \<and> length tms < 256"
    using 2(4) by (auto simp: v)
  obtain x where x: "fill_group no name oi ci tms (arr_data ?a ! arr_len ?a) = (Inr (), x)" "grp_grpno x = no"
    using fill_group_ok(1) [OF next_slot [OF ok(1) room] len] by blast
  let ?b = "(arr_put (arr_len ?a) x ?a)\<lparr>arr_len := arr_len ?a + 1\<rparr>"
  note app = append_slot [OF ok(1) room, of x]
  have "make_group no name oi ci tms m = (Inr (arr_len ?a), m\<lparr>groups := ?b\<rparr>)"
    using 2(3) emplace_fits [OF room, of "fill_group no name oi ci tms" x] x(1) by (simp add: make_group_def)
  moreover have "mib_ok (m\<lparr>groups := ?b\<rparr>)" using 2(1) app(1) by (simp add: mib_ok_def)
  moreover have "find_group k (m\<lparr>groups := ?b\<rparr>) =
      (if find_group k m = Inr badoff then Inr (if ?P k x then arr_len ?a else badoff) else find_group k m)" for k
    using arr_find_snoc [OF ok(6) slots_okD [OF app(1)] app(2), of "?P k"] by (simp add: find_group_def)
  ultimately show ?case using 2(3) room ok(6) x(2) by (auto simp: v arr_ok_def)
next
  case (3 m no i v)
  then show ?case by (cases v) (simp add: make_group_def)
next
  case (4 m no v j m')
  obtain name oi ci tms where v: "v = (name, oi, ci, tms)" by (cases v)
  from 4 have "emplace (fill_group no name oi ci tms) (groups m) = (Inr j, groups m')"
    by (auto simp: v make_group_def split: sum.splits if_splits prod.splits)
  from emplace_success [OF this] show ?case
    using fill_group_ok(2) [OF next_slot [OF mib_ok_arrays(1) [OF 4(1)]]] by (auto simp: v)
qed

text \<open>The service table, by name.\<close>

lemma fill_service_ok:
  assumes "service_zero s"
  shows "length name < 32 \<Longrightarrow> \<exists>x. fill_service name s = (Inr (), x) \<and> servicename x = name @ replicate (32 - length name) 0"
    and "fill_service name s = (Inr (), x) \<Longrightarrow> length name < 32"
  using assms
  by (auto simp: fill_service_def service_zero_def copy_field_ok copy_cstr_ok)
    (auto simp: copy_field_def checked_copy_def split: if_splits)

interpretation service_table: keyed_table
  find_service "\<lambda>name (_ :: unit). make_service name" mib_ok "\<lambda>m. arr_len (services m)"
  "\<lambda>name _ m. arr_len (services m) < arr_size (services m) \<and> length name < 32" "\<lambda>name. 0 \<notin> set name"
proof (unfold_locales, goal_cases)
  case (1 m name)
  then show ?case unfolding find_service_def by (intro arr_find_total mib_ok_arrays)
next
  case (2 m name v)
  let ?a = "services m" and ?P = "\<lambda>name s. c_string name = c_string (servicename s)"
  note ok = mib_ok_arrays [OF 2(1)]
  have room: "arr_len ?a < arr_size ?a" and len: "length name < 32" using 2(4) by auto
  obtain x where x: "fill_service name (arr_data ?a ! arr_len ?a) = (Inr (), x)"
    "servicename x = name @ replicate (32 - length name) 0"
    using fill_service_ok(1) [OF next_slot [OF ok(4) room] len] by blast
  let ?b = "(arr_put (arr_len ?a) x ?a)\<lparr>arr_len := arr_len ?a + 1\<rparr>"
  note app = append_slot [OF ok(4) room, of x]
  have "make_service name m = (Inr (arr_len ?a), m\<lparr>services := ?b\<rparr>)"
    using 2(3) emplace_fits [OF room, of "fill_service name" x] x(1) by (simp add: make_service_def)
  moreover have "mib_ok (m\<lparr>services := ?b\<rparr>)" using 2(1) app(1) by (simp add: mib_ok_def)
  moreover have "find_service k (m\<lparr>services := ?b\<rparr>) =
      (if find_service k m = Inr badoff then Inr (if ?P k x then arr_len ?a else badoff) else find_service k m)" for k
    using arr_find_snoc [OF ok(9) slots_okD [OF app(1)] app(2), of "?P k"] by (simp add: find_service_def)
  ultimately show ?case using 2(2,3) room ok(9) x(2) by (auto simp: name_field arr_ok_def c_string_idle)
next
  case (3 m name i v)
  then show ?case by (simp add: make_service_def)
next
  case (4 m name v j m')
  then have "emplace (fill_service name) (services m) = (Inr j, services m')"
    by (auto simp: make_service_def split: sum.splits if_splits prod.splits)
  from emplace_success [OF this] show ?case
    using fill_service_ok(2) [OF next_slot [OF mib_ok_arrays(4) [OF 4(1)]]] by auto
qed


subsection \<open>Servers\<close>

text \<open>
  Making a server writes its slot and, for a new request address, the queue table. The queue
  operations neither read nor write the server table.
\<close>

lemma find_queue_servers: "find_queue name (m\<lparr>servers := s\<rparr>) = find_queue name m"
  by (simp add: find_queue_def)

lemma make_queue_servers:
  "make_queue name (m\<lparr>servers := s\<rparr>) = (fst (make_queue name m), (snd (make_queue name m))\<lparr>servers := s\<rparr>)"
  by (simp add: make_queue_def find_queue_servers split: sum.split prod.split)

lemma servers_make_queue [simp]: "servers (snd (make_queue name m)) = servers m"
  by (simp add: make_queue_def split: sum.split prod.split)

lemma fill_server_ok:
  assumes "server_zero s"
  shows "length name < 128 \<and> length opts < 1024 \<Longrightarrow>
           \<exists>x. fill_server sid gno name opts s = (Inr (), x) \<and> srvid x = sid \<and> srv_grpno x = gno"
    and "fill_server sid gno name opts s = (Inr (), x) \<Longrightarrow> length name < 128 \<and> length opts < 1024"
  using assms
  by (auto simp: fill_server_def server_zero_def copy_field_def checked_copy_def split: if_splits)

definition server_fits :: "byte list \<Rightarrow> byte list \<Rightarrow> byte list \<Rightarrow> mibmem \<Rightarrow> bool" where
  "server_fits name opts rq m \<longleftrightarrow>
     arr_len (servers m) < arr_size (servers m) \<and> length name < 128 \<and> length opts < 1024 \<and>
     (find_queue rq m = Inr badoff \<longrightarrow> arr_len (queues m) < arr_size (queues m) \<and> length rq < 32)"

lemma queue_of_server_ok:
  assumes ok: "mib_ok m" and rq: "0 \<notin> set rq"
    and fits: "find_queue rq m = Inr badoff \<longrightarrow> arr_len (queues m) < arr_size (queues m) \<and> length rq < 32"
    and n: "n < arr_size (servers m)"
  shows "\<exists>q m'. queue_of_server rq n (m\<lparr>servers := arr_put n x (servers m)\<rparr>) =
             (Inr q, m'\<lparr>servers := arr_put n (x\<lparr>srv_rqaddr := q\<rparr>) (servers m)\<rparr>) \<and>
           mib_ok m' \<and> servers m' = servers m \<and> q < arr_len (queues m') \<and> find_queue rq m' = Inr q"
proof -
  have len: "n < length (arr_data (servers m))" using n mib_ok_arrays(7) [OF ok] by (simp add: arr_ok_def)
  obtain i where i: "find_queue rq m = Inr i" "i = badoff \<or> i < arr_len (queues m)"
    using queue_table.lookup_total [OF ok] by blast
  note put = set_server_def arr_put_def len
  show ?thesis
  proof (cases "i = badoff")
    case False
    then show ?thesis using i ok
      by (intro exI [of _ i] exI [of _ m]) (simp add: queue_of_server_def find_queue_servers put Let_def)
  next
    case True
    then obtain m' where m': "make_queue rq m = (Inr (arr_len (queues m)), m')" "mib_ok m'"
      "arr_len (queues m') = Suc (arr_len (queues m))" "find_queue rq m' = Inr (arr_len (queues m))"
      using queue_table.insert_new [OF ok rq] i fits by auto
    have "servers m' = servers m" using servers_make_queue [of rq m] m'(1) by simp
    then show ?thesis using True i m'
      by (intro exI [of _ "arr_len (queues m)"] exI [of _ m'])
        (simp add: queue_of_server_def find_queue_servers make_queue_servers put Let_def)
  qed
qed

lemma make_server_ok:
  assumes ok: "mib_ok m" and new: "find_server sid gno m = Inr badoff" and fits: "server_fits name opts rq m"
    and rq: "0 \<notin> set rq"
  shows "\<exists>m' x. make_server sid gno name opts rq m = (Inr (arr_len (servers m)), m') \<and> mib_ok m' \<and>
           used (servers m') = used (servers m) @ [x] \<and> arr_len (servers m') = Suc (arr_len (servers m)) \<and>
           srvid x = sid \<and> srv_grpno x = gno \<and> find_queue rq m' = Inr (srv_rqaddr x) \<and>
           server_idx (used (queues m') ! srv_rqaddr x) = arr_len (servers m)"
proof -
  let ?n = "arr_len (servers m)"
  note oks = mib_ok_arrays [OF ok]
  have room: "?n < arr_size (servers m)" using fits by (simp add: server_fits_def)
  have lens: "length name < 128 \<and> length opts < 1024" using fits by (simp add: server_fits_def)
  obtain x where x: "fill_server sid gno name opts (arr_data (servers m) ! ?n) = (Inr (), x)"
    "srvid x = sid" "srv_grpno x = gno"
    using fill_server_ok(1) [OF next_slot [OF oks(2) room] lens] by blast
  have qf: "find_queue rq m = Inr badoff \<longrightarrow> arr_len (queues m) < arr_size (queues m) \<and> length rq < 32"
    using fits by (simp add: server_fits_def)
  obtain q m1 where q: "queue_of_server rq ?n (m\<lparr>servers := arr_put ?n x (servers m)\<rparr>) =
      (Inr q, m1\<lparr>servers := arr_put ?n (x\<lparr>srv_rqaddr := q\<rparr>) (servers m)\<rparr>)"
    and m1: "mib_ok m1" "servers m1 = servers m" "q < arr_len (queues m1)" "find_queue rq m1 = Inr q"
    using queue_of_server_ok [OF ok rq qf room] by blast
  let ?y = "(arr_data (queues m1) ! q)\<lparr>servercnt := servercnt (arr_data (queues m1) ! q) + 1, server_idx := ?n\<rparr>"
  let ?srv = "(arr_put ?n (x\<lparr>srv_rqaddr := q\<rparr>) (servers m))\<lparr>arr_len := ?n + 1\<rparr>"
  let ?m = "m1\<lparr>queues := arr_put q ?y (queues m1), servers := ?srv\<rparr>"
  note ok1 = mib_ok_arrays [OF m1(1)]
  have at: "q < arr_size (queues m1)" using m1(3) ok1(8) by (simp add: arr_ok_def)
  have run: "make_server sid gno name opts rq m = (Inr ?n, ?m)"
    using new x(1) q at room by (simp add: make_server_def arr_at_def set_server_def set_queue_def Let_def)
  note app = append_slot [OF oks(2) room, of "x\<lparr>srv_rqaddr := q\<rparr>"]
  have "mib_ok ?m" using m1 ok1 app(1) slots_ok_put [OF ok1(3) m1(3), of ?y] by (simp add: mib_ok_def)
  moreover have "find_queue rq ?m = Inr q"
  proof -
    have same: "used (queues ?m) = (used (queues m1))[q := ?y]" using used_put [OF ok1(8)] by simp
    have "rqaddr ?y = rqaddr (used (queues m1) ! q)" using m1(3) by (simp add: used_nth)
    then have rqs: "map rqaddr ((used (queues m1))[q := ?y]) = map rqaddr (used (queues m1))"
      by (simp only: map_update list_update_same_conv) (simp add: m1(3) ok1(8) list_update_same_conv)
    have "search (\<lambda>z. rq = c_string (rqaddr z)) ((used (queues m1))[q := ?y]) =
               search (\<lambda>z. rq = c_string (rqaddr z)) (used (queues m1))"
      using rqs by (simp only: search_from_map [of 0 "\<lambda>a. rq = c_string a" rqaddr])
    then show ?thesis
      using m1(4) ok1(8) same arr_ok_put [OF ok1(8), of q ?y] by (simp add: find_queue_def arr_find_used)
  qed
  ultimately show ?thesis using run app(2) x(2,3) m1(3) ok1(8)
    by (intro exI [of _ ?m] exI [of _ "x\<lparr>srv_rqaddr := q\<rparr>"]) (simp add: used_put arr_ok_def)
qed


lemma make_server_success:
  assumes ok: "mib_ok m" and run: "make_server sid gno name opts rq m = (Inr j, m')" and rq: "0 \<notin> set rq"
  shows "server_fits name opts rq m"
proof -
  note oks = mib_ok_arrays [OF ok]
  let ?n = "arr_len (servers m)"
  have new: "find_server sid gno m = Inr badoff"
  proof -
    obtain i where "find_server sid gno m = Inr i"
      using arr_find_total [OF oks(7)] unfolding find_server_def by blast
    then show ?thesis using run by (cases "i = badoff") (simp_all add: make_server_def)
  qed
  then have room: "?n < arr_size (servers m)"
    using run by (auto simp: make_server_def arr_at_def Let_def split: if_splits)
  obtain x where x: "fill_server sid gno name opts (arr_data (servers m) ! ?n) = (Inr (), x)"
    using run new room by (auto simp: make_server_def arr_at_def Let_def split: sum.splits prod.splits)
  then have lens: "length name < 128 \<and> length opts < 1024"
    by (rule fill_server_ok(2) [OF next_slot [OF oks(2) room]])
  have "arr_len (queues m) < arr_size (queues m) \<and> length rq < 32" if miss: "find_queue rq m = Inr badoff"
  proof (rule ccontr)
    assume no: "\<not> ?thesis"
    have "\<not> (\<exists>i m1. make_queue rq m = (Inr i, m1))"
      using queue_table.insert_fits [OF ok] no by blast
    then obtain e where e: "fst (make_queue rq m) = Inl e"
      by (cases "make_queue rq m"; cases "fst (make_queue rq m)") auto
    have "fst (queue_of_server rq ?n (set_server ?n x m)) = Inl e"
      using miss e by (simp add: queue_of_server_def set_server_def find_queue_servers make_queue_servers
          Let_def seqx_def split: sum.split)
    then show False
      using run new room x by (cases "queue_of_server rq ?n (set_server ?n x m)")
        (simp add: make_server_def arr_at_def Let_def)
  qed
  then show ?thesis using room lens by (simp add: server_fits_def)
qed

text \<open>
  The client of this instance gives only request addresses without a NUL, as C++ reads them
  from text.
\<close>

interpretation server_table: keyed_table
  "\<lambda>(sid, gno). find_server sid gno"
  "\<lambda>(sid, gno) (name, opts, rq) m. make_server sid gno name opts (c_string rq) m" mib_ok
  "\<lambda>m. arr_len (servers m)" "\<lambda>_ (name, opts, rq). server_fits name opts (c_string rq)" "\<lambda>_. True"
proof (unfold_locales, goal_cases)
  case (1 m k)
  then show ?case unfolding find_server_def by (cases k) (auto intro: arr_find_total mib_ok_arrays)
next
  case (2 m k v)
  obtain sid gno name opts rq where kv: "k = (sid, gno)" "v = (name, opts, rq)" by (cases k; cases v)
  note oks = mib_ok_arrays [OF 2(1)]
  have pre: "find_server sid gno m = Inr badoff" "server_fits name opts (c_string rq) m"
    using 2(3,4) by (simp_all add: kv)
  obtain m' x where m': "make_server sid gno name opts (c_string rq) m = (Inr (arr_len (servers m)), m')"
    "mib_ok m'" "used (servers m') = used (servers m) @ [x]" "arr_len (servers m') = Suc (arr_len (servers m))"
    "srvid x = sid" "srv_grpno x = gno"
    using make_server_ok [OF 2(1) pre c_string_no_nul] by blast
  have "find_server a b m' = (if find_server a b m = Inr badoff
          then Inr (if srvid x = a \<and> srv_grpno x = b then arr_len (servers m) else badoff)
          else find_server a b m)" for a b
    using arr_find_snoc [OF oks(7) mib_ok_arrays(7) [OF m'(2)] m'(3)] by (simp add: find_server_def)
  moreover have "arr_len (servers m) < badoff"
    using pre(2) oks(7) by (simp add: server_fits_def arr_ok_def)
  ultimately show ?case using m' pre(1) by (auto simp: kv)
next
  case (3 m k i v)
  then show ?case by (cases k; cases v) (simp add: make_server_def)
next
  case (4 m k v j m')
  then show ?case using make_server_success [OF 4(1)] c_string_no_nul by (cases k; cases v) auto
qed

end
