(* ===== verification/Advertise.thy ===== *)
theory Advertise
  imports Mib_Tables
begin

text \<open>
  What \<open>mib::advertise\<close> and \<open>mib::unadvertise\<close> do, over the abstraction of the advertisement
  table to the list of its live (service, queue, server) triples: the detailed operations add
  and remove one triple, bump the revision of the service, and leave everything else alone.
\<close>

type_synonym triple = "nat \<times> nat \<times> nat"

definition triple :: "advertisement \<Rightarrow> triple" where
  "triple a = (adv_service a, adv_queue a, adv_server a)"

abbreviation no_triple :: triple where "no_triple \<equiv> (badoff, badoff, badoff)"

definition ads :: "mibmem \<Rightarrow> triple list" where
  "ads m = filter (\<lambda>t. t \<noteq> no_triple) (map triple (used (advertisements m)))"

definition ads_ok :: "mibmem \<Rightarrow> bool" where
  "ads_ok m \<longleftrightarrow> mib_ok m \<and> distinct (ads m)"

text \<open>There is a place for one more advertisement.\<close>

definition ads_room :: "mibmem \<Rightarrow> bool" where
  "ads_room m \<longleftrightarrow> no_triple \<in> triple ` set (used (advertisements m)) \<or>
     arr_len (advertisements m) < arr_size (advertisements m)"

lemma find_advertisement_triple:
  assumes "mib_ok m"
  shows "find_advertisement a b c m = Inr (or_badoff (search (\<lambda>x. triple x = (a, b, c)) (used (advertisements m))))"
proof -
  have "(\<lambda>x. triple x = (a, b, c)) = (\<lambda>x. adv_service x = a \<and> adv_queue x = b \<and> adv_server x = c)"
    by (auto simp: triple_def)
  then show ?thesis using mib_ok_arrays(5) [OF assms] by (simp add: find_advertisement_def arr_find_used)
qed

lemma find_advertisement_iff:
  assumes "mib_ok m" "(a, b, c) \<noteq> no_triple"
  shows "find_advertisement a b c m = Inr badoff \<longleftrightarrow> (a, b, c) \<notin> set (ads m)"
proof -
  have "(a, b, c) \<in> set (ads m) \<longleftrightarrow> (\<exists>x \<in> set (used (advertisements m)). triple x = (a, b, c))"
    using assms(2) by (force simp: ads_def)
  then show ?thesis
    using or_badoff_found [OF mib_ok_arrays(5) [OF assms(1)], of "\<lambda>x. triple x = (a, b, c)"]
    by (simp add: find_advertisement_triple [OF assms(1)]) blast
qed

lemma find_service_hit:
  assumes "mib_ok m" "find_service name m = Inr v" "v \<noteq> badoff"
  shows "v < arr_len (services m)" "v < badoff" "arr_at (services m) v = Inr (used (services m) ! v)"
proof -
  show v: "v < arr_len (services m)"
    using arr_find_hit [OF mib_ok_arrays(9) [OF assms(1)]] assms(2,3) unfolding find_service_def by blast
  show "v < badoff" using v mib_ok_arrays(9) [OF assms(1)] by (simp add: arr_ok_def)
  show "arr_at (services m) v = Inr (used (services m) ! v)"
    using v by (rule arr_at_used [OF mib_ok_arrays(9) [OF assms(1)]])
qed

lemma mib_ok_parts:
  "mib_ok m \<Longrightarrow> arr_ok a \<Longrightarrow> mib_ok (m\<lparr>advertisements := a\<rparr>)"
  "mib_ok m \<Longrightarrow> i < arr_len (services m) \<Longrightarrow> mib_ok (set_service i x m)"
  by (simp_all add: mib_ok_def set_service_def slots_ok_put)

lemma set_service_simps [simp]:
  "advertisements (set_service i x m) = advertisements m" "queues (set_service i x m) = queues m"
  "servers (set_service i x m) = servers m" "services (set_service i x m) = arr_put i x (services m)"
  by (simp_all add: set_service_def)

lemma ads_cong: "advertisements m' = advertisements m \<Longrightarrow> ads m' = ads m"
  by (simp add: ads_def)

lemma ads_snoc:
  assumes "used (advertisements m') = used (advertisements m) @ [a]" "triple a \<noteq> no_triple"
  shows "ads m' = ads m @ [triple a]"
  using assms by (simp add: ads_def)

lemma ads_update:
  assumes "i < length (used (advertisements m))"
    and "used (advertisements m') = (used (advertisements m))[i := a]"
  shows "\<exists>xs ys. ads m = xs @ filter (\<lambda>t. t \<noteq> no_triple) [triple (used (advertisements m) ! i)] @ ys \<and>
                 ads m' = xs @ filter (\<lambda>t. t \<noteq> no_triple) [triple a] @ ys"
proof -
  let ?u = "used (advertisements m)"
  have split: "?u = take i ?u @ ?u ! i # drop (Suc i) ?u" using assms(1) by (rule id_take_nth_drop)
  have upd: "?u[i := a] = take i ?u @ a # drop (Suc i) ?u" using assms(1) by (rule upd_conv_take_nth_drop)
  let ?f = "\<lambda>l. filter (\<lambda>t. t \<noteq> no_triple) (map triple l)"
  have "ads m = ?f (take i ?u) @ filter (\<lambda>t. t \<noteq> no_triple) [triple (?u ! i)] @ ?f (drop (Suc i) ?u)"
    unfolding ads_def by (subst split) simp
  moreover have "ads m' = ?f (take i ?u) @ filter (\<lambda>t. t \<noteq> no_triple) [triple a] @ ?f (drop (Suc i) ?u)"
    unfolding ads_def assms(2) upd by simp
  ultimately show ?thesis by blast
qed

lemma touch_service_ok:
  assumes "mib_ok m" "v < arr_len (services m)"
  shows "touch_service f v m = (Inr (), set_service v (modified (f (used (services m) ! v))) m)"
  using arr_at_used [OF mib_ok_arrays(9) [OF assms(1)] assms(2)] by (simp add: touch_service_def)

text \<open>The effect the operations have on the service table: one service has a new revision.\<close>

definition bumped :: "nat \<Rightarrow> mibmem \<Rightarrow> mibmem \<Rightarrow> bool" where
  "bumped v m m' \<longleftrightarrow>
     arr_len (services m') = arr_len (services m) \<and>
     revision (used (services m') ! v) = revision (used (services m) ! v) + 1 \<and>
     servicename (used (services m') ! v) = servicename (used (services m) ! v) \<and>
     (\<forall>i < arr_len (services m). i \<noteq> v \<longrightarrow> used (services m') ! i = used (services m) ! i) \<and>
     queues m' = queues m \<and> servers m' = servers m"

lemma bumped_touch:
  assumes "mib_ok m" "v < arr_len (services m)" "services m0 = services m" "queues m0 = queues m"
    "servers m0 = servers m" "revision (f (used (services m) ! v)) = revision (used (services m) ! v)"
    "servicename (f (used (services m) ! v)) = servicename (used (services m) ! v)"
  shows "bumped v m (set_service v (modified (f (used (services m) ! v))) m0)"
  using assms mib_ok_arrays(9) [OF assms(1)]
  by (simp add: bumped_def used_put modified_def)

lemma advertise_known:
  assumes ok: "ads_ok m" and v: "find_service name m = Inr v" "v \<noteq> badoff"
  shows "(v, q, s) \<in> set (ads m) \<Longrightarrow> advertise name q s m = (Inl Logic_error, m)"
    and "(v, q, s) \<notin> set (ads m) \<Longrightarrow> \<not> ads_room m \<Longrightarrow> advertise name q s m = (Inl Out_of_range, m)"
    and "(v, q, s) \<notin> set (ads m) \<Longrightarrow> ads_room m \<Longrightarrow>
           \<exists>m'. advertise name q s m = (Inr (), m') \<and> ads_ok m' \<and>
                set (ads m') = insert (v, q, s) (set (ads m)) \<and> bumped v m m'"
proof -
  have mok: "mib_ok m" using ok by (simp add: ads_ok_def)
  note hit = find_service_hit [OF mok v]
  have ne: "(v, q, s) \<noteq> no_triple" using hit(2) by simp
  note fa = find_advertisement_iff [OF mok ne]
  have tot: "\<exists>j. find_advertisement v q s m = Inr j" by (simp add: find_advertisement_triple [OF mok])
  have int: "intern_service name m = (Inr v, m)" using v by (simp add: intern_service_def)
  note arr = mib_ok_arrays(5) [OF mok]
  let ?A = "advertisements m"
  have free: "find_advertisement badoff badoff badoff m =
                Inr (or_badoff (search (\<lambda>x. triple x = no_triple) (used ?A)))"
    by (rule find_advertisement_triple [OF mok])
  show "(v, q, s) \<in> set (ads m) \<Longrightarrow> advertise name q s m = (Inl Logic_error, m)"
    using int fa tot by (auto simp: advertise_def)
  show "advertise name q s m = (Inl Out_of_range, m)" if "(v, q, s) \<notin> set (ads m)" "\<not> ads_room m"
  proof -
    have "search (\<lambda>x. triple x = no_triple) (used ?A) = None"
      using that(2) by (auto simp: ads_room_def search_from_None image_iff)
    then show ?thesis using int fa that free
      by (simp add: advertise_def or_badoff_def ads_room_def arr_at_def Let_def)
  qed
  let ?a = "\<lparr>adv_service = v, adv_queue = q, adv_server = s, adv_state = ACTive\<rparr>"
  have tr: "triple ?a = (v, q, s)" by (simp add: triple_def)
  let ?x = "modified (svc_state_update (\<lambda>_. ACTive) (used (services m) ! v))"
  show "\<exists>m'. advertise name q s m = (Inr (), m') \<and> ads_ok m' \<and>
             set (ads m') = insert (v, q, s) (set (ads m)) \<and> bumped v m m'"
    if new: "(v, q, s) \<notin> set (ads m)" and room: "ads_room m"
  proof (cases "search (\<lambda>x. triple x = no_triple) (used ?A)")
    case None
    then have nofree: "no_triple \<notin> triple ` set (used ?A)" by (auto simp: search_from_None)
    then have lt: "arr_len ?A < arr_size ?A" using room by (simp add: ads_room_def)
    let ?B = "(arr_put (arr_len ?A) ?a ?A)\<lparr>arr_len := arr_len ?A + 1\<rparr>"
    have so: "slots_ok (\<lambda>_. True) ?A" using arr by (simp add: slots_ok_def)
    note app = append_slot [OF so lt, of ?a]
    let ?m = "m\<lparr>advertisements := ?B\<rparr>"
    have mok': "mib_ok ?m" using mib_ok_parts(1) [OF mok slots_okD [OF app(1)]] .
    have "touch_service (svc_state_update (\<lambda>_. ACTive)) v ?m = (Inr (), set_service v ?x ?m)"
      using touch_service_ok [OF mok', of v] hit(1) by simp
    then have run: "advertise name q s m = (Inr (), set_service v ?x ?m)"
      using int fa new free None lt
      by (simp add: advertise_def or_badoff_def arr_at_def Let_def set_advertisement_def)
    have "ads (set_service v ?x ?m) = ads m @ [(v, q, s)]"
      using ads_snoc [of "set_service v ?x ?m" m ?a] app(2) tr ne by simp
    moreover have "mib_ok (set_service v ?x ?m)" using mib_ok_parts(2) [OF mok'] hit(1) by simp
    moreover have "bumped v m (set_service v ?x ?m)" by (rule bumped_touch) (use mok hit(1) in simp_all)
    ultimately show ?thesis using run ok new by (auto simp: ads_ok_def)
  next
    case (Some i)
    then have i: "i < length (used ?A)" "triple (used ?A ! i) = no_triple" by (auto simp: search_Some)
    then have i': "i < arr_len ?A" "i < arr_size ?A" "i \<noteq> badoff" using arr by (auto simp: arr_ok_def)
    let ?m = "set_advertisement i ?a m"
    have mok': "mib_ok ?m" unfolding set_advertisement_def by (rule mib_ok_parts(1) [OF mok arr_ok_put [OF arr]])
    have "touch_service (svc_state_update (\<lambda>_. ACTive)) v ?m = (Inr (), set_service v ?x ?m)"
      using touch_service_ok [OF mok', of v] hit(1) by (simp add: set_advertisement_def)
    then have run: "advertise name q s m = (Inr (), set_service v ?x ?m)"
      using int fa new free Some i' by (simp add: advertise_def or_badoff_def arr_at_def Let_def)
    obtain xs ys where "ads m = xs @ ys" "ads (set_service v ?x ?m) = xs @ (v, q, s) # ys"
      using ads_update [OF i(1), of "set_service v ?x ?m" ?a] i(2) tr ne used_put [OF arr]
      by (auto simp: set_advertisement_def)
    moreover have "mib_ok (set_service v ?x ?m)"
      using mib_ok_parts(2) [OF mok'] hit(1) by (simp add: set_advertisement_def)
    moreover have "bumped v m (set_service v ?x ?m)"
      by (rule bumped_touch) (use mok hit(1) in \<open>simp_all add: set_advertisement_def\<close>)
    ultimately show ?thesis using run ok new by (auto simp: ads_ok_def)
  qed
qed

lemma unadvertise_known:
  assumes ok: "ads_ok m" and v: "find_service name m = Inr v" "v \<noteq> badoff"
  shows "(v, q, s) \<notin> set (ads m) \<Longrightarrow> unadvertise name q s m = (Inl Logic_error, m)"
    and "(v, q, s) \<in> set (ads m) \<Longrightarrow>
           \<exists>m'. unadvertise name q s m = (Inr (), m') \<and> ads_ok m' \<and>
                set (ads m') = set (ads m) - {(v, q, s)} \<and> bumped v m m'"
proof -
  have mok: "mib_ok m" using ok by (simp add: ads_ok_def)
  note hit = find_service_hit [OF mok v]
  have ne: "(v, q, s) \<noteq> no_triple" using hit(2) by simp
  note fa = find_advertisement_iff [OF mok ne] find_advertisement_triple [OF mok, of v q s]
  note arr = mib_ok_arrays(5) [OF mok]
  let ?A = "advertisements m"
  show "(v, q, s) \<notin> set (ads m) \<Longrightarrow> unadvertise name q s m = (Inl Logic_error, m)"
    using v fa by (simp add: unadvertise_def)
  assume live: "(v, q, s) \<in> set (ads m)"
  then obtain i where i: "search (\<lambda>x. triple x = (v, q, s)) (used ?A) = Some i"
    using fa by (cases "search (\<lambda>x. triple x = (v, q, s)) (used ?A)") (auto simp: or_badoff_def)
  then have i': "i < length (used ?A)" "triple (used ?A ! i) = (v, q, s)" by (auto simp: search_Some)
  then have i2: "i < arr_len ?A" "i < arr_size ?A" "i \<noteq> badoff" using arr by (auto simp: arr_ok_def)
  let ?a = "\<lparr>adv_service = badoff, adv_queue = badoff, adv_server = badoff, adv_state = INValid\<rparr>"
  let ?m = "set_advertisement i ?a m" and ?x = "modified (used (services m) ! v)"
  have mok': "mib_ok ?m" unfolding set_advertisement_def by (rule mib_ok_parts(1) [OF mok arr_ok_put [OF arr]])
  have "touch_service (\<lambda>s. s) v ?m = (Inr (), set_service v ?x ?m)"
    using touch_service_ok [OF mok', of v "\<lambda>s. s"] hit(1) by (simp add: set_advertisement_def)
  then have run: "unadvertise name q s m = (Inr (), set_service v ?x ?m)"
    using v fa(2) i i2 by (simp add: unadvertise_def or_badoff_def arr_at_def)
  have "triple ?a = no_triple" by (simp add: triple_def)
  then obtain xs ys where "ads m = xs @ (v, q, s) # ys" "ads (set_service v ?x ?m) = xs @ ys"
    using ads_update [OF i'(1), of "set_service v ?x ?m" ?a] i'(2) ne used_put [OF arr]
    by (auto simp: set_advertisement_def)
  moreover have "mib_ok (set_service v ?x ?m)"
    using mib_ok_parts(2) [OF mok'] hit(1) by (simp add: set_advertisement_def)
  moreover have "bumped v m (set_service v ?x ?m)"
    using bumped_touch [of m v ?m "\<lambda>s. s"] mok hit(1) by (simp add: set_advertisement_def)
  ultimately show "\<exists>m'. unadvertise name q s m = (Inr (), m') \<and> ads_ok m' \<and>
      set (ads m') = set (ads m) - {(v, q, s)} \<and> bumped v m m'"
    using run ok by (auto simp: ads_ok_def)
qed

end
