(* ===== verification/Mib_Props.thy ===== *)
theory Mib_Props
  imports Advertise
begin

text \<open>
  The memory layout \<open>mib::needed\<close> and \<open>mib::init_memory\<close> compute, and the properties of the
  shared tables.
\<close>

subsection \<open>Layout\<close>

text \<open>The sizes the compiler gives the structures, and the limits of the configuration.\<close>

record sizes =
  sz_mibmem :: nat
  sz_server :: nat
  sz_queue :: nat
  sz_service :: nat
  sz_advertisement :: nat
  sz_group :: nat
  sz_accesser :: nat
  off_entry :: nat
  sz_transaction :: nat
  al_transaction :: nat

record tuxconfig =
  maxservers :: nat
  maxservices :: nat
  maxqueues :: nat
  maxgroups :: nat
  maxaccessers :: nat

definition near :: "nat \<Rightarrow> nat \<Rightarrow> nat" where
  "near what n = (case nearest (of_nat n) (of_nat what) 1 of Some r \<Rightarrow> unat r | None \<Rightarrow> 0)"

definition near64 :: "nat \<Rightarrow> nat" where
  "near64 n = (case nearest64 (of_nat n) of Some r \<Rightarrow> unat r | None \<Rightarrow> 0)"

definition size_of_transaction :: "sizes \<Rightarrow> nat \<Rightarrow> nat" where
  "size_of_transaction z n = near (al_transaction z) (sz_transaction z + n)"

definition trx_needed :: "sizes \<Rightarrow> nat \<Rightarrow> nat \<Rightarrow> nat" where
  "trx_needed z n grps = off_entry z + n * size_of_transaction z grps"

definition mib_needed :: "sizes \<Rightarrow> tuxconfig \<Rightarrow> nat" where
  "mib_needed z cfg =
     near64 (sz_mibmem z) + near64 (maxservers cfg * sz_server z) + near64 (maxqueues cfg * sz_queue z) +
     near64 (maxservices cfg * sz_service z) +
     near64 (maxservers cfg * maxservices cfg * sz_advertisement z) +
     near64 (maxgroups cfg * sz_group z) + near64 (maxaccessers cfg * sz_accesser z) +
     near64 (trx_needed z 100 (maxgroups cfg))"

text \<open>
  The regions \<open>init_memory\<close> hands out, each as its offset and the bytes its slots take, in the
  order it does.
\<close>

definition arr_region :: "nat \<Rightarrow> nat \<Rightarrow> nat \<Rightarrow> (nat \<times> nat) \<times> nat" where
  "arr_region n sz off = ((off, n * sz), off + near64 (n * sz))"

definition init_memory :: "sizes \<Rightarrow> tuxconfig \<Rightarrow> (nat \<times> nat) list \<times> nat" where
  "init_memory z cfg =
     (let off = near64 (sz_mibmem z);
          (srv, off) = arr_region (maxservers cfg) (sz_server z) off;
          (que, off) = arr_region (maxqueues cfg) (sz_queue z) off;
          (svc, off) = arr_region (maxservices cfg) (sz_service z) off;
          (grp, off) = arr_region (maxgroups cfg) (sz_group z) off;
          (adv, off) = arr_region (maxservers cfg * maxservices cfg) (sz_advertisement z) off;
          (acc, off) = arr_region (maxaccessers cfg) (sz_accesser z) off;
          trx = (off, trx_needed z 100 (maxgroups cfg))
      in ([srv, que, svc, grp, adv, acc, trx], off + near64 (trx_needed z 100 (maxgroups cfg))))"

lemma nearest_ge:
  assumes "0 < what" "what < 2 ^ 64" "n + what \<le> 2 ^ 64"
  shows "\<exists>r. nearest (of_nat n) (of_nat what) 1 = Some r \<and> n \<le> unat r"
proof (cases "n = 0")
  case True
  then show ?thesis by (subst nearest.simps) simp
next
  case False
  have u: "unat (of_nat what :: 64 word) = what" "unat (of_nat n :: 64 word) = n"
    using assms by (simp_all add: unat_of_nat)
  show ?thesis using nearest_least [of "of_nat what" "of_nat n"] assms False by (auto simp: u)
qed

lemma near64_ge: "n + 64 \<le> 2 ^ 64 \<Longrightarrow> n \<le> near64 n"
  using nearest_ge [of 64 n] by (auto simp: near64_def nearest64_def)

text \<open>Regions one after the other, from \<open>a\<close> up to \<open>b\<close>.\<close>

fun in_order :: "nat \<Rightarrow> (nat \<times> nat) list \<Rightarrow> nat \<Rightarrow> bool" where
  "in_order a [] b \<longleftrightarrow> a \<le> b"
| "in_order a ((off, n) # rs) b \<longleftrightarrow> a \<le> off \<and> in_order (off + n) rs b"

text \<open>the tables and the transaction table of the shared memory do not overlap each other nor the
  header, and together they take exactly the \<open>needed(cfg)\<close> bytes that were allocated, whatever
  the limits of the configuration, as long as the sizes stay in the range of \<open>size_t\<close>.
\<close>

theorem layout_disjoint:
  assumes "\<forall>n \<in> {sz_mibmem z, maxservers cfg * sz_server z, maxqueues cfg * sz_queue z,
                 maxservices cfg * sz_service z, maxgroups cfg * sz_group z,
                 maxservers cfg * maxservices cfg * sz_advertisement z,
                 maxaccessers cfg * sz_accesser z, trx_needed z 100 (maxgroups cfg)}. n + 64 \<le> 2 ^ 64"
  shows "in_order (sz_mibmem z) (fst (init_memory z cfg)) (snd (init_memory z cfg)) \<and>
         snd (init_memory z cfg) = mib_needed z cfg"
proof -
  note near = assms [rule_format, THEN near64_ge]
  have "in_order (sz_mibmem z) (fst (init_memory z cfg)) (snd (init_memory z cfg))"
    unfolding init_memory_def arr_region_def Let_def
    by (simp add: near)
  moreover have "snd (init_memory z cfg) = mib_needed z cfg"
    by (simp add: init_memory_def arr_region_def mib_needed_def Let_def)
  ultimately show ?thesis by blast
qed

definition demo_sizes :: sizes where
  "demo_sizes = \<lparr>sz_mibmem = 960, sz_server = 2752, sz_queue = 64, sz_service = 448, sz_advertisement = 32,
     sz_group = 800, sz_accesser = 16, off_entry = 32, sz_transaction = 176, al_transaction = 8\<rparr>"

definition demo_cfg :: tuxconfig where
  "demo_cfg = \<lparr>maxservers = 50, maxservices = 100, maxqueues = 50, maxgroups = 8, maxaccessers = 50\<rparr>"

lemma demo_trx_needed: "trx_needed demo_sizes 100 (maxgroups demo_cfg) = 18432"
proof -
  have "nearest (184 :: 64 word) 8 (of_nat 1) = Some (of_nat 23 * 8)"
  proof (rule nearest_search)
    show "\<forall>i. 1 \<le> i \<and> i < 23 \<longrightarrow> \<not> (184 :: 64 word) \<le> of_nat i * 8"
    proof (intro allI impI)
      fix i :: nat
      assume "1 \<le> i \<and> i < 23"
      then show "\<not> (184 :: 64 word) \<le> of_nat i * 8"
        using unat_of_nat_mult [of i 8] by (simp add: word_le_nat_alt)
    qed
  qed simp_all
  then show ?thesis
    by (simp add: trx_needed_def size_of_transaction_def near_def demo_sizes_def demo_cfg_def)
qed

theorem layout_disjoint_witness:
  "in_order (sz_mibmem demo_sizes) (fst (init_memory demo_sizes demo_cfg)) (snd (init_memory demo_sizes demo_cfg)) \<and>
   snd (init_memory demo_sizes demo_cfg) = mib_needed demo_sizes demo_cfg"
  by (rule layout_disjoint) (simp add: demo_trx_needed, simp add: demo_sizes_def demo_cfg_def)

subsection \<open>Unique identifiers\<close>

lemma uid_bits:
  "uid_of h sec c = push_bit 54 (take_bit 10 (ucast h)) OR push_bit 24 (take_bit 30 sec) OR take_bit 24 (ucast c)"
proof -
  have "h AND 1023 = take_bit 10 h" "sec AND 1073741823 = take_bit 30 sec" "c AND 16777215 = take_bit 24 c"
    by (simp_all add: take_bit_eq_mask mask_eq_exp_minus_1)
  moreover have "ucast (take_bit 10 h) = (take_bit 10 (ucast h) :: 64 word)"
    by (rule bit_word_eqI) (auto simp: bit_simps dest: bit_imp_le_length)
  moreover have "ucast (take_bit 24 c) = (take_bit 24 (ucast c) :: 64 word)"
    by (rule bit_word_eqI) (auto simp: bit_simps dest: bit_imp_le_length)
  ultimately have "uid_of h sec c =
      push_bit 54 (take_bit 10 (ucast h)) + push_bit 24 (take_bit 30 sec) + take_bit 24 (ucast c)"
    by (simp only: uid_of_def)
  also have "push_bit 54 (take_bit 10 (ucast h)) + push_bit 24 (take_bit 30 sec) =
      (push_bit 54 (take_bit 10 (ucast h)) OR push_bit 24 (take_bit 30 sec) :: 64 word)"
    by (rule disjunctive_add) (auto simp: bit_simps)
  also have "\<dots> + take_bit 24 (ucast c) = \<dots> OR take_bit 24 (ucast c)"
    by (rule disjunctive_add) (auto simp: bit_simps)
  finally show ?thesis by (simp only: or.assoc)
qed

lemma uid_fields:
  "drop_bit 54 (uid_of h sec c) = take_bit 10 (ucast h)"
  "take_bit 30 (drop_bit 24 (uid_of h sec c)) = take_bit 30 sec"
  "take_bit 24 (uid_of h sec c) = take_bit 24 (ucast c)"
  by (rule bit_word_eqI; auto simp: uid_bits bit_simps; fail)+

lemma uid_zero_even: "uid_of h sec c = 0 \<Longrightarrow> even c"
proof -
  assume "uid_of h sec c = 0"
  then have "take_bit 24 (ucast c :: 64 word) = 0" using uid_fields(3) [of h sec c] by simp
  then have "\<not> bit (take_bit 24 (ucast c :: 64 word)) 0" by simp
  then have "\<not> bit c 0" by (simp only: bit_take_bit_iff bit_ucast_iff) simp
  then show ?thesis by (simp add: bit_0)
qed

lemma genuid_returns:
  "\<exists>uid c. genuid sec m = Some (uid, m\<lparr>counter := c + 1\<rparr>) \<and> uid \<noteq> 0 \<and> (c = counter m \<or> c = counter m + 1) \<and>
     drop_bit 54 uid = take_bit 10 (ucast (host m)) \<and>
     take_bit 30 (drop_bit 24 uid) = take_bit 30 sec \<and>
     take_bit 24 uid = take_bit 24 (ucast c)"
proof (cases "uid_of (host m) sec (counter m) = 0")
  case True
  have "uid_of (host m) sec (counter m + 1) \<noteq> 0"
    using uid_zero_even [OF True] uid_zero_even [of "host m" sec "counter m + 1"] by auto
  then have "genuid_loop (host m) sec (counter m) =
      Some (uid_of (host m) sec (counter m + 1), counter m + 1 + 1)"
    using True by (subst genuid_loop.simps, simp, subst genuid_loop.simps, simp)
  then show ?thesis
    using \<open>uid_of (host m) sec (counter m + 1) \<noteq> 0\<close> uid_fields [of "host m" sec "counter m + 1"]
    by (intro exI [of _ "uid_of (host m) sec (counter m + 1)"] exI [of _ "counter m + 1"])
      (simp add: genuid_def)
next
  case False
  then have "genuid_loop (host m) sec (counter m) = Some (uid_of (host m) sec (counter m), counter m + 1)"
    by (subst genuid_loop.simps) simp
  then show ?thesis using False uid_fields [of "host m" sec "counter m"]
    by (intro exI [of _ "uid_of (host m) sec (counter m)"] exI [of _ "counter m"]) (simp add: genuid_def)
qed

text \<open>\<open>genuid\<close> terminates after at most two rounds with an identifier that is not 0 and that
  carries the low 10 bits of the machine number, the low 30 bits of the seconds and the low 24
  bits of the counter value it used, which no later call uses again; so identifiers of one
  machine and second differ as long as the counter differs in its low 24 bits.
\<close>

theorem genuid_fields:
  "\<exists>uid c. genuid sec m = Some (uid, m\<lparr>counter := c + 1\<rparr>) \<and> uid \<noteq> 0 \<and> (c = counter m \<or> c = counter m + 1) \<and>
     drop_bit 54 uid = take_bit 10 (ucast (host m)) \<and>
     take_bit 30 (drop_bit 24 uid) = take_bit 30 sec \<and>
     take_bit 24 uid = take_bit 24 (ucast c)"
  by (rule genuid_returns)

subsection \<open>Registration\<close>

definition demo_mib :: mibmem where
  "demo_mib = \<lparr>shmid = 7, mainsem = 3, host = 1, counter = 0,
     domain_info = \<lparr>dom_ipckey = 52000, dom_trantime = 0, dom_maxservers = 2, dom_maxservices = 2,
       dom_maxqueues = 2, dom_maxgroups = 2, dom_maxaccessers = 0, dom_blocktime = 0, dom_sanityscan = 0,
       dom_master = replicate 256 0, dom_autotran = replicate 2 0, dom_state = replicate 4 0,
       dom_domainid = replicate 31 0, dom_ldbal = replicate 2 0\<rparr>,
     mach = \<lparr>mach_address = replicate 64 0, mach_lmid = replicate 30 0, mach_tuxconfig = replicate 256 0,
       mach_tuxdir = replicate 256 0, mach_appdir = replicate 256 0, mach_ulogpfx = replicate 256 0,
       mach_tlogdevice = replicate 256 0, mach_blocktime = 15000\<rparr>,
     groups = arr_init 2 (replicate 2 \<lparr>grp_grpno = 0, srvgrp = replicate 30 0, openinfo = replicate 256 0,
       closeinfo = replicate 256 0, tmsname = replicate 256 0\<rparr>),
     servers = arr_init 2 (replicate 2 \<lparr>srv_group_idx = 0, srvid = 0, srv_grpno = 0, mindispatchthreads = 0,
       maxdispatchthreads = 0, curdispatchthreads = 0, hwdispatchthreads = 0, numdispatchthreads = 0,
       basesrvid = 0, srv_min = 0, srv_max = 0, autostart = False, srv_pid = 0, last_alive_time = 0,
       srv_rqaddr = 0, rqaddr_idx = 0, srv_state = INValid, servername = replicate 128 0,
       clopt = replicate 1024 0, envfile = replicate 256 0, dependson = replicate 1024 0,
       rcmd = replicate 256 0, restart = False, grace = 0, maxgen = 0, threadstacksize = 0, conv = False\<rparr>),
     queues = arr_init 2 (replicate 2 \<lparr>rqaddr = replicate 32 0, msqid = 0, q_mtype = 0, servercnt = 0, server_idx = 0\<rparr>),
     services = arr_init 2 (replicate 2 \<lparr>servicename = replicate 32 0, svc_state = INValid, autotran = replicate 2 0,
       svc_load = 0, svc_prio = 0, svc_blocktime = 0, svctimeout = 0, trantime = 0, buftype = replicate 256 0,
       routingname = replicate 16 0, signature_required = replicate 2 0, encryption_required = replicate 2 0,
       buftypeconv = replicate 10 0, cachingname = replicate 32 0, revision = 0\<rparr>),
     advertisements = arr_init 4 (replicate 4 \<lparr>adv_service = 0, adv_queue = 0, adv_server = 0, adv_state = INValid\<rparr>),
     accessers = arr_init 0 [],
     transactions = table_init 0 0 []\<rparr>"

lemma demo_mib_ok:
  "mib_ok demo_mib" "find_server a b demo_mib = Inr badoff" "find_queue q demo_mib = Inr badoff"
  "find_service s demo_mib = Inr badoff" "arr_len (servers demo_mib) = 0" "arr_size (servers demo_mib) = 2"
  "arr_len (queues demo_mib) = 0" "arr_size (queues demo_mib) = 2" "ads demo_mib = []"
  "arr_len (services demo_mib) = 0" "arr_size (services demo_mib) = 2" "arr_len (groups demo_mib) = 0"
  by (simp_all add: demo_mib_def mib_ok_def slots_ok_def arr_ok_def arr_init_def badoff_def group_zero_def
      server_zero_def queue_zero_def service_zero_def find_server_def find_queue_def find_service_def
      arr_find_def or_badoff_def ads_def used_def nth_replicate del: replicate_Suc)

text \<open>\<open>make_server\<close>, when the names fit and there is room, registers a new (SRVID, GRPNO) pair
  at the next index: it is then found there and nowhere else, every other server keeps its
  index, its request queue exists, is the one found under its address and points back to the
  server, and the tables stay well formed; a pair that is registered already is refused and
  nothing changes.
\<close>

theorem make_server_correct:
  assumes "mib_ok m" and "server_fits name opts rq m" and "0 \<notin> set rq"
  shows "if find_server sid gno m = Inr badoff
         then \<exists>m' x. make_server sid gno name opts rq m = (Inr (arr_len (servers m)), m') \<and> mib_ok m' \<and>
                used (servers m') = used (servers m) @ [x] \<and>
                find_server sid gno m' = Inr (arr_len (servers m)) \<and>
                (\<forall>a b. (a, b) \<noteq> (sid, gno) \<longrightarrow> find_server a b m' = find_server a b m) \<and>
                find_queue rq m' = Inr (srv_rqaddr x) \<and>
                server_idx (used (queues m') ! srv_rqaddr x) = arr_len (servers m)
         else make_server sid gno name opts rq m = (Inl Logic_error, m)"
proof (cases "find_server sid gno m = Inr badoff")
  case True
  obtain m' x where m': "make_server sid gno name opts rq m = (Inr (arr_len (servers m)), m')" "mib_ok m'"
    "used (servers m') = used (servers m) @ [x]" "find_queue rq m' = Inr (srv_rqaddr x)"
    "server_idx (used (queues m') ! srv_rqaddr x) = arr_len (servers m)"
    using make_server_ok [OF assms(1) True assms(2,3)] by blast
  have "case_prod find_server (sid, gno) m' = Inr (arr_len (servers m)) \<and>
        (\<forall>k. True \<longrightarrow> k \<noteq> (sid, gno) \<longrightarrow> case_prod find_server k m' = case_prod find_server k m)"
    using server_table.insert_success [OF assms(1), of "(sid, gno)" "(name, opts, rq)"] m'(1)
      c_string_idle [OF assms(3)] by simp
  then show ?thesis using True m' by auto
next
  case False
  then obtain i where "find_server sid gno m = Inr i" "i \<noteq> badoff"
    using server_table.lookup_total [OF assms(1), of "(sid, gno)"] by auto
  then show ?thesis by (simp add: make_server_def)
qed

theorem make_server_correct_witness:
  "\<exists>m' x. make_server 1 1 [97] [45] [113] demo_mib = (Inr 0, m') \<and> mib_ok m' \<and>
     used (servers m') = used (servers demo_mib) @ [x] \<and> find_server 1 1 m' = Inr 0 \<and>
     find_queue [113] m' = Inr (srv_rqaddr x)"
  using make_server_correct [of demo_mib "[97]" "[45]" "[113]" 1 1]
  by (simp add: demo_mib_ok server_fits_def del: One_nat_def) blast

text \<open>registering the groups of a configuration one after the other succeeds only when their
  numbers are distinct and new; each group then is at the index \<open>make_group\<close> returned, the
  indices are consecutive, and the groups that were there before keep theirs.
\<close>

theorem groups_registered:
  assumes "mib_ok m"
    and "insert_all (\<lambda>no (name, oi, ci, tms). make_group no name oi ci tms) gs m = (Inr js, m')"
  shows "mib_ok m' \<and> distinct (map fst gs) \<and> js = [arr_len (groups m) ..< arr_len (groups m) + length gs] \<and>
         list_all2 (\<lambda>no j. find_group no m' = Inr j) (map fst gs) js \<and>
         (\<forall>no. no \<notin> set (map fst gs) \<longrightarrow> find_group no m' = find_group no m)"
  using group_table.insert_all_success [OF assms(1) _ assms(2)] by (clarsimp simp del: upt_Suc)

theorem groups_registered_witness:
  "\<exists>m'. mib_ok m' \<and> find_group 5 m' = Inr 0 \<and> (\<forall>no. no \<noteq> 5 \<longrightarrow> find_group no m' = find_group no demo_mib)"
proof -
  have miss: "find_group 5 demo_mib = Inr badoff"
    by (simp add: demo_mib_def find_group_def arr_find_def arr_init_def or_badoff_def)
  have room: "arr_size (groups demo_mib) = 2" by (simp add: demo_mib_def arr_init_def)
  obtain m' where "make_group 5 [71] [] [] [] demo_mib = (Inr 0, m')"
    using group_table.insert_new [OF demo_mib_ok(1) _ miss, of "([71], [], [], [])"] room
    by (auto simp: demo_mib_ok)
  then have "insert_all (\<lambda>no (name, oi, ci, tms). make_group no name oi ci tms) [(5, [71], [], [], [])] demo_mib =
      (Inr [0], m')" by simp
  from groups_registered [OF demo_mib_ok(1) this] show ?thesis by (intro exI [of _ m']) auto
qed

subsection \<open>Advertisements\<close>

text \<open>C10: \<open>advertise\<close> of a known service adds exactly its (service, queue, server) triple and
  \<open>unadvertise\<close> takes exactly it away again; each bumps the revision of that service and of no
  other, a triple can be advertised only once and unadvertised only when it is there, and a full
  table refuses the advertisement without a change.
\<close>

theorem advertise_correct:
  assumes "ads_ok m" and "find_service name m = Inr v" and "v \<noteq> badoff"
  shows "(case advertise name q s m of
            (Inl e, m') \<Rightarrow> m' = m \<and> (if (v, q, s) \<in> set (ads m) then e = Logic_error
                                       else e = Out_of_range \<and> \<not> ads_room m)
          | (Inr _, m') \<Rightarrow> (v, q, s) \<notin> set (ads m) \<and> ads_ok m' \<and>
              set (ads m') = insert (v, q, s) (set (ads m)) \<and> bumped v m m') \<and>
         (case unadvertise name q s m of
            (Inl e, m') \<Rightarrow> m' = m \<and> e = Logic_error \<and> (v, q, s) \<notin> set (ads m)
          | (Inr _, m') \<Rightarrow> (v, q, s) \<in> set (ads m) \<and> ads_ok m' \<and>
              set (ads m') = set (ads m) - {(v, q, s)} \<and> bumped v m m')"
proof (cases "(v, q, s) \<in> set (ads m)")
  case True
  obtain m' where "unadvertise name q s m = (Inr (), m')" "ads_ok m'"
    "set (ads m') = set (ads m) - {(v, q, s)}" "bumped v m m'"
    using unadvertise_known(2) [OF assms True] by blast
  then show ?thesis using True by (simp add: advertise_known(1) [OF assms True])
next
  case False
  note un = unadvertise_known(1) [OF assms False]
  show ?thesis
  proof (cases "ads_room m")
    case True
    then obtain m' where "advertise name q s m = (Inr (), m')" "ads_ok m'"
      "set (ads m') = insert (v, q, s) (set (ads m))" "bumped v m m'"
      using advertise_known(3) [OF assms False] by blast
    then show ?thesis using un False by simp
  next
    case no_room: False
    then show ?thesis using un False by (simp add: advertise_known(2) [OF assms False])
  qed
qed

text \<open>A domain with one registered service, for the examples.\<close>

lemma demo_service:
  "\<exists>m. make_service [83] demo_mib = (Inr 0, m) \<and> ads_ok m \<and> find_service [83] m = Inr 0 \<and> ads m = [] \<and> ads_room m"
proof -
  have room: "arr_len (services demo_mib) < arr_size (services demo_mib) \<and> length [83 :: byte] < 32"
    by (simp add: demo_mib_ok)
  obtain m where m: "make_service [83] demo_mib = (Inr 0, m)" "mib_ok m" "find_service [83] m = Inr 0"
    using service_table.insert_new [OF demo_mib_ok(1) _ demo_mib_ok(4) room] by (auto simp: demo_mib_ok)
  have "advertisements m = advertisements demo_mib"
    using m(1) by (auto simp: make_service_def split: sum.splits if_splits prod.splits)
  then have "ads m = []" "ads_room m"
    using demo_mib_ok(9) by (simp_all add: ads_def ads_room_def, simp add: demo_mib_def arr_init_def)
  then show ?thesis using m by (simp add: ads_ok_def)
qed

theorem advertise_correct_witness:
  "\<exists>m m'. ads_ok m \<and> advertise [83] 4 2 m = (Inr (), m') \<and> set (ads m') = {(0, 4, 2)} \<and> bumped 0 m m'"
proof -
  obtain m where m: "ads_ok m" "find_service [83] m = Inr 0" "ads m = []" "ads_room m"
    using demo_service by blast
  have "(0 :: nat) \<noteq> badoff" by (simp add: badoff_def)
  note c = advertise_correct [OF m(1,2) this, of 4 2]
  then have "fst (advertise [83] 4 2 m) = Inr ()"
    using m(3,4) by (cases "advertise [83] 4 2 m"; cases "fst (advertise [83] 4 2 m)") auto
  then show ?thesis using c m(1,3) by (cases "advertise [83] 4 2 m") auto
qed

subsection \<open>Accessers\<close>

lemma collect_ids_throws:
  assumes "\<forall>j < k. \<exists>x. f (i + j) = Inr x" "f (i + k) = Inl e" "k < n"
  shows "collect_ids f get n i = Inl e"
  using assms
proof (induction k arbitrary: i n)
  case 0
  then show ?case by (cases n) simp_all
next
  case (Suc k)
  then obtain n' where n: "n = Suc n'" "k < n'" by (cases n) auto
  obtain x where x: "f i = Inr x" using Suc.prems(1) by force
  have "\<forall>j < k. \<exists>x. f (Suc i + j) = Inr x" using Suc.prems(1) by force
  then have "collect_ids f get n' (Suc i) = Inl e" using Suc.IH [of "Suc i" n'] Suc.prems(2) n(2) by simp
  then show ?case by (simp add: n x)
qed

lemma collect_ids_total: "\<forall>j < n. \<exists>x. f (i + j) = Inr x \<Longrightarrow> \<exists>ids. collect_ids f get n i = Inr ids"
proof (induction n arbitrary: i)
  case 0
  then show ?case by simp
next
  case (Suc n)
  obtain x where "f i = Inr x" using Suc.prems by force
  moreover have "\<forall>j < n. \<exists>x. f (Suc i + j) = Inr x"
  proof (intro allI impI)
    fix j assume "j < n"
    then show "\<exists>x. f (Suc i + j) = Inr x" using Suc.prems [rule_format, of "Suc j"] by simp
  qed
  then obtain ids where "collect_ids f get n (Suc i) = Inr ids" using Suc.IH by blast
  ultimately show ?case by simp
qed

text \<open>a client that finds the accesser table full is refused with an exception, but the table
  length has grown past the table: the failure is permanent in the shared memory, and from then
  on \<open>collect\<close>, and with it the removal of the domain's IPC resources, throws as well.
\<close>

theorem accesser_overflow:
  assumes ok: "arr_ok (accessers m)" "arr_ok (queues m)"
    and full: "arr_len (accessers m) = arr_size (accessers m)" "\<forall>a \<in> set (used (accessers m)). acc_pid a \<noteq> 0"
  shows "\<exists>m'. make_accesser pid m = (Inl Out_of_range, m') \<and>
           arr_len (accessers m') = arr_size (accessers m') + 1 \<and>
           collect m' = Inl Out_of_range \<and> make_accesser pid' m' = (Inl Out_of_range, m')"
proof -
  let ?A = "accessers m" and ?m = "m\<lparr>accessers := (accessers m)\<lparr>arr_len := arr_len (accessers m) + 1\<rparr>\<rparr>"
  have none: "search (\<lambda>a. acc_pid a = 0) (used ?A) = None" using full(2) by (simp add: search_from_None)
  have one: "make_accesser pid m = (Inl Out_of_range, ?m)"
    using scan_used [OF ok(1)] none full(1) by (simp add: make_accesser_def arr_at_def)
  obtain qs where qs: "collect_ids (arr_at (queues m)) msqid (arr_len (queues m)) 0 = Inr qs"
    using collect_ids_total [of "arr_len (queues m)" "arr_at (queues m)" 0 msqid] arr_at_used [OF ok(2)] by auto
  have "collect_ids (arr_at (accessers ?m)) acc_rpid (arr_len (accessers ?m)) 0 = Inl Out_of_range"
    by (rule collect_ids_throws [of "arr_len ?A"]) (auto simp: arr_at_def full(1))
  then have "collect ?m = Inl Out_of_range" using qs by (simp add: collect_def)
  moreover have "make_accesser pid' ?m = (Inl Out_of_range, ?m)"
  proof -
    have "scan_at (arr_at (accessers ?m)) P (Suc (length xs)) i = Inl Out_of_range"
      if "\<forall>j < length xs. arr_at (accessers ?m) (i + j) = Inr (xs ! j)" "\<forall>x \<in> set xs. \<not> P x"
        "i + length xs = arr_size ?A" for P xs i
      using that
    proof (induction xs arbitrary: i)
      case Nil
      then show ?case by (simp add: arr_at_def)
    next
      case (Cons x xs)
      have "arr_at (accessers ?m) i = Inr x" using Cons.prems(1) by force
      moreover have "\<forall>j < length xs. arr_at (accessers ?m) (Suc i + j) = Inr (xs ! j)" using Cons.prems(1) by force
      ultimately show ?case using Cons.IH [of "Suc i"] Cons.prems(2,3) by simp
    qed
    from this [of "used ?A" 0 "\<lambda>a. acc_pid a = 0"] have
      "scan_at (arr_at (accessers ?m)) (\<lambda>a. acc_pid a = 0) (arr_len (accessers ?m)) 0 = Inl Out_of_range"
      using ok(1) full by (simp add: arr_at_def arr_ok_def used_nth)
    then show ?thesis by (simp add: make_accesser_def)
  qed
  ultimately show ?thesis using one full(1) by (intro exI [of _ ?m]) simp
qed

theorem accesser_overflow_witness:
  "\<exists>m'. make_accesser 100 demo_mib = (Inl Out_of_range, m') \<and>
     arr_len (accessers m') = arr_size (accessers m') + 1 \<and>
     collect m' = Inl Out_of_range \<and> make_accesser 101 m' = (Inl Out_of_range, m')"
  by (rule accesser_overflow) (simp_all add: demo_mib_def arr_init_def arr_ok_def badoff_def used_def)

end
