(* ===== verification/Svc_Repo.thy ===== *)
theory Svc_Repo
  imports Mib_Props
begin

text \<open>
  src/svcrepo.h: the service repository of a client. It caches, per service, the request
  queues that serve it, rereads them when the revision of the service in shared memory has
  changed, and picks one in turn or by group. \<open>mib_revision\<close> is a pointer into shared memory:
  it is read through the service index.
\<close>

record queue_entry =
  qe_grpno :: int
  qe_msqid :: int

record service_entry =
  se_queues :: "queue_entry list"
  current_queue :: nat
  cached_revision :: "64 word"
  se_service :: nat

type_synonym repo = "(byte list \<times> service_entry) list"

definition get_entry :: "byte list \<Rightarrow> mibmem \<Rightarrow> repo \<Rightarrow> service_entry except \<times> repo" where
  "get_entry name m r =
     (case map_of r name of
        Some e \<Rightarrow> (Inr e, r)
      | None \<Rightarrow>
          (case find_service name m of
             Inl x \<Rightarrow> (Inl x, r)
           | Inr v \<Rightarrow>
               if v = badoff then (Inl Out_of_range, r)
               else let e = \<lparr>se_queues = [], current_queue = 0, cached_revision = 0, se_service = v\<rparr>
                    in (Inr e, (name, e) # r)))"

text \<open>The loop of \<open>refresh\<close> over the advertisement table.\<close>

fun refresh_loop :: "mibmem \<Rightarrow> nat \<Rightarrow> nat \<Rightarrow> nat \<Rightarrow> queue_entry list except" where
  "refresh_loop m v 0 i = Inr []"
| "refresh_loop m v (Suc n) i =
     bind_except (arr_at (advertisements m) i) (\<lambda>a.
       if adv_service a = v
       then bind_except (arr_at (queues m) (adv_queue a)) (\<lambda>q.
              bind_except (arr_at (servers m) (adv_server a)) (\<lambda>s.
                bind_except (refresh_loop m v n (Suc i)) (\<lambda>rest.
                  Inr (\<lparr>qe_grpno = int (srv_grpno s), qe_msqid = msqid q\<rparr> # rest))))
       else refresh_loop m v n (Suc i))"

text \<open>The queues are cleared before the loop, so an exception in it leaves none.\<close>

definition refresh :: "mibmem \<Rightarrow> service_entry \<Rightarrow> unit except \<times> service_entry" where
  "refresh m e =
     (case arr_at (services m) (se_service e) of
        Inl x \<Rightarrow> (Inl x, e)
      | Inr s \<Rightarrow>
          if cached_revision e = revision s then (Inr (), e)
          else (case refresh_loop m (se_service e) (arr_len (advertisements m)) 0 of
                  Inl x \<Rightarrow> (Inl x, e\<lparr>se_queues := []\<rparr>)
                | Inr qs \<Rightarrow> (Inr (), e\<lparr>se_queues := qs, cached_revision := revision s\<rparr>)))"

definition load_balance :: "int \<Rightarrow> service_entry \<Rightarrow> int except \<times> service_entry" where
  "load_balance grpno e =
     (if se_queues e = [] then (Inl Out_of_range, e)
      else if grpno = -1 then
        let c = (current_queue e + 1) mod length (se_queues e)
        in (Inr (qe_msqid (se_queues e ! c)), e\<lparr>current_queue := c\<rparr>)
      else (case find (\<lambda>q. qe_grpno q = grpno) (se_queues e) of
              Some q \<Rightarrow> (Inr (qe_msqid q), e)
            | None \<Rightarrow> (Inl Out_of_range, e)))"

definition put_entry :: "byte list \<Rightarrow> service_entry \<Rightarrow> repo \<Rightarrow> repo" where
  "put_entry name e r = map (\<lambda>(k, x). if k = name then (k, e) else (k, x)) r"

definition get_queue :: "int \<Rightarrow> byte list \<Rightarrow> mibmem \<Rightarrow> repo \<Rightarrow> int except \<times> repo" where
  "get_queue grpno name m r =
     seqx (get_entry name m r) (\<lambda>e r.
       case refresh m e of
         (Inl x, e') \<Rightarrow> (Inl x, put_entry name e' r)
       | (Inr _, e') \<Rightarrow>
           (case load_balance grpno e' of (q, e'') \<Rightarrow> (q, put_entry name e'' r)))"

subsection \<open>What the cache holds\<close>

text \<open>The queues that serve a service, as the shared tables have them now.\<close>

definition qentry :: "mibmem \<Rightarrow> triple \<Rightarrow> queue_entry" where
  "qentry m t = \<lparr>qe_grpno = int (srv_grpno (used (servers m) ! snd (snd t))),
                 qe_msqid = msqid (used (queues m) ! fst (snd t))\<rparr>"

definition serving :: "mibmem \<Rightarrow> nat \<Rightarrow> queue_entry list" where
  "serving m v = map (qentry m) (filter (\<lambda>t. fst t = v) (ads m))"

text \<open>The advertisements point to queues and servers there are.\<close>

definition ads_valid :: "mibmem \<Rightarrow> bool" where
  "ads_valid m \<longleftrightarrow> ads_ok m \<and>
     (\<forall>(v, q, s) \<in> set (ads m). q < arr_len (queues m) \<and> s < arr_len (servers m))"

lemma refresh_loop_list:
  assumes "arr_ok (queues m)" "arr_ok (servers m)" "v \<noteq> badoff"
    and "\<forall>j < length as. arr_at (advertisements m) (i + j) = Inr (as ! j)"
    and "\<forall>a \<in> set as. triple a \<noteq> no_triple \<longrightarrow> adv_queue a < arr_len (queues m) \<and> adv_server a < arr_len (servers m)"
  shows "refresh_loop m v (length as) i =
           Inr (map (\<lambda>a. qentry m (triple a)) (filter (\<lambda>a. adv_service a = v) as))"
  using assms(4,5)
proof (induction as arbitrary: i)
  case Nil
  then show ?case by simp
next
  case (Cons a as)
  have at: "arr_at (advertisements m) i = Inr a" using Cons.prems(1) by force
  have "\<forall>j < length as. arr_at (advertisements m) (Suc i + j) = Inr (as ! j)" using Cons.prems(1) by force
  then have IH: "refresh_loop m v (length as) (Suc i) =
      Inr (map (\<lambda>a. qentry m (triple a)) (filter (\<lambda>a. adv_service a = v) as))"
    using Cons.IH [of "Suc i"] Cons.prems(2) by simp
  show ?case
  proof (cases "adv_service a = v")
    case True
    then have "triple a \<noteq> no_triple" using assms(3) by (simp add: triple_def)
    then have "adv_queue a < arr_len (queues m)" "adv_server a < arr_len (servers m)"
      using Cons.prems(2) by auto
    then show ?thesis
      using True at IH arr_at_used [OF assms(1)] arr_at_used [OF assms(2)]
      by (simp add: qentry_def triple_def)
  next
    case False
    then show ?thesis using at IH by simp
  qed
qed

lemma refresh_loop_serving:
  assumes "ads_valid m" "v \<noteq> badoff"
  shows "refresh_loop m v (arr_len (advertisements m)) 0 = Inr (serving m v)"
proof -
  let ?as = "used (advertisements m)"
  have ok: "mib_ok m" using assms(1) by (simp add: ads_valid_def ads_ok_def)
  note arr = mib_ok_arrays [OF ok]
  have "refresh_loop m v (length ?as) 0 =
      Inr (map (\<lambda>a. qentry m (triple a)) (filter (\<lambda>a. adv_service a = v) ?as))"
  proof (rule refresh_loop_list)
    show "\<forall>a \<in> set ?as. triple a \<noteq> no_triple \<longrightarrow> adv_queue a < arr_len (queues m) \<and> adv_server a < arr_len (servers m)"
      using assms(1) by (auto simp: ads_valid_def ads_def triple_def)
  qed (use arr assms(2) arr_at_used [OF arr(5)] in auto)
  moreover have "map (qentry m) (filter (\<lambda>t. fst t = v) (filter (\<lambda>t. t \<noteq> no_triple) (map triple as))) =
      map (\<lambda>a. qentry m (triple a)) (filter (\<lambda>a. adv_service a = v) as)" for as
    using assms(2) by (induction as) (auto simp: triple_def)
  then have "serving m v = map (\<lambda>a. qentry m (triple a)) (filter (\<lambda>a. adv_service a = v) ?as)"
    by (simp only: serving_def ads_def)
  ultimately show ?thesis using arr(5) by simp
qed

text \<open>
  A cache entry is right: it was read at a revision the service has had, and if it still has it
  then the queues are those that serve it. A service at revision 0 was never advertised.
\<close>

definition cache_ok :: "mibmem \<Rightarrow> service_entry \<Rightarrow> bool" where
  "cache_ok m e \<longleftrightarrow> se_service e < arr_len (services m) \<and>
     cached_revision e \<le> revision (used (services m) ! se_service e) \<and>
     (cached_revision e = revision (used (services m) ! se_service e) \<longrightarrow>
        set (se_queues e) = set (serving m (se_service e)))"

definition never_ok :: "mibmem \<Rightarrow> bool" where
  "never_ok m \<longleftrightarrow> (\<forall>v < arr_len (services m). revision (used (services m) ! v) = 0 \<longrightarrow> serving m v = [])"

lemma set_serving: "set (serving m v) = qentry m ` {t \<in> set (ads m). fst t = v}"
  by (auto simp: serving_def)


text \<open>A domain with one server that advertises one service, for the examples.\<close>

definition demo_domain :: mibmem where
  "demo_domain = demo_mib
     \<lparr>services := (services demo_mib)\<lparr>arr_len := 1,
        arr_data := (arr_data (services demo_mib))[0 := (arr_data (services demo_mib) ! 0)
          \<lparr>servicename := 83 # replicate 31 0, revision := 1\<rparr>]\<rparr>,
      queues := (queues demo_mib)\<lparr>arr_len := 1,
        arr_data := (arr_data (queues demo_mib))[0 := (arr_data (queues demo_mib) ! 0)\<lparr>msqid := 10\<rparr>]\<rparr>,
      servers := (servers demo_mib)\<lparr>arr_len := 1,
        arr_data := (arr_data (servers demo_mib))[0 := (arr_data (servers demo_mib) ! 0)\<lparr>srv_grpno := 5\<rparr>]\<rparr>,
      advertisements := (advertisements demo_mib)\<lparr>arr_len := 1,
        arr_data := (arr_data (advertisements demo_mib))[0 := \<lparr>adv_service = 0, adv_queue = 0, adv_server = 0,
          adv_state = ACTive\<rparr>]\<rparr>\<rparr>"

definition demo_entry :: service_entry where
  "demo_entry = \<lparr>se_queues = [\<lparr>qe_grpno = 5, qe_msqid = 10\<rparr>], current_queue = 0, cached_revision = 1, se_service = 0\<rparr>"

lemma used_first: "arr_data a \<noteq> [] \<Longrightarrow> used (a\<lparr>arr_len := Suc 0, arr_data := (arr_data a)[0 := x]\<rparr>) = [x]"
  by (cases "arr_data a") (simp_all add: used_def)

lemma demo_data:
  "arr_data (queues demo_mib) \<noteq> []" "arr_data (servers demo_mib) \<noteq> []" "arr_data (services demo_mib) \<noteq> []"
  "arr_data (advertisements demo_mib) \<noteq> []"
  by (simp_all add: demo_mib_def arr_init_def)

lemma demo_domain_tables:
  "used (queues demo_domain) = [(arr_data (queues demo_mib) ! 0)\<lparr>msqid := 10\<rparr>]"
  "used (servers demo_domain) = [(arr_data (servers demo_mib) ! 0)\<lparr>srv_grpno := 5\<rparr>]"
  "used (services demo_domain) = [(arr_data (services demo_mib) ! 0)\<lparr>servicename := 83 # replicate 31 0, revision := 1\<rparr>]"
  "arr_len (services demo_domain) = 1" "arr_len (queues demo_domain) = 1" "arr_len (servers demo_domain) = 1"
  "ads demo_domain = [(0, 0, 0)]"
  by (simp_all add: demo_domain_def used_first demo_data ads_def triple_def badoff_def)

lemma slots_ok_first:
  assumes "slots_ok Z a" "arr_len a = 0" "0 < arr_size a"
  shows "slots_ok Z (a\<lparr>arr_len := Suc 0, arr_data := (arr_data a)[0 := x]\<rparr>)"
  using assms by (auto simp: slots_ok_def arr_ok_def)

lemma demo_domain_ok: "mib_ok demo_domain"
proof -
  have len: "arr_len (services demo_mib) = 0" "arr_size (services demo_mib) = 2"
    "arr_len (queues demo_mib) = 0" "arr_size (queues demo_mib) = 2"
    "arr_len (servers demo_mib) = 0" "arr_size (servers demo_mib) = 2"
    "arr_len (advertisements demo_mib) = 0" "arr_size (advertisements demo_mib) = 4"
    by (simp_all add: demo_mib_def arr_init_def)
  note ok = mib_ok_arrays [OF demo_mib_ok(1)]
  have "slots_ok (\<lambda>_. True) (advertisements demo_mib)" using ok(5) by (simp add: slots_ok_def)
  from slots_ok_first [OF this] ok(1) slots_ok_first [OF ok(2)] slots_ok_first [OF ok(3)] slots_ok_first [OF ok(4)]
  show ?thesis by (simp add: mib_ok_def demo_domain_def len slots_ok_def)
qed

lemma one_less_max: "(1 :: 64 word) < - 1"
  by code_simp

lemma demo_domain_valid:
  "ads_valid demo_domain" "never_ok demo_domain" "find_service [83] demo_domain = Inr 0"
  "serving demo_domain 0 = [\<lparr>qe_grpno = 5, qe_msqid = 10\<rparr>]" "cache_ok demo_domain demo_entry"
proof -
  show s: "serving demo_domain 0 = [\<lparr>qe_grpno = 5, qe_msqid = 10\<rparr>]"
    by (simp add: serving_def qentry_def demo_domain_tables)
  show "ads_valid demo_domain" by (simp add: ads_valid_def ads_ok_def demo_domain_ok demo_domain_tables)
  show "never_ok demo_domain" by (simp add: never_ok_def demo_domain_tables)
  show "find_service [83] demo_domain = Inr 0"
    using arr_find_used [OF mib_ok_arrays(9) [OF demo_domain_ok]]
    by (simp add: find_service_def demo_domain_tables c_string_def or_badoff_def)
  show "cache_ok demo_domain demo_entry"
    using s by (simp add: cache_ok_def demo_entry_def demo_domain_tables)
qed


lemma refresh_ok:
  assumes "ads_valid m" "cache_ok m e"
  shows "\<exists>e'. refresh m e = (Inr (), e') \<and> cache_ok m e' \<and> set (se_queues e') = set (serving m (se_service e)) \<and>
           se_service e' = se_service e \<and> (se_queues e' = se_queues e \<or> se_queues e' = serving m (se_service e))"
proof -
  let ?v = "se_service e"
  have ok: "mib_ok m" using assms(1) by (simp add: ads_valid_def ads_ok_def)
  note arr = mib_ok_arrays [OF ok]
  have v: "?v < arr_len (services m)" "?v \<noteq> badoff"
    using assms(2) arr(9) by (auto simp: cache_ok_def arr_ok_def)
  note at = arr_at_used [OF arr(9) v(1)]
  show ?thesis
  proof (cases "cached_revision e = revision (used (services m) ! ?v)")
    case True
    then show ?thesis using assms(2) at by (simp add: refresh_def cache_ok_def)
  next
    case False
    then show ?thesis using at refresh_loop_serving [OF assms(1) v(2)] v(1)
      by (simp add: refresh_def cache_ok_def)
  qed
qed

lemma load_balance_picks:
  "load_balance grpno e = (Inr q, e') \<Longrightarrow>
     (\<exists>x \<in> set (se_queues e). qe_msqid x = q \<and> (grpno \<noteq> -1 \<longrightarrow> qe_grpno x = grpno)) \<and>
     (\<exists>c. e' = e\<lparr>current_queue := c\<rparr>)"
proof -
  assume run: "load_balance grpno e = (Inr q, e')"
  then have ne: "se_queues e \<noteq> []" by (auto simp: load_balance_def)
  show ?thesis
  proof (cases "grpno = -1")
    case True
    have "(current_queue e + 1) mod length (se_queues e) < length (se_queues e)" using ne by simp
    then have "se_queues e ! ((current_queue e + 1) mod length (se_queues e)) \<in> set (se_queues e)" by (rule nth_mem)
    then show ?thesis using run True ne by (auto simp: load_balance_def Let_def)
  next
    case False
    have "e' = e" using run ne False by (auto simp: load_balance_def split: option.splits)
    then have "e' = e\<lparr>current_queue := current_queue e\<rparr>" by simp
    moreover have "\<exists>x \<in> set (se_queues e). qe_msqid x = q \<and> qe_grpno x = grpno"
      using run ne False by (auto simp: load_balance_def find_Some_iff split: option.splits dest: nth_mem)
    ultimately show ?thesis by blast
  qed
qed

lemma load_balance_fails:
  "fst (load_balance grpno e) = Inl x \<longleftrightarrow>
     x = Out_of_range \<and> \<not> (\<exists>q \<in> set (se_queues e). grpno = -1 \<or> qe_grpno q = grpno)"
proof (cases "se_queues e = [] \<or> grpno = -1")
  case True
  then show ?thesis by (cases "se_queues e") (auto simp: load_balance_def Let_def)
next
  case False
  show ?thesis
  proof (cases "find (\<lambda>q. qe_grpno q = grpno) (se_queues e)")
    case None
    moreover from None have "\<not> (\<exists>q \<in> set (se_queues e). qe_grpno q = grpno)" by (auto simp: find_None_iff)
    ultimately show ?thesis using False by (auto simp: load_balance_def)
  next
    case (Some q)
    moreover from Some have "q \<in> set (se_queues e)" "qe_grpno q = grpno"
      by (auto simp: find_Some_iff)
    ultimately show ?thesis using False by (auto simp: load_balance_def)
  qed
qed

lemma cache_ok_turn: "cache_ok m (e\<lparr>current_queue := c\<rparr>) = cache_ok m e"
  by (simp add: cache_ok_def)

lemma get_entry_ok:
  assumes "ads_valid m" "never_ok m" "\<forall>(k, e) \<in> set r. cache_ok m e \<and> find_service k m = Inr (se_service e)"
    and "find_service name m = Inr v" "v \<noteq> badoff"
  shows "\<exists>e r'. get_entry name m r = (Inr e, r') \<and> cache_ok m e \<and> se_service e = v \<and>
           (\<forall>(k, e) \<in> set r'. cache_ok m e \<and> find_service k m = Inr (se_service e))"
proof (cases "map_of r name")
  case None
  have ok: "mib_ok m" using assms(1) by (simp add: ads_valid_def ads_ok_def)
  let ?e = "\<lparr>se_queues = [], current_queue = 0, cached_revision = 0, se_service = v\<rparr>"
  have "v < arr_len (services m)" using find_service_hit(1) [OF ok assms(4,5)] .
  then have "cache_ok m ?e" using assms(2) by (auto simp: cache_ok_def never_ok_def)
  then show ?thesis using None assms(3,4,5)
    by (intro exI [of _ ?e] exI [of _ "(name, ?e) # r"]) (simp add: get_entry_def Let_def)
next
  case (Some e)
  then have "(name, e) \<in> set r" by (rule map_of_SomeD)
  then have "cache_ok m e" "se_service e = v" using assms(3,4) by auto
  then show ?thesis using Some assms(3) by (simp add: get_entry_def)
qed

text \<open>C11: \<open>get_queue\<close> returns a queue exactly when the service is known and one of the servers that
  advertise it now (in the group asked for, when one is) serves it; the queue it returns is the
  request queue of such a server, however old the cached list was, and the cache stays right.
\<close>

theorem get_queue_correct:
  assumes "ads_valid m" and "never_ok m"
    and "\<forall>(k, e) \<in> set r. cache_ok m e \<and> find_service k m = Inr (se_service e)"
    and "find_service name m = Inr v"
  shows "case get_queue grpno name m r of
           (Inr q, r') \<Rightarrow> v \<noteq> badoff \<and>
             (\<exists>x \<in> set (serving m v). qe_msqid x = q \<and> (grpno \<noteq> -1 \<longrightarrow> qe_grpno x = grpno)) \<and>
             (\<forall>(k, e) \<in> set r'. cache_ok m e \<and> find_service k m = Inr (se_service e))
         | (Inl x, r') \<Rightarrow> x = Out_of_range \<and>
             (v = badoff \<or> \<not> (\<exists>q \<in> set (serving m v). grpno = -1 \<or> qe_grpno q = grpno))"
proof (cases "v = badoff")
  case True
  have "map_of r name = None"
  proof (rule ccontr)
    assume "map_of r name \<noteq> None"
    then obtain e where "(name, e) \<in> set r" by (auto dest: map_of_SomeD)
    then have "cache_ok m e" "se_service e = badoff" using assms(3,4) True by auto
    then have "badoff < arr_len (services m)" by (simp add: cache_ok_def)
    moreover have "arr_ok (services m)" using assms(1) mib_ok_arrays(9) by (simp add: ads_valid_def ads_ok_def)
    ultimately show False by (simp add: arr_ok_def)
  qed
  then show ?thesis using True assms(4) by (simp add: get_queue_def get_entry_def)
next
  case False
  obtain e r' where e: "get_entry name m r = (Inr e, r')" "cache_ok m e" "se_service e = v"
    and r': "\<forall>(k, e) \<in> set r'. cache_ok m e \<and> find_service k m = Inr (se_service e)"
    using get_entry_ok [OF assms False] by blast
  obtain e' where e': "refresh m e = (Inr (), e')" "cache_ok m e'" "se_service e' = v"
    "set (se_queues e') = set (serving m v)"
    using refresh_ok [OF assms(1) e(2)] e(3) by auto
  obtain q e'' where lb: "load_balance grpno e' = (q, e'')" by (cases "load_balance grpno e'")
  have run: "get_queue grpno name m r = (q, put_entry name e'' r')"
    using e(1) e'(1) lb by (simp add: get_queue_def)
  show ?thesis
  proof (cases q)
    case (Inl x)
    then show ?thesis using run lb load_balance_fails [of grpno e' x] e'(4) by simp
  next
    case (Inr id)
    note p = load_balance_picks [OF lb [unfolded Inr]]
    then obtain c where "e'' = e'\<lparr>current_queue := c\<rparr>" by blast
    then have "cache_ok m e''" "se_service e'' = v"
      using e'(2,3) by (simp_all add: cache_ok_turn)
    then have "\<forall>(k, e) \<in> set (put_entry name e'' r'). cache_ok m e \<and> find_service k m = Inr (se_service e)"
      using r' assms(4) by (auto simp: put_entry_def split: if_splits)
    then show ?thesis using run Inr p e'(4) False by simp
  qed
qed

theorem get_queue_correct_witness:
  "case get_queue 5 [83] demo_domain [] of
     (Inr q, r') \<Rightarrow> (0 :: nat) \<noteq> badoff \<and>
       (\<exists>x \<in> set (serving demo_domain 0). qe_msqid x = q \<and> ((5 :: int) \<noteq> -1 \<longrightarrow> qe_grpno x = 5)) \<and>
       (\<forall>(k, e) \<in> set r'. cache_ok demo_domain e \<and> find_service k demo_domain = Inr (se_service e))
   | (Inl x, r') \<Rightarrow> x = Out_of_range \<and>
       ((0 :: nat) = badoff \<or> \<not> (\<exists>q \<in> set (serving demo_domain 0). (5 :: int) = -1 \<or> qe_grpno q = 5))"
  by (rule get_queue_correct [OF demo_domain_valid(1,2) _ demo_domain_valid(3)]) simp

subsection \<open>Round robin\<close>

fun balance_n :: "nat \<Rightarrow> service_entry \<Rightarrow> int except list" where
  "balance_n 0 e = []"
| "balance_n (Suc n) e = (case load_balance (-1) e of (q, e') \<Rightarrow> q # balance_n n e')"

lemma balance_n_rotates:
  assumes "se_queues e \<noteq> []"
  shows "balance_n n e =
           map (\<lambda>i. Inr (qe_msqid (se_queues e ! ((current_queue e + 1 + i) mod length (se_queues e))))) [0 ..< n]"
  using assms
proof (induction n arbitrary: e)
  case 0
  then show ?case by simp
next
  case (Suc n)
  let ?k = "length (se_queues e)"
  let ?e = "e\<lparr>current_queue := (current_queue e + 1) mod ?k\<rparr>"
  have "load_balance (-1) e = (Inr (qe_msqid (se_queues e ! ((current_queue e + 1) mod ?k))), ?e)"
    using Suc.prems by (simp add: load_balance_def Let_def)
  then have "balance_n (Suc n) e = Inr (qe_msqid (se_queues e ! ((current_queue e + 1) mod ?k))) # balance_n n ?e"
    by simp
  also have "balance_n n ?e = map (\<lambda>i. Inr (qe_msqid (se_queues e ! ((current_queue e + 1 + Suc i) mod ?k)))) [0 ..< n]"
  proof -
    have "((current_queue e + 1) mod ?k + 1 + i) mod ?k = (current_queue e + 1 + Suc i) mod ?k" for i
      using mod_add_left_eq [of "current_queue e + 1" ?k "1 + i"] by (simp add: add.assoc del: mod_add_left_eq)
    then show ?thesis using Suc.IH [of ?e] Suc.prems by simp
  qed
  finally show ?case by (simp only: map_upt_Suc add_0_right)
qed

text \<open>the round robin is fair: over as many calls as a service has queues, each of its queues is
  used exactly once, wherever the turn stood.
\<close>

theorem round_robin_fair:
  assumes "se_queues e \<noteq> []"
  shows "\<exists>k. balance_n (length (se_queues e)) e = map (\<lambda>q. Inr (qe_msqid q)) (rotate k (se_queues e))"
proof -
  have "balance_n (length (se_queues e)) e = map (\<lambda>q. Inr (qe_msqid q)) (rotate (current_queue e + 1) (se_queues e))"
    by (rule nth_equalityI) (simp_all add: balance_n_rotates [OF assms] nth_rotate del: rotate_Suc)
  then show ?thesis by blast
qed

theorem round_robin_fair_witness:
  "\<exists>k. balance_n 2 \<lparr>se_queues = [\<lparr>qe_grpno = 1, qe_msqid = 10\<rparr>, \<lparr>qe_grpno = 2, qe_msqid = 20\<rparr>],
         current_queue = 0, cached_revision = 3, se_service = 0\<rparr> =
       map (\<lambda>q. Inr (qe_msqid q)) (rotate k [\<lparr>qe_grpno = 1, qe_msqid = 10\<rparr>, \<lparr>qe_grpno = 2, qe_msqid = 20\<rparr>])"
  using round_robin_fair [of "\<lparr>se_queues = [\<lparr>qe_grpno = 1, qe_msqid = 10\<rparr>, \<lparr>qe_grpno = 2, qe_msqid = 20\<rparr>],
         current_queue = 0, cached_revision = 3, se_service = 0\<rparr>"] by (simp add: numeral_2_eq_2)

end
