(* ===== verification/Atmi.thy ===== *)
theory Atmi
  imports Exceptions
begin

text \<open>
  What the ATMI calls of src/client.cpp, src/server.cpp, src/mem.cpp and src/trx.cpp share: the
  codes of include/atmidefs.h, the ways a call may fail to return, and the exception boundary of
  src/misc.h that the public functions are wrapped in.
\<close>

unbundle bit_operations_syntax

subsection \<open>Codes and flags\<close>

abbreviation (input) TPMINVAL :: int where "TPMINVAL \<equiv> 0"
abbreviation (input) TPEABORT :: int where "TPEABORT \<equiv> 1"
abbreviation (input) TPEBADDESC :: int where "TPEBADDESC \<equiv> 2"
abbreviation (input) TPEBLOCK :: int where "TPEBLOCK \<equiv> 3"
abbreviation (input) TPEINVAL :: int where "TPEINVAL \<equiv> 4"
abbreviation (input) TPELIMIT :: int where "TPELIMIT \<equiv> 5"
abbreviation (input) TPENOENT :: int where "TPENOENT \<equiv> 6"
abbreviation (input) TPEPROTO :: int where "TPEPROTO \<equiv> 9"
abbreviation (input) TPESVCERR :: int where "TPESVCERR \<equiv> 10"
abbreviation (input) TPESVCFAIL :: int where "TPESVCFAIL \<equiv> 11"
abbreviation (input) TPESYSTEM :: int where "TPESYSTEM \<equiv> 12"
abbreviation (input) TPETIME :: int where "TPETIME \<equiv> 13"
abbreviation (input) TPETRAN :: int where "TPETRAN \<equiv> 14"
abbreviation (input) TPERMERR :: int where "TPERMERR \<equiv> 16"
abbreviation (input) TPEHAZARD :: int where "TPEHAZARD \<equiv> 20"
abbreviation (input) TPEHEURISTIC :: int where "TPEHEURISTIC \<equiv> 21"
abbreviation (input) TPEMATCH :: int where "TPEMATCH \<equiv> 23"

abbreviation (input) TPNOFLAGS :: int where "TPNOFLAGS \<equiv> 0"
abbreviation (input) TPNOBLOCK :: int where "TPNOBLOCK \<equiv> 0x1"
abbreviation (input) TPNOREPLY :: int where "TPNOREPLY \<equiv> 0x4"
abbreviation (input) TPNOTRAN :: int where "TPNOTRAN \<equiv> 0x8"
abbreviation (input) TPTRAN :: int where "TPTRAN \<equiv> 0x10"
abbreviation (input) TPNOTIME :: int where "TPNOTIME \<equiv> 0x20"
abbreviation (input) TPGETANY :: int where "TPGETANY \<equiv> 0x80"
abbreviation (input) TPFAIL :: int where "TPFAIL \<equiv> 0x20000000"
abbreviation (input) TPEXIT :: int where "TPEXIT \<equiv> 0x08000000"
abbreviation (input) TPSUCCESS :: int where "TPSUCCESS \<equiv> 0x04000000"
abbreviation (input) TPEX_STRING :: int where "TPEX_STRING \<equiv> 1"

text \<open>\<open>flags & FLAG\<close> as a condition.\<close>

definition has_flag :: "int \<Rightarrow> int \<Rightarrow> bool" where
  "has_flag flags f \<longleftrightarrow> flags AND f \<noteq> 0"

subsection \<open>Calls that do not return\<close>

text \<open>How a call can fail to return a code: an exception, undefined behaviour, no return at all.\<close>

datatype stop = Throw cpp_error | Undefined | No_return

type_synonym ('a, 's) call = "(stop + 'a) \<times> 's"

text \<open>
  \<open>fux::atmi::exception_boundary\<close>: \<open>tperrno\<close> is reset, and an exception becomes the error
  result \<open>r\<close> with \<open>tperrno\<close> -1. \<open>put_err\<close> is the update of \<open>tperrno\<close> in the state at hand.
\<close>

definition exception_boundary :: "(int \<Rightarrow> 's \<Rightarrow> 's) \<Rightarrow> ('s \<Rightarrow> ('a, 's) call) \<Rightarrow> 'a \<Rightarrow> 's \<Rightarrow> ('a, 's) call" where
  "exception_boundary put_err f r s =
     (case f (put_err 0 s) of
        (Inl (Throw e), s') \<Rightarrow> (Inr r, put_err (-1) s')
      | res \<Rightarrow> res)"

lemma exception_boundary_simps [simp]:
  "f (put_err 0 s) = (Inr a, s') \<Longrightarrow> exception_boundary put_err f r s = (Inr a, s')"
  "f (put_err 0 s) = (Inl (Throw e), s') \<Longrightarrow> exception_boundary put_err f r s = (Inr r, put_err (-1) s')"
  "f (put_err 0 s) = (Inl Undefined, s') \<Longrightarrow> exception_boundary put_err f r s = (Inl Undefined, s')"
  "f (put_err 0 s) = (Inl No_return, s') \<Longrightarrow> exception_boundary put_err f r s = (Inl No_return, s')"
  by (simp_all add: exception_boundary_def)

end
