(* ===== verification/Tx.thy ===== *)
theory Tx
  imports Svc_Repo Atmi
begin

text \<open>
  src/tx.cpp: the TX (transaction demarcation) interface over the XA switch of a resource
  manager. The state is that of one thread (\<open>tx_context\<close> and the globals \<open>grpno\<close>, \<open>grpidx\<close>)
  with the shared memory of the domain; the resource manager is not part of the repository, so
  its state \<open>'r\<close> and the functions of its switch are parameters. The null resource manager of
  src/nonexa.cpp is the switch \<open>tmnull_switch\<close>.
\<close>

subsection \<open>Codes\<close>

text \<open>The codes of include/tx.h and include/xa.h the sources use.\<close>

abbreviation (input) TX_OK :: int where "TX_OK \<equiv> 0"
abbreviation (input) TX_OUTSIDE :: int where "TX_OUTSIDE \<equiv> -1"
abbreviation (input) TX_ROLLBACK :: int where "TX_ROLLBACK \<equiv> -2"
abbreviation (input) TX_MIXED :: int where "TX_MIXED \<equiv> -3"
abbreviation (input) TX_HAZARD :: int where "TX_HAZARD \<equiv> -4"
abbreviation (input) TX_PROTOCOL_ERROR :: int where "TX_PROTOCOL_ERROR \<equiv> -5"
abbreviation (input) TX_ERROR :: int where "TX_ERROR \<equiv> -6"
abbreviation (input) TX_FAIL :: int where "TX_FAIL \<equiv> -7"
abbreviation (input) TX_EINVAL :: int where "TX_EINVAL \<equiv> -8"
abbreviation (input) TX_COMMITTED :: int where "TX_COMMITTED \<equiv> -9"
abbreviation (input) TX_NO_BEGIN :: int where "TX_NO_BEGIN \<equiv> -100"
abbreviation (input) TX_UNCHAINED :: int where "TX_UNCHAINED \<equiv> 0"
abbreviation (input) TX_CHAINED :: int where "TX_CHAINED \<equiv> 1"
abbreviation (input) TX_COMMIT_COMPLETED :: int where "TX_COMMIT_COMPLETED \<equiv> 0"
abbreviation (input) TX_COMMIT_DECISION_LOGGED :: int where "TX_COMMIT_DECISION_LOGGED \<equiv> 1"

abbreviation (input) XA_OK :: int where "XA_OK \<equiv> 0"
abbreviation (input) XA_RDONLY :: int where "XA_RDONLY \<equiv> 3"
abbreviation (input) XAER_RMERR :: int where "XAER_RMERR \<equiv> -3"
abbreviation (input) XAER_INVAL :: int where "XAER_INVAL \<equiv> -5"
abbreviation (input) XAER_PROTO :: int where "XAER_PROTO \<equiv> -6"
abbreviation (input) XAER_RMFAIL :: int where "XAER_RMFAIL \<equiv> -7"
abbreviation (input) XAER_DUPID :: int where "XAER_DUPID \<equiv> -8"
abbreviation (input) XAER_OUTSIDE :: int where "XAER_OUTSIDE \<equiv> -9"
abbreviation (input) TMER_TMERR :: int where "TMER_TMERR \<equiv> -1"

abbreviation (input) TMNOFLAGS :: int where "TMNOFLAGS \<equiv> 0"
abbreviation (input) TMFAIL :: int where "TMFAIL \<equiv> 0x20000000"
abbreviation (input) TMRESUME :: int where "TMRESUME \<equiv> 0x08000000"
abbreviation (input) TMSUCCESS :: int where "TMSUCCESS \<equiv> 0x04000000"
abbreviation (input) TMSUSPEND :: int where "TMSUSPEND \<equiv> 0x02000000"
abbreviation (input) TMJOIN :: int where "TMJOIN \<equiv> 0x00200000"

subsection \<open>State\<close>

datatype xa_func = prepare | commit | rollback

datatype tx_state = s0 | s1 | s2 | s3 | s4

record 'r xa_switch =
  xa_name :: "byte list"
  xa_open_entry :: "byte list \<Rightarrow> nat \<Rightarrow> int \<Rightarrow> 'r \<Rightarrow> int \<times> 'r"
  xa_close_entry :: "byte list \<Rightarrow> nat \<Rightarrow> int \<Rightarrow> 'r \<Rightarrow> int \<times> 'r"
  xa_start_entry :: "xid \<Rightarrow> nat \<Rightarrow> int \<Rightarrow> 'r \<Rightarrow> int \<times> 'r"
  xa_end_entry :: "xid \<Rightarrow> nat \<Rightarrow> int \<Rightarrow> 'r \<Rightarrow> int \<times> 'r"
  xa_rollback_entry :: "xid \<Rightarrow> nat \<Rightarrow> int \<Rightarrow> 'r \<Rightarrow> int \<times> 'r"
  xa_prepare_entry :: "xid \<Rightarrow> nat \<Rightarrow> int \<Rightarrow> 'r \<Rightarrow> int \<times> 'r"
  xa_commit_entry :: "xid \<Rightarrow> nat \<Rightarrow> int \<Rightarrow> 'r \<Rightarrow> int \<times> 'r"

definition tmnull_switch :: "'r xa_switch" where
  "tmnull_switch =
     \<lparr>xa_name = [78, 79, 78, 69],
      xa_open_entry = (\<lambda>_ _ _ r. (XA_OK, r)), xa_close_entry = (\<lambda>_ _ _ r. (XA_OK, r)),
      xa_start_entry = (\<lambda>_ _ _ r. (XA_OK, r)), xa_end_entry = (\<lambda>_ _ _ r. (XA_OK, r)),
      xa_rollback_entry = (\<lambda>_ _ _ r. (XA_OK, r)), xa_prepare_entry = (\<lambda>_ _ _ r. (XA_RDONLY, r)),
      xa_commit_entry = (\<lambda>_ _ _ r. (XA_OK, r))\<rparr>"

record txinfo =
  ti_xid :: xid
  when_return :: int
  transaction_control :: int
  transaction_timeout :: int
  transaction_state :: int

text \<open>
  The thread's context with what it reaches: the shared memory, the resource manager's state
  \<open>rm\<close>, the network \<open>net\<close> to the transaction managers, and the clock and the stack contents
  that \<open>genuid\<close> and uninitialised structures read.
\<close>

record ('r, 'n) tx_world =
  tx_st :: tx_state
  grpcfg :: "mib_group option"
  tx_inf :: txinfo
  tx_gttid :: nat
  tx_grpno :: nat
  tx_grpidx :: nat
  tx_mib :: mibmem
  tx_rm :: 'r
  tx_net :: 'n
  clock_sec :: "64 word"
  stack_junk :: "nat \<Rightarrow> byte"

type_synonym ('r, 'n, 'a) tx_result = "(stop + 'a) \<times> ('r, 'n) tx_world"

definition bad_gttid :: nat where "bad_gttid = 65535"

definition notrx :: "('r, 'n) tx_world \<Rightarrow> ('r, 'n) tx_world" where
  "notrx w = w\<lparr>tx_inf := (tx_inf w)\<lparr>ti_xid := (ti_xid (tx_inf w))\<lparr>formatID := -1\<rparr>\<rparr>, tx_gttid := bad_gttid\<rparr>"

definition tx_context :: "('r, 'n) tx_world \<Rightarrow> ('r, 'n, unit) tx_result" where
  "tx_context w =
     (let w = w\<lparr>tx_st := s0\<rparr> in
      if tx_grpno w \<noteq> 0 then
        (case group_by_id (tx_grpno w) (tx_mib w) of
           Inl e \<Rightarrow> (Inl (Throw e), w)
         | Inr g \<Rightarrow>
             (case find_group (tx_grpno w) (tx_mib w) of
                Inl e \<Rightarrow> (Inl (Throw e), w)
              | Inr i \<Rightarrow> (Inr (), notrx (w\<lparr>grpcfg := Some g, tx_grpidx := i\<rparr>))))
      else (Inr (), notrx (w\<lparr>grpcfg := None\<rparr>)))"

definition rm_err :: "int \<Rightarrow> int" where
  "rm_err xarc =
     (if xarc = XAER_RMERR then TX_ERROR
      else if xarc = XAER_INVAL then TX_FAIL
      else if xarc = XAER_PROTO then TX_FAIL
      else TX_FAIL)"

subsection \<open>Opening, closing, asking\<close>

definition tx_open :: "'r xa_switch \<Rightarrow> ('r, 'n) tx_world \<Rightarrow> ('r, 'n, int) tx_result" where
  "tx_open sw w =
     (case grpcfg w of
        None \<Rightarrow> (Inl Undefined, w)
      | Some g \<Rightarrow>
          let info = c_string (openinfo g); len = length (xa_name sw) in
          if info \<noteq> [] \<and> (take len info \<noteq> xa_name sw \<or> take 1 (drop len info) \<noteq> [58])
          then (Inr TX_ERROR, w)
          else case xa_open_entry sw (c_string (drop (len + 1) (openinfo g))) (tx_grpno w) TMNOFLAGS (tx_rm w) of
            (xarc, r) \<Rightarrow>
              let w = w\<lparr>tx_rm := r\<rparr> in
              if xarc = XA_OK then (Inr TX_OK, if tx_st w = s0 then (notrx w)\<lparr>tx_st := s1\<rparr> else w)
              else (Inr (rm_err xarc), w))"

definition tx_close :: "'r xa_switch \<Rightarrow> ('r, 'n) tx_world \<Rightarrow> ('r, 'n, int) tx_result" where
  "tx_close sw w =
     (if \<not> (tx_st w = s0 \<or> tx_st w = s1 \<or> tx_st w = s2) then (Inr TX_PROTOCOL_ERROR, w)
      else case grpcfg w of
        None \<Rightarrow> (Inl Undefined, w)
      | Some g \<Rightarrow>
          (case xa_close_entry sw (c_string (closeinfo g)) (tx_grpno w) TMNOFLAGS (tx_rm w) of
             (xarc, r) \<Rightarrow>
               let w = w\<lparr>tx_rm := r\<rparr> in
               if xarc = XA_OK then (Inr TX_OK, w\<lparr>tx_st := s0\<rparr>) else (Inr (rm_err xarc), w)))"

definition opened :: "tx_state \<Rightarrow> bool" where
  "opened s \<longleftrightarrow> s = s1 \<or> s = s2 \<or> s = s3 \<or> s = s4"

text \<open>The code \<open>tx_info\<close> returns, and the structure it fills in unless it fails.\<close>

definition tx_info :: "('r, 'n) tx_world \<Rightarrow> int \<times> txinfo option" where
  "tx_info w =
     (if \<not> opened (tx_st w) then (TX_PROTOCOL_ERROR, None)
      else (if formatID (ti_xid (tx_inf w)) = -1 then 0 else 1, Some (tx_inf w)))"

subsection \<open>Beginning\<close>

text \<open>A new identifier: the bytes of the unique number and a zero branch qualifier.\<close>

definition new_xid :: "64 word \<Rightarrow> (nat \<Rightarrow> byte) \<Rightarrow> xid" where
  "new_xid uid junk =
     \<lparr>formatID = 1, gtrid_length = 8, bqual_length = 1,
      xdata = (\<lambda>i. if i < 8 then enc_le 8 (uint uid) ! i else if i = 8 then 0 else junk i)\<rparr>"

definition start_rc :: "int \<Rightarrow> int" where
  "start_rc xarc =
     (if xarc = XAER_RMERR then TX_ERROR
      else if xarc = XAER_DUPID then TX_ERROR
      else if xarc = XAER_INVAL then TX_FAIL
      else if xarc = XAER_PROTO then TX_ERROR
      else if xarc = XAER_RMFAIL then TX_FAIL
      else if xarc = XAER_OUTSIDE then TX_OUTSIDE
      else TX_FAIL)"

definition tx_start_flags ::
    "'r xa_switch \<Rightarrow> xid option \<Rightarrow> int \<Rightarrow> ('r, 'n) tx_world \<Rightarrow> int \<times> ('r, 'n) tx_world" where
  "tx_start_flags sw x flags w =
     (if \<not> (tx_st w = s1 \<or> tx_st w = s2) then (TX_PROTOCOL_ERROR, w)
      else
        let w = (case x of None \<Rightarrow> w | Some x \<Rightarrow> w\<lparr>tx_inf := (tx_inf w)\<lparr>ti_xid := x\<rparr>\<rparr>) in
        case xa_start_entry sw (ti_xid (tx_inf w)) (tx_grpno w) flags (tx_rm w) of
          (xarc, r) \<Rightarrow>
            let w = w\<lparr>tx_rm := r\<rparr> in
            if xarc = XA_OK
            then (TX_OK, w\<lparr>tx_st := (if tx_st w = s1 then s3 else if tx_st w = s2 then s4 else tx_st w)\<rparr>)
            else (start_rc xarc, w))"

definition tx_begin :: "'r xa_switch \<Rightarrow> ('r, 'n) tx_world \<Rightarrow> ('r, 'n, int) tx_result" where
  "tx_begin sw w =
     (case genuid (clock_sec w) (tx_mib w) of
        None \<Rightarrow> (Inl No_return, w)
      | Some (uid, m) \<Rightarrow>
          let x = new_xid uid (stack_junk w) in
          case start (transactions m) x (tx_grpidx w) of
            (Inl e, t) \<Rightarrow> (Inl (Throw e), w\<lparr>tx_mib := m\<lparr>transactions := t\<rparr>\<rparr>)
          | (Inr i, t) \<Rightarrow>
              (case tx_start_flags sw (Some x) TMNOFLAGS (w\<lparr>tx_mib := m\<lparr>transactions := t\<rparr>, tx_gttid := i\<rparr>) of
                 (rc, w) \<Rightarrow> (Inr rc, w)))"

definition tx_set1 :: "int \<Rightarrow> bool" where
  "tx_set1 rc \<longleftrightarrow> rc = TX_OK \<or> rc = TX_ROLLBACK \<or> rc = TX_MIXED \<or> rc = TX_HAZARD \<or> rc = TX_COMMITTED"

definition tx_set2 :: "int \<Rightarrow> bool" where
  "tx_set2 rc \<longleftrightarrow> rc = TX_NO_BEGIN \<or> rc = TX_ROLLBACK + TX_NO_BEGIN \<or> rc = TX_MIXED + TX_NO_BEGIN \<or>
     rc = TX_HAZARD + TX_NO_BEGIN \<or> rc = TX_COMMITTED + TX_NO_BEGIN"

definition change_state :: "'r xa_switch \<Rightarrow> int \<Rightarrow> ('r, 'n) tx_world \<Rightarrow> ('r, 'n, int) tx_result" where
  "change_state sw rc w =
     (if tx_set1 rc then
        (if tx_st w = s3 then (Inr rc, w\<lparr>tx_st := s1\<rparr>)
         else if tx_st w = s4 then tx_begin sw (w\<lparr>tx_st := s2\<rparr>)
         else (Inr rc, w))
      else if tx_set2 rc then (Inr rc, if tx_st w = s4 then w\<lparr>tx_st := s2\<rparr> else w)
      else (Inr rc, w))"

subsection \<open>Ending, suspending, resuming, joining\<close>

text \<open>
  \<open>_tx_end(info, flags)\<close>: \<open>want\<close> says whether there is a structure to fill in; when there is,
  the thread forgets the transaction, whatever the resource manager answered.
\<close>

definition tx_end_flags ::
    "'r xa_switch \<Rightarrow> bool \<Rightarrow> int \<Rightarrow> ('r, 'n) tx_world \<Rightarrow> (int \<times> txinfo option) \<times> ('r, 'n) tx_world" where
  "tx_end_flags sw want flags w =
     (if \<not> (tx_st w = s3 \<or> tx_st w = s4) then ((TX_PROTOCOL_ERROR, None), w)
      else case xa_end_entry sw (ti_xid (tx_inf w)) (tx_grpno w) flags (tx_rm w) of
        (xarc, r) \<Rightarrow>
          let w = w\<lparr>tx_rm := r\<rparr>; rc = (if xarc = XA_OK then TX_OK else TX_FAIL) in
          if want then ((rc, Some (tx_inf w)), notrx w) else ((rc, None), w))"

definition tx_suspend ::
    "'r xa_switch \<Rightarrow> bool \<Rightarrow> ('r, 'n) tx_world \<Rightarrow> (int \<times> txinfo option) \<times> ('r, 'n) tx_world" where
  "tx_suspend sw want w =
     (case tx_end_flags sw want TMSUSPEND w of
        ((rc, info), w) \<Rightarrow>
          if rc = TX_OK
          then ((rc, info), w\<lparr>tx_st := (if tx_st w = s3 then s1 else if tx_st w = s4 then s2 else tx_st w)\<rparr>)
          else ((rc, info), w))"

definition tx_resume :: "'r xa_switch \<Rightarrow> xid option \<Rightarrow> ('r, 'n) tx_world \<Rightarrow> int \<times> ('r, 'n) tx_world" where
  "tx_resume sw x w = tx_start_flags sw x TMRESUME w"

text \<open>\<open>_tx_end(info)\<close>, which leaves the structure that was filled in, and \<open>_tx_end(ok)\<close>.\<close>

definition tx_end_info ::
    "'r xa_switch \<Rightarrow> ('r, 'n) tx_world \<Rightarrow> ('r, 'n, int \<times> txinfo option) tx_result" where
  "tx_end_info sw w =
     (case tx_end_flags sw True TMSUCCESS w of
        ((rc, info), w) \<Rightarrow> seqx (change_state sw rc w) (\<lambda>rc w. (Inr (rc, info), w)))"

definition tx_end_ok :: "'r xa_switch \<Rightarrow> bool \<Rightarrow> ('r, 'n) tx_world \<Rightarrow> ('r, 'n, int) tx_result" where
  "tx_end_ok sw ok w =
     (case tx_end_flags sw True (if ok then TMSUCCESS else TMFAIL) w of
        ((rc, info), w) \<Rightarrow> change_state sw rc w)"

definition tx_join :: "'r xa_switch \<Rightarrow> nat \<Rightarrow> ('r, 'n) tx_world \<Rightarrow> ('r, 'n, unit) tx_result" where
  "tx_join sw i w =
     (case trx_join (transactions (tx_mib w)) i (tx_grpidx w) of
        (Inl e, t) \<Rightarrow> (Inl (Throw e), w)
      | (Inr e, t) \<Rightarrow>
          (case tx_start_flags sw (Some (trx_xid e)) TMJOIN (w\<lparr>tx_mib := (tx_mib w)\<lparr>transactions := t\<rparr>\<rparr>) of
             (rc, w) \<Rightarrow> (Inr (), w)))"

definition transactional :: "('r, 'n) tx_world \<Rightarrow> bool" where
  "transactional w \<longleftrightarrow> \<not> formatID (ti_xid (tx_inf w)) = -1"

subsection \<open>Characteristics\<close>

definition tx_set_commit_return :: "int \<Rightarrow> ('r, 'n) tx_world \<Rightarrow> int \<times> ('r, 'n) tx_world" where
  "tx_set_commit_return v w =
     (if \<not> opened (tx_st w) then (TX_PROTOCOL_ERROR, w)
      else if \<not> (v = TX_COMMIT_DECISION_LOGGED \<or> v = TX_COMMIT_COMPLETED) then (TX_EINVAL, w)
      else (TX_OK, w\<lparr>tx_inf := (tx_inf w)\<lparr>when_return := v\<rparr>\<rparr>))"

definition tx_set_transaction_control :: "int \<Rightarrow> ('r, 'n) tx_world \<Rightarrow> int \<times> ('r, 'n) tx_world" where
  "tx_set_transaction_control c w =
     (if \<not> opened (tx_st w) then (TX_PROTOCOL_ERROR, w)
      else if \<not> (c = TX_UNCHAINED \<or> c = TX_CHAINED) then (TX_EINVAL, w)
      else
        let w = w\<lparr>tx_inf := (tx_inf w)\<lparr>transaction_control := c\<rparr>\<rparr> in
        (TX_OK, w\<lparr>tx_st :=
           (if tx_st w = s1 \<and> c = TX_CHAINED then s2
            else if tx_st w = s2 \<and> c = TX_UNCHAINED then s1
            else if tx_st w = s3 \<and> c = TX_CHAINED then s4
            else if tx_st w = s4 \<and> c = TX_UNCHAINED then s3
            else tx_st w)\<rparr>))"

definition tx_set_transaction_timeout :: "int \<Rightarrow> ('r, 'n) tx_world \<Rightarrow> int \<times> ('r, 'n) tx_world" where
  "tx_set_transaction_timeout t w =
     (if \<not> opened (tx_st w) then (TX_PROTOCOL_ERROR, w)
      else if t < 0 then (TX_EINVAL, w)
      else (TX_OK, w\<lparr>tx_inf := (tx_inf w)\<lparr>transaction_timeout := t\<rparr>\<rparr>))"

subsection \<open>Calling the transaction managers\<close>

text \<open>
  The request \<open>command\<close> builds for a group carries the function, the text of the identifier and
  the group; \<open>net_call\<close> sends it and gives the call descriptor or -1, \<open>net_reply\<close> takes the next
  reply and gives its descriptor and the \<open>TA_XARET\<close> field, when it has one.
\<close>

record 'n tm_net =
  net_call :: "nat \<Rightarrow> xa_func \<Rightarrow> byte list \<Rightarrow> 'n \<Rightarrow> int \<times> 'n"
  net_reply :: "'n \<Rightarrow> (int \<times> int option) \<times> 'n"

record branch =
  br_grpno :: nat
  br_cd :: int
  br_result :: int

fun send_all ::
    "'n tm_net \<Rightarrow> xa_func \<Rightarrow> byte list \<Rightarrow> branch list \<Rightarrow> 'n \<Rightarrow> (branch list \<times> int) \<times> 'n" where
  "send_all net f x [] n = (([], 0), n)"
| "send_all net f x (p # ps) n =
     (case net_call net (br_grpno p) f x n of
        (cd, n) \<Rightarrow>
          if cd = -1 then ((p\<lparr>br_cd := cd, br_result := TMER_TMERR\<rparr> # ps, 0), n)
          else (case send_all net f x ps n of
                  ((ps, pending), n) \<Rightarrow> ((p\<lparr>br_cd := cd\<rparr> # ps, pending + 1), n)))"

partial_function (option) receive ::
    "'n tm_net \<Rightarrow> branch list \<Rightarrow> int \<Rightarrow> 'n \<Rightarrow> (branch list except \<times> 'n) option" where
  "receive net ps pending n =
     (if \<not> pending > 0 then Some (Inr ps, n)
      else case net_reply net n of
        ((cd, ret), n) \<Rightarrow>
          (case filter (\<lambda>p. br_cd p = cd) ps of
             [] \<Rightarrow> receive net ps pending n
           | m # ms \<Rightarrow>
               (case ret of
                  None \<Rightarrow> Some (Inl Fml32buf_error, n)
                | Some r \<Rightarrow>
                    receive net (map (\<lambda>p. if br_cd p = cd then p\<lparr>br_result := r\<rparr> else p) ps)
                      (pending - int (length (m # ms))) n)))"

definition command ::
    "'n tm_net \<Rightarrow> xa_func \<Rightarrow> xid \<Rightarrow> branch list \<Rightarrow> ('r, 'n) tx_world \<Rightarrow> ('r, 'n, branch list) tx_result" where
  "command net f x ps w =
     (case send_all net f (xid_to_string x) ps (tx_net w) of
        ((ps, pending), n) \<Rightarrow>
          (case receive net ps pending n of
             None \<Rightarrow> (Inl No_return, w\<lparr>tx_net := n\<rparr>)
           | Some (Inl e, n) \<Rightarrow> (Inl (Throw e), w\<lparr>tx_net := n\<rparr>)
           | Some (Inr ps, n) \<Rightarrow> (Inr ps, w\<lparr>tx_net := n\<rparr>)))"

text \<open>The branches of a transaction: the groups that joined it.\<close>

fun branches_from :: "mibmem \<Rightarrow> transaction \<Rightarrow> nat \<Rightarrow> nat \<Rightarrow> branch list except" where
  "branches_from m t 0 i = Inr []"
| "branches_from m t (Suc n) i =
     (if trx_groups t ! i > 0
      then bind_except (arr_at (groups m) i) (\<lambda>g.
             bind_except (branches_from m t n (Suc i)) (\<lambda>bs.
               Inr (\<lparr>br_grpno = grp_grpno g, br_cd = 0, br_result = 0\<rparr> # bs)))
      else branches_from m t n (Suc i))"

definition collect_branches :: "mibmem \<Rightarrow> xid \<Rightarrow> branch list except" where
  "collect_branches m x =
     bind_except (trx_find (transactions m) x) (\<lambda>i.
       bind_except (trx_get (transactions m) i) (\<lambda>t.
         branches_from m t (max_groups (transactions m)) 0))"

text \<open>The vote: the branches of the second phase, and whether all of them can commit.\<close>

fun second_phase :: "branch list \<Rightarrow> branch list \<times> bool" where
  "second_phase [] = ([], True)"
| "second_phase (p # ps) =
     (case second_phase ps of
        (bs, ok) \<Rightarrow>
          if br_result p = XA_RDONLY then (bs, ok)
          else (p # bs, ok \<and> br_result p = XA_OK))"

definition finish :: "'r xa_switch \<Rightarrow> 'n tm_net \<Rightarrow> xid \<Rightarrow> branch list \<Rightarrow> ('r, 'n) tx_world \<Rightarrow> ('r, 'n, int) tx_result" where
  "finish sw net x branches1 w =
     (case second_phase branches1 of
        (branches2, ok) \<Rightarrow>
          if ok then seqx (command net commit x branches2 w) (\<lambda>_ w. change_state sw TX_OK w)
          else seqx (command net rollback x branches2 w) (\<lambda>_ w. change_state sw TX_FAIL w))"

text \<open>The identifier the local \<open>TXINFO\<close> holds when \<open>_tx_end\<close> returned \<open>TX_OK\<close>.\<close>

definition ended_xid :: "txinfo option \<Rightarrow> xid" where
  "ended_xid info = (case info of Some i \<Rightarrow> ti_xid i | None \<Rightarrow> zero_xid)"

definition tx_commit :: "'r xa_switch \<Rightarrow> 'n tm_net \<Rightarrow> ('r, 'n) tx_world \<Rightarrow> ('r, 'n, int) tx_result" where
  "tx_commit sw net w =
     seqx (tx_end_info sw w) (\<lambda>(rc, info) w.
       if rc \<noteq> TX_OK then (Inr rc, w)
       else
         let x = ended_xid info in
         case collect_branches (tx_mib w) x of
           Inl e \<Rightarrow> (Inl (Throw e), w)
         | Inr bs \<Rightarrow> seqx (command net prepare x bs w) (\<lambda>bs w. finish sw net x bs w))"

definition tx_rollback :: "'r xa_switch \<Rightarrow> 'n tm_net \<Rightarrow> ('r, 'n) tx_world \<Rightarrow> ('r, 'n, int) tx_result" where
  "tx_rollback sw net w =
     seqx (tx_end_info sw w) (\<lambda>(rc, info) w.
       if rc \<noteq> TX_OK then (Inr rc, w)
       else
         let x = ended_xid info in
         case collect_branches (tx_mib w) x of
           Inl e \<Rightarrow> (Inl (Throw e), w)
         | Inr bs \<Rightarrow> seqx (command net rollback x bs w) (\<lambda>_ w. change_state sw TX_OK w))"

subsection \<open>The transaction manager's service\<close>

text \<open>
  \<open>tm\<close>: the request's function code, identifier text, group and flags, on the resource manager
  of the group. Function codes other than the three are refused.
\<close>

definition xa_func_of :: "int \<Rightarrow> xa_func option" where
  "xa_func_of k = (if k = 0 then Some prepare else if k = 1 then Some commit else if k = 2 then Some rollback else None)"

definition func_code :: "xa_func \<Rightarrow> int" where
  "func_code f = (case f of prepare \<Rightarrow> 0 | commit \<Rightarrow> 1 | rollback \<Rightarrow> 2)"

definition tm ::
    "'r xa_switch \<Rightarrow> int \<Rightarrow> byte list \<Rightarrow> nat \<Rightarrow> int \<Rightarrow> (nat \<Rightarrow> byte) \<Rightarrow> 'r \<Rightarrow> (stop + int) \<times> 'r" where
  "tm sw func xids rmid flags junk r =
     (case to_xid xids junk of
        None \<Rightarrow> (Inl Undefined, r)
      | Some (Inl e) \<Rightarrow> (Inl (Throw e), r)
      | Some (Inr x) \<Rightarrow>
          (case xa_func_of func of
             Some prepare \<Rightarrow> (case xa_prepare_entry sw x rmid flags r of (ret, r) \<Rightarrow> (Inr ret, r))
           | Some commit \<Rightarrow> (case xa_commit_entry sw x rmid flags r of (ret, r) \<Rightarrow> (Inr ret, r))
           | Some rollback \<Rightarrow> (case xa_rollback_entry sw x rmid flags r of (ret, r) \<Rightarrow> (Inr ret, r))
           | None \<Rightarrow> (Inr XAER_INVAL, r)))"

end
