(* ===== verification/Tx_Props.thy ===== *)
theory Tx_Props
  imports Tx
begin

text \<open>
  The TX state machine: its steps, its reachable states and what holds in them. The locale
  \<open>resource_manager\<close> is what the thread's side relies on of the switch; the null resource
  manager of the repository satisfies it.
\<close>

subsection \<open>The contract of a resource manager\<close>

locale resource_manager =
  fixes sw :: "'r xa_switch"
  assumes start_ok: "fst (xa_start_entry sw x g f r) = XA_OK"
    and end_ok: "fst (xa_end_entry sw x g f r) = XA_OK"

interpretation null_rm: resource_manager tmnull_switch
  by unfold_locales (simp_all add: tmnull_switch_def)

subsection \<open>Calls and steps\<close>

datatype tx_call =
  Open | Close | Begin | Commit | Rollback | Suspend | Resume xid |
  Set_return int | Set_control int | Set_timeout int

text \<open>
  A call that returns a code. A suspended transaction is resumed by the identifier it was
  suspended with, which is not null.
\<close>

inductive tx_step ::
    "'r xa_switch \<Rightarrow> 'n tm_net \<Rightarrow> ('r, 'n) tx_world \<Rightarrow> tx_call \<Rightarrow> int \<Rightarrow> ('r, 'n) tx_world \<Rightarrow> bool"
  for sw net where
  Step_Open: "tx_open sw w = (Inr rc, w') \<Longrightarrow> tx_step sw net w Open rc w'"
| Step_Close: "tx_close sw w = (Inr rc, w') \<Longrightarrow> tx_step sw net w Close rc w'"
| Step_Begin: "tx_begin sw w = (Inr rc, w') \<Longrightarrow> tx_step sw net w Begin rc w'"
| Step_Commit: "tx_commit sw net w = (Inr rc, w') \<Longrightarrow> tx_step sw net w Commit rc w'"
| Step_Rollback: "tx_rollback sw net w = (Inr rc, w') \<Longrightarrow> tx_step sw net w Rollback rc w'"
| Step_Suspend: "tx_suspend sw True w = ((rc, info), w') \<Longrightarrow> tx_step sw net w Suspend rc w'"
| Step_Resume: "formatID x \<noteq> -1 \<Longrightarrow> tx_resume sw (Some x) w = (rc, w') \<Longrightarrow> tx_step sw net w (Resume x) rc w'"
| Step_Set_return: "tx_set_commit_return v w = (rc, w') \<Longrightarrow> tx_step sw net w (Set_return v) rc w'"
| Step_Set_control: "tx_set_transaction_control v w = (rc, w') \<Longrightarrow> tx_step sw net w (Set_control v) rc w'"
| Step_Set_timeout: "tx_set_transaction_timeout v w = (rc, w') \<Longrightarrow> tx_step sw net w (Set_timeout v) rc w'"

inductive tx_reach ::
    "'r xa_switch \<Rightarrow> 'n tm_net \<Rightarrow> ('r, 'n) tx_world \<Rightarrow> ('r, 'n) tx_world \<Rightarrow> bool"
  for sw net w0 where
  Reach_start: "tx_reach sw net w0 w0"
| Reach_step: "tx_reach sw net w0 w \<Longrightarrow> tx_step sw net w c rc w' \<Longrightarrow> tx_reach sw net w0 w'"

inductive_cases tx_beginE: "tx_step sw net w Begin rc w'"
inductive_cases tx_commitE: "tx_step sw net w Commit rc w'"

definition in_trx :: "tx_state \<Rightarrow> bool" where
  "in_trx s \<longleftrightarrow> s = s3 \<or> s = s4"

text \<open>The thread remembers an identifier exactly while it is in a transaction.\<close>

definition tx_inv :: "('r, 'n) tx_world \<Rightarrow> bool" where
  "tx_inv w \<longleftrightarrow> (transactional w \<longleftrightarrow> in_trx (tx_st w))"

lemma tx_inv_update [simp]:
  "tx_inv (w\<lparr>tx_net := n\<rparr>) = tx_inv w" "tx_inv (w\<lparr>tx_rm := r\<rparr>) = tx_inv w"
  "tx_inv (w\<lparr>tx_mib := m\<rparr>) = tx_inv w" "tx_inv (w\<lparr>tx_gttid := i\<rparr>) = tx_inv w"
  by (simp_all add: tx_inv_def transactional_def)

lemma notrx_simps [simp]:
  "tx_st (notrx w) = tx_st w" "transactional (notrx w) = False" "tx_mib (notrx w) = tx_mib w"
  "tx_grpidx (notrx w) = tx_grpidx w" "tx_grpno (notrx w) = tx_grpno w" "tx_rm (notrx w) = tx_rm w"
  "tx_net (notrx w) = tx_net w" "clock_sec (notrx w) = clock_sec w" "stack_junk (notrx w) = stack_junk w"
  by (simp_all add: notrx_def transactional_def)

lemma command_world: "command net f x ps w = (r, w') \<Longrightarrow> \<exists>n. w' = w\<lparr>tx_net := n\<rparr>"
  by (auto simp: command_def split: prod.splits option.splits sum.splits)

lemma command_inv: "command net f x ps w = (r, w') \<Longrightarrow> tx_inv w' = tx_inv w"
  using command_world by fastforce

lemma new_xid_format [simp]: "formatID (new_xid uid j) = 1"
  by (simp add: new_xid_def)

context resource_manager
begin

lemma start_flags_cases:
  assumes "tx_start_flags sw x f w = (rc, w')"
  shows "if tx_st w = s1 \<or> tx_st w = s2
         then rc = TX_OK \<and> tx_st w' = (if tx_st w = s1 then s3 else s4) \<and>
              ti_xid (tx_inf w') = (case x of None \<Rightarrow> ti_xid (tx_inf w) | Some x \<Rightarrow> x) \<and>
              tx_mib w' = tx_mib w \<and> tx_gttid w' = tx_gttid w \<and> tx_net w' = tx_net w
         else rc = TX_PROTOCOL_ERROR \<and> w' = w"
proof (cases "tx_st w = s1 \<or> tx_st w = s2")
  case True
  let ?w = "case x of None \<Rightarrow> w | Some x \<Rightarrow> w\<lparr>tx_inf := (tx_inf w)\<lparr>ti_xid := x\<rparr>\<rparr>"
  obtain r where "xa_start_entry sw (ti_xid (tx_inf ?w)) (tx_grpno ?w) f (tx_rm ?w) = (0, r)"
    using start_ok by (metis prod.collapse)
  then show ?thesis using True assms by (cases x) (auto simp: tx_start_flags_def Let_def)
next
  case False
  then show ?thesis using assms by (simp add: tx_start_flags_def)
qed

lemma start_flags_inv:
  "tx_inv w \<Longrightarrow> formatID x \<noteq> -1 \<Longrightarrow> tx_start_flags sw (Some x) f w = (rc, w') \<Longrightarrow> tx_inv w'"
  using start_flags_cases [of "Some x" f w rc w']
  by (auto simp: tx_inv_def transactional_def in_trx_def split: if_splits)

lemma begin_inv: "tx_inv w \<Longrightarrow> tx_begin sw w = (r, w') \<Longrightarrow> tx_inv w'"
  by (auto simp: tx_begin_def Let_def split: option.splits prod.splits sum.splits
      dest!: start_flags_inv [rotated 2])

text \<open>\<open>_tx_end\<close> forgets the transaction and leaves it: between the two the invariant does not hold.\<close>

lemma leave_inv: "\<not> transactional w \<Longrightarrow> change_state sw TX_OK w = (r, w') \<Longrightarrow> tx_inv w'"
proof -
  assume no: "\<not> transactional w" and run: "change_state sw 0 w = (r, w')"
  show "tx_inv w'"
  proof (cases "tx_st w = s4")
    case True
    then have "tx_begin sw (w\<lparr>tx_st := s2\<rparr>) = (r, w')" using run by (simp add: change_state_def tx_set1_def)
    then show ?thesis using no by (rule_tac begin_inv) (simp_all add: tx_inv_def transactional_def in_trx_def)
  next
    case False
    then show ?thesis using run no
      by (auto simp: change_state_def tx_set1_def tx_inv_def transactional_def in_trx_def split: if_splits)
  qed
qed

lemma end_info_inv:
  assumes "tx_inv w" "tx_end_info sw w = (r, w')"
  shows "tx_inv w'"
proof (cases "in_trx (tx_st w)")
  case True
  obtain r1 where "xa_end_entry sw (ti_xid (tx_inf w)) (tx_grpno w) 0x04000000 (tx_rm w) = (0, r1)"
    using end_ok by (metis prod.collapse)
  then have "tx_end_flags sw True 0x04000000 w = ((0, Some (tx_inf w)), notrx (w\<lparr>tx_rm := r1\<rparr>))"
    using True by (simp add: tx_end_flags_def in_trx_def)
  then have "\<exists>r'. change_state sw 0 (notrx (w\<lparr>tx_rm := r1\<rparr>)) = (r', w')"
    using assms(2) by (cases "change_state sw 0 (notrx (w\<lparr>tx_rm := r1\<rparr>))")
      (auto simp: tx_end_info_def seqx_def split: sum.splits)
  then obtain r' where "change_state sw 0 (notrx (w\<lparr>tx_rm := r1\<rparr>)) = (r', w')" by blast
  then show ?thesis by (rule leave_inv [rotated]) simp
next
  case False
  then have "w' = w"
    using assms(2) by (auto simp: tx_end_info_def tx_end_flags_def in_trx_def change_state_def tx_set1_def tx_set2_def)
  then show ?thesis using assms(1) by simp
qed

lemma begin_success:
  assumes "tx_begin sw w = (Inr rc, w')" "tx_st w = s1 \<or> tx_st w = s2"
  shows "rc = TX_OK \<and> tx_st w' = (if tx_st w = s1 then s3 else s4) \<and> transactional w' \<and> tx_inv w'"
proof -
  obtain x f w1 where "tx_start_flags sw (Some x) f w1 = (rc, w')" "formatID x = 1" "tx_st w1 = tx_st w"
    using assms(1) by (auto simp: tx_begin_def Let_def split: option.splits prod.splits sum.splits)
  then show ?thesis using start_flags_cases [of "Some x" f w1 rc w'] assms(2)
    by (auto simp: tx_inv_def transactional_def in_trx_def split: if_splits)
qed

lemma change_inv:
  assumes "tx_inv w" "change_state sw rc w = (Inr r, w')" "rc = TX_OK \<and> tx_st w \<noteq> s3 \<or> rc = TX_FAIL"
  shows "tx_inv w'"
proof (cases "rc = TX_OK \<and> tx_st w = s4")
  case True
  then have "tx_begin sw (w\<lparr>tx_st := s2\<rparr>) = (Inr r, w')" using assms(2) by (simp add: change_state_def tx_set1_def)
  then show ?thesis using begin_success by fastforce
next
  case False
  then show ?thesis using assms by (auto simp: change_state_def tx_set1_def tx_set2_def split: if_splits)
qed

lemma end_info_state:
  assumes "tx_end_info sw w = (Inr (TX_OK, info), w')"
  shows "tx_st w' \<noteq> s3"
proof -
  have st: "tx_st (snd (tx_end_flags sw True f w)) = tx_st w" for f
    by (simp add: tx_end_flags_def Let_def split: prod.split)
  obtain rc i w1 where e: "tx_end_flags sw True TMSUCCESS w = ((rc, i), w1)"
    by (cases "tx_end_flags sw True TMSUCCESS w") auto
  obtain r where c: "change_state sw rc w1 = (Inr TX_OK, w')" "tx_st w1 = tx_st w"
    using assms e st [of TMSUCCESS] by (auto simp: tx_end_info_def seqx_def split: sum.splits prod.splits)
  then show ?thesis
    using begin_success [of "w1\<lparr>tx_st := s2\<rparr>" TX_OK w']
    by (auto simp: change_state_def tx_set1_def tx_set2_def split: if_splits)
qed

lemma finish_inv:
  assumes "tx_inv w" "tx_st w \<noteq> s3" "finish sw net x bs w = (Inr rc, w')"
  shows "tx_inv w'"
proof -
  obtain f w1 c where "command net f x (fst (second_phase bs)) w = (Inr c, w1)"
    "change_state sw (if snd (second_phase bs) then TX_OK else TX_FAIL) w1 = (Inr rc, w')"
    using assms(3) by (auto simp: finish_def seqx_def split: prod.splits if_splits sum.splits)
  moreover obtain n where "w1 = w\<lparr>tx_net := n\<rparr>" using command_world [OF calculation(1)] by blast
  ultimately show ?thesis
    using change_inv [of w1 _ rc w'] assms(1,2) by (auto split: if_splits)
qed

lemma commit_inv:
  assumes "tx_inv w" "tx_commit sw net w = (Inr rc, w')"
  shows "tx_inv w'"
proof -
  obtain r info w1 where e: "tx_end_info sw w = (Inr (r, info), w1)"
    using assms(2) by (auto simp: tx_commit_def seqx_def split: prod.splits sum.splits)
  have i1: "tx_inv w1" by (rule end_info_inv [OF assms(1) e])
  show ?thesis
  proof (cases "r = TX_OK")
    case False
    then show ?thesis using e assms(2) i1 by (simp add: tx_commit_def)
  next
    case True
    then have st: "tx_st w1 \<noteq> s3" using end_info_state e by blast
    obtain x f bs bs' w2 where c: "command net f x bs w1 = (Inr bs', w2)" and fin: "finish sw net x bs' w2 = (Inr rc, w')"
      using e assms(2) True by (auto simp: tx_commit_def Let_def seqx_def split: sum.splits prod.splits)
    obtain n where "w2 = w1\<lparr>tx_net := n\<rparr>" using command_world [OF c] by blast
    then show ?thesis using finish_inv [of w2] fin i1 st by simp
  qed
qed

lemma rollback_inv:
  assumes "tx_inv w" "tx_rollback sw net w = (Inr rc, w')"
  shows "tx_inv w'"
proof -
  obtain r info w1 where e: "tx_end_info sw w = (Inr (r, info), w1)"
    using assms(2) by (auto simp: tx_rollback_def seqx_def split: prod.splits sum.splits)
  have i1: "tx_inv w1" by (rule end_info_inv [OF assms(1) e])
  show ?thesis
  proof (cases "r = TX_OK")
    case False
    then show ?thesis using e assms(2) i1 by (simp add: tx_rollback_def)
  next
    case True
    then have st: "tx_st w1 \<noteq> s3" using end_info_state e by blast
    obtain x f bs bs' w2 where c: "command net f x bs w1 = (Inr bs', w2)" and fin: "change_state sw TX_OK w2 = (Inr rc, w')"
      using e assms(2) True by (auto simp: tx_rollback_def Let_def seqx_def split: sum.splits prod.splits)
    obtain n where "w2 = w1\<lparr>tx_net := n\<rparr>" using command_world [OF c] by blast
    then show ?thesis using change_inv [of w2] fin i1 st by simp
  qed
qed

lemma suspend_inv: "tx_inv w \<Longrightarrow> tx_suspend sw True w = ((rc, info), w') \<Longrightarrow> tx_inv w'"
proof -
  assume i: "tx_inv w" and run: "tx_suspend sw True w = ((rc, info), w')"
  obtain r where "xa_end_entry sw (ti_xid (tx_inf w)) (tx_grpno w) TMSUSPEND (tx_rm w) = (0, r)"
    using end_ok by (metis prod.collapse)
  then show ?thesis using i run
    by (auto simp: tx_suspend_def tx_end_flags_def Let_def tx_inv_def in_trx_def transactional_def notrx_def
        split: if_splits)
qed

lemma step_inv: "tx_step sw net w c rc w' \<Longrightarrow> tx_inv w \<Longrightarrow> tx_inv w'"
proof (induction rule: tx_step.induct)
  case (Step_Open w rc w')
  then show ?case
    by (auto simp: tx_open_def Let_def tx_inv_def in_trx_def transactional_def notrx_def
        split: option.splits prod.splits if_splits)
next
  case (Step_Close w rc w')
  then show ?case
    by (auto simp: tx_close_def Let_def tx_inv_def in_trx_def transactional_def
        split: option.splits prod.splits if_splits)
next
  case (Step_Resume x w rc w')
  then show ?case using start_flags_inv by (auto simp: tx_resume_def)
next
  case (Step_Set_control v w rc w')
  then show ?case
    by (auto simp: tx_set_transaction_control_def Let_def tx_inv_def in_trx_def transactional_def split: if_splits)
next
  case (Step_Set_return v w rc w')
  then show ?case by (auto simp: tx_set_commit_return_def tx_inv_def transactional_def split: if_splits)
next
  case (Step_Set_timeout v w rc w')
  then show ?case by (auto simp: tx_set_transaction_timeout_def tx_inv_def transactional_def split: if_splits)
qed (blast intro: begin_inv commit_inv rollback_inv suspend_inv)+

lemma reach_inv: "tx_reach sw net w0 w \<Longrightarrow> tx_inv w0 \<Longrightarrow> tx_inv w"
  by (induction rule: tx_reach.induct) (auto intro: step_inv)

end

end
