(* ===== verification/Tpc.thy ===== *)
theory Tpc
  imports Tx_Props
begin

text \<open>
  Two-phase commit: \<open>tx_commit\<close> and \<open>tx_rollback\<close> of src/tx.cpp over the network to the
  transaction managers. The locale \<open>tm_network\<close> is what \<open>command\<close> relies on of that network:
  every request gets a fresh descriptor and is answered once, in order. It is interpreted on
  \<open>sync_net\<close>, in which the \<open>tm\<close> service of the repository answers each request on the resource
  manager of its group.
\<close>

subsection \<open>The contract\<close>

locale tm_network =
  fixes net :: "'n tm_net"
    and owed :: "'n \<Rightarrow> (int \<times> int) list"
    and answer :: "'n \<Rightarrow> nat \<Rightarrow> xa_func \<Rightarrow> byte list \<Rightarrow> int"
    and sent :: "'n \<Rightarrow> (nat \<times> xa_func \<times> byte list) list"
    and good :: "byte list \<Rightarrow> 'n \<Rightarrow> bool"
  assumes call_ok:
      "good x n \<Longrightarrow> \<exists>cd n'. net_call net g f x n = (cd, n') \<and> cd \<noteq> -1 \<and> cd \<notin> fst ` set (owed n) \<and>
         owed n' = owed n @ [(cd, answer n g f x)] \<and> good x n' \<and> sent n' = sent n @ [(g, f, x)] \<and>
         (\<forall>h f'. h \<noteq> g \<longrightarrow> answer n' h f' x = answer n h f' x)"
    and reply_ok:
      "good x n \<Longrightarrow> owed n = (cd, r) # rest \<Longrightarrow>
         \<exists>n'. net_reply net n = ((cd, Some r), n') \<and> owed n' = rest \<and> good x n' \<and> sent n' = sent n"
begin

lemma send_all_ok:
  assumes "good x n" "distinct (map br_grpno ps)"
  shows "\<exists>qs n'. send_all net f x ps n = ((qs, int (length ps)), n') \<and> good x n' \<and>
           map br_grpno qs = map br_grpno ps \<and>
           owed n' = owed n @ map (\<lambda>p. (br_cd p, answer n (br_grpno p) f x)) qs \<and>
           distinct (map br_cd qs) \<and> set (map br_cd qs) \<inter> fst ` set (owed n) = {} \<and>
           sent n' = sent n @ map (\<lambda>p. (br_grpno p, f, x)) ps"
  using assms
proof (induction ps arbitrary: n)
  case Nil
  then show ?case by simp
next
  case (Cons p ps)
  obtain cd n1 where c: "net_call net (br_grpno p) f x n = (cd, n1)" "cd \<noteq> -1" "cd \<notin> fst ` set (owed n)"
    "owed n1 = owed n @ [(cd, answer n (br_grpno p) f x)]" "good x n1" "sent n1 = sent n @ [(br_grpno p, f, x)]"
    "\<And>h f'. h \<noteq> br_grpno p \<Longrightarrow> answer n1 h f' x = answer n h f' x"
    using call_ok [OF Cons.prems(1), of "br_grpno p" f] by blast
  obtain qs n2 where q: "send_all net f x ps n1 = ((qs, int (length ps)), n2)" "good x n2"
    "map br_grpno qs = map br_grpno ps"
    "owed n2 = owed n1 @ map (\<lambda>p. (br_cd p, answer n1 (br_grpno p) f x)) qs"
    "distinct (map br_cd qs)" "set (map br_cd qs) \<inter> fst ` set (owed n1) = {}"
    "sent n2 = sent n1 @ map (\<lambda>p. (br_grpno p, f, x)) ps"
    using Cons.IH [OF c(5)] Cons.prems(2) by auto
  have "answer n1 (br_grpno r) f x = answer n (br_grpno r) f x" if "r \<in> set qs" for r
  proof (rule c(7))
    have "br_grpno r \<in> set (map br_grpno ps)" unfolding q(3) [symmetric] using that by simp
    then show "br_grpno r \<noteq> br_grpno p" using Cons.prems(2) by auto
  qed
  then have "map (\<lambda>p. (br_cd p, answer n1 (br_grpno p) f x)) qs =
             map (\<lambda>p. (br_cd p, answer n (br_grpno p) f x)) qs" by simp
  then show ?case using c q by (intro exI [of _ "p\<lparr>br_cd := cd\<rparr> # qs"] exI [of _ n2]) auto
qed

lemma receive_ok:
  assumes "good x n" "owed n = map (\<lambda>p. (br_cd p, a (br_grpno p))) todo" "distinct (map br_cd (got @ todo))"
  shows "\<exists>n'. receive net (got @ todo) (int (length todo)) n =
             Some (Inr (got @ map (\<lambda>p. p\<lparr>br_result := a (br_grpno p)\<rparr>) todo), n') \<and>
           good x n' \<and> owed n' = [] \<and> sent n' = sent n"
  using assms
proof (induction todo arbitrary: got n)
  case Nil
  then show ?case by (subst receive.simps) simp
next
  case (Cons p todo)
  obtain n1 where r: "net_reply net n = ((br_cd p, Some (a (br_grpno p))), n1)"
    "owed n1 = map (\<lambda>p. (br_cd p, a (br_grpno p))) todo" "good x n1" "sent n1 = sent n"
    using reply_ok [OF Cons.prems(1), of "br_cd p" "a (br_grpno p)"] Cons.prems(2) by auto
  let ?p = "p\<lparr>br_result := a (br_grpno p)\<rparr>"
  have other: "br_cd q \<noteq> br_cd p" if "q \<in> set got \<or> q \<in> set todo" for q
    using Cons.prems(3) that by (auto simp: image_iff)
  then have "filter (\<lambda>q. br_cd q = br_cd p) (got @ p # todo) = [p]"
    by (simp add: filter_empty_conv)
  moreover have "map (\<lambda>q. if br_cd q = br_cd p then q\<lparr>br_result := a (br_grpno p)\<rparr> else q) (got @ p # todo) =
      (got @ [?p]) @ todo"
    using other by (simp add: map_idI)
  ultimately have step: "receive net (got @ p # todo) (int (length (p # todo))) n =
      receive net ((got @ [?p]) @ todo) (int (length todo)) n1"
    using r(1) by (subst receive.simps) simp
  have "distinct (map br_cd ((got @ [?p]) @ todo))" using Cons.prems(3) by auto
  from Cons.IH [OF r(3,2) this] show ?case using step r(4) by simp
qed

lemma command_ok:
  assumes "good (xid_to_string x) (tx_net w)" "owed (tx_net w) = []" "distinct (map br_grpno ps)"
  shows "\<exists>qs n. command net f x ps w = (Inr qs, w\<lparr>tx_net := n\<rparr>) \<and>
           map (\<lambda>p. (br_grpno p, br_result p)) qs =
             map (\<lambda>p. (br_grpno p, answer (tx_net w) (br_grpno p) f (xid_to_string x))) ps \<and>
           good (xid_to_string x) n \<and> owed n = [] \<and>
           sent n = sent (tx_net w) @ map (\<lambda>p. (br_grpno p, f, xid_to_string x)) ps"
proof -
  let ?s = "xid_to_string x" and ?a = "\<lambda>g. answer (tx_net w) g f (xid_to_string x)"
  obtain qs n1 where q: "send_all net f ?s ps (tx_net w) = ((qs, int (length ps)), n1)" "good ?s n1"
    "map br_grpno qs = map br_grpno ps" "owed n1 = map (\<lambda>p. (br_cd p, ?a (br_grpno p))) qs"
    "distinct (map br_cd qs)" "sent n1 = sent (tx_net w) @ map (\<lambda>p. (br_grpno p, f, ?s)) ps"
    using send_all_ok [OF assms(1,3), of f] assms(2) by auto
  have len: "length ps = length qs" using q(3) by (metis length_map)
  obtain n2 where n2: "receive net qs (int (length ps)) n1 =
      Some (Inr (map (\<lambda>p. p\<lparr>br_result := ?a (br_grpno p)\<rparr>) qs), n2)" "good ?s n2" "owed n2 = []" "sent n2 = sent n1"
    using receive_ok [OF q(2,4), of "[]"] q(5) len by auto
  have "map (\<lambda>p. (br_grpno p, br_result p)) (map (\<lambda>p. p\<lparr>br_result := ?a (br_grpno p)\<rparr>) qs) =
        map (\<lambda>g. (g, ?a g)) (map br_grpno qs)" by simp
  also have "\<dots> = map (\<lambda>p. (br_grpno p, ?a (br_grpno p))) ps" by (simp add: q(3))
  finally show ?thesis using q n2
    by (intro exI [of _ "map (\<lambda>p. p\<lparr>br_result := ?a (br_grpno p)\<rparr>) qs"] exI [of _ n2]) (simp add: command_def)
qed

end

text \<open>The branches that still take part in the second phase, and the outcome of the vote.\<close>

lemma second_phase_eq:
  "second_phase ps = (filter (\<lambda>p. br_result p \<noteq> XA_RDONLY) ps,
                      \<forall>p \<in> set ps. br_result p = XA_RDONLY \<or> br_result p = XA_OK)"
  by (induction ps) auto

lemma branches_grpnos:
  assumes "arr_ok (groups m)" "\<forall>j < i + n. trx_groups t ! j > 0 \<longrightarrow> j < arr_len (groups m)"
    and "distinct (map grp_grpno (used (groups m)))"
  shows "\<exists>bs. branches_from m t n i = Inr bs \<and> distinct (map br_grpno bs) \<and>
           set (map br_grpno bs) = {grp_grpno (used (groups m) ! j) |j. i \<le> j \<and> j < i + n \<and> trx_groups t ! j > 0}"
  using assms(2)
proof (induction n arbitrary: i)
  case 0
  then show ?case by simp
next
  case (Suc n)
  let ?g = "\<lambda>j. grp_grpno (used (groups m) ! j)"
  obtain bs where bs: "branches_from m t n (Suc i) = Inr bs" "distinct (map br_grpno bs)"
    "set (map br_grpno bs) = {?g j |j. Suc i \<le> j \<and> j < Suc i + n \<and> trx_groups t ! j > 0}"
    using Suc.IH [of "Suc i"] Suc.prems by auto
  have at: "trx_groups t ! i > 0 \<Longrightarrow> arr_at (groups m) i = Inr (used (groups m) ! i)"
    using arr_at_used [OF assms(1)] Suc.prems by simp
  have new: "?g i \<noteq> ?g j"
    if "Suc i \<le> j" "j < Suc i + n" "trx_groups t ! i > 0" "trx_groups t ! j > 0" for j
    using assms(1) that Suc.prems nth_eq_iff_index_eq [OF assms(3), of i j] by simp
  have split: "{?g j |j. i \<le> j \<and> j < i + Suc n \<and> trx_groups t ! j > 0} =
      (if trx_groups t ! i > 0 then {?g i} else {}) \<union> {?g j |j. Suc i \<le> j \<and> j < Suc i + n \<and> trx_groups t ! j > 0}"
    by (auto simp: le_eq_less_or_eq Suc_le_eq)
  show ?case
  proof (cases "trx_groups t ! i > 0")
    case True
    have "?g i \<notin> set (map br_grpno bs)" unfolding bs(3) using new True by auto
    then show ?thesis using True bs at [OF True] unfolding split by simp
  next
    case False
    then show ?thesis using bs unfolding split by simp
  qed
qed

lemma collect_joined:
  assumes "mib_ok m" "table_ok (transactions m)" "distinct (map grp_grpno (used (groups m)))"
    and "trx_find (transactions m) x = Inr i" "i < tlen (transactions m)"
    and "\<forall>j < max_groups (transactions m). trx_groups (entries (transactions m) ! i) ! j > 0 \<longrightarrow> j < arr_len (groups m)"
  shows "\<exists>bs. collect_branches m x = Inr bs \<and> distinct (map br_grpno bs) \<and>
           set (map br_grpno bs) = {grp_grpno (used (groups m) ! j) |j. j < max_groups (transactions m) \<and>
             trx_groups (entries (transactions m) ! i) ! j > 0}"
proof -
  have "trx_get (transactions m) i = Inr (entries (transactions m) ! i)"
    using assms(2,5) by (simp add: trx_get_def table_ok_def)
  then show ?thesis
    using branches_grpnos [OF mib_ok_arrays(6) [OF assms(1)], of 0 "max_groups (transactions m)"
        "entries (transactions m) ! i"] assms(3,4,6)
    by (simp add: collect_branches_def)
qed

lemma trx_find_hit:
  assumes "table_ok t" "trx_find t x = Inr i"
  shows "i < tlen t \<and> xid_eq (trx_xid (entries t ! i)) x"
  using assms by (auto simp: trx_find_def scan_live search_Some live_nth split: option.splits)

subsection \<open>The coordinator\<close>

locale coordinator = resource_manager sw + tm_network net owed answer sent good
  for sw :: "'r xa_switch" and net :: "'n tm_net" and owed and answer and sent and good
begin

lemma end_info_unchained:
  assumes "tx_st w = s3"
  shows "\<exists>w'. tx_end_info sw w = (Inr (TX_OK, Some (tx_inf w)), w') \<and> tx_st w' = s1 \<and> \<not> transactional w' \<and>
           tx_mib w' = tx_mib w \<and> tx_net w' = tx_net w"
proof -
  obtain r1 where "xa_end_entry sw (ti_xid (tx_inf w)) (tx_grpno w) TMSUCCESS (tx_rm w) = (0, r1)"
    using end_ok by (metis prod.collapse)
  then have "tx_end_flags sw True TMSUCCESS w = ((TX_OK, Some (tx_inf w)), notrx (w\<lparr>tx_rm := r1\<rparr>))"
    using assms by (simp add: tx_end_flags_def)
  then have "tx_end_info sw w = (Inr (TX_OK, Some (tx_inf w)), (notrx (w\<lparr>tx_rm := r1\<rparr>))\<lparr>tx_st := s1\<rparr>)"
    using assms by (simp add: tx_end_info_def change_state_def tx_set1_def)
  then show ?thesis by (simp add: transactional_def notrx_def)
qed

text \<open>The two rounds, from any state of the thread: the votes, then \<open>change_state\<close>.\<close>

lemma rounds:
  assumes "good xs (tx_net w)" "owed (tx_net w) = []"
    and x: "xs = xid_to_string x" and bs: "distinct (map br_grpno bs)"
  defines "a \<equiv> \<lambda>p. answer (tx_net w) (br_grpno p) prepare xs"
  defines "yes \<equiv> \<forall>p \<in> set bs. a p = XA_RDONLY \<or> a p = XA_OK"
  shows "\<exists>n. seqx (command net prepare x bs w) (\<lambda>bs w. finish sw net x bs w) =
               change_state sw (if yes then TX_OK else TX_FAIL) (w\<lparr>tx_net := n\<rparr>) \<and>
             sent n = sent (tx_net w) @ map (\<lambda>p. (br_grpno p, prepare, xs)) bs @
               map (\<lambda>p. (br_grpno p, if yes then commit else rollback, xs)) (filter (\<lambda>p. a p \<noteq> XA_RDONLY) bs)"
proof -
  have pre: "good (xid_to_string x) (tx_net w)" "owed (tx_net w) = []" using assms(1,2) x by simp_all
  obtain qs n where q: "command net prepare x bs w = (Inr qs, w\<lparr>tx_net := n\<rparr>)"
    "map (\<lambda>p. (br_grpno p, br_result p)) qs = map (\<lambda>p. (br_grpno p, a p)) bs"
    "good xs n" "owed n = []" "sent n = sent (tx_net w) @ map (\<lambda>p. (br_grpno p, prepare, xs)) bs"
    using command_ok [OF pre bs, of prepare] unfolding a_def x by blast
  let ?live = "filter (\<lambda>p. br_result p \<noteq> XA_RDONLY) qs"
  have res: "map br_grpno ?live = map br_grpno (filter (\<lambda>p. a p \<noteq> XA_RDONLY) bs)"
    "(\<forall>p \<in> set qs. br_result p = XA_RDONLY \<or> br_result p = XA_OK) \<longleftrightarrow> yes"
  proof -
    have "map br_grpno ?live = map fst (filter (\<lambda>t. snd t \<noteq> XA_RDONLY) (map (\<lambda>p. (br_grpno p, br_result p)) qs))"
      by (simp add: filter_map comp_def)
    also have "\<dots> = map br_grpno (filter (\<lambda>p. a p \<noteq> XA_RDONLY) bs)"
      unfolding q(2) by (simp add: filter_map comp_def)
    finally show "map br_grpno ?live = map br_grpno (filter (\<lambda>p. a p \<noteq> XA_RDONLY) bs)" .
    have "(\<forall>p \<in> set qs. br_result p = XA_RDONLY \<or> br_result p = XA_OK) \<longleftrightarrow>
          (\<forall>t \<in> set (map (\<lambda>p. (br_grpno p, br_result p)) qs). snd t = XA_RDONLY \<or> snd t = XA_OK)" by simp
    also have "\<dots> \<longleftrightarrow> yes" unfolding q(2) yes_def by simp
    finally show "(\<forall>p \<in> set qs. br_result p = XA_RDONLY \<or> br_result p = XA_OK) \<longleftrightarrow> yes" .
  qed
  have "distinct (map br_grpno ?live)" unfolding res(1) using bs by (rule distinct_map_filter)
  moreover have "good (xid_to_string x) (tx_net (w\<lparr>tx_net := n\<rparr>))" "owed (tx_net (w\<lparr>tx_net := n\<rparr>)) = []"
    using q(3,4) x by simp_all
  ultimately obtain qs' n' where q': "command net (if yes then commit else rollback) x ?live (w\<lparr>tx_net := n\<rparr>) =
      (Inr qs', w\<lparr>tx_net := n'\<rparr>)"
    "sent n' = sent n @ map (\<lambda>p. (br_grpno p, if yes then commit else rollback, xs)) ?live"
    using command_ok [of x "w\<lparr>tx_net := n\<rparr>" ?live "if yes then commit else rollback"] x by auto
  have "map (\<lambda>p. (br_grpno p, if yes then commit else rollback, xs)) ?live =
        map (\<lambda>p. (br_grpno p, if yes then commit else rollback, xs)) (filter (\<lambda>p. a p \<noteq> XA_RDONLY) bs)"
    using arg_cong [OF res(1), of "map (\<lambda>g. (g, if yes then commit else rollback, xs))"] by (simp add: comp_def)
  moreover have vote: "second_phase qs = (?live, yes)" unfolding second_phase_eq res(2) ..
  ultimately show ?thesis using q(1,5) q'
    by (cases yes) (auto simp: finish_def intro!: exI [of _ n'])
qed

lemma commit_unchained:
  assumes "tx_st w = s3" "good xs (tx_net w)" "owed (tx_net w) = []"
    and x: "x = ti_xid (tx_inf w)" "xs = xid_to_string x"
    and bs: "collect_branches (tx_mib w) x = Inr bs" "distinct (map br_grpno bs)"
  defines "a \<equiv> \<lambda>p. answer (tx_net w) (br_grpno p) prepare xs"
  defines "yes \<equiv> \<forall>p \<in> set bs. a p = XA_RDONLY \<or> a p = XA_OK"
  shows "\<exists>w'. tx_commit sw net w = (Inr (if yes then TX_OK else TX_FAIL), w') \<and> tx_st w' = s1 \<and>
           \<not> transactional w' \<and>
           sent (tx_net w') = sent (tx_net w) @ map (\<lambda>p. (br_grpno p, prepare, xs)) bs @
             map (\<lambda>p. (br_grpno p, if yes then commit else rollback, xs)) (filter (\<lambda>p. a p \<noteq> XA_RDONLY) bs)"
proof -
  obtain w1 where w1: "tx_end_info sw w = (Inr (TX_OK, Some (tx_inf w)), w1)" "tx_st w1 = s1"
    "\<not> transactional w1" "tx_mib w1 = tx_mib w" "tx_net w1 = tx_net w"
    using end_info_unchained [OF assms(1)] by blast
  obtain n where n: "seqx (command net prepare x bs w1) (\<lambda>bs w. finish sw net x bs w) =
      change_state sw (if yes then TX_OK else TX_FAIL) (w1\<lparr>tx_net := n\<rparr>)"
    "sent n = sent (tx_net w) @ map (\<lambda>p. (br_grpno p, prepare, xs)) bs @
       map (\<lambda>p. (br_grpno p, if yes then commit else rollback, xs)) (filter (\<lambda>p. a p \<noteq> XA_RDONLY) bs)"
    using rounds [of xs w1 x bs] assms(2,3) x bs(2) w1(5) unfolding a_def yes_def by auto
  have "change_state sw rc (w1\<lparr>tx_net := n\<rparr>) = (Inr rc, w1\<lparr>tx_net := n\<rparr>)" for rc
    using w1(2) by (simp add: change_state_def)
  then have "tx_commit sw net w = (Inr (if yes then TX_OK else TX_FAIL), w1\<lparr>tx_net := n\<rparr>)"
    using w1(1,4) bs(1) x(1) n(1) by (simp add: tx_commit_def ended_xid_def)
  then show ?thesis using w1(2,3) n(2)
    by (intro exI [of _ "w1\<lparr>tx_net := n\<rparr>"]) (simp add: transactional_def)
qed

lemma rollback_unchained:
  assumes "tx_st w = s3" "good xs (tx_net w)" "owed (tx_net w) = []"
    and x: "x = ti_xid (tx_inf w)" "xs = xid_to_string x"
    and bs: "collect_branches (tx_mib w) x = Inr bs" "distinct (map br_grpno bs)"
  shows "\<exists>w'. tx_rollback sw net w = (Inr TX_OK, w') \<and> tx_st w' = s1 \<and> \<not> transactional w' \<and>
           sent (tx_net w') = sent (tx_net w) @ map (\<lambda>p. (br_grpno p, rollback, xs)) bs"
proof -
  obtain w1 where w1: "tx_end_info sw w = (Inr (TX_OK, Some (tx_inf w)), w1)" "tx_st w1 = s1"
    "\<not> transactional w1" "tx_mib w1 = tx_mib w" "tx_net w1 = tx_net w"
    using end_info_unchained [OF assms(1)] by blast
  obtain qs n where q: "command net rollback x bs w1 = (Inr qs, w1\<lparr>tx_net := n\<rparr>)"
    "sent n = sent (tx_net w) @ map (\<lambda>p. (br_grpno p, rollback, xs)) bs"
    using command_ok [of x w1 bs rollback] assms(2,3) bs(2) x(2) w1(5) by auto
  then show ?thesis using w1 bs(1) x(1)
    by (intro exI [of _ "w1\<lparr>tx_net := n\<rparr>"])
      (simp add: tx_rollback_def ended_xid_def change_state_def tx_set1_def transactional_def)
qed

end

subsection \<open>The transaction managers of the domain\<close>

text \<open>
  Requests are answered by \<open>tm\<close> on the resource manager of the group they are for, and the
  replies wait in a queue; \<open>sn_log\<close> records what was asked of whom.
\<close>

record 'r sync =
  sn_rms :: "nat \<Rightarrow> 'r"
  sn_next :: int
  sn_queue :: "(int \<times> int) list"
  sn_log :: "(nat \<times> xa_func \<times> byte list) list"

definition sync_net :: "'r xa_switch \<Rightarrow> (nat \<Rightarrow> byte) \<Rightarrow> 'r sync tm_net" where
  "sync_net sw junk =
     \<lparr>net_call = (\<lambda>g f x n.
        case tm sw (func_code f) x g 0 junk (sn_rms n g) of
          (ret, r) \<Rightarrow>
            (sn_next n,
             n\<lparr>sn_rms := (sn_rms n)(g := r), sn_next := sn_next n + 1, sn_log := sn_log n @ [(g, f, x)],
               sn_queue := sn_queue n @ (case ret of Inl _ \<Rightarrow> [] | Inr v \<Rightarrow> [(sn_next n, v)])\<rparr>)),
      net_reply = (\<lambda>n.
        case sn_queue n of
          [] \<Rightarrow> ((0, None), n)
        | (cd, v) # q \<Rightarrow> ((cd, Some v), n\<lparr>sn_queue := q\<rparr>))\<rparr>"

definition sync_answer :: "'r xa_switch \<Rightarrow> (nat \<Rightarrow> byte) \<Rightarrow> 'r sync \<Rightarrow> nat \<Rightarrow> xa_func \<Rightarrow> byte list \<Rightarrow> int" where
  "sync_answer sw junk n g f x =
     (case fst (tm sw (func_code f) x g 0 junk (sn_rms n g)) of Inl _ \<Rightarrow> 0 | Inr v \<Rightarrow> v)"

definition sync_good :: "(nat \<Rightarrow> byte) \<Rightarrow> byte list \<Rightarrow> 'r sync \<Rightarrow> bool" where
  "sync_good junk x n \<longleftrightarrow> (\<exists>y. to_xid x junk = Some (Inr y)) \<and> 0 < sn_next n \<and> (\<forall>q \<in> set (sn_queue n). fst q < sn_next n)"

lemma tm_answers: "to_xid x junk = Some (Inr y) \<Longrightarrow> \<exists>v r'. tm sw (func_code f) x g flags junk r = (Inr v, r')"
  by (cases f) (auto simp: tm_def func_code_def xa_func_of_def split: prod.splits)

interpretation sync: tm_network "sync_net sw junk" sn_queue "sync_answer sw junk" sn_log "sync_good junk"
  for sw :: "'r xa_switch" and junk
proof (unfold_locales, goal_cases)
  case (1 x n g f)
  obtain y where "to_xid x junk = Some (Inr y)" using 1 by (auto simp: sync_good_def)
  then obtain v r where "tm sw (func_code f) x g 0 junk (sn_rms n g) = (Inr v, r)"
    using tm_answers [of x junk y sw f g 0 "sn_rms n g"] by blast
  then show ?case using 1
    by (auto simp: sync_net_def sync_good_def sync_answer_def)
next
  case (2 x n cd r rest)
  then show ?case by (auto simp: sync_net_def sync_good_def)
qed

interpretation null_tpc: coordinator tmnull_switch "sync_net sw junk" sn_queue "sync_answer sw junk" sn_log "sync_good junk"
  for sw :: "'r xa_switch" and junk ..

end
