(* ===== verification/Tx_Claims.thy ===== *)
theory Tx_Claims
  imports Tpc
begin

text \<open>The properties of the transaction interface.\<close>

subsection \<open>A thread for the examples\<close>

definition demo_trx_mib :: mibmem where
  "demo_trx_mib = demo_mib
     \<lparr>groups := (groups demo_mib)\<lparr>arr_len := Suc 0,
        arr_data := (arr_data (groups demo_mib))[0 := (arr_data (groups demo_mib) ! 0)\<lparr>grp_grpno := 1\<rparr>]\<rparr>,
      transactions := \<lparr>tlen = 1, tsize = 3, max_groups = 1,
        entries = [fresh_trx 1 demo_xid 0, zero_trx 1, zero_trx 1]\<rparr>\<rparr>"

definition demo_thread :: "tx_state \<Rightarrow> (unit, unit sync) tx_world" where
  "demo_thread s =
     \<lparr>tx_st = s, grpcfg = Some ((arr_data (groups demo_mib) ! 0)\<lparr>grp_grpno := 1\<rparr>),
      tx_inf = \<lparr>ti_xid = (if in_trx s then demo_xid else demo_xid\<lparr>formatID := -1\<rparr>), when_return = 0,
        transaction_control = 0, transaction_timeout = 0, transaction_state = 0\<rparr>,
      tx_gttid = 0, tx_grpno = 1, tx_grpidx = 0, tx_mib = demo_trx_mib, tx_rm = (),
      tx_net = \<lparr>sn_rms = (\<lambda>_. ()), sn_next = 1, sn_queue = [], sn_log = []\<rparr>,
      clock_sec = 5, stack_junk = (\<lambda>_. 0)\<rparr>"

lemma demo_trx_table:
  "table_ok (transactions demo_trx_mib)" "max_groups (transactions demo_trx_mib) = 1"
  "tlen (transactions demo_trx_mib) = 1" "tsize (transactions demo_trx_mib) = 3"
  "entries (transactions demo_trx_mib) = [fresh_trx 1 demo_xid 0, zero_trx 1, zero_trx 1]"
  "live (transactions demo_trx_mib) = [fresh_trx 1 demo_xid 0]" "\<not> is_free (fresh_trx 1 demo_xid 0)"
  by (simp_all add: demo_trx_mib_def table_ok_def live_def is_free_def demo_xid_def)

lemma demo_trx_find: "trx_find (transactions demo_trx_mib) demo_xid = Inr 0"
  by (simp add: trx_find_def trx_get_def demo_trx_table)

lemma demo_trx_mib_ok:
  "mib_ok demo_trx_mib" "used (groups demo_trx_mib) = [(arr_data (groups demo_mib) ! 0)\<lparr>grp_grpno := 1\<rparr>]"
  "arr_len (groups demo_trx_mib) = 1"
proof -
  have g: "arr_len (groups demo_mib) = 0" "arr_size (groups demo_mib) = 2" "arr_data (groups demo_mib) \<noteq> []"
    by (simp_all add: demo_mib_def arr_init_def)
  show "used (groups demo_trx_mib) = [(arr_data (groups demo_mib) ! 0)\<lparr>grp_grpno := 1\<rparr>]"
    using g(3) by (simp add: demo_trx_mib_def used_first)
  show "arr_len (groups demo_trx_mib) = 1" by (simp add: demo_trx_mib_def)
  show "mib_ok demo_trx_mib"
    using mib_ok_arrays [OF demo_mib_ok(1)] slots_ok_first [of group_zero "groups demo_mib"] g
    by (simp add: mib_ok_def demo_trx_mib_def)
qed

lemma demo_thread_sel [simp]:
  "tx_st (demo_thread s) = s" "tx_mib (demo_thread s) = demo_trx_mib" "tx_grpidx (demo_thread s) = 0"
  "sn_queue (tx_net (demo_thread s)) = []" "sn_next (tx_net (demo_thread s)) = 1"
  "sn_log (tx_net (demo_thread s)) = []"
  by (simp_all add: demo_thread_def)

subsection \<open>The state machine\<close>


text \<open>The null resource manager has nothing to refuse.\<close>

lemma null_entries [simp]:
  "xa_open_entry tmnull_switch i g f r = (XA_OK, r)" "xa_close_entry tmnull_switch i g f r = (XA_OK, r)"
  "xa_start_entry tmnull_switch x g f r = (XA_OK, r)" "xa_end_entry tmnull_switch x g f r = (XA_OK, r)"
  "xa_prepare_entry tmnull_switch x g f r = (XA_RDONLY, r)" "xa_commit_entry tmnull_switch x g f r = (XA_OK, r)"
  "xa_rollback_entry tmnull_switch x g f r = (XA_OK, r)"
  by (simp_all add: tmnull_switch_def)

lemma demo_open:
  "\<exists>w. tx_open tmnull_switch (demo_thread s0) = (Inr TX_OK, w) \<and> tx_st w = s1"
proof -
  have "c_string (openinfo (arr_data (groups demo_mib) ! 0)) = []"
    by (simp add: demo_mib_def arr_init_def nth_replicate del: replicate_Suc)
  then show ?thesis by (simp add: tx_open_def demo_thread_def Let_def)
qed


lemma genuid_some: "\<exists>uid c. genuid sec m = Some (uid, m\<lparr>counter := c\<rparr>)"
  using genuid_returns by blast

text \<open>
  \<open>tx_begin\<close> when it is allowed: what it does to the thread and to the transaction table.
\<close>

lemma begin_effect:
  assumes st: "tx_st w = s1 \<or> tx_st w = s2"
    and t: "table_ok (transactions (tx_mib w))" "tx_grpidx w < max_groups (transactions (tx_mib w))"
    and room: "\<forall>e \<in> set (live (transactions (tx_mib w))). \<not> is_free e"
      "tlen (transactions (tx_mib w)) < tsize (transactions (tx_mib w))"
    and rm: "\<forall>x g f r. fst (xa_start_entry sw x g f r) = XA_OK"
  shows "\<exists>x w'. tx_begin sw w = (Inr TX_OK, w') \<and> tx_st w' = (if tx_st w = s1 then s3 else s4) \<and>
           (\<exists>uid m. genuid (clock_sec w) (tx_mib w) = Some (uid, m) \<and> x = new_xid uid (stack_junk w)) \<and> ti_xid (tx_inf w') = x \<and> tx_gttid w' = tlen (transactions (tx_mib w)) \<and>
           (\<exists>c. tx_mib w' = (tx_mib w)\<lparr>counter := c, transactions :=
             trx_put (tlen (transactions (tx_mib w))) (fresh_trx (max_groups (transactions (tx_mib w))) x (tx_grpidx w))
               ((transactions (tx_mib w))\<lparr>tlen := tlen (transactions (tx_mib w)) + 1\<rparr>)\<rparr>) \<and>
           tx_net w' = tx_net w \<and> tx_grpidx w' = tx_grpidx w"
proof -
  let ?t = "transactions (tx_mib w)"
  obtain uid c where uid: "genuid (clock_sec w) (tx_mib w) = Some (uid, (tx_mib w)\<lparr>counter := c\<rparr>)"
    using genuid_some by blast
  let ?x = "new_xid uid (stack_junk w)"
  have "search is_free (live ?t) = None" using room(1) by (simp add: search_from_None)
  then have s: "start ?t ?x (tx_grpidx w) =
      (Inr (tlen ?t), trx_put (tlen ?t) (fresh_trx (max_groups ?t) ?x (tx_grpidx w)) (?t\<lparr>tlen := tlen ?t + 1\<rparr>))"
    using start_cases [OF t] room(2) by simp
  obtain r where "xa_start_entry sw ?x (tx_grpno w) TMNOFLAGS (tx_rm w) = (0, r)"
    using rm by (metis prod.collapse)
  then show ?thesis using st uid s
    by (intro exI [of _ ?x]) (auto simp: tx_begin_def tx_start_flags_def Let_def)
qed

text \<open>\<open>tx_begin\<close> outside a transaction, with a working resource manager and room in the table,
  with an identifier no live transaction has, succeeds, moves S1 to S3 and S2 to S4, and records the transaction: the identifier the thread
  now carries is found in the shared table at the index the thread keeps, with its own group as
  the only one joined.
\<close>

theorem begin_correct:
  assumes "tx_st w = s1 \<or> tx_st w = s2"
    and "table_ok (transactions (tx_mib w))" and "tx_grpidx w < max_groups (transactions (tx_mib w))"
    and "\<forall>e \<in> set (live (transactions (tx_mib w))). \<not> is_free e"
    and "tlen (transactions (tx_mib w)) < tsize (transactions (tx_mib w))"
    and "\<forall>x g f r. fst (xa_start_entry sw x g f r) = XA_OK"
    and "\<forall>uid m. genuid (clock_sec w) (tx_mib w) = Some (uid, m) \<longrightarrow>
           (\<forall>e \<in> set (live (transactions (tx_mib w))). \<not> xid_eq (trx_xid e) (new_xid uid (stack_junk w)))"
  shows "\<exists>w'. tx_begin sw w = (Inr TX_OK, w') \<and> tx_st w' = (if tx_st w = s1 then s3 else s4) \<and>
           fst (tx_info w') = 1 \<and>
           trx_find (transactions (tx_mib w')) (ti_xid (tx_inf w')) = Inr (tx_gttid w') \<and>
           (\<forall>h < max_groups (transactions (tx_mib w)).
              has_joined (transactions (tx_mib w')) (tx_gttid w') h = Inr (h = tx_grpidx w))"
proof -
  let ?t = "transactions (tx_mib w)"
  obtain x w' uid m where w': "tx_begin sw w = (Inr TX_OK, w')" "tx_st w' = (if tx_st w = s1 then s3 else s4)"
    "genuid (clock_sec w) (tx_mib w) = Some (uid, m)" "x = new_xid uid (stack_junk w)" "ti_xid (tx_inf w') = x" "tx_gttid w' = tlen ?t"
    "transactions (tx_mib w') = trx_put (tlen ?t) (fresh_trx (max_groups ?t) x (tx_grpidx w)) (?t\<lparr>tlen := tlen ?t + 1\<rparr>)"
    using begin_effect [OF assms(1-6)] by auto
  have ok: "table_ok (transactions (tx_mib w'))"
    unfolding w'(7) by (rule table_ok_fresh) (use assms(2,5) in simp_all)
  have len: "tlen ?t < length (entries ?t)" using assms(2,5) by (simp add: table_ok_def)
  have lv: "live (transactions (tx_mib w')) = live ?t @ [fresh_trx (max_groups ?t) x (tx_grpidx w)]"
    using len by (simp add: w'(7) live_def take_Suc_conv_app_nth)
  have "search (\<lambda>e. xid_eq (trx_xid e) x) (live ?t) = None"
    using assms(7) w'(3,4) by (simp add: search_from_None)
  then have "trx_find (transactions (tx_mib w')) x = Inr (tlen ?t)"
    using scan_live [OF ok] lv assms(2) by (simp add: trx_find_def search_from_append)
  moreover have "has_joined (transactions (tx_mib w')) (tlen ?t) h = Inr (h = tx_grpidx w)"
    if "h < max_groups ?t" for h
    using that len assms(5) by (simp add: w'(7) has_joined_def trx_get_def fresh_trx_def nth_update)
  ultimately show ?thesis using w' assms(1) by (auto simp: tx_info_def opened_def)
qed

theorem begin_correct_witness:
  "\<exists>w'. tx_begin tmnull_switch (demo_thread s1) = (Inr TX_OK, w') \<and> tx_st w' = s3"
  using begin_correct [of "demo_thread s1" tmnull_switch] demo_trx_table
  by (auto simp: xid_eq_def new_xid_def demo_xid_def fresh_trx_def)

text \<open>\<open>tx_begin\<close> inside a transaction answers \<open>TX_PROTOCOL_ERROR\<close> and keeps state and
  identifier, but it has already taken an entry of the shared table, for a transaction nobody
  will ever end, and made the thread's index point at that entry instead of its own.
\<close>

theorem begin_in_transaction:
  assumes "in_trx (tx_st w)"
    and "table_ok (transactions (tx_mib w))" and "tx_grpidx w < max_groups (transactions (tx_mib w))"
    and "\<forall>e \<in> set (live (transactions (tx_mib w))). \<not> is_free e"
    and "tlen (transactions (tx_mib w)) < tsize (transactions (tx_mib w))"
    and "trx_find (transactions (tx_mib w)) (ti_xid (tx_inf w)) = Inr i"
  shows "\<exists>w'. tx_begin sw w = (Inr TX_PROTOCOL_ERROR, w') \<and> tx_st w' = tx_st w \<and> tx_inf w' = tx_inf w \<and>
           trx_find (transactions (tx_mib w')) (ti_xid (tx_inf w')) = Inr i \<and> tx_gttid w' \<noteq> i \<and>
           tlen (transactions (tx_mib w')) = tlen (transactions (tx_mib w)) + 1"
proof -
  let ?t = "transactions (tx_mib w)"
  obtain uid c where uid: "genuid (clock_sec w) (tx_mib w) = Some (uid, (tx_mib w)\<lparr>counter := c\<rparr>)"
    using genuid_some by blast
  let ?x = "new_xid uid (stack_junk w)"
  let ?t' = "trx_put (tlen ?t) (fresh_trx (max_groups ?t) ?x (tx_grpidx w)) (?t\<lparr>tlen := tlen ?t + 1\<rparr>)"
  have "search is_free (live ?t) = None" using assms(4) by (simp add: search_from_None)
  then have s: "start ?t ?x (tx_grpidx w) = (Inr (tlen ?t), ?t')"
    using start_cases [OF assms(2,3)] assms(5) by simp
  have ok: "table_ok ?t'" by (rule table_ok_fresh) (use assms(2,5) in simp_all)
  have len: "tlen ?t < length (entries ?t)" using assms(2,5) by (simp add: table_ok_def)
  have lv: "live ?t' = live ?t @ [fresh_trx (max_groups ?t) ?x (tx_grpidx w)]"
    using len by (simp add: live_def take_Suc_conv_app_nth)
  have hit: "search (\<lambda>e. xid_eq (trx_xid e) (ti_xid (tx_inf w))) (live ?t) = Some i"
    using assms(6) scan_live [OF assms(2)] by (auto simp: trx_find_def split: option.splits)
  then have f: "trx_find ?t' (ti_xid (tx_inf w)) = Inr i"
    using scan_live [OF ok] lv by (simp add: trx_find_def search_from_append)
  have "i < tlen ?t" using trx_find_hit [OF assms(2,6)] by blast
  then show ?thesis using uid s f assms(1)
    by (auto simp: tx_begin_def tx_start_flags_def Let_def in_trx_def)
qed

theorem begin_in_transaction_witness:
  "\<exists>w'. tx_begin tmnull_switch (demo_thread s3) = (Inr TX_PROTOCOL_ERROR, w') \<and> tx_gttid w' \<noteq> 0"
  using begin_in_transaction [of "demo_thread s3" 0 tmnull_switch] demo_trx_table demo_trx_find
  by (auto simp: in_trx_def demo_thread_def)

text \<open>a resource manager that refuses \<open>xa_start\<close> leaves the thread outside a transaction, with
  the error code of the TX specification, yet \<open>tx_info\<close> then reports a transaction.
\<close>

theorem failed_begin:
  assumes "tx_st w = s1 \<or> tx_st w = s2"
    and "table_ok (transactions (tx_mib w))" and "tx_grpidx w < max_groups (transactions (tx_mib w))"
    and "tlen (transactions (tx_mib w)) < tsize (transactions (tx_mib w))"
    and "\<forall>x g f r. fst (xa_start_entry sw x g f r) = XAER_RMERR"
  shows "\<exists>w'. tx_begin sw w = (Inr TX_ERROR, w') \<and> tx_st w' = tx_st w \<and> fst (tx_info w') = 1"
proof -
  let ?t = "transactions (tx_mib w)"
  obtain uid c where uid: "genuid (clock_sec w) (tx_mib w) = Some (uid, (tx_mib w)\<lparr>counter := c\<rparr>)"
    using genuid_some by blast
  let ?x = "new_xid uid (stack_junk w)"
  obtain i t where s: "start ?t ?x (tx_grpidx w) = (Inr i, t)"
    using start_cases [OF assms(2,3)] assms(4) by (cases "search is_free (live ?t)") auto
  obtain r where "xa_start_entry sw ?x (tx_grpno w) TMNOFLAGS (tx_rm w) = (XAER_RMERR, r)"
    using assms(5) by (metis prod.collapse)
  then show ?thesis using uid s assms(1)
    by (auto simp: tx_begin_def tx_start_flags_def Let_def start_rc_def tx_info_def opened_def)
qed

theorem failed_begin_witness:
  "\<exists>w'. tx_begin (tmnull_switch\<lparr>xa_start_entry := \<lambda>_ _ _ r. (XAER_RMERR, r)\<rparr>) (demo_thread s1) = (Inr TX_ERROR, w') \<and>
     tx_st w' = s1 \<and> fst (tx_info w') = 1"
  using failed_begin [of "demo_thread s1" "tmnull_switch\<lparr>xa_start_entry := \<lambda>_ _ _ r. (XAER_RMERR, r)\<rparr>"] demo_trx_table
  by simp

subsection \<open>Two-phase commit\<close>

text \<open>
  The domain as the coordinator finds it: the thread's transaction is in the table, every group
  that joined it is registered, group numbers are unique, and no reply is outstanding.
\<close>

definition joined_groups :: "mibmem \<Rightarrow> nat \<Rightarrow> nat set" where
  "joined_groups m i =
     {grp_grpno (used (groups m) ! j) |j. j < max_groups (transactions m) \<and> trx_groups (entries (transactions m) ! i) ! j > 0}"

definition commit_ready :: "(unit, 'r sync) tx_world \<Rightarrow> nat \<Rightarrow> bool" where
  "commit_ready w i \<longleftrightarrow>
     mib_ok (tx_mib w) \<and> table_ok (transactions (tx_mib w)) \<and>
     distinct (map grp_grpno (used (groups (tx_mib w)))) \<and>
     trx_find (transactions (tx_mib w)) (ti_xid (tx_inf w)) = Inr i \<and>
     (\<forall>j < max_groups (transactions (tx_mib w)).
        trx_groups (entries (transactions (tx_mib w)) ! i) ! j > 0 \<longrightarrow> j < arr_len (groups (tx_mib w))) \<and>
     xid_ok (ti_xid (tx_inf w)) \<and> sn_queue (tx_net w) = [] \<and> 0 < sn_next (tx_net w)"

lemma ready_branches:
  assumes "commit_ready w i"
  shows "sync_good junk (xid_to_string (ti_xid (tx_inf w))) (tx_net w)"
    "\<exists>bs. collect_branches (tx_mib w) (ti_xid (tx_inf w)) = Inr bs \<and> distinct (map br_grpno bs) \<and>
       set (map br_grpno bs) = joined_groups (tx_mib w) i"
proof -
  show "sync_good junk (xid_to_string (ti_xid (tx_inf w))) (tx_net w)"
    using assms xid_reads_back [of "ti_xid (tx_inf w)" junk] by (auto simp: sync_good_def commit_ready_def)
  have "i < tlen (transactions (tx_mib w))"
    using assms trx_find_hit by (auto simp: commit_ready_def)
  then show "\<exists>bs. collect_branches (tx_mib w) (ti_xid (tx_inf w)) = Inr bs \<and> distinct (map br_grpno bs) \<and>
       set (map br_grpno bs) = joined_groups (tx_mib w) i"
    using assms collect_joined [of "tx_mib w" "ti_xid (tx_inf w)" i] unfolding joined_groups_def commit_ready_def by blast
qed

text \<open>The two rounds of a commit outside chained mode.\<close>

lemma commit_rounds:
  assumes "commit_ready w i" and "tx_st w = s3"
  shows "\<exists>w' gs. let xs = xid_to_string (ti_xid (tx_inf w));
             a = (\<lambda>g. sync_answer sw junk (tx_net w) g prepare xs);
             yes = list_all (\<lambda>g. a g = XA_RDONLY \<or> a g = XA_OK) gs
         in tx_commit tmnull_switch (sync_net sw junk) w = (Inr (if yes then TX_OK else TX_FAIL), w') \<and>
            tx_st w' = s1 \<and> fst (tx_info w') = 0 \<and> distinct gs \<and> set gs = joined_groups (tx_mib w) i \<and>
            sn_log (tx_net w') = sn_log (tx_net w) @ map (\<lambda>g. (g, prepare, xs)) gs @
              map (\<lambda>g. (g, if yes then commit else rollback, xs)) (filter (\<lambda>g. a g \<noteq> XA_RDONLY) gs)"
proof -
  let ?x = "ti_xid (tx_inf w)"
  obtain bs where bs: "collect_branches (tx_mib w) ?x = Inr bs" "distinct (map br_grpno bs)"
    "set (map br_grpno bs) = joined_groups (tx_mib w) i"
    using ready_branches(2) [OF assms(1)] by blast
  have st: "tx_st w = s3" "sn_queue (tx_net w) = []" using assms by (simp_all add: commit_ready_def)
  let ?xs = "xid_to_string ?x" and ?gs = "map br_grpno bs"
  let ?a = "\<lambda>g. sync_answer sw junk (tx_net w) g prepare ?xs"
  let ?yes = "list_all (\<lambda>g. ?a g = XA_RDONLY \<or> ?a g = XA_OK) ?gs"
  have yes: "(\<forall>p \<in> set bs. ?a (br_grpno p) = XA_RDONLY \<or> ?a (br_grpno p) = XA_OK) = ?yes"
    by (simp add: list_all_iff)
  obtain w' where w': "tx_commit tmnull_switch (sync_net sw junk) w = (Inr (if ?yes then TX_OK else TX_FAIL), w')"
    "tx_st w' = s1" "\<not> transactional w'"
    "sn_log (tx_net w') = sn_log (tx_net w) @ map (\<lambda>p. (br_grpno p, prepare, ?xs)) bs @
       map (\<lambda>p. (br_grpno p, if ?yes then commit else rollback, ?xs)) (filter (\<lambda>p. ?a (br_grpno p) \<noteq> XA_RDONLY) bs)"
    using null_tpc.commit_unchained [OF st(1) ready_branches(1) [OF assms(1), of junk] st(2) refl refl bs(1,2), of sw]
    unfolding yes by blast
  have "map (\<lambda>p. (br_grpno p, if ?yes then commit else rollback, ?xs)) (filter (\<lambda>p. ?a (br_grpno p) \<noteq> XA_RDONLY) bs) =
        map (\<lambda>g. (g, if ?yes then commit else rollback, ?xs)) (filter (\<lambda>g. ?a g \<noteq> XA_RDONLY) ?gs)"
    by (simp add: filter_map comp_def)
  moreover have "map (\<lambda>p. (br_grpno p, prepare, ?xs)) bs = map (\<lambda>g. (g, prepare, ?xs)) ?gs" by simp
  moreover have "fst (tx_info w') = 0" using w'(2,3) by (simp add: tx_info_def opened_def transactional_def)
  ultimately show ?thesis unfolding Let_def
    using w' bs(2,3) by (intro exI [of _ w'] exI [of _ ?gs] conjI) (simp_all only:)
qed


lemma demo_ready: "in_trx s \<Longrightarrow> commit_ready (demo_thread s) 0"
  using demo_trx_mib_ok demo_trx_table demo_trx_find
  by (simp add: commit_ready_def demo_thread_def in_trx_def xid_ok_def demo_xid_def XIDDATASIZE_def fresh_trx_def nth_update)


text \<open>\<open>tx_rollback\<close> outside chained mode asks exactly the groups that joined the transaction to
  roll back, once each and with no vote, and leaves the thread in S1 with \<open>TX_OK\<close>.
\<close>

theorem rollback_correct:
  assumes "commit_ready w i" and "tx_st w = s3"
  shows "\<exists>w' gs. tx_rollback tmnull_switch (sync_net sw junk) w = (Inr TX_OK, w') \<and>
            tx_st w' = s1 \<and> fst (tx_info w') = 0 \<and> distinct gs \<and> set gs = joined_groups (tx_mib w) i \<and>
            sn_log (tx_net w') = sn_log (tx_net w) @ map (\<lambda>g. (g, rollback, xid_to_string (ti_xid (tx_inf w)))) gs"
proof -
  let ?x = "ti_xid (tx_inf w)"
  obtain bs where bs: "collect_branches (tx_mib w) ?x = Inr bs" "distinct (map br_grpno bs)"
    "set (map br_grpno bs) = joined_groups (tx_mib w) i"
    using ready_branches(2) [OF assms(1)] by blast
  have st: "tx_st w = s3" "sn_queue (tx_net w) = []" using assms by (simp_all add: commit_ready_def)
  show ?thesis
    using null_tpc.rollback_unchained [OF st(1) ready_branches(1) [OF assms(1)] st(2) refl refl bs(1,2)] bs(2,3)
    by (force intro!: exI [of _ "map br_grpno bs"] simp: comp_def tx_info_def opened_def transactional_def)
qed

theorem rollback_correct_witness:
  "\<exists>w'. tx_rollback tmnull_switch (sync_net tmnull_switch (\<lambda>_. 0)) (demo_thread s3) = (Inr TX_OK, w')"
  using rollback_correct [OF demo_ready [of s3] demo_thread_sel(1), of tmnull_switch "\<lambda>_. 0"] by (auto simp: in_trx_def)

text \<open>A chained commit: the transaction is forgotten and another begun before the first vote.\<close>

lemma live_appended:
  fixes x g
  assumes "table_ok t" "tlen t < tsize t"
  defines "t' \<equiv> trx_put (tlen t) (fresh_trx (max_groups t) x g) (t\<lparr>tlen := tlen t + 1\<rparr>)"
  shows "table_ok t'" "live t' = live t @ [fresh_trx (max_groups t) x g]" "tlen t' = tlen t + 1"
    "tsize t' = tsize t" "max_groups t' = max_groups t"
    "trx_find t y = Inr i \<Longrightarrow> trx_find t' y = Inr i \<and> entries t' ! i = entries t ! i"
proof -
  have len: "tlen t < length (entries t)" using assms(1,2) by (simp add: table_ok_def)
  show ok: "table_ok t'" unfolding t'_def by (rule table_ok_fresh) (use assms(1,2) in simp_all)
  show lv: "live t' = live t @ [fresh_trx (max_groups t) x g]"
    using len by (simp add: t'_def live_def take_Suc_conv_app_nth)
  show "tlen t' = tlen t + 1" "tsize t' = tsize t" "max_groups t' = max_groups t" by (simp_all add: t'_def)
  assume f: "trx_find t y = Inr i"
  then have "i < tlen t" using trx_find_hit [OF assms(1)] by blast
  moreover have "search (\<lambda>e. xid_eq (trx_xid e) y) (live t) = Some i"
    using f scan_live [OF assms(1)] by (auto simp: trx_find_def split: option.splits)
  ultimately show "trx_find t' y = Inr i \<and> entries t' ! i = entries t ! i"
    using scan_live [OF ok] lv by (simp add: trx_find_def search_from_append t'_def nth_update)
qed

lemma no_rm_state: "w\<lparr>tx_rm := ()\<rparr> = w" for w :: "(unit, 'n) tx_world"
  by (cases w) simp

lemma end_info_chained:
  assumes ready: "commit_ready w i" and st: "tx_st w = s4" and g: "tx_grpidx w < max_groups (transactions (tx_mib w))"
    and room: "\<forall>e \<in> set (live (transactions (tx_mib w))). \<not> is_free e"
      "tlen (transactions (tx_mib w)) < tsize (transactions (tx_mib w))"
  shows "\<exists>w1. tx_end_info tmnull_switch w = (Inr (TX_OK, Some (tx_inf w)), w1) \<and> tx_st w1 = s4 \<and>
           tx_net w1 = tx_net w \<and> tx_grpidx w1 = tx_grpidx w \<and>
           (\<exists>x c. \<not> is_free (fresh_trx (max_groups (transactions (tx_mib w))) x (tx_grpidx w)) \<and>
             tx_mib w1 = (tx_mib w)\<lparr>counter := c, transactions :=
               trx_put (tlen (transactions (tx_mib w))) (fresh_trx (max_groups (transactions (tx_mib w))) x (tx_grpidx w))
                 ((transactions (tx_mib w))\<lparr>tlen := tlen (transactions (tx_mib w)) + 1\<rparr>)\<rparr>)"
proof -
  let ?w = "(notrx w)\<lparr>tx_st := s2\<rparr>"
  have e: "tx_end_flags tmnull_switch True TMSUCCESS w = ((TX_OK, Some (tx_inf w)), notrx w)"
    using st by (simp add: tx_end_flags_def no_rm_state)
  obtain x w' uid m c where b: "tx_begin tmnull_switch ?w = (Inr TX_OK, w')" "tx_st w' = s4" "x = new_xid uid m"
    "tx_mib w' = (tx_mib w)\<lparr>counter := c, transactions :=
       trx_put (tlen (transactions (tx_mib w))) (fresh_trx (max_groups (transactions (tx_mib w))) x (tx_grpidx w))
         ((transactions (tx_mib w))\<lparr>tlen := tlen (transactions (tx_mib w)) + 1\<rparr>)\<rparr>"
    "tx_net w' = tx_net w" "tx_grpidx w' = tx_grpidx w"
    using begin_effect [of ?w tmnull_switch] ready g room by (auto simp: commit_ready_def)
  have "tx_end_info tmnull_switch w = (Inr (TX_OK, Some (tx_inf w)), w')"
    using e b(1) st by (simp add: tx_end_info_def change_state_def tx_set1_def)
  moreover have "\<not> is_free (fresh_trx (max_groups (transactions (tx_mib w))) x (tx_grpidx w))"
    using b(3) by (simp add: is_free_def fresh_trx_def)
  ultimately show ?thesis using b by blast
qed

text \<open>a chained \<open>tx_commit\<close> begins the next transaction twice: once when \<open>_tx_end\<close> ends the old
  one, before any group has voted, and once more when every vote was favourable. Each takes an
  entry of the shared table; the first of the two is never ended. After a vote against, the
  caller is told \<open>TX_FAIL\<close> and is inside the new transaction.
\<close>

theorem chained_commit_begins_twice:
  assumes "commit_ready w i" and "tx_st w = s4" and "tx_grpidx w < max_groups (transactions (tx_mib w))"
    and "\<forall>e \<in> set (live (transactions (tx_mib w))). \<not> is_free e"
    and "tlen (transactions (tx_mib w)) + 2 \<le> tsize (transactions (tx_mib w))"
  shows "\<exists>w' rc. tx_commit tmnull_switch (sync_net sw junk) w = (Inr rc, w') \<and> rc \<in> {TX_OK, TX_FAIL} \<and>
            tx_st w' = s4 \<and>
            tlen (transactions (tx_mib w')) = tlen (transactions (tx_mib w)) + (if rc = TX_OK then 2 else 1)"
proof -
  let ?t = "transactions (tx_mib w)" and ?x = "ti_xid (tx_inf w)"
  have ok: "table_ok ?t" "tlen ?t < tsize ?t" "sn_queue (tx_net w) = []" "trx_find ?t ?x = Inr i"
    using assms(1,5) by (simp_all add: commit_ready_def)
  obtain w1 x c where w1: "tx_end_info tmnull_switch w = (Inr (TX_OK, Some (tx_inf w)), w1)" "tx_st w1 = s4"
      "tx_net w1 = tx_net w" "tx_grpidx w1 = tx_grpidx w" "\<not> is_free (fresh_trx (max_groups ?t) x (tx_grpidx w))"
    and m1: "tx_mib w1 = (tx_mib w)\<lparr>counter := c, transactions :=
      trx_put (tlen ?t) (fresh_trx (max_groups ?t) x (tx_grpidx w)) (?t\<lparr>tlen := tlen ?t + 1\<rparr>)\<rparr>" (is "_ = _\<lparr>counter := c, transactions := ?t1\<rparr>")
    using end_info_chained [OF assms(1-4) ok(2)] by blast
  note t1 = live_appended [where x = x and g = "tx_grpidx w", OF ok(1,2)]
  have m: "mib_ok (tx_mib w1)" "groups (tx_mib w1) = groups (tx_mib w)" "transactions (tx_mib w1) = ?t1"
    using assms(1) by (simp_all add: m1 commit_ready_def mib_ok_def)
  obtain bs where bs: "collect_branches (tx_mib w1) ?x = Inr bs" "distinct (map br_grpno bs)"
  proof -
    have "i < tlen ?t" using trx_find_hit [OF ok(1,4)] by blast
    then have "\<exists>bs. collect_branches (tx_mib w1) ?x = Inr bs \<and> distinct (map br_grpno bs) \<and>
      set (map br_grpno bs) = {grp_grpno (used (groups (tx_mib w1)) ! j) |j. j < max_groups (transactions (tx_mib w1)) \<and>
        trx_groups (entries (transactions (tx_mib w1)) ! i) ! j > 0}"
      unfolding m(2,3) using t1(6) [OF ok(4)] t1(1,3,5) assms(1)
      by (intro collect_joined [OF m(1), unfolded m(2,3)]) (simp_all add: commit_ready_def)
    then show ?thesis using that by blast
  qed
  obtain n yes where n: "seqx (command (sync_net sw junk) prepare ?x bs w1) (\<lambda>bs w. finish tmnull_switch (sync_net sw junk) ?x bs w) =
      change_state tmnull_switch (if yes then TX_OK else TX_FAIL) (w1\<lparr>tx_net := n\<rparr>)"
  proof -
    have "sync_good junk (xid_to_string ?x) (tx_net w1)" "sn_queue (tx_net w1) = []"
      using ready_branches(1) [OF assms(1), of junk] ok(3) w1(3) by simp_all
    then show ?thesis using null_tpc.rounds [OF _ _ refl bs(2), of junk ?x w1 sw] that by blast
  qed
  have c: "tx_commit tmnull_switch (sync_net sw junk) w = change_state tmnull_switch (if yes then TX_OK else TX_FAIL) (w1\<lparr>tx_net := n\<rparr>)"
    using w1(1) bs(1) n by (simp add: tx_commit_def ended_xid_def)
  show ?thesis
  proof (cases yes)
    case True
    obtain w' where "tx_begin tmnull_switch (w1\<lparr>tx_net := n, tx_st := s2\<rparr>) = (Inr TX_OK, w')" "tx_st w' = s4"
      "tlen (transactions (tx_mib w')) = tlen ?t1 + 1"
      using begin_effect [of "w1\<lparr>tx_net := n, tx_st := s2\<rparr>" tmnull_switch] t1 m1 w1(4,5) assms(3-5) by fastforce
    then show ?thesis using c True w1(2) t1(3) by (simp add: change_state_def tx_set1_def)
  next
    case False
    then show ?thesis using c w1(2) m1 t1(3) by (simp add: change_state_def tx_set1_def tx_set2_def)
  qed
qed

theorem chained_commit_begins_twice_witness:
  "\<exists>w' rc. tx_commit tmnull_switch (sync_net tmnull_switch (\<lambda>_. 0)) (demo_thread s4) = (Inr rc, w') \<and>
     rc \<in> {TX_OK, TX_FAIL} \<and> tx_st w' = s4"
  using chained_commit_begins_twice [OF demo_ready [of s4] demo_thread_sel(1), of tmnull_switch "\<lambda>_. 0"] demo_trx_table
  by (auto simp: in_trx_def)

end
