(* ===== verification/Tp_Trx.thy ===== *)
theory Tp_Trx
  imports Tx_Claims Atmi
begin

text \<open>
  src/trx.cpp: the ATMI transaction calls (\<open>tpopen\<close>, \<open>tpbegin\<close>, \<open>tpcommit\<close>, \<open>tpsuspend\<close>, ...)
  over the TX interface. A call gives its return value and the \<open>tperrno\<close> it leaves.
\<close>

type_synonym ('r, 'n) tp_result = "('r, 'n, int \<times> int) tx_result"

abbreviation (input) tp_ok :: "int \<times> int" where "tp_ok \<equiv> (0, 0)"
abbreviation (input) TPERROR :: "int \<Rightarrow> int \<times> int" where "TPERROR e \<equiv> (-1, e)"

definition tp_map :: "(int \<Rightarrow> int \<times> int) \<Rightarrow> ('r, 'n, int) tx_result \<Rightarrow> ('r, 'n) tp_result" where
  "tp_map f res = (map_sum id f (fst res), snd res)"

lemma tp_map_simps [simp]:
  "tp_map f (Inr rc, w) = (Inr (f rc), w)" "tp_map f (Inl e, w) = (Inl e, w)"
  by (simp_all add: tp_map_def)

subsection \<open>The calls\<close>

definition tpopen :: "'r xa_switch \<Rightarrow> ('r, 'n) tx_world \<Rightarrow> ('r, 'n) tp_result" where
  "tpopen sw w = tp_map (\<lambda>rc.
     if rc = TX_OK then tp_ok
     else if rc = TX_ERROR \<or> rc = TX_FAIL then TPERROR TPERMERR
     else TPERROR TPESYSTEM) (tx_open sw w)"

definition tpclose :: "'r xa_switch \<Rightarrow> ('r, 'n) tx_world \<Rightarrow> ('r, 'n) tp_result" where
  "tpclose sw w = tp_map (\<lambda>rc.
     if rc = TX_OK then tp_ok
     else if rc = TX_ERROR \<or> rc = TX_FAIL then TPERROR TPERMERR
     else if rc = TX_PROTOCOL_ERROR then TPERROR TPEPROTO
     else TPERROR TPESYSTEM) (tx_close sw w)"

text \<open>The unsigned timeout becomes a signed one on the way to \<open>tx_set_transaction_timeout\<close>.\<close>

definition tpbegin :: "'r xa_switch \<Rightarrow> 64 word \<Rightarrow> int \<Rightarrow> ('r, 'n) tx_world \<Rightarrow> ('r, 'n) tp_result" where
  "tpbegin sw tmo flags w =
     (if flags \<noteq> 0 then (Inr (TPERROR TPEINVAL), w)
      else case tx_set_transaction_timeout (sint tmo) w of
        (rc, w) \<Rightarrow> tp_map (\<lambda>rc.
           if rc = TX_OK then tp_ok
           else if rc = TX_ERROR \<or> rc = TX_FAIL then TPERROR TPERMERR
           else if rc = TX_OUTSIDE then TPERROR TPETRAN
           else if rc = TX_PROTOCOL_ERROR then TPERROR TPEPROTO
           else TPERROR TPESYSTEM) (if rc = TX_OK then tx_begin sw w else (Inr rc, w)))"

definition tpgetlev :: "('r, 'n) tx_world \<Rightarrow> int \<times> int" where
  "tpgetlev w =
     (let rc = fst (tx_info w) in
      if rc = 0 \<or> rc = 1 then (rc, 0)
      else if rc = TX_FAIL then TPERROR TPESYSTEM
      else if rc = TX_PROTOCOL_ERROR then TPERROR TPEPROTO
      else TPERROR TPESYSTEM)"

definition trx_err :: "int \<Rightarrow> int \<times> int" where
  "trx_err rc =
     (if rc = TX_ERROR \<or> rc = TX_FAIL then TPERROR TPERMERR
      else if rc = TX_MIXED then TPERROR TPEHEURISTIC
      else if rc = TX_HAZARD then TPERROR TPEHAZARD
      else if rc = TX_PROTOCOL_ERROR then TPERROR TPEPROTO
      else TPERROR TPESYSTEM)"

definition tpabort :: "'r xa_switch \<Rightarrow> 'n tm_net \<Rightarrow> int \<Rightarrow> ('r, 'n) tx_world \<Rightarrow> ('r, 'n) tp_result" where
  "tpabort sw net flags w =
     (if flags \<noteq> 0 then (Inr (TPERROR TPEINVAL), w)
      else tp_map (\<lambda>rc.
        if rc = TX_OK then tp_ok
        else if rc = TX_COMMITTED then TPERROR TPEPROTO
        else trx_err rc) (tx_rollback sw net w))"

definition tpcommit :: "'r xa_switch \<Rightarrow> 'n tm_net \<Rightarrow> int \<Rightarrow> ('r, 'n) tx_world \<Rightarrow> ('r, 'n) tp_result" where
  "tpcommit sw net flags w =
     (if flags \<noteq> 0 then (Inr (TPERROR TPEINVAL), w)
      else tp_map (\<lambda>rc.
        if rc = TX_OK then tp_ok
        else if rc = TX_ROLLBACK then TPERROR TPEABORT
        else trx_err rc) (tx_commit sw net w))"

subsection \<open>Suspending and resuming\<close>

text \<open>
  A \<open>TPTRANID\<close> is 48 bytes and an \<open>XID\<close> 152: three 64-bit numbers and 128 bytes of data.
  \<open>tranid\<close> is \<open>None\<close> for a null pointer; the identifier \<open>tpsuspend\<close> fills in comes back with the
  result.
\<close>

definition sizeof_TPTRANID :: nat where "sizeof_TPTRANID = 48"
definition sizeof_XID :: nat where "sizeof_XID = 152"
definition offsetof_data :: nat where "offsetof_data = 24"

definition xid_bytes :: "xid \<Rightarrow> byte list" where
  "xid_bytes x =
     enc_le 8 (formatID x) @ enc_le 8 (gtrid_length x) @ enc_le 8 (bqual_length x) @
     map (xdata x) [0 ..< XIDDATASIZE]"

definition xid_of_bytes :: "byte list \<Rightarrow> xid" where
  "xid_of_bytes bs =
     \<lparr>formatID = sdec_le (take 8 bs), gtrid_length = sdec_le (take 8 (drop 8 bs)),
      bqual_length = sdec_le (take 8 (drop 16 bs)),
      xdata = (\<lambda>i. if i < length bs - offsetof_data then bs ! (offsetof_data + i) else 0)\<rparr>"

definition tpsuspend ::
    "'r xa_switch \<Rightarrow> byte list option \<Rightarrow> int \<Rightarrow> ('r, 'n) tx_world \<Rightarrow> ((int \<times> int) \<times> byte list option) \<times> ('r, 'n) tx_world" where
  "tpsuspend sw tranid flags w =
     (case tranid of
        None \<Rightarrow> ((TPERROR TPEINVAL, tranid), w)
      | Some bytes \<Rightarrow>
          if flags \<noteq> 0 then ((TPERROR TPEINVAL, tranid), w)
          else case tx_suspend sw True w of
            ((rc, info), w) \<Rightarrow>
              if rc = TX_OK then
                let x = ended_xid info;
                    n = nat ((int offsetof_data + gtrid_length x + bqual_length x) mod 2 ^ 64) in
                if sizeof_TPTRANID < n then ((TPERROR TPEINVAL, tranid), w)
                else ((tp_ok, Some (take n (xid_bytes x) @ drop n bytes)), w)
              else ((trx_err rc, tranid), w))"

text \<open>The rest of the \<open>XID\<close> on the stack is not initialised: \<open>junk\<close> is what it holds.\<close>

definition tpresume ::
    "'r xa_switch \<Rightarrow> byte list option \<Rightarrow> int \<Rightarrow> byte list \<Rightarrow> ('r, 'n) tx_world \<Rightarrow> (int \<times> int) \<times> ('r, 'n) tx_world" where
  "tpresume sw tranid flags junk w =
     (case tranid of
        None \<Rightarrow> (TPERROR TPEINVAL, w)
      | Some bytes \<Rightarrow>
          if flags \<noteq> 0 then (TPERROR TPEINVAL, w)
          else if sizeof_TPTRANID > sizeof_XID then (TPERROR TPEINVAL, w)
          else case tx_resume sw (Some (xid_of_bytes (take sizeof_TPTRANID bytes @ drop sizeof_TPTRANID junk))) w of
            (rc, w) \<Rightarrow> if rc = TX_OK then (tp_ok, w) else (trx_err rc, w))"

lemma length_xid_bytes [simp]: "length (xid_bytes x) = 152"
  by (simp add: xid_bytes_def XIDDATASIZE_def)

text \<open>Reading back the bytes of an identifier, whatever follows the part that was copied.\<close>

lemma xid_of_xid_bytes:
  assumes "xid_ok x" "n = nat (24 + gtrid_length x + bqual_length x)"
  shows "xid_eq (xid_of_bytes (take n (xid_bytes x) @ rest)) x"
proof -
  let ?n = "nat (gtrid_length x + bqual_length x)"
  let ?d = "map (xdata x) [0 ..< XIDDATASIZE]"
  have n: "n = 24 + ?n" "?n \<le> 128" using assms by (auto simp: xid_ok_def XIDDATASIZE_def)
  define bs where "bs = take n (xid_bytes x) @ rest"
  have split: "bs = enc_le 8 (formatID x) @ enc_le 8 (gtrid_length x) @ enc_le 8 (bqual_length x) @ (take ?n ?d @ rest)"
    using n by (simp add: bs_def xid_bytes_def)
  have r: "sdec_le (enc_le 8 i) = i" if "- (2 ^ 63) \<le> i" "i < 2 ^ 63" for i
    by (rule sdec_enc_le) (use that in simp_all)
  have "bs ! (24 + i) = xdata x i \<and> i < length bs - 24" if "i < ?n" for i
    unfolding split using that n(2) by (simp add: nth_append XIDDATASIZE_def)
  then have "xdata (xid_of_bytes bs) i = xdata x i" if "i < ?n" for i
    using that by (simp add: xid_of_bytes_def offsetof_data_def)
  moreover have "formatID (xid_of_bytes bs) = formatID x" "gtrid_length (xid_of_bytes bs) = gtrid_length x"
    "bqual_length (xid_of_bytes bs) = bqual_length x"
    unfolding split using assms(1) r by (simp_all add: xid_of_bytes_def xid_ok_def XIDDATASIZE_def)
  ultimately show ?thesis unfolding xid_eq_def bs_def [symmetric] by (simp add: Let_def)
qed

subsection \<open>What the calls do\<close>

text \<open>a transaction survives \<open>tpsuspend\<close> and \<open>tpresume\<close>: the thread leaves it and re-enters it with
  an identifier equal to the old one, although only a prefix of the \<open>XID\<close> travels. Its index
  in the shared table does not survive: after \<open>tpresume\<close> the thread has \<open>bad_gttid\<close>, the value
  of a thread with no transaction, which is what requests to servers carry.
\<close>

theorem suspend_resume:
  fixes sw :: "'r xa_switch"
  assumes rm: "\<forall>x g f r. fst (xa_start_entry sw x g f r) = XA_OK \<and> fst (xa_end_entry sw x g f r) = XA_OK"
    and st: "in_trx (tx_st w)" and x: "xid_ok (ti_xid (tx_inf w))" "formatID (ti_xid (tx_inf w)) \<noteq> -1"
    and fits: "24 + gtrid_length (ti_xid (tx_inf w)) + bqual_length (ti_xid (tx_inf w)) \<le> 48"
    and len: "length tranid = 48"
  shows "\<exists>saved w1 w2. tpsuspend sw (Some tranid) 0 w = ((tp_ok, Some saved), w1) \<and> length saved = 48 \<and>
           \<not> in_trx (tx_st w1) \<and> fst (tx_info w1) = 0 \<and>
           tpresume sw (Some saved) 0 junk w1 = (tp_ok, w2) \<and> tx_st w2 = tx_st w \<and> fst (tx_info w2) = 1 \<and>
           xid_eq (ti_xid (tx_inf w2)) (ti_xid (tx_inf w)) \<and> tx_gttid w2 = bad_gttid"
proof -
  let ?x = "ti_xid (tx_inf w)"
  let ?n = "nat (24 + gtrid_length ?x + bqual_length ?x)"
  let ?saved = "take ?n (xid_bytes ?x) @ drop ?n tranid"
  obtain r where r: "xa_end_entry sw ?x (tx_grpno w) TMSUSPEND (tx_rm w) = (0, r)"
    using rm by (metis prod.collapse)
  define w1 where "w1 = (notrx (w\<lparr>tx_rm := r\<rparr>))\<lparr>tx_st := (if tx_st w = s3 then s1 else s2)\<rparr>"
  have w1: "tx_st w1 = (if tx_st w = s3 then s1 else s2)" "\<not> transactional w1" "tx_gttid w1 = bad_gttid"
    by (simp_all add: w1_def transactional_def notrx_def)
  have n: "nat ((int offsetof_data + gtrid_length ?x + bqual_length ?x) mod 2 ^ 64) = ?n" "?n \<le> 48"
    using x(1) fits by (simp_all add: xid_ok_def offsetof_data_def)
  have "tx_suspend sw True w = ((TX_OK, Some (tx_inf w)), w1)"
    using st r by (auto simp: tx_suspend_def tx_end_flags_def in_trx_def w1_def)
  then have susp: "tpsuspend sw (Some tranid) 0 w = ((tp_ok, Some ?saved), w1)"
    using n by (simp add: tpsuspend_def ended_xid_def sizeof_TPTRANID_def Let_def)
  define saved where "saved = ?saved"
  have saved: "length saved = 48" using len n(2) by (simp add: saved_def)
  define y where "y = xid_of_bytes (take 48 saved @ drop 48 junk)"
  have y: "xid_eq y ?x"
    unfolding y_def using saved xid_of_xid_bytes [OF x(1) refl, of "drop ?n tranid @ drop 48 junk"] by (simp add: saved_def)
  then have f: "formatID y \<noteq> -1" using x(2) by (simp add: xid_eq_def)
  obtain r2 where "xa_start_entry sw y (tx_grpno w1) TMRESUME (tx_rm w1) = (0, r2)"
    using rm by (metis prod.collapse)
  then have "tx_resume sw (Some y) w1 = (TX_OK, w1\<lparr>tx_inf := (tx_inf w1)\<lparr>ti_xid := y\<rparr>, tx_rm := r2, tx_st := tx_st w\<rparr>)"
    using st w1(1) by (auto simp: tx_resume_def tx_start_flags_def in_trx_def)
  then obtain w2 where w2: "tx_resume sw (Some y) w1 = (TX_OK, w2)" "tx_st w2 = tx_st w" "ti_xid (tx_inf w2) = y"
    "tx_gttid w2 = bad_gttid" using w1(3) by simp
  have "tpresume sw (Some saved) 0 junk w1 = (tp_ok, w2)"
    using w2(1) by (simp add: tpresume_def sizeof_TPTRANID_def sizeof_XID_def y_def)
  moreover have "fst (tx_info w1) = 0" "fst (tx_info w2) = 1" "\<not> in_trx (tx_st w1)"
    using w1 w2 f st by (auto simp: tx_info_def opened_def in_trx_def transactional_def)
  ultimately show ?thesis using susp saved w2 y unfolding saved_def [symmetric] by blast
qed

theorem suspend_resume_witness:
  "\<exists>saved w1 w2. tpsuspend tmnull_switch (Some (replicate 48 0)) 0 (demo_thread s3) = ((tp_ok, Some saved), w1) \<and>
     tpresume tmnull_switch (Some saved) 0 [] w1 = (tp_ok, w2) \<and> tx_gttid w2 = bad_gttid"
proof -
  have "xid_ok demo_xid" by (simp add: xid_ok_def demo_xid_def XIDDATASIZE_def)
  then show ?thesis
    using suspend_resume [of tmnull_switch "demo_thread s3" "replicate 48 0" "[]"]
    by (fastforce simp: in_trx_def demo_thread_def demo_xid_def)
qed



end
