(* ===== verification/Expr_Parse.thy ===== *)
theory Expr_Parse
  imports Fml_Fields Strtol
begin

text \<open>
  Boolean expressions over fielded buffers: src/basic_parser.h and the parser of src/expr.cpp.
  The parser reads the text one character at a time and writes the tree as bytes in prefix
  order. Characters are bytes; the text of a C string has no zero byte, so \<open>strchr\<close> never
  matches its terminator. The row and column the parser counts only go into error messages and
  are left out.
\<close>

subsection \<open>Operators\<close>

datatype tree_op =
  first_invalid | const_long | const_double | const_string | field | field_any | unary_minus |
  logical_negation | bitwise_negation | multiplication | division | modulus | addition |
  substraction | exclusive_or | logical_and | logical_or | less_than | greater_than |
  less_or_equal | greater_or_equal | equal | not_equal | matches | not_matches | last_invalid

fun opcode :: "tree_op \<Rightarrow> nat" where
  "opcode first_invalid = 0" | "opcode const_long = 1" | "opcode const_double = 2" | "opcode const_string = 3"
| "opcode field = 4" | "opcode field_any = 5" | "opcode unary_minus = 6" | "opcode logical_negation = 7"
| "opcode bitwise_negation = 8" | "opcode multiplication = 9" | "opcode division = 10" | "opcode modulus = 11"
| "opcode addition = 12" | "opcode substraction = 13" | "opcode exclusive_or = 14" | "opcode logical_and = 15"
| "opcode logical_or = 16" | "opcode less_than = 17" | "opcode greater_than = 18" | "opcode less_or_equal = 19"
| "opcode greater_or_equal = 20" | "opcode equal = 21" | "opcode not_equal = 22" | "opcode matches = 23"
| "opcode not_matches = 24" | "opcode last_invalid = 25"

text \<open>The sources compare operators by their codes.\<close>

lemma opcode_inj: "opcode a = opcode b \<Longrightarrow> a = b"
  by (cases a; cases b; simp)

instantiation tree_op :: linorder
begin

definition less_eq_tree_op :: "tree_op \<Rightarrow> tree_op \<Rightarrow> bool" where
  [simp]: "a \<le> b \<longleftrightarrow> opcode a \<le> opcode b"

definition less_tree_op :: "tree_op \<Rightarrow> tree_op \<Rightarrow> bool" where
  [simp]: "a < b \<longleftrightarrow> opcode a < opcode b"

instance
  by intro_classes (auto intro: opcode_inj)

end

definition op_byte :: "tree_op \<Rightarrow> byte" where "op_byte oper = word_of_nat (opcode oper)"

text \<open>The texts of the binary operators (\<open>tree_ops\<close>).\<close>

fun op_text :: "tree_op \<Rightarrow> byte list" where
  "op_text multiplication = [42]" | "op_text division = [47]" | "op_text modulus = [37]"
| "op_text addition = [43]" | "op_text substraction = [45]" | "op_text exclusive_or = [94]"
| "op_text logical_and = [38, 38]" | "op_text logical_or = [124, 124]" | "op_text less_than = [60]"
| "op_text greater_than = [62]" | "op_text less_or_equal = [60, 61]" | "op_text greater_or_equal = [62, 61]"
| "op_text equal = [61, 61]" | "op_text not_equal = [33, 61]" | "op_text matches = [37, 37]"
| "op_text not_matches = [33, 37]" | "op_text unary_minus = [45]" | "op_text logical_negation = [33]"
| "op_text bitwise_negation = [126]" | "op_text _ = []"

record binop =
  prec :: int
  bopcode :: tree_op

definition MAKE_OP :: "int \<Rightarrow> tree_op \<Rightarrow> byte list \<times> binop" where
  "MAKE_OP p oper = (op_text oper, \<lparr>prec = p, bopcode = oper\<rparr>)"

definition binops :: "(byte list \<times> binop) list" where
  "binops =
     [MAKE_OP 70 multiplication, MAKE_OP 70 division, MAKE_OP 70 modulus, MAKE_OP 60 addition,
      MAKE_OP 60 substraction, MAKE_OP 50 less_than, MAKE_OP 50 greater_than, MAKE_OP 50 less_or_equal,
      MAKE_OP 50 greater_or_equal, MAKE_OP 50 equal, MAKE_OP 50 not_equal, MAKE_OP 40 matches,
      MAKE_OP 40 not_matches, MAKE_OP 30 exclusive_or, MAKE_OP 20 logical_and, MAKE_OP 10 logical_or]"

definition which_op :: "byte list \<Rightarrow> binop" where
  "which_op t = (case map_of binops t of None \<Rightarrow> \<lparr>prec = -1, bopcode = first_invalid\<rparr> | Some b \<Rightarrow> b)"

subsection \<open>The parser's state\<close>

text \<open>
  \<open>p_inp\<close> is what \<open>sym_\<close> and the stream still hold, \<open>p_op\<close> the operator put back by \<open>unget\<close>.
  Of the tree the first four bytes are the reserved header, \<open>p_size\<close> is the capacity of the
  memory it lies in. An expression can fail with a syntax error (\<open>basic_parser_error\<close> or any
  other exception), an unknown name or a field of a wrong type; writing past the memory of the
  tree is undefined.
\<close>

record parser =
  p_inp :: "byte list"
  p_op :: "byte list"
  p_tree :: "byte list"
  p_size :: nat

datatype expr_stop = Syntax_error | Unknown_field_name | Invalid_field_type | Tree_overflow | Out_of_fuel

type_synonym 'a parsed = "(expr_stop + 'a) \<times> parser"

text \<open>What the parser takes from elsewhere: the field tables, and \<open>std::stof\<close> to a \<open>double\<close>.\<close>

record expr_env =
  Fldid32_of :: "byte list \<Rightarrow> fldid"
  stof_of :: "byte list \<Rightarrow> byte list except"

subsection \<open>ast_tree\<close>

definition ast_insert :: "nat \<Rightarrow> byte list \<Rightarrow> parser \<Rightarrow> unit parsed" where
  "ast_insert pos bytes p =
     (let len = length (p_tree p); n = length bytes;
          p' = (if p_size p - len < n then p\<lparr>p_size := (2 * p_size p) mod 2 ^ 32\<rparr> else p)
      in if p_size p' < len + n then (Inl Tree_overflow, p')
         else (Inr (), p'\<lparr>p_tree := take pos (p_tree p) @ bytes @ drop pos (p_tree p)\<rparr>))"

definition ast_append :: "byte list \<Rightarrow> parser \<Rightarrow> nat parsed" where
  "ast_append bytes p =
     (let ret = length (p_tree p)
      in seqx (ast_insert ret bytes p) (\<lambda>_ p. (Inr ret, p)))"

text \<open>\<open>append\<close> inserts the operation first and its data after it, one \<open>insert\<close> each.\<close>

definition append_op :: "tree_op \<Rightarrow> parser \<Rightarrow> nat parsed" where
  "append_op oper p = ast_append [op_byte oper] p"

definition append_data :: "tree_op \<Rightarrow> byte list \<Rightarrow> parser \<Rightarrow> nat parsed" where
  "append_data oper bytes p =
     seqx (append_op oper p) (\<lambda>ret p. seqx (ast_append bytes p) (\<lambda>_ p. (Inr ret, p)))"

definition append_field :: "fldid \<Rightarrow> int \<Rightarrow> parser \<Rightarrow> nat parsed" where
  "append_field fieldid oc p =
     seqx (append_op field p) (\<lambda>ret p.
       seqx (ast_append (enc_le 4 (uint fieldid)) p) (\<lambda>_ p.
         seqx (ast_append (enc_le 4 oc) p) (\<lambda>_ p. (Inr ret, p))))"

definition peek_tree :: "nat \<Rightarrow> parser \<Rightarrow> byte" where
  "peek_tree pos p = p_tree p ! pos"

definition take_tree :: "parser \<Rightarrow> byte list" where
  "take_tree p =
     (let len = length (p_tree p)
      in word_of_nat len # word_of_nat (len div 256) # drop 2 (p_tree p))"

subsection \<open>basic_parser\<close>

definition accept :: "(byte \<Rightarrow> bool) \<Rightarrow> parser \<Rightarrow> byte option \<times> parser" where
  "accept f p =
     (case p_inp p of
        [] \<Rightarrow> (None, p)
      | c # cs \<Rightarrow> if f c then (Some c, p\<lparr>p_inp := cs\<rparr>) else (None, p))"

definition accept_char :: "byte \<Rightarrow> parser \<Rightarrow> bool \<times> parser" where
  "accept_char ch p = (case accept (\<lambda>c. c = ch) p of (None, p) \<Rightarrow> (False, p) | (Some _, p) \<Rightarrow> (True, p))"

text \<open>\<open>while (accept(f, s));\<close>\<close>

definition accept_while :: "(byte \<Rightarrow> bool) \<Rightarrow> parser \<Rightarrow> byte list \<times> parser" where
  "accept_while f p = (takeWhile f (p_inp p), p\<lparr>p_inp := dropWhile f (p_inp p)\<rparr>)"

definition is_alpha :: "byte \<Rightarrow> bool" where
  "is_alpha c \<longleftrightarrow> 65 \<le> c \<and> c \<le> 90 \<or> 97 \<le> c \<and> c \<le> 122"

definition is_hex :: "byte \<Rightarrow> bool" where
  "is_hex c \<longleftrightarrow> 48 \<le> c \<and> c \<le> 57 \<or> 97 \<le> c \<and> c \<le> 102 \<or> 65 \<le> c \<and> c \<le> 70"

definition base16 :: "byte \<Rightarrow> byte" where
  "base16 c =
     (if 48 \<le> c \<and> c \<le> 57 then c - 48
      else if 65 \<le> c \<and> c \<le> 70 then 10 + c - 65
      else 10 + c - 97)"

definition unsigned_number :: "parser \<Rightarrow> byte list option \<times> parser" where
  "unsigned_number p =
     (case accept is_digit p of
        (None, p) \<Rightarrow> (None, p)
      | (Some c, p) \<Rightarrow>
          (case accept_while is_digit p of
             (ds, p) \<Rightarrow>
               (case accept (\<lambda>c. c = 46) p of
                  (dot, p) \<Rightarrow>
                    (case accept_while is_digit p of
                       (fs, p) \<Rightarrow> (Some (c # ds @ (case dot of None \<Rightarrow> [] | Some d \<Rightarrow> [d]) @ fs), p)))))"

definition name_text :: "parser \<Rightarrow> byte list option \<times> parser" where
  "name_text p =
     (case accept is_alpha p of
        (None, p) \<Rightarrow> (None, p)
      | (Some c, p) \<Rightarrow>
          (case accept_while (\<lambda>c. is_alpha c \<or> is_digit c \<or> c = 95) p of (cs, p) \<Rightarrow> (Some (c # cs), p)))"

definition space :: "parser \<Rightarrow> parser" where
  "space p = p\<lparr>p_inp := dropWhile is_space (p_inp p)\<rparr>"

subsection \<open>Strings and operators\<close>

text \<open>
  The loop of \<open>string\<close>, after the opening quote: a backslash is dropped and two hexadecimal
  digits after it stand for a byte; \<open>hex\<close> throws when only the first is there.
\<close>

fun string_loop :: "byte list \<Rightarrow> byte list \<Rightarrow> (expr_stop + byte list) \<times> byte list" where
  "string_loop s [] = (Inr s, [])"
| "string_loop s (c # cs) =
     (if c = 92 then
        (case cs of
           [] \<Rightarrow> (Inr s, [])
         | [h] \<Rightarrow> if is_hex h then (Inl Syntax_error, []) else string_loop s [h]
         | h # l # ds \<Rightarrow>
             if \<not> is_hex h then string_loop s (h # l # ds)
             else if is_hex l then string_loop (s @ [push_bit 4 (base16 h) OR base16 l]) ds
             else (Inl Syntax_error, l # ds))
      else if c \<noteq> 39 then string_loop (s @ [c]) cs
      else (Inr s, c # cs))"

definition string_text :: "parser \<Rightarrow> byte list option parsed" where
  "string_text p =
     (case accept_char 39 p of
        (False, p) \<Rightarrow> (Inr None, p)
      | (True, p) \<Rightarrow>
          (case string_loop [] (p_inp p) of
             (Inl e, inp) \<Rightarrow> (Inl e, p\<lparr>p_inp := inp\<rparr>)
           | (Inr s, inp) \<Rightarrow>
               (case accept_char 39 (p\<lparr>p_inp := inp\<rparr>) of
                  (False, p) \<Rightarrow> (Inl Syntax_error, p)
                | (True, p) \<Rightarrow> (Inr (Some s), p))))"

definition unget :: "byte list \<Rightarrow> parser \<Rightarrow> parser" where
  "unget t p = p\<lparr>p_op := t\<rparr>"

definition first_op_char :: "byte \<Rightarrow> bool" where
  "first_op_char c \<longleftrightarrow> c \<in> {43, 45, 33, 126, 42, 47, 37, 60, 62, 61, 94, 38, 124}"

definition second_op_char :: "byte \<Rightarrow> bool" where
  "second_op_char c \<longleftrightarrow> c \<in> {61, 37, 38, 124}"

definition op_symbol :: "parser \<Rightarrow> byte list option \<times> parser" where
  "op_symbol p =
     (if p_op p \<noteq> [] then (Some (p_op p), p\<lparr>p_op := []\<rparr>)
      else case accept first_op_char p of
        (None, p) \<Rightarrow> (None, p)
      | (Some c, p) \<Rightarrow>
          (case accept second_op_char p of
             (None, p) \<Rightarrow> (Some [c], p)
           | (Some d, p) \<Rightarrow> (Some [c, d], p)))"

definition unary_char :: "byte \<Rightarrow> bool" where
  "unary_char c \<longleftrightarrow> c \<in> {43, 45, 33, 126}"

subsection \<open>Primaries\<close>

definition valid_operand_type :: "int \<Rightarrow> bool" where
  "valid_operand_type t \<longleftrightarrow>
     t = FLD_SHORT \<or> t = FLD_LONG \<or> t = FLD_FLOAT \<or> t = FLD_DOUBLE \<or> t = FLD_CHAR \<or> t = FLD_STRING \<or> t = FLD_CARRAY"

text \<open>The subscript after a field name: its text, \<open>?\<close>, or 0 when there is none.\<close>

definition subscript :: "parser \<Rightarrow> byte list parsed" where
  "subscript p =
     (case accept_char 91 p of
        (False, p) \<Rightarrow> (Inr [48], p)
      | (True, p) \<Rightarrow>
          (case (case unsigned_number p of
                   (Some t, p) \<Rightarrow> (t, p)
                 | (None, p) \<Rightarrow>
                     (case accept_char 63 p of (True, p) \<Rightarrow> ([63], p) | (False, p) \<Rightarrow> ([], p))) of
             (oc, p) \<Rightarrow>
               (case accept_char 93 p of
                  (False, p) \<Rightarrow> (Inl Syntax_error, p)
                | (True, p) \<Rightarrow> (Inr oc, p))))"

definition field_primary :: "expr_env \<Rightarrow> byte list \<Rightarrow> parser \<Rightarrow> nat parsed" where
  "field_primary env tok p =
     seqx (subscript p) (\<lambda>oc p.
       let fieldid = Fldid32_of env tok in
       if fieldid = BADFLDID then (Inl Unknown_field_name, p)
       else if \<not> valid_operand_type (Fldtype32 fieldid) then (Inl Invalid_field_type, p)
       else if oc = [63] then append_data field_any (enc_le 4 (uint fieldid)) p
       else (case stol oc of
               Inl e \<Rightarrow> (Inl Syntax_error, p)
             | Inr i \<Rightarrow> append_field fieldid i p))"

definition number_primary :: "expr_env \<Rightarrow> byte list \<Rightarrow> parser \<Rightarrow> nat parsed" where
  "number_primary env tok p =
     (if 46 \<in> set tok then
        (case stof_of env tok of
           Inl e \<Rightarrow> (Inl Syntax_error, p)
         | Inr d \<Rightarrow> append_data const_double d p)
      else
        (case stol tok of
           Inl e \<Rightarrow> (Inl Syntax_error, p)
         | Inr i \<Rightarrow> append_data const_long (enc_le 8 i) p))"

definition unary_primary :: "byte \<Rightarrow> parser \<Rightarrow> nat parsed" where
  "unary_primary c p =
     (if c = 45 then append_op unary_minus p
      else if c = 33 then append_op logical_negation p
      else if c = 126 then append_op bitwise_negation p
      else (Inr (length (p_tree p)), p))"

text \<open>What \<open>%%\<close> and \<open>!%\<close> ask of their operands, and the insertion of the operator.\<close>

definition combine :: "binop \<Rightarrow> nat \<Rightarrow> nat \<Rightarrow> parser \<Rightarrow> unit parsed" where
  "combine tok lhs rhs p =
     (if (bopcode tok = matches \<or> bopcode tok = not_matches) \<and>
         (peek_tree lhs p \<noteq> op_byte const_string \<and> peek_tree lhs p \<noteq> op_byte field \<and>
          peek_tree lhs p \<noteq> op_byte field_any \<or> peek_tree rhs p \<noteq> op_byte const_string)
      then (Inl Syntax_error, p)
      else ast_insert lhs [op_byte (bopcode tok)] p)"

text \<open>
  The recursion of the parser with a bound on its depth. An index 0, the null result of the
  code, is never returned, since the header comes first.
\<close>

fun parse_primary :: "expr_env \<Rightarrow> nat \<Rightarrow> parser \<Rightarrow> nat parsed"
  and parse_binop :: "expr_env \<Rightarrow> nat \<Rightarrow> int \<Rightarrow> nat \<Rightarrow> parser \<Rightarrow> nat parsed"
  and parse_expr :: "expr_env \<Rightarrow> nat \<Rightarrow> parser \<Rightarrow> nat parsed" where
  "parse_primary env 0 p = (Inl Out_of_fuel, p)"
| "parse_primary env (Suc n) p =
     (case accept unary_char (space p) of
        (Some c, p) \<Rightarrow>
          seqx (unary_primary c p) (\<lambda>e p. seqx (parse_primary env n p) (\<lambda>_ p. (Inr e, p)))
      | (None, p) \<Rightarrow>
          (case name_text p of
             (Some tok, p) \<Rightarrow> seqx (field_primary env tok p) (\<lambda>e p. (Inr e, space p))
           | (None, p) \<Rightarrow>
               (case unsigned_number p of
                  (Some tok, p) \<Rightarrow> seqx (number_primary env tok p) (\<lambda>e p. (Inr e, space p))
                | (None, p) \<Rightarrow>
                    seqx (string_text p) (\<lambda>s p.
                      case s of
                        Some s \<Rightarrow> seqx (append_data const_string (s @ [0]) p) (\<lambda>e p. (Inr e, space p))
                      | None \<Rightarrow>
                          (case accept_char 40 p of
                             (True, p) \<Rightarrow>
                               seqx (parse_expr env n p) (\<lambda>e p.
                                 case accept_char 41 p of
                                   (False, p) \<Rightarrow> (Inl Syntax_error, p)
                                 | (True, p) \<Rightarrow> (Inr e, space p))
                           | (False, p) \<Rightarrow> (Inl Syntax_error, p))))))"
| "parse_binop env 0 k lhs p = (Inl Out_of_fuel, p)"
| "parse_binop env (Suc n) k lhs p =
     (case op_symbol (space p) of
        (None, p) \<Rightarrow> (Inr lhs, p)
      | (Some ops, p) \<Rightarrow>
          let tok = which_op ops in
          if bopcode tok = first_invalid then (Inl Syntax_error, p)
          else if prec tok < k then (Inr lhs, unget ops p)
          else
            seqx (parse_primary env n p) (\<lambda>rhs p.
              if rhs = 0 then (Inr 0, p)
              else
                seqx (case op_symbol p of
                        (None, p) \<Rightarrow> (Inr rhs, p)
                      | (Some next_ops, p) \<Rightarrow>
                          if prec tok < prec (which_op next_ops)
                          then parse_binop env n (prec tok + 1) rhs (unget next_ops p)
                          else (Inr rhs, unget next_ops p))
                  (\<lambda>rhs p.
                    if rhs = 0 then (Inr 0, p)
                    else seqx (combine tok lhs rhs p) (\<lambda>_ p. parse_binop env n k lhs p))))"
| "parse_expr env 0 p = (Inl Out_of_fuel, p)"
| "parse_expr env (Suc n) p =
     seqx (parse_primary env n p) (\<lambda>e p. if e = 0 then (Inr 0, p) else parse_binop env n 0 e p)"

declare parse_primary.simps [simp del] parse_binop.simps [simp del] parse_expr.simps [simp del]

text \<open>
  \<open>Fboolco32\<close> on a C string: the bytes of the tree, or an error; \<open>junk\<close> is what the new memory
  holds where the header will be.
\<close>

definition new_parser :: "byte list \<Rightarrow> (nat \<Rightarrow> byte) \<Rightarrow> parser" where
  "new_parser text junk = \<lparr>p_inp = text, p_op = [], p_tree = map junk [0 ..< 4], p_size = 1024\<rparr>"

definition fuel_for :: "byte list \<Rightarrow> nat" where
  "fuel_for text = 2 * length text + 2"

definition Fboolco32 :: "expr_env \<Rightarrow> (nat \<Rightarrow> byte) \<Rightarrow> byte list option \<Rightarrow> byte list outcome" where
  "Fboolco32 env junk expression =
     (case expression of
        None \<Rightarrow> Err FEINVAL
      | Some text \<Rightarrow>
          (case parse_expr env (fuel_for text) (new_parser text junk) of
             (Inr e, p) \<Rightarrow> Ret (take_tree p)
           | (Inl Unknown_field_name, p) \<Rightarrow> Err FBADNAME
           | (Inl Invalid_field_type, p) \<Rightarrow> Err FEBADOP
           | (Inl Syntax_error, p) \<Rightarrow> Err 10
           | (Inl Tree_overflow, p) \<Rightarrow> Stuck
           | (Inl Out_of_fuel, p) \<Rightarrow> Stuck))"

end
