(* ===== verification/Expr_Total.thy ===== *)
theory Expr_Total
  imports Expr_Parse
begin

text \<open>
  The parser of src/expr.cpp returns on every text: the bound on its recursion that
  \<open>Fboolco32\<close> passes is never reached. What is left to read shrinks with every primary and
  every operator.
\<close>

definition left :: "parser \<Rightarrow> nat" where
  "left p = length (p_inp p) + length (p_op p)"

text \<open>A step that ends within its bound and leaves no more than there was.\<close>

definition shrinks :: "parser \<Rightarrow> 'a parsed \<Rightarrow> bool" where
  "shrinks p r \<longleftrightarrow> fst r \<noteq> Inl Out_of_fuel \<and> (\<forall>a. fst r = Inr a \<longrightarrow> left (snd r) \<le> left p)"

definition consumes :: "parser \<Rightarrow> 'a parsed \<Rightarrow> bool" where
  "consumes p r \<longleftrightarrow> fst r \<noteq> Inl Out_of_fuel \<and> (\<forall>a. fst r = Inr a \<longrightarrow> left (snd r) < left p)"

named_theorems left_simps

lemma shrinks_seq:
  assumes "shrinks p r" "\<And>a q. r = (Inr a, q) \<Longrightarrow> left q \<le> left p \<Longrightarrow> shrinks q (f a q)"
  shows "shrinks p (seqx r f)"
  using assms by (cases r; cases "fst r") (auto simp: shrinks_def intro: order_trans)

lemma consumes_seq:
  assumes "consumes p r" "\<And>a q. r = (Inr a, q) \<Longrightarrow> left q < left p \<Longrightarrow> shrinks q (f a q)"
  shows "consumes p (seqx r f)"
  using assms by (cases r; cases "fst r") (auto simp: shrinks_def consumes_def intro: le_less_trans)

lemma consumes_after:
  assumes "left q < left p" "shrinks q r"
  shows "consumes p r"
  using assms by (auto simp: shrinks_def consumes_def)

lemma shrinks_simps [left_simps]:
  "shrinks p (Inr a, q) \<longleftrightarrow> left q \<le> left p" "shrinks p (Inl e, q) \<longleftrightarrow> e \<noteq> Out_of_fuel"
  "consumes p (Inr a, q) \<longleftrightarrow> left q < left p" "consumes p (Inl e, q) \<longleftrightarrow> e \<noteq> Out_of_fuel"
  by (auto simp: shrinks_def consumes_def)

subsection \<open>The pieces\<close>

lemma accept_left:
  "accept f p = (Some c, q) \<Longrightarrow> left q < left p" "accept f p = (None, q) \<Longrightarrow> q = p"
  "accept_char d p = (True, q) \<Longrightarrow> left q < left p" "accept_char d p = (False, q) \<Longrightarrow> q = p"
  by (auto simp: accept_def accept_char_def left_def split: list.splits if_splits)

lemma while_left: "accept_while f p = (t, q) \<Longrightarrow> left q \<le> left p"
  by (auto simp: accept_while_def left_def length_dropWhile_le)

lemma space_left: "left (space p) \<le> left p"
  by (simp add: space_def left_def length_dropWhile_le)

lemma number_left:
  "unsigned_number p = (Some t, q) \<Longrightarrow> left q < left p" "unsigned_number p = (None, q) \<Longrightarrow> q = p"
proof -
  assume "unsigned_number p = (Some t, q)"
  then obtain c p1 ds p2 d p3 fs where
    "accept is_digit p = (Some c, p1)" "accept_while is_digit p1 = (ds, p2)"
    "accept (\<lambda>c. c = 46) p2 = (d, p3)" "accept_while is_digit p3 = (fs, q)"
    by (auto simp: unsigned_number_def split: prod.splits option.splits)
  note a = this
  have "left p3 \<le> left p2" using accept_left(1) [of "\<lambda>c. c = 46" p2] accept_left(2) [of "\<lambda>c. c = 46" p2 p3] a(3)
    by (cases d) (auto dest: less_imp_le)
  then show "left q < left p" using accept_left(1) [OF a(1)] while_left [OF a(2)] while_left [OF a(4)] by linarith
next
  assume "unsigned_number p = (None, q)"
  then show "q = p" using accept_left(2) by (auto simp: unsigned_number_def split: prod.splits option.splits)
qed

lemma name_left: "name_text p = (Some t, q) \<Longrightarrow> left q < left p" "name_text p = (None, q) \<Longrightarrow> q = p"
proof -
  assume "name_text p = (Some t, q)"
  then obtain c p1 cs where a: "accept is_alpha p = (Some c, p1)" "accept_while (\<lambda>c. is_alpha c \<or> is_digit c \<or> c = 95) p1 = (cs, q)"
    by (auto simp: name_text_def split: prod.splits option.splits)
  then show "left q < left p" using accept_left(1) [OF a(1)] while_left [OF a(2)] by linarith
next
  assume "name_text p = (None, q)"
  then show "q = p" using accept_left(2) by (auto simp: name_text_def split: prod.splits option.splits)
qed

lemma string_loop_left:
  "length (snd (string_loop s cs)) \<le> length cs \<and> fst (string_loop s cs) \<noteq> Inl Out_of_fuel"
proof (induction s cs rule: string_loop.induct)
  case (2 s c cs)
  show ?case
  proof (cases cs)
    case Nil
    then show ?thesis using 2 by (cases "c = 92"; cases "c = 39") simp_all
  next
    case (Cons h t)
    then show ?thesis using 2 by (cases t; cases "c = 92"; cases "c = 39") (auto simp: le_SucI)
  qed
qed simp

lemma string_left:
  "shrinks p (string_text p)" "string_text p = (Inr (Some s), q) \<Longrightarrow> left q < left p"
  "string_text p = (Inr None, q) \<Longrightarrow> q = p"
proof -
  have main: "shrinks p (string_text p) \<and> (\<forall>s q. string_text p = (Inr (Some s), q) \<longrightarrow> left q < left p) \<and>
      (\<forall>q. string_text p = (Inr None, q) \<longrightarrow> q = p)"
  proof (cases "accept_char 39 p")
    case (Pair b p1)
    show ?thesis
    proof (cases b)
      case False
      then show ?thesis using Pair accept_left(4) [of 39 p p1] by (auto simp: string_text_def left_simps)
    next
      case True
      then have 1: "left p1 < left p" using Pair accept_left(3) [of 39 p p1] by simp
      obtain r inp where l: "string_loop [] (p_inp p1) = (r, inp)" by (cases "string_loop [] (p_inp p1)")
      then have 2: "left (p1\<lparr>p_inp := inp\<rparr>) \<le> left p1" "r \<noteq> Inl Out_of_fuel"
        using string_loop_left [of "[]" "p_inp p1"] by (auto simp: left_def)
      obtain c p2 where c: "accept_char 39 (p1\<lparr>p_inp := inp\<rparr>) = (c, p2)" by (cases "accept_char 39 (p1\<lparr>p_inp := inp\<rparr>)")
      then have "left p2 \<le> left p1" using accept_left(3,4) [of 39 "p1\<lparr>p_inp := inp\<rparr>" p2] 2(1) by (cases c) auto
      then show ?thesis using Pair True 1 2 l c
        by (auto simp: string_text_def left_simps split: sum.splits bool.splits)
    qed
  qed
  then show "shrinks p (string_text p)" "string_text p = (Inr (Some s), q) \<Longrightarrow> left q < left p"
    "string_text p = (Inr None, q) \<Longrightarrow> q = p" by blast+
qed

text \<open>Building the tree reads nothing.\<close>

lemma insert_left: "shrinks p (ast_insert i bs p)" "ast_insert i bs p = (Inr a, q) \<Longrightarrow> left q = left p"
  by (auto simp: ast_insert_def Let_def left_simps left_def split: if_splits)

lemma append_left: "shrinks p (ast_append bs p)" "shrinks p (append_op oper p)" "shrinks p (append_data oper bs p)"
  "shrinks p (append_field f oc p)"
proof -
  have a: "shrinks p (ast_append bs p)" for p bs
    by (auto simp: ast_append_def Let_def left_simps intro: shrinks_seq insert_left)
  then have o: "shrinks p (append_op oper p)" for p oper by (simp add: append_op_def)
  show "shrinks p (ast_append bs p)" by (rule a)
  show "shrinks p (append_op oper p)" by (rule o)
  show "shrinks p (append_data oper bs p)" "shrinks p (append_field f oc p)"
    using a o by (auto simp: append_data_def append_field_def left_simps intro!: shrinks_seq)
qed

lemma combine_left: "shrinks p (combine tok l r p)"
  using insert_left(1) by (auto simp: combine_def left_simps)

lemma subscript_left: "shrinks p (subscript p)"
proof (cases "accept_char 91 p")
  case (Pair b p1)
  show ?thesis
  proof (cases b)
    case False
    then show ?thesis using Pair accept_left(4) [of 91 p p1] by (simp add: subscript_def left_simps)
  next
    case True
    then have 1: "left p1 \<le> left p" using Pair accept_left(3) [of 91 p p1] by simp
    obtain oc p2 where 2: "(case unsigned_number p1 of
        (Some t, p) \<Rightarrow> (t, p)
      | (None, p) \<Rightarrow> (case accept_char 63 p of (True, p) \<Rightarrow> ([63], p) | (False, p) \<Rightarrow> ([], p))) = (oc, p2)"
      by fastforce
    have "left p2 \<le> left p1"
      using 2 number_left [of p1] accept_left(3,4) [of 63]
      by (auto split: prod.splits option.splits bool.splits dest: less_imp_le)
    moreover obtain c p3 where c: "accept_char 93 p2 = (c, p3)" by (cases "accept_char 93 p2")
    moreover have "left p3 \<le> left p2" using c accept_left(3,4) [of 93 p2 p3] by (cases c) auto
    ultimately show ?thesis using Pair True 1 2 by (cases c) (auto simp: subscript_def left_simps)
  qed
qed

lemma field_left: "shrinks p (field_primary env tok p)"
  unfolding field_primary_def
  by (rule shrinks_seq [OF subscript_left]) (auto simp: Let_def left_simps append_left split: sum.splits)

lemma number_primary_left: "shrinks p (number_primary env tok p)"
  by (auto simp: number_primary_def left_simps append_left split: sum.splits)

lemma unary_left: "shrinks p (unary_primary c p)"
  by (auto simp: unary_primary_def left_simps append_left)

lemma op_left: "op_symbol p = (Some t, q) \<Longrightarrow> left q < left p \<and> left (unget t q) \<le> left p" "op_symbol p = (None, q) \<Longrightarrow> q = p"
  by (cases "p_inp p"; cases "tl (p_inp p)";
      auto simp: op_symbol_def accept_def left_def unget_def split: if_splits)+

subsection \<open>The recursion\<close>

definition total_primary :: "expr_env \<Rightarrow> nat \<Rightarrow> bool" where
  "total_primary env n \<longleftrightarrow> (\<forall>p. 2 * left p < n \<longrightarrow> consumes p (parse_primary env n p))"

definition total_binop :: "expr_env \<Rightarrow> nat \<Rightarrow> bool" where
  "total_binop env n \<longleftrightarrow> (\<forall>p k l. 2 * left p < n \<longrightarrow> shrinks p (parse_binop env n k l p))"

definition total_expr :: "expr_env \<Rightarrow> nat \<Rightarrow> bool" where
  "total_expr env n \<longleftrightarrow> (\<forall>p. 2 * left p + 1 < n \<longrightarrow> consumes p (parse_expr env n p))"

lemma shrinks_weaken: "left q \<le> left p \<Longrightarrow> shrinks q r \<Longrightarrow> shrinks p r"
  by (auto simp: shrinks_def)

lemma shrinks_done: "left q \<le> left p \<Longrightarrow> shrinks p (Inr a, space q)"
  using space_left [of q] by (simp add: left_simps)

lemma close_left: "accept_char c q = (True, r) \<Longrightarrow> left (space r) < left q"
  using accept_left(3) space_left [of r] by (metis le_less_trans)

text \<open>A string, or an expression in parentheses.\<close>

lemma string_or_paren_total:
  assumes "total_expr env n" "2 * left q < Suc n"
  shows "consumes q (seqx (string_text q) (\<lambda>s p. case s of
    Some s \<Rightarrow> seqx (append_data const_string (s @ [0]) p) (\<lambda>e p. (Inr e, space p))
  | None \<Rightarrow> (case accept_char 40 p of
      (True, p) \<Rightarrow> seqx (parse_expr env n p) (\<lambda>e p.
         case accept_char 41 p of (False, p) \<Rightarrow> (Inl Syntax_error, p) | (True, p) \<Rightarrow> (Inr e, space p))
    | (False, p) \<Rightarrow> (Inl Syntax_error, p))))"
proof (cases "string_text q")
  case (Pair x r3)
  show ?thesis
  proof (cases x)
    case (Inl e)
    then show ?thesis using Pair string_left(1) [of q] by (simp add: left_simps)
  next
    case (Inr s)
    show ?thesis
    proof (cases s)
      case (Some body)
      then have "left r3 < left q" using Pair Inr string_left(2) by blast
      moreover have "shrinks r3 (seqx (append_data const_string (body @ [0]) r3) (\<lambda>e p. (Inr e, space p)))"
        by (rule shrinks_seq [OF append_left(3)]) (auto intro: shrinks_done)
      ultimately show ?thesis using Pair Inr Some consumes_after by simp
    next
      case no_str: None
      then have r3: "r3 = q" using Pair Inr string_left(3) by blast
      obtain b r4 where op: "accept_char 40 q = (b, r4)" by (cases "accept_char 40 q")
      show ?thesis
      proof (cases b)
        case False
        then show ?thesis using Pair Inr no_str r3 op by (simp add: left_simps)
      next
        case True
        then have r4: "left r4 < left q" using op accept_left(3) [of 40 q r4] by simp
        then have "consumes r4 (parse_expr env n r4)" using assms by (auto simp: total_expr_def)
        then have "consumes r4 (seqx (parse_expr env n r4) (\<lambda>e p.
            case accept_char 41 p of (False, p) \<Rightarrow> (Inl Syntax_error, p) | (True, p) \<Rightarrow> (Inr e, space p)))"
          by (rule consumes_seq)
            (auto simp: left_simps intro!: shrinks_done less_imp_le dest: accept_left(3) close_left split: prod.split bool.split)
        then show ?thesis using Pair Inr no_str r3 op True r4 by (auto simp: consumes_def)
      qed
    qed
  qed
qed

lemma primary_total:
  assumes "total_primary env n" "total_expr env n"
  shows "total_primary env (Suc n)"
  unfolding total_primary_def
proof (intro allI impI)
  fix p assume fuel: "2 * left p < Suc n"
  obtain c q where a: "accept unary_char (space p) = (c, q)" by (cases "accept unary_char (space p)")
  show "consumes p (parse_primary env (Suc n) p)"
  proof (cases c)
    case (Some d)
    then have q: "left q < left p" using a accept_left(1) space_left [of p] by (metis less_le_trans)
    have "shrinks q (seqx (unary_primary d q) (\<lambda>e p. seqx (parse_primary env n p) (\<lambda>_ p. (Inr e, p))))"
    proof (rule shrinks_seq [OF unary_left])
      fix e r assume "left r \<le> left q"
      then have "consumes r (parse_primary env n r)" using assms(1) fuel q by (auto simp: total_primary_def)
      then show "shrinks r (seqx (parse_primary env n r) (\<lambda>_ p. (Inr e, p)))"
        by (intro shrinks_seq) (auto simp: shrinks_def consumes_def left_simps intro: less_imp_le)
    qed
    then show ?thesis using a Some consumes_after [OF q] by (simp add: parse_primary.simps)
  next
    case None
    then have q: "left q \<le> left p" using a accept_left(2) space_left by metis
    obtain t r where nm: "name_text q = (t, r)" by (cases "name_text q")
    show ?thesis
    proof (cases t)
      case (Some tok)
      then have "left r < left p" using nm name_left(1) q by (metis less_le_trans)
      moreover have "shrinks r (seqx (field_primary env tok r) (\<lambda>e p. (Inr e, space p)))"
        by (rule shrinks_seq [OF field_left]) (auto intro: shrinks_done)
      ultimately show ?thesis using a None nm Some consumes_after by (simp add: parse_primary.simps)
    next
      case no_name: None
      then have r: "r = q" using nm name_left(2) by blast
      obtain t2 r2 where num: "unsigned_number q = (t2, r2)" by (cases "unsigned_number q")
      show ?thesis
      proof (cases t2)
        case (Some tok)
        then have "left r2 < left p" using num number_left(1) q by (metis less_le_trans)
        moreover have "shrinks r2 (seqx (number_primary env tok r2) (\<lambda>e p. (Inr e, space p)))"
          by (rule shrinks_seq [OF number_primary_left]) (auto intro: shrinks_done)
        ultimately show ?thesis using a None nm no_name r num Some consumes_after by (simp add: parse_primary.simps)
      next
        case no_num: None
        then have r2: "r2 = q" using num number_left(2) by blast
        have "consumes p (parse_primary env (Suc n) p)"
          using string_or_paren_total [OF assms(2), of q] fuel q a None nm no_name r num no_num r2
          by (simp add: parse_primary.simps) (auto simp: consumes_def)
        then show ?thesis .
      qed
    qed
  qed
qed

lemma binop_total:
  assumes "total_primary env n" "total_binop env n"
  shows "total_binop env (Suc n)"
  unfolding total_binop_def
proof (intro allI impI)
  fix p k l assume fuel: "2 * left p < Suc n"
  obtain t q where o: "op_symbol (space p) = (t, q)" by (cases "op_symbol (space p)")
  show "shrinks p (parse_binop env (Suc n) k l p)"
  proof (cases t)
    case None
    then show ?thesis using o op_left(2) [of "space p" q] space_left [of p] by (simp add: parse_binop.simps left_simps)
  next
    case (Some ops)
    have q: "left q < left p" "left (unget ops q) \<le> left p"
      using o Some op_left(1) [of "space p" ops q] space_left [of p] by auto
    let ?tok = "which_op ops"
    let ?next = "\<lambda>rhs p. case op_symbol p of
        (None, p) \<Rightarrow> (Inr rhs, p)
      | (Some next_ops, p) \<Rightarrow>
          if prec ?tok < prec (which_op next_ops)
          then parse_binop env n (prec ?tok + 1) rhs (unget next_ops p)
          else (Inr rhs, unget next_ops p)"
    have main: "consumes q (seqx (parse_primary env n q) (\<lambda>rhs p.
        if rhs = 0 then (Inr 0, p)
        else seqx (?next rhs p) (\<lambda>rhs p.
          if rhs = 0 then (Inr 0, p)
          else seqx (combine ?tok l rhs p) (\<lambda>_ p. parse_binop env n k l p))))"
    proof (rule consumes_seq)
      show "consumes q (parse_primary env n q)" using assms(1) fuel q by (auto simp: total_primary_def)
      fix rhs r assume r: "left r < left q"
      have sb: "shrinks s (parse_binop env n j m s)" if "left s \<le> left r" for s j m
        using assms(2) that r q fuel by (auto simp: total_binop_def)
      have nx: "shrinks r (?next rhs r)"
      proof (cases "op_symbol r")
        case (Pair t2 r2)
        show ?thesis
        proof (cases t2)
          case None
          then show ?thesis using Pair op_left(2) [of r r2] by (simp add: left_simps)
        next
          case (Some nops)
          then have u: "left (unget nops r2) \<le> left r" using Pair op_left(1) by blast
          then show ?thesis using Pair Some shrinks_weaken [OF u sb [OF u]] by (simp add: left_simps)
        qed
      qed
      show "shrinks r (if rhs = 0 then (Inr 0, r)
        else seqx (?next rhs r) (\<lambda>rhs p.
          if rhs = 0 then (Inr 0, p)
          else seqx (combine ?tok l rhs p) (\<lambda>_ p. parse_binop env n k l p)))"
      proof (cases "rhs = 0")
        case False
        have "shrinks r (seqx (?next rhs r) (\<lambda>rhs p.
          if rhs = 0 then (Inr 0, p)
          else seqx (combine ?tok l rhs p) (\<lambda>_ p. parse_binop env n k l p)))"
        proof (rule shrinks_seq [OF nx])
          fix rhs2 s assume s: "left s \<le> left r"
          show "shrinks s (if rhs2 = 0 then (Inr 0, s)
            else seqx (combine ?tok l rhs2 s) (\<lambda>_ p. parse_binop env n k l p))"
          proof (cases "rhs2 = 0")
            case False
            have "shrinks s (seqx (combine ?tok l rhs2 s) (\<lambda>_ p. parse_binop env n k l p))"
              by (rule shrinks_seq [OF combine_left]) (use s in \<open>auto intro: sb\<close>)
            then show ?thesis using False by simp
          qed (simp add: left_simps)
        qed
        then show ?thesis using False by simp
      qed (simp add: left_simps)
    qed
    then have "shrinks p (seqx (parse_primary env n q) (\<lambda>rhs p.
        if rhs = 0 then (Inr 0, p)
        else seqx (?next rhs p) (\<lambda>rhs p.
          if rhs = 0 then (Inr 0, p)
          else seqx (combine ?tok l rhs p) (\<lambda>_ p. parse_binop env n k l p))))"
      using q(1) by (auto simp: shrinks_def consumes_def)
    then show ?thesis using o Some q(2) by (simp add: parse_binop.simps Let_def left_simps)
  qed
qed

lemma expr_total:
  assumes "total_primary env n" "total_binop env n"
  shows "total_expr env (Suc n)"
  unfolding total_expr_def
proof (intro allI impI)
  fix p assume fuel: "2 * left p + 1 < Suc n"
  have "consumes p (parse_primary env n p)" using assms(1) fuel by (simp add: total_primary_def)
  then show "consumes p (parse_expr env (Suc n) p)"
    unfolding parse_expr.simps(2)
    by (rule consumes_seq) (use assms(2) fuel in \<open>auto simp: left_simps total_binop_def\<close>)
qed

lemma parser_total: "total_primary env n \<and> total_binop env n \<and> total_expr env n"
proof (induction n)
  case 0
  then show ?case by (simp add: total_primary_def total_binop_def total_expr_def)
next
  case (Suc n)
  then show ?case using primary_total binop_total expr_total by blast
qed

lemma fuel_suffices: "fst (parse_expr env (fuel_for text) (new_parser text junk)) \<noteq> Inl Out_of_fuel"
proof -
  have "2 * left (new_parser text junk) + 1 < fuel_for text"
    by (simp add: left_def new_parser_def fuel_for_def)
  then show ?thesis using parser_total [of env "fuel_for text"] by (auto simp: total_expr_def consumes_def)
qed

end
