(* ===== verification/Expr_Syntax.thy ===== *)
theory Expr_Syntax
  imports Expr_Parse
begin

text \<open>
  What the parser of src/expr.cpp accepts and what it builds: expressions as trees, their
  encoding as bytes in prefix order, and the texts they are written as, with the precedence of
  the operators. The texts here have no white space; zero bytes, quotes and backslashes of a
  string are written as hexadecimal escapes.
\<close>

subsection \<open>Trees\<close>

datatype expr =
  ELong int | EDouble "byte list" | EString "byte list" | EField fldid int | EAny fldid |
  EUnary tree_op expr | EBinary tree_op expr expr

fun encode :: "expr \<Rightarrow> byte list" where
  "encode (ELong i) = op_byte const_long # enc_le 8 i"
| "encode (EDouble d) = op_byte const_double # d"
| "encode (EString s) = op_byte const_string # s @ [0]"
| "encode (EField f oc) = op_byte field # enc_le 4 (uint f) @ enc_le 4 oc"
| "encode (EAny f) = op_byte field_any # enc_le 4 (uint f)"
| "encode (EUnary oper e) = op_byte oper # encode e"
| "encode (EBinary oper l r) = op_byte oper # encode l @ encode r"

subsection \<open>Texts\<close>

datatype subscript = No_sub | Sub nat | Any_sub

datatype source =
  SNumber nat | SReal nat "byte list" | SString "byte list" | SField "byte list" subscript |
  SParen source | SUnary byte source | SBinary tree_op source source

definition escaped :: "byte \<Rightarrow> byte list" where
  "escaped c = (if c = 0 \<or> c = 39 \<or> c = 92 then 92 # hex2 c else [c])"

definition real_text :: "nat \<Rightarrow> byte list \<Rightarrow> byte list" where
  "real_text n fs = show_nat n @ 46 # fs"

fun sub_text :: "subscript \<Rightarrow> byte list" where
  "sub_text No_sub = []"
| "sub_text (Sub n) = 91 # show_nat n @ [93]"
| "sub_text Any_sub = [91, 63, 93]"

fun render :: "source \<Rightarrow> byte list" where
  "render (SNumber n) = show_nat n"
| "render (SReal n fs) = real_text n fs"
| "render (SString s) = 39 # concat (map escaped s) @ [39]"
| "render (SField name sub) = name @ sub_text sub"
| "render (SParen s) = 40 # render s @ [41]"
| "render (SUnary c s) = c # render s"
| "render (SBinary oper l r) = render l @ op_text oper @ render r"

fun unary_tree :: "byte \<Rightarrow> expr \<Rightarrow> expr" where
  "unary_tree c e =
     (if c = 45 then EUnary unary_minus e
      else if c = 33 then EUnary logical_negation e
      else if c = 126 then EUnary bitwise_negation e
      else e)"

fun tree_of :: "expr_env \<Rightarrow> source \<Rightarrow> expr" where
  "tree_of env (SNumber n) = ELong (int n)"
| "tree_of env (SReal n fs) = EDouble (case stof_of env (real_text n fs) of Inr d \<Rightarrow> d | Inl _ \<Rightarrow> [])"
| "tree_of env (SString s) = EString s"
| "tree_of env (SField name No_sub) = EField (Fldid32_of env name) 0"
| "tree_of env (SField name (Sub n)) = EField (Fldid32_of env name) (int n)"
| "tree_of env (SField name Any_sub) = EAny (Fldid32_of env name)"
| "tree_of env (SParen s) = tree_of env s"
| "tree_of env (SUnary c s) = unary_tree c (tree_of env s)"
| "tree_of env (SBinary oper l r) = EBinary oper (tree_of env l) (tree_of env r)"

subsection \<open>Well-formed texts\<close>

fun is_primary :: "source \<Rightarrow> bool" where
  "is_primary (SBinary _ _ _) = False"
| "is_primary _ = True"

definition op_prec :: "tree_op \<Rightarrow> int" where "op_prec oper = prec (which_op (op_text oper))"

definition is_binary :: "tree_op \<Rightarrow> bool" where
  "is_binary oper \<longleftrightarrow> multiplication \<le> oper \<and> oper < last_invalid"

fun top_prec :: "source \<Rightarrow> int" where
  "top_prec (SBinary oper _ _) = op_prec oper"
| "top_prec _ = 1000"

text \<open>The operands \<open>%%\<close> and \<open>!%\<close> accept.\<close>

fun text_operand :: "expr \<Rightarrow> bool" where
  "text_operand (EString _) = True" | "text_operand (EField _ _) = True" | "text_operand (EAny _) = True"
| "text_operand _ = False"

fun constant_text :: "expr \<Rightarrow> bool" where
  "constant_text (EString _) = True"
| "constant_text _ = False"

definition name_char :: "byte \<Rightarrow> bool" where
  "name_char c \<longleftrightarrow> is_alpha c \<or> is_digit c \<or> c = 95"

fun wf_source :: "expr_env \<Rightarrow> source \<Rightarrow> bool" where
  "wf_source env (SNumber n) = (n < 2 ^ 63)"
| "wf_source env (SReal n fs) =
     (list_all is_digit fs \<and> (case stof_of env (real_text n fs) of Inr d \<Rightarrow> length d = 8 | Inl _ \<Rightarrow> False))"
| "wf_source env (SString s) = (length s < 1024)"
| "wf_source env (SField name sub) =
     (name \<noteq> [] \<and> is_alpha (hd name) \<and> list_all name_char name \<and> Fldid32_of env name \<noteq> BADFLDID \<and>
      valid_operand_type (Fldtype32 (Fldid32_of env name)) \<and> (case sub of Sub n \<Rightarrow> n < 2 ^ 63 | _ \<Rightarrow> True))"
| "wf_source env (SParen s) = wf_source env s"
| "wf_source env (SUnary c s) = (unary_char c \<and> is_primary s \<and> wf_source env s)"
| "wf_source env (SBinary oper l r) =
     (is_binary oper \<and> wf_source env l \<and> wf_source env r \<and>
      op_prec oper \<le> top_prec l \<and> op_prec oper < top_prec r \<and>
      (oper = matches \<or> oper = not_matches \<longrightarrow>
         text_operand (tree_of env l) \<and> constant_text (tree_of env r)))"

text \<open>An expression as its first primary and the operators and primaries after it.\<close>

fun first_primary :: "source \<Rightarrow> source" where
  "first_primary (SBinary oper l r) = first_primary l"
| "first_primary s = s"

fun rest_text :: "source \<Rightarrow> byte list" where
  "rest_text (SBinary oper l r) = rest_text l @ op_text oper @ render r"
| "rest_text s = []"

lemma render_first: "render s = render (first_primary s) @ rest_text s"
  by (induction s) auto

lemma first_primary_simps [simp]:
  "is_primary (first_primary s)" "wf_source env s \<Longrightarrow> wf_source env (first_primary s)"
  "is_primary s \<Longrightarrow> first_primary s = s" "is_primary s \<Longrightarrow> rest_text s = []"
  by (induction s) auto

lemma size_first: "size (first_primary s) \<le> size s"
  by (induction s) auto

subsection \<open>Operators\<close>

lemma which_op_text:
  assumes "is_binary oper"
  shows "which_op (op_text oper) = \<lparr>prec = op_prec oper, bopcode = oper\<rparr>" "0 < op_prec oper" "op_prec oper < 1000"
    "oper \<noteq> first_invalid"
  using assms by (cases oper; simp add: is_binary_def op_prec_def which_op_def binops_def MAKE_OP_def)+

lemma op_text_shape:
  assumes "is_binary oper"
  shows "\<exists>c. first_op_char c \<and> (op_text oper = [c] \<or> (\<exists>d. second_op_char d \<and> op_text oper = [c, d]))"
  using assms by (cases oper) (simp_all add: is_binary_def first_op_char_def second_op_char_def)

end
