(* ===== verification/Expr_Correct.thy ===== *)
theory Expr_Correct
  imports Expr_Syntax
begin

text \<open>
  The parser of src/expr.cpp is correct: every well-formed text is read, and the bytes of the
  tree are the encoding of the expression it stands for.
\<close>

subsection \<open>Characters\<close>

text \<open>What may follow a primary: the end, a closing parenthesis or an operator.\<close>

definition stops :: "byte list \<Rightarrow> bool" where
  "stops r \<longleftrightarrow> r = [] \<or> hd r = 41 \<or> first_op_char (hd r)"

lemma stops_Cons:
  "stops (c # r) \<Longrightarrow> \<not> is_space c \<and> \<not> is_digit c \<and> \<not> is_alpha c \<and> c \<noteq> 95 \<and> c \<noteq> 46 \<and> c \<noteq> 91 \<and> \<not> name_char c"
  by (auto simp: stops_def first_op_char_def is_space_def is_digit_def is_alpha_def name_char_def)

lemma stops_not: "stops r \<Longrightarrow> takeWhile f r = [] \<and> dropWhile f r = r"
  if "\<And>c. f c \<Longrightarrow> is_space c \<or> name_char c" for f
  using stops_Cons that by (cases r) (auto simp: name_char_def)

lemma takeWhile_exact:
  assumes "list_all f xs" "r = [] \<or> \<not> f (hd r)"
  shows "takeWhile f (xs @ r) = xs" "dropWhile f (xs @ r) = r"
  using assms by (induction xs; cases r; simp)+

lemma while_exact:
  "list_all f xs \<Longrightarrow> r = [] \<or> \<not> f (hd r) \<Longrightarrow> p_inp p = xs @ r \<Longrightarrow> accept_while f p = (xs, p\<lparr>p_inp := r\<rparr>)"
  using takeWhile_exact [of f xs r] by (simp add: accept_while_def)

lemma takeWhile_stops:
  assumes "list_all f xs" "stops r" "\<And>c. f c \<Longrightarrow> is_space c \<or> name_char c"
  shows "takeWhile f (xs @ r) = xs" "dropWhile f (xs @ r) = r"
  using takeWhile_exact [OF assms(1), of r] stops_Cons [of "hd r" "tl r"] assms(2,3) by (cases r; auto)+

lemma accept_simps [simp]:
  "p_inp p = c # cs \<Longrightarrow> accept f p = (if f c then (Some c, p\<lparr>p_inp := cs\<rparr>) else (None, p))"
  "p_inp p = [] \<Longrightarrow> accept f p = (None, p)"
  "p_inp p = c # cs \<Longrightarrow> accept_char d p = (if c = d then (True, p\<lparr>p_inp := cs\<rparr>) else (False, p))"
  "p_inp p = [] \<Longrightarrow> accept_char d p = (False, p)"
  by (simp_all add: accept_def accept_char_def)

lemma same_inp [simp]: "p\<lparr>p_inp := p_inp p\<rparr> = p" "p\<lparr>p_op := p_op p\<rparr> = p" "p\<lparr>p_tree := p_tree p, p_size := p_size p\<rparr> = p"
  by simp_all

lemma space_stops: "stops (p_inp p) \<Longrightarrow> space p = p"
  using stops_not [of is_space "p_inp p"] by (simp add: space_def)

lemma space_Cons: "p_inp p = c # cs \<Longrightarrow> \<not> is_space c \<Longrightarrow> space p = p"
  by (simp add: space_def)

lemma digit_chars: "is_digit c \<Longrightarrow> name_char c \<and> \<not> is_space c \<and> \<not> is_alpha c \<and> \<not> unary_char c \<and> c \<noteq> 39 \<and> c \<noteq> 46"
  by (auto simp: is_digit_def name_char_def is_space_def is_alpha_def unary_char_def word_le_def)

lemma alpha_chars: "is_alpha c \<Longrightarrow> name_char c \<and> \<not> is_space c \<and> \<not> unary_char c"
  by (auto simp: name_char_def is_space_def is_alpha_def unary_char_def word_le_def)

lemma number_read:
  assumes "p_inp p = show_nat n @ r" "stops r \<or> (\<exists>r'. r = 93 # r')"
  shows "unsigned_number p = (Some (show_nat n), p\<lparr>p_inp := r\<rparr>)"
proof -
  obtain c ds where sn: "show_nat n = c # ds" using show_nat_nonempty [of n] by (cases "show_nat n") auto
  have d: "is_digit c" "list_all is_digit ds" using show_nat_digits [of n] by (simp_all add: sn list_all_iff)
  have r: "r = [] \<or> \<not> is_digit (hd r) \<and> hd r \<noteq> 46"
    using assms(2) stops_Cons by (cases r) (auto simp: is_digit_def)
  have a: "accept is_digit p = (Some c, p\<lparr>p_inp := ds @ r\<rparr>)" using assms(1) sn d(1) by simp
  have b: "accept_while is_digit (p\<lparr>p_inp := ds @ r\<rparr>) = (ds, p\<lparr>p_inp := r\<rparr>)"
    using while_exact [of is_digit ds r "p\<lparr>p_inp := ds @ r\<rparr>"] d(2) r by auto
  have c: "accept (\<lambda>c. c = 46) (p\<lparr>p_inp := r\<rparr>) = (None, p\<lparr>p_inp := r\<rparr>)"
    using r by (cases r) simp_all
  have "accept_while is_digit (p\<lparr>p_inp := r\<rparr>) = ([], p\<lparr>p_inp := r\<rparr>)"
    using r while_exact [of is_digit "[]" r "p\<lparr>p_inp := r\<rparr>"] by auto
  then show ?thesis by (simp add: unsigned_number_def a b c sn)
qed

lemma real_read:
  assumes "p_inp p = real_text n fs @ r" "list_all is_digit fs" "stops r"
  shows "unsigned_number p = (Some (real_text n fs), p\<lparr>p_inp := r\<rparr>)"
proof -
  obtain c ds where sn: "show_nat n = c # ds" using show_nat_nonempty [of n] by (cases "show_nat n") auto
  have d: "is_digit c" "list_all is_digit ds" using show_nat_digits [of n] by (simp_all add: sn list_all_iff)
  have "\<not> is_digit (46 :: byte)" by (simp add: is_digit_def word_le_def)
  then have t: "takeWhile is_digit (ds @ 46 # fs @ r) = ds" "dropWhile is_digit (ds @ 46 # fs @ r) = 46 # fs @ r"
    using takeWhile_exact [OF d(2), of "46 # fs @ r"] by simp_all
  have f: "takeWhile is_digit (fs @ r) = fs" "dropWhile is_digit (fs @ r) = r"
    by (rule takeWhile_stops [OF assms(2,3)]; simp add: name_char_def)+
  show ?thesis using assms(1) sn d(1) t f
    by (simp add: unsigned_number_def accept_while_def real_text_def)
qed

lemma name_read:
  assumes "p_inp p = name @ r" "name \<noteq> []" "is_alpha (hd name)" "list_all name_char name"
    and "r = [] \<or> \<not> name_char (hd r)"
  shows "name_text p = (Some name, p\<lparr>p_inp := r\<rparr>)"
proof -
  obtain c cs where n: "name = c # cs" using assms(2) by (cases name) auto
  have t: "takeWhile name_char (cs @ r) = cs" "dropWhile name_char (cs @ r) = r"
    using takeWhile_exact [of name_char cs r] assms(4,5) n by simp_all
  have "(\<lambda>c. is_alpha c \<or> is_digit c \<or> c = 95) = name_char" by (simp add: fun_eq_iff name_char_def)
  then show ?thesis using assms(1,3) n t by (simp add: name_text_def accept_while_def)
qed

subsection \<open>Strings\<close>

lemma hex_digit_props:
  assumes "d < 16"
  shows "is_hex (hex_digit d)" "base16 (hex_digit d) = word_of_nat d"
proof -
  have "\<forall>d \<in> set [0 ..< 16]. is_hex (hex_digit d) \<and> base16 (hex_digit d) = word_of_nat d"
    by code_simp
  then show "is_hex (hex_digit d)" "base16 (hex_digit d) = word_of_nat d" using assms by auto
qed

lemma hex2_byte: "push_bit 4 (base16 (hex_digit (unat b div 16))) OR base16 (hex_digit (unat b mod 16)) = b"
proof -
  have "unat b div 16 < 16" "unat b mod 16 < 16" using byte_less [of b] by simp_all
  moreover have "word_of_nat (unat b div 16) = drop_bit 4 b" "word_of_nat (unat b mod 16) = take_bit 4 b"
  proof -
    have "unat (drop_bit 4 b) = unat b div 16" "unat (take_bit 4 b) = unat b mod 16"
      by (simp_all add: unsigned_drop_bit_eq unsigned_take_bit_eq drop_bit_eq_div take_bit_eq_mod unat_div unat_mod)
    moreover have "word_of_nat (unat w) = w" for w :: byte by simp
    ultimately show "word_of_nat (unat b div 16) = drop_bit 4 b" "word_of_nat (unat b mod 16) = take_bit 4 b"
      by metis+
  qed
  moreover have "push_bit 4 (drop_bit 4 b) OR take_bit 4 b = b"
    by (rule bit_eqI) (auto simp: bit_simps)
  ultimately show ?thesis by (simp add: hex_digit_props)
qed

lemma string_loop_escaped: "string_loop acc (concat (map escaped s) @ 39 # r) = (Inr (acc @ s), 39 # r)"
proof (induction s arbitrary: acc)
  case Nil
  then show ?case by simp
next
  case (Cons c s)
  have h: "is_hex (hex_digit (unat c div 16))" "is_hex (hex_digit (unat c mod 16))"
    using byte_less [of c] by (simp_all add: hex_digit_props)
  show ?case
  proof (cases "c = 0 \<or> c = 39 \<or> c = 92")
    case True
    then have "string_loop acc (concat (map escaped (c # s)) @ 39 # r) =
        string_loop (acc @ [c]) (concat (map escaped s) @ 39 # r)"
      using h hex2_byte [of c] by (simp add: escaped_def hex2_def del: string_loop.simps)
        (simp add: string_loop.simps)
    then show ?thesis using Cons.IH by simp
  next
    case False
    then show ?thesis using Cons.IH by (simp add: escaped_def)
  qed
qed

lemma string_read:
  assumes "p_inp p = 39 # concat (map escaped s) @ 39 # r"
  shows "string_text p = (Inr (Some s), p\<lparr>p_inp := r\<rparr>)"
  using assms string_loop_escaped [of "[]" s r] by (simp add: string_text_def)

subsection \<open>The tree grows\<close>

definition room :: "parser \<Rightarrow> bool" where
  "room p \<longleftrightarrow> 1024 \<le> p_size p \<and> length (p_tree p) \<le> p_size p \<and> p_size p \<le> max 1024 (2 * length (p_tree p))"

text \<open>\<open>p'\<close> is \<open>p\<close> with the text read up to \<open>r\<close> and \<open>bs\<close> added to the tree.\<close>

definition grown :: "parser \<Rightarrow> byte list \<Rightarrow> byte list \<Rightarrow> parser \<Rightarrow> bool" where
  "grown p bs r p' \<longleftrightarrow> (\<exists>sz. p' = p\<lparr>p_inp := r, p_tree := p_tree p @ bs, p_size := sz\<rparr>) \<and> room p'"

lemma insert_ok:
  assumes "room p" "length bs \<le> 1024" "length (p_tree p) + length bs < 65536" "i \<le> length (p_tree p)"
  shows "\<exists>sz. ast_insert i bs p = (Inr (), p\<lparr>p_tree := take i (p_tree p) @ bs @ drop i (p_tree p), p_size := sz\<rparr>) \<and>
    room (p\<lparr>p_tree := take i (p_tree p) @ bs @ drop i (p_tree p), p_size := sz\<rparr>)"
proof (cases "p_size p - length (p_tree p) < length bs")
  case True
  have "(2 * p_size p) mod 2 ^ 32 = 2 * p_size p" using assms(1,3) by (auto simp: room_def)
  then show ?thesis using True assms
    by (intro exI [of _ "2 * p_size p"]) (auto simp: ast_insert_def Let_def room_def)
next
  case False
  then show ?thesis using assms
    by (intro exI [of _ "p_size p"]) (auto simp: ast_insert_def Let_def room_def)
qed

lemma append_ok:
  assumes "room p" "length bs \<le> 1024" "length (p_tree p) + length bs < 65536"
  shows "\<exists>p'. ast_append bs p = (Inr (length (p_tree p)), p') \<and> grown p bs (p_inp p) p'"
  using insert_ok [OF assms order_refl] by (auto simp: ast_append_def grown_def)

lemma grown_trans:
  assumes "grown p bs r p'" "grown p' cs r' p''"
  shows "grown p (bs @ cs) r' p''"
  using assms by (auto simp: grown_def)

lemma grown_sel:
  assumes "grown p bs r p'"
  shows "p_inp p' = r" "p_tree p' = p_tree p @ bs" "p_op p' = p_op p" "room p'"
  using assms by (auto simp: grown_def)

lemma append_op_ok:
  assumes "room p" "length (p_tree p) + 1 < 65536"
  shows "\<exists>p'. append_op oper p = (Inr (length (p_tree p)), p') \<and> grown p [op_byte oper] (p_inp p) p'"
  using append_ok [of p "[op_byte oper]"] assms by (simp add: append_op_def)

lemma append_data_ok:
  assumes "room p" "length bs \<le> 1024" "length (p_tree p) + length bs + 1 < 65536"
  shows "\<exists>p'. append_data oper bs p = (Inr (length (p_tree p)), p') \<and> grown p (op_byte oper # bs) (p_inp p) p'"
proof -
  obtain p1 where p1: "append_op oper p = (Inr (length (p_tree p)), p1)" "grown p [op_byte oper] (p_inp p) p1"
    using append_op_ok [of p oper] assms by auto
  note s = grown_sel [OF p1(2)]
  obtain p2 where "ast_append bs p1 = (Inr (length (p_tree p1)), p2)" "grown p1 bs (p_inp p1) p2"
    using append_ok [of p1 bs] assms s by auto
  then show ?thesis using p1 grown_trans [OF p1(2)] s(1) by (fastforce simp: append_data_def)
qed

lemma append_field_ok:
  assumes "room p" "length (p_tree p) + 9 < 65536"
  shows "\<exists>p'. append_field f oc p = (Inr (length (p_tree p)), p') \<and>
    grown p (op_byte field # enc_le 4 (uint f) @ enc_le 4 oc) (p_inp p) p'"
proof -
  obtain p1 where p1: "append_op field p = (Inr (length (p_tree p)), p1)" "grown p [op_byte field] (p_inp p) p1"
    using append_op_ok [of p field] assms by auto
  note s1 = grown_sel [OF p1(2)]
  obtain p2 where p2: "ast_append (enc_le 4 (uint f)) p1 = (Inr (length (p_tree p1)), p2)" "grown p1 (enc_le 4 (uint f)) (p_inp p) p2"
    using append_ok [of p1 "enc_le 4 (uint f)"] assms s1 by (auto simp del: enc_le.simps)
  note s2 = grown_sel [OF p2(2)]
  obtain p3 where p3: "ast_append (enc_le 4 oc) p2 = (Inr (length (p_tree p2)), p3)" "grown p2 (enc_le 4 oc) (p_inp p) p3"
    using append_ok [of p2 "enc_le 4 oc"] assms s1 s2 by (auto simp del: enc_le.simps)
  have "append_field f oc p = (Inr (length (p_tree p)), p3)"
    using p1(1) p2(1) p3(1) by (simp add: append_field_def)
  moreover have "grown p (op_byte field # enc_le 4 (uint f) @ enc_le 4 oc) (p_inp p) p3"
    using grown_trans [OF grown_trans [OF p1(2) p2(2)] p3(2)] by simp
  ultimately show ?thesis by blast
qed

subsection \<open>Reading the next operator\<close>

text \<open>What comes after an operator: the start of a primary.\<close>

definition starts :: "byte list \<Rightarrow> bool" where
  "starts r \<longleftrightarrow> r \<noteq> [] \<and> \<not> second_op_char (hd r) \<and> \<not> is_space (hd r)"

text \<open>The parser is about to read \<open>r\<close>, whose first operator may have been put back.\<close>

definition reading_at :: "parser \<Rightarrow> byte list \<Rightarrow> bool" where
  "reading_at p r \<longleftrightarrow> p_op p = [] \<and> p_inp p = r \<or>
     (\<exists>oper. is_binary oper \<and> p_op p = op_text oper \<and> r = op_text oper @ p_inp p \<and> starts (p_inp p))"

definition ends :: "byte list \<Rightarrow> bool" where
  "ends r \<longleftrightarrow> r = [] \<or> hd r = 41"

text \<open>What follows an expression whose operators bind at least as tightly as \<open>k\<close>.\<close>

definition follows :: "int \<Rightarrow> byte list \<Rightarrow> bool" where
  "follows k r \<longleftrightarrow> ends r \<or> (\<exists>oper r'. is_binary oper \<and> r = op_text oper @ r' \<and> starts r' \<and> op_prec oper \<le> k)"

lemma op_chars: "first_op_char c \<Longrightarrow> \<not> is_space c" "c = 41 \<Longrightarrow> \<not> is_space c \<and> \<not> first_op_char c"
  by (auto simp: first_op_char_def is_space_def)

lemma op_text_stops: "is_binary oper \<Longrightarrow> stops (op_text oper @ r)"
  using op_text_shape [of oper] by (auto simp: stops_def)

lemma follows_stops: "follows k r \<Longrightarrow> stops r"
  using op_text_stops by (auto simp: follows_def ends_def stops_def)

lemma follows_mono: "follows k r \<Longrightarrow> k \<le> k' \<Longrightarrow> follows k' r"
  by (auto simp: follows_def)

lemma op_text_munch:
  assumes "is_binary a" "is_binary b" "op_text a @ r = op_text b @ r'" "starts r" "starts r'"
  shows "op_text a = op_text b" "r = r'"
proof -
  obtain c where c: "op_text a = [c] \<or> (\<exists>d. second_op_char d \<and> op_text a = [c, d])"
    using op_text_shape [OF assms(1)] by blast
  obtain c' where c': "op_text b = [c'] \<or> (\<exists>d. second_op_char d \<and> op_text b = [c', d])"
    using op_text_shape [OF assms(2)] by blast
  show "op_text a = op_text b" "r = r'"
    using c c' assms(3-5) by (auto simp: starts_def)
qed

lemma op_read:
  assumes "reading_at p (op_text oper @ r)" "is_binary oper" "starts r"
  shows "op_symbol p = (Some (op_text oper), p\<lparr>p_op := [], p_inp := r\<rparr>)" "space p = p"
proof -
  obtain c where c: "first_op_char c" "op_text oper = [c] \<or> (\<exists>d. second_op_char d \<and> op_text oper = [c, d])"
    using op_text_shape [OF assms(2)] by blast
  obtain b bs where r: "r = b # bs" "\<not> second_op_char b" "\<not> is_space b" using assms(3) by (cases r) (auto simp: starts_def)
  consider "p_op p = []" "p_inp p = op_text oper @ r"
    | o2 where "is_binary o2" "p_op p = op_text o2" "op_text oper @ r = op_text o2 @ p_inp p" "starts (p_inp p)"
    using assms(1) by (auto simp: reading_at_def)
  then have "op_symbol p = (Some (op_text oper), p\<lparr>p_op := [], p_inp := r\<rparr>) \<and> space p = p"
  proof cases
    case 1
    have p: "p = p\<lparr>p_op := []\<rparr>" using 1(1) by simp
    show ?thesis using 1 c r op_chars(1) [OF c(1)] by (subst (2) p) (auto simp: op_symbol_def space_def)
  next
    case 2
    have eq: "op_text o2 = op_text oper" "p_inp p = r"
      using op_text_munch [OF assms(2) 2(1,3) assms(3) 2(4)] by simp_all
    have "op_text oper \<noteq> []" using c(2) by auto
    moreover have "p\<lparr>p_op := [], p_inp := r\<rparr> = p\<lparr>p_op := []\<rparr>" using eq(2) by (metis parser.surjective parser.update_convs(1,2))
    ultimately show ?thesis using 2(2) eq r by (simp add: op_symbol_def space_def)
  qed
  then show "op_symbol p = (Some (op_text oper), p\<lparr>p_op := [], p_inp := r\<rparr>)" "space p = p" by simp_all
qed

lemma op_none:
  assumes "reading_at p r" "ends r"
  shows "op_symbol p = (None, p)" "space p = p" "p_op p = []"
proof -
  have no: "\<not> ends (op_text oper @ r')" if "is_binary oper" for oper r'
    using op_text_shape [OF that] op_chars(2) by (auto simp: ends_def)
  then have p: "p_op p = []" "p_inp p = r" using assms by (auto simp: reading_at_def)
  then show "p_op p = []" "op_symbol p = (None, p)" "space p = p"
    using assms(2) op_chars(2) [of "hd r"] by (cases r; auto simp: op_symbol_def ends_def space_def)+
qed

lemma reading_unget:
  assumes "is_binary oper" "starts r"
  shows "reading_at (unget (op_text oper) (p\<lparr>p_op := [], p_inp := r\<rparr>)) (op_text oper @ r)"
  using assms by (auto simp: reading_at_def unget_def)

text \<open>A loop at the end of its expression, or before an operator that binds less tightly.\<close>

lemma binop_returns:
  assumes "reading_at p r" "follows j r" "j < k" "0 < n"
  shows "\<exists>p'. parse_binop env n k lhs p = (Inr lhs, p') \<and> reading_at p' r \<and> p_tree p' = p_tree p \<and> p_size p' = p_size p"
proof -
  obtain m where n: "n = Suc m" using assms(4) by (cases n) auto
  show ?thesis
  proof (cases "ends r")
    case True
    then show ?thesis using op_none [OF assms(1)] assms(1) by (simp add: n parse_binop.simps)
  next
    case False
    then obtain oper r' where o: "is_binary oper" "r = op_text oper @ r'" "starts r'" "op_prec oper \<le> j"
      using assms(2) by (auto simp: follows_def)
    note rd = op_read [OF assms(1) [unfolded o(2)] o(1,3)]
    then show ?thesis using which_op_text [OF o(1)] o assms(3) reading_unget [OF o(1,3), of p]
      by (auto simp: n parse_binop.simps Let_def unget_def)
  qed
qed

subsection \<open>The shape of a text\<close>

lemma render_starts: "wf_source env s \<Longrightarrow> is_primary s \<Longrightarrow> starts (render s @ r)"
proof (cases s)
  case (SNumber n)
  then show ?thesis
    using show_nat_nonempty [of n] show_nat_digits [of n] digit_chars [of "hd (show_nat n)"]
    by (cases "show_nat n") (auto simp: starts_def second_op_char_def is_digit_def)
next
  case (SReal n fs)
  then show ?thesis
    using show_nat_nonempty [of n] show_nat_digits [of n] digit_chars [of "hd (show_nat n)"]
    by (cases "show_nat n") (auto simp: starts_def second_op_char_def is_digit_def real_text_def)
next
  case (SField name sub)
  moreover assume "wf_source env s"
  ultimately show ?thesis
    using alpha_chars [of "hd name"] by (cases name) (auto simp: starts_def second_op_char_def is_alpha_def)
qed (auto simp: starts_def second_op_char_def is_space_def unary_char_def)

lemma rest_starts:
  assumes "wf_source env s" "\<not> is_primary s"
  shows "\<exists>oper r. is_binary oper \<and> top_prec s \<le> op_prec oper \<and> rest_text s = op_text oper @ r \<and> (\<forall>q. starts (r @ q))"
  using assms
proof (induction s)
  case (SBinary oper l r)
  show ?case
  proof (cases "is_primary l")
    case True
    moreover have "starts (render r @ q)" for q
      using render_starts [of env "first_primary r" "rest_text r @ q"] SBinary.prems(1) by (simp add: render_first [of r])
    ultimately show ?thesis using SBinary.prems(1) by (intro exI [of _ oper] exI [of _ "render r"]) simp
  next
    case False
    then obtain o1 r1 where "is_binary o1" "top_prec l \<le> op_prec o1" "rest_text l = op_text o1 @ r1" "\<forall>q. starts (r1 @ q)"
      using SBinary by auto
    then show ?thesis using SBinary.prems(1) by (intro exI [of _ o1] exI [of _ "r1 @ op_text oper @ render r"]) auto
  qed
qed simp_all

lemma rest_stops: "wf_source env s \<Longrightarrow> follows k r \<Longrightarrow> stops (rest_text s @ r)"
  using rest_starts [of env s] op_text_stops follows_stops by (cases "is_primary s") auto

lemma encode_nonempty [simp]: "encode e \<noteq> []" "0 < length (encode e)"
  by (cases e; simp)+

lemma text_operand_code:
  "text_operand e \<Longrightarrow> hd (encode e) = op_byte const_string \<or> hd (encode e) = op_byte field \<or> hd (encode e) = op_byte field_any"
  "constant_text e \<Longrightarrow> hd (encode e) = op_byte const_string"
  by (cases e; simp)+

lemma length_first_encode: "length (encode (tree_of env (first_primary s))) \<le> length (encode (tree_of env s))"
  by (induction s) auto

lemma combine_ok:
  assumes "room p" "p_tree p = T @ encode l @ encode r" "length (p_tree p) + 1 < 65536"
    and "oper = matches \<or> oper = not_matches \<longrightarrow> text_operand l \<and> constant_text r"
  shows "\<exists>p'. combine \<lparr>prec = k, bopcode = oper\<rparr> (length T) (length T + length (encode l)) p = (Inr (), p') \<and> room p' \<and>
    p_tree p' = T @ encode (EBinary oper l r) \<and> p_inp p' = p_inp p \<and> p_op p' = p_op p"
proof -
  have "peek_tree (length T) p = hd (encode l)" "peek_tree (length T + length (encode l)) p = hd (encode r)"
    by (simp_all add: peek_tree_def assms(2) nth_append hd_conv_nth)
  then show ?thesis
    using insert_ok [OF assms(1), of "[op_byte oper]" "length T"] assms(2-4) text_operand_code [of l] text_operand_code(2) [of r]
    by (auto simp: combine_def)
qed

subsection \<open>Precedence climbing\<close>

definition reads_primary :: "expr_env \<Rightarrow> source \<Rightarrow> bool" where
  "reads_primary env s \<longleftrightarrow>
     (\<forall>n p r. room p \<longrightarrow> p_op p = [] \<longrightarrow> p_inp p = render s @ r \<longrightarrow> stops r \<longrightarrow> 2 * length (p_inp p) < n \<longrightarrow>
        p_tree p \<noteq> [] \<longrightarrow> length (p_tree p) + length (encode (tree_of env s)) < 65536 \<longrightarrow>
        (\<exists>p'. parse_primary env n p = (Inr (length (p_tree p)), p') \<and> grown p (encode (tree_of env s)) r p'))"

definition climbs :: "expr_env \<Rightarrow> source \<Rightarrow> bool" where
  "climbs env s \<longleftrightarrow>
     (\<forall>n k T p r. room p \<longrightarrow> reading_at p (rest_text s @ r) \<longrightarrow> follows (top_prec s) r \<longrightarrow> k \<le> top_prec s \<longrightarrow>
        2 * length (rest_text s @ r) < n \<longrightarrow> p_tree p = T @ encode (tree_of env (first_primary s)) \<longrightarrow> T \<noteq> [] \<longrightarrow>
        length T + length (encode (tree_of env s)) < 65536 \<longrightarrow>
        (\<exists>n' p'. parse_binop env n k (length T) p = parse_binop env n' k (length T) p' \<and> 2 * length r < n' \<and>
           reading_at p' r \<and> room p' \<and> p_tree p' = T @ encode (tree_of env s)))"

lemma climb_primary: "is_primary s \<Longrightarrow> climbs env s"
  by (auto simp: climbs_def)

text \<open>The right operand: a primary, and the tighter operators after it when there are any.\<close>

lemma right_operand:
  assumes wf: "wf_source env r1" and oper: "op_prec oper < top_prec r1" and f: "follows (op_prec oper) r"
    and ih: "climbs env r1" and p: "room p" "p_op p = []" "p_inp p = rest_text r1 @ r"
    and fuel: "2 * length (rest_text r1 @ r) < n"
    and T: "p_tree p = T @ encode (tree_of env (first_primary r1))" "T \<noteq> []"
      "length T + length (encode (tree_of env r1)) < 65536"
  shows "\<exists>p'. (case op_symbol p of
                (None, p) \<Rightarrow> (Inr (length T), p)
              | (Some next_ops, p) \<Rightarrow>
                  if op_prec oper < prec (which_op next_ops)
                  then parse_binop env n (op_prec oper + 1) (length T) (unget next_ops p)
                  else (Inr (length T), unget next_ops p)) = (Inr (length T), p') \<and>
           reading_at p' r \<and> room p' \<and> p_tree p' = T @ encode (tree_of env r1)"
proof (cases "is_primary r1")
  case True
  then have at: "reading_at p r" "p_tree p = T @ encode (tree_of env r1)" using p T(1) by (simp_all add: reading_at_def)
  show ?thesis
  proof (cases "ends r")
    case True
    then show ?thesis using op_none [OF at(1)] at p(1) by simp
  next
    case False
    then obtain o' r' where o': "is_binary o'" "r = op_text o' @ r'" "starts r'" "op_prec o' \<le> op_prec oper"
      using f by (auto simp: follows_def)
    show ?thesis
      using op_read(1) [OF at(1) [unfolded o'(2)] o'(1,3)] which_op_text [OF o'(1)] o' reading_unget [OF o'(1,3), of p] at(2) p(1)
      by (simp add: room_def unget_def)
  qed
next
  case False
  then obtain o' r' where o': "is_binary o'" "top_prec r1 \<le> op_prec o'" "rest_text r1 = op_text o' @ r'" "\<forall>q. starts (r' @ q)"
    using rest_starts [OF wf] by blast
  let ?p = "unget (op_text o') (p\<lparr>p_op := [], p_inp := r' @ r\<rparr>)"
  have at: "reading_at p (op_text o' @ r' @ r)" using p o'(3) by (simp add: reading_at_def)
  have s: "starts (r' @ r)" using o'(4) by blast
  have rd: "op_symbol p = (Some (op_text o'), p\<lparr>p_op := [], p_inp := r' @ r\<rparr>)" by (rule op_read [OF at o'(1) s])
  have at': "reading_at ?p (rest_text r1 @ r)" using reading_unget [OF o'(1) s] o'(3) by simp
  have f': "follows (top_prec r1) r" using follows_mono [OF f] oper by simp
  have "room ?p" "p_tree ?p = p_tree p" using p(1) by (simp_all add: room_def unget_def)
  then obtain n' p' where p': "parse_binop env n (op_prec oper + 1) (length T) ?p = parse_binop env n' (op_prec oper + 1) (length T) p'"
    "2 * length r < n'" "reading_at p' r" "room p'" "p_tree p' = T @ encode (tree_of env r1)"
    using ih [unfolded climbs_def, rule_format, of ?p r "op_prec oper + 1" n T] at' f' oper fuel T by auto
  have n': "0 < n'" using p'(2) by simp
  obtain p'' where "parse_binop env n' (op_prec oper + 1) (length T) p' = (Inr (length T), p'')" "reading_at p'' r"
    "p_tree p'' = p_tree p'" "p_size p'' = p_size p'"
    using binop_returns [OF p'(3) f _ n', of "op_prec oper + 1" env "length T"] by auto
  then show ?thesis using rd p' which_op_text [OF o'(1)] o'(2) oper by (simp add: room_def)
qed

lemma climb_binary:
  assumes wf: "wf_source env (SBinary oper l r1)" and l: "climbs env l" and r1: "climbs env r1"
    and prim: "reads_primary env (first_primary r1)"
  shows "climbs env (SBinary oper l r1)"
  unfolding climbs_def
proof (intro allI impI)
  fix n k T p r
  let ?l = "encode (tree_of env l)" and ?r = "encode (tree_of env r1)" and ?s = "SBinary oper l r1"
  assume rm: "room p" and at: "reading_at p (rest_text ?s @ r)" and f: "follows (top_prec ?s) r" and k: "k \<le> top_prec ?s"
    and fuel: "2 * length (rest_text ?s @ r) < n" and tree: "p_tree p = T @ encode (tree_of env (first_primary ?s))"
    and T: "T \<noteq> []" and len: "length T + length (encode (tree_of env ?s)) < 65536"
  have o: "is_binary oper" "op_prec oper \<le> top_prec l" "op_prec oper < top_prec r1" using wf by simp_all
  have s: "starts (render r1 @ q)" for q
    using render_starts [of env "first_primary r1" "rest_text r1 @ q"] wf by (simp add: render_first [of r1])
  let ?rest = "op_text oper @ render r1 @ r"
  have f1: "follows (top_prec l) ?rest" using o s unfolding follows_def by blast
  obtain n1 p1 where 1: "parse_binop env n k (length T) p = parse_binop env n1 k (length T) p1" "2 * length ?rest < n1"
    "reading_at p1 ?rest" "room p1" "p_tree p1 = T @ ?l"
    using l [unfolded climbs_def, rule_format, of p ?rest k n T] rm at f1 k o(2) fuel tree T len by auto
  obtain m where m: "n1 = Suc m" using 1(2) by (cases n1) auto
  note rd = op_read [OF 1(3) o(1) s]
  let ?p1 = "p1\<lparr>p_op := [], p_inp := render r1 @ r\<rparr>"
  have f2: "follows (op_prec oper) r" using f by simp
  have ln: "1 \<le> length (op_text oper)" using op_text_shape [OF o(1)] by auto
  have fm: "2 * length (render r1 @ r) + 1 < m" using 1(2) m ln unfolding length_append by presburger
  have rt: "length (rest_text r1 @ r) \<le> length (render r1 @ r)" by (simp add: render_first [of r1])
  have le: "length (encode (tree_of env (first_primary r1))) \<le> length ?r" by (rule length_first_encode)
  have st: "stops (rest_text r1 @ r)" using rest_stops [of env r1 "op_prec oper" r] wf f2 by simp
  have p1: "room ?p1" "p_op ?p1 = []" "p_inp ?p1 = render (first_primary r1) @ rest_text r1 @ r" "p_tree ?p1 = T @ ?l"
    using 1(4,5) by (simp_all add: room_def render_first [of r1])
  obtain p2 where p2: "parse_primary env m ?p1 = (Inr (length (T @ ?l)), p2)"
    "grown ?p1 (encode (tree_of env (first_primary r1))) (rest_text r1 @ r) p2"
    using prim [unfolded reads_primary_def, rule_format, of ?p1 "rest_text r1 @ r" m] p1 st fm rt le T len
    by (auto simp: render_first [of r1])
  note g2 = grown_sel [OF p2(2)]
  obtain p3 where p3: "(case op_symbol p2 of
        (None, p) \<Rightarrow> (Inr (length (T @ ?l)), p)
      | (Some next_ops, p) \<Rightarrow>
          if op_prec oper < prec (which_op next_ops)
          then parse_binop env m (op_prec oper + 1) (length (T @ ?l)) (unget next_ops p)
          else (Inr (length (T @ ?l)), unget next_ops p)) = (Inr (length (T @ ?l)), p3)"
      "reading_at p3 r" "room p3" "p_tree p3 = (T @ ?l) @ ?r"
    using right_operand [OF _ o(3) f2 r1 g2(4), where n = m and T = "T @ ?l"] wf g2 p1 fm rt T len by auto
  have mat: "oper = matches \<or> oper = not_matches \<longrightarrow> text_operand (tree_of env l) \<and> constant_text (tree_of env r1)"
    using wf by auto
  obtain p4 where p4: "combine \<lparr>prec = op_prec oper, bopcode = oper\<rparr> (length T) (length T + length ?l) p3 = (Inr (), p4)"
    "room p4" "p_tree p4 = T @ encode (tree_of env ?s)" "p_inp p4 = p_inp p3" "p_op p4 = p_op p3"
    using combine_ok [of p3 T "tree_of env l" "tree_of env r1" oper "op_prec oper"] p3(3,4) mat len by auto
  have at4: "reading_at p4 r" using p3(2) p4(4,5) by (simp add: reading_at_def)
  have "parse_binop env n k (length T) p = parse_binop env m k (length T) p4"
    using 1(1) rd which_op_text [OF o(1)] k o(1) p2(1) p3(1) [unfolded length_append] p4(1) T
    by (simp add: m parse_binop.simps(2) Let_def cong: option.case_cong if_cong)
  moreover have "2 * length r < m" using fm by simp
  ultimately show "\<exists>n' p'. parse_binop env n k (length T) p = parse_binop env n' k (length T) p' \<and> 2 * length r < n' \<and>
      reading_at p' r \<and> room p' \<and> p_tree p' = T @ encode (tree_of env ?s)"
    using at4 p4(2,3) by blast
qed

lemma climb_all:
  assumes "wf_source env s" "\<And>q. is_primary q \<Longrightarrow> wf_source env q \<Longrightarrow> size q \<le> size s \<Longrightarrow> reads_primary env q"
  shows "climbs env s"
  using assms
proof (induction s)
  case (SBinary oper l r1)
  have prim: "reads_primary env (first_primary r1)"
    using SBinary.prems size_first [of r1] by simp
  show ?case by (rule climb_binary [OF SBinary.prems(1) SBinary.IH(1) SBinary.IH(2) prim]) (use SBinary.prems in auto)
qed (rule climb_primary; simp)+

text \<open>A whole expression, up to the end of the text or a closing parenthesis.\<close>

lemma expr_read:
  assumes wf: "wf_source env s" and prim: "\<And>q. is_primary q \<Longrightarrow> wf_source env q \<Longrightarrow> size q \<le> size s \<Longrightarrow> reads_primary env q"
    and p: "room p" "p_op p = []" "p_inp p = render s @ r" "ends r" "2 * length (p_inp p) + 1 < n" "p_tree p \<noteq> []"
      "length (p_tree p) + length (encode (tree_of env s)) < 65536"
  shows "\<exists>p'. parse_expr env n p = (Inr (length (p_tree p)), p') \<and> grown p (encode (tree_of env s)) r p'"
proof -
  obtain m where m: "n = Suc m" using p(5) by (cases n) auto
  have f: "follows j r" for j using p(4) by (simp add: follows_def)
  have inp: "p_inp p = render (first_primary s) @ rest_text s @ r" using p(3) by (simp add: render_first [of s])
  have le: "length (encode (tree_of env (first_primary s))) \<le> length (encode (tree_of env s))" by (rule length_first_encode)
  have rp: "reads_primary env (first_primary s)" using prim [of "first_primary s"] wf size_first [of s] by simp
  obtain p1 where p1: "parse_primary env m p = (Inr (length (p_tree p)), p1)"
    "grown p (encode (tree_of env (first_primary s))) (rest_text s @ r) p1"
    using rp [unfolded reads_primary_def, rule_format, of p "rest_text s @ r" m] inp p rest_stops [OF wf f] le m by auto
  note g = grown_sel [OF p1(2)]
  have at: "reading_at p1 (rest_text s @ r)" using g p(2) by (simp add: reading_at_def)
  have tp: "0 \<le> top_prec s"
    using wf which_op_text(2) by (cases s) (auto simp: less_imp_le)
  have fuel: "2 * length (rest_text s @ r) < m" using p(5) inp m by simp
  obtain n' p' where p': "parse_binop env m 0 (length (p_tree p)) p1 = parse_binop env n' 0 (length (p_tree p)) p'"
    "2 * length r < n'" "reading_at p' r" "room p'" "p_tree p' = p_tree p @ encode (tree_of env s)"
    using climb_all [OF wf prim, unfolded climbs_def, rule_format, of p1 r 0 m "p_tree p"] g at f tp fuel p(6,7) by auto
  obtain k where k: "n' = Suc k" using p'(2) by (cases n') auto
  note e = op_none [OF p'(3) p(4)]
  have "parse_expr env n p = (Inr (length (p_tree p)), p')"
    using p1(1) p'(1) e p(6) by (simp add: m k parse_expr.simps parse_binop.simps)
  moreover have "grown p (encode (tree_of env s)) r p'"
  proof -
    have "p_inp p' = r" using p'(3) e(3) by (auto simp: reading_at_def)
    then have "p' = p\<lparr>p_inp := r, p_tree := p_tree p @ encode (tree_of env s), p_size := p_size p'\<rparr>"
      using p'(5) e(3) p(2) by (cases p'; cases p) simp
    then show ?thesis using p'(4) unfolding grown_def by blast
  qed
  ultimately show ?thesis by blast
qed

subsection \<open>Primaries\<close>

lemma not_unary: "p_inp p = c # cs \<Longrightarrow> \<not> is_space c \<Longrightarrow> \<not> unary_char c \<Longrightarrow> accept unary_char (space p) = (None, p)"
  by (simp add: space_Cons)

lemma space_grown: "grown p bs r p' \<Longrightarrow> stops r \<Longrightarrow> space p' = p'"
  using grown_sel(1) space_stops by fastforce

lemma grown_inp: "grown (p\<lparr>p_inp := i\<rparr>) bs r p' \<Longrightarrow> grown p bs r p'"
  by (auto simp: grown_def)

lemma room_inp [simp]: "room (p\<lparr>p_inp := i\<rparr>) = room p"
  by (simp add: room_def)

lemma number_primary_read:
  assumes "room p" "p_inp p = show_nat n @ r" "stops r" "n < 2 ^ 63" "length (p_tree p) + 9 < 65536"
  shows "\<exists>p'. parse_primary env (Suc m) p = (Inr (length (p_tree p)), p') \<and> grown p (encode (ELong (int n))) r p'"
proof -
  obtain c ds where sn: "show_nat n = c # ds" using show_nat_nonempty [of n] by (cases "show_nat n") auto
  have c: "is_digit c" "46 \<notin> set (show_nat n)"
    using show_nat_digits [of n] digit_chars by (auto simp: sn)
  note ch = digit_chars [OF c(1)]
  have u: "accept unary_char (space p) = (None, p)" using assms(2) sn ch by (intro not_unary) auto
  have nm: "name_text p = (None, p)" using assms(2) sn ch by (simp add: name_text_def)
  have num: "unsigned_number p = (Some (show_nat n), p\<lparr>p_inp := r\<rparr>)" by (rule number_read) (use assms in auto)
  have "stol (show_nat n) = Inr (int n)" using stol_show_int [of "int n"] assms(4) by (simp add: show_int_def)
  then obtain p' where "number_primary env (show_nat n) (p\<lparr>p_inp := r\<rparr>) = (Inr (length (p_tree p)), p')"
    "grown p (encode (ELong (int n))) r p'"
    using append_data_ok [of "p\<lparr>p_inp := r\<rparr>" "enc_le 8 (int n)" const_long] assms(1,5) c(2)
    by (auto simp: number_primary_def simp del: enc_le.simps intro: grown_inp)
  then show ?thesis
    using space_grown [OF _ assms(3)] by (simp add: parse_primary.simps u nm num)
qed

lemma real_primary_read:
  assumes "room p" "p_inp p = real_text n fs @ r" "stops r" "list_all is_digit fs" "stof_of env (real_text n fs) = Inr d"
    "length d = 8" "length (p_tree p) + 9 < 65536"
  shows "\<exists>p'. parse_primary env (Suc m) p = (Inr (length (p_tree p)), p') \<and> grown p (encode (EDouble d)) r p'"
proof -
  obtain c ds where sn: "show_nat n = c # ds" using show_nat_nonempty [of n] by (cases "show_nat n") auto
  have c: "is_digit c" using show_nat_digits [of n] by (auto simp: sn)
  note ch = digit_chars [OF c]
  have u: "accept unary_char (space p) = (None, p)" using assms(2) sn ch by (intro not_unary) (auto simp: real_text_def)
  have nm: "name_text p = (None, p)" using assms(2) sn ch by (simp add: name_text_def real_text_def)
  have num: "unsigned_number p = (Some (real_text n fs), p\<lparr>p_inp := r\<rparr>)" by (rule real_read) (use assms in auto)
  have "46 \<in> set (real_text n fs)" by (simp add: real_text_def)
  then obtain p' where "number_primary env (real_text n fs) (p\<lparr>p_inp := r\<rparr>) = (Inr (length (p_tree p)), p')"
    "grown p (encode (EDouble d)) r p'"
    using append_data_ok [of "p\<lparr>p_inp := r\<rparr>" d const_double] assms(1,5-7)
    by (auto simp: number_primary_def intro: grown_inp)
  then show ?thesis
    using space_grown [OF _ assms(3)] by (simp add: parse_primary.simps u nm num)
qed

lemma string_primary_read:
  assumes "room p" "p_inp p = 39 # concat (map escaped s) @ 39 # r" "stops r" "length s < 1024"
    "length (p_tree p) + length s + 2 < 65536"
  shows "\<exists>p'. parse_primary env (Suc m) p = (Inr (length (p_tree p)), p') \<and> grown p (encode (EString s)) r p'"
proof -
  have u: "accept unary_char (space p) = (None, p)" using assms(2) by (intro not_unary) (auto simp: is_space_def unary_char_def)
  have nm: "name_text p = (None, p)" using assms(2) by (simp add: name_text_def is_alpha_def)
  have num: "unsigned_number p = (None, p)" using assms(2) by (simp add: unsigned_number_def is_digit_def)
  note st = string_read [OF assms(2)]
  obtain p' where "append_data const_string (s @ [0]) (p\<lparr>p_inp := r\<rparr>) = (Inr (length (p_tree p)), p')"
    "grown p (encode (EString s)) r p'"
    using append_data_ok [of "p\<lparr>p_inp := r\<rparr>" "s @ [0]" const_string] assms(1,4,5) by (auto intro: grown_inp)
  then show ?thesis
    using space_grown [OF _ assms(3)] by (simp add: parse_primary.simps u nm num st)
qed

lemma subscript_read:
  assumes "p_inp p = sub_text sub @ r" "stops r"
  shows "subscript p = (Inr (case sub of No_sub \<Rightarrow> [48] | Sub n \<Rightarrow> show_nat n | Any_sub \<Rightarrow> [63]), p\<lparr>p_inp := r\<rparr>)"
proof (cases sub)
  case No_sub
  then show ?thesis using assms stops_Cons by (cases r) (auto simp: subscript_def)
next
  case (Sub n)
  have "unsigned_number (p\<lparr>p_inp := show_nat n @ 93 # r\<rparr>) = (Some (show_nat n), p\<lparr>p_inp := 93 # r\<rparr>)"
    using number_read [of "p\<lparr>p_inp := show_nat n @ 93 # r\<rparr>" n "93 # r"] by simp
  then show ?thesis using assms(1) Sub by (simp add: subscript_def)
next
  case Any_sub
  then show ?thesis using assms(1) by (simp add: subscript_def unsigned_number_def is_digit_def)
qed

lemma field_primary_read:
  assumes "room p" "p_inp p = name @ sub_text sub @ r" "stops r" "wf_source env (SField name sub)"
    "length (p_tree p) + length (encode (tree_of env (SField name sub))) < 65536"
  shows "\<exists>p'. parse_primary env (Suc m) p = (Inr (length (p_tree p)), p') \<and>
    grown p (encode (tree_of env (SField name sub))) r p'"
proof -
  let ?f = "Fldid32_of env name"
  obtain c cs where n: "name = c # cs" "is_alpha c" using assms(4) by (cases name) auto
  note ch = alpha_chars [OF n(2)]
  have u: "accept unary_char (space p) = (None, p)" using assms(2) n ch by (intro not_unary) auto
  have nc: "sub_text sub @ r = [] \<or> \<not> name_char (hd (sub_text sub @ r))"
    using assms(3) stops_Cons by (cases sub; cases r) (auto simp: name_char_def is_alpha_def is_digit_def)
  have nm: "name_text p = (Some name, p\<lparr>p_inp := sub_text sub @ r\<rparr>)"
    using name_read [OF assms(2) _ _ _ nc] assms(4) by auto
  have sb: "subscript (p\<lparr>p_inp := sub_text sub @ r\<rparr>) =
      (Inr (case sub of No_sub \<Rightarrow> [48] | Sub n \<Rightarrow> show_nat n | Any_sub \<Rightarrow> [63]), p\<lparr>p_inp := r\<rparr>)"
    using subscript_read [of "p\<lparr>p_inp := sub_text sub @ r\<rparr>" sub r] assms(3) by simp
  have zero: "stol [48] = Inr 0" using stol_show_int [of 0] by (simp add: show_int_def show_nat.simps digit_def)
  have num: "stol (show_nat k) = Inr (int k) \<and> show_nat k \<noteq> [63]" if "k < 2 ^ 63" for k
    using stol_show_int [of "int k"] show_nat_digits [of k] that by (auto simp: show_int_def is_digit_def word_le_def)
  have af: "\<exists>p'. append_field ?f oc (p\<lparr>p_inp := r\<rparr>) = (Inr (length (p_tree p)), p') \<and>
      grown p (op_byte field # enc_le 4 (uint ?f) @ enc_le 4 oc) r p'" if "sub \<noteq> Any_sub" for oc
    using append_field_ok [of "p\<lparr>p_inp := r\<rparr>" ?f oc] assms(1,5) that
    by (cases sub) (auto simp del: enc_le.simps intro: grown_inp)
  have ad: "\<exists>p'. append_data field_any (enc_le 4 (uint ?f)) (p\<lparr>p_inp := r\<rparr>) = (Inr (length (p_tree p)), p') \<and>
      grown p (op_byte field_any # enc_le 4 (uint ?f)) r p'" if "sub = Any_sub"
    using append_data_ok [of "p\<lparr>p_inp := r\<rparr>" "enc_le 4 (uint ?f)" field_any] assms(1,5) that
    by (auto simp del: enc_le.simps intro: grown_inp)
  have "\<exists>p'. field_primary env name (p\<lparr>p_inp := sub_text sub @ r\<rparr>) = (Inr (length (p_tree p)), p') \<and>
      grown p (encode (tree_of env (SField name sub))) r p'"
    using af ad assms(4) zero num unfolding field_primary_def sb seqx_simps
    by (cases sub) (auto simp: Let_def simp del: enc_le.simps)
  then show ?thesis
    using space_grown [OF _ assms(3)] by (auto simp: parse_primary.simps u nm)
qed

lemma unary_tree_encode:
  "encode (unary_tree c e) =
     (if c = 45 then [op_byte unary_minus] else if c = 33 then [op_byte logical_negation]
      else if c = 126 then [op_byte bitwise_negation] else []) @ encode e"
  by simp

lemma unary_read:
  assumes "room p" "p_inp p = c # i" "unary_char c" "length (p_tree p) + 1 < 65536"
  shows "\<exists>p'. unary_primary c (p\<lparr>p_inp := i\<rparr>) = (Inr (length (p_tree p)), p') \<and>
    grown p ((if c = 45 then [op_byte unary_minus] else if c = 33 then [op_byte logical_negation]
      else if c = 126 then [op_byte bitwise_negation] else [])) i p'"
proof -
  let ?p = "p\<lparr>p_inp := i\<rparr>"
  have id: "grown p [] i ?p"
    using assms(1) by (auto simp: grown_def room_def intro!: exI [of _ "p_size p"])
  have "\<exists>p'. append_op oper ?p = (Inr (length (p_tree p)), p') \<and> grown p [op_byte oper] i p'" for oper
    using append_op_ok [of ?p oper] assms(1,4) by (auto intro: grown_inp)
  then show ?thesis using id by (auto simp: unary_primary_def)
qed

lemma all_primaries:
  assumes "wf_source env s" "is_primary s"
  shows "reads_primary env s"
  using assms
proof (induction "size s" arbitrary: s rule: less_induct)
  case less
  show ?case unfolding reads_primary_def
  proof (intro allI impI)
    fix n p r
    assume p: "room p" "p_op p = []" "p_inp p = render s @ r" "stops r" "2 * length (p_inp p) < n" "p_tree p \<noteq> []"
      "length (p_tree p) + length (encode (tree_of env s)) < 65536"
    obtain m where m: "n = Suc m" using p(5) by (cases n) auto
    show "\<exists>p'. parse_primary env n p = (Inr (length (p_tree p)), p') \<and> grown p (encode (tree_of env s)) r p'"
    proof (cases s)
      case (SNumber k)
      then show ?thesis using number_primary_read [of p k r env m] p less.prems m by simp
    next
      case (SReal k fs)
      then show ?thesis using real_primary_read [of p k fs r env _ m] p less.prems m by (auto split: sum.splits)
    next
      case (SString t)
      then show ?thesis using string_primary_read [of p t r env m] p less.prems m by simp
    next
      case (SField name sub)
      then show ?thesis using field_primary_read [of p name sub r env m] p less.prems m by simp
    next
      case (SParen t)
      let ?p = "p\<lparr>p_inp := render t @ 41 # r\<rparr>"
      have inp: "p_inp p = 40 # render t @ 41 # r" using p(3) SParen by simp
      have skip: "accept unary_char (space p) = (None, p)" "name_text p = (None, p)" "unsigned_number p = (None, p)"
        "string_text p = (Inr None, p)"
        using inp by (auto intro!: not_unary simp: is_space_def unary_char_def name_text_def is_alpha_def
            unsigned_number_def is_digit_def string_text_def)
      have "\<exists>p'. parse_expr env m ?p = (Inr (length (p_tree ?p)), p') \<and> grown ?p (encode (tree_of env t)) (41 # r) p'"
      proof (rule expr_read)
        show "wf_source env t" using less.prems SParen by simp
        show "reads_primary env q" if "is_primary q" "wf_source env q" "size q \<le> size t" for q
          using less.hyps [of q] that SParen by simp
      qed (use p inp m SParen in \<open>auto simp: ends_def\<close>)
      then obtain p1 where p1: "parse_expr env m ?p = (Inr (length (p_tree p)), p1)" "grown p (encode (tree_of env t)) (41 # r) p1"
        by (auto intro: grown_inp)
      note g = grown_sel [OF p1(2)]
      have "grown p (encode (tree_of env t)) r (p1\<lparr>p_inp := r\<rparr>)"
        using p1(2) by (cases p) (auto simp: grown_def)
      moreover have "space (p1\<lparr>p_inp := r\<rparr>) = p1\<lparr>p_inp := r\<rparr>" using p(4) by (simp add: space_stops)
      ultimately show ?thesis using inp skip p1(1) g(1) SParen by (simp add: m parse_primary.simps)
    next
      case (SUnary c t)
      have inp: "p_inp p = c # render t @ r" and c: "unary_char c" using p(3) less.prems SUnary by simp_all
      have e: "encode (tree_of env s) = (if c = 45 then [op_byte unary_minus] else if c = 33 then [op_byte logical_negation]
          else if c = 126 then [op_byte bitwise_negation] else []) @ encode (tree_of env t)" (is "_ = ?u @ _")
        using SUnary by simp
      have nz: "length ?u \<le> 1" "0 < length (encode (tree_of env t))" by simp_all
      have len: "length (p_tree p) + 1 < 65536" using p(7) nz unfolding e length_append by linarith
      have sp: "space p = p" by (rule space_Cons [OF inp]) (use c in \<open>auto simp: unary_char_def is_space_def\<close>)
      obtain p1 where p1: "unary_primary c (p\<lparr>p_inp := render t @ r\<rparr>) = (Inr (length (p_tree p)), p1)" "grown p ?u (render t @ r) p1"
        using unary_read [OF p(1) inp c len] by blast
      note g = grown_sel [OF p1(2)]
      have rt: "reads_primary env t" using less.hyps [of t] less.prems SUnary by simp
      have "length (p_tree p1) + length (encode (tree_of env t)) < 65536"
        using p(7) unfolding e g(2) length_append by linarith
      then obtain p2 where p2: "parse_primary env m p1 = (Inr (length (p_tree p1)), p2)" "grown p1 (encode (tree_of env t)) r p2"
        using rt [unfolded reads_primary_def, rule_format, of p1 r m] g p inp m by auto
      have "parse_primary env n p = (Inr (length (p_tree p)), p2)"
        using inp c sp p1(1) p2(1) by (simp add: m parse_primary.simps)
      then show ?thesis using grown_trans [OF p1(2) p2(2)] unfolding e by blast
    next
      case (SBinary oper l r1)
      then show ?thesis using less.prems by simp
    qed
  qed
qed

subsection \<open>The compiler\<close>

lemma compiles:
  assumes "wf_source env s" "length (encode (tree_of env s)) < 65532"
  shows "Fboolco32 env junk (Some (render s)) =
    Ret (word_of_nat (length (encode (tree_of env s)) + 4) # word_of_nat ((length (encode (tree_of env s)) + 4) div 256) #
      junk 2 # junk 3 # encode (tree_of env s))"
proof -
  let ?p = "new_parser (render s) junk" and ?e = "encode (tree_of env s)"
  have sel: "p_inp ?p = render s" "p_op ?p = []" "p_tree ?p = [junk 0, junk 1, junk 2, junk 3]" "room ?p"
    by (simp_all add: new_parser_def room_def upt_rec numeral_2_eq_2 numeral_3_eq_3)
  obtain p' where p': "parse_expr env (fuel_for (render s)) ?p = (Inr (length (p_tree ?p)), p')" "grown ?p ?e [] p'"
    using expr_read [OF assms(1) all_primaries, of ?p "[]" "fuel_for (render s)"] sel assms(2)
    by (auto simp: ends_def fuel_for_def)
  have "p_tree p' = [junk 0, junk 1, junk 2, junk 3] @ ?e" using grown_sel(2) [OF p'(2)] sel(3) by simp
  then have "drop 2 (p_tree p') = junk 2 # junk 3 # ?e" "length (p_tree p') = length ?e + 4" by simp_all
  then show ?thesis using p'(1) by (simp add: Fboolco32_def take_tree_def Let_def)
qed

end
