(* ===== verification/Expr_Eval.thy ===== *)
theory Expr_Eval
  imports Expr_Parse Fml_Api "HOL-Library.Signed_Division"
begin

text \<open>
  The evaluator of src/expr.cpp: \<open>Fboolev32\<close> and \<open>Ffloatev32\<close> walk the bytes of a tree. The value
  of a string field is a pointer into the \<open>thread_local\<close> string that \<open>Ftypcvt32\<close> returns, which
  the next conversion overwrites; the state of an evaluation is that string.
\<close>

subsection \<open>Values\<close>

text \<open>
  \<open>toval\<close> is the conversion buffer with its terminator; \<open>epoch\<close> counts how often its storage has
  moved. A pointer obtained before the last move is dangling; one obtained since reads what
  the buffer holds now.
\<close>

record eval_store =
  toval :: "byte list"
  epoch :: nat

datatype eval_value =
  is_long: VLong int
| is_double: VDouble "byte list"
| VRef nat
| VLit "byte list" (is_const: bool)

text \<open>A \<open>std::runtime_error\<close>, which nothing catches, and undefined behaviour.\<close>

datatype eval_stop = Ev_throw | Ev_undefined

text \<open>
  What the C library and the compiler do with doubles, and the regular expressions of the C
  library: a pattern that does not compile is \<open>None\<close>, a match gives the offset of its start.
  \<open>moves old new\<close> says whether the string moves its storage when \<open>new\<close> replaces \<open>old\<close>.
\<close>

record eval_env =
  ev_fp :: fp_ops
  dbl_arith :: "tree_op \<Rightarrow> byte list \<Rightarrow> byte list \<Rightarrow> byte list"
  dbl_rel :: "tree_op \<Rightarrow> byte list \<Rightarrow> byte list \<Rightarrow> bool"
  regex :: "byte list \<Rightarrow> (byte list \<Rightarrow> nat option) option"
  moves :: "byte list \<Rightarrow> byte list \<Rightarrow> bool"

definition is_string :: "eval_value \<Rightarrow> bool" where
  "is_string v \<longleftrightarrow> (case v of VLong _ \<Rightarrow> False | VDouble _ \<Rightarrow> False | VRef _ \<Rightarrow> True | VLit _ _ \<Rightarrow> True)"

definition is_const_string :: "eval_value \<Rightarrow> bool" where
  "is_const_string v \<longleftrightarrow> (case v of VLit _ c \<Rightarrow> c | _ \<Rightarrow> False)"

text \<open>The text at a pointer.\<close>

definition deref :: "eval_store \<Rightarrow> nat \<Rightarrow> eval_stop + byte list" where
  "deref st k = (if k = epoch st then Inr (cstr (toval st)) else Inl Ev_undefined)"

definition to_double :: "eval_env \<Rightarrow> eval_store \<Rightarrow> eval_value \<Rightarrow> eval_stop + byte list" where
  "to_double env st v =
     (case v of
        VLong l \<Rightarrow> Inr (int_to_f64 (ev_fp env) l)
      | VDouble d \<Rightarrow> Inr d
      | VLit s _ \<Rightarrow> Inr (str_to_f64 (ev_fp env) s)
      | VRef k \<Rightarrow> map_sum id (str_to_f64 (ev_fp env)) (deref st k))"

definition to_long :: "eval_env \<Rightarrow> eval_store \<Rightarrow> eval_value \<Rightarrow> eval_stop + int" where
  "to_long env st v =
     (case v of
        VLong l \<Rightarrow> Inr l
      | VDouble d \<Rightarrow> Inr (f64_to_int (ev_fp env) d)
      | VLit s _ \<Rightarrow> Inr (atol s)
      | VRef k \<Rightarrow> map_sum id atol (deref st k))"

text \<open>\<open>to_string\<close> prints into 64 bytes.\<close>

definition to_string64 :: "eval_env \<Rightarrow> eval_store \<Rightarrow> eval_value \<Rightarrow> eval_stop + byte list" where
  "to_string64 env st v =
     (case v of
        VLong l \<Rightarrow> Inr (show_int l)
      | VDouble d \<Rightarrow>
          let s = show_f64 (ev_fp env) d in if length s < 64 then Inr s else Inl Ev_undefined
      | VLit s _ \<Rightarrow> Inr s
      | VRef k \<Rightarrow> deref st k)"

definition bind_ev :: "eval_stop + 'a \<Rightarrow> ('a \<Rightarrow> eval_stop + 'b) \<Rightarrow> eval_stop + 'b" where
  "bind_ev r f = (case r of Inl e \<Rightarrow> Inl e | Inr a \<Rightarrow> f a)"

lemma bind_ev_simps [simp]: "bind_ev (Inl e) f = Inl e" "bind_ev (Inr a) f = f a"
  by (simp_all add: bind_ev_def)

subsection \<open>Arithmetic\<close>

text \<open>Signed overflow and division by zero are undefined.\<close>

definition long_ok :: "int \<Rightarrow> bool" where
  "long_ok i \<longleftrightarrow> - (2 ^ 63) \<le> i \<and> i < 2 ^ 63"

definition as_long :: "int \<Rightarrow> eval_stop + eval_value" where
  "as_long i = (if long_ok i then Inr (VLong i) else Inl Ev_undefined)"

definition truth :: "bool \<Rightarrow> eval_value" where
  "truth b = VLong (if b then 1 else 0)"

definition long_op :: "tree_op \<Rightarrow> int \<Rightarrow> int \<Rightarrow> eval_stop + eval_value" where
  "long_op oper a b =
     (case oper of
        multiplication \<Rightarrow> as_long (a * b)
      | division \<Rightarrow> if b = 0 then Inl Ev_undefined else as_long (a sdiv b)
      | addition \<Rightarrow> as_long (a + b)
      | substraction \<Rightarrow> as_long (a - b)
      | logical_and \<Rightarrow> Inr (truth (a \<noteq> 0 \<and> b \<noteq> 0))
      | logical_or \<Rightarrow> Inr (truth (a \<noteq> 0 \<or> b \<noteq> 0))
      | less_than \<Rightarrow> Inr (truth (a < b))
      | greater_than \<Rightarrow> Inr (truth (a > b))
      | less_or_equal \<Rightarrow> Inr (truth (a \<le> b))
      | greater_or_equal \<Rightarrow> Inr (truth (a \<ge> b))
      | equal \<Rightarrow> Inr (truth (a = b))
      | not_equal \<Rightarrow> Inr (truth (a \<noteq> b))
      | _ \<Rightarrow> Inl Ev_throw)"

definition dbl_op :: "eval_env \<Rightarrow> tree_op \<Rightarrow> byte list \<Rightarrow> byte list \<Rightarrow> eval_value" where
  "dbl_op env oper a b =
     (if oper = multiplication \<or> oper = division \<or> oper = addition \<or> oper = substraction
      then VDouble (dbl_arith env oper a b) else truth (dbl_rel env oper a b))"

definition apply_op :: "eval_env \<Rightarrow> eval_store \<Rightarrow> tree_op \<Rightarrow> eval_value \<Rightarrow> eval_value \<Rightarrow> eval_stop + eval_value" where
  "apply_op env st oper lhs rhs =
     (if is_double lhs \<or> is_double rhs
      then bind_ev (to_double env st lhs) (\<lambda>a. bind_ev (to_double env st rhs) (\<lambda>b. Inr (dbl_op env oper a b)))
      else bind_ev (to_long env st lhs) (\<lambda>a. bind_ev (to_long env st rhs) (\<lambda>b. long_op oper a b)))"

definition modulus_op :: "eval_env \<Rightarrow> eval_store \<Rightarrow> eval_value \<Rightarrow> eval_value \<Rightarrow> eval_stop + eval_value" where
  "modulus_op env st lhs rhs =
     bind_ev (to_long env st lhs) (\<lambda>a. bind_ev (to_long env st rhs) (\<lambda>b.
       if b = 0 \<or> \<not> long_ok (a sdiv b) then Inl Ev_undefined else Inr (VLong (a smod b))))"

definition xor_op :: "eval_env \<Rightarrow> eval_store \<Rightarrow> eval_value \<Rightarrow> eval_value \<Rightarrow> eval_stop + eval_value" where
  "xor_op env st lhs rhs =
     bind_ev (to_long env st lhs) (\<lambda>a. bind_ev (to_long env st rhs) (\<lambda>b. Inr (VLong (a XOR b))))"

subsection \<open>Fields\<close>

text \<open>A conversion by \<open>CFfind32\<close>: the bytes at the pointer it returns, and the new buffer.\<close>

definition convert :: "eval_env \<Rightarrow> fbp \<Rightarrow> fldid \<Rightarrow> int \<Rightarrow> int \<Rightarrow> eval_store \<Rightarrow> (eval_stop + byte list option) \<times> eval_store" where
  "convert env p fieldid oc type st =
     (case fst (CFfind32 (ev_fp env) p fieldid oc type) of
        Ret (bs, n) \<Rightarrow>
          (Inr (Some bs), \<lparr>toval = bs, epoch = (if moves env (toval st) bs then epoch st + 1 else epoch st)\<rparr>)
      | Err e \<Rightarrow> (Inr None, st)
      | Stuck \<Rightarrow> (Inl Ev_undefined, st))"

definition boolev_field :: "eval_env \<Rightarrow> fbp \<Rightarrow> fldid \<Rightarrow> int \<Rightarrow> eval_store \<Rightarrow> (eval_stop + eval_value) \<times> eval_store" where
  "boolev_field env p fieldid oc st =
     (let t = Fldtype32 fieldid in
      if t = FLD_SHORT \<or> t = FLD_LONG then
        seqx (convert env p fieldid oc FLD_LONG st) (\<lambda>v st.
          case v of Some bs \<Rightarrow> (Inr (VLong (sdec_le (take 8 bs))), st) | None \<Rightarrow> (Inr (VLong 0), st))
      else if t = FLD_FLOAT \<or> t = FLD_DOUBLE then
        seqx (convert env p fieldid oc FLD_DOUBLE st) (\<lambda>v st.
          case v of Some bs \<Rightarrow> (Inr (VDouble (take 8 bs)), st)
                  | None \<Rightarrow> (Inr (VDouble (int_to_f64 (ev_fp env) 0)), st))
      else if t = FLD_CHAR \<or> t = FLD_STRING \<or> t = FLD_CARRAY then
        seqx (convert env p fieldid oc FLD_STRING st) (\<lambda>v st.
          case v of Some bs \<Rightarrow> (Inr (VRef (epoch st)), st) | None \<Rightarrow> (Inr (VLit [] False), st))
      else (Inl Ev_throw, st))"

subsection \<open>Comparisons\<close>

text \<open>The sign of \<open>strcmp\<close>.\<close>

fun strcmp :: "byte list \<Rightarrow> byte list \<Rightarrow> int" where
  "strcmp [] [] = 0"
| "strcmp [] (y # ys) = -1"
| "strcmp (x # xs) [] = 1"
| "strcmp (x # xs) (y # ys) = (if x < y then -1 else if y < x then 1 else strcmp xs ys)"

text \<open>The member \<open>s\<close>, which only strings have.\<close>

definition string_of :: "eval_store \<Rightarrow> eval_value \<Rightarrow> eval_stop + byte list" where
  "string_of st v = (case v of VLit s _ \<Rightarrow> Inr s | VRef k \<Rightarrow> deref st k | _ \<Rightarrow> Inl Ev_undefined)"

definition match_op :: "eval_env \<Rightarrow> eval_store \<Rightarrow> bool \<Rightarrow> eval_value \<Rightarrow> eval_value \<Rightarrow> eval_stop + eval_value" where
  "match_op env st neg lhs rhs =
     bind_ev (string_of st rhs) (\<lambda>pat.
       case regex env pat of
         None \<Rightarrow> Inl Ev_throw
       | Some exec \<Rightarrow>
           bind_ev (string_of st lhs) (\<lambda>s. Inr (truth (if neg then exec s \<noteq> Some 0 else exec s = Some 0))))"

definition boolev_cmp :: "eval_env \<Rightarrow> eval_store \<Rightarrow> tree_op \<Rightarrow> eval_value \<Rightarrow> eval_value \<Rightarrow> eval_stop + eval_value" where
  "boolev_cmp env st oper lhs rhs =
     (if oper = matches then match_op env st False lhs rhs
      else if oper = not_matches then match_op env st True lhs rhs
      else if is_const_string lhs \<or> is_const_string rhs \<or> is_string lhs \<and> is_string rhs
      then bind_ev (to_string64 env st lhs) (\<lambda>a. bind_ev (to_string64 env st rhs) (\<lambda>b.
             apply_op env st oper (VLong (strcmp a b)) (VLong 0)))
      else apply_op env st oper lhs rhs)"

subsection \<open>The walk over the tree\<close>

text \<open>\<open>std::copy_n\<close> from the tree.\<close>

definition tree_bytes :: "nat \<Rightarrow> byte list \<Rightarrow> eval_stop + byte list \<times> byte list" where
  "tree_bytes n tree = (if length tree < n then Inl Ev_undefined else Inr (take n tree, drop n tree))"

definition tree_fieldid :: "byte list \<Rightarrow> eval_stop + fldid \<times> byte list" where
  "tree_fieldid tree = bind_ev (tree_bytes 4 tree) (\<lambda>(b, tree). Inr (word_of_int (dec_le b), tree))"

definition tree_string :: "byte list \<Rightarrow> eval_stop + byte list \<times> byte list" where
  "tree_string tree =
     (if 0 \<in> set tree then Inr (cstr tree, drop (length (cstr tree) + 1) tree) else Inl Ev_undefined)"

definition all_ops :: "tree_op list" where
  "all_ops =
     [first_invalid, const_long, const_double, const_string, field, field_any, unary_minus,
      logical_negation, bitwise_negation, multiplication, division, modulus, addition, substraction,
      exclusive_or, logical_and, logical_or, less_than, greater_than, less_or_equal, greater_or_equal,
      equal, not_equal, matches, not_matches, last_invalid]"

definition op_of_byte :: "byte \<Rightarrow> tree_op" where
  "op_of_byte b = (if unat b < 26 then all_ops ! unat b else last_invalid)"

definition unary_op :: "eval_env \<Rightarrow> eval_store \<Rightarrow> tree_op \<Rightarrow> eval_value \<Rightarrow> eval_stop + eval_value" where
  "unary_op env st oper v =
     bind_ev (to_long env st v) (\<lambda>i.
       if oper = unary_minus then as_long (- i)
       else if oper = logical_negation then Inr (truth (i = 0))
       else Inr (VLong (NOT i)))"

definition binary_op :: "eval_env \<Rightarrow> eval_store \<Rightarrow> tree_op \<Rightarrow> eval_value \<Rightarrow> eval_value \<Rightarrow> eval_stop + eval_value" where
  "binary_op env st oper lhs rhs =
     (if oper = modulus then modulus_op env st lhs rhs
      else if oper = exclusive_or then xor_op env st lhs rhs
      else apply_op env st oper lhs rhs)"

text \<open>The loop over the occurrences of a \<open>?\<close> subscript: \<open>n\<close> are left, \<open>oc\<close> is the next.\<close>

fun any_loop :: "eval_env \<Rightarrow> fbp \<Rightarrow> fldid \<Rightarrow> tree_op \<Rightarrow> eval_value \<Rightarrow> nat \<Rightarrow> int \<Rightarrow> eval_store \<Rightarrow> (eval_stop + eval_value) \<times> eval_store" where
  "any_loop env p fieldid oper rhs 0 oc st = (Inr (VLong 0), st)"
| "any_loop env p fieldid oper rhs (Suc n) oc st =
     seqx (boolev_field env p fieldid oc st) (\<lambda>lhs st.
       seqx (boolev_cmp env st oper lhs rhs, st) (\<lambda>ret st.
         seqx (to_long env st ret, st) (\<lambda>i st.
           if i \<noteq> 0 then (Inr ret, st) else any_loop env p fieldid oper rhs n (oc + 1) st)))"

text \<open>
  \<open>boolev\<close> with a bound on its depth: the value and what is left of the tree.
\<close>

fun boolev :: "eval_env \<Rightarrow> fbp \<Rightarrow> nat \<Rightarrow> byte list \<Rightarrow> eval_store \<Rightarrow> (eval_stop + eval_value \<times> byte list) \<times> eval_store" where
  "boolev env p 0 tree st = (Inl Ev_undefined, st)"
| "boolev env p (Suc n) [] st = (Inl Ev_undefined, st)"
| "boolev env p (Suc n) (b # tree) st =
     (let oper = op_of_byte b in
      if oper = const_long then
        seqx (tree_bytes 8 tree, st) (\<lambda>(v, tree) st. (Inr (VLong (sdec_le v), tree), st))
      else if oper = const_double then
        seqx (tree_bytes 8 tree, st) (\<lambda>(v, tree) st. (Inr (VDouble v, tree), st))
      else if oper = const_string then
        seqx (tree_string tree, st) (\<lambda>(s, tree) st. (Inr (VLit s True, tree), st))
      else if oper = field then
        seqx (tree_fieldid tree, st) (\<lambda>(fieldid, tree) st.
          seqx (tree_bytes 4 tree, st) (\<lambda>(oc, tree) st.
            seqx (boolev_field env p fieldid (sdec_le oc) st) (\<lambda>v st. (Inr (v, tree), st))))
      else if oper = field_any then (Inl Ev_throw, st)
      else if oper = unary_minus \<or> oper = logical_negation \<or> oper = bitwise_negation then
        seqx (boolev env p n tree st) (\<lambda>(v, tree) st.
          seqx (unary_op env st oper v, st) (\<lambda>v st. (Inr (v, tree), st)))
      else if multiplication \<le> oper \<and> oper < less_than then
        seqx (boolev env p n tree st) (\<lambda>(lhs, tree) st.
          seqx (boolev env p n tree st) (\<lambda>(rhs, tree) st.
            seqx (binary_op env st oper lhs rhs, st) (\<lambda>v st. (Inr (v, tree), st))))
      else if less_than \<le> oper \<and> oper < last_invalid then
        (if tree = [] then (Inl Ev_undefined, st)
         else if hd tree = op_byte field_any then
           seqx (tree_fieldid (tl tree), st) (\<lambda>(fieldid, tree) st.
             seqx (boolev env p n tree st) (\<lambda>(rhs, tree) st.
               seqx (any_loop env p fieldid oper rhs
                       (case fst (Foccur32 p fieldid) of Ret c \<Rightarrow> nat c | _ \<Rightarrow> 0) 0 st)
                 (\<lambda>v st. (Inr (v, tree), st))))
         else
           seqx (boolev env p n tree st) (\<lambda>(lhs, tree) st.
             seqx (boolev env p n tree st) (\<lambda>(rhs, tree) st.
               seqx (boolev_cmp env st oper lhs rhs, st) (\<lambda>v st. (Inr (v, tree), st)))))
      else (Inl Ev_throw, st))"

declare boolev.simps [simp del]

text \<open>
  The entry points; a null pointer is \<open>FNOTFLD\<close> and -1. The depth of a tree is less than its
  length.
\<close>

definition Fboolev32 :: "eval_env \<Rightarrow> fbp \<Rightarrow> byte list option \<Rightarrow> eval_store \<Rightarrow> (eval_stop + int outcome) \<times> eval_store" where
  "Fboolev32 env p tree st =
     (if p = NullPtr then (Inr (Err FNOTFLD), st)
      else case tree of
        None \<Rightarrow> (Inr (Err FNOTFLD), st)
      | Some bytes \<Rightarrow>
          seqx (boolev env p (length bytes) (drop 4 bytes) st) (\<lambda>(v, _) st.
            seqx (to_long env st v, st) (\<lambda>i st. (Inr (Ret (if i \<noteq> 0 then 1 else 0)), st))))"

definition Ffloatev32 :: "eval_env \<Rightarrow> fbp \<Rightarrow> byte list option \<Rightarrow> eval_store \<Rightarrow> (eval_stop + byte list outcome) \<times> eval_store" where
  "Ffloatev32 env p tree st =
     (if p = NullPtr then (Inr (Err FNOTFLD), st)
      else case tree of
        None \<Rightarrow> (Inr (Err FNOTFLD), st)
      | Some bytes \<Rightarrow>
          seqx (boolev env p (length bytes) (drop 4 bytes) st) (\<lambda>(v, _) st.
            seqx (to_double env st v, st) (\<lambda>d st. (Inr (Ret d), st))))"

end
