(* ===== verification/Expr_Refine.thy ===== *)
theory Expr_Refine
  imports Expr_Correct Expr_Eval
begin

text \<open>
  What an expression means, on trees and with strings as values, and that the evaluator of
  src/expr.cpp computes it from the encoded tree when no string field is used after another
  conversion.
\<close>

subsection \<open>The meaning of an expression\<close>

definition no_store :: eval_store where "no_store = \<lparr>toval = [], epoch = 0\<rparr>"

definition is_string_field :: "expr \<Rightarrow> bool" where
  "is_string_field e \<longleftrightarrow>
     (case e of
        EField f oc \<Rightarrow> Fldtype32 f = FLD_CHAR \<or> Fldtype32 f = FLD_STRING \<or> Fldtype32 f = FLD_CARRAY
      | _ \<Rightarrow> False)"

definition field_value :: "eval_env \<Rightarrow> fbp \<Rightarrow> fldid \<Rightarrow> int \<Rightarrow> eval_stop + eval_value" where
  "field_value env p f oc =
     (case boolev_field env p f oc no_store of
        (Inl e, st) \<Rightarrow> Inl e
      | (Inr v, st) \<Rightarrow> Inr (case v of VRef k \<Rightarrow> VLit (cstr (toval st)) False | _ \<Rightarrow> v))"

fun any_value :: "eval_env \<Rightarrow> fbp \<Rightarrow> fldid \<Rightarrow> tree_op \<Rightarrow> eval_value \<Rightarrow> nat \<Rightarrow> int \<Rightarrow> eval_stop + eval_value" where
  "any_value env p f oper rhs 0 oc = Inr (VLong 0)"
| "any_value env p f oper rhs (Suc n) oc =
     bind_ev (field_value env p f oc) (\<lambda>lhs.
       bind_ev (boolev_cmp env no_store oper lhs rhs) (\<lambda>ret.
         bind_ev (to_long env no_store ret) (\<lambda>i.
           if i \<noteq> 0 then Inr ret else any_value env p f oper rhs n (oc + 1))))"

definition occurrences :: "fbp \<Rightarrow> fldid \<Rightarrow> nat" where
  "occurrences p f = (case fst (Foccur32 p f) of Ret c \<Rightarrow> nat c | _ \<Rightarrow> 0)"

fun is_any :: "expr \<Rightarrow> fldid option" where
  "is_any (EAny f) = Some f"
| "is_any _ = None"

definition is_compare :: "tree_op \<Rightarrow> bool" where
  "is_compare oper \<longleftrightarrow> less_than \<le> oper \<and> oper < last_invalid"

fun meaning :: "eval_env \<Rightarrow> fbp \<Rightarrow> expr \<Rightarrow> eval_stop + eval_value" where
  "meaning env p (ELong i) = Inr (VLong i)"
| "meaning env p (EDouble d) = Inr (VDouble d)"
| "meaning env p (EString s) = Inr (VLit s True)"
| "meaning env p (EField f oc) = field_value env p f oc"
| "meaning env p (EAny f) = Inl Ev_throw"
| "meaning env p (EUnary oper e) = bind_ev (meaning env p e) (unary_op env no_store oper)"
| "meaning env p (EBinary oper l r) =
     (if is_compare oper then
        (case is_any l of
           Some f \<Rightarrow> bind_ev (meaning env p r) (\<lambda>rhs. any_value env p f oper rhs (occurrences p f) 0)
         | None \<Rightarrow> bind_ev (meaning env p l) (\<lambda>lhs. bind_ev (meaning env p r) (boolev_cmp env no_store oper lhs)))
      else bind_ev (meaning env p l) (\<lambda>lhs. bind_ev (meaning env p r) (binary_op env no_store oper lhs)))"

subsection \<open>Trees the evaluator handles\<close>

fun no_fields :: "expr \<Rightarrow> bool" where
  "no_fields (EField _ _) = False"
| "no_fields (EAny _) = False"
| "no_fields (EUnary _ e) = no_fields e"
| "no_fields (EBinary _ l r) = (no_fields l \<and> no_fields r)"
| "no_fields _ = True"

text \<open>
  The left operand of an operator may be a string field only when the right one converts no
  field; with a \<open>?\<close> subscript on the left, the right operand may not be a string field.
\<close>

fun safe :: "expr \<Rightarrow> bool" where
  "safe (EUnary _ e) = safe e"
| "safe (EBinary oper l r) =
     (safe l \<and> safe r \<and> (is_string_field l \<longrightarrow> no_fields r) \<and>
      (is_compare oper \<and> is_any l \<noteq> None \<longrightarrow> \<not> is_string_field r))"
| "safe _ = True"

fun wf_expr :: "expr \<Rightarrow> bool" where
  "wf_expr (ELong i) = long_ok i"
| "wf_expr (EDouble d) = (length d = 8)"
| "wf_expr (EString s) = (0 \<notin> set s)"
| "wf_expr (EField f oc) = (- (2 ^ 31) \<le> oc \<and> oc < 2 ^ 31)"
| "wf_expr (EAny f) = True"
| "wf_expr (EUnary oper e) = (oper \<in> {unary_minus, logical_negation, bitwise_negation} \<and> wf_expr e)"
| "wf_expr (EBinary oper l r) = (is_binary oper \<and> wf_expr l \<and> wf_expr r)"

subsection \<open>Reading the bytes back\<close>

lemma op_of_op_byte [simp]: "op_of_byte (op_byte oper) = oper"
  by (cases oper) (simp_all add: op_of_byte_def op_byte_def all_ops_def)

lemma op_byte_inj [simp]: "op_byte a = op_byte b \<longleftrightarrow> a = b"
  by (metis op_of_op_byte)

lemma tree_bytes_app [simp]: "length b = n \<Longrightarrow> tree_bytes n (b @ rest) = Inr (b, rest)"
  by (simp add: tree_bytes_def)

lemma tree_fieldid_app [simp]: "tree_fieldid (enc_le 4 (uint f) @ rest) = Inr (f, rest)" for f :: fldid
proof -
  have "uint f < 2 ^ 32" "0 \<le> uint f" using uint_bounded [of f] by simp_all
  then have "dec_le (enc_le 4 (uint f)) = uint f" by (simp add: dec_enc_le del: enc_le.simps)
  then show ?thesis by (simp add: tree_fieldid_def del: enc_le.simps)
qed

lemma tree_string_app [simp]: "0 \<notin> set s \<Longrightarrow> tree_string (s @ 0 # rest) = Inr (s, rest)"
proof -
  assume "0 \<notin> set s"
  then have "cstr (s @ 0 # rest) = s" unfolding cstr_def by (induction s) auto
  then show ?thesis by (simp add: tree_string_def)
qed

lemma sdec_8 [simp]: "long_ok i \<Longrightarrow> sdec_le (enc_le 8 i) = i"
  by (rule sdec_enc_le) (simp_all add: long_ok_def)

lemma sdec_4 [simp]: "- (2 ^ 31) \<le> i \<Longrightarrow> i < 2 ^ 31 \<Longrightarrow> sdec_le (enc_le 4 i) = i"
  by (rule sdec_enc_le) simp_all

subsection \<open>Pointers and values\<close>

text \<open>The value \<open>w\<close> is what \<open>v\<close> stands for in the store \<open>st\<close>.\<close>

definition denotes :: "eval_store \<Rightarrow> eval_value \<Rightarrow> eval_value \<Rightarrow> bool" where
  "denotes st v w \<longleftrightarrow>
     (case v of
        VRef k \<Rightarrow> k = epoch st \<and> w = VLit (cstr (toval st)) False
      | _ \<Rightarrow> w = v)"

definition is_ref :: "eval_value \<Rightarrow> bool" where
  "is_ref v \<longleftrightarrow> (case v of VRef _ \<Rightarrow> True | _ \<Rightarrow> False)"

lemma denotes_stable: "denotes st v w \<Longrightarrow> \<not> is_ref v \<Longrightarrow> denotes st' v w"
  by (cases v) (simp_all add: denotes_def is_ref_def)

lemma denotes_uses:
  assumes "denotes st v w"
  shows "to_long env st v = to_long env no_store w" "to_double env st v = to_double env no_store w"
    "to_string64 env st v = to_string64 env no_store w" "string_of st v = string_of no_store w"
    "is_double v = is_double w" "is_string v = is_string w" "is_const_string v = is_const_string w"
  using assms
  by (cases v; simp add: denotes_def to_long_def to_double_def to_string64_def string_of_def deref_def is_string_def
      is_const_string_def)+

lemma unary_denotes: "denotes st v w \<Longrightarrow> unary_op env st oper v = unary_op env no_store oper w"
  by (simp add: unary_op_def denotes_uses(1))

lemma binary_denotes:
  assumes "denotes st v w" "denotes st v' w'"
  shows "binary_op env st oper v v' = binary_op env no_store oper w w'"
    "apply_op env st oper v v' = apply_op env no_store oper w w'"
  using denotes_uses [OF assms(1)] denotes_uses [OF assms(2)]
  by (simp_all add: binary_op_def modulus_op_def xor_op_def apply_op_def)

lemma cmp_denotes:
  assumes "denotes st v w" "denotes st v' w'"
  shows "boolev_cmp env st oper v v' = boolev_cmp env no_store oper w w'"
proof -
  have l: "apply_op env st oper (VLong i) (VLong j) = apply_op env no_store oper (VLong i) (VLong j)" for i j
    by (simp add: apply_op_def to_long_def)
  have m: "match_op env st neg v v' = match_op env no_store neg w w'" for neg
    by (simp add: match_op_def denotes_uses(4) [OF assms(1)] denotes_uses(4) [OF assms(2)] cong: option.case_cong)
  show ?thesis
    using denotes_uses [OF assms(1)] denotes_uses [OF assms(2)] binary_denotes(2) [OF assms]
    by (simp add: boolev_cmp_def m l)
qed

text \<open>Results of operators are numbers.\<close>

lemma results_not_ref:
  "unary_op env st oper v = Inr w \<Longrightarrow> \<not> is_ref w" "binary_op env st oper a b = Inr w \<Longrightarrow> \<not> is_ref w"
  "boolev_cmp env st oper a b = Inr w \<Longrightarrow> \<not> is_ref w"
proof -
  have lo: "long_op o' i j = Inr x \<Longrightarrow> \<not> is_ref x" for o' i j x
    by (auto simp: long_op_def as_long_def truth_def is_ref_def split: tree_op.splits if_splits)
  have ap: "apply_op env st o' a' b' = Inr x \<Longrightarrow> \<not> is_ref x" for o' a' b' x
    using lo by (auto simp: apply_op_def bind_ev_def dbl_op_def truth_def is_ref_def split: sum.splits if_splits)
  show "unary_op env st oper v = Inr w \<Longrightarrow> \<not> is_ref w"
    by (auto simp: unary_op_def bind_ev_def as_long_def truth_def is_ref_def split: sum.splits if_splits)
  show "binary_op env st oper a b = Inr w \<Longrightarrow> \<not> is_ref w"
    using ap by (auto simp: binary_op_def modulus_op_def xor_op_def bind_ev_def is_ref_def split: sum.splits if_splits)
  show "boolev_cmp env st oper a b = Inr w \<Longrightarrow> \<not> is_ref w"
    using ap by (auto simp: boolev_cmp_def match_op_def bind_ev_def truth_def is_ref_def
        split: sum.splits if_splits option.splits)
qed

lemma not_ref_denotes: "\<not> is_ref v \<Longrightarrow> denotes st v v"
  by (cases v) (simp_all add: denotes_def is_ref_def)

subsection \<open>Fields\<close>

text \<open>A field read into any store stands for its value; only string fields give pointers.\<close>

lemma field_refines:
  "case field_value env p f oc of
     Inl e \<Rightarrow> fst (boolev_field env p f oc st) = Inl e
   | Inr w \<Rightarrow> \<exists>v st'. boolev_field env p f oc st = (Inr v, st') \<and> denotes st' v w \<and>
       (is_ref v \<longrightarrow> is_string_field (EField f oc))"
proof -
  consider (long) "Fldtype32 f = FLD_SHORT \<or> Fldtype32 f = FLD_LONG"
    | (dbl) "Fldtype32 f = FLD_FLOAT \<or> Fldtype32 f = FLD_DOUBLE"
    | (str) "Fldtype32 f = FLD_CHAR \<or> Fldtype32 f = FLD_STRING \<or> Fldtype32 f = FLD_CARRAY"
    | (other) "Fldtype32 f \<notin> {FLD_SHORT, FLD_LONG, FLD_FLOAT, FLD_DOUBLE, FLD_CHAR, FLD_STRING, FLD_CARRAY}"
    by auto
  then show ?thesis
    by cases (auto simp: field_value_def boolev_field_def convert_def denotes_def is_ref_def is_string_field_def
        no_store_def split: outcome.splits prod.splits)
qed

lemma any_refines:
  assumes "denotes st0 rhs w" "\<not> is_ref rhs"
  shows "case any_value env p f oper w n oc of
     Inl e \<Rightarrow> fst (any_loop env p f oper rhs n oc st) = Inl e
   | Inr x \<Rightarrow> \<exists>st'. any_loop env p f oper rhs n oc st = (Inr x, st') \<and> \<not> is_ref x"
proof (induction n arbitrary: oc st)
  case 0
  then show ?case by (simp add: is_ref_def)
next
  case (Suc n)
  show ?case
  proof (cases "field_value env p f oc")
    case (Inl e)
    then show ?thesis using field_refines [of env p f oc st]
      by (cases "boolev_field env p f oc st") auto
  next
    case (Inr lw)
    then obtain v st1 where v: "boolev_field env p f oc st = (Inr v, st1)" "denotes st1 v lw"
      using field_refines [of env p f oc st] by auto
    have c: "boolev_cmp env st1 oper v rhs = boolev_cmp env no_store oper lw w"
      by (rule cmp_denotes [OF v(2) denotes_stable [OF assms]])
    show ?thesis
    proof (cases "boolev_cmp env no_store oper lw w")
      case (Inl e)
      then show ?thesis using Inr v(1) c by simp
    next
      case ret: (Inr x)
      then have x: "\<not> is_ref x" using results_not_ref(3) by blast
      have t: "to_long env st1 x = to_long env no_store x"
        by (rule denotes_uses(1) [OF not_ref_denotes [OF x]])
      show ?thesis
      proof (cases "to_long env no_store x")
        case (Inl e)
        then show ?thesis using Inr v(1) c ret t by simp
      next
        case (Inr i)
        then show ?thesis using \<open>field_value env p f oc = Inr lw\<close> v(1) c ret t x Suc.IH [of "oc + 1" st1]
          by (auto split: sum.splits)
      qed
    qed
  qed
qed

subsection \<open>The evaluator refines the meaning\<close>

lemma hd_encode_any: "hd (encode e) = op_byte field_any \<longleftrightarrow> is_any e \<noteq> None" if "wf_expr e"
  using that by (cases e) (auto simp: is_binary_def)

lemma encode_hd_tl: "encode e = hd (encode e) # tl (encode e)"
  by simp

definition refines :: "eval_env \<Rightarrow> fbp \<Rightarrow> expr \<Rightarrow> bool" where
  "refines env p e \<longleftrightarrow>
     (\<forall>n rest st. length (encode e) \<le> n \<longrightarrow>
        (case meaning env p e of
           Inl x \<Rightarrow> fst (boolev env p n (encode e @ rest) st) = Inl x
         | Inr w \<Rightarrow> \<exists>v st'. boolev env p n (encode e @ rest) st = (Inr (v, rest), st') \<and> denotes st' v w \<and>
             (is_ref v \<longrightarrow> is_string_field e) \<and> (no_fields e \<longrightarrow> st' = st)))"

lemma refinesD:
  assumes "refines env p e" "length (encode e) \<le> n"
  shows "meaning env p e = Inl x \<Longrightarrow> \<exists>st'. boolev env p n (encode e @ rest) st = (Inl x, st')"
    "meaning env p e = Inr w \<Longrightarrow> \<exists>v st'. boolev env p n (encode e @ rest) st = (Inr (v, rest), st') \<and> denotes st' v w \<and>
       (is_ref v \<longrightarrow> is_string_field e) \<and> (no_fields e \<longrightarrow> st' = st)"
  using assms(1) [unfolded refines_def, rule_format, OF assms(2), of rest st]
  by (cases "boolev env p n (encode e @ rest) st"; auto)+

text \<open>Two operands, one after the other: the first keeps its meaning while the second is read.\<close>

lemma both_operands:
  assumes l: "refines env p l" and r: "refines env p r" and sf: "is_string_field l \<longrightarrow> no_fields r"
    and n: "length (encode l) \<le> n" "length (encode r) \<le> n"
    and L: "meaning env p l = Inr w1" and R: "meaning env p r = Inr w2"
  shows "\<exists>vl st1 vr st2. boolev env p n (encode l @ encode r @ rest) st = (Inr (vl, encode r @ rest), st1) \<and>
    boolev env p n (encode r @ rest) st1 = (Inr (vr, rest), st2) \<and> denotes st2 vl w1 \<and> denotes st2 vr w2 \<and>
    (no_fields l \<and> no_fields r \<longrightarrow> st2 = st)"
proof -
  obtain vl st1 where 1: "boolev env p n (encode l @ encode r @ rest) st = (Inr (vl, encode r @ rest), st1)"
    "denotes st1 vl w1" "is_ref vl \<longrightarrow> is_string_field l" "no_fields l \<longrightarrow> st1 = st"
    using refinesD(2) [OF l n(1) L] by blast
  obtain vr st2 where 2: "boolev env p n (encode r @ rest) st1 = (Inr (vr, rest), st2)" "denotes st2 vr w2"
    "no_fields r \<longrightarrow> st2 = st1"
    using refinesD(2) [OF r n(2) R] by blast
  have "denotes st2 vl w1" using 1(2,3) 2(3) sf denotes_stable by (cases "is_ref vl") auto
  then show ?thesis using 1 2 by auto
qed

lemma refine_unary:
  assumes e: "refines env p e" and oper: "oper \<in> {unary_minus, logical_negation, bitwise_negation}"
  shows "refines env p (EUnary oper e)"
  unfolding refines_def
proof (intro allI impI)
  fix n rest st
  assume "length (encode (EUnary oper e)) \<le> n"
  then obtain m where m: "n = Suc m" "length (encode e) \<le> m" by (cases n) auto
  have step: "boolev env p n (encode (EUnary oper e) @ rest) st =
      seqx (boolev env p m (encode e @ rest) st) (\<lambda>(v, tree) st.
        seqx (unary_op env st oper v, st) (\<lambda>v st. (Inr (v, tree), st)))"
    using oper by (auto simp: m(1) boolev.simps Let_def)
  show "case meaning env p (EUnary oper e) of
      Inl x \<Rightarrow> fst (boolev env p n (encode (EUnary oper e) @ rest) st) = Inl x
    | Inr w \<Rightarrow> \<exists>v st'. boolev env p n (encode (EUnary oper e) @ rest) st = (Inr (v, rest), st') \<and> denotes st' v w \<and>
        (is_ref v \<longrightarrow> is_string_field (EUnary oper e)) \<and> (no_fields (EUnary oper e) \<longrightarrow> st' = st)"
  proof (cases "meaning env p e")
    case (Inl x)
    then show ?thesis using refinesD(1) [OF e m(2) Inl, of rest st] step by auto
  next
    case (Inr w)
    then obtain v st' where v: "boolev env p m (encode e @ rest) st = (Inr (v, rest), st')" "denotes st' v w"
      "no_fields e \<longrightarrow> st' = st"
      using refinesD(2) [OF e m(2) Inr] by blast
    show ?thesis
      using Inr v step unary_denotes [OF v(2)] results_not_ref(1) not_ref_denotes
      by (cases "unary_op env no_store oper w") auto
  qed
qed

lemma refine_pair:
  assumes l: "refines env p l" and r: "refines env p r" and sf: "is_string_field l \<longrightarrow> no_fields r"
    and n: "length (encode l) \<le> m" "length (encode r) \<le> m"
    and step: "boolev env p n tree st =
      seqx (boolev env p m (encode l @ encode r @ rest) st) (\<lambda>(lhs, tree) st.
        seqx (boolev env p m tree st) (\<lambda>(rhs, tree) st.
          seqx (g st lhs rhs, st) (\<lambda>v st. (Inr (v, tree), st))))"
    and g: "\<forall>st v w v' w'. denotes st v w \<longrightarrow> denotes st v' w' \<longrightarrow> g st v v' = g no_store w w'"
    and num: "\<forall>st v v' x. g st v v' = Inr x \<longrightarrow> \<not> is_ref x"
  shows "case bind_ev (meaning env p l) (\<lambda>lhs. bind_ev (meaning env p r) (g no_store lhs)) of
      Inl x \<Rightarrow> fst (boolev env p n tree st) = Inl x
    | Inr w \<Rightarrow> \<exists>v st'. boolev env p n tree st = (Inr (v, rest), st') \<and> denotes st' v w \<and>
        \<not> is_ref v \<and> (no_fields l \<and> no_fields r \<longrightarrow> st' = st)"
proof (cases "meaning env p l")
  case (Inl x)
  then show ?thesis using refinesD(1) [OF l n(1) Inl, of "encode r @ rest" st] step by auto
next
  case L: (Inr w1)
  then obtain vl st1 where 1: "boolev env p m (encode l @ encode r @ rest) st = (Inr (vl, encode r @ rest), st1)"
    using refinesD(2) [OF l n(1) L] by blast
  show ?thesis
  proof (cases "meaning env p r")
    case (Inl x)
    then show ?thesis using L 1 refinesD(1) [OF r n(2) Inl, of rest st1] step by auto
  next
    case R: (Inr w2)
    obtain vl st1 vr st2 where b: "boolev env p m (encode l @ encode r @ rest) st = (Inr (vl, encode r @ rest), st1)"
      "boolev env p m (encode r @ rest) st1 = (Inr (vr, rest), st2)" "denotes st2 vl w1" "denotes st2 vr w2"
      "no_fields l \<and> no_fields r \<longrightarrow> st2 = st"
      using both_operands [OF l r sf n L R] by blast
    show ?thesis using L R b step g [rule_format, OF b(3,4)] num [rule_format, of no_store w1 w2] not_ref_denotes
      by (cases "g no_store w1 w2") auto
  qed
qed

lemma refine_any:
  assumes r: "refines env p r" and sf: "\<not> is_string_field r" and n: "length (encode r) \<le> m"
    and step: "boolev env p n tree st =
      seqx (boolev env p m (encode r @ rest) st) (\<lambda>(rhs, tree) st.
        seqx (any_loop env p f oper rhs (occurrences p f) 0 st) (\<lambda>v st. (Inr (v, tree), st)))"
  shows "case bind_ev (meaning env p r) (\<lambda>rhs. any_value env p f oper rhs (occurrences p f) 0) of
      Inl x \<Rightarrow> fst (boolev env p n tree st) = Inl x
    | Inr w \<Rightarrow> \<exists>v st'. boolev env p n tree st = (Inr (v, rest), st') \<and> denotes st' v w \<and> \<not> is_ref v"
proof (cases "meaning env p r")
  case (Inl x)
  then show ?thesis using refinesD(1) [OF r n Inl, of rest st] step by auto
next
  case (Inr w)
  then obtain v st1 where 1: "boolev env p m (encode r @ rest) st = (Inr (v, rest), st1)" "denotes st1 v w" "\<not> is_ref v"
    using refinesD(2) [OF r n Inr] sf by blast
  show ?thesis
    using any_refines [OF 1(2,3), of env p f oper "occurrences p f" 0 st1] Inr 1 step not_ref_denotes
    by (cases "any_value env p f oper w (occurrences p f) 0";
        cases "any_loop env p f oper v (occurrences p f) 0 st1") auto
qed

lemma refine_binary:
  assumes l: "refines env p l" and r: "refines env p r" and wf: "wf_expr (EBinary oper l r)" and sf: "safe (EBinary oper l r)"
  shows "refines env p (EBinary oper l r)"
  unfolding refines_def
proof (intro allI impI)
  fix n rest st
  assume "length (encode (EBinary oper l r)) \<le> n"
  then obtain m where m: "n = Suc m" "length (encode l) \<le> m" "length (encode r) \<le> m" by (cases n) auto
  have b: "is_binary oper" using wf by simp
  have ops: "oper \<notin> {const_long, const_double, const_string, field, field_any, unary_minus, logical_negation, bitwise_negation}"
    using b by (cases oper) (simp_all add: is_binary_def)
  have bo: "\<forall>st v w v' w'. denotes st v w \<longrightarrow> denotes st v' w' \<longrightarrow>
      binary_op env st oper v v' = binary_op env no_store oper w w'"
    "\<forall>st v v' x. binary_op env st oper v v' = Inr x \<longrightarrow> \<not> is_ref x"
    using binary_denotes(1) results_not_ref(2) by blast+
  have co: "\<forall>st v w v' w'. denotes st v w \<longrightarrow> denotes st v' w' \<longrightarrow>
      boolev_cmp env st oper v v' = boolev_cmp env no_store oper w w'"
    "\<forall>st v v' x. boolev_cmp env st oper v v' = Inr x \<longrightarrow> \<not> is_ref x"
    using cmp_denotes results_not_ref(3) by blast+
  let ?tree = "encode (EBinary oper l r) @ rest"
  let ?goal = "case meaning env p (EBinary oper l r) of
      Inl x \<Rightarrow> fst (boolev env p n ?tree st) = Inl x
    | Inr w \<Rightarrow> \<exists>v st'. boolev env p n ?tree st = (Inr (v, rest), st') \<and> denotes st' v w \<and>
        (is_ref v \<longrightarrow> is_string_field (EBinary oper l r)) \<and> (no_fields (EBinary oper l r) \<longrightarrow> st' = st)"
  show ?goal
  proof (cases "is_compare oper")
    case False
    then have c: "multiplication \<le> oper \<and> oper < less_than"
      using b by (auto simp: is_compare_def is_binary_def)
    have "boolev env p n ?tree st = seqx (boolev env p m (encode l @ encode r @ rest) st) (\<lambda>(lhs, tree) st.
        seqx (boolev env p m tree st) (\<lambda>(rhs, tree) st.
          seqx (binary_op env st oper lhs rhs, st) (\<lambda>v st. (Inr (v, tree), st))))"
      using ops c by (simp add: m(1) boolev.simps Let_def)
    from refine_pair [OF l r _ m(2,3) this bo] show ?thesis
      using False sf by (auto split: sum.splits)
  next
    case True
    then have c: "less_than \<le> oper \<and> oper < last_invalid"
      "\<not> (multiplication \<le> oper \<and> oper < less_than)"
      by (auto simp: is_compare_def)
    show ?thesis
    proof (cases "is_any l")
      case None
      have "hd (encode l @ encode r @ rest) \<noteq> op_byte field_any"
        using hd_encode_any [of l] wf None by simp
      then have "boolev env p n ?tree st = seqx (boolev env p m (encode l @ encode r @ rest) st) (\<lambda>(lhs, tree) st.
        seqx (boolev env p m tree st) (\<lambda>(rhs, tree) st.
          seqx (boolev_cmp env st oper lhs rhs, st) (\<lambda>v st. (Inr (v, tree), st))))"
        using ops c by (simp add: m(1) boolev.simps Let_def)
      from refine_pair [OF l r _ m(2,3) this co] show ?thesis
        using True None sf by (auto split: sum.splits)
    next
      case (Some f)
      then have el: "l = EAny f" by (cases l) auto
      have "boolev env p n ?tree st = seqx (boolev env p m (encode r @ rest) st) (\<lambda>(rhs, tree) st.
        seqx (any_loop env p f oper rhs (occurrences p f) 0 st) (\<lambda>v st. (Inr (v, tree), st)))"
        using ops c by (simp add: m(1) boolev.simps Let_def el occurrences_def del: enc_le.simps)
      from refine_any [OF r _ m(3) this] show ?thesis
        using True Some sf el by (auto split: sum.splits)
    qed
  qed
qed

lemma refine_constant:
  assumes "wf_expr e" "(\<exists>i. e = ELong i) \<or> (\<exists>d. e = EDouble d) \<or> (\<exists>s. e = EString s) \<or> (\<exists>f. e = EAny f)"
  shows "refines env p e"
  unfolding refines_def
proof (intro allI impI)
  fix n rest st
  assume "length (encode e) \<le> n"
  moreover have "0 < length (encode e)" by simp
  ultimately obtain m where "n = Suc m" by (cases n) auto
  then show "case meaning env p e of
        Inl x \<Rightarrow> fst (boolev env p n (encode e @ rest) st) = Inl x
      | Inr w \<Rightarrow> \<exists>v st'. boolev env p n (encode e @ rest) st = (Inr (v, rest), st') \<and> denotes st' v w \<and>
          (is_ref v \<longrightarrow> is_string_field e) \<and> (no_fields e \<longrightarrow> st' = st)"
    using assms by (auto simp: boolev.simps Let_def denotes_def is_ref_def simp del: enc_le.simps)
qed

lemma refine_field:
  assumes "wf_expr (EField f oc)"
  shows "refines env p (EField f oc)"
  unfolding refines_def
proof (intro allI impI)
  fix n rest st
  assume "length (encode (EField f oc)) \<le> n"
  then obtain m where m: "n = Suc m" by (cases n) auto
  have "boolev env p n (encode (EField f oc) @ rest) st =
      seqx (boolev_field env p f oc st) (\<lambda>v st. (Inr (v, rest), st))"
    using assms by (simp add: m boolev.simps Let_def del: enc_le.simps)
  then show "case meaning env p (EField f oc) of
        Inl x \<Rightarrow> fst (boolev env p n (encode (EField f oc) @ rest) st) = Inl x
      | Inr w \<Rightarrow> \<exists>v st'. boolev env p n (encode (EField f oc) @ rest) st = (Inr (v, rest), st') \<and> denotes st' v w \<and>
          (is_ref v \<longrightarrow> is_string_field (EField f oc)) \<and> (no_fields (EField f oc) \<longrightarrow> st' = st)"
    using field_refines [of env p f oc st]
    by (cases "boolev_field env p f oc st"; cases "field_value env p f oc") auto
qed

lemma all_refine: "wf_expr e \<Longrightarrow> safe e \<Longrightarrow> refines env p e"
proof (induction e)
  case (EUnary oper e)
  then show ?case by (intro refine_unary) auto
next
  case (EBinary oper l r)
  show ?case by (rule refine_binary [OF EBinary.IH EBinary.prems]) (use EBinary.prems in auto)
qed (blast intro: refine_field refine_constant)+

end
