(* ===== verification/Expr_Claims.thy ===== *)
theory Expr_Claims
  imports Expr_Total Expr_Refine Fml_Props
begin

text \<open>The properties of the expression compiler and evaluator of src/expr.cpp.\<close>

subsection \<open>The compiler\<close>

text \<open>C37: \<open>Fboolco32\<close> ends on every text: the recursion never reaches the bound the model gives it,
  and the only undefined outcome is a write past the memory of the tree.
\<close>

theorem compiler_total:
  "fst (parse_expr env (fuel_for text) (new_parser text junk)) \<noteq> Inl Out_of_fuel \<and>
   (Fboolco32 env junk (Some text) = Stuck \<longleftrightarrow>
    fst (parse_expr env (fuel_for text) (new_parser text junk)) = Inl Tree_overflow)"
proof -
  have "fst (parse_expr env (fuel_for text) (new_parser text junk)) \<noteq> Inl Out_of_fuel" by (rule fuel_suffices)
  then show ?thesis
    by (cases "parse_expr env (fuel_for text) (new_parser text junk)")
      (auto simp: Fboolco32_def split: sum.splits expr_stop.splits)
qed

text \<open>C4: \<open>Fboolco32\<close> is correct: every well-formed text, with the precedence and associativity of
  the operators, compiles to its length and the prefix encoding of the tree it stands for.
\<close>

theorem compiler_correct:
  assumes "wf_source env s" and "length (encode (tree_of env s)) < 65532"
  shows "Fboolco32 env junk (Some (render s)) =
    Ret (word_of_nat (length (encode (tree_of env s)) + 4) # word_of_nat ((length (encode (tree_of env s)) + 4) div 256) #
      junk 2 # junk 3 # encode (tree_of env s))"
  by (rule compiles [OF assms])

definition demo_env :: expr_env where
  "demo_env = \<lparr>Fldid32_of = (\<lambda>s. if s = [65] then 0x05000001 else if s = [66] then 0x05000002 else 0),
     stof_of = (\<lambda>_. Inr (replicate 8 0))\<rparr>"

text \<open>\<open>1+2*(3-4)&&!A\<close>\<close>

definition demo_source :: source where
  "demo_source =
     SBinary logical_and
       (SBinary addition (SNumber 1)
          (SBinary multiplication (SNumber 2) (SParen (SBinary substraction (SNumber 3) (SNumber 4)))))
       (SUnary 33 (SField [65] No_sub))"

lemma demo_source_wf: "wf_source demo_env demo_source" "length (encode (tree_of demo_env demo_source)) < 65532"
  by (simp_all add: demo_source_def demo_env_def is_binary_def op_prec_def which_op_def binops_def MAKE_OP_def
      unary_char_def is_alpha_def name_char_def valid_operand_type_def Fldtype32_def)

theorem compiler_correct_witness:
  "\<exists>n m. Fboolco32 demo_env (\<lambda>_. 0) (Some (render demo_source)) =
     Ret (n # m # 0 # 0 # encode (tree_of demo_env demo_source))"
  using compiler_correct [OF demo_source_wf, of "\<lambda>_. 0"] by blast

text \<open>the compiler does not look at what follows a complete expression: after an unbalanced
  closing parenthesis any text whatsoever is accepted, with the same tree as without it.
\<close>

theorem compiler_ignores_rest:
  assumes "wf_source env s" and "length (encode (tree_of env s)) < 65532"
  shows "Fboolco32 env junk (Some (render s @ 41 # garbage)) = Fboolco32 env junk (Some (render s))"
proof -
  let ?text = "render s @ 41 # garbage" and ?e = "encode (tree_of env s)"
  let ?p = "new_parser ?text junk"
  have sel: "p_inp ?p = ?text" "p_op ?p = []" "p_tree ?p = map junk [0 ..< 4]" "room ?p"
    by (simp_all add: new_parser_def room_def)
  obtain p' where p': "parse_expr env (fuel_for ?text) ?p = (Inr (length (p_tree ?p)), p')" "grown ?p ?e (41 # garbage) p'"
    using expr_read [OF assms(1) all_primaries, of ?p "41 # garbage" "fuel_for ?text"] sel assms(2)
    by (auto simp: ends_def fuel_for_def)
  have "p_tree p' = map junk [0 ..< 4] @ ?e" using grown_sel(2) [OF p'(2)] sel(3) by simp
  moreover have "map junk [0 ..< 4] = [junk 0, junk 1, junk 2, junk 3]" by (simp add: upt_rec numeral_2_eq_2 numeral_3_eq_3)
  ultimately have "drop 2 (p_tree p') = junk 2 # junk 3 # ?e" "length (p_tree p') = length ?e + 4" by simp_all
  then show ?thesis using p'(1) compiles [OF assms] by (simp add: Fboolco32_def take_tree_def Let_def)
qed

theorem compiler_ignores_rest_witness:
  "Fboolco32 demo_env (\<lambda>_. 0) (Some (render demo_source @ 41 # [63, 63])) =
   Fboolco32 demo_env (\<lambda>_. 0) (Some (render demo_source))"
  by (rule compiler_ignores_rest [OF demo_source_wf])

text \<open>the memory of the tree is doubled once, whatever the length of what is added: compiling a
  string constant of 2043 bytes or more writes past it.
\<close>

theorem long_string_overflows:
  assumes "2043 \<le> length s" and "\<forall>c \<in> set s. c \<noteq> 0 \<and> c \<noteq> 39 \<and> c \<noteq> 92"
  shows "Fboolco32 env junk (Some (39 # s @ [39])) = Stuck"
proof -
  let ?text = "39 # s @ [39]"
  let ?p = "new_parser ?text junk" and ?q = "(new_parser ?text junk)\<lparr>p_inp := []\<rparr>"
  obtain m where m: "fuel_for ?text = Suc (Suc m)" by (simp add: fuel_for_def)
  have esc: "concat (map escaped s) = s"
    using assms(2) by (induction s) (auto simp: escaped_def)
  have inp: "p_inp ?p = 39 # concat (map escaped s) @ 39 # []" by (simp add: new_parser_def esc)
  have skip: "accept unary_char (space ?p) = (None, ?p)" "name_text ?p = (None, ?p)" "unsigned_number ?p = (None, ?p)"
    using inp by (auto intro!: not_unary simp: is_space_def unary_char_def name_text_def is_alpha_def
        unsigned_number_def is_digit_def)
  have tree: "length (p_tree ?q) = 4" "p_size ?q = 1024" by (simp_all add: new_parser_def)
  obtain q1 where q1: "append_op const_string ?q = (Inr 4, q1)" "length (p_tree q1) = 5" "p_size q1 = 1024"
    using tree by (simp add: append_op_def ast_append_def ast_insert_def Let_def)
  have "ast_insert (length (p_tree q1)) (s @ [0]) q1 = (Inl Tree_overflow, q1\<lparr>p_size := 2048\<rparr>)"
    using q1 assms(1) by (simp add: ast_insert_def Let_def)
  then have "append_data const_string (s @ [0]) ?q = (Inl Tree_overflow, q1\<lparr>p_size := 2048\<rparr>)"
    using q1 by (simp add: append_data_def ast_append_def Let_def)
  then have "parse_primary env (Suc m) ?p = (Inl Tree_overflow, q1\<lparr>p_size := 2048\<rparr>)"
    using skip string_read [OF inp] by (simp add: parse_primary.simps)
  then show ?thesis by (simp add: Fboolco32_def m parse_expr.simps)
qed

theorem long_string_overflows_witness:
  "Fboolco32 demo_env (\<lambda>_. 0) (Some (39 # replicate 2043 65 @ [39])) = Stuck"
  by (rule long_string_overflows) auto

subsection \<open>The evaluator\<close>

text \<open>The outcome of \<open>Fboolev32\<close> by the meaning of the expression.\<close>

definition truth_of :: "eval_env \<Rightarrow> eval_stop + eval_value \<Rightarrow> eval_stop + int outcome" where
  "truth_of env m = bind_ev m (\<lambda>w. bind_ev (to_long env no_store w) (\<lambda>i. Inr (Ret (if i \<noteq> 0 then 1 else 0))))"

lemma boolev_meaning:
  assumes "wf_expr e" "safe e" "length hdr = 4"
  shows "fst (Fboolev32 env (Buf b) (Some (hdr @ encode e)) st) = truth_of env (meaning env (Buf b) e)"
proof -
  have n: "length (encode e) \<le> length (hdr @ encode e)" by simp
  note r = refinesD [OF all_refine [OF assms(1,2)] n, of env "Buf b" _ "[]" st]
  show ?thesis
  proof (cases "meaning env (Buf b) e")
    case (Inl x)
    then show ?thesis using r(1) [OF Inl] assms(3) by (auto simp: Fboolev32_def truth_of_def)
  next
    case (Inr w)
    then obtain v st' where v: "boolev env (Buf b) (length (hdr @ encode e)) (encode e) st = (Inr (v, []), st')" "denotes st' v w"
      using r(2) [OF Inr] by auto
    show ?thesis using Inr v assms(3) denotes_uses(1) [OF v(2), of env]
      by (cases "to_long env no_store w") (auto simp: Fboolev32_def truth_of_def)
  qed
qed


definition any_fp :: fp_ops where
  "any_fp = \<lparr>int_to_f32 = (\<lambda>_. []), int_to_f64 = (\<lambda>_. []), f32_to_int = (\<lambda>_. 0), f64_to_int = (\<lambda>_. 0),
     f32_to_f64 = (\<lambda>_. []), f64_to_f32 = (\<lambda>_. []), str_to_f64 = (\<lambda>_. []), show_f32 = (\<lambda>_. []), show_f64 = (\<lambda>_. [])\<rparr>"

definition demo_eval :: eval_env where
  "demo_eval = \<lparr>ev_fp = any_fp, dbl_arith = (\<lambda>_ a _. a), dbl_rel = (\<lambda>_ _ _. False), regex = (\<lambda>_. None), moves = (\<lambda>_ _. False)\<rparr>"

text \<open>\<open>1+2*(3-4)\<close> is -1, which is true.\<close>

definition demo_number :: source where
  "demo_number = SBinary addition (SNumber 1)
     (SBinary multiplication (SNumber 2) (SParen (SBinary substraction (SNumber 3) (SNumber 4))))"


lemma string_find:
  assumes "rep b cs" "f \<noteq> BADFLDID" "Fldtype32 f = FLD_STRING" "0 \<le> i" "i < int (length (occs cs f))"
    "occs cs f ! nat i = s @ [0]" "0 \<notin> set s"
  shows "\<exists>n. fst (CFfind32 fp (Buf b) f i FLD_STRING) = Ret (s @ [0], n)"
proof -
  have v: "valid_id f" using assms(3) by (simp add: valid_id_def valid_fldtype32_def)
  obtain q where q: "fb_find f i b = Ret (q, length (s @ [0]))" "rd q (length (s @ [0])) (bdata b) = s @ [0]"
    using rep_find(1) [OF assms(1) v, of i] assms(4-6) by auto
  have "cstr (s @ [0]) = s" using assms(7) unfolding cstr_def by (induction s) auto
  then show ?thesis
    using q assms(2,3) v
    by (auto simp: CFfind32_def FBFR32_CHECK_def FLDID32_CHECK_def reading_def valid_id_def find_cvt_def Ftypcvt32_def TYPCVTS_def)
qed

lemma boolev_equal:
  assumes "tree \<noteq> []" "hd tree \<noteq> op_byte field_any"
  shows "boolev env p (Suc k) (op_byte equal # tree) st =
    seqx (boolev env p k tree st) (\<lambda>(lhs, tree) st.
      seqx (boolev env p k tree st) (\<lambda>(rhs, tree) st.
        seqx (boolev_cmp env st equal lhs rhs, st) (\<lambda>v st. (Inr (v, tree), st))))"
  using assms by (simp add: boolev.simps Let_def)

text \<open>two string fields always compare equal. Both operands are pointers to the one conversion
  buffer, so \<open>==\<close> compares the second value with itself, whatever the first one is; when the
  buffer has to move for the second value, the first pointer dangles. The meaning of the
  comparison is the equality of the two values.
\<close>

theorem string_fields_alias:
  assumes "rep b cs"
    and "f \<noteq> BADFLDID" and "Fldtype32 f = FLD_STRING" and "0 \<le> i" and "i < int (length (occs cs f))" and "i < 2 ^ 31"
    and "occs cs f ! nat i = s @ [0]" and "0 \<notin> set s"
    and "g \<noteq> BADFLDID" and "Fldtype32 g = FLD_STRING" and "0 \<le> j" and "j < int (length (occs cs g))" and "j < 2 ^ 31"
    and "occs cs g ! nat j = t @ [0]" and "0 \<notin> set t"
    and "length hdr = 4"
  shows "fst (Fboolev32 env (Buf b) (Some (hdr @ encode (EBinary equal (EField f i) (EField g j)))) st) =
           (if moves env (s @ [0]) (t @ [0]) then Inl Ev_undefined else Inr (Ret 1)) \<and>
         meaning env (Buf b) (EBinary equal (EField f i) (EField g j)) = Inr (truth (strcmp s t = 0))"
proof -
  let ?e = "EBinary equal (EField f i) (EField g j)"
  obtain n where n: "fst (CFfind32 (ev_fp env) (Buf b) f i FLD_STRING) = Ret (s @ [0], n)"
    using string_find [OF assms(1-5,7,8)] by blast
  obtain m where m: "fst (CFfind32 (ev_fp env) (Buf b) g j FLD_STRING) = Ret (t @ [0], m)"
    using string_find [OF assms(1,9-12,14,15)] by blast
  have c: "cstr (s @ [0]) = s" "cstr (t @ [0]) = t"
    using assms(8,15) unfolding cstr_def by (induction s; simp; fail | induction t; simp; fail)+
  let ?st1 = "\<lparr>toval = s @ [0], epoch = (if moves env (toval st) (s @ [0]) then epoch st + 1 else epoch st)\<rparr>"
  let ?st2 = "\<lparr>toval = t @ [0], epoch = (if moves env (s @ [0]) (t @ [0]) then epoch ?st1 + 1 else epoch ?st1)\<rparr>"
  have f1: "boolev_field env (Buf b) f i st' = (Inr (VRef (epoch q)), q)"
    if "q = \<lparr>toval = s @ [0], epoch = (if moves env (toval st') (s @ [0]) then epoch st' + 1 else epoch st')\<rparr>" for st' q
    using n assms(3) that by (simp add: boolev_field_def convert_def)
  have f2: "boolev_field env (Buf b) g j st' = (Inr (VRef (epoch q)), q)"
    if "q = \<lparr>toval = t @ [0], epoch = (if moves env (toval st') (t @ [0]) then epoch st' + 1 else epoch st')\<rparr>" for st' q
    using m assms(10) that by (simp add: boolev_field_def convert_def)
  have eq: "strcmp t t = 0" for t by (induction t) auto
  have l: "length (hdr @ encode ?e) = Suc (Suc 21)" using assms(16) by simp
  have rf: "boolev env (Buf b) (Suc k) (encode (EField h q) @ rest) st' =
      seqx (boolev_field env (Buf b) h q st') (\<lambda>v st. (Inr (v, rest), st))"
    if "0 \<le> q" "q < 2 ^ 31" for k h q rest st'
    using that by (simp add: boolev.simps Let_def del: enc_le.simps)
  have run: "boolev env (Buf b) (length (hdr @ encode ?e)) (encode ?e) st =
      seqx (boolev_cmp env ?st2 equal (VRef (epoch ?st1)) (VRef (epoch ?st2)), ?st2) (\<lambda>v st. (Inr (v, []), st))"
  proof -
    have "boolev env (Buf b) (Suc (Suc 21)) (encode ?e) st =
        seqx (boolev env (Buf b) (Suc 21) (encode (EField f i) @ encode (EField g j)) st) (\<lambda>(lhs, tree) st.
          seqx (boolev env (Buf b) (Suc 21) tree st) (\<lambda>(rhs, tree) st.
            seqx (boolev_cmp env st equal lhs rhs, st) (\<lambda>v st. (Inr (v, tree), st))))"
      using boolev_equal [of "encode (EField f i) @ encode (EField g j)" env "Buf b" "Suc 21" st] by simp
    then show ?thesis
      using rf [OF assms(4,6), of 21 f "encode (EField g j)" st] rf [OF assms(11,13), of 21 g "[]" ?st1]
        f1 [OF refl, of st] f2 [OF refl, of ?st1] unfolding l by simp
  qed
  have "boolev_cmp env ?st2 equal (VRef (epoch ?st1)) (VRef (epoch ?st2)) =
      (if moves env (s @ [0]) (t @ [0]) then Inl Ev_undefined else Inr (truth True))"
    using c(2) eq [of t] by (simp add: boolev_cmp_def is_const_string_def is_string_def to_string64_def deref_def apply_op_def
        to_long_def long_op_def)
  then have "fst (Fboolev32 env (Buf b) (Some (hdr @ encode ?e)) st) =
      (if moves env (s @ [0]) (t @ [0]) then Inl Ev_undefined else Inr (Ret 1))"
    using run assms(16) by (simp add: Fboolev32_def truth_def to_long_def)
  moreover have "field_value env (Buf b) f i = Inr (VLit s False)" "field_value env (Buf b) g j = Inr (VLit t False)"
    using f1 [OF refl, of no_store] f2 [OF refl, of no_store] c by (simp_all add: field_value_def)
  then have "meaning env (Buf b) ?e = Inr (truth (strcmp s t = 0))"
    by (simp add: is_compare_def boolev_cmp_def is_const_string_def is_string_def to_string64_def apply_op_def
        to_long_def long_op_def)
  ultimately show ?thesis by blast
qed

definition pair_chunks :: "chunk list" where
  "pair_chunks =
     [enc32 0x05000001 @ enc32 2 @ [97, 0, 0, 0, 0, 0, 0, 0],
      enc32 0x05000002 @ enc32 2 @ [98, 0, 0, 0, 0, 0, 0, 0]]"

definition pair_buffer :: fbfr where
  "pair_buffer = mk_buffer 100 pair_chunks"

lemma rep_pair: "rep pair_buffer pair_chunks"
proof -
  have "\<forall>c \<in> set pair_chunks. wf_chunk c" by (simp add: pair_chunks_def eval_chunk)
  then show ?thesis unfolding pair_buffer_def by (rule rep_mk_buffer) (simp_all add: pair_chunks_def cid_def)
qed

lemma occs_pair: "occs pair_chunks 0x05000001 = [[97] @ [0]]" "occs pair_chunks 0x05000002 = [[98] @ [0]]"
  by (simp_all add: pair_chunks_def occs_def same_id_def eval_chunk)

text \<open>The fields hold \<open>a\<close> and \<open>b\<close>.\<close>

theorem string_fields_alias_witness:
  "fst (Fboolev32 demo_eval (Buf pair_buffer)
     (Some ([0, 0, 0, 0] @ encode (EBinary equal (EField 0x05000001 0) (EField 0x05000002 0)))) no_store) = Inr (Ret 1) \<and>
   meaning demo_eval (Buf pair_buffer) (EBinary equal (EField 0x05000001 0) (EField 0x05000002 0)) = Inr (VLong 0)"
proof -
  have "fst (Fboolev32 demo_eval (Buf pair_buffer)
      (Some ([0, 0, 0, 0] @ encode (EBinary equal (EField 0x05000001 0) (EField 0x05000002 0)))) no_store) =
      (if moves demo_eval ([97] @ [0]) ([98] @ [0]) then Inl Ev_undefined else Inr (Ret 1)) \<and>
    meaning demo_eval (Buf pair_buffer) (EBinary equal (EField 0x05000001 0) (EField 0x05000002 0)) =
      Inr (truth (strcmp [97] [98] = 0))"
    by (rule string_fields_alias [OF rep_pair]) (simp_all add: occs_pair Fldtype32_def del: append.simps)
  then show ?thesis by (simp add: demo_eval_def truth_def)
qed

text \<open>a string constant may hold a zero byte, written \<open>\00\<close>, but the evaluator stops at it and
  takes the bytes after it for operators: the comparison of \<open>'\00'\<close> with \<open>'x'\<close> compiles, and
  evaluating it throws an exception that nothing catches.
\<close>

theorem zero_byte_breaks_tree:
  "\<exists>tree. Fboolco32 env junk (Some (render (SBinary equal (SString [0]) (SString [120])))) = Ret tree \<and>
     fst (Fboolev32 ev (Buf b) (Some tree) st) = Inl Ev_throw"
proof -
  let ?s = "SBinary equal (SString [0]) (SString [120])"
  let ?rest = "op_byte const_string # [120, 0]"
  have c: "Fboolco32 env junk (Some (render ?s)) =
      Ret ([11, 0, junk 2, junk 3] @ op_byte equal # op_byte const_string # 0 # 0 # ?rest)"
    using compiles [of env ?s junk]
    by (simp add: is_binary_def op_prec_def which_op_def binops_def MAKE_OP_def)
  have a: "boolev ev (Buf b) k (op_byte const_string # 0 # r) st = (Inr (VLit [] True, r), st)" if "0 < k" for k r
    using that by (cases k) (simp_all add: boolev.simps Let_def tree_string_def cstr_def)
  have z: "boolev ev (Buf b) k (0 # r) st = (Inl Ev_throw, st)" if "0 < k" for k r
    using that by (cases k) (simp_all add: boolev.simps Let_def op_of_byte_def all_ops_def)
  have "boolev ev (Buf b) (Suc (Suc 9)) (op_byte equal # op_byte const_string # 0 # 0 # ?rest) st = (Inl Ev_throw, st)"
    by (subst boolev_equal) (simp_all add: a z)
  then show ?thesis using c by (simp add: Fboolev32_def eval_nat_numeral)
qed

end
