(* ===== verification/Expr_Print.thy ===== *)
theory Expr_Print
  imports Expr_Refine
begin

text \<open>
  \<open>Fboolpr32\<close> of src/expr.cpp: the text of a tree, every node in parentheses. The bytes written to
  the stream are the result; \<open>names\<close> is \<open>Fname32\<close>.
\<close>

definition print_paren :: "byte list \<Rightarrow> byte list" where
  "print_paren t = [40, 32] @ t @ [32, 41, 32]"

text \<open>\<open>boolpr\<close> with a bound on its depth; \<open>None\<close> when it would read past the tree.\<close>

fun boolpr :: "(fldid \<Rightarrow> byte list) \<Rightarrow> fp_ops \<Rightarrow> nat \<Rightarrow> byte list \<Rightarrow> (byte list \<times> byte list) option" where
  "boolpr names fp 0 tree = None"
| "boolpr names fp (Suc n) [] = None"
| "boolpr names fp (Suc n) (b # tree) =
     (let oper = op_of_byte b in
      if oper = const_long then
        (case tree_bytes 8 tree of Inl _ \<Rightarrow> None | Inr (v, tree) \<Rightarrow> Some (print_paren (show_int (sdec_le v)), tree))
      else if oper = const_double then
        (case tree_bytes 8 tree of Inl _ \<Rightarrow> None | Inr (v, tree) \<Rightarrow> Some (print_paren (show_f64 fp v), tree))
      else if oper = const_string then
        (case tree_string tree of Inl _ \<Rightarrow> None | Inr (s, tree) \<Rightarrow> Some (print_paren (39 # s @ [39]), tree))
      else if oper = field then
        (case tree_fieldid tree of
           Inl _ \<Rightarrow> None
         | Inr (f, tree) \<Rightarrow>
             (case tree_bytes 4 tree of
                Inl _ \<Rightarrow> None
              | Inr (oc, tree) \<Rightarrow> Some (print_paren (names f @ 91 # show_int (sdec_le oc) @ [93]), tree)))
      else if oper = field_any then
        (case tree_fieldid tree of
           Inl _ \<Rightarrow> None
         | Inr (f, tree) \<Rightarrow> Some (print_paren (names f @ [91, 63, 93]), tree))
      else if oper = unary_minus \<or> oper = logical_negation \<or> oper = bitwise_negation then
        (case boolpr names fp n tree of
           None \<Rightarrow> None
         | Some (t, tree) \<Rightarrow> Some ([40, 32] @ op_text oper @ t @ [41, 32], tree))
      else if first_invalid < oper \<and> oper < last_invalid then
        (case boolpr names fp n tree of
           None \<Rightarrow> None
         | Some (t, tree) \<Rightarrow>
             (case boolpr names fp n tree of
                None \<Rightarrow> None
              | Some (u, tree) \<Rightarrow> Some ([40, 32] @ t @ op_text oper @ [32] @ u @ [41, 32], tree)))
      else Some ([], tree))"

declare boolpr.simps [simp del]

definition Fboolpr32 :: "(fldid \<Rightarrow> byte list) \<Rightarrow> fp_ops \<Rightarrow> byte list option \<Rightarrow> byte list option" where
  "Fboolpr32 names fp tree =
     (case tree of
        None \<Rightarrow> Some []
      | Some bytes \<Rightarrow>
          (case boolpr names fp (length bytes) (drop 4 bytes) of
             None \<Rightarrow> None
           | Some (t, _) \<Rightarrow> Some (t @ [10])))"

text \<open>The text of an expression, by recursion over the tree.\<close>

fun printed :: "(fldid \<Rightarrow> byte list) \<Rightarrow> fp_ops \<Rightarrow> expr \<Rightarrow> byte list" where
  "printed names fp (ELong i) = print_paren (show_int i)"
| "printed names fp (EDouble d) = print_paren (show_f64 fp d)"
| "printed names fp (EString s) = print_paren (39 # s @ [39])"
| "printed names fp (EField f oc) = print_paren (names f @ 91 # show_int oc @ [93])"
| "printed names fp (EAny f) = print_paren (names f @ [91, 63, 93])"
| "printed names fp (EUnary oper e) = [40, 32] @ op_text oper @ printed names fp e @ [41, 32]"
| "printed names fp (EBinary oper l r) =
     [40, 32] @ printed names fp l @ op_text oper @ [32] @ printed names fp r @ [41, 32]"

lemma boolpr_printed:
  assumes "wf_expr e" "length (encode e) \<le> n"
  shows "boolpr names fp n (encode e @ rest) = Some (printed names fp e, rest)"
  using assms
proof (induction e arbitrary: n rest)
  case (EUnary oper e)
  then show ?case by (cases n) (auto simp: boolpr.simps Let_def)
next
  case (EBinary oper l r)
  have b: "is_binary oper" using EBinary.prems(1) by simp
  have ops: "oper \<notin> {const_long, const_double, const_string, field, field_any, unary_minus, logical_negation, bitwise_negation}"
    "first_invalid < oper" "oper < last_invalid"
    using b by (cases oper; simp add: is_binary_def)+
  obtain m where "n = Suc m" using EBinary.prems(2) by (cases n) auto
  then show ?case using EBinary ops by (simp add: boolpr.simps Let_def)
qed (case_tac [!] n, auto simp: boolpr.simps Let_def simp del: enc_le.simps)

end
