(* ===== verification/Mem.thy ===== *)
theory Mem
  imports Atmi Base64 Fml_Props
begin

text \<open>
  Typed buffers: src/mem.cpp and the type hooks at the end of src/fbfr32.h. A buffer is a block
  with a header before the bytes the application sees; the address of the data stands for it.
  Blocks live in a partial map from addresses, and \<open>char *\<close> variables that own a buffer are cells
  of the same state. \<open>malloc\<close> and \<open>realloc\<close> are parameters.
\<close>

subsection \<open>Blocks and the state\<close>

text \<open>
  \<open>struct tpmem\<close>: the size asked for, the owner variable if any, and the bytes from the member
  \<open>type\<close> on: 8 of the type, 16 of the subtype, then the data. \<open>tm_room\<close> is the number of data bytes
  the allocation really has.
\<close>

record tpmem =
  tm_size :: int
  tm_owner :: "nat option"
  tm_body :: mem
  tm_room :: nat

record atmi =
  blocks :: "nat \<Rightarrow> tpmem option"
  cells :: "nat \<Rightarrow> nat option"
  tperr :: int

record allocator =
  fresh_at :: "atmi \<Rightarrow> nat"
  moved_to :: "nat \<Rightarrow> atmi \<Rightarrow> nat"
  heap_junk :: "nat \<Rightarrow> byte"

type_synonym 'a mem_call = "('a, atmi) call"

text \<open>\<open>sizeof(tpmem)\<close> and \<open>offsetof(tpmem, type)\<close>; type and subtype are 24 bytes.\<close>

abbreviation (input) sizeof_tpmem :: int where "sizeof_tpmem \<equiv> 40"
abbreviation (input) type_offset :: int where "type_offset \<equiv> 16"
abbreviation (input) names_size :: nat where "names_size \<equiv> 24"

definition put_err :: "int \<Rightarrow> atmi \<Rightarrow> atmi" where
  "put_err e s = s\<lparr>tperr := e\<rparr>"

definition buf_type :: "tpmem \<Rightarrow> byte list" where
  "buf_type b = rd 0 8 (tm_body b)"

definition buf_subtype :: "tpmem \<Rightarrow> byte list" where
  "buf_subtype b = rd 8 16 (tm_body b)"

definition buf_data :: "tpmem \<Rightarrow> mem" where
  "buf_data b = (\<lambda>i. tm_body b (names_size + i))"

definition put_data :: "mem \<Rightarrow> tpmem \<Rightarrow> tpmem" where
  "put_data d b = b\<lparr>tm_body := (\<lambda>i. if i < names_size then tm_body b i else d (i - names_size))\<rparr>"

subsection \<open>A fielded buffer in memory\<close>

text \<open>The bytes of a \<open>Fbfr32\<close>: its header of 40 bytes, then \<open>data_\<close>.\<close>

definition fb_of :: "mem \<Rightarrow> fbfr" where
  "fb_of d =
     \<lparr>bsize = unat (dec32 (rd 0 4 d)), blen = unat (dec32 (rd 4 4 d)), boffs = header_of (rd 8 28 d),
      bpad = rd 36 4 d, bdata = (\<lambda>i. d (min_size + i))\<rparr>"

definition fb_into :: "fbfr \<Rightarrow> mem" where
  "fb_into b =
     wr 0 (u32_bytes (bsize b) @ u32_bytes (blen b) @ header_bytes (boffs b) @ bpad b)
       (\<lambda>i. bdata b (i - min_size))"

definition fml32init :: "int \<Rightarrow> mem \<Rightarrow> mem" where
  "fml32init sz d = fb_into (snd (fb_init (u32 sz) (fb_of d)))"

definition fml32reinit :: "int \<Rightarrow> mem \<Rightarrow> mem" where
  "fml32reinit sz d = fb_into (fb_reinit (u32 sz) (fb_of d))"

definition fml32used :: "nat \<Rightarrow> mem \<Rightarrow> int option" where
  "fml32used room d = (if room < min_size then None else Some (int (fb_used (fb_of d))))"

text \<open>\<open>strlen\<close> reads on behind the block when there is no NUL in it.\<close>

definition strused :: "nat \<Rightarrow> mem \<Rightarrow> int option" where
  "strused room d = map_option (\<lambda>n. int n + 1) (search (\<lambda>c. c = 0) (rd 0 room d))"

subsection \<open>The types\<close>

record tptype =
  tt_type :: "byte list"
  tt_subtype :: "byte list"
  tt_default :: int
  tt_init :: "(int \<Rightarrow> mem \<Rightarrow> mem) option"
  tt_reinit :: "(int \<Rightarrow> mem \<Rightarrow> mem) option"
  tt_used :: "(nat \<Rightarrow> mem \<Rightarrow> int option) option"

text \<open>\<open>_tptypes\<close>. The hook \<open>finit\<close> of the fielded buffers does nothing and is left out.\<close>

definition tptypes_table :: "tptype list" where
  "tptypes_table =
     [\<lparr>tt_type = [84, 80, 73, 78, 73, 84], tt_subtype = [42], tt_default = 120,
       tt_init = None, tt_reinit = None, tt_used = None\<rparr>,
      \<lparr>tt_type = [67, 65, 82, 82, 65, 89], tt_subtype = [42], tt_default = 0,
       tt_init = None, tt_reinit = None, tt_used = None\<rparr>,
      \<lparr>tt_type = [83, 84, 82, 73, 78, 71], tt_subtype = [42], tt_default = 512,
       tt_init = None, tt_reinit = None, tt_used = Some strused\<rparr>,
      \<lparr>tt_type = [70, 77, 76, 51, 50], tt_subtype = [42], tt_default = 512,
       tt_init = Some fml32init, tt_reinit = Some fml32reinit, tt_used = Some fml32used\<rparr>]"

text \<open>\<open>strncmp(a, b, n) == 0\<close>\<close>

definition strn_eq :: "nat \<Rightarrow> byte list \<Rightarrow> byte list \<Rightarrow> bool" where
  "strn_eq n a b \<longleftrightarrow> c_string (take n a) = c_string (take n b)"

definition typeptr :: "byte list \<Rightarrow> byte list option \<Rightarrow> atmi \<Rightarrow> tptype option \<times> atmi" where
  "typeptr type subtype s =
     (case find (\<lambda>t. strn_eq 8 (tt_type t) type \<and>
             (case subtype of None \<Rightarrow> True | Some st \<Rightarrow> c_string st = [] \<or> strn_eq 16 (tt_subtype t) st))
           tptypes_table of
        None \<Rightarrow> (None, put_err TPENOENT s)
      | Some t \<Rightarrow> (Some t, s))"

text \<open>The type of a block, from its header.\<close>

definition block_type :: "tpmem \<Rightarrow> atmi \<Rightarrow> tptype option \<times> atmi" where
  "block_type b = typeptr (buf_type b) (Some (buf_subtype b))"

definition opt_hook :: "(int \<Rightarrow> mem \<Rightarrow> mem) option \<Rightarrow> int \<Rightarrow> tpmem \<Rightarrow> tpmem" where
  "opt_hook h sz b = (case h of None \<Rightarrow> b | Some f \<Rightarrow> put_data (f sz (buf_data b)) b)"

subsection \<open>Allocation\<close>

text \<open>\<open>strncpy\<close> into an array of \<open>n\<close> bytes\<close>

definition strncpy :: "nat \<Rightarrow> byte list \<Rightarrow> byte list" where
  "strncpy n s = take n (c_string s @ replicate n 0)"

definition put_block :: "nat \<Rightarrow> tpmem \<Rightarrow> atmi \<Rightarrow> atmi" where
  "put_block p b s = s\<lparr>blocks := (blocks s)(p \<mapsto> b)\<rparr>"

definition mem_tpalloc ::
    "allocator \<Rightarrow> byte list option \<Rightarrow> byte list option \<Rightarrow> int \<Rightarrow> atmi \<Rightarrow> nat option mem_call" where
  "mem_tpalloc al type subtype sz s =
     (case type of
        None \<Rightarrow> (Inr None, put_err TPEINVAL s)
      | Some ty \<Rightarrow>
          (case typeptr ty subtype s of
             (None, s) \<Rightarrow> (Inr None, s)
           | (Some t, s) \<Rightarrow>
               let sz = (if sz \<ge> tt_default t then sz else tt_default t);
                   p = fresh_at al s;
                   body = wr 0 (strncpy 8 ty @ (case subtype of None \<Rightarrow> [0] | Some st \<Rightarrow> strncpy 16 st)) (heap_junk al);
                   b = \<lparr>tm_size = sz, tm_owner = None, tm_body = body, tm_room = nat sz\<rparr>
               in (Inr (Some p), put_err 0 (put_block p (opt_hook (tt_init t) sz b) s))))"

text \<open>
  \<open>tprealloc\<close>. The block may move; its first bytes stay. The member \<open>size\<close> is not written. The
  owner variable follows the block when it points to it.
\<close>

definition follow_owner :: "nat option \<Rightarrow> nat \<Rightarrow> nat option \<Rightarrow> atmi \<Rightarrow> atmi" where
  "follow_owner own p q s =
     (case own of
        None \<Rightarrow> s
      | Some a \<Rightarrow> if cells s a = Some p then s\<lparr>cells := (cells s)(a := q)\<rparr> else s)"

definition resized :: "allocator \<Rightarrow> int \<Rightarrow> tpmem \<Rightarrow> tpmem" where
  "resized al sz b =
     b\<lparr>tm_body := (\<lambda>i. if i < names_size + min (tm_room b) (nat sz) then tm_body b i else heap_junk al i),
       tm_room := nat sz\<rparr>"

definition mem_tprealloc :: "allocator \<Rightarrow> nat option \<Rightarrow> int \<Rightarrow> atmi \<Rightarrow> nat option mem_call" where
  "mem_tprealloc al ptr sz s =
     (case ptr of
        None \<Rightarrow> (Inr None, put_err TPEINVAL s)
      | Some p \<Rightarrow>
          (case blocks s p of
             None \<Rightarrow> (Inl Undefined, s)
           | Some b \<Rightarrow>
               (case block_type b s of
                  (None, s) \<Rightarrow> (Inr None, s)
                | (Some t, s) \<Rightarrow>
                    let sz = (if sz \<ge> tt_default t then sz else tt_default t);
                        q = moved_to al p s;
                        b = opt_hook (tt_reinit t) sz (resized al sz b);
                        s = s\<lparr>blocks := (blocks s)(p := None, q \<mapsto> b)\<rparr>
                    in (Inr (Some q), put_err 0 (follow_owner (tm_owner b) p (Some q) s)))))"

definition mem_tpfree :: "nat option \<Rightarrow> atmi \<Rightarrow> unit mem_call" where
  "mem_tpfree ptr s =
     (case ptr of
        None \<Rightarrow> (Inr (), put_err 0 s)
      | Some p \<Rightarrow>
          (case blocks s p of
             None \<Rightarrow> (Inl Undefined, s)
           | Some b \<Rightarrow>
               (case block_type b s of
                  (None, s) \<Rightarrow> (Inr (), s)
                | (Some t, s) \<Rightarrow>
                    let s = follow_owner (tm_owner b) p None s
                    in (Inr (), put_err 0 (s\<lparr>blocks := (blocks s)(p := None)\<rparr>)))))"

text \<open>\<open>tptypes\<close>: the result, type and subtype (all 8 and 16 bytes of them).\<close>

definition mem_tptypes :: "nat option \<Rightarrow> atmi \<Rightarrow> (byte list \<times> byte list) option mem_call" where
  "mem_tptypes ptr s =
     (case ptr of
        None \<Rightarrow> (Inr None, put_err TPEINVAL s)
      | Some p \<Rightarrow>
          (case blocks s p of
             None \<Rightarrow> (Inl Undefined, s)
           | Some b \<Rightarrow>
               (case block_type b s of
                  (None, s) \<Rightarrow> (Inr None, put_err TPEINVAL s)
                | (Some t, s) \<Rightarrow> (Inr (Some (buf_type b, buf_subtype b)), put_err 0 s))))"

definition setowner :: "nat \<Rightarrow> nat option \<Rightarrow> atmi \<Rightarrow> unit mem_call" where
  "setowner p own s =
     (case blocks s p of
        None \<Rightarrow> (Inl Undefined, s)
      | Some b \<Rightarrow> (Inr (), put_block p (b\<lparr>tm_owner := own\<rparr>) s))"

subsection \<open>Export and import\<close>

definition bufsize :: "nat \<Rightarrow> int \<Rightarrow> atmi \<Rightarrow> int mem_call" where
  "bufsize p len s =
     (case blocks s p of
        None \<Rightarrow> (Inl Undefined, s)
      | Some b \<Rightarrow>
          (case block_type b s of
             (None, s) \<Rightarrow> (Inr (-1), s)
           | (Some t, s) \<Rightarrow>
               (case tt_used t of
                  Some f \<Rightarrow> (case f (tm_room b) (buf_data b) of
                              None \<Rightarrow> (Inl Undefined, s)
                            | Some n \<Rightarrow> (Inr (n + sizeof_tpmem - type_offset), s))
                | None \<Rightarrow>
                    if len \<noteq> -1 then (Inr (len + sizeof_tpmem - type_offset), s)
                    else (Inr (tm_size b - type_offset), s))))"

text \<open>\<open>base64chars\<close> of a \<open>size_t\<close>, and a \<open>size_t\<close> as a \<open>long\<close>\<close>

definition as_long64 :: "int \<Rightarrow> int" where
  "as_long64 i = (i + 2 ^ 63) mod 2 ^ 64 - 2 ^ 63"

definition chars_of :: "int \<Rightarrow> int" where
  "chars_of n = as_long64 (int (base64chars (nat (n mod 2 ^ 64))))"

text \<open>
  \<open>tpexport\<close>: the result, \<open>*olen\<close> and the bytes written to \<open>ostr\<close>. \<open>None\<close> for \<open>ibuf\<close> is a null
  pointer; \<open>have\<close> tells whether \<open>ostr\<close> and \<open>olen\<close> are given.
\<close>

definition mem_tpexport ::
    "nat option \<Rightarrow> int \<Rightarrow> bool \<Rightarrow> int \<Rightarrow> int \<Rightarrow> atmi \<Rightarrow> (int \<times> int \<times> byte list) mem_call" where
  "mem_tpexport ibuf ilen have olen flags s =
     (case ibuf of
        None \<Rightarrow> (Inr (-1, olen, []), put_err TPEINVAL s)
      | Some p \<Rightarrow>
          if \<not> have then (Inr (-1, olen, []), put_err TPEINVAL s)
          else if \<not> (flags = 0 \<or> flags = TPEX_STRING) then (Inr (-1, olen, []), put_err TPEINVAL s)
          else seqx (bufsize p ilen s) (\<lambda>len s.
            if len = -1 then (Inr (-1, olen, []), s)
            else
              let needed = (if has_flag flags TPEX_STRING then chars_of len + 1 else len)
              in if olen < needed then (Inr (-1, needed, []), put_err TPELIMIT s)
                 else case blocks s p of
                   None \<Rightarrow> (Inl Undefined, s)
                 | Some b \<Rightarrow>
                     let bytes = rd 0 (nat len) (tm_body b)
                     in if nat len > names_size + tm_room b \<or> len < 0 \<and> has_flag flags TPEX_STRING
                        then (Inl Undefined, s)
                        else if has_flag flags TPEX_STRING
                        then (case base64encode bytes (nat olen) of
                                Inl e \<Rightarrow> (Inl (Throw e), s)
                              | Inr out \<Rightarrow> (Inr (0, needed, out @ [0]), put_err 0 s))
                        else (Inr (0, needed, bytes), put_err 0 s)))"

text \<open>
  \<open>tpimport\<close> of the bytes at \<open>istr\<close> (those that may be read) into the buffer that the variable
  \<open>obuf\<close> points to: the result and what becomes of \<open>*olen\<close>.
\<close>

definition write_body :: "nat \<Rightarrow> byte list \<Rightarrow> atmi \<Rightarrow> unit mem_call" where
  "write_body p xs s =
     (case blocks s p of
        None \<Rightarrow> (Inl Undefined, s)
      | Some b \<Rightarrow>
          if length xs > names_size + tm_room b then (Inl Undefined, s)
          else (Inr (), put_block p (b\<lparr>tm_body := wr 0 xs (tm_body b)\<rparr>) s))"

definition grow_for :: "allocator \<Rightarrow> nat \<Rightarrow> int \<Rightarrow> atmi \<Rightarrow> nat mem_call" where
  "grow_for al cell needed s =
     (case cells s cell of
        None \<Rightarrow> (Inl Undefined, s)
      | Some p \<Rightarrow>
          (case blocks s p of
             None \<Rightarrow> (Inl Undefined, s)
           | Some b \<Rightarrow>
               if needed > tm_size b then
                 seqx (mem_tprealloc al (Some p) needed s) (\<lambda>q s.
                   let s = s\<lparr>cells := (cells s)(cell := q)\<rparr>
                   in case q of None \<Rightarrow> (Inl Undefined, s) | Some q \<Rightarrow> (Inr q, s))
               else (Inr p, s)))"

definition reinit_import :: "nat \<Rightarrow> int \<Rightarrow> atmi \<Rightarrow> (int \<times> int option) mem_call" where
  "reinit_import p ilen s =
     (case blocks s p of
        None \<Rightarrow> (Inl Undefined, s)
      | Some b \<Rightarrow>
          (case block_type b s of
             (None, s) \<Rightarrow> (Inr (-1, None), s)
           | (Some t, s) \<Rightarrow>
               (Inr (0, Some ilen), put_err 0 (put_block p (opt_hook (tt_reinit t) (tm_size b) b) s))))"

definition mem_tpimport ::
    "allocator \<Rightarrow> byte list option \<Rightarrow> int \<Rightarrow> nat option \<Rightarrow> int \<Rightarrow> atmi \<Rightarrow> (int \<times> int option) mem_call" where
  "mem_tpimport al istr ilen obuf flags s =
     (case (istr, obuf) of
        (None, _) \<Rightarrow> (Inr (-1, None), put_err TPEINVAL s)
      | (_, None) \<Rightarrow> (Inr (-1, None), put_err TPEINVAL s)
      | (Some inp, Some cell) \<Rightarrow>
          if cells s cell = None then (Inr (-1, None), put_err TPEINVAL s)
          else if ilen = 0 \<or> has_flag flags TPEX_STRING then
            (if 0 \<notin> set inp then (Inl Undefined, s)
             else
               let str = c_string inp; n = length str
               in if n mod 4 \<noteq> 0 then (Inr (-1, None), put_err TPEPROTO s)
                  else seqx (grow_for al cell (sizeof_tpmem + int (n div 4 * 3)) s) (\<lambda>p s.
                    case decode_blocks 0 str of
                      (out, err) \<Rightarrow> seqx (write_body p out s) (\<lambda>_ s.
                        case base64decode str n of
                          Inl e \<Rightarrow> (Inl (Throw e), s)
                        | Inr _ \<Rightarrow> reinit_import p (int n) s)))
          else seqx (grow_for al cell (sizeof_tpmem + ilen) s) (\<lambda>p s.
            if nat ilen > length inp then (Inl Undefined, s)
            else seqx (write_body p (take (nat ilen) inp) s) (\<lambda>_ s. reinit_import p ilen s)))"

subsection \<open>The public functions\<close>

definition tpalloc :: "allocator \<Rightarrow> byte list option \<Rightarrow> byte list option \<Rightarrow> int \<Rightarrow> atmi \<Rightarrow> nat option mem_call" where
  "tpalloc al type subtype sz = exception_boundary put_err (mem_tpalloc al type subtype sz) None"

definition tprealloc :: "allocator \<Rightarrow> nat option \<Rightarrow> int \<Rightarrow> atmi \<Rightarrow> nat option mem_call" where
  "tprealloc al ptr sz = exception_boundary put_err (mem_tprealloc al ptr sz) None"

definition tpfree :: "nat option \<Rightarrow> atmi \<Rightarrow> unit mem_call" where
  "tpfree ptr = exception_boundary put_err (mem_tpfree ptr) ()"

definition tptypes :: "nat option \<Rightarrow> atmi \<Rightarrow> (byte list \<times> byte list) option mem_call" where
  "tptypes ptr = exception_boundary put_err (mem_tptypes ptr) None"

definition tpimport ::
    "allocator \<Rightarrow> byte list option \<Rightarrow> int \<Rightarrow> nat option \<Rightarrow> int \<Rightarrow> atmi \<Rightarrow> (int \<times> int option) mem_call" where
  "tpimport al istr ilen obuf flags =
     exception_boundary put_err (mem_tpimport al istr ilen obuf flags) (-1, None)"

definition tpexport ::
    "nat option \<Rightarrow> int \<Rightarrow> bool \<Rightarrow> int \<Rightarrow> int \<Rightarrow> atmi \<Rightarrow> (int \<times> int \<times> byte list) mem_call" where
  "tpexport ibuf ilen have olen flags =
     exception_boundary put_err (mem_tpexport ibuf ilen have olen flags) (-1, olen, [])"

end
