(* ===== verification/Ipc.thy ===== *)
theory Ipc
  imports Atmi Mem "HOL-Library.Signed_Division"
begin

text \<open>
  src/ipc.h, src/ipc.cpp: messages and their transport over System V queues, large ones through a
  file. The system calls are parameters (\<open>os\<close>); semaphores, and the creation and removal of queues,
  are single system calls and left out.
\<close>

subsection \<open>Messages\<close>

datatype transport = In_queue | In_file

text \<open>\<open>enum category\<close>, one byte\<close>

abbreviation (input) application :: byte where "application \<equiv> 0"
abbreviation (input) admin :: byte where "admin \<equiv> 1"
abbreviation (input) unblock :: byte where "unblock \<equiv> 2"

datatype send_flags = noflags | noblock | notime

text \<open>\<open>msgbase\<close> and \<open>msgmem\<close>; \<open>m_data\<close> is the bytes behind the header.\<close>

record msg =
  m_mtype :: int
  m_ttype :: transport
  m_cat :: byte
  m_service :: "byte list"
  m_gttid :: nat
  m_flags :: int
  m_cd :: int
  m_replyq :: int
  m_rval :: int
  m_rcode :: int
  m_data :: "byte list"

definition new_msg :: msg where
  "new_msg =
     \<lparr>m_mtype = 1, m_ttype = In_queue, m_cat = application, m_service = replicate 32 0, m_gttid = 0,
      m_flags = 0, m_cd = 0, m_replyq = 0, m_rval = 0, m_rcode = 0, m_data = []\<rparr>"

text \<open>\<open>sizeof(msgmem)\<close>\<close>

abbreviation (input) sizeof_msgmem :: nat where "sizeof_msgmem \<equiv> 88"

definition msg_size :: "msg \<Rightarrow> nat" where
  "msg_size m = sizeof_msgmem + length (m_data m)"

text \<open>
  \<open>set_data\<close> and \<open>get_data\<close>. A negative size (other than the -1 of an error) would leave less than
  the header of the message.
\<close>

definition set_data :: "nat option \<Rightarrow> int \<Rightarrow> msg \<Rightarrow> atmi \<Rightarrow> msg mem_call" where
  "set_data buf len m s =
     (case buf of
        None \<Rightarrow> (Inr (m\<lparr>m_data := []\<rparr>), s)
      | Some p \<Rightarrow>
          seqx (bufsize p len s) (\<lambda>needed s.
            if needed < - int sizeof_msgmem then (Inl (Throw Length_error), s)
            else if needed < -1 then (Inl Undefined, s)
            else seqx (tpexport (Some p) len True needed 0 s) (\<lambda>(rc, _, bytes) s.
              if rc = -1 then (Inl (Throw Runtime_error), s)
              else (Inr (m\<lparr>m_data := bytes\<rparr>), s))))"

definition get_data :: "allocator \<Rightarrow> nat option \<Rightarrow> msg \<Rightarrow> atmi \<Rightarrow> unit mem_call" where
  "get_data al cell m s =
     seqx (tpimport al (Some (m_data m)) (int (length (m_data m))) cell 0 s) (\<lambda>(rc, _) s.
       if rc = -1 then (Inl (Throw Runtime_error), s) else (Inr (), s))"

subsection \<open>System calls\<close>

text \<open>What a queue of the kernel holds: a whole message, or the name of the file with the rest of it.\<close>

datatype kmsg = Whole msg | Named int byte nat

datatype os_send = Sent | Again | Failed | Stays
datatype os_recv = Got kmsg | Recv_failed | Recv_stays

text \<open>
  \<open>save_file\<close> is \<open>mkstemp\<close>, \<open>write\<close> and \<open>close\<close> of what follows \<open>msgbase\<close>, \<open>load_file\<close> is \<open>stat\<close>, \<open>open\<close>,
  \<open>read\<close>, \<open>close\<close> and \<open>unlink\<close>; \<open>None\<close> when one of them fails. \<open>stack_cat\<close> is what the local \<open>msgfile\<close> of
  \<open>qsend\<close> holds in its member \<open>cat\<close>, which is not written.
\<close>

record 'k os =
  msgsnd :: "int \<Rightarrow> kmsg \<Rightarrow> bool \<Rightarrow> 'k \<Rightarrow> os_send \<times> 'k"
  msgrcv :: "int \<Rightarrow> int \<Rightarrow> 'k \<Rightarrow> os_recv \<times> 'k"
  nanosleep :: "'k \<Rightarrow> bool \<times> 'k"
  save_file :: "msg \<Rightarrow> 'k \<Rightarrow> nat option \<times> 'k"
  load_file :: "nat \<Rightarrow> 'k \<Rightarrow> msg option \<times> 'k"
  remove_file :: "nat \<Rightarrow> 'k \<Rightarrow> 'k"
  stack_cat :: "'k \<Rightarrow> byte"

subsection \<open>Sending\<close>

fun send_rounds :: "'k os \<Rightarrow> int \<Rightarrow> kmsg \<Rightarrow> nat \<Rightarrow> bool \<Rightarrow> 'k \<Rightarrow> (bool, 'k) call" where
  "send_rounds os q km 0 first k = (Inr False, k)"
| "send_rounds os q km (Suc n) first k =
     (case msgsnd os q km True k of
        (Sent, k) \<Rightarrow> (Inr True, k)
      | (Again, k) \<Rightarrow>
          if first then send_rounds os q km n False k
          else (case nanosleep os k of
                  (False, k) \<Rightarrow> (Inl (Throw System_error), k)
                | (True, k) \<Rightarrow> send_rounds os q km n False k)
      | (Failed, k) \<Rightarrow> (Inl (Throw System_error), k)
      | (Stays, k) \<Rightarrow> (Inl No_return, k))"

text \<open>A \<open>long\<close> that becomes an \<open>int\<close>\<close>

definition as_int32 :: "int \<Rightarrow> int" where
  "as_int32 i = (i + 2 ^ 31) mod 2 ^ 32 - 2 ^ 31"

definition msgsnd_timed :: "'k os \<Rightarrow> int \<Rightarrow> kmsg \<Rightarrow> send_flags \<Rightarrow> int \<Rightarrow> 'k \<Rightarrow> (bool, 'k) call" where
  "msgsnd_timed os q km flag msec k =
     (if flag = notime then
        (case msgsnd os q km False k of
           (Sent, k) \<Rightarrow> (Inr True, k)
         | (Stays, k) \<Rightarrow> (Inl No_return, k)
         | (_, k) \<Rightarrow> (Inl (Throw System_error), k))
      else if flag = noblock then
        (case msgsnd os q km True k of
           (Sent, k) \<Rightarrow> (Inr True, k)
         | (Again, k) \<Rightarrow> (Inr False, k)
         | (Failed, k) \<Rightarrow> (Inl (Throw System_error), k)
         | (Stays, k) \<Rightarrow> (Inl No_return, k))
      else send_rounds os q km (nat (as_int32 (msec sdiv 100 + 2))) True k)"

abbreviation (input) MAX_QUEUE_MSG_SIZE :: nat where "MAX_QUEUE_MSG_SIZE \<equiv> 4000"

text \<open>\<open>qsend\<close>: whether the message was sent, and the message, whose transport it notes.\<close>

definition qsend :: "'k os \<Rightarrow> int \<Rightarrow> msg \<Rightarrow> int \<Rightarrow> send_flags \<Rightarrow> 'k \<Rightarrow> (bool \<times> msg, 'k) call" where
  "qsend os q m tmo flags k =
     (if msg_size m > MAX_QUEUE_MSG_SIZE then
        (case save_file os m k of
           (None, k) \<Rightarrow> (Inl (Throw System_error), k)
         | (Some f, k) \<Rightarrow>
             seqx (msgsnd_timed os q (Named (m_mtype m) (stack_cat os k) f) flags tmo k) (\<lambda>ok k.
               if \<not> ok then (Inr (False, m), remove_file os f k) else (Inr (True, m), k)))
      else
        let m = m\<lparr>m_ttype := In_queue\<rparr>
        in seqx (msgsnd_timed os q (Whole m) flags tmo k) (\<lambda>ok k. (Inr (ok, m), k)))"

subsection \<open>Receiving\<close>

definition qrecv :: "'k os \<Rightarrow> int \<Rightarrow> int \<Rightarrow> 'k \<Rightarrow> (msg, 'k) call" where
  "qrecv os q mtype k =
     (case msgrcv os q mtype k of
        (Recv_failed, k) \<Rightarrow> (Inl (Throw System_error), k)
      | (Recv_stays, k) \<Rightarrow> (Inl No_return, k)
      | (Got (Whole m), k) \<Rightarrow> (Inr m, k)
      | (Got (Named t c f), k) \<Rightarrow>
          (case load_file os f k of
             (None, k) \<Rightarrow> (Inl (Throw System_error), k)
           | (Some m, k) \<Rightarrow> (Inr (m\<lparr>m_mtype := t, m_ttype := In_file, m_cat := c\<rparr>), k)))"

end
