(* ===== verification/Ipc_Props.thy ===== *)
theory Ipc_Props
  imports Ipc
begin

text \<open>
  The transport of src/ipc.cpp over System V queues. The locale \<open>sysv_queues\<close> is what the manual
  pages promise of the system calls; over it, \<open>qsend\<close> and \<open>qrecv\<close> refine appending to and taking
  from a list of messages. It is interpreted on \<open>kern\<close>, a small kernel.
\<close>

subsection \<open>The contract of the system calls\<close>

definition kmsg_files :: "kmsg list \<Rightarrow> nat list" where
  "kmsg_files kms = concat (map (\<lambda>km. case km of Whole m \<Rightarrow> [] | Named t c f \<Rightarrow> [f]) kms)"

lemma kmsg_files_simps [simp]:
  "kmsg_files [] = []" "kmsg_files (Whole m # kms) = kmsg_files kms"
  "kmsg_files (Named t c f # kms) = f # kmsg_files kms" "kmsg_files (xs @ ys) = kmsg_files xs @ kmsg_files ys"
  by (simp_all add: kmsg_files_def)

locale sysv_queues =
  fixes os :: "'k os"
    and pending :: "'k \<Rightarrow> int \<Rightarrow> kmsg list"
    and stored :: "'k \<Rightarrow> nat \<Rightarrow> msg option"
  assumes sent: "msgsnd os q km nw k = (Sent, k') \<Longrightarrow>
      pending k' = (pending k)(q := pending k q @ [km]) \<and> stored k' = stored k"
    and again: "msgsnd os q km nw k = (Again, k') \<Longrightarrow> pending k' = pending k \<and> stored k' = stored k"
    and slept: "pending (snd (nanosleep os k)) = pending k \<and> stored (snd (nanosleep os k)) = stored k"
    and got: "pending k q = km # kms \<Longrightarrow>
      \<exists>k'. msgrcv os q 0 k = (Got km, k') \<and> pending k' = (pending k)(q := kms) \<and> stored k' = stored k"
    and saved: "save_file os m k = (Some f, k') \<Longrightarrow>
      stored k f = None \<and> stored k' = (stored k)(f \<mapsto> m) \<and> pending k' = pending k"
    and loaded: "stored k f = Some m \<Longrightarrow>
      \<exists>k'. load_file os f k = (Some m, k') \<and> stored k' = (stored k)(f := None) \<and> pending k' = pending k"
    and removed: "stored (remove_file os f k) = (stored k)(f := None) \<and> pending (remove_file os f k) = pending k"
begin

text \<open>Every file a waiting message names is there, and no two name the same.\<close>

definition sound :: "'k \<Rightarrow> bool" where
  "sound k \<longleftrightarrow> (\<forall>q. distinct (kmsg_files (pending k q)) \<and> set (kmsg_files (pending k q)) \<subseteq> dom (stored k)) \<and>
     (\<forall>q r. q \<noteq> r \<longrightarrow> set (kmsg_files (pending k q)) \<inter> set (kmsg_files (pending k r)) = {})"

text \<open>The messages that wait in a queue.\<close>

definition message :: "(nat \<Rightarrow> msg option) \<Rightarrow> kmsg \<Rightarrow> msg" where
  "message files km =
     (case km of Whole m \<Rightarrow> m
      | Named t c f \<Rightarrow> (the (files f))\<lparr>m_mtype := t, m_ttype := In_file, m_cat := c\<rparr>)"

definition inbox :: "'k \<Rightarrow> int \<Rightarrow> msg list" where
  "inbox k q = map (message (stored k)) (pending k q)"

lemma message_cong:
  "\<forall>f \<in> set (kmsg_files kms). files' f = files f \<Longrightarrow> map (message files') kms = map (message files) kms"
proof (induction kms)
  case (Cons km kms)
  then show ?case by (cases km) (simp_all add: message_def del: map_eq_conv)
qed simp

lemma rounds_done:
  "send_rounds os q km n first k = (Inr ok, k') \<Longrightarrow>
     pending k' = (if ok then (pending k)(q := pending k q @ [km]) else pending k) \<and> stored k' = stored k"
proof (induction n arbitrary: first k)
  case (Suc n)
  obtain r k1 where s: "msgsnd os q km True k = (r, k1)" by force
  show ?case
  proof (cases r)
    case Again
    note a = again [OF s [unfolded Again]]
    show ?thesis
    proof (cases first)
      case True
      then show ?thesis using Suc s Again a by simp
    next
      case False
      then show ?thesis using Suc.prems Suc.IH [of False "snd (nanosleep os k1)"] s Again a slept [of k1]
        by (auto split: prod.splits bool.splits)
    qed
  qed (use Suc.prems s sent [of q km True k k1] in auto)
qed simp

lemma timed_done:
  assumes "msgsnd_timed os q km fl msec k = (Inr ok, k')"
  shows "pending k' = (if ok then (pending k)(q := pending k q @ [km]) else pending k) \<and> stored k' = stored k"
proof -
  obtain r k1 where once: "msgsnd os q km (fl = noblock) k = (r, k1)" by force
  show ?thesis
  proof (cases fl)
    case noflags
    then show ?thesis using assms by (intro rounds_done) (simp add: msgsnd_timed_def)
  next
    case noblock
    then show ?thesis
      using assms once sent [of q km True k k1] again [of q km True k k1] by (cases r) (auto simp: msgsnd_timed_def)
  next
    case notime
    then show ?thesis
      using assms once sent [of q km False k k1] by (cases r) (auto simp: msgsnd_timed_def)
  qed
qed

text \<open>What arrives: the message, but a large one with a \<open>cat\<close> that nobody wrote.\<close>

definition delivered :: "byte \<Rightarrow> msg \<Rightarrow> msg" where
  "delivered c m =
     (if msg_size m > MAX_QUEUE_MSG_SIZE then m\<lparr>m_ttype := In_file, m_cat := c\<rparr> else m\<lparr>m_ttype := In_queue\<rparr>)"

lemma qsend_false:
  assumes "sound k" "qsend os q m tmo fl k = (Inr (False, m'), k')"
  shows "sound k' \<and> inbox k' = inbox k"
proof (cases "msg_size m > MAX_QUEUE_MSG_SIZE")
  case False
  then have "msgsnd_timed os q (Whole (m\<lparr>m_ttype := In_queue\<rparr>)) fl tmo k = (Inr False, k')"
    using assms(2) by (auto simp: qsend_def Let_def seqx_def split: prod.splits sum.splits)
  then have "pending k' = pending k" "stored k' = stored k" by (simp_all add: timed_done)
  moreover from this have "inbox k' = inbox k" by (intro ext) (simp add: inbox_def)
  ultimately show ?thesis using assms(1) by (simp add: sound_def)
next
  case True
  then obtain f k1 k2 where s: "save_file os m k = (Some f, k1)"
    "msgsnd_timed os q (Named (m_mtype m) (stack_cat os k1) f) fl tmo k1 = (Inr False, k2)" "k' = remove_file os f k2"
    using assms(2) by (auto simp: qsend_def seqx_def split: prod.splits sum.splits option.splits if_splits)
  note d = saved [OF s(1)] timed_done [OF s(2)] removed [of f k2]
  have "pending k' = pending k" "stored k' = stored k" using d s(3) by auto
  moreover from this have "inbox k' = inbox k" by (intro ext) (simp add: inbox_def)
  ultimately show ?thesis using assms(1) by (simp add: sound_def)
qed

lemma qsend_true:
  assumes "sound k" "qsend os q m tmo fl k = (Inr (True, m'), k')"
  shows "sound k' \<and> (\<exists>c. inbox k' = (inbox k)(q := inbox k q @ [delivered c m]))"
proof (cases "msg_size m > MAX_QUEUE_MSG_SIZE")
  case False
  then have "msgsnd_timed os q (Whole (m\<lparr>m_ttype := In_queue\<rparr>)) fl tmo k = (Inr True, k')"
    using assms(2) by (auto simp: qsend_def Let_def seqx_def split: prod.splits sum.splits)
  then have k': "pending k' = (pending k)(q := pending k q @ [Whole (m\<lparr>m_ttype := In_queue\<rparr>)])" "stored k' = stored k"
    by (simp_all add: timed_done)
  have "kmsg_files (pending k' r) = kmsg_files (pending k r)" for r by (simp add: k')
  then have "sound k'" using assms(1) by (simp add: sound_def k'(2))
  moreover have "inbox k' = (inbox k)(q := inbox k q @ [delivered c m])" for c
    using False by (auto simp: inbox_def fun_eq_iff delivered_def message_def k')
  ultimately show ?thesis by blast
next
  case True
  then obtain f k1 where s: "save_file os m k = (Some f, k1)"
    "msgsnd_timed os q (Named (m_mtype m) (stack_cat os k1) f) fl tmo k1 = (Inr True, k')"
    using assms(2) by (auto simp: qsend_def seqx_def split: prod.splits sum.splits option.splits if_splits)
  let ?c = "stack_cat os k1"
  note d = saved [OF s(1)] timed_done [OF s(2)]
  have new: "pending k' = (pending k)(q := pending k q @ [Named (m_mtype m) ?c f])"
    "stored k' = (stored k)(f \<mapsto> m)" "f \<notin> dom (stored k)" using d by auto
  have old: "f \<notin> set (kmsg_files (pending k r))" for r
    using assms(1) new(3) by (auto simp: sound_def)
  have "sound k'"
    using assms(1) old unfolding sound_def new(1,2) by (auto split: if_splits)
  moreover have "inbox k' = (inbox k)(q := inbox k q @ [delivered ?c m])"
  proof
    fix r
    have "map (message (stored k')) (pending k r) = map (message (stored k)) (pending k r)"
      by (rule message_cong) (use old in \<open>auto simp: new(2)\<close>)
    then show "inbox k' r = ((inbox k)(q := inbox k q @ [delivered ?c m])) r"
      using True by (simp add: inbox_def new message_def delivered_def)
  qed
  ultimately show ?thesis by blast
qed

lemma qrecv_first:
  assumes "sound k" "inbox k q = m # ms"
  shows "\<exists>k'. qrecv os q 0 k = (Inr m, k') \<and> sound k' \<and> inbox k' = (inbox k)(q := ms)"
proof -
  obtain km kms where p: "pending k q = km # kms" "m = message (stored k) km" "ms = map (message (stored k)) kms"
    using assms(2) by (auto simp: inbox_def)
  obtain k1 where r: "msgrcv os q 0 k = (Got km, k1)" "pending k1 = (pending k)(q := kms)" "stored k1 = stored k"
    using got [OF p(1)] by blast
  show ?thesis
  proof (cases km)
    case (Whole m')
    have "kmsg_files (pending k1 r) = kmsg_files (pending k r)" for r by (simp add: r(2) p(1) Whole)
    then have "sound k1" using assms(1) by (simp add: sound_def r(3))
    moreover have "inbox k1 = (inbox k)(q := ms)" by (intro ext) (simp add: inbox_def r(2,3) p(3))
    ultimately show ?thesis using p(2) r(1) Whole by (simp add: qrecv_def message_def)
  next
    case (Named t c f)
    have fq: "kmsg_files (pending k q) = f # kmsg_files kms" by (simp add: p(1) Named)
    have sd: "distinct (kmsg_files (pending k r))" "set (kmsg_files (pending k r)) \<subseteq> dom (stored k)"
      "r \<noteq> r' \<Longrightarrow> set (kmsg_files (pending k r)) \<inter> set (kmsg_files (pending k r')) = {}" for r r'
      using assms(1) by (simp_all add: sound_def)
    have own: "f \<notin> set (kmsg_files kms)" "f \<in> dom (stored k)"
      using sd(1,2) [of q] fq by auto
    have other: "f \<notin> set (kmsg_files (pending k r))" if "r \<noteq> q" for r
      using sd(3) [of r q] that fq by auto
    obtain m0 where m0: "stored k f = Some m0" using own(2) by auto
    then obtain k2 where l: "load_file os f k1 = (Some m0, k2)" "stored k2 = (stored k)(f := None)" "pending k2 = (pending k)(q := kms)"
      using loaded [of k1 f m0] r by auto
    have files: "set (kmsg_files (pending k2 r)) \<subseteq> set (kmsg_files (pending k r)) - {f}"
      "distinct (kmsg_files (pending k2 r))" for r
      using sd(1) [of r] sd(1) [of q] own other [of r] fq by (auto simp: l(3))
    have "set (kmsg_files (pending k2 r)) \<subseteq> dom (stored k2)" for r
      using sd(2) [of r] files(1) [of r] by (auto simp: l(2))
    moreover have "set (kmsg_files (pending k2 r)) \<inter> set (kmsg_files (pending k2 r')) = {}" if "r \<noteq> r'" for r r'
      using sd(3) [OF that] files(1) [of r] files(1) [of r'] by blast
    ultimately have "sound k2" using files(2) by (simp add: sound_def)
    moreover have "inbox k2 = (inbox k)(q := ms)"
    proof
      fix r
      have "map (message (stored k2)) (pending k2 r) = map (message (stored k)) (pending k2 r)"
        by (rule message_cong) (use files(1) [of r] in \<open>auto simp: l(2)\<close>)
      then show "inbox k2 r = ((inbox k)(q := ms)) r" by (simp add: inbox_def l(3) p(3))
    qed
    ultimately show ?thesis using p r l(1) m0 Named by (auto simp: qrecv_def message_def)
  qed
qed

end

subsection \<open>The transport as its users see it\<close>

text \<open>
  What clients and servers rely on: a queue of messages per identifier. A message is not changed on the
  way, up to the two members that the transport itself uses.
\<close>

definition same_msg :: "msg \<Rightarrow> msg \<Rightarrow> bool" where
  "same_msg m m' \<longleftrightarrow> m\<lparr>m_ttype := In_queue, m_cat := 0\<rparr> = m'\<lparr>m_ttype := In_queue, m_cat := 0\<rparr>"

locale message_queues =
  fixes os :: "'k os"
    and inbox :: "'k \<Rightarrow> int \<Rightarrow> msg list"
    and good :: "'k \<Rightarrow> bool"
  assumes send_ok: "good k \<Longrightarrow> qsend os q m tmo fl k = (Inr (ok, m'), k') \<Longrightarrow>
      good k' \<and> same_msg m' m \<and> m_cat m' = m_cat m \<and>
      (if ok then \<exists>m2. inbox k' = (inbox k)(q := inbox k q @ [m2]) \<and> same_msg m2 m \<and>
           (msg_size m \<le> 4000 \<longrightarrow> m_cat m2 = m_cat m)
       else inbox k' = inbox k)"
    and recv_ok: "good k \<Longrightarrow> inbox k q = m # ms \<Longrightarrow>
      \<exists>k'. qrecv os q 0 k = (Inr m, k') \<and> good k' \<and> inbox k' = (inbox k)(q := ms)"

text \<open>System V queues provide it.\<close>

lemma qsend_msg: "qsend os q m tmo fl k = (Inr (ok, m'), k') \<Longrightarrow> m' = m \<or> m' = m\<lparr>m_ttype := In_queue\<rparr>"
  by (auto simp: qsend_def Let_def seqx_def split: if_splits prod.splits sum.splits option.splits)

sublocale sysv_queues \<subseteq> mq: message_queues os inbox sound
proof
  fix k q m tmo fl ok m' k'
  assume s: "sound k" "qsend os q m tmo fl k = (Inr (ok, m'), k')"
  have "same_msg m' m" "m_cat m' = m_cat m" using qsend_msg [OF s(2)] by (auto simp: same_msg_def)
  moreover have "same_msg (delivered c m) m" "msg_size m \<le> 4000 \<longrightarrow> m_cat (delivered c m) = m_cat m" for c
    by (simp_all add: same_msg_def delivered_def)
  ultimately show "sound k' \<and> same_msg m' m \<and> m_cat m' = m_cat m \<and>
      (if ok then \<exists>m2. inbox k' = (inbox k)(q := inbox k q @ [m2]) \<and> same_msg m2 m \<and>
           (msg_size m \<le> 4000 \<longrightarrow> m_cat m2 = m_cat m)
       else inbox k' = inbox k)"
    using qsend_true [of k q m tmo fl m' k'] qsend_false [of k q m tmo fl m' k'] s by (cases ok) auto
qed (rule qrecv_first)

subsection \<open>A small kernel\<close>

text \<open>
  Queues of at most \<open>k_cap\<close> messages, and files. Messages have a type of at least 1; a receiver asks for
  the first message (0), the first of a type (positive) or the first of the lowest type up to a bound
  (negative). A call that would have to wait stays for ever: nobody else runs.
\<close>

record kern =
  k_queues :: "int \<Rightarrow> kmsg list"
  k_files :: "nat \<Rightarrow> msg option"
  k_next :: nat
  k_cap :: nat
  k_naps :: nat
  k_junk :: byte

definition kmsg_type :: "kmsg \<Rightarrow> int" where
  "kmsg_type km = (case km of Whole m \<Rightarrow> m_mtype m | Named t c f \<Rightarrow> t)"

definition kern_snd :: "int \<Rightarrow> kmsg \<Rightarrow> bool \<Rightarrow> kern \<Rightarrow> os_send \<times> kern" where
  "kern_snd q km nw k =
     (if kmsg_type km < 1 then (Failed, k)
      else if length (k_queues k q) \<ge> k_cap k then (if nw then Again else Stays, k)
      else (Sent, k\<lparr>k_queues := (k_queues k)(q := k_queues k q @ [km])\<rparr>))"

definition kern_pick :: "int \<Rightarrow> kmsg list \<Rightarrow> nat option" where
  "kern_pick t kms =
     (if t = 0 then search (\<lambda>_. True) kms
      else if t > 0 then search (\<lambda>km. kmsg_type km = t) kms
      else case filter (\<lambda>x. x \<le> - t) (map kmsg_type kms) of
             [] \<Rightarrow> None
           | x # xs \<Rightarrow> search (\<lambda>km. kmsg_type km = fold min xs x) kms)"

definition kern_rcv :: "int \<Rightarrow> int \<Rightarrow> kern \<Rightarrow> os_recv \<times> kern" where
  "kern_rcv q t k =
     (case kern_pick t (k_queues k q) of
        None \<Rightarrow> (Recv_stays, k)
      | Some i \<Rightarrow> (Got (k_queues k q ! i),
                  k\<lparr>k_queues := (k_queues k)(q := take i (k_queues k q) @ drop (Suc i) (k_queues k q))\<rparr>))"

definition kern_os :: "kern os" where
  "kern_os =
     \<lparr>msgsnd = kern_snd, msgrcv = kern_rcv,
      nanosleep = (\<lambda>k. (True, k\<lparr>k_naps := k_naps k + 1\<rparr>)),
      save_file = (\<lambda>m k. if k_files k (k_next k) = None
        then (Some (k_next k), k\<lparr>k_files := (k_files k)(k_next k \<mapsto> m), k_next := k_next k + 1\<rparr>) else (None, k)),
      load_file = (\<lambda>f k. (k_files k f, k\<lparr>k_files := (k_files k)(f := None)\<rparr>)),
      remove_file = (\<lambda>f k. k\<lparr>k_files := (k_files k)(f := None)\<rparr>),
      stack_cat = k_junk\<rparr>"

interpretation kq: sysv_queues kern_os k_queues k_files
  by unfold_locales
    (auto simp: kern_os_def kern_snd_def kern_rcv_def kern_pick_def split: if_splits)

text \<open>What waits in a queue of the kernel, and the state in which each file belongs to one message.\<close>

definition kern_inbox :: "kern \<Rightarrow> int \<Rightarrow> msg list" where
  "kern_inbox k q = map (\<lambda>km. case km of Whole m \<Rightarrow> m
     | Named t c f \<Rightarrow> (the (k_files k f))\<lparr>m_mtype := t, m_ttype := In_file, m_cat := c\<rparr>) (k_queues k q)"

definition kern_ok :: "kern \<Rightarrow> bool" where
  "kern_ok k \<longleftrightarrow> (\<forall>q. distinct (kmsg_files (k_queues k q)) \<and> set (kmsg_files (k_queues k q)) \<subseteq> dom (k_files k)) \<and>
     (\<forall>q r. q \<noteq> r \<longrightarrow> set (kmsg_files (k_queues k q)) \<inter> set (kmsg_files (k_queues k r)) = {})"

lemma kern_views: "kq.inbox k = kern_inbox k" "kq.sound k = kern_ok k"
  by (simp_all add: kq.inbox_def kern_inbox_def kq.message_def kq.sound_def kern_ok_def fun_eq_iff)

interpretation kern_mq: message_queues kern_os kern_inbox kern_ok
  using kq.mq.message_queues_axioms unfolding kern_views .

text \<open>C22: the transport is a queue of messages: a successful \<open>qsend\<close> appends the message to the receiver's
  queue and leaves the others alone, whether it travels whole or through a file; an unsuccessful one
  leaves every queue and no file behind; \<open>qrecv\<close> of any type takes the oldest message. Up to the member
  that notes the transport, a message of at most 4000 bytes arrives as it was sent; of a larger one
  everything but its category does.
\<close>

theorem transport_fifo:
  assumes "kern_ok k" "qsend kern_os q m tmo fl k = (Inr (ok, m'), k')"
  shows "kern_ok k' \<and>
    (if ok then \<exists>m2. kern_inbox k' = (kern_inbox k)(q := kern_inbox k q @ [m2]) \<and>
        m2\<lparr>m_ttype := In_queue, m_cat := 0\<rparr> = m\<lparr>m_ttype := In_queue, m_cat := 0\<rparr> \<and>
        (msg_size m \<le> 4000 \<longrightarrow> m_cat m2 = m_cat m)
     else kern_inbox k' = kern_inbox k) \<and>
    (\<forall>q2 m2 ms. kern_inbox k' q2 = m2 # ms \<longrightarrow>
       (\<exists>k2. qrecv kern_os q2 0 k' = (Inr m2, k2) \<and> kern_ok k2 \<and> kern_inbox k2 = (kern_inbox k')(q2 := ms)))"
proof -
  note views = kern_views [symmetric]
  have "kern_ok k' \<and> (if ok then \<exists>c. kern_inbox k' = (kern_inbox k)(q := kern_inbox k q @ [kq.delivered c m])
      else kern_inbox k' = kern_inbox k)"
    using assms kq.qsend_true [of k q m tmo fl m' k'] kq.qsend_false [of k q m tmo fl m' k']
    unfolding views by (cases ok) auto
  moreover have "(kq.delivered c m)\<lparr>m_ttype := In_queue, m_cat := 0\<rparr> = m\<lparr>m_ttype := In_queue, m_cat := 0\<rparr>"
    "msg_size m \<le> 4000 \<longrightarrow> m_cat (kq.delivered c m) = m_cat m" for c
    by (simp_all add: kq.delivered_def)
  moreover have "\<exists>k2. qrecv kern_os q2 0 k' = (Inr m2, k2) \<and> kern_ok k2 \<and> kern_inbox k2 = (kern_inbox k')(q2 := ms)"
    if "kern_ok k'" "kern_inbox k' q2 = m2 # ms" for q2 m2 ms
    using kq.qrecv_first [of k' q2 m2 ms] that unfolding kern_views by blast
  ultimately show ?thesis by (cases ok; simp; blast)
qed

definition empty_kern :: kern where
  "empty_kern = \<lparr>k_queues = (\<lambda>_. []), k_files = (\<lambda>_. None), k_next = 0, k_cap = 1, k_naps = 0, k_junk = 2\<rparr>"

lemma empty_kern_ok: "kern_ok empty_kern"
  by (simp add: kern_ok_def empty_kern_def)

theorem transport_fifo_witness:
  "\<exists>m2. kern_inbox (snd (qsend kern_os 5 new_msg 0 noblock empty_kern)) =
      (kern_inbox empty_kern)(5 := kern_inbox empty_kern 5 @ [m2]) \<and> m_cat m2 = m_cat new_msg"
proof -
  have "qsend kern_os 5 new_msg 0 noblock empty_kern = (Inr (True, new_msg), snd (qsend kern_os 5 new_msg 0 noblock empty_kern))"
    by (simp add: qsend_def msg_size_def new_msg_def msgsnd_timed_def kern_os_def kern_snd_def kmsg_type_def empty_kern_def Let_def)
  from transport_fifo [OF empty_kern_ok this] show ?thesis by (auto simp: msg_size_def new_msg_def)
qed

text \<open>the category of a large message is whatever the sender's stack holds: an ordinary reply of more
  than 4000 bytes may arrive as the message that tells a client of a time-out.
\<close>

lemma attempts: "0 \<le> tmo \<Longrightarrow> tmo < 2 ^ 31 \<Longrightarrow> nat (as_int32 (tmo sdiv 100 + 2)) = Suc (Suc (nat (tmo div 100)))"
proof -
  assume t: "0 \<le> tmo" "tmo < 2 ^ 31"
  have "tmo sdiv 100 = tmo div 100" using t by (cases "tmo = 0") (simp_all add: signed_divide_int_def)
  moreover have "0 \<le> tmo div 100" "tmo div 100 < 2 ^ 30" using t by auto
  ultimately show ?thesis by (simp add: as_int32_def)
qed

lemma timed_at_once:
  assumes "\<And>nw. msgsnd os q km nw k = (Sent, k')" "fl = noflags \<longrightarrow> 0 \<le> tmo \<and> tmo < 2 ^ 31"
  shows "msgsnd_timed os q km fl tmo k = (Inr True, k')"
  using assms attempts [of tmo] by (cases fl) (simp_all add: msgsnd_timed_def)

theorem large_message_category:
  assumes "msg_size m > 4000" "1 \<le> m_mtype m" "k_queues k q = []" "0 < k_cap k" "k_files k (k_next k) = None"
    and "fl = noflags \<longrightarrow> 0 \<le> tmo \<and> tmo < 2 ^ 31"
  shows "\<exists>k1 k2 m2. qsend kern_os q m tmo fl k = (Inr (True, m), k1) \<and> qrecv kern_os q 0 k1 = (Inr m2, k2) \<and>
    m_cat m2 = k_junk k \<and> m_data m2 = m_data m"
proof -
  define k0 where "k0 = k\<lparr>k_files := (k_files k)(k_next k \<mapsto> m), k_next := k_next k + 1\<rparr>"
  have s: "save_file kern_os m k = (Some (k_next k), k0)" "stack_cat kern_os k0 = k_junk k"
    using assms(5) by (simp_all add: kern_os_def k0_def)
  let ?km = "Named (m_mtype m) (k_junk k) (k_next k)"
  define k1 where "k1 = k0\<lparr>k_queues := (k_queues k)(q := [?km])\<rparr>"
  have "msgsnd kern_os q ?km nw k0 = (Sent, k1)" for nw
    using assms by (simp add: kern_os_def kern_snd_def kmsg_type_def k0_def k1_def)
  then have "msgsnd_timed kern_os q ?km fl tmo k0 = (Inr True, k1)" using assms(6) by (rule timed_at_once)
  then have "qsend kern_os q m tmo fl k = (Inr (True, m), k1)"
    using assms(1) s by (simp add: qsend_def)
  moreover have "k_queues k1 q = [?km]" "k_files k1 (k_next k) = Some m" by (simp_all add: k1_def k0_def)
  then have "\<exists>k2. qrecv kern_os q 0 k1 = (Inr (m\<lparr>m_ttype := In_file, m_cat := k_junk k\<rparr>), k2)"
    by (simp add: qrecv_def kern_os_def kern_rcv_def kern_pick_def)
  then obtain k2 where "qrecv kern_os q 0 k1 = (Inr (m\<lparr>m_ttype := In_file, m_cat := k_junk k\<rparr>), k2)" by blast
  ultimately show ?thesis
    by (intro exI [of _ k1] exI [of _ k2] exI [of _ "m\<lparr>m_ttype := In_file, m_cat := k_junk k\<rparr>"]) simp
qed

definition large_reply :: msg where
  "large_reply = new_msg\<lparr>m_data := replicate 4000 65\<rparr>"

theorem large_message_category_witness:
  "\<exists>k1 k2 m2. qsend kern_os 5 large_reply 0 notime empty_kern = (Inr (True, large_reply), k1) \<and>
    qrecv kern_os 5 0 k1 = (Inr m2, k2) \<and> m_cat m2 = 2 \<and> m_data m2 = m_data large_reply"
  using large_message_category [of large_reply empty_kern 5 notime 0]
  by (simp add: msg_size_def large_reply_def new_msg_def empty_kern_def)

lemma full_rounds:
  assumes "1 \<le> kmsg_type km" "k_cap k \<le> length (k_queues k q)"
  shows "send_rounds kern_os q km j False k = (Inr False, k\<lparr>k_naps := k_naps k + j\<rparr>)"
  using assms(2)
proof (induction j arbitrary: k)
  case (Suc j)
  have "nanosleep kern_os k = (True, k\<lparr>k_naps := k_naps k + 1\<rparr>)" "msgsnd kern_os q km True k = (Again, k)"
    using assms(1) Suc.prems by (simp_all add: kern_os_def kern_snd_def)
  then show ?case using Suc.IH [of "k\<lparr>k_naps := k_naps k + 1\<rparr>"] Suc.prems by simp
qed simp

lemma full_timed:
  assumes "1 \<le> kmsg_type km" "k_cap k \<le> length (k_queues k q)" "fl \<noteq> notime" "fl = noflags \<longrightarrow> 0 \<le> tmo \<and> tmo < 2 ^ 31"
  shows "msgsnd_timed kern_os q km fl tmo k =
    (Inr False, if fl = noflags then k\<lparr>k_naps := k_naps k + nat (tmo div 100) + 1\<rparr> else k)"
proof -
  have "msgsnd kern_os q km True k = (Again, k)" using assms by (simp add: kern_os_def kern_snd_def)
  then show ?thesis
    using assms attempts [of tmo] full_rounds [OF assms(1,2), of "Suc (nat (tmo div 100))"]
    by (cases fl) (simp_all add: msgsnd_timed_def)
qed

lemma full_queue_run:
  assumes "msg_size m \<le> 4000" "1 \<le> m_mtype m" "k_cap k \<le> length (k_queues k q)" "0 \<le> tmo" "tmo < 2 ^ 31"
  shows "qsend kern_os q m tmo noflags k = (Inr (False, m\<lparr>m_ttype := In_queue\<rparr>), k\<lparr>k_naps := k_naps k + nat (tmo div 100) + 1\<rparr>)"
  using assms full_timed [of "Whole (m\<lparr>m_ttype := In_queue\<rparr>)" k q noflags tmo]
  by (simp add: qsend_def Let_def kmsg_type_def)

text \<open>The kernel sends exactly when there is room, unless the caller is ready to wait for ever.\<close>

lemma kern_send:
  assumes "1 \<le> m_mtype m" "k_files k (k_next k) = None" "fl = noflags \<longrightarrow> 0 \<le> tmo \<and> tmo < 2 ^ 31"
    and "fl = notime \<longrightarrow> length (k_queues k q) < k_cap k"
  shows "\<exists>m' k'. qsend kern_os q m tmo fl k = (Inr (length (k_queues k q) < k_cap k, m'), k')"
proof -
  have timed: "\<exists>k''. msgsnd_timed kern_os q km fl tmo k' = (Inr (length (k_queues k q) < k_cap k), k'')"
    if "1 \<le> kmsg_type km" "k_queues k' = k_queues k" "k_cap k' = k_cap k" for km k'
  proof (cases "length (k_queues k q) < k_cap k")
    case True
    then have "msgsnd kern_os q km nw k' = (Sent, k'\<lparr>k_queues := (k_queues k')(q := k_queues k' q @ [km])\<rparr>)" for nw
      using that by (simp add: kern_os_def kern_snd_def)
    from timed_at_once [OF this assms(3)] show ?thesis using True by simp
  next
    case False
    then show ?thesis using full_timed [of km k' q fl tmo] that assms(3,4) by auto
  qed
  show ?thesis
  proof (cases "msg_size m > MAX_QUEUE_MSG_SIZE")
    case True
    let ?k = "k\<lparr>k_files := (k_files k)(k_next k \<mapsto> m), k_next := k_next k + 1\<rparr>"
    have "save_file kern_os m k = (Some (k_next k), ?k)" using assms(2) by (simp add: kern_os_def)
    then show ?thesis
      using True assms(1) timed [of "Named (m_mtype m) (stack_cat kern_os ?k) (k_next k)" ?k]
      by (auto simp: qsend_def kmsg_type_def)
  next
    case False
    then show ?thesis
      using assms(1) timed [of "Whole (m\<lparr>m_ttype := In_queue\<rparr>)" k] by (auto simp: qsend_def Let_def kmsg_type_def)
  qed
qed

text \<open>C36: with neither flag, \<open>qsend\<close> to a queue that stays full ends: it tries once for each started tenth of a
  second of the time-out and twice more, sleeps after each attempt but the first, and reports failure.
\<close>

theorem full_queue_gives_up:
  assumes "msg_size m \<le> 4000" "1 \<le> m_mtype m" "k_cap k \<le> length (k_queues k q)" "0 \<le> tmo" "tmo < 2 ^ 31"
  shows "\<exists>k'. qsend kern_os q m tmo noflags k = (Inr (False, m\<lparr>m_ttype := In_queue\<rparr>), k') \<and>
    k_queues k' = k_queues k \<and> k_naps k' = k_naps k + nat (tmo div 100) + 1"
  using full_queue_run [OF assms] by simp

theorem full_queue_gives_up_witness:
  "\<exists>k'. qsend kern_os 5 new_msg 1500 noflags (empty_kern\<lparr>k_cap := 0\<rparr>) = (Inr (False, new_msg\<lparr>m_ttype := In_queue\<rparr>), k') \<and>
    k_naps k' = 16"
  using full_queue_gives_up [of new_msg "empty_kern\<lparr>k_cap := 0\<rparr>" 5 1500]
  by (auto simp: msg_size_def new_msg_def empty_kern_def)

end
