(* ===== verification/Resp.thy ===== *)
theory Resp
  imports Ipc "HOL-Library.RBT"
begin

text \<open>
  src/resp.h: the call descriptors of a client and the replies that arrived before they were asked
  for; a reply that was moved out of its entry is \<open>None\<close>. \<open>std::map\<close> is the red-black tree of the library, iterated in the order of its keys.
\<close>

datatype resp_status = resp_none | resp_buffered

record response =
  rs_status :: resp_status
  rs_res :: "msg option"

record responses =
  calls :: "(int, response) RBT.rbt"
  rs_seq :: int

definition no_responses :: responses where
  "no_responses = \<lparr>calls = RBT.empty, rs_seq = 0\<rparr>"

text \<open>\<open>std::numeric_limits<int>::max()\<close>\<close>

abbreviation (input) INT_MAX :: int where "INT_MAX \<equiv> 2147483647"

definition nextseq :: "responses \<Rightarrow> int \<times> responses" where
  "nextseq c = (let s = rs_seq c + 1; s = (if s = INT_MAX then 1 else s) in (s, c\<lparr>rs_seq := s\<rparr>))"

text \<open>\<open>calls_[cd] = ...\<close>; what \<open>calls_[cd]\<close> reads when there is no such entry\<close>

definition put_call :: "int \<Rightarrow> response \<Rightarrow> responses \<Rightarrow> responses" where
  "put_call cd r c = c\<lparr>calls := RBT.insert cd r (calls c)\<rparr>"

definition no_response :: response where
  "no_response = \<lparr>rs_status = resp_none, rs_res = Some new_msg\<rparr>"

definition call_at :: "int \<Rightarrow> responses \<Rightarrow> response" where
  "call_at cd c = (case RBT.lookup (calls c) cd of Some r \<Rightarrow> r | None \<Rightarrow> no_response)"

text \<open>-1 with \<open>TPELIMIT\<close> when there are more than 1024 calls already\<close>

definition allocate :: "responses \<Rightarrow> int \<times> responses" where
  "allocate c =
     (if length (RBT.entries (calls c)) > 1024 then (-1, c)
      else case nextseq c of (cd, c) \<Rightarrow> (cd, put_call cd no_response c))"

text \<open>-1 with \<open>TPEBADDESC\<close> when there is no such call\<close>

definition check :: "int \<Rightarrow> responses \<Rightarrow> int" where
  "check cd c = (if RBT.lookup (calls c) cd = None then -1 else 0)"

definition any_buffered :: "responses \<Rightarrow> int" where
  "any_buffered c =
     (case find (\<lambda>(cd, r). rs_status r = resp_buffered) (RBT.entries (calls c)) of
        Some (cd, r) \<Rightarrow> cd
      | None \<Rightarrow> -1)"

definition buffer_reply :: "msg \<Rightarrow> responses \<Rightarrow> responses" where
  "buffer_reply res c = put_call (m_cd res) \<lparr>rs_status = resp_buffered, rs_res = Some res\<rparr> c"

definition is_buffered :: "int \<Rightarrow> responses \<Rightarrow> bool" where
  "is_buffered cd c \<longleftrightarrow> rs_status (call_at cd c) = resp_buffered"

text \<open>\<open>std::move(buffered(cd))\<close>: the reply, which its entry loses; no reply when it was moved before.\<close>

definition buffered :: "int \<Rightarrow> responses \<Rightarrow> msg option \<times> responses" where
  "buffered cd c = (rs_res (call_at cd c), put_call cd ((call_at cd c)\<lparr>rs_res := None\<rparr>) c)"

definition release :: "int \<Rightarrow> responses \<Rightarrow> int \<times> responses" where
  "release cd c =
     (if RBT.lookup (calls c) cd = None then (-1, c) else (0, c\<lparr>calls := RBT.delete cd (calls c)\<rparr>))"

end
