(* ===== verification/Client.thy ===== *)
theory Client
  imports Resp Tx
begin

text \<open>
  src/client.cpp: requests, replies and time-outs of a client (or of a server thread that calls
  services). The state of a process is its client object, if it has one, with the transaction
  context, the typed buffers and the operating system; \<open>env\<close> holds what is not part of the
  repository: the system calls, \<open>malloc\<close>, the resource manager's switch.
\<close>

subsection \<open>State\<close>

record client =
  cl_id :: nat
  cl_repo :: repo
  cl_rq :: msg
  cl_rpid :: int
  blocktime_next :: int
  blocktime_all :: int
  cds :: responses

record ('r, 'n, 'k) proc =
  p_client :: "client option"
  p_tx :: "('r, 'n) tx_world"
  p_mem :: atmi
  p_os :: 'k
  p_urcode :: int
  p_server :: bool
  p_pid :: int
  p_now :: int

record ('r, 'k) env =
  e_os :: "'k os"
  e_al :: allocator
  e_sw :: "'r xa_switch"
  e_qcreate :: "'k \<Rightarrow> int option \<times> 'k"
  e_qdelete :: "int \<Rightarrow> 'k \<Rightarrow> 'k"

type_synonym ('r, 'n, 'k, 'a) proc_call = "('a, ('r, 'n, 'k) proc) call"
type_synonym ('r, 'n, 'k) cl_state = "client \<times> ('r, 'n, 'k) proc"

definition set_err :: "int \<Rightarrow> ('r, 'n, 'k) proc \<Rightarrow> ('r, 'n, 'k) proc" where
  "set_err e w = w\<lparr>p_mem := put_err e (p_mem w)\<rparr>"

definition cl_err :: "int \<Rightarrow> ('r, 'n, 'k) cl_state \<Rightarrow> ('r, 'n, 'k) cl_state" where
  "cl_err e s = (fst s, set_err e (snd s))"

definition on_mem :: "(atmi \<Rightarrow> 'a mem_call) \<Rightarrow> ('r, 'n, 'k) cl_state \<Rightarrow> ('a, ('r, 'n, 'k) cl_state) call" where
  "on_mem f s = (case f (p_mem (snd s)) of (r, m) \<Rightarrow> (r, (fst s, (snd s)\<lparr>p_mem := m\<rparr>)))"

definition on_os :: "('k \<Rightarrow> ('a, 'k) call) \<Rightarrow> ('r, 'n, 'k) cl_state \<Rightarrow> ('a, ('r, 'n, 'k) cl_state) call" where
  "on_os f s = (case f (p_os (snd s)) of (r, k) \<Rightarrow> (r, (fst s, (snd s)\<lparr>p_os := k\<rparr>)))"

definition lift_except :: "'a except \<Rightarrow> 's \<Rightarrow> ('a, 's) call" where
  "lift_except r s = (map_sum Throw id r, s)"

subsection \<open>Block time\<close>

abbreviation (input) TPBLK_NEXT :: int where "TPBLK_NEXT \<equiv> 0x01"
abbreviation (input) TPBLK_ALL :: int where "TPBLK_ALL \<equiv> 0x02"
abbreviation (input) TPBLK_SECOND :: int where "TPBLK_SECOND \<equiv> 0x00"
abbreviation (input) TPBLK_MILLISECOND :: int where "TPBLK_MILLISECOND \<equiv> 0x10"

text \<open>The product of two \<open>int\<close>s has no meaning outside the range of \<open>int\<close>.\<close>

definition cl_tpsblktime :: "int \<Rightarrow> int \<Rightarrow> ('r, 'n, 'k) cl_state \<Rightarrow> (int, ('r, 'n, 'k) cl_state) call" where
  "cl_tpsblktime blktime flags s =
     (let units = flags AND 0xf0; what = flags - units in
      if units = TPBLK_SECOND \<and> as_int32 (blktime * 1000) \<noteq> blktime * 1000 then (Inl Undefined, s)
      else if \<not> (units = TPBLK_SECOND \<or> units = TPBLK_MILLISECOND) then (Inr (-1), cl_err TPEINVAL s)
      else
        let tmo = (if units = TPBLK_SECOND then blktime * 1000 else blktime) in
        if what = TPBLK_NEXT then (Inr 0, cl_err 0 ((fst s)\<lparr>blocktime_next := tmo\<rparr>, snd s))
        else if what = TPBLK_ALL then (Inr 0, cl_err 0 ((fst s)\<lparr>blocktime_all := tmo\<rparr>, snd s))
        else (Inr (-1), cl_err TPEINVAL s))"

definition cl_tpgblktime :: "int \<Rightarrow> ('r, 'n, 'k) cl_state \<Rightarrow> (int, ('r, 'n, 'k) cl_state) call" where
  "cl_tpgblktime flags s =
     (let units = flags AND 0xf0; what = flags - units in
      if \<not> (what = 0 \<or> what = TPBLK_NEXT \<or> what = TPBLK_ALL) then (Inr (-1), cl_err TPEINVAL s)
      else
        let tmo = (if what = 0 then 0 else if what = TPBLK_NEXT then blocktime_next (fst s) else blocktime_all (fst s)) in
        if units = TPBLK_SECOND then (Inr (as_int32 (tmo sdiv 1000)), cl_err 0 s)
        else if units = TPBLK_MILLISECOND then (Inr (as_int32 tmo), cl_err 0 s)
        else (Inr (-1), cl_err TPEINVAL s))"

definition next_blocktime :: "('r, 'n, 'k) cl_state \<Rightarrow> int \<times> ('r, 'n, 'k) cl_state" where
  "next_blocktime s =
     (if blocktime_next (fst s) \<noteq> 0 then (blocktime_next (fst s), ((fst s)\<lparr>blocktime_next := 0\<rparr>, snd s))
      else if blocktime_all (fst s) \<noteq> 0 then (blocktime_all (fst s), s)
      else (mach_blocktime (mach (tx_mib (p_tx (snd s)))), s))"

definition to_flags :: "int \<Rightarrow> send_flags" where
  "to_flags flags = (if has_flag flags TPNOTIME then notime else if has_flag flags TPNOBLOCK then noblock else noflags)"

subsection \<open>Requests\<close>

text \<open>The reply address: none, or a new descriptor. -1 when there is none left.\<close>

definition address_request :: "int \<Rightarrow> ('r, 'n, 'k) cl_state \<Rightarrow> int \<times> ('r, 'n, 'k) cl_state" where
  "address_request flags s =
     (let c = fst s in
      if has_flag flags TPNOREPLY then (0, (c\<lparr>cl_rq := (cl_rq c)\<lparr>m_replyq := -1, m_cd := 0\<rparr>\<rparr>, snd s))
      else case allocate (cds c) of
        (cd, ds) \<Rightarrow>
          let s = (c\<lparr>cds := ds, cl_rq := (cl_rq c)\<lparr>m_replyq := cl_rpid c, m_cd := cd\<rparr>\<rparr>, snd s)
          in (cd, if cd = -1 then cl_err TPELIMIT s else s))"

definition attach_transaction :: "int \<Rightarrow> ('r, 'n, 'k) cl_state \<Rightarrow> ('r, 'n, 'k) cl_state" where
  "attach_transaction flags s =
     (let c = fst s; t = p_tx (snd s) in
      (c\<lparr>cl_rq := (if \<not> has_flag flags TPNOTRAN \<and> transactional t
         then (cl_rq c)\<lparr>m_flags := m_flags (cl_rq c) OR TPTRAN, m_gttid := tx_gttid t\<rparr>
         else (cl_rq c)\<lparr>m_flags := 0, m_gttid := bad_gttid\<rparr>)\<rparr>, snd s))"

definition send_request :: "('r, 'k) env \<Rightarrow> int \<Rightarrow> int \<Rightarrow> ('r, 'n, 'k) cl_state \<Rightarrow> (int, ('r, 'n, 'k) cl_state) call" where
  "send_request env qid flags s =
     (case next_blocktime s of
        (tmo, s) \<Rightarrow>
          seqx (on_os (qsend (e_os env) qid (cl_rq (fst s)) tmo (to_flags flags)) s) (\<lambda>(ok, m) s.
            let s = ((fst s)\<lparr>cl_rq := m\<rparr>, snd s) in
            if ok then (Inr (m_cd m), cl_err 0 s)
            else
              let s = cl_err (if has_flag flags TPNOBLOCK then TPEBLOCK else TPETIME) s in
              if m_cd m \<noteq> 0 then
                (case release (m_cd m) (cds (fst s)) of
                   (rc, ds) \<Rightarrow> (Inr (-1), let s = ((fst s)\<lparr>cds := ds\<rparr>, snd s) in if rc = -1 then cl_err TPEBADDESC s else s))
              else (Inr (-1), s)))"

definition cl_tpacall_queue ::
    "('r, 'k) env \<Rightarrow> int \<Rightarrow> byte list \<Rightarrow> nat option \<Rightarrow> int \<Rightarrow> int \<Rightarrow> ('r, 'n, 'k) cl_state \<Rightarrow>
     (int, ('r, 'n, 'k) cl_state) call" where
  "cl_tpacall_queue env qid svc data len flags s =
     seqx (if data = None then (Inr True, s)
           else seqx (on_mem (tptypes data) s) (\<lambda>r s. (Inr (r \<noteq> None), s))) (\<lambda>known s.
       if \<not> known then (Inr (-1), s)
       else seqx (on_mem (set_data data len (cl_rq (fst s))) s) (\<lambda>m s.
         seqx (lift_except (checked_copy_cstr svc (m_service m)) ((fst s)\<lparr>cl_rq := m\<rparr>, snd s)) (\<lambda>name s.
           case address_request flags ((fst s)\<lparr>cl_rq := (cl_rq (fst s))\<lparr>m_service := name\<rparr>\<rparr>, snd s) of
             (cd, s) \<Rightarrow>
               if cd = -1 then (Inr (-1), s)
               else send_request env qid flags (attach_transaction flags s))))"

text \<open>\<open>std::out_of_range\<close>, wherever it comes from, means that the service does not exist.\<close>

definition cl_tpacall_group ::
    "('r, 'k) env \<Rightarrow> int \<Rightarrow> byte list \<Rightarrow> nat option \<Rightarrow> int \<Rightarrow> int \<Rightarrow> ('r, 'n, 'k) cl_state \<Rightarrow>
     (int, ('r, 'n, 'k) cl_state) call" where
  "cl_tpacall_group env grpno svc data len flags s =
     (case (case get_queue grpno svc (tx_mib (p_tx (snd s))) (cl_repo (fst s)) of
              (q, r) \<Rightarrow> seqx (lift_except q ((fst s)\<lparr>cl_repo := r\<rparr>, snd s))
                          (\<lambda>qid. cl_tpacall_queue env qid svc data len flags)) of
        (Inl (Throw Out_of_range), s) \<Rightarrow> (Inr (-1), cl_err TPENOENT s)
      | res \<Rightarrow> res)"

subsection \<open>Replies\<close>

text \<open>The deadline in the shared table, which the BBL compares with the clock.\<close>

definition set_deadline :: "int \<Rightarrow> ('r, 'n, 'k) cl_state \<Rightarrow> (unit, ('r, 'n, 'k) cl_state) call" where
  "set_deadline t s =
     (let w = snd s; m = tx_mib (p_tx w); i = cl_id (fst s) in
      case arr_at (accessers m) i of
        Inl e \<Rightarrow> (Inl (Throw e), s)
      | Inr a \<Rightarrow> (Inr (), (fst s, w\<lparr>p_tx := (p_tx w)\<lparr>tx_mib := set_accesser i (a\<lparr>acc_timeout := t\<rparr>) m\<rparr>\<rparr>)))"

definition wait_reply :: "('r, 'k) env \<Rightarrow> ('r, 'n, 'k) cl_state \<Rightarrow> (msg, ('r, 'n, 'k) cl_state) call" where
  "wait_reply env s =
     (case next_blocktime s of
        (tmo, s) \<Rightarrow>
          seqx (set_deadline (p_now (snd s) + tmo) s) (\<lambda>_ s.
            seqx (on_os (qrecv (e_os env) (cl_rpid (fst s)) 0) s) (\<lambda>res s.
              seqx (set_deadline INVALID_TIME s) (\<lambda>_ s. (Inr res, s)))))"

text \<open>
  The descriptor of a reply that is there already, if any: \<open>None\<close> when \<open>cd\<close> is not one. Reading a
  reply that was moved out of its entry has no meaning.
\<close>

definition ready_reply :: "int \<Rightarrow> int \<Rightarrow> client \<Rightarrow> int option option" where
  "ready_reply cd flags c =
     (if has_flag flags TPGETANY then
        let i = any_buffered (cds c) in Some (if i \<noteq> -1 then Some i else None)
      else if check cd (cds c) = -1 then None
      else Some (if is_buffered cd (cds c) then Some cd else None))"

definition early_reply :: "int \<Rightarrow> ('r, 'n, 'k) cl_state \<Rightarrow> (msg, ('r, 'n, 'k) cl_state) call" where
  "early_reply i s =
     (case buffered i (cds (fst s)) of
        (None, ds) \<Rightarrow> (Inl Undefined, s)
      | (Some res, ds) \<Rightarrow> (Inr res, ((fst s)\<lparr>cds := ds\<rparr>, snd s)))"

text \<open>What the caller gets of a reply: the result, \<open>*cd\<close> and \<open>*len\<close>.\<close>

definition accept_reply ::
    "('r, 'k) env \<Rightarrow> nat \<Rightarrow> int \<Rightarrow> msg \<Rightarrow> ('r, 'n, 'k) cl_state \<Rightarrow> (int \<times> int \<times> int option, ('r, 'n, 'k) cl_state) call" where
  "accept_reply env cell cd res s =
     seqx (on_mem (get_data (e_al env) (Some cell) res) s) (\<lambda>_ s.
       let ds = snd (release (m_cd res) (cds (fst s)));
           s = ((fst s)\<lparr>cds := ds\<rparr>, (snd s)\<lparr>p_urcode := m_rcode res\<rparr>);
           len = Some (int (length (m_data res)))
       in if m_rval res = TPMINVAL then (Inr (0, m_cd res, len), cl_err 0 s)
          else (Inr (-1, m_cd res, len), cl_err (m_rval res) s))"

partial_function (option) reply_loop ::
    "('r, 'k) env \<Rightarrow> nat \<Rightarrow> int \<Rightarrow> int \<Rightarrow> ('r, 'n, 'k) cl_state \<Rightarrow>
     (int \<times> int \<times> int option, ('r, 'n, 'k) cl_state) call option" where
  "reply_loop env cell cd flags s =
     (case ready_reply cd flags (fst s) of
        None \<Rightarrow> Some (Inr (-1, cd, None), cl_err TPEBADDESC s)
      | Some early \<Rightarrow>
          (case (case early of Some i \<Rightarrow> early_reply i s | None \<Rightarrow> wait_reply env s) of
             (Inl e, s) \<Rightarrow> Some (Inl e, s)
           | (Inr res, s) \<Rightarrow>
               if m_cat res = unblock then
                 Some (Inr (-1, if has_flag flags TPGETANY then 0 else cd, None), cl_err TPETIME s)
               else if \<not> has_flag flags TPGETANY \<and> cd \<noteq> m_cd res then
                 reply_loop env cell cd flags ((fst s)\<lparr>cds := buffer_reply res (cds (fst s))\<rparr>, snd s)
               else Some (accept_reply env cell cd res s)))"

declare reply_loop.simps [code]

text \<open>
  \<open>tpgetrply\<close> into the buffer variable \<open>data\<close>: without one it goes on to read through the null pointer.
\<close>

definition cl_tpgetrply ::
    "('r, 'k) env \<Rightarrow> int \<Rightarrow> nat option \<Rightarrow> int \<Rightarrow> ('r, 'n, 'k) cl_state \<Rightarrow>
     (int \<times> int \<times> int option, ('r, 'n, 'k) cl_state) call" where
  "cl_tpgetrply env cd data flags s =
     (case data of
        None \<Rightarrow> (Inl Undefined, cl_err TPEINVAL s)
      | Some cell \<Rightarrow>
          seqx (on_mem (tptypes (cells (p_mem (snd s)) cell)) s) (\<lambda>r s.
            if r = None then (Inr (-1, cd, None), s)
            else case reply_loop env cell cd flags s of
              None \<Rightarrow> (Inl No_return, s)
            | Some res \<Rightarrow> res))"

definition cl_tpcancel :: "int \<Rightarrow> ('r, 'n, 'k) cl_state \<Rightarrow> (int, ('r, 'n, 'k) cl_state) call" where
  "cl_tpcancel cd s =
     (case release cd (cds (fst s)) of
        (rc, ds) \<Rightarrow> if rc = -1 then (Inr (-1), cl_err TPEBADDESC s)
                    else (Inr 0, cl_err 0 ((fst s)\<lparr>cds := ds\<rparr>, snd s)))"

subsection \<open>The client object\<close>

definition client_new :: "('r, 'k) env \<Rightarrow> ('r, 'n, 'k) proc \<Rightarrow> ('r, 'n, 'k, client) proc_call" where
  "client_new env w =
     (case make_accesser (p_pid w) (tx_mib (p_tx w)) of
        (r, m) \<Rightarrow> seqx (lift_except r (w\<lparr>p_tx := (p_tx w)\<lparr>tx_mib := m\<rparr>\<rparr>)) (\<lambda>i w.
          case e_qcreate env (p_os w) of
            (None, k) \<Rightarrow> (Inl (Throw System_error), w\<lparr>p_os := k\<rparr>)
          | (Some q, k) \<Rightarrow>
              let w = w\<lparr>p_os := k\<rparr>; m = tx_mib (p_tx w) in
              case arr_at (accessers m) i of
                Inl e \<Rightarrow> (Inl (Throw e), w)
              | Inr a \<Rightarrow>
                  (Inr \<lparr>cl_id = i, cl_repo = [], cl_rq = new_msg, cl_rpid = q, blocktime_next = 0, blocktime_all = 0,
                        cds = no_responses\<rparr>,
                   w\<lparr>p_tx := (p_tx w)\<lparr>tx_mib := set_accesser i (a\<lparr>acc_rpid := q\<rparr>) m\<rparr>\<rparr>)))"

text \<open>The destructor; an exception in it ends the process.\<close>

definition client_delete :: "('r, 'k) env \<Rightarrow> client \<Rightarrow> ('r, 'n, 'k) proc \<Rightarrow> ('r, 'n, 'k, unit) proc_call" where
  "client_delete env c w =
     (let m = tx_mib (p_tx w) in
      case arr_at (accessers m) (cl_id c) of
        Inl e \<Rightarrow> (Inl Undefined, w)
      | Inr a \<Rightarrow>
          (Inr (), w\<lparr>p_os := e_qdelete env (acc_rpid a) (p_os w),
                     p_tx := (p_tx w)\<lparr>tx_mib := set_accesser (cl_id c) (invalidate a) m\<rparr>\<rparr>))"

definition getclient :: "('r, 'k) env \<Rightarrow> ('r, 'n, 'k) proc \<Rightarrow> ('r, 'n, 'k, client) proc_call" where
  "getclient env w =
     (case p_client w of
        Some c \<Rightarrow> (Inr c, w)
      | None \<Rightarrow> seqx (client_new env w) (\<lambda>c w. (Inr c, w\<lparr>p_client := Some c\<rparr>)))"

definition with_client ::
    "('r, 'k) env \<Rightarrow> (('r, 'n, 'k) cl_state \<Rightarrow> ('a, ('r, 'n, 'k) cl_state) call) \<Rightarrow> ('r, 'n, 'k) proc \<Rightarrow>
     ('r, 'n, 'k, 'a) proc_call" where
  "with_client env f w =
     seqx (getclient env w) (\<lambda>c w. case f (c, w) of (r, (c, w)) \<Rightarrow> (r, w\<lparr>p_client := Some c\<rparr>))"

subsection \<open>The public functions\<close>

definition proc_boundary ::
    "(('r, 'n, 'k) proc \<Rightarrow> ('r, 'n, 'k, 'a) proc_call) \<Rightarrow> 'a \<Rightarrow> ('r, 'n, 'k) proc \<Rightarrow> ('r, 'n, 'k, 'a) proc_call" where
  "proc_boundary = exception_boundary set_err"

definition make_current :: "('r, 'k) env \<Rightarrow> ('r, 'n, 'k) proc \<Rightarrow> ('r, 'n, 'k, int) proc_call" where
  "make_current env w =
     seqx (proc_boundary (\<lambda>w. seqx (getclient env w) (\<lambda>_ w. (Inr (), w))) () w) (\<lambda>_ w. (Inr 0, w))"

definition reset_current :: "('r, 'k) env \<Rightarrow> ('r, 'n, 'k) proc \<Rightarrow> ('r, 'n, 'k, int) proc_call" where
  "reset_current env w =
     seqx (proc_boundary (\<lambda>w. case p_client w of
         None \<Rightarrow> (Inr (), w)
       | Some c \<Rightarrow> seqx (client_delete env c w) (\<lambda>_ w. (Inr (), w\<lparr>p_client := None\<rparr>))) () w) (\<lambda>_ w. (Inr 0, w))"

definition tpinit :: "('r, 'k) env \<Rightarrow> ('r, 'n, 'k) proc \<Rightarrow> ('r, 'n, 'k, int) proc_call" where
  "tpinit env w = (if p_server w then (Inr (-1), set_err TPEPROTO w) else make_current env w)"

definition tpterm :: "('r, 'k) env \<Rightarrow> ('r, 'n, 'k) proc \<Rightarrow> ('r, 'n, 'k, int) proc_call" where
  "tpterm env w = (if p_server w then (Inr (-1), set_err TPEPROTO w) else reset_current env w)"

definition tpappthrinit :: "('r, 'k) env \<Rightarrow> ('r, 'n, 'k) proc \<Rightarrow> ('r, 'n, 'k, int) proc_call" where
  "tpappthrinit env w = (if \<not> p_server w then (Inr (-1), set_err TPEPROTO w) else make_current env w)"

definition tpappthrterm :: "('r, 'k) env \<Rightarrow> ('r, 'n, 'k) proc \<Rightarrow> ('r, 'n, 'k, int) proc_call" where
  "tpappthrterm env w = (if \<not> p_server w then (Inr (-1), set_err TPEPROTO w) else reset_current env w)"

definition tpcancel :: "('r, 'k) env \<Rightarrow> int \<Rightarrow> ('r, 'n, 'k) proc \<Rightarrow> ('r, 'n, 'k, int) proc_call" where
  "tpcancel env cd = proc_boundary (with_client env (cl_tpcancel cd)) (-1)"

definition tpacall_group ::
    "('r, 'k) env \<Rightarrow> int \<Rightarrow> byte list \<Rightarrow> nat option \<Rightarrow> int \<Rightarrow> int \<Rightarrow> ('r, 'n, 'k) proc \<Rightarrow> ('r, 'n, 'k, int) proc_call" where
  "tpacall_group env grpno svc data len flags =
     proc_boundary (with_client env (cl_tpacall_group env grpno svc data len flags)) (-1)"

definition tpacall_queue ::
    "('r, 'k) env \<Rightarrow> int \<Rightarrow> byte list \<Rightarrow> nat option \<Rightarrow> int \<Rightarrow> int \<Rightarrow> ('r, 'n, 'k) proc \<Rightarrow> ('r, 'n, 'k, int) proc_call" where
  "tpacall_queue env qid svc data len flags =
     proc_boundary (with_client env (cl_tpacall_queue env qid svc data len flags)) (-1)"

definition tpacall ::
    "('r, 'k) env \<Rightarrow> byte list \<Rightarrow> nat option \<Rightarrow> int \<Rightarrow> int \<Rightarrow> ('r, 'n, 'k) proc \<Rightarrow> ('r, 'n, 'k, int) proc_call" where
  "tpacall env svc data len flags =
     proc_boundary (with_client env (cl_tpacall_group env (-1) svc data len flags)) (-1)"

text \<open>
  \<open>suspend_guard\<close>: the transaction of the thread is suspended around a call that may wait, and resumed
  when the call is left, also by an exception. The results of both are ignored.
\<close>

definition guarded ::
    "('r, 'k) env \<Rightarrow> bool \<Rightarrow> (('r, 'n, 'k) proc \<Rightarrow> ('r, 'n, 'k, 'a) proc_call) \<Rightarrow> ('r, 'n, 'k) proc \<Rightarrow>
     ('r, 'n, 'k, 'a) proc_call" where
  "guarded env on f w =
     (if on \<and> transactional (p_tx w) then
        (case f (w\<lparr>p_tx := snd (tx_suspend (e_sw env) False (p_tx w))\<rparr>) of
           (Inl Undefined, w) \<Rightarrow> (Inl Undefined, w)
         | (Inl No_return, w) \<Rightarrow> (Inl No_return, w)
         | (r, w) \<Rightarrow> (r, w\<lparr>p_tx := snd (tx_resume (e_sw env) None (p_tx w))\<rparr>))
      else f w)"

definition tpgetrply ::
    "('r, 'k) env \<Rightarrow> int \<Rightarrow> nat option \<Rightarrow> int \<Rightarrow> ('r, 'n, 'k) proc \<Rightarrow> ('r, 'n, 'k, int \<times> int \<times> int option) proc_call" where
  "tpgetrply env cd data flags =
     proc_boundary (guarded env True (with_client env (cl_tpgetrply env cd data flags))) (-1, cd, None)"

definition tpcall ::
    "('r, 'k) env \<Rightarrow> byte list \<Rightarrow> nat option \<Rightarrow> int \<Rightarrow> nat option \<Rightarrow> int \<Rightarrow> ('r, 'n, 'k) proc \<Rightarrow>
     ('r, 'n, 'k, int \<times> int option) proc_call" where
  "tpcall env svc idata ilen odata flags =
     proc_boundary (guarded env (\<not> has_flag flags TPNOTRAN) (\<lambda>w.
       seqx (with_client env (cl_tpacall_group env (-1) svc idata ilen flags) w) (\<lambda>cd w.
         if cd = -1 then (Inr (-1, None), w)
         else seqx (tpgetrply env cd odata flags w) (\<lambda>(rc, _, len) w. (Inr (rc, len), w))))) (-1, None)"

definition tpsblktime :: "('r, 'k) env \<Rightarrow> int \<Rightarrow> int \<Rightarrow> ('r, 'n, 'k) proc \<Rightarrow> ('r, 'n, 'k, int) proc_call" where
  "tpsblktime env blktime flags = proc_boundary (with_client env (cl_tpsblktime blktime flags)) (-1)"

definition tpgblktime :: "('r, 'k) env \<Rightarrow> int \<Rightarrow> ('r, 'n, 'k) proc \<Rightarrow> ('r, 'n, 'k, int) proc_call" where
  "tpgblktime env flags = proc_boundary (with_client env (cl_tpgblktime flags)) (-1)"

definition client_get_queue :: "('r, 'k) env \<Rightarrow> byte list \<Rightarrow> ('r, 'n, 'k) proc \<Rightarrow> ('r, 'n, 'k, int) proc_call" where
  "client_get_queue env svc =
     with_client env (\<lambda>s. case get_queue (-1) svc (tx_mib (p_tx (snd s))) (cl_repo (fst s)) of
       (q, r) \<Rightarrow> lift_except q ((fst s)\<lparr>cl_repo := r\<rparr>, snd s))"

end
