(* ===== verification/Server.thy ===== *)
theory Server
  imports Client Fml_Api
begin

text \<open>
  src/server.cpp: a server advertises services, takes requests from its queue, calls the function
  of the service and sends the reply. The functions of the services are not part of the repository:
  \<open>se_service\<close> gives how one ends (\<open>tpreturn\<close>, \<open>tpforward\<close> or a plain return) and the process it leaves.
  The state is that of one dispatching thread; the other threads, and the mutex that makes them take
  turns, are left out.
\<close>

subsection \<open>State\<close>

text \<open>\<open>st_cell\<close> is the variable \<open>atmibuf\<close>.\<close>

record server_thread =
  st_req :: msg
  st_res :: msg
  st_cell :: nat
  to_shutdown :: bool

text \<open>
  \<open>server_main\<close> with the current thread; \<open>sv_main\<close> is the main thread when that is another one. Service
  functions are numbers.
\<close>

record server =
  sv_srvid :: nat
  sv_grpno :: nat
  sv_rq :: int
  sv_server :: nat
  sv_queue :: nat
  sv_services :: "(byte list \<times> nat) list"
  sv_stop :: bool
  sv_mtype :: int
  sv_count :: int
  sv_thread :: server_thread
  sv_main :: "server_thread option"

record svcinfo =
  si_name :: "byte list"
  si_data :: "nat option"
  si_len :: int
  si_flags :: int
  si_cd :: int

datatype svc_end =
    Tpreturn int int "nat option" int int
  | Tpforward "byte list" "nat option" int int
  | Plain_return

record ('r, 'n, 'k) senv =
  se_env :: "('r, 'k) env"
  se_fp :: fp_ops
  se_service :: "nat \<Rightarrow> svcinfo \<Rightarrow> ('r, 'n, 'k) proc \<Rightarrow> svc_end \<times> ('r, 'n, 'k) proc"

type_synonym ('r, 'n, 'k) sv_state = "server \<times> ('r, 'n, 'k) proc"

definition sv_err :: "int \<Rightarrow> ('r, 'n, 'k) sv_state \<Rightarrow> ('r, 'n, 'k) sv_state" where
  "sv_err e s = (fst s, set_err e (snd s))"

definition sv_mem :: "(atmi \<Rightarrow> 'a mem_call) \<Rightarrow> ('r, 'n, 'k) sv_state \<Rightarrow> ('a, ('r, 'n, 'k) sv_state) call" where
  "sv_mem f s = (case f (p_mem (snd s)) of (r, m) \<Rightarrow> (r, (fst s, (snd s)\<lparr>p_mem := m\<rparr>)))"

definition sv_os :: "('k \<Rightarrow> ('a, 'k) call) \<Rightarrow> ('r, 'n, 'k) sv_state \<Rightarrow> ('a, ('r, 'n, 'k) sv_state) call" where
  "sv_os f s = (case f (p_os (snd s)) of (r, k) \<Rightarrow> (r, (fst s, (snd s)\<lparr>p_os := k\<rparr>)))"

definition sv_tx ::
    "(('r, 'n) tx_world \<Rightarrow> ('r, 'n, 'a) tx_result) \<Rightarrow> ('r, 'n, 'k) sv_state \<Rightarrow> ('a, ('r, 'n, 'k) sv_state) call" where
  "sv_tx f s = (case f (p_tx (snd s)) of (r, t) \<Rightarrow> (r, (fst s, (snd s)\<lparr>p_tx := t\<rparr>)))"

definition sv_mib :: "(mibmem \<Rightarrow> 'a except \<times> mibmem) \<Rightarrow> ('r, 'n, 'k) sv_state \<Rightarrow> 'a except \<times> ('r, 'n, 'k) sv_state" where
  "sv_mib f s =
     (case f (tx_mib (p_tx (snd s))) of
        (r, m) \<Rightarrow> (r, (fst s, (snd s)\<lparr>p_tx := (p_tx (snd s))\<lparr>tx_mib := m\<rparr>\<rparr>)))"

definition set_thread :: "server_thread \<Rightarrow> ('r, 'n, 'k) sv_state \<Rightarrow> ('r, 'n, 'k) sv_state" where
  "set_thread t s = ((fst s)\<lparr>sv_thread := t\<rparr>, snd s)"

subsection \<open>Advertising\<close>

text \<open>
  A null name and an empty one are refused alike; \<open>None\<close> for \<open>func\<close> is a null pointer. Only
  \<open>std::out_of_range\<close> is caught.
\<close>

definition sv_tpadvertisex :: "byte list option \<Rightarrow> nat option \<Rightarrow> ('r, 'n, 'k) sv_state \<Rightarrow> (int, ('r, 'n, 'k) sv_state) call" where
  "sv_tpadvertisex svcname func s =
     (case svcname of
        None \<Rightarrow> (Inr (-1), sv_err TPEINVAL s)
      | Some name \<Rightarrow>
          if name = [] then (Inr (-1), sv_err TPEINVAL s)
          else case func of
            None \<Rightarrow> (Inr (-1), sv_err TPEINVAL s)
          | Some f \<Rightarrow>
              (case map_of (sv_services (fst s)) name of
                 Some g \<Rightarrow> if g \<noteq> f then (Inr (-1), sv_err TPEMATCH s) else (Inr 0, s)
               | None \<Rightarrow>
                   (case sv_mib (advertise name (sv_queue (fst s)) (sv_server (fst s))) s of
                      (Inl Out_of_range, s) \<Rightarrow> (Inr (-1), sv_err TPELIMIT s)
                    | (Inl e, s) \<Rightarrow> (Inl (Throw e), s)
                    | (Inr _, s) \<Rightarrow> (Inr 0, ((fst s)\<lparr>sv_services := (name, f) # sv_services (fst s)\<rparr>, snd s)))))"

definition sv_tpunadvertise :: "byte list option \<Rightarrow> ('r, 'n, 'k) sv_state \<Rightarrow> (int, ('r, 'n, 'k) sv_state) call" where
  "sv_tpunadvertise svcname s =
     (case svcname of
        None \<Rightarrow> (Inr (-1), sv_err TPEINVAL s)
      | Some name \<Rightarrow>
          if name = [] then (Inr (-1), sv_err TPEINVAL s)
          else case map_of (sv_services (fst s)) name of
            None \<Rightarrow> (Inr (-1), sv_err TPENOENT s)
          | Some f \<Rightarrow>
              let s = ((fst s)\<lparr>sv_services := filter (\<lambda>(n, _). n \<noteq> name) (sv_services (fst s))\<rparr>, snd s) in
              (case sv_mib (unadvertise name (sv_queue (fst s)) (sv_server (fst s))) s of
                 (Inl e, s) \<Rightarrow> (Inl (Throw e), s)
               | (Inr _, s) \<Rightarrow> (Inr 0, s)))"

text \<open>The public functions; \<open>None\<close> when there is no server.\<close>

definition tpadvertisex ::
    "byte list option \<Rightarrow> nat option \<Rightarrow> server option \<Rightarrow> ('r, 'n, 'k) proc \<Rightarrow> (stop + int) \<times> server option \<times> ('r, 'n, 'k) proc" where
  "tpadvertisex svcname func sv w =
     (case sv of
        None \<Rightarrow> (Inr (-1), None, set_err TPEPROTO w)
      | Some sv \<Rightarrow> (case sv_tpadvertisex svcname func (sv, w) of (r, sv, w) \<Rightarrow> (r, Some sv, w)))"

definition tpadvertise ::
    "byte list option \<Rightarrow> nat option \<Rightarrow> server option \<Rightarrow> ('r, 'n, 'k) proc \<Rightarrow> (stop + int) \<times> server option \<times> ('r, 'n, 'k) proc" where
  "tpadvertise svcname func sv w = tpadvertisex svcname func sv w"

definition tpunadvertise ::
    "byte list option \<Rightarrow> server option \<Rightarrow> ('r, 'n, 'k) proc \<Rightarrow> (stop + int) \<times> server option \<times> ('r, 'n, 'k) proc" where
  "tpunadvertise svcname sv w =
     (case sv of
        None \<Rightarrow> (Inr (-1), None, set_err TPEPROTO w)
      | Some sv \<Rightarrow> (case sv_tpunadvertise svcname (sv, w) of (r, sv, w) \<Rightarrow> (r, Some sv, w)))"

subsection \<open>Which message to take\<close>

definition LONG_MIN :: int where "LONG_MIN = - (2 ^ 63)"

definition next_mtype :: "server \<Rightarrow> int \<times> server" where
  "next_mtype sv =
     (let c = (sv_count sv + 1) mod 8; sv = sv\<lparr>sv_count := c\<rparr> in (if c = 0 then 0 else sv_mtype sv, sv))"

subsection \<open>Shutting down\<close>

abbreviation (input) TA_GRPNO :: fldid where "TA_GRPNO \<equiv> 16777328"
abbreviation (input) TA_SRVID :: fldid where "TA_SRVID \<equiv> 16777355"

text \<open>\<open>fml32buf::get<long>\<close>: the field, or an exception.\<close>

definition get_long :: "fp_ops \<Rightarrow> fldid \<Rightarrow> int \<Rightarrow> fbfr \<Rightarrow> stop + int" where
  "get_long fp fieldid oc b =
     (case fst (CFget32 fp (Buf b) fieldid oc None FLD_LONG) of
        Ret v \<Rightarrow> Inr (sdec_le v)
      | Err e \<Rightarrow> Inl (Throw Fml32buf_error)
      | Stuck \<Rightarrow> Inl No_return)"

definition handle :: "fp_ops \<Rightarrow> int \<Rightarrow> fbfr \<Rightarrow> server \<Rightarrow> (bool, server) call" where
  "handle fp mtype b sv =
     (let sv = sv\<lparr>sv_mtype := - (mtype - 1), sv_count := 0\<rparr> in
      case get_long fp TA_SRVID 0 b of
        Inl e \<Rightarrow> (Inl e, sv)
      | Inr i \<Rightarrow>
          if i \<noteq> int (sv_srvid sv) then (Inr False, sv)
          else case get_long fp TA_GRPNO 0 b of
            Inl e \<Rightarrow> (Inl e, sv)
          | Inr g \<Rightarrow> if g = int (sv_grpno sv) then (Inr True, sv\<lparr>sv_stop := True\<rparr>) else (Inr False, sv))"

subsection \<open>Replies\<close>

text \<open>\<open>tpfree(data)\<close> unless it is null or the server's own buffer\<close>

definition free_data :: "nat option \<Rightarrow> ('r, 'n, 'k) sv_state \<Rightarrow> (unit, ('r, 'n, 'k) sv_state) call" where
  "free_data data s =
     (if data \<noteq> None \<and> data \<noteq> cells (p_mem (snd s)) (st_cell (sv_thread (fst s))) then sv_mem (tpfree data) s else (Inr (), s))"

definition put_data_in_res :: "nat option \<Rightarrow> int \<Rightarrow> ('r, 'n, 'k) sv_state \<Rightarrow> (unit, ('r, 'n, 'k) sv_state) call" where
  "put_data_in_res data len s =
     seqx (sv_mem (set_data data len (st_res (sv_thread (fst s)))) s) (\<lambda>m s.
       (Inr (), set_thread ((sv_thread (fst s))\<lparr>st_res := m\<rparr>) s))"

definition send_res :: "('r, 'k) env \<Rightarrow> int \<Rightarrow> msg \<Rightarrow> ('r, 'n, 'k) sv_state \<Rightarrow> (unit, ('r, 'n, 'k) sv_state) call" where
  "send_res env q m s =
     seqx (sv_os (qsend (e_os env) q m 0 notime) (set_thread ((sv_thread (fst s))\<lparr>st_res := m\<rparr>) s)) (\<lambda>(_, m) s.
       (Inr (), set_thread ((sv_thread (fst s))\<lparr>st_res := m\<rparr>) s))"

definition reply ::
    "('r, 'k) env \<Rightarrow> int \<Rightarrow> int \<Rightarrow> nat option \<Rightarrow> int \<Rightarrow> int \<Rightarrow> ('r, 'n, 'k) sv_state \<Rightarrow> (unit, ('r, 'n, 'k) sv_state) call" where
  "reply env rval rcode data len flags s =
     (if m_replyq (st_req (sv_thread (fst s))) = -1 then (Inr (), s)
      else seqx (put_data_in_res data len s) (\<lambda>_ s. seqx (free_data data s) (\<lambda>_ s.
        let req = st_req (sv_thread (fst s)) in
        send_res env (m_replyq req)
          ((st_res (sv_thread (fst s)))
             \<lparr>m_rval := (if flags \<noteq> 0 then TPESVCERR else rval), m_rcode := rcode, m_flags := flags,
              m_mtype := m_cd req, m_cd := m_cd req\<rparr>) s)))"

definition th_tpreturn ::
    "('r, 'k) env \<Rightarrow> int \<Rightarrow> int \<Rightarrow> nat option \<Rightarrow> int \<Rightarrow> int \<Rightarrow> ('r, 'n, 'k) sv_state \<Rightarrow> (unit, ('r, 'n, 'k) sv_state) call" where
  "th_tpreturn env rval rcode data len flags s =
     seqx (if transactional (p_tx (snd s)) then seqx (sv_tx (tx_end_ok (e_sw env) (rval = TPSUCCESS)) s) (\<lambda>_ s. (Inr (), s)) else (Inr (), s))
       (\<lambda>_ s. reply env rval rcode data len flags s)"

definition th_tpforward ::
    "('r, 'k) env \<Rightarrow> byte list \<Rightarrow> nat option \<Rightarrow> int \<Rightarrow> int \<Rightarrow> ('r, 'n, 'k) sv_state \<Rightarrow> (unit, ('r, 'n, 'k) sv_state) call" where
  "th_tpforward env svc data len flags s =
     (let gttid = tx_gttid (p_tx (snd s)) in
      seqx (if transactional (p_tx (snd s)) then seqx (sv_tx (tx_end_ok (e_sw env) True) s) (\<lambda>_ s. (Inr (), s)) else (Inr (), s)) (\<lambda>_ s.
      seqx (case client_get_queue env svc (snd s) of (r, w) \<Rightarrow> (r, (fst s, w))) (\<lambda>qid s.
      seqx (put_data_in_res data len s) (\<lambda>_ s.
      seqx (free_data data s) (\<lambda>_ s.
      seqx (lift_except (checked_copy_cstr svc (m_service (st_res (sv_thread (fst s))))) s) (\<lambda>name s.
        let req = st_req (sv_thread (fst s)) in
        send_res env qid
          ((st_res (sv_thread (fst s)))
             \<lparr>m_service := name, m_flags := flags, m_replyq := m_replyq req, m_mtype := m_cd req, m_cd := m_cd req,
              m_gttid := gttid\<rparr>) s))))))"

text \<open>The public functions: any exception ends \<open>tpreturn\<close>, without a reply.\<close>

definition rval_code :: "int \<Rightarrow> int" where
  "rval_code rval =
     (if rval = TPSUCCESS then TPMINVAL else if rval = TPFAIL then TPESVCFAIL else if rval = TPEXIT then TPESVCERR else TPESVCERR)"

definition sv_tpreturn ::
    "('r, 'k) env \<Rightarrow> int \<Rightarrow> int \<Rightarrow> nat option \<Rightarrow> int \<Rightarrow> int \<Rightarrow> ('r, 'n, 'k) sv_state \<Rightarrow> (unit, ('r, 'n, 'k) sv_state) call" where
  "sv_tpreturn env rval rcode data len flags s =
     (case th_tpreturn env (rval_code rval) rcode data len flags s of
        (Inl (Throw e), s) \<Rightarrow> (Inr (), s)
      | res \<Rightarrow> res)"

definition sv_tpforward ::
    "('r, 'k) env \<Rightarrow> byte list \<Rightarrow> nat option \<Rightarrow> int \<Rightarrow> int \<Rightarrow> ('r, 'n, 'k) sv_state \<Rightarrow> (unit, ('r, 'n, 'k) sv_state) call" where
  "sv_tpforward env svc data len flags s =
     (case th_tpforward env svc data len flags s of
        (Inl (Throw e), s) \<Rightarrow> sv_tpreturn env TPESVCERR 0 data len flags s
      | res \<Rightarrow> res)"

subsection \<open>Dispatching\<close>

definition string_name :: "byte list" where "string_name = [83, 84, 82, 73, 78, 71]"
definition stop_name :: "byte list" where "stop_name = [46, 115, 116, 111, 112]"

definition prepare_buffer :: "allocator \<Rightarrow> ('r, 'n, 'k) sv_state \<Rightarrow> (unit, ('r, 'n, 'k) sv_state) call" where
  "prepare_buffer al s =
     (let c = st_cell (sv_thread (fst s)) in
      if cells (p_mem (snd s)) c \<noteq> None then (Inr (), s)
      else seqx (sv_mem (tpalloc al (Some string_name) None (4 * 1024)) s) (\<lambda>p s.
        let s = (fst s, (snd s)\<lparr>p_mem := (p_mem (snd s))\<lparr>cells := (cells (p_mem (snd s)))(c := p)\<rparr>\<rparr>) in
        case p of None \<Rightarrow> (Inl Undefined, s) | Some p \<Rightarrow> sv_mem (setowner p (Some c)) s))"

text \<open>Taking a request and its data\<close>

definition take_request :: "('r, 'k) env \<Rightarrow> ('r, 'n, 'k) sv_state \<Rightarrow> (unit, ('r, 'n, 'k) sv_state) call" where
  "take_request env s =
     (case next_mtype (fst s) of
        (t, sv) \<Rightarrow>
          seqx (sv_os (qrecv (e_os env) (sv_rq sv) t) (sv, snd s)) (\<lambda>m s.
          seqx (prepare_buffer (e_al env) (set_thread ((sv_thread (fst s))\<lparr>st_req := m\<rparr>) s)) (\<lambda>_ s.
            sv_mem (get_data (e_al env) (Some (st_cell (sv_thread (fst s)))) m) s)))"

text \<open>
  A message to stop: whether this server is meant. If so the main thread keeps the message to answer
  it; if not the message goes to the end of the queue.
\<close>

definition stopped :: "('r, 'k) env \<Rightarrow> ('r, 'n, 'k) sv_state \<Rightarrow> (unit, ('r, 'n, 'k) sv_state) call" where
  "stopped env s =
     (case sv_main (fst s) of
        None \<Rightarrow> (Inr (), set_thread ((sv_thread (fst s))\<lparr>to_shutdown := True\<rparr>) s)
      | Some mt \<Rightarrow>
          let req = st_req (sv_thread (fst s)) in
          seqx (sv_mem (get_data (e_al env) (Some (st_cell mt)) req) ((fst s)\<lparr>sv_main := Some (mt\<lparr>st_req := req\<rparr>)\<rparr>, snd s)) (\<lambda>_ s.
            (Inr (), ((fst s)\<lparr>sv_main := Some (mt\<lparr>st_req := req, to_shutdown := True\<rparr>)\<rparr>, snd s))))"

definition admin_request :: "('r, 'k) env \<Rightarrow> fp_ops \<Rightarrow> ('r, 'n, 'k) sv_state \<Rightarrow> (bool, ('r, 'n, 'k) sv_state) call" where
  "admin_request env fp s =
     (let req = st_req (sv_thread (fst s)) in
      case cells (p_mem (snd s)) (st_cell (sv_thread (fst s))) of
        None \<Rightarrow> (Inl Undefined, s)
      | Some p \<Rightarrow>
          (case blocks (p_mem (snd s)) p of
             None \<Rightarrow> (Inl Undefined, s)
           | Some b \<Rightarrow>
               seqx (case handle fp (m_mtype req) (fb_of (buf_data b)) (fst s) of (r, sv) \<Rightarrow> (r, (sv, snd s))) (\<lambda>mine s.
                 if mine then seqx (stopped env s) (\<lambda>_ s. (Inr True, s))
                 else seqx (sv_os (qsend (e_os env) (sv_rq (fst s)) req 0 notime) s) (\<lambda>(_, m) s.
                   (Inr False, set_thread ((sv_thread (fst s))\<lparr>st_req := m\<rparr>) s)))))"

text \<open>A service that is not in the table: the end of the table is dereferenced.\<close>

definition call_service :: "('r, 'n, 'k) senv \<Rightarrow> ('r, 'n, 'k) sv_state \<Rightarrow> (unit, ('r, 'n, 'k) sv_state) call" where
  "call_service se s =
     (let th = sv_thread (fst s); req = st_req th;
          info = \<lparr>si_name = c_string (m_service req), si_data = cells (p_mem (snd s)) (st_cell th),
                  si_len = int (length (m_data req)), si_flags = m_flags req, si_cd = m_cd req\<rparr>
      in seqx (if has_flag (m_flags req) TPTRAN then sv_tx (tx_join (e_sw (se_env se)) (m_gttid req)) s else (Inr (), s)) (\<lambda>_ s.
        case map_of (sv_services (fst s)) (si_name info) of
          None \<Rightarrow> (Inl Undefined, s)
        | Some f \<Rightarrow>
            (case se_service se f info (snd s) of
               (Tpreturn rval rcode data len flags, w) \<Rightarrow> sv_tpreturn (se_env se) rval rcode data len flags (fst s, w)
             | (Tpforward svc data len flags, w) \<Rightarrow> sv_tpforward (se_env se) svc data len flags (fst s, w)
             | (Plain_return, w) \<Rightarrow> (Inr (), (fst s, w)))))"

text \<open>One round of the loop of \<open>dispatch\<close>.\<close>

definition dispatch_once :: "('r, 'n, 'k) senv \<Rightarrow> ('r, 'n, 'k) sv_state \<Rightarrow> (unit, ('r, 'n, 'k) sv_state) call" where
  "dispatch_once se s =
     seqx (take_request (se_env se) s) (\<lambda>_ s.
     seqx (if c_string (m_service (st_req (sv_thread (fst s)))) = stop_name then admin_request (se_env se) (se_fp se) s
           else (Inr False, s)) (\<lambda>mine s.
       if mine then (Inr (), s) else call_service se s))"

partial_function (option) dispatch :: "('r, 'n, 'k) senv \<Rightarrow> ('r, 'n, 'k) sv_state \<Rightarrow> (unit, ('r, 'n, 'k) sv_state) call option" where
  "dispatch se s =
     (if sv_stop (fst s) then Some (Inr (), s)
      else case dispatch_once se s of
        (Inl e, s) \<Rightarrow> Some (Inl e, s)
      | (Inr _, s) \<Rightarrow> dispatch se s)"

declare dispatch.simps [code]

subsection \<open>Starting a server\<close>

text \<open>
  \<open>_tmstartserver\<close> after its arguments are parsed (\<open>-i\<close>, \<open>-g\<close>, \<open>-A\<close>), with one thread: the table of
  services and the functions \<open>svrinit\<close>, \<open>mainloop\<close>, \<open>svrdone\<close> the server was built with are parameters.
\<close>

record ('r, 'n, 'k) tmsvrargs =
  ta_table :: "(byte list \<times> nat) list"
  ta_svrinit :: "('r, 'n, 'k) proc \<Rightarrow> int \<times> ('r, 'n, 'k) proc"
  ta_mainloop :: "('r, 'n, 'k) proc \<Rightarrow> ('r, 'n, 'k) proc"
  ta_svrdone :: "('r, 'n, 'k) proc \<Rightarrow> ('r, 'n, 'k) proc"

fun advertise_all :: "(byte list \<times> nat) list \<Rightarrow> ('r, 'n, 'k) sv_state \<Rightarrow> (bool, ('r, 'n, 'k) sv_state) call" where
  "advertise_all [] s = (Inr True, s)"
| "advertise_all ((name, f) # recs) s =
     (if name = [] then (Inr True, s)
      else seqx (sv_tpadvertisex (Some name) (Some f) s) (\<lambda>rc s.
        if rc = -1 then (Inr False, s) else advertise_all recs s))"

definition server_state :: "state_t \<Rightarrow> ('r, 'n, 'k) sv_state \<Rightarrow> (unit, ('r, 'n, 'k) sv_state) call" where
  "server_state st s =
     (let i = sv_server (fst s) in
      case sv_mib (\<lambda>m. case arr_at (servers m) i of
          Inl e \<Rightarrow> (Inl e, m)
        | Inr x \<Rightarrow> (Inr (), set_server i (x\<lparr>srv_state := st\<rparr>) m)) s of
        (Inl e, s) \<Rightarrow> (Inl (Throw e), s)
      | (Inr _, s) \<Rightarrow> (Inr (), s))"

text \<open>The queue of the server, which the system is asked for when there is none.\<close>

definition queue_of :: "('r, 'k) env \<Rightarrow> nat \<Rightarrow> ('r, 'n, 'k) proc \<Rightarrow> ('r, 'n, 'k, int) proc_call" where
  "queue_of env i w =
     (let m = tx_mib (p_tx w);
          (q, k) = (case bind_except (arr_at (servers m) i) (\<lambda>s. arr_at (queues m) (srv_rqaddr s)) of
             Inr q \<Rightarrow> if msqid q = -1 then e_qcreate env (p_os w) else (None, p_os w)
           | Inl e \<Rightarrow> (None, p_os w))
      in case make_service_rqaddr (case q of Some q \<Rightarrow> Inr q | None \<Rightarrow> Inl System_error) i m of
           (r, m) \<Rightarrow> lift_except r (w\<lparr>p_os := k, p_tx := (p_tx w)\<lparr>tx_mib := m\<rparr>\<rparr>))"

definition new_server :: "nat \<Rightarrow> nat \<Rightarrow> nat \<Rightarrow> nat \<Rightarrow> int \<Rightarrow> nat \<Rightarrow> server" where
  "new_server sid grpno i q rq cell =
     \<lparr>sv_srvid = sid, sv_grpno = grpno, sv_rq = rq, sv_server = i, sv_queue = q, sv_services = [], sv_stop = False,
      sv_mtype = LONG_MIN, sv_count = 0,
      sv_thread = \<lparr>st_req = new_msg, st_res = new_msg, st_cell = cell, to_shutdown = False\<rparr>, sv_main = None\<rparr>"

definition run_server ::
    "('r, 'n, 'k) senv \<Rightarrow> ('r, 'n, 'k) tmsvrargs \<Rightarrow> bool \<Rightarrow> ('r, 'n, 'k) sv_state \<Rightarrow> (int, ('r, 'n, 'k) sv_state) call" where
  "run_server se args all s =
     seqx (prepare_buffer (e_al (se_env se)) s) (\<lambda>_ s.
     seqx (if all then advertise_all (ta_table args) s else (Inr True, s)) (\<lambda>ok s.
       if \<not> ok then (Inr (-1), s)
       else seqx (server_state ACTive s) (\<lambda>_ s.
         seqx (case dispatch se s of None \<Rightarrow> (Inl No_return, s) | Some r \<Rightarrow> r) (\<lambda>_ s.
         let s = (fst s, ta_svrdone args (ta_mainloop args (snd s))) in
         seqx (server_state INActive s) (\<lambda>_ s.
         let th = sv_thread (fst s) in
         seqx (if to_shutdown th then reply (se_env se) TPMINVAL 0 (cells (p_mem (snd s)) (st_cell th)) 0 TPNOFLAGS s
               else (Inr (), s)) (\<lambda>_ s. (Inr 0, s)))))))"

definition tmstartserver ::
    "('r, 'n, 'k) senv \<Rightarrow> ('r, 'n, 'k) tmsvrargs \<Rightarrow> nat \<Rightarrow> nat \<Rightarrow> bool \<Rightarrow> nat \<Rightarrow> ('r, 'n, 'k) proc \<Rightarrow> ('r, 'n, 'k, int) proc_call" where
  "tmstartserver se args sid grpno all cell w =
     (let w = w\<lparr>p_server := True\<rparr> in
      case find_server sid grpno (tx_mib (p_tx w)) of
        Inl e \<Rightarrow> (Inl (Throw e), w)
      | Inr i \<Rightarrow>
          if i = badoff then (Inr (-1), w)
          else
            let w = w\<lparr>p_tx := (p_tx w)\<lparr>tx_grpno := grpno\<rparr>\<rparr> in
            seqx (queue_of (se_env se) i w) (\<lambda>rq w.
              case arr_at (servers (tx_mib (p_tx w))) i of
                Inl e \<Rightarrow> (Inl (Throw e), w)
              | Inr x \<Rightarrow>
                  (case ta_svrinit args w of
                     (n, w) \<Rightarrow>
                       if n \<noteq> 0 then (Inr (-1), w)
                       else case run_server se args all (new_server sid grpno i (srv_rqaddr x) rq cell, w) of
                         (r, s) \<Rightarrow> (r, snd s))))"

end
