(* ===== verification/Mem_Props.thy ===== *)
theory Mem_Props
  imports Mem
begin

text \<open>What the operations on typed buffers of src/mem.cpp guarantee, and where they do not.\<close>

subsection \<open>The header of a fielded buffer as bytes\<close>

lemma enc_dec32: "length bs = 4 \<Longrightarrow> enc32 (dec32 bs) = bs"
proof -
  assume "length bs = 4"
  then obtain a b c d where bs: "bs = [a, b, c, d]"
    by (auto simp: numeral_eq_Suc length_Suc_conv)
  have out: "\<not> bit x n" if "8 \<le> n" for x :: byte and n
    using that by (auto dest: bit_imp_le_length)
  have "enc32 (dec32 bs) = bs"
    unfolding bs enc32_def dec32_def list.inject
    by (intro conjI refl; rule bit_word_eqI; simp add: bit_simps out)
  then show ?thesis .
qed

lemma u32_bytes_enc: "length bs = 4 \<Longrightarrow> u32_bytes (unat (dec32 bs)) = bs"
  by (simp add: u32_bytes_def enc_dec32)

lemma concat_words: "4 * k \<le> length bs \<Longrightarrow> concat (map (\<lambda>i. take 4 (drop (4 * i) bs)) [0..<k]) = take (4 * k) bs"
  by (induction k) (simp_all add: take_add [symmetric] add.commute)

lemma header_bytes_of: "length bs = 28 \<Longrightarrow> header_bytes (header_of bs) = bs"
proof -
  assume len: "length bs = 28"
  have "header_bytes (header_of bs) = concat (map (\<lambda>i. take 4 (drop (4 * i) bs)) [0..<max_offset])"
    unfolding header_bytes_def header_of_def map_map
    by (rule arg_cong [where f = concat], rule map_cong [OF refl])
      (use len in \<open>simp add: u32_bytes_enc del: upt_rec_numeral\<close>)
  then show ?thesis using concat_words [of max_offset bs] len by simp
qed

lemma fb_into_bsize: "fb_into ((fb_of d)\<lparr>bsize := n\<rparr>) = wr 0 (u32_bytes n) d"
proof
  fix i :: nat
  have r: "rd 4 36 d = rd 4 4 d @ rd 8 28 d @ rd 36 4 d"
    using rd_add [of 4 4 32 d] rd_add [of 8 28 4 d] by simp
  have "fb_into ((fb_of d)\<lparr>bsize := n\<rparr>) i =
      wr 0 (u32_bytes n @ rd 4 36 d) (\<lambda>i. d (min_size + (i - min_size))) i"
    by (simp add: fb_into_def fb_of_def u32_bytes_enc header_bytes_of r)
  also have "\<dots> = wr 0 (u32_bytes n) d i"
    by (auto simp: wr_def nth_append)
  finally show "fb_into ((fb_of d)\<lparr>bsize := n\<rparr>) i = wr 0 (u32_bytes n) d i" .
qed

lemma fml32reinit_bytes: "fml32reinit sz d = wr 0 (u32_bytes (u32 (int (u32 sz) - int min_size))) d"
  by (simp add: fml32reinit_def fb_reinit_def fb_into_bsize)

lemma fb_of_size: "n < 2 ^ 32 \<Longrightarrow> fb_of (wr 0 (u32_bytes n) d) = (fb_of d)\<lparr>bsize := n\<rparr>"
proof -
  assume n: "n < 2 ^ 32"
  have "rd 0 4 (wr 0 (u32_bytes n) d) = u32_bytes n" by (rule rd_wr_same) simp
  moreover have "rd 4 4 (wr 0 (u32_bytes n) d) = rd 4 4 d" "rd 8 28 (wr 0 (u32_bytes n) d) = rd 8 28 d"
    "rd 36 4 (wr 0 (u32_bytes n) d) = rd 36 4 d"
    by (auto intro!: rd_wr_other)
  moreover have "(\<lambda>i. wr 0 (u32_bytes n) d (min_size + i)) = (\<lambda>i. d (min_size + i))"
    by (auto simp: wr_def)
  ultimately show ?thesis using n by (simp add: fb_of_def u32_bytes_dec)
qed

text \<open>Two memories that agree on header and used bytes hold the same fields.\<close>

lemma fb_of_cong:
  assumes "\<forall>i < min_size + blen (fb_of d). d' i = d i"
  shows "fb_of d' = (fb_of d)\<lparr>bdata := bdata (fb_of d')\<rparr>"
    and "rd 0 (blen (fb_of d)) (bdata (fb_of d')) = rd 0 (blen (fb_of d)) (bdata (fb_of d))"
proof -
  have "rd 0 4 d' = rd 0 4 d" "rd 4 4 d' = rd 4 4 d" "rd 8 28 d' = rd 8 28 d" "rd 36 4 d' = rd 36 4 d"
    using assms by (auto intro!: rd_cong)
  then show "fb_of d' = (fb_of d)\<lparr>bdata := bdata (fb_of d')\<rparr>" by (simp add: fb_of_def)
  show "rd 0 (blen (fb_of d)) (bdata (fb_of d')) = rd 0 (blen (fb_of d)) (bdata (fb_of d))"
    using assms by (intro rd_cong) (simp add: fb_of_def)
qed

subsection \<open>Types and blocks\<close>

text \<open>The entry of the type table that fits the names in the header of a block.\<close>

definition type_of :: "tpmem \<Rightarrow> tptype option" where
  "type_of b = fst (block_type b \<lparr>blocks = (\<lambda>_. None), cells = (\<lambda>_. None), tperr = 0\<rparr>)"

lemma block_type_eq:
  "block_type b s = (case type_of b of None \<Rightarrow> (None, put_err TPENOENT s) | Some t \<Rightarrow> (Some t, s))"
  by (simp add: type_of_def block_type_def typeptr_def split: option.split)

lemma type_of_cong: "buf_type b = buf_type b' \<Longrightarrow> buf_subtype b = buf_subtype b' \<Longrightarrow> type_of b = type_of b'"
  by (simp add: type_of_def block_type_def)

lemma type_of_table: "type_of b = Some t \<Longrightarrow> t \<in> set tptypes_table"
  by (auto simp: type_of_def block_type_def typeptr_def find_Some_iff split: option.splits)

lemma reinit_cases: "type_of b = Some t \<Longrightarrow> tt_reinit t = None \<or> tt_reinit t = Some fml32reinit"
  by (drule type_of_table) (auto simp: tptypes_table_def)

lemma put_err_simps [simp]:
  "blocks (put_err e s) = blocks s" "cells (put_err e s) = cells s" "tperr (put_err e s) = e"
  "put_err e (put_err e' s) = put_err e s"
  by (simp_all add: put_err_def)

lemma put_block_simps [simp]:
  "blocks (put_block p b s) = (blocks s)(p \<mapsto> b)" "cells (put_block p b s) = cells s"
  "tperr (put_block p b s) = tperr s" "put_block p b (put_block p b' s) = put_block p b s"
  "put_err e (put_block p b s) = put_block p b (put_err e s)"
  by (simp_all add: put_block_def put_err_def)

lemma put_data_simps [simp]:
  "tm_size (put_data d b) = tm_size b" "tm_owner (put_data d b) = tm_owner b"
  "tm_room (put_data d b) = tm_room b" "buf_data (put_data d b) = d"
  by (simp_all add: put_data_def buf_data_def)

lemma put_data_names [simp]: "buf_type (put_data d b) = buf_type b" "buf_subtype (put_data d b) = buf_subtype b"
  by (auto simp: put_data_def buf_type_def buf_subtype_def intro!: rd_cong)

lemma opt_hook_simps [simp]:
  "tm_size (opt_hook h n b) = tm_size b" "tm_owner (opt_hook h n b) = tm_owner b"
  "tm_room (opt_hook h n b) = tm_room b"
  "buf_type (opt_hook h n b) = buf_type b" "buf_subtype (opt_hook h n b) = buf_subtype b"
  by (simp_all add: opt_hook_def split: option.split)

lemma opt_hook_data:
  "buf_data (opt_hook h n b) = (case h of None \<Rightarrow> buf_data b | Some f \<Rightarrow> f n (buf_data b))"
  by (simp add: opt_hook_def split: option.split)

lemma bufsize_pure: "bufsize p len s = (Inr n, s') \<Longrightarrow> n \<noteq> -1 \<Longrightarrow> bufsize p len (put_err e s) = (Inr n, put_err e s)"
  by (auto simp: bufsize_def block_type_eq split: option.splits if_splits)

subsection \<open>Exporting and importing\<close>

text \<open>The bytes of an export: those from the member \<open>type\<close> on, or their base64 text.\<close>

lemma chars_of_small: "0 \<le> n \<Longrightarrow> n < 2 ^ 60 \<Longrightarrow> chars_of n = int (base64chars (nat n))"
proof -
  assume n: "0 \<le> n" "n < 2 ^ 60"
  have "base64chars (nat n) < 2 ^ 63" using n by (auto simp: base64chars_def Let_def)
  then have "int (base64chars (nat n)) < 2 ^ 63" by (metis of_nat_less_iff of_nat_numeral of_nat_power)
  then show ?thesis using n by (simp add: chars_of_def as_long64_def)
qed

lemma export_plain:
  assumes "blocks s p = Some b" "bufsize p ilen s = (Inr n, s')" "n \<noteq> -1" "nat n \<le> names_size + tm_room b" "n \<le> olen"
  shows "tpexport (Some p) ilen True olen 0 s = (Inr (0, n, rd 0 (nat n) (tm_body b)), put_err 0 s)"
  using assms bufsize_pure [OF assms(2,3), of 0]
  by (simp add: tpexport_def exception_boundary_def mem_tpexport_def has_flag_def Let_def)

lemma export_string:
  assumes "blocks s p = Some b" "bufsize p ilen s = (Inr n, s')" "0 \<le> n" "n < 2 ^ 60"
    "nat n \<le> names_size + tm_room b" "chars_of n + 1 \<le> olen"
  shows "tpexport (Some p) ilen True olen TPEX_STRING s =
      (Inr (0, chars_of n + 1, encode_blocks (rd 0 (nat n) (tm_body b)) @ [0]), put_err 0 s)"
proof -
  let ?x = "rd 0 (nat n) (tm_body b)"
  have "length (encode_blocks ?x) \<le> nat olen"
    using assms(3,4,6) base64chars_length [of ?x] by (simp add: chars_of_small)
  then have "base64encode ?x (nat olen) = Inr (encode_blocks ?x)"
    by (simp add: base64encode_def length_encode_blocks Let_def)
  then show ?thesis
    using assms bufsize_pure [OF assms(2), of 0]
    by (simp add: tpexport_def exception_boundary_def mem_tpexport_def has_flag_def Let_def)
qed

lemma import_tail:
  assumes "blocks s q = Some b" "length xs \<le> names_size + tm_room b"
    and "type_of (b\<lparr>tm_body := wr 0 xs (tm_body b)\<rparr>) = Some t"
  shows "seqx (write_body q xs s) (\<lambda>_ s. reinit_import q l s) =
      (Inr (0, Some l), put_err 0 (put_block q (opt_hook (tt_reinit t) (tm_size b)
         (b\<lparr>tm_body := wr 0 xs (tm_body b)\<rparr>)) s))"
  using assms by (simp add: write_body_def reinit_import_def block_type_eq)

lemma grow_for_fits:
  "cells s c = Some q \<Longrightarrow> blocks s q = Some b \<Longrightarrow> needed \<le> tm_size b \<Longrightarrow> grow_for al c needed s = (Inr q, s)"
  by (simp add: grow_for_def)

lemma import_plain:
  assumes "cells s c = Some q" "blocks s q = Some b" "sizeof_tpmem + int (length xs) \<le> tm_size b" "tm_size b \<le> int (tm_room b)"
    and "xs \<noteq> []" "type_of (b\<lparr>tm_body := wr 0 xs (tm_body b)\<rparr>) = Some t"
  shows "tpimport al (Some (xs @ rest)) (int (length xs)) (Some c) 0 s =
      (Inr (0, Some (int (length xs))), put_err 0 (put_block q (opt_hook (tt_reinit t) (tm_size b)
         (b\<lparr>tm_body := wr 0 xs (tm_body b)\<rparr>)) s))"
proof -
  let ?s = "put_err 0 s"
  have "grow_for al c (sizeof_tpmem + int (length xs)) ?s = (Inr q, ?s)"
    using assms by (simp add: grow_for_fits)
  moreover note import_tail [of ?s q b xs t "int (length xs)"]
  ultimately show ?thesis
    using assms by (simp add: tpimport_def exception_boundary_def mem_tpimport_def has_flag_def)
qed

lemma no_nul_encoding: "0 \<notin> set (encode_blocks xs)"
  using encode_alphabet [of xs] by (auto simp: encoding_def)

lemma decode_encoded:
  "base64decode (encode_blocks xs) (length (encode_blocks xs)) = Inr xs" "fst (decode_blocks 0 (encode_blocks xs)) = xs"
proof -
  have "length (encode_blocks xs) mod 4 = 0" by (simp add: length_encode_blocks)
  moreover have "bit (snd (decode_blocks 0 (encode_blocks xs))) 7 = False"
    using decode_encode(2) [of 0 xs] by simp
  ultimately show "base64decode (encode_blocks xs) (length (encode_blocks xs)) = Inr xs"
    using decode_encode(1) [of 0 xs] by (auto simp: base64decode_def and_128 split: prod.split)
qed (rule decode_encode(1))

lemma encoded_size: "length (encode_blocks xs) div 4 * 3 \<le> length xs + 2" "length xs \<le> length (encode_blocks xs) div 4 * 3"
proof -
  obtain k r where kr: "length xs = 3 * k + r" "r < 3" "length xs div 3 = k" "length xs mod 3 = r"
    by (metis div_mult_mod_eq mod_less_divisor mult.commute zero_less_numeral)
  have "length (encode_blocks xs) div 4 = k + (if r > 0 then 1 else 0)"
    using kr(3,4) by (simp add: length_encode_blocks)
  then show "length (encode_blocks xs) div 4 * 3 \<le> length xs + 2" "length xs \<le> length (encode_blocks xs) div 4 * 3"
    using kr(1,2) by auto
qed

lemma import_string:
  assumes "cells s c = Some q" "blocks s q = Some b" "sizeof_tpmem + int (length xs) + 2 \<le> tm_size b"
    and "tm_size b \<le> int (tm_room b)" "ilen = 0 \<or> has_flag flags TPEX_STRING"
    and "type_of (b\<lparr>tm_body := wr 0 xs (tm_body b)\<rparr>) = Some t"
  shows "tpimport al (Some (encode_blocks xs @ 0 # rest)) ilen (Some c) flags s =
      (Inr (0, Some (int (length (encode_blocks xs)))), put_err 0 (put_block q (opt_hook (tt_reinit t) (tm_size b)
         (b\<lparr>tm_body := wr 0 xs (tm_body b)\<rparr>)) s))"
proof -
  let ?s = "put_err 0 s" and ?e = "encode_blocks xs"
  have "sizeof_tpmem + int (length ?e div 4 * 3) \<le> tm_size b"
    using assms(3) encoded_size(1) [of xs] by linarith
  then have g: "grow_for al c (sizeof_tpmem + int (length ?e div 4 * 3)) ?s = (Inr q, ?s)"
    using assms by (simp add: grow_for_fits)
  have t: "seqx (write_body q xs ?s) (\<lambda>_ s. reinit_import q (int (length ?e)) s) =
      (Inr (0, Some (int (length ?e))), put_err 0 (put_block q (opt_hook (tt_reinit t) (tm_size b)
         (b\<lparr>tm_body := wr 0 xs (tm_body b)\<rparr>)) ?s))"
    using assms by (intro import_tail) auto
  have str: "c_string (?e @ 0 # rest) = ?e" "0 \<in> set (?e @ 0 # rest)" "length ?e mod 4 = 0"
    using no_nul_encoding [of xs] by (simp_all add: length_encode_blocks)
  show ?thesis
    using assms(1,5) g t str decode_encoded [of xs]
    by (auto simp: tpimport_def exception_boundary_def mem_tpimport_def Let_def split_beta simp del: c_string_append_nul)
qed

text \<open>The block an import of the first \<open>n\<close> bytes of \<open>b\<close> leaves in place of \<open>b'\<close>.\<close>

definition imported :: "nat \<Rightarrow> tpmem \<Rightarrow> tptype \<Rightarrow> tpmem \<Rightarrow> tpmem" where
  "imported n b t b' = opt_hook (tt_reinit t) (tm_size b') (b'\<lparr>tm_body := wr 0 (rd 0 n (tm_body b)) (tm_body b')\<rparr>)"

lemma overlay_names:
  assumes "names_size \<le> n" "b1 = b'\<lparr>tm_body := wr 0 (rd 0 n (tm_body b)) (tm_body b')\<rparr>"
  shows "buf_type b1 = buf_type b" "buf_subtype b1 = buf_subtype b"
    "\<forall>i. i + names_size < n \<longrightarrow> buf_data b1 i = buf_data b i"
  using assms by (auto simp: buf_type_def buf_subtype_def buf_data_def wr_def intro!: rd_cong)

lemma imported_bytes:
  assumes "names_size \<le> n" "type_of b = Some t" and "b2 = imported n b t b'"
  shows "buf_type b2 = buf_type b" "buf_subtype b2 = buf_subtype b" "type_of b2 = Some t"
    and "i + names_size < n \<Longrightarrow> tt_reinit t = None \<or> 4 \<le> i \<Longrightarrow> buf_data b2 i = buf_data b i"
proof -
  note names = overlay_names [OF assms(1) refl, where b = b and b' = b']
  show n: "buf_type b2 = buf_type b" "buf_subtype b2 = buf_subtype b"
    unfolding assms(3) imported_def opt_hook_simps by (rule names)+
  then show "type_of b2 = Some t" using assms(2) type_of_cong by metis
  show "buf_data b2 i = buf_data b i" if "i + names_size < n" "tt_reinit t = None \<or> 4 \<le> i"
    using that names(3) reinit_cases [OF assms(2)]
    by (auto simp: assms(3) imported_def opt_hook_data fml32reinit_bytes wr_def)
qed

lemma imported_view:
  assumes "type_of b = Some t" "tt_reinit t \<noteq> None" "n = names_size + fb_used (fb_of (buf_data b))"
  shows "\<exists>d. fb_of (buf_data (imported n b t b')) =
      (fb_of (buf_data b))\<lparr>bsize := u32 (int (u32 (tm_size b')) - int min_size), bdata := d\<rparr> \<and>
    rd 0 (blen (fb_of (buf_data b))) d = rd 0 (blen (fb_of (buf_data b))) (bdata (fb_of (buf_data b)))"
proof -
  let ?d = "buf_data b" and ?b1 = "b'\<lparr>tm_body := wr 0 (rd 0 n (tm_body b)) (tm_body b')\<rparr>"
  let ?m = "u32 (int (u32 (tm_size b')) - int min_size)"
  have agree: "\<forall>i < min_size + blen (fb_of ?d). buf_data ?b1 i = ?d i"
    using overlay_names(3) [of n ?b1 b b'] assms(3) by (auto simp: fb_used_def)
  have m: "?m < 2 ^ 32" by (auto simp: u32_def nat_less_iff)
  have "buf_data (imported n b t b') = wr 0 (u32_bytes ?m) (buf_data ?b1)"
    using assms(2) reinit_cases [OF assms(1)] by (auto simp: imported_def opt_hook_data fml32reinit_bytes)
  then have "fb_of (buf_data (imported n b t b')) = (fb_of ?d)\<lparr>bsize := ?m, bdata := bdata (fb_of (buf_data ?b1))\<rparr>"
    using arg_cong [OF fb_of_cong(1) [OF agree], of "bsize_update (\<lambda>_. ?m)"] m by (simp add: fb_of_size)
  then show ?thesis using fb_of_cong(2) [OF agree] by blast
qed

lemma imported_fields:
  assumes "type_of b = Some t" "tt_reinit t \<noteq> None" "n = names_size + fb_used (fb_of (buf_data b))"
    and "rep (fb_of (buf_data b)) cs" "int n + 16 \<le> tm_size b'" "tm_size b' < 2 ^ 32"
  shows "rep (fb_of (buf_data (imported n b t b'))) cs"
    and "int (fb_size (fb_of (buf_data (imported n b t b')))) = tm_size b'"
proof -
  let ?m = "u32 (int (u32 (tm_size b')) - int min_size)"
  have m: "int ?m = tm_size b' - int min_size" "blen (fb_of (buf_data b)) \<le> ?m" "?m + min_size < 2 ^ 32"
    using assms(3,5,6) by (auto simp: u32_def fb_used_def)
  obtain d where v: "fb_of (buf_data (imported n b t b')) = (fb_of (buf_data b))\<lparr>bsize := ?m, bdata := d\<rparr>"
    "rd 0 (blen (fb_of (buf_data b))) d = rd 0 (blen (fb_of (buf_data b))) (bdata (fb_of (buf_data b)))"
    using imported_view [OF assms(1-3)] by blast
  show "rep (fb_of (buf_data (imported n b t b'))) cs"
    using assms(4) v(2) m unfolding v(1) rep_def by simp
  show "int (fb_size (fb_of (buf_data (imported n b t b')))) = tm_size b'"
    using m(1) unfolding v(1) by (simp add: fb_size_def)
qed

lemma bufsize_fml:
  assumes "blocks s p = Some b" "type_of b = Some t" "tt_reinit t \<noteq> None" "bufsize p ilen s = (Inr n, s')"
  shows "n = int (names_size + fb_used (fb_of (buf_data b)))"
proof -
  have "tt_used t = Some fml32used"
    using type_of_table [OF assms(2)] assms(3) by (auto simp: tptypes_table_def)
  then show ?thesis
    using assms by (simp add: bufsize_def block_type_eq fml32used_def split: if_splits)
qed

text \<open>C21: a buffer survives the way from one process to another: what \<open>tpexport\<close> writes, as bytes or as
  base64 text, \<open>tpimport\<close> restores in any buffer of any type that is large enough, with the type,
  the subtype and every byte of the data (but for the size of the memory in a fielded buffer, which
  becomes that of the receiver); a fielded buffer keeps all its fields.
\<close>

theorem export_import:
  assumes "blocks s p = Some b" "type_of b = Some t"
    and "bufsize p ilen s = (Inr n, s)" "24 \<le> n" "n < 2 ^ 31" "n \<le> 24 + int (tm_room b)"
    and "flags = 0 \<and> n \<le> olen \<or> flags = TPEX_STRING \<and> chars_of n + 1 \<le> olen"
    and "cells s' c = Some q" "blocks s' q = Some b'"
    and "sizeof_tpmem + n + 2 \<le> tm_size b'" "tm_size b' \<le> int (tm_room b')" "tm_size b' < 2 ^ 32"
  shows "\<exists>m out l b2. tpexport (Some p) ilen True olen flags s = (Inr (0, m, out), put_err 0 s) \<and>
    tpimport al (Some (out @ rest)) (if flags = 0 then n else 0) (Some c) flags s' =
      (Inr (0, Some l), put_err 0 (put_block q b2 s')) \<and>
    buf_type b2 = buf_type b \<and> buf_subtype b2 = buf_subtype b \<and> type_of b2 = Some t \<and>
    (\<forall>i. int i + 24 < n \<longrightarrow> tt_reinit t = None \<or> 4 \<le> i \<longrightarrow> buf_data b2 i = buf_data b i) \<and>
    (\<forall>cs. tt_reinit t \<noteq> None \<longrightarrow> rep (fb_of (buf_data b)) cs \<longrightarrow>
       rep (fb_of (buf_data b2)) cs \<and> int (fb_size (fb_of (buf_data b2))) = tm_size b')"
proof -
  let ?xs = "rd 0 (nat n) (tm_body b)" and ?b2 = "imported (nat n) b t b'"
  have ty: "type_of (b'\<lparr>tm_body := wr 0 ?xs (tm_body b')\<rparr>) = Some t"
    using assms(2,4) by (subst type_of_cong [OF overlay_names(1,2) [OF _ refl]]) simp_all
  have out: "\<exists>m out l. tpexport (Some p) ilen True olen flags s = (Inr (0, m, out), put_err 0 s) \<and>
      tpimport al (Some (out @ rest)) (if flags = 0 then n else 0) (Some c) flags s' =
      (Inr (0, Some l), put_err 0 (put_block q ?b2 s'))"
  proof (cases "flags = 0")
    case True
    have "tpexport (Some p) ilen True olen 0 s = (Inr (0, n, ?xs), put_err 0 s)"
      using assms(4,6,7) True by (intro export_plain [OF assms(1,3)]) auto
    moreover have "tpimport al (Some (?xs @ rest)) (int (length ?xs)) (Some c) 0 s' =
        (Inr (0, Some (int (length ?xs))), put_err 0 (put_block q ?b2 s'))"
      unfolding imported_def using assms(4,10) ty
      by (intro import_plain [OF assms(8,9) _ assms(11)]) (auto simp flip: length_greater_0_conv)
    ultimately show ?thesis using True assms(4) by auto
  next
    case False
    have "tpexport (Some p) ilen True olen flags s = (Inr (0, chars_of n + 1, encode_blocks ?xs @ [0]), put_err 0 s)"
      using assms(4,5,6,7) False export_string [OF assms(1,3)] by auto
    moreover have "tpimport al (Some (encode_blocks ?xs @ 0 # rest)) 0 (Some c) flags s' =
        (Inr (0, Some (int (length (encode_blocks ?xs)))), put_err 0 (put_block q ?b2 s'))"
      unfolding imported_def using assms(4,10) ty
      by (intro import_string [OF assms(8,9) _ assms(11)]) auto
    ultimately show ?thesis using False by auto
  qed
  have nb: "names_size \<le> nat n" "type_of b = Some t" using assms(2,4) by simp_all
  note bytes = imported_bytes [OF nb refl, where b' = b']
  have fml: "rep (fb_of (buf_data ?b2)) cs \<and> int (fb_size (fb_of (buf_data ?b2))) = tm_size b'"
    if "tt_reinit t \<noteq> None" "rep (fb_of (buf_data b)) cs" for cs
  proof -
    have "nat n = names_size + fb_used (fb_of (buf_data b))"
      using bufsize_fml [OF assms(1,2) that(1) assms(3)] by linarith
    moreover have "int (nat n) + 16 \<le> tm_size b'" using assms(4,10) by linarith
    ultimately show ?thesis using imported_fields [OF assms(2) that(1) _ that(2)] assms(12) by blast
  qed
  have "buf_data ?b2 i = buf_data b i" if "int i + 24 < n" "tt_reinit t = None \<or> 4 \<le> i" for i
    using bytes(4) that by simp
  then show ?thesis using out bytes(1-3) fml by blast
qed

definition demo_string :: tpmem where
  "demo_string = \<lparr>tm_size = 512, tm_owner = None,
     tm_body = wr 0 [83, 84, 82, 73, 78, 71, 0, 0, 0, 0, 0, 0, 0, 0, 0, 0, 0, 0, 0, 0, 0, 0, 0, 0, 104, 105, 0] (\<lambda>_. 0), tm_room = 512\<rparr>"

definition demo_target :: tpmem where
  "demo_target = \<lparr>tm_size = 512, tm_owner = None, tm_body = (\<lambda>_. 7), tm_room = 512\<rparr>"

definition demo_atmi :: "tpmem \<Rightarrow> atmi" where
  "demo_atmi b = \<lparr>blocks = [1000 \<mapsto> b], cells = [8 \<mapsto> 1000], tperr = 0\<rparr>"

definition demo_alloc :: allocator where
  "demo_alloc = \<lparr>fresh_at = (\<lambda>_. 2000), moved_to = (\<lambda>p _. p), heap_junk = (\<lambda>_. 7)\<rparr>"

lemma wr_nth: "i < length xs \<Longrightarrow> wr 0 xs m i = xs ! i"
  by (simp add: wr_def)

lemma rd_wr_sub: "p + n \<le> length xs \<Longrightarrow> rd p n (wr 0 xs m) = take n (drop p xs)"
  by (rule nth_equalityI) (auto simp: wr_def)

lemma demo_string_type: "type_of demo_string = Some (tptypes_table ! 2)"
proof -
  have "buf_type demo_string = [83, 84, 82, 73, 78, 71, 0, 0]" "buf_subtype demo_string = replicate 16 0"
    by (simp_all add: buf_type_def buf_subtype_def demo_string_def rd_wr_sub numeral_eq_Suc)
  then show ?thesis
    by (simp add: type_of_def block_type_def typeptr_def tptypes_table_def strn_eq_def c_string_def)
qed

lemma demo_string_size: "bufsize 1000 0 (demo_atmi demo_string) = (Inr 27, demo_atmi demo_string)"
proof -
  have "search (\<lambda>c. c = 0) (rd 0 512 (buf_data demo_string)) = Some 2"
    by (auto simp: search_Some demo_string_def buf_data_def wr_def less_2_cases_iff)
  then show ?thesis
    using demo_string_type
    by (simp add: bufsize_def block_type_eq demo_atmi_def tptypes_table_def strused_def demo_string_def)
qed

theorem export_import_witness:
  "\<exists>m out l b2. tpexport (Some 1000) 0 True 100 TPEX_STRING (demo_atmi demo_string) =
       (Inr (0, m, out), put_err 0 (demo_atmi demo_string)) \<and>
     tpimport demo_alloc (Some (out @ [])) 0 (Some 8) TPEX_STRING (demo_atmi demo_target) =
       (Inr (0, Some l), put_err 0 (put_block 1000 b2 (demo_atmi demo_target))) \<and>
     buf_type b2 = buf_type demo_string \<and> buf_data b2 1 = 105"
proof -
  have sel: "blocks (demo_atmi b) 1000 = Some b" "cells (demo_atmi b) 8 = Some 1000"
    "tm_room demo_string = 512" "tm_size demo_target = 512" "tm_room demo_target = 512" for b
    by (simp_all add: demo_atmi_def demo_string_def demo_target_def)
  have c: "chars_of 27 + 1 \<le> 100" by (simp add: chars_of_small base64chars_def Let_def)
  have t: "tt_reinit (tptypes_table ! 2) = None" by (simp add: tptypes_table_def)
  have d: "buf_data demo_string 1 = 105" by (simp add: buf_data_def demo_string_def wr_def)
  obtain m out l b2 where
    "tpexport (Some 1000) 0 True 100 TPEX_STRING (demo_atmi demo_string) = (Inr (0, m, out), put_err 0 (demo_atmi demo_string))"
    "tpimport demo_alloc (Some (out @ [])) (if TPEX_STRING = 0 then 27 else 0) (Some 8) TPEX_STRING (demo_atmi demo_target) =
       (Inr (0, Some l), put_err 0 (put_block 1000 b2 (demo_atmi demo_target)))"
    "buf_type b2 = buf_type demo_string" "\<forall>i. int i + 24 < 27 \<longrightarrow> tt_reinit (tptypes_table ! 2) = None \<or> 4 \<le> i \<longrightarrow> buf_data b2 i = buf_data demo_string i"
    using export_import [OF sel(1) demo_string_type demo_string_size _ _ _ _ sel(2,1), of TPEX_STRING 100 demo_target demo_alloc "[]"] c
    by (fastforce simp: sel)
  moreover from this(4) t d have "buf_data b2 1 = 105" by simp
  ultimately show ?thesis by auto
qed

subsection \<open>The size a block forgets\<close>

lemma resized_simps [simp]:
  "tm_size (resized al n b) = tm_size b" "tm_owner (resized al n b) = tm_owner b" "tm_room (resized al n b) = nat n"
  by (simp_all add: resized_def)

lemma follow_owner_blocks [simp]: "blocks (follow_owner own p q s) = blocks s" "tperr (follow_owner own p q s) = tperr s"
  by (simp_all add: follow_owner_def split: option.split)

lemma wrap_negative: "- 4294967296 \<le> x \<Longrightarrow> x < 0 \<Longrightarrow> x mod 4294967296 = x + (4294967296 :: int)"
proof -
  assume "- 4294967296 \<le> x" "x < 0"
  then have "(x + 4294967296) mod 4294967296 = x + (4294967296 :: int)" by (intro mod_pos_pos_trivial) simp_all
  then show ?thesis by simp
qed

lemma grow_for_moves:
  assumes "cells s c = Some q" "blocks s q = Some b" "type_of b = Some t" "needed > tm_size b"
    and "br = opt_hook (tt_reinit t) (max needed (tt_default t)) (resized al (max needed (tt_default t)) b)"
  shows "\<exists>s2. grow_for al c needed s = (Inr (moved_to al q s), s2) \<and> cells s2 c = Some (moved_to al q s) \<and>
    blocks s2 = (blocks s)(q := None, moved_to al q s \<mapsto> br)"
proof -
  have m: "(if tt_default t \<le> needed then needed else tt_default t) = max needed (tt_default t)"
    by (simp add: max_def)
  show ?thesis
    using assms by (simp add: grow_for_def mem_tprealloc_def block_type_eq Let_def m)
qed

text \<open>\<open>tprealloc\<close> does not write the new size into the block. When a fielded buffer arrives in a buffer
  too small for it, \<open>tpimport\<close> makes room and copies every field, but then tells the fielded buffer the
  old size: its free space, the used bytes taken from it, wraps around to nearly \<open>2^32\<close>.
\<close>

theorem import_forgets_size:
  assumes "blocks s p = Some b" "type_of b = Some t" "tt_reinit t \<noteq> None" "rep (fb_of (buf_data b)) cs"
    and "bufsize p ilen s = (Inr n, s)" "n \<le> 24 + int (tm_room b)" "n \<le> olen"
    and "cells s' c = Some q" "blocks s' q = Some b'" "type_of b' = Some t'"
    and "40 \<le> tm_size b'" "tm_size b' < 40 + int (blen (fb_of (buf_data b)))"
  shows "\<exists>out l s2 q2 b2. tpexport (Some p) ilen True olen 0 s = (Inr (0, n, out), put_err 0 s) \<and>
    tpimport al (Some (out @ rest)) n (Some c) 0 s' = (Inr (0, Some l), s2) \<and>
    cells s2 c = Some q2 \<and> blocks s2 q2 = Some b2 \<and> n + 40 \<le> int (tm_room b2) \<and> tm_size b2 = tm_size b' \<and>
    rd 0 (blen (fb_of (buf_data b2))) (bdata (fb_of (buf_data b2))) = concat cs \<and>
    int (fb_unused (fb_of (buf_data b2))) = 2 ^ 32 - (int (length (concat cs)) + 40 - tm_size b')"
proof -
  let ?B = "fb_of (buf_data b)"
  have n: "n = int (names_size + fb_used ?B)" by (rule bufsize_fml [OF assms(1,2,3,5)])
  then have nn: "nat n = names_size + fb_used ?B" "0 < n" by linarith+
  define xs where "xs = rd 0 (nat n) (tm_body b)"
  have len: "int (length xs) = n" "xs \<noteq> []" using nn by (auto simp: xs_def simp flip: length_greater_0_conv)
  define sz where "sz = max (sizeof_tpmem + n) (tt_default t')"
  define br where "br = opt_hook (tt_reinit t') sz (resized al sz b')"
  define q2 where "q2 = moved_to al q (put_err 0 s')"
  have big: "tm_size b' < sizeof_tpmem + n" using assms(12) n by (simp add: fb_used_def)
  obtain s1 where g: "grow_for al c (sizeof_tpmem + n) (put_err 0 s') = (Inr q2, s1)" "cells s1 c = Some q2"
    "blocks s1 q2 = Some br"
    using grow_for_moves [of "put_err 0 s'" c q b' t' "sizeof_tpmem + n" br al] assms(8,9,10) big
    by (auto simp: br_def sz_def q2_def)
  have room: "n + 40 \<le> int (tm_room br)" "tm_size br = tm_size b'"
    using nn(2) by (auto simp: br_def sz_def max_def)
  have fits: "nat n \<le> names_size + tm_room br" using room(1) by linarith
  have nb: "names_size \<le> nat n" using nn(1) by simp
  have ty: "type_of (br\<lparr>tm_body := wr 0 xs (tm_body br)\<rparr>) = Some t"
    unfolding xs_def using assms(2) by (subst type_of_cong [OF overlay_names(1,2) [OF nb refl]])
  have exp: "tpexport (Some p) ilen True olen 0 s = (Inr (0, n, xs), put_err 0 s)"
    unfolding xs_def using assms(6,7) nn(2) by (intro export_plain [OF assms(1,5)]) auto
  have imp: "tpimport al (Some (xs @ rest)) n (Some c) 0 s' =
      (Inr (0, Some n), put_err 0 (put_block q2 (imported (nat n) b t br) s1))"
    using import_tail [OF g(3) _ ty, of n] g(1) assms(8) len fits nn(2) room
    by (simp add: tpimport_def exception_boundary_def mem_tpimport_def has_flag_def imported_def xs_def)
  obtain d where v: "fb_of (buf_data (imported (nat n) b t br)) =
      ?B\<lparr>bsize := u32 (int (u32 (tm_size br)) - int min_size), bdata := d\<rparr>"
    "rd 0 (blen ?B) d = rd 0 (blen ?B) (bdata ?B)"
    using imported_view [OF assms(2,3) nn(1)] by blast
  have cs: "rd 0 (blen ?B) (bdata ?B) = concat cs" "length (concat cs) = blen ?B" "bsize ?B + min_size < 2 ^ 32" "blen ?B \<le> bsize ?B"
    using assms(4) rep_blen [OF assms(4)] by (simp_all add: rep_def)
  have sz32: "int (u32 (int (u32 (tm_size br)) - int min_size)) = tm_size b' - 40"
    using room(2) assms(11,12) cs by (simp add: u32_def)
  have "int (fb_unused (fb_of (buf_data (imported (nat n) b t br)))) = 2 ^ 32 - (int (blen ?B) + 40 - tm_size b')"
    unfolding v(1) fb_unused_def using sz32 assms(11,12) cs by (simp add: u32_def wrap_negative)
  moreover have "tm_room (imported (nat n) b t br) = tm_room br" "tm_size (imported (nat n) b t br) = tm_size br"
    by (simp_all add: imported_def)
  moreover have "rd 0 (blen (fb_of (buf_data (imported (nat n) b t br)))) (bdata (fb_of (buf_data (imported (nat n) b t br)))) = concat cs"
    unfolding v(1) using v(2) cs(1) by simp
  ultimately show ?thesis
    using exp imp g(2) room cs(2) by (intro exI [of _ xs] exI) (auto simp: length_concat [symmetric] simp del: length_concat)
qed

lemma fb_of_into:
  assumes "rep b cs"
  shows "fb_of (fb_into b) = b"
proof -
  let ?h = "u32_bytes (bsize b) @ u32_bytes (blen b) @ header_bytes (boffs b) @ bpad b"
  note o = rep_offs_bound [OF assms]
  have l: "length (header_bytes (boffs b)) = 28" "length (bpad b) = 4" "bsize b < 2 ^ 32" "blen b < 2 ^ 32"
    using o(1) assms by (simp_all add: length_header_bytes rep_def del: upt_rec_numeral)
  have "rd 0 4 (fb_into b) = u32_bytes (bsize b)" "rd 4 4 (fb_into b) = u32_bytes (blen b)"
    "rd 8 28 (fb_into b) = header_bytes (boffs b)" "rd 36 4 (fb_into b) = bpad b"
    using l by (simp_all add: fb_into_def rd_wr_sub)
  moreover have "(\<lambda>i. fb_into b (min_size + i)) = bdata b"
    using l by (auto simp: fb_into_def wr_def)
  ultimately show ?thesis
    using l o by (simp add: fb_of_def u32_bytes_dec header_roundtrip)
qed

definition demo_fml :: tpmem where
  "demo_fml = put_data (fb_into demo) \<lparr>tm_size = 296, tm_owner = None,
     tm_body = wr 0 [70, 77, 76, 51, 50, 0, 0, 0, 0] (\<lambda>_. 0), tm_room = 296\<rparr>"

definition demo_small :: tpmem where
  "demo_small = \<lparr>tm_size = 80, tm_owner = None,
     tm_body = wr 0 [67, 65, 82, 82, 65, 89, 0, 0, 0] (\<lambda>_. 0), tm_room = 80\<rparr>"

lemma no_subtype: "tm_body b 8 = 0 \<Longrightarrow> c_string (buf_subtype b) = []"
  by (simp add: buf_subtype_def rd_def upt_conv_Cons c_string_def)

lemma demo_types:
  "type_of demo_fml = Some (tptypes_table ! 3)" "type_of demo_small = Some (tptypes_table ! 1)"
proof -
  have "buf_type demo_fml = [70, 77, 76, 51, 50, 0, 0, 0]" "c_string (buf_subtype demo_fml) = []"
    "buf_type demo_small = [67, 65, 82, 82, 65, 89, 0, 0]" "c_string (buf_subtype demo_small) = []"
    by (simp_all add: demo_fml_def demo_small_def no_subtype wr_nth) (simp_all add: buf_type_def rd_wr_sub)
  then show "type_of demo_fml = Some (tptypes_table ! 3)" "type_of demo_small = Some (tptypes_table ! 1)"
    by (simp_all add: type_of_def block_type_def typeptr_def tptypes_table_def strn_eq_def)
      (simp_all add: c_string_def)
qed

lemma demo_fml_data: "fb_of (buf_data demo_fml) = demo" "blen demo = 48"
  using fb_of_into [OF rep_demo] rep_blen [OF rep_demo]
  by (simp_all add: demo_fml_def) (simp add: demo_chunks_def)

lemma demo_fml_size: "bufsize 1000 0 (demo_atmi demo_fml) = (Inr 112, demo_atmi demo_fml)"
  using demo_types(1) demo_fml_data
  by (simp add: bufsize_def block_type_eq demo_atmi_def tptypes_table_def fml32used_def fb_used_def)
    (simp add: demo_fml_def)

theorem import_forgets_size_witness:
  "\<exists>out l s2 q2 b2. tpexport (Some 1000) 0 True 112 0 (demo_atmi demo_fml) = (Inr (0, 112, out), put_err 0 (demo_atmi demo_fml)) \<and>
    tpimport demo_alloc (Some (out @ [])) 112 (Some 8) 0 (demo_atmi demo_small) = (Inr (0, Some l), s2) \<and>
    cells s2 8 = Some q2 \<and> blocks s2 q2 = Some b2 \<and> fb_unused (fb_of (buf_data b2)) = 4294967288"
proof -
  have sel: "blocks (demo_atmi b) 1000 = Some b" "cells (demo_atmi b) 8 = Some 1000"
    "tm_room demo_fml = 296" "tm_size demo_small = 80" for b
    by (simp_all add: demo_atmi_def demo_fml_def demo_small_def)
  have t: "tt_reinit (tptypes_table ! 3) \<noteq> None" by (simp add: tptypes_table_def)
  have r: "rep (fb_of (buf_data demo_fml)) demo_chunks" "length (concat demo_chunks) = 48"
    using rep_demo rep_blen [OF rep_demo] demo_fml_data by simp_all
  show ?thesis
    using import_forgets_size [OF sel(1) demo_types(1) t r(1) demo_fml_size _ _ sel(2,1) demo_types(2), of 112 demo_alloc "[]"]
    unfolding sel demo_fml_data r(2) by fastforce
qed

text \<open>the old size also makes \<open>tpimport\<close> trust memory that is gone: after \<open>tprealloc\<close> has made a buffer
  smaller, data that fits the former size is copied past the end of the block.
\<close>

theorem shrunk_import_overflows:
  assumes "blocks s p = Some b" "type_of b = Some t" "tt_default t \<le> sz"
    and "sizeof_tpmem + int (length xs) \<le> tm_size b" "nat sz + names_size < length xs"
  shows "\<exists>q s1. tprealloc al (Some p) sz s = (Inr (Some q), s1) \<and>
    fst (tpimport al (Some (xs @ rest)) (int (length xs)) (Some c) 0 (s1\<lparr>cells := (cells s1)(c \<mapsto> q)\<rparr>)) = Inl Undefined"
proof -
  define q where "q = moved_to al p (put_err 0 s)"
  define br where "br = opt_hook (tt_reinit t) sz (resized al sz b)"
  have sz: "(if tt_default t \<le> sz then sz else tt_default t) = sz" using assms(3) by simp
  obtain s1 where r: "tprealloc al (Some p) sz s = (Inr (Some q), s1)" "blocks s1 q = Some br"
    using assms(1,2) by (simp add: tprealloc_def exception_boundary_def mem_tprealloc_def block_type_eq Let_def sz q_def br_def)
  let ?s = "s1\<lparr>cells := (cells s1)(c \<mapsto> q)\<rparr>"
  have b: "blocks ?s q = Some br" "cells ?s c = Some q" "tm_size br = tm_size b" "tm_room br = nat sz"
    using r(2) by (simp_all add: br_def)
  have "grow_for al c (sizeof_tpmem + int (length xs)) (put_err 0 ?s) = (Inr q, put_err 0 ?s)"
    using b assms(4) by (intro grow_for_fits [where b = br]) (simp_all add: put_err_def)
  moreover have "fst (write_body q xs (put_err 0 ?s)) = Inl Undefined"
    using b assms(5) by (simp add: write_body_def put_err_def)
  ultimately have "fst (tpimport al (Some (xs @ rest)) (int (length xs)) (Some c) 0 ?s) = Inl Undefined"
    using b(2) assms(5)
    by (auto simp: tpimport_def exception_boundary_def mem_tpimport_def has_flag_def seqx_def put_err_def
        split: prod.splits sum.splits)
  then show ?thesis using r(1) by blast
qed

theorem shrunk_import_overflows_witness:
  "\<exists>q s1. tprealloc demo_alloc (Some 1000) 8 (demo_atmi demo_small) = (Inr (Some q), s1) \<and>
    fst (tpimport demo_alloc (Some (replicate 36 7 @ [])) (int (length (replicate 36 (7 :: byte)))) (Some 8) 0
      (s1\<lparr>cells := (cells s1)(8 \<mapsto> q)\<rparr>)) = Inl Undefined"
proof (rule shrunk_import_overflows)
  show "blocks (demo_atmi demo_small) 1000 = Some demo_small" by (simp add: demo_atmi_def)
  show "type_of demo_small = Some (tptypes_table ! 1)" by (rule demo_types(2))
qed (simp_all add: tptypes_table_def demo_small_def)

subsection \<open>Owner variables\<close>

text \<open>
  A buffer may know the variable that holds it (\<open>setowner\<close>: the request buffer of a server thread).
  \<open>owners_ok\<close>: such a variable is null or holds a live buffer that it owns. There are finitely many
  blocks, so that \<open>malloc\<close> can find an unused address.
\<close>

definition owns :: "atmi \<Rightarrow> nat \<Rightarrow> nat \<Rightarrow> bool" where
  "owns s a p \<longleftrightarrow> (\<exists>b. blocks s p = Some b \<and> tm_owner b = Some a)"

definition owners_ok :: "atmi \<Rightarrow> bool" where
  "owners_ok s \<longleftrightarrow> finite (dom (blocks s)) \<and> (\<forall>a p. owns s a p \<longrightarrow> (case cells s a of None \<Rightarrow> True | Some q \<Rightarrow> owns s a q))"

definition allocator_ok :: "allocator \<Rightarrow> bool" where
  "allocator_ok al \<longleftrightarrow> (\<forall>s. finite (dom (blocks s)) \<longrightarrow> blocks s (fresh_at al s) = None) \<and>
     (\<forall>p s. finite (dom (blocks s)) \<longrightarrow> moved_to al p s = p \<or> blocks s (moved_to al p s) = None)"

text \<open>
  What happens to buffers: the calls of src/mem.cpp that return, making a variable the owner of the
  buffer it holds, and assignments to variables that own nothing.
\<close>

inductive mem_step :: "allocator \<Rightarrow> atmi \<Rightarrow> atmi \<Rightarrow> bool" for al where
  Alloc: "tpalloc al type subtype sz s = (Inr r, s') \<Longrightarrow> mem_step al s s'"
| Realloc: "tprealloc al ptr sz s = (Inr r, s') \<Longrightarrow> mem_step al s s'"
| Free: "tpfree ptr s = (Inr (), s') \<Longrightarrow> mem_step al s s'"
| Import: "tpimport al istr ilen obuf flags s = (Inr r, s') \<Longrightarrow> mem_step al s s'"
| Own: "blocks s p = Some b \<Longrightarrow> tm_owner b = None \<Longrightarrow> cells s a = Some p \<Longrightarrow> setowner p (Some a) s = (Inr (), s') \<Longrightarrow>
    mem_step al s s'"
| Assign: "(\<forall>p. \<not> owns s a p) \<Longrightarrow> mem_step al s (s\<lparr>cells := (cells s)(a := r)\<rparr>)"

inductive mem_reaches :: "allocator \<Rightarrow> atmi \<Rightarrow> atmi \<Rightarrow> bool" for al where
  Start: "mem_reaches al s s"
| Step: "mem_reaches al s s' \<Longrightarrow> mem_step al s' s'' \<Longrightarrow> mem_reaches al s s''"

lemma owns_put_err [simp]: "owns (put_err e s) = owns s"
  by (simp add: owns_def fun_eq_iff)

lemma owns_cells [simp]: "owns (s\<lparr>cells := f\<rparr>) = owns s"
  by (simp add: owns_def fun_eq_iff)

lemma owners_ok_put_err [simp]: "owners_ok (put_err e s) = owners_ok s"
  by (simp add: owners_ok_def cong: option.case_cong)

lemma owns_same:
  assumes "blocks s p = Some b" "tm_owner b' = tm_owner b"
  shows "owns (put_block p b' s) = owns s"
  using assms by (auto simp: owns_def fun_eq_iff)

lemma owners_ok_same:
  assumes "blocks s p = Some b" "tm_owner b' = tm_owner b"
  shows "owners_ok (put_block p b' s) = owners_ok s"
  by (simp add: owners_ok_def owns_same [OF assms] cong: option.case_cong)

lemma follow_cells: "cells (follow_owner own p q s) a = (if own = Some a \<and> cells s a = Some p then q else cells s a)"
  by (auto simp: follow_owner_def split: option.split)

text \<open>Reallocation moves the ownership with the block; freeing ends it.\<close>

lemma owners_ok_moved:
  assumes "owners_ok s" "blocks s p = Some b" "tm_owner b' = tm_owner b" "q = p \<or> blocks s q = None"
    and "blocks s' = (blocks s)(p := None, q \<mapsto> b')"
    and "\<forall>a. cells s' a = (if tm_owner b = Some a \<and> cells s a = Some p then Some q else cells s a)"
  shows "owners_ok s'"
  unfolding owners_ok_def
proof (intro conjI allI impI)
  show "finite (dom (blocks s'))" using assms(1,5) by (simp add: owners_ok_def)
next
  fix a r assume "owns s' a r"
  then obtain r0 where r0: "owns s a r0"
    using assms(2,3,5) by (auto simp: owns_def split: if_splits)
  have new: "owns s' a (if x = p then q else x)" if "owns s a x" for x
    using that assms(2-5) by (auto simp: owns_def)
  show "case cells s' a of None \<Rightarrow> True | Some x \<Rightarrow> owns s' a x"
  proof (cases "cells s a")
    case None
    then show ?thesis using assms(6) by simp
  next
    case (Some x)
    then have "owns s a x" using assms(1) r0 by (force simp: owners_ok_def)
    then show ?thesis using new [of x] Some assms(2,6) by (auto simp: owns_def split: if_splits)
  qed
qed

lemma owners_ok_freed:
  assumes "owners_ok s" "blocks s p = Some b"
  shows "owners_ok ((follow_owner (tm_owner b) p None s)\<lparr>blocks := (blocks s)(p := None)\<rparr>)" (is "owners_ok ?s")
  unfolding owners_ok_def
proof (intro conjI allI impI)
  show "finite (dom (blocks ?s))" using assms(1) by (simp add: owners_ok_def)
next
  fix a r assume "owns ?s a r"
  then have r: "owns s a r" by (auto simp: owns_def split: if_splits)
  show "case cells ?s a of None \<Rightarrow> True | Some x \<Rightarrow> owns ?s a x"
  proof (cases "cells s a")
    case None
    then show ?thesis by (simp add: follow_cells)
  next
    case (Some x)
    then have "owns s a x" using assms(1) r by (force simp: owners_ok_def)
    then show ?thesis using Some assms(2) by (auto simp: owns_def follow_cells)
  qed
qed

lemma boundary_Inr:
  "exception_boundary put_err f r s = (Inr a, s') \<Longrightarrow>
     \<exists>x s1. f (put_err 0 s) = (x, s1) \<and> (s' = s1 \<and> x = Inr a \<or> s' = put_err (-1) s1 \<and> (\<exists>e. x = Inl (Throw e)))"
  by (auto simp: exception_boundary_def split: prod.splits sum.splits stop.splits)

lemma boundary_owners:
  assumes "exception_boundary put_err f r s = (Inr a, s')" "owners_ok s"
    and "\<And>x s1. f (put_err 0 s) = (x, s1) \<Longrightarrow> x \<noteq> Inl Undefined \<Longrightarrow> owners_ok s1"
  shows "owners_ok s'"
  using boundary_Inr [OF assms(1)] assms(3) by auto

lemma alloc_owners:
  assumes "allocator_ok al" "owners_ok s" "mem_tpalloc al type subtype sz s = (x, s')"
  shows "owners_ok s'"
proof -
  have new: "owners_ok (put_block q b s)" if "blocks s q = None" "tm_owner b = None" "owners_ok s" for q b s
    using that by (fastforce simp: owners_ok_def owns_def split: option.splits)
  have "blocks s (fresh_at al s) = None" if "owners_ok s" for s
    using assms(1) that by (simp add: allocator_ok_def owners_ok_def)
  then show ?thesis
    using assms(2,3)
    by (auto simp: mem_tpalloc_def typeptr_def Let_def intro!: new split: option.splits prod.splits)
qed

lemma realloc_owners:
  assumes "allocator_ok al" "owners_ok s" "mem_tprealloc al ptr sz s = (x, s')"
  shows "owners_ok s'"
proof (cases "\<exists>p b t. ptr = Some p \<and> blocks s p = Some b \<and> type_of b = Some t")
  case True
  then obtain p b t where p: "ptr = Some p" "blocks s p = Some b" "type_of b = Some t" by blast
  let ?n = "if tt_default t \<le> sz then sz else tt_default t" and ?q = "moved_to al p s"
  have s': "s' = put_err 0 (follow_owner (tm_owner b) p (Some ?q)
      (s\<lparr>blocks := (blocks s)(p := None, ?q \<mapsto> opt_hook (tt_reinit t) ?n (resized al ?n b))\<rparr>))"
    using assms(3) p by (simp add: mem_tprealloc_def block_type_eq Let_def split: if_splits)
  show ?thesis
    unfolding s' owners_ok_put_err
    by (rule owners_ok_moved [OF assms(2) p(2), where q = ?q and b' = "opt_hook (tt_reinit t) ?n (resized al ?n b)"])
      (use assms(1,2) in \<open>auto simp: allocator_ok_def owners_ok_def follow_cells\<close>)
next
  case False
  then show ?thesis
    using assms(2,3) by (auto simp: mem_tprealloc_def block_type_eq split: option.splits)
qed

lemma free_owners:
  assumes "owners_ok s" "mem_tpfree ptr s = (x, s')"
  shows "owners_ok s'"
  using assms owners_ok_freed [OF assms(1)]
  by (auto simp: mem_tpfree_def block_type_eq Let_def split: option.splits)

text \<open>An import reallocates the buffer of a variable that then follows, whoever owns the buffer.\<close>

lemma grow_owners:
  assumes "allocator_ok al" "owners_ok s" "grow_for al c needed s = (Inr q, s')"
  shows "owners_ok s'"
proof (cases "\<exists>p b. cells s c = Some p \<and> blocks s p = Some b \<and> needed > tm_size b")
  case False
  then show ?thesis using assms(2,3) by (auto simp: grow_for_def split: option.splits if_splits)
next
  case True
  then obtain p b where p: "cells s c = Some p" "blocks s p = Some b" "needed > tm_size b" by blast
  then obtain s1 where s1: "mem_tprealloc al (Some p) needed s = (Inr (Some q), s1)" "s' = s1\<lparr>cells := (cells s1)(c \<mapsto> q)\<rparr>"
    using assms(3) by (auto simp: grow_for_def seqx_def Let_def split: prod.splits sum.splits option.splits)
  then obtain t where t: "type_of b = Some t" "q = moved_to al p s"
    using p(2) by (auto simp: mem_tprealloc_def block_type_eq Let_def split: option.splits)
  let ?n = "if tt_default t \<le> needed then needed else tt_default t"
  let ?b = "opt_hook (tt_reinit t) ?n (resized al ?n b)"
  have new: "blocks s1 = (blocks s)(p := None, q \<mapsto> ?b)"
    "\<forall>a. cells s1 a = (if tm_owner b = Some a \<and> cells s a = Some p then Some q else cells s a)"
    using s1(1) p(2) t by (auto simp: mem_tprealloc_def block_type_eq Let_def follow_cells split: if_splits)
  have "owners_ok s1" by (rule realloc_owners [OF assms(1,2) s1(1)])
  moreover have "owns s1 c q" if "owns s1 c r" for r
  proof -
    have "owns s c p \<or> owns s c r"
      using that new(1) p(2) by (simp add: owns_def split: if_splits)
    then have "owns s c p" using assms(2) p(1) by (force simp: owners_ok_def)
    then show ?thesis using new(1) p(2) by (auto simp: owns_def)
  qed
  ultimately show ?thesis
    unfolding s1(2) by (auto simp: owners_ok_def cong: option.case_cong)
qed

lemma import_tail_owners:
  assumes "owners_ok s" "seqx (write_body p xs s) f = (x, s')" "\<And>s1. owners_ok s1 \<Longrightarrow> f () s1 = (x, s') \<Longrightarrow> owners_ok s'"
  shows "owners_ok s'"
proof (cases "write_body p xs s")
  case (Pair r s1)
  have "owners_ok s1" using Pair assms(1) by (auto simp: write_body_def owners_ok_same split: option.splits if_splits)
  then show ?thesis using assms(2,3) Pair by (cases r) auto
qed

lemma reinit_owners: "owners_ok s \<Longrightarrow> reinit_import p l s = (x, s') \<Longrightarrow> owners_ok s'"
  by (auto simp: reinit_import_def block_type_eq owners_ok_same split: option.splits)

lemma grow_for_stop: "grow_for al c needed s = (Inl y, s') \<Longrightarrow> y = Undefined"
  by (auto simp: grow_for_def mem_tprealloc_def block_type_eq seqx_def Let_def
      split: option.splits prod.splits sum.splits if_splits)

lemma grow_then_owners:
  assumes "allocator_ok al" "owners_ok s" "seqx (grow_for al c needed s) f = (x, s')" "x \<noteq> Inl Undefined"
    and "\<And>p s1. owners_ok s1 \<Longrightarrow> f p s1 = (x, s') \<Longrightarrow> owners_ok s'"
  shows "owners_ok s'"
proof (cases "grow_for al c needed s")
  case (Pair r s1)
  then show ?thesis
    using assms grow_for_stop [of al c needed s _ s1] grow_owners [OF assms(1,2), of c needed _ s1] by (cases r) auto
qed

lemma import_owners:
  assumes "allocator_ok al" "owners_ok s" "mem_tpimport al istr ilen obuf flags s = (x, s')" "x \<noteq> Inl Undefined"
  shows "owners_ok s'"
proof (cases "\<exists>inp c. istr = Some inp \<and> obuf = Some c \<and> cells s c \<noteq> None")
  case False
  then show ?thesis using assms(2,3) by (auto simp: mem_tpimport_def split: option.splits)
next
  case True
  then obtain inp c where ic: "istr = Some inp" "obuf = Some c" "cells s c \<noteq> None" by blast
  show ?thesis
  proof (cases "ilen = 0 \<or> has_flag flags TPEX_STRING")
    case True
    let ?str = "c_string inp"
    have run: "seqx (grow_for al c (sizeof_tpmem + int (length ?str div 4 * 3)) s) (\<lambda>p s.
        case decode_blocks 0 ?str of (out, err) \<Rightarrow> seqx (write_body p out s) (\<lambda>_ s.
          case base64decode ?str (length ?str) of Inl e \<Rightarrow> (Inl (Throw e), s)
            | Inr _ \<Rightarrow> reinit_import p (int (length ?str)) s)) = (x, s') \<or> s' = put_err TPEPROTO s"
      using assms(3,4) ic True by (auto simp: mem_tpimport_def Let_def split: if_splits)
    then show ?thesis
    proof (rule disjE)
      assume "s' = put_err TPEPROTO s"
      then show ?thesis using assms(2) by simp
    next
      assume r: "seqx (grow_for al c (sizeof_tpmem + int (length ?str div 4 * 3)) s) (\<lambda>p s.
        case decode_blocks 0 ?str of (out, err) \<Rightarrow> seqx (write_body p out s) (\<lambda>_ s.
          case base64decode ?str (length ?str) of Inl e \<Rightarrow> (Inl (Throw e), s)
            | Inr _ \<Rightarrow> reinit_import p (int (length ?str)) s)) = (x, s')"
      show ?thesis
      proof (rule grow_then_owners [OF assms(1,2) r assms(4)])
        fix p s1
        assume o: "owners_ok s1"
        assume w: "(case decode_blocks 0 ?str of (out, err) \<Rightarrow> seqx (write_body p out s1) (\<lambda>_ s.
          case base64decode ?str (length ?str) of Inl e \<Rightarrow> (Inl (Throw e), s)
            | Inr _ \<Rightarrow> reinit_import p (int (length ?str)) s)) = (x, s')"
        show "owners_ok s'"
          by (rule import_tail_owners [OF o w [unfolded split_beta]]) (auto dest: reinit_owners split: sum.splits)
      qed
    qed
  next
    case False
    then have r: "seqx (grow_for al c (sizeof_tpmem + ilen) s) (\<lambda>p s.
        if nat ilen > length inp then (Inl Undefined, s)
        else seqx (write_body p (take (nat ilen) inp) s) (\<lambda>_ s. reinit_import p ilen s)) = (x, s')"
      using assms(3) ic by (simp add: mem_tpimport_def)
    show ?thesis
    proof (rule grow_then_owners [OF assms(1,2) r assms(4)])
      fix p s1
      assume o: "owners_ok s1"
      assume w: "(if nat ilen > length inp then (Inl Undefined, s1)
        else seqx (write_body p (take (nat ilen) inp) s1) (\<lambda>_ s. reinit_import p ilen s)) = (x, s')"
      show "owners_ok s'"
      proof (cases "nat ilen > length inp")
        case False
        with w have w': "seqx (write_body p (take (nat ilen) inp) s1) (\<lambda>_ s. reinit_import p ilen s) = (x, s')" by simp
        show ?thesis by (rule import_tail_owners [OF o w']) (rule reinit_owners)
      qed (use w o in simp)
    qed
  qed
qed

lemma step_owners:
  assumes "mem_step al s s'" "allocator_ok al" "owners_ok s"
  shows "owners_ok s'"
  using assms(1)
proof cases
  case (Alloc type subtype sz r)
  then show ?thesis
    using boundary_owners [OF Alloc(1)[unfolded tpalloc_def] assms(3)] alloc_owners [OF assms(2), of "put_err 0 s"] assms(3) by auto
next
  case (Realloc ptr sz r)
  then show ?thesis
    using boundary_owners [OF Realloc(1)[unfolded tprealloc_def] assms(3)] realloc_owners [OF assms(2), of "put_err 0 s"] assms(3) by auto
next
  case (Free ptr)
  then show ?thesis
    using boundary_owners [OF Free(1)[unfolded tpfree_def] assms(3)] free_owners [of "put_err 0 s"] assms(3) by auto
next
  case (Import istr ilen obuf flags r)
  then show ?thesis
    using boundary_owners [OF Import(1)[unfolded tpimport_def] assms(3)] import_owners [OF assms(2), of "put_err 0 s"] assms(3) by auto
next
  case (Own p b a)
  have s': "s' = put_block p (b\<lparr>tm_owner := Some a\<rparr>) s" using Own by (simp add: setowner_def)
  show ?thesis
    unfolding owners_ok_def
  proof (intro conjI allI impI)
    show "finite (dom (blocks s'))" using assms(3) by (simp add: owners_ok_def s')
  next
    fix a' r assume "owns s' a' r"
    then have "a' = a \<or> owns s a' r" by (auto simp: s' owns_def split: if_splits)
    moreover have "owns s' a' q" if "owns s a' q" for q using that Own(1,2) by (auto simp: s' owns_def)
    moreover have "owns s' a p" by (simp add: s' owns_def)
    ultimately show "case cells s' a' of None \<Rightarrow> True | Some q \<Rightarrow> owns s' a' q"
      using assms(3) Own(3) by (force simp: owners_ok_def s' split: option.splits)
  qed
next
  case (Assign a r)
  then show ?thesis using assms(3) by (auto simp: owners_ok_def cong: option.case_cong)
qed

lemma reaches_owners: "mem_reaches al s s' \<Longrightarrow> allocator_ok al \<Longrightarrow> owners_ok s \<Longrightarrow> owners_ok s'"
  by (induction rule: mem_reaches.induct) (auto intro: step_owners)

text \<open>C27: the owner variable of a buffer never dangles: whatever sequence of allocations, reallocations,
  frees and imports a process makes, a variable that was made the owner of a buffer is null or holds
  the address of a live buffer that it owns. \<open>malloc\<close> and \<open>realloc\<close> return unused addresses.
\<close>

theorem owner_never_dangles:
  assumes "allocator_ok al" "\<forall>p. blocks s p = None" "mem_reaches al s s'"
    and "blocks s' p = Some b" "tm_owner b = Some a" "cells s' a = Some q"
  shows "\<exists>b'. blocks s' q = Some b' \<and> tm_owner b' = Some a"
proof -
  have "owners_ok s" using assms(2) by (simp add: owners_ok_def owns_def dom_def)
  then have "owners_ok s'" by (rule reaches_owners [OF assms(3,1)])
  then show ?thesis using assms(4-6) by (force simp: owners_ok_def owns_def)
qed

definition next_alloc :: allocator where
  "next_alloc = \<lparr>fresh_at = (\<lambda>s. Suc (Max (insert 0 (dom (blocks s))))),
     moved_to = (\<lambda>_ s. Suc (Max (insert 0 (dom (blocks s))))), heap_junk = (\<lambda>_. 0)\<rparr>"

lemma next_alloc_ok: "allocator_ok next_alloc"
proof -
  have "blocks s (Suc (Max (insert 0 (dom (blocks s))))) = None" if "finite (dom (blocks s))" for s
  proof (rule ccontr)
    assume "blocks s (Suc (Max (insert 0 (dom (blocks s))))) \<noteq> None"
    then have "Suc (Max (insert 0 (dom (blocks s)))) \<in> insert 0 (dom (blocks s))" by auto
    with that have "Suc (Max (insert 0 (dom (blocks s)))) \<le> Max (insert 0 (dom (blocks s)))"
      by (intro Max_ge) simp_all
    then show False by simp
  qed
  then show ?thesis by (auto simp: allocator_ok_def next_alloc_def)
qed

text \<open>Allocate, keep the buffer in the variable 8, make that its owner, reallocate.\<close>

lemma carray_table: "find (\<lambda>t. strn_eq 8 (tt_type t) [67, 65, 82, 82, 65, 89]) tptypes_table = Some (tptypes_table ! 1)"
  by (simp add: tptypes_table_def strn_eq_def c_string_def)

definition no_buffers :: atmi where
  "no_buffers = \<lparr>blocks = (\<lambda>_. None), cells = (\<lambda>_. None), tperr = 0\<rparr>"

definition one_carray :: tpmem where
  "one_carray = \<lparr>tm_size = 4, tm_owner = None, tm_body = wr 0 [67, 65, 82, 82, 65, 89, 0, 0, 0] (\<lambda>_. 0), tm_room = 4\<rparr>"

lemma one_carray_type: "type_of (one_carray\<lparr>tm_owner := a\<rparr>) = Some (tptypes_table ! 1)"
proof -
  have "type_of (one_carray\<lparr>tm_owner := a\<rparr>) = type_of demo_small"
    by (rule type_of_cong) (simp_all add: one_carray_def demo_small_def buf_type_def buf_subtype_def)
  then show ?thesis by (simp add: demo_types(2))
qed

lemma owner_run:
  "\<exists>s' b. mem_reaches next_alloc no_buffers s' \<and> blocks s' 2 = Some b \<and> tm_owner b = Some 8 \<and> cells s' 8 = Some 2"
proof -
  let ?t = "tptypes_table ! 1"
  have t: "tt_default ?t = 0" "tt_init ?t = None" "tt_reinit ?t = None" by (simp_all add: tptypes_table_def)
  have dom: "dom (blocks (put_err e no_buffers)) = {}" "dom (blocks no_buffers) = {}" for e by (simp_all add: no_buffers_def)
  define s1 where "s1 = put_block 1 one_carray no_buffers"
  have "strncpy 8 [67, 65, 82, 82, 65, 89] = [67, 65, 82, 82, 65, 89, 0, 0]"
    by (simp add: strncpy_def c_string_def) (simp add: numeral_2_eq_2)
  then have "tpalloc next_alloc (Some [67, 65, 82, 82, 65, 89]) None 4 no_buffers = (Inr (Some 1), put_err 0 s1)"
    using carray_table t dom
    by (simp add: tpalloc_def exception_boundary_def mem_tpalloc_def typeptr_def next_alloc_def s1_def one_carray_def opt_hook_def Let_def)
  then have r1: "mem_reaches next_alloc no_buffers (put_err 0 s1)" by (intro Step [OF Start] Alloc)
  define s2 where "s2 = (put_err 0 s1)\<lparr>cells := (cells (put_err 0 s1))(8 \<mapsto> 1)\<rparr>"
  have "\<not> owns (put_err 0 s1) 8 p" for p by (simp add: owns_def s1_def no_buffers_def one_carray_def)
  then have r2: "mem_reaches next_alloc no_buffers s2" unfolding s2_def by (intro Step [OF r1] Assign) simp
  define s3 where "s3 = put_block 1 (one_carray\<lparr>tm_owner := Some 8\<rparr>) s2"
  have b2: "blocks s2 1 = Some one_carray" "cells s2 8 = Some 1" by (simp_all add: s2_def s1_def)
  have r3: "mem_reaches next_alloc no_buffers s3"
    by (rule Step [OF r2], rule Own [OF b2(1) _ b2(2)])
      (simp add: one_carray_def, simp add: setowner_def b2(1) [simplified] s3_def)
  let ?b = "one_carray\<lparr>tm_owner := Some 8\<rparr>"
  have b3: "blocks s3 1 = Some ?b" "cells s3 8 = Some 1" "dom (blocks s3) = {1}"
    using b2 by (auto simp: s3_def s2_def s1_def no_buffers_def)
  have q: "moved_to next_alloc 1 (put_err 0 s3) = 2" using b3(3) by (simp add: next_alloc_def)
  obtain s4 where "tprealloc next_alloc (Some 1) 100 s3 = (Inr (Some 2), s4)"
    "blocks s4 2 = Some (resized next_alloc 100 ?b)" "cells s4 8 = Some 2"
    using b3 q one_carray_type [of "Some 8"] t
    by (simp add: tprealloc_def exception_boundary_def mem_tprealloc_def block_type_eq opt_hook_def follow_cells Let_def)
  then show ?thesis using Step [OF r3 Realloc] by (intro exI [of _ s4]) auto
qed

theorem owner_never_dangles_witness:
  "\<exists>s' b b'. mem_reaches next_alloc no_buffers s' \<and> blocks s' 2 = Some b \<and> tm_owner b = Some 8 \<and>
     cells s' 8 = Some 2 \<and> blocks s' 2 = Some b' \<and> tm_owner b' = Some 8"
proof -
  obtain s' b where r: "mem_reaches next_alloc no_buffers s'" "blocks s' 2 = Some b" "tm_owner b = Some 8" "cells s' 8 = Some 2"
    using owner_run by blast
  moreover have "\<forall>p. blocks no_buffers p = None" by (simp add: no_buffers_def)
  ultimately show ?thesis using owner_never_dangles [OF next_alloc_ok _ r] by blast
qed

subsection \<open>The size of an array of bytes\<close>

text \<open>without a length, the size of a buffer that has no way to tell is taken from the block, but the
  header is subtracted where it should be added: of a \<open>CARRAY\<close> of \<open>sz\<close> bytes, \<open>tpexport\<close> with length -1
  leaves out the last 40, and fails for good when \<open>sz\<close> is 15.
\<close>

theorem carray_cut_short:
  assumes "blocks s p = Some b" "type_of b = Some t" "tt_used t = None" "tm_size b = int (tm_room b)" "16 \<le> tm_room b"
    and "tm_size b \<le> olen"
  shows "tpexport (Some p) (-1) True olen 0 s =
    (Inr (0, tm_size b - 16, rd 0 (tm_room b - 16) (tm_body b)), put_err 0 s)"
proof -
  have "bufsize p (-1) s = (Inr (tm_size b - 16), s)"
    using assms by (simp add: bufsize_def block_type_eq)
  moreover have "nat (tm_size b - 16) = tm_room b - 16" using assms(4,5) by simp
  ultimately show ?thesis
    using export_plain [OF assms(1), of "-1" "tm_size b - 16" s olen] assms(4-6) by simp
qed

theorem carray_cut_short_witness:
  "tpexport (Some 1000) (-1) True 80 0 (demo_atmi demo_small) =
    (Inr (0, tm_size demo_small - 16, rd 0 (tm_room demo_small - 16) (tm_body demo_small)), put_err 0 (demo_atmi demo_small))"
  by (rule carray_cut_short [OF _ demo_types(2)]) (simp_all add: demo_atmi_def demo_small_def tptypes_table_def)

end
