(* ===== verification/Client_Props.thy ===== *)
theory Client_Props
  imports Client Ipc_Props Mem_Props
begin

text \<open>
  What the calls of src/client.cpp guarantee, over any transport that is a queue of messages (the
  locale \<open>message_queues\<close>) and on the kernel it is interpreted on.
\<close>

subsection \<open>The table of calls\<close>

lemma put_call_lookup [simp]: "RBT.lookup (calls (put_call cd r c)) = (RBT.lookup (calls c))(cd \<mapsto> r)"
  by (simp add: put_call_def)

lemma buffer_reply_lookup [simp]:
  "RBT.lookup (calls (buffer_reply m c)) = (RBT.lookup (calls c))(m_cd m \<mapsto> \<lparr>rs_status = resp_buffered, rs_res = Some m\<rparr>)"
  by (simp add: buffer_reply_def)

lemma release_lookup: "RBT.lookup (calls (snd (release cd c))) = (RBT.lookup (calls c))(cd := None)"
  by (auto simp: release_def)

lemma release_fst: "fst (release cd c) = check cd c"
  by (simp add: release_def check_def)

lemma any_buffered_cases:
  assumes "any_buffered c = i" "\<forall>cd. RBT.lookup (calls c) cd \<noteq> None \<longrightarrow> cd \<noteq> -1"
  shows "i = -1 \<longleftrightarrow> (\<forall>cd r. RBT.lookup (calls c) cd = Some r \<longrightarrow> rs_status r \<noteq> resp_buffered)"
    and "i \<noteq> -1 \<Longrightarrow> \<exists>r. RBT.lookup (calls c) i = Some r \<and> rs_status r = resp_buffered"
proof -
  let ?f = "find (\<lambda>(cd, r). rs_status r = resp_buffered) (RBT.entries (calls c))"
  have hit: "\<exists>r. RBT.lookup (calls c) cd = Some r \<and> rs_status r = resp_buffered" if "?f = Some (cd, r)" for cd r
    using that by (auto simp: find_Some_iff RBT.lookup_in_tree in_set_conv_nth) (metis case_prod_conv nth_mem)
  show "i = -1 \<longleftrightarrow> (\<forall>cd r. RBT.lookup (calls c) cd = Some r \<longrightarrow> rs_status r \<noteq> resp_buffered)"
  proof (cases ?f)
    case None
    then have "any_buffered c = -1" by (simp add: any_buffered_def)
    moreover have "\<not> (\<exists>x \<in> set (RBT.entries (calls c)). case x of (cd, r) \<Rightarrow> rs_status r = resp_buffered)"
      using None by (auto simp: find_None_iff)
    ultimately show ?thesis using assms(1) by (auto simp: RBT.lookup_in_tree)
  next
    case (Some x)
    obtain cd r where x: "x = (cd, r)" by force
    then show ?thesis using Some assms hit [of cd r] by (auto simp: any_buffered_def)
  qed
  show "\<exists>r. RBT.lookup (calls c) i = Some r \<and> rs_status r = resp_buffered" if "i \<noteq> -1"
    using assms(1) that hit by (auto simp: any_buffered_def split: option.splits prod.splits)
qed

subsection \<open>Waiting for a reply\<close>

text \<open>Two states of a transaction context that differ in the shared table of processes only.\<close>

definition tx_same :: "('r, 'n) tx_world \<Rightarrow> ('r, 'n) tx_world \<Rightarrow> bool" where
  "tx_same t t' \<longleftrightarrow> (\<exists>a. t' = t\<lparr>tx_mib := (tx_mib t)\<lparr>accessers := a\<rparr>\<rparr>)"

lemma tx_same_refl [simp]: "tx_same t t"
  by (auto simp: tx_same_def intro: exI [of _ "accessers (tx_mib t)"])

lemma tx_same_trans: "tx_same t u \<Longrightarrow> tx_same u v \<Longrightarrow> tx_same t v"
  by (auto simp: tx_same_def)

text \<open>The client has its entry in the table of the shared memory.\<close>

definition listed :: "('r, 'n, 'k) cl_state \<Rightarrow> bool" where
  "listed s \<longleftrightarrow> (\<exists>a. arr_at (accessers (tx_mib (p_tx (snd s)))) (cl_id (fst s)) = Inr a)"

text \<open>What waiting leaves alone.\<close>

definition waited :: "('r, 'n, 'k) cl_state \<Rightarrow> ('r, 'n, 'k) cl_state \<Rightarrow> bool" where
  "waited s s' \<longleftrightarrow> cl_id (fst s') = cl_id (fst s) \<and> cl_rpid (fst s') = cl_rpid (fst s) \<and> cl_repo (fst s') = cl_repo (fst s) \<and>
     cl_rq (fst s') = cl_rq (fst s) \<and> p_mem (snd s') = p_mem (snd s) \<and> p_urcode (snd s') = p_urcode (snd s) \<and>
     p_server (snd s') = p_server (snd s) \<and> listed s' \<and>
     tx_same (p_tx (snd s)) (p_tx (snd s'))"

lemma waited_listed: "waited s s' \<Longrightarrow> listed s'"
  by (simp add: waited_def)

lemma waited_rpid: "waited s s' \<Longrightarrow> cl_rpid (fst s') = cl_rpid (fst s)"
  by (simp add: waited_def)

lemma waited_trans: "waited s t \<Longrightarrow> waited t u \<Longrightarrow> waited s u"
  using tx_same_trans by (auto simp: waited_def)

lemma next_blocktime_waited: "listed s \<Longrightarrow> waited s (snd (next_blocktime s)) \<and> cds (fst (snd (next_blocktime s))) = cds (fst s) \<and>
    p_os (snd (snd (next_blocktime s))) = p_os (snd s)"
  by (auto simp: next_blocktime_def waited_def listed_def)

lemma set_deadline_waited:
  assumes "listed s"
  shows "\<exists>s'. set_deadline t s = (Inr (), s') \<and> waited s s' \<and> cds (fst s') = cds (fst s) \<and> p_os (snd s') = p_os (snd s)"
proof -
  obtain a where a: "arr_at (accessers (tx_mib (p_tx (snd s)))) (cl_id (fst s)) = Inr a" using assms by (auto simp: listed_def)
  let ?s = "(fst s, (snd s)\<lparr>p_tx := (p_tx (snd s))\<lparr>tx_mib := set_accesser (cl_id (fst s)) (a\<lparr>acc_timeout := t\<rparr>) (tx_mib (p_tx (snd s)))\<rparr>\<rparr>)"
  have "listed ?s" using a by (auto simp: listed_def set_accesser_def arr_put_def arr_at_def split: if_splits)
  moreover have "set_deadline t s = (Inr (), ?s)" using a by (simp add: set_deadline_def Let_def)
  ultimately show ?thesis by (intro exI [of _ ?s]) (auto simp: waited_def set_accesser_def tx_same_def)
qed

context message_queues
begin

lemma wait_reply_takes:
  assumes "e_os env = os" "good (p_os (snd s))" "listed s" "inbox (p_os (snd s)) (cl_rpid (fst s)) = m # ms"
  shows "\<exists>s'. wait_reply env s = (Inr m, s') \<and> waited s s' \<and> cds (fst s') = cds (fst s) \<and> good (p_os (snd s')) \<and>
    inbox (p_os (snd s')) = (inbox (p_os (snd s)))(cl_rpid (fst s) := ms)"
proof -
  obtain tmo u1 where n: "next_blocktime s = (tmo, u1)" by (cases "next_blocktime s") blast
  have u1: "waited s u1" "cds (fst u1) = cds (fst s)" "p_os (snd u1) = p_os (snd s)"
    using next_blocktime_waited [OF assms(3)] n by simp_all
  obtain u2 where u2: "set_deadline (p_now (snd u1) + tmo) u1 = (Inr (), u2)" "waited u1 u2" "cds (fst u2) = cds (fst u1)"
    "p_os (snd u2) = p_os (snd u1)"
    using set_deadline_waited [OF waited_listed [OF u1(1)]] by blast
  have rp: "cl_rpid (fst u2) = cl_rpid (fst s)" using waited_rpid [OF u1(1)] waited_rpid [OF u2(2)] by simp
  obtain k where k: "qrecv os (cl_rpid (fst s)) 0 (p_os (snd s)) = (Inr m, k)" "good k"
    "inbox k = (inbox (p_os (snd s)))(cl_rpid (fst s) := ms)"
    using recv_ok [OF assms(2,4)] by blast
  define u3 where "u3 = (fst u2, (snd u2)\<lparr>p_os := k\<rparr>)"
  have w3: "waited u2 u3" using u2(2) by (auto simp: waited_def u3_def listed_def)
  obtain u4 where u4: "set_deadline INVALID_TIME u3 = (Inr (), u4)" "waited u3 u4" "cds (fst u4) = cds (fst u3)"
    "p_os (snd u4) = p_os (snd u3)"
    using set_deadline_waited [OF waited_listed [OF w3]] by blast
  have "wait_reply env s = (Inr m, u4)"
    using n u2 u4(1) k rp u1(3) assms(1) by (simp add: wait_reply_def on_os_def u3_def)
  moreover have "waited s u4" using u1(1) u2(2) w3 u4(2) by (blast intro: waited_trans)
  ultimately show ?thesis using u1 u2 u4 k by (simp add: u3_def)
qed

text \<open>The loop puts replies to other calls aside until the one it waits for comes.\<close>

lemma reply_loop_finds:
  assumes "e_os env = os" "\<not> has_flag flags TPGETANY"
    and "good (p_os (snd s))" "listed s" "inbox (p_os (snd s)) (cl_rpid (fst s)) = ms1 @ m # ms2"
    and "check cd (cds (fst s)) = 0" "\<not> is_buffered cd (cds (fst s))"
    and "\<forall>x \<in> set ms1. m_cd x \<noteq> cd \<and> m_cat x \<noteq> unblock" "m_cd m = cd" "m_cat m \<noteq> unblock"
  shows "\<exists>s'. reply_loop env cell cd flags s = Some (accept_reply env cell cd m s') \<and> waited s s' \<and> good (p_os (snd s')) \<and>
    cds (fst s') = foldl (\<lambda>d x. buffer_reply x d) (cds (fst s)) ms1 \<and>
    inbox (p_os (snd s')) = (inbox (p_os (snd s)))(cl_rpid (fst s) := ms2)"
  using assms(3-8)
proof (induction ms1 arbitrary: s)
  case Nil
  have r: "ready_reply cd flags (fst s) = Some None"
    using Nil.prems(4,5) assms(2) by (simp add: ready_reply_def)
  obtain s' where "wait_reply env s = (Inr m, s')" "waited s s'" "cds (fst s') = cds (fst s)" "good (p_os (snd s'))"
    "inbox (p_os (snd s')) = (inbox (p_os (snd s)))(cl_rpid (fst s) := ms2)"
    using wait_reply_takes [OF assms(1) Nil.prems(1,2)] Nil.prems(3) by auto
  moreover from this have "reply_loop env cell cd flags s = Some (accept_reply env cell cd m s')"
    using r assms(2,9,10) by (subst reply_loop.simps) simp
  ultimately show ?case by (intro exI [of _ s']) simp
next
  case (Cons x ms1)
  have r: "ready_reply cd flags (fst s) = Some None"
    using Cons.prems(4,5) assms(2) by (simp add: ready_reply_def)
  obtain u1 where u1: "wait_reply env s = (Inr x, u1)" "waited s u1" "cds (fst u1) = cds (fst s)" "good (p_os (snd u1))"
    "inbox (p_os (snd u1)) = (inbox (p_os (snd s)))(cl_rpid (fst s) := ms1 @ m # ms2)"
    using wait_reply_takes [OF assms(1) Cons.prems(1,2)] Cons.prems(3) by auto
  define u2 where "u2 = ((fst u1)\<lparr>cds := buffer_reply x (cds (fst u1))\<rparr>, snd u1)"
  have x: "m_cd x \<noteq> cd" "m_cat x \<noteq> unblock" using Cons.prems(6) by simp_all
  have w: "waited s u2" using u1(2) by (auto simp: waited_def u2_def listed_def)
  have step: "reply_loop env cell cd flags s = reply_loop env cell cd flags u2"
    using r u1(1) x assms(2) by (subst reply_loop.simps) (simp add: u2_def)
  have c: "check cd (cds (fst u2)) = 0" "\<not> is_buffered cd (cds (fst u2))"
    using Cons.prems(4,5) x(1) u1(3) by (auto simp: u2_def check_def is_buffered_def call_at_def)
  have rp: "cl_rpid (fst u2) = cl_rpid (fst s)" "listed u2" using w by (simp_all add: waited_def)
  have i: "inbox (p_os (snd u2)) (cl_rpid (fst u2)) = ms1 @ m # ms2" "good (p_os (snd u2))"
    "inbox (p_os (snd u2)) = (inbox (p_os (snd s)))(cl_rpid (fst s) := ms1 @ m # ms2)"
    "cds (fst u2) = buffer_reply x (cds (fst s))"
    using u1 rp(1) by (simp_all add: u2_def)
  have rest: "\<forall>y \<in> set ms1. m_cd y \<noteq> cd \<and> m_cat y \<noteq> unblock" using Cons.prems(6) by simp
  obtain s' where s': "reply_loop env cell cd flags u2 = Some (accept_reply env cell cd m s')" "waited u2 s'" "good (p_os (snd s'))"
    "cds (fst s') = foldl (\<lambda>d x. buffer_reply x d) (cds (fst u2)) ms1"
    "inbox (p_os (snd s')) = (inbox (p_os (snd u2)))(cl_rpid (fst u2) := ms2)"
    using Cons.IH [OF i(2) rp(2) i(1) c rest] by blast
  then show ?case
    using step waited_trans [OF w s'(2)] rp(1) i(3,4) by (intro exI [of _ s']) simp
qed

end

subsection \<open>Typed buffers of the caller\<close>

lemma put_err_twice [simp]: "put_err e (put_err d m) = put_err e m"
  by (simp add: put_err_def)

lemma put_err_views [simp]: "blocks (put_err e m) = blocks m" "cells (put_err e m) = cells m" "tperr (put_err e m) = e"
  by (simp_all add: put_err_def)

lemma get_data_err [simp]: "get_data al cell m (put_err e s) = get_data al cell m s"
  by (simp add: get_data_def tpimport_def exception_boundary_def)

lemma tptypes_err [simp]: "tptypes d (put_err e s) = tptypes d s"
  by (simp add: tptypes_def exception_boundary_def)

lemma tptypes_known: "tptypes d s = (Inr (Some ty), s') \<Longrightarrow> s' = put_err 0 s"
  by (auto simp: tptypes_def exception_boundary_def mem_tptypes_def block_type_def typeptr_def
      split: option.splits prod.splits sum.splits stop.splits)

subsection \<open>\<open>tpgetrply\<close> on the kernel\<close>

text \<open>
  A process on the kernel with the client \<open>c\<close>, outside of a transaction; its variable \<open>cell\<close> points to a
  typed buffer.
\<close>

definition waits :: "('r, kern) env \<Rightarrow> ('r, 'n, kern) proc \<Rightarrow> client \<Rightarrow> nat \<Rightarrow> bool" where
  "waits env w c cell \<longleftrightarrow> e_os env = kern_os \<and> p_client w = Some c \<and> \<not> transactional (p_tx w) \<and> kern_ok (p_os w) \<and>
     listed (c, w) \<and> (\<exists>ty m. tptypes (cells (p_mem w) cell) (p_mem w) = (Inr (Some ty), m))"

lemma set_err_views [simp]:
  "p_client (set_err e w) = p_client w" "p_tx (set_err e w) = p_tx w" "p_os (set_err e w) = p_os w"
  "p_mem (set_err e w) = put_err e (p_mem w)" "p_urcode (set_err e w) = p_urcode w" "p_server (set_err e w) = p_server w"
  by (simp_all add: set_err_def)

lemma listed_err [simp]: "listed (c, set_err e w) = listed (c, w)"
  by (simp add: listed_def)

text \<open>What \<open>tpgetrply\<close> does once the buffer is known to be one.\<close>

lemma tpgetrply_run:
  assumes "waits env w c cell"
  shows "tpgetrply env cd (Some cell) flags w =
    (case reply_loop env cell cd flags (c, set_err 0 w) of
       None \<Rightarrow> (Inl No_return, (set_err 0 w)\<lparr>p_client := Some c\<rparr>)
     | Some (Inl (Throw e), s) \<Rightarrow> (Inr (-1, cd, None), set_err (-1) ((snd s)\<lparr>p_client := Some (fst s)\<rparr>))
     | Some (r, s) \<Rightarrow> (r, (snd s)\<lparr>p_client := Some (fst s)\<rparr>))"
proof -
  obtain ty m where t: "tptypes (cells (p_mem w) cell) (p_mem w) = (Inr (Some ty), m)"
    using assms by (auto simp: waits_def)
  note m = tptypes_known [OF t]
  have "on_mem (tptypes (cells (p_mem (set_err 0 w)) cell)) (c, set_err 0 w) = (Inr (Some ty), (c, set_err 0 w))"
    using t m by (simp add: on_mem_def)
  then have g: "cl_tpgetrply env cd (Some cell) flags (c, set_err 0 w) =
      (case reply_loop env cell cd flags (c, set_err 0 w) of None \<Rightarrow> (Inl No_return, (c, set_err 0 w)) | Some res \<Rightarrow> res)"
    by (simp add: cl_tpgetrply_def)
  have "guarded env True (with_client env (cl_tpgetrply env cd (Some cell) flags)) (set_err 0 w) =
      (case cl_tpgetrply env cd (Some cell) flags (c, set_err 0 w) of (r, c, w) \<Rightarrow> (r, w\<lparr>p_client := Some c\<rparr>))"
    using assms by (simp add: guarded_def waits_def with_client_def getclient_def)
  then show ?thesis
    unfolding tpgetrply_def proc_boundary_def exception_boundary_def g
    by (auto split: option.splits sum.splits stop.splits prod.splits)
qed

lemma accept_reply_ok:
  assumes "get_data (e_al env) (Some cell) m (p_mem (snd s)) = (Inr (), m2)"
  shows "accept_reply env cell cd m s =
    (Inr (if m_rval m = 0 then 0 else -1, m_cd m, Some (int (length (m_data m)))),
     ((fst s)\<lparr>cds := snd (release (m_cd m) (cds (fst s)))\<rparr>,
      (snd s)\<lparr>p_mem := put_err (m_rval m) m2, p_urcode := m_rcode m\<rparr>))"
  using assms by (simp add: accept_reply_def on_mem_def Let_def cl_err_def set_err_def)

lemma foldl_buffer_lookup:
  "RBT.lookup (calls (foldl (\<lambda>d x. buffer_reply x d) ds ms)) =
     RBT.lookup (calls ds) ++ map_of (rev (map (\<lambda>x. (m_cd x, \<lparr>rs_status = resp_buffered, rs_res = Some x\<rparr>)) ms))"
proof (induction ms arbitrary: ds)
  case (Cons x ms)
  show ?case by (rule ext) (simp add: Cons.IH map_add_def split: option.split)
qed simp

subsection \<open>Waiting for one's own reply\<close>

lemma tpgetrply_takes:
  assumes "waits env w c cell" "\<not> has_flag flags TPGETANY" "check cd (cds c) = 0" "\<not> is_buffered cd (cds c)"
    and "kern_inbox (p_os w) (cl_rpid c) = ms1 @ m # ms2"
    and "\<forall>x \<in> set ms1. m_cd x \<noteq> cd \<and> m_cat x \<noteq> unblock" "m_cd m = cd" "m_cat m \<noteq> unblock"
    and "get_data (e_al env) (Some cell) m (p_mem w) = (Inr (), m2)"
  shows "\<exists>w' c'. tpgetrply env cd (Some cell) flags w =
      (Inr (if m_rval m = 0 then 0 else -1, cd, Some (int (length (m_data m)))), w') \<and>
    p_client w' = Some c' \<and> cl_rpid c' = cl_rpid c \<and> listed (c', w') \<and> tx_same (p_tx w) (p_tx w') \<and>
    p_mem w' = put_err (m_rval m) m2 \<and> p_urcode w' = m_rcode m \<and> kern_ok (p_os w') \<and>
    kern_inbox (p_os w') = (kern_inbox (p_os w))(cl_rpid c := ms2) \<and>
    RBT.lookup (calls (cds c')) = (RBT.lookup (calls (cds c)) ++
      map_of (rev (map (\<lambda>x. (m_cd x, \<lparr>rs_status = resp_buffered, rs_res = Some x\<rparr>)) ms1)))(cd := None)"
proof -
  let ?s = "(c, set_err 0 w)"
  have s: "e_os env = kern_os" "kern_ok (p_os (snd ?s))" "listed ?s" "kern_inbox (p_os (snd ?s)) (cl_rpid (fst ?s)) = ms1 @ m # ms2"
    "check cd (cds (fst ?s)) = 0" "\<not> is_buffered cd (cds (fst ?s))"
    using assms(1,3-5) by (simp_all add: waits_def)
  obtain s' where s': "reply_loop env cell cd flags ?s = Some (accept_reply env cell cd m s')" "waited ?s s'" "kern_ok (p_os (snd s'))"
    "cds (fst s') = foldl (\<lambda>d x. buffer_reply x d) (cds c) ms1"
    "kern_inbox (p_os (snd s')) = (kern_inbox (p_os w))(cl_rpid c := ms2)"
    using kern_mq.reply_loop_finds [OF s(1) assms(2) s(2-6) assms(6-8), of cell] by auto
  have mem: "get_data (e_al env) (Some cell) m (p_mem (snd s')) = (Inr (), m2)"
    using s'(2) assms(9) by (simp add: waited_def)
  show ?thesis
    unfolding tpgetrply_run [OF assms(1)] s'(1) accept_reply_ok [OF mem]
    using s'(2-5) assms(7) by (auto simp: waited_def release_lookup foldl_buffer_lookup tx_same_def listed_def)
qed

text \<open>A reply that is in the table already.\<close>

lemma any_buffered_hit:
  assumes "RBT.lookup (calls ds) i = Some r" "rs_status r = resp_buffered"
    and "\<forall>j r'. RBT.lookup (calls ds) j = Some r' \<and> rs_status r' = resp_buffered \<longrightarrow> j = i" "i \<noteq> -1"
  shows "any_buffered ds = i"
proof (cases "find (\<lambda>(cd, r). rs_status r = resp_buffered) (RBT.entries (calls ds))")
  case None
  moreover have "(i, r) \<in> set (RBT.entries (calls ds))" using assms(1) by (simp add: RBT.lookup_in_tree)
  ultimately show ?thesis using assms(2) by (auto simp: find_None_iff)
next
  case (Some x)
  obtain j r' where x: "x = (j, r')" by force
  then have "(j, r') \<in> set (RBT.entries (calls ds))" "rs_status r' = resp_buffered"
    using Some by (auto simp: find_Some_iff) (metis nth_mem)
  then show ?thesis using Some x assms(3) by (auto simp: any_buffered_def RBT.lookup_in_tree)
qed

lemma tpgetrply_early:
  assumes "waits env w c cell" "ready_reply cd flags c = Some (Some i)"
    and "RBT.lookup (calls (cds c)) i = Some \<lparr>rs_status = resp_buffered, rs_res = Some m\<rparr>" "m_cd m = i"
    and "m_cat m \<noteq> unblock" "has_flag flags TPGETANY \<or> i = cd"
    and "get_data (e_al env) (Some cell) m (p_mem w) = (Inr (), m2)"
  shows "\<exists>w' c'. tpgetrply env cd (Some cell) flags w =
      (Inr (if m_rval m = 0 then 0 else -1, i, Some (int (length (m_data m)))), w') \<and>
    p_client w' = Some c' \<and> p_os w' = p_os w \<and> p_mem w' = put_err (m_rval m) m2 \<and> p_urcode w' = m_rcode m \<and>
    RBT.lookup (calls (cds c')) = (RBT.lookup (calls (cds c)))(i := None)"
proof -
  define s' where "s' = (c\<lparr>cds := put_call i \<lparr>rs_status = resp_buffered, rs_res = None\<rparr> (cds c)\<rparr>, set_err 0 w)"
  have e: "early_reply i (c, set_err 0 w) = (Inr m, s')"
    using assms(3) by (simp add: early_reply_def buffered_def call_at_def s'_def)
  have r: "reply_loop env cell cd flags (c, set_err 0 w) = Some (accept_reply env cell cd m s')"
    using assms(2,4-6) e by (subst reply_loop.simps, cases "has_flag flags TPGETANY") simp_all
  have mem: "get_data (e_al env) (Some cell) m (p_mem (snd s')) = (Inr (), m2)"
    using assms(7) by (simp add: s'_def)
  show ?thesis
    unfolding tpgetrply_run [OF assms(1)] r accept_reply_ok [OF mem]
    using assms(4) by (simp add: s'_def release_lookup fun_eq_iff)
qed

text \<open>A message of category \<open>unblock\<close>.\<close>

lemma tpgetrply_unblocked:
  assumes "waits env w c cell" "ready_reply cd flags c = Some None"
    and "kern_inbox (p_os w) (cl_rpid c) = u # ms" "m_cat u = unblock"
  shows "\<exists>w' c'. tpgetrply env cd (Some cell) flags w =
      (Inr (-1, if has_flag flags TPGETANY then 0 else cd, None), w') \<and>
    p_client w' = Some c' \<and> waits env w' c' cell \<and> cl_rpid c' = cl_rpid c \<and> cds c' = cds c \<and> p_mem w' = put_err TPETIME (p_mem w) \<and>
    kern_inbox (p_os w') = (kern_inbox (p_os w))(cl_rpid c := ms)"
proof -
  let ?s = "(c, set_err 0 w)"
  have s: "e_os env = kern_os" "kern_ok (p_os (snd ?s))" "listed ?s" "kern_inbox (p_os (snd ?s)) (cl_rpid (fst ?s)) = u # ms"
    using assms(1,3) by (simp_all add: waits_def)
  obtain s' where s': "wait_reply env ?s = (Inr u, s')" "waited ?s s'" "cds (fst s') = cds c" "kern_ok (p_os (snd s'))"
    "kern_inbox (p_os (snd s')) = (kern_inbox (p_os w))(cl_rpid c := ms)"
    using kern_mq.wait_reply_takes [OF s] by auto
  have r: "reply_loop env cell cd flags ?s =
      Some (Inr (-1, if has_flag flags TPGETANY then 0 else cd, None), cl_err TPETIME s')"
    using assms(2,4) s'(1) by (subst reply_loop.simps) simp
  show ?thesis
    unfolding tpgetrply_run [OF assms(1)] r
    using s'(2-5) assms(1)
    by (auto simp: waited_def waits_def cl_err_def listed_def tx_same_def transactional_def)
qed

end
