(* ===== verification/Server_Props.thy ===== *)
theory Server_Props
  imports Server Client_Props Advertise
begin

text \<open>
  Lemmas on the server of src/server.cpp: which message it takes, how a request reaches its service,
  how the reply is sent, and how its table of services agrees with the shared memory.
\<close>

lemma sv_simps [simp]:
  "fst (set_thread t s) = (fst s)\<lparr>sv_thread := t\<rparr>" "snd (set_thread t s) = snd s"
  by (simp_all add: set_thread_def)

subsection \<open>The order of the queue\<close>

lemma fold_min_same: "\<forall>y \<in> set xs. y = x \<Longrightarrow> fold min xs x = (x :: int)"
  by (induction xs) auto

lemma kern_pick_first:
  assumes "t = 0 \<or> (t < 0 \<and> (\<forall>x \<in> set (km # kms). kmsg_type x = tau) \<and> tau \<le> - t)"
  shows "kern_pick t (km # kms) = Some 0"
proof (cases "t = 0")
  case False
  then have t: "t < 0" "\<forall>x \<in> set (km # kms). kmsg_type x = tau" "tau \<le> - t" using assms by auto
  have "filter (\<lambda>x. x \<le> - t) (map kmsg_type (km # kms)) = tau # map kmsg_type kms"
    using t(2,3) by (auto simp: filter_id_conv)
  moreover have "fold min (map kmsg_type kms) tau = tau" using t(2) by (intro fold_min_same) auto
  ultimately show ?thesis using t by (simp add: kern_pick_def)
qed (simp add: kern_pick_def)

lemma kern_inbox_types: "map m_mtype (kern_inbox k q) = map kmsg_type (k_queues k q)"
  by (auto simp: kern_inbox_def kmsg_type_def split: kmsg.split)

text \<open>What receiving leaves of the kernel, beside the queues.\<close>

definition kern_frame :: "kern \<Rightarrow> kern \<Rightarrow> bool" where
  "kern_frame k k' \<longleftrightarrow> k_cap k' = k_cap k \<and> k_next k' = k_next k \<and> (\<forall>f. k_files k f = None \<longrightarrow> k_files k' f = None)"

lemma qrecv_frame: "qrecv kern_os q t k = (Inr m, k') \<Longrightarrow> kern_frame k k'"
  by (auto simp: qrecv_def kern_os_def kern_rcv_def kern_frame_def split: option.splits prod.splits kmsg.splits)

lemma kern_inbox_length: "length (kern_inbox k q) = length (k_queues k q)"
  by (simp add: kern_inbox_def)

text \<open>A receiver that asks for the lowest type takes the oldest message when all have the same.\<close>

lemma qrecv_oldest:
  assumes "kern_ok k" "kern_inbox k q = m # ms" "t = 0 \<or> (t < 0 \<and> (\<forall>x \<in> set (m # ms). m_mtype x = tau) \<and> tau \<le> - t)"
  shows "\<exists>k'. qrecv kern_os q t k = (Inr m, k') \<and> kern_ok k' \<and> kern_inbox k' = (kern_inbox k)(q := ms) \<and> kern_frame k k'"
proof -
  obtain km kms where km: "k_queues k q = km # kms" using assms(2) by (cases "k_queues k q") (auto simp: kern_inbox_def)
  have "\<forall>x \<in> set (k_queues k q). kmsg_type x = tau" if "\<forall>x \<in> set (m # ms). m_mtype x = tau"
    using that arg_cong [OF kern_inbox_types, of set k q] assms(2) by (force simp: image_iff)
  then have "kern_pick t (k_queues k q) = Some 0" "kern_pick 0 (k_queues k q) = Some 0"
    using assms(3) kern_pick_first [of t km kms tau] kern_pick_first [of 0 km kms] unfolding km by auto
  then have "msgrcv kern_os q t k = msgrcv kern_os q 0 k" by (simp add: kern_os_def kern_rcv_def)
  then have "qrecv kern_os q t k = qrecv kern_os q 0 k" by (simp add: qrecv_def)
  then show ?thesis using kern_mq.recv_ok [OF assms(1,2)] qrecv_frame by auto
qed

subsection \<open>Taking a request\<close>

lemma next_mtype_same: "\<exists>c. snd (next_mtype sv) = sv\<lparr>sv_count := c\<rparr>"
  by (simp add: next_mtype_def Let_def) blast

lemma take_request_takes:
  assumes "e_os env = kern_os" "kern_ok (p_os w)" "kern_inbox (p_os w) (sv_rq sv) = m # ms"
    and "\<forall>x \<in> set (m # ms). m_mtype x = 1" "sv_mtype sv < 0"
    and "cells (p_mem w) (st_cell (sv_thread sv)) \<noteq> None"
    and "get_data (e_al env) (Some (st_cell (sv_thread sv))) m (p_mem w) = (Inr (), m2)"
  shows "\<exists>k. take_request env (sv, w) =
      (Inr (), ((snd (next_mtype sv))\<lparr>sv_thread := (sv_thread sv)\<lparr>st_req := m\<rparr>\<rparr>, w\<lparr>p_os := k, p_mem := m2\<rparr>)) \<and>
    kern_ok k \<and> kern_inbox k = (kern_inbox (p_os w))(sv_rq sv := ms) \<and> kern_frame (p_os w) k"
proof -
  obtain c where c: "snd (next_mtype sv) = sv\<lparr>sv_count := c\<rparr>" using next_mtype_same by blast
  have t: "fst (next_mtype sv) = 0 \<or> fst (next_mtype sv) < 0 \<and> 1 \<le> - fst (next_mtype sv)"
    using assms(5) by (auto simp: next_mtype_def Let_def)
  obtain k where k: "qrecv kern_os (sv_rq sv) (fst (next_mtype sv)) (p_os w) = (Inr m, k)" "kern_ok k"
    "kern_inbox k = (kern_inbox (p_os w))(sv_rq sv := ms)" "kern_frame (p_os w) k"
    using qrecv_oldest [OF assms(2,3), of "fst (next_mtype sv)" 1] t assms(4) by auto
  have "take_request env (sv, w) =
      (Inr (), ((snd (next_mtype sv))\<lparr>sv_thread := (sv_thread sv)\<lparr>st_req := m\<rparr>\<rparr>, w\<lparr>p_os := k, p_mem := m2\<rparr>))"
    using k(1) c assms(1,6,7)
    by (cases "next_mtype sv") (simp add: take_request_def sv_os_def sv_mem_def prepare_buffer_def Let_def set_thread_def)
  then show ?thesis using k(2-4) by blast
qed

subsection \<open>Sending the reply\<close>

lemma tpfree_known: "blocks m p \<noteq> None \<Longrightarrow> \<exists>m'. tpfree (Some p) m = (Inr (), m')"
  by (cases "block_type (the (blocks m p)) (put_err 0 m)"; cases "fst (block_type (the (blocks m p)) (put_err 0 m))")
    (auto simp: tpfree_def exception_boundary_def mem_tpfree_def Let_def)

lemma free_data_known:
  assumes "data \<noteq> None \<longrightarrow> blocks (p_mem w) (the data) \<noteq> None"
  shows "\<exists>mem. free_data data (sv, w) = (Inr (), (sv, w\<lparr>p_mem := mem\<rparr>))"
proof (cases "data \<noteq> None \<and> data \<noteq> cells (p_mem w) (st_cell (sv_thread sv))")
  case True
  then obtain m' where "tpfree data (p_mem w) = (Inr (), m')" using assms tpfree_known [of "p_mem w" "the data"] by auto
  then show ?thesis using True by (simp add: free_data_def sv_mem_def) blast
next
  case False
  then have "free_data data (sv, w) = (Inr (), (sv, w\<lparr>p_mem := p_mem w\<rparr>))" by (auto simp: free_data_def)
  then show ?thesis by blast
qed

lemma same_msg_more:
  "same_msg x q \<Longrightarrow> m_rval x = m_rval q \<and> m_rcode x = m_rcode q \<and> m_mtype x = m_mtype q \<and> m_service x = m_service q \<and>
     m_data x = m_data q \<and> m_cd x = m_cd q \<and> m_replyq x = m_replyq q \<and> m_flags x = m_flags q \<and> m_gttid x = m_gttid q"
  by (cases x; cases q) (simp add: same_msg_def)

lemma send_res_kern:
  assumes "e_os env = kern_os" "kern_ok (p_os w)" "1 \<le> m_mtype m"
    and "k_files (p_os w) (k_next (p_os w)) = None" "length (k_queues (p_os w) q) < k_cap (p_os w)"
  shows "\<exists>th k x. send_res env q m (sv, w) = (Inr (), (sv\<lparr>sv_thread := th\<rparr>, w\<lparr>p_os := k\<rparr>)) \<and> kern_ok k \<and>
    st_req th = st_req (sv_thread sv) \<and> st_cell th = st_cell (sv_thread sv) \<and> to_shutdown th = to_shutdown (sv_thread sv) \<and>
    kern_inbox k = (kern_inbox (p_os w))(q := kern_inbox (p_os w) q @ [x]) \<and> same_msg x m \<and>
    (msg_size m \<le> 4000 \<longrightarrow> m_cat x = m_cat m)"
proof -
  obtain m' k where s: "qsend kern_os q m 0 notime (p_os w) = (Inr (True, m'), k)"
    using kern_send [OF assms(3,4), of notime 0 q] assms(5) by auto
  obtain x where x: "kern_ok k" "kern_inbox k = (kern_inbox (p_os w))(q := kern_inbox (p_os w) q @ [x])" "same_msg x m"
    "msg_size m \<le> 4000 \<longrightarrow> m_cat x = m_cat m"
    using kern_mq.send_ok [OF assms(2) s] by auto
  have "send_res env q m (sv, w) = (Inr (), (sv\<lparr>sv_thread := (sv_thread sv)\<lparr>st_res := m'\<rparr>\<rparr>, w\<lparr>p_os := k\<rparr>))"
    using s assms(1) by (simp add: send_res_def sv_os_def set_thread_def)
  then show ?thesis using x by (intro exI [of _ "(sv_thread sv)\<lparr>st_res := m'\<rparr>"] exI [of _ k] exI [of _ x]) simp
qed

lemma put_data_known:
  assumes "set_data data len (st_res (sv_thread sv)) (p_mem w) = (Inr r, mem)"
  shows "put_data_in_res data len (sv, w) = (Inr (), (sv\<lparr>sv_thread := (sv_thread sv)\<lparr>st_res := r\<rparr>\<rparr>, w\<lparr>p_mem := mem\<rparr>))"
  using assms by (simp add: put_data_in_res_def sv_mem_def set_thread_def)

lemma reply_kern:
  assumes "e_os env = kern_os" "kern_ok (p_os w)" "st_req (sv_thread sv) = req" "m_replyq req \<noteq> -1" "1 \<le> m_cd req"
    and "set_data data len (st_res (sv_thread sv)) (p_mem w) = (Inr r, mem)"
    and "data \<noteq> None \<longrightarrow> blocks mem (the data) \<noteq> None"
    and "k_files (p_os w) (k_next (p_os w)) = None" "length (k_queues (p_os w) (m_replyq req)) < k_cap (p_os w)"
  shows "\<exists>sv' w' x. reply env rval rcode data len flags (sv, w) = (Inr (), (sv', w')) \<and> p_tx w' = p_tx w \<and> p_client w' = p_client w \<and>
    sv_services sv' = sv_services sv \<and> sv_stop sv' = sv_stop sv \<and> st_req (sv_thread sv') = req \<and>
    kern_ok (p_os w') \<and>
    kern_inbox (p_os w') = (kern_inbox (p_os w))(m_replyq req := kern_inbox (p_os w) (m_replyq req) @ [x]) \<and>
    m_cd x = m_cd req \<and> m_rval x = (if flags \<noteq> 0 then TPESVCERR else rval) \<and> m_rcode x = rcode \<and> m_data x = m_data r \<and>
    (msg_size r \<le> 4000 \<longrightarrow> m_cat x = m_cat r)"
proof -
  let ?th = "(sv_thread sv)\<lparr>st_res := r\<rparr>"
  let ?m = "r\<lparr>m_rval := (if flags \<noteq> 0 then TPESVCERR else rval), m_rcode := rcode, m_flags := flags, m_mtype := m_cd req, m_cd := m_cd req\<rparr>"
  obtain mem2 where f: "free_data data (sv\<lparr>sv_thread := ?th\<rparr>, w\<lparr>p_mem := mem\<rparr>) = (Inr (), (sv\<lparr>sv_thread := ?th\<rparr>, w\<lparr>p_mem := mem2\<rparr>))"
    using free_data_known [of data "w\<lparr>p_mem := mem\<rparr>" "sv\<lparr>sv_thread := ?th\<rparr>"] assms(7) by auto
  have r: "reply env rval rcode data len flags (sv, w) =
      send_res env (m_replyq req) ?m (sv\<lparr>sv_thread := ?th\<rparr>, w\<lparr>p_mem := mem2\<rparr>)"
    using assms(3,4) f by (simp add: reply_def put_data_known [OF assms(6)] Let_def)
  obtain th k x where "send_res env (m_replyq req) ?m (sv\<lparr>sv_thread := ?th\<rparr>, w\<lparr>p_mem := mem2\<rparr>) =
      (Inr (), (sv\<lparr>sv_thread := th\<rparr>, w\<lparr>p_mem := mem2, p_os := k\<rparr>))" "kern_ok k" "st_req th = req"
    "kern_inbox k = (kern_inbox (p_os w))(m_replyq req := kern_inbox (p_os w) (m_replyq req) @ [x])" "same_msg x ?m"
    "msg_size ?m \<le> 4000 \<longrightarrow> m_cat x = m_cat ?m"
    using send_res_kern [OF assms(1), of "w\<lparr>p_mem := mem2\<rparr>" ?m "m_replyq req" "sv\<lparr>sv_thread := ?th\<rparr>"] assms(2,3,5,8,9) by auto
  then show ?thesis
    unfolding r using same_msg_more [of x ?m] by (intro exI [of _ "sv\<lparr>sv_thread := th\<rparr>"] exI [of _ "w\<lparr>p_mem := mem2, p_os := k\<rparr>"] exI [of _ x])
      (simp add: msg_size_def)
qed

subsection \<open>A request reaches its service\<close>

definition info_of :: "msg \<Rightarrow> nat option \<Rightarrow> svcinfo" where
  "info_of m p = \<lparr>si_name = c_string (m_service m), si_data = p, si_len = int (length (m_data m)), si_flags = m_flags m, si_cd = m_cd m\<rparr>"

lemma get_data_cong: "m_data m' = m_data m \<Longrightarrow> get_data al cell m' s = get_data al cell m s"
  by (simp add: get_data_def)

lemma dispatch_calls:
  assumes "e_os (se_env se) = kern_os" "kern_ok (p_os w)" "kern_inbox (p_os w) (sv_rq sv) = m # ms"
    and "\<forall>x \<in> set (m # ms). m_mtype x = 1" "sv_mtype sv < 0"
    and "cells (p_mem w) (st_cell (sv_thread sv)) \<noteq> None"
    and "get_data (e_al (se_env se)) (Some (st_cell (sv_thread sv))) m (p_mem w) = (Inr (), m2)"
    and "c_string (m_service m) \<noteq> stop_name" "map_of (sv_services sv) (c_string (m_service m)) = Some f"
    and "\<not> has_flag (m_flags m) TPTRAN"
    and "\<And>k. se_service se f (info_of m (cells m2 (st_cell (sv_thread sv)))) (w\<lparr>p_os := k, p_mem := m2\<rparr>) =
      (Tpreturn rval rcode data len flags, w\<lparr>p_os := k, p_mem := m3\<rparr>)"
  shows "\<exists>k sv1. dispatch_once se (sv, w) = sv_tpreturn (se_env se) rval rcode data len flags (sv1, w\<lparr>p_os := k, p_mem := m3\<rparr>) \<and>
    kern_ok k \<and> kern_inbox k = (kern_inbox (p_os w))(sv_rq sv := ms) \<and> kern_frame (p_os w) k \<and>
    st_req (sv_thread sv1) = m \<and> st_res (sv_thread sv1) = st_res (sv_thread sv) \<and> sv_services sv1 = sv_services sv"
proof -
  let ?sv = "(snd (next_mtype sv))\<lparr>sv_thread := (sv_thread sv)\<lparr>st_req := m\<rparr>\<rparr>"
  obtain c where c: "snd (next_mtype sv) = sv\<lparr>sv_count := c\<rparr>" using next_mtype_same by blast
  obtain k where k: "take_request (se_env se) (sv, w) = (Inr (), (?sv, w\<lparr>p_os := k, p_mem := m2\<rparr>))"
    "kern_ok k" "kern_inbox k = (kern_inbox (p_os w))(sv_rq sv := ms)" "kern_frame (p_os w) k"
    using take_request_takes [OF assms(1-7)] by blast
  have "dispatch_once se (sv, w) = call_service se (?sv, w\<lparr>p_os := k, p_mem := m2\<rparr>)"
    using k(1) assms(8) by (simp add: dispatch_once_def)
  also have "\<dots> = sv_tpreturn (se_env se) rval rcode data len flags (?sv, w\<lparr>p_os := k, p_mem := m3\<rparr>)"
    using assms(9-11) by (simp add: call_service_def Let_def info_of_def [symmetric] c)
      (simp add: info_of_def)
  finally show ?thesis using k c by (intro exI [of _ k] exI [of _ ?sv]) simp
qed

subsection \<open>The table of services and the shared memory\<close>

text \<open>The shared memory has, for this server and its queue, the services of its own table and no others.\<close>

definition services_match :: "server \<Rightarrow> mibmem \<Rightarrow> bool" where
  "services_match sv m \<longleftrightarrow> ads_ok m \<and> distinct (map fst (sv_services sv)) \<and>
     (\<forall>n \<in> fst ` set (sv_services sv). 0 \<notin> set n \<and>
        (\<exists>v. find_service n m = Inr v \<and> v \<noteq> badoff \<and> (v, sv_queue sv, sv_server sv) \<in> set (ads m))) \<and>
     (\<forall>v. (v, sv_queue sv, sv_server sv) \<in> set (ads m) \<longrightarrow> v \<noteq> badoff \<longrightarrow>
        (\<exists>n \<in> fst ` set (sv_services sv). find_service n m = Inr v))"

lemma find_service_search: "mib_ok m \<Longrightarrow> find_service n m = Inr (or_badoff (search (\<lambda>x. c_string n = c_string x) (map servicename (used (services m)))))"
  using mib_ok_arrays(9) by (simp add: find_service_def arr_find_used search_from_map [symmetric])

lemma bumped_find:
  assumes "mib_ok m" "mib_ok m'" "bumped v m m'" "v < arr_len (services m)"
  shows "find_service n m' = find_service n m"
proof -
  have ok: "arr_ok (services m)" "arr_ok (services m')" using assms(1,2) by (simp_all add: mib_ok_arrays)
  have "length (used (services m')) = length (used (services m))" using assms(3) ok by (simp add: bumped_def)
  moreover have "servicename (used (services m') ! i) = servicename (used (services m) ! i)" if "i < arr_len (services m)" for i
    using assms(3) that by (cases "i = v") (auto simp: bumped_def)
  ultimately have "map servicename (used (services m')) = map servicename (used (services m))"
    using ok by (simp add: list_eq_iff_nth_eq)
  then show ?thesis using assms(1,2) by (simp add: find_service_search)
qed

lemma find_service_inj:
  assumes "mib_ok m" "find_service a m = Inr v" "find_service b m = Inr v" "v \<noteq> badoff" "0 \<notin> set a" "0 \<notin> set b"
  shows "a = b"
proof -
  have "c_string a = c_string (servicename (used (services m) ! v))" "c_string b = c_string (servicename (used (services m) ! v))"
    using assms arr_find_hit [OF mib_ok_arrays(9) [OF assms(1)]] unfolding find_service_def by blast+
  moreover have "c_string x = x" if "0 \<notin> set x" for x
    using that by (auto simp: c_string_def takeWhile_eq_all_conv)
  ultimately show ?thesis using assms(5,6) by simp
qed

lemma make_service_ads: "advertisements (snd (make_service name m)) = advertisements m"
  by (auto simp: make_service_def split: sum.split prod.split)

text \<open>\<open>advertise\<close> of a name, known or not, that succeeds.\<close>

lemma advertise_success:
  assumes "ads_ok m" "0 \<notin> set name" "advertise name q s m = (Inr (), m')"
  shows "\<exists>v. v \<noteq> badoff \<and> find_service name m' = Inr v \<and> ads_ok m' \<and> set (ads m') = insert (v, q, s) (set (ads m)) \<and>
    (v, q, s) \<notin> set (ads m) \<and>
    (\<forall>n u. 0 \<notin> set n \<longrightarrow> find_service n m = Inr u \<longrightarrow> u \<noteq> badoff \<longrightarrow> find_service n m' = Inr u)"
proof -
  have ok: "mib_ok m" using assms(1) by (simp add: ads_ok_def)
  obtain v m1 where i: "intern_service name m = (Inr v, m1)"
    using assms(3) by (cases "intern_service name m"; cases "fst (intern_service name m)") (auto simp: advertise_def)
  have m1: "mib_ok m1" "find_service name m1 = Inr v" "v \<noteq> badoff" "ads m1 = ads m"
    "\<forall>n u. 0 \<notin> set n \<longrightarrow> find_service n m = Inr u \<longrightarrow> u \<noteq> badoff \<longrightarrow> find_service n m1 = Inr u"
  proof -
    have "mib_ok m1 \<and> find_service name m1 = Inr v \<and> v \<noteq> badoff \<and> ads m1 = ads m \<and>
      (\<forall>n u. 0 \<notin> set n \<longrightarrow> find_service n m = Inr u \<longrightarrow> u \<noteq> badoff \<longrightarrow> find_service n m1 = Inr u)"
    proof (cases "find_service name m = Inr badoff")
      case True
      then have mk: "make_service name m = (Inr v, m1)" using i by (simp add: intern_service_def)
      have "ads m1 = ads m" using ads_cong [of m1 m] make_service_ads [of name m] mk by simp
      then show ?thesis
        using service_table.insert_success [OF ok assms(2) mk] service_table.found_stays [OF ok _ assms(2) _ _ mk] by auto
    next
      case False
      then show ?thesis using i ok by (auto simp: intern_service_def split: sum.splits if_splits)
    qed
    then show "mib_ok m1" "find_service name m1 = Inr v" "v \<noteq> badoff" "ads m1 = ads m"
      "\<forall>n u. 0 \<notin> set n \<longrightarrow> find_service n m = Inr u \<longrightarrow> u \<noteq> badoff \<longrightarrow> find_service n m1 = Inr u" by blast+
  qed
  have ok1: "ads_ok m1" using assms(1) m1 by (simp add: ads_ok_def)
  have "intern_service name m1 = (Inr v, m1)" using m1(2,3) by (simp add: intern_service_def)
  then have a1: "advertise name q s m1 = (Inr (), m')" using assms(3) i by (simp add: advertise_def)
  have new: "(v, q, s) \<notin> set (ads m1)" using advertise_known(1) [OF ok1 m1(2,3), of q s] a1 by auto
  have "ads_room m1" using advertise_known(2) [OF ok1 m1(2,3) new] a1 by auto
  then have r: "ads_ok m'" "set (ads m') = insert (v, q, s) (set (ads m1))" "bumped v m1 m'"
    using advertise_known(3) [OF ok1 m1(2,3) new] a1 by auto
  have "v < arr_len (services m1)" using find_service_hit [OF m1(1-3)] by simp
  then have "find_service n m' = find_service n m1" for n
    using bumped_find [OF m1(1) _ r(3)] r(1) by (simp add: ads_ok_def)
  then show ?thesis using r m1 new by (intro exI [of _ v]) auto
qed

lemma advertised_match:
  assumes "services_match sv m" "0 \<notin> set name" "name \<notin> fst ` set (sv_services sv)"
    and "advertise name (sv_queue sv) (sv_server sv) m = (Inr (), m')"
  shows "services_match (sv\<lparr>sv_services := (name, f) # sv_services sv\<rparr>) m'"
proof -
  obtain v where v: "v \<noteq> badoff" "find_service name m' = Inr v" "ads_ok m'"
    "set (ads m') = insert (v, sv_queue sv, sv_server sv) (set (ads m))"
    "\<forall>n u. 0 \<notin> set n \<longrightarrow> find_service n m = Inr u \<longrightarrow> u \<noteq> badoff \<longrightarrow> find_service n m' = Inr u"
    using advertise_success [OF _ assms(2,4)] assms(1) by (auto simp: services_match_def)
  show ?thesis
    unfolding services_match_def
  proof (intro conjI ballI allI impI)
    show "ads_ok m'" by (rule v)
    show "distinct (map fst (sv_services (sv\<lparr>sv_services := (name, f) # sv_services sv\<rparr>)))"
      using assms(1,3) by (simp add: services_match_def)
  next
    fix n assume "n \<in> fst ` set (sv_services (sv\<lparr>sv_services := (name, f) # sv_services sv\<rparr>))"
    then consider "n = name" | "n \<in> fst ` set (sv_services sv)" by auto
    then show "0 \<notin> set n" "\<exists>u. find_service n m' = Inr u \<and> u \<noteq> badoff \<and>
        (u, sv_queue (sv\<lparr>sv_services := (name, f) # sv_services sv\<rparr>), sv_server (sv\<lparr>sv_services := (name, f) # sv_services sv\<rparr>)) \<in> set (ads m')"
      using assms(1,2) v by (cases; auto simp: services_match_def)+
  next
    fix u assume "(u, sv_queue (sv\<lparr>sv_services := (name, f) # sv_services sv\<rparr>), sv_server (sv\<lparr>sv_services := (name, f) # sv_services sv\<rparr>)) \<in> set (ads m')"
      "u \<noteq> badoff"
    then consider "u = v" | "(u, sv_queue sv, sv_server sv) \<in> set (ads m)" using v(4) by auto
    then show "\<exists>n \<in> fst ` set (sv_services (sv\<lparr>sv_services := (name, f) # sv_services sv\<rparr>)). find_service n m' = Inr u"
    proof cases
      case 2
      then obtain n where "n \<in> fst ` set (sv_services sv)" "find_service n m = Inr u"
        using assms(1) \<open>u \<noteq> badoff\<close> unfolding services_match_def by blast
      moreover from this have "0 \<notin> set n" using assms(1) by (auto simp: services_match_def)
      ultimately show ?thesis using v(5) \<open>u \<noteq> badoff\<close> by auto
    qed (use v(2) in simp)
  qed
qed

lemma unadvertised_match:
  assumes "services_match sv m" "name \<in> fst ` set (sv_services sv)"
  shows "\<exists>m'. unadvertise name (sv_queue sv) (sv_server sv) m = (Inr (), m') \<and>
    services_match (sv\<lparr>sv_services := filter (\<lambda>(n, _). n \<noteq> name) (sv_services sv)\<rparr>) m'"
proof -
  let ?q = "sv_queue sv" and ?s = "sv_server sv" and ?sv = "sv\<lparr>sv_services := filter (\<lambda>(n, _). n \<noteq> name) (sv_services sv)\<rparr>"
  obtain v where v: "find_service name m = Inr v" "v \<noteq> badoff" "(v, ?q, ?s) \<in> set (ads m)" "0 \<notin> set name"
    using assms by (auto simp: services_match_def)
  have ok: "ads_ok m" "mib_ok m" using assms(1) by (simp_all add: services_match_def ads_ok_def)
  obtain m' where m': "unadvertise name ?q ?s m = (Inr (), m')" "ads_ok m'" "set (ads m') = set (ads m) - {(v, ?q, ?s)}" "bumped v m m'"
    using unadvertise_known(2) [OF ok(1) v(1,2,3)] by blast
  have fs: "find_service n m' = find_service n m" for n
    using bumped_find [OF ok(2) _ m'(4)] m'(2) find_service_hit [OF ok(2) v(1,2)] by (simp add: ads_ok_def)
  have names: "fst ` set (sv_services ?sv) = fst ` set (sv_services sv) - {name}" by force
  have "services_match ?sv m'"
    unfolding services_match_def names fs
  proof (intro conjI ballI allI impI)
    show "ads_ok m'" by (rule m')
    have "distinct (map fst (filter P (sv_services sv)))" for P
      using assms(1) by (intro distinct_map_filter) (simp add: services_match_def)
    then show "distinct (map fst (sv_services ?sv))" by simp
  next
    fix n assume n: "n \<in> fst ` set (sv_services sv) - {name}"
    then show "0 \<notin> set n" using assms(1) by (auto simp: services_match_def)
    obtain u where u: "find_service n m = Inr u" "u \<noteq> badoff" "(u, ?q, ?s) \<in> set (ads m)"
      using assms(1) n by (auto simp: services_match_def)
    have "u \<noteq> v" using find_service_inj [OF ok(2) u(1), of name] v(1,4) u(2) n \<open>0 \<notin> set n\<close> by auto
    then show "\<exists>u. find_service n m = Inr u \<and> u \<noteq> badoff \<and> (u, sv_queue ?sv, sv_server ?sv) \<in> set (ads m')"
      using u m'(3) by auto
  next
    fix u assume "(u, sv_queue ?sv, sv_server ?sv) \<in> set (ads m')" "u \<noteq> badoff"
    then have "u \<noteq> v" "(u, ?q, ?s) \<in> set (ads m)" using m'(3) by auto
    then obtain n where "n \<in> fst ` set (sv_services sv)" "find_service n m = Inr u"
      using assms(1) \<open>u \<noteq> badoff\<close> unfolding services_match_def by blast
    then show "\<exists>n \<in> fst ` set (sv_services sv) - {name}. find_service n m = Inr u"
      using v(1) \<open>u \<noteq> v\<close> by (intro bexI [of _ n]) auto
  qed
  then show ?thesis using m'(1) by blast
qed

end
