(* ===== verification/Client_Claims.thy ===== *)
theory Client_Claims
  imports Client_Props Tx_Claims
begin

text \<open>
  The properties of the calls of src/client.cpp on the kernel of \<open>Ipc_Props\<close>: waiting for the reply
  of one call among others, time-outs, cancelled calls, requests.
\<close>

subsection \<open>A process for the examples\<close>

text \<open>
  A client whose reply queue is 7, outside of a transaction; its variable 8 points to a \<open>STRING\<close> buffer.
  Calls 1 and 2 are
  open, and queue 9 is known to serve the service \<open>S\<close>.
\<close>

definition demo_client :: client where
  "demo_client = \<lparr>cl_id = 0,
     cl_repo = [([83], \<lparr>se_queues = [\<lparr>qe_grpno = 1, qe_msqid = 9\<rparr>], current_queue = 0, cached_revision = 0, se_service = 0\<rparr>)],
     cl_rq = new_msg, cl_rpid = 7, blocktime_next = 0, blocktime_all = 0,
     cds = put_call 2 no_response (put_call 1 no_response (no_responses\<lparr>rs_seq := 2\<rparr>))\<rparr>"

definition demo_client_mib :: mibmem where
  "demo_client_mib = demo_trx_mib\<lparr>accessers := \<lparr>arr_len = 1, arr_size = 1, arr_data = [\<lparr>acc_pid = 5, acc_rpid = 7, acc_timeout = 0\<rparr>]\<rparr>\<rparr>"

definition demo_proc :: "tx_state \<Rightarrow> msg list \<Rightarrow> (unit, unit sync, kern) proc" where
  "demo_proc s ms =
     \<lparr>p_client = Some demo_client, p_tx = (demo_thread s)\<lparr>tx_mib := demo_client_mib\<rparr>, p_mem = demo_atmi demo_string,
      p_os = empty_kern\<lparr>k_queues := (\<lambda>q. if q = 7 then map Whole ms else [])\<rparr>, p_urcode = 0, p_server = False, p_pid = 5, p_now = 100\<rparr>"

definition proc_env :: "(unit, kern) env" where
  "proc_env = \<lparr>e_os = kern_os, e_al = demo_alloc, e_sw = tmnull_switch, e_qcreate = (\<lambda>k. (Some 7, k)), e_qdelete = (\<lambda>q k. k)\<rparr>"

definition demo_bytes :: "byte list" where
  "demo_bytes = [83, 84, 82, 73, 78, 71, 0, 0, 0, 0, 0, 0, 0, 0, 0, 0, 0, 0, 0, 0, 0, 0, 0, 0, 104, 105, 0]"

definition demo_reply :: "int \<Rightarrow> msg" where
  "demo_reply cd = new_msg\<lparr>m_cd := cd, m_rcode := 40 + cd, m_data := demo_bytes\<rparr>"

lemma demo_reply_sel [simp]:
  "m_cd (demo_reply cd) = cd" "m_rcode (demo_reply cd) = 40 + cd" "m_data (demo_reply cd) = demo_bytes"
  "m_cat (demo_reply cd) = 0" "m_rval (demo_reply cd) = 0"
  by (simp_all add: demo_reply_def new_msg_def)

lemma demo_string_fits: "tm_body demo_string = wr 0 demo_bytes (\<lambda>_. 0)"
  by (simp add: demo_string_def demo_bytes_def)

lemma wr_again: "wr p xs (wr p xs m) = wr p xs m"
  by (simp add: wr_def fun_eq_iff)

lemma demo_get_data:
  assumes "m_data m = demo_bytes"
  shows "get_data demo_alloc (Some 8) m (demo_atmi demo_string) = (Inr (), put_err 0 (demo_atmi demo_string))"
proof -
  have b: "demo_string\<lparr>tm_body := wr 0 demo_bytes (tm_body demo_string)\<rparr> = demo_string"
    unfolding demo_string_fits wr_again by (simp add: demo_string_fits [symmetric])
  have n: "length demo_bytes = 27" "demo_bytes \<noteq> []" by (simp_all add: demo_bytes_def)
  have s: "tm_size demo_string = 512" "tm_room demo_string = 512" "cells (demo_atmi demo_string) 8 = Some 1000"
    "blocks (demo_atmi demo_string) 1000 = Some demo_string"
    by (simp_all add: demo_string_def demo_atmi_def)
  have t: "tt_reinit (tptypes_table ! 2) = None" by (simp add: tptypes_table_def)
  have p: "put_block 1000 demo_string (demo_atmi demo_string) = demo_atmi demo_string"
    by (simp add: put_block_def demo_atmi_def)
  have "tpimport demo_alloc (Some (demo_bytes @ [])) (int (length demo_bytes)) (Some 8) 0 (demo_atmi demo_string) =
      (Inr (0, Some (int (length demo_bytes))), put_err 0 (demo_atmi demo_string))"
    using import_plain [OF s(3,4), of demo_bytes "tptypes_table ! 2" demo_alloc "[]"] n s t p
    unfolding b by (simp add: demo_string_type opt_hook_def)
  then show ?thesis using assms by (simp add: get_data_def)
qed

lemma demo_proc_sel [simp]:
  "p_client (demo_proc s ms) = Some demo_client" "p_mem (demo_proc s ms) = demo_atmi demo_string"
  "kern_inbox (p_os (demo_proc s ms)) 7 = ms" "kern_inbox (p_os (demo_proc s ms)) q = (if q = 7 then ms else [])"
  "e_os proc_env = kern_os" "e_al proc_env = demo_alloc" "cl_rpid demo_client = 7"
  by (simp_all add: demo_proc_def proc_env_def demo_client_def kern_inbox_def comp_def)

lemma demo_tptypes: "\<exists>ty. tptypes (Some 1000) (demo_atmi demo_string) = (Inr (Some ty), put_err 0 (demo_atmi demo_string))"
proof -
  have "blocks (demo_atmi demo_string) 1000 = Some demo_string" by (simp add: demo_atmi_def)
  then show ?thesis by (simp add: tptypes_def exception_boundary_def mem_tptypes_def block_type_eq demo_string_type)
qed

lemma kmsg_files_whole [simp]: "kmsg_files (map Whole ms) = []"
  by (induction ms) simp_all

lemma demo_waits: "waits proc_env (demo_proc s1 ms) demo_client 8"
proof -
  have "kern_ok (p_os (demo_proc s1 ms))"
    by (simp add: kern_ok_def demo_proc_def empty_kern_def)
  moreover have "\<not> transactional (p_tx (demo_proc s1 ms))"
    by (simp add: demo_proc_def transactional_def demo_thread_def in_trx_def)
  moreover have "listed (demo_client, demo_proc s1 ms)"
    by (simp add: listed_def demo_proc_def demo_client_mib_def arr_at_def demo_client_def)
  moreover have "cells (demo_atmi demo_string) 8 = Some 1000" by (simp add: demo_atmi_def)
  ultimately show ?thesis using demo_tptypes by (auto simp: waits_def)
qed

subsection \<open>Replies\<close>

text \<open>C5: \<open>tpgetrply\<close> of one descriptor waits for the reply of that call: replies of other calls that
  arrive before it are put into the table for later, in order, the reply is taken from the queue and
  nothing behind it, its data go to the caller's buffer, its codes become the result, \<open>tperrno\<close> and
  \<open>tpurcode\<close>, and the descriptor is free again.
\<close>

theorem own_reply_returned:
  assumes "waits env w c cell" "\<not> has_flag flags TPGETANY" "check cd (cds c) = 0" "\<not> is_buffered cd (cds c)"
    and "kern_inbox (p_os w) (cl_rpid c) = ms1 @ m # ms2"
    and "\<forall>x \<in> set ms1. m_cd x \<noteq> cd \<and> m_cat x \<noteq> unblock" "m_cd m = cd" "m_cat m \<noteq> unblock"
    and "get_data (e_al env) (Some cell) m (p_mem w) = (Inr (), m2)"
  shows "\<exists>w' c'. tpgetrply env cd (Some cell) flags w =
      (Inr (if m_rval m = 0 then 0 else -1, cd, Some (int (length (m_data m)))), w') \<and>
    p_client w' = Some c' \<and> p_mem w' = put_err (m_rval m) m2 \<and> p_urcode w' = m_rcode m \<and>
    kern_inbox (p_os w') = (kern_inbox (p_os w))(cl_rpid c := ms2) \<and>
    RBT.lookup (calls (cds c')) = (RBT.lookup (calls (cds c)) ++
      map_of (rev (map (\<lambda>x. (m_cd x, \<lparr>rs_status = resp_buffered, rs_res = Some x\<rparr>)) ms1)))(cd := None)"
  using tpgetrply_takes [OF assms] by blast

lemma demo_call_open:
  "RBT.lookup (calls (cds demo_client)) = [1 \<mapsto> no_response, 2 \<mapsto> no_response]"
  by (auto simp: demo_client_def no_responses_def fun_eq_iff)

theorem own_reply_returned_witness:
  "\<exists>w' c'. tpgetrply proc_env 2 (Some 8) 0 (demo_proc s1 [demo_reply 1, demo_reply 2]) = (Inr (0, 2, Some 27), w') \<and>
     p_client w' = Some c' \<and> p_urcode w' = 42 \<and> kern_inbox (p_os w') 7 = [] \<and> check 1 (cds c') = 0 \<and> check 2 (cds c') = -1"
proof -
  have o: "check 2 (cds demo_client) = 0" "\<not> is_buffered 2 (cds demo_client)"
    by (simp_all add: check_def is_buffered_def call_at_def demo_call_open no_response_def)
  have g: "get_data (e_al proc_env) (Some 8) (demo_reply 2) (p_mem (demo_proc s1 [demo_reply 1, demo_reply 2])) =
      (Inr (), put_err 0 (demo_atmi demo_string))"
    by (simp add: demo_get_data)
  have l: "length demo_bytes = 27" by (simp add: demo_bytes_def)
  from own_reply_returned [OF demo_waits _ o _ _ _ _ g, of 0 "[demo_reply 1]" "[]"]
  show ?thesis using l by (fastforce simp: has_flag_def check_def demo_call_open)
qed

lemma check_open: "check cd ds = 0 \<longleftrightarrow> RBT.lookup (calls ds) cd \<noteq> None"
  by (simp add: check_def)

lemma not_buffered_none:
  "(\<And>r. RBT.lookup (calls ds) cd = Some r \<Longrightarrow> rs_status r = resp_none) \<Longrightarrow> \<not> is_buffered cd ds"
  by (auto simp: is_buffered_def call_at_def no_response_def split: option.splits)

lemma tpcancel_run:
  assumes "p_client w = Some c" "check i (cds c) = 0"
  shows "tpcancel env i w = (Inr 0, (set_err 0 w)\<lparr>p_client := Some (c\<lparr>cds := snd (release i (cds c))\<rparr>)\<rparr>)"
proof -
  have "fst (release i (cds c)) = 0" using assms(2) by (simp add: release_fst)
  then have "cl_tpcancel i (c, set_err 0 w) = (Inr 0, (c\<lparr>cds := snd (release i (cds c))\<rparr>, set_err 0 w))"
    by (cases "release i (cds c)") (simp add: cl_tpcancel_def cl_err_def set_err_def)
  then have "with_client env (cl_tpcancel i) (set_err 0 w) =
      (Inr 0, (set_err 0 w)\<lparr>p_client := Some (c\<lparr>cds := snd (release i (cds c))\<rparr>)\<rparr>)"
    using assms(1) by (simp add: with_client_def getclient_def)
  then show ?thesis by (simp add: tpcancel_def proc_boundary_def exception_boundary_def)
qed

lemma waits_after:
  assumes "waits env w c cell" "p_client w' = Some c'" "listed (c', w')" "tx_same (p_tx w) (p_tx w')" "kern_ok (p_os w')"
    and "tptypes (cells (p_mem w') cell) (p_mem w') = (Inr (Some ty), m)"
  shows "waits env w' c' cell"
  using assms by (auto simp: waits_def tx_same_def transactional_def)

text \<open>a time-out message, also one that is older than the call, ends the wait with \<open>TPETIME\<close> even when
  the reply is right behind it. The descriptor stays open, and asking again returns the reply.
\<close>

theorem timeout_keeps_call:
  assumes "waits env w c cell" "\<not> has_flag flags TPGETANY" "check cd (cds c) = 0" "\<not> is_buffered cd (cds c)"
    and "kern_inbox (p_os w) (cl_rpid c) = u # m # ms" "m_cat u = unblock" "m_cd m = cd" "m_cat m \<noteq> unblock"
    and "get_data (e_al env) (Some cell) m (p_mem w) = (Inr (), m2)"
  shows "\<exists>w1 w2 c1. tpgetrply env cd (Some cell) flags w = (Inr (-1, cd, None), w1) \<and> tperr (p_mem w1) = TPETIME \<and>
    p_client w1 = Some c1 \<and> cds c1 = cds c \<and>
    tpgetrply env cd (Some cell) flags w1 =
      (Inr (if m_rval m = 0 then 0 else -1, cd, Some (int (length (m_data m)))), w2) \<and>
    p_mem w2 = put_err (m_rval m) m2 \<and> kern_inbox (p_os w2) (cl_rpid c) = ms"
proof -
  have r: "ready_reply cd flags c = Some None" using assms(2-4) by (simp add: ready_reply_def)
  obtain w1 c1 where 1: "tpgetrply env cd (Some cell) flags w = (Inr (-1, cd, None), w1)" "p_client w1 = Some c1"
    "waits env w1 c1 cell" "cl_rpid c1 = cl_rpid c" "cds c1 = cds c" "p_mem w1 = put_err TPETIME (p_mem w)"
    "kern_inbox (p_os w1) = (kern_inbox (p_os w))(cl_rpid c := m # ms)"
    using tpgetrply_unblocked [OF assms(1) r assms(5,6)] assms(2) by auto
  have i: "kern_inbox (p_os w1) (cl_rpid c1) = [] @ m # ms" using 1(4,7) by simp
  have g: "get_data (e_al env) (Some cell) m (p_mem w1) = (Inr (), m2)" using 1(6) assms(9) by simp
  show ?thesis
    using 1 tpgetrply_takes [OF 1(3) assms(2) assms(3,4) [folded 1(5)] i _ assms(7,8) g] by fastforce
qed

theorem timeout_keeps_call_witness:
  "\<exists>w1 w2. tpgetrply proc_env 1 (Some 8) 0 (demo_proc s1 [new_msg\<lparr>m_cat := 2\<rparr>, demo_reply 1]) = (Inr (-1, 1, None), w1) \<and>
     tperr (p_mem w1) = 13 \<and> tpgetrply proc_env 1 (Some 8) 0 w1 = (Inr (0, 1, Some 27), w2)"
proof -
  have o: "check 1 (cds demo_client) = 0" "\<not> is_buffered 1 (cds demo_client)"
    by (simp_all add: check_def is_buffered_def call_at_def demo_call_open no_response_def)
  have g: "get_data (e_al proc_env) (Some 8) (demo_reply 1) (p_mem (demo_proc s1 [new_msg\<lparr>m_cat := 2\<rparr>, demo_reply 1])) =
      (Inr (), put_err 0 (demo_atmi demo_string))"
    by (simp add: demo_get_data)
  have l: "length demo_bytes = 27" by (simp add: demo_bytes_def)
  from timeout_keeps_call [OF demo_waits _ o _ _ _ _ g, of 0 "new_msg\<lparr>m_cat := 2\<rparr>" "[]"]
  show ?thesis using l by (fastforce simp: has_flag_def)
qed

text \<open>cancelling a call does not cancel its reply: one that arrives while another call is waited for
  opens the descriptor again and is handed out by the next \<open>tpgetrply\<close> with \<open>TPGETANY\<close>.
\<close>

theorem cancelled_reply_returns:
  assumes "waits env w c cell" "i \<noteq> j" "i \<noteq> -1" "check i (cds c) = 0" "check j (cds c) = 0"
    and "\<forall>k r. RBT.lookup (calls (cds c)) k = Some r \<longrightarrow> rs_status r = resp_none"
    and "kern_inbox (p_os w) (cl_rpid c) = [x, m]" "m_cd x = i" "m_cat x \<noteq> unblock" "m_cd m = j" "m_cat m \<noteq> unblock"
    and "get_data (e_al env) (Some cell) m (p_mem w) = (Inr (), m2)"
    and "tptypes (cells m2 cell) m2 = (Inr (Some ty), m2')" "get_data (e_al env) (Some cell) x m2 = (Inr (), m3)"
  shows "\<exists>w1 w2 w3 l2 l3. tpcancel env i w = (Inr 0, w1) \<and>
    tpgetrply env j (Some cell) 0 w1 = (Inr (if m_rval m = 0 then 0 else -1, j, l2), w2) \<and>
    tpgetrply env j (Some cell) TPGETANY w2 = (Inr (if m_rval x = 0 then 0 else -1, i, l3), w3) \<and>
    p_urcode w3 = m_rcode x \<and> p_mem w3 = put_err (m_rval x) m3"
proof -
  let ?c = "c\<lparr>cds := snd (release i (cds c))\<rparr>"
  let ?w = "(set_err 0 w)\<lparr>p_client := Some ?c\<rparr>"
  have l: "RBT.lookup (calls (cds ?c)) = (RBT.lookup (calls (cds c)))(i := None)" by (simp add: release_lookup)
  have w1: "waits env ?w ?c cell" using assms(1) by (auto simp: waits_def listed_def)
  have o: "check j (cds ?c) = 0" "\<not> is_buffered j (cds ?c)"
    using assms(2,5,6) l by (auto simp: check_open intro!: not_buffered_none split: if_splits)
  have i: "kern_inbox (p_os ?w) (cl_rpid ?c) = [x] @ m # []" using assms(7) by simp
  obtain w2 c2 l2 where 2: "tpgetrply env j (Some cell) 0 ?w = (Inr (if m_rval m = 0 then 0 else -1, j, l2), w2)"
    "p_client w2 = Some c2" "listed (c2, w2)" "tx_same (p_tx ?w) (p_tx w2)" "p_mem w2 = put_err (m_rval m) m2" "kern_ok (p_os w2)"
    "RBT.lookup (calls (cds c2)) = ((RBT.lookup (calls (cds ?c)))(i \<mapsto> \<lparr>rs_status = resp_buffered, rs_res = Some x\<rparr>))(j := None)"
    using tpgetrply_takes [OF w1 _ o i _ assms(10,11), of 0 m2] assms(2,8,9,12)
    by (auto simp: has_flag_def)
  have w2: "waits env w2 c2 cell"
    using waits_after [OF w1 2(2-4,6)] 2(5) assms(13) by simp
  have b: "RBT.lookup (calls (cds c2)) i = Some \<lparr>rs_status = resp_buffered, rs_res = Some x\<rparr>" using 2(7) assms(2) by simp
  have "any_buffered (cds c2) = i"
    using 2(7) l assms(2,6) by (intro any_buffered_hit [OF b _ _ assms(3)]) (auto split: if_splits)
  then have r: "ready_reply j TPGETANY c2 = Some (Some i)" using assms(3) by (simp add: ready_reply_def has_flag_def)
  have g: "get_data (e_al env) (Some cell) x (p_mem w2) = (Inr (), m3)" using 2(5) assms(14) by simp
  obtain w3 l3 where "tpgetrply env j (Some cell) TPGETANY w2 = (Inr (if m_rval x = 0 then 0 else -1, i, l3), w3)"
    "p_urcode w3 = m_rcode x" "p_mem w3 = put_err (m_rval x) m3"
    using tpgetrply_early [OF w2 r b assms(8,9) _ g] by (auto simp: has_flag_def)
  moreover have "tpcancel env i w = (Inr 0, ?w)"
    using assms(1,4) by (intro tpcancel_run) (auto simp: waits_def)
  ultimately show ?thesis using 2(1) by blast
qed

theorem cancelled_reply_returns_witness:
  "\<exists>w1 w2 w3 l2 l3. tpcancel proc_env 1 (demo_proc s1 [demo_reply 1, demo_reply 2]) = (Inr 0, w1) \<and>
     tpgetrply proc_env 2 (Some 8) 0 w1 = (Inr (0, 2, l2), w2) \<and>
     tpgetrply proc_env 2 (Some 8) TPGETANY w2 = (Inr (0, 1, l3), w3) \<and> p_urcode w3 = 41"
proof -
  let ?w = "demo_proc s1 [demo_reply 1, demo_reply 2]"
  obtain ty where ty: "tptypes (cells (put_err 0 (demo_atmi demo_string)) 8) (put_err 0 (demo_atmi demo_string)) =
      (Inr (Some ty), put_err 0 (demo_atmi demo_string))"
    using demo_tptypes by (auto simp: demo_atmi_def [of demo_string])
  have "get_data (e_al proc_env) (Some 8) (demo_reply 2) (p_mem ?w) = (Inr (), put_err 0 (demo_atmi demo_string))"
    "get_data (e_al proc_env) (Some 8) (demo_reply 1) (put_err 0 (demo_atmi demo_string)) = (Inr (), put_err 0 (demo_atmi demo_string))"
    by (simp_all add: demo_get_data)
  moreover have "check 1 (cds demo_client) = 0" "check 2 (cds demo_client) = 0"
    "\<forall>k r. RBT.lookup (calls (cds demo_client)) k = Some r \<longrightarrow> rs_status r = resp_none"
    by (auto simp: check_open demo_call_open no_response_def split: if_splits)
  ultimately show ?thesis
    using cancelled_reply_returns [of proc_env ?w demo_client 8 1 2 "demo_reply 1" "demo_reply 2"
        "put_err 0 (demo_atmi demo_string)" ty "put_err 0 (demo_atmi demo_string)" "put_err 0 (demo_atmi demo_string)"]
      demo_waits [of "[demo_reply 1, demo_reply 2]"] ty
    by auto
qed

subsection \<open>Requests\<close>

lemma next_blocktime_send:
  "\<exists>b. next_blocktime s = (fst (next_blocktime s), ((fst s)\<lparr>blocktime_next := b\<rparr>, snd s))"
  by (cases s) (auto simp: next_blocktime_def intro: exI [of _ "blocktime_next (fst s)"])

text \<open>Sending the request that is ready: whether there is room decides.\<close>

lemma send_request_kern:
  assumes "e_os env = kern_os" "kern_ok (p_os (snd s))" "1 \<le> m_mtype (cl_rq (fst s))"
    and "k_files (p_os (snd s)) (k_next (p_os (snd s))) = None"
    and "to_flags flags = noflags \<longrightarrow> 0 \<le> fst (next_blocktime s) \<and> fst (next_blocktime s) < 2 ^ 31"
    and "has_flag flags TPNOTIME \<longrightarrow> length (k_queues (p_os (snd s)) qid) < k_cap (p_os (snd s))"
    and "m_cd (cl_rq (fst s)) \<noteq> 0 \<longrightarrow> check (m_cd (cl_rq (fst s))) (cds (fst s)) = 0"
  shows "\<exists>s'. kern_ok (p_os (snd s')) \<and> (if length (k_queues (p_os (snd s)) qid) < k_cap (p_os (snd s)) then
      send_request env qid flags s = (Inr (m_cd (cl_rq (fst s))), s') \<and> tperr (p_mem (snd s')) = 0 \<and> cds (fst s') = cds (fst s) \<and>
      (\<exists>x. kern_inbox (p_os (snd s')) = (kern_inbox (p_os (snd s)))(qid := kern_inbox (p_os (snd s)) qid @ [x]) \<and>
         same_msg x (cl_rq (fst s)))
    else
      send_request env qid flags s = (Inr (-1), s') \<and>
      tperr (p_mem (snd s')) = (if has_flag flags TPNOBLOCK then TPEBLOCK else TPETIME) \<and>
      kern_inbox (p_os (snd s')) = kern_inbox (p_os (snd s)) \<and>
      cds (fst s') = (if m_cd (cl_rq (fst s)) = 0 then cds (fst s) else snd (release (m_cd (cl_rq (fst s))) (cds (fst s)))))"
proof -
  let ?q = "cl_rq (fst s)" and ?k = "p_os (snd s)" and ?ok = "length (k_queues (p_os (snd s)) qid) < k_cap (p_os (snd s))"
  obtain b where b: "next_blocktime s = (fst (next_blocktime s), ((fst s)\<lparr>blocktime_next := b\<rparr>, snd s))"
    using next_blocktime_send by blast
  have nt: "to_flags flags = notime \<longleftrightarrow> has_flag flags TPNOTIME" by (simp add: to_flags_def)
  obtain m k where m: "qsend kern_os qid ?q (fst (next_blocktime s)) (to_flags flags) ?k = (Inr (?ok, m), k)"
    using kern_send [OF assms(3,4,5)] assms(6) nt by blast
  note sent = kern_mq.send_ok [OF assms(2) m]
  have cd: "m_cd m = m_cd ?q" using qsend_msg [OF m] by auto
  define s' where "s' = ((fst s)\<lparr>blocktime_next := b, cl_rq := m\<rparr>, (snd s)\<lparr>p_os := k\<rparr>)"
  have run: "send_request env qid flags s = (if ?ok then (Inr (m_cd m), cl_err 0 s') else
      let s2 = cl_err (if has_flag flags TPNOBLOCK then TPEBLOCK else TPETIME) s' in
      if m_cd m \<noteq> 0 then (case release (m_cd m) (cds (fst s2)) of
        (rc, ds) \<Rightarrow> (Inr (-1), let s = ((fst s2)\<lparr>cds := ds\<rparr>, snd s2) in if rc = -1 then cl_err TPEBADDESC s else s))
      else (Inr (-1), s2))"
    by (subst send_request_def, subst b) (simp add: on_os_def assms(1) m s'_def Let_def split del: if_split cong: if_cong)
  show ?thesis
  proof (cases ?ok)
    case True
    then show ?thesis
      using run sent cd by (intro exI [of _ "cl_err 0 s'"]) (auto simp: s'_def cl_err_def)
  next
    case False
    show ?thesis
    proof (cases "m_cd ?q = 0")
      case True
      then show ?thesis
        using run sent cd False
        by (intro exI [of _ "cl_err (if has_flag flags TPNOBLOCK then TPEBLOCK else TPETIME) s'"]) (auto simp: s'_def cl_err_def)
    next
      case open_: False
      then obtain ds where r: "release (m_cd ?q) (cds (fst s)) = (0, ds)"
        using assms(7) release_fst [of "m_cd ?q" "cds (fst s)"] by (cases "release (m_cd ?q) (cds (fst s))") simp
      let ?s2 = "cl_err (if has_flag flags TPNOBLOCK then TPEBLOCK else TPETIME) s'"
      show ?thesis
        using run sent cd False open_ r
        by (intro exI [of _ "((fst ?s2)\<lparr>cds := ds\<rparr>, snd ?s2)"]) (auto simp: s'_def cl_err_def)
    qed
  qed
qed

text \<open>The client after the request is addressed, and what is sent.\<close>

definition addressed :: "client \<Rightarrow> ('r, 'n) tx_world \<Rightarrow> repo \<Rightarrow> msg \<Rightarrow> byte list \<Rightarrow> int \<Rightarrow> client" where
  "addressed c t rp m name flags =
     (let reply = \<not> has_flag flags TPNOREPLY;
          q = m\<lparr>m_service := name, m_replyq := (if reply then cl_rpid c else -1), m_cd := (if reply then fst (nextseq (cds c)) else 0)\<rparr>
      in c\<lparr>cl_repo := rp, cds := (if reply then snd (allocate (cds c)) else cds c),
           cl_rq := (if \<not> has_flag flags TPNOTRAN \<and> transactional t
             then q\<lparr>m_flags := m_flags m OR TPTRAN, m_gttid := tx_gttid t\<rparr> else q\<lparr>m_flags := 0, m_gttid := bad_gttid\<rparr>)\<rparr>)"

definition is_request :: "client \<Rightarrow> ('r, 'n) tx_world \<Rightarrow> byte list \<Rightarrow> byte list \<Rightarrow> int \<Rightarrow> int \<Rightarrow> msg \<Rightarrow> bool" where
  "is_request c t svc bytes flags cd x \<longleftrightarrow>
     c_string (m_service x) = svc \<and> m_data x = bytes \<and> m_cd x = cd \<and>
     m_replyq x = (if has_flag flags TPNOREPLY then -1 else cl_rpid c) \<and>
     (if \<not> has_flag flags TPNOTRAN \<and> transactional t then has_flag (m_flags x) TPTRAN \<and> m_gttid x = tx_gttid t
      else m_flags x = 0 \<and> m_gttid x = bad_gttid)"

lemma has_flag_or: "has_flag (a OR TPTRAN) TPTRAN"
proof -
  have "(a OR 16) AND 16 = (16 :: int)" by (rule bit_eqI) (auto simp: bit_simps)
  then show ?thesis by (simp add: has_flag_def)
qed

lemma same_msg_fields:
  "same_msg x q \<Longrightarrow> m_service x = m_service q \<and> m_data x = m_data q \<and> m_cd x = m_cd q \<and> m_replyq x = m_replyq q \<and>
     m_flags x = m_flags q \<and> m_gttid x = m_gttid q"
  by (cases x; cases q) (simp add: same_msg_def)

lemma addressed_request:
  assumes "same_msg x (cl_rq (addressed c t rp m name flags))" "c_string name = svc"
  shows "is_request c t svc (m_data m) flags (if has_flag flags TPNOREPLY then 0 else fst (nextseq (cds c))) x"
  using same_msg_fields [OF assms(1)] assms(2) by (auto simp: addressed_def is_request_def Let_def has_flag_or)

lemma addressed_sel [simp]:
  "cl_rpid (addressed c t rp m name flags) = cl_rpid c" "blocktime_next (addressed c t rp m name flags) = blocktime_next c"
  "blocktime_all (addressed c t rp m name flags) = blocktime_all c"
  "cds (addressed c t rp m name flags) = (if has_flag flags TPNOREPLY then cds c else snd (allocate (cds c)))"
  "m_mtype (cl_rq (addressed c t rp m name flags)) = m_mtype m"
  "m_cd (cl_rq (addressed c t rp m name flags)) = (if has_flag flags TPNOREPLY then 0 else fst (nextseq (cds c)))"
  by (simp_all add: addressed_def Let_def)

lemma allocate_fresh:
  assumes "\<not> length (RBT.entries (calls ds)) > 1024"
  shows "fst (allocate ds) = fst (nextseq ds)"
    and "RBT.lookup (calls (snd (allocate ds))) = (RBT.lookup (calls ds))(fst (nextseq ds) \<mapsto> no_response)"
  using assms by (simp_all add: allocate_def nextseq_def Let_def)

lemma nextseq_range: "0 \<le> rs_seq ds \<Longrightarrow> 0 < fst (nextseq ds)"
  by (simp add: nextseq_def Let_def)

text \<open>How \<open>tpacall\<close> comes to send: what is wrong with the request is found before.\<close>

definition can_call :: "('r, 'n, 'k) proc \<Rightarrow> client \<Rightarrow> byte list \<Rightarrow> nat option \<Rightarrow> int \<Rightarrow> int \<Rightarrow> repo \<Rightarrow> msg \<Rightarrow> atmi \<Rightarrow> bool" where
  "can_call w c svc data len qid rp m mem2 \<longleftrightarrow>
     p_client w = Some c \<and> get_queue (-1) svc (tx_mib (p_tx w)) (cl_repo c) = (Inr qid, rp) \<and>
     (data = None \<or> (\<exists>ty m. tptypes data (p_mem w) = (Inr (Some ty), m))) \<and>
     set_data data len (cl_rq c) (put_err 0 (p_mem w)) = (Inr m, mem2) \<and>
     0 \<notin> set svc \<and> length svc < length (m_service m)"

lemma tpacall_of_queue:
  assumes "can_call w c svc data len qid rp m mem2"
    and "cl_tpacall_queue env qid svc data len flags (c\<lparr>cl_repo := rp\<rparr>, set_err 0 w) = (Inr r, s')"
  shows "tpacall env svc data len flags w = (Inr r, (snd s')\<lparr>p_client := Some (fst s')\<rparr>)"
proof -
  have "cl_tpacall_group env (-1) svc data len flags (c, set_err 0 w) = (Inr r, s')"
    using assms by (simp add: can_call_def cl_tpacall_group_def lift_except_def)
  then have "with_client env (cl_tpacall_group env (-1) svc data len flags) (set_err 0 w) =
      (Inr r, (snd s')\<lparr>p_client := Some (fst s')\<rparr>)"
    using assms(1) by (simp add: can_call_def with_client_def getclient_def split: prod.split)
  then show ?thesis by (simp add: tpacall_def proc_boundary_def exception_boundary_def)
qed

lemma known_data:
  assumes "can_call w c svc data len qid rp m mem2"
  shows "(if data = None then (Inr True, (c', set_err 0 w))
      else seqx (on_mem (tptypes data) (c', set_err 0 w)) (\<lambda>r s. (Inr (r \<noteq> None), s))) = (Inr True, (c', set_err 0 w))"
proof (cases data)
  case (Some p)
  then obtain ty m' where t: "tptypes (Some p) (p_mem w) = (Inr (Some ty), m')"
    using assms by (auto simp: can_call_def)
  have "(set_err 0 w)\<lparr>p_mem := put_err 0 (p_mem w)\<rparr> = set_err 0 w" by (simp add: set_err_def)
  then show ?thesis using Some t tptypes_known [OF t] by (simp add: on_mem_def)
qed simp

lemma cl_tpacall_ready:
  assumes "can_call w c svc data len qid rp m mem2"
  obtains name where "c_string name = svc"
    "cl_tpacall_queue env qid svc data len flags (c\<lparr>cl_repo := rp\<rparr>, set_err 0 w) =
      (case address_request flags (c\<lparr>cl_repo := rp, cl_rq := m\<lparr>m_service := name\<rparr>\<rparr>, (set_err 0 w)\<lparr>p_mem := mem2\<rparr>) of
         (cd, s) \<Rightarrow> if cd = -1 then (Inr (-1), s) else send_request env qid flags (attach_transaction flags s))"
proof -
  obtain name where n: "checked_copy_cstr svc (m_service m) = Inr name"
    using assms by (simp add: can_call_def checked_copy_cstr_def Let_def)
  moreover have "on_mem (set_data data len (cl_rq (c\<lparr>cl_repo := rp\<rparr>))) (c\<lparr>cl_repo := rp\<rparr>, set_err 0 w) =
      (Inr m, (c\<lparr>cl_repo := rp\<rparr>, (set_err 0 w)\<lparr>p_mem := mem2\<rparr>))"
    using assms by (simp add: can_call_def on_mem_def)
  moreover have "c_string name = svc" using n assms by (auto simp: can_call_def checked_copy_cstr_string)
  ultimately show ?thesis
    by (intro that [of name]) (simp_all add: cl_tpacall_queue_def known_data [OF assms] lift_except_def)
qed

lemma cl_tpacall_sends:
  assumes "can_call w c svc data len qid rp m mem2" "0 \<le> rs_seq (cds c)"
    and "has_flag flags TPNOREPLY \<or> \<not> length (RBT.entries (calls (cds c))) > 1024"
  obtains name where "c_string name = svc"
    "cl_tpacall_queue env qid svc data len flags (c\<lparr>cl_repo := rp\<rparr>, set_err 0 w) =
      send_request env qid flags (addressed c (p_tx w) rp m name flags, (set_err 0 w)\<lparr>p_mem := mem2\<rparr>)"
proof -
  obtain name where n: "c_string name = svc"
    "cl_tpacall_queue env qid svc data len flags (c\<lparr>cl_repo := rp\<rparr>, set_err 0 w) =
      (case address_request flags (c\<lparr>cl_repo := rp, cl_rq := m\<lparr>m_service := name\<rparr>\<rparr>, (set_err 0 w)\<lparr>p_mem := mem2\<rparr>) of
         (cd, s) \<Rightarrow> if cd = -1 then (Inr (-1), s) else send_request env qid flags (attach_transaction flags s))"
    using cl_tpacall_ready [OF assms(1)] by blast
  show ?thesis
  proof (cases "has_flag flags TPNOREPLY")
    case True
    then show ?thesis
      using n by (intro that [of name]) (auto simp: address_request_def attach_transaction_def addressed_def Let_def)
  next
    case False
    then have "fst (allocate (cds c)) = fst (nextseq (cds c))" using assms(3) allocate_fresh(1) by blast
    then obtain ds where "allocate (cds c) = (fst (nextseq (cds c)), ds)" by (cases "allocate (cds c)") simp
    then show ?thesis
      using n False nextseq_range [OF assms(2)]
      by (intro that [of name]) (auto simp: address_request_def attach_transaction_def addressed_def Let_def)
  qed
qed

lemma cl_tpacall_full:
  assumes "can_call w c svc data len qid rp m mem2"
    and "\<not> has_flag flags TPNOREPLY" "length (RBT.entries (calls (cds c))) > 1024"
  shows "\<exists>s'. cl_tpacall_queue env qid svc data len flags (c\<lparr>cl_repo := rp\<rparr>, set_err 0 w) = (Inr (-1), s') \<and>
    tperr (p_mem (snd s')) = TPELIMIT \<and> cds (fst s') = cds c \<and> p_os (snd s') = p_os w"
proof -
  obtain name where n: "cl_tpacall_queue env qid svc data len flags (c\<lparr>cl_repo := rp\<rparr>, set_err 0 w) =
      (case address_request flags (c\<lparr>cl_repo := rp, cl_rq := m\<lparr>m_service := name\<rparr>\<rparr>, (set_err 0 w)\<lparr>p_mem := mem2\<rparr>) of
         (cd, s) \<Rightarrow> if cd = -1 then (Inr (-1), s) else send_request env qid flags (attach_transaction flags s))"
    using cl_tpacall_ready [OF assms(1)] by blast
  then show ?thesis
    using assms(2,3) by (auto simp: address_request_def allocate_def Let_def cl_err_def)
qed

text \<open>C8: \<open>tpacall\<close> of a service that exists sends exactly one message, to the end of the queue that was
  looked up, with the service's name, the data, the address for the reply, the new descriptor it
  returns and the caller's transaction unless \<open>TPNOTRAN\<close> is given; or it returns -1, sends nothing and
  leaves no descriptor behind: \<open>TPELIMIT\<close> when more than 1024 calls are open, \<open>TPEBLOCK\<close> or \<open>TPETIME\<close>
  when the queue stays full.
\<close>

theorem tpacall_correct:
  assumes "can_call w c svc data len qid rp m mem2" "0 \<le> rs_seq (cds c)" "1 \<le> m_mtype m"
    and "e_os env = kern_os" "kern_ok (p_os w)" "k_files (p_os w) (k_next (p_os w)) = None"
    and "to_flags flags = noflags \<longrightarrow> 0 \<le> fst (next_blocktime (c, w)) \<and> fst (next_blocktime (c, w)) < 2 ^ 31"
    and "has_flag flags TPNOTIME \<longrightarrow> length (k_queues (p_os w) qid) < k_cap (p_os w)"
  shows "\<exists>rc w' c'. tpacall env svc data len flags w = (Inr rc, w') \<and> p_client w' = Some c' \<and>
    (if \<not> has_flag flags TPNOREPLY \<and> length (RBT.entries (calls (cds c))) > 1024 then
       rc = -1 \<and> tperr (p_mem w') = TPELIMIT \<and> p_os w' = p_os w \<and> cds c' = cds c
     else if length (k_queues (p_os w) qid) < k_cap (p_os w) then
       rc = (if has_flag flags TPNOREPLY then 0 else fst (nextseq (cds c))) \<and> tperr (p_mem w') = 0 \<and>
       (\<exists>x. kern_inbox (p_os w') = (kern_inbox (p_os w))(qid := kern_inbox (p_os w) qid @ [x]) \<and>
          is_request c (p_tx w) svc (m_data m) flags rc x) \<and>
       RBT.lookup (calls (cds c')) =
         (if has_flag flags TPNOREPLY then RBT.lookup (calls (cds c)) else (RBT.lookup (calls (cds c)))(rc \<mapsto> no_response))
     else
       rc = -1 \<and> tperr (p_mem w') = (if has_flag flags TPNOBLOCK then TPEBLOCK else TPETIME) \<and>
       kern_inbox (p_os w') = kern_inbox (p_os w) \<and>
       RBT.lookup (calls (cds c')) =
         (if has_flag flags TPNOREPLY then RBT.lookup (calls (cds c))
          else (RBT.lookup (calls (cds c)))(fst (nextseq (cds c)) := None)))"
proof (cases "\<not> has_flag flags TPNOREPLY \<and> length (RBT.entries (calls (cds c))) > 1024")
  case True
  then obtain s' where "cl_tpacall_queue env qid svc data len flags (c\<lparr>cl_repo := rp\<rparr>, set_err 0 w) = (Inr (-1), s')"
    "tperr (p_mem (snd s')) = TPELIMIT" "cds (fst s') = cds c" "p_os (snd s') = p_os w"
    using cl_tpacall_full [OF assms(1)] by blast
  then show ?thesis using tpacall_of_queue [OF assms(1)] True by auto
next
  case False
  obtain name where n: "c_string name = svc"
    "cl_tpacall_queue env qid svc data len flags (c\<lparr>cl_repo := rp\<rparr>, set_err 0 w) =
      send_request env qid flags (addressed c (p_tx w) rp m name flags, (set_err 0 w)\<lparr>p_mem := mem2\<rparr>)"
    using cl_tpacall_sends [OF assms(1,2)] False by blast
  let ?s = "(addressed c (p_tx w) rp m name flags, (set_err 0 w)\<lparr>p_mem := mem2\<rparr>)"
  let ?cd = "if has_flag flags TPNOREPLY then 0 else fst (nextseq (cds c))"
  have bt: "fst (next_blocktime ?s) = fst (next_blocktime (c, w))" by (simp add: next_blocktime_def)
  have fr: "\<not> has_flag flags TPNOREPLY \<longrightarrow>
      RBT.lookup (calls (snd (allocate (cds c)))) = (RBT.lookup (calls (cds c)))(fst (nextseq (cds c)) \<mapsto> no_response)"
    using False allocate_fresh(2) by blast
  have pre: "e_os env = kern_os" "kern_ok (p_os (snd ?s))" "1 \<le> m_mtype (cl_rq (fst ?s))"
    "k_files (p_os (snd ?s)) (k_next (p_os (snd ?s))) = None"
    "to_flags flags = noflags \<longrightarrow> 0 \<le> fst (next_blocktime ?s) \<and> fst (next_blocktime ?s) < 2 ^ 31"
    "has_flag flags TPNOTIME \<longrightarrow> length (k_queues (p_os (snd ?s)) qid) < k_cap (p_os (snd ?s))"
    "m_cd (cl_rq (fst ?s)) \<noteq> 0 \<longrightarrow> check (m_cd (cl_rq (fst ?s))) (cds (fst ?s)) = 0"
    using assms(3-8) fr by (simp_all add: bt check_open)
  note sent = send_request_kern [OF pre]
  show ?thesis
  proof (cases "length (k_queues (p_os w) qid) < k_cap (p_os w)")
    case True
    then obtain s' x where x: "kern_inbox (p_os (snd s')) = (kern_inbox (p_os w))(qid := kern_inbox (p_os w) qid @ [x])"
      "same_msg x (cl_rq (addressed c (p_tx w) rp m name flags))" "send_request env qid flags ?s = (Inr ?cd, s')"
      "tperr (p_mem (snd s')) = 0" "cds (fst s') = cds (fst ?s)"
      using sent by (simp split del: if_split del: split_paired_Ex) blast
    note rq = addressed_request [OF x(2) n(1)]
    show ?thesis
      using tpacall_of_queue [OF assms(1) n(2) [unfolded x(3)]] False True x(1,4,5) rq fr by auto
  next
    case nr: False
    then obtain s' where x: "send_request env qid flags ?s = (Inr (-1), s')"
      and s': "tperr (p_mem (snd s')) = (if has_flag flags TPNOBLOCK then TPEBLOCK else TPETIME)"
        "kern_inbox (p_os (snd s')) = kern_inbox (p_os w)"
        "cds (fst s') = (if ?cd = 0 then cds (fst ?s) else snd (release ?cd (cds (fst ?s))))"
      using sent by (auto split del: if_split simp del: split_paired_Ex cong: if_cong)
    show ?thesis
      using tpacall_of_queue [OF assms(1) n(2) [unfolded x]] False nr s' fr nextseq_range [OF assms(2)]
      by (auto simp: release_lookup split: if_splits)
  qed
qed

lemma entries_count: "length (RBT.entries t) = card (dom (RBT.lookup t))"
  using distinct_card [OF RBT.distinct_keys [of t]] by (simp add: RBT.lookup_keys RBT.keys_def_alt)

lemma demo_can_call: "\<exists>rp. can_call (demo_proc s1 ms) demo_client [83] None 0 9 rp new_msg (put_err 0 (demo_atmi demo_string))"
proof -
  have "arr_at (services demo_client_mib) 0 = Inr (arr_data (services demo_mib) ! 0)" "revision (arr_data (services demo_mib) ! 0) = 0"
    by (simp_all add: demo_client_mib_def demo_trx_mib_def demo_mib_def arr_at_def arr_init_def nth_replicate del: replicate_Suc)
  then have "fst (get_queue (-1) [83] demo_client_mib (cl_repo demo_client)) = Inr 9"
    by (simp add: get_queue_def get_entry_def demo_client_def refresh_def load_balance_def Let_def)
  then show ?thesis
    by (cases "get_queue (-1) [83] demo_client_mib (cl_repo demo_client)")
      (simp add: can_call_def demo_proc_def set_data_def demo_client_def new_msg_def)
qed

theorem tpacall_correct_witness:
  "\<exists>w' c' x. tpacall proc_env [83] None 0 TPNOBLOCK (demo_proc s1 []) = (Inr 3, w') \<and> p_client w' = Some c' \<and>
     kern_inbox (p_os w') 9 = [x] \<and> c_string (m_service x) = [83] \<and> m_replyq x = 7 \<and> m_gttid x = bad_gttid \<and> check 3 (cds c') = 0"
proof -
  obtain rp where call: "can_call (demo_proc s1 []) demo_client [83] None 0 9 rp new_msg (put_err 0 (demo_atmi demo_string))"
    using demo_can_call by blast
  have s: "fst (nextseq (cds demo_client)) = 3" "0 \<le> rs_seq (cds demo_client)" "1 \<le> m_mtype new_msg"
    "k_files (p_os (demo_proc s1 [])) (k_next (p_os (demo_proc s1 []))) = None" "k_cap (p_os (demo_proc s1 [])) = 1"
    "k_queues (p_os (demo_proc s1 [])) 9 = []" "to_flags TPNOBLOCK \<noteq> noflags" "\<not> has_flag TPNOBLOCK TPNOTIME"
    "\<not> has_flag TPNOBLOCK TPNOREPLY" "\<not> transactional (p_tx (demo_proc s1 []))"
    by (simp_all add: demo_client_def nextseq_def no_responses_def put_call_def new_msg_def demo_proc_def empty_kern_def
        to_flags_def has_flag_def transactional_def demo_thread_def in_trx_def)
  have "dom (RBT.lookup (calls (cds demo_client))) = {1, 2}" by (simp only: demo_call_open) (auto simp: dom_def)
  then have f: "\<not> length (RBT.entries (calls (cds demo_client))) > 1024" by (simp add: entries_count)
  have k: "kern_ok (p_os (demo_proc s1 []))" using demo_waits by (auto simp: waits_def)
  from tpacall_correct [OF call s(2,3) _ k s(4), of proc_env TPNOBLOCK]
  show ?thesis using s f by (auto simp: is_request_def check_open)
qed

subsection \<open>The transaction of the caller\<close>

text \<open>A step over the state: what it leaves of the transaction context.\<close>

definition keeps :: "('s \<Rightarrow> ('r, 'n) tx_world) \<Rightarrow> 's \<Rightarrow> 'a \<times> 's \<Rightarrow> bool" where
  "keeps g s r \<longleftrightarrow> tx_same (g s) (g (snd r))"

abbreviation cl_tx :: "('r, 'n, 'k) cl_state \<Rightarrow> ('r, 'n) tx_world" where
  "cl_tx s \<equiv> p_tx (snd s)"

lemma keeps_same: "g (snd r) = g s \<Longrightarrow> keeps g s r"
  by (simp add: keeps_def)

lemma keeps_from: "g s = g s' \<Longrightarrow> keeps g s' r \<Longrightarrow> keeps g s r"
  by (simp add: keeps_def)

lemma keeps_seqx:
  assumes "keeps g s r" "\<And>a s'. keeps g s' (h a s')"
  shows "keeps g s (seqx r h)"
proof (cases r)
  case (Pair x s')
  then show ?thesis using assms(1) assms(2) [of s' "projr x"] tx_same_trans by (cases x) (auto simp: keeps_def)
qed

lemma keeps_if: "keeps g s a \<Longrightarrow> keeps g s b \<Longrightarrow> keeps g s (if P then a else b)"
  by simp

lemma same_on [simp]:
  "cl_tx (snd (on_mem f s)) = cl_tx s" "cl_tx (snd (on_os f' s)) = cl_tx s"
  "cl_tx (cl_err e s) = cl_tx s" "snd (lift_except r z) = z"
  by (simp_all add: on_mem_def on_os_def cl_err_def lift_except_def split: prod.split)

lemma same_next_blocktime: "next_blocktime s = (tmo, u) \<Longrightarrow> cl_tx u = cl_tx s"
  by (auto simp: next_blocktime_def split: if_splits)

lemma same_address: "address_request flags s = (cd, u) \<Longrightarrow> cl_tx u = cl_tx s"
  by (auto simp: address_request_def Let_def split: prod.splits if_splits)

lemma same_attach [simp]: "cl_tx (attach_transaction flags s) = cl_tx s"
  by (simp add: attach_transaction_def Let_def)

lemma send_request_keeps: "keeps cl_tx s (send_request env qid flags s)"
proof -
  obtain tmo u where n: "next_blocktime s = (tmo, u)" using prod.exhaust by blast
  show ?thesis
    unfolding send_request_def n prod.case
    by (rule keeps_from [where g = cl_tx, OF same_next_blocktime [OF n, symmetric]])
      (rule keeps_seqx, simp add: keeps_same, rule keeps_same, auto simp: Let_def split: prod.split)
qed

lemma tpacall_queue_keeps: "keeps cl_tx s (cl_tpacall_queue env qid svc data len flags s)"
proof -
  have sent: "keeps cl_tx s (case address_request flags t of
      (cd, s) \<Rightarrow> if cd = -1 then (Inr (-1), s) else send_request env qid flags (attach_transaction flags s))"
    if "cl_tx t = cl_tx s" for s t
  proof -
    obtain cd u where a: "address_request flags t = (cd, u)" using prod.exhaust by blast
    have u: "cl_tx s = cl_tx (attach_transaction flags u)" "cl_tx u = cl_tx s" using same_address [OF a] that by simp_all
    show ?thesis unfolding a prod.case by (rule keeps_if, simp add: keeps_same u(2), rule keeps_from [where g = cl_tx, OF u(1) send_request_keeps])
  qed
  have known: "keeps cl_tx s (if data = None then (Inr True, s) else seqx (on_mem (tptypes data) s) (\<lambda>r s. (Inr (r \<noteq> None), s)))"
    by (intro keeps_if) (simp add: keeps_same, rule keeps_seqx, simp_all add: keeps_same)
  have rest: "keeps cl_tx s (seqx (on_mem f s) (\<lambda>m s. seqx (lift_except (g m) (h m s)) (\<lambda>name s.
      case address_request flags (k name s) of
        (cd, s) \<Rightarrow> if cd = -1 then (Inr (-1), s) else send_request env qid flags (attach_transaction flags s))))"
    if "\<And>m s. cl_tx (h m s) = cl_tx s" "\<And>m s. cl_tx (k m s) = cl_tx s" for s f g h k
    by (intro keeps_seqx sent that(2)) (simp_all add: keeps_same that(1))
  show ?thesis
    unfolding cl_tpacall_queue_def
    by (rule keeps_seqx [OF known], rule keeps_if, simp add: keeps_same, rule rest) simp_all
qed

lemma tpacall_group_keeps: "keeps cl_tx s (cl_tpacall_group env grpno svc data len flags s)"
proof -
  let ?r = "case get_queue grpno svc (tx_mib (p_tx (snd s))) (cl_repo (fst s)) of
      (q, r) \<Rightarrow> seqx (lift_except q ((fst s)\<lparr>cl_repo := r\<rparr>, snd s)) (\<lambda>qid. cl_tpacall_queue env qid svc data len flags)"
  have k: "keeps cl_tx s ?r"
    by (cases "get_queue grpno svc (tx_mib (p_tx (snd s))) (cl_repo (fst s))")
      (simp, rule keeps_seqx, simp add: keeps_same, rule tpacall_queue_keeps)
  show ?thesis
    unfolding cl_tpacall_group_def using k
    by (cases ?r) (auto simp: keeps_def split: sum.split stop.split cpp_error.split)
qed

lemma set_deadline_keeps: "keeps cl_tx s (set_deadline t s)"
  by (auto simp: keeps_def set_deadline_def Let_def set_accesser_def tx_same_def split: sum.split
      intro: exI [of _ "accessers (tx_mib (cl_tx s))"])

lemma wait_reply_keeps: "keeps cl_tx s (wait_reply env s)"
proof -
  obtain tmo u where n: "next_blocktime s = (tmo, u)" using prod.exhaust by blast
  show ?thesis
    unfolding wait_reply_def n prod.case
    by (rule keeps_from [where g = cl_tx, OF same_next_blocktime [OF n, symmetric]])
      (rule keeps_seqx, rule set_deadline_keeps, rule keeps_seqx, simp add: keeps_same, rule keeps_seqx,
       rule set_deadline_keeps, simp add: keeps_same)
qed

lemma accept_reply_keeps: "keeps cl_tx s (accept_reply env cell cd res s)"
  unfolding accept_reply_def by (rule keeps_seqx, simp_all add: keeps_same Let_def)

lemma reply_loop_keeps:
  fixes env :: "('r, 'k) env" and s :: "('r, 'n, 'k) cl_state"
  shows "reply_loop env cell cd flags s = Some r \<Longrightarrow> keeps cl_tx s r"
proof (erule reply_loop.raw_induct [where P = "\<lambda>env cell cd flags s r. keeps cl_tx s r", rotated])
  fix loop and env :: "('r, 'k) env" and cell cd flags and s :: "('r, 'n, 'k) cl_state" and r
  assume 1: "\<And>env cell cd flags s r. loop env cell cd flags s = Some r \<Longrightarrow> keeps cl_tx s r"
    "(case ready_reply cd flags (fst s) of
        None \<Rightarrow> Some (Inr (-1, cd, None), cl_err TPEBADDESC s)
      | Some early \<Rightarrow>
          (case (case early of None \<Rightarrow> wait_reply env s | Some i \<Rightarrow> early_reply i s) of
             (Inl e, s) \<Rightarrow> Some (Inl e, s)
           | (Inr res, s) \<Rightarrow>
               if m_cat res = unblock then
                 Some (Inr (-1, if has_flag flags TPGETANY then 0 else cd, None), cl_err TPETIME s)
               else if \<not> has_flag flags TPGETANY \<and> cd \<noteq> m_cd res then
                 loop env cell cd flags ((fst s)\<lparr>cds := buffer_reply res (cds (fst s))\<rparr>, snd s)
               else Some (accept_reply env cell cd res s))) = Some r"
  show "keeps cl_tx s r"
  proof (cases "ready_reply cd flags (fst s)")
    case None
    then show ?thesis using 1(2) by (auto simp: keeps_same)
  next
    case (Some early)
    obtain x u where t: "(case early of Some i \<Rightarrow> early_reply i s | None \<Rightarrow> wait_reply env s) = (x, u)"
      using prod.exhaust by blast
    have k: "keeps cl_tx s (x, u)"
      unfolding t [symmetric]
      by (cases early) (auto simp: wait_reply_keeps early_reply_def keeps_same split: prod.split option.split)
    show ?thesis
    proof (cases x)
      case (Inl e)
      then show ?thesis using 1(2) Some t k by (auto simp: keeps_def)
    next
      case (Inr res)
      let ?u = "((fst u)\<lparr>cds := buffer_reply res (cds (fst u))\<rparr>, snd u)"
      have "r = (Inr (-1, if has_flag flags TPGETANY then 0 else cd, None), cl_err TPETIME u) \<or>
          loop env cell cd flags ?u = Some r \<or> r = accept_reply env cell cd res u"
        using 1(2) Some t Inr by (auto split: if_splits)
      then have "keeps cl_tx u r"
        using 1(1) [of env cell cd flags ?u r] accept_reply_keeps [of u env cell cd res] by (auto simp: keeps_def)
      then show ?thesis using k tx_same_trans by (auto simp: keeps_def)
    qed
  qed
qed

lemma tpgetrply_keeps: "keeps cl_tx s (cl_tpgetrply env cd data flags s)"
proof (cases data)
  case (Some cell)
  show ?thesis
    unfolding cl_tpgetrply_def Some option.case
    by (rule keeps_seqx) (auto simp: keeps_same reply_loop_keeps split: option.split)
qed (simp add: cl_tpgetrply_def keeps_same)

text \<open>The client object, made when there is none.\<close>

lemma make_accesser_table: "\<exists>a. snd (make_accesser pid m) = m\<lparr>accessers := a\<rparr>"
proof -
  have "\<exists>a. m = m\<lparr>accessers := a\<rparr>" by (intro exI [of _ "accessers m"]) simp
  then show ?thesis by (auto simp: make_accesser_def set_accesser_def Let_def split: sum.split option.split)
qed

lemma client_new_keeps: "keeps p_tx w (client_new env w)"
proof -
  obtain r m where m: "make_accesser (p_pid w) (tx_mib (p_tx w)) = (r, m)" using prod.exhaust by blast
  then obtain a where a: "m = (tx_mib (p_tx w))\<lparr>accessers := a\<rparr>" using make_accesser_table by (metis snd_conv)
  let ?w = "w\<lparr>p_tx := (p_tx w)\<lparr>tx_mib := m\<rparr>\<rparr>"
  have "keeps p_tx w (lift_except r ?w)" using a by (auto simp: keeps_def lift_except_def tx_same_def)
  then show ?thesis
    unfolding client_new_def m prod.case
  proof (rule keeps_seqx)
    fix i w
    show "keeps p_tx w (case e_qcreate env (p_os w) of
        (None, k) \<Rightarrow> (Inl (Throw System_error), w\<lparr>p_os := k\<rparr>)
      | (Some q, k) \<Rightarrow>
          let w = w\<lparr>p_os := k\<rparr>; m = tx_mib (p_tx w) in
          case arr_at (accessers m) i of
            Inl e \<Rightarrow> (Inl (Throw e), w)
          | Inr a \<Rightarrow>
              (Inr \<lparr>cl_id = i, cl_repo = [], cl_rq = new_msg, cl_rpid = q, blocktime_next = 0, blocktime_all = 0,
                    cds = no_responses\<rparr>,
               w\<lparr>p_tx := (p_tx w)\<lparr>tx_mib := set_accesser i (a\<lparr>acc_rpid := q\<rparr>) m\<rparr>\<rparr>))"
      by (auto simp: keeps_def Let_def set_accesser_def tx_same_def split: prod.split option.split sum.split
          intro: exI [of _ "accessers (tx_mib (p_tx w))"])
  qed
qed

lemma getclient_keeps: "keeps p_tx w (getclient env w)"
  unfolding getclient_def
  by (cases "p_client w") (simp_all add: keeps_same keeps_seqx client_new_keeps)

lemma with_client_keeps:
  assumes "\<And>s. keeps cl_tx s (f s)"
  shows "keeps p_tx w (with_client env f w)"
  unfolding with_client_def
proof (rule keeps_seqx [OF getclient_keeps])
  fix c w
  show "keeps p_tx w (case f (c, w) of (r, c, w) \<Rightarrow> (r, w\<lparr>p_client := Some c\<rparr>))"
    using assms [of "(c, w)"] by (cases "f (c, w)") (auto simp: keeps_def)
qed

lemma set_err_keeps [simp]: "keeps p_tx (set_err e w) r = keeps p_tx w r"
  by (simp add: keeps_def)

text \<open>The guard of a call whose transaction is suspended already.\<close>

lemma inner_guard:
  assumes "transactional (p_tx w)" "tx_st (p_tx w) = s1 \<or> tx_st (p_tx w) = s2" "\<And>w. keeps p_tx w (f w)"
    and "guarded env True f w = (r, w')" "\<forall>e. r = Inl e \<longrightarrow> (\<exists>x. e = Throw x)"
  shows "\<exists>t. tx_same (p_tx w) t \<and> p_tx w' = snd (tx_resume (e_sw env) None t)"
proof -
  have "snd (tx_suspend (e_sw env) False (p_tx w)) = p_tx w"
    using assms(2) by (auto simp: tx_suspend_def tx_end_flags_def)
  then have w: "w\<lparr>p_tx := snd (tx_suspend (e_sw env) False (p_tx w))\<rparr> = w" by simp
  obtain x v where f: "f w = (x, v)" using prod.exhaust by blast
  have k: "tx_same (p_tx w) (p_tx v)" using assms(3) [of w] f by (simp add: keeps_def)
  have "p_tx w' = snd (tx_resume (e_sw env) None (p_tx v))"
    using assms(1,4,5) by (auto simp: guarded_def w f split: sum.splits stop.splits)
  then show ?thesis using k by blast
qed

lemma tpgetrply_inner:
  assumes "transactional (p_tx w)" "tx_st (p_tx w) = s1 \<or> tx_st (p_tx w) = s2"
    and "tpgetrply env cd data flags w = (Inr x, w')"
  shows "\<exists>t. tx_same (p_tx w) t \<and> p_tx w' = snd (tx_resume (e_sw env) None t)"
proof -
  obtain r v where g: "guarded env True (with_client env (cl_tpgetrply env cd data flags)) (set_err 0 w) = (r, v)"
    using prod.exhaust by blast
  have r: "\<forall>e. r = Inl e \<longrightarrow> (\<exists>x. e = Throw x)" "p_tx w' = p_tx v"
    using assms(3) g by (auto simp: tpgetrply_def proc_boundary_def exception_boundary_def split: sum.splits stop.splits)
  show ?thesis
    using inner_guard [OF _ _ with_client_keeps [OF tpgetrply_keeps] g r(1)] assms(1,2) r(2) by simp
qed

text \<open>A resource manager that suspends and resumes.\<close>

definition rm_resumes :: "'r xa_switch \<Rightarrow> bool" where
  "rm_resumes sw \<longleftrightarrow> (\<forall>x g fl r. fst (xa_end_entry sw x g fl r) = XA_OK \<and> fst (xa_start_entry sw x g fl r) = XA_OK)"

definition rm_round :: "'r xa_switch \<Rightarrow> ('r, 'n) tx_world \<Rightarrow> 'r" where
  "rm_round sw t = snd (xa_start_entry sw (ti_xid (tx_inf t)) (tx_grpno t) TMRESUME
     (snd (xa_end_entry sw (ti_xid (tx_inf t)) (tx_grpno t) TMSUSPEND (tx_rm t))))"

lemma suspended:
  assumes "rm_resumes sw" "tx_st t = s3 \<or> tx_st t = s4"
  shows "snd (tx_suspend sw False t) = t\<lparr>tx_rm := snd (xa_end_entry sw (ti_xid (tx_inf t)) (tx_grpno t) TMSUSPEND (tx_rm t)),
    tx_st := (if tx_st t = s3 then s1 else s2)\<rparr>"
proof -
  have "fst (xa_end_entry sw (ti_xid (tx_inf t)) (tx_grpno t) TMSUSPEND (tx_rm t)) = XA_OK"
    using assms(1) by (simp add: rm_resumes_def)
  then show ?thesis
    using assms(2) by (cases "xa_end_entry sw (ti_xid (tx_inf t)) (tx_grpno t) TMSUSPEND (tx_rm t)")
      (auto simp: tx_suspend_def tx_end_flags_def Let_def)
qed

lemma resumed:
  assumes "rm_resumes sw" "tx_st t = s3 \<or> tx_st t = s4" "tx_same (snd (tx_suspend sw False t)) u"
  shows "tx_same (t\<lparr>tx_rm := rm_round sw t\<rparr>) (snd (tx_resume sw None u))"
    and "snd (tx_resume sw None (snd (tx_resume sw None u))) = snd (tx_resume sw None u)"
proof -
  obtain a where u: "u = (snd (tx_suspend sw False t))\<lparr>tx_mib := (tx_mib (snd (tx_suspend sw False t)))\<lparr>accessers := a\<rparr>\<rparr>"
    using assms(3) by (auto simp: tx_same_def)
  let ?r = "snd (xa_end_entry sw (ti_xid (tx_inf t)) (tx_grpno t) TMSUSPEND (tx_rm t))"
  obtain r' where s: "xa_start_entry sw (ti_xid (tx_inf t)) (tx_grpno t) TMRESUME ?r = (XA_OK, r')"
    using assms(1) by (metis rm_resumes_def prod.collapse)
  have "snd (tx_resume sw None u) = t\<lparr>tx_rm := r', tx_mib := (tx_mib t)\<lparr>accessers := a\<rparr>\<rparr>"
    using assms(2) s unfolding u suspended [OF assms(1,2)] by (auto simp: tx_resume_def tx_start_flags_def Let_def)
  moreover have "rm_round sw t = r'" using s by (simp add: rm_round_def)
  ultimately show "tx_same (t\<lparr>tx_rm := rm_round sw t\<rparr>) (snd (tx_resume sw None u))"
    and "snd (tx_resume sw None (snd (tx_resume sw None u))) = snd (tx_resume sw None u)"
    using assms(2) by (auto simp: tx_same_def tx_resume_def tx_start_flags_def intro: exI [of _ a])
qed



end
