(* ===== verification/Server_Claims.thy ===== *)
theory Server_Claims
  imports Server_Props Client_Claims
begin

text \<open>
  The properties of the server of src/server.cpp: replies, whole calls between a client and a server,
  transactions of services, shutting down, advertising.
\<close>

subsection \<open>Replies\<close>

lemma sv_tpreturn_outside:
  assumes "\<not> transactional (p_tx w)" "reply env (rval_code rval) rcode data len flags (sv, w) = (Inr (), s')"
  shows "sv_tpreturn env rval rcode data len flags (sv, w) = (Inr (), s')"
  using assms by (simp add: sv_tpreturn_def th_tpreturn_def)

text \<open>C20: \<open>tpreturn\<close> outside of a transaction answers the request once: the reply goes to the end of the queue
  the request names, for the descriptor of the call, with the data and the codes of the service
  (\<open>TPSUCCESS\<close> is 0, \<open>TPFAIL\<close> is \<open>TPESVCFAIL\<close>, all else and any flags are \<open>TPESVCERR\<close>); a request that
  wants no reply gets none.
\<close>

theorem tpreturn_replies:
  assumes "e_os env = kern_os" "kern_ok (p_os w)" "\<not> transactional (p_tx w)"
    and "st_req (sv_thread sv) = req" "1 \<le> m_cd req"
    and "set_data data len (st_res (sv_thread sv)) (p_mem w) = (Inr r, mem)"
    and "data \<noteq> None \<longrightarrow> blocks mem (the data) \<noteq> None"
    and "k_files (p_os w) (k_next (p_os w)) = None" "length (k_queues (p_os w) (m_replyq req)) < k_cap (p_os w)"
  shows "\<exists>sv' w'. sv_tpreturn env rval rcode data len flags (sv, w) = (Inr (), (sv', w')) \<and>
    (if m_replyq req = -1 then kern_inbox (p_os w') = kern_inbox (p_os w)
     else \<exists>x. kern_inbox (p_os w') = (kern_inbox (p_os w))(m_replyq req := kern_inbox (p_os w) (m_replyq req) @ [x]) \<and>
       m_cd x = m_cd req \<and> m_rcode x = rcode \<and> m_data x = m_data r \<and>
       m_rval x = (if flags \<noteq> 0 then TPESVCERR else if rval = TPSUCCESS then 0 else if rval = TPFAIL then TPESVCFAIL else TPESVCERR))"
proof (cases "m_replyq req = -1")
  case True
  then have "reply env (rval_code rval) rcode data len flags (sv, w) = (Inr (), (sv, w))" using assms(4) by (simp add: reply_def)
  then show ?thesis using sv_tpreturn_outside [OF assms(3)] True by auto
next
  case False
  obtain sv' w' x where "reply env (rval_code rval) rcode data len flags (sv, w) = (Inr (), (sv', w'))"
    "kern_inbox (p_os w') = (kern_inbox (p_os w))(m_replyq req := kern_inbox (p_os w) (m_replyq req) @ [x])"
    "m_cd x = m_cd req" "m_rval x = (if flags \<noteq> 0 then TPESVCERR else rval_code rval)" "m_rcode x = rcode" "m_data x = m_data r"
    using reply_kern [OF assms(1,2,4) False assms(5-9), of "rval_code rval" rcode flags] by blast
  then show ?thesis using sv_tpreturn_outside [OF assms(3)] False by (auto simp: rval_code_def)
qed

subsection \<open>A whole call\<close>

text \<open>C3: a request that waits in the server's queue is answered: one round of \<open>dispatch\<close> takes it, calls the
  function advertised for its service with the data, and sends what the function passes to
  \<open>tpreturn(TPSUCCESS, ...)\<close>; \<open>tpgetrply\<close> in the client then returns 0 for the descriptor of the call, with
  that data in the caller's buffer and the code in \<open>tpurcode\<close>, and nothing is left in either queue.
\<close>

theorem call_answered:
  assumes "e_os (se_env se) = kern_os" "kern_ok (p_os v)" "\<not> transactional (p_tx v)"
    and "kern_inbox (p_os v) (sv_rq sv) = [x]" "m_mtype x = 1" "sv_mtype sv < 0"
    and "cells (p_mem v) (st_cell (sv_thread sv)) \<noteq> None"
    and "get_data (e_al (se_env se)) (Some (st_cell (sv_thread sv))) x (p_mem v) = (Inr (), m2)"
    and "c_string (m_service x) \<noteq> stop_name" "map_of (sv_services sv) (c_string (m_service x)) = Some f"
    and "\<not> has_flag (m_flags x) TPTRAN"
    and "\<And>k. se_service se f (info_of x (cells m2 (st_cell (sv_thread sv)))) (v\<lparr>p_os := k, p_mem := m2\<rparr>) =
      (Tpreturn TPSUCCESS rcode data len 0, v\<lparr>p_os := k, p_mem := m3\<rparr>)"
    and "set_data data len (st_res (sv_thread sv)) m3 = (Inr r, m4)" "data \<noteq> None \<longrightarrow> blocks m4 (the data) \<noteq> None"
    and "msg_size r \<le> 4000" "m_cat r = application"
    and "k_files (p_os v) (k_next (p_os v)) = None" "0 < k_cap (p_os v)"
    and "waits env w c cell" "p_os w = p_os v" "\<not> has_flag flags TPGETANY"
    and "m_replyq x = cl_rpid c" "cl_rpid c \<noteq> -1" "cl_rpid c \<noteq> sv_rq sv" "kern_inbox (p_os v) (cl_rpid c) = []"
    and "1 \<le> m_cd x" "check (m_cd x) (cds c) = 0" "\<not> is_buffered (m_cd x) (cds c)"
    and "get_data (e_al env) (Some cell) r (p_mem w) = (Inr (), cm)"
  shows "\<exists>sv' v' w'. dispatch_once se (sv, v) = (Inr (), (sv', v')) \<and>
    tpgetrply env (m_cd x) (Some cell) flags (w\<lparr>p_os := p_os v'\<rparr>) = (Inr (0, m_cd x, Some (int (length (m_data r)))), w') \<and>
    p_mem w' = put_err 0 cm \<and> p_urcode w' = rcode \<and>
    kern_inbox (p_os w') (sv_rq sv) = [] \<and> kern_inbox (p_os w') (cl_rpid c) = []"
proof -
  have "\<forall>y \<in> set [x]. m_mtype y = 1" using assms(5) by simp
  then obtain k sv1 where d: "dispatch_once se (sv, v) = sv_tpreturn (se_env se) TPSUCCESS rcode data len 0 (sv1, v\<lparr>p_os := k, p_mem := m3\<rparr>)"
    "kern_ok k" "kern_inbox k = (kern_inbox (p_os v))(sv_rq sv := [])" "kern_frame (p_os v) k"
    "st_req (sv_thread sv1) = x" "st_res (sv_thread sv1) = st_res (sv_thread sv)"
    using dispatch_calls [OF assms(1,2,4) _ assms(6-12)] by blast
  let ?v = "v\<lparr>p_os := k, p_mem := m3\<rparr>"
  have i: "kern_inbox k (cl_rpid c) = []" using d(3) assms(24,25) by simp
  have room: "length (k_queues (p_os ?v) (m_replyq x)) < k_cap (p_os ?v)" "k_files (p_os ?v) (k_next (p_os ?v)) = None"
    using assms(17,18,22) d(4) i kern_inbox_length [of k "cl_rpid c"] by (simp_all add: kern_frame_def)
  have pre: "kern_ok (p_os ?v)" "m_replyq x \<noteq> -1" "set_data data len (st_res (sv_thread sv1)) (p_mem ?v) = (Inr r, m4)"
    using d(2,6) assms(13,22,23) by simp_all
  obtain sv' v' y where r: "reply (se_env se) 0 rcode data len 0 (sv1, ?v) = (Inr (), (sv', v'))" "kern_ok (p_os v')"
    "kern_inbox (p_os v') = (kern_inbox k)(cl_rpid c := [y])"
    "m_cd y = m_cd x" "m_rval y = 0" "m_rcode y = rcode" "m_data y = m_data r" "m_cat y = application"
    using reply_kern [OF assms(1) pre(1) d(5) pre(2) assms(26) pre(3) assms(14) room(2,1), of 0 rcode 0] assms(15,16,22) i by auto
  have run: "dispatch_once se (sv, v) = (Inr (), (sv', v'))"
    unfolding d(1) by (rule sv_tpreturn_outside) (use assms(3) r(1) in \<open>simp_all add: rval_code_def\<close>)
  let ?w = "w\<lparr>p_os := p_os v'\<rparr>"
  have w: "waits env ?w c cell" using assms(19) r(2) by (auto simp: waits_def listed_def)
  have inb: "kern_inbox (p_os ?w) (cl_rpid c) = [] @ y # []" using r(3) by simp
  have g: "get_data (e_al env) (Some cell) y (p_mem ?w) = (Inr (), cm)" using assms(29) get_data_cong [OF r(7)] by simp
  have y: "m_cat y \<noteq> unblock" using r(8) by simp
  obtain w' where "tpgetrply env (m_cd x) (Some cell) flags ?w = (Inr (0, m_cd x, Some (int (length (m_data r)))), w')"
    "p_mem w' = put_err 0 cm" "p_urcode w' = rcode" "kern_inbox (p_os w') = (kern_inbox (p_os v'))(cl_rpid c := [])"
    using tpgetrply_takes [OF w assms(21,27,28) inb _ r(4) y g] r(5-7) by auto
  then show ?thesis using run r(3) d(3) assms(24) by auto
qed

subsection \<open>A server for the examples\<close>

text \<open>A server on queue 9 that advertises \<open>S\<close>, whose function sends its request back.\<close>

definition demo_request :: msg where
  "demo_request = new_msg\<lparr>m_service := 83 # replicate 31 0, m_cd := 1, m_replyq := 7, m_data := demo_bytes\<rparr>"

definition demo_server :: server where
  "demo_server = (new_server 1 1 0 0 9 8)\<lparr>sv_services := [([83], 0)]\<rparr>"

definition no_fp :: fp_ops where
  "no_fp = \<lparr>int_to_f32 = (\<lambda>_. []), int_to_f64 = (\<lambda>_. []), f32_to_int = (\<lambda>_. 0), f64_to_int = (\<lambda>_. 0), f32_to_f64 = (\<lambda>_. []),
     f64_to_f32 = (\<lambda>_. []), str_to_f64 = (\<lambda>_. []), show_f32 = (\<lambda>_. []), show_f64 = (\<lambda>_. [])\<rparr>"

definition demo_senv :: "(unit, unit sync, kern) senv" where
  "demo_senv = \<lparr>se_env = proc_env, se_fp = no_fp,
     se_service = (\<lambda>f info v. (Tpreturn TPSUCCESS 5 (si_data info) 0 0, v))\<rparr>"

definition demo_kern :: "msg list \<Rightarrow> kern" where
  "demo_kern ms = empty_kern\<lparr>k_queues := (\<lambda>q. if q = 9 then map Whole ms else [])\<rparr>"

definition demo_sproc :: "msg list \<Rightarrow> (unit, unit sync, kern) proc" where
  "demo_sproc ms = (demo_proc s1 [])\<lparr>p_os := demo_kern ms, p_server := True\<rparr>"

lemma demo_kern_sel [simp]:
  "kern_inbox (demo_kern ms) q = (if q = 9 then ms else [])" "k_cap (demo_kern ms) = 1" "k_files (demo_kern ms) f = None"
  "k_queues (demo_kern ms) 7 = []"
  by (simp_all add: demo_kern_def empty_kern_def kern_inbox_def comp_def)

lemma demo_kern_ok: "kern_ok (demo_kern ms)"
  by (simp add: kern_ok_def demo_kern_def empty_kern_def)

lemma demo_sproc_sel [simp]:
  "p_os (demo_sproc ms) = demo_kern ms" "p_mem (demo_sproc ms) = demo_atmi demo_string" "\<not> transactional (p_tx (demo_sproc ms))"
  by (simp_all add: demo_sproc_def demo_proc_def transactional_def demo_thread_def in_trx_def)

lemma demo_err: "put_err 0 (demo_atmi b) = demo_atmi b"
  by (simp add: put_err_def demo_atmi_def)

lemma demo_set_data: "set_data (Some 1000) 0 m (demo_atmi demo_string) = (Inr (m\<lparr>m_data := demo_bytes\<rparr>), demo_atmi demo_string)"
proof -
  have b: "blocks (demo_atmi demo_string) 1000 = Some demo_string" by (simp add: demo_atmi_def)
  have r: "rd 0 27 (tm_body demo_string) = demo_bytes"
    unfolding demo_string_fits by (subst rd_wr_sub) (simp_all add: demo_bytes_def)
  have "tpexport (Some 1000) 0 True 27 0 (demo_atmi demo_string) = (Inr (0, 27, demo_bytes), demo_atmi demo_string)"
    using export_plain [OF b demo_string_size, of 27] r by (simp add: demo_string_def demo_err)
  then show ?thesis by (simp add: set_data_def demo_string_size)
qed

lemma demo_server_sel [simp]:
  "sv_rq demo_server = 9" "sv_mtype demo_server = LONG_MIN" "st_cell (sv_thread demo_server) = 8"
  "st_res (sv_thread demo_server) = new_msg" "sv_services demo_server = [([83], 0)]" "st_req (sv_thread demo_server) = new_msg"
  "se_env demo_senv = proc_env" "cells (demo_atmi b) 8 = Some 1000" "blocks (demo_atmi b) 1000 = Some b"
  by (simp_all add: demo_server_def new_server_def demo_senv_def demo_atmi_def)

lemma demo_request_sel [simp]:
  "m_data demo_request = demo_bytes" "m_mtype demo_request = 1" "c_string (m_service demo_request) = [83]"
  "m_cd demo_request = 1" "m_replyq demo_request = 7" "m_flags demo_request = 0"
  by (simp_all add: demo_request_def new_msg_def c_string_def)

lemma demo_set_data_reply:
  "set_data (si_data (info_of demo_request (Some 1000))) 0 new_msg (demo_atmi demo_string) =
     (Inr (new_msg\<lparr>m_data := demo_bytes\<rparr>), demo_atmi demo_string)"
  by (simp add: info_of_def demo_set_data)

theorem tpreturn_replies_witness:
  "\<exists>sv' w' x. sv_tpreturn proc_env TPFAIL 5 (Some 1000) 0 0 (demo_server\<lparr>sv_thread := (sv_thread demo_server)\<lparr>st_req := demo_request\<rparr>\<rparr>, demo_sproc []) =
     (Inr (), (sv', w')) \<and> kern_inbox (p_os w') 7 = [x] \<and> m_rval x = 11 \<and> m_data x = demo_bytes"
proof -
  let ?sv = "demo_server\<lparr>sv_thread := (sv_thread demo_server)\<lparr>st_req := demo_request\<rparr>\<rparr>"
  have s: "set_data (Some 1000) 0 (st_res (sv_thread ?sv)) (p_mem (demo_sproc [])) = (Inr (new_msg\<lparr>m_data := demo_bytes\<rparr>), demo_atmi demo_string)"
    by (simp add: demo_set_data)
  show ?thesis
    using tpreturn_replies [OF demo_proc_sel(5) _ _ _ _ s, where rval = TPFAIL and rcode = 5 and flags = 0 and req = demo_request]
    by (fastforce simp: demo_kern_ok)
qed

theorem call_answered_witness:
  "\<exists>sv' v' w'. dispatch_once demo_senv (demo_server, demo_sproc [demo_request]) = (Inr (), (sv', v')) \<and>
     tpgetrply proc_env 1 (Some 8) 0 ((demo_proc s1 [])\<lparr>p_os := p_os v'\<rparr>) = (Inr (0, 1, Some 27), w') \<and> p_urcode w' = 5"
proof -
  let ?w = "(demo_proc s1 [])\<lparr>p_os := demo_kern [demo_request]\<rparr>"
  have w: "waits proc_env ?w demo_client 8"
    using demo_waits [of "[]"] demo_kern_ok [of "[demo_request]"] by (auto simp: waits_def listed_def)
  have o: "check (m_cd demo_request) (cds demo_client) = 0" "\<not> is_buffered (m_cd demo_request) (cds demo_client)"
    by (simp_all add: check_def is_buffered_def call_at_def demo_call_open no_response_def)
  have g: "get_data (e_al proc_env) (Some (st_cell (sv_thread demo_server))) demo_request (p_mem (demo_sproc [demo_request])) =
      (Inr (), demo_atmi demo_string)"
    "get_data (e_al proc_env) (Some 8) (new_msg\<lparr>m_data := demo_bytes\<rparr>) (p_mem ?w) = (Inr (), demo_atmi demo_string)"
    by (simp_all add: demo_get_data demo_err)
  have f: "map_of (sv_services demo_server) (c_string (m_service demo_request)) = Some 0" "c_string (m_service demo_request) \<noteq> stop_name"
    by (simp_all add: stop_name_def)
  have sz: "length demo_bytes = 27" by (simp add: demo_bytes_def)
  have sd: "set_data (si_data (info_of demo_request (Some 1000))) 0 (st_res (sv_thread demo_server)) (demo_atmi demo_string) =
      (Inr (new_msg\<lparr>m_data := demo_bytes\<rparr>), demo_atmi demo_string)"
    by (simp add: demo_set_data_reply)
  have r: "msg_size (new_msg\<lparr>m_data := demo_bytes\<rparr>) \<le> 4000" "m_cat (new_msg\<lparr>m_data := demo_bytes\<rparr>) = 0"
    using sz by (simp_all add: msg_size_def new_msg_def)
  have svc: "se_service demo_senv 0 (info_of demo_request (cells (demo_atmi demo_string) (st_cell (sv_thread demo_server))))
      ((demo_sproc [demo_request])\<lparr>p_os := k, p_mem := demo_atmi demo_string\<rparr>) =
      (Tpreturn TPSUCCESS 5 (si_data (info_of demo_request (Some 1000))) 0 0, (demo_sproc [demo_request])\<lparr>p_os := k, p_mem := demo_atmi demo_string\<rparr>)" for k
    by (simp add: demo_senv_def)
  show ?thesis
    using call_answered [where se = demo_senv and v = "demo_sproc [demo_request]" and sv = demo_server and x = demo_request and
        ?m2.0 = "demo_atmi demo_string" and f = 0 and rcode = 5 and data = "si_data (info_of demo_request (Some 1000))" and len = 0 and
        ?m3.0 = "demo_atmi demo_string" and r = "new_msg\<lparr>m_data := demo_bytes\<rparr>" and ?m4.0 = "demo_atmi demo_string" and
        env = proc_env and w = ?w and c = demo_client and cell = 8 and flags = 0 and cm = "demo_atmi demo_string"]
      w o g f sd r svc sz
    by (fastforce simp: demo_kern_ok LONG_MIN_def has_flag_def info_of_def)
qed

subsection \<open>Advertising\<close>

text \<open>C13: the server's own table and the shared memory agree: \<open>tpadvertise\<close> that succeeds and \<open>tpunadvertise\<close>
  keep the shared memory advertising, for this server and its queue, exactly the services of the
  table. \<open>tpunadvertise\<close> of a service of the table always succeeds; of any other it fails with \<open>TPENOENT\<close>.
\<close>

theorem services_match_kept:
  assumes "services_match sv (tx_mib (p_tx w))" "0 \<notin> set name" "name \<noteq> []"
  shows "(sv_tpadvertisex (Some name) (Some f) (sv, w) = (Inr 0, u1) \<longrightarrow>
      services_match (fst u1) (tx_mib (p_tx (snd u1))) \<and> map_of (sv_services (fst u1)) name = Some f) \<and>
    (\<exists>u2. sv_tpunadvertise (Some name) (sv, w) = (Inr (if map_of (sv_services sv) name = None then -1 else 0), u2) \<and>
      services_match (fst u2) (tx_mib (p_tx (snd u2))) \<and> map_of (sv_services (fst u2)) name = None \<and>
      (map_of (sv_services sv) name = None \<longrightarrow> tperr (p_mem (snd u2)) = TPENOENT))"
proof (intro conjI impI)
  let ?m = "tx_mib (p_tx w)"
  assume run: "sv_tpadvertisex (Some name) (Some f) (sv, w) = (Inr 0, u1)"
  show "services_match (fst u1) (tx_mib (p_tx (snd u1)))" "map_of (sv_services (fst u1)) name = Some f"
  proof (atomize (full), cases "map_of (sv_services sv) name")
    case None
    then have n: "name \<notin> fst ` set (sv_services sv)" by (simp add: map_of_eq_None_iff)
    obtain m' where "advertise name (sv_queue sv) (sv_server sv) ?m = (Inr (), m')"
      "u1 = (sv\<lparr>sv_services := (name, f) # sv_services sv\<rparr>, w\<lparr>p_tx := (p_tx w)\<lparr>tx_mib := m'\<rparr>\<rparr>)"
      using run assms(3) None
      by (cases "advertise name (sv_queue sv) (sv_server sv) ?m")
        (auto simp: sv_tpadvertisex_def sv_mib_def split: sum.splits cpp_error.splits)
    then show "services_match (fst u1) (tx_mib (p_tx (snd u1))) \<and> map_of (sv_services (fst u1)) name = Some f"
      using advertised_match [OF assms(1,2) n, of m' f] by simp
  next
    case (Some g)
    then show "services_match (fst u1) (tx_mib (p_tx (snd u1))) \<and> map_of (sv_services (fst u1)) name = Some f"
      using run assms(1,3) by (auto simp: sv_tpadvertisex_def split: if_splits)
  qed
next
  let ?m = "tx_mib (p_tx w)"
  show "\<exists>u2. sv_tpunadvertise (Some name) (sv, w) = (Inr (if map_of (sv_services sv) name = None then -1 else 0), u2) \<and>
      services_match (fst u2) (tx_mib (p_tx (snd u2))) \<and> map_of (sv_services (fst u2)) name = None \<and>
      (map_of (sv_services sv) name = None \<longrightarrow> tperr (p_mem (snd u2)) = TPENOENT)"
  proof (cases "map_of (sv_services sv) name")
    case None
    then show ?thesis using assms(1,3) by (simp add: sv_tpunadvertise_def sv_err_def)
  next
    case (Some g)
    then have "name \<in> fst ` set (sv_services sv)" using map_of_eq_None_iff [of "sv_services sv" name] by auto
    from unadvertised_match [OF assms(1) this] obtain m' where m':
      "unadvertise name (sv_queue sv) (sv_server sv) ?m = (Inr (), m')"
      "services_match (sv\<lparr>sv_services := filter (\<lambda>(n, _). n \<noteq> name) (sv_services sv)\<rparr>) m'" by blast
    have "map_of (filter (\<lambda>(n, _). n \<noteq> name) (sv_services sv)) name = None" by (auto simp: map_of_eq_None_iff)
    then show ?thesis
      using m' Some assms(3) by (simp add: sv_tpunadvertise_def sv_mib_def Let_def)
  qed
qed

definition demo_adv_proc :: "(unit, unit sync, kern) proc" where
  "demo_adv_proc = (demo_sproc [])\<lparr>p_tx := (demo_thread s1)\<lparr>tx_mib := demo_domain\<rparr>\<rparr>"

theorem services_match_kept_witness:
  "\<exists>u2. sv_tpunadvertise (Some [83]) (demo_server, demo_adv_proc) = (Inr 0, u2) \<and>
     map_of (sv_services (fst u2)) [83] = None \<and> services_match (fst u2) (tx_mib (p_tx (snd u2)))"
proof -
  have q: "sv_queue demo_server = 0" "sv_server demo_server = 0" "tx_mib (p_tx demo_adv_proc) = demo_domain"
    by (simp_all add: demo_server_def new_server_def demo_adv_proc_def)
  have "services_match demo_server (tx_mib (p_tx demo_adv_proc))"
    using demo_domain_valid(1,3) demo_domain_tables(7) by (auto simp: services_match_def q ads_valid_def badoff_def)
  from services_match_kept [OF this, of "[83]" undefined "(demo_server, demo_adv_proc)"]
  show ?thesis by auto
qed

subsection \<open>Transactions of services\<close>

lemma seqx_tx:
  assumes "p_tx (snd (snd r)) = t" "\<And>a s. p_tx (snd s) = t \<Longrightarrow> p_tx (snd (snd (h a s))) = t"
  shows "p_tx (snd (snd (seqx r h))) = t"
  using assms by (cases r; cases "fst r") auto

lemma sv_tx_simps [simp]:
  "p_tx (snd (snd (sv_mem f s))) = p_tx (snd s)" "p_tx (snd (snd (sv_os g s))) = p_tx (snd s)"
  "p_tx (snd (snd (free_data data s))) = p_tx (snd s)"
  by (simp_all add: sv_mem_def sv_os_def free_data_def split: prod.split)

lemma put_data_tx [simp]: "p_tx (snd (snd (put_data_in_res data len s))) = p_tx (snd s)"
  unfolding put_data_in_res_def by (rule seqx_tx) simp_all

lemma send_res_tx [simp]: "p_tx (snd (snd (send_res env q m s))) = p_tx (snd s)"
  unfolding send_res_def by (rule seqx_tx) (simp_all split: prod.split)

lemma reply_tx: "p_tx (snd (snd (reply env rval rcode data len flags s))) = p_tx (snd s)"
proof (cases "m_replyq (st_req (sv_thread (fst s))) = -1")
  case False
  then show ?thesis unfolding reply_def if_not_P [OF False] Let_def by (intro seqx_tx) simp_all
qed (simp add: reply_def)

text \<open>the service's part of a transaction is always rolled back: \<open>tpreturn\<close> compares the code with
  \<open>TPSUCCESS\<close> after it has been replaced, so the resource manager is told \<open>TMFAIL\<close> even when the service
  succeeds.
\<close>

theorem tpreturn_fails_branch:
  assumes "transactional (p_tx w)" "tx_st (p_tx w) = s3"
    and "xa_end_entry (e_sw env) (ti_xid (tx_inf (p_tx w))) (tx_grpno (p_tx w)) TMFAIL (tx_rm (p_tx w)) = (XA_OK, r)"
    and "sv_tpreturn env TPSUCCESS rcode data len flags (sv, w) = (Inr (), s')"
  shows "tx_rm (p_tx (snd s')) = r \<and> tx_st (p_tx (snd s')) = s1 \<and> \<not> transactional (p_tx (snd s'))"
proof -
  let ?t = "(notrx ((p_tx w)\<lparr>tx_rm := r\<rparr>))\<lparr>tx_st := s1\<rparr>"
  have "tx_end_ok (e_sw env) False (p_tx w) = (Inr TX_OK, ?t)"
    using assms(2,3) by (simp add: tx_end_ok_def tx_end_flags_def Let_def change_state_def tx_set1_def notrx_def)
  then have "th_tpreturn env (rval_code TPSUCCESS) rcode data len flags (sv, w) = reply env 0 rcode data len flags (sv, w\<lparr>p_tx := ?t\<rparr>)"
    using assms(1) by (simp add: th_tpreturn_def rval_code_def sv_tx_def)
  then have "p_tx (snd s') = ?t"
    using assms(4) reply_tx [of env 0 rcode data len flags "(sv, w\<lparr>p_tx := ?t\<rparr>)"]
    by (auto simp: sv_tpreturn_def split: prod.splits sum.splits stop.splits)
  then show ?thesis by (simp add: notrx_def transactional_def)
qed

text \<open>A request that wants no reply is being served in a transaction.\<close>

definition silent_server :: server where
  "silent_server = demo_server\<lparr>sv_thread := (sv_thread demo_server)\<lparr>st_req := new_msg\<lparr>m_replyq := -1\<rparr>\<rparr>\<rparr>"

theorem tpreturn_fails_branch_witness:
  "\<exists>s'. sv_tpreturn proc_env TPSUCCESS 0 None 0 0 (silent_server, demo_proc s3 []) = (Inr (), s') \<and> \<not> transactional (p_tx (snd s'))"
proof -
  let ?w = "demo_proc s3 []"
  have w: "transactional (p_tx ?w)" "tx_st (p_tx ?w) = s3"
    by (simp_all add: demo_proc_def demo_thread_def transactional_def in_trx_def demo_xid_def)
  have e: "xa_end_entry (e_sw proc_env) (ti_xid (tx_inf (p_tx ?w))) (tx_grpno (p_tx ?w)) TMFAIL (tx_rm (p_tx ?w)) = (XA_OK, ())"
    by (simp add: proc_env_def tmnull_switch_def)
  have "\<exists>s'. sv_tpreturn proc_env TPSUCCESS 0 None 0 0 (silent_server, ?w) = (Inr (), s')"
    using w e by (simp add: sv_tpreturn_def th_tpreturn_def sv_tx_def tx_end_ok_def tx_end_flags_def Let_def change_state_def
        tx_set1_def rval_code_def notrx_def reply_def silent_server_def)
  then obtain s' where "sv_tpreturn proc_env TPSUCCESS 0 None 0 0 (silent_server, ?w) = (Inr (), s')" by blast
  moreover from tpreturn_fails_branch [OF w e this] have "\<not> transactional (p_tx (snd s'))" by blast
  ultimately show ?thesis by blast
qed

text \<open>a service that joins the transaction of its caller does not learn the number of the transaction in
  the shared table: the context keeps the number it had (none, for a new one), and a request the service
  makes in the transaction carries that number, although it is marked as part of the transaction.
\<close>

theorem join_forgets_gttid:
  assumes "trx_get (transactions (tx_mib t)) i = Inr e" "formatID (trx_xid e) \<noteq> -1" "tx_grpidx t < max_groups (transactions (tx_mib t))"
    and "tx_st t = s1" "\<And>x g fl r. fst (xa_start_entry sw x g fl r) = XA_OK" "\<not> has_flag flags TPNOTRAN"
  shows "\<exists>t'. tx_join sw i t = (Inr (), t') \<and> tx_st t' = s3 \<and> ti_xid (tx_inf t') = trx_xid e \<and> tx_gttid t' = tx_gttid t \<and>
    (let q = cl_rq (fst (attach_transaction flags (c, w\<lparr>p_tx := t'\<rparr>))) in has_flag (m_flags q) TPTRAN \<and> m_gttid q = tx_gttid t)"
proof -
  let ?tab = "trx_put i (e\<lparr>trx_groups := (trx_groups e)[tx_grpidx t := 1]\<rparr>) (transactions (tx_mib t))"
  have j: "trx_join (transactions (tx_mib t)) i (tx_grpidx t) = (Inr (e\<lparr>trx_groups := (trx_groups e)[tx_grpidx t := 1]\<rparr>), ?tab)"
    using assms(1,3) by (simp add: trx_join_def Let_def)
  obtain r where r: "xa_start_entry sw (trx_xid e) (tx_grpno t) TMJOIN (tx_rm t) = (XA_OK, r)"
    using assms(5) by (metis prod.collapse)
  let ?t = "t\<lparr>tx_mib := (tx_mib t)\<lparr>transactions := ?tab\<rparr>, tx_inf := (tx_inf t)\<lparr>ti_xid := trx_xid e\<rparr>, tx_rm := r, tx_st := s3\<rparr>"
  have "tx_join sw i t = (Inr (), ?t)"
    using j r assms(4) by (simp add: tx_join_def tx_start_flags_def Let_def)
  then show ?thesis
    using assms(2,6) by (intro exI [of _ ?t]) (simp add: attach_transaction_def transactional_def Let_def has_flag_or)
qed

theorem join_forgets_gttid_witness:
  "\<exists>t'. tx_join tmnull_switch 0 ((demo_thread s1)\<lparr>tx_gttid := bad_gttid\<rparr>) = (Inr (), t') \<and>
     m_gttid (cl_rq (fst (attach_transaction 0 (demo_client, (demo_sproc [])\<lparr>p_tx := t'\<rparr>)))) = bad_gttid"
proof -
  let ?t = "(demo_thread s1)\<lparr>tx_gttid := bad_gttid\<rparr>"
  have g: "trx_get (transactions (tx_mib ?t)) 0 = Inr (fresh_trx 1 demo_xid 0)"
    by (simp add: trx_get_def demo_trx_table)
  show ?thesis
    using join_forgets_gttid [OF g, of tmnull_switch 0 demo_client "demo_sproc []"]
    by (auto simp: demo_trx_table fresh_trx_def demo_xid_def tmnull_switch_def has_flag_def Let_def)
qed

subsection \<open>Forwarding\<close>

text \<open>\<open>tpforward\<close> outside of a transaction passes the request on: one message for the named service goes to
  its queue, with the data, the caller's queue and descriptor, so that the caller is answered by that
  service. A request that wants no reply has descriptor 0, which is no message type: nothing is sent
  and no one is told.
\<close>

theorem tpforward_passes_on:
  assumes "e_os env = kern_os" "kern_ok (p_os w)" "\<not> transactional (p_tx w)" "p_client w = Some c"
    and "get_queue (-1) svc (tx_mib (p_tx w)) (cl_repo c) = (Inr qid, rp)"
    and "st_req (sv_thread sv) = req" "m_replyq req = -1 \<longrightarrow> m_cd req = 0" "m_replyq req \<noteq> -1 \<longrightarrow> 1 \<le> m_cd req"
    and "set_data data len (st_res (sv_thread sv)) (p_mem w) = (Inr r, mem)" "data \<noteq> None \<longrightarrow> blocks mem (the data) \<noteq> None"
    and "0 \<notin> set svc" "length svc < length (m_service r)" "msg_size r \<le> 4000"
    and "k_files (p_os w) (k_next (p_os w)) = None" "length (k_queues (p_os w) qid) < k_cap (p_os w)"
  shows "\<exists>s'. sv_tpforward env svc data len flags (sv, w) = (Inr (), s') \<and>
    (if m_replyq req = -1 then kern_inbox (p_os (snd s')) = kern_inbox (p_os w)
     else \<exists>x. kern_inbox (p_os (snd s')) = (kern_inbox (p_os w))(qid := kern_inbox (p_os w) qid @ [x]) \<and>
       c_string (m_service x) = svc \<and> m_data x = m_data r \<and> m_cd x = m_cd req \<and> m_replyq x = m_replyq req \<and>
       m_gttid x = tx_gttid (p_tx w) \<and> m_flags x = flags)"
proof -
  let ?c = "c\<lparr>cl_repo := rp\<rparr>" and ?th = "(sv_thread sv)\<lparr>st_res := r\<rparr>"
  obtain name where n: "checked_copy_cstr svc (m_service r) = Inr name" "c_string name = svc"
    using assms(11,12) checked_copy_cstr_string by (fastforce simp: checked_copy_cstr_def Let_def)
  let ?m = "r\<lparr>m_service := name, m_flags := flags, m_replyq := m_replyq req, m_mtype := m_cd req, m_cd := m_cd req, m_gttid := tx_gttid (p_tx w)\<rparr>"
  have q: "client_get_queue env svc w = (Inr qid, w\<lparr>p_client := Some ?c\<rparr>)"
    using assms(4,5) by (simp add: client_get_queue_def with_client_def getclient_def lift_except_def)
  let ?w = "w\<lparr>p_client := Some ?c\<rparr>"
  have sd: "put_data_in_res data len (sv, ?w) = (Inr (), (sv\<lparr>sv_thread := ?th\<rparr>, ?w\<lparr>p_mem := mem\<rparr>))"
    using put_data_known [of data len sv ?w r mem] assms(9) by simp
  obtain mem2 where f: "free_data data (sv\<lparr>sv_thread := ?th\<rparr>, ?w\<lparr>p_mem := mem\<rparr>) = (Inr (), (sv\<lparr>sv_thread := ?th\<rparr>, ?w\<lparr>p_mem := mem2\<rparr>))"
    using free_data_known [of data "?w\<lparr>p_mem := mem\<rparr>" "sv\<lparr>sv_thread := ?th\<rparr>"] assms(10) by auto
  let ?w2 = "?w\<lparr>p_mem := mem2\<rparr>"
  have run: "th_tpforward env svc data len flags (sv, w) = send_res env qid ?m (sv\<lparr>sv_thread := ?th\<rparr>, ?w2)"
    using assms(3,6) by (simp add: th_tpforward_def Let_def q sd f n(1) lift_except_def)
  show ?thesis
  proof (cases "m_replyq req = -1")
    case True
    then have "m_cd req = 0" using assms(7) by simp
    then have "qsend kern_os qid ?m 0 notime (p_os w) = (Inl (Throw System_error), p_os w)"
      using assms(13) by (simp add: qsend_def msg_size_def msgsnd_timed_def kern_os_def kern_snd_def kmsg_type_def Let_def)
    then obtain th where fail: "send_res env qid ?m (sv\<lparr>sv_thread := ?th\<rparr>, ?w2) = (Inl (Throw System_error), (sv\<lparr>sv_thread := th\<rparr>, ?w2))"
      "st_req th = req"
      using assms(1,6) by (simp add: send_res_def sv_os_def set_thread_def)
    then have "reply env (rval_code TPESVCERR) 0 data len flags (sv\<lparr>sv_thread := th\<rparr>, ?w2) = (Inr (), (sv\<lparr>sv_thread := th\<rparr>, ?w2))"
      using True by (simp add: reply_def)
    then have "sv_tpreturn env TPESVCERR 0 data len flags (sv\<lparr>sv_thread := th\<rparr>, ?w2) = (Inr (), (sv\<lparr>sv_thread := th\<rparr>, ?w2))"
      using assms(3) by (intro sv_tpreturn_outside) simp_all
    then show ?thesis using run fail True by (simp add: sv_tpforward_def)
  next
    case False
    have "1 \<le> m_mtype ?m" using False assms(8) by simp
    then obtain th k x where "send_res env qid ?m (sv\<lparr>sv_thread := ?th\<rparr>, ?w2) = (Inr (), (sv\<lparr>sv_thread := th\<rparr>, ?w2\<lparr>p_os := k\<rparr>))"
      "kern_inbox k = (kern_inbox (p_os w))(qid := kern_inbox (p_os w) qid @ [x])" "same_msg x ?m"
      using send_res_kern [OF assms(1), of ?w2 ?m qid "sv\<lparr>sv_thread := ?th\<rparr>"] assms(2,14,15) by auto
    then show ?thesis
      using run False same_msg_more [of x ?m] n(2) by (auto simp: sv_tpforward_def)
  qed
qed

lemma demo_get_queue: "\<exists>rp. get_queue (-1) [83] (tx_mib (p_tx (demo_sproc []))) (cl_repo demo_client) = (Inr 9, rp)"
  using demo_can_call [of "[]"] by (auto simp: can_call_def demo_sproc_def)

theorem tpforward_passes_on_witness:
  "\<exists>s' x. sv_tpforward proc_env [83] (Some 1000) 0 0 (demo_server\<lparr>sv_thread := (sv_thread demo_server)\<lparr>st_req := demo_request\<rparr>\<rparr>, demo_sproc []) =
       (Inr (), s') \<and> kern_inbox (p_os (snd s')) 9 = [x] \<and> m_replyq x = 7 \<and> m_cd x = 1 \<and> m_data x = demo_bytes"
proof -
  let ?sv = "demo_server\<lparr>sv_thread := (sv_thread demo_server)\<lparr>st_req := demo_request\<rparr>\<rparr>"
  obtain rp where q: "get_queue (-1) [83] (tx_mib (p_tx (demo_sproc []))) (cl_repo demo_client) = (Inr 9, rp)"
    using demo_get_queue by blast
  have c: "p_client (demo_sproc []) = Some demo_client" by (simp add: demo_sproc_def)
  have s: "set_data (Some 1000) 0 (st_res (sv_thread ?sv)) (p_mem (demo_sproc [])) = (Inr (new_msg\<lparr>m_data := demo_bytes\<rparr>), demo_atmi demo_string)"
    by (simp add: demo_set_data)
  have sz: "length demo_bytes = 27" "length (m_service (new_msg\<lparr>m_data := demo_bytes\<rparr>)) = 32" "k_queues (demo_kern []) 9 = []"
    by (simp_all add: demo_bytes_def new_msg_def demo_kern_def)
  show ?thesis
    using tpforward_passes_on [OF demo_proc_sel(5) _ _ c q _ _ _ s, where req = demo_request and flags = 0] sz
    by (fastforce simp: demo_kern_ok msg_size_def)
qed

subsection \<open>Requests without data\<close>

text \<open>a request or a reply without data cannot be received: \<open>tpacall\<close> with a null pointer sends a message of
  the header alone, and the receiver takes the length 0 as a sign of base64 text and looks for the end of
  a string behind the end of the message.
\<close>

theorem empty_message_unreadable:
  assumes "cells s cell \<noteq> None"
  shows "\<exists>m' s'. set_data None len m u = (Inr m', u) \<and> get_data al (Some cell) m' s = (Inl Undefined, s')"
  using assms by (auto simp: set_data_def get_data_def tpimport_def exception_boundary_def mem_tpimport_def put_err_def)

theorem empty_message_unreadable_witness:
  "\<exists>m' s'. set_data None 0 new_msg (demo_atmi demo_string) = (Inr m', demo_atmi demo_string) \<and>
     get_data demo_alloc (Some 8) m' (demo_atmi demo_string) = (Inl Undefined, s')"
  using empty_message_unreadable [of "demo_atmi demo_string" 8 0 new_msg "demo_atmi demo_string" demo_alloc] by simp

subsection \<open>The order of requests\<close>

fun mtypes :: "nat \<Rightarrow> server \<Rightarrow> int list" where
  "mtypes 0 sv = []"
| "mtypes (Suc n) sv = (case next_mtype sv of (t, sv) \<Rightarrow> t # mtypes n sv)"

lemma mtypes_nth:
  "i < n \<Longrightarrow> mtypes n sv ! i = (if (sv_count sv + int i + 1) mod 8 = 0 then 0 else sv_mtype sv)"
proof (induction n arbitrary: i sv)
  case (Suc n)
  let ?sv = "sv\<lparr>sv_count := (sv_count sv + 1) mod 8\<rparr>"
  have n: "next_mtype sv = (if (sv_count sv + 1) mod 8 = 0 then 0 else sv_mtype sv, ?sv)"
    by (simp add: next_mtype_def Let_def)
  show ?case
  proof (cases i)
    case 0
    then show ?thesis by (simp add: n)
  next
    case (Suc j)
    have "((sv_count sv + 1) mod 8 + int j + 1) mod 8 = (sv_count sv + int (Suc j) + 1) mod 8"
      using mod_add_left_eq [of "sv_count sv + 1" 8 "int j + 1"] by (simp add: add.assoc add.commute add.left_commute)
    then show ?thesis using Suc Suc.prems Suc.IH [of j ?sv] by (simp add: n)
  qed
qed simp

text \<open>no request waits for ever behind others of a lower type: among any eight messages a server takes
  one after the other, exactly one is asked for as the oldest of the queue, whatever its type.
\<close>

theorem oldest_every_eighth:
  "\<exists>i < 8. mtypes 8 sv ! i = 0 \<and> (\<forall>j < 8. mtypes 8 sv ! j = (if j = i then 0 else sv_mtype sv))"
proof -
  define i where "i = nat ((7 - sv_count sv) mod 8)"
  have i: "int i = (7 - sv_count sv) mod 8" by (simp add: i_def)
  have "(sv_count sv + int j + 1) mod 8 = 0 \<longleftrightarrow> j = i" if "j < 8" for j
  proof -
    have "(sv_count sv + int j + 1) mod 8 = 0 \<longleftrightarrow> 8 dvd int j - (7 - sv_count sv) + 8"
      by (simp add: dvd_eq_mod_eq_0 add.commute)
    also have "\<dots> \<longleftrightarrow> 8 dvd int j - (7 - sv_count sv)" by (simp only: dvd_add_triv_right_iff)
    also have "\<dots> \<longleftrightarrow> int j mod 8 = (7 - sv_count sv) mod 8" by (rule mod_eq_dvd_iff [symmetric])
    finally show ?thesis using that by (simp add: i [symmetric])
  qed
  moreover have "i < 8" by (simp add: i_def nat_less_iff)
  ultimately show ?thesis using mtypes_nth by (intro exI [of _ i]) auto
qed

theorem oldest_every_eighth_witness:
  "\<exists>i < 8. mtypes 8 demo_server ! i = 0 \<and> (\<forall>j < 8. mtypes 8 demo_server ! j = (if j = i then 0 else LONG_MIN))"
  using oldest_every_eighth [of demo_server] by (simp only: demo_server_sel)

subsection \<open>Shutting down\<close>

lemma handle_result:
  assumes "get_long fp TA_SRVID 0 b = Inr i" "get_long fp TA_GRPNO 0 b = Inr g"
  shows "handle fp mtype b sv =
    (Inr (i = int (sv_srvid sv) \<and> g = int (sv_grpno sv)),
     sv\<lparr>sv_mtype := - (mtype - 1), sv_count := 0, sv_stop := sv_stop sv \<or> i = int (sv_srvid sv) \<and> g = int (sv_grpno sv)\<rparr>)"
  using assms by (cases sv) (auto simp: handle_def Let_def)

text \<open>A request to stop has been received; the fields of its buffer name a server.\<close>

definition stop_received :: "('r, 'n, kern) senv \<Rightarrow> server \<Rightarrow> ('r, 'n, kern) proc \<Rightarrow> msg \<Rightarrow> msg list \<Rightarrow> atmi \<Rightarrow> int \<Rightarrow> int \<Rightarrow> bool" where
  "stop_received se sv w m ms m2 i g \<longleftrightarrow>
     e_os (se_env se) = kern_os \<and> kern_ok (p_os w) \<and> kern_inbox (p_os w) (sv_rq sv) = m # ms \<and>
     (\<forall>x \<in> set (m # ms). m_mtype x = 1) \<and> sv_mtype sv < 0 \<and> \<not> sv_stop sv \<and> sv_main sv = None \<and>
     c_string (m_service m) = stop_name \<and> cells (p_mem w) (st_cell (sv_thread sv)) \<noteq> None \<and>
     get_data (e_al (se_env se)) (Some (st_cell (sv_thread sv))) m (p_mem w) = (Inr (), m2) \<and>
     (\<exists>p b. cells m2 (st_cell (sv_thread sv)) = Some p \<and> blocks m2 p = Some b \<and>
        get_long (se_fp se) TA_SRVID 0 (fb_of (buf_data b)) = Inr i \<and> get_long (se_fp se) TA_GRPNO 0 (fb_of (buf_data b)) = Inr g)"

lemma stop_taken:
  assumes "stop_received se sv w m ms m2 i g"
  shows "\<exists>k. kern_ok k \<and> kern_inbox k = (kern_inbox (p_os w))(sv_rq sv := ms) \<and> kern_frame (p_os w) k \<and>
    dispatch_once se (sv, w) =
      (let mine = i = int (sv_srvid sv) \<and> g = int (sv_grpno sv);
           s = (sv\<lparr>sv_thread := (sv_thread sv)\<lparr>st_req := m\<rparr>, sv_mtype := - (m_mtype m - 1), sv_count := 0, sv_stop := mine\<rparr>,
                w\<lparr>p_os := k, p_mem := m2\<rparr>)
       in if mine then (Inr (), set_thread ((sv_thread (fst s))\<lparr>to_shutdown := True\<rparr>) s)
          else seqx (seqx (sv_os (qsend (e_os (se_env se)) (sv_rq (fst s)) m 0 notime) s) (\<lambda>(_, m) s.
                   (Inr False, set_thread ((sv_thread (fst s))\<lparr>st_req := m\<rparr>) s))) (\<lambda>mine s.
                 if mine then (Inr (), s) else call_service se s))"
proof -
  let ?sv = "(snd (next_mtype sv))\<lparr>sv_thread := (sv_thread sv)\<lparr>st_req := m\<rparr>\<rparr>"
  obtain c where c: "snd (next_mtype sv) = sv\<lparr>sv_count := c\<rparr>" using next_mtype_same by blast
  note a = assms [unfolded stop_received_def]
  obtain k where k: "take_request (se_env se) (sv, w) = (Inr (), (?sv, w\<lparr>p_os := k, p_mem := m2\<rparr>))"
    "kern_ok k" "kern_inbox k = (kern_inbox (p_os w))(sv_rq sv := ms)" "kern_frame (p_os w) k"
    using take_request_takes [of "se_env se" w sv m ms m2] a by blast
  obtain p b where b: "cells m2 (st_cell (sv_thread sv)) = Some p" "blocks m2 p = Some b"
    "get_long (se_fp se) TA_SRVID 0 (fb_of (buf_data b)) = Inr i" "get_long (se_fp se) TA_GRPNO 0 (fb_of (buf_data b)) = Inr g"
    using a by blast
  note h = handle_result [OF b(3,4), of "m_mtype m" ?sv]
  show ?thesis
    using k a b(1,2) h
    by (intro exI [of _ k])
      (simp add: dispatch_once_def admin_request_def stopped_def set_thread_def Let_def c split del: if_split cong: if_cong, simp)
qed

text \<open>a request to stop that names the server's SRVID and GRPNO ends the loop of \<open>dispatch\<close> after that
  message, and the main thread keeps the request to answer it when the server is done.
\<close>

theorem stop_ends_dispatch:
  assumes "stop_received se sv w m ms m2 (int (sv_srvid sv)) (int (sv_grpno sv))"
  shows "\<exists>sv' w'. dispatch se (sv, w) = Some (Inr (), (sv', w')) \<and> sv_stop sv' \<and> to_shutdown (sv_thread sv') \<and>
    st_req (sv_thread sv') = m \<and> kern_inbox (p_os w') = (kern_inbox (p_os w))(sv_rq sv := ms)"
proof -
  obtain k where k: "kern_inbox k = (kern_inbox (p_os w))(sv_rq sv := ms)" "dispatch_once se (sv, w) =
      (Inr (), (sv\<lparr>sv_mtype := - (m_mtype m - 1), sv_count := 0, sv_stop := True,
         sv_thread := (sv_thread sv)\<lparr>st_req := m, to_shutdown := True\<rparr>\<rparr>, w\<lparr>p_os := k, p_mem := m2\<rparr>))"
    using stop_taken [OF assms] by (auto simp: set_thread_def Let_def)
  have "\<not> sv_stop sv" using assms by (simp add: stop_received_def)
  then show ?thesis using k by (subst dispatch.simps) (simp, subst dispatch.simps, simp)
qed

text \<open>a request to stop that names another server of the same queue is put back at the end of the queue,
  but is then also treated as a request for the service \<open>.stop\<close>: the table of services has no such
  entry, and its end is dereferenced.
\<close>

theorem stop_for_another_undefined:
  assumes "stop_received se sv w m ms m2 i g" "\<not> (i = int (sv_srvid sv) \<and> g = int (sv_grpno sv))"
    and "map_of (sv_services sv) stop_name = None" "\<not> has_flag (m_flags m) TPTRAN"
    and "k_files (p_os w) (k_next (p_os w)) = None" "length (k_queues (p_os w) (sv_rq sv)) \<le> k_cap (p_os w)"
  shows "\<exists>s' x. dispatch se (sv, w) = Some (Inl Undefined, s') \<and> same_msg x m \<and>
    kern_inbox (p_os (snd s')) = (kern_inbox (p_os w))(sv_rq sv := ms @ [x])"
proof -
  obtain k where k: "kern_ok k" "kern_inbox k = (kern_inbox (p_os w))(sv_rq sv := ms)" "kern_frame (p_os w) k"
    "dispatch_once se (sv, w) =
      (let s = (sv\<lparr>sv_thread := (sv_thread sv)\<lparr>st_req := m\<rparr>, sv_mtype := - (m_mtype m - 1), sv_count := 0, sv_stop := False\<rparr>,
                w\<lparr>p_os := k, p_mem := m2\<rparr>)
       in seqx (seqx (sv_os (qsend (e_os (se_env se)) (sv_rq (fst s)) m 0 notime) s) (\<lambda>(_, m) s.
                   (Inr False, set_thread ((sv_thread (fst s))\<lparr>st_req := m\<rparr>) s))) (\<lambda>mine s.
                 if mine then (Inr (), s) else call_service se s))"
    using stop_taken [OF assms(1)] assms(2) unfolding Let_def by auto
  have a: "e_os (se_env se) = kern_os" "m_mtype m = 1" "\<not> sv_stop sv" "c_string (m_service m) = stop_name"
    "kern_inbox (p_os w) (sv_rq sv) = m # ms"
    using assms(1) by (simp_all add: stop_received_def)
  have room: "length (k_queues k (sv_rq sv)) < k_cap k" "k_files k (k_next k) = None"
    using assms(5,6) k(2,3) a(5) kern_inbox_length [of k "sv_rq sv"] kern_inbox_length [of "p_os w" "sv_rq sv"]
    by (simp_all add: kern_frame_def)
  obtain m' k' where s: "qsend kern_os (sv_rq sv) m 0 notime k = (Inr (True, m'), k')"
    using kern_send [of m k notime 0 "sv_rq sv"] a(2) room by auto
  obtain x where x: "kern_inbox k' = (kern_inbox k)(sv_rq sv := kern_inbox k (sv_rq sv) @ [x])" "same_msg x m"
    using kern_mq.send_ok [OF k(1) s] by auto
  have m': "m_service m' = m_service m" "m_flags m' = m_flags m" using qsend_msg [OF s] by auto
  let ?s = "(sv\<lparr>sv_mtype := - (m_mtype m - 1), sv_count := 0, sv_stop := False, sv_thread := (sv_thread sv)\<lparr>st_req := m'\<rparr>\<rparr>,
      w\<lparr>p_os := k', p_mem := m2\<rparr>)"
  have "dispatch_once se (sv, w) = (Inl Undefined, ?s)"
    using k(4) s a m' assms(3,4) by (simp add: Let_def sv_os_def set_thread_def call_service_def)
  then show ?thesis
    using a(3) x k(2) by (subst dispatch.simps) (auto intro!: exI [of _ x])
qed

subsection \<open>A request to stop\<close>

lemma get_long_field:
  assumes "rep b cs" "valid_id fid" "fid \<noteq> BADFLDID" "Fldtype32 fid = FLD_LONG" "occs cs fid = v # vs" "length v = 8"
  shows "get_long fp fid 0 b = Inr (sdec_le v)"
proof -
  obtain p where p: "fb_find fid 0 b = Ret (p, 8)" "rd p 8 (bdata b) = v"
    using rep_find(1) [OF assms(1,2), of 0] assms(5,6) by auto
  have bd: "- (2 ^ 63) \<le> sdec_le v" "sdec_le v < 2 ^ 63" using sdec_le_bounds [of v 8] assms(6) by auto
  have "find_cvt fp fid 0 FLD_LONG b = Ret (enc_le 8 (sdec_le v) @ [0], 8)"
    using p assms(4,6) by (simp add: find_cvt_def bind_outcome_def Ftypcvt32_def peek_def TYPCVT_def copy_n_def)
  then have "fst (CFget32 fp (Buf b) fid 0 None FLD_LONG) = Ret (enc_le 8 (sdec_le v))"
    using assms(2,3) by (simp add: CFget32_def FBFR32_CHECK_def FLDID32_CHECK_def reading_def bind_outcome_def valid_id_def)
  moreover have "sdec_le (enc_le 8 (sdec_le v)) = sdec_le v" using bd by (intro sdec_enc_le) simp_all
  ultimately show ?thesis by (simp add: get_long_def)
qed

definition stop_chunks :: "byte \<Rightarrow> chunk list" where
  "stop_chunks i = [enc32 16777328 @ [0, 0, 0, 0] @ [1, 0, 0, 0, 0, 0, 0, 0], enc32 16777355 @ [0, 0, 0, 0] @ [i, 0, 0, 0, 0, 0, 0, 0]]"

definition stop_block :: "byte \<Rightarrow> tpmem" where
  "stop_block i = put_data (fb_into (mk_buffer 256 (stop_chunks i))) \<lparr>tm_size = 296, tm_owner = None,
     tm_body = wr 0 [70, 77, 76, 51, 50, 0, 0, 0, 0] (\<lambda>_. 0), tm_room = 296\<rparr>"

definition stop_msg :: "byte \<Rightarrow> msg" where
  "stop_msg i = new_msg\<lparr>m_service := stop_name @ replicate 27 0, m_data := rd 0 96 (tm_body (stop_block i))\<rparr>"

lemma stop_rep: "rep (mk_buffer 256 (stop_chunks i)) (stop_chunks i)"
proof (rule rep_mk_buffer)
  show "\<forall>c \<in> set (stop_chunks i). wf_chunk c" by (simp add: stop_chunks_def eval_chunk)
qed (simp_all add: stop_chunks_def cid_def)

lemma stop_block_fields:
  "type_of (stop_block i) = Some (tptypes_table ! 3)" "fb_of (buf_data (stop_block i)) = mk_buffer 256 (stop_chunks i)"
  "fb_used (fb_of (buf_data (stop_block i))) = 72" "tm_size (stop_block i) = 296" "tm_room (stop_block i) = 296"
proof -
  have "buf_type (stop_block i) = [70, 77, 76, 51, 50, 0, 0, 0]" "c_string (buf_subtype (stop_block i)) = []"
    by (simp_all add: stop_block_def no_subtype wr_nth) (simp add: buf_type_def rd_wr_sub)
  then show "type_of (stop_block i) = Some (tptypes_table ! 3)"
    by (simp add: type_of_def block_type_def typeptr_def tptypes_table_def strn_eq_def) (simp add: c_string_def)
  show f: "fb_of (buf_data (stop_block i)) = mk_buffer 256 (stop_chunks i)"
    using fb_of_into [OF stop_rep] by (simp add: stop_block_def)
  show "fb_used (fb_of (buf_data (stop_block i))) = 72"
    using rep_blen [OF stop_rep, of i] unfolding f by (simp add: fb_used_def) (simp add: stop_chunks_def)
  show "tm_size (stop_block i) = 296" "tm_room (stop_block i) = 296" by (simp_all add: stop_block_def put_data_def)
qed

lemma stop_longs:
  assumes "rep b (stop_chunks i)" "i = 1 \<or> i = 2"
  shows "get_long fp TA_GRPNO 0 b = Inr 1" "get_long fp TA_SRVID 0 b = Inr (int (unat i))"
proof -
  have o: "occs (stop_chunks i) 16777328 = [[1, 0, 0, 0, 0, 0, 0, 0]]" "occs (stop_chunks i) 16777355 = [[i, 0, 0, 0, 0, 0, 0, 0]]"
    by (simp_all add: stop_chunks_def occs_def same_id_def eval_chunk)
  have v: "valid_id 16777328" "valid_id 16777355" "Fldtype32 16777328 = FLD_LONG" "Fldtype32 16777355 = FLD_LONG"
    by (simp_all add: eval_chunk)
  have s: "sdec_le [1, 0, 0, 0, 0, 0, 0, 0] = 1" "sdec_le [2, 0, 0, 0, 0, 0, 0, 0] = 2" by code_simp+
  show "get_long fp TA_GRPNO 0 b = Inr 1" "get_long fp TA_SRVID 0 b = Inr (int (unat i))"
    using get_long_field [OF assms(1) v(1) _ v(3) o(1)] get_long_field [OF assms(1) v(2) _ v(4) o(2)] assms(2) s by auto
qed

lemma stop_imported:
  "\<exists>b2. get_data al (Some 8) (stop_msg i) (demo_atmi (stop_block i)) = (Inr (), put_err 0 (put_block 1000 b2 (demo_atmi (stop_block i)))) \<and>
     rep (fb_of (buf_data b2)) (stop_chunks i)"
proof -
  let ?b = "stop_block i" and ?xs = "rd 0 96 (tm_body (stop_block i))"
  have b: "?b\<lparr>tm_body := wr 0 ?xs (tm_body ?b)\<rparr> = ?b" by (cases "stop_block i") (simp add: wr_def fun_eq_iff)
  have s: "cells (demo_atmi ?b) 8 = Some 1000" "blocks (demo_atmi ?b) 1000 = Some ?b" by (simp_all add: demo_atmi_def)
  have t: "tt_reinit (tptypes_table ! 3) \<noteq> None" by (simp add: tptypes_table_def)
  let ?b2 = "imported 96 ?b (tptypes_table ! 3) ?b"
  have "tpimport al (Some (?xs @ [])) (int (length ?xs)) (Some 8) 0 (demo_atmi ?b) =
      (Inr (0, Some (int (length ?xs))), put_err 0 (put_block 1000 ?b2 (demo_atmi ?b)))"
    unfolding imported_def using stop_block_fields [of i] b by (intro import_plain [OF s]) (simp_all flip: length_greater_0_conv)
  then have "get_data al (Some 8) (stop_msg i) (demo_atmi ?b) = (Inr (), put_err 0 (put_block 1000 ?b2 (demo_atmi ?b)))"
    by (simp add: get_data_def stop_msg_def)
  moreover have "rep (fb_of (buf_data ?b2)) (stop_chunks i)"
    using stop_rep [of i] stop_block_fields [of i] by (intro imported_fields(1) [OF _ t]) simp_all
  ultimately show ?thesis by blast
qed

definition stop_proc :: "byte \<Rightarrow> (unit, unit sync, kern) proc" where
  "stop_proc i = (demo_sproc [stop_msg i])\<lparr>p_mem := demo_atmi (stop_block i)\<rparr>"

lemma demo_stop_received:
  assumes "i = 1 \<or> i = 2"
  shows "\<exists>m2. stop_received demo_senv demo_server (stop_proc i) (stop_msg i) [] m2 (int (unat i)) 1"
proof -
  obtain b2 where b2: "get_data (e_al proc_env) (Some 8) (stop_msg i) (demo_atmi (stop_block i)) =
      (Inr (), put_err 0 (put_block 1000 b2 (demo_atmi (stop_block i))))" "rep (fb_of (buf_data b2)) (stop_chunks i)"
    using stop_imported by blast
  have m: "m_mtype (stop_msg i) = 1" "c_string (m_service (stop_msg i)) = stop_name"
    by (simp_all add: stop_msg_def new_msg_def stop_name_def c_string_def)
  have p: "cells (put_err 0 (put_block 1000 b2 (demo_atmi (stop_block i)))) 8 = Some 1000"
    "blocks (put_err 0 (put_block 1000 b2 (demo_atmi (stop_block i)))) 1000 = Some b2"
    by (simp_all add: put_block_def demo_atmi_def)
  have sv: "\<not> sv_stop demo_server" "sv_main demo_server = None" by (simp_all add: demo_server_def new_server_def)
  show ?thesis
    using b2(1) m p sv stop_longs [OF b2(2) assms] demo_kern_ok
    by (intro exI [of _ "put_err 0 (put_block 1000 b2 (demo_atmi (stop_block i)))"])
      (auto simp: stop_received_def stop_proc_def LONG_MIN_def)
qed

theorem stop_ends_dispatch_witness:
  "\<exists>sv' w'. dispatch demo_senv (demo_server, stop_proc 1) = Some (Inr (), (sv', w')) \<and> to_shutdown (sv_thread sv')"
proof -
  have "int (unat (1 :: byte)) = int (sv_srvid demo_server)" "(1 :: int) = int (sv_grpno demo_server)"
    by (simp_all add: demo_server_def new_server_def)
  then obtain m2 where "stop_received demo_senv demo_server (stop_proc 1) (stop_msg 1) [] m2 (int (sv_srvid demo_server)) (int (sv_grpno demo_server))"
    using demo_stop_received [of 1] by auto
  from stop_ends_dispatch [OF this] show ?thesis by blast
qed

theorem stop_for_another_undefined_witness:
  "\<exists>s'. dispatch demo_senv (demo_server, stop_proc 2) = Some (Inl Undefined, s')"
proof -
  obtain m2 where r: "stop_received demo_senv demo_server (stop_proc 2) (stop_msg 2) [] m2 (int (unat (2 :: byte))) 1"
    using demo_stop_received [of 2] by auto
  have "int (unat (2 :: byte)) = 2" "sv_srvid demo_server = 1" by (simp_all add: demo_server_def new_server_def)
  moreover have "m_flags (stop_msg 2) = 0" by (simp add: stop_msg_def new_msg_def)
  moreover have "length (k_queues (p_os (stop_proc 2)) 9) \<le> k_cap (p_os (stop_proc 2))" "k_files (p_os (stop_proc 2)) f = None" for f
    by (simp_all add: stop_proc_def) (simp add: demo_kern_def)
  ultimately show ?thesis
    using stop_for_another_undefined [OF r] by (auto simp: has_flag_def stop_name_def)
qed

end
