(* ===== verification/Bbl.thy ===== *)
theory Bbl
  imports Client
begin

text \<open>
  src/BBL.cpp: the watchdog of the bulletin board. Once a second it tells the clients that waited too long
  for a reply, and forgets servers and clients whose process is gone. It reads and writes the shared
  memory without its lock. Whether a process lives is asked of the operating system; an exception ends
  the process of the BBL, since nothing in its thread catches it.
\<close>

record 'k watch_env =
  we_os :: "'k os"
  we_alive :: "int \<Rightarrow> 'k \<Rightarrow> bool"
  we_qdelete :: "int \<Rightarrow> 'k \<Rightarrow> 'k"

type_synonym 'k board = "mibmem \<times> 'k"

definition unblock_msg :: msg where
  "unblock_msg = new_msg\<lparr>m_cat := unblock\<rparr>"

subsection \<open>Time-outs\<close>

text \<open>
  The loop of \<open>handle_blocktime\<close>: \<open>n\<close> rounds are left, the index is \<open>i\<close>. The access is not checked, an
  index beyond the table has no meaning.
\<close>

fun unblock_from :: "'k watch_env \<Rightarrow> int \<Rightarrow> nat \<Rightarrow> nat \<Rightarrow> 'k board \<Rightarrow> (unit, 'k board) call" where
  "unblock_from e now 0 i s = (Inr (), s)"
| "unblock_from e now (Suc n) i s =
     (case arr_at (accessers (fst s)) i of
        Inl _ \<Rightarrow> (Inl Undefined, s)
      | Inr acc \<Rightarrow>
          if \<not> acc_valid acc then unblock_from e now n (Suc i) s
          else if acc_timeout acc < now then
            (case qsend (we_os e) (acc_rpid acc) unblock_msg 0 notime (snd s) of
               (Inl x, k) \<Rightarrow> (Inl x, (fst s, k))
             | (Inr _, k) \<Rightarrow> unblock_from e now n (Suc i) (fst s, k))
          else unblock_from e now n (Suc i) s)"

definition handle_blocktime :: "'k watch_env \<Rightarrow> int \<Rightarrow> 'k board \<Rightarrow> (unit, 'k board) call" where
  "handle_blocktime e now s = unblock_from e now (arr_len (accessers (fst s))) 0 s"

subsection \<open>Processes that are gone\<close>

text \<open>Both loops run from the last entry to the first; \<open>n\<close> entries are left.\<close>

fun servers_from :: "'k watch_env \<Rightarrow> nat \<Rightarrow> 'k board \<Rightarrow> (unit, 'k board) call" where
  "servers_from e 0 s = (Inr (), s)"
| "servers_from e (Suc i) s =
     (case arr_at (servers (fst s)) i of
        Inl _ \<Rightarrow> (Inl Undefined, s)
      | Inr srv \<Rightarrow>
          servers_from e i
            (if srv_pid srv = 0 \<or> we_alive e (srv_pid srv) (snd s) then s
             else (set_server i (srv\<lparr>srv_pid := 0\<rparr>) (fst s), snd s)))"

definition monitor_servers :: "'k watch_env \<Rightarrow> 'k board \<Rightarrow> (unit, 'k board) call" where
  "monitor_servers e s = servers_from e (arr_len (servers (fst s))) s"

fun clients_from :: "'k watch_env \<Rightarrow> nat \<Rightarrow> 'k board \<Rightarrow> (unit, 'k board) call" where
  "clients_from e 0 s = (Inr (), s)"
| "clients_from e (Suc i) s =
     (case arr_at (accessers (fst s)) i of
        Inl _ \<Rightarrow> (Inl Undefined, s)
      | Inr acc \<Rightarrow>
          clients_from e i
            (if acc_pid acc = 0 \<or> we_alive e (acc_pid acc) (snd s) then s
             else if acc_rpid acc \<noteq> 0 then
               (set_accesser i (acc\<lparr>acc_pid := 0, acc_rpid := 0\<rparr>) (fst s), we_qdelete e (acc_rpid acc) (snd s))
             else (set_accesser i (acc\<lparr>acc_pid := 0\<rparr>) (fst s), snd s)))"

definition monitor_clients :: "'k watch_env \<Rightarrow> 'k board \<Rightarrow> (unit, 'k board) call" where
  "monitor_clients e s = clients_from e (arr_len (accessers (fst s))) s"

text \<open>
  The loop of \<open>run_watchdog\<close> for as many rounds as there are readings of the clock. It never ends by
  itself.
\<close>

fun run_watchdog :: "'k watch_env \<Rightarrow> int list \<Rightarrow> 'k board \<Rightarrow> (unit, 'k board) call" where
  "run_watchdog e [] s = (Inr (), s)"
| "run_watchdog e (now # nows) s =
     seqx (handle_blocktime e now s) (\<lambda>_ s.
     seqx (monitor_servers e s) (\<lambda>_ s.
     seqx (monitor_clients e s) (\<lambda>_ s. run_watchdog e nows s)))"

end
