(* ===== verification/Bbl_Props.thy ===== *)
theory Bbl_Props
  imports Bbl Client_Claims
begin

text \<open>
  What the watchdog of src/BBL.cpp does to the shared tables and the queues of the clients, and how it
  ends the wait of a client.
\<close>

subsection \<open>The tables\<close>

text \<open>A table whose entries lie within its memory.\<close>

definition arr_sound :: "'a mibarr \<Rightarrow> bool" where
  "arr_sound a \<longleftrightarrow> arr_len a \<le> arr_size a \<and> arr_size a \<le> length (arr_data a)"

definition arr_list :: "'a mibarr \<Rightarrow> 'a list" where
  "arr_list a = take (arr_len a) (arr_data a)"

lemma arr_sound_at: "arr_sound a \<Longrightarrow> i < arr_len a \<Longrightarrow> arr_at a i = Inr (arr_list a ! i)"
  by (simp add: arr_sound_def arr_list_def arr_at_def)

lemma length_arr_list: "arr_sound a \<Longrightarrow> length (arr_list a) = arr_len a"
  by (simp add: arr_sound_def arr_list_def)

lemma arr_put_sound [simp]: "arr_sound (arr_put i x a) = arr_sound a" "arr_len (arr_put i x a) = arr_len a"
  by (simp_all add: arr_sound_def arr_put_def)

lemma arr_put_list: "arr_sound a \<Longrightarrow> i < arr_len a \<Longrightarrow> arr_list (arr_put i x a) = (arr_list a)[i := x]"
  by (simp add: arr_list_def arr_put_def arr_sound_def take_update_swap)

subsection \<open>Time-outs\<close>

definition overdue :: "int \<Rightarrow> accesser \<Rightarrow> bool" where
  "overdue now a \<longleftrightarrow> acc_valid a \<and> acc_timeout a < now"

text \<open>The messages the watchdog sends to a queue.\<close>

definition timeouts :: "int \<Rightarrow> accesser list \<Rightarrow> int \<Rightarrow> msg list" where
  "timeouts now as q = map (\<lambda>_. unblock_msg) (filter (\<lambda>a. overdue now a \<and> acc_rpid a = q) as)"

lemma timeouts_simps [simp]:
  "timeouts now [] q = []"
  "timeouts now (a # as) q = (if overdue now a \<and> acc_rpid a = q then [unblock_msg] else []) @ timeouts now as q"
  by (simp_all add: timeouts_def)

definition put_msgs :: "(int \<Rightarrow> msg list) \<Rightarrow> kern \<Rightarrow> kern" where
  "put_msgs f k = k\<lparr>k_queues := (\<lambda>q. k_queues k q @ map Whole (f q))\<rparr>"

lemma put_msgs_simps [simp]:
  "k_queues (put_msgs f k) q = k_queues k q @ map Whole (f q)" "k_cap (put_msgs f k) = k_cap k"
  "k_files (put_msgs f k) = k_files k" "kern_inbox (put_msgs f k) q = kern_inbox k q @ f q"
  by (auto simp: put_msgs_def kern_inbox_def comp_def split: kmsg.split)

lemma put_msgs_ok [simp]: "kern_ok (put_msgs f k) = kern_ok k"
proof -
  have "kmsg_files (xs @ map Whole ms) = kmsg_files xs" for xs ms by simp
  then show ?thesis by (simp add: kern_ok_def)
qed

lemma put_msgs_put: "put_msgs g (put_msgs f k) = put_msgs (\<lambda>q. f q @ g q) k"
  by (simp add: put_msgs_def)

lemma put_nothing: "put_msgs (\<lambda>q. []) k = k"
  by (simp add: put_msgs_def)

lemma send_unblock:
  assumes "length (k_queues k q) < k_cap k"
  shows "qsend kern_os q unblock_msg 0 notime k = (Inr (True, unblock_msg), put_msgs (\<lambda>r. if r = q then [unblock_msg] else []) k)"
proof -
  have "unblock_msg\<lparr>m_ttype := In_queue\<rparr> = unblock_msg" by (simp add: unblock_msg_def new_msg_def)
  moreover have "(k_queues k)(q := k_queues k q @ [Whole unblock_msg]) =
      (\<lambda>r. k_queues k r @ map Whole (if r = q then [unblock_msg] else []))" by auto
  ultimately show ?thesis
    using assms by (simp add: qsend_def msg_size_def msgsnd_timed_def kern_os_def kern_snd_def kmsg_type_def put_msgs_def
        Let_def unblock_msg_def new_msg_def)
qed

lemma unblock_from_run:
  assumes "we_os e = kern_os" "\<forall>j < length as. arr_at (accessers m) (i + j) = Inr (as ! j)"
    and "\<forall>q. timeouts now as q \<noteq> [] \<longrightarrow> length (k_queues k q) + length (timeouts now as q) \<le> k_cap k"
  shows "unblock_from e now (length as) i (m, k) = (Inr (), (m, put_msgs (timeouts now as) k))"
  using assms(2,3)
proof (induction as arbitrary: i k)
  case Nil
  then show ?case by (simp add: put_nothing)
next
  case (Cons a as)
  have a: "arr_at (accessers m) i = Inr a" using Cons.prems(1) by force
  have as: "\<forall>j < length as. arr_at (accessers m) (Suc i + j) = Inr (as ! j)" using Cons.prems(1) by force
  show ?case
  proof (cases "overdue now a")
    case True
    let ?k = "put_msgs (\<lambda>r. if r = acc_rpid a then [unblock_msg] else []) k"
    have "length (k_queues k (acc_rpid a)) < k_cap k" using Cons.prems(2) True by (auto dest: spec [of _ "acc_rpid a"])
    then have s: "qsend kern_os (acc_rpid a) unblock_msg 0 notime k = (Inr (True, unblock_msg), ?k)" by (rule send_unblock)
    have "\<forall>q. timeouts now as q \<noteq> [] \<longrightarrow> length (k_queues ?k q) + length (timeouts now as q) \<le> k_cap ?k"
      using Cons.prems(2) True by (auto dest: spec [where P = "\<lambda>q. _ q \<longrightarrow> _ q"])
    from Cons.IH [OF as this] have "unblock_from e now (length as) (Suc i) (m, ?k) =
        (Inr (), (m, put_msgs (timeouts now as) ?k))" .
    moreover have "put_msgs (timeouts now as) ?k = put_msgs (timeouts now (a # as)) k"
      using True by (simp add: put_msgs_put) (rule arg_cong [where f = "\<lambda>f. put_msgs f k"], auto simp: fun_eq_iff)
    ultimately show ?thesis using a s True assms(1) by (simp add: overdue_def del: timeouts_simps)
  next
    case False
    then have "\<forall>q. timeouts now as q \<noteq> [] \<longrightarrow> length (k_queues k q) + length (timeouts now as q) \<le> k_cap k"
      using Cons.prems(2) by simp
    from Cons.IH [OF as this] show ?thesis using a False by (auto simp: overdue_def put_msgs_def)
  qed
qed

lemma timeouts_length: "length (timeouts now as q) \<le> length as"
  by (simp add: timeouts_def)

lemma handle_blocktime_run:
  assumes "we_os e = kern_os" "arr_sound (accessers m)"
    and "\<forall>q. timeouts now (arr_list (accessers m)) q \<noteq> [] \<longrightarrow>
      length (k_queues k q) + length (timeouts now (arr_list (accessers m)) q) \<le> k_cap k"
  shows "handle_blocktime e now (m, k) = (Inr (), (m, put_msgs (timeouts now (arr_list (accessers m))) k))"
  using unblock_from_run [OF assms(1) _ assms(3), of m 0] arr_sound_at [OF assms(2)] length_arr_list [OF assms(2)]
  by (simp add: handle_blocktime_def)

subsection \<open>Processes that are gone\<close>

definition forget_server :: "(int \<Rightarrow> bool) \<Rightarrow> mib_server \<Rightarrow> mib_server" where
  "forget_server lives s = (if srv_pid s = 0 \<or> lives (srv_pid s) then s else s\<lparr>srv_pid := 0\<rparr>)"

definition forget_client :: "(int \<Rightarrow> bool) \<Rightarrow> accesser \<Rightarrow> accesser" where
  "forget_client lives a =
     (if acc_pid a = 0 \<or> lives (acc_pid a) then a
      else if acc_rpid a \<noteq> 0 then a\<lparr>acc_pid := 0, acc_rpid := 0\<rparr> else a\<lparr>acc_pid := 0\<rparr>)"

text \<open>The queues of clients that are gone.\<close>

definition dead_queues :: "(int \<Rightarrow> bool) \<Rightarrow> accesser list \<Rightarrow> int list" where
  "dead_queues lives as =
     map acc_rpid (filter (\<lambda>a. acc_pid a \<noteq> 0 \<and> \<not> lives (acc_pid a) \<and> acc_rpid a \<noteq> 0) as)"

lemma map_update_step: "n < length xs \<Longrightarrow> map f (take n (xs[n := f (xs ! n)])) @ drop n (xs[n := f (xs ! n)]) = map f (take (Suc n) xs) @ drop (Suc n) xs"
  by (simp add: take_Suc_conv_app_nth drop_update_cancel Cons_nth_drop_Suc [symmetric])

lemma servers_from_run:
  assumes "\<And>p k. we_alive e p k = lives p" "arr_sound (servers m)" "n \<le> arr_len (servers m)"
  shows "\<exists>a. servers_from e n (m, k) = (Inr (), (m\<lparr>servers := a\<rparr>, k)) \<and> arr_sound a \<and> arr_len a = arr_len (servers m) \<and>
    arr_list a = map (forget_server lives) (take n (arr_list (servers m))) @ drop n (arr_list (servers m))"
  using assms(2,3)
proof (induction n arbitrary: m)
  case 0
  then show ?case by (intro exI [of _ "servers m"]) simp
next
  case (Suc n)
  let ?x = "arr_list (servers m) ! n"
  have x: "arr_at (servers m) n = Inr ?x" using Suc.prems by (simp add: arr_sound_at)
  define m2 where "m2 = (if srv_pid ?x = 0 \<or> lives (srv_pid ?x) then m else set_server n (forget_server lives ?x) m)"
  have l: "n < length (arr_list (servers m))" using Suc.prems by (simp add: length_arr_list)
  have sound: "arr_sound (servers m2)" "arr_len (servers m2) = arr_len (servers m)"
    using Suc.prems by (simp_all add: set_server_def m2_def)
  have list: "arr_list (servers m2) = (arr_list (servers m))[n := forget_server lives ?x]"
    using Suc.prems by (simp add: set_server_def arr_put_list forget_server_def m2_def)
  obtain a where a: "servers_from e n (m2, k) = (Inr (), (m2\<lparr>servers := a\<rparr>, k))" "arr_sound a"
    "arr_len a = arr_len (servers m2)"
    "arr_list a = map (forget_server lives) (take n (arr_list (servers m2))) @ drop n (arr_list (servers m2))"
    using Suc.IH [of m2] Suc.prems sound by auto
  have "m2\<lparr>servers := a\<rparr> = m\<lparr>servers := a\<rparr>" by (simp add: set_server_def m2_def)
  moreover have "servers_from e (Suc n) (m, k) = servers_from e n (m2, k)"
    using x assms(1) by (simp add: m2_def forget_server_def)
  ultimately show ?case
    using a sound list map_update_step [OF l, of "forget_server lives"] by (intro exI [of _ a]) simp
qed

lemma clients_from_run:
  assumes "\<And>p k. we_alive e p k = lives p" "arr_sound (accessers m)" "n \<le> arr_len (accessers m)"
  shows "\<exists>a. clients_from e n (m, k) =
      (Inr (), (m\<lparr>accessers := a\<rparr>, foldr (we_qdelete e) (dead_queues lives (take n (arr_list (accessers m)))) k)) \<and>
    arr_sound a \<and> arr_len a = arr_len (accessers m) \<and>
    arr_list a = map (forget_client lives) (take n (arr_list (accessers m))) @ drop n (arr_list (accessers m))"
  using assms(2,3)
proof (induction n arbitrary: m k)
  case 0
  then show ?case by (intro exI [of _ "accessers m"]) (simp add: dead_queues_def)
next
  case (Suc n)
  let ?x = "arr_list (accessers m) ! n"
  have x: "arr_at (accessers m) n = Inr ?x" using Suc.prems by (simp add: arr_sound_at)
  define m2 where "m2 = (if acc_pid ?x = 0 \<or> lives (acc_pid ?x) then m else set_accesser n (forget_client lives ?x) m)"
  define k2 where "k2 = foldr (we_qdelete e) (dead_queues lives [?x]) k"
  have l: "n < length (arr_list (accessers m))" using Suc.prems by (simp add: length_arr_list)
  have sound: "arr_sound (accessers m2)" "arr_len (accessers m2) = arr_len (accessers m)"
    using Suc.prems by (simp_all add: set_accesser_def m2_def)
  have list: "arr_list (accessers m2) = (arr_list (accessers m))[n := forget_client lives ?x]"
    using Suc.prems by (simp add: set_accesser_def arr_put_list forget_client_def m2_def)
  obtain a where a: "clients_from e n (m2, k2) =
      (Inr (), (m2\<lparr>accessers := a\<rparr>, foldr (we_qdelete e) (dead_queues lives (take n (arr_list (accessers m2)))) k2))"
    "arr_sound a" "arr_len a = arr_len (accessers m2)"
    "arr_list a = map (forget_client lives) (take n (arr_list (accessers m2))) @ drop n (arr_list (accessers m2))"
    using Suc.IH [of m2 k2] Suc.prems sound by auto
  have "m2\<lparr>accessers := a\<rparr> = m\<lparr>accessers := a\<rparr>" by (simp add: set_accesser_def m2_def)
  moreover have "clients_from e (Suc n) (m, k) = clients_from e n (m2, k2)"
    using x assms(1) by (simp add: m2_def k2_def forget_client_def dead_queues_def)
  moreover have "take n (arr_list (accessers m2)) = take n (arr_list (accessers m))" by (simp add: list)
  moreover have "foldr (we_qdelete e) (dead_queues lives (take n (arr_list (accessers m)))) k2 =
      foldr (we_qdelete e) (dead_queues lives (take (Suc n) (arr_list (accessers m)))) k"
    using l by (simp add: k2_def dead_queues_def take_Suc_conv_app_nth)
  ultimately show ?case
    using a sound list map_update_step [OF l, of "forget_client lives"] by (intro exI [of _ a]) simp
qed

lemma monitor_run:
  assumes "\<And>p k. we_alive e p k = lives p" "arr_sound (servers m)" "arr_sound (accessers m)"
  shows "\<exists>a b. seqx (monitor_servers e (m, k)) (\<lambda>_. monitor_clients e) =
      (Inr (), (m\<lparr>servers := a, accessers := b\<rparr>, foldr (we_qdelete e) (dead_queues lives (arr_list (accessers m))) k)) \<and>
    arr_sound a \<and> arr_sound b \<and> arr_len b = arr_len (accessers m) \<and>
    arr_list a = map (forget_server lives) (arr_list (servers m)) \<and>
    arr_list b = map (forget_client lives) (arr_list (accessers m))"
proof -
  obtain a where a: "monitor_servers e (m, k) = (Inr (), (m\<lparr>servers := a\<rparr>, k))" "arr_sound a"
    "arr_list a = map (forget_server lives) (arr_list (servers m))"
    using servers_from_run [OF assms(1,2) order.refl, of k] length_arr_list [OF assms(2)] by (auto simp: monitor_servers_def)
  have "arr_sound (accessers (m\<lparr>servers := a\<rparr>))" using assms(3) by simp
  from clients_from_run [OF assms(1) this order.refl, of k] length_arr_list [OF assms(3)]
  obtain b where "monitor_clients e (m\<lparr>servers := a\<rparr>, k) =
      (Inr (), (m\<lparr>servers := a, accessers := b\<rparr>, foldr (we_qdelete e) (dead_queues lives (arr_list (accessers m))) k))"
    "arr_sound b" "arr_len b = arr_len (accessers m)" "arr_list b = map (forget_client lives) (arr_list (accessers m))"
    by (auto simp: monitor_clients_def)
  then show ?thesis using a by (intro exI [of _ a] exI [of _ b]) simp
qed

text \<open>C23: after the watchdog has looked after servers and clients, every process the shared tables name lives;
  entries of living processes are as they were, those of the others are free, and the reply queues of
  the clients that are gone are deleted.
\<close>

theorem watchdog_cleans:
  assumes "\<forall>p k. we_alive e p k = lives p" "arr_sound (servers m)" "arr_sound (accessers m)"
  shows "\<exists>m' k'. seqx (monitor_servers e (m, k)) (\<lambda>_. monitor_clients e) = (Inr (), (m', k')) \<and>
    (\<forall>s \<in> set (arr_list (servers m')). srv_pid s = 0 \<or> lives (srv_pid s)) \<and>
    (\<forall>a \<in> set (arr_list (accessers m')). acc_valid a \<longrightarrow> lives (acc_pid a)) \<and>
    (\<forall>i < arr_len (servers m). lives (srv_pid (arr_list (servers m) ! i)) \<longrightarrow>
       arr_list (servers m') ! i = arr_list (servers m) ! i) \<and>
    (\<forall>i < arr_len (accessers m). lives (acc_pid (arr_list (accessers m) ! i)) \<longrightarrow>
       arr_list (accessers m') ! i = arr_list (accessers m) ! i) \<and>
    k' = foldr (we_qdelete e) (dead_queues lives (arr_list (accessers m))) k"
proof -
  obtain a b where r: "seqx (monitor_servers e (m, k)) (\<lambda>_. monitor_clients e) =
      (Inr (), (m\<lparr>servers := a, accessers := b\<rparr>, foldr (we_qdelete e) (dead_queues lives (arr_list (accessers m))) k))"
    "arr_list a = map (forget_server lives) (arr_list (servers m))"
    "arr_list b = map (forget_client lives) (arr_list (accessers m))"
    using monitor_run [of e lives m k] assms by blast
  show ?thesis
    using r length_arr_list [OF assms(2)] length_arr_list [OF assms(3)]
    by (intro exI [of _ "m\<lparr>servers := a, accessers := b\<rparr>"]
        exI [of _ "foldr (we_qdelete e) (dead_queues lives (arr_list (accessers m))) k"])
      (auto simp: forget_server_def forget_client_def acc_valid_def)
qed

text \<open>A kernel in which the process 5 alone lives.\<close>

definition kern_qdelete :: "int \<Rightarrow> kern \<Rightarrow> kern" where
  "kern_qdelete q k = k\<lparr>k_queues := (k_queues k)(q := [])\<rparr>"

definition watch_env5 :: "kern watch_env" where
  "watch_env5 = \<lparr>we_os = kern_os, we_alive = (\<lambda>p k. p = 5), we_qdelete = kern_qdelete\<rparr>"

definition two_clients :: mibmem where
  "two_clients = demo_client_mib\<lparr>accessers :=
     \<lparr>arr_len = 2, arr_size = 2,
      arr_data = [\<lparr>acc_pid = 5, acc_rpid = 7, acc_timeout = 0\<rparr>, \<lparr>acc_pid = 6, acc_rpid = 8, acc_timeout = INVALID_TIME\<rparr>]\<rparr>\<rparr>"

lemma demo_tables_sound: "arr_sound (servers demo_client_mib)" "arr_sound (servers two_clients)" "arr_sound (accessers two_clients)"
  by (simp_all add: two_clients_def demo_client_mib_def demo_trx_mib_def demo_mib_def arr_sound_def arr_init_def)

theorem watchdog_cleans_witness:
  "\<exists>m' k'. seqx (monitor_servers watch_env5 (two_clients, empty_kern)) (\<lambda>_. monitor_clients watch_env5) = (Inr (), (m', k')) \<and>
     (\<forall>a \<in> set (arr_list (accessers m')). acc_valid a \<longrightarrow> acc_pid a = 5) \<and>
     acc_rpid (arr_list (accessers m') ! 0) = 7 \<and> k' = kern_qdelete 8 empty_kern"
proof -
  have l: "arr_list (accessers two_clients) =
      [\<lparr>acc_pid = 5, acc_rpid = 7, acc_timeout = 0\<rparr>, \<lparr>acc_pid = 6, acc_rpid = 8, acc_timeout = INVALID_TIME\<rparr>]"
    "arr_len (accessers two_clients) = 2" by (simp_all add: two_clients_def arr_list_def)
  have "\<forall>p k. we_alive watch_env5 p k = (p = 5)" by (simp add: watch_env5_def)
  from watchdog_cleans [OF this demo_tables_sound(2,3), of empty_kern] obtain m' k' where
    "seqx (monitor_servers watch_env5 (two_clients, empty_kern)) (\<lambda>_. monitor_clients watch_env5) = (Inr (), (m', k'))"
    "\<forall>a \<in> set (arr_list (accessers m')). acc_valid a \<longrightarrow> acc_pid a = 5"
    "arr_list (accessers m') ! 0 = arr_list (accessers two_clients) ! 0"
    "k' = foldr (we_qdelete watch_env5) (dead_queues (\<lambda>p. p = 5) (arr_list (accessers two_clients))) empty_kern"
    using l by force
  then show ?thesis by (intro exI [of _ m'] exI [of _ k']) (simp add: l dead_queues_def watch_env5_def)
qed

subsection \<open>A client that waits too long\<close>

text \<open>
  The wait of \<open>tpgetrply\<close> with rounds of the watchdog between the two points at which it writes its
  deadline and takes a message.
\<close>

definition on_board ::
    "(('k board) \<Rightarrow> (unit, 'k board) call) \<Rightarrow> ('r, 'n, 'k) cl_state \<Rightarrow> (unit, ('r, 'n, 'k) cl_state) call" where
  "on_board f s =
     (case f (tx_mib (p_tx (snd s)), p_os (snd s)) of
        (r, (m, k)) \<Rightarrow> (r, (fst s, (snd s)\<lparr>p_tx := (p_tx (snd s))\<lparr>tx_mib := m\<rparr>, p_os := k\<rparr>)))"

definition wait_watched ::
    "('r, 'k) env \<Rightarrow> 'k watch_env \<Rightarrow> int list \<Rightarrow> ('r, 'n, 'k) cl_state \<Rightarrow> (msg, ('r, 'n, 'k) cl_state) call" where
  "wait_watched env e nows s =
     (case next_blocktime s of
        (tmo, s) \<Rightarrow>
          seqx (set_deadline (p_now (snd s) + tmo) s) (\<lambda>_ s.
            seqx (on_board (run_watchdog e nows) s) (\<lambda>_ s.
              seqx (on_os (qrecv (e_os env) (cl_rpid (fst s)) 0) s) (\<lambda>res s.
                seqx (set_deadline INVALID_TIME s) (\<lambda>_ s. (Inr res, s))))))"

lemma wait_unwatched: "wait_watched env e [] s = wait_reply env s"
  by (cases s) (simp add: wait_watched_def wait_reply_def on_board_def)

text \<open>
  While the client \<open>i\<close> with the entry \<open>a\<close> waits: \<open>j\<close> time-outs are in its queue, no one else reads or
  writes that queue, and there is room for \<open>n\<close> more rounds.
\<close>

definition awaited :: "(int \<Rightarrow> bool) \<Rightarrow> nat \<Rightarrow> accesser \<Rightarrow> nat \<Rightarrow> nat \<Rightarrow> kern board \<Rightarrow> bool" where
  "awaited lives i a j n s \<longleftrightarrow>
     (let as = arr_list (accessers (fst s)); k = snd s in
      arr_sound (accessers (fst s)) \<and> arr_sound (servers (fst s)) \<and> i < length as \<and> as ! i = a \<and>
      acc_pid a \<noteq> 0 \<and> lives (acc_pid a) \<and> acc_rpid a \<noteq> 0 \<and>
      (\<forall>x < length as. x \<noteq> i \<longrightarrow> acc_rpid (as ! x) \<noteq> acc_rpid a) \<and> kern_ok k \<and>
      kern_inbox k (acc_rpid a) = replicate j unblock_msg \<and> (\<forall>q. length (k_queues k q) + n * length as \<le> k_cap k))"

lemma timeouts_own:
  assumes "i < length as" "\<forall>x < length as. x \<noteq> i \<longrightarrow> acc_rpid (as ! x) \<noteq> acc_rpid (as ! i)"
  shows "timeouts now as (acc_rpid (as ! i)) = (if overdue now (as ! i) then [unblock_msg] else [])"
proof -
  have none: "timeouts now xs q = []" if "\<forall>x \<in> set xs. acc_rpid x \<noteq> q" for xs q
    using that by (simp add: timeouts_def filter_empty_conv)
  have app: "timeouts now (xs @ ys) q = timeouts now xs q @ timeouts now ys q" for xs ys q by (simp add: timeouts_def)
  have "as = take i as @ as ! i # drop (Suc i) as" using assms(1) by (simp add: id_take_nth_drop)
  then have "timeouts now as (acc_rpid (as ! i)) = timeouts now (take i as @ as ! i # drop (Suc i) as) (acc_rpid (as ! i))"
    by metis
  moreover have "\<forall>x \<in> set (take i as). acc_rpid x \<noteq> acc_rpid (as ! i)" "\<forall>x \<in> set (drop (Suc i) as). acc_rpid x \<noteq> acc_rpid (as ! i)"
    using assms by (auto simp: in_set_conv_nth)
  ultimately show ?thesis by (simp only: app timeouts_simps none) simp
qed

lemma deleted_queues:
  "k_cap (foldr kern_qdelete qs k) = k_cap k" "k_files (foldr kern_qdelete qs k) = k_files k"
  "k_queues (foldr kern_qdelete qs k) q = (if q \<in> set qs then [] else k_queues k q)"
  by (induction qs) (auto simp: kern_qdelete_def)

lemma deleted_inbox: "q \<notin> set qs \<Longrightarrow> kern_inbox (foldr kern_qdelete qs k) q = kern_inbox k q"
  by (auto simp: kern_inbox_def deleted_queues split: kmsg.split)

lemma deleted_ok: "kern_ok k \<Longrightarrow> kern_ok (foldr kern_qdelete qs k)"
  by (auto simp: kern_ok_def deleted_queues)

lemma watch_round:
  assumes "awaited lives i a j (Suc n) s" "we_os e = kern_os" "\<forall>p k. we_alive e p k = lives p" "we_qdelete e = kern_qdelete"
  shows "\<exists>x y k. run_watchdog e (now # nows) s = run_watchdog e nows ((fst s)\<lparr>servers := x, accessers := y\<rparr>, k) \<and>
    awaited lives i a (if acc_timeout a < now then Suc j else j) n ((fst s)\<lparr>servers := x, accessers := y\<rparr>, k)"
proof -
  obtain m k where s: "s = (m, k)" by force
  let ?as = "arr_list (accessers m)"
  note aw = assms(1) [unfolded awaited_def Let_def s fst_conv snd_conv]
  have room: "length (k_queues k q) + length (timeouts now ?as q) + n * length ?as \<le> k_cap k" for q
  proof -
    have "length (k_queues k q) + (length ?as + n * length ?as) \<le> k_cap k" using aw by simp
    then show ?thesis using timeouts_length [of now ?as q] by linarith
  qed
  then have room2: "\<forall>q. timeouts now ?as q \<noteq> [] \<longrightarrow> length (k_queues k q) + length (timeouts now ?as q) \<le> k_cap k"
    using add_leD1 by blast
  define k1 where "k1 = put_msgs (timeouts now ?as) k"
  have h: "handle_blocktime e now (m, k) = (Inr (), (m, k1))"
    using handle_blocktime_run [OF assms(2) _ room2] aw by (simp add: k1_def)
  define qs where "qs = dead_queues lives ?as"
  obtain x y where r: "seqx (monitor_servers e (m, k1)) (\<lambda>_. monitor_clients e) =
      (Inr (), (m\<lparr>servers := x, accessers := y\<rparr>, foldr kern_qdelete qs k1))"
    "arr_sound x" "arr_sound y" "arr_len y = arr_len (accessers m)" "arr_list y = map (forget_client lives) ?as"
    using monitor_run [of e lives m k1] assms(3,4) aw by (auto simp: qs_def)
  have own: "acc_rpid a \<notin> set qs"
    using aw by (auto simp: qs_def dead_queues_def in_set_conv_nth)
  have t: "timeouts now ?as (acc_rpid a) = (if acc_timeout a < now then [unblock_msg] else [])"
    using timeouts_own [of i ?as now] aw by (auto simp: overdue_def acc_valid_def)
  have inbox: "kern_inbox (foldr kern_qdelete qs k1) (acc_rpid a) = replicate (if acc_timeout a < now then Suc j else j) unblock_msg"
    using aw by (simp add: deleted_inbox [OF own] k1_def t replicate_append_same)
  have others: "acc_rpid (forget_client lives b) \<noteq> acc_rpid a" if "acc_rpid b \<noteq> acc_rpid a" for b
    using that aw by (simp add: forget_client_def)
  have "length (k_queues (foldr kern_qdelete qs k1) q) + n * length ?as \<le> k_cap (foldr kern_qdelete qs k1)" for q
    using room [of q] by (simp add: deleted_queues k1_def)
  moreover have "kern_ok (foldr kern_qdelete qs k1)" using aw by (simp add: deleted_ok k1_def)
  moreover have "forget_client lives (?as ! i) = a" using aw by (simp add: forget_client_def)
  ultimately have "awaited lives i a (if acc_timeout a < now then Suc j else j) n
      (m\<lparr>servers := x, accessers := y\<rparr>, foldr kern_qdelete qs k1)"
    using aw r inbox others by (auto simp: awaited_def)
  moreover have "run_watchdog e (now # nows) s =
      run_watchdog e nows (m\<lparr>servers := x, accessers := y\<rparr>, foldr kern_qdelete qs k1)"
    using h r(1) by (auto simp: s seqx_def split: prod.splits sum.splits)
  ultimately show ?thesis
    unfolding s by (intro exI [of _ x] exI [of _ y] exI [of _ "foldr kern_qdelete qs k1"]) simp
qed

lemma watch_rounds:
  assumes "we_os e = kern_os" "\<forall>p k. we_alive e p k = lives p" "we_qdelete e = kern_qdelete"
  shows "awaited lives i a j (length nows) s \<Longrightarrow>
    \<exists>s'. run_watchdog e nows s = (Inr (), s') \<and> awaited lives i a (j + length (filter (\<lambda>t. acc_timeout a < t) nows)) 0 s'"
proof (induction nows arbitrary: j s)
  case (Cons now nows)
  obtain x y k where r: "run_watchdog e (now # nows) s = run_watchdog e nows ((fst s)\<lparr>servers := x, accessers := y\<rparr>, k)"
    "awaited lives i a (if acc_timeout a < now then Suc j else j) (length nows) ((fst s)\<lparr>servers := x, accessers := y\<rparr>, k)"
    using watch_round [OF Cons.prems [simplified] assms] by blast
  from Cons.IH [OF r(2)] show ?case unfolding r(1) by (auto split: if_splits)
qed simp

lemma awaited_at: "awaited lives i a j n (m, k) \<Longrightarrow> arr_at (accessers m) i = Inr a"
  by (auto simp: awaited_def Let_def arr_sound_at length_arr_list)

lemma awaited_deadline:
  assumes "awaited lives i a j n (m, k)"
  shows "awaited lives i (a\<lparr>acc_timeout := d\<rparr>) j n (set_accesser i (a\<lparr>acc_timeout := d\<rparr>) m, k)"
proof -
  have "arr_list (arr_put i (a\<lparr>acc_timeout := d\<rparr>) (accessers m)) = (arr_list (accessers m))[i := a\<lparr>acc_timeout := d\<rparr>]"
    using assms by (intro arr_put_list) (auto simp: awaited_def Let_def length_arr_list)
  then show ?thesis using assms by (auto simp: awaited_def Let_def set_accesser_def nth_list_update)
qed

text \<open>C16: a client does not wait for ever: once the clock of the watchdog has passed the deadline it wrote when
  its wait began, a round of the watchdog sends it the message that ends the wait. But the watchdog does
  not remember this: every further round before the client takes the message sends another one, and
  these stay in the queue of the client for its next calls.
\<close>

theorem overdue_wait_ends:
  assumes "e_os env = kern_os" "we_os e = kern_os" "\<forall>p k. we_alive e p k = lives p" "we_qdelete e = kern_qdelete"
    and "awaited lives (cl_id c) a 0 (length nows) (tx_mib (p_tx w), p_os w)" "acc_rpid a = cl_rpid c"
    and "next_blocktime (c, w) = (tmo, u1)" "filter (\<lambda>t. p_now w + tmo < t) nows = now # late"
  shows "\<exists>s'. wait_watched env e nows (c, w) = (Inr unblock_msg, s') \<and>
    kern_inbox (p_os (snd s')) (cl_rpid c) = replicate (length late) unblock_msg"
proof -
  have u1: "snd u1 = w" "cl_id (fst u1) = cl_id c" "cl_rpid (fst u1) = cl_rpid c"
    using assms(7) by (auto simp: next_blocktime_def split: if_splits)
  let ?a = "a\<lparr>acc_timeout := p_now w + tmo\<rparr>" and ?m = "tx_mib (p_tx w)"
  let ?m1 = "set_accesser (cl_id c) ?a ?m"
  let ?w1 = "w\<lparr>p_tx := (p_tx w)\<lparr>tx_mib := ?m1\<rparr>\<rparr>"
  have d: "set_deadline (p_now w + tmo) u1 = (Inr (), (fst u1, ?w1))"
    using awaited_at [OF assms(5)] u1 by (simp add: set_deadline_def Let_def)
  obtain m2 k2 where r: "run_watchdog e nows (?m1, p_os w) = (Inr (), (m2, k2))"
    "awaited lives (cl_id c) ?a (length (filter (\<lambda>t. acc_timeout ?a < t) nows)) 0 (m2, k2)"
    using watch_rounds [OF assms(2-4) awaited_deadline [OF assms(5)]] by fastforce
  have q: "kern_inbox k2 (cl_rpid c) = unblock_msg # replicate (length late) unblock_msg" "kern_ok k2"
    using r(2) assms(6,8) by (simp_all add: awaited_def Let_def)
  obtain k3 where k3: "qrecv kern_os (cl_rpid c) 0 k2 = (Inr unblock_msg, k3)"
    "kern_inbox k3 = (kern_inbox k2)(cl_rpid c := replicate (length late) unblock_msg)"
    using kern_mq.recv_ok [OF q(2,1)] by blast
  let ?w2 = "?w1\<lparr>p_tx := (p_tx ?w1)\<lparr>tx_mib := m2\<rparr>, p_os := k2\<rparr>"
  let ?m4 = "set_accesser (cl_id c) (?a\<lparr>acc_timeout := INVALID_TIME\<rparr>) m2"
  have "on_board (run_watchdog e nows) (fst u1, ?w1) = (Inr (), (fst u1, ?w2))"
    using r(1) by (simp add: on_board_def)
  moreover have "on_os (qrecv (e_os env) (cl_rpid (fst u1)) 0) (fst u1, ?w2) = (Inr unblock_msg, (fst u1, ?w2\<lparr>p_os := k3\<rparr>))"
    using k3(1) assms(1) u1 by (simp add: on_os_def)
  moreover have "\<exists>w'. set_deadline INVALID_TIME (fst u1, ?w2\<lparr>p_os := k3\<rparr>) = (Inr (), (fst u1, w')) \<and> p_os w' = k3"
    using awaited_at [OF r(2)] u1 by (simp add: set_deadline_def Let_def)
  ultimately have "\<exists>s'. wait_watched env e nows (c, w) = (Inr unblock_msg, s') \<and> p_os (snd s') = k3"
    using assms(7) d u1(1) by (auto simp: wait_watched_def)
  then show ?thesis using k3(2) by auto
qed

theorem overdue_wait_ends_witness:
  "\<exists>s'. wait_watched proc_env watch_env5 [50, 20000, 20001] (demo_client, (demo_proc s1 [])\<lparr>p_os := empty_kern\<lparr>k_cap := 9\<rparr>\<rparr>) =
      (Inr unblock_msg, s') \<and> kern_inbox (p_os (snd s')) 7 = [unblock_msg]"
proof -
  let ?w = "(demo_proc s1 [])\<lparr>p_os := empty_kern\<lparr>k_cap := 9\<rparr>\<rparr>"
  let ?a = "\<lparr>acc_pid = 5, acc_rpid = 7, acc_timeout = 0\<rparr>"
  have m: "tx_mib (p_tx (demo_proc s1 [])) = demo_client_mib" "tx_mib (p_tx ?w) = demo_client_mib" "p_os ?w = empty_kern\<lparr>k_cap := 9\<rparr>" "p_now ?w = 100" "cl_id demo_client = 0"
    by (simp_all add: demo_proc_def demo_client_def)
  have e: "we_os watch_env5 = kern_os" "\<forall>p k. we_alive watch_env5 p k = (p = 5)" "we_qdelete watch_env5 = kern_qdelete"
    by (simp_all add: watch_env5_def)
  have "kern_ok (empty_kern\<lparr>k_cap := 9\<rparr>)" by (simp add: kern_ok_def empty_kern_def)
  then have a: "awaited (\<lambda>p. p = 5) (cl_id demo_client) ?a 0 (length [50, 20000, 20001 :: int]) (tx_mib (p_tx ?w), p_os ?w)"
    using demo_tables_sound(1)
    by (simp add: awaited_def m arr_list_def arr_sound_def demo_client_mib_def kern_inbox_def empty_kern_def)
  obtain tmo u1 where n: "next_blocktime (demo_client, ?w) = (tmo, u1)" using prod.exhaust by blast
  then have "tmo = 15000"
    by (simp add: next_blocktime_def m demo_client_def demo_client_mib_def demo_trx_mib_def demo_mib_def)
  then have f: "filter (\<lambda>t. p_now ?w + tmo < t) [50, 20000, 20001] = 20000 # [20001]" by (simp add: m)
  have "cl_rpid demo_client = 7" by simp
  with overdue_wait_ends [OF _ e a _ n f, of proc_env] show ?thesis by simp
qed

end
