(* ===== verification/Basic_Parser.thy ===== *)
theory Basic_Parser
  imports Misc Strtol
begin

text \<open>
  src/basic_parser.h for the readers of configuration files and field tables: functions on the characters
  that are left. (The compiler of boolean expressions has its own copies over its larger state.) The row
  and column that are counted go only into the texts of errors. Every error is \<open>basic_parser_error\<close>, a
  \<open>std::runtime_error\<close>.
\<close>

text \<open>A text constant of the program.\<close>

definition bytes :: "string \<Rightarrow> byte list" where
  "bytes s = map of_char s"

lemma bytes_simps: "bytes [] = []" "bytes (c # s) = of_char c # bytes s"
  by (simp_all add: bytes_def)

definition is_letter :: "byte \<Rightarrow> bool" where
  "is_letter c \<longleftrightarrow> 65 \<le> c \<and> c \<le> 90 \<or> 97 \<le> c \<and> c \<le> 122"

definition name_char :: "byte \<Rightarrow> bool" where
  "name_char c \<longleftrightarrow> is_letter c \<or> is_digit c \<or> c = 95"

text \<open>\<open>accept\<close> of a class of characters and of one character\<close>

definition eat_if :: "(byte \<Rightarrow> bool) \<Rightarrow> byte list \<Rightarrow> byte option \<times> byte list" where
  "eat_if f s = (case s of [] \<Rightarrow> (None, []) | c # cs \<Rightarrow> if f c then (Some c, cs) else (None, s))"

definition eat :: "byte \<Rightarrow> byte list \<Rightarrow> bool \<times> byte list" where
  "eat ch s = (case eat_if (\<lambda>c. c = ch) s of (r, s) \<Rightarrow> (r \<noteq> None, s))"

text \<open>\<open>while (accept(f, s));\<close>, with the characters it takes\<close>

definition eat_all :: "(byte \<Rightarrow> bool) \<Rightarrow> byte list \<Rightarrow> byte list \<times> byte list" where
  "eat_all f s = (takeWhile f s, dropWhile f s)"

definition rest_of_line :: "byte list \<Rightarrow> byte list \<times> byte list" where
  "rest_of_line s = eat_all (\<lambda>c. c \<noteq> 10) s"

definition eat_number :: "byte list \<Rightarrow> byte list option \<times> byte list" where
  "eat_number s =
     (case eat_if is_digit s of
        (None, s) \<Rightarrow> (None, s)
      | (Some c, s) \<Rightarrow>
          (case eat_all is_digit s of
             (ds, s) \<Rightarrow>
               (case eat_if (\<lambda>c. c = 46) s of
                  (dot, s) \<Rightarrow>
                    (case eat_all is_digit s of
                       (fs, s) \<Rightarrow> (Some (c # ds @ (case dot of None \<Rightarrow> [] | Some d \<Rightarrow> [d]) @ fs), s)))))"

definition eat_name :: "byte list \<Rightarrow> byte list option \<times> byte list" where
  "eat_name s =
     (case eat_if is_letter s of
        (None, s) \<Rightarrow> (None, s)
      | (Some c, s) \<Rightarrow> (case eat_all name_char s of (cs, s) \<Rightarrow> (Some (c # cs), s)))"

subsection \<open>What is left never grows\<close>

lemma eat_if_simps [simp]:
  "eat_if f [] = (None, [])" "f c \<Longrightarrow> eat_if f (c # s) = (Some c, s)" "\<not> f c \<Longrightarrow> eat_if f (c # s) = (None, c # s)"
  by (simp_all add: eat_if_def)

lemma eat_simps [simp]: "eat c [] = (False, [])" "eat c (d # s) = (if d = c then (True, s) else (False, d # s))"
  by (simp_all add: eat_def)

lemma eat_if_left: "eat_if f s = (r, t) \<Longrightarrow> length t \<le> length s"
  by (cases s) (auto simp: eat_if_def split: if_splits)

lemma eat_left: "eat c s = (r, t) \<Longrightarrow> length t + (if r then 1 else 0) = length s"
  by (cases s) (auto split: if_splits)

lemma eat_all_left: "eat_all f s = (r, t) \<Longrightarrow> length t \<le> length s"
  by (auto simp: eat_all_def intro: length_dropWhile_le)

lemma rest_of_line_left: "rest_of_line s = (r, t) \<Longrightarrow> length t \<le> length s"
  by (auto simp: rest_of_line_def dest: eat_all_left)

lemma eat_number_left: "eat_number s = (r, t) \<Longrightarrow> length t \<le> length s"
  by (auto simp: eat_number_def dest!: eat_if_left eat_all_left split: prod.splits option.splits)

lemma eat_name_left: "eat_name s = (r, t) \<Longrightarrow> length t \<le> length s"
  by (auto simp: eat_name_def dest!: eat_if_left eat_all_left split: prod.splits option.splits)

lemmas eaten_left = eat_if_left eat_left eat_all_left rest_of_line_left eat_number_left eat_name_left

subsection \<open>Reading what was written\<close>

text \<open>A text ends where a class of characters ends.\<close>

definition ends :: "(byte \<Rightarrow> bool) \<Rightarrow> byte list \<Rightarrow> bool" where
  "ends f s \<longleftrightarrow> (case s of [] \<Rightarrow> True | c # cs \<Rightarrow> \<not> f c)"

lemma ends_simps [simp]: "ends f []" "ends f (c # s) \<longleftrightarrow> \<not> f c"
  by (simp_all add: ends_def)

lemma eat_all_read: "\<forall>c \<in> set xs. f c \<Longrightarrow> ends f s \<Longrightarrow> eat_all f (xs @ s) = (xs, s)"
  by (cases s) (auto simp: eat_all_def takeWhile_append2 dropWhile_append2)

lemma eat_if_none: "ends f s \<Longrightarrow> eat_if f s = (None, s)"
  by (cases s) auto

definition is_name :: "byte list \<Rightarrow> bool" where
  "is_name n \<longleftrightarrow> (case n of [] \<Rightarrow> False | c # cs \<Rightarrow> is_letter c \<and> (\<forall>d \<in> set cs. name_char d))"

lemma eat_name_read: "is_name n \<Longrightarrow> ends name_char s \<Longrightarrow> eat_name (n @ s) = (Some n, s)"
  by (cases n) (simp_all add: is_name_def eat_name_def eat_all_read)

lemma eat_number_read:
  assumes "\<forall>c \<in> set n. is_digit c" "n \<noteq> []" "ends (\<lambda>c. is_digit c \<or> c = 46) s"
  shows "eat_number (n @ s) = (Some n, s)"
proof -
  obtain c cs where n: "n = c # cs" using assms(2) by (cases n) auto
  have e: "ends is_digit s" "ends (\<lambda>c. c = 46) s" using assms(3) by (cases s; simp)+
  have "eat_all is_digit (cs @ s) = (cs, s)" using assms(1) n e by (intro eat_all_read) auto
  moreover have "eat_all is_digit s = ([], s)" using eat_all_read [of "[]" is_digit s] e by simp
  ultimately show ?thesis using n assms(1) e by (simp add: eat_number_def eat_if_none)
qed

lemma rest_of_line_read: "10 \<notin> set xs \<Longrightarrow> rest_of_line (xs @ 10 # s) = (xs, 10 # s)"
  unfolding rest_of_line_def by (rule eat_all_read) auto

end
