(* ===== verification/Field_Table.thy ===== *)
theory Field_Table
  imports Basic_Parser Atmi Fml_Fields
begin

text \<open>
  Field tables: the parser of src/fieldtbl32.h, the two maps of src/fbfr32fld.h that are read from the
  files of the environment, and the header files of src/mkfldhdr32.cpp. Files and the environment are
  parameters; the lock of the maps is left out.
\<close>

subsection \<open>The parser\<close>

record ft_field =
  ff_name :: "byte list"
  ff_id :: fldid
  ff_comment :: "byte list"

datatype ft_entry = Ft_comment "byte list" | Ft_raw "byte list" | Ft_field ft_field

record table_parser =
  tp_inp :: "byte list"
  tp_base :: int
  tp_fields :: "ft_field list"
  tp_entries :: "ft_entry list"
  tp_Ferror :: int

definition field_types :: "(byte list \<times> int) list" where
  "field_types =
     [([99, 104, 97, 114], FLD_CHAR), ([115, 104, 111, 114, 116], FLD_SHORT), ([102, 108, 111, 97, 116], FLD_FLOAT),
      ([108, 111, 110, 103], FLD_LONG), ([100, 111, 117, 98, 108, 101], FLD_DOUBLE),
      ([115, 116, 114, 105, 110, 103], FLD_STRING), ([99, 97, 114, 114, 97, 121], FLD_CARRAY),
      ([102, 109, 108, 51, 50], FLD_FML32)]"

definition base_name :: "byte list" where "base_name = [98, 97, 115, 101]"

definition is_blank :: "byte \<Rightarrow> bool" where "is_blank c \<longleftrightarrow> c = 32 \<or> c = 9"

definition delim :: "byte list \<Rightarrow> bool \<times> byte list" where
  "delim s = (case eat_if is_blank s of (None, s) \<Rightarrow> (False, s) | (Some _, s) \<Rightarrow> (case eat_all is_blank s of (_, s) \<Rightarrow> (True, s)))"

text \<open>The identifier of a field, -1 for a number that cannot be one.\<close>

definition field_id :: "int \<Rightarrow> int \<Rightarrow> fldid" where
  "field_id type n = (case Fmkfldid32 type (word_of_int n) of Ret i \<Rightarrow> i | _ \<Rightarrow> -1)"

text \<open>\<open>Ferror32\<close> after the call; nobody looks at it while a table is read.\<close>

definition field_id_error :: "int \<Rightarrow> int \<Rightarrow> int" where
  "field_id_error type n = (case Fmkfldid32 type (word_of_int n) of Err e \<Rightarrow> e | _ \<Rightarrow> 0)"

abbreviation (input) table_error :: "table_parser \<Rightarrow> ('a, table_parser) call" where
  "table_error p \<equiv> (Inl (Throw Runtime_error), p)"

definition base_line :: "table_parser \<Rightarrow> (unit, table_parser) call" where
  "base_line p =
     (case eat_name (tp_inp p) of
        (None, s) \<Rightarrow> table_error (p\<lparr>tp_inp := s\<rparr>)
      | (Some base, s) \<Rightarrow>
          (case delim s of
             (False, s) \<Rightarrow> table_error (p\<lparr>tp_inp := s\<rparr>)
           | (True, s) \<Rightarrow>
               (case eat_number s of
                  (None, s) \<Rightarrow> table_error (p\<lparr>tp_inp := s\<rparr>)
                | (Some num, s) \<Rightarrow>
                    if base \<noteq> base_name then table_error (p\<lparr>tp_inp := s\<rparr>)
                    else (case stol num of
                      Inl e \<Rightarrow> (Inl (Throw e), p\<lparr>tp_inp := s\<rparr>)
                    | Inr b \<Rightarrow>
                        (case delim s of
                           (_, s) \<Rightarrow>
                             (case eat 35 s of
                                (True, s) \<Rightarrow> (case rest_of_line s of (_, s) \<Rightarrow> (Inr (), p\<lparr>tp_inp := s, tp_base := b\<rparr>))
                              | (False, s) \<Rightarrow> (Inr (), p\<lparr>tp_inp := s, tp_base := b\<rparr>)))))))"

text \<open>The sum of two \<open>long\<close>s has no meaning outside the range of \<open>long\<close>.\<close>

definition add_field :: "byte list \<Rightarrow> byte list \<Rightarrow> byte list \<Rightarrow> byte list \<Rightarrow> table_parser \<Rightarrow> (unit, table_parser) call" where
  "add_field name num type c p =
     (case map_of field_types type of
        None \<Rightarrow> table_error p
      | Some t \<Rightarrow>
          (case stol num of
             Inl e \<Rightarrow> (Inl (Throw e), p)
           | Inr n \<Rightarrow>
               if tp_base p + n \<ge> 2 ^ 63 then (Inl Undefined, p)
               else
                 let f = \<lparr>ff_name = name, ff_id = field_id t (tp_base p + n), ff_comment = c\<rparr>
                 in (Inr (), p\<lparr>tp_fields := tp_fields p @ [f], tp_entries := tp_entries p @ [Ft_field f],
                         tp_Ferror := field_id_error t (tp_base p + n)\<rparr>)))"

definition field_line :: "byte list \<Rightarrow> table_parser \<Rightarrow> (unit, table_parser) call" where
  "field_line fname p =
     (case delim (tp_inp p) of
        (False, s) \<Rightarrow> table_error (p\<lparr>tp_inp := s\<rparr>)
      | (True, s) \<Rightarrow>
          (case eat_number s of
             (None, s) \<Rightarrow> table_error (p\<lparr>tp_inp := s\<rparr>)
           | (Some num, s) \<Rightarrow>
               (case delim s of
                  (False, s) \<Rightarrow> table_error (p\<lparr>tp_inp := s\<rparr>)
                | (True, s) \<Rightarrow>
                    (case eat_name s of
                       (None, s) \<Rightarrow> table_error (p\<lparr>tp_inp := s\<rparr>)
                     | (Some type, s) \<Rightarrow>
                         (case rest_of_line s of
                            (c, s) \<Rightarrow> add_field fname num type c (p\<lparr>tp_inp := s\<rparr>))))))"

text \<open>What a line holds before its end; a line of blanks may have one of them.\<close>

definition line_body :: "table_parser \<Rightarrow> (unit, table_parser) call" where
  "line_body p =
     (case eat 35 (tp_inp p) of
        (True, s) \<Rightarrow> (case rest_of_line s of (c, s) \<Rightarrow> (Inr (), p\<lparr>tp_inp := s, tp_entries := tp_entries p @ [Ft_comment c]\<rparr>))
      | (False, s) \<Rightarrow>
          (case eat 36 s of
             (True, s) \<Rightarrow> (case rest_of_line s of (c, s) \<Rightarrow> (Inr (), p\<lparr>tp_inp := s, tp_entries := tp_entries p @ [Ft_raw c]\<rparr>))
           | (False, s) \<Rightarrow>
               (case eat 42 s of
                  (True, s) \<Rightarrow> base_line (p\<lparr>tp_inp := s\<rparr>)
                | (False, s) \<Rightarrow>
                    (case eat_name s of
                       (Some fname, s) \<Rightarrow> field_line fname (p\<lparr>tp_inp := s\<rparr>)
                     | (None, s) \<Rightarrow>
                         (case eat_if (\<lambda>c. is_space c \<and> c \<noteq> 10) s of (_, s) \<Rightarrow> (Inr (), p\<lparr>tp_inp := s\<rparr>))))))"

definition table_line :: "table_parser \<Rightarrow> (bool, table_parser) call" where
  "table_line p = seqx (line_body p) (\<lambda>_ p. case eat 10 (tp_inp p) of (r, s) \<Rightarrow> (Inr r, p\<lparr>tp_inp := s\<rparr>))"

subsection \<open>The loop over the lines ends\<close>

lemma delim_left: "delim s = (r, t) \<Longrightarrow> length t \<le> length s"
  by (auto simp: delim_def dest!: eaten_left split: prod.splits option.splits)

lemma base_line_left: "base_line p = (r, q) \<Longrightarrow> length (tp_inp q) \<le> length (tp_inp p)"
  by (auto simp: base_line_def dest!: eaten_left delim_left split: prod.splits option.splits bool.splits sum.splits if_splits)

lemma add_field_left: "add_field n k t c p = (r, q) \<Longrightarrow> tp_inp q = tp_inp p"
  by (auto simp: add_field_def Let_def split: option.splits sum.splits if_splits)

lemma field_line_left: "field_line n p = (r, q) \<Longrightarrow> length (tp_inp q) \<le> length (tp_inp p)"
  by (auto simp: field_line_def dest!: eaten_left delim_left add_field_left split: prod.splits option.splits bool.splits)

lemma line_body_left: "line_body p = (r, q) \<Longrightarrow> length (tp_inp q) \<le> length (tp_inp p)"
  by (auto simp: line_body_def dest!: eaten_left base_line_left field_line_left split: prod.splits option.splits bool.splits)

lemma table_line_left: "table_line p = (Inr True, q) \<Longrightarrow> length (tp_inp q) < length (tp_inp p)"
  by (auto simp: table_line_def seqx_def dest!: line_body_left eat_left split: prod.splits sum.splits)

function table_lines :: "table_parser \<Rightarrow> (unit, table_parser) call" where
  "table_lines p =
     (case table_line p of
        (Inl e, p) \<Rightarrow> (Inl e, p)
      | (Inr False, p) \<Rightarrow> (Inr (), p)
      | (Inr True, p) \<Rightarrow> table_lines p)"
  by pat_completeness auto

termination
  by (relation "measure (\<lambda>p. length (tp_inp p))") (auto dest!: sym [where s = "(_, _)"] table_line_left)

declare table_lines.simps [simp del]

definition parse_table :: "int \<Rightarrow> byte list \<Rightarrow> (unit, table_parser) call" where
  "parse_table err text =
     seqx (table_lines \<lparr>tp_inp = text, tp_base = 0, tp_fields = [], tp_entries = [], tp_Ferror = err\<rparr>) (\<lambda>_ p.
       if tp_inp p \<noteq> [] then table_error p else (Inr (), p))"

subsection \<open>The two maps\<close>

text \<open>
  \<open>Fbfr32fields\<close> with \<open>Ferror32\<close>. The environment gives the two variables and the files that can be
  opened.
\<close>

record field_maps =
  id_to_name :: "fldid \<Rightarrow> byte list option"
  name_to_id :: "byte list \<Rightarrow> fldid option"
  id_to_name_loaded :: bool
  name_to_id_loaded :: bool
  Ferror :: int

record table_env =
  FIELDTBLS32 :: "byte list option"
  FLDTBLDIR32 :: "byte list option"
  file_text :: "byte list \<Rightarrow> byte list option"

definition no_fields :: field_maps where
  "no_fields =
     \<lparr>id_to_name = (\<lambda>_. None), name_to_id = (\<lambda>_. None), id_to_name_loaded = False, name_to_id_loaded = False, Ferror = 0\<rparr>"

text \<open>\<open>std::map::insert\<close> keeps an entry that is there.\<close>

definition map_insert :: "'a \<Rightarrow> 'b \<Rightarrow> ('a \<Rightarrow> 'b option) \<Rightarrow> 'a \<Rightarrow> 'b option" where
  "map_insert k v m = (if m k = None then m(k \<mapsto> v) else m)"

definition insert_field :: "ft_field \<Rightarrow> field_maps \<Rightarrow> field_maps" where
  "insert_field f t =
     t\<lparr>id_to_name := map_insert (ff_id f) (ff_name f) (id_to_name t),
       name_to_id := map_insert (ff_name f) (ff_id f) (name_to_id t)\<rparr>"

definition read_fld32_file :: "table_env \<Rightarrow> byte list \<Rightarrow> field_maps \<Rightarrow> (bool, field_maps) call" where
  "read_fld32_file env fname t =
     (case file_text env fname of
        None \<Rightarrow> (Inr False, t)
      | Some text \<Rightarrow>
          (case parse_table (Ferror t) text of
             (Inl e, p) \<Rightarrow> (Inl e, t\<lparr>Ferror := tp_Ferror p\<rparr>)
           | (Inr _, p) \<Rightarrow> (Inr True, fold insert_field (tp_fields p) (t\<lparr>Ferror := tp_Ferror p\<rparr>))))"

fun read_from_dirs :: "table_env \<Rightarrow> byte list \<Rightarrow> byte list list \<Rightarrow> field_maps \<Rightarrow> (unit, field_maps) call" where
  "read_from_dirs env fname [] t = (Inr (), t)"
| "read_from_dirs env fname (dname # dirs) t =
     seqx (read_fld32_file env (dname @ [47] @ fname) t) (\<lambda>found t.
       if found then (Inr (), t) else read_from_dirs env fname dirs t)"

fun read_files :: "table_env \<Rightarrow> byte list list \<Rightarrow> byte list list \<Rightarrow> field_maps \<Rightarrow> (unit, field_maps) call" where
  "read_files env dirs [] t = (Inr (), t)"
| "read_files env dirs (fname # files) t =
     seqx (read_from_dirs env fname dirs t) (\<lambda>_ t. read_files env dirs files t)"

definition load_fieldtbls32 :: "table_env \<Rightarrow> field_maps \<Rightarrow> (unit, field_maps) call" where
  "load_fieldtbls32 env t =
     (case (FIELDTBLS32 env, FLDTBLDIR32 env) of
        (Some tbls, Some dir) \<Rightarrow>
          read_files env (split dir [58]) (split tbls [44])
            (t\<lparr>id_to_name := (\<lambda>_. None), name_to_id := (\<lambda>_. None), id_to_name_loaded := True, name_to_id_loaded := True\<rparr>)
      | _ \<Rightarrow> (Inr (), t))"

definition fields_name :: "table_env \<Rightarrow> fldid \<Rightarrow> field_maps \<Rightarrow> (byte list option, field_maps) call" where
  "fields_name env fieldid t =
     seqx (if \<not> id_to_name_loaded t then load_fieldtbls32 env t else (Inr (), t)) (\<lambda>_ t.
       case id_to_name t fieldid of
         Some n \<Rightarrow> (Inr (Some n), t)
       | None \<Rightarrow> (Inr None, t\<lparr>Ferror := FBADFLD\<rparr>))"

definition fields_fldid :: "table_env \<Rightarrow> byte list \<Rightarrow> field_maps \<Rightarrow> (fldid, field_maps) call" where
  "fields_fldid env name t =
     seqx (if \<not> name_to_id_loaded t then load_fieldtbls32 env t else (Inr (), t)) (\<lambda>_ t.
       case name_to_id t name of
         Some i \<Rightarrow> (Inr i, t)
       | None \<Rightarrow> (Inr BADFLDID, t\<lparr>Ferror := FBADNAME\<rparr>))"

definition idnm_unload :: "field_maps \<Rightarrow> (unit, field_maps) call" where
  "idnm_unload t = (Inr (), t\<lparr>id_to_name := (\<lambda>_. None), id_to_name_loaded := False\<rparr>)"

definition nmid_unload :: "field_maps \<Rightarrow> (unit, field_maps) call" where
  "nmid_unload t = (Inr (), t\<lparr>name_to_id := (\<lambda>_. None), name_to_id_loaded := False\<rparr>)"

text \<open>The functions of src/fml32.cpp; \<open>fux::fml32::exception_boundary\<close> is the one of the ATMI calls for \<open>Ferror32\<close>.\<close>

definition set_Ferror32 :: "int \<Rightarrow> field_maps \<Rightarrow> field_maps" where
  "set_Ferror32 e t = t\<lparr>Ferror := e\<rparr>"

definition Fname32 :: "table_env \<Rightarrow> fldid \<Rightarrow> field_maps \<Rightarrow> (byte list option, field_maps) call" where
  "Fname32 env fieldid = exception_boundary set_Ferror32 (fields_name env fieldid) None"

definition Fldid32 :: "table_env \<Rightarrow> byte list \<Rightarrow> field_maps \<Rightarrow> (fldid, field_maps) call" where
  "Fldid32 env name = exception_boundary set_Ferror32 (fields_fldid env name) BADFLDID"

definition Fidnm_unload32 :: "field_maps \<Rightarrow> (unit, field_maps) call" where
  "Fidnm_unload32 = exception_boundary set_Ferror32 idnm_unload ()"

definition Fnmid_unload32 :: "field_maps \<Rightarrow> (unit, field_maps) call" where
  "Fnmid_unload32 = exception_boundary set_Ferror32 nmid_unload ()"

subsection \<open>Header files\<close>

text \<open>
  \<open>process_file\<close> of src/mkfldhdr32.cpp: the text written for the entries of a table. The map from types to
  names gives the empty text for a type that is not one.
\<close>

definition field_type_name :: "int \<Rightarrow> byte list" where
  "field_type_name t =
     (case map_of (map (\<lambda>(n, t). (t, n)) field_types) t of None \<Rightarrow> [] | Some n \<Rightarrow> n)"

text \<open>\<open>#define \<close>, \<open>((FLDID32)\<close> and \<open>// \<close>\<close>

definition define_text :: "byte list" where "define_text = [35, 100, 101, 102, 105, 110, 101, 32]"
definition fldid_text :: "byte list" where "fldid_text = [40, 40, 70, 76, 68, 73, 68, 51, 50, 41]"
definition comment_text :: "byte list" where "comment_text = [47, 47, 32]"

fun header_entry :: "ft_entry \<Rightarrow> byte list" where
  "header_entry (Ft_comment c) = (if c \<noteq> [] then comment_text @ c @ [10] else [])"
| "header_entry (Ft_raw r) = r @ [10]"
| "header_entry (Ft_field f) =
     define_text @ ff_name f @ [9] @ fldid_text @ show_nat (unat (ff_id f)) @ [41, 9, 9] @ comment_text @ ff_name f @ [9] @
     show_int (Fldno32 (ff_id f)) @ [9] @ field_type_name (Fldtype32 (ff_id f)) @ [9] @ ff_comment f @ [10]"

definition header_text :: "byte list \<Rightarrow> stop + byte list" where
  "header_text table =
     (case parse_table 0 table of
        (Inl e, p) \<Rightarrow> Inl e
      | (Inr _, p) \<Rightarrow> Inr (concat (map header_entry (tp_entries p))))"

end
