(* ===== verification/Field_Table_Props.thy ===== *)
theory Field_Table_Props
  imports Field_Table
begin

text \<open>
  Field tables written line by line, and what the parser of src/fieldtbl32.h, the maps of
  src/fbfr32fld.h and the headers of src/mkfldhdr32.cpp make of them.
\<close>

subsection \<open>Tables as lines\<close>

datatype src_line =
  Src_comment "byte list" | Src_raw "byte list" | Src_base nat | Src_field "byte list" nat "byte list" "byte list" | Src_blank

fun render_line :: "src_line \<Rightarrow> byte list" where
  "render_line (Src_comment c) = 35 # c @ [10]"
| "render_line (Src_raw r) = 36 # r @ [10]"
| "render_line (Src_base n) = 42 # base_name @ 9 # show_nat n @ [10]"
| "render_line (Src_field n k t c) = n @ 9 # show_nat k @ 9 # t @ c @ [10]"
| "render_line Src_blank = [10]"

definition render_table :: "src_line list \<Rightarrow> byte list" where
  "render_table ls = concat (map render_line ls)"

text \<open>Well-formed lines; the base and the number of a field are at most \<open>2^62\<close>, so that their sum is a \<open>long\<close>.\<close>

fun wf_line :: "src_line \<Rightarrow> bool" where
  "wf_line (Src_comment c) \<longleftrightarrow> 10 \<notin> set c"
| "wf_line (Src_raw r) \<longleftrightarrow> 10 \<notin> set r"
| "wf_line (Src_base n) \<longleftrightarrow> n < 2 ^ 62"
| "wf_line (Src_field n k t c) \<longleftrightarrow> is_name n \<and> k < 2 ^ 62 \<and> map_of field_types t \<noteq> None \<and> 10 \<notin> set c \<and> ends name_char c"
| "wf_line Src_blank \<longleftrightarrow> True"

text \<open>What a table says: its entries, with the base that applies to each line.\<close>

fun table_says :: "nat \<Rightarrow> src_line list \<Rightarrow> ft_entry list" where
  "table_says b [] = []"
| "table_says b (Src_comment c # ls) = Ft_comment c # table_says b ls"
| "table_says b (Src_raw r # ls) = Ft_raw r # table_says b ls"
| "table_says b (Src_base n # ls) = table_says n ls"
| "table_says b (Src_field n k t c # ls) =
     Ft_field \<lparr>ff_name = n, ff_id = field_id (the (map_of field_types t)) (int (b + k)), ff_comment = c\<rparr> # table_says b ls"
| "table_says b (Src_blank # ls) = table_says b ls"

definition entry_fields :: "ft_entry list \<Rightarrow> ft_field list" where
  "entry_fields es = concat (map (\<lambda>e. case e of Ft_field f \<Rightarrow> [f] | _ \<Rightarrow> []) es)"

lemma entry_fields_simps [simp]:
  "entry_fields [] = []" "entry_fields (Ft_comment c # es) = entry_fields es" "entry_fields (Ft_raw c # es) = entry_fields es"
  "entry_fields (Ft_field f # es) = f # entry_fields es" "entry_fields (es @ es') = entry_fields es @ entry_fields es'"
  by (simp_all add: entry_fields_def)

subsection \<open>Reading a line\<close>

lemma delim_read: "ends is_blank s \<Longrightarrow> delim (9 # s) = (True, s)"
  using eat_all_read [of "[]" is_blank s] by (simp add: delim_def is_blank_def)

lemma delim_none: "ends is_blank s \<Longrightarrow> delim s = (False, s)"
  by (simp add: delim_def eat_if_none)

lemma digits_first:
  assumes "\<And>c. f c \<Longrightarrow> \<not> is_digit c"
  shows "ends f (show_nat n @ s)"
  using show_nat_nonempty [of n] show_nat_digits [of n] assms by (cases "show_nat n") auto

lemma blank_not_digit: "is_blank c \<Longrightarrow> \<not> is_digit c"
  by (auto simp: is_blank_def is_digit_def word_le_nat_alt)

lemma stol_nat: "n < 2 ^ 62 \<Longrightarrow> stol (show_nat n) = Inr (int n)"
  using stol_show_int [of "int n"] by (simp add: show_int_def)

lemmas stol_read = stol_nat [simplified]

lemma letter_facts:
  assumes "is_letter c"
  shows "c \<noteq> 10" "c \<noteq> 35" "c \<noteq> 36" "c \<noteq> 42" "\<not> is_blank c" "\<not> is_digit c"
  using assms by (auto simp: is_letter_def is_blank_def is_digit_def word_le_nat_alt)

lemma name_first: "is_name n \<Longrightarrow> \<exists>c cs. n = c # cs \<and> is_letter c"
  by (cases n) (auto simp: is_name_def)

lemma type_names: "map_of field_types t \<noteq> None \<Longrightarrow> is_name t"
  by (auto simp: field_types_def is_name_def is_letter_def name_char_def is_digit_def split: if_splits)

lemma show_nat_read: "s \<noteq> [] \<Longrightarrow> hd s \<in> {9, 10} \<Longrightarrow> eat_number (show_nat n @ s) = (Some (show_nat n), s)"
  using eat_number_read [OF _ show_nat_nonempty, of n s] show_nat_digits [of n]
  by (cases s) (auto simp: is_digit_def)

lemma table_line_done:
  "line_body p = (Inr (), q) \<Longrightarrow> tp_inp q = 10 # s \<Longrightarrow> table_line p = (Inr True, q\<lparr>tp_inp := s\<rparr>)"
  by (simp add: table_line_def)

lemma base_line_read:
  assumes "n < 2 ^ 62" "tp_inp p = base_name @ 9 # show_nat n @ 10 # s"
  shows "base_line p = (Inr (), p\<lparr>tp_inp := 10 # s, tp_base := int n\<rparr>)"
proof -
  have "eat_name (base_name @ 9 # show_nat n @ 10 # s) = (Some base_name, 9 # show_nat n @ 10 # s)"
    by (rule eat_name_read) (simp_all add: base_name_def is_name_def is_letter_def name_char_def is_digit_def)
  moreover have "delim (9 # show_nat n @ 10 # s) = (True, show_nat n @ 10 # s)"
    by (rule delim_read) (rule digits_first [OF blank_not_digit])
  moreover have "eat_number (show_nat n @ 10 # s) = (Some (show_nat n), 10 # s)"
    by (rule show_nat_read) simp_all
  moreover have "delim (10 # s) = (False, 10 # s)" by (rule delim_none) (simp add: is_blank_def)
  ultimately show ?thesis using assms by (simp add: base_line_def stol_read)
qed

lemma field_line_read:
  assumes "k < 2 ^ 62" "map_of field_types t = Some ty" "10 \<notin> set c" "ends name_char c" "0 \<le> tp_base p" "tp_base p < 2 ^ 62"
    and "tp_inp p = 9 # show_nat k @ 9 # t @ c @ 10 # s"
  shows "field_line n p =
    (let f = \<lparr>ff_name = n, ff_id = field_id ty (tp_base p + int k), ff_comment = c\<rparr>
     in (Inr (), p\<lparr>tp_inp := 10 # s, tp_fields := tp_fields p @ [f], tp_entries := tp_entries p @ [Ft_field f],
         tp_Ferror := field_id_error ty (tp_base p + int k)\<rparr>))"
proof -
  have t: "is_name t" using assms(2) type_names by simp
  have "delim (9 # show_nat k @ 9 # t @ c @ 10 # s) = (True, show_nat k @ 9 # t @ c @ 10 # s)"
    by (rule delim_read) (rule digits_first [OF blank_not_digit])
  moreover have "eat_number (show_nat k @ 9 # t @ c @ 10 # s) = (Some (show_nat k), 9 # t @ c @ 10 # s)"
    by (rule show_nat_read) simp_all
  moreover have "delim (9 # t @ c @ 10 # s) = (True, t @ c @ 10 # s)"
    using name_first [OF t] letter_facts by (intro delim_read) auto
  moreover have "ends name_char (c @ 10 # s)"
    using assms(4) by (cases c) (simp_all add: name_char_def is_letter_def is_digit_def)
  then have "eat_name (t @ c @ 10 # s) = (Some t, c @ 10 # s)" by (rule eat_name_read [OF t])
  moreover have "rest_of_line (c @ 10 # s) = (c, 10 # s)" using assms(3) by (rule rest_of_line_read)
  ultimately show ?thesis
    using assms by (simp add: field_line_def add_field_def stol_read Let_def)
qed

lemma table_line_read:
  assumes "wf_line l" "tp_inp p = render_line l @ s" "tp_base p = int b" "b < 2 ^ 62"
  shows "\<exists>q es. table_line p = (Inr True, q) \<and> tp_inp q = s \<and> tp_entries q = tp_entries p @ es \<and>
    tp_fields q = tp_fields p @ entry_fields es \<and>
    (\<exists>b'. tp_base q = int b' \<and> b' < 2 ^ 62 \<and> (\<forall>ls. table_says b (l # ls) = es @ table_says b' ls))"
proof (cases l)
  case (Src_comment c)
  have "line_body p = (Inr (), p\<lparr>tp_inp := 10 # s, tp_entries := tp_entries p @ [Ft_comment c]\<rparr>)"
    using assms Src_comment rest_of_line_read [of c s] by (simp add: line_body_def)
  from table_line_done [OF this] show ?thesis using assms Src_comment by (auto intro!: exI [of _ "[Ft_comment c]"])
next
  case (Src_raw c)
  have "line_body p = (Inr (), p\<lparr>tp_inp := 10 # s, tp_entries := tp_entries p @ [Ft_raw c]\<rparr>)"
    using assms Src_raw rest_of_line_read [of c s] by (simp add: line_body_def)
  from table_line_done [OF this] show ?thesis using assms Src_raw by (auto intro!: exI [of _ "[Ft_raw c]"])
next
  case (Src_base n)
  have "base_line (p\<lparr>tp_inp := base_name @ 9 # show_nat n @ 10 # s\<rparr>) = (Inr (), p\<lparr>tp_inp := 10 # s, tp_base := int n\<rparr>)"
    using assms Src_base base_line_read [of n "p\<lparr>tp_inp := base_name @ 9 # show_nat n @ 10 # s\<rparr>" s] by simp
  then have "line_body p = (Inr (), p\<lparr>tp_inp := 10 # s, tp_base := int n\<rparr>)"
    using assms Src_base by (simp add: line_body_def)
  from table_line_done [OF this] show ?thesis using assms Src_base by (auto intro!: exI [of _ "[]"])
next
  case (Src_field n k t c)
  obtain ty where ty: "map_of field_types t = Some ty" using assms(1) Src_field by auto
  obtain d ds where n: "n = d # ds" "is_letter d" using assms(1) Src_field name_first [of n] by auto
  let ?s = "9 # show_nat k @ 9 # t @ c @ 10 # s"
  have "eat_name (n @ ?s) = (Some n, ?s)"
    using assms(1) Src_field by (intro eat_name_read) (auto simp: name_char_def is_letter_def is_digit_def)
  then have body: "line_body p = field_line n (p\<lparr>tp_inp := ?s\<rparr>)"
    using assms(2) Src_field n letter_facts by (simp add: line_body_def)
  let ?f = "\<lparr>ff_name = n, ff_id = field_id ty (int (b + k)), ff_comment = c\<rparr>"
  have "field_line n (p\<lparr>tp_inp := ?s\<rparr>) =
      (Inr (), p\<lparr>tp_inp := 10 # s, tp_fields := tp_fields p @ [?f], tp_entries := tp_entries p @ [Ft_field ?f],
        tp_Ferror := field_id_error ty (int (b + k))\<rparr>)"
    using field_line_read [of k t ty c "p\<lparr>tp_inp := ?s\<rparr>" s n] assms Src_field ty by (simp add: Let_def)
  from table_line_done [OF this [folded body]] show ?thesis
    using assms Src_field ty by (auto intro!: exI [of _ "[Ft_field ?f]"])
next
  case Src_blank
  have "line_body p = (Inr (), p)" using assms Src_blank
    by (simp add: line_body_def eat_name_def is_letter_def)
  from table_line_done [OF this] show ?thesis using assms Src_blank by (auto intro!: exI [of _ "[]"])
qed

lemma table_lines_read:
  assumes "\<forall>l \<in> set ls. wf_line l" "tp_inp p = render_table ls" "tp_base p = int b" "b < 2 ^ 62"
  shows "\<exists>q. table_lines p = (Inr (), q) \<and> tp_inp q = [] \<and> tp_entries q = tp_entries p @ table_says b ls \<and>
    tp_fields q = tp_fields p @ entry_fields (table_says b ls)"
  using assms
proof (induction ls arbitrary: p b)
  case Nil
  then have "table_line p = (Inr False, p)"
    by (simp add: table_line_def line_body_def render_table_def eat_name_def)
  then show ?case using Nil by (simp add: table_lines.simps [of p] render_table_def)
next
  case (Cons l ls)
  have "wf_line l" "tp_inp p = render_line l @ render_table ls" using Cons.prems by (simp_all add: render_table_def)
  from table_line_read [OF this Cons.prems(3,4)] obtain q es b' where q: "table_line p = (Inr True, q)"
    "tp_inp q = render_table ls" "tp_entries q = tp_entries p @ es" "tp_fields q = tp_fields p @ entry_fields es"
    "tp_base q = int b'" "b' < 2 ^ 62" "table_says b (l # ls) = es @ table_says b' ls" by blast
  from Cons.IH [OF _ q(2,5,6)] Cons.prems(1) obtain r where "table_lines q = (Inr (), r)" "tp_inp r = []"
    "tp_entries r = tp_entries q @ table_says b' ls" "tp_fields r = tp_fields q @ entry_fields (table_says b' ls)" by auto
  then show ?case using q by (simp add: table_lines.simps [of p])
qed

lemma parse_table_read:
  assumes "\<forall>l \<in> set ls. wf_line l"
  shows "\<exists>p. parse_table err (render_table ls) = (Inr (), p) \<and> tp_entries p = table_says 0 ls \<and>
    tp_fields p = entry_fields (table_says 0 ls)"
  using table_lines_read [OF assms, of "\<lparr>tp_inp = render_table ls, tp_base = 0, tp_fields = [], tp_entries = [], tp_Ferror = err\<rparr>" 0]
  by (auto simp: parse_table_def)

subsection \<open>Identifiers\<close>

lemma field_id_typed:
  assumes "valid_fldtype32 ty" "1 \<le> n" "n < 2 ^ 24"
  shows "Fldtype32 (field_id ty n) = ty" "Fldno32 (field_id ty n) = n" "valid_id (field_id ty n)"
proof -
  have ty: "0 \<le> ty" "ty < 256" using assms(1) by (auto elim!: valid_type_cases)
  let ?n = "word_of_int n :: 32 word" and ?t = "word_of_int ty :: 32 word"
  have un: "uint ?n = n" using assms by (simp add: uint_word_of_int)
  have ut: "uint ?t = ty" using ty by (simp add: uint_word_of_int)
  have "\<not> ?n < 1" using assms(2) un by (simp add: word_less_def)
  then have id: "field_id ty n = push_bit 24 ?t OR ?n"
    using assms(1) by (simp add: field_id_def Fmkfldid32_def)
  have hi: "drop_bit 24 (push_bit 24 ?t OR ?n) = ?t"
  proof -
    have "drop_bit 24 ?n = 0"
      by (rule word_uint_eqI) (use un assms in \<open>simp add: drop_bit_eq_div uint_div_distrib\<close>)
    moreover have "drop_bit 24 (push_bit 24 ?t) = ?t"
    proof (rule word_uint_eqI)
      have "uint (push_bit 24 ?t) = ty * 2 ^ 24"
        using ut ty by (simp add: push_bit_eq_mult uint_word_ariths)
      then show "uint (drop_bit 24 (push_bit 24 ?t)) = uint ?t"
        using ut by (simp add: drop_bit_eq_div uint_div_distrib)
    qed
    ultimately show ?thesis by (simp only: drop_bit_or or.right_neutral)
  qed
  have lo: "(push_bit 24 ?t OR ?n) AND 0xffffff = ?n"
  proof -
    have m: "(0xffffff :: 32 word) = mask 24" by (simp add: mask_eq_exp_minus_1)
    have "take_bit 24 (push_bit 24 ?t OR ?n) = take_bit 24 ?n" by (simp add: take_bit_or take_bit_push_bit)
    moreover have "take_bit 24 ?n = ?n"
      using assms by (intro word_uint_eqI) (simp add: take_bit_eq_mod uint_mod_distrib un)
    ultimately show ?thesis by (simp add: m take_bit_eq_mask)
  qed
  show t: "Fldtype32 (field_id ty n) = ty" by (simp only: Fldtype32_def id hi ut)
  show "Fldno32 (field_id ty n) = n" by (simp only: Fldno32_def id lo un)
  show "valid_id (field_id ty n)" using t assms(1) by (simp add: valid_id_def)
qed

lemma field_type_valid: "map_of field_types t = Some ty \<Longrightarrow> valid_fldtype32 ty"
  by (auto simp: field_types_def valid_fldtype32_def split: if_splits)

text \<open>What a table declares: names, types and numbers. Numbers fit when they leave the type alone.\<close>

fun declared :: "nat \<Rightarrow> src_line list \<Rightarrow> (byte list \<times> int \<times> int) list" where
  "declared b [] = []"
| "declared b (Src_base n # ls) = declared n ls"
| "declared b (Src_field n k t c # ls) = (n, the (map_of field_types t), int (b + k)) # declared b ls"
| "declared b (_ # ls) = declared b ls"

definition numbers_fit :: "src_line list \<Rightarrow> bool" where
  "numbers_fit ls \<longleftrightarrow> (\<forall>(n, ty, k) \<in> set (declared 0 ls). 1 \<le> k \<and> k < 2 ^ 24)"

lemma declared_names: "map ff_name (entry_fields (table_says b ls)) = map fst (declared b ls)"
  by (induction b ls rule: declared.induct) simp_all

lemma declared_ids: "map ff_id (entry_fields (table_says b ls)) = map (\<lambda>(n, ty, k). field_id ty k) (declared b ls)"
  by (induction b ls rule: declared.induct) simp_all

lemma declared_types:
  "\<forall>l \<in> set ls. wf_line l \<Longrightarrow> (n, ty, k) \<in> set (declared b ls) \<Longrightarrow> valid_fldtype32 ty"
  by (induction b ls rule: declared.induct) (auto dest: field_type_valid)

subsection \<open>Loading the tables of the environment\<close>

text \<open>The first directory that has the file, and the fields of all files.\<close>

fun first_text :: "table_env \<Rightarrow> byte list list \<Rightarrow> byte list \<Rightarrow> byte list option" where
  "first_text env [] f = None"
| "first_text env (d # ds) f =
     (case file_text env (d @ [47] @ f) of Some x \<Rightarrow> Some x | None \<Rightarrow> first_text env ds f)"

definition tables_say :: "table_env \<Rightarrow> byte list list \<Rightarrow> (byte list \<times> src_line list) list \<Rightarrow> bool" where
  "tables_say env dirs tabs \<longleftrightarrow>
     (\<forall>(f, ls) \<in> set tabs. (\<forall>l \<in> set ls. wf_line l) \<and> first_text env dirs f = Some (render_table ls))"

definition all_fields :: "(byte list \<times> src_line list) list \<Rightarrow> ft_field list" where
  "all_fields tabs = concat (map (\<lambda>(f, ls). entry_fields (table_says 0 ls)) tabs)"

definition id_pairs :: "ft_field list \<Rightarrow> (fldid \<times> byte list) list" where
  "id_pairs fs = map (\<lambda>f. (ff_id f, ff_name f)) fs"

definition name_pairs :: "ft_field list \<Rightarrow> (byte list \<times> fldid) list" where
  "name_pairs fs = map (\<lambda>f. (ff_name f, ff_id f)) fs"

text \<open>Two states of the maps with the same entries and marks.\<close>

definition maps_hold :: "ft_field list \<Rightarrow> field_maps \<Rightarrow> bool" where
  "maps_hold fs t \<longleftrightarrow> id_to_name_loaded t \<and> name_to_id_loaded t \<and>
     id_to_name t = map_of (id_pairs fs) \<and> name_to_id t = map_of (name_pairs fs)"

lemma map_insert_last: "map_insert k v (map_of xs) = map_of (xs @ [(k, v)])"
  by (rule ext) (auto simp: map_insert_def map_add_def split: option.splits)

lemma insert_fields_hold: "maps_hold fs t \<Longrightarrow> maps_hold (fs @ gs) (fold insert_field gs t)"
proof (induction gs arbitrary: fs t)
  case (Cons g gs)
  have "maps_hold (fs @ [g]) (insert_field g t)"
    using Cons.prems by (simp add: maps_hold_def insert_field_def id_pairs_def name_pairs_def map_insert_last)
  from Cons.IH [OF this] show ?case by simp
qed simp

lemma maps_hold_error [simp]: "maps_hold fs (t\<lparr>Ferror := e\<rparr>) = maps_hold fs t"
  by (simp add: maps_hold_def)

lemma read_from_dirs_hold:
  assumes "first_text env dirs f = Some (render_table ls)" "\<forall>l \<in> set ls. wf_line l" "maps_hold fs t"
  shows "\<exists>t'. read_from_dirs env f dirs t = (Inr (), t') \<and> maps_hold (fs @ entry_fields (table_says 0 ls)) t'"
  using assms(1)
proof (induction dirs)
  case (Cons d ds)
  show ?case
  proof (cases "file_text env (d @ [47] @ f)")
    case (Some x)
    with Cons.prems have "x = render_table ls" by simp
    moreover obtain p where "parse_table (Ferror t) (render_table ls) = (Inr (), p)"
      "tp_fields p = entry_fields (table_says 0 ls)"
      using parse_table_read [OF assms(2)] by blast
    moreover have "maps_hold fs (t\<lparr>Ferror := tp_Ferror p\<rparr>)" using assms(3) by simp
    ultimately show ?thesis
      using Some insert_fields_hold by (auto simp: read_fld32_file_def)
  next
    case None
    then show ?thesis using Cons by (simp add: read_fld32_file_def)
  qed
qed simp

lemma read_files_hold:
  assumes "tables_say env dirs tabs" "maps_hold fs t"
  shows "\<exists>t'. read_files env dirs (map fst tabs) t = (Inr (), t') \<and> maps_hold (fs @ all_fields tabs) t'"
  using assms
proof (induction tabs arbitrary: fs t)
  case Nil
  then show ?case by (simp add: all_fields_def)
next
  case (Cons tab tabs)
  obtain f ls where tab: "tab = (f, ls)" by fastforce
  then obtain t1 where t1: "read_from_dirs env f dirs t = (Inr (), t1)" "maps_hold (fs @ entry_fields (table_says 0 ls)) t1"
    using read_from_dirs_hold [OF _ _ Cons.prems(2), of env dirs f ls] Cons.prems(1) by (auto simp: tables_say_def)
  moreover have "tables_say env dirs tabs" using Cons.prems by (simp add: tables_say_def)
  ultimately show ?case using Cons.IH tab by (fastforce simp: all_fields_def)
qed

definition env_says :: "table_env \<Rightarrow> (byte list \<times> src_line list) list \<Rightarrow> bool" where
  "env_says env tabs \<longleftrightarrow>
     (\<exists>tbls dir. FIELDTBLS32 env = Some tbls \<and> FLDTBLDIR32 env = Some dir \<and>
       split tbls [44] = map fst tabs \<and> tables_say env (split dir [58]) tabs)"

lemma load_hold:
  assumes "env_says env tabs"
  shows "\<exists>t'. load_fieldtbls32 env t = (Inr (), t') \<and> maps_hold (all_fields tabs) t'"
proof -
  have "maps_hold [] (t\<lparr>id_to_name := (\<lambda>_. None), name_to_id := (\<lambda>_. None), id_to_name_loaded := True, name_to_id_loaded := True\<rparr>)"
    by (simp add: maps_hold_def id_pairs_def name_pairs_def)
  from read_files_hold [OF _ this] assms show ?thesis
    by (fastforce simp: env_says_def load_fieldtbls32_def)
qed

lemma Fldid32_value:
  assumes "env_says env tabs" "\<not> name_to_id_loaded t \<or> maps_hold (all_fields tabs) t"
  shows "\<exists>t'. Fldid32 env n t =
    (Inr (case map_of (name_pairs (all_fields tabs)) n of Some i \<Rightarrow> i | None \<Rightarrow> BADFLDID), t') \<and> maps_hold (all_fields tabs) t'"
proof -
  have "\<exists>t'. (if \<not> name_to_id_loaded u then load_fieldtbls32 env u else (Inr (), u)) = (Inr (), t') \<and> maps_hold (all_fields tabs) t'"
    if "u = set_Ferror32 0 t" for u
    using assms load_hold [OF assms(1), of u] that by (auto simp: set_Ferror32_def maps_hold_def)
  then obtain u where "(if \<not> name_to_id_loaded (set_Ferror32 0 t) then load_fieldtbls32 env (set_Ferror32 0 t)
      else (Inr (), set_Ferror32 0 t)) = (Inr (), u)" "maps_hold (all_fields tabs) u" by blast
  then show ?thesis
    by (auto simp: Fldid32_def exception_boundary_def fields_fldid_def maps_hold_def split: option.splits)
qed

lemma Fname32_value:
  assumes "env_says env tabs" "\<not> id_to_name_loaded t \<or> maps_hold (all_fields tabs) t"
  shows "\<exists>t'. Fname32 env i t = (Inr (map_of (id_pairs (all_fields tabs)) i), t') \<and> maps_hold (all_fields tabs) t'"
proof -
  have "\<exists>t'. (if \<not> id_to_name_loaded u then load_fieldtbls32 env u else (Inr (), u)) = (Inr (), t') \<and> maps_hold (all_fields tabs) t'"
    if "u = set_Ferror32 0 t" for u
    using assms load_hold [OF assms(1), of u] that by (auto simp: set_Ferror32_def maps_hold_def)
  then obtain u where "(if \<not> id_to_name_loaded (set_Ferror32 0 t) then load_fieldtbls32 env (set_Ferror32 0 t)
      else (Inr (), set_Ferror32 0 t)) = (Inr (), u)" "maps_hold (all_fields tabs) u" by blast
  then show ?thesis
    by (auto simp: Fname32_def exception_boundary_def fields_name_def maps_hold_def split: option.splits)
qed

subsection \<open>Properties\<close>


text \<open>C32: The identifiers of a table are well typed. When base and number of every field stay between 1 and
  \<open>2^24 - 1\<close>, each identifier that is read gives back the type and the number of its line, and is one the
  FML functions accept.\<close>

theorem field_ids_typed:
  assumes "\<forall>l \<in> set ls. wf_line l" "numbers_fit ls" "parse_table err (render_table ls) = (Inr (), p)"
  shows "map (\<lambda>f. (ff_name f, Fldtype32 (ff_id f), Fldno32 (ff_id f))) (tp_fields p) = declared 0 ls \<and>
    (\<forall>f \<in> set (tp_fields p). valid_id (ff_id f))"
proof -
  have p: "tp_fields p = entry_fields (table_says 0 ls)" using parse_table_read [OF assms(1), of err] assms(3) by auto
  have ids: "Fldtype32 (field_id ty k) = ty \<and> Fldno32 (field_id ty k) = k \<and> valid_id (field_id ty k)"
    if "(n, ty, k) \<in> set (declared 0 ls)" for n ty k
    using that assms(2) field_id_typed [of ty k] declared_types [OF assms(1) that] by (auto simp: numbers_fit_def)
  have "map (\<lambda>f. (ff_name f, Fldtype32 (ff_id f), Fldno32 (ff_id f))) (tp_fields p) =
      map (\<lambda>(n, i). (n, Fldtype32 i, Fldno32 i)) (zip (map ff_name (tp_fields p)) (map ff_id (tp_fields p)))"
    by (induction "tp_fields p") (simp_all add: zip_map_map zip_same_conv_map comp_def)
  also have "\<dots> = map (\<lambda>(n, i). (n, Fldtype32 i, Fldno32 i)) (map (\<lambda>(n, ty, k). (n, field_id ty k)) (declared 0 ls))"
    by (simp add: p declared_names declared_ids zip_map_map zip_same_conv_map comp_def case_prod_beta)
  also have "\<dots> = declared 0 ls" using ids by (auto intro!: map_idI)
  finally show ?thesis
    using ids by (metis (no_types, lifting) case_prod_beta declared_ids in_set_conv_nth length_map list.set_map imageE imageI p prod.collapse)
qed

text \<open>C25: The maps of the environment's field tables are inverse to each other. Once the tables are found and
  no name and no identifier is declared twice, \<open>Fldid32\<close> gives every declared name the
  identifier of its field, \<open>Fname32\<close> gives that identifier its name, and any other name is \<open>BADFLDID\<close>.\<close>

theorem fields_loaded:
  assumes "env_says env tabs" "\<not> name_to_id_loaded t"
    and "distinct (map ff_name (all_fields tabs))" "distinct (map ff_id (all_fields tabs))"
  shows "(\<forall>f \<in> set (all_fields tabs). \<exists>t1 t2.
        Fldid32 env (ff_name f) t = (Inr (ff_id f), t1) \<and> Fname32 env (ff_id f) t1 = (Inr (Some (ff_name f)), t2)) \<and>
    (\<forall>n. n \<notin> ff_name ` set (all_fields tabs) \<longrightarrow> (\<exists>t1. Fldid32 env n t = (Inr BADFLDID, t1)))"
proof -
  let ?fs = "all_fields tabs"
  have ids: "map_of (id_pairs ?fs) (ff_id f) = Some (ff_name f)" and names: "map_of (name_pairs ?fs) (ff_name f) = Some (ff_id f)"
    if "f \<in> set ?fs" for f
    using that assms(3,4) by (auto simp: id_pairs_def name_pairs_def comp_def intro!: map_of_is_SomeI)
  have other: "map_of (name_pairs ?fs) n = None" if "n \<notin> ff_name ` set ?fs" for n
    using that by (auto simp: name_pairs_def map_of_eq_None_iff)
  show ?thesis
  proof (intro conjI ballI allI impI)
    fix f assume f: "f \<in> set ?fs"
    obtain t1 where t1: "Fldid32 env (ff_name f) t = (Inr (ff_id f), t1)" "maps_hold ?fs t1"
      using Fldid32_value [OF assms(1), of t "ff_name f"] assms(2) names [OF f] by auto
    moreover obtain t2 where "Fname32 env (ff_id f) t1 = (Inr (Some (ff_name f)), t2)"
      using Fname32_value [OF assms(1), of t1 "ff_id f"] t1(2) ids [OF f] by auto
    ultimately show "\<exists>t1 t2. Fldid32 env (ff_name f) t = (Inr (ff_id f), t1) \<and> Fname32 env (ff_id f) t1 = (Inr (Some (ff_name f)), t2)"
      by blast
  next
    fix n assume "n \<notin> ff_name ` set ?fs"
    with Fldid32_value [OF assms(1), of t n] assms(2) other show "\<exists>t1. Fldid32 env n t = (Inr BADFLDID, t1)" by auto
  qed
qed

subsection \<open>Witnesses\<close>

definition demo_table :: "src_line list" where
  "demo_table =
     [Src_comment [32, 120], Src_base 100, Src_field [78, 65] 1 [115, 116, 114, 105, 110, 103] [9, 45], Src_blank,
      Src_field [65, 95, 49] 2 [108, 111, 110, 103] []]"

lemma demo_table_wf: "\<forall>l \<in> set demo_table. wf_line l"
  by (simp add: demo_table_def is_name_def is_letter_def name_char_def is_digit_def field_types_def)

lemma demo_declared: "declared 0 demo_table = [([78, 65], FLD_STRING, 101), ([65, 95, 49], FLD_LONG, 102)]"
  by (simp add: demo_table_def field_types_def)

definition demo_fields :: "ft_field list" where
  "demo_fields =
     [\<lparr>ff_name = [78, 65], ff_id = 83886181, ff_comment = [9, 45]\<rparr>, \<lparr>ff_name = [65, 95, 49], ff_id = 16777318, ff_comment = []\<rparr>]"

lemma demo_entry_fields: "entry_fields (table_says 0 demo_table) = demo_fields"
  by (simp add: demo_table_def demo_fields_def field_types_def field_id_def Fmkfldid32_def valid_fldtype32_def)


theorem field_ids_typed_witness:
  "\<exists>p. parse_table 0 (render_table demo_table) = (Inr (), p) \<and>
     map (\<lambda>f. (ff_name f, Fldtype32 (ff_id f), Fldno32 (ff_id f))) (tp_fields p) =
       [([78, 65], FLD_STRING, 101), ([65, 95, 49], FLD_LONG, 102)]"
  using parse_table_read [OF demo_table_wf, of 0] field_ids_typed [OF demo_table_wf, of 0]
  by (auto simp: numbers_fit_def demo_declared)

definition demo_table_env :: table_env where
  "demo_table_env =
     \<lparr>FIELDTBLS32 = Some [116], FLDTBLDIR32 = Some [100],
      file_text = (\<lambda>f. if f = [100, 47, 116] then Some (render_table demo_table) else None)\<rparr>"

lemma demo_env_says: "env_says demo_table_env [([116], demo_table)]"
  using demo_table_wf by (simp add: env_says_def demo_table_env_def split_def tables_say_def)

theorem fields_loaded_witness: "\<exists>t1. Fldid32 demo_table_env [78, 65] no_fields = (Inr 83886181, t1)"
  using fields_loaded [OF demo_env_says, of no_fields]
  by (auto simp: no_fields_def all_fields_def demo_entry_fields demo_fields_def)

subsection \<open>What goes wrong\<close>

text \<open>A number of \<open>2^24\<close> or more runs into the type: this \<open>short\<close> is read as a \<open>long\<close>.\<close>

theorem large_number_retypes:
  "\<exists>p. parse_table 0 (render_table [Src_field [78] (2 ^ 24) [115, 104, 111, 114, 116] []]) = (Inr (), p) \<and>
     map (\<lambda>f. Fldtype32 (ff_id f)) (tp_fields p) = [FLD_LONG]"
  using parse_table_read [of "[Src_field [78] (2 ^ 24) [115, 104, 111, 114, 116] []]" 0]
  by (auto simp: is_name_def is_letter_def field_types_def field_id_def Fmkfldid32_def valid_fldtype32_def Fldtype32_def)

text \<open>A number of 0 is accepted, and its field gets the identifier \<open>0xffffffff\<close>.\<close>

theorem zero_number_accepted:
  "\<exists>p. parse_table 0 (render_table [Src_field [78] 0 [115, 104, 111, 114, 116] []]) = (Inr (), p) \<and>
     map ff_id (tp_fields p) = [-1]"
  using parse_table_read [of "[Src_field [78] 0 [115, 104, 111, 114, 116] []]" 0]
  by (auto simp: is_name_def is_letter_def field_types_def field_id_def Fmkfldid32_def valid_fldtype32_def)

text \<open>A line of one blank is accepted, a line of two is not.\<close>

lemma parse_blank: "parse_table e [32, 32, 10] =
    (Inl (Throw Runtime_error), \<lparr>tp_inp = [32, 10], tp_base = 0, tp_fields = [], tp_entries = [], tp_Ferror = e\<rparr>)"
  by (simp add: parse_table_def table_lines.simps table_line_def line_body_def eat_name_def is_letter_def is_space_def)

theorem blank_line_rejected: "fst (parse_table 0 [32, 10]) = Inr () \<and> fst (parse_table 0 [32, 32, 10]) = Inl (Throw Runtime_error)"
  by (simp add: parse_blank) (simp add: parse_table_def table_lines.simps table_line_def line_body_def eat_name_def is_letter_def is_space_def)

text \<open>
  After a table that cannot be read the maps count as loaded: the first call fails with an exception, and
  from then on every name is unknown, also once the table has been put right.\<close>

definition broken_env :: table_env where
  "broken_env = demo_table_env\<lparr>file_text := (\<lambda>_. Some [32, 32, 10])\<rparr>"

theorem broken_table_stays:
  "\<exists>t1. Fldid32 broken_env [78, 65] no_fields = (Inr BADFLDID, t1) \<and> Ferror t1 = -1 \<and>
     (\<exists>t2. Fldid32 demo_table_env [78, 65] t1 = (Inr BADFLDID, t2) \<and> Ferror t2 = FBADNAME)"
  by (simp add: Fldid32_def exception_boundary_def fields_fldid_def no_fields_def set_Ferror32_def load_fieldtbls32_def
      broken_env_def demo_table_env_def split_def read_fld32_file_def parse_blank)

end
