(* ===== verification/Ubb.thy ===== *)
theory Ubb
  imports Basic_Parser Mib_Props Client
begin

text \<open>
  The configuration of a domain: the reader of src/ubbreader.h, the sizes src/tmloadcf.cpp takes from it, and
  src/ubb2mib.cpp, which fills the shared tables. The member \<open>services\<close>, which nothing uses, is left out.
  A \<open>std::map\<close> of texts is a map; the \<open>operator[]\<close> that only adds an empty text for a key that is missing reads as one.
\<close>

subsection \<open>The reader\<close>

type_synonym ubb_params = "byte list \<Rightarrow> byte list option"
type_synonym ubb_section = "(byte list \<times> ubb_params) list"

record ubbconfig =
  ub_resources :: ubb_params
  ub_machines :: ubb_section
  ub_groups :: ubb_section
  ub_servers :: ubb_section

definition new_ubbconfig :: ubbconfig where
  "new_ubbconfig =
     \<lparr>ub_resources = [bytes ''MAXACCESSERS'' \<mapsto> bytes ''50'', bytes ''MAXSERVERS'' \<mapsto> bytes ''50'',
                      bytes ''MAXSERVICES'' \<mapsto> bytes ''100''],
      ub_machines = [], ub_groups = [], ub_servers = []\<rparr>"

definition is_gap :: "byte \<Rightarrow> bool" where "is_gap c \<longleftrightarrow> is_space c \<and> c \<noteq> 10"

definition whitespace :: "byte list \<Rightarrow> bool \<times> byte list" where
  "whitespace s = (case eat_if is_gap s of (None, s) \<Rightarrow> (False, s) | (Some _, s) \<Rightarrow> (case eat_all is_gap s of (_, s) \<Rightarrow> (True, s)))"

definition parse_till_eol :: "byte list \<Rightarrow> bool \<times> byte list" where
  "parse_till_eol s =
     (case whitespace s of
        (_, s) \<Rightarrow>
          (case eat 35 s of
             (True, s) \<Rightarrow> (case rest_of_line s of (_, s) \<Rightarrow> eat 10 s)
           | (False, s) \<Rightarrow> eat 10 s))"

definition parse_section :: "byte list \<Rightarrow> (byte list option \<times> byte list) except" where
  "parse_section s =
     (case eat 42 s of
        (False, s) \<Rightarrow> Inr (None, s)
      | (True, s) \<Rightarrow>
          (case eat_name s of
             (None, s) \<Rightarrow> Inl Runtime_error
           | (Some section, s) \<Rightarrow>
               (case parse_till_eol s of
                  (False, s) \<Rightarrow> Inl Runtime_error
                | (True, s) \<Rightarrow> Inr (Some section, s))))"

definition plain_first :: "byte \<Rightarrow> bool" where "plain_first c \<longleftrightarrow> \<not> is_space c \<and> c \<noteq> 35"
definition plain_next :: "byte \<Rightarrow> bool" where "plain_next c \<longleftrightarrow> \<not> is_space c \<and> c \<noteq> 35 \<and> c \<noteq> 61"

definition parameter :: "byte list \<Rightarrow> (byte list option \<times> byte list) except" where
  "parameter s =
     (case eat 34 s of
        (True, s) \<Rightarrow>
          (case eat_all (\<lambda>c. c \<noteq> 34) s of
             (x, s) \<Rightarrow> (case eat 34 s of (False, s) \<Rightarrow> Inl Runtime_error | (True, s) \<Rightarrow> Inr (Some x, s)))
      | (False, s) \<Rightarrow>
          (case eat_if plain_first s of
             (None, s) \<Rightarrow> Inr (None, s)
           | (Some c, s) \<Rightarrow> (case eat_all plain_next s of (cs, s) \<Rightarrow> Inr (Some (c # cs), s))))"

text \<open>\<open>KEY=VALUE\<close>, and a list of them that may go on on lines that start with white space\<close>

definition param_pair :: "byte list \<Rightarrow> ((byte list \<times> byte list) \<times> byte list) except" where
  "param_pair s =
     bind_except (parameter s) (\<lambda>(key, s).
       case key of
         None \<Rightarrow> Inl Runtime_error
       | Some k \<Rightarrow>
           (case whitespace s of
              (_, s) \<Rightarrow>
                (case eat 61 s of
                   (False, s) \<Rightarrow> Inl Runtime_error
                 | (True, s) \<Rightarrow>
                     (case whitespace s of
                        (_, s) \<Rightarrow>
                          bind_except (parameter s) (\<lambda>(val, s).
                            case val of None \<Rightarrow> Inl Runtime_error | Some v \<Rightarrow> Inr ((k, v), s))))))"

definition params_end :: "byte list \<Rightarrow> bool \<times> byte list" where
  "params_end s =
     (case whitespace s of
        (_, s) \<Rightarrow>
          (case eat 10 s of
             (False, s) \<Rightarrow> (False, s)
           | (True, s) \<Rightarrow> (case whitespace s of (goes_on, s) \<Rightarrow> (\<not> goes_on, s))))"

lemma whitespace_left: "whitespace s = (r, t) \<Longrightarrow> length t \<le> length s"
  by (auto simp: whitespace_def dest!: eaten_left split: prod.splits option.splits)

lemma parse_till_eol_left: "parse_till_eol s = (r, t) \<Longrightarrow> length t + (if r then 1 else 0) \<le> length s"
  by (auto simp: parse_till_eol_def dest!: eaten_left whitespace_left split: prod.splits option.splits bool.splits)

lemma eat_if_some_left: "eat_if f s = (Some c, t) \<Longrightarrow> length t < length s"
  by (cases s) (auto simp: eat_if_def split: if_splits)

lemma eat_if_none_left: "eat_if f s = (None, t) \<Longrightarrow> t = s"
  by (cases s) (auto simp: eat_if_def split: if_splits)

lemma parameter_left: "parameter s = Inr (r, t) \<Longrightarrow> length t + (if r = None then 0 else 1) \<le> length s"
  by (auto simp: parameter_def dest!: eat_left eat_if_some_left eat_if_none_left eat_all_left split: prod.splits option.splits bool.splits)

lemma parse_section_left: "parse_section s = Inr (r, t) \<Longrightarrow> length t + (if r = None then 0 else 1) \<le> length s"
  by (auto simp: parse_section_def dest!: eaten_left parse_till_eol_left split: prod.splits option.splits bool.splits)

lemma param_pair_left: "param_pair s = Inr (kv, t) \<Longrightarrow> length t < length s"
  by (auto simp: param_pair_def bind_except_def dest!: parameter_left whitespace_left eat_left
      split: prod.splits option.splits bool.splits sum.splits)

lemma params_end_left: "params_end s = (r, t) \<Longrightarrow> length t \<le> length s"
  by (auto simp: params_end_def dest!: whitespace_left eat_left split: prod.splits bool.splits)

function parse_params :: "ubb_params \<Rightarrow> byte list \<Rightarrow> (ubb_params \<times> byte list) except" where
  "parse_params ps s =
     (case params_end s of
        (True, s) \<Rightarrow> Inr (ps, s)
      | (False, s) \<Rightarrow>
          (case param_pair s of
             Inl e \<Rightarrow> Inl e
           | Inr ((k, v), s) \<Rightarrow> parse_params (if ps k = None then ps(k \<mapsto> v) else ps) s))"
  by pat_completeness auto

termination
  by (relation "measure (\<lambda>(ps, s). length s)") (auto dest!: params_end_left [OF sym] param_pair_left)

declare parse_params.simps [simp del]

lemma parse_params_left: "parse_params ps s = Inr (qs, t) \<Longrightarrow> length t \<le> length s"
proof (induction ps s rule: parse_params.induct)
  case (1 ps s)
  show ?case
  proof (cases "params_end s")
    case (Pair r s1)
    note left = params_end_left [OF Pair]
    show ?thesis
    proof (cases r)
      case True
      then show ?thesis using 1(2) Pair left by (simp add: parse_params.simps [of ps])
    next
      case False
      then obtain k v s2 where s2: "param_pair s1 = Inr ((k, v), s2)"
        and go: "parse_params (if ps k = None then ps(k \<mapsto> v) else ps) s2 = Inr (qs, t)"
        using 1(2) Pair by (auto simp: parse_params.simps [of ps] split: sum.splits)
      from 1(1) [OF Pair [symmetric] _ s2 refl refl go] False param_pair_left [OF s2] left show ?thesis by simp
    qed
  qed
qed

text \<open>One turn of the loop of \<open>parse\<close>, with the section of the line; \<open>False\<close> ends the loop.\<close>

definition add_line :: "byte list \<Rightarrow> byte list \<Rightarrow> ubb_params \<Rightarrow> ubbconfig \<Rightarrow> ubbconfig" where
  "add_line section object ps c =
     (if section = bytes ''SERVERS'' then c\<lparr>ub_servers := ub_servers c @ [(object, ps)]\<rparr>
      else if section = bytes ''GROUPS'' then c\<lparr>ub_groups := ub_groups c @ [(object, ps)]\<rparr>
      else if section = bytes ''MACHINES'' then c\<lparr>ub_machines := ub_machines c @ [(object, ps)]\<rparr>
      else c)"

definition resource_line :: "byte list \<Rightarrow> ubbconfig \<Rightarrow> byte list \<Rightarrow> (ubbconfig \<times> byte list) except" where
  "resource_line object c s =
     bind_except (parameter s) (\<lambda>(val, s).
       case val of
         None \<Rightarrow> Inl Runtime_error
       | Some v \<Rightarrow>
           (case whitespace s of
              (_, s) \<Rightarrow>
                (case eat 10 s of
                   (False, s) \<Rightarrow> Inl Runtime_error
                 | (True, s) \<Rightarrow> Inr (c\<lparr>ub_resources := (ub_resources c)(object \<mapsto> v)\<rparr>, s))))"

definition object_line :: "byte list \<Rightarrow> byte list \<Rightarrow> ubbconfig \<Rightarrow> byte list \<Rightarrow> (ubbconfig \<times> byte list) except" where
  "object_line section object c s =
     (case whitespace s of
        (_, s) \<Rightarrow>
          if section = bytes ''RESOURCES'' then resource_line object c s
          else bind_except (parse_params (\<lambda>_. None) s) (\<lambda>(ps, s). Inr (add_line section object ps c, s)))"

definition parse_line :: "byte list \<Rightarrow> ubbconfig \<Rightarrow> byte list \<Rightarrow> (bool \<times> byte list \<times> ubbconfig \<times> byte list) except" where
  "parse_line section c s =
     (case parse_till_eol s of
        (True, s) \<Rightarrow> Inr (True, section, c, s)
      | (False, s) \<Rightarrow>
          bind_except (parse_section s) (\<lambda>(sec, s).
            case sec of
              Some tmp \<Rightarrow> Inr (True, tmp, c, s)
            | None \<Rightarrow>
                bind_except (parameter s) (\<lambda>(object, s).
                  case object of
                    None \<Rightarrow> Inr (False, section, c, s)
                  | Some x \<Rightarrow> bind_except (object_line section x c s) (\<lambda>(c, s). Inr (True, section, c, s)))))"

lemma object_line_left: "object_line section x c s = Inr (d, t) \<Longrightarrow> length t \<le> length s"
  by (auto simp: object_line_def resource_line_def bind_except_def dest!: whitespace_left parse_params_left parameter_left eat_left
      split: prod.splits if_splits sum.splits option.splits bool.splits)

lemma parse_line_left: "parse_line section c s = Inr (True, section', d, t) \<Longrightarrow> length t < length s"
  by (auto simp: parse_line_def bind_except_def dest!: parse_till_eol_left parse_section_left parameter_left object_line_left
      split: prod.splits if_splits sum.splits option.splits bool.splits)

function parse_lines :: "byte list \<Rightarrow> ubbconfig \<Rightarrow> byte list \<Rightarrow> (ubbconfig \<times> byte list) except" where
  "parse_lines section c s =
     (case parse_line section c s of
        Inl e \<Rightarrow> Inl e
      | Inr (False, _, c, s) \<Rightarrow> Inr (c, s)
      | Inr (True, section, c, s) \<Rightarrow> parse_lines section c s)"
  by pat_completeness auto

termination
  by (relation "measure (\<lambda>(section, c, s). length s)") (auto dest: parse_line_left)

declare parse_lines.simps [simp del]

definition parse_ubb :: "byte list \<Rightarrow> ubbconfig except" where
  "parse_ubb s =
     bind_except (parse_lines [] new_ubbconfig s) (\<lambda>(c, s). if s \<noteq> [] then Inl Runtime_error else Inr c)"

subsection \<open>The sizes of a domain\<close>

text \<open>\<open>require\<close> of src/tmloadcf.cpp, the same function as \<open>checked_get\<close> with a default in src/ubb2mib.cpp.\<close>

definition in_limits :: "int \<Rightarrow> int \<Rightarrow> byte list \<Rightarrow> int except" where
  "in_limits lo hi v = bind_except (stol v) (\<lambda>n. if n < lo \<or> n > hi then Inl Out_of_range else Inr n)"

definition checked_get :: "ubb_params \<Rightarrow> byte list \<Rightarrow> int \<Rightarrow> int \<Rightarrow> int except" where
  "checked_get dict key lo hi = (case dict key of None \<Rightarrow> Inl Out_of_range | Some v \<Rightarrow> in_limits lo hi v)"

definition checked_get_or :: "ubb_params \<Rightarrow> byte list \<Rightarrow> int \<Rightarrow> int \<Rightarrow> int \<Rightarrow> int except" where
  "checked_get_or dict key lo hi defvalue = (case dict key of None \<Rightarrow> Inr defvalue | Some v \<Rightarrow> in_limits lo hi v)"

abbreviation (input) uint16 :: "int \<Rightarrow> nat" where "uint16 n \<equiv> nat (n mod 2 ^ 16)"
abbreviation (input) uint32 :: "int \<Rightarrow> nat" where "uint32 n \<equiv> nat (n mod 2 ^ 32)"

text \<open>The members of \<open>tuxconfig\<close> as \<open>main\<close> writes them: IPCKEY and the sizes, stored in 16 bits.\<close>

definition load_sizes :: "ubbconfig \<Rightarrow> (nat \<times> tuxconfig) except" where
  "load_sizes c =
     bind_except (case ub_resources c (bytes ''IPCKEY'') of None \<Rightarrow> Inl Out_of_range | Some v \<Rightarrow> stoi 10 v) (\<lambda>key.
     bind_except (checked_get_or (ub_resources c) (bytes ''MAXSERVERS'') 1 8192 50) (\<lambda>srv.
     bind_except (checked_get_or (ub_resources c) (bytes ''MAXSERVICES'') 1 1048575 100) (\<lambda>svc.
     bind_except (checked_get_or (ub_resources c) (bytes ''MAXGROUPS'') 1 32768 100) (\<lambda>grp.
     bind_except (checked_get_or (ub_resources c) (bytes ''MAXQUEUES'') 1 8192 50) (\<lambda>qs.
     bind_except (checked_get_or (ub_resources c) (bytes ''MAXACCESSERS'') 1 32768 100) (\<lambda>acc.
       Inr (uint32 key,
            \<lparr>maxservers = uint16 srv, maxservices = uint16 svc, maxqueues = uint16 qs, maxgroups = uint16 grp,
             maxaccessers = uint16 acc\<rparr>)))))))"

subsection \<open>Filling the shared tables\<close>

text \<open>
  What comes from outside: the variable TUXCONFIG, \<open>std::hash\<close>, \<open>rand\<close>, and the \<open>conf\<close> of the segment.
\<close>

record ubb_env =
  ue_TUXCONFIG :: "byte list option"
  ue_hash :: "byte list \<Rightarrow> 64 word"
  ue_rand :: int
  ue_ipckey :: nat
  ue_conf :: tuxconfig

definition at_param :: "byte list \<Rightarrow> ubb_params \<Rightarrow> byte list except" where
  "at_param k p = (case p k of None \<Rightarrow> Inl Out_of_range | Some v \<Rightarrow> Inr v)"

definition get_param :: "byte list \<Rightarrow> ubb_params \<Rightarrow> byte list" where
  "get_param k p = (case p k of None \<Rightarrow> [] | Some v \<Rightarrow> v)"

definition copy_mach ::
    "byte list except \<Rightarrow> (t_machine \<Rightarrow> byte list) \<Rightarrow> ((byte list \<Rightarrow> byte list) \<Rightarrow> t_machine \<Rightarrow> t_machine) \<Rightarrow>
     mibmem \<Rightarrow> unit except \<times> mibmem" where
  "copy_mach v get upd m =
     (case v of
        Inl e \<Rightarrow> (Inl e, m)
      | Inr src \<Rightarrow> (case copy_field src get upd (mach m) of (r, x) \<Rightarrow> (r, m\<lparr>mach := x\<rparr>)))"

definition copy_machine :: "byte list \<Rightarrow> ubb_params \<Rightarrow> mibmem \<Rightarrow> unit except \<times> mibmem" where
  "copy_machine name p m =
     seqx (copy_mach (Inr name) mach_address mach_address_update m) (\<lambda>_ m.
     seqx (copy_mach (at_param (bytes ''LMID'') p) mach_lmid mach_lmid_update m) (\<lambda>_ m.
     seqx (copy_mach (at_param (bytes ''TUXCONFIG'') p) mach_tuxconfig mach_tuxconfig_update m) (\<lambda>_ m.
     seqx (copy_mach (at_param (bytes ''TUXDIR'') p) mach_tuxdir mach_tuxdir_update m) (\<lambda>_ m.
     seqx (copy_mach (at_param (bytes ''APPDIR'') p) mach_appdir mach_appdir_update m) (\<lambda>_ m.
     seqx (copy_mach (Inr (get_param (bytes ''ULOGPFX'') p)) mach_ulogpfx mach_ulogpfx_update m) (\<lambda>_ m.
     copy_mach (Inr (get_param (bytes ''TLOGDEVICE'') p)) mach_tlogdevice mach_tlogdevice_update m))))))"

definition to_lower :: "byte \<Rightarrow> byte" where
  "to_lower c = (if 65 \<le> c \<and> c \<le> 90 then c + 32 else c)"

text \<open>
  The scan unit in milliseconds, as a text: \<open>compare\<close> is 0 when the last two characters are \<open>ms\<close>, and
  throws when there are not as many.
\<close>

definition scan_unit :: "byte list \<Rightarrow> byte list except" where
  "scan_unit unit =
     (let u = map to_lower unit
      in if length u < 2 then Inl Out_of_range
         else if drop (length u - 2) u \<noteq> bytes ''ms'' then Inr (take (length u - 2) u)
         else Inr (u @ bytes ''000''))"

definition or_text :: "byte list \<Rightarrow> byte list \<Rightarrow> byte list" where
  "or_text v d = (if v = [] then d else v)"

text \<open>The block time in milliseconds; a product that is no \<open>long\<close> has no meaning.\<close>

definition block_time :: "ubb_params \<Rightarrow> stop + int" where
  "block_time resources =
     (case scan_unit (or_text (get_param (bytes ''SCANUNIT'') resources) (bytes ''1000MS'')) of
        Inl e \<Rightarrow> Inl (Throw e)
      | Inr u \<Rightarrow>
          (case stol (or_text (get_param (bytes ''BLOCKTIME'') resources) (bytes ''15'')) of
             Inl e \<Rightarrow> Inl (Throw e)
           | Inr b \<Rightarrow>
               (case stol u of
                  Inl e \<Rightarrow> Inl (Throw e)
                | Inr s \<Rightarrow> if b * s < - (2 ^ 63) \<or> b * s \<ge> 2 ^ 63 then Inl Undefined else Inr (b * s))))"

text \<open>\<open>servers.at(m.make_server(...))\<close> and the assignments that follow it\<close>

definition configured_server ::
    "nat \<Rightarrow> nat \<Rightarrow> byte list \<Rightarrow> byte list \<Rightarrow> byte list \<Rightarrow> (mib_server \<Rightarrow> mib_server) \<Rightarrow> mibmem \<Rightarrow> unit except \<times> mibmem" where
  "configured_server sid grpno name opts rq f m =
     seqx (make_server sid grpno name opts rq m) (\<lambda>i m.
       case arr_at (servers m) i of Inl e \<Rightarrow> (Inl e, m) | Inr s \<Rightarrow> (Inr (), set_server i (f s) m))"

fun make_tms :: "nat \<Rightarrow> nat \<Rightarrow> byte list \<Rightarrow> nat \<Rightarrow> mibmem \<Rightarrow> unit except \<times> mibmem" where
  "make_tms 0 grpno name n m = (Inr (), m)"
| "make_tms (Suc left) grpno name n m =
     seqx (configured_server (30001 + n) grpno name (bytes ''-A'') (show_nat grpno @ bytes ''.TM'') (\<lambda>s. s\<lparr>autostart := True\<rparr>) m)
       (\<lambda>_ m. make_tms left grpno name (Suc n) m)"

text \<open>A group with its transaction managers; the result is its number.\<close>

definition configured_group :: "byte list \<times> ubb_params \<Rightarrow> mibmem \<Rightarrow> nat except \<times> mibmem" where
  "configured_group conf m =
     (case conf of
        (name, p) \<Rightarrow>
          (case checked_get p (bytes ''GRPNO'') 1 30000 of
             Inl e \<Rightarrow> (Inl e, m)
           | Inr n \<Rightarrow>
               let grpno = uint16 n; tms = get_param (bytes ''TMSNAME'') p in
               seqx (make_group grpno name (get_param (bytes ''OPENINFO'') p) (get_param (bytes ''CLOSEINFO'') p) tms m) (\<lambda>i m.
               case arr_at (groups m) i of
                 Inl e \<Rightarrow> (Inl e, m)
               | Inr _ \<Rightarrow>
                   if tms = [] then (Inr grpno, m)
                   else (case checked_get_or p (bytes ''TMSCOUNT'') 2 10 3 of
                     Inl e \<Rightarrow> (Inl e, m)
                   | Inr count \<Rightarrow> seqx (make_tms (nat count) grpno tms 0 m) (\<lambda>_ m. (Inr grpno, m))))))"

type_synonym group_ids = "byte list \<Rightarrow> nat option"

fun configured_groups :: "ubb_section \<Rightarrow> group_ids \<Rightarrow> mibmem \<Rightarrow> group_ids except \<times> mibmem" where
  "configured_groups [] ids m = (Inr ids, m)"
| "configured_groups (g # gs) ids m =
     seqx (configured_group g m) (\<lambda>n m. configured_groups gs (ids(fst g \<mapsto> n)) m)"

text \<open>The servers of one line: \<open>max\<close> of them, of which the first \<open>min\<close> start with the domain.\<close>

record server_conf =
  sc_name :: "byte list"
  sc_params :: ubb_params
  sc_base :: int
  sc_min :: int
  sc_minthreads :: int
  sc_maxthreads :: int
  sc_grpno :: nat

fun make_servers :: "server_conf \<Rightarrow> nat \<Rightarrow> nat \<Rightarrow> mibmem \<Rightarrow> unit except \<times> mibmem" where
  "make_servers c 0 n m = (Inr (), m)"
| "make_servers c (Suc left) n m =
     (let sid = sc_base c + int n;
          addr = get_param (bytes ''RQADDR'') (sc_params c);
          rq = (if addr = [] then show_nat (sc_grpno c) @ bytes ''.'' @ show_int sid else addr)
      in seqx (configured_server (uint16 sid) (sc_grpno c) (sc_name c) (get_param (bytes ''CLOPT'') (sc_params c)) rq
           (\<lambda>s. s\<lparr>autostart := int n < sc_min c, mindispatchthreads := uint16 (sc_minthreads c),
                  maxdispatchthreads := uint16 (sc_maxthreads c)\<rparr>) m)
           (\<lambda>_ m. make_servers c left (Suc n) m))"

definition server_line :: "group_ids \<Rightarrow> byte list \<times> ubb_params \<Rightarrow> (server_conf \<times> int) except" where
  "server_line ids conf =
     (case conf of
        (name, p) \<Rightarrow>
          bind_except (checked_get p (bytes ''SRVID'') 1 30000) (\<lambda>base.
          bind_except (checked_get_or p (bytes ''MIN'') 1 1000 1) (\<lambda>lo.
          bind_except (checked_get_or p (bytes ''MAX'') 1 1000 1) (\<lambda>hi.
          bind_except (checked_get_or p (bytes ''MINDISPATCHTHREADS'') 1 1000 1) (\<lambda>lothr.
          bind_except (checked_get_or p (bytes ''MAXDISPATCHTHREADS'') 1 1000 1) (\<lambda>hithr.
          bind_except (at_param (bytes ''SRVGRP'') p) (\<lambda>grp.
            case ids grp of
              None \<Rightarrow> Inl Out_of_range
            | Some grpno \<Rightarrow>
                Inr (\<lparr>sc_name = name, sc_params = p, sc_base = base, sc_min = lo, sc_minthreads = lothr,
                      sc_maxthreads = hithr, sc_grpno = grpno\<rparr>, hi))))))))"

fun configured_servers :: "ubb_section \<Rightarrow> group_ids \<Rightarrow> mibmem \<Rightarrow> unit except \<times> mibmem" where
  "configured_servers [] ids m = (Inr (), m)"
| "configured_servers (conf # confs) ids m =
     (case server_line ids conf of
        Inl e \<Rightarrow> (Inl e, m)
      | Inr (c, count) \<Rightarrow> seqx (make_servers c (nat count) 0 m) (\<lambda>_ m. configured_servers confs ids m))"

definition fill_domain :: "ubb_env \<Rightarrow> mibmem \<Rightarrow> mibmem" where
  "fill_domain env m =
     m\<lparr>domain_info := (domain_info m)\<lparr>dom_ipckey := ue_ipckey env, dom_maxservers := maxservers (ue_conf env),
        dom_maxservices := maxservices (ue_conf env), dom_maxqueues := maxqueues (ue_conf env),
        dom_maxgroups := maxgroups (ue_conf env), dom_maxaccessers := maxaccessers (ue_conf env)\<rparr>\<rparr>"

definition fill_tables :: "ubbconfig \<Rightarrow> mibmem \<Rightarrow> unit except \<times> mibmem" where
  "fill_tables u m =
     seqx (configured_server 0 0 (bytes ''BBL'') (bytes ''-A'') (bytes ''.BBL'') (\<lambda>s. s\<lparr>autostart := True\<rparr>) m) (\<lambda>_ m.
     seqx (configured_groups (ub_groups u) (\<lambda>_. None) m) (\<lambda>ids m.
     configured_servers (ub_servers u) ids m))"

definition thrown :: "'a except \<times> 's \<Rightarrow> ('a, 's) call" where
  "thrown r = (case r of (Inl e, s) \<Rightarrow> (Inl (Throw e), s) | (Inr x, s) \<Rightarrow> (Inr x, s))"

definition ubb2mib :: "ubb_env \<Rightarrow> ubbconfig \<Rightarrow> mibmem \<Rightarrow> (unit, mibmem) call" where
  "ubb2mib env u m =
     (case ub_machines u of
        [(name, p)] \<Rightarrow>
          (case (at_param (bytes ''TUXCONFIG'') p, ue_TUXCONFIG env) of
             (Inl e, _) \<Rightarrow> (Inl (Throw e), m)
           | (Inr _, None) \<Rightarrow> (Inl Undefined, m)
           | (Inr t, Some t') \<Rightarrow>
               if t \<noteq> t' then (Inl (Throw Logic_error), m)
               else
                 seqx (thrown (copy_machine name p
                   (m\<lparr>host := ucast (ue_hash env name), counter := word_of_int (ue_rand env)\<rparr>))) (\<lambda>_ m.
                 case block_time (ub_resources u) of
                   Inl e \<Rightarrow> (Inl e, m)
                 | Inr b \<Rightarrow> thrown (fill_tables u (fill_domain env (m\<lparr>mach := (mach m)\<lparr>mach_blocktime := b\<rparr>\<rparr>)))))
      | _ \<Rightarrow> (Inl (Throw Logic_error), m))"

end
