(* ===== verification/Ubb_Props.thy ===== *)
theory Ubb_Props
  imports Ubb
begin

text \<open>
  What src/ubb2mib.cpp leaves in the shared tables: the servers and groups a configuration declares, in its
  order.
\<close>

subsection \<open>Queues\<close>

definition queue_names :: "mibmem \<Rightarrow> byte list list" where
  "queue_names m = map (\<lambda>q. c_string (rqaddr q)) (used (queues m))"

lemma length_queue_names: "mib_ok m \<Longrightarrow> length (queue_names m) = arr_len (queues m)"
  by (simp add: queue_names_def mib_ok_arrays)

lemma make_queue_added:
  assumes "slots_ok queue_zero (queues m)" "make_queue rq m = (Inr q, m')" "0 \<notin> set rq"
  shows "\<exists>qs. m' = m\<lparr>queues := qs\<rparr> \<and> slots_ok queue_zero qs \<and> q = arr_len (queues m) \<and> arr_len qs = Suc q \<and>
    arr_size qs = arr_size (queues m) \<and> queue_names m' = queue_names m @ [rq]"
proof -
  let ?a = "queues m" and ?z = "arr_data (queues m) ! arr_len (queues m)"
  obtain qs where e: "emplace (fill_queue rq) ?a = (Inr q, qs)" and m': "m' = m\<lparr>queues := qs\<rparr>"
    using assms(2) by (auto simp: make_queue_def split: sum.splits if_splits prod.splits)
  obtain x where room: "arr_len ?a < arr_size ?a" and x: "fill_queue rq ?z = (Inr (), x)"
    using emplace_success [OF e] by blast
  note z = next_slot [OF assms(1) room]
  have "rqaddr x = rq @ replicate (32 - length rq) 0"
    using x fill_queue_ok(1) [OF z fill_queue_ok(2) [OF z x]] by auto
  then have name: "c_string (rqaddr x) = rq" using name_field [OF assms(3)] by simp
  have q: "q = arr_len ?a" "qs = (arr_put (arr_len ?a) x ?a)\<lparr>arr_len := arr_len ?a + 1\<rparr>"
    using e emplace_fits [of ?a "fill_queue rq", OF room x] by auto
  note app = append_slot [OF assms(1) room, of x, folded q(2)]
  show ?thesis using m' q(1) app name by (intro exI [of _ qs]) (simp add: queue_names_def)
qed

lemma find_queue_hit:
  assumes "arr_ok (queues m)" "find_queue rq m = Inr q" "q \<noteq> badoff"
  shows "q < arr_len (queues m) \<and> queue_names m ! q = rq"
proof -
  have "q < arr_len (queues m) \<and> rq = c_string (rqaddr (used (queues m) ! q))"
    using arr_find_hit [OF assms(1) _ assms(3)] assms(2) unfolding find_queue_def by blast
  then show ?thesis using assms(1) by (simp add: queue_names_def)
qed

lemma queue_of_server_added:
  assumes "mib_ok m" "queue_of_server rq n (m\<lparr>servers := arr_put n x (servers m)\<rparr>) = (Inr q, m')" "0 \<notin> set rq"
    and "n < arr_size (servers m)"
  shows "\<exists>qs ext. m' = m\<lparr>servers := arr_put n (x\<lparr>srv_rqaddr := q\<rparr>) (servers m), queues := qs\<rparr> \<and>
    slots_ok queue_zero qs \<and> q < arr_len qs \<and> arr_len qs \<le> Suc (arr_len (queues m)) \<and> arr_size qs = arr_size (queues m) \<and>
    queue_names m' = queue_names m @ ext \<and> queue_names m' ! q = rq"
proof -
  note oks = mib_ok_arrays [OF assms(1)]
  have n: "n < length (arr_data (servers m))" using assms(4) oks(7) by (simp add: arr_ok_def)
  obtain i where i: "find_queue rq m = Inr i" using queue_table.lookup_total [OF assms(1)] by blast
  note put = set_server_def arr_put_def n
  show ?thesis
  proof (cases "i = badoff")
    case False
    then have "i < arr_len (queues m)" "queue_names m ! i = rq" using find_queue_hit [OF oks(8) i] by auto
    then show ?thesis
      using assms(2) i False oks(3)
      by (intro exI [of _ "queues m"] exI [of _ "[]"])
        (auto simp: queue_of_server_def find_queue_servers put Let_def queue_names_def)
  next
    case True
    have mq: "make_queue rq (m\<lparr>servers := s\<rparr>) = (fst (make_queue rq m), (snd (make_queue rq m))\<lparr>servers := s\<rparr>)" for s
      by (rule make_queue_servers)
    obtain q1 m1 where one: "make_queue rq m = (Inr q1, m1)"
      using assms(2) True i by (cases "make_queue rq m"; cases "fst (make_queue rq m)")
        (auto simp: queue_of_server_def find_queue_servers put Let_def mq)
    obtain qs where qs: "m1 = m\<lparr>queues := qs\<rparr>" "slots_ok queue_zero qs" "q1 = arr_len (queues m)"
      "arr_len qs = Suc q1" "arr_size qs = arr_size (queues m)" "queue_names m1 = queue_names m @ [rq]"
      using make_queue_added [OF oks(3) one assms(3)] by blast
    have "q = q1" "m' = m\<lparr>servers := arr_put n (x\<lparr>srv_rqaddr := q\<rparr>) (servers m), queues := qs\<rparr>"
      using assms(2) True i one qs(1) by (auto simp: queue_of_server_def find_queue_servers put Let_def mq)
    moreover have "queue_names (m\<lparr>servers := s, queues := qs\<rparr>) = queue_names m1" for s
      by (simp add: queue_names_def qs(1))
    ultimately show ?thesis using qs length_queue_names [OF assms(1)]
      by (intro exI [of _ qs] exI [of _ "[rq]"]) (simp add: nth_append)
  qed
qed

subsection \<open>Servers\<close>

record declared_server =
  ds_id :: nat
  ds_grpno :: nat
  ds_name :: "byte list"
  ds_opts :: "byte list"
  ds_addr :: "byte list"
  ds_autostart :: bool
  ds_threads :: "(nat \<times> nat) option"

text \<open>A slot of the table is what was declared; the address is that of its queue.\<close>

definition described :: "byte list list \<Rightarrow> mib_server \<Rightarrow> declared_server \<Rightarrow> bool" where
  "described qs s d \<longleftrightarrow> srvid s = ds_id d \<and> srv_grpno s = ds_grpno d \<and> c_string (servername s) = ds_name d \<and>
     c_string (clopt s) = ds_opts d \<and> srv_rqaddr s < length qs \<and> qs ! srv_rqaddr s = ds_addr d \<and>
     autostart s = ds_autostart d \<and>
     (case ds_threads d of None \<Rightarrow> True | Some (a, b) \<Rightarrow> mindispatchthreads s = a \<and> maxdispatchthreads s = b)"

definition pair_of :: "declared_server \<Rightarrow> nat \<times> nat" where
  "pair_of d = (ds_id d, ds_grpno d)"

definition loaded :: "mibmem \<Rightarrow> declared_server list \<Rightarrow> bool" where
  "loaded m ds \<longleftrightarrow> mib_ok m \<and> list_all2 (described (queue_names m)) (used (servers m)) ds \<and> distinct (map pair_of ds)"

definition free_slots :: "nat \<Rightarrow> mibmem \<Rightarrow> bool" where
  "free_slots k m \<longleftrightarrow> arr_len (servers m) + k \<le> arr_size (servers m) \<and> arr_len (queues m) + k \<le> arr_size (queues m)"

lemma described_more: "described qs s d \<Longrightarrow> described (qs @ ext) s d"
  by (auto simp: described_def nth_append)

text \<open>The assignments after \<open>make_server\<close> leave the other members alone.\<close>

definition settings_only :: "(mib_server \<Rightarrow> mib_server) \<Rightarrow> bool" where
  "settings_only f \<longleftrightarrow> (\<forall>s. srvid (f s) = srvid s \<and> srv_grpno (f s) = srv_grpno s \<and> servername (f s) = servername s \<and>
     clopt (f s) = clopt s \<and> srv_rqaddr (f s) = srv_rqaddr s)"

lemma fill_server_text:
  assumes "server_zero z" "fill_server sid gno name opts z = (Inr (), x)" "0 \<notin> set name" "0 \<notin> set opts"
  shows "srvid x = sid" "srv_grpno x = gno" "c_string (servername x) = name" "c_string (clopt x) = opts"
  using assms by (auto simp: fill_server_def server_zero_def copy_field_def checked_copy_def name_field split: if_splits)

lemma put_last:
  assumes "arr_len b = Suc n" "n < length (arr_data b)"
  shows "used (arr_put n y b) = take n (arr_data b) @ [y]"
  using assms by (simp add: used_def take_Suc_conv_app_nth)

lemma configured_server_added:
  assumes run: "configured_server sid gno name opts rq f m = (Inr (), m')" and old: "loaded m ds"
    and no_nul: "0 \<notin> set rq" "0 \<notin> set name" "0 \<notin> set opts" and f: "settings_only f"
    and d: "ds_id d = sid" "ds_grpno d = gno" "ds_name d = name" "ds_opts d = opts" "ds_addr d = rq"
      "\<forall>s. autostart (f s) = ds_autostart d \<and> (case ds_threads d of None \<Rightarrow> True
         | Some (a, b) \<Rightarrow> mindispatchthreads (f s) = a \<and> maxdispatchthreads (f s) = b)"
  shows "loaded m' (ds @ [d]) \<and> groups m' = groups m \<and> mach m' = mach m \<and> domain_info m' = domain_info m \<and>
    (\<forall>k. free_slots (Suc k) m \<longrightarrow> free_slots k m')"
proof -
  have ok: "mib_ok m" using old by (simp add: loaded_def)
  note oks = mib_ok_arrays [OF ok]
  let ?n = "arr_len (servers m)"
  obtain i m1 s where make: "make_server sid gno name opts rq m = (Inr i, m1)"
    and s: "arr_at (servers m1) i = Inr s" and m': "m' = set_server i (f s) m1"
    using run by (auto simp: configured_server_def seqx_def split: prod.splits sum.splits)
  have new: "find_server sid gno m = Inr badoff"
    using make by (auto simp: make_server_def split: sum.splits if_splits)
  have room: "?n < arr_size (servers m)"
    using make new by (auto simp: make_server_def arr_at_def Let_def split: if_splits)
  obtain x where x: "fill_server sid gno name opts (arr_data (servers m) ! ?n) = (Inr (), x)"
    using make new room by (auto simp: make_server_def arr_at_def Let_def split: sum.splits prod.splits)
  note xs = fill_server_text [OF next_slot [OF oks(2) room] x no_nul(2,3)]
  define go where "go = (\<lambda>q m. case arr_at (queues m) q of Inl e \<Rightarrow> (Inl e, m)
    | Inr x \<Rightarrow> (Inr ?n, (set_queue q (x\<lparr>servercnt := servercnt x + 1, server_idx := ?n\<rparr>) m)
        \<lparr>servers := (servers m)\<lparr>arr_len := ?n + 1\<rparr>\<rparr>))"
  have eq: "make_server sid gno name opts rq m = seqx (queue_of_server rq ?n (m\<lparr>servers := arr_put ?n x (servers m)\<rparr>)) go"
    using new room x by (simp add: make_server_def arr_at_def Let_def set_server_def go_def)
  obtain q m2 where q: "queue_of_server rq ?n (m\<lparr>servers := arr_put ?n x (servers m)\<rparr>) = (Inr q, m2)"
    and m1_go: "go q m2 = (Inr i, m1)"
    using make unfolding eq seqx_def by (auto split: prod.splits sum.splits)
  obtain qs ext where m2: "m2 = m\<lparr>servers := arr_put ?n (x\<lparr>srv_rqaddr := q\<rparr>) (servers m), queues := qs\<rparr>"
    "slots_ok queue_zero qs" "q < arr_len qs" "queue_names m2 = queue_names m @ ext" "queue_names m2 ! q = rq"
    and sizes: "arr_len qs \<le> Suc (arr_len (queues m))" "arr_size qs = arr_size (queues m)"
    using queue_of_server_added [OF ok q no_nul(1) room] by blast
  define y where "y = (arr_data qs ! q)\<lparr>servercnt := servercnt (arr_data qs ! q) + 1, server_idx := ?n\<rparr>"
  define b where "b = (arr_put ?n (x\<lparr>srv_rqaddr := q\<rparr>) (servers m))\<lparr>arr_len := ?n + 1\<rparr>"
  have at: "q < arr_size qs" using m2(2,3) by (auto simp: slots_ok_def arr_ok_def)
  have m1: "i = ?n" "m1 = m\<lparr>servers := b, queues := arr_put q y qs\<rparr>"
    using m1_go at by (auto simp add: go_def m2(1) arr_at_def set_queue_def y_def b_def)
  note app = append_slot [OF oks(2) room, of "x\<lparr>srv_rqaddr := q\<rparr>", folded b_def]
  have len: "?n < length (arr_data (servers m))" using room oks(7) by (simp add: arr_ok_def)
  have s_is: "s = x\<lparr>srv_rqaddr := q\<rparr>"
    using s m1 room len by (auto simp: arr_at_def b_def split: if_splits)
  define b' where "b' = arr_put ?n (f s) b"
  have b': "slots_ok server_zero b'" "used b' = used (servers m) @ [f s]"
    using slots_ok_put [OF app(1), of ?n "f s"] app(3) used_put [OF slots_okD [OF app(1)], of ?n "f s"] app(2) oks(7)
    by (simp_all add: b'_def list_update_append)
  have m'_is: "m' = m\<lparr>servers := b', queues := arr_put q y qs\<rparr>" by (simp add: m' m1 set_server_def b'_def)
  have names: "queue_names m' = queue_names m2"
  proof -
    let ?f = "\<lambda>q. c_string (rqaddr q)"
    have "?f y = ?f (used qs ! q)" using m2(3) by (simp add: y_def used_nth)
    moreover have "map ?f ((used qs)[q := y]) = (map ?f (used qs))[q := ?f y]" by (rule map_update)
    moreover have "(map ?f (used qs))[q := ?f (used qs ! q)] = map ?f (used qs)"
    proof -
      have "?f (used qs ! q) = map ?f (used qs) ! q" using m2(3) slots_okD [OF m2(2)] by simp
      then show ?thesis by (simp only: list_update_id)
    qed
    moreover have "queues m' = arr_put q y qs" "queues m2 = qs" by (simp_all add: m'_is m2(1))
    ultimately show ?thesis unfolding queue_names_def by (simp only: used_put [OF slots_okD [OF m2(2)]])
  qed
  have ok': "mib_ok m'" using ok b'(1) slots_ok_put [OF m2(2,3), of y] by (simp add: mib_ok_def m'_is)
  have "described (queue_names m') (f s) d"
    using xs f d m2(3,5) slots_okD [OF m2(2)] names
    by (auto simp: described_def s_is settings_only_def queue_names_def m2(1))
  moreover have "list_all2 (described (queue_names m')) (used (servers m)) ds"
    using old unfolding loaded_def names m2(4) by (auto intro: list_all2_mono described_more)
  moreover have "pair_of d \<notin> pair_of ` set ds"
  proof
    assume "pair_of d \<in> pair_of ` set ds"
    then obtain k where k: "k < length ds" "pair_of (ds ! k) = (sid, gno)"
      using d(1,2) by (auto simp: in_set_conv_nth pair_of_def)
    then have "described (queue_names m) (used (servers m) ! k) (ds ! k)" "k < length (used (servers m))"
      using old by (auto simp: loaded_def list_all2_conv_all_nth)
    moreover have "srvid (used (servers m) ! k) = sid \<and> srv_grpno (used (servers m) ! k) = gno"
      using calculation(1) k(2) by (simp add: described_def pair_of_def)
    ultimately have "\<exists>s \<in> set (used (servers m)). srvid s = sid \<and> srv_grpno s = gno"
      using nth_mem by blast
    moreover have "\<forall>s \<in> set (used (servers m)). \<not> (srvid s = sid \<and> srv_grpno s = gno)"
      using new unfolding find_server_def arr_find_miss [OF oks(7)] .
    ultimately show False by blast
  qed
  moreover have "free_slots k m'" if "free_slots (Suc k) m" for k
    using that sizes app(3,4) by (simp add: free_slots_def m'_is b'_def)
  ultimately show ?thesis using old b'(2) ok'
    by (simp add: loaded_def m'_is list_all2_appendI)
qed

subsection \<open>What a configuration declares\<close>

definition tms_server :: "nat \<Rightarrow> byte list \<Rightarrow> nat \<Rightarrow> declared_server" where
  "tms_server gno name n =
     \<lparr>ds_id = 30001 + n, ds_grpno = gno, ds_name = name, ds_opts = bytes ''-A'', ds_addr = show_nat gno @ bytes ''.TM'',
      ds_autostart = True, ds_threads = None\<rparr>"

definition bbl_server :: declared_server where
  "bbl_server =
     \<lparr>ds_id = 0, ds_grpno = 0, ds_name = bytes ''BBL'', ds_opts = bytes ''-A'', ds_addr = bytes ''.BBL'',
      ds_autostart = True, ds_threads = None\<rparr>"

definition group_no :: "ubb_params \<Rightarrow> nat" where
  "group_no p = (case checked_get p (bytes ''GRPNO'') 1 30000 of Inr n \<Rightarrow> nat n | Inl _ \<Rightarrow> 0)"

definition tms_count :: "ubb_params \<Rightarrow> nat" where
  "tms_count p = (case checked_get_or p (bytes ''TMSCOUNT'') 2 10 3 of Inr n \<Rightarrow> nat n | Inl _ \<Rightarrow> 0)"

definition group_servers :: "byte list \<times> ubb_params \<Rightarrow> declared_server list" where
  "group_servers conf =
     (case conf of
        (name, p) \<Rightarrow>
          if get_param (bytes ''TMSNAME'') p = [] then []
          else map (tms_server (group_no p) (get_param (bytes ''TMSNAME'') p)) [0..<tms_count p])"

definition declared :: "server_conf \<Rightarrow> nat \<Rightarrow> declared_server" where
  "declared c n =
     \<lparr>ds_id = nat (sc_base c) + n, ds_grpno = sc_grpno c, ds_name = sc_name c,
      ds_opts = get_param (bytes ''CLOPT'') (sc_params c),
      ds_addr = (if get_param (bytes ''RQADDR'') (sc_params c) \<noteq> [] then get_param (bytes ''RQADDR'') (sc_params c)
                 else show_nat (sc_grpno c) @ bytes ''.'' @ show_nat (nat (sc_base c) + n)),
      ds_autostart = int n < sc_min c, ds_threads = Some (nat (sc_minthreads c), nat (sc_maxthreads c))\<rparr>"

definition line_servers :: "group_ids \<Rightarrow> byte list \<times> ubb_params \<Rightarrow> declared_server list" where
  "line_servers ids conf = (case server_line ids conf of Inr (c, count) \<Rightarrow> map (declared c) [0..<nat count] | Inl _ \<Rightarrow> [])"

definition numbers_of :: "ubb_section \<Rightarrow> group_ids" where
  "numbers_of gs = map_of (rev (map (\<lambda>(n, p). (n, group_no p)) gs))"

definition declared_servers :: "ubbconfig \<Rightarrow> declared_server list" where
  "declared_servers u =
     bbl_server # concat (map group_servers (ub_groups u)) @
     concat (map (line_servers (numbers_of (ub_groups u))) (ub_servers u))"

definition group_described :: "mib_group \<Rightarrow> byte list \<times> ubb_params \<Rightarrow> bool" where
  "group_described g conf \<longleftrightarrow>
     (case conf of
        (name, p) \<Rightarrow> grp_grpno g = group_no p \<and> c_string (srvgrp g) = name \<and>
          c_string (openinfo g) = get_param (bytes ''OPENINFO'') p \<and> c_string (closeinfo g) = get_param (bytes ''CLOSEINFO'') p \<and>
          c_string (tmsname g) = get_param (bytes ''TMSNAME'') p)"

text \<open>Texts without NUL.\<close>

definition text_section :: "ubb_section \<Rightarrow> bool" where
  "text_section s \<longleftrightarrow> (\<forall>(name, p) \<in> set s. 0 \<notin> set name \<and> (\<forall>k v. p k = Some v \<longrightarrow> 0 \<notin> set v))"

lemma text_get: "\<forall>k v. p k = Some v \<longrightarrow> 0 \<notin> set v \<Longrightarrow> 0 \<notin> set (get_param k p)"
  by (auto simp: get_param_def split: option.splits)

lemma number_text: "0 \<notin> set (show_nat n)"
  using show_nat_digits [of n] by (auto simp: is_digit_def)

lemma in_limits_range: "in_limits lo hi v = Inr n \<Longrightarrow> lo \<le> n \<and> n \<le> hi"
  by (auto simp: in_limits_def bind_except_def split: sum.splits if_splits)

lemma checked_get_range: "checked_get p k lo hi = Inr n \<Longrightarrow> lo \<le> n \<and> n \<le> hi"
  by (auto simp: checked_get_def dest: in_limits_range split: option.splits)

lemma checked_get_or_range:
  "checked_get_or p k lo hi d = Inr n \<Longrightarrow> lo \<le> d \<Longrightarrow> d \<le> hi \<Longrightarrow> lo \<le> n \<and> n \<le> hi"
  by (auto simp: checked_get_or_def dest: in_limits_range split: option.splits)

subsection \<open>Loading it\<close>

definition only_servers :: "mibmem \<Rightarrow> mibmem \<Rightarrow> bool" where
  "only_servers m m' \<longleftrightarrow> groups m' = groups m \<and> mach m' = mach m \<and> domain_info m' = domain_info m"

lemma only_servers_refl [simp]: "only_servers m m"
  by (simp add: only_servers_def)

lemma only_servers_trans: "only_servers m m1 \<Longrightarrow> only_servers m1 m2 \<Longrightarrow> only_servers m m2"
  by (simp add: only_servers_def)

lemma bytes_text [simp]: "0 \<notin> set (bytes ''BBL'')" "0 \<notin> set (bytes ''-A'')" "0 \<notin> set (bytes ''.BBL'')"
  "0 \<notin> set (bytes ''.TM'')" "0 \<notin> set (bytes ''.'')"
  by (simp_all add: bytes_simps)

lemma settings [simp]:
  "settings_only (\<lambda>s. s\<lparr>autostart := a\<rparr>)"
  "settings_only (\<lambda>s. s\<lparr>autostart := a, mindispatchthreads := b, maxdispatchthreads := c\<rparr>)"
  by (simp_all add: settings_only_def)

lemma seqx_okE:
  assumes "seqx r f = (Inr a, s)"
  obtains b s1 where "r = (Inr b, s1)" "f b s1 = (Inr a, s)"
  using assms by (auto simp: seqx_def split: prod.splits sum.splits)

lemma seqx_unitE:
  assumes "seqx r f = (Inr a, s)"
  obtains s1 where "r = (Inr (), s1)" "f () s1 = (Inr a, s)"
  using assms by (auto simp: seqx_def split: prod.splits sum.splits)

lemma upt_step: "[n..<n + Suc l] = n # [Suc n..<Suc n + l]"
  by (simp add: upt_conv_Cons del: upt_Suc)

lemma make_tms_loaded:
  "make_tms left gno name n m = (Inr (), m') \<Longrightarrow> loaded m ds \<Longrightarrow> 0 \<notin> set name \<Longrightarrow>
   loaded m' (ds @ map (tms_server gno name) [n..<n + left]) \<and> only_servers m m'"
proof (induction left arbitrary: n m ds)
  case (Suc left)
  obtain m1 where one: "configured_server (30001 + n) gno name (bytes ''-A'') (show_nat gno @ bytes ''.TM'') (\<lambda>s. s\<lparr>autostart := True\<rparr>) m = (Inr (), m1)"
    and rest: "make_tms left gno name (Suc n) m1 = (Inr (), m')"
    using Suc.prems(1) by (auto simp: seqx_def split: prod.splits sum.splits)
  have "loaded m1 (ds @ [tms_server gno name n]) \<and> only_servers m m1"
    using configured_server_added [OF one Suc.prems(2), of "tms_server gno name n"] Suc.prems(3) number_text
    by (simp add: tms_server_def only_servers_def)
  with Suc.IH [OF rest, of "ds @ [tms_server gno name n]"] Suc.prems(3) show ?case
    unfolding upt_step by (auto intro: only_servers_trans simp del: upt_Suc)
qed simp

lemma make_servers_loaded:
  "make_servers c left n m = (Inr (), m') \<Longrightarrow> loaded m ds \<Longrightarrow> 0 \<notin> set (sc_name c) \<Longrightarrow>
   (\<forall>k v. sc_params c k = Some v \<longrightarrow> 0 \<notin> set v) \<Longrightarrow> 0 \<le> sc_base c \<Longrightarrow> sc_base c + int (n + left) < 2 ^ 16 \<Longrightarrow>
   0 \<le> sc_minthreads c \<and> sc_minthreads c < 2 ^ 16 \<Longrightarrow> 0 \<le> sc_maxthreads c \<and> sc_maxthreads c < 2 ^ 16 \<Longrightarrow>
   loaded m' (ds @ map (declared c) [n..<n + left]) \<and> only_servers m m'"
proof (induction left arbitrary: n m ds)
  case (Suc left)
  let ?addr = "get_param (bytes ''RQADDR'') (sc_params c)"
  let ?rq = "if ?addr = [] then show_nat (sc_grpno c) @ bytes ''.'' @ show_int (sc_base c + int n) else ?addr"
  let ?f = "\<lambda>s. s\<lparr>autostart := int n < sc_min c, mindispatchthreads := uint16 (sc_minthreads c), maxdispatchthreads := uint16 (sc_maxthreads c)\<rparr>"
  obtain m1 where one: "configured_server (uint16 (sc_base c + int n)) (sc_grpno c) (sc_name c) (get_param (bytes ''CLOPT'') (sc_params c)) ?rq ?f m = (Inr (), m1)"
    and rest: "make_servers c left (Suc n) m1 = (Inr (), m')"
    using Suc.prems(1) unfolding make_servers.simps Let_def by (rule seqx_unitE)
  have sid: "(sc_base c + int n) mod 2 ^ 16 = sc_base c + int n" using Suc.prems(5,6) by simp
  have thr: "sc_minthreads c mod 2 ^ 16 = sc_minthreads c" "sc_maxthreads c mod 2 ^ 16 = sc_maxthreads c"
    using Suc.prems(7,8) by simp_all
  have num: "show_int (sc_base c + int n) = show_nat (nat (sc_base c) + n)"
    using Suc.prems(5) by (simp add: show_int_def nat_add_distrib)
  have rq: "?rq = ds_addr (declared c n)" by (simp add: declared_def num)
  have no_nul: "0 \<notin> set ?rq" "0 \<notin> set (get_param (bytes ''CLOPT'') (sc_params c))"
    using text_get [OF Suc.prems(4)] number_text by (auto simp: num)
  have ids: "ds_id (declared c n) = uint16 (sc_base c + int n)"
    unfolding sid using Suc.prems(5) by (simp add: declared_def nat_add_distrib)
  have threads: "ds_threads (declared c n) = Some (uint16 (sc_minthreads c), uint16 (sc_maxthreads c))"
    unfolding thr by (simp add: declared_def)
  have "loaded m1 (ds @ [declared c n]) \<and> groups m1 = groups m \<and> mach m1 = mach m \<and> domain_info m1 = domain_info m \<and>
      (\<forall>k. free_slots (Suc k) m \<longrightarrow> free_slots k m1)"
    by (rule configured_server_added [OF one Suc.prems(2) no_nul(1) Suc.prems(3) no_nul(2) settings(2)])
      (simp_all only: ids threads rq [symmetric], simp_all add: declared_def)
  then have "loaded m1 (ds @ [declared c n]) \<and> only_servers m m1" by (simp add: only_servers_def)
  with Suc.IH [OF rest, of "ds @ [declared c n]"] Suc.prems(3-8) show ?case
    unfolding upt_step by (auto intro: only_servers_trans simp del: upt_Suc)
qed simp

definition groups_loaded :: "mibmem \<Rightarrow> ubb_section \<Rightarrow> bool" where
  "groups_loaded m gs \<longleftrightarrow> list_all2 group_described (used (groups m)) gs"

lemma fill_group_text:
  assumes "group_zero z" "fill_group gno name oi ci tms z = (Inr (), x)"
    and "0 \<notin> set name" "0 \<notin> set oi" "0 \<notin> set ci" "0 \<notin> set tms"
  shows "grp_grpno x = gno" "c_string (srvgrp x) = name" "c_string (openinfo x) = oi" "c_string (closeinfo x) = ci"
    "c_string (tmsname x) = tms"
  using assms by (auto simp: fill_group_def group_zero_def copy_field_def checked_copy_def name_field split: if_splits)

lemma make_group_added:
  assumes "slots_ok group_zero (groups m)" "make_group gno name oi ci tms m = (Inr i, m')"
    and "0 \<notin> set name" "0 \<notin> set oi" "0 \<notin> set ci" "0 \<notin> set tms"
  shows "\<exists>gs g. m' = m\<lparr>groups := gs\<rparr> \<and> slots_ok group_zero gs \<and> used gs = used (groups m) @ [g] \<and>
    arr_len gs = Suc (arr_len (groups m)) \<and> arr_size gs = arr_size (groups m) \<and> grp_grpno g = gno \<and> c_string (srvgrp g) = name \<and> c_string (openinfo g) = oi \<and> c_string (closeinfo g) = ci \<and>
    c_string (tmsname g) = tms"
proof -
  let ?a = "groups m"
  obtain gs where e: "emplace (fill_group gno name oi ci tms) ?a = (Inr i, gs)" and m': "m' = m\<lparr>groups := gs\<rparr>"
    using assms(2) by (auto simp: make_group_def split: sum.splits if_splits prod.splits)
  obtain x where room: "arr_len ?a < arr_size ?a"
    and x: "fill_group gno name oi ci tms (arr_data ?a ! arr_len ?a) = (Inr (), x)"
    using emplace_success [OF e] by blast
  have gs: "gs = (arr_put (arr_len ?a) x ?a)\<lparr>arr_len := arr_len ?a + 1\<rparr>"
    using e emplace_fits [of ?a "fill_group gno name oi ci tms", OF room x] by auto
  note app = append_slot [OF assms(1) room, of x, folded gs]
  show ?thesis
    using m' app fill_group_text [OF next_slot [OF assms(1) room] x assms(3-)] by (intro exI [of _ gs] exI [of _ x]) simp
qed

lemma loaded_groups: "loaded m ds \<Longrightarrow> slots_ok group_zero gs \<Longrightarrow> loaded (m\<lparr>groups := gs\<rparr>) ds"
  by (simp add: loaded_def mib_ok_def queue_names_def)

lemma configured_group_loaded:
  assumes run: "configured_group (name, p) m = (Inr n, m')" and old: "loaded m ds" "groups_loaded m gs"
    and nn: "0 \<notin> set name" "\<forall>k v. p k = Some v \<longrightarrow> 0 \<notin> set v"
  shows "n = group_no p \<and> loaded m' (ds @ group_servers (name, p)) \<and> groups_loaded m' (gs @ [(name, p)]) \<and>
    mach m' = mach m \<and> domain_info m' = domain_info m"
proof -
  let ?g = "\<lambda>k. get_param k p"
  obtain no where no: "checked_get p (bytes ''GRPNO'') 1 30000 = Inr no"
    using run by (auto simp: configured_group_def split: sum.splits)
  have gno: "uint16 no = group_no p" using checked_get_range [OF no] no by (simp add: group_no_def)
  obtain i m1 where one: "make_group (group_no p) name (?g (bytes ''OPENINFO'')) (?g (bytes ''CLOSEINFO'')) (?g (bytes ''TMSNAME'')) m = (Inr i, m1)"
    and rest: "(case arr_at (groups m1) i of Inl e \<Rightarrow> (Inl e, m1)
       | Inr _ \<Rightarrow> if ?g (bytes ''TMSNAME'') = [] then (Inr (group_no p), m1)
           else (case checked_get_or p (bytes ''TMSCOUNT'') 2 10 3 of Inl e \<Rightarrow> (Inl e, m1)
             | Inr count \<Rightarrow> seqx (make_tms (nat count) (group_no p) (?g (bytes ''TMSNAME'')) 0 m1) (\<lambda>_ m. (Inr (group_no p), m)))) = (Inr n, m')"
    using run unfolding configured_group_def prod.case no sum.case Let_def gno by (rule seqx_okE)
  have m1: "loaded m1 ds" "groups_loaded m1 (gs @ [(name, p)])" "mach m1 = mach m" "domain_info m1 = domain_info m"
  proof -
    have "slots_ok group_zero (groups m)" using old(1) by (simp add: loaded_def mib_ok_def)
    from make_group_added [OF this one nn(1) text_get [OF nn(2)] text_get [OF nn(2)] text_get [OF nn(2)]]
    obtain gs' g where "m1 = m\<lparr>groups := gs'\<rparr>" "slots_ok group_zero gs'" "used gs' = used (groups m) @ [g]"
      "group_described g (name, p)" by (auto simp: group_described_def)
    then show "loaded m1 ds" "groups_loaded m1 (gs @ [(name, p)])" "mach m1 = mach m" "domain_info m1 = domain_info m"
      using old by (auto simp: loaded_groups groups_loaded_def list_all2_appendI)
  qed
  show ?thesis
  proof (cases "?g (bytes ''TMSNAME'') = []")
    case True
    then show ?thesis using rest m1 by (auto simp: group_servers_def split: sum.splits)
  next
    case False
    obtain count where count: "checked_get_or p (bytes ''TMSCOUNT'') 2 10 3 = Inr count"
      and tms: "make_tms (nat count) (group_no p) (?g (bytes ''TMSNAME'')) 0 m1 = (Inr (), m')" "n = group_no p"
      using rest False by (auto simp: seqx_def split: sum.splits prod.splits)
    have "tms_count p = nat count" using count by (simp add: tms_count_def)
    then show ?thesis
      using make_tms_loaded [OF tms(1) m1(1) text_get [OF nn(2)]] tms(2) m1 False
      by (auto simp: group_servers_def only_servers_def groups_loaded_def)
  qed
qed

lemma numbers_of_Cons: "ids(name \<mapsto> group_no p) ++ numbers_of gs = ids ++ numbers_of ((name, p) # gs)"
  by (simp add: numbers_of_def)

lemma configured_groups_loaded:
  "configured_groups gs ids m = (Inr ids', m') \<Longrightarrow> loaded m ds \<Longrightarrow> groups_loaded m old \<Longrightarrow> text_section gs \<Longrightarrow>
   ids' = ids ++ numbers_of gs \<and> loaded m' (ds @ concat (map group_servers gs)) \<and> groups_loaded m' (old @ gs) \<and>
   mach m' = mach m \<and> domain_info m' = domain_info m"
proof (induction gs arbitrary: ids m ds old)
  case Nil
  then show ?case by (simp add: numbers_of_def)
next
  case (Cons g gs)
  obtain name p where g: "g = (name, p)" by (cases g)
  obtain n m1 where one: "configured_group (name, p) m = (Inr n, m1)"
    and rest: "configured_groups gs (ids(name \<mapsto> n)) m1 = (Inr ids', m')"
    using Cons.prems(1) by (auto simp: g elim!: seqx_okE)
  have nn: "0 \<notin> set name" "\<forall>k v. p k = Some v \<longrightarrow> 0 \<notin> set v" "text_section gs"
    using Cons.prems(4) by (auto simp: g text_section_def)
  note c = configured_group_loaded [OF one Cons.prems(2,3) nn(1,2)]
  then have "ids' = ids(name \<mapsto> n) ++ numbers_of gs \<and>
      loaded m' ((ds @ group_servers (name, p)) @ concat (map group_servers gs)) \<and>
      groups_loaded m' ((old @ [(name, p)]) @ gs) \<and> mach m' = mach m1 \<and> domain_info m' = domain_info m1"
    using Cons.IH [OF rest, of "ds @ group_servers (name, p)" "old @ [(name, p)]"] nn(3) by blast
  then show ?case using c numbers_of_Cons [of ids name p gs] by (simp add: g)
qed

lemma server_line_range:
  assumes "server_line ids (name, p) = Inr (c, count)"
  shows "sc_name c = name" "sc_params c = p" "1 \<le> sc_base c \<and> sc_base c \<le> 30000" "1 \<le> count \<and> count \<le> 1000"
    "1 \<le> sc_minthreads c \<and> sc_minthreads c \<le> 1000" "1 \<le> sc_maxthreads c \<and> sc_maxthreads c \<le> 1000"
  using assms by (auto simp: server_line_def bind_except_def dest!: checked_get_range checked_get_or_range split: sum.splits option.splits)

lemma configured_servers_loaded:
  "configured_servers confs ids m = (Inr (), m') \<Longrightarrow> loaded m ds \<Longrightarrow> text_section confs \<Longrightarrow>
   loaded m' (ds @ concat (map (line_servers ids) confs)) \<and> only_servers m m'"
proof (induction confs arbitrary: m ds)
  case (Cons conf confs)
  obtain name p where conf: "conf = (name, p)" by (cases conf)
  obtain c count where c: "server_line ids (name, p) = Inr (c, count)"
    and run: "seqx (make_servers c (nat count) 0 m) (\<lambda>_ m. configured_servers confs ids m) = (Inr (), m')"
    using Cons.prems(1) by (auto simp: conf split: sum.splits)
  obtain m1 where one: "make_servers c (nat count) 0 m = (Inr (), m1)" and rest: "configured_servers confs ids m1 = (Inr (), m')"
    using run by (rule seqx_unitE)
  note r = server_line_range [OF c]
  have nn: "0 \<notin> set name" "\<forall>k v. p k = Some v \<longrightarrow> 0 \<notin> set v" "text_section confs"
    using Cons.prems(3) by (auto simp: conf text_section_def)
  have "loaded m1 (ds @ map (declared c) [0..<0 + nat count]) \<and> only_servers m m1"
    by (rule make_servers_loaded [OF one Cons.prems(2)]) (use r nn in auto)
  then have "loaded m1 (ds @ line_servers ids (name, p)) \<and> only_servers m m1" by (simp add: line_servers_def c)
  with Cons.IH [OF rest, of "ds @ line_servers ids (name, p)"] nn(3) show ?case
    by (auto simp: conf intro: only_servers_trans)
qed simp

text \<open>The machine.\<close>

definition empty_machine :: "t_machine \<Rightarrow> bool" where
  "empty_machine x \<longleftrightarrow> mach_address x = replicate 64 0 \<and> mach_lmid x = replicate 30 0 \<and> mach_tuxconfig x = replicate 256 0 \<and>
     mach_tuxdir x = replicate 256 0 \<and> mach_appdir x = replicate 256 0 \<and> mach_ulogpfx x = replicate 256 0 \<and>
     mach_tlogdevice x = replicate 256 0"

definition machine_described :: "byte list \<Rightarrow> ubb_params \<Rightarrow> t_machine \<Rightarrow> bool" where
  "machine_described name p x \<longleftrightarrow> c_string (mach_address x) = name \<and>
     p (bytes ''LMID'') = Some (c_string (mach_lmid x)) \<and> p (bytes ''TUXCONFIG'') = Some (c_string (mach_tuxconfig x)) \<and>
     p (bytes ''TUXDIR'') = Some (c_string (mach_tuxdir x)) \<and> p (bytes ''APPDIR'') = Some (c_string (mach_appdir x)) \<and>
     c_string (mach_ulogpfx x) = get_param (bytes ''ULOGPFX'') p \<and>
     c_string (mach_tlogdevice x) = get_param (bytes ''TLOGDEVICE'') p"

lemma copy_mach_zero:
  assumes "copy_mach v get upd m = (Inr (), m')" "get (mach m) = replicate n 0"
  shows "\<exists>src. v = Inr src \<and> m' = m\<lparr>mach := upd (\<lambda>_. src @ replicate (n - length src) 0) (mach m)\<rparr>"
  using assms by (auto simp: copy_mach_def copy_field_def checked_copy_def split: sum.splits if_splits prod.splits)

lemma at_param_Inr: "at_param k p = Inr v \<Longrightarrow> p k = Some v"
  by (auto simp: at_param_def split: option.splits)

lemma copy_machine_described:
  assumes run: "copy_machine name p m = (Inr (), m')" and zero: "empty_machine (mach m)"
    and nn: "0 \<notin> set name" "\<forall>k v. p k = Some v \<longrightarrow> 0 \<notin> set v"
  shows "(\<exists>x. m' = m\<lparr>mach := x\<rparr>) \<and> machine_described name p (mach m')"
proof -
  note z = zero [unfolded empty_machine_def]
  obtain m1 m2 m3 m4 m5 m6 where
    r: "copy_mach (Inr name) mach_address mach_address_update m = (Inr (), m1)"
      "copy_mach (at_param (bytes ''LMID'') p) mach_lmid mach_lmid_update m1 = (Inr (), m2)"
      "copy_mach (at_param (bytes ''TUXCONFIG'') p) mach_tuxconfig mach_tuxconfig_update m2 = (Inr (), m3)"
      "copy_mach (at_param (bytes ''TUXDIR'') p) mach_tuxdir mach_tuxdir_update m3 = (Inr (), m4)"
      "copy_mach (at_param (bytes ''APPDIR'') p) mach_appdir mach_appdir_update m4 = (Inr (), m5)"
      "copy_mach (Inr (get_param (bytes ''ULOGPFX'') p)) mach_ulogpfx mach_ulogpfx_update m5 = (Inr (), m6)"
      "copy_mach (Inr (get_param (bytes ''TLOGDEVICE'') p)) mach_tlogdevice mach_tlogdevice_update m6 = (Inr (), m')"
    using run unfolding copy_machine_def by (auto elim!: seqx_unitE)
  have m1: "m1 = m\<lparr>mach := mach_address_update (\<lambda>_. name @ replicate (64 - length name) 0) (mach m)\<rparr>"
    using copy_mach_zero [OF r(1), of 64] z by auto
  obtain a where a: "p (bytes ''LMID'') = Some a" "m2 = m1\<lparr>mach := mach_lmid_update (\<lambda>_. a @ replicate (30 - length a) 0) (mach m1)\<rparr>"
    using copy_mach_zero [OF r(2), of 30] z by (auto simp: m1 dest: at_param_Inr)
  obtain b where b: "p (bytes ''TUXCONFIG'') = Some b" "m3 = m2\<lparr>mach := mach_tuxconfig_update (\<lambda>_. b @ replicate (256 - length b) 0) (mach m2)\<rparr>"
    using copy_mach_zero [OF r(3), of 256] z by (auto simp: m1 a dest: at_param_Inr)
  obtain c where c: "p (bytes ''TUXDIR'') = Some c" "m4 = m3\<lparr>mach := mach_tuxdir_update (\<lambda>_. c @ replicate (256 - length c) 0) (mach m3)\<rparr>"
    using copy_mach_zero [OF r(4), of 256] z by (auto simp: m1 a b dest: at_param_Inr)
  obtain d where d: "p (bytes ''APPDIR'') = Some d" "m5 = m4\<lparr>mach := mach_appdir_update (\<lambda>_. d @ replicate (256 - length d) 0) (mach m4)\<rparr>"
    using copy_mach_zero [OF r(5), of 256] z by (auto simp: m1 a b c dest: at_param_Inr)
  let ?u = "get_param (bytes ''ULOGPFX'') p" and ?t = "get_param (bytes ''TLOGDEVICE'') p"
  have u: "m6 = m5\<lparr>mach := mach_ulogpfx_update (\<lambda>_. ?u @ replicate (256 - length ?u) 0) (mach m5)\<rparr>"
    using copy_mach_zero [OF r(6), of 256] z by (auto simp: m1 a b c d)
  have v: "m' = m6\<lparr>mach := mach_tlogdevice_update (\<lambda>_. ?t @ replicate (256 - length ?t) 0) (mach m6)\<rparr>"
    using copy_mach_zero [OF r(7), of 256] z by (auto simp: m1 a b c d u)
  have clean: "0 \<notin> set a" "0 \<notin> set b" "0 \<notin> set c" "0 \<notin> set d" using nn(2) a(1) b(1) c(1) d(1) by blast+
  show ?thesis
    using a(1) b(1) c(1) d(1) clean nn(1) text_get [OF nn(2)]
    by (intro conjI exI [of _ "mach m'"]) (simp_all add: machine_described_def v u d(2) c(2) b(2) a(2) m1 name_field)
qed

subsection \<open>The domain\<close>

definition empty_domain :: "mibmem \<Rightarrow> bool" where
  "empty_domain m \<longleftrightarrow> mib_ok m \<and> arr_len (servers m) = 0 \<and> arr_len (groups m) = 0 \<and> empty_machine (mach m)"

definition text_config :: "ubbconfig \<Rightarrow> bool" where
  "text_config u \<longleftrightarrow> text_section (ub_machines u) \<and> text_section (ub_groups u) \<and> text_section (ub_servers u)"

lemma fill_tables_loaded:
  assumes "fill_tables u m = (Inr (), m')" "mib_ok m" "arr_len (servers m) = 0" "arr_len (groups m) = 0" "text_config u"
  shows "loaded m' (declared_servers u) \<and> groups_loaded m' (ub_groups u) \<and> mach m' = mach m \<and> domain_info m' = domain_info m"
proof -
  obtain m1 ids m2 where
    bbl: "configured_server 0 0 (bytes ''BBL'') (bytes ''-A'') (bytes ''.BBL'') (\<lambda>s. s\<lparr>autostart := True\<rparr>) m = (Inr (), m1)"
    and grp: "configured_groups (ub_groups u) (\<lambda>_. None) m1 = (Inr ids, m2)"
    and srv: "configured_servers (ub_servers u) ids m2 = (Inr (), m')"
    using assms(1) unfolding fill_tables_def by (auto elim!: seqx_okE)
  have nn: "text_section (ub_groups u)" "text_section (ub_servers u)" using assms(5) by (simp_all add: text_config_def)
  have "loaded m []" "groups_loaded m []" using assms(2-4) by (simp_all add: loaded_def groups_loaded_def used_def)
  then have m1: "loaded m1 [bbl_server]" "groups_loaded m1 []" "mach m1 = mach m" "domain_info m1 = domain_info m"
    using configured_server_added [OF bbl, of "[]" bbl_server] by (auto simp: bbl_server_def groups_loaded_def)
  note m2 = configured_groups_loaded [OF grp m1(1,2) nn(1)]
  then have "ids = numbers_of (ub_groups u)" by simp
  with configured_servers_loaded [OF srv _ nn(2), of "[bbl_server] @ concat (map group_servers (ub_groups u))"] m1 m2
  show ?thesis
    by (auto simp: declared_servers_def only_servers_def groups_loaded_def)
qed


end
