(* ===== verification/Ubb_Fits.thy ===== *)
theory Ubb_Fits
  imports Ubb_Props
begin

text \<open>
  When src/ubb2mib.cpp succeeds: the tables have room for what the configuration declares, its texts fit their
  members, its numbers are in their ranges and no number is given twice.
\<close>

subsection \<open>Servers\<close>

definition server_text :: "declared_server \<Rightarrow> bool" where
  "server_text d \<longleftrightarrow> length (ds_name d) < 128 \<and> length (ds_opts d) < 1024 \<and> length (ds_addr d) < 32 \<and>
     0 \<notin> set (ds_name d) \<and> 0 \<notin> set (ds_opts d) \<and> 0 \<notin> set (ds_addr d)"

definition sets :: "(mib_server \<Rightarrow> mib_server) \<Rightarrow> declared_server \<Rightarrow> bool" where
  "sets f d \<longleftrightarrow> settings_only f \<and> (\<forall>s. autostart (f s) = ds_autostart d \<and>
     (case ds_threads d of None \<Rightarrow> True | Some (a, b) \<Rightarrow> mindispatchthreads (f s) = a \<and> maxdispatchthreads (f s) = b))"

fun add_servers :: "(declared_server \<times> (mib_server \<Rightarrow> mib_server)) list \<Rightarrow> mibmem \<Rightarrow> unit except \<times> mibmem" where
  "add_servers [] m = (Inr (), m)"
| "add_servers ((d, f) # ds) m =
     seqx (configured_server (ds_id d) (ds_grpno d) (ds_name d) (ds_opts d) (ds_addr d) f m) (\<lambda>_ m. add_servers ds m)"

lemma loaded_new:
  assumes "loaded m ds" "(sid, gno) \<notin> pair_of ` set ds"
  shows "find_server sid gno m = Inr badoff"
proof -
  have ok: "arr_ok (servers m)" using assms(1) mib_ok_arrays(7) by (auto simp: loaded_def)
  have "\<forall>s \<in> set (used (servers m)). \<not> (srvid s = sid \<and> srv_grpno s = gno)"
    using assms by (fastforce simp: loaded_def list_all2_conv_all_nth in_set_conv_nth described_def pair_of_def image_iff)
  then show ?thesis unfolding find_server_def arr_find_miss [OF ok] .
qed

lemma loaded_length: "loaded m ds \<Longrightarrow> length ds = arr_len (servers m)"
  by (auto simp: loaded_def mib_ok_arrays dest!: list_all2_lengthD)

lemma configured_server_runs:
  assumes "loaded m ds" "free_slots (Suc k) m" "server_text d" "pair_of d \<notin> pair_of ` set ds" "sets f d"
  shows "\<exists>m'. configured_server (ds_id d) (ds_grpno d) (ds_name d) (ds_opts d) (ds_addr d) f m = (Inr (), m') \<and>
    loaded m' (ds @ [d]) \<and> only_servers m m' \<and> free_slots k m'"
proof -
  have ok: "mib_ok m" using assms(1) by (simp add: loaded_def)
  have new: "find_server (ds_id d) (ds_grpno d) m = Inr badoff"
    using loaded_new [OF assms(1)] assms(4) by (simp add: pair_of_def)
  have fits: "server_fits (ds_name d) (ds_opts d) (ds_addr d) m"
    using assms(2,3) by (simp add: server_fits_def free_slots_def server_text_def)
  obtain m1 where make: "make_server (ds_id d) (ds_grpno d) (ds_name d) (ds_opts d) (ds_addr d) m = (Inr (arr_len (servers m)), m1)"
    and m1: "mib_ok m1" "arr_len (servers m1) = Suc (arr_len (servers m))"
    using make_server_ok [OF ok new fits] assms(3) by (auto simp: server_text_def)
  have "arr_at (servers m1) (arr_len (servers m)) = Inr (used (servers m1) ! arr_len (servers m))"
    using arr_at_used [OF mib_ok_arrays(7) [OF m1(1)]] m1(2) by simp
  then obtain m' where run: "configured_server (ds_id d) (ds_grpno d) (ds_name d) (ds_opts d) (ds_addr d) f m = (Inr (), m')"
    using make by (simp add: configured_server_def)
  from configured_server_added [OF run assms(1), of d] show ?thesis
    using run assms(2,3,5) by (auto simp: server_text_def sets_def only_servers_def)
qed

lemma add_servers_runs:
  "loaded m ds \<Longrightarrow> free_slots (length xs + k) m \<Longrightarrow> \<forall>(d, f) \<in> set xs. server_text d \<and> sets f d \<Longrightarrow>
   distinct (map pair_of (ds @ map fst xs)) \<Longrightarrow>
   \<exists>m'. add_servers xs m = (Inr (), m') \<and> loaded m' (ds @ map fst xs) \<and> only_servers m m' \<and> free_slots k m'"
proof (induction xs arbitrary: m ds)
  case (Cons x xs)
  obtain d f where x: "x = (d, f)" by (cases x)
  have "\<exists>m1. configured_server (ds_id d) (ds_grpno d) (ds_name d) (ds_opts d) (ds_addr d) f m = (Inr (), m1) \<and>
      loaded m1 (ds @ [d]) \<and> only_servers m m1 \<and> free_slots (length xs + k) m1"
    using Cons.prems by (intro configured_server_runs) (auto simp: x)
  then obtain m1 where m1: "configured_server (ds_id d) (ds_grpno d) (ds_name d) (ds_opts d) (ds_addr d) f m = (Inr (), m1)"
    "loaded m1 (ds @ [d])" "only_servers m m1" "free_slots (length xs + k) m1" by blast
  from Cons.IH [OF m1(2,4)] Cons.prems(3,4) obtain m' where
    "add_servers xs m1 = (Inr (), m')" "loaded m' ((ds @ [d]) @ map fst xs)" "only_servers m1 m'" "free_slots k m'"
    by (auto simp: x)
  with m1 show ?case by (auto simp: x intro: only_servers_trans)
qed simp

lemma make_tms_add:
  "make_tms left gno name n m =
   add_servers (map (\<lambda>n. (tms_server gno name n, \<lambda>s. s\<lparr>autostart := True\<rparr>)) [n..<n + left]) m"
proof (induction left arbitrary: n m)
  case (Suc left)
  show ?case unfolding upt_step make_tms.simps Suc.IH by (simp add: tms_server_def)
qed simp

definition server_settings :: "server_conf \<Rightarrow> nat \<Rightarrow> mib_server \<Rightarrow> mib_server" where
  "server_settings c n s =
     s\<lparr>autostart := int n < sc_min c, mindispatchthreads := uint16 (sc_minthreads c), maxdispatchthreads := uint16 (sc_maxthreads c)\<rparr>"

lemma make_servers_add:
  assumes "0 \<le> sc_base c" "sc_base c + int (n + left) < 2 ^ 16"
  shows "make_servers c left n m = add_servers (map (\<lambda>n. (declared c n, server_settings c n)) [n..<n + left]) m"
  using assms
proof (induction left arbitrary: n m)
  case (Suc left)
  have sid: "uint16 (sc_base c + int n) = ds_id (declared c n)"
    using Suc.prems by (simp add: declared_def nat_add_distrib)
  have "show_int (sc_base c + int n) = show_nat (nat (sc_base c) + n)"
    using Suc.prems(1) by (simp add: show_int_def nat_add_distrib)
  then have rq: "(if get_param (bytes ''RQADDR'') (sc_params c) = [] then show_nat (sc_grpno c) @ bytes ''.'' @ show_int (sc_base c + int n)
      else get_param (bytes ''RQADDR'') (sc_params c)) = ds_addr (declared c n)" by (simp add: declared_def)
  have rest: "(\<lambda>_. make_servers c left (Suc n)) = (\<lambda>_. add_servers (map (\<lambda>n. (declared c n, server_settings c n)) [Suc n..<Suc n + left]))"
    using Suc by (intro ext) simp
  show ?case unfolding upt_step make_servers.simps Let_def sid rq
    by (simp only: list.map add_servers.simps rest) (simp add: declared_def server_settings_def [abs_def])
qed simp

lemma sets_tms: "sets (\<lambda>s. s\<lparr>autostart := True\<rparr>) (tms_server gno name n)"
  by (simp add: sets_def tms_server_def)

lemma sets_server:
  assumes "0 \<le> sc_minthreads c \<and> sc_minthreads c < 2 ^ 16" "0 \<le> sc_maxthreads c \<and> sc_maxthreads c < 2 ^ 16"
  shows "sets (server_settings c n) (declared c n)"
  using assms by (simp add: sets_def declared_def settings_only_def server_settings_def)

subsection \<open>Groups\<close>

definition is_ok :: "'a except \<Rightarrow> bool" where
  "is_ok r \<longleftrightarrow> (case r of Inl _ \<Rightarrow> False | Inr _ \<Rightarrow> True)"

lemma is_okE: "is_ok r \<Longrightarrow> (\<And>x. r = Inr x \<Longrightarrow> P) \<Longrightarrow> P"
  by (cases r) (auto simp: is_ok_def)

definition group_fits :: "byte list \<times> ubb_params \<Rightarrow> bool" where
  "group_fits g \<longleftrightarrow>
     (case g of
        (name, p) \<Rightarrow>
          length name < 30 \<and> length (get_param (bytes ''OPENINFO'') p) < 256 \<and> length (get_param (bytes ''CLOSEINFO'') p) < 256 \<and>
          length (get_param (bytes ''TMSNAME'') p) < 256 \<and> is_ok (checked_get p (bytes ''GRPNO'') 1 30000) \<and>
          (get_param (bytes ''TMSNAME'') p \<noteq> [] \<longrightarrow> is_ok (checked_get_or p (bytes ''TMSCOUNT'') 2 10 3)) \<and>
          (\<forall>d \<in> set (group_servers (name, p)). server_text d))"

definition free_groups :: "nat \<Rightarrow> mibmem \<Rightarrow> bool" where
  "free_groups k m \<longleftrightarrow> arr_len (groups m) + k \<le> arr_size (groups m)"

lemma groups_new:
  assumes "loaded m ds" "groups_loaded m old" "n \<notin> (group_no \<circ> snd) ` set old"
  shows "find_group n m = Inr badoff"
proof -
  have ok: "arr_ok (groups m)" using assms(1) mib_ok_arrays(6) by (auto simp: loaded_def)
  have "grp_grpno g \<noteq> n" if "g \<in> set (used (groups m))" for g
  proof -
    from that obtain i where i: "i < length old" "group_described g (old ! i)"
      using assms(2) by (auto simp: groups_loaded_def list_all2_conv_all_nth in_set_conv_nth)
    then have "grp_grpno g = group_no (snd (old ! i))" by (simp add: group_described_def split: prod.splits)
    then show ?thesis using i(1) assms(3) nth_mem by fastforce
  qed
  then have "\<forall>g \<in> set (used (groups m)). \<not> grp_grpno g = n" by simp
  then show ?thesis unfolding find_group_def arr_find_miss [OF ok] .
qed

lemma configured_group_runs:
  assumes "loaded m ds" "groups_loaded m old" "free_slots (length (group_servers (name, p)) + k) m" "free_groups (Suc j) m"
    and "group_fits (name, p)" "text_section [(name, p)]" "group_no p \<notin> (group_no \<circ> snd) ` set old"
    and "distinct (map pair_of (ds @ group_servers (name, p)))"
  shows "\<exists>m'. configured_group (name, p) m = (Inr (group_no p), m') \<and> free_slots k m' \<and> free_groups j m'"
proof -
  let ?g = "\<lambda>k. get_param k p"
  have nn: "0 \<notin> set name" "\<forall>k v. p k = Some v \<longrightarrow> 0 \<notin> set v" using assms(6) by (auto simp: text_section_def)
  obtain no where no: "checked_get p (bytes ''GRPNO'') 1 30000 = Inr no"
    using assms(5) by (auto simp: group_fits_def elim: is_okE)
  have gno: "uint16 no = group_no p" using checked_get_range [OF no] no by (simp add: group_no_def)
  have ok: "mib_ok m" using assms(1) by (simp add: loaded_def)
  note new = groups_new [OF assms(1,2,7)]
  obtain i m1 where one: "make_group (group_no p) name (?g (bytes ''OPENINFO'')) (?g (bytes ''CLOSEINFO'')) (?g (bytes ''TMSNAME'')) m = (Inr i, m1)"
    and i: "i = arr_len (groups m)"
    using group_table.insert_new [OF ok _ new, of "(name, ?g (bytes ''OPENINFO''), ?g (bytes ''CLOSEINFO''), ?g (bytes ''TMSNAME''))"] assms(4,5)
    by (auto simp: group_fits_def free_groups_def)
  obtain gs where m1: "m1 = m\<lparr>groups := gs\<rparr>" "slots_ok group_zero gs" "arr_len gs = Suc (arr_len (groups m))" "arr_size gs = arr_size (groups m)"
    using make_group_added [OF mib_ok_arrays(1) [OF ok] one nn(1) text_get [OF nn(2)] text_get [OF nn(2)] text_get [OF nn(2)]] by blast
  have at: "\<exists>x. arr_at (groups m1) i = Inr x" using arr_at_used [OF slots_okD [OF m1(2)], of i] m1(1,3) i by auto
  have free: "free_groups j m1" "free_slots (length (group_servers (name, p)) + k) m1"
    using assms(3,4) m1 by (simp_all add: free_groups_def free_slots_def)
  show ?thesis
  proof (cases "?g (bytes ''TMSNAME'') = []")
    case True
    then show ?thesis using no gno one at free by (auto simp: configured_group_def Let_def group_servers_def)
  next
    case False
    then obtain count where count: "checked_get_or p (bytes ''TMSCOUNT'') 2 10 3 = Inr count"
      using assms(5) by (auto simp: group_fits_def elim: is_okE)
    have tms: "group_servers (name, p) = map (tms_server (group_no p) (?g (bytes ''TMSNAME''))) [0..<0 + nat count]"
      using False count by (simp add: group_servers_def tms_count_def)
    let ?xs = "map (\<lambda>n. (tms_server (group_no p) (?g (bytes ''TMSNAME'')) n, \<lambda>s :: mib_server. s\<lparr>autostart := True\<rparr>)) [0..<0 + nat count]"
    have fst: "map fst ?xs = group_servers (name, p)" by (simp add: tms comp_def)
    have "\<exists>m'. add_servers ?xs m1 = (Inr (), m') \<and> loaded m' (ds @ map fst ?xs) \<and> only_servers m1 m' \<and> free_slots k m'"
    proof (rule add_servers_runs)
      show "loaded m1 ds" using loaded_groups [OF assms(1) m1(2)] m1(1) by simp
      show "free_slots (length ?xs + k) m1" using free(2) by (simp add: tms)
      show "\<forall>(d, f) \<in> set ?xs. server_text d \<and> sets f d"
        using assms(5) tms sets_tms by (auto simp: group_fits_def)
      show "distinct (map pair_of (ds @ map fst ?xs))" using assms(8) unfolding fst .
    qed
    then obtain m' where "make_tms (nat count) (group_no p) (?g (bytes ''TMSNAME'')) 0 m1 = (Inr (), m')"
      "only_servers m1 m'" "free_slots k m'" by (auto simp: make_tms_add)
    moreover from this have "free_groups j m'" using free(1) by (simp add: free_groups_def only_servers_def)
    ultimately show ?thesis using no gno one at False count by (auto simp: configured_group_def Let_def)
  qed
qed

lemma configured_groups_runs:
  "loaded m ds \<Longrightarrow> groups_loaded m old \<Longrightarrow> free_slots (length (concat (map group_servers gs)) + k) m \<Longrightarrow>
   free_groups (length gs) m \<Longrightarrow> \<forall>g \<in> set gs. group_fits g \<Longrightarrow> text_section gs \<Longrightarrow>
   distinct (map (group_no \<circ> snd) (old @ gs)) \<Longrightarrow> distinct (map pair_of (ds @ concat (map group_servers gs))) \<Longrightarrow>
   \<exists>ids' m'. configured_groups gs ids m = (Inr ids', m') \<and> free_slots k m'"
proof (induction gs arbitrary: m ds old ids)
  case (Cons g gs)
  obtain name p where g: "g = (name, p)" by (cases g)
  have nn: "0 \<notin> set name" "\<forall>k v. p k = Some v \<longrightarrow> 0 \<notin> set v" "text_section [(name, p)]" "text_section gs"
    using Cons.prems(6) by (auto simp: g text_section_def)
  have "\<exists>m1. configured_group (name, p) m = (Inr (group_no p), m1) \<and>
      free_slots (length (concat (map group_servers gs)) + k) m1 \<and> free_groups (length gs) m1"
    using Cons.prems nn(3)
    by (intro configured_group_runs [where ds = ds and old = old]) (auto simp: g add.assoc add.commute [of k])
  then obtain m1 where m1: "configured_group (name, p) m = (Inr (group_no p), m1)"
    "free_slots (length (concat (map group_servers gs)) + k) m1" "free_groups (length gs) m1" by blast
  note l = configured_group_loaded [OF m1(1) Cons.prems(1,2) nn(1,2)]
  have "\<exists>ids' m'. configured_groups gs (ids(name \<mapsto> group_no p)) m1 = (Inr ids', m') \<and> free_slots k m'"
    by (rule Cons.IH [where ds = "ds @ group_servers (name, p)" and old = "old @ [(name, p)]"])
      (use l m1 nn Cons.prems(5,7,8) in \<open>auto simp: g\<close>)
  then show ?case using m1(1) by (simp add: g)
qed simp

subsection \<open>Server lines\<close>

lemma configured_servers_runs:
  "loaded m ds \<Longrightarrow> free_slots (length (concat (map (line_servers ids) confs))) m \<Longrightarrow> \<forall>c \<in> set confs. is_ok (server_line ids c) \<Longrightarrow>
   \<forall>c \<in> set confs. \<forall>d \<in> set (line_servers ids c). server_text d \<Longrightarrow>
   distinct (map pair_of (ds @ concat (map (line_servers ids) confs))) \<Longrightarrow>
   \<exists>m'. configured_servers confs ids m = (Inr (), m')"
proof (induction confs arbitrary: m ds)
  case (Cons conf confs)
  obtain name p where conf: "conf = (name, p)" by (cases conf)
  obtain c count where c: "server_line ids (name, p) = Inr (c, count)"
    using Cons.prems(3) by (auto simp: conf elim!: is_okE)
  note r = server_line_range [OF c]
  let ?xs = "map (\<lambda>n. (declared c n, server_settings c n)) [0..<0 + nat count]"
  have fst: "map fst ?xs = line_servers ids conf" by (simp add: line_servers_def conf c comp_def)
  have "\<exists>m1. add_servers ?xs m = (Inr (), m1) \<and> loaded m1 (ds @ map fst ?xs) \<and> only_servers m m1 \<and>
      free_slots (length (concat (map (line_servers ids) confs))) m1"
  proof (rule add_servers_runs [OF Cons.prems(1)])
    have "length ?xs = length (line_servers ids conf)" by (metis fst length_map)
    then show "free_slots (length ?xs + length (concat (map (line_servers ids) confs))) m" using Cons.prems(2) by simp
    have "server_text d" if "d \<in> set (map fst ?xs)" for d using that Cons.prems(4) unfolding fst by simp
    then show "\<forall>(d, f) \<in> set ?xs. server_text d \<and> sets f d" using sets_server r by (auto simp: image_iff)
    show "distinct (map pair_of (ds @ map fst ?xs))" using Cons.prems(5) unfolding fst by auto
  qed
  then obtain m1 where m1: "add_servers ?xs m = (Inr (), m1)" "loaded m1 (ds @ line_servers ids conf)"
    "free_slots (length (concat (map (line_servers ids) confs))) m1" unfolding fst by blast
  have "make_servers c (nat count) 0 m = (Inr (), m1)"
    using make_servers_add [of c 0 "nat count" m] r m1(1) by simp
  moreover obtain m' where "configured_servers confs ids m1 = (Inr (), m')"
    using Cons.IH [OF m1(2,3)] Cons.prems(3-5) by auto
  ultimately show ?case by (simp add: conf c)
qed simp

subsection \<open>The domain\<close>

definition short_param :: "byte list \<Rightarrow> nat \<Rightarrow> ubb_params \<Rightarrow> bool" where
  "short_param k n p \<longleftrightarrow> (case p k of None \<Rightarrow> False | Some v \<Rightarrow> length v < n)"

definition machine_fits :: "byte list \<Rightarrow> ubb_params \<Rightarrow> bool" where
  "machine_fits name p \<longleftrightarrow> length name < 64 \<and> short_param (bytes ''LMID'') 30 p \<and> short_param (bytes ''TUXCONFIG'') 256 p \<and>
     short_param (bytes ''TUXDIR'') 256 p \<and> short_param (bytes ''APPDIR'') 256 p \<and>
     length (get_param (bytes ''ULOGPFX'') p) < 256 \<and> length (get_param (bytes ''TLOGDEVICE'') p) < 256"

lemma copy_mach_runs:
  assumes "get (mach m) = replicate n 0" "length src < n"
  shows "copy_mach (Inr src) get upd m = (Inr (), m\<lparr>mach := upd (\<lambda>_. src @ replicate (n - length src) 0) (mach m)\<rparr>)"
  using copy_field_ok [of get "mach m" n src upd] assms by (simp add: copy_mach_def)

lemma short_paramE:
  assumes "short_param k n p"
  obtains v where "at_param k p = Inr v" "length v < n"
  using assms by (auto simp: short_param_def at_param_def split: option.splits)

lemma copy_machine_runs:
  assumes "empty_machine (mach m)" "machine_fits name p"
  shows "\<exists>m'. copy_machine name p m = (Inr (), m')"
proof -
  note z = assms(1) [unfolded empty_machine_def]
  obtain a b c d where "at_param (bytes ''LMID'') p = Inr a" "length a < 30" "at_param (bytes ''TUXCONFIG'') p = Inr b" "length b < 256"
    "at_param (bytes ''TUXDIR'') p = Inr c" "length c < 256" "at_param (bytes ''APPDIR'') p = Inr d" "length d < 256"
    using assms(2) unfolding machine_fits_def by (elim conjE short_paramE)
  then show ?thesis
    using z assms(2) by (simp add: copy_machine_def copy_mach_runs [where n = 64] copy_mach_runs [where n = 30]
        copy_mach_runs [where n = 256] machine_fits_def)
qed

definition config_fits :: "ubb_env \<Rightarrow> ubbconfig \<Rightarrow> mibmem \<Rightarrow> bool" where
  "config_fits env u m \<longleftrightarrow>
     (\<exists>name p. ub_machines u = [(name, p)] \<and> machine_fits name p \<and> p (bytes ''TUXCONFIG'') = ue_TUXCONFIG env) \<and>
     (case block_time (ub_resources u) of Inl _ \<Rightarrow> False | Inr _ \<Rightarrow> True) \<and>
     (\<forall>g \<in> set (ub_groups u). group_fits g) \<and> distinct (map (group_no \<circ> snd) (ub_groups u)) \<and>
     (\<forall>c \<in> set (ub_servers u). is_ok (server_line (numbers_of (ub_groups u)) c) \<and>
        (\<forall>d \<in> set (line_servers (numbers_of (ub_groups u)) c). server_text d)) \<and>
     distinct (map pair_of (declared_servers u)) \<and>
     free_slots (length (declared_servers u)) m \<and> free_groups (length (ub_groups u)) m"

lemma fill_tables_runs:
  assumes "config_fits env u m0" "mib_ok m" "arr_len (servers m) = 0" "arr_len (groups m) = 0" "text_config u"
    and "servers m = servers m0" "queues m = queues m0" "groups m = groups m0"
  shows "\<exists>m'. fill_tables u m = (Inr (), m')"
proof -
  let ?gs = "ub_groups u" and ?ids = "numbers_of (ub_groups u)"
  let ?g = "concat (map group_servers ?gs)" and ?s = "concat (map (line_servers ?ids) (ub_servers u))"
  have fits: "\<forall>g \<in> set ?gs. group_fits g" "distinct (map (group_no \<circ> snd) ?gs)"
    "\<forall>c \<in> set (ub_servers u). is_ok (server_line ?ids c)" "\<forall>c \<in> set (ub_servers u). \<forall>d \<in> set (line_servers ?ids c). server_text d"
    "distinct (map pair_of (bbl_server # ?g @ ?s))" "free_slots (Suc (length ?g + length ?s)) m" "free_groups (length ?gs) m"
    using assms(1,6-8) by (auto simp: config_fits_def declared_servers_def free_slots_def free_groups_def)
  have empty: "loaded m []" "groups_loaded m []" using assms(2-4) by (simp_all add: loaded_def groups_loaded_def used_def)
  have "\<exists>m'. configured_server (ds_id bbl_server) (ds_grpno bbl_server) (ds_name bbl_server) (ds_opts bbl_server) (ds_addr bbl_server)
      (\<lambda>s. s\<lparr>autostart := True\<rparr>) m = (Inr (), m') \<and> loaded m' ([] @ [bbl_server]) \<and> only_servers m m' \<and> free_slots (length ?g + length ?s) m'"
    by (rule configured_server_runs [OF empty(1) fits(6)]) (simp_all add: server_text_def sets_def bbl_server_def bytes_simps)
  then obtain m1 where bbl: "configured_server 0 0 (bytes ''BBL'') (bytes ''-A'') (bytes ''.BBL'') (\<lambda>s. s\<lparr>autostart := True\<rparr>) m = (Inr (), m1)"
    and m1: "loaded m1 [bbl_server]" "only_servers m m1" "free_slots (length ?g + length ?s) m1" by (auto simp: bbl_server_def)
  have m1': "groups_loaded m1 []" "free_groups (length ?gs) m1"
    using empty(2) fits(7) m1(2) by (simp_all add: only_servers_def groups_loaded_def free_groups_def)
  have nn: "text_section ?gs" "text_section (ub_servers u)" using assms(5) by (simp_all add: text_config_def)
  have "\<exists>ids' m2. configured_groups ?gs (\<lambda>_. None) m1 = (Inr ids', m2) \<and> free_slots (length ?s) m2"
    by (rule configured_groups_runs [OF m1(1) m1'(1) m1(3) m1'(2) fits(1) nn(1)]) (use fits(2,5) in auto)
  then obtain ids m2 where grp: "configured_groups ?gs (\<lambda>_. None) m1 = (Inr ids, m2)" "free_slots (length ?s) m2" by blast
  note l = configured_groups_loaded [OF grp(1) m1(1) m1'(1) nn(1)]
  then have ids: "ids = ?ids" and l2: "loaded m2 ([bbl_server] @ ?g)" by simp_all
  obtain m3 where "configured_servers (ub_servers u) ids m2 = (Inr (), m3)"
    using configured_servers_runs [OF l2 grp(2) fits(3,4)] fits(5) unfolding ids by auto
  then show ?thesis using bbl grp(1) by (simp add: fill_tables_def)
qed

lemma ubb2mib_runs:
  assumes "empty_domain m" "text_config u" "config_fits env u m"
  shows "\<exists>m'. ubb2mib env u m = (Inr (), m') \<and> loaded m' (declared_servers u) \<and> groups_loaded m' (ub_groups u)"
proof -
  obtain name p where mach: "ub_machines u = [(name, p)]" "machine_fits name p" "p (bytes ''TUXCONFIG'') = ue_TUXCONFIG env"
    using assms(3) by (auto simp: config_fits_def)
  obtain b where b: "block_time (ub_resources u) = Inr b" using assms(3) by (auto simp: config_fits_def split: sum.splits)
  obtain t where t: "p (bytes ''TUXCONFIG'') = Some t" using mach(2) by (auto simp: machine_fits_def short_param_def split: option.splits)
  have nn: "0 \<notin> set name" "\<forall>k v. p k = Some v \<longrightarrow> 0 \<notin> set v"
    using assms(2) mach(1) by (auto simp: text_config_def text_section_def)
  let ?m0 = "m\<lparr>host := ucast (ue_hash env name), counter := word_of_int (ue_rand env)\<rparr>"
  have z: "empty_machine (mach ?m0)" using assms(1) by (simp add: empty_domain_def)
  obtain m1 where m1: "copy_machine name p ?m0 = (Inr (), m1)" using copy_machine_runs [OF z mach(2)] by blast
  obtain x where x: "m1 = ?m0\<lparr>mach := x\<rparr>" using copy_machine_described [OF m1 z nn] by blast
  let ?m2 = "fill_domain env (m1\<lparr>mach := (mach m1)\<lparr>mach_blocktime := b\<rparr>\<rparr>)"
  have two: "mib_ok ?m2" "arr_len (servers ?m2) = 0" "arr_len (groups ?m2) = 0" "servers ?m2 = servers m" "queues ?m2 = queues m"
    "groups ?m2 = groups m"
    using assms(1) by (simp_all add: fill_domain_def x empty_domain_def mib_ok_def)
  obtain m' where m': "fill_tables u ?m2 = (Inr (), m')" using fill_tables_runs [OF assms(3) two(1-3) assms(2) two(4-6)] by blast
  have "ubb2mib env u m = (Inr (), m')"
    using mach(1) t mach(3) [unfolded t, symmetric] m1 b m' by (simp add: ubb2mib_def at_param_def thrown_def)
  then show ?thesis using fill_tables_loaded [OF m' two(1-3) assms(2)] by blast
qed


end
