(* ===== verification/Ubb_Text.thy ===== *)
theory Ubb_Text
  imports Ubb
begin

text \<open>
  Configurations written line by line, and what the reader of src/ubbreader.h makes of them.
\<close>

subsection \<open>Configurations as lines\<close>

datatype token = Plain "byte list" | Quoted "byte list"

fun tok_text :: "token \<Rightarrow> byte list" where
  "tok_text (Plain x) = x"
| "tok_text (Quoted x) = x"

fun render_token :: "token \<Rightarrow> byte list" where
  "render_token (Plain x) = x"
| "render_token (Quoted x) = 34 # x @ [34]"

fun wf_token :: "token \<Rightarrow> bool" where
  "wf_token (Plain x) \<longleftrightarrow> (case x of [] \<Rightarrow> False | c # cs \<Rightarrow> plain_first c \<and> c \<noteq> 34 \<and> c \<noteq> 42 \<and> (\<forall>d \<in> set cs. plain_next d))"
| "wf_token (Quoted x) \<longleftrightarrow> 34 \<notin> set x"

text \<open>A parameter of an object may stand on a line of its own, after white space.\<close>

datatype ubb_src =
  Ub_comment "byte list" | Ub_blank | Ub_section "byte list" | Ub_resource token token | Ub_object token "(bool \<times> token \<times> token) list"

fun render_params :: "(bool \<times> token \<times> token) list \<Rightarrow> byte list" where
  "render_params [] = []"
| "render_params ((own, k, v) # ps) =
     (if own then [10, 9] else [9]) @ render_token k @ 61 # render_token v @ render_params ps"

fun render_ubb :: "ubb_src \<Rightarrow> byte list" where
  "render_ubb (Ub_comment c) = 35 # c @ [10]"
| "render_ubb Ub_blank = [10]"
| "render_ubb (Ub_section n) = 42 # n @ [10]"
| "render_ubb (Ub_resource k v) = render_token k @ 9 # render_token v @ [10]"
| "render_ubb (Ub_object n ps) = render_token n @ render_params ps @ [10]"

definition render_config :: "ubb_src list \<Rightarrow> byte list" where
  "render_config ls = concat (map render_ubb ls)"

definition param_texts :: "(bool \<times> token \<times> token) list \<Rightarrow> (byte list \<times> byte list) list" where
  "param_texts ps = map (\<lambda>(own, k, v). (tok_text k, tok_text v)) ps"

text \<open>The configuration the lines say, from section to section, and where a line may stand.\<close>

fun config_says :: "byte list \<Rightarrow> ubbconfig \<Rightarrow> ubb_src list \<Rightarrow> ubbconfig" where
  "config_says sec c [] = c"
| "config_says sec c (Ub_section n # ls) = config_says n c ls"
| "config_says sec c (Ub_resource k v # ls) =
     config_says sec (c\<lparr>ub_resources := (ub_resources c)(tok_text k \<mapsto> tok_text v)\<rparr>) ls"
| "config_says sec c (Ub_object n ps # ls) = config_says sec (add_line sec (tok_text n) (map_of (param_texts ps)) c) ls"
| "config_says sec c (Ub_comment x # ls) = config_says sec c ls"
| "config_says sec c (Ub_blank # ls) = config_says sec c ls"

fun wf_config :: "byte list \<Rightarrow> ubb_src list \<Rightarrow> bool" where
  "wf_config sec [] \<longleftrightarrow> True"
| "wf_config sec (Ub_section n # ls) \<longleftrightarrow> is_name n \<and> wf_config n ls"
| "wf_config sec (Ub_resource k v # ls) \<longleftrightarrow> sec = bytes ''RESOURCES'' \<and> wf_token k \<and> wf_token v \<and> wf_config sec ls"
| "wf_config sec (Ub_object n ps # ls) \<longleftrightarrow> sec \<noteq> bytes ''RESOURCES'' \<and> wf_token n \<and>
     (\<forall>(own, k, v) \<in> set ps. wf_token k \<and> wf_token v) \<and> wf_config sec ls"
| "wf_config sec (Ub_comment c # ls) \<longleftrightarrow> 10 \<notin> set c \<and> wf_config sec ls"
| "wf_config sec (Ub_blank # ls) \<longleftrightarrow> wf_config sec ls"

subsection \<open>Reading them\<close>

lemma gap_chars [simp]: "is_gap 9" "\<not> is_gap 10" "\<not> is_gap 35" "\<not> is_gap 42" "\<not> is_gap 61" "\<not> is_gap 34"
  by (simp_all add: is_gap_def is_space_def)

lemma next_chars [simp]: "\<not> plain_next 9" "\<not> plain_next 10" "\<not> plain_next 61"
  by (simp_all add: plain_next_def is_space_def)

lemma whitespace_none: "ends is_gap s \<Longrightarrow> whitespace s = (False, s)"
  by (simp add: whitespace_def eat_if_none)

lemma whitespace_one: "ends is_gap s \<Longrightarrow> whitespace (9 # s) = (True, s)"
  using eat_all_read [of "[]" is_gap s] by (simp add: whitespace_def)

lemma plain_first_facts: "plain_first c \<Longrightarrow> \<not> is_gap c \<and> c \<noteq> 10 \<and> c \<noteq> 35"
  by (auto simp: plain_first_def is_gap_def is_space_def)

lemma token_first:
  assumes "wf_token t"
  obtains c r where "render_token t = c # r" "\<not> is_gap c" "c \<noteq> 10" "c \<noteq> 35" "c \<noteq> 42"
  using assms by (cases t) (auto dest: plain_first_facts split: list.splits)

lemma parameter_read: "wf_token t \<Longrightarrow> ends plain_next s \<Longrightarrow> parameter (render_token t @ s) = Inr (Some (tok_text t), s)"
proof (cases t)
  case (Plain x)
  assume "wf_token t" "ends plain_next s"
  then show ?thesis using Plain by (auto simp: parameter_def eat_all_read split: list.splits)
next
  case (Quoted x)
  assume "wf_token t"
  then have "eat_all (\<lambda>c. c \<noteq> 34) (x @ 34 # s) = (x, 34 # s)" using Quoted by (intro eat_all_read) auto
  then show ?thesis using Quoted by (simp add: parameter_def)
qed

lemma ends_token: "wf_token t \<Longrightarrow> ends is_gap (render_token t @ s)"
  by (erule token_first) simp

lemma param_pair_read:
  assumes "wf_token k" "wf_token v" "ends plain_next s"
  shows "param_pair (render_token k @ 61 # render_token v @ s) = Inr ((tok_text k, tok_text v), s)"
  using assms by (simp add: param_pair_def parameter_read whitespace_none ends_token)

lemma params_end_more:
  assumes "wf_token k"
  shows "params_end ((if own then [10, 9] else [9]) @ render_token k @ s) = (False, render_token k @ s)"
proof -
  obtain c r where "render_token k = c # r" "\<not> is_gap c" "c \<noteq> 10" using assms by (rule token_first)
  then show ?thesis by (simp add: params_end_def whitespace_none whitespace_one)
qed

lemma params_end_done: "ends is_gap s \<Longrightarrow> params_end (10 # s) = (True, s)"
  by (simp add: params_end_def whitespace_none)

lemma params_read:
  assumes "\<forall>(own, k, v) \<in> set ps. wf_token k \<and> wf_token v" "ends is_gap s"
  shows "parse_params m (render_params ps @ 10 # s) = Inr (map_of (param_texts ps) ++ m, s)"
  using assms(1)
proof (induction ps arbitrary: m)
  case Nil
  then show ?case by (simp add: parse_params.simps [of m] params_end_done [OF assms(2)] param_texts_def)
next
  case (Cons p ps)
  obtain own k v where p: "p = (own, k, v)" by (cases p)
  have wf: "wf_token k" "wf_token v" "\<forall>(own, k, v) \<in> set ps. wf_token k \<and> wf_token v" using Cons.prems by (auto simp: p)
  let ?r = "render_params ps @ 10 # s"
  have e: "ends plain_next ?r" by (cases ps) auto
  let ?m = "if m (tok_text k) = None then m(tok_text k \<mapsto> tok_text v) else m"
  have "parse_params m (render_params (p # ps) @ 10 # s) = parse_params ?m ?r"
    using params_end_more [OF wf(1), of own "61 # render_token v @ ?r"] param_pair_read [OF wf(1,2) e]
    by (simp add: p parse_params.simps [of m])
  moreover have "map_of (param_texts ps) ++ ?m = map_of (param_texts (p # ps)) ++ m"
    by (rule ext) (auto simp: p param_texts_def map_add_def split: option.splits)
  ultimately show ?case using Cons.IH [OF wf(3), of ?m] by simp
qed

lemma parse_till_eol_token:
  assumes "wf_token t"
  shows "parse_till_eol (render_token t @ s) = (False, render_token t @ s)" "parse_section (render_token t @ s) = Inr (None, render_token t @ s)"
proof -
  obtain c r where "render_token t = c # r" "\<not> is_gap c" "c \<noteq> 10" "c \<noteq> 35" "c \<noteq> 42" using assms by (rule token_first)
  then show "parse_till_eol (render_token t @ s) = (False, render_token t @ s)" "parse_section (render_token t @ s) = Inr (None, render_token t @ s)"
    by (simp_all add: parse_till_eol_def parse_section_def whitespace_none)
qed

lemma parse_comment: "10 \<notin> set c \<Longrightarrow> parse_line sec conf (35 # c @ 10 # s) = Inr (True, sec, conf, s)"
  by (simp add: parse_line_def parse_till_eol_def whitespace_none rest_of_line_read)

lemma parse_blank_line: "parse_line sec conf (10 # s) = Inr (True, sec, conf, s)"
  by (simp add: parse_line_def parse_till_eol_def whitespace_none)

lemma parse_section_line: "is_name n \<Longrightarrow> parse_line sec conf (42 # n @ 10 # s) = Inr (True, n, conf, s)"
proof -
  assume "is_name n"
  then have "eat_name (n @ 10 # s) = (Some n, 10 # s)"
    by (rule eat_name_read) (simp add: name_char_def is_letter_def is_digit_def)
  then show ?thesis by (simp add: parse_line_def parse_till_eol_def whitespace_none parse_section_def)
qed

lemma parse_resource_line:
  assumes "wf_token k" "wf_token v"
  shows "parse_line (bytes ''RESOURCES'') conf (render_token k @ 9 # render_token v @ 10 # s) =
    Inr (True, bytes ''RESOURCES'', conf\<lparr>ub_resources := (ub_resources conf)(tok_text k \<mapsto> tok_text v)\<rparr>, s)"
  using assms parse_till_eol_token [OF assms(1)] parameter_read [OF assms(1), of "9 # render_token v @ 10 # s"]
    parameter_read [OF assms(2), of "10 # s"]
  by (simp add: parse_line_def object_line_def resource_line_def whitespace_one whitespace_none ends_token)

lemma object_line_read:
  assumes "\<forall>(own, k, v) \<in> set ps. wf_token k \<and> wf_token v" "ends is_gap s" "sec \<noteq> bytes ''RESOURCES''"
  shows "object_line sec n conf (render_params ps @ 10 # s) = Inr (add_line sec n (map_of (param_texts ps)) conf, s)"
proof -
  have "whitespace (render_params ps @ 10 # s) = (w, s') \<Longrightarrow> parse_params (\<lambda>_. None) s' = parse_params (\<lambda>_. None) (render_params ps @ 10 # s)" for w s'
  proof -
    assume w: "whitespace (render_params ps @ 10 # s) = (w, s')"
    have "params_end s' = params_end (render_params ps @ 10 # s)"
    proof (cases ps)
      case Nil
      then show ?thesis using w by (simp add: whitespace_none)
    next
      case (Cons p ps')
      obtain own k v where p: "p = (own, k, v)" by (cases p)
      have k: "wf_token k" using assms(1) by (auto simp: Cons p)
      let ?t = "61 # render_token v @ render_params ps' @ 10 # s"
      obtain c r where c: "render_token k = c # r" "\<not> is_gap c" "c \<noteq> 10" using k by (rule token_first)
      show ?thesis
      proof (cases own)
        case True
        then show ?thesis using w by (simp add: Cons p whitespace_none)
      next
        case False
        then have "s' = render_token k @ ?t" using w ends_token [OF k] by (simp add: Cons p whitespace_one)
        then show ?thesis using params_end_more [OF k, of False ?t] False c by (simp add: Cons p params_end_def whitespace_none)
      qed
    qed
    then show ?thesis by (simp add: parse_params.simps [of "\<lambda>_. None"])
  qed
  then show ?thesis
    using params_read [OF assms(1,2), of "\<lambda>_. None"] assms(3)
    by (simp add: object_line_def bind_except_def split: prod.splits)
qed

lemma parse_object_line:
  assumes "wf_token n" "\<forall>(own, k, v) \<in> set ps. wf_token k \<and> wf_token v" "ends is_gap s" "sec \<noteq> bytes ''RESOURCES''"
  shows "parse_line sec conf (render_token n @ render_params ps @ 10 # s) =
    Inr (True, sec, add_line sec (tok_text n) (map_of (param_texts ps)) conf, s)"
proof -
  have "ends plain_next (render_params ps @ 10 # s)" by (cases ps) auto
  then show ?thesis
    using parse_till_eol_token [OF assms(1)] parameter_read [OF assms(1)] object_line_read [OF assms(2-4)]
    by (simp add: parse_line_def)
qed

lemma rendered_ends: "wf_config sec ls \<Longrightarrow> ends is_gap (render_config ls)"
  by (induction sec ls rule: wf_config.induct) (auto simp: render_config_def ends_token)

lemma parse_lines_read:
  "wf_config sec ls \<Longrightarrow> parse_lines sec c (render_config ls) = Inr (config_says sec c ls, [])"
proof (induction sec c ls rule: config_says.induct)
  case (1 sec c)
  have "parse_line sec c [] = Inr (False, sec, c, [])"
    by (simp add: parse_line_def parse_till_eol_def whitespace_none parse_section_def parameter_def)
  then show ?case by (simp add: parse_lines.simps [of sec] render_config_def)
next
  case (2 sec c n ls)
  then show ?case using parse_section_line [of n sec c "render_config ls"]
    by (simp add: parse_lines.simps [of sec] render_config_def)
next
  case (3 sec c k v ls)
  then have sec: "sec = bytes ''RESOURCES''" and wf: "wf_token k" "wf_token v" by simp_all
  show ?case using 3 parse_resource_line [OF wf, of c "render_config ls"]
    by (simp add: parse_lines.simps [of sec c] render_config_def sec [symmetric])
next
  case (4 sec c n ps ls)
  then show ?case using parse_object_line [of n ps "render_config ls" sec c] rendered_ends [of sec ls]
    by (simp add: parse_lines.simps [of sec] render_config_def)
next
  case (5 sec c x ls)
  then show ?case using parse_comment [of x sec c "render_config ls"]
    by (simp add: parse_lines.simps [of sec] render_config_def)
next
  case (6 sec c ls)
  then show ?case using parse_blank_line [of sec c "render_config ls"]
    by (simp add: parse_lines.simps [of sec] render_config_def)
qed

lemma parse_ubb_read: "wf_config [] ls \<Longrightarrow> parse_ubb (render_config ls) = Inr (config_says [] new_ubbconfig ls)"
  by (simp add: parse_ubb_def parse_lines_read)

end
