(* ===== verification/Ubb_Claims.thy ===== *)
theory Ubb_Claims
  imports Ubb_Fits Ubb_Text
begin

text \<open>
  The configuration of a domain: what is read, the sizes and the block time, and what the shared tables hold.
\<close>

subsection \<open>The reader\<close>


subsection \<open>The block time\<close>

lemma scan_digits_stop:
  assumes "\<forall>c \<in> set s. is_digit c" "10 \<le> digit_val d"
  shows "scan_digits 10 acc (s @ d # r) = (digits_val acc s, d # r)"
  using assms
proof (induction s arbitrary: acc)
  case (Cons c s)
  then show ?case using digit_val_digit [of c] by (simp add: mult.commute)
qed simp

lemma stol_prefix:
  assumes "n < 2 ^ 63" "10 \<le> digit_val d"
  shows "stol (show_nat n @ d # r) = Inr (int n)"
proof -
  obtain c cs where c: "show_nat n = c # cs" using show_nat_nonempty [of n] by (cases "show_nat n") auto
  have "is_digit c" using show_nat_digits [of n] c by simp
  then have d: "\<not> is_space c" "c \<noteq> 45" "c \<noteq> 43" "digit_val c < 10"
    using digit_not_special [of c] digit_val_digit [of c] by auto
  have "scan_digits 10 0 (show_nat n @ d # r) = (n, d # r)"
    using scan_digits_stop [OF show_nat_digits assms(2), of 0 n r] by (simp add: digits_val_show)
  then have "strtol 10 (show_nat n @ d # r) = Some (int n, d # r)"
    using d c by (simp add: strtol_def skip_prefix_def starts_digit_def)
  then show ?thesis using assms(1) by (simp add: sto_def)
qed

lemma stol_whole: "n < 2 ^ 63 \<Longrightarrow> stol (show_nat n) = Inr (int n)"
  using stol_show_int [of "int n"] by (simp add: show_int_def)

lemma lower_digits: "map to_lower (show_nat n) = show_nat n"
  using show_nat_digits [of n] by (auto simp: to_lower_def is_digit_def word_le_nat_alt intro!: map_idI)

lemma show_nat_short: "n < 10 \<Longrightarrow> length (show_nat n) = 1"
  by (simp add: show_nat.simps [of n])

lemma show_nat_cut:
  assumes "10 \<le> n"
  shows "2 \<le> length (show_nat n)" "take (length (show_nat n) - 2) (show_nat n) = (if n < 100 then [] else show_nat (n div 100))"
proof -
  have one: "show_nat n = show_nat (n div 10) @ [digit (n mod 10)]" using assms by (simp add: show_nat.simps [of n])
  show "2 \<le> length (show_nat n)" using one show_nat_nonempty [of "n div 10"] by (cases "show_nat (n div 10)") simp_all
  show "take (length (show_nat n) - 2) (show_nat n) = (if n < 100 then [] else show_nat (n div 100))"
  proof (cases "n < 100")
    case True
    then have "n div 10 < 10" by simp
    from show_nat_short [OF this] show ?thesis using True one by simp
  next
    case False
    then have "\<not> n div 10 < 10" by linarith
    then have "show_nat (n div 10) = show_nat (n div 100) @ [digit (n div 10 mod 10)]"
      by (simp add: show_nat.simps [of "n div 10"] div_mult2_eq [symmetric])
    then show ?thesis using False one by simp
  qed
qed

lemma show_nat_no_unit: "2 \<le> length (show_nat n) \<Longrightarrow> drop (length (show_nat n) - 2) (show_nat n) \<noteq> bytes ''ms''"
proof
  assume "drop (length (show_nat n) - 2) (show_nat n) = bytes ''ms''"
  then have "set (bytes ''ms'') \<subseteq> set (show_nat n)" by (metis set_drop_subset)
  then show False using show_nat_digits [of n] by (auto simp: bytes_simps is_digit_def word_le_nat_alt)
qed

text \<open>C39: The block time is the product of BLOCKTIME and SCANUNIT, when SCANUNIT ends in \<open>MS\<close>. The test for these two
  letters is the wrong way round, and is only right because the number stops at them: a SCANUNIT in seconds
  loses its last two digits instead of getting three zeros, so that one below 100 makes the configuration fail
  and any other counts as a hundredth of it in milliseconds.\<close>

theorem scan_units:
  assumes "get_param (bytes ''BLOCKTIME'') p = show_nat b" "get_param (bytes ''SCANUNIT'') p = show_nat k @ unit"
    and "b < 2 ^ 31" "k < 2 ^ 31"
  shows "(unit = bytes ''MS'' \<or> unit = bytes ''ms'' \<longrightarrow> block_time p = Inr (int b * int k)) \<and>
    (unit = [] \<longrightarrow> block_time p = (if k < 10 then Inl (Throw Out_of_range) else if k < 100 then Inl (Throw Invalid_argument)
       else Inr (int b * int (k div 100))))"
proof -
  have b: "or_text (get_param (bytes ''BLOCKTIME'') p) (bytes ''15'') = show_nat b" "stol (show_nat b) = Inr (int b)"
    using assms(1,3) show_nat_nonempty [of b] stol_whole [of b] by (simp_all add: or_text_def)
  have s: "or_text (get_param (bytes ''SCANUNIT'') p) (bytes ''1000MS'') = show_nat k @ unit"
    using assms(2) show_nat_nonempty [of k] by (simp add: or_text_def)
  have prod: "\<not> (int b * int j < - (2 ^ 63) \<or> int b * int j \<ge> 2 ^ 63)" if "j < 2 ^ 31" for j
  proof -
    define q where "q = int b * int j"
    have "q \<le> 2 ^ 31 * 2 ^ 31" unfolding q_def using assms(3) that by (intro mult_mono) simp_all
    moreover have "0 \<le> q" by (simp add: q_def)
    ultimately show ?thesis unfolding q_def [symmetric] by simp
  qed
  have ms: "block_time p = Inr (int b * int k)" if "map to_lower unit = bytes ''ms''"
  proof -
    have "scan_unit (show_nat k @ unit) = Inr ((show_nat k @ bytes ''ms'') @ bytes ''000'')"
      using that by (simp add: scan_unit_def lower_digits Let_def bytes_simps)
    moreover have "stol ((show_nat k @ bytes ''ms'') @ bytes ''000'') = Inr (int k)"
      using stol_prefix [of k 109 "115 # bytes ''000''"] assms(4) by (simp add: bytes_simps digit_val_def)
    ultimately show ?thesis using prod [OF assms(4)] s b by (simp add: block_time_def)
  qed
  have plain: "block_time p = (if k < 10 then Inl (Throw Out_of_range) else if k < 100 then Inl (Throw Invalid_argument)
       else Inr (int b * int (k div 100)))" if "unit = []"
  proof (cases "k < 10")
    case True
    then show ?thesis using that s by (simp add: block_time_def scan_unit_def lower_digits show_nat_short Let_def)
  next
    case False
    then have "scan_unit (show_nat k) = Inr (if k < 100 then [] else show_nat (k div 100))"
      using show_nat_cut [of k] show_nat_no_unit [of k] by (simp add: scan_unit_def lower_digits Let_def)
    moreover have "stol [] = Inl Invalid_argument" by (simp add: sto_def strtol_def skip_prefix_def starts_digit_def)
    moreover have "stol (show_nat (k div 100)) = Inr (int (k div 100))" using assms(4) by (intro stol_whole) simp
    moreover have "k div 100 < 2 ^ 31" using assms(4) by simp
    ultimately show ?thesis using that False s b prod [of "k div 100"] by (simp add: block_time_def)
  qed
  have "map to_lower (bytes ''MS'') = bytes ''ms''" "map to_lower (bytes ''ms'') = bytes ''ms''"
    by (simp_all add: bytes_simps to_lower_def)
  then show ?thesis using ms plain by auto
qed

subsection \<open>The sizes\<close>

text \<open>C40: The sizes of a domain are in their ranges, apart from MAXSERVICES: it may be up to 1048575 but is stored in 16
  bits, so that a larger number is cut (65536 services give a table of none).\<close>

theorem sizes_in_bounds:
  assumes "load_sizes c = Inr (key, z)"
  shows "maxservers z \<in> {1..8192} \<and> maxqueues z \<in> {1..8192} \<and> maxgroups z \<in> {1..32768} \<and> maxaccessers z \<in> {1..32768} \<and>
    key < 2 ^ 32 \<and>
    (\<exists>n \<in> {1..1048575}. checked_get_or (ub_resources c) (bytes ''MAXSERVICES'') 1 1048575 100 = Inr n \<and>
       maxservices z = nat n mod 2 ^ 16)"
proof -
  obtain k a b d e f where
    r: "checked_get_or (ub_resources c) (bytes ''MAXSERVERS'') 1 8192 50 = Inr a"
      "checked_get_or (ub_resources c) (bytes ''MAXSERVICES'') 1 1048575 100 = Inr b"
      "checked_get_or (ub_resources c) (bytes ''MAXGROUPS'') 1 32768 100 = Inr d"
      "checked_get_or (ub_resources c) (bytes ''MAXQUEUES'') 1 8192 50 = Inr e"
      "checked_get_or (ub_resources c) (bytes ''MAXACCESSERS'') 1 32768 100 = Inr f"
    and z: "key = uint32 k" "z = \<lparr>maxservers = uint16 a, maxservices = uint16 b, maxqueues = uint16 e, maxgroups = uint16 d, maxaccessers = uint16 f\<rparr>"
    using assms unfolding load_sizes_def bind_except_def by (auto split: sum.splits)
  have "1 \<le> a \<and> a \<le> 8192" "1 \<le> b \<and> b \<le> 1048575" "1 \<le> d \<and> d \<le> 32768" "1 \<le> e \<and> e \<le> 8192" "1 \<le> f \<and> f \<le> 32768"
    using r by (auto dest: checked_get_or_range)
  moreover have "k mod 2 ^ 32 < 2 ^ 32" by simp
  moreover from this have "nat (k mod 2 ^ 32) < 2 ^ 32" by simp
  ultimately show ?thesis using r(2) by (auto simp: z nat_mod_distrib)
qed

subsection \<open>A configuration\<close>

definition demo_ubb :: "ubb_src list" where
  "demo_ubb =
     [Ub_comment (bytes '' demo''), Ub_section (bytes ''RESOURCES''), Ub_resource (Plain (bytes ''IPCKEY'')) (Plain (bytes ''77'')),
      Ub_resource (Plain (bytes ''MAXSERVICES'')) (Plain (bytes ''65536'')), Ub_blank, Ub_section (bytes ''MACHINES''),
      Ub_object (Plain (bytes ''m'')) [(False, Plain (bytes ''LMID''), Plain (bytes ''L'')),
        (True, Plain (bytes ''TUXCONFIG''), Quoted (bytes ''/t'')), (True, Plain (bytes ''TUXDIR''), Quoted (bytes ''/'')),
        (False, Plain (bytes ''APPDIR''), Quoted (bytes ''/''))],
      Ub_section (bytes ''GROUPS''), Ub_object (Plain (bytes ''G'')) [(False, Plain (bytes ''GRPNO''), Plain (bytes ''1''))],
      Ub_section (bytes ''SERVERS''),
      Ub_object (Plain (bytes ''s'')) [(False, Plain (bytes ''SRVGRP''), Plain (bytes ''G'')), (False, Plain (bytes ''SRVID''), Plain (bytes ''1''))]]"

definition demo_config :: ubbconfig where
  "demo_config = config_says [] new_ubbconfig demo_ubb"

lemma demo_ubb_wf: "wf_config [] demo_ubb"
  by (simp add: demo_ubb_def bytes_simps is_name_def is_letter_def name_char_def is_digit_def plain_first_def plain_next_def is_space_def)


theorem scan_units_witness:
  "block_time [bytes ''BLOCKTIME'' \<mapsto> show_nat 3, bytes ''SCANUNIT'' \<mapsto> show_nat 1000 @ bytes ''MS''] = Inr 3000 \<and>
   block_time [bytes ''BLOCKTIME'' \<mapsto> show_nat 3, bytes ''SCANUNIT'' \<mapsto> show_nat 10] = Inl (Throw Invalid_argument) \<and>
   block_time [bytes ''BLOCKTIME'' \<mapsto> show_nat 3, bytes ''SCANUNIT'' \<mapsto> show_nat 120] = Inr 3"
  using scan_units [of "[bytes ''BLOCKTIME'' \<mapsto> show_nat 3, bytes ''SCANUNIT'' \<mapsto> show_nat 1000 @ bytes ''MS'']" 3 1000 "bytes ''MS''"]
    scan_units [of "[bytes ''BLOCKTIME'' \<mapsto> show_nat 3, bytes ''SCANUNIT'' \<mapsto> show_nat 10]" 3 10 "[]"]
    scan_units [of "[bytes ''BLOCKTIME'' \<mapsto> show_nat 3, bytes ''SCANUNIT'' \<mapsto> show_nat 120]" 3 120 "[]"]
  by (simp add: get_param_def bytes_simps)

lemma stol_ascii [simp]:
  "stol (bytes ''1'') = Inr 1" "stoi 10 (bytes ''77'') = Inr 77" "stol (bytes ''65536'') = Inr 65536" "stol (bytes ''50'') = Inr 50"
  by (simp_all add: sto_def strtol_def bytes_simps is_space_def starts_digit_def skip_prefix_def digit_val_def)

lemma demo_resources:
  "ub_resources demo_config (bytes ''IPCKEY'') = Some (bytes ''77'')"
  "ub_resources demo_config (bytes ''MAXSERVICES'') = Some (bytes ''65536'')"
  "ub_resources demo_config (bytes ''MAXSERVERS'') = Some (bytes ''50'')"
  "ub_resources demo_config (bytes ''MAXACCESSERS'') = Some (bytes ''50'')"
  "ub_resources demo_config (bytes ''MAXGROUPS'') = None" "ub_resources demo_config (bytes ''MAXQUEUES'') = None"
  "ub_resources demo_config (bytes ''BLOCKTIME'') = None" "ub_resources demo_config (bytes ''SCANUNIT'') = None"
  by (simp_all add: demo_config_def demo_ubb_def bytes_simps new_ubbconfig_def add_line_def)

lemma demo_sizes_cut:
  "load_sizes demo_config = Inr (77, \<lparr>maxservers = 50, maxservices = 0, maxqueues = 50, maxgroups = 100, maxaccessers = 50\<rparr>)"
  by (simp add: load_sizes_def demo_resources checked_get_or_def in_limits_def stol_ascii [simplified])

theorem sizes_in_bounds_witness:
  "\<exists>n \<in> {1..1048575}. checked_get_or (ub_resources demo_config) (bytes ''MAXSERVICES'') 1 1048575 100 = Inr n \<and> (0 :: nat) = nat n mod 2 ^ 16"
  using sizes_in_bounds [OF demo_sizes_cut] by simp

definition demo_ubb_env :: ubb_env where
  "demo_ubb_env =
     \<lparr>ue_TUXCONFIG = Some (bytes ''/t''), ue_hash = (\<lambda>s. of_nat (length s)), ue_rand = 5, ue_ipckey = 77,
      ue_conf = \<lparr>maxservers = 2, maxservices = 2, maxqueues = 2, maxgroups = 2, maxaccessers = 0\<rparr>\<rparr>"

lemma demo_sections:
  "ub_machines demo_config = [(bytes ''m'', [bytes ''LMID'' \<mapsto> bytes ''L'', bytes ''TUXCONFIG'' \<mapsto> bytes ''/t'',
     bytes ''TUXDIR'' \<mapsto> bytes ''/'', bytes ''APPDIR'' \<mapsto> bytes ''/''])]"
  "ub_groups demo_config = [(bytes ''G'', [bytes ''GRPNO'' \<mapsto> bytes ''1''])]"
  "ub_servers demo_config = [(bytes ''s'', [bytes ''SRVGRP'' \<mapsto> bytes ''G'', bytes ''SRVID'' \<mapsto> bytes ''1''])]"
  by (auto simp: demo_config_def demo_ubb_def bytes_simps new_ubbconfig_def add_line_def param_texts_def)

lemma demo_block_time: "block_time (ub_resources demo_config) = Inr 15000"
proof -
  have "stol (bytes ''15'') = Inr 15" "stol (bytes ''1000ms'' @ bytes ''000'') = Inr 1000"
    by (simp_all add: sto_def strtol_def bytes_simps is_space_def starts_digit_def skip_prefix_def digit_val_def)
  moreover have "scan_unit (bytes ''1000MS'') = Inr (bytes ''1000ms'' @ bytes ''000'')"
    by (simp add: scan_unit_def bytes_simps to_lower_def Let_def)
  moreover have "or_text [] (bytes ''1000MS'') = bytes ''1000MS''" "or_text [] (bytes ''15'') = bytes ''15''" by (simp_all add: or_text_def)
  ultimately show ?thesis by (simp add: block_time_def get_param_def demo_resources)
qed

lemma demo_group_params: "checked_get [bytes ''GRPNO'' \<mapsto> bytes ''1''] (bytes ''GRPNO'') 1 30000 = Inr 1"
  "get_param (bytes ''TMSNAME'') [bytes ''GRPNO'' \<mapsto> bytes ''1''] = []" "get_param (bytes ''OPENINFO'') [bytes ''GRPNO'' \<mapsto> bytes ''1''] = []"
  "get_param (bytes ''CLOSEINFO'') [bytes ''GRPNO'' \<mapsto> bytes ''1''] = []"
  by (simp_all add: checked_get_def in_limits_def get_param_def bytes_simps stol_ascii [simplified, unfolded bytes_simps, simplified])

definition demo_server_conf :: server_conf where
  "demo_server_conf =
     \<lparr>sc_name = bytes ''s'', sc_params = [bytes ''SRVGRP'' \<mapsto> bytes ''G'', bytes ''SRVID'' \<mapsto> bytes ''1''], sc_base = 1, sc_min = 1,
      sc_minthreads = 1, sc_maxthreads = 1, sc_grpno = 1\<rparr>"

lemma demo_server_line:
  "server_line (numbers_of (ub_groups demo_config)) (bytes ''s'', [bytes ''SRVGRP'' \<mapsto> bytes ''G'', bytes ''SRVID'' \<mapsto> bytes ''1'']) =
   Inr (demo_server_conf, 1)"
  by (simp add: server_line_def demo_sections numbers_of_def group_no_def demo_group_params checked_get_def checked_get_or_def in_limits_def
      at_param_def demo_server_conf_def)
    (simp add: bytes_simps stol_ascii [simplified, unfolded bytes_simps, simplified])

definition demo_server_decl :: declared_server where
  "demo_server_decl =
     \<lparr>ds_id = 1, ds_grpno = 1, ds_name = bytes ''s'', ds_opts = [], ds_addr = bytes ''1.1'', ds_autostart = True, ds_threads = Some (1, 1)\<rparr>"

lemma demo_line_servers:
  "line_servers (numbers_of (ub_groups demo_config)) (bytes ''s'', [bytes ''SRVGRP'' \<mapsto> bytes ''G'', bytes ''SRVID'' \<mapsto> bytes ''1'']) = [demo_server_decl]"
  unfolding line_servers_def demo_server_line
  by (simp add: declared_def demo_server_conf_def get_param_def demo_server_decl_def)
    (simp add: bytes_simps show_nat.simps [of "Suc 0"] digit_def)

lemma demo_declared_servers: "declared_servers demo_config = [bbl_server, demo_server_decl]"
  unfolding declared_servers_def demo_sections(3)
  by (simp add: demo_line_servers) (simp add: demo_sections group_servers_def demo_group_params)

lemma demo_text_config: "text_config demo_config"
  by (auto simp: text_config_def text_section_def demo_sections bytes_simps split: if_splits)

lemma demo_machine_fits: "machine_fits (bytes ''m'') [bytes ''LMID'' \<mapsto> bytes ''L'', bytes ''TUXCONFIG'' \<mapsto> bytes ''/t'',
     bytes ''TUXDIR'' \<mapsto> bytes ''/'', bytes ''APPDIR'' \<mapsto> bytes ''/'']"
  by (simp add: machine_fits_def short_param_def get_param_def bytes_simps)

lemma demo_empty_domain: "empty_domain demo_mib"
  using demo_mib_ok by (simp add: empty_domain_def empty_machine_def demo_mib_def)

lemma demo_config_fits: "config_fits demo_ubb_env demo_config demo_mib"
proof -
  have "\<exists>name p. ub_machines demo_config = [(name, p)] \<and> machine_fits name p \<and> p (bytes ''TUXCONFIG'') = ue_TUXCONFIG demo_ubb_env"
    using demo_machine_fits by (auto simp: demo_sections demo_ubb_env_def bytes_simps)
  moreover have "\<forall>g \<in> set (ub_groups demo_config). group_fits g"
    by (simp add: demo_sections group_fits_def demo_group_params group_servers_def is_ok_def) (simp add: bytes_simps)
  moreover have "distinct (map (group_no \<circ> snd) (ub_groups demo_config))" by (simp add: demo_sections)
  moreover have "\<forall>c \<in> set (ub_servers demo_config). is_ok (server_line (numbers_of (ub_groups demo_config)) c) \<and>
      (\<forall>d \<in> set (line_servers (numbers_of (ub_groups demo_config)) c). server_text d)"
    unfolding demo_sections(3)
    by (simp add: demo_server_line demo_line_servers is_ok_def demo_server_decl_def server_text_def) (simp add: bytes_simps)
  moreover have "distinct (map pair_of (declared_servers demo_config))"
    by (simp add: demo_declared_servers pair_of_def bbl_server_def demo_server_decl_def)
  moreover have "free_slots (length (declared_servers demo_config)) demo_mib"
    by (simp add: demo_declared_servers free_slots_def demo_mib_ok)
  moreover have "free_groups (length (ub_groups demo_config)) demo_mib"
    by (simp add: demo_sections free_groups_def demo_mib_def arr_init_def)
  ultimately show ?thesis by (simp add: config_fits_def demo_block_time)
qed


lemma demo_ubb2mib: "\<exists>m'. ubb2mib demo_ubb_env demo_config demo_mib = (Inr (), m')"
  using ubb2mib_runs [OF demo_empty_domain demo_text_config demo_config_fits] by blast


subsection \<open>Lines that are refused\<close>

text \<open>A comment after the parameters of an object, and a line of white space after one, are errors.\<close>

theorem comment_after_params:
  "parse_params ps (9 # 35 # s) = Inl Runtime_error \<and> parse_params ps (10 # 9 # 10 # s) = Inl Runtime_error"
  by (simp add: parse_params.simps [of ps] params_end_def whitespace_one whitespace_none param_pair_def parameter_def
      plain_first_def is_space_def)

end
