(* ===== verification/Fml_Ptr.thy ===== *)
theory Fml_Ptr
  imports Fml_Mutate Atmi
begin

text \<open>
  \<open>fml32ptr\<close> of src/fux.h as other code uses it: \<open>mutate\<close> with its exception, for the operations that change or
  add one field.
\<close>

text \<open>\<open>mutate\<close> over the pointer to the buffer\<close>

definition mutate_ptr :: "(fbfr \<Rightarrow> unit outcome \<times> fbp) \<Rightarrow> fbp \<Rightarrow> (unit, fbp) call" where
  "mutate_ptr f p =
     (case p of
        Buf b \<Rightarrow>
          (case mutate (\<lambda>b. case f b of (r, Buf b') \<Rightarrow> (r, b') | (r, _) \<Rightarrow> (r, b)) b of
             None \<Rightarrow> (Inl No_return, p)
           | Some (Ret _, b') \<Rightarrow> (Inr (), Buf b')
           | Some (Err e, b') \<Rightarrow> (Inl (Throw Fml32buf_error), Buf b')
           | Some (Stuck, b') \<Rightarrow> (Inl Undefined, Buf b'))
      | _ \<Rightarrow> (Inl (Throw Fml32buf_error), p))"

text \<open>The buffer that \<open>reinit\<close> makes for a null pointer: 1024 bytes, initialised.\<close>

definition fresh_buffer :: fbfr where
  "fresh_buffer = snd (fb_init 1024 blank)"

lemma fresh_buffer_rep: "rep fresh_buffer []"
  by (simp add: fresh_buffer_def blank_init)

lemma cstr_text: "0 \<notin> set s \<Longrightarrow> cstr (s @ [0]) = s"
  unfolding cstr_def by (subst takeWhile_append2) auto

subsection \<open>Adding an occurrence\<close>

text \<open>\<open>Fadd32\<close> and \<open>CFadd32\<close> change the occurrence behind the last one.\<close>

definition add_ready :: "chunk list \<Rightarrow> fldid \<Rightarrow> byte list \<Rightarrow> nat \<Rightarrow> nat \<Rightarrow> fbfr \<Rightarrow> bool" where
  "add_ready cs fid v flen n = chg_ready cs fid (int (length (occs cs fid))) v flen n"

lemma add_is_chg:
  "add_ready cs fid v flen n b \<Longrightarrow>
   fb_chg fid (fb_occur fid b) (Some v) flen b = fb_chg fid (int (length (occs cs fid))) (Some v) flen b"
  by (auto simp: add_ready_def chg_ready_def dest: rep_occur)

interpretation add_grows: growing "\<lambda>b. fb_chg fid (fb_occur fid b) (Some v) flen b" "add_ready cs fid v flen n"
    "chg_room cs fid (int (length (occs cs fid))) n" for cs fid v flen n
proof
  fix b
  assume i: "add_ready cs fid v flen n b"
  then have c: "chg_ready cs fid (int (length (occs cs fid))) v flen n b" by (simp add: add_ready_def)
  show "\<exists>r b'. fb_chg fid (fb_occur fid b) (Some v) flen b = (Ret r, b')"
    if "chg_room cs fid (int (length (occs cs fid))) n \<le> bsize b"
    using chg_grows.fits [OF c that] add_is_chg [OF i] by simp
  show "\<exists>r b'. fb_chg fid (fb_occur fid b) (Some v) flen b = (Ret r, b') \<or>
      (fb_chg fid (fb_occur fid b) (Some v) flen b = (Err FNOSPACE, b') \<and> add_ready cs fid v flen n b' \<and> bsize b' = bsize b)"
    using chg_grows.tight [OF c] add_is_chg [OF i] by (simp add: add_ready_def)
  show "add_ready cs fid v flen n (b\<lparr>bsize := m\<rparr>)" if "bsize b \<le> m" "m + min_size < 2 ^ 32" for m
    using chg_grows.inv_grow [OF c that] by (simp add: add_ready_def)
qed

lemma mutate_add:
  assumes "rep b cs" "valid_id fid" "good_value (Fldtype32 fid) v flen n" "blen b + field_size fid n + min_size < 2 ^ 31"
  shows "\<exists>b' ds. mutate (\<lambda>b. fb_chg fid (fb_occur fid b) (Some v) flen b) b = Some (Ret (), b') \<and> rep b' ds \<and>
           occs ds = (occs cs)(fid := occs cs fid @ [stored (Fldtype32 fid) v n]) \<and> blen b' = blen b + field_size fid n"
proof -
  let ?oc = "int (length (occs cs fid))"
  have need: "chg_need cs fid ?oc n = int (field_size fid n)" by (simp add: chg_need_def old_size_def length_occs)
  have "add_ready cs fid v flen n b" using assms by (simp add: add_ready_def chg_ready_def)
  moreover have "chg_room cs fid ?oc n + min_size < 2 ^ 31"
    using assms(4) rep_blen [OF assms(1)] by (simp add: chg_room_def need nat_add_distrib)
  ultimately obtain b1 b' where m: "add_ready cs fid v flen n b1" "fb_chg fid (fb_occur fid b1) (Some v) flen b1 = (Ret (), b')"
    "mutate (\<lambda>b. fb_chg fid (fb_occur fid b) (Some v) flen b) b = Some (Ret (), b')"
    using add_grows.mutate_returns [of cs fid n v flen b] by auto
  have r: "rep b1 cs" "valid_id fid" "good_value (Fldtype32 fid) v flen n" "?oc \<le> ?oc"
    using m(1) by (auto simp: add_ready_def chg_ready_def)
  have c: "fb_chg fid ?oc (Some v) flen b1 = (Ret (), b')" using m(2) add_is_chg [OF m(1)] by simp
  have "int (blen b1) + chg_need cs fid ?oc n \<le> int (bsize b1)" using rep_chg_near(1) [OF r] c by fastforce
  from rep_chg_near(2) [OF r this, where d = "[]"] c
  have "becomes b1 b' ((occs cs)(fid := change_list (occs cs fid) ?oc (stored (Fldtype32 fid) v n) []))"
    "int (blen b') = int (blen b1) + int (field_size fid n)" by (auto simp: need)
  moreover have "blen b1 = blen b" using rep_blen [OF r(1)] rep_blen [OF assms(1)] by simp
  ultimately show ?thesis using m(3) by (auto simp: becomes_def change_list_def)
qed

end
