(* ===== verification/Admin.thy ===== *)
theory Admin
  imports Fml_Ptr Mib Basic_Parser Ipc
begin

text \<open>
  Administration calls: src/tpadmcall.cpp over the shared tables of src/mib.cpp and the fielded buffers, with
  \<open>fml32buf\<close> of src/fux.h and the field identifiers of include/tpadm.h. An operation changes the output
  buffer as far as it comes: what was put before an exception stays in it.
\<close>

subsection \<open>Fields\<close>

abbreviation (input) TA_OCCURS :: fldid where "TA_OCCURS \<equiv> 16777320"
abbreviation (input) TA_ERROR :: fldid where "TA_ERROR \<equiv> 16777326"
abbreviation (input) TA_GRPNO :: fldid where "TA_GRPNO \<equiv> 16777328"
abbreviation (input) TA_SRVID :: fldid where "TA_SRVID \<equiv> 16777355"
abbreviation (input) TA_IPCKEY :: fldid where "TA_IPCKEY \<equiv> 16777358"
abbreviation (input) TA_MAXACCESSERS :: fldid where "TA_MAXACCESSERS \<equiv> 16777359"
abbreviation (input) TA_MAXGROUPS :: fldid where "TA_MAXGROUPS \<equiv> 16777360"
abbreviation (input) TA_MAXSERVERS :: fldid where "TA_MAXSERVERS \<equiv> 16777361"
abbreviation (input) TA_MAXSERVICES :: fldid where "TA_MAXSERVICES \<equiv> 16777362"
abbreviation (input) TA_MAXQUEUES :: fldid where "TA_MAXQUEUES \<equiv> 16777363"
abbreviation (input) TA_LOAD :: fldid where "TA_LOAD \<equiv> 16777375"
abbreviation (input) TA_PRIO :: fldid where "TA_PRIO \<equiv> 16777376"
abbreviation (input) TA_BLOCKTIME :: fldid where "TA_BLOCKTIME \<equiv> 16777377"
abbreviation (input) TA_SVCTIMEOUT :: fldid where "TA_SVCTIMEOUT \<equiv> 16777378"
abbreviation (input) TA_TRANTIME :: fldid where "TA_TRANTIME \<equiv> 16777379"
abbreviation (input) TA_NQUEUED :: fldid where "TA_NQUEUED \<equiv> 16777389"
abbreviation (input) TA_GRACE :: fldid where "TA_GRACE \<equiv> 16777391"
abbreviation (input) TA_MAXGEN :: fldid where "TA_MAXGEN \<equiv> 16777392"
abbreviation (input) TA_RQID :: fldid where "TA_RQID \<equiv> 16777396"
abbreviation (input) TA_SERVERCNT :: fldid where "TA_SERVERCNT \<equiv> 16777397"
abbreviation (input) TA_TOTNQUEUED :: fldid where "TA_TOTNQUEUED \<equiv> 16777398"
abbreviation (input) TA_TOTWKQUEUED :: fldid where "TA_TOTWKQUEUED \<equiv> 16777399"
abbreviation (input) TA_WKQUEUED :: fldid where "TA_WKQUEUED \<equiv> 16777401"
abbreviation (input) TA_BASESRVID :: fldid where "TA_BASESRVID \<equiv> 16777403"
abbreviation (input) TA_MIN :: fldid where "TA_MIN \<equiv> 16777407"
abbreviation (input) TA_MAX :: fldid where "TA_MAX \<equiv> 16777408"
abbreviation (input) TA_MINDISPATCHTHREADS :: fldid where "TA_MINDISPATCHTHREADS \<equiv> 16777409"
abbreviation (input) TA_MAXDISPATCHTHREADS :: fldid where "TA_MAXDISPATCHTHREADS \<equiv> 16777410"
abbreviation (input) TA_THREADSTACKSIZE :: fldid where "TA_THREADSTACKSIZE \<equiv> 16777411"
abbreviation (input) TA_CURDISPATCHTHREADS :: fldid where "TA_CURDISPATCHTHREADS \<equiv> 16777412"
abbreviation (input) TA_HWDISPATCHTHREADS :: fldid where "TA_HWDISPATCHTHREADS \<equiv> 16777413"
abbreviation (input) TA_NUMDISPATCHTHREADS :: fldid where "TA_NUMDISPATCHTHREADS \<equiv> 16777414"
abbreviation (input) TA_OPERATION :: fldid where "TA_OPERATION \<equiv> 83886181"
abbreviation (input) TA_CLASS :: fldid where "TA_CLASS \<equiv> 83886182"
abbreviation (input) TA_SRVGRP :: fldid where "TA_SRVGRP \<equiv> 83886191"
abbreviation (input) TA_LMID :: fldid where "TA_LMID \<equiv> 83886193"
abbreviation (input) TA_STATE :: fldid where "TA_STATE \<equiv> 83886194"
abbreviation (input) TA_MODEL :: fldid where "TA_MODEL \<equiv> 83886228"
abbreviation (input) TA_MASTER :: fldid where "TA_MASTER \<equiv> 83886229"
abbreviation (input) TA_PMID :: fldid where "TA_PMID \<equiv> 83886230"
abbreviation (input) TA_TUXCONFIG :: fldid where "TA_TUXCONFIG \<equiv> 83886231"
abbreviation (input) TA_TUXDIR :: fldid where "TA_TUXDIR \<equiv> 83886232"
abbreviation (input) TA_APPDIR :: fldid where "TA_APPDIR \<equiv> 83886233"
abbreviation (input) TA_ULOGPFX :: fldid where "TA_ULOGPFX \<equiv> 83886234"
abbreviation (input) TA_TLOGDEVICE :: fldid where "TA_TLOGDEVICE \<equiv> 83886235"
abbreviation (input) TA_SERVICENAME :: fldid where "TA_SERVICENAME \<equiv> 83886237"
abbreviation (input) TA_AUTOTRAN :: fldid where "TA_AUTOTRAN \<equiv> 83886238"
abbreviation (input) TA_BUFTYPE :: fldid where "TA_BUFTYPE \<equiv> 83886244"
abbreviation (input) TA_ROUTINGNAME :: fldid where "TA_ROUTINGNAME \<equiv> 83886245"
abbreviation (input) TA_SIGNATURE_REQUIRED :: fldid where "TA_SIGNATURE_REQUIRED \<equiv> 83886246"
abbreviation (input) TA_ENCRYPTION_REQUIRED :: fldid where "TA_ENCRYPTION_REQUIRED \<equiv> 83886247"
abbreviation (input) TA_BUFTYPECONV :: fldid where "TA_BUFTYPECONV \<equiv> 83886248"
abbreviation (input) TA_CACHINGNAME :: fldid where "TA_CACHINGNAME \<equiv> 83886249"
abbreviation (input) TA_SVCRNAM :: fldid where "TA_SVCRNAM \<equiv> 83886250"
abbreviation (input) TA_SVCTYPE :: fldid where "TA_SVCTYPE \<equiv> 83886251"
abbreviation (input) TA_RQADDR :: fldid where "TA_RQADDR \<equiv> 83886254"
abbreviation (input) TA_RCMD :: fldid where "TA_RCMD \<equiv> 83886257"
abbreviation (input) TA_RESTART :: fldid where "TA_RESTART \<equiv> 83886258"
abbreviation (input) TA_CONV :: fldid where "TA_CONV \<equiv> 83886259"
abbreviation (input) TA_SOURCE :: fldid where "TA_SOURCE \<equiv> 83886264"
abbreviation (input) TA_SERVERNAME :: fldid where "TA_SERVERNAME \<equiv> 83886266"
abbreviation (input) TA_CLOPT :: fldid where "TA_CLOPT \<equiv> 83886268"
abbreviation (input) TA_ENVFILE :: fldid where "TA_ENVFILE \<equiv> 83886269"
abbreviation (input) TA_DEPENDSON :: fldid where "TA_DEPENDSON \<equiv> 83886270"

abbreviation (input) TAOK :: int where "TAOK \<equiv> 0"

subsection \<open>Reading and writing a buffer\<close>

text \<open>The overloads of \<open>put\<close>: a \<open>long\<close>, and a \<open>std::string\<close>, whose bytes end in a NUL.\<close>

datatype ta_value = TA_long int | TA_text "byte list"

fun chg_value :: "fp_ops \<Rightarrow> fldid \<Rightarrow> int \<Rightarrow> ta_value \<Rightarrow> fbfr \<Rightarrow> unit outcome \<times> fbp" where
  "chg_value fp fieldid oc (TA_long i) b = CFchg32 fp (Buf b) fieldid oc (Some (enc_le 8 i)) 8 FLD_LONG"
| "chg_value fp fieldid oc (TA_text s) b = CFchg32 fp (Buf b) fieldid oc (Some (s @ [0])) (length s) FLD_CARRAY"

definition put_value :: "fp_ops \<Rightarrow> fldid \<Rightarrow> int \<Rightarrow> ta_value \<Rightarrow> fbp \<Rightarrow> (unit, fbp) call" where
  "put_value fp fieldid oc v p = mutate_ptr (chg_value fp fieldid oc v) p"

text \<open>\<open>get<long>\<close> and \<open>get<std::string>\<close>: the value, or an exception or the default for one that is missing\<close>

definition fetch_long :: "fp_ops \<Rightarrow> fldid \<Rightarrow> int \<Rightarrow> int option \<Rightarrow> fbp \<Rightarrow> stop + int" where
  "fetch_long fp fieldid oc d p =
     (case fst (CFget32 fp p fieldid oc None FLD_LONG) of
        Ret v \<Rightarrow> Inr (sdec_le v)
      | Err e \<Rightarrow> (case d of None \<Rightarrow> Inl (Throw Fml32buf_error) | Some i \<Rightarrow> Inr i)
      | Stuck \<Rightarrow> Inl Undefined)"

definition fetch_text :: "fp_ops \<Rightarrow> fldid \<Rightarrow> int \<Rightarrow> byte list option \<Rightarrow> fbp \<Rightarrow> stop + byte list" where
  "fetch_text fp fieldid oc d p =
     (case fst (CFfind32 fp p fieldid oc FLD_CARRAY) of
        Ret (v, n) \<Rightarrow> Inr (c_string v)
      | Err e \<Rightarrow> (case d of None \<Rightarrow> Inl (Throw Fml32buf_error) | Some s \<Rightarrow> Inr s)
      | Stuck \<Rightarrow> Inl Undefined)"

subsection \<open>Reports\<close>

text \<open>
  The fields that one turn of a loop puts, in order; computing one may throw, when the fields before it are
  already in the buffer.
\<close>

type_synonym columns = "(fldid \<times> ta_value except) list"

fun put_columns :: "fp_ops \<Rightarrow> int \<Rightarrow> columns \<Rightarrow> fbp \<Rightarrow> (unit, fbp) call" where
  "put_columns fp oc [] p = (Inr (), p)"
| "put_columns fp oc ((fieldid, v) # cs) p =
     (case v of
        Inl e \<Rightarrow> (Inl (Throw e), p)
      | Inr x \<Rightarrow> seqx (put_value fp fieldid oc x p) (\<lambda>_ p. put_columns fp oc cs p))"

text \<open>The loop over a table: \<open>None\<close> for an entry that is left out; the result is the number of rows.\<close>

fun put_rows :: "fp_ops \<Rightarrow> (nat \<Rightarrow> columns option except) \<Rightarrow> nat \<Rightarrow> nat \<Rightarrow> int \<Rightarrow> fbp \<Rightarrow> (int, fbp) call" where
  "put_rows fp row 0 i oc p = (Inr oc, p)"
| "put_rows fp row (Suc left) i oc p =
     (case row i of
        Inl e \<Rightarrow> (Inl (Throw e), p)
      | Inr None \<Rightarrow> put_rows fp row left (Suc i) oc p
      | Inr (Some cs) \<Rightarrow> seqx (put_columns fp oc cs p) (\<lambda>_ p. put_rows fp row left (Suc i) (oc + 1) p))"

definition put_occurs :: "fp_ops \<Rightarrow> int \<Rightarrow> fbp \<Rightarrow> (unit, fbp) call" where
  "put_occurs fp oc p = put_columns fp 0 [(TA_ERROR, Inr (TA_long TAOK)), (TA_OCCURS, Inr (TA_long oc))] p"

definition report :: "fp_ops \<Rightarrow> (nat \<Rightarrow> columns option except) \<Rightarrow> nat \<Rightarrow> fbp \<Rightarrow> (unit, fbp) call" where
  "report fp row len p = seqx (put_rows fp row len 0 0 p) (\<lambda>oc p. put_occurs fp oc p)"

subsection \<open>The domain and the machine\<close>

definition domain_columns :: "t_domain \<Rightarrow> columns" where
  "domain_columns d =
    [(TA_IPCKEY, Inr (TA_long (int (dom_ipckey d)))),
      (TA_MODEL, Inr (TA_text (bytes ''SHM''))),
      (TA_MASTER, Inr (TA_text (c_string (dom_master d)))),
      (TA_MAXSERVERS, Inr (TA_long (int (dom_maxservers d)))),
      (TA_MAXSERVICES, Inr (TA_long (int (dom_maxservices d)))),
      (TA_MAXQUEUES, Inr (TA_long (int (dom_maxqueues d)))),
      (TA_MAXGROUPS, Inr (TA_long (int (dom_maxgroups d)))),
      (TA_MAXACCESSERS, Inr (TA_long (int (dom_maxaccessers d))))]"

definition t_domain_get :: "fp_ops \<Rightarrow> mibmem \<Rightarrow> fbp \<Rightarrow> (unit, fbp) call" where
  "t_domain_get fp m p = seqx (put_columns fp 0 (domain_columns (domain_info m)) p) (\<lambda>_ p. put_occurs fp 1 p)"

definition machine_columns :: "t_machine \<Rightarrow> columns" where
  "machine_columns x =
    [(TA_PMID, Inr (TA_text (c_string (mach_address x)))),
      (TA_LMID, Inr (TA_text (c_string (mach_lmid x)))),
      (TA_APPDIR, Inr (TA_text (c_string (mach_appdir x)))),
      (TA_TUXCONFIG, Inr (TA_text (c_string (mach_tuxconfig x)))),
      (TA_TUXDIR, Inr (TA_text (c_string (mach_tuxdir x)))),
      (TA_ULOGPFX, Inr (TA_text (c_string (mach_ulogpfx x)))),
      (TA_TLOGDEVICE, Inr (TA_text (c_string (mach_tlogdevice x)))),
      (TA_BLOCKTIME, Inr (TA_long (mach_blocktime x)))]"

definition t_machine_get :: "fp_ops \<Rightarrow> mibmem \<Rightarrow> fbp \<Rightarrow> (unit, fbp) call" where
  "t_machine_get fp m p = seqx (put_columns fp 0 (machine_columns (mach m)) p) (\<lambda>_ p. put_occurs fp 1 p)"

subsection \<open>Services and advertisements\<close>

definition service_columns :: "mib_service \<Rightarrow> columns" where
  "service_columns s =
    [(TA_SERVICENAME, Inr (TA_text (c_string (servicename s)))),
      (TA_STATE, Inr (TA_text (state_to_string (svc_state s)))),
      (TA_AUTOTRAN, Inr (TA_text (c_string (autotran s)))),
      (TA_LOAD, Inr (TA_long (svc_load s))),
      (TA_PRIO, Inr (TA_long (svc_prio s))),
      (TA_BLOCKTIME, Inr (TA_long (svc_blocktime s))),
      (TA_SVCTIMEOUT, Inr (TA_long (svctimeout s))),
      (TA_TRANTIME, Inr (TA_long (trantime s))),
      (TA_BUFTYPE, Inr (TA_text (c_string (buftype s)))),
      (TA_ROUTINGNAME, Inr (TA_text (c_string (routingname s)))),
      (TA_SIGNATURE_REQUIRED, Inr (TA_text (c_string (signature_required s)))),
      (TA_ENCRYPTION_REQUIRED, Inr (TA_text (c_string (encryption_required s)))),
      (TA_BUFTYPECONV, Inr (TA_text (c_string (buftypeconv s)))),
      (TA_CACHINGNAME, Inr (TA_text (c_string (cachingname s))))]"

definition service_row :: "mibmem \<Rightarrow> nat \<Rightarrow> columns option except" where
  "service_row m i =
     bind_except (arr_at (services m) i) (\<lambda>s. Inr (if svc_state s = INValid then None else Some (service_columns s)))"

definition t_service_get :: "fp_ops \<Rightarrow> mibmem \<Rightarrow> fbp \<Rightarrow> (unit, fbp) call" where
  "t_service_get fp m p = report fp (service_row m) (arr_len (services m)) p"

definition svcgrp_columns :: "mibmem \<Rightarrow> advertisement \<Rightarrow> mib_service \<Rightarrow> columns" where
  "svcgrp_columns m a s =
    [(TA_SERVICENAME, Inr (TA_text (c_string (servicename s)))),
      (TA_GRPNO, map_sum id (\<lambda>v. TA_long (int (srv_grpno v))) (arr_at (servers m) (adv_server a))),
      (TA_STATE, Inr (TA_text (state_to_string (adv_state a)))),
      (TA_AUTOTRAN, Inr (TA_text (c_string (autotran s)))),
      (TA_LOAD, Inr (TA_long (svc_load s))),
      (TA_PRIO, Inr (TA_long (svc_prio s))),
      (TA_BLOCKTIME, Inr (TA_long (svc_blocktime s))),
      (TA_SVCTIMEOUT, Inr (TA_long (svctimeout s))),
      (TA_TRANTIME, Inr (TA_long (trantime s))),
      (TA_LMID, Inr (TA_text (c_string (mach_lmid (mach m))))),
      (TA_RQADDR, map_sum id (\<lambda>q. TA_text (c_string (rqaddr q))) (arr_at (queues m) (adv_queue a))),
      (TA_SRVID, map_sum id (\<lambda>v. TA_long (int (srvid v))) (arr_at (servers m) (adv_server a))),
      (TA_SVCRNAM, Inr (TA_text (bytes ''?''))),
      (TA_BUFTYPE, Inr (TA_text (c_string (buftype s)))),
      (TA_ROUTINGNAME, Inr (TA_text (c_string (routingname s)))),
      (TA_SVCTYPE, Inr (TA_text (bytes ''APP'')))]"

definition svcgrp_row :: "mibmem \<Rightarrow> nat \<Rightarrow> columns option except" where
  "svcgrp_row m i =
     bind_except (arr_at (advertisements m) i) (\<lambda>a.
     bind_except (arr_at (services m) (adv_service a)) (\<lambda>s. Inr (Some (svcgrp_columns m a s))))"

definition t_svcgrp_get :: "fp_ops \<Rightarrow> mibmem \<Rightarrow> fbp \<Rightarrow> (unit, fbp) call" where
  "t_svcgrp_get fp m p = report fp (svcgrp_row m) (arr_len (advertisements m)) p"

subsection \<open>Servers and queues\<close>

definition server_columns :: "mibmem \<Rightarrow> mib_server \<Rightarrow> columns" where
  "server_columns m s =
    [(TA_SRVGRP, map_sum id (\<lambda>g. TA_text (c_string (srvgrp g))) (arr_at (groups m) (srv_group_idx s))),
      (TA_SRVID, Inr (TA_long (int (srvid s)))),
      (TA_SERVERNAME, Inr (TA_text (c_string (servername s)))),
      (TA_GRPNO, map_sum id (\<lambda>g. TA_long (int (grp_grpno g))) (arr_at (groups m) (srv_group_idx s))),
      (TA_STATE, Inr (TA_text (state_to_string (srv_state s)))),
      (TA_BASESRVID, Inr (TA_long (int (basesrvid s)))),
      (TA_CLOPT, Inr (TA_text (c_string (clopt s)))),
      (TA_ENVFILE, Inr (TA_text (c_string (envfile s)))),
      (TA_DEPENDSON, Inr (TA_text (c_string (dependson s)))),
      (TA_GRACE, Inr (TA_long (grace s))),
      (TA_MAXGEN, Inr (TA_long (int (maxgen s)))),
      (TA_MIN, Inr (TA_long (int (srv_min s)))),
      (TA_MAX, Inr (TA_long (int (srv_max s)))),
      (TA_MINDISPATCHTHREADS, Inr (TA_long (int (mindispatchthreads s)))),
      (TA_MAXDISPATCHTHREADS, Inr (TA_long (int (maxdispatchthreads s)))),
      (TA_THREADSTACKSIZE, Inr (TA_long (threadstacksize s))),
      (TA_CURDISPATCHTHREADS, Inr (TA_long (int (curdispatchthreads s)))),
      (TA_HWDISPATCHTHREADS, Inr (TA_long (int (hwdispatchthreads s)))),
      (TA_NUMDISPATCHTHREADS, Inr (TA_long (int (numdispatchthreads s)))),
      (TA_RCMD, Inr (TA_text (c_string (rcmd s)))),
      (TA_RESTART, Inr (TA_long (of_bool (restart s)))),
      (TA_LMID, Inr (TA_text (c_string (mach_lmid (mach m)))))]"

definition server_row :: "mibmem \<Rightarrow> nat \<Rightarrow> columns option except" where
  "server_row m i = bind_except (arr_at (servers m) i) (\<lambda>s. Inr (Some (server_columns m s)))"

definition t_server_get :: "fp_ops \<Rightarrow> mibmem \<Rightarrow> fbp \<Rightarrow> (unit, fbp) call" where
  "t_server_get fp m p = report fp (server_row m) (arr_len (servers m)) p"

definition queue_columns :: "mibmem \<Rightarrow> mib_queue \<Rightarrow> mib_server \<Rightarrow> columns" where
  "queue_columns m q s =
    [(TA_RQADDR, Inr (TA_text (c_string (rqaddr q)))),
      (TA_SERVERNAME, Inr (TA_text (c_string (servername s)))),
      (TA_STATE, Inr (TA_text (bytes ''ACT''))),
      (TA_GRACE, Inr (TA_long (grace s))),
      (TA_MAXGEN, Inr (TA_long (int (maxgen s)))),
      (TA_RCMD, Inr (TA_text (c_string (rcmd s)))),
      (TA_RESTART, Inr (TA_long (of_bool (restart s)))),
      (TA_CONV, Inr (TA_text (bool_to_string (conv s)))),
      (TA_LMID, Inr (TA_text (c_string (mach_lmid (mach m))))),
      (TA_RQID, Inr (TA_long (msqid q))),
      (TA_SERVERCNT, Inr (TA_long (servercnt q))),
      (TA_TOTNQUEUED, Inr (TA_long 0)),
      (TA_TOTWKQUEUED, Inr (TA_long 0)),
      (TA_SOURCE, Inr (TA_text (c_string (mach_lmid (mach m))))),
      (TA_NQUEUED, Inr (TA_long 0)),
      (TA_WKQUEUED, Inr (TA_long 0))]"

definition queue_row :: "mibmem \<Rightarrow> nat \<Rightarrow> columns option except" where
  "queue_row m i =
     bind_except (arr_at (queues m) i) (\<lambda>q.
     bind_except (arr_at (servers m) (server_idx q)) (\<lambda>s. Inr (Some (queue_columns m q s))))"

definition t_queue_get :: "fp_ops \<Rightarrow> mibmem \<Rightarrow> fbp \<Rightarrow> (unit, fbp) call" where
  "t_queue_get fp m p = report fp (queue_row m) (arr_len (queues m)) p"

subsection \<open>Changing a server\<close>

text \<open>
  A step that writes members of the server at an index, from a value that may have to be fetched first. Steps
  that come before one that throws keep their effect.
\<close>

definition write_server ::
    "nat \<Rightarrow> stop + 'a \<Rightarrow> ('a \<Rightarrow> mib_server \<Rightarrow> unit except \<times> mib_server) \<Rightarrow> mibmem \<Rightarrow> (unit, mibmem) call" where
  "write_server i v f m =
     (case v of
        Inl e \<Rightarrow> (Inl e, m)
      | Inr x \<Rightarrow>
          (case f x (arr_data (servers m) ! i) of
             (Inl e, s) \<Rightarrow> (Inl (Throw e), set_server i s m)
           | (Inr _, s) \<Rightarrow> (Inr (), set_server i s m)))"

fun run_steps :: "('s \<Rightarrow> (unit, 's) call) list \<Rightarrow> 's \<Rightarrow> (unit, 's) call" where
  "run_steps [] m = (Inr (), m)"
| "run_steps (f # fs) m = seqx (f m) (\<lambda>_ m. run_steps fs m)"

definition assign :: "('a \<Rightarrow> mib_server \<Rightarrow> mib_server) \<Rightarrow> 'a \<Rightarrow> mib_server \<Rightarrow> unit except \<times> mib_server" where
  "assign f x s = (Inr (), f x s)"

text \<open>Conversion to \<open>uint16_t\<close>\<close>

definition as_uint16 :: "int \<Rightarrow> nat" where "as_uint16 i = nat (i mod 2 ^ 16)"

text \<open>The queue of the server: the fixed name \<open>a\<close>, made when it is not there.\<close>

definition server_queue :: "nat \<Rightarrow> mibmem \<Rightarrow> (unit, mibmem) call" where
  "server_queue i m =
     (case find_queue (bytes ''a'') m of
        Inl e \<Rightarrow> (Inl (Throw e), m)
      | Inr q \<Rightarrow>
          seqx (write_server i (Inr q) (assign (\<lambda>q s. s\<lparr>rqaddr_idx := q\<rparr>)) m) (\<lambda>_ m.
          if q \<noteq> badoff then (Inr (), m)
          else (case make_queue (bytes ''a'') m of
                  (Inl e, m) \<Rightarrow> (Inl (Throw e), m)
                | (Inr q, m) \<Rightarrow> write_server i (Inr q) (assign (\<lambda>q s. s\<lparr>rqaddr_idx := q\<rparr>)) m)))"

definition server_members ::
    "fp_ops \<Rightarrow> fbp \<Rightarrow> nat \<Rightarrow> nat \<Rightarrow> nat \<Rightarrow> state_t \<Rightarrow> (mibmem \<Rightarrow> (unit, mibmem) call) list" where
  "server_members fp p i gidx sid state =
     (let required = (\<lambda>f. fetch_text fp f 0 None p);
          text_or = (\<lambda>f d. fetch_text fp f 0 (Some d) p);
          int_or = (\<lambda>f d. map_sum id as_int32 (fetch_long fp f 0 (Some d) p)) in
      [write_server i (Inr (gidx, sid)) (assign (\<lambda>(g, n) s. s\<lparr>srv_group_idx := as_uint16 (int g), srvid := n\<rparr>)),
       write_server i (required TA_SERVERNAME) (\<lambda>x. copy_field x servername servername_update),
       write_server i (Inr state) (assign (\<lambda>x s. s\<lparr>srv_state := x\<rparr>)),
       write_server i (int_or TA_BASESRVID 0) (assign (\<lambda>x s. s\<lparr>basesrvid := as_uint16 x\<rparr>)),
       write_server i (text_or TA_CLOPT (bytes ''-A'')) (\<lambda>x. copy_field x clopt clopt_update),
       write_server i (text_or TA_ENVFILE []) (\<lambda>x. copy_field x envfile envfile_update),
       write_server i (text_or TA_DEPENDSON []) (\<lambda>x. copy_field x dependson dependson_update),
       write_server i (int_or TA_GRACE 86400) (assign (\<lambda>x s. s\<lparr>grace := x\<rparr>)),
       write_server i (int_or TA_MAXGEN 1) (assign (\<lambda>x s. s\<lparr>maxgen := as_uint16 x\<rparr>)),
       write_server i (int_or TA_MIN 1) (assign (\<lambda>x s. s\<lparr>srv_min := as_uint16 x\<rparr>)),
       write_server i (int_or TA_MAX 1) (assign (\<lambda>x s. s\<lparr>srv_max := as_uint16 x\<rparr>)),
       write_server i (int_or TA_MINDISPATCHTHREADS 1) (assign (\<lambda>x s. s\<lparr>mindispatchthreads := as_uint16 x\<rparr>)),
       write_server i (int_or TA_MAXDISPATCHTHREADS 1) (assign (\<lambda>x s. s\<lparr>maxdispatchthreads := as_uint16 x\<rparr>)),
       write_server i (int_or TA_THREADSTACKSIZE 0) (assign (\<lambda>x s. s\<lparr>threadstacksize := x\<rparr>)),
       write_server i (int_or TA_CURDISPATCHTHREADS 0) (assign (\<lambda>x s. s\<lparr>curdispatchthreads := as_uint16 x\<rparr>)),
       write_server i (int_or TA_HWDISPATCHTHREADS 0) (assign (\<lambda>x s. s\<lparr>hwdispatchthreads := as_uint16 x\<rparr>)),
       write_server i (int_or TA_NUMDISPATCHTHREADS 0) (assign (\<lambda>x s. s\<lparr>numdispatchthreads := as_uint16 x\<rparr>)),
       write_server i (required TA_RCMD) (\<lambda>x. copy_field x rcmd rcmd_update),
       write_server i (text_or TA_RESTART (bytes ''N''))
         (\<lambda>x s. case to_bool x of Inl e \<Rightarrow> (Inl e, s) | Inr r \<Rightarrow> (Inr (), s\<lparr>restart := r\<rparr>)),
       write_server i (Inr True) (assign (\<lambda>x s. s\<lparr>autostart := x\<rparr>))])"

text \<open>\<open>m.queues().at(server.rqaddr)\<close>, with the member that nothing here has written\<close>

definition count_server :: "nat \<Rightarrow> mibmem \<Rightarrow> (unit, mibmem) call" where
  "count_server i m =
     (let q = srv_rqaddr (arr_data (servers m) ! i) in
      case arr_at (queues m) q of
        Inl e \<Rightarrow> (Inl (Throw e), m)
      | Inr x \<Rightarrow> (Inr (), set_queue q (x\<lparr>servercnt := servercnt x + 1, server_idx := as_uint16 (int i)\<rparr>) m))"

text \<open>The entry of the server: an existing one, or the next, counted before it is known to be there\<close>

definition server_entry :: "nat \<Rightarrow> nat \<Rightarrow> state_t \<Rightarrow> mibmem \<Rightarrow> (nat, mibmem) call" where
  "server_entry sid gidx state m =
     (case server_index sid gidx m of
        Inl e \<Rightarrow> (Inl (Throw e), m)
      | Inr i \<Rightarrow>
          seqx (if i \<noteq> badoff then (if state = NEW then Inl (Throw Logic_error) else Inr i, m)
                else (Inr (arr_len (servers m)), m\<lparr>servers := (servers m)\<lparr>arr_len := arr_len (servers m) + 1\<rparr>\<rparr>))
            (\<lambda>i m. case arr_at (servers m) i of Inl e \<Rightarrow> (Inl (Throw e), m) | Inr _ \<Rightarrow> (Inr i, m)))"

definition change_server :: "fp_ops \<Rightarrow> fbp \<Rightarrow> byte list \<Rightarrow> int \<Rightarrow> state_t \<Rightarrow> mibmem \<Rightarrow> (unit, mibmem) call" where
  "change_server fp p grp sid state m =
     (case group_index grp m of
        Inl e \<Rightarrow> (Inl (Throw e), m)
      | Inr gidx \<Rightarrow>
          if gidx = badoff then (Inl (Throw Logic_error), m)
          else
            seqx (server_entry (as_uint16 sid) gidx state m) (\<lambda>i m.
            run_steps (server_queue i # server_members fp p i gidx (as_uint16 sid) state @ [count_server i]) m))"

definition t_server_set :: "fp_ops \<Rightarrow> fbp \<Rightarrow> mibmem \<times> fbp \<Rightarrow> (unit, mibmem \<times> fbp) call" where
  "t_server_set fp p w =
     (case fetch_text fp TA_SRVGRP 0 None p of
        Inl e \<Rightarrow> (Inl e, w)
      | Inr grp \<Rightarrow>
          (case fetch_long fp TA_SRVID 0 None p of
             Inl e \<Rightarrow> (Inl e, w)
           | Inr sid \<Rightarrow>
               (case fetch_text fp TA_STATE 0 None p of
                  Inl e \<Rightarrow> (Inl e, w)
                | Inr state \<Rightarrow>
                    (case change_server fp p grp sid (to_state state) (fst w) of
                       (Inl e, m) \<Rightarrow> (Inl e, m, snd w)
                     | (Inr _, m) \<Rightarrow> (case put_occurs fp 0 (snd w) of (r, out) \<Rightarrow> (r, m, out))))))"

subsection \<open>The call\<close>

text \<open>\<open>t_group_get\<close> makes tables of its own, which it does not look at.\<close>

definition t_group_get :: "fp_ops \<Rightarrow> mibmem \<Rightarrow> fbp \<Rightarrow> (unit, fbp) call" where
  "t_group_get fp m p = (Inr (), p)"

definition get_from :: "(mibmem \<Rightarrow> fbp \<Rightarrow> (unit, fbp) call) \<Rightarrow> mibmem \<times> fbp \<Rightarrow> (unit, mibmem \<times> fbp) call" where
  "get_from f w = (case f (fst w) (snd w) of (r, out) \<Rightarrow> (r, fst w, out))"

definition implemented ::
    "fp_ops \<Rightarrow> fbp \<Rightarrow> ((byte list \<times> byte list) \<times> (mibmem \<times> fbp \<Rightarrow> (unit, mibmem \<times> fbp) call)) list" where
  "implemented fp p =
     [((bytes ''T_DOMAIN'', bytes ''GET''), get_from (t_domain_get fp)),
      ((bytes ''T_MACHINE'', bytes ''GET''), get_from (t_machine_get fp)),
      ((bytes ''T_SERVICE'', bytes ''GET''), get_from (t_service_get fp)),
      ((bytes ''T_SVCGRP'', bytes ''GET''), get_from (t_svcgrp_get fp)),
      ((bytes ''T_SERVER'', bytes ''SET''), t_server_set fp p),
      ((bytes ''T_SERVER'', bytes ''GET''), get_from (t_server_get fp)),
      ((bytes ''T_GROUP'', bytes ''GET''), get_from (t_group_get fp)),
      ((bytes ''T_QUEUE'', bytes ''GET''), get_from (t_queue_get fp))]"

definition tpadmcall :: "fp_ops \<Rightarrow> fbp \<Rightarrow> mibmem \<times> fbp \<Rightarrow> (int, mibmem \<times> fbp) call" where
  "tpadmcall fp p w =
     (case fetch_text fp TA_CLASS 0 None p of
        Inl e \<Rightarrow> (Inl e, w)
      | Inr klass \<Rightarrow>
          (case fetch_text fp TA_OPERATION 0 None p of
             Inl e \<Rightarrow> (Inl e, w)
           | Inr oper \<Rightarrow>
               (case map_of (implemented fp p) (klass, oper) of
                  None \<Rightarrow> (Inr (- 1), w)
                | Some func \<Rightarrow> seqx (func w) (\<lambda>_ w. (Inr (- 1), w)))))"

end
