(* ===== verification/Admin_Props.thy ===== *)
theory Admin_Props
  imports Admin Advertise
begin

text \<open>
  What administration calls report: rows of fields in the output buffer, one for each entry of a table, as the
  lists of occurrences that the buffer holds afterwards (\<open>rep\<close>, \<open>occs\<close> of Fml_Rep).
\<close>

subsection \<open>One value\<close>

definition ta_stored :: "fldid \<Rightarrow> ta_value \<Rightarrow> byte list" where
  "ta_stored fieldid v =
     (case v of
        TA_long i \<Rightarrow> if Fldtype32 fieldid = FLD_LONG then enc_le 8 i else show_int (sdec_le (enc_le 8 i)) @ [0]
      | TA_text s \<Rightarrow> s @ [0])"

definition ta_fits :: "fldid \<Rightarrow> ta_value \<Rightarrow> bool" where
  "ta_fits fieldid v \<longleftrightarrow> fieldid \<noteq> BADFLDID \<and>
     (case v of
        TA_long i \<Rightarrow> Fldtype32 fieldid \<in> {FLD_LONG, FLD_STRING}
      | TA_text s \<Rightarrow> Fldtype32 fieldid = FLD_STRING \<and> 0 \<notin> set s \<and> length s \<le> 1024)"

lemma good_text:
  assumes "0 \<notin> set txt" "length txt \<le> 1024"
  shows "good_value FLD_STRING (txt @ [0]) fl (Suc (length txt))"
proof -
  have "takeWhile (\<lambda>c. c \<noteq> 0) (txt @ [0]) = txt" using assms(1) by (subst takeWhile_append2) auto
  then show ?thesis using assms(2) u32_of_nat [of "Suc (length txt)"] by (simp add: good_value_def value_len_def add.commute)
qed

text \<open>\<open>put\<close> is a change of the buffer by the converted value.\<close>

definition chg_by :: "fldid \<Rightarrow> int \<Rightarrow> byte list \<Rightarrow> nat \<Rightarrow> fbfr \<Rightarrow> unit outcome \<times> fbp" where
  "chg_by fieldid oc cv n b = (case fb_chg fieldid oc (Some cv) n b of (r, b') \<Rightarrow> (r, Buf b'))"

lemma chg_value_by:
  assumes "ta_fits fieldid v"
  obtains cv n k where "\<And>oc b. chg_value fp fieldid oc v b = chg_by fieldid oc cv n b"
    "good_value (Fldtype32 fieldid) cv n k" "stored (Fldtype32 fieldid) cv k = ta_stored fieldid v" "k \<le> 1025" "valid_id fieldid"
proof (cases v)
  case (TA_long i)
  let ?e = "enc_le 8 i" and ?txt = "show_int (sdec_le (enc_le 8 i))"
  have len: "length ?e = 8" by simp
  have bd: "- (2 ^ 63) \<le> sdec_le ?e" "sdec_le ?e < 2 ^ 63" using sdec_le_bounds [of ?e 8] len by auto
  note short = show_int_length [OF bd]
  have same: "enc_le 8 (sdec_le ?e) = ?e" using enc_sdec_le [of ?e] len by simp
  consider "Fldtype32 fieldid = FLD_LONG" | "Fldtype32 fieldid = FLD_STRING" using assms TA_long by (auto simp: ta_fits_def)
  then show thesis
  proof cases
    case 1
    have "Ftypcvt32 fp True FLD_LONG (Some ?e) FLD_LONG 8 = Ret (?e @ [0], 8)"
      using same by (simp add: Ftypcvt32_def peek_def TYPCVT_def copy_n_def)
    then have "chg_value fp fieldid oc v b = chg_by fieldid oc (?e @ [0]) 8 b" for oc b
      using assms TA_long 1 by (simp add: ta_fits_def CFchg32_def FBFR32_CHECK_def FLDID32_CHECK_def valid_fldtype32_def chg_by_def)
    moreover have "good_value (Fldtype32 fieldid) (?e @ [0]) 8 8" using 1 by (simp add: good_value_def value_len_def fixed_len_def)
    ultimately show thesis using that [of "?e @ [0]" 8 8] 1 TA_long
      by (simp add: stored_def ta_stored_def valid_id_def valid_fldtype32_def)
  next
    case 2
    have "0 \<notin> set ?txt" using show_nat_no_zero by (auto simp: show_int_def)
    note g = good_text [OF this, of "Suc (length ?txt)"]
    have "Ftypcvt32 fp True FLD_STRING (Some ?e) FLD_LONG 8 = Ret (?txt @ [0], Suc (length ?txt))"
      using typcvt_int_string(1) [of FLD_LONG ?e FLD_STRING fp 8] u32_of_nat [of "Suc (length ?txt)"] short
      by (simp add: fixed_len_def add.commute)
    then have "chg_value fp fieldid oc v b = chg_by fieldid oc (?txt @ [0]) (Suc (length ?txt)) b" for oc b
      using assms TA_long 2 by (simp add: ta_fits_def CFchg32_def FBFR32_CHECK_def FLDID32_CHECK_def valid_fldtype32_def chg_by_def)
    then show thesis using that [of "?txt @ [0]" "Suc (length ?txt)" "Suc (length ?txt)"] 2 TA_long g short
      by (simp add: stored_def ta_stored_def valid_id_def valid_fldtype32_def)
  qed
next
  case (TA_text s)
  then have t: "Fldtype32 fieldid = FLD_STRING" "0 \<notin> set s" "length s \<le> 1024" "fieldid \<noteq> BADFLDID"
    using assms by (auto simp: ta_fits_def)
  have "Ftypcvt32 fp True FLD_STRING (Some (s @ [0])) FLD_CARRAY (length s) = Ret (s @ [0], Suc (length s))"
    using u32_of_nat [of "Suc (length s)"] t(3) by (simp add: Ftypcvt32_def peek_def TYPCVTS_def add.commute)
  then have "chg_value fp fieldid oc v b = chg_by fieldid oc (s @ [0]) (Suc (length s)) b" for oc b
    using t TA_text by (simp add: CFchg32_def FBFR32_CHECK_def FLDID32_CHECK_def valid_fldtype32_def chg_by_def)
  then show thesis using that [of "s @ [0]" "Suc (length s)" "Suc (length s)"] t TA_text good_text [OF t(2,3)]
    by (simp add: stored_def ta_stored_def valid_id_def valid_fldtype32_def)
qed

text \<open>A value put at the next occurrence of its field is added behind the others.\<close>

definition field_max :: nat where "field_max = 1100"
definition room_max :: nat where "room_max = 2 ^ 31 - 2000"

lemma put_value_added:
  assumes "rep b cs" "ta_fits fieldid v" "oc = int (length (occs cs fieldid))" "blen b \<le> room_max"
  obtains b' ds where "put_value fp fieldid oc v (Buf b) = (Inr (), Buf b')" "rep b' ds"
    "occs ds = (occs cs)(fieldid := occs cs fieldid @ [ta_stored fieldid v])" "blen b' \<le> blen b + field_max"
proof -
  from chg_value_by [OF assms(2), of fp] obtain cv n k where
    c: "\<And>oc b. chg_value fp fieldid oc v b = chg_by fieldid oc cv n b" "good_value (Fldtype32 fieldid) cv n k"
      "stored (Fldtype32 fieldid) cv k = ta_stored fieldid v" "k \<le> 1025" "valid_id fieldid" by blast
  have "field_size fieldid k \<le> 1056" using fieldn_size_bounds [of k] c(4) by (simp add: field_size_def split: storage_class.split)
  then have need: "chg_need cs fieldid oc k \<le> 1056" "0 \<le> chg_need cs fieldid oc k"
    using assms(3) by (simp_all add: chg_need_def old_size_def length_occs)
  then have "chg_room cs fieldid oc k + min_size < 2 ^ 31"
    using assms(4) rep_blen [OF assms(1)] by (simp add: chg_room_def room_max_def nat_less_iff)
  from mutate_chg [OF assms(1) c(5,2) _ this] assms(3) obtain b' ds where
    m: "mutate (fb_chg fieldid oc (Some cv) n) b = Some (Ret (), b')" "rep b' ds"
      "occs ds = (occs cs)(fieldid := change_list (occs cs fieldid) oc (ta_stored fieldid v) [])"
      "int (blen b') = int (blen b) + chg_need cs fieldid oc k" unfolding c(3) by auto
  have "(\<lambda>b. case chg_value fp fieldid oc v b of (r, Buf b') \<Rightarrow> (r, b') | (r, _) \<Rightarrow> (r, b)) = fb_chg fieldid oc (Some cv) n"
    by (rule ext) (simp add: c(1) chg_by_def split: prod.split)
  then have "put_value fp fieldid oc v (Buf b) = (Inr (), Buf b')" using m(1) by (simp add: put_value_def mutate_ptr_def)
  moreover have "change_list (occs cs fieldid) oc (ta_stored fieldid v) [] = occs cs fieldid @ [ta_stored fieldid v]"
    using assms(3) by (simp add: change_list_def)
  ultimately show thesis using that m need by (simp add: field_max_def)
qed

subsection \<open>Rows\<close>

definition columns_fit :: "fldid list \<Rightarrow> columns \<Rightarrow> bool" where
  "columns_fit fs cols \<longleftrightarrow> map fst cols = fs \<and> distinct fs \<and> (\<forall>(f, v) \<in> set cols. \<exists>x. v = Inr x \<and> ta_fits f x)"

definition reported :: "columns \<Rightarrow> fldid \<Rightarrow> byte list" where
  "reported cols f = (case map_of cols f of Some (Inr x) \<Rightarrow> ta_stored f x | _ \<Rightarrow> [])"

lemma put_columns_added:
  assumes "rep b cs" "columns_fit fs cols" "\<forall>f \<in> set fs. int (length (occs cs f)) = oc"
    "blen b + length fs * field_max \<le> room_max"
  shows "\<exists>b' ds. put_columns fp oc cols (Buf b) = (Inr (), Buf b') \<and> rep b' ds \<and>
    occs ds = (\<lambda>f. if f \<in> set fs then occs cs f @ [reported cols f] else occs cs f) \<and> blen b' \<le> blen b + length fs * field_max"
  using assms
proof (induction cols arbitrary: fs b cs)
  case (Cons c cols)
  obtain f x gs where c: "c = (f, Inr x)" "ta_fits f x" "fs = f # gs"
    using Cons.prems(2) by (cases c) (auto simp: columns_fit_def)
  have fit: "columns_fit gs cols" "f \<notin> set gs" using Cons.prems(2) c by (auto simp: columns_fit_def)
  have le: "blen b \<le> room_max" and oc: "oc = int (length (occs cs f))" using Cons.prems(3,4) c(3) by auto
  from put_value_added [OF Cons.prems(1) c(2) oc le, of fp] obtain b1 d1 where
    b1: "put_value fp f oc x (Buf b) = (Inr (), Buf b1)" "rep b1 d1" "occs d1 = (occs cs)(f := occs cs f @ [ta_stored f x])"
      "blen b1 \<le> blen b + field_max" by blast
  have "\<forall>g \<in> set gs. int (length (occs d1 g)) = oc" using Cons.prems(3) fit(2) c(3) b1(3) by auto
  moreover have "blen b1 + length gs * field_max \<le> room_max" using b1(4) Cons.prems(4) c(3) by simp
  ultimately obtain b2 d2 where
    b2: "put_columns fp oc cols (Buf b1) = (Inr (), Buf b2)" "rep b2 d2"
      "occs d2 = (\<lambda>g. if g \<in> set gs then occs d1 g @ [reported cols g] else occs d1 g)" "blen b2 \<le> blen b1 + length gs * field_max"
    using Cons.IH [OF b1(2) fit(1)] by blast
  have "occs d2 g = (if g \<in> set fs then occs cs g @ [reported (c # cols) g] else occs cs g)" for g
    using b1(3) b2(3) c fit(2) by (auto simp: reported_def)
  then show ?case using b1 b2 c by (intro exI [of _ b2] exI [of _ d2]) auto
qed (auto simp: columns_fit_def)

text \<open>The rows of the entries that are not left out\<close>

definition kept :: "columns option list \<Rightarrow> columns list" where
  "kept rs = concat (map (\<lambda>r. case r of None \<Rightarrow> [] | Some cols \<Rightarrow> [cols]) rs)"

lemma kept_simps [simp]: "kept [] = []" "kept (None # rs) = kept rs" "kept (Some cols # rs) = cols # kept rs"
  by (simp_all add: kept_def)

lemma kept_map:
  "kept (map (\<lambda>x. if P x then None else Some (f x)) xs) = map f (filter (\<lambda>x. \<not> P x) xs)"
  "kept (map (\<lambda>x. Some (f x)) xs) = map f xs"
  by (induction xs) simp_all

lemma put_rows_added:
  assumes "rep b cs" "\<forall>cols \<in> set (kept rs). columns_fit fs cols" "\<forall>f \<in> set fs. int (length (occs cs f)) = oc"
    "blen b + length (kept rs) * (length fs * field_max) \<le> room_max" "\<forall>j < length rs. row (i + j) = Inr (rs ! j)"
  shows "\<exists>b' ds. put_rows fp row (length rs + left) i oc (Buf b) =
      put_rows fp row left (i + length rs) (oc + int (length (kept rs))) (Buf b') \<and> rep b' ds \<and>
    occs ds = (\<lambda>f. if f \<in> set fs then occs cs f @ map (\<lambda>cols. reported cols f) (kept rs) else occs cs f) \<and>
    blen b' \<le> blen b + length (kept rs) * (length fs * field_max)"
  using assms
proof (induction rs arbitrary: i oc b cs)
  case Nil
  then show ?case by (intro exI [of _ b] exI [of _ cs]) auto
next
  case (Cons r rs)
  have r: "row i = Inr r" using Cons.prems(5) by force
  have rows: "\<forall>j < length rs. row (Suc i + j) = Inr (rs ! j)" using Cons.prems(5) by force
  show ?case
  proof (cases r)
    case None
    have k: "kept (r # rs) = kept rs" using None by simp
    show ?thesis unfolding k using Cons.IH [OF Cons.prems(1) _ Cons.prems(3) _ rows] Cons.prems(2,4) r None by simp
  next
    case (Some cols)
    have len: "blen b + length fs * field_max \<le> room_max" using Cons.prems(4) Some by simp
    from put_columns_added [OF Cons.prems(1) _ Cons.prems(3) len, of cols fp] Cons.prems(2) Some
    obtain b1 d1 where b1: "put_columns fp oc cols (Buf b) = (Inr (), Buf b1)" "rep b1 d1"
      "occs d1 = (\<lambda>f. if f \<in> set fs then occs cs f @ [reported cols f] else occs cs f)" "blen b1 \<le> blen b + length fs * field_max"
      by auto
    have "\<forall>f \<in> set fs. int (length (occs d1 f)) = oc + 1" using Cons.prems(3) b1(3) by simp
    moreover have "blen b1 + length (kept rs) * (length fs * field_max) \<le> room_max" using Cons.prems(4) b1(4) Some by simp
    ultimately obtain b2 d2 where b2:
      "put_rows fp row (length rs + left) (Suc i) (oc + 1) (Buf b1) =
        put_rows fp row left (Suc i + length rs) (oc + 1 + int (length (kept rs))) (Buf b2)" "rep b2 d2"
      "occs d2 = (\<lambda>f. if f \<in> set fs then occs d1 f @ map (\<lambda>cols. reported cols f) (kept rs) else occs d1 f)"
      "blen b2 \<le> blen b1 + length (kept rs) * (length fs * field_max)"
      using Cons.IH [OF b1(2) _ _ _ rows, of "oc + 1"] Cons.prems(2) Some by auto
    have "occs d2 = (\<lambda>f. if f \<in> set fs then occs cs f @ map (\<lambda>cols. reported cols f) (kept (r # rs)) else occs cs f)"
      using b1(3) b2(3) Some by auto
    then show ?thesis using r b1 b2 Some by (intro exI [of _ b2] exI [of _ d2]) (simp add: algebra_simps)
  qed
qed

text \<open>The whole report, in a buffer that is empty\<close>

definition holds_report :: "fldid list \<Rightarrow> columns list \<Rightarrow> chunk list \<Rightarrow> bool" where
  "holds_report fs rows ds \<longleftrightarrow>
     (\<forall>f \<in> set fs. occs ds f = map (\<lambda>cols. reported cols f) rows) \<and>
     occs ds TA_ERROR = [enc_le 8 TAOK] \<and> occs ds TA_OCCURS = [enc_le 8 (int (length rows))] \<and>
     (\<forall>f. f \<notin> set fs \<and> f \<noteq> TA_ERROR \<and> f \<noteq> TA_OCCURS \<longrightarrow> occs ds f = [])"

lemma ends_fit: "columns_fit [TA_ERROR, TA_OCCURS] [(TA_ERROR, Inr (TA_long TAOK)), (TA_OCCURS, Inr (TA_long n))]"
  "ta_stored TA_ERROR (TA_long i) = enc_le 8 i" "ta_stored TA_OCCURS (TA_long i) = enc_le 8 i"
  by (simp_all add: columns_fit_def ta_fits_def ta_stored_def eval_chunk)

lemma put_occurs_added:
  assumes "rep b cs" "occs cs TA_ERROR = []" "occs cs TA_OCCURS = []" "blen b + 2 * field_max \<le> room_max"
  shows "\<exists>b' ds. put_occurs fp n (Buf b) = (Inr (), Buf b') \<and> rep b' ds \<and>
    occs ds = (occs cs)(TA_ERROR := [enc_le 8 TAOK], TA_OCCURS := [enc_le 8 n])"
proof -
  from put_columns_added [OF assms(1) ends_fit(1), of 0 fp n] assms(2-4) obtain b' ds where
    b: "put_columns fp 0 [(TA_ERROR, Inr (TA_long TAOK)), (TA_OCCURS, Inr (TA_long n))] (Buf b) = (Inr (), Buf b')" "rep b' ds"
      "occs ds = (\<lambda>f. if f \<in> set [TA_ERROR, TA_OCCURS] then occs cs f @
         [reported [(TA_ERROR, Inr (TA_long TAOK)), (TA_OCCURS, Inr (TA_long n))] f] else occs cs f)" by auto
  have "occs ds = (occs cs)(TA_ERROR := [enc_le 8 TAOK], TA_OCCURS := [enc_le 8 n])"
    using b(3) assms(2,3) by (auto simp: reported_def ends_fit)
  then show ?thesis using b by (auto simp: put_occurs_def)
qed

lemma report_holds:
  assumes "rep b []" "\<forall>cols \<in> set (kept rs). columns_fit fs cols" "TA_ERROR \<notin> set fs" "TA_OCCURS \<notin> set fs"
    "(length (kept rs) * length fs + 2) * field_max \<le> room_max" "\<forall>j < length rs. row j = Inr (rs ! j)"
  shows "\<exists>b' ds. report fp row (length rs) (Buf b) = (Inr (), Buf b') \<and> rep b' ds \<and> holds_report fs (kept rs) ds"
proof -
  have e: "occs [] f = []" for f by (simp add: occs_def same_id_def)
  have b0: "blen b = 0" using rep_blen [OF assms(1)] by simp
  have "blen b + length (kept rs) * (length fs * field_max) \<le> room_max" using assms(5) b0 by (simp add: algebra_simps)
  from put_rows_added [OF assms(1,2) _ this, of 0 row 0 fp 0] assms(6) obtain b1 d1 where
    b1: "put_rows fp row (length rs) 0 0 (Buf b) = (Inr (int (length (kept rs))), Buf b1)" "rep b1 d1"
      "occs d1 = (\<lambda>f. if f \<in> set fs then [] @ map (\<lambda>cols. reported cols f) (kept rs) else [])"
      "blen b1 \<le> length (kept rs) * (length fs * field_max)"
    unfolding e b0 by auto
  have "blen b1 + 2 * field_max \<le> room_max" using b1(4) assms(5) by (simp add: algebra_simps)
  from put_occurs_added [OF b1(2) _ _ this, of fp "int (length (kept rs))"] b1(3) assms(3,4)
  obtain b2 d2 where "put_occurs fp (int (length (kept rs))) (Buf b1) = (Inr (), Buf b2)" "rep b2 d2"
    "occs d2 = (occs d1)(TA_ERROR := [enc_le 8 TAOK], TA_OCCURS := [enc_le 8 (int (length (kept rs)))])" by auto
  moreover have "(TA_ERROR :: fldid) \<noteq> TA_OCCURS" by simp
  ultimately show ?thesis using b1 assms(3,4) by (auto simp: report_def holds_report_def)
qed

end
