(* ===== verification/Admin_Claims.thy ===== *)
theory Admin_Claims
  imports Admin_Props Mib_Props
begin

text \<open>
  Administration calls: the reports on services and advertisements, and what changing a server leaves in
  full tables.
\<close>

subsection \<open>Requests\<close>

lemma fetch_text_field:
  assumes "rep b cs" "valid_id f" "f \<noteq> BADFLDID" "Fldtype32 f = FLD_STRING" "occs cs f = (s @ [0]) # vs" "0 \<notin> set s"
  shows "fetch_text fp f 0 d (Buf b) = Inr s"
proof -
  obtain q where q: "fb_find f 0 b = Ret (q, Suc (length s))" "rd q (Suc (length s)) (bdata b) = s @ [0]"
    using rep_find(1) [OF assms(1,2), of 0] assms(5) by auto
  have "find_cvt fp f 0 FLD_CARRAY b = Ret (s @ [0], u32 (int (length s) + 1))"
    using q assms(4) cstr_text [OF assms(6)] by (simp add: find_cvt_def Ftypcvt32_def TYPCVTS_def)
  then have "fst (CFfind32 fp (Buf b) f 0 FLD_CARRAY) = Ret (s @ [0], u32 (int (length s) + 1))"
    using assms(2,3) by (simp add: CFfind32_def FBFR32_CHECK_def FLDID32_CHECK_def reading_def valid_id_def)
  then show ?thesis using assms(6) by (simp add: fetch_text_def)
qed

definition requested :: "fbfr \<Rightarrow> byte list \<Rightarrow> byte list \<Rightarrow> bool" where
  "requested b klass oper \<longleftrightarrow> 0 \<notin> set klass \<and> 0 \<notin> set oper \<and>
     (\<exists>cs. rep b cs \<and> occs cs TA_CLASS = [klass @ [0]] \<and> occs cs TA_OPERATION = [oper @ [0]])"

lemma request_fields:
  "valid_id TA_CLASS" "TA_CLASS \<noteq> BADFLDID" "Fldtype32 TA_CLASS = FLD_STRING"
  "valid_id TA_OPERATION" "TA_OPERATION \<noteq> BADFLDID" "Fldtype32 TA_OPERATION = FLD_STRING"
  by (simp_all add: eval_chunk)

lemma tpadmcall_requested:
  assumes "requested req klass oper" "map_of (implemented fp (Buf req)) (klass, oper) = Some f"
  shows "tpadmcall fp (Buf req) w = seqx (f w) (\<lambda>_ w. (Inr (- 1), w))"
proof -
  obtain cs where c: "rep req cs" "occs cs TA_CLASS = [klass @ [0]]" "occs cs TA_OPERATION = [oper @ [0]]"
    "0 \<notin> set klass" "0 \<notin> set oper" using assms(1) by (auto simp: requested_def)
  show ?thesis
    using fetch_text_field [OF c(1) request_fields(1-3) c(2,4), of fp None]
      fetch_text_field [OF c(1) request_fields(4-6) c(3,5), of fp None] assms(2)
    by (simp add: tpadmcall_def)
qed

lemma operations:
  "map_of (implemented fp p) (bytes ''T_SERVICE'', bytes ''GET'') = Some (get_from (t_service_get fp))"
  "map_of (implemented fp p) (bytes ''T_SVCGRP'', bytes ''GET'') = Some (get_from (t_svcgrp_get fp))"
  "map_of (implemented fp p) (bytes ''T_SERVER'', bytes ''SET'') = Some (t_server_set fp p)"
  "map_of (implemented fp p) (bytes ''T_QUEUE'', bytes ''GET'') = Some (get_from (t_queue_get fp))"
  by (simp_all add: implemented_def bytes_simps)

subsection \<open>Services\<close>

abbreviation (input) service_ids :: "fldid list" where
  "service_ids \<equiv> [TA_SERVICENAME, TA_STATE, TA_AUTOTRAN, TA_LOAD, TA_PRIO, TA_BLOCKTIME, TA_SVCTIMEOUT, TA_TRANTIME, TA_BUFTYPE,
     TA_ROUTINGNAME, TA_SIGNATURE_REQUIRED, TA_ENCRYPTION_REQUIRED, TA_BUFTYPECONV, TA_CACHINGNAME]"

lemma ta_fits_text: "Fldtype32 f = FLD_STRING \<Longrightarrow> f \<noteq> BADFLDID \<Longrightarrow> length a \<le> 1024 \<Longrightarrow> ta_fits f (TA_text (c_string a))"
  using c_string_no_nul [of a] length_takeWhile_le [of "\<lambda>b. b \<noteq> 0" a] by (simp add: ta_fits_def c_string_def)

lemma ta_fits_state: "Fldtype32 f = FLD_STRING \<Longrightarrow> f \<noteq> BADFLDID \<Longrightarrow> ta_fits f (TA_text (state_to_string s))"
  by (simp add: ta_fits_def state_to_string_def split: state_t.split)

lemma ta_fits_long: "Fldtype32 f = FLD_LONG \<Longrightarrow> f \<noteq> BADFLDID \<Longrightarrow> ta_fits f (TA_long i)"
  by (simp add: ta_fits_def)

text \<open>The char arrays of a service have at most 1024 bytes.\<close>

definition service_sized :: "mib_service \<Rightarrow> bool" where
  "service_sized s \<longleftrightarrow> (\<forall>a \<in> {servicename s, autotran s, buftype s, routingname s, signature_required s, encryption_required s,
     buftypeconv s, cachingname s}. length a \<le> 1024)"

lemma service_columns_fit: "service_sized s \<Longrightarrow> columns_fit service_ids (service_columns s)"
  unfolding columns_fit_def
  by (auto simp: service_columns_def service_sized_def eval_chunk intro!: ta_fits_text ta_fits_state ta_fits_long)

lemma service_rows:
  assumes "arr_ok (services m)"
  defines "rs \<equiv> map (\<lambda>s. if svc_state s = INValid then None else Some (service_columns s)) (used (services m))"
  shows "length rs = arr_len (services m)" "\<forall>j < length rs. service_row m j = Inr (rs ! j)"
    "kept rs = map service_columns (filter (\<lambda>s. svc_state s \<noteq> INValid) (used (services m)))"
proof -
  show "length rs = arr_len (services m)" using assms(1) by (simp add: rs_def)
  then show "\<forall>j < length rs. service_row m j = Inr (rs ! j)"
    using arr_at_used [OF assms(1)] assms(1) by (auto simp: rs_def service_row_def)
  show "kept rs = map service_columns (filter (\<lambda>s. svc_state s \<noteq> INValid) (used (services m)))"
    unfolding rs_def by (rule kept_map)
qed

lemma reported_service:
  "reported (service_columns s) TA_SERVICENAME = c_string (servicename s) @ [0]"
  "reported (service_columns s) TA_STATE = state_to_string (svc_state s) @ [0]"
  "reported (service_columns s) TA_LOAD = enc_le 8 (svc_load s)"
  "reported (service_columns s) TA_PRIO = enc_le 8 (svc_prio s)"
  "reported (service_columns s) TA_TRANTIME = enc_le 8 (trantime s)"
  "reported (service_columns s) TA_BUFTYPE = c_string (buftype s) @ [0]"
  by (simp_all add: reported_def service_columns_def ta_stored_def eval_chunk)

lemma report_call:
  assumes "requested req klass oper" "map_of (implemented fp (Buf req)) (klass, oper) = Some (get_from f)"
    "f m (Buf out) = (Inr (), Buf out')"
  shows "tpadmcall fp (Buf req) (m, Buf out) = (Inr (- 1), m, Buf out')"
  using tpadmcall_requested [OF assms(1,2), of "(m, Buf out)"] assms(3) by (simp add: get_from_def)

text \<open>C17: T_SERVICE GET reports every service. In an empty output buffer of any size \<open>tpadmcall\<close> leaves one
  occurrence of each field for each service of the table that is not invalid, in their order, with their number
  in TA_OCCURS, and nothing else; the tables stay as they were. It nevertheless returns -1, as it does on every
  path.\<close>

theorem services_reported:
  assumes "requested req (bytes ''T_SERVICE'') (bytes ''GET'')" "rep out []" "arr_ok (services m)"
    "\<forall>s \<in> set (used (services m)). service_sized s" "arr_len (services m) < 2 ^ 16"
  defines "ss \<equiv> filter (\<lambda>s. svc_state s \<noteq> INValid) (used (services m))"
  shows "\<exists>out' ds. tpadmcall fp (Buf req) (m, Buf out) = (Inr (- 1), m, Buf out') \<and> rep out' ds \<and>
    holds_report service_ids (map service_columns ss) ds \<and>
    occs ds TA_SERVICENAME = map (\<lambda>s. c_string (servicename s) @ [0]) ss \<and>
    occs ds TA_STATE = map (\<lambda>s. state_to_string (svc_state s) @ [0]) ss \<and>
    occs ds TA_LOAD = map (\<lambda>s. enc_le 8 (svc_load s)) ss \<and>
    occs ds TA_PRIO = map (\<lambda>s. enc_le 8 (svc_prio s)) ss \<and>
    occs ds TA_TRANTIME = map (\<lambda>s. enc_le 8 (trantime s)) ss \<and>
    occs ds TA_OCCURS = [enc_le 8 (int (length ss))]"
proof -
  define rs where "rs = map (\<lambda>s. if svc_state s = INValid then None else Some (service_columns s)) (used (services m))"
  note r = service_rows [OF assms(3), folded rs_def ss_def]
  have fit: "\<forall>cols \<in> set (kept rs). columns_fit service_ids cols"
    using assms(4) service_columns_fit unfolding r(3) by (auto simp: ss_def)
  have "length (kept rs) \<le> arr_len (services m)"
    using length_filter_le [of "\<lambda>s. svc_state s \<noteq> INValid" "used (services m)"] assms(3) unfolding r(3) by (simp add: ss_def)
  then have room: "(length (kept rs) * length service_ids + 2) * field_max \<le> room_max"
    using assms(5) by (simp add: field_max_def room_max_def)
  have ends: "TA_ERROR \<notin> set service_ids" "TA_OCCURS \<notin> set service_ids" by simp_all
  from report_holds [OF assms(2) fit ends room r(2), of fp] obtain b' ds where
    b: "report fp (service_row m) (length rs) (Buf out) = (Inr (), Buf b')" "rep b' ds" "holds_report service_ids (kept rs) ds"
    by blast
  then have "t_service_get fp m (Buf out) = (Inr (), Buf b')" by (simp add: t_service_get_def r(1))
  from report_call [OF assms(1) operations(1) this]
  have "tpadmcall fp (Buf req) (m, Buf out) = (Inr (- 1), m, Buf b')" .
  moreover have "holds_report service_ids (map service_columns ss) ds" using b(3) unfolding r(3) .
  ultimately show ?thesis using b(2)
    by (intro exI [of _ b'] exI [of _ ds]) (simp add: holds_report_def reported_service)
qed

subsection \<open>Advertisements\<close>

abbreviation (input) svcgrp_ids :: "fldid list" where
  "svcgrp_ids \<equiv> [TA_SERVICENAME, TA_GRPNO, TA_STATE, TA_AUTOTRAN, TA_LOAD, TA_PRIO, TA_BLOCKTIME, TA_SVCTIMEOUT, TA_TRANTIME,
     TA_LMID, TA_RQADDR, TA_SRVID, TA_SVCRNAM, TA_BUFTYPE, TA_ROUTINGNAME, TA_SVCTYPE]"

text \<open>Advertisements name entries of the tables, whose char arrays have at most 1024 bytes.\<close>

definition ads_refer :: "mibmem \<Rightarrow> bool" where
  "ads_refer m \<longleftrightarrow> mib_ok m \<and>
     (\<forall>(s, q, v) \<in> set (ads m). s < arr_len (services m) \<and> q < arr_len (queues m) \<and> v < arr_len (servers m)) \<and>
     (\<forall>s \<in> set (used (services m)). service_sized s) \<and> (\<forall>q \<in> set (used (queues m)). length (rqaddr q) \<le> 1024) \<and>
     length (mach_lmid (mach m)) \<le> 1024"

definition ad_columns :: "mibmem \<Rightarrow> advertisement \<Rightarrow> columns" where
  "ad_columns m a = svcgrp_columns m a (used (services m) ! adv_service a)"

lemma ad_row:
  assumes "ads_refer m" "a \<in> set (used (advertisements m))" "triple a \<noteq> no_triple"
  shows "arr_at (services m) (adv_service a) = Inr (used (services m) ! adv_service a)"
    "arr_at (queues m) (adv_queue a) = Inr (used (queues m) ! adv_queue a)"
    "arr_at (servers m) (adv_server a) = Inr (used (servers m) ! adv_server a)"
    "columns_fit svcgrp_ids (ad_columns m a)"
proof -
  note ok = mib_ok_arrays [of m]
  have m: "mib_ok m" using assms(1) by (simp add: ads_refer_def)
  have "triple a \<in> set (ads m)" using assms(2,3) by (auto simp: ads_def)
  moreover have "\<forall>t \<in> set (ads m). case t of (s, q, v) \<Rightarrow> s < arr_len (services m) \<and> q < arr_len (queues m) \<and> v < arr_len (servers m)"
    using assms(1) by (simp add: ads_refer_def)
  ultimately have "case triple a of (s, q, v) \<Rightarrow> s < arr_len (services m) \<and> q < arr_len (queues m) \<and> v < arr_len (servers m)"
    by (rule bspec [rotated])
  then have i: "adv_service a < arr_len (services m)" "adv_queue a < arr_len (queues m)" "adv_server a < arr_len (servers m)"
    by (simp_all add: triple_def)
  show at: "arr_at (services m) (adv_service a) = Inr (used (services m) ! adv_service a)"
    "arr_at (queues m) (adv_queue a) = Inr (used (queues m) ! adv_queue a)"
    "arr_at (servers m) (adv_server a) = Inr (used (servers m) ! adv_server a)"
    using i ok [OF m] by (simp_all add: arr_at_used)
  have "used (services m) ! adv_service a \<in> set (used (services m))" "used (queues m) ! adv_queue a \<in> set (used (queues m))"
    using i ok [OF m] by simp_all
  then have "service_sized (used (services m) ! adv_service a)" "length (rqaddr (used (queues m) ! adv_queue a)) \<le> 1024"
    "length (mach_lmid (mach m)) \<le> 1024"
    using assms(1) by (auto simp: ads_refer_def)
  then show "columns_fit svcgrp_ids (ad_columns m a)"
    unfolding columns_fit_def
    by (auto simp: ad_columns_def svcgrp_columns_def at service_sized_def eval_chunk
        intro!: ta_fits_text ta_fits_state ta_fits_long) (simp_all add: ta_fits_def bytes_simps eval_chunk)
qed

lemma reported_ad:
  assumes "ads_refer m" "a \<in> set (used (advertisements m))" "triple a \<noteq> no_triple"
  shows "reported (ad_columns m a) TA_SERVICENAME = c_string (servicename (used (services m) ! adv_service a)) @ [0]"
    "reported (ad_columns m a) TA_RQADDR = c_string (rqaddr (used (queues m) ! adv_queue a)) @ [0]"
    "reported (ad_columns m a) TA_SRVID = enc_le 8 (int (srvid (used (servers m) ! adv_server a)))"
    "reported (ad_columns m a) TA_GRPNO = enc_le 8 (int (srv_grpno (used (servers m) ! adv_server a)))"
proof -
  note at = ad_row(2,3) [OF assms]
  have types: "Fldtype32 TA_SRVID = FLD_LONG" "Fldtype32 TA_GRPNO = FLD_LONG" by (simp_all add: eval_chunk)
  show "reported (ad_columns m a) TA_SERVICENAME = c_string (servicename (used (services m) ! adv_service a)) @ [0]"
    "reported (ad_columns m a) TA_RQADDR = c_string (rqaddr (used (queues m) ! adv_queue a)) @ [0]"
    by (simp_all add: reported_def ad_columns_def svcgrp_columns_def at ta_stored_def)
  show "reported (ad_columns m a) TA_SRVID = enc_le 8 (int (srvid (used (servers m) ! adv_server a)))"
    by (simp add: reported_def ad_columns_def svcgrp_columns_def at ta_stored_def types)
  show "reported (ad_columns m a) TA_GRPNO = enc_le 8 (int (srv_grpno (used (servers m) ! adv_server a)))"
    by (simp add: reported_def ad_columns_def svcgrp_columns_def at ta_stored_def types)
qed

text \<open>The rows of a part of the table without free entries\<close>

lemma ad_rows:
  assumes "ads_refer m" "\<forall>a \<in> set as. triple a \<noteq> no_triple" "used (advertisements m) = as @ bs"
  defines "rs \<equiv> map (\<lambda>a. Some (ad_columns m a)) as"
  shows "\<forall>j < length rs. svcgrp_row m j = Inr (rs ! j)" "kept rs = map (ad_columns m) as"
    "\<forall>cols \<in> set (kept rs). columns_fit svcgrp_ids cols"
proof -
  have ok: "arr_ok (advertisements m)" using assms(1) by (simp add: ads_refer_def mib_ok_def)
  show k: "kept rs = map (ad_columns m) as" unfolding rs_def by (rule kept_map)
  show "\<forall>cols \<in> set (kept rs). columns_fit svcgrp_ids cols"
    unfolding k using ad_row(4) [OF assms(1)] assms(2,3) by auto
  have "svcgrp_row m j = Inr (rs ! j)" if j: "j < length as" for j
  proof -
    have a: "as ! j \<in> set as" "used (advertisements m) ! j = as ! j" using j assms(3) by (simp_all add: nth_append)
    have "length (used (advertisements m)) = arr_len (advertisements m)" using ok by simp
    then have "j < arr_len (advertisements m)" using j assms(3) by simp
    then have "arr_at (advertisements m) j = Inr (as ! j)" using arr_at_used [OF ok] a(2) by simp
    then show ?thesis using ad_row(1) [OF assms(1), of "as ! j"] a(1) assms(2,3) j
      by (simp add: svcgrp_row_def rs_def ad_columns_def)
  qed
  then show "\<forall>j < length rs. svcgrp_row m j = Inr (rs ! j)" by (simp add: rs_def)
qed

lemma ads_reported:
  assumes "requested req (bytes ''T_SVCGRP'') (bytes ''GET'')" "rep out []" "ads_refer m" "arr_len (advertisements m) < 2 ^ 16"
    and free: "no_triple \<notin> triple ` set (used (advertisements m))"
  shows "\<exists>out' ds. tpadmcall fp (Buf req) (m, Buf out) = (Inr (- 1), m, Buf out') \<and> rep out' ds \<and>
      occs ds TA_SERVICENAME = map (\<lambda>(s, q, v). c_string (servicename (used (services m) ! s)) @ [0]) (ads m) \<and>
      occs ds TA_RQADDR = map (\<lambda>(s, q, v). c_string (rqaddr (used (queues m) ! q)) @ [0]) (ads m) \<and>
      occs ds TA_SRVID = map (\<lambda>(s, q, v). enc_le 8 (int (srvid (used (servers m) ! v)))) (ads m) \<and>
      occs ds TA_GRPNO = map (\<lambda>(s, q, v). enc_le 8 (int (srv_grpno (used (servers m) ! v)))) (ads m) \<and>
      occs ds TA_OCCURS = [enc_le 8 (int (length (ads m)))]"
proof -
  let ?as = "used (advertisements m)"
  have ok: "arr_ok (advertisements m)" "arr_ok (services m)" using assms(3) mib_ok_arrays by (auto simp: ads_refer_def)
  have len: "length ?as = arr_len (advertisements m)" using ok by simp
  have small: "(n * length svcgrp_ids + 2) * field_max \<le> room_max" if "n \<le> arr_len (advertisements m)" for n
    using that assms(4) by (simp add: field_max_def room_max_def)
  have full: "\<forall>a \<in> set ?as. triple a \<noteq> no_triple" using free by (auto simp: image_iff)
  define rs where "rs = map (\<lambda>a. Some (ad_columns m a)) ?as"
  note r = ad_rows [OF assms(3) full, of "[]", folded rs_def, simplified]
  have ends: "TA_ERROR \<notin> set svcgrp_ids" "TA_OCCURS \<notin> set svcgrp_ids" by simp_all
  have n: "length (kept rs) = arr_len (advertisements m)" "length rs = arr_len (advertisements m)"
    using r(2) len by (simp_all add: rs_def)
  from report_holds [OF assms(2) r(3) ends small r(1), of fp] n obtain b' ds where
    b: "report fp (svcgrp_row m) (length rs) (Buf out) = (Inr (), Buf b')" "rep b' ds" "holds_report svcgrp_ids (kept rs) ds"
    by auto
  then have "t_svcgrp_get fp m (Buf out) = (Inr (), Buf b')" by (simp add: t_svcgrp_get_def n)
  from report_call [OF assms(1) operations(2) this]
  have call: "tpadmcall fp (Buf req) (m, Buf out) = (Inr (- 1), m, Buf b')" .
  have ads: "ads m = map triple ?as" using full by (simp add: ads_def filter_map o_def)
  have all: "map (\<lambda>cols. reported cols f) (kept rs) = map g (ads m)"
    if "\<And>a. a \<in> set ?as \<Longrightarrow> reported (ad_columns m a) f = g (triple a)" for f g
    unfolding r(2) ads using that by simp
  have "triple a \<noteq> no_triple" if "a \<in> set ?as" for a using full that by blast
  note rep = reported_ad [OF assms(3) _ this]
  show "\<exists>out' ds. tpadmcall fp (Buf req) (m, Buf out) = (Inr (- 1), m, Buf out') \<and> rep out' ds \<and>
      occs ds TA_SERVICENAME = map (\<lambda>(s, q, v). c_string (servicename (used (services m) ! s)) @ [0]) (ads m) \<and>
      occs ds TA_RQADDR = map (\<lambda>(s, q, v). c_string (rqaddr (used (queues m) ! q)) @ [0]) (ads m) \<and>
      occs ds TA_SRVID = map (\<lambda>(s, q, v). enc_le 8 (int (srvid (used (servers m) ! v)))) (ads m) \<and>
      occs ds TA_GRPNO = map (\<lambda>(s, q, v). enc_le 8 (int (srv_grpno (used (servers m) ! v)))) (ads m) \<and>
      occs ds TA_OCCURS = [enc_le 8 (int (length (ads m)))]"
  proof (intro exI [of _ b'] exI [of _ ds] conjI call b(2))
    have at: "occs ds f = map (\<lambda>cols. reported cols f) (kept rs)" if "f \<in> set svcgrp_ids" for f
      using b(3) that by (simp only: holds_report_def)
    show "occs ds TA_SERVICENAME = map (\<lambda>(s, q, v). c_string (servicename (used (services m) ! s)) @ [0]) (ads m)"
      by (subst at, simp, rule all) (subst rep(1), simp_all add: triple_def)
    show "occs ds TA_RQADDR = map (\<lambda>(s, q, v). c_string (rqaddr (used (queues m) ! q)) @ [0]) (ads m)"
      by (subst at, simp, rule all) (subst rep(2), simp_all add: triple_def)
    show "occs ds TA_SRVID = map (\<lambda>(s, q, v). enc_le 8 (int (srvid (used (servers m) ! v)))) (ads m)"
      by (subst at, simp, rule all) (subst rep(3), simp_all add: triple_def)
    show "occs ds TA_GRPNO = map (\<lambda>(s, q, v). enc_le 8 (int (srv_grpno (used (servers m) ! v)))) (ads m)"
      by (subst at, simp, rule all) (subst rep(4), simp_all add: triple_def)
    show "occs ds TA_OCCURS = [enc_le 8 (int (length (ads m)))]"
      using b(3) unfolding holds_report_def r(2) ads by simp
  qed
qed

lemma free_ad_throws:
  assumes "requested req (bytes ''T_SVCGRP'') (bytes ''GET'')" "rep out []" "ads_refer m" "arr_len (advertisements m) < 2 ^ 16"
    and free: "no_triple \<in> triple ` set (used (advertisements m))"
  shows "\<exists>out'. tpadmcall fp (Buf req) (m, Buf out) = (Inl (Throw Out_of_range), m, out')"
proof -
  let ?as = "used (advertisements m)"
  have ok: "arr_ok (advertisements m)" "arr_ok (services m)" using assms(3) mib_ok_arrays by (auto simp: ads_refer_def)
  have len: "length ?as = arr_len (advertisements m)" using ok by simp
  have "\<exists>a \<in> set ?as. triple a = no_triple" using free by (auto simp: image_iff)
  then obtain as a bs where split: "?as = as @ a # bs" "triple a = no_triple" "\<forall>x \<in> set as. triple x \<noteq> no_triple"
    using split_list_first_prop [of ?as "\<lambda>x. triple x = no_triple"] by blast
  define rs where "rs = map (\<lambda>a. Some (ad_columns m a)) as"
  note r = ad_rows [OF assms(3) split(3,1), folded rs_def]
  have n: "length rs = length as" "length (kept rs) = length as" using r(2) by (simp_all add: rs_def)
  have e: "occs [] f = []" for f by (simp add: occs_def same_id_def)
  have b0: "blen out = 0" using rep_blen [OF assms(2)] by simp
  have "blen out + length (kept rs) * (length svcgrp_ids * field_max) \<le> room_max"
    using len split(1) n b0 assms(4) by (simp add: field_max_def room_max_def)
  from put_rows_added [OF assms(2) r(3) _ this, of 0 "svcgrp_row m" 0 fp "Suc (length bs)"] r(1) e
  obtain b' where b: "put_rows fp (svcgrp_row m) (length rs + Suc (length bs)) 0 0 (Buf out) =
      put_rows fp (svcgrp_row m) (Suc (length bs)) (length rs) (int (length (kept rs))) (Buf b')" by auto
  have "arr_at (advertisements m) (length rs) = Inr a"
    using arr_at_used [OF ok(1), of "length rs"] len split(1) n by (simp add: nth_append)
  moreover have "arr_at (services m) badoff = Inl Out_of_range" using ok(2) by (simp add: arr_at_def arr_ok_def)
  ultimately have "svcgrp_row m (length rs) = Inl Out_of_range" using split(2) by (simp add: svcgrp_row_def triple_def)
  moreover have "arr_len (advertisements m) = length rs + Suc (length bs)" using len split(1) n by simp
  ultimately have "t_svcgrp_get fp m (Buf out) = (Inl (Throw Out_of_range), Buf b')"
    using b by (simp add: t_svcgrp_get_def report_def)
  then show "\<exists>out'. tpadmcall fp (Buf req) (m, Buf out) = (Inl (Throw Out_of_range), m, out')"
    using tpadmcall_requested [OF assms(1) operations(2), of fp "(m, Buf out)"] by (simp add: get_from_def)
qed

text \<open>C24: T_SVCGRP GET reports the advertised services only until the first one is withdrawn. While the table has
  no free entry, \<open>tpadmcall\<close> leaves a row for each advertised triple of service, queue and server, in their
  order; as soon as there is a free entry, as \<open>unadvertise\<close> leaves it, the call ends with an exception, because
  the entry names a service with the index \<open>badoff\<close>.\<close>

theorem advertisements_reported:
  assumes "requested req (bytes ''T_SVCGRP'') (bytes ''GET'')" "rep out []" "ads_refer m" "arr_len (advertisements m) < 2 ^ 16"
  shows "(no_triple \<notin> triple ` set (used (advertisements m)) \<longrightarrow>
      (\<exists>out' ds. tpadmcall fp (Buf req) (m, Buf out) = (Inr (- 1), m, Buf out') \<and> rep out' ds \<and>
        occs ds TA_SERVICENAME = map (\<lambda>(s, q, v). c_string (servicename (used (services m) ! s)) @ [0]) (ads m) \<and>
        occs ds TA_RQADDR = map (\<lambda>(s, q, v). c_string (rqaddr (used (queues m) ! q)) @ [0]) (ads m) \<and>
        occs ds TA_SRVID = map (\<lambda>(s, q, v). enc_le 8 (int (srvid (used (servers m) ! v)))) (ads m) \<and>
        occs ds TA_GRPNO = map (\<lambda>(s, q, v). enc_le 8 (int (srv_grpno (used (servers m) ! v)))) (ads m) \<and>
        occs ds TA_OCCURS = [enc_le 8 (int (length (ads m)))])) \<and>
    (no_triple \<in> triple ` set (used (advertisements m)) \<longrightarrow>
      (\<exists>out'. tpadmcall fp (Buf req) (m, Buf out) = (Inl (Throw Out_of_range), m, out')))"
  by (intro conjI impI ads_reported [OF assms] free_ad_throws [OF assms])

subsection \<open>Changing a server\<close>

lemma fetch_text_missing:
  assumes "rep b cs" "valid_id f" "f \<noteq> BADFLDID" "occs cs f = []"
  shows "fetch_text fp f 0 d (Buf b) = (case d of None \<Rightarrow> Inl (Throw Fml32buf_error) | Some s \<Rightarrow> Inr s)"
  using rep_find(2) [OF assms(1,2), of 0] assms(2-4)
  by (simp add: fetch_text_def CFfind32_def FBFR32_CHECK_def FLDID32_CHECK_def reading_def valid_id_def find_cvt_def)

lemma fetch_long_missing:
  assumes "rep b cs" "valid_id f" "f \<noteq> BADFLDID" "occs cs f = []"
  shows "fetch_long fp f 0 d (Buf b) = (case d of None \<Rightarrow> Inl (Throw Fml32buf_error) | Some i \<Rightarrow> Inr i)"
  using rep_find(2) [OF assms(1,2), of 0] assms(2-4)
  by (simp add: fetch_long_def CFget32_def FBFR32_CHECK_def FLDID32_CHECK_def reading_def valid_id_def find_cvt_def)

lemma fetch_long_field:
  assumes "rep b cs" "valid_id f" "f \<noteq> BADFLDID" "Fldtype32 f = FLD_LONG" "occs cs f = enc_le 8 i # vs" "- (2 ^ 63) \<le> i" "i < 2 ^ 63"
  shows "fetch_long fp f 0 d (Buf b) = Inr i"
proof -
  let ?v = "enc_le 8 i"
  obtain p where p: "fb_find f 0 b = Ret (p, 8)" "rd p 8 (bdata b) = ?v" using rep_find(1) [OF assms(1,2), of 0] assms(5) by auto
  have i: "sdec_le ?v = i" using assms(6,7) by (intro sdec_enc_le) simp_all
  have "find_cvt fp f 0 FLD_LONG b = Ret (?v @ [0], 8)"
    using p assms(4) i by (simp add: find_cvt_def Ftypcvt32_def peek_def TYPCVT_def copy_n_def)
  then have "fst (CFget32 fp (Buf b) f 0 None FLD_LONG) = Ret ?v"
    using assms(2,3) by (simp add: CFget32_def FBFR32_CHECK_def FLDID32_CHECK_def reading_def valid_id_def)
  then show ?thesis using i by (simp add: fetch_long_def)
qed

text \<open>A request that names the server and leaves everything that has a default to it\<close>

abbreviation (input) server_defaults :: "fldid list" where
  "server_defaults \<equiv> [TA_BASESRVID, TA_CLOPT, TA_ENVFILE, TA_DEPENDSON, TA_GRACE, TA_MAXGEN, TA_MIN, TA_MAX, TA_MINDISPATCHTHREADS,
     TA_MAXDISPATCHTHREADS, TA_THREADSTACKSIZE, TA_CURDISPATCHTHREADS, TA_HWDISPATCHTHREADS, TA_NUMDISPATCHTHREADS, TA_RESTART]"

definition server_request :: "fbfr \<Rightarrow> byte list \<Rightarrow> nat \<Rightarrow> byte list \<Rightarrow> byte list \<Rightarrow> byte list \<Rightarrow> bool" where
  "server_request b grp sid state name cmd \<longleftrightarrow> sid < 2 ^ 16 \<and> (\<forall>s \<in> {grp, state, name, cmd}. 0 \<notin> set s) \<and>
     (\<exists>cs. rep b cs \<and> occs cs TA_CLASS = [bytes ''T_SERVER'' @ [0]] \<and> occs cs TA_OPERATION = [bytes ''SET'' @ [0]] \<and>
        occs cs TA_SRVGRP = [grp @ [0]] \<and> occs cs TA_SRVID = [enc_le 8 (int sid)] \<and> occs cs TA_STATE = [state @ [0]] \<and>
        occs cs TA_SERVERNAME = [name @ [0]] \<and> occs cs TA_RCMD = [cmd @ [0]] \<and> (\<forall>f \<in> set server_defaults. occs cs f = []))"

lemma server_request_fetches:
  assumes "server_request b grp sid state name cmd"
  shows "requested b (bytes ''T_SERVER'') (bytes ''SET'')"
    "fetch_text fp TA_SRVGRP 0 None (Buf b) = Inr grp" "fetch_long fp TA_SRVID 0 None (Buf b) = Inr (int sid)"
    "fetch_text fp TA_STATE 0 None (Buf b) = Inr state" "fetch_text fp TA_SERVERNAME 0 None (Buf b) = Inr name"
    "fetch_text fp TA_RCMD 0 None (Buf b) = Inr cmd"
    "f \<in> {TA_CLOPT, TA_ENVFILE, TA_DEPENDSON, TA_RESTART} \<Longrightarrow> fetch_text fp f 0 (Some x) (Buf b) = Inr x"
    "f \<in> {TA_BASESRVID, TA_GRACE, TA_MAXGEN, TA_MIN, TA_MAX, TA_MINDISPATCHTHREADS, TA_MAXDISPATCHTHREADS, TA_THREADSTACKSIZE,
       TA_CURDISPATCHTHREADS, TA_HWDISPATCHTHREADS, TA_NUMDISPATCHTHREADS} \<Longrightarrow> fetch_long fp f 0 (Some i) (Buf b) = Inr i"
proof -
  obtain cs where r: "rep b cs" and o: "occs cs TA_CLASS = [bytes ''T_SERVER'' @ [0]]" "occs cs TA_OPERATION = [bytes ''SET'' @ [0]]"
    "occs cs TA_SRVGRP = [grp @ [0]]" "occs cs TA_SRVID = [enc_le 8 (int sid)]" "occs cs TA_STATE = [state @ [0]]"
    "occs cs TA_SERVERNAME = [name @ [0]]" "occs cs TA_RCMD = [cmd @ [0]]"
    and none: "\<forall>f \<in> set server_defaults. occs cs f = []"
    and z: "0 \<notin> set grp" "0 \<notin> set state" "0 \<notin> set name" "0 \<notin> set cmd" "sid < 2 ^ 16"
    using assms by (auto simp: server_request_def)
  show "requested b (bytes ''T_SERVER'') (bytes ''SET'')" using r o by (auto simp: requested_def bytes_simps)
  show "fetch_text fp TA_SRVGRP 0 None (Buf b) = Inr grp" by (rule fetch_text_field [OF r _ _ _ o(3) z(1)]) (simp_all add: eval_chunk)
  show "fetch_text fp TA_STATE 0 None (Buf b) = Inr state" by (rule fetch_text_field [OF r _ _ _ o(5) z(2)]) (simp_all add: eval_chunk)
  show "fetch_text fp TA_SERVERNAME 0 None (Buf b) = Inr name" by (rule fetch_text_field [OF r _ _ _ o(6) z(3)]) (simp_all add: eval_chunk)
  show "fetch_text fp TA_RCMD 0 None (Buf b) = Inr cmd" by (rule fetch_text_field [OF r _ _ _ o(7) z(4)]) (simp_all add: eval_chunk)
  show "fetch_long fp TA_SRVID 0 None (Buf b) = Inr (int sid)"
    by (rule fetch_long_field [OF r _ _ _ o(4)]) (use z(5) in \<open>simp_all add: eval_chunk\<close>)
  show "fetch_text fp f 0 (Some x) (Buf b) = Inr x" if f: "f \<in> {TA_CLOPT, TA_ENVFILE, TA_DEPENDSON, TA_RESTART}"
  proof -
    have "valid_id f" "f \<noteq> BADFLDID" using f by (auto simp: eval_chunk)
    moreover have "occs cs f = []" using f none by (elim insertE) simp_all
    ultimately show ?thesis using fetch_text_missing [OF r] by simp
  qed
  show "fetch_long fp f 0 (Some i) (Buf b) = Inr i"
    if f: "f \<in> {TA_BASESRVID, TA_GRACE, TA_MAXGEN, TA_MIN, TA_MAX, TA_MINDISPATCHTHREADS, TA_MAXDISPATCHTHREADS,
      TA_THREADSTACKSIZE, TA_CURDISPATCHTHREADS, TA_HWDISPATCHTHREADS, TA_NUMDISPATCHTHREADS}"
  proof -
    have "valid_id f" "f \<noteq> BADFLDID" using f by (auto simp: eval_chunk)
    moreover have "occs cs f = []" using f none by (elim insertE) simp_all
    ultimately show ?thesis using fetch_long_missing [OF r] by simp
  qed
qed

text \<open>Writing one server after the other leaves the last one; everything else stays.\<close>

lemma set_server_again:
  "set_server i y (set_server i x m) = set_server i y m"
  "length (arr_data (servers (set_server i x m))) = length (arr_data (servers m))"
  "arr_size (servers (set_server i x m)) = arr_size (servers m)" "queues (set_server i x m) = queues m"
  "i < length (arr_data (servers m)) \<Longrightarrow> arr_data (servers (set_server i x m)) ! i = x"
  by (simp_all add: set_server_def arr_put_def)

lemma write_server_step:
  assumes "f x (arr_data (servers m) ! i) = (Inr (), s)"
  shows "run_steps (write_server i (Inr x) f # fs) m = run_steps fs (set_server i s m)"
  using assms by (simp add: write_server_def)

lemma server_writes:
  "assign f x s = (Inr (), f x s)"
  "length (w :: byte list) < length (get s) \<Longrightarrow> copy_field w get upd s = (Inr (), upd (\<lambda>_. w @ drop (length w) (get s)) s)"
  by (simp_all add: assign_def copy_field_def checked_copy_def)

text \<open>The char arrays of a server have the sizes of src/mibtypes.h.\<close>

definition server_sized :: "mib_server \<Rightarrow> bool" where
  "server_sized s \<longleftrightarrow> length (servername s) = 128 \<and> length (clopt s) = 1024 \<and> length (envfile s) = 256 \<and>
     length (dependson s) = 1024 \<and> length (rcmd s) = 256"

definition over :: "byte list \<Rightarrow> byte list \<Rightarrow> byte list" where
  "over src dst = src @ drop (length src) dst"

definition changed_server :: "nat \<Rightarrow> nat \<Rightarrow> nat \<Rightarrow> byte list \<Rightarrow> byte list \<Rightarrow> mib_server \<Rightarrow> mib_server" where
  "changed_server q g sid name cmd s =
     s\<lparr>rqaddr_idx := q, srv_group_idx := g mod 2 ^ 16, srvid := sid, servername := over name (servername s),
       srv_state := undefined_state, basesrvid := 0, clopt := over (bytes ''-A'') (clopt s), grace := 86400, maxgen := 1,
       srv_min := 1, srv_max := 1, mindispatchthreads := 1, maxdispatchthreads := 1, threadstacksize := 0,
       curdispatchthreads := 0, hwdispatchthreads := 0, numdispatchthreads := 0, rcmd := over cmd (rcmd s),
       restart := False, autostart := True\<rparr>"

lemma server_members_run:
  assumes "server_request b grp sid state name cmd" "i < length (arr_data (servers m))" "arr_data (servers m) ! i = s"
    "server_sized s" "length name < 128" "length cmd < 256"
  shows "run_steps (server_members fp (Buf b) i g sid undefined_state @ fs) m =
    run_steps fs (set_server i (changed_server (rqaddr_idx s) g sid name cmd s) m)"
proof -
  note fetch = server_request_fetches(5-8) [OF assms(1)]
  have n: "nat (int g mod 65536) = g mod 65536" by (simp add: nat_mod_distrib)
  show ?thesis
    using assms(2-6)
    by (simp add: server_members_def fetch write_server_step set_server_again server_writes server_sized_def bytes_simps as_int32_def
        as_uint16_def to_bool_def changed_server_def over_def n del: run_steps.simps)
qed

lemma server_set_start:
  assumes "server_request req grp sid state name cmd" "group_index grp m = Inr g" "g \<noteq> badoff"
  shows "tpadmcall fp (Buf req) (m, out) =
    (case seqx (server_entry sid g undefined_state m) (\<lambda>i m.
        run_steps (server_queue i # server_members fp (Buf req) i g sid undefined_state @ [count_server i]) m) of
       (Inl e, m) \<Rightarrow> (Inl e, m, out)
     | (Inr _, m) \<Rightarrow> (case put_occurs fp 0 out of (Inl e, out) \<Rightarrow> (Inl e, m, out) | (Inr _, out) \<Rightarrow> (Inr (- 1), m, out)))"
proof -
  have "sid < 2 ^ 16" using assms(1) by (simp add: server_request_def)
  then have "as_uint16 (int sid) = sid" by (simp add: as_uint16_def)
  then show ?thesis
    unfolding tpadmcall_requested [OF server_request_fetches(1) [OF assms(1)] operations(3)]
    using assms(2,3) by (simp add: t_server_set_def server_request_fetches(2-4) [OF assms(1)] change_server_def to_state_def
        del: run_steps.simps split: prod.split sum.split)
qed


text \<open>A new server for a full table breaks the table. T_SERVER SET counts the entry before it looks whether there
  is one, and the call ends with an exception; from then on every lookup of a server that is not in the table
  ends with one too, where it reported before that there is none.\<close>

theorem full_table_broken:
  assumes "server_request req grp sid state name cmd" "arr_ok (servers m)" "arr_len (servers m) = arr_size (servers m)"
    "group_index grp m = Inr g" "g \<noteq> badoff" "server_index sid g m = Inr badoff"
  shows "\<exists>m'. tpadmcall fp (Buf req) (m, out) = (Inl (Throw Out_of_range), m', out) \<and>
    arr_len (servers m') = arr_size (servers m') + 1 \<and>
    (\<forall>a b. find_server a b m = Inr badoff \<longrightarrow> find_server a b m' = Inl Out_of_range)"
proof -
  let ?a = "servers m"
  define m' where "m' = m\<lparr>servers := ?a\<lparr>arr_len := arr_len ?a + 1\<rparr>\<rparr>"
  have "server_entry sid g undefined_state m = (Inl (Throw Out_of_range), m')"
    using assms(3,6) by (simp add: server_entry_def m'_def arr_at_def)
  then have "tpadmcall fp (Buf req) (m, out) = (Inl (Throw Out_of_range), m', out)"
    unfolding server_set_start [OF assms(1,4,5)] by simp
  moreover have "find_server a b m' = Inl Out_of_range" if none: "find_server a b m = Inr badoff" for a b
  proof -
    let ?P = "\<lambda>s. srvid s = a \<and> srv_grpno s = b"
    have "\<not> (\<exists>x \<in> set (used ?a). ?P x)"
      using none or_badoff_found [OF assms(2), of ?P] by (simp add: find_server_def arr_find_used [OF assms(2)])
    then have no: "\<not> ?P (arr_data ?a ! j)" if "j < arr_len ?a" for j
      using that used_nth [OF that] nth_mem [of j "used ?a"] assms(2) by (metis length_used)
    have "scan_at (arr_at ?a) ?P (Suc n) i = Inl Out_of_range" if "i + n = arr_len ?a" for n i
      using that
    proof (induction n arbitrary: i)
      case 0
      then show ?case using assms(3) by (simp add: arr_at_def)
    next
      case (Suc n)
      then have "i < arr_len ?a" by simp
      then show ?case using Suc.IH [of "Suc i"] Suc.prems no [of i] assms(3) by (simp add: arr_at_def)
    qed
    from this [of 0 "arr_len ?a"] have "scan_at (arr_at ?a) ?P (arr_len ?a + 1) 0 = Inl Out_of_range" by simp
    moreover have "arr_at (servers m') = arr_at ?a" by (rule ext) (simp add: m'_def arr_at_def)
    ultimately show ?thesis by (simp add: find_server_def arr_find_def) (simp add: m'_def)
  qed
  moreover have "arr_len (servers m') = arr_size (servers m') + 1" using assms(3) by (simp add: m'_def)
  ultimately show ?thesis by blast
qed

text \<open>What T_SERVER GET reports as TA_RESTART, a number, is not what T_SERVER SET accepts there.\<close>

lemma restart_not_read_back:
  "reported (server_columns m s) TA_RESTART = (if restart s then bytes ''1'' else bytes ''0'') @ [0]"
  "to_bool (if restart s then bytes ''1'' else bytes ''0'') = Inl Logic_error"
proof -
  have t: "Fldtype32 TA_RESTART = FLD_STRING" by (simp add: eval_chunk)
  have "show_int (sdec_le (enc_le 8 (of_bool r))) = (if r then bytes ''1'' else bytes ''0'')" for r
    using sdec_enc_le [of 8 "of_bool r"] by (cases r) (simp_all add: show_int_def show_nat.simps digit_def bytes_simps)
  then show "reported (server_columns m s) TA_RESTART = (if restart s then bytes ''1'' else bytes ''0'') @ [0]"
    by (simp add: reported_def server_columns_def ta_stored_def t)
  show "to_bool (if restart s then bytes ''1'' else bytes ''0'') = Inl Logic_error" by (simp add: to_bool_def bytes_simps)
qed

subsection \<open>Witnesses\<close>

definition demo_service :: mib_service where
  "demo_service = \<lparr>servicename = [65, 0], svc_state = ACTive, autotran = [78, 0], svc_load = 50, svc_prio = 50, svc_blocktime = 0,
     svctimeout = 0, trantime = 30, buftype = [65, 76, 76, 0], routingname = [0], signature_required = [78, 0],
     encryption_required = [78, 0], buftypeconv = [0], cachingname = [0], revision = 1\<rparr>"

definition full_arr :: "'a list \<Rightarrow> 'a mibarr" where
  "full_arr xs = \<lparr>arr_len = length xs, arr_size = length xs, arr_data = xs\<rparr>"

definition demo_entry :: mib_server where
  "demo_entry = (arr_data (servers demo_mib) ! 0)\<lparr>srvid := 1, srv_grpno := 1, envfile := replicate 256 0, dependson := replicate 1024 0,
     rcmd := replicate 256 0\<rparr>"

definition demo_admin :: "advertisement list \<Rightarrow> mibmem" where
  "demo_admin as = demo_mib\<lparr>
     groups := full_arr [\<lparr>grp_grpno = 1, srvgrp = [71, 0], openinfo = [0], closeinfo = [0], tmsname = [0]\<rparr>],
     servers := full_arr [demo_entry],
     queues := full_arr [\<lparr>rqaddr = [97, 0], msqid = 5, q_mtype = 1, servercnt = 1, server_idx = 0\<rparr>],
     services := full_arr [demo_service], advertisements := full_arr as\<rparr>"

definition demo_ad :: advertisement where
  "demo_ad = \<lparr>adv_service = 0, adv_queue = 0, adv_server = 0, adv_state = ACTive\<rparr>"

definition free_ad :: advertisement where
  "free_ad = \<lparr>adv_service = badoff, adv_queue = badoff, adv_server = badoff, adv_state = INValid\<rparr>"

lemma full_arr_sel [simp]:
  "arr_len (full_arr xs) = length xs" "arr_size (full_arr xs) = length xs" "arr_data (full_arr xs) = xs" "used (full_arr xs) = xs"
  "length xs \<le> badoff \<Longrightarrow> arr_ok (full_arr xs)" "length xs \<le> badoff \<Longrightarrow> slots_ok Z (full_arr xs)"
  by (simp_all add: full_arr_def used_def arr_ok_def slots_ok_def)

lemma demo_admin_ok:
  assumes "as \<in> {[demo_ad], [demo_ad, free_ad]}"
  shows "ads_refer (demo_admin as)" "ads (demo_admin as) = [(0, 0, 0)]" "services (demo_admin as) = full_arr [demo_service]"
    "advertisements (demo_admin as) = full_arr as" "service_sized demo_service"
proof -
  show s: "service_sized demo_service" by (simp add: service_sized_def demo_service_def)
  show a: "ads (demo_admin as) = [(0, 0, 0)]"
    using assms by (auto simp: ads_def demo_admin_def triple_def demo_ad_def free_ad_def badoff_def)
  have "length (mach_lmid (mach demo_mib)) \<le> 1024" by (simp add: demo_mib_def)
  then show "ads_refer (demo_admin as)"
    using assms s a by (auto simp: ads_refer_def mib_ok_def demo_admin_def badoff_def)
qed (simp_all add: demo_admin_def)

lemma blank_put:
  assumes "columns_fit fs cols" "length fs \<le> 100"
  obtains b ds where "rep b ds" "occs ds = (\<lambda>f. if f \<in> set fs then [reported cols f] else [])"
proof -
  have r: "rep (snd (fb_init 1024 blank)) []" by (simp add: blank_init)
  have e: "occs [] f = []" for f by (simp add: occs_def same_id_def)
  have "blen (snd (fb_init 1024 blank)) + length fs * field_max \<le> room_max"
    using rep_blen [OF r] assms(2) by (simp add: field_max_def room_max_def)
  from put_columns_added [OF r assms(1) _ this, where oc = 0 and fp = undefined] e obtain b ds where
    b: "rep b ds" "occs ds = (\<lambda>f. if f \<in> set fs then occs [] f @ [reported cols f] else occs [] f)" by auto
  then show thesis using that [of b ds] unfolding e append_Nil by simp
qed

lemma request_exists:
  assumes "0 \<notin> set klass" "0 \<notin> set oper" "length klass \<le> 1024" "length oper \<le> 1024"
  shows "\<exists>b. requested b klass oper"
proof -
  have "columns_fit [TA_CLASS, TA_OPERATION] [(TA_CLASS, Inr (TA_text klass)), (TA_OPERATION, Inr (TA_text oper))]"
    using assms by (simp add: columns_fit_def ta_fits_def eval_chunk)
  from blank_put [OF this] obtain b ds where
    "rep b ds" "occs ds = (\<lambda>f. if f \<in> set [TA_CLASS, TA_OPERATION]
       then [reported [(TA_CLASS, Inr (TA_text klass)), (TA_OPERATION, Inr (TA_text oper))] f] else [])" by auto
  then show ?thesis using assms by (intro exI [of _ b]) (auto simp: requested_def reported_def ta_stored_def)
qed

lemma empty_output: "rep (snd (fb_init 1024 blank)) []"
  by (simp add: blank_init)

theorem services_reported_witness:
  "\<forall>fp. \<exists>req out' ds. tpadmcall fp (Buf req) (demo_admin [demo_ad], Buf (snd (fb_init 1024 blank))) =
      (Inr (- 1), demo_admin [demo_ad], Buf out') \<and> rep out' ds \<and> occs ds TA_SERVICENAME = [[65, 0]] \<and>
      occs ds TA_OCCURS = [enc_le 8 1]"
proof
  fix fp
  obtain req where req: "requested req (bytes ''T_SERVICE'') (bytes ''GET'')"
    using request_exists [of "bytes ''T_SERVICE''" "bytes ''GET''"] by (auto simp: bytes_simps)
  have ok: "arr_ok (services (demo_admin [demo_ad]))" "arr_len (services (demo_admin [demo_ad])) < 2 ^ 16"
    "\<forall>s \<in> set (used (services (demo_admin [demo_ad]))). service_sized s"
    using demo_admin_ok [of "[demo_ad]"] by (simp_all add: badoff_def)
  have "filter (\<lambda>s. svc_state s \<noteq> INValid) (used (services (demo_admin [demo_ad]))) = [demo_service]"
    using demo_admin_ok(3) [of "[demo_ad]"] by (simp add: demo_service_def)
  moreover have "c_string (servicename demo_service) = [65]" by (simp add: demo_service_def c_string_def)
  ultimately show "\<exists>req out' ds. tpadmcall fp (Buf req) (demo_admin [demo_ad], Buf (snd (fb_init 1024 blank))) =
      (Inr (- 1), demo_admin [demo_ad], Buf out') \<and> rep out' ds \<and> occs ds TA_SERVICENAME = [[65, 0]] \<and>
      occs ds TA_OCCURS = [enc_le 8 1]" using services_reported [OF req empty_output ok(1,3,2), of fp] by auto
qed

theorem advertisements_reported_witness:
  "\<forall>fp. \<exists>req. (\<exists>out' ds. tpadmcall fp (Buf req) (demo_admin [demo_ad], Buf (snd (fb_init 1024 blank))) =
      (Inr (- 1), demo_admin [demo_ad], Buf out') \<and> rep out' ds \<and> occs ds TA_RQADDR = [[97, 0]]) \<and>
     (\<exists>out'. tpadmcall fp (Buf req) (demo_admin [demo_ad, free_ad], Buf (snd (fb_init 1024 blank))) =
      (Inl (Throw Out_of_range), demo_admin [demo_ad, free_ad], out'))"
proof
  fix fp
  obtain req where req: "requested req (bytes ''T_SVCGRP'') (bytes ''GET'')"
    using request_exists [of "bytes ''T_SVCGRP''" "bytes ''GET''"] by (auto simp: bytes_simps)
  have len: "arr_len (advertisements (demo_admin as)) < 2 ^ 16" if "length as < 3" for as
    using that by (simp add: demo_admin_def)
  have ads: "no_triple \<notin> triple ` set (used (advertisements (demo_admin [demo_ad])))"
    "no_triple \<in> triple ` set (used (advertisements (demo_admin [demo_ad, free_ad])))"
    by (simp_all add: demo_admin_def triple_def demo_ad_def free_ad_def badoff_def)
  have q: "c_string (rqaddr (used (queues (demo_admin [demo_ad])) ! 0)) = [97]" by (simp add: demo_admin_def c_string_def)
  have "\<exists>out' ds. tpadmcall fp (Buf req) (demo_admin [demo_ad], Buf (snd (fb_init 1024 blank))) =
      (Inr (- 1), demo_admin [demo_ad], Buf out') \<and> rep out' ds \<and> occs ds TA_RQADDR = [[97, 0]]"
    using advertisements_reported [OF req empty_output _ len, of "[demo_ad]" fp] demo_admin_ok(1,2) [of "[demo_ad]"] ads(1) q by auto
  moreover have "\<exists>out'. tpadmcall fp (Buf req) (demo_admin [demo_ad, free_ad], Buf (snd (fb_init 1024 blank))) =
      (Inl (Throw Out_of_range), demo_admin [demo_ad, free_ad], out')"
    using advertisements_reported [OF req empty_output _ len, of "[demo_ad, free_ad]" fp] demo_admin_ok(1) [of "[demo_ad, free_ad]"] ads(2)
    by auto
  ultimately show "\<exists>req. (\<exists>out' ds. tpadmcall fp (Buf req) (demo_admin [demo_ad], Buf (snd (fb_init 1024 blank))) =
      (Inr (- 1), demo_admin [demo_ad], Buf out') \<and> rep out' ds \<and> occs ds TA_RQADDR = [[97, 0]]) \<and>
     (\<exists>out'. tpadmcall fp (Buf req) (demo_admin [demo_ad, free_ad], Buf (snd (fb_init 1024 blank))) =
      (Inl (Throw Out_of_range), demo_admin [demo_ad, free_ad], out'))" by blast
qed

text \<open>A server that is in the table, and a new one, for which there is no room\<close>

lemma server_request_exists:
  assumes "sid < 2 ^ 16" "\<forall>s \<in> {grp, state, name, cmd}. 0 \<notin> set s \<and> length s \<le> 1024"
  shows "\<exists>b. server_request b grp sid state name cmd"
proof -
  let ?fs = "[TA_CLASS, TA_OPERATION, TA_SRVGRP, TA_SRVID, TA_STATE, TA_SERVERNAME, TA_RCMD]"
  let ?cols = "[(TA_CLASS, Inr (TA_text (bytes ''T_SERVER''))), (TA_OPERATION, Inr (TA_text (bytes ''SET''))),
    (TA_SRVGRP, Inr (TA_text grp)), (TA_SRVID, Inr (TA_long (int sid))), (TA_STATE, Inr (TA_text state)),
    (TA_SERVERNAME, Inr (TA_text name)), (TA_RCMD, Inr (TA_text cmd))]"
  have fit: "columns_fit ?fs ?cols"
    using assms by (simp add: columns_fit_def ta_fits_def eval_chunk bytes_simps)
  obtain b ds where b: "rep b ds" "occs ds = (\<lambda>f. if f \<in> set ?fs then [reported ?cols f] else [])"
    by (rule blank_put [OF fit]) simp_all
  have t: "Fldtype32 TA_SRVID = FLD_LONG" by (simp add: eval_chunk)
  have "\<forall>f \<in> set server_defaults. occs ds f = []" unfolding b(2) by simp
  moreover have "occs ds TA_CLASS = [bytes ''T_SERVER'' @ [0]]" "occs ds TA_OPERATION = [bytes ''SET'' @ [0]]"
    "occs ds TA_SRVGRP = [grp @ [0]]" "occs ds TA_SRVID = [enc_le 8 (int sid)]" "occs ds TA_STATE = [state @ [0]]"
    "occs ds TA_SERVERNAME = [name @ [0]]" "occs ds TA_RCMD = [cmd @ [0]]"
    unfolding b(2) by (simp_all add: reported_def ta_stored_def t)
  ultimately show ?thesis using assms b(1) unfolding server_request_def by blast
qed

lemma demo_admin_servers:
  "servers (demo_admin []) = full_arr [demo_entry]" "arr_ok (servers (demo_admin []))"
  "group_index [71] (demo_admin []) = Inr 0" "find_queue (bytes ''a'') (demo_admin []) = Inr 0"
  "server_index 1 0 (demo_admin []) = Inr 0" "server_index 2 0 (demo_admin []) = Inr badoff"
  "find_server 7 7 (demo_admin []) = Inr badoff" "server_sized demo_entry" "srv_rqaddr demo_entry = 0"
  "arr_at (queues (demo_admin [])) 0 = Inr \<lparr>rqaddr = [97, 0], msqid = 5, q_mtype = 1, servercnt = 1, server_idx = 0\<rparr>"
proof -
  have e: "srvid demo_entry = 1" "srv_group_idx demo_entry = 0" "srv_grpno demo_entry = 1" "server_sized demo_entry"
    "srv_rqaddr demo_entry = 0"
    by (simp_all add: demo_entry_def demo_mib_def arr_init_def server_sized_def)
  show "servers (demo_admin []) = full_arr [demo_entry]" "arr_ok (servers (demo_admin []))"
    "group_index [71] (demo_admin []) = Inr 0" "find_queue (bytes ''a'') (demo_admin []) = Inr 0"
    "server_index 1 0 (demo_admin []) = Inr 0" "server_index 2 0 (demo_admin []) = Inr badoff"
    "find_server 7 7 (demo_admin []) = Inr badoff" "server_sized demo_entry" "srv_rqaddr demo_entry = 0"
    "arr_at (queues (demo_admin [])) 0 = Inr \<lparr>rqaddr = [97, 0], msqid = 5, q_mtype = 1, servercnt = 1, server_idx = 0\<rparr>"
    by (simp_all add: demo_admin_def group_index_def find_queue_def server_index_def find_server_def arr_find_def or_badoff_def
        arr_at_def c_string_def bytes_simps badoff_def e)
qed


theorem full_table_broken_witness:
  "\<forall>fp out. \<exists>req m'. tpadmcall fp (Buf req) (demo_admin [], out) = (Inl (Throw Out_of_range), m', out) \<and>
     find_server 7 7 m' = Inl Out_of_range"
proof (intro allI)
  fix fp out
  obtain req where req: "server_request req [71] 2 (bytes ''NEW'') [115] []"
    using server_request_exists [of 2 "[71]" "bytes ''NEW''" "[115]" "[]"] by (auto simp: bytes_simps)
  note d = demo_admin_servers
  have "arr_len (servers (demo_admin [])) = arr_size (servers (demo_admin []))" "0 \<noteq> badoff" by (simp_all add: d(1) badoff_def)
  from full_table_broken [OF req d(2) this(1) d(3) this(2) d(6), of fp out] d(7)
  show "\<exists>req m'. tpadmcall fp (Buf req) (demo_admin [], out) = (Inl (Throw Out_of_range), m', out) \<and>
     find_server 7 7 m' = Inl Out_of_range" by blast
qed

end
