(* ===== verification/Fml_Text.thy ===== *)
theory Fml_Text
  imports Fml_Ptr Mem Field_Table Expr_Parse
begin

text \<open>
  The printed form of a fielded buffer: \<open>fprint\<close> of src/fbfr32.h, the reader of src/extreader.h, and \<open>Fprint32\<close>,
  \<open>Ffprint32\<close> and \<open>Fextread32\<close> of src/fml32.cpp. A file is the list of its bytes; the names of fields come from
  the maps of the field tables, which are loaded on first use.
\<close>

subsection \<open>Printing\<close>

text \<open>\<open>isprint\<close>, and \<open>%02x\<close> of a \<open>char\<close>, which is signed: a byte of 128 or more has eight digits.\<close>

definition print_byte :: "byte \<Rightarrow> byte list" where
  "print_byte c =
     (if 32 \<le> c \<and> c \<le> 126 then [c]
      else 92 # (if c \<ge> 128 then replicate 6 102 else []) @ hex2 c)"

definition print_bytes :: "byte list \<Rightarrow> byte list" where
  "print_bytes s = concat (map print_byte s)"

text \<open>The value of the field at \<open>p\<close>; a nested buffer is printed by \<open>nested\<close>.\<close>

type_synonym 'a printing = "byte list \<times> field_maps \<Rightarrow> 'a outcome \<times> byte list \<times> field_maps"

definition print_value :: "(fbfr \<Rightarrow> unit printing) \<Rightarrow> fp_ops \<Rightarrow> fbfr \<Rightarrow> nat \<Rightarrow> unit printing" where
  "print_value nested fp b p s =
     (let t = Fldtype32 (id_at (bdata b) p); v = src_value b p; put = (\<lambda>x. (Ret (), fst s @ x, snd s)) in
      if t = FLD_SHORT \<or> t = FLD_LONG then put (show_int (sdec_le v))
      else if t = FLD_CHAR then put (print_bytes v)
      else if t = FLD_FLOAT then put (show_f32 fp v)
      else if t = FLD_DOUBLE then put (show_f64 fp v)
      else if t = FLD_STRING then put (print_bytes (butlast v))
      else if t = FLD_CARRAY then put (print_bytes v)
      else if t = FLD_FML32 then nested (fb_of (\<lambda>i. bdata b (fvalue (bdata b) p + i))) (fst s @ [10], snd s)
      else put [])"

definition unnamed :: "fldid \<Rightarrow> byte list" where
  "unnamed fieldid = bytes ''(FLDID32('' @ show_int (sint fieldid) @ bytes ''))''"

definition print_field :: "(fbfr \<Rightarrow> unit printing) \<Rightarrow> table_env \<Rightarrow> fp_ops \<Rightarrow> nat \<Rightarrow> fbfr \<Rightarrow> nat \<Rightarrow> int printing" where
  "print_field nested env fp indent b p s =
     (case Fname32 env (id_at (bdata b) p) (snd s) of
        (Inl e, t) \<Rightarrow> (Stuck, fst s, t)
      | (Inr name, t) \<Rightarrow>
          let label = (case name of Some n \<Rightarrow> n | None \<Rightarrow> unnamed (id_at (bdata b) p)) in
          (case print_value nested fp b p (fst s @ replicate indent 9 @ label @ [9], t) of
             (Ret _, txt, t) \<Rightarrow> (Ret 0, txt @ [10], t)
           | (Err e, s) \<Rightarrow> (Err e, s)
           | (Stuck, s) \<Rightarrow> (Stuck, s)))"

text \<open>The recursion into nested buffers, as deep as \<open>n\<close>; a walk that does not end is \<open>Stuck\<close>.\<close>

fun fprint :: "nat \<Rightarrow> table_env \<Rightarrow> fp_ops \<Rightarrow> nat \<Rightarrow> fbfr \<Rightarrow> unit printing" where
  "fprint 0 env fp indent b s = (Stuck, s)"
| "fprint (Suc n) env fp indent b s =
     (case iterate_all (\<lambda>_. b) (\<lambda>p oc s. print_field (fprint n env fp (Suc indent)) env fp indent b p s) s of
        None \<Rightarrow> (Stuck, s)
      | Some (Ret _, txt, t) \<Rightarrow> (Ret (), txt @ (if indent = 0 then [10] else []), t)
      | Some (Err e, s) \<Rightarrow> (Err e, s)
      | Some (Stuck, s) \<Rightarrow> (Stuck, s))"

text \<open>Each level of nesting takes the 40 bytes of a header, so that the size of the buffer is depth enough.\<close>

definition Ffprint32 :: "table_env \<Rightarrow> fp_ops \<Rightarrow> fbp \<Rightarrow> unit printing" where
  "Ffprint32 env fp p s =
     (case p of Buf b \<Rightarrow> fprint (Suc (fb_size b)) env fp 0 b (fst s, set_Ferror32 0 (snd s)) | _ \<Rightarrow> (Err FNOTFLD, fst s, set_Ferror32 FNOTFLD (snd s)))"

definition Fprint32 :: "table_env \<Rightarrow> fp_ops \<Rightarrow> fbp \<Rightarrow> unit printing" where
  "Fprint32 env fp p stdout = Ffprint32 env fp p stdout"

subsection \<open>Reading\<close>

text \<open>\<open>strchr\<close> also finds the zero byte, at the end of the text it searches.\<close>

definition ext_flag :: "byte list \<Rightarrow> byte list" where
  "ext_flag s = snd (eat_if (\<lambda>c. c \<in> {43, 45, 61, 0}) s)"

definition hex_like :: "byte \<Rightarrow> bool" where
  "hex_like c \<longleftrightarrow> is_hex c \<or> c = 0"

definition ext_hex :: "byte list \<Rightarrow> stop + byte list \<times> byte list" where
  "ext_hex s =
     (case eat_if hex_like s of
        (None, s) \<Rightarrow> Inr ([], s)
      | (Some high, s) \<Rightarrow>
          (case eat_if hex_like s of
             (None, s) \<Rightarrow> Inl (Throw Runtime_error)
           | (Some low, s) \<Rightarrow>
               if high = 0 \<or> low = 0 then Inl Undefined
               else Inr ([push_bit 4 (base16 high) OR base16 low], s)))"

lemma ext_hex_left: "ext_hex s = Inr (x, t) \<Longrightarrow> length t \<le> length s"
  by (auto simp: ext_hex_def dest!: eat_if_left split: prod.splits option.splits if_splits)

function ext_value :: "byte list \<Rightarrow> byte list \<Rightarrow> stop + byte list \<times> byte list" where
  "ext_value v s =
     (case s of
        [] \<Rightarrow> Inr (v, [])
      | c # cs \<Rightarrow>
          if c = 92 then (case ext_hex cs of Inl e \<Rightarrow> Inl e | Inr (x, t) \<Rightarrow> ext_value (v @ x) t)
          else if c \<noteq> 10 then ext_value (v @ [c]) cs
          else Inr (v, s))"
  by pat_completeness auto

termination
  by (relation "measure (\<lambda>(v, s). length s)") (auto dest: ext_hex_left)

declare ext_value.simps [simp del]

fun eat_tabs :: "nat \<Rightarrow> byte list \<Rightarrow> byte list option" where
  "eat_tabs 0 s = Some s"
| "eat_tabs (Suc n) s = (case eat 9 s of (True, s) \<Rightarrow> eat_tabs n s | (False, s) \<Rightarrow> None)"

text \<open>One line of the text: the name and value of a field, or \<open>None\<close> for an empty line\<close>

definition ext_pair :: "nat \<Rightarrow> byte list \<Rightarrow> stop + (byte list \<times> byte list) option \<times> byte list" where
  "ext_pair indent s =
     (case eat 10 s of
        (True, s) \<Rightarrow> Inr (None, s)
      | (False, s) \<Rightarrow>
          (case eat_tabs indent s of
             None \<Rightarrow> Inl (Throw Runtime_error)
           | Some s \<Rightarrow>
               (case eat_name (ext_flag s) of
                  (None, s) \<Rightarrow> Inl (Throw Runtime_error)
                | (Some fname, s) \<Rightarrow>
                    (case eat 9 s of
                       (False, s) \<Rightarrow> Inl (Throw Runtime_error)
                     | (True, s) \<Rightarrow>
                         (case ext_value [] s of
                            Inl e \<Rightarrow> Inl e
                          | Inr (v, s) \<Rightarrow>
                              (case eat 10 s of
                                 (False, s) \<Rightarrow> Inl (Throw Runtime_error)
                               | (True, s) \<Rightarrow> Inr (Some (fname, v), s)))))))"

text \<open>The bytes of a buffer that is added as a field\<close>

definition buffer_bytes :: "fbfr \<Rightarrow> byte list" where
  "buffer_bytes b = rd 0 (fb_size b) (fb_into b)"

type_synonym reading = "byte list \<times> field_maps"

definition add_field_value ::
    "(reading \<Rightarrow> (fbfr, reading) call) \<Rightarrow> fp_ops \<Rightarrow> fldid \<Rightarrow> byte list \<Rightarrow> fbfr \<Rightarrow> reading \<Rightarrow> (fbfr, reading) call" where
  "add_field_value nested fp fieldid v fml w =
     seqx (if Fldtype32 fieldid = FLD_FML32
           then seqx (nested w) (\<lambda>b w. (Inr (\<lambda>fml. Fadd32 (Buf fml) fieldid (Some (buffer_bytes b)) 0), w))
           else (Inr (\<lambda>fml. CFadd32 fp (Buf fml) fieldid (Some (v @ [0])) 0 FLD_STRING), w))
       (\<lambda>f w. case mutate_ptr f (Buf fml) of
          (Inl e, _) \<Rightarrow> (Inl e, w)
        | (Inr _, p) \<Rightarrow> (case p of Buf fml \<Rightarrow> (Inr fml, w) | _ \<Rightarrow> (Inl Undefined, w)))"

definition ext_line ::
    "(nat \<Rightarrow> reading \<Rightarrow> (fbfr, reading) call) \<Rightarrow> table_env \<Rightarrow> fp_ops \<Rightarrow> nat \<Rightarrow> fbfr \<Rightarrow> reading \<Rightarrow> (fbfr option, reading) call" where
  "ext_line nested env fp indent fml w =
     (case ext_pair indent (fst w) of
        Inl e \<Rightarrow> (Inl e, w)
      | Inr (None, s) \<Rightarrow> (Inr None, s, snd w)
      | Inr (Some (fname, v), s) \<Rightarrow>
          (case Fldid32 env fname (snd w) of
             (Inl e, t) \<Rightarrow> (Inl e, s, t)
           | (Inr fieldid, t) \<Rightarrow>
               seqx (add_field_value (nested (Suc indent)) fp fieldid v fml (s, t)) (\<lambda>fml w. (Inr (Some fml), w))))"

text \<open>The lines of a buffer up to an empty one, of which each takes at least one character of the \<open>n\<close>.\<close>

fun ext_lines :: "nat \<Rightarrow> table_env \<Rightarrow> fp_ops \<Rightarrow> nat \<Rightarrow> fbfr \<Rightarrow> reading \<Rightarrow> (fbfr, reading) call" where
  "ext_lines 0 env fp indent fml w = (Inl No_return, w)"
| "ext_lines (Suc n) env fp indent fml w =
     seqx (ext_line (\<lambda>i w. ext_lines n env fp i fresh_buffer w) env fp indent fml w) (\<lambda>r w.
       case r of None \<Rightarrow> (Inr fml, w) | Some fml \<Rightarrow> ext_lines n env fp indent fml w)"

text \<open>More fuel than characters changes nothing: the reader never comes to its end.\<close>

lemma ext_value_left: "ext_value v s = Inr (x, t) \<Longrightarrow> length t \<le> length s"
proof (induction v s rule: ext_value.induct)
  case (1 v s)
  show ?case
  proof (cases s)
    case Nil
    then show ?thesis using "1.prems" by (simp add: ext_value.simps [of v])
  next
    case (Cons c cs)
    consider "c = 92" | "c = 10" | "c \<noteq> 92" "c \<noteq> 10" by blast
    then show ?thesis
    proof cases
      case 1
      then obtain y u where y: "ext_hex cs = Inr (y, u)" "ext_value (v @ y) u = Inr (x, t)"
        using "1.prems" Cons by (simp add: ext_value.simps [of v] split: sum.splits prod.splits)
      then show ?thesis using "1.IH"(1) [OF Cons 1 y(1) refl] ext_hex_left [OF y(1)] Cons by simp
    next
      case 2
      then show ?thesis using "1.prems" Cons by (simp add: ext_value.simps [of v "10 # cs"])
    next
      case 3
      then have "ext_value (v @ [c]) cs = Inr (x, t)" using "1.prems" Cons by (simp add: ext_value.simps [of v "c # cs"])
      from "1.IH"(2) [OF Cons 3(1,2) this] show ?thesis using Cons by simp
    qed
  qed
qed

lemma eat_tabs_left: "eat_tabs n s = Some t \<Longrightarrow> length t \<le> length s"
proof (induction n arbitrary: s)
  case (Suc n)
  obtain b s1 where s1: "eat 9 s = (b, s1)" by (cases "eat 9 s")
  then have "eat_tabs n s1 = Some t" using Suc.prems by (cases b) simp_all
  from Suc.IH [OF this] eat_left [OF s1] show ?case by (simp split: if_splits)
qed simp

lemma ext_pair_left:
  assumes "ext_pair indent s = Inr (r, t)"
  shows "length t < length s"
proof (cases "eat 10 s")
  case (Pair nl s1)
  then show ?thesis
  proof (cases nl)
    case True
    then show ?thesis using assms Pair eat_left [OF Pair] by (auto simp: ext_pair_def)
  next
    case False
    obtain s2 n s3 s4 v s5 where p: "eat_tabs indent s1 = Some s2" "eat_name (ext_flag s2) = (Some n, s3)" "eat 9 s3 = (True, s4)"
      "ext_value [] s4 = Inr (v, s5)" "eat 10 s5 = (True, t)"
      using assms Pair False by (auto simp: ext_pair_def split: option.splits prod.splits bool.splits sum.splits)
    have "length (ext_flag s2) \<le> length s2"
      using eat_if_left [of "\<lambda>c. c \<in> {43, 45, 61, 0}" s2] by (cases "eat_if (\<lambda>c. c \<in> {43, 45, 61, 0}) s2") (simp add: ext_flag_def)
    then show ?thesis
      using eat_left [OF Pair] eat_tabs_left [OF p(1)] eat_name_left [OF p(2)] eat_left [OF p(3)] ext_value_left [OF p(4)] eat_left [OF p(5)]
      by simp
  qed
qed

definition leaves_less :: "(nat \<Rightarrow> reading \<Rightarrow> (fbfr, reading) call) \<Rightarrow> bool" where
  "leaves_less nested \<longleftrightarrow> (\<forall>i w d w'. nested i w = (Inr d, w') \<longrightarrow> length (fst w') < length (fst w))"

lemma add_value_left:
  assumes "\<And>d w'. nested w = (Inr d, w') \<Longrightarrow> length (fst w') < length (fst w)" "add_field_value nested fp fieldid v fml w = (Inr d, w')"
  shows "length (fst w') \<le> length (fst w)"
proof -
  obtain r w1 where r: "nested w = (r, w1)" by (cases "nested w")
  show ?thesis
  proof (cases "Fldtype32 fieldid = FLD_FML32")
    case True
    then have "\<exists>b. r = Inr b" "w' = w1" using assms(2) r
      by (auto simp: add_field_value_def seqx_def split: sum.splits prod.splits fbp.splits)
    then show ?thesis using assms(1) r by (auto intro: less_imp_le)
  next
    case False
    then show ?thesis using assms(2)
      by (auto simp: add_field_value_def split: sum.splits prod.splits fbp.splits)
  qed
qed

lemma ext_line_left:
  assumes "leaves_less nested" "ext_line nested env fp indent fml w = (Inr r, w')"
  shows "length (fst w') < length (fst w)"
proof -
  from assms(2) obtain p s where p: "ext_pair indent (fst w) = Inr (p, s)" by (auto simp: ext_line_def split: sum.splits)
  note less = ext_pair_left [OF p]
  show ?thesis
  proof (cases p)
    case None
    then show ?thesis using assms(2) p less by (auto simp: ext_line_def)
  next
    case (Some nv)
    obtain n v where nv: "nv = (n, v)" by (cases nv)
    obtain i t d where t: "Fldid32 env n (snd w) = (Inr i, t)" "add_field_value (nested (Suc indent)) fp i v fml (s, t) = (Inr d, w')"
      using assms(2) p Some nv by (auto simp: ext_line_def seqx_def split: sum.splits prod.splits)
    have "length (fst w') \<le> length (fst (s, t))"
      by (rule add_value_left [OF _ t(2)]) (use assms(1) in \<open>unfold leaves_less_def, blast\<close>)
    then show ?thesis using less by simp
  qed
qed

lemma ext_lines_left: "ext_lines n env fp indent fml w = (Inr d, w') \<Longrightarrow> length (fst w') < length (fst w)"
proof (induction n arbitrary: indent fml w d w')
  case (Suc n)
  have nested: "leaves_less (\<lambda>i w. ext_lines n env fp i fresh_buffer w)" using Suc.IH by (simp add: leaves_less_def)
  obtain r w1 where one: "ext_line (\<lambda>i w. ext_lines n env fp i fresh_buffer w) env fp indent fml w = (Inr r, w1)"
    using Suc.prems by (auto simp: seqx_def split: prod.splits sum.splits)
  from ext_line_left [OF nested one] have w1: "length (fst w1) < length (fst w)" .
  show ?case
  proof (cases r)
    case (Some fml')
    then have "ext_lines n env fp indent fml' w1 = (Inr d, w')" using Suc.prems one by simp
    from Suc.IH [OF this] w1 show ?thesis by simp
  qed (use Suc.prems one w1 in simp)
qed simp

lemma ext_line_same:
  assumes "\<And>i w'. length (fst w') < length (fst w) \<Longrightarrow> nested i w' = nested' i w'"
  shows "ext_line nested env fp indent fml w = ext_line nested' env fp indent fml w"
proof -
  have "add_field_value (nested (Suc indent)) fp i v fml (s, t) = add_field_value (nested' (Suc indent)) fp i v fml (s, t)"
    if "ext_pair indent (fst w) = Inr (p, s)" for p s i v t
    using assms [of "(s, t)" "Suc indent"] ext_pair_left [OF that] by (simp add: add_field_value_def)
  then show ?thesis by (auto simp: ext_line_def split: sum.splits prod.splits option.splits)
qed

lemma ext_lines_fuel:
  "length (fst w) < n \<Longrightarrow> length (fst w) < k \<Longrightarrow> ext_lines n env fp indent fml w = ext_lines k env fp indent fml w"
proof (induction n arbitrary: k indent fml w)
  case (Suc n)
  obtain k' where k: "k = Suc k'" using Suc.prems(2) by (cases k) auto
  let ?f = "\<lambda>n i w. ext_lines n env fp i fresh_buffer w"
  have line: "ext_line (?f n) env fp indent fml w = ext_line (?f k') env fp indent fml w"
    by (rule ext_line_same, rule Suc.IH) (use Suc.prems k in simp_all)
  have less: "leaves_less (?f k')" using ext_lines_left by (auto simp: leaves_less_def)
  obtain r w1 where one: "ext_line (?f k') env fp indent fml w = (r, w1)" by (cases "ext_line (?f k') env fp indent fml w")
  show ?case
  proof (cases r)
    case (Inr x)
    then have "length (fst w1) < length (fst w)" using ext_line_left [OF less] one by blast
    then have "ext_lines n env fp indent fml' w1 = ext_lines k' env fp indent fml' w1" for fml'
      by (intro Suc.IH) (use Suc.prems k in simp_all)
    then show ?thesis using line one Inr k by (cases x) simp_all
  qed (use line one k in simp)
qed simp

text \<open>
  The whole call, on the rest of a file. The reader keeps one character ahead, which is gone from the file when
  it is done; \<open>-1\<close> is \<open>False\<close>. How far the file was read is only kept for calls that end without an exception.
\<close>

definition ext_parse :: "table_env \<Rightarrow> fp_ops \<Rightarrow> fbfr \<Rightarrow> reading \<Rightarrow> (bool \<times> fbfr, reading) call" where
  "ext_parse env fp dest w =
     (if fst w = [] then (Inr (False, dest), w)
      else
        (case ext_lines (Suc (length (fst w))) env fp 0 fresh_buffer w of
           (Inl e, s, t) \<Rightarrow> (Inl e, drop 1 s, t)
         | (Inr fml, s, t) \<Rightarrow>
             (case fb_cpy fml dest of
                (Ret _, d) \<Rightarrow> (Inr (True, d), drop 1 s, t)
              | (Err e, d) \<Rightarrow> (Inr (False, d), drop 1 s, set_Ferror32 e t)
              | (Stuck, d) \<Rightarrow> (Inl Undefined, drop 1 s, t))))"

definition Fextread32 :: "table_env \<Rightarrow> fp_ops \<Rightarrow> fbp \<Rightarrow> reading \<Rightarrow> (bool \<times> fbp, reading) call" where
  "Fextread32 env fp p w =
     (case p of
        Buf dest \<Rightarrow>
          (case exception_boundary (\<lambda>e w. (fst w, set_Ferror32 e (snd w))) (ext_parse env fp dest) (False, dest) w of
             (Inl e, w) \<Rightarrow> (Inl e, w)
           | (Inr (ok, d), w) \<Rightarrow> (Inr (ok, Buf d), w))
      | _ \<Rightarrow> (Inr (False, p), fst w, set_Ferror32 FNOTFLD (snd w)))"

end
