(* ===== verification/Fml_Text_Props.thy ===== *)
theory Fml_Text_Props
  imports Fml_Text Field_Table_Props Expr_Correct
begin

text \<open>
  What \<open>Ffprint32\<close> prints \<open>Fextread32\<close> reads back, for buffers of short, long, char and string fields that have
  names and whose bytes are printed one way.
\<close>

subsection \<open>Bytes and values\<close>

text \<open>A byte that is read back: not the backslash, and not one that \<open>%02x\<close> extends with its sign.\<close>

definition readable :: "byte \<Rightarrow> bool" where
  "readable c \<longleftrightarrow> c < 128 \<and> c \<noteq> 92"

lemma hex_read: "ext_hex (hex2 c @ s) = Inr ([c], s)"
proof -
  let ?h = "hex_digit (unat c div 16)" and ?l = "hex_digit (unat c mod 16)"
  have d: "unat c div 16 < 16" "unat c mod 16 < 16" using byte_less [of c] by simp_all
  note h = hex_digit_props(1) [OF d(1)] hex_digit_props(1) [OF d(2)]
  have "?h \<noteq> 0" "?l \<noteq> 0" using h by (auto simp: is_hex_def)
  then show ?thesis using h hex2_byte [of c] by (simp add: ext_hex_def hex2_def hex_like_def)
qed

lemma read_byte:
  assumes "readable c"
  shows "ext_value v (print_byte c @ s) = ext_value (v @ [c]) s"
proof (cases "32 \<le> c \<and> c \<le> 126")
  case True
  then show ?thesis using assms by (auto simp: print_byte_def readable_def ext_value.simps [of v])
next
  case False
  have "\<not> 128 \<le> c" using assms by (simp add: readable_def not_le)
  then have "print_byte c @ s = 92 # hex2 c @ s" using False by (auto simp: print_byte_def)
  then show ?thesis using hex_read [of c s] by (simp add: ext_value.simps [of v "92 # hex2 c @ s"])
qed

lemma read_bytes: "\<forall>c \<in> set x. readable c \<Longrightarrow> ext_value v (print_bytes x @ 10 # s) = Inr (v @ x, 10 # s)"
  by (induction x arbitrary: v) (simp_all add: print_bytes_def read_byte ext_value.simps [of _ "10 # s"])

lemma show_int_bytes: "c \<in> set (show_int i) \<Longrightarrow> c = 45 \<or> is_digit c"
  using show_nat_digits by (auto simp: show_int_def split: if_splits)

lemma print_show_int: "print_bytes (show_int i) = show_int i" "\<forall>c \<in> set (show_int i). readable c"
proof -
  have r: "print_byte c = [c] \<and> readable c" if "c \<in> set (show_int i)" for c
    using show_int_bytes [OF that] by (auto simp: print_byte_def readable_def is_digit_def word_le_nat_alt word_less_nat_alt)
  then have "map print_byte (show_int i) = map (\<lambda>c. [c]) (show_int i)" by simp
  then show "print_bytes (show_int i) = show_int i" unfolding print_bytes_def by (simp only: concat_map_singleton map_ident)
  show "\<forall>c \<in> set (show_int i). readable c" using r by simp
qed

subsection \<open>Fields\<close>

text \<open>The text of a value before it is printed byte by byte\<close>

definition value_text :: "chunk \<Rightarrow> byte list" where
  "value_text c =
     (if ctype c = FLD_SHORT \<or> ctype c = FLD_LONG then show_int (sdec_le (cval c))
      else if ctype c = FLD_STRING then butlast (cval c) else cval c)"

text \<open>A field that is printed so that it can be read: of a simple type, with a name and readable bytes\<close>

definition plain :: "ft_field list \<Rightarrow> chunk \<Rightarrow> bool" where
  "plain fs c \<longleftrightarrow> cid c \<noteq> BADFLDID \<and> ctype c \<in> {FLD_SHORT, FLD_LONG, FLD_CHAR, FLD_STRING} \<and>
     (\<forall>x \<in> set (value_text c). readable x) \<and>
     (\<exists>n. is_name n \<and> map_of (id_pairs fs) (cid c) = Some n \<and> map_of (name_pairs fs) n = Some (cid c))"

definition printed_field :: "ft_field list \<Rightarrow> chunk \<Rightarrow> byte list" where
  "printed_field fs c = the (map_of (id_pairs fs) (cid c)) @ [9] @ print_bytes (value_text c) @ [10]"

lemma print_value_plain:
  assumes "rep b cs" "i < length cs" "plain fs (cs ! i)"
  shows "print_value nested fp b (cpos cs i) s = (Ret (), fst s @ print_bytes (value_text (cs ! i)), snd s)"
  using assms(3) rep_id_at [OF assms(1,2)] rep_src_value [OF assms(1,2)]
  by (auto simp: print_value_def Let_def plain_def ctype_def value_text_def print_show_int)

lemma print_field_plain:
  assumes "env_says env tabs" "\<not> id_to_name_loaded t \<or> maps_hold (all_fields tabs) t"
    "rep b cs" "i < length cs" "plain (all_fields tabs) (cs ! i)"
  shows "\<exists>t'. print_field nested env fp 0 b (cpos cs i) (out, t) = (Ret 0, out @ printed_field (all_fields tabs) (cs ! i), t') \<and>
    maps_hold (all_fields tabs) t'"
proof -
  obtain n where n: "map_of (id_pairs (all_fields tabs)) (cid (cs ! i)) = Some n" using assms(5) by (auto simp: plain_def)
  obtain t' where "Fname32 env (cid (cs ! i)) t = (Inr (Some n), t')" "maps_hold (all_fields tabs) t'"
    using Fname32_value [OF assms(1,2), of "cid (cs ! i)"] n by auto
  then show ?thesis
    using rep_id_at [OF assms(3,4)] print_value_plain [OF assms(3-5)] n by (simp add: print_field_def printed_field_def)
qed

lemma walk_prints:
  assumes "env_says env tabs" "rep b cs" "\<forall>c \<in> set cs. plain (all_fields tabs) c"
    "\<not> id_to_name_loaded t \<or> maps_hold (all_fields tabs) t" "i \<le> length cs" "i < length cs \<or> P t"
    "\<And>t. maps_hold (all_fields tabs) t \<Longrightarrow> P t"
  shows "\<exists>t'. walk (\<lambda>p oc s. print_field nested env fp 0 b p s) cs [i..<length cs] (out, t) =
      (Ret 0, out @ concat (map (printed_field (all_fields tabs)) (drop i cs)), t') \<and> P t'"
  using assms(4-6)
proof (induction "length cs - i" arbitrary: i out t)
  case 0
  then show ?case by simp
next
  case (Suc k)
  then have i: "i < length cs" by simp
  obtain t1 where t1: "print_field nested env fp 0 b (cpos cs i) (out, t) = (Ret 0, out @ printed_field (all_fields tabs) (cs ! i), t1)"
    "maps_hold (all_fields tabs) t1"
    using print_field_plain [OF assms(1) Suc.prems(1) assms(2) i, of nested fp out] assms(3) i by auto
  have "k = length cs - Suc i" "Suc i \<le> length cs" using Suc.hyps(2) i by simp_all
  from Suc.hyps(1) [OF this(1) _ this(2), of t1 "out @ printed_field (all_fields tabs) (cs ! i)"] t1(2) assms(7)
  obtain t' where "walk (\<lambda>p oc s. print_field nested env fp 0 b p s) cs [Suc i..<length cs] (out @ printed_field (all_fields tabs) (cs ! i), t1) =
      (Ret 0, (out @ printed_field (all_fields tabs) (cs ! i)) @ concat (map (printed_field (all_fields tabs)) (drop (Suc i) cs)), t')" "P t'"
    by auto
  moreover have "drop i cs = cs ! i # drop (Suc i) cs" using i by (rule Cons_nth_drop_Suc [symmetric])
  ultimately show ?case using t1(1) i by (simp add: upt_conv_Cons)
qed

text \<open>The text of a whole buffer\<close>

definition buffer_text :: "ft_field list \<Rightarrow> chunk list \<Rightarrow> byte list" where
  "buffer_text fs cs = concat (map (printed_field fs) cs) @ [10]"

lemma print_plain:
  assumes "env_says env tabs" "rep b cs" "\<forall>c \<in> set cs. plain (all_fields tabs) c"
    "\<not> id_to_name_loaded t \<or> maps_hold (all_fields tabs) t" "\<not> name_to_id_loaded t \<or> maps_hold (all_fields tabs) t"
  shows "\<exists>t'. Ffprint32 env fp (Buf b) (out, t) = (Ret (), out @ buffer_text (all_fields tabs) cs, t') \<and>
    (\<not> name_to_id_loaded t' \<or> maps_hold (all_fields tabs) t')"
proof -
  let ?nested = "fprint (fb_size b) env fp 1"
  let ?t = "set_Ferror32 0 t"
  let ?f = "\<lambda>p (oc :: int) s. print_field ?nested env fp 0 b p s"
  have "\<forall>c \<in> set cs. cid c \<noteq> BADFLDID" using assms(3) by (simp add: plain_def)
  moreover have "r \<noteq> 1" if "?f p oc s = (Ret r, s')" for p oc s r s'
    using that by (auto simp: print_field_def Let_def split: prod.splits sum.splits outcome.splits)
  ultimately have w: "iterate_all (\<lambda>_. b) ?f (out, ?t) = Some (walk ?f cs [0..<length cs] (out, ?t))"
    by (rule iterate_walk [OF assms(2)])
  obtain t' where t': "walk ?f cs [0..<length cs] (out, ?t) = (Ret 0, out @ concat (map (printed_field (all_fields tabs)) cs), t')"
    "\<not> name_to_id_loaded t' \<or> maps_hold (all_fields tabs) t'"
    using walk_prints [OF assms(1-3), of ?t 0 "\<lambda>t. \<not> name_to_id_loaded t \<or> maps_hold (all_fields tabs) t" ?nested fp out] assms(4,5)
    by (auto simp: set_Ferror32_def)
  then show ?thesis using w by (simp add: Ffprint32_def buffer_text_def)
qed

subsection \<open>Reading a field\<close>

lemma plain_read:
  assumes "wf_chunk c" "plain fs c"
  obtains cv n where "Ftypcvt32 fp True (Fldtype32 (cid c)) (Some (value_text c @ [0])) FLD_STRING 0 = Ret (cv, n)"
    "good_value (Fldtype32 (cid c)) cv n (length (cval c))" "stored (Fldtype32 (cid c)) cv (length (cval c)) = cval c"
proof -
  let ?v = "cval c"
  have wf: "wf_val (ctype c) ?v" and big: "fldclass (cid c) = FIELDN \<longrightarrow> cflen c + 8 < 2 ^ 32" using assms(1) by (auto simp: wf_chunk_def)
  consider "ctype c = FLD_SHORT \<or> ctype c = FLD_LONG" | "ctype c = FLD_CHAR" | "ctype c = FLD_STRING"
    using assms(2) by (auto simp: plain_def)
  then show thesis
  proof cases
    case 1
    then have len: "length ?v = fixed_len (ctype c)" using wf by (auto simp: wf_val_def)
    have "Ftypcvt32 fp True (ctype c) (Some (value_text c @ [0])) FLD_STRING 0 = Ret (?v @ [0], length ?v)"
      using typcvt_int_string(2) [of "ctype c" ?v FLD_STRING fp] 1 len by (auto simp: value_text_def)
    then show thesis
      using that [of "?v @ [0]" "length ?v"] 1 len
      by (auto simp: ctype_def good_value_def value_len_def stored_def fixed_len_def)
  next
    case 2
    then have "length ?v = 1" using wf by (simp add: wf_val_def fixed_len_def)
    then obtain x where x: "?v = [x]" by (cases ?v) auto
    have "Ftypcvt32 fp True (ctype c) (Some (value_text c @ [0])) FLD_STRING 0 = Ret (?v @ [0], 1)"
      using 2 x by (auto simp: value_text_def Ftypcvt32_def TYPCVTS_def copy_n_def cstr_def)
    then show thesis using that [of "?v @ [0]" 1] 2 x
      by (simp add: ctype_def good_value_def value_len_def stored_def fixed_len_def)
  next
    case 3
    then have v: "?v \<noteq> []" "last ?v = 0" "0 \<notin> set (butlast ?v)" using wf by (auto simp: wf_val_def)
    then have s: "value_text c @ [0] = ?v" using 3 append_butlast_last_id [of ?v] by (simp add: value_text_def)
    have g: "good_value (ctype c) ?v (length ?v) (length ?v)" "stored (ctype c) ?v (length ?v) = ?v" using wf_val_good [OF assms(1)] by auto
    have "cstr (value_text c @ [0]) = value_text c" "0 \<in> set (value_text c @ [0])"
      using v(3) 3 by (simp_all add: value_text_def cstr_text)
    moreover have "length ?v = length (value_text c) + 1" using arg_cong [OF s, of length] by simp
    moreover have "u32 (int (length ?v)) = length ?v" using g(1) by (intro u32_of_nat) (simp add: good_value_def)
    ultimately have "Ftypcvt32 fp True (ctype c) (Some (value_text c @ [0])) FLD_STRING 0 = Ret (?v, length ?v)"
      using 3 s by (simp add: Ftypcvt32_def TYPCVTS_def add.commute)
    then show thesis using that [of ?v "length ?v"] g by (simp add: ctype_def)
  qed
qed

lemma add_plain:
  assumes "rep d ds" "wf_chunk c" "plain fs c" "blen d + length c + min_size < 2 ^ 31"
  shows "\<exists>d' ds'. add_field_value nested fp (cid c) (value_text c) d w = (Inr d', w) \<and> rep d' ds' \<and>
    occs ds' = (occs ds)(cid c := occs ds (cid c) @ [cval c]) \<and> blen d' = blen d + length c"
proof -
  from plain_read [OF assms(2,3), of fp] obtain cv n where
    cv: "Ftypcvt32 fp True (Fldtype32 (cid c)) (Some (value_text c @ [0])) FLD_STRING 0 = Ret (cv, n)"
      "good_value (Fldtype32 (cid c)) cv n (length (cval c))" "stored (Fldtype32 (cid c)) cv (length (cval c)) = cval c" by blast
  have id: "valid_id (cid c)" "cid c \<noteq> BADFLDID" "Fldtype32 (cid c) \<noteq> FLD_FML32"
    using assms(2,3) by (auto simp: wf_chunk_def plain_def ctype_def)
  have f: "(\<lambda>b. case CFadd32 fp (Buf b) (cid c) (Some (value_text c @ [0])) 0 FLD_STRING of (r, Buf b') \<Rightarrow> (r, b') | (r, _) \<Rightarrow> (r, b)) =
      (\<lambda>b. fb_chg (cid c) (fb_occur (cid c) b) (Some cv) n b)"
    using cv(1) id by (intro ext) (simp add: CFadd32_def FBFR32_CHECK_def FLDID32_CHECK_def valid_id_def split: prod.split)
  have "blen d + field_size (cid c) (length (cval c)) + min_size < 2 ^ 31" using assms(4) field_size_chunk [OF assms(2)] by simp
  from mutate_add [OF assms(1) id(1) cv(2) this] obtain d' ds' where
    m: "mutate (\<lambda>b. fb_chg (cid c) (fb_occur (cid c) b) (Some cv) n b) d = Some (Ret (), d')" "rep d' ds'"
      "occs ds' = (occs ds)(cid c := occs ds (cid c) @ [cval c])" "blen d' = blen d + length c"
    unfolding cv(3) field_size_chunk [OF assms(2)] by blast
  then show ?thesis using id(3) f by (intro exI [of _ d'] exI [of _ ds']) (simp add: add_field_value_def mutate_ptr_def)
qed

lemma line_read:
  assumes "plain fs c" "map_of (id_pairs fs) (cid c) = Some n" "is_name n"
  shows "ext_pair 0 (printed_field fs c @ s) = Inr (Some (n, value_text c), s)"
proof -
  obtain a as where n: "n = a # as" "is_letter a" using assms(3) by (auto simp: is_name_def split: list.splits)
  then have a: "a \<noteq> 10" "a \<notin> {43, 45, 61, 0}" by (auto simp: is_letter_def)
  have "eat_name (n @ 9 # print_bytes (value_text c) @ 10 # s) = (Some n, 9 # print_bytes (value_text c) @ 10 # s)"
    by (rule eat_name_read [OF assms(3)]) (simp add: Basic_Parser.name_char_def is_letter_def is_digit_def)
  moreover have "ext_value [] (print_bytes (value_text c) @ 10 # s) = Inr (value_text c, 10 # s)"
    using read_bytes [of "value_text c" "[]" s] assms(1) by (simp add: plain_def)
  ultimately show ?thesis using assms(2) n a by (simp add: ext_pair_def printed_field_def ext_flag_def)
qed

lemma ext_line_plain:
  assumes "env_says env tabs" "\<not> name_to_id_loaded t \<or> maps_hold (all_fields tabs) t"
    "rep d ds" "wf_chunk c" "plain (all_fields tabs) c" "blen d + length c + min_size < 2 ^ 31"
  shows "\<exists>d' ds' t'. ext_line nested env fp 0 d (printed_field (all_fields tabs) c @ s, t) = (Inr (Some d'), s, t') \<and>
    maps_hold (all_fields tabs) t' \<and> rep d' ds' \<and> occs ds' = (occs ds)(cid c := occs ds (cid c) @ [cval c]) \<and>
    blen d' = blen d + length c"
proof -
  obtain n where n: "is_name n" "map_of (id_pairs (all_fields tabs)) (cid c) = Some n" "map_of (name_pairs (all_fields tabs)) n = Some (cid c)"
    using assms(5) by (auto simp: plain_def)
  obtain t' where t': "Fldid32 env n t = (Inr (cid c), t')" "maps_hold (all_fields tabs) t'"
    using Fldid32_value [OF assms(1,2), of n] n(3) by auto
  obtain d' ds' where d': "add_field_value (nested 1) fp (cid c) (value_text c) d (s, t') = (Inr d', s, t')" "rep d' ds'"
    "occs ds' = (occs ds)(cid c := occs ds (cid c) @ [cval c])" "blen d' = blen d + length c"
    using add_plain [OF assms(3-6), of "nested 1" fp "(s, t')"] by auto
  then show ?thesis using t' line_read [OF assms(5) n(2,1)]
    by (intro exI [of _ d'] exI [of _ ds'] exI [of _ t']) (simp add: ext_line_def)
qed

lemma lines_read:
  assumes "env_says env tabs" "\<forall>c \<in> set cs. wf_chunk c \<and> plain (all_fields tabs) c"
    "\<not> name_to_id_loaded t \<or> maps_hold (all_fields tabs) t" "rep d ds" "blen d + length (concat cs) + min_size < 2 ^ 31" "length cs < k"
  shows "\<exists>d' ds' t'. ext_lines k env fp 0 d (buffer_text (all_fields tabs) cs @ s, t) = (Inr d', s, t') \<and> rep d' ds' \<and>
    occs ds' = (\<lambda>f. occs ds f @ occs cs f) \<and> blen d' = blen d + length (concat cs)"
  using assms(2-)
proof (induction cs arbitrary: k t d ds)
  case Nil
  then obtain k' where "k = Suc k'" by (cases k) auto
  moreover have "occs [] f = []" for f by (simp add: occs_def same_id_def)
  ultimately show ?case using Nil.prems(3) by (auto simp: buffer_text_def ext_line_def ext_pair_def)
next
  case (Cons c cs)
  obtain k' where k: "k = Suc k'" "length cs < k'" using Cons.prems(5) by (cases k) auto
  let ?text = "buffer_text (all_fields tabs) cs @ s"
  have "blen d + length c + min_size < 2 ^ 31" using Cons.prems(4) by simp
  from ext_line_plain [OF assms(1) Cons.prems(2,3) _ _ this, of "\<lambda>i w. ext_lines k' env fp i fresh_buffer w" fp ?text] Cons.prems(1)
  obtain d1 ds1 t1 where d1: "ext_line (\<lambda>i w. ext_lines k' env fp i fresh_buffer w) env fp 0 d (printed_field (all_fields tabs) c @ ?text, t) =
      (Inr (Some d1), ?text, t1)" "maps_hold (all_fields tabs) t1" "rep d1 ds1"
    "occs ds1 = (occs ds)(cid c := occs ds (cid c) @ [cval c])" "blen d1 = blen d + length c" by auto
  have "blen d1 + length (concat cs) + min_size < 2 ^ 31" using Cons.prems(4) d1(5) by simp
  with Cons.IH [OF _ _ d1(3) _ k(2), of t1] Cons.prems(1) d1(2) obtain d2 ds2 t2 where
    d2: "ext_lines k' env fp 0 d1 (?text, t1) = (Inr d2, s, t2)" "rep d2 ds2" "occs ds2 = (\<lambda>f. occs ds1 f @ occs cs f)"
      "blen d2 = blen d1 + length (concat cs)" by auto
  have "occs (c # cs) f = (if f = cid c then cval c # occs cs f else occs cs f)" for f by (simp add: occs_def same_id_def)
  then have "occs ds2 = (\<lambda>f. occs ds f @ occs (c # cs) f)" using d2(3) d1(4) by auto
  then show ?case using d1(1,5) d2 k(1) by (auto simp: buffer_text_def)
qed

subsection \<open>Properties\<close>

text \<open>C31: What is printed can be read. For a buffer of short, long, char and string fields with names in the field
  tables, whose bytes are below 128 and no backslashes, \<open>Ffprint32\<close> prints a text from which \<open>Fextread32\<close>
  restores all occurrences of all fields in any buffer that is large enough. What follows in the file loses
  its first character, so that a second buffer behind it is not read as it was printed.\<close>

theorem print_read:
  assumes "env_says env tabs" "rep b cs" "\<forall>c \<in> set cs. plain (all_fields tabs) c" "blen b + min_size < 2 ^ 31"
    "\<not> id_to_name_loaded t" "\<not> name_to_id_loaded t"
    "fb_used b \<le> fb_size dest" "bsize dest + min_size < 2 ^ 32" "length (bpad dest) = 4"
  shows "\<exists>printed t1. Ffprint32 env fp (Buf b) ([], t) = (Ret (), printed, t1) \<and>
    (\<forall>after. \<exists>dest' ds t2. Fextread32 env fp (Buf dest) (printed @ after, t1) = (Inr (True, Buf dest'), drop 1 after, t2) \<and>
       rep dest' ds \<and> occs ds = occs cs)"
proof -
  let ?fs = "all_fields tabs"
  obtain t1 where t1: "Ffprint32 env fp (Buf b) ([], t) = (Ret (), buffer_text ?fs cs, t1)" "\<not> name_to_id_loaded t1 \<or> maps_hold ?fs t1"
    using print_plain [OF assms(1-3), of t fp "[]"] assms(5,6) by auto
  have wf: "\<forall>c \<in> set cs. wf_chunk c \<and> plain ?fs c" using assms(2,3) by (simp add: rep_def)
  have len: "length (concat cs) = blen b" using rep_blen [OF assms(2)] by simp
  have fresh: "blen fresh_buffer = 0" using rep_blen [OF fresh_buffer_rep] by simp
  have u: "\<not> name_to_id_loaded (set_Ferror32 0 t1) \<or> maps_hold ?fs (set_Ferror32 0 t1)" using t1(2) by (simp add: set_Ferror32_def)
  have "\<exists>dest' ds t2. Fextread32 env fp (Buf dest) (buffer_text ?fs cs @ after, t1) = (Inr (True, Buf dest'), drop 1 after, t2) \<and>
       rep dest' ds \<and> occs ds = occs cs" for after
  proof -
    let ?text = "buffer_text ?fs cs @ after"
    have "length cs \<le> length (concat (map (printed_field ?fs) cs))" by (induction cs) (auto simp: printed_field_def)
    then have k: "length cs < Suc (length ?text)" and ne: "?text \<noteq> []" by (simp_all add: buffer_text_def)
    have "blen fresh_buffer + length (concat cs) + min_size < 2 ^ 31" using assms(4) len fresh by simp
    from lines_read [OF assms(1) wf u fresh_buffer_rep this k, of fp after]
    obtain d ds t2 where d: "ext_lines (Suc (length ?text)) env fp 0 fresh_buffer (?text, set_Ferror32 0 t1) = (Inr d, after, t2)" "rep d ds"
      "occs ds = (\<lambda>f. occs [] f @ occs cs f)" "blen d = blen b" using fresh len by auto
    have "fb_used d \<le> fb_size dest" using assms(7) d(4) by (simp add: fb_used_def)
    note cpy = rep_cpy [OF d(2) this assms(8,9)]
    have "ext_parse env fp dest (?text, set_Ferror32 0 t1) = (Inr (True, snd (fb_cpy d dest)), drop 1 after, t2)"
      using d(1) ne cpy(1) by (cases "fb_cpy d dest") (simp add: ext_parse_def del: ext_lines.simps)
    then have "Fextread32 env fp (Buf dest) (?text, t1) = (Inr (True, Buf (snd (fb_cpy d dest))), drop 1 after, t2)"
      by (simp add: Fextread32_def)
    moreover have "occs [] f = []" for f by (simp add: occs_def same_id_def)
    then have "occs ds = occs cs" using d(3) by simp
    ultimately show ?thesis using cpy(2) by blast
  qed
  then show ?thesis using t1(1) by blast
qed

text \<open>Other bytes: a backslash is lost, a byte of 128 or more becomes several, and a carray gets a NUL.\<close>

lemma backslash_lost: "ext_value [] (print_bytes [92] @ [10]) = Inr ([], [10])"
  by code_simp

lemma high_byte_grows: "ext_value [] (print_bytes [0x80] @ [10]) = Inr ([0xFF, 102, 102, 102, 102, 56, 48], [10])"
  by code_simp

lemma carray_grows:
  assumes "0 \<notin> set x" "length x + 1 < 2 ^ 32"
  shows "Ftypcvt32 fp True FLD_CARRAY (Some (x @ [0])) FLD_STRING 0 = Ret (x @ [0], length x + 1)"
  using u32_of_nat [of "length x + 1"] assms by (simp add: Ftypcvt32_def TYPCVTS_def cstr_text add.commute)

subsection \<open>Witness\<close>

text \<open>A buffer with the two fields of the demonstration table: a long, and a string with a line feed\<close>

definition plain_chunks :: "chunk list" where
  "plain_chunks =
     [enc32 16777318 @ [0, 0, 0, 0] @ [7, 0, 0, 0, 0, 0, 0, 0],
      enc32 83886181 @ enc32 3 @ [65, 10, 0, 0, 0, 0, 0, 0]]"

lemma plain_chunks_wf: "\<forall>c \<in> set plain_chunks. wf_chunk c"
  by (simp add: plain_chunks_def eval_chunk)

lemma plain_chunks_rep: "rep (mk_buffer 100 plain_chunks) plain_chunks"
  by (rule rep_mk_buffer [OF plain_chunks_wf]) (simp_all add: plain_chunks_def cid_def)

lemma plain_chunks_plain: "\<forall>c \<in> set plain_chunks. plain (all_fields [([116], demo_table)]) c"
proof -
  have f: "all_fields [([116], demo_table)] = demo_fields" by (simp add: all_fields_def demo_entry_fields)
  have "sdec_le [7, 0, 0, 0, 0, 0, 0, 0] = 7" by code_simp
  then show ?thesis
    unfolding f
    by (simp add: plain_chunks_def plain_def value_text_def eval_chunk id_pairs_def name_pairs_def demo_fields_def readable_def
        is_name_def is_letter_def Basic_Parser.name_char_def is_digit_def show_int_def show_nat.simps digit_def)
qed

theorem print_read_witness:
  "\<forall>fp. \<exists>printed t1 dest' ds t2.
     Ffprint32 demo_table_env fp (Buf (mk_buffer 100 plain_chunks)) ([], no_fields) = (Ret (), printed, t1) \<and>
     Fextread32 demo_table_env fp (Buf fresh_buffer) (printed @ [88, 89], t1) = (Inr (True, Buf dest'), [89], t2) \<and>
     rep dest' ds \<and> occs ds = occs plain_chunks"
proof
  fix fp
  have b: "blen (mk_buffer 100 plain_chunks) = 32" using rep_blen [OF plain_chunks_rep] by (simp add: plain_chunks_def)
  have d: "bsize fresh_buffer = 984" "length (bpad fresh_buffer) = 4"
    using fresh_buffer_rep blank_init(2) [of 1024] by (simp_all add: fresh_buffer_def rep_def)
  have "blen (mk_buffer 100 plain_chunks) + min_size < 2 ^ 31"
    "fb_used (mk_buffer 100 plain_chunks) \<le> fb_size fresh_buffer" "bsize fresh_buffer + min_size < 2 ^ 32"
    using b d by (simp_all add: fb_used_def fb_size_def)
  from print_read [OF demo_env_says plain_chunks_rep plain_chunks_plain this(1) _ _ this(2,3) d(2), of no_fields fp]
  obtain printed t1 where p: "Ffprint32 demo_table_env fp (Buf (mk_buffer 100 plain_chunks)) ([], no_fields) = (Ret (), printed, t1)"
    and r: "\<forall>after. \<exists>dest' ds t2. Fextread32 demo_table_env fp (Buf fresh_buffer) (printed @ after, t1) =
        (Inr (True, Buf dest'), drop 1 after, t2) \<and> rep dest' ds \<and> occs ds = occs plain_chunks"
    by (auto simp: no_fields_def)
  from r [rule_format, of "[88, 89]"] p show "\<exists>printed t1 dest' ds t2.
     Ffprint32 demo_table_env fp (Buf (mk_buffer 100 plain_chunks)) ([], no_fields) = (Ret (), printed, t1) \<and>
     Fextread32 demo_table_env fp (Buf fresh_buffer) (printed @ [88, 89], t1) = (Inr (True, Buf dest'), [89], t2) \<and>
     rep dest' ds \<and> occs ds = occs plain_chunks" by auto
qed

end
