(* ===== verification/Spec2Isabelle.thy ===== *)
theory Spec2Isabelle
  imports Fml_Mutate Fml_Findocc Base64 Tp_Trx Expr_Claims Expr_Print Ipc_Props Server_Claims
    Bbl_Props Field_Table_Props Ubb_Claims Admin_Claims Fml_Text_Props
begin

text \<open>
  A verification library for Fuxedo, an implementation of the ATMI and FML32 interfaces.

  The program. Applications keep data in fielded buffers (src/fbfr32.h, src/fml32.cpp) and select
  them with compiled boolean expressions (src/expr.cpp). Clients and servers find each other through
  tables in shared memory (src/mib.h, src/mib.cpp), cached per process (src/svcrepo.h); transactions
  are coordinated through a table of the same memory (src/trx.h) by the TX interface (src/tx.cpp) on
  which the ATMI transaction calls (src/trx.cpp) rest. Messages travel over System V queues.

  Conventions. A byte is an \<open>8 word\<close>, a machine integer of the buffers a word or an \<open>int\<close> with
  its wrap-around written out; a pointer into a buffer is an offset. C++ exceptions are values of
  \<open>cpp_error\<close> on the left of a sum (Exceptions), error codes of FML32 are \<open>Err\<close> and reads or
  writes outside an object, which have no meaning in C++, are \<open>Stuck\<close> (Byte_Memory, Fml_Buffer).
  Loops that may not end are \<open>partial_function (option)\<close>, so that not returning is \<open>None\<close>.

  Fielded buffers. Fml_Fields: identifiers (src/fbfr32fld.h). Byte_Memory, Fml_Buffer: the bytes of
  a buffer, the search, storing and removing a field. Fml_Ops: the copy, update, join, projection,
  and stream operations. Fml_Enum, Fml_Findocc: iteration and search by value. Fml_Rep relates a
  buffer to the list of its fields (\<open>rep\<close>); Fml_Search, Fml_Walk, Fml_Find, Fml_Change, Fml_Erase,
  Fml_Chg, Fml_Whole and Fml_Prune show for each operation that it keeps \<open>rep\<close> and what it does to
  that list; Fml_Props states the results. Fml_Typcvt, Decimal, Fml_Api: conversions and the checks
  of the C interface (src/fml32.cpp). Fml_Mutate: the growing buffers of src/fux.h, with a locale
  for what an operation must do for the retry loop to end.

  Expressions. Expr_Parse: the compiler, on the characters of the text and the bytes of the tree
  (src/basic_parser.h, src/expr.cpp). Its recursion is bounded by fuel, twice the length of the text
  plus two; Expr_Total shows that this is never used up. Expr_Syntax: source texts with precedence
  and the trees they stand for; Expr_Correct: the compiler yields the prefix encoding of that tree.
  Expr_Eval: the evaluator on the bytes of the tree, with as much fuel as the tree has bytes;
  Expr_Refine: it computes the meaning of the tree. Expr_Print: the printer. Expr_Claims: the
  results.

  Shared memory. Misc, Strtol, Base64: helpers. Mib: the tables, with bounds-checked access as in
  the code; Mib_Tables: a locale for tables searched by a key, interpreted on queues, groups,
  services and servers; Advertise: advertisements as a set of triples; Mib_Props: results and the
  layout of the segment. Svc_Repo: the client's cache and load balancing. Xid, Trx_Table: branch
  identifiers as text and the transaction table.

  Transactions. Tx: the state machine of src/tx.cpp, with the resource manager (the XA switch) and
  the message transport as parameters. Tx_Props: invariants over any resource manager that keeps the
  XA contract (a locale, interpreted on the null switch of src/nonexa.cpp). Tpc: two-phase commit
  over any transport that answers every request (a locale, interpreted on the transaction manager's
  own service). Tx_Claims: the results. Tp_Trx: the ATMI calls over them (src/trx.cpp).

  Messages. Atmi: constants and the exception boundary of the ATMI calls. Mem: typed buffers as
  blocks of memory with the table of types (src/mem.cpp); \<open>malloc\<close> and \<open>realloc\<close> are parameters.
  Mem_Props: export and import, owner variables. Ipc: messages, \<open>qsend\<close> and \<open>qrecv\<close> over the system
  calls (src/ipc.cpp); Ipc_Props has a locale for what System V queues and temporary files promise,
  one for a transport of messages, the second as a sublocale of the first, and an interpretation of
  both on a kernel of lists (\<open>kern\<close>).

  Calls. Resp: the reply table (src/resp.h). Client: src/client.cpp, with a process as its client
  object, transaction context, typed buffers and operating system. Client_Props: waiting for replies
  over any transport; Client_Claims: requests, replies, time-outs and the transaction around them.
  Server: src/server.cpp; the functions of the services are a parameter that says how each ends.
  Server_Props, Server_Claims: dispatching, replies, advertisements, stopping, and a call from the
  client through the server and back. The waiting loop of \<open>tpgetrply\<close> and the loop of \<open>dispatch\<close> are
  partial functions, since both may wait for ever; the theorems say when they return.

  Watchdog. Bbl: the rounds of src/BBL.cpp over the shared tables; Bbl_Props: what a round leaves in the
  tables, and how it ends the wait of a client (composed with src/client.cpp).

  Field tables. Basic_Parser: the reading functions of src/basic_parser.h. Field_Table: the parser of
  src/fieldtbl32.h, the maps of src/fbfr32fld.h and the header of src/mkfldhdr32.cpp.
  Field_Table_Props: tables written line by line (\<open>src_line\<close>) and what is read from them.

  Printed buffers. Fml_Text: \<open>fprint\<close> of src/fbfr32.h and the reader of src/extreader.h, with the calls of
  src/fml32.cpp. Printing recurs into nested buffers with the size of the buffer as fuel, reading with one
  more than the characters of the text, of which each line takes one (\<open>ext_lines_fuel\<close>: more changes nothing).
  Fml_Text_Props: what is printed is read back.

  Configuration. Ubb: the reader of src/ubbreader.h, the sizes of src/tmloadcf.cpp and src/ubb2mib.cpp, which
  fills the tables of an empty domain; a map of parameters is a partial function, as only lookups and
  insertions are used. Ubb_Props: what the tables hold afterwards, over the declared servers in order;
  Ubb_Fits: which configurations are loaded without an exception; Ubb_Text: configurations written line by
  line and what the reader returns for them; Ubb_Claims: the results, and the block time and sizes.

  Administration. Admin: src/tpadmcall.cpp with \<open>fml32buf\<close> of src/fux.h; a report is a list of rows of fields, of
  which computing one may throw. Admin_Props: what putting rows leaves in a buffer, as lists of occurrences,
  for any table (the buffer grows by itself; fewer than 2 GB are needed for tables of up to 65535 entries);
  Admin_Claims: the reports on services and advertisements, and changing a server.

  Not modelled: semaphores and the locks they implement (every operation on the shared memory is one
  step), the threads of a server beyond the first, the parsing of command lines, the command line
  programs and code generators, logging. Conversions between floating point numbers and text, regular
  expressions and, for expressions, the field tables are parameters.
\<close>

end
